(* ===== verification/Prelude.thy ===== *)
theory Prelude
  imports Main "HOL-Library.AList"
begin

text \<open>
  The prelude of the development: the result types of fallible code, the JavaScript \<open>Map\<close>
  as an insertion-ordered association list, safe integers, ASCII text (hexadecimal digits,
  lower-casing) and the stable sort of \<^verbatim>\<open>Array.prototype.sort\<close>.

  A function of the source that may throw returns \<open>'e + 'a\<close>, \<open>Inl\<close> for the thrown error. An
  operation of a store returns \<open>('e + 'a) \<times> 's\<close>: what the caller sees and the state that is
  left behind. A throw of JavaScript undoes nothing, so the state at the throw is part of the
  result, and that failing operations leave the store as it was is a theorem and not a
  convention of the model.
\<close>

named_theorems res_simps \<open>when a chain of fallible steps returns or throws\<close>
named_theorems js_map \<open>lookup, update and delete on insertion-ordered maps\<close>

section \<open>Fallible steps\<close>

definition bindR :: "'e + 'a \<Rightarrow> ('a \<Rightarrow> 'e + 'b) \<Rightarrow> 'e + 'b" where
  "bindR m f = (case m of Inl e \<Rightarrow> Inl e | Inr x \<Rightarrow> f x)"

definition ensure :: "bool \<Rightarrow> 'e \<Rightarrow> 'e + unit" where
  "ensure c e = (if c then Inr () else Inl e)"

text \<open>\<open>for (const x of xs) check(x)\<close>: the first throw ends the loop.\<close>

fun forR :: "('a \<Rightarrow> 'e + unit) \<Rightarrow> 'a list \<Rightarrow> 'e + unit" where
  "forR f [] = Inr ()"
| "forR f (x # xs) = bindR (f x) (\<lambda>_. forR f xs)"

text \<open>\<open>xs.map(f)\<close> for a function that may throw.\<close>

fun mapR :: "('a \<Rightarrow> 'e + 'b) \<Rightarrow> 'a list \<Rightarrow> 'e + 'b list" where
  "mapR f [] = Inr []"
| "mapR f (x # xs) = bindR (f x) (\<lambda>y. bindR (mapR f xs) (\<lambda>ys. Inr (y # ys)))"

text \<open>A loop that threads an accumulator and may throw.\<close>

fun foldR :: "('a \<Rightarrow> 's \<Rightarrow> 'e + 's) \<Rightarrow> 'a list \<Rightarrow> 's \<Rightarrow> 'e + 's" where
  "foldR f [] s = Inr s"
| "foldR f (x # xs) s = bindR (f x s) (foldR f xs)"

text \<open>One step of a store operation that only reads: on a throw the state stays \<open>s\<close>.\<close>

definition attempt :: "'e + 'a \<Rightarrow> 's \<Rightarrow> ('a \<Rightarrow> ('e + 'b) \<times> 's) \<Rightarrow> ('e + 'b) \<times> 's" where
  "attempt m s k = (case m of Inl e \<Rightarrow> (Inl e, s) | Inr x \<Rightarrow> k x)"

text \<open>A call of another stateful component, whose new state \<open>put\<close> stores in ours.\<close>

definition invoke ::
  "('e + 'a) \<times> 't \<Rightarrow> ('t \<Rightarrow> 's) \<Rightarrow> ('a \<Rightarrow> 's \<Rightarrow> ('e + 'b) \<times> 's) \<Rightarrow> ('e + 'b) \<times> 's" where
  "invoke rt put k = (case rt of (Inl e, t) \<Rightarrow> (Inl e, put t) | (Inr x, t) \<Rightarrow> k x (put t))"

text \<open>
  The simplifier works on the first step of a chain before it looks at the rest, and never inside
  the errors and continuations that are not reached.
\<close>

lemma bindR_cong [cong]: "m = m' \<Longrightarrow> bindR m f = bindR m' f"
  by simp

lemma ensure_cong [cong]: "c = c' \<Longrightarrow> ensure c e = ensure c' e"
  by simp

lemma forR_cong [cong]: "xs = ys \<Longrightarrow> forR f xs = forR f ys"
  by simp

lemma attempt_cong [cong]: "m = m' \<Longrightarrow> s = s' \<Longrightarrow> attempt m s k = attempt m' s' k"
  by simp

lemma invoke_cong [cong]: "rt = rt' \<Longrightarrow> invoke rt put k = invoke rt' put k"
  by simp

lemma bindR_simps [simp]: "bindR (Inl e) f = Inl e" "bindR (Inr x) f = f x"
  by (simp_all add: bindR_def)

lemma bindR_eq_Inr [res_simps]: "bindR m f = Inr y \<longleftrightarrow> (\<exists>x. m = Inr x \<and> f x = Inr y)"
  by (cases m) simp_all

lemma bindR_eq_Inl [res_simps]:
  "bindR m f = Inl e \<longleftrightarrow> m = Inl e \<or> (\<exists>x. m = Inr x \<and> f x = Inl e)"
  by (cases m) simp_all

lemma ensure_simps [simp]: "ensure True e = Inr ()" "ensure False e = Inl e"
  by (simp_all add: ensure_def)

lemma ensure_eq_Inr [res_simps]: "ensure c e = Inr u \<longleftrightarrow> c"
  by (simp add: ensure_def)

lemma ensure_eq_Inl [res_simps]: "ensure c e = Inl e' \<longleftrightarrow> \<not> c \<and> e' = e"
  by (auto simp: ensure_def)

lemma forR_eq_Inr [res_simps]: "forR f xs = Inr u \<longleftrightarrow> (\<forall>x \<in> set xs. f x = Inr ())"
  by (induction xs) (auto simp: res_simps)

text \<open>
  What a chain of steps keeps, one rule per construct: the state of an operation satisfies \<open>P\<close> when it does
  on every path through the chain.
\<close>

lemma attempt_keeps: "P s \<Longrightarrow> (\<And>x. m = Inr x \<Longrightarrow> P (snd (k x))) \<Longrightarrow> P (snd (attempt m s k))"
  by (cases m) (simp_all add: attempt_def)

lemma invoke_keeps: "P (put (snd rt)) \<Longrightarrow> (\<And>x. fst rt = Inr x \<Longrightarrow> P (snd (k x (put (snd rt))))) \<Longrightarrow> P (snd (invoke rt put k))"
  by (cases rt; cases "fst rt") (simp_all add: invoke_def)

lemma option_keeps: "(x = None \<Longrightarrow> P (snd a)) \<Longrightarrow> (\<And>y. x = Some y \<Longrightarrow> P (snd (b y))) \<Longrightarrow> P (snd (case x of None \<Rightarrow> a | Some y \<Rightarrow> b y))"
  by (cases x) simp_all

lemma if_keeps: "(c \<Longrightarrow> P (snd a)) \<Longrightarrow> (\<not> c \<Longrightarrow> P (snd b)) \<Longrightarrow> P (snd (if c then a else b))"
  by simp

lemma prod_keeps: "(\<And>a b. x = (a, b) \<Longrightarrow> P (snd (f a b))) \<Longrightarrow> P (snd (case x of (a, b) \<Rightarrow> f a b))"
  by (cases x) simp

lemmas keeping = attempt_keeps invoke_keeps option_keeps if_keeps prod_keeps

lemma mapR_length: "mapR f xs = Inr ys \<Longrightarrow> length ys = length xs"
  by (induction xs arbitrary: ys) (auto simp: res_simps)

lemma mapR_nth: "mapR f xs = Inr ys \<Longrightarrow> i < length xs \<Longrightarrow> f (xs ! i) = Inr (ys ! i)"
proof (induction xs arbitrary: ys i)
  case (Cons x xs)
  then show ?case by (cases i) (auto simp: res_simps)
qed simp

lemma foldR_append: "foldR f (xs @ ys) s = bindR (foldR f xs s) (foldR f ys)"
proof (induction xs arbitrary: s)
  case (Cons x xs)
  then show ?case by (cases "f x s") simp_all
qed simp

text \<open>The invariant rule of the loops that thread a state.\<close>

lemma foldR_invariant:
  assumes "foldR f xs s = Inr t" and "P s"
    and "\<And>x s t. x \<in> set xs \<Longrightarrow> P s \<Longrightarrow> f x s = Inr t \<Longrightarrow> P t"
  shows "P t"
  using assms
proof (induction xs arbitrary: s)
  case (Cons x xs)
  from Cons.prems(1) obtain s' where s': "f x s = Inr s'" "foldR f xs s' = Inr t"
    by (auto simp: res_simps)
  have "P s'" using Cons.prems(2,3) s'(1) by auto
  with s'(2) Cons.prems(3) show ?case by (intro Cons.IH) auto
qed simp

lemma attempt_simps [simp]: "attempt (Inl e) s k = (Inl e, s)" "attempt (Inr x) s k = k x"
  by (simp_all add: attempt_def)

lemma attempt_eq_Inr [res_simps]:
  "attempt m s k = (Inr y, s') \<longleftrightarrow> (\<exists>x. m = Inr x \<and> k x = (Inr y, s'))"
  by (cases m) simp_all

lemma attempt_eq_Inl [res_simps]:
  "attempt m s k = (Inl e, s') \<longleftrightarrow>
     m = Inl e \<and> s' = s \<or> (\<exists>x. m = Inr x \<and> k x = (Inl e, s'))"
  by (cases m) auto

lemma invoke_simps [simp]:
  "invoke (Inl e, t) put k = (Inl e, put t)" "invoke (Inr x, t) put k = k x (put t)"
  by (simp_all add: invoke_def)

lemma invoke_eq_Inr [res_simps]:
  "invoke rt put k = (Inr y, s') \<longleftrightarrow> (\<exists>x t. rt = (Inr x, t) \<and> k x (put t) = (Inr y, s'))"
  by (cases rt; cases "fst rt") (auto simp: invoke_def)

lemma invoke_eq_Inl [res_simps]:
  "invoke rt put k = (Inl e, s') \<longleftrightarrow>
     (\<exists>t. rt = (Inl e, t) \<and> s' = put t) \<or> (\<exists>x t. rt = (Inr x, t) \<and> k x (put t) = (Inl e, s'))"
  by (cases rt; cases "fst rt") (auto simp: invoke_def)

section \<open>JavaScript maps\<close>

text \<open>
  A \<open>Map\<close> iterates in insertion order and \<open>set\<close> on a present key keeps its place, which is
  what \<open>AList.update\<close> does.
\<close>

type_synonym ('k, 'v) jsmap = "('k \<times> 'v) list"

abbreviation js_get :: "('k, 'v) jsmap \<Rightarrow> 'k \<Rightarrow> 'v option" where
  "js_get m k \<equiv> map_of m k"

abbreviation js_set :: "'k \<Rightarrow> 'v \<Rightarrow> ('k, 'v) jsmap \<Rightarrow> ('k, 'v) jsmap" where
  "js_set k v m \<equiv> AList.update k v m"

abbreviation js_delete :: "'k \<Rightarrow> ('k, 'v) jsmap \<Rightarrow> ('k, 'v) jsmap" where
  "js_delete k m \<equiv> AList.delete k m"

abbreviation js_has :: "('k, 'v) jsmap \<Rightarrow> 'k \<Rightarrow> bool" where
  "js_has m k \<equiv> js_get m k \<noteq> None"

abbreviation js_values :: "('k, 'v) jsmap \<Rightarrow> 'v list" where
  "js_values m \<equiv> map snd m"

abbreviation js_wf :: "('k, 'v) jsmap \<Rightarrow> bool" where
  "js_wf m \<equiv> distinct (map fst m)"

declare map_of_eq_Some_iff [simp del] Some_eq_map_of_iff [simp del]

lemma js_get_set [js_map, simp]: "js_get (js_set k v m) = (js_get m)(k \<mapsto> v)"
  by (rule update_conv')

lemma js_get_delete [js_map, simp]: "js_get (js_delete k m) = (js_get m)(k := None)"
  by (rule delete_conv')

lemma js_wf_set [js_map, intro, simp]: "js_wf m \<Longrightarrow> js_wf (js_set k v m)"
  by (rule distinct_update)

lemma js_wf_delete [js_map, intro, simp]: "js_wf m \<Longrightarrow> js_wf (js_delete k m)"
  by (rule distinct_delete)

lemma js_set_fresh: "js_get m k = None \<Longrightarrow> js_set k v m = m @ [(k, v)]"
  by (induction m) (auto split: if_splits)

lemma js_values_fresh [js_map]: "js_get m k = None \<Longrightarrow> js_values (js_set k v m) = js_values m @ [v]"
  by (simp add: js_set_fresh)

lemma js_get_in_values: "js_get m k = Some v \<Longrightarrow> v \<in> set (js_values m)"
  by (auto dest: map_of_SomeD intro: rev_image_eqI)

lemma js_values_get: "js_wf m \<Longrightarrow> v \<in> set (js_values m) \<longleftrightarrow> (\<exists>k. js_get m k = Some v)"
  by (auto simp: map_of_eq_Some_iff) force

text \<open>
  How a capacity counter moves: a \<open>set\<close> on a fresh key adds at most one matching value, and a
  \<open>set\<close> that replaces a value by one of the same class keeps the count.
\<close>

definition count_values :: "('v \<Rightarrow> bool) \<Rightarrow> ('k, 'v) jsmap \<Rightarrow> nat" where
  "count_values P m = length (filter P (js_values m))"

lemma count_values_Nil [simp]: "count_values P [] = 0"
  by (simp add: count_values_def)

lemma count_values_fresh:
  "js_get m k = None \<Longrightarrow> count_values P (js_set k v m) = count_values P m + (if P v then 1 else 0)"
  by (simp add: js_set_fresh count_values_def)

lemma count_values_replace:
  "js_get m k = Some v \<Longrightarrow> P v' = P v \<Longrightarrow> count_values P (js_set k v' m) = count_values P m"
  by (induction m) (auto simp: count_values_def split: if_splits)

lemma js_set_same: "js_get m k = Some v \<Longrightarrow> js_set k v m = m"
  by (induction m) (auto split: if_splits)

lemma nth_update_if: "xs[i := x] ! k = (if k = i \<and> i < length xs then x else xs ! k)"
  by (cases "k = i"; cases "i < length xs") (simp_all add: list_update_beyond)

section \<open>Safe integers\<close>

text \<open>
  Numbers of the records are integers. \<^verbatim>\<open>Number.isSafeInteger\<close> holds up to \<open>2\<^sup>5\<^sup>3 - 1\<close> in
  magnitude; fractions and infinities, which the same guards reject, are not represented.
\<close>

definition MAX_SAFE_INTEGER :: int where
  "MAX_SAFE_INTEGER = 9007199254740991"

definition isSafeInteger :: "int \<Rightarrow> bool" where
  "isSafeInteger n \<longleftrightarrow> - MAX_SAFE_INTEGER \<le> n \<and> n \<le> MAX_SAFE_INTEGER"

section \<open>Text\<close>

text \<open>
  A string is the list of the bytes of its UTF-8 encoding, so \<^verbatim>\<open>Buffer.byteLength\<close> is \<open>length\<close>.
  \<^verbatim>\<open>toLowerCase\<close> is used on hexadecimal text only; it is modelled on ASCII letters.
\<close>

definition code :: "char \<Rightarrow> nat" where
  "code c = of_char c"

definition isDigit :: "char \<Rightarrow> bool" where
  "isDigit c \<longleftrightarrow> 48 \<le> code c \<and> code c \<le> 57"

definition isUpper :: "char \<Rightarrow> bool" where
  "isUpper c \<longleftrightarrow> 65 \<le> code c \<and> code c \<le> 90"

definition isLower :: "char \<Rightarrow> bool" where
  "isLower c \<longleftrightarrow> 97 \<le> code c \<and> code c \<le> 122"

definition isHexDigit :: "char \<Rightarrow> bool" where
  "isHexDigit c \<longleftrightarrow>
     isDigit c \<or> 97 \<le> code c \<and> code c \<le> 102 \<or> 65 \<le> code c \<and> code c \<le> 70"

definition isLowerHexDigit :: "char \<Rightarrow> bool" where
  "isLowerHexDigit c \<longleftrightarrow> isDigit c \<or> 97 \<le> code c \<and> code c \<le> 102"

definition lower :: "char \<Rightarrow> char" where
  "lower c = (if isUpper c then char_of (code c + 32) else c)"

definition toLowerCase :: "string \<Rightarrow> string" where
  "toLowerCase s = map lower s"

definition same :: "string \<Rightarrow> string \<Rightarrow> bool" where
  "same a b \<longleftrightarrow> toLowerCase a = toLowerCase b"

text \<open>The pattern \<^verbatim>\<open>^0x[0-9a-fA-F]{n}$\<close>.\<close>

definition hexOf :: "nat \<Rightarrow> string \<Rightarrow> bool" where
  "hexOf n s \<longleftrightarrow> length s = n + 2 \<and> take 2 s = ''0x'' \<and> list_all isHexDigit (drop 2 s)"

text \<open>The pattern \<^verbatim>\<open>^(0|[1-9][0-9]{0,77})$\<close> and the value of \<^verbatim>\<open>BigInt\<close> on it.\<close>

definition isDecimal :: "string \<Rightarrow> bool" where
  "isDecimal s \<longleftrightarrow> s \<noteq> [] \<and> length s \<le> 78 \<and> list_all isDigit s \<and> (s = ''0'' \<or> hd s \<noteq> CHR ''0'')"

definition bigInt :: "string \<Rightarrow> int" where
  "bigInt s = foldl (\<lambda>n c. 10 * n + (int (code c) - 48)) 0 s"

lemma same_refl [simp]: "same a a"
  by (simp add: same_def)

lemma same_sym: "same a b \<Longrightarrow> same b a"
  by (simp add: same_def)

lemma same_trans: "same a b \<Longrightarrow> same b c \<Longrightarrow> same a c"
  by (simp add: same_def)

lemma lower_lower [simp]: "lower (lower c) = lower c"
  by (auto simp: lower_def isUpper_def code_def)

lemma toLowerCase_idem [simp]: "toLowerCase (toLowerCase s) = toLowerCase s"
  by (simp add: toLowerCase_def)

lemma toLowerCase_length [simp]: "length (toLowerCase s) = length s"
  by (simp add: toLowerCase_def)

lemma same_lower [simp]: "same (toLowerCase a) b = same a b" "same a (toLowerCase b) = same a b"
  by (simp_all add: same_def)

lemma hexOf_replicate: "isHexDigit c \<Longrightarrow> hexOf n (''0x'' @ replicate n c)"
  by (auto simp: hexOf_def list_all_iff)

section \<open>Stable sorting by a comparison\<close>

fun insort_by :: "('a \<Rightarrow> 'a \<Rightarrow> bool) \<Rightarrow> 'a \<Rightarrow> 'a list \<Rightarrow> 'a list" where
  "insort_by le x [] = [x]"
| "insort_by le x (y # ys) = (if le x y then x # y # ys else y # insort_by le x ys)"

definition sort_by :: "('a \<Rightarrow> 'a \<Rightarrow> bool) \<Rightarrow> 'a list \<Rightarrow> 'a list" where
  "sort_by le xs = foldr (insort_by le) xs []"

text \<open>\<^verbatim>\<open>Buffer.compare(a, b) <= 0\<close>: lexicographic on bytes, a prefix first.\<close>

fun bytes_le :: "string \<Rightarrow> string \<Rightarrow> bool" where
  "bytes_le [] ys = True"
| "bytes_le (x # xs) [] = False"
| "bytes_le (x # xs) (y # ys) = (code x < code y \<or> x = y \<and> bytes_le xs ys)"

lemma set_insort_by [simp]: "set (insort_by le x xs) = insert x (set xs)"
  by (induction xs) auto

lemma sort_by_simps [simp]:
  "sort_by le [] = []" "sort_by le (x # xs) = insort_by le x (sort_by le xs)"
  by (simp_all add: sort_by_def)

lemma set_sort_by [simp]: "set (sort_by le xs) = set xs"
  by (induction xs) simp_all

lemma length_sort_by [simp]: "length (sort_by le xs) = length xs"
proof -
  have ins: "length (insort_by le x ys) = Suc (length ys)" for x ys
    by (induction ys) simp_all
  show ?thesis by (induction xs) (simp_all add: ins)
qed

lemma distinct_sort_by [simp]: "distinct (sort_by le xs) = distinct xs"
proof -
  have ins: "distinct (insort_by le x ys) = (x \<notin> set ys \<and> distinct ys)" for x ys
    by (induction ys) auto
  show ?thesis by (induction xs) (simp_all add: ins)
qed

lemma sorted_sort_by:
  assumes total: "\<And>x y. le x y \<or> le y x" and trans: "\<And>x y z. le x y \<Longrightarrow> le y z \<Longrightarrow> le x z"
  shows "sorted_wrt le (sort_by le xs)"
proof -
  have ins: "sorted_wrt le ys \<Longrightarrow> sorted_wrt le (insort_by le x ys)" for x ys
    by (induction ys) (auto dest: trans, metis total trans)
  show ?thesis by (induction xs) (simp_all add: ins)
qed

lemma bytes_le_refl [simp]: "bytes_le xs xs"
  by (induction xs) simp_all

lemma bytes_le_total: "bytes_le xs ys \<or> bytes_le ys xs"
proof (induction xs ys rule: bytes_le.induct)
  case (3 x xs y ys)
  have "code x = code y \<Longrightarrow> x = y" by (simp add: code_def)
  with 3 show ?case by auto
qed simp_all

lemma bytes_le_trans: "bytes_le xs ys \<Longrightarrow> bytes_le ys zs \<Longrightarrow> bytes_le xs zs"
proof (induction xs ys arbitrary: zs rule: bytes_le.induct)
  case (3 x xs y ys)
  then show ?case by (cases zs) auto
qed simp_all

lemma bytes_le_antisym: "bytes_le xs ys \<Longrightarrow> bytes_le ys xs \<Longrightarrow> xs = ys"
  by (induction xs ys rule: bytes_le.induct) (auto elim: bytes_le.elims)

end
