(* ===== verification/Json.thy ===== *)
theory Json
  imports Prelude
begin

text \<open>
  JSON values and \<^verbatim>\<open>JSON.stringify\<close>. The stores of the REST service use the serialised text
  twice: its byte length bounds what a record may occupy, and the text of a small array is the
  key of their maps (\<^verbatim>\<open>JSON.stringify([account, principal, key])\<close>). The second use is only
  right if the text determines the array: the last section proves that it does.
\<close>

section \<open>Values and their text\<close>

text \<open>
  Numbers of the records are integers. A \<open>bigint\<close> inside a value makes \<^verbatim>\<open>JSON.stringify\<close>
  throw, which is the result \<open>None\<close> below. A field whose value is \<open>undefined\<close> is left out by
  the functions that build the objects.
\<close>

datatype json =
    JNull
  | JBool bool
  | JNum int
  | JBig int
  | JStr string
  | JArr "json list"
  | JObj "(string \<times> json) list"

definition hexDigitChar :: "nat \<Rightarrow> char" where
  "hexDigitChar n = (if n < 10 then char_of (48 + n) else char_of (87 + n))"

text \<open>The escapes of \<^verbatim>\<open>QuoteJSONString\<close>.\<close>

definition escapeChar :: "char \<Rightarrow> string" where
  "escapeChar c =
     (let n = code c in
      if n = 34 then [char_of (92::nat), char_of (34::nat)]
      else if n = 92 then [char_of (92::nat), char_of (92::nat)]
      else if n = 8 then [char_of (92::nat), CHR ''b'']
      else if n = 9 then [char_of (92::nat), CHR ''t'']
      else if n = 10 then [char_of (92::nat), CHR ''n'']
      else if n = 12 then [char_of (92::nat), CHR ''f'']
      else if n = 13 then [char_of (92::nat), CHR ''r'']
      else if n < 32 then [char_of (92::nat), CHR ''u'', CHR ''0'', CHR ''0'',
                           hexDigitChar (n div 16), hexDigitChar (n mod 16)]
      else [c])"

abbreviation quoteChar :: char where
  "quoteChar \<equiv> char_of (34::nat)"

definition quote :: "string \<Rightarrow> string" where
  "quote s = quoteChar # concat (map escapeChar s) @ [quoteChar]"

fun natText :: "nat \<Rightarrow> string" where
  "natText n = (if n < 10 then [char_of (48 + n)] else natText (n div 10) @ [char_of (48 + n mod 10)])"

declare natText.simps [simp del]

definition intText :: "int \<Rightarrow> string" where
  "intText n = (if n < 0 then CHR ''-'' # natText (nat (- n)) else natText (nat n))"

fun commaSep :: "string list \<Rightarrow> string" where
  "commaSep [] = []"
| "commaSep [x] = x"
| "commaSep (x # xs) = x @ '','' @ commaSep xs"

text \<open>All of a list of optional texts, or nothing when one of them is missing.\<close>

fun allTexts :: "string option list \<Rightarrow> string list option" where
  "allTexts [] = Some []"
| "allTexts (None # xs) = None"
| "allTexts (Some x # xs) = map_option ((#) x) (allTexts xs)"

fun stringify :: "json \<Rightarrow> string option"
  and stringifyFields :: "(string \<times> json) list \<Rightarrow> string option list" where
  "stringify JNull = Some ''null''"
| "stringify (JBool b) = Some (if b then ''true'' else ''false'')"
| "stringify (JNum n) = Some (intText n)"
| "stringify (JBig n) = None"
| "stringify (JStr s) = Some (quote s)"
| "stringify (JArr xs) = map_option (\<lambda>ts. ''['' @ commaSep ts @ '']'') (allTexts (map stringify xs))"
| "stringify (JObj fs) = map_option (\<lambda>ts. ''{'' @ commaSep ts @ ''}'') (allTexts (stringifyFields fs))"
| "stringifyFields [] = []"
| "stringifyFields ((k, v) # fs) =
     map_option (\<lambda>t. quote k @ '':'' @ t) (stringify v) # stringifyFields fs"

text \<open>Fields of an object: a required one, and one that is left out when it is \<open>undefined\<close>.\<close>

definition optField :: "string \<Rightarrow> ('a \<Rightarrow> json) \<Rightarrow> 'a option \<Rightarrow> (string \<times> json) list" where
  "optField k f v = (case v of None \<Rightarrow> [] | Some x \<Rightarrow> [(k, f x)])"

section \<open>The text of a key array determines the array\<close>

text \<open>Reading one escaped character back.\<close>

definition hexValue :: "char \<Rightarrow> nat" where
  "hexValue c = (if code c < 58 then code c - 48 else code c - 87)"

fun readChar :: "string \<Rightarrow> (char \<times> string) option" where
  "readChar [] = None"
| "readChar (c # cs) =
     (if code c \<noteq> 92 then Some (c, cs)
      else (case cs of
          [] \<Rightarrow> None
        | d # ds \<Rightarrow>
            if code d = 34 \<or> code d = 92 then Some (d, ds)
            else if d = CHR ''b'' then Some (char_of (8::nat), ds)
            else if d = CHR ''t'' then Some (char_of (9::nat), ds)
            else if d = CHR ''n'' then Some (char_of (10::nat), ds)
            else if d = CHR ''f'' then Some (char_of (12::nat), ds)
            else if d = CHR ''r'' then Some (char_of (13::nat), ds)
            else (case ds of
                a # b # x # y # rest \<Rightarrow> Some (char_of (16 * hexValue x + hexValue y), rest)
              | _ \<Rightarrow> None)))"

lemma code_less: "code c < 256"
  by (simp add: code_def)

lemma code_char_of: "n < 256 \<Longrightarrow> code (char_of n) = n"
  by (simp add: code_def)

lemma char_of_code [simp]: "char_of (code c) = c"
  by (simp add: code_def)

lemma char_of_eq: "n < 256 \<Longrightarrow> char_of n = c \<longleftrightarrow> code c = n"
  using code_char_of [of n] char_of_code [of c] by auto

lemma code_letters:
  "code (CHR ''b'') = 98" "code (CHR ''t'') = 116" "code (CHR ''n'') = 110"
  "code (CHR ''f'') = 102" "code (CHR ''r'') = 114" "code (CHR ''u'') = 117"
  by (simp_all add: code_def)

lemma char_eq_code: "c = d \<longleftrightarrow> code c = code d"
  by (simp add: code_def)

lemma hexValue_digit: "n < 16 \<Longrightarrow> hexValue (hexDigitChar n) = n"
  by (simp add: hexValue_def hexDigitChar_def code_char_of)

lemma readChar_escape: "readChar (escapeChar c @ r) = Some (c, r)"
proof (cases "code c < 32")
  case True
  then have "16 * (code c div 16) + code c mod 16 = code c" "code c div 16 < 16" "code c mod 16 < 16"
    by simp_all
  with True show ?thesis
    by (auto simp: escapeChar_def Let_def code_char_of hexValue_digit code_letters char_eq_code
        char_of_eq)
next
  case False
  then show ?thesis
    by (auto simp: escapeChar_def Let_def code_char_of char_of_eq)
qed

lemma escape_neq_quote: "escapeChar c = d # ds \<Longrightarrow> d \<noteq> quoteChar"
  by (auto simp: escapeChar_def Let_def code_char_of char_eq_code split: if_splits)

lemma escapeChar_nonempty [simp]: "escapeChar c \<noteq> []"
  by (simp add: escapeChar_def Let_def)

lemma escape_append_inj: "escapeChar c @ r = escapeChar d @ s \<Longrightarrow> c = d \<and> r = s"
  by (drule arg_cong [of _ _ readChar]) (simp only: readChar_escape option.inject prod.inject)

lemma escaped_inj:
  "concat (map escapeChar a) @ quoteChar # x = concat (map escapeChar b) @ quoteChar # y
    \<Longrightarrow> a = b \<and> x = y"
proof (induction a arbitrary: b)
  case Nil
  show ?case
  proof (cases b)
    case (Cons d ds)
    obtain e es where "escapeChar d = e # es" by (cases "escapeChar d") auto
    with Nil Cons escape_neq_quote [of d e es] show ?thesis by simp
  qed (use Nil in simp)
next
  case (Cons c cs)
  show ?case
  proof (cases b)
    case Nil
    obtain e es where "escapeChar c = e # es" by (cases "escapeChar c") auto
    with Cons.prems Nil escape_neq_quote [of c e es] show ?thesis by simp
  next
    case (Cons d ds)
    with Cons.prems have "escapeChar c @ concat (map escapeChar cs) @ quoteChar # x =
        escapeChar d @ concat (map escapeChar ds) @ quoteChar # y" by simp
    then have "c = d" and "concat (map escapeChar cs) @ quoteChar # x =
        concat (map escapeChar ds) @ quoteChar # y"
      by (auto dest: escape_append_inj)
    with Cons Cons.IH [of ds] show ?thesis by simp
  qed
qed

lemma quote_append_inj: "quote a @ x = quote b @ y \<longleftrightarrow> a = b \<and> x = y"
  using escaped_inj [of a x b y] by (auto simp: quote_def)

lemma quote_inj [simp]: "quote a = quote b \<longleftrightarrow> a = b"
  using quote_append_inj [of a "[]" b "[]"] by simp

lemma natText_digits: "list_all isDigit (natText n)"
proof (induction n rule: natText.induct)
  case (1 n)
  show ?case
  proof (cases "n < 10")
    case True
    then show ?thesis by (subst natText.simps) (simp add: isDigit_def code_char_of)
  next
    case False
    have "n mod 10 < 10" by simp
    then have "isDigit (char_of (48 + n mod 10))"
      unfolding isDigit_def by (subst (1 2) code_char_of) simp_all
    with 1 False show ?thesis by (subst natText.simps) simp
  qed
qed

lemma natText_nonempty [simp]: "natText n \<noteq> []"
  by (subst natText.simps) simp

lemma bigInt_snoc: "bigInt (s @ [c]) = 10 * bigInt s + (int (code c) - 48)"
  by (simp add: bigInt_def)

lemma bigInt_nonneg: "list_all isDigit s \<Longrightarrow> 0 \<le> bigInt s"
proof (induction s rule: rev_induct)
  case (snoc c s)
  then show ?case by (simp add: bigInt_snoc isDigit_def)
qed (simp add: bigInt_def)

lemma bigInt_natText: "bigInt (natText n) = int n"
proof (induction n rule: natText.induct)
  case (1 n)
  show ?case
  proof (cases "n < 10")
    case True
    then show ?thesis by (subst natText.simps) (simp add: bigInt_def code_char_of)
  next
    case False
    have "10 * (int n div 10) + int n mod 10 = int n" by simp
    with False 1 show ?thesis
      by (subst natText.simps) (simp add: bigInt_snoc code_char_of zdiv_int zmod_int)
  qed
qed

lemma natText_inj [simp]: "natText m = natText n \<longleftrightarrow> m = n"
  by (metis bigInt_natText of_nat_eq_iff)

text \<open>A number is delimited by the first byte that is not a digit.\<close>

lemma digits_delimited:
  "list_all isDigit a \<Longrightarrow> list_all isDigit b \<Longrightarrow> \<not> isDigit c \<Longrightarrow> \<not> isDigit d \<Longrightarrow>
     a @ c # x = b @ d # y \<Longrightarrow> a = b \<and> c # x = d # y"
proof (induction a arbitrary: b)
  case Nil
  then show ?case by (cases b) auto
next
  case (Cons e a)
  then show ?case by (cases b) auto
qed

lemma minus_not_digit: "\<not> isDigit (CHR ''-'')" and comma_not_digit: "\<not> isDigit (CHR '','')"
  by (simp_all add: isDigit_def code_def)

lemma intText_comma_inj:
  "intText m @ CHR '','' # x = intText n @ CHR '','' # y \<longleftrightarrow> m = n \<and> x = y"
proof -
  have hd: "natText k @ r = CHR ''-'' # s \<longleftrightarrow> False" for k r s
    using natText_digits [of k] minus_not_digit by (cases "natText k") auto
  have hd': "CHR ''-'' # s = natText k @ r \<longleftrightarrow> False" for k r s
    using hd [of k r s] by metis
  have nats: "natText i @ CHR '','' # x = natText j @ CHR '','' # y \<longleftrightarrow> i = j \<and> x = y" for i j
    using digits_delimited [OF natText_digits [of i] natText_digits [of j]
        comma_not_digit comma_not_digit, of x y] natText_inj [of i j] by blast
  show ?thesis
    unfolding intText_def by (simp add: hd hd' nats) arith
qed

text \<open>The two shapes of keys the stores use: an array of strings, and a number with two strings.\<close>

definition keyText :: "json list \<Rightarrow> string" where
  "keyText xs = (case stringify (JArr xs) of Some t \<Rightarrow> t | None \<Rightarrow> [])"

lemma key2_inj [simp]:
  "keyText [JStr a, JStr b] = keyText [JStr c, JStr d] \<longleftrightarrow> a = c \<and> b = d"
  by (simp add: keyText_def quote_append_inj)

lemma key3_inj [simp]:
  "keyText [JStr a, JStr b, JStr c] = keyText [JStr a', JStr b', JStr c'] \<longleftrightarrow>
     a = a' \<and> b = b' \<and> c = c'"
  by (simp add: keyText_def quote_append_inj)

lemma key_num_inj [simp]:
  "keyText [JNum n, JStr a, JStr b] = keyText [JNum m, JStr c, JStr d] \<longleftrightarrow> n = m \<and> a = c \<and> b = d"
  by (simp add: keyText_def quote_append_inj intText_comma_inj)

lemma key_num3_inj [simp]:
  "keyText [JNum n, JStr a, JStr b, JStr e] = keyText [JNum m, JStr c, JStr d, JStr f] \<longleftrightarrow>
     n = m \<and> a = c \<and> b = d \<and> e = f"
  by (simp add: keyText_def quote_append_inj intText_comma_inj)

section \<open>A bound on the length of a text\<close>

text \<open>An upper bound that is cheap to compute, and whether a value has a text at all.\<close>

fun textBound :: "json \<Rightarrow> nat"
  and fieldsBound :: "(string \<times> json) list \<Rightarrow> nat" where
  "textBound JNull = 4"
| "textBound (JBool b) = 5"
| "textBound (JNum n) = (if \<bar>n\<bar> < 10 ^ 18 then 19 else nat \<bar>n\<bar> + 2)"
| "textBound (JBig n) = 0"
| "textBound (JStr s) = 6 * length s + 2"
| "textBound (JArr xs) = 2 + sum_list (map (\<lambda>x. textBound x + 1) xs)"
| "textBound (JObj fs) = 2 + fieldsBound fs"
| "fieldsBound [] = 0"
| "fieldsBound ((k, v) # fs) = 6 * length k + 4 + textBound v + fieldsBound fs"

fun hasText :: "json \<Rightarrow> bool"
  and haveTexts :: "(string \<times> json) list \<Rightarrow> bool" where
  "hasText (JBig n) = False"
| "hasText (JArr xs) = list_all hasText xs"
| "hasText (JObj fs) = haveTexts fs"
| "hasText JNull = True" | "hasText (JBool b) = True" | "hasText (JNum n) = True" | "hasText (JStr s) = True"
| "haveTexts [] = True"
| "haveTexts ((k, v) # fs) = (hasText v \<and> haveTexts fs)"

lemma quote_length: "length (quote s) \<le> 6 * length s + 2"
proof -
  have "length (escapeChar c) \<le> 6" for c by (simp add: escapeChar_def Let_def)
  then have "length (concat (map escapeChar s)) \<le> 6 * length s"
    by (induction s) (simp_all add: add_mono)
  then show ?thesis by (simp add: quote_def)
qed

lemma natText_length: "n < 10 ^ k \<Longrightarrow> k > 0 \<Longrightarrow> length (natText n) \<le> k"
proof (induction k arbitrary: n)
  case (Suc k)
  show ?case
  proof (cases "n < 10")
    case False
    with Suc.prems have "k > 0" by (cases k) auto
    with Suc have "length (natText (n div 10)) \<le> k" by (auto intro!: Suc.IH)
    with False show ?thesis by (subst natText.simps) simp
  qed (subst natText.simps, simp)
qed simp

lemma natText_length_le: "length (natText n) \<le> Suc n"
proof (induction n rule: natText.induct)
  case (1 n)
  then show ?case by (subst natText.simps) auto
qed

lemma intText_length: "length (intText n) \<le> textBound (JNum n)"
proof (cases "\<bar>n\<bar> < 10 ^ 18")
  case True
  then have "nat n < 10 ^ 18" "nat (- n) < 10 ^ 18" by auto
  then have "length (natText (nat n)) \<le> 18" "length (natText (nat (- n))) \<le> 18"
    using natText_length [of _ 18] by simp_all
  with True show ?thesis by (auto simp: intText_def)
next
  case False
  then show ?thesis
    using natText_length_le [of "nat n"] natText_length_le [of "nat (- n)"] by (auto simp: intText_def)
qed

lemma commaSep_length: "length (commaSep ts) \<le> sum_list (map (\<lambda>t. length t + 1) ts)"
  by (induction ts rule: commaSep.induct) auto

lemma allTexts_Some: "list_all (\<lambda>x. x \<noteq> None) xs \<Longrightarrow> allTexts xs = Some (map the xs)"
  by (induction xs rule: allTexts.induct) auto

lemma stringify_bound:
  "hasText v \<Longrightarrow> \<exists>t. stringify v = Some t \<and> length t \<le> textBound v"
  "haveTexts fs \<Longrightarrow> \<exists>ts. allTexts (stringifyFields fs) = Some ts \<and>
     sum_list (map (\<lambda>t. length t + 1) ts) \<le> fieldsBound fs"
proof (induction v and fs rule: stringify_stringifyFields.induct)
  case (3 n)
  show ?case using intText_length [of n] by simp
next
  case (5 s)
  show ?case using quote_length [of s] by simp
next
  case (6 xs)
  then have x: "\<exists>t. stringify x = Some t \<and> length t \<le> textBound x" if "x \<in> set xs" for x
    using that by (simp add: list_all_iff)
  have le: "sum_list (map (\<lambda>x. length (the (stringify x)) + 1) xs) \<le> sum_list (map (\<lambda>x. textBound x + 1) xs)"
    by (rule sum_list_mono) (use x in force)
  have "allTexts (map stringify xs) = Some (map (the \<circ> stringify) xs)"
    using allTexts_Some [of "map stringify xs"] x by (auto simp: list_all_iff)
  moreover have "length (commaSep (map (the \<circ> stringify) xs)) \<le> sum_list (map (\<lambda>x. textBound x + 1) xs)"
    using commaSep_length [of "map (the \<circ> stringify) xs"] le by (simp add: o_def)
  ultimately show ?case by simp
next
  case (7 fs)
  then obtain ts where "allTexts (stringifyFields fs) = Some ts"
    "sum_list (map (\<lambda>t. length t + 1) ts) \<le> fieldsBound fs" by auto
  with commaSep_length [of ts] show ?case by simp
next
  case (9 k v fs)
  then obtain t ts where "stringify v = Some t" "length t \<le> textBound v"
    "allTexts (stringifyFields fs) = Some ts" "sum_list (map (\<lambda>t. length t + 1) ts) \<le> fieldsBound fs" by auto
  with quote_length [of k] show ?case by simp
qed simp_all

end
