(* ===== verification/Core.thy ===== *)
theory Core
  imports Json
begin

text \<open>
  The vocabulary shared by every store of the REST service (\<^verbatim>\<open>src/src/rest/core.ts\<close> and
  \<^verbatim>\<open>src/src/rest/auth/shared.ts\<close>): actors, plan drafts, scopes and the errors that are thrown,
  with the JSON image of the records (fields in the order the source declares them, an absent
  optional field left out), which the byte bounds are computed from.
\<close>

section \<open>Errors\<close>

text \<open>\<open>DatabaseError\<close> is the error of the \<^verbatim>\<open>pg\<close> driver with its SQLSTATE.\<close>

datatype rest_error =
    RestError (err_status: int) (err_code: string) (err_message: string) (err_details: "json option")
  | RestAuthError (err_code: string) (err_status: int) (err_message: string)
  | TypeError (err_message: string)
  | DatabaseError (err_code: string)

type_synonym 'a res = "rest_error + 'a"

section \<open>Actors, calls and plan drafts\<close>

record RestActor =
  accountId :: string
  principalId :: string

record RestBlockEvidence =
  ev_chainId :: int
  ev_blockNumber :: string
  ev_blockHash :: string
  ev_timestamp :: string

record RestCall =
  call_chainId :: int
  call_to :: string
  call_data :: string
  call_value :: string
  call_label :: string
  call_dependsOn :: "int list"
  call_decoded :: json

record ProjectRef =
  prj_chainId :: int
  prj_projectId :: string
  prj_version6 :: bool

record RestPlanDraft =
  dr_operation :: string
  dr_account :: string
  dr_project :: "ProjectRef option"
  dr_calls :: "RestCall list"
  dr_evidence :: "RestBlockEvidence list"
  dr_summary :: json
  dr_warnings :: "string list"

definition json_of_RestActor :: "RestActor \<Rightarrow> json" where
  "json_of_RestActor a = JObj [(''accountId'', JStr (accountId a)), (''principalId'', JStr (principalId a))]"

definition json_of_RestBlockEvidence :: "RestBlockEvidence \<Rightarrow> json" where
  "json_of_RestBlockEvidence e = JObj
     [(''chainId'', JNum (ev_chainId e)), (''blockNumber'', JStr (ev_blockNumber e)),
      (''blockHash'', JStr (ev_blockHash e)), (''timestamp'', JStr (ev_timestamp e)),
      (''source'', JStr ''onchain'')]"

definition json_of_RestCall :: "RestCall \<Rightarrow> json" where
  "json_of_RestCall c = JObj
     [(''chainId'', JNum (call_chainId c)), (''to'', JStr (call_to c)), (''data'', JStr (call_data c)),
      (''value'', JStr (call_value c)), (''label'', JStr (call_label c)),
      (''dependsOn'', JArr (map JNum (call_dependsOn c))), (''decoded'', call_decoded c)]"

definition json_of_ProjectRef :: "ProjectRef \<Rightarrow> json" where
  "json_of_ProjectRef p = JObj
     ([(''chainId'', JNum (prj_chainId p)), (''projectId'', JStr (prj_projectId p))] @
      (if prj_version6 p then [(''version'', JNum 6)] else []))"

definition json_of_RestPlanDraft :: "RestPlanDraft \<Rightarrow> json" where
  "json_of_RestPlanDraft d = JObj
     ([(''operation'', JStr (dr_operation d)), (''account'', JStr (dr_account d))] @
      optField ''project'' json_of_ProjectRef (dr_project d) @
      [(''calls'', JArr (map json_of_RestCall (dr_calls d))),
       (''evidence'', JArr (map json_of_RestBlockEvidence (dr_evidence d))),
       (''summary'', dr_summary d), (''warnings'', JArr (map JStr (dr_warnings d)))])"

section \<open>Scopes\<close>

datatype BotScope = Read | Plan | Relay

definition ALL_BOT_SCOPES :: "BotScope list" where
  "ALL_BOT_SCOPES = [Read, Plan, Relay]"

definition isCanonicalGrantScopes :: "BotScope list \<Rightarrow> bool" where
  "isCanonicalGrantScopes scopes \<longleftrightarrow>
     length scopes \<ge> 1 \<and> length scopes \<le> length ALL_BOT_SCOPES \<and>
     list_all (\<lambda>i. scopes ! i = ALL_BOT_SCOPES ! i) [0 ..< length scopes]"

text \<open>Canonical scope lists are the three cumulative profiles.\<close>

lemma isCanonicalGrantScopes_iff:
  "isCanonicalGrantScopes scopes \<longleftrightarrow> scopes \<in> {[Read], [Read, Plan], [Read, Plan, Relay]}"
proof (cases scopes)
  case (Cons a as)
  then show ?thesis
  proof (cases as)
    case (Cons b bs)
    with \<open>scopes = a # as\<close> show ?thesis
      by (cases bs) (auto simp: isCanonicalGrantScopes_def ALL_BOT_SCOPES_def upt_rec nth_Cons')
  qed (auto simp: isCanonicalGrantScopes_def ALL_BOT_SCOPES_def)
qed (simp add: isCanonicalGrantScopes_def)

end
