(* ===== verification/TransactionTypes.thy ===== *)
theory TransactionTypes
  imports Core
begin

text \<open>
  The records of transaction plans (\<^verbatim>\<open>src/src/rest/transactions/types.ts\<close>) and of transport
  reservations, with their JSON images. The source's string unions are datatypes, so its
  membership tests on them (\<^verbatim>\<open>states.includes(...)\<close>) hold by typing.
\<close>

datatype StepState =
  Waiting | Reserved | Submitted | Unknown | Confirming | Confirmed | Reverted | Reorged

datatype SemanticStatus = SemVerified | SemFailed | SemUnknown | SemUnmodeled

datatype ReceiptStatus = Success | RevertedReceipt

datatype AttemptType = Legacy | Eip2930 | Eip1559

datatype ReservedTransport = Direct | Relayr | Erc4337

record SemanticResult =
  sem_status :: SemanticStatus
  sem_details :: "json option"

record StoredReceipt =
  rc_transactionHash :: string
  rc_blockHash :: string
  rc_blockNumber :: string
  rc_status :: ReceiptStatus
  rc_confirmations :: int
  rc_canonical :: bool
  rc_observedAt :: int
  rc_logs :: "json list"
  rc_logCount :: "int option"
  rc_logsHash :: "string option"
  rc_logsStored :: "bool option"

record LastError =
  le_code :: string
  le_message :: string

record SignedAttempt =
  at_hash :: string
  at_rawTransaction :: string
  at_sender :: string
  at_chainId :: int
  at_nonce :: string
  at_type :: AttemptType
  at_gas :: string
  at_maximumFeePerGas :: string
  at_maximumCost :: string
  at_reservedAt :: int
  at_leaseToken :: string
  at_leaseUntil :: int
  at_dispatchCount :: int
  at_broadcastAt :: "int option"
  at_lastError :: "LastError option"

record ExternalExecution =
  ex_transport :: ReservedTransport
  ex_bindingId :: string
  ex_chainId :: int
  ex_transactionHash :: "string option"

record StoredStep =
  st_index :: int
  st_state :: StepState
  st_attempt :: "SignedAttempt option"
  st_externalExecution :: "ExternalExecution option"
  st_receipt :: "StoredReceipt option"
  st_semantic :: "SemanticResult option"

record ExternalStepObservation =
  ob_index :: int
  ob_state :: StepState
  ob_transactionHash :: "string option"
  ob_receipt :: "StoredReceipt option"
  ob_semantic :: "SemanticResult option"

record PlanSmartAccount =
  sa_bindingId :: string
  sa_stateHash :: string
  sa_chainId :: int
  sa_address :: string
  sa_manifestRevision :: string

record StoredPlan =
  pl_id :: string
  pl_actor :: RestActor
  pl_draft :: RestPlanDraft
  pl_commitment :: string
  pl_createdAt :: int
  pl_expiresAt :: int
  pl_revision :: int
  pl_smartAccount :: "PlanSmartAccount option"
  pl_steps :: "StoredStep list"

record IdempotencyClaim =
  ic_key :: string
  ic_requestHash :: string
  ic_operation :: string

record Authorization =
  au_issuedAt :: int
  au_expiresAt :: int

record SubmissionClaim =
  cl_actor :: RestActor
  cl_planId :: string
  cl_stepIndex :: int
  cl_expectedRevision :: int
  cl_attempt :: SignedAttempt
  cl_idempotency :: IdempotencyClaim
  cl_now :: int
  cl_authorization :: "Authorization option"
  cl_dispatch :: bool

text \<open>\<^verbatim>\<open>TransportReservation\<close> of \<^verbatim>\<open>src/src/rest/transactions/transport-reservations.ts\<close>.\<close>

record TransportReservation =
  tr_stepIndex :: int
  tr_transport :: ReservedTransport
  tr_bindingId :: string

section \<open>JSON images\<close>

definition text_of_StepState :: "StepState \<Rightarrow> string" where
  "text_of_StepState s = (case s of Waiting \<Rightarrow> ''waiting'' | Reserved \<Rightarrow> ''reserved''
     | Submitted \<Rightarrow> ''submitted'' | Unknown \<Rightarrow> ''unknown'' | Confirming \<Rightarrow> ''confirming''
     | Confirmed \<Rightarrow> ''confirmed'' | Reverted \<Rightarrow> ''reverted'' | Reorged \<Rightarrow> ''reorged'')"

definition text_of_SemanticStatus :: "SemanticStatus \<Rightarrow> string" where
  "text_of_SemanticStatus s = (case s of SemVerified \<Rightarrow> ''verified'' | SemFailed \<Rightarrow> ''failed''
     | SemUnknown \<Rightarrow> ''unknown'' | SemUnmodeled \<Rightarrow> ''unmodeled'')"

definition text_of_ReceiptStatus :: "ReceiptStatus \<Rightarrow> string" where
  "text_of_ReceiptStatus s = (case s of Success \<Rightarrow> ''success'' | RevertedReceipt \<Rightarrow> ''reverted'')"

definition text_of_AttemptType :: "AttemptType \<Rightarrow> string" where
  "text_of_AttemptType t = (case t of Legacy \<Rightarrow> ''legacy'' | Eip2930 \<Rightarrow> ''eip2930'' | Eip1559 \<Rightarrow> ''eip1559'')"

definition text_of_ReservedTransport :: "ReservedTransport \<Rightarrow> string" where
  "text_of_ReservedTransport t = (case t of Direct \<Rightarrow> ''direct'' | Relayr \<Rightarrow> ''relayr'' | Erc4337 \<Rightarrow> ''erc4337'')"

lemma text_of_AttemptType_inj [simp]: "text_of_AttemptType a = text_of_AttemptType b \<longleftrightarrow> a = b"
  by (cases a; cases b) (simp_all add: text_of_AttemptType_def)

definition json_of_SemanticResult :: "SemanticResult \<Rightarrow> json" where
  "json_of_SemanticResult s = JObj
     ((''status'', JStr (text_of_SemanticStatus (sem_status s))) # optField ''details'' (\<lambda>d. d) (sem_details s))"

definition json_of_StoredReceipt :: "StoredReceipt \<Rightarrow> json" where
  "json_of_StoredReceipt r = JObj
     ([(''transactionHash'', JStr (rc_transactionHash r)), (''blockHash'', JStr (rc_blockHash r)),
       (''blockNumber'', JStr (rc_blockNumber r)), (''status'', JStr (text_of_ReceiptStatus (rc_status r))),
       (''confirmations'', JNum (rc_confirmations r)), (''canonical'', JBool (rc_canonical r)),
       (''observedAt'', JNum (rc_observedAt r)), (''logs'', JArr (rc_logs r))] @
      optField ''logCount'' JNum (rc_logCount r) @ optField ''logsHash'' JStr (rc_logsHash r) @
      optField ''logsStored'' JBool (rc_logsStored r))"

definition json_of_LastError :: "LastError \<Rightarrow> json" where
  "json_of_LastError e = JObj [(''code'', JStr (le_code e)), (''message'', JStr (le_message e))]"

definition json_of_SignedAttempt :: "SignedAttempt \<Rightarrow> json" where
  "json_of_SignedAttempt a = JObj
     ([(''hash'', JStr (at_hash a)), (''rawTransaction'', JStr (at_rawTransaction a)),
       (''sender'', JStr (at_sender a)), (''chainId'', JNum (at_chainId a)), (''nonce'', JStr (at_nonce a)),
       (''type'', JStr (text_of_AttemptType (at_type a))), (''gas'', JStr (at_gas a)),
       (''maximumFeePerGas'', JStr (at_maximumFeePerGas a)), (''maximumCost'', JStr (at_maximumCost a)),
       (''reservedAt'', JNum (at_reservedAt a)), (''leaseToken'', JStr (at_leaseToken a)),
       (''leaseUntil'', JNum (at_leaseUntil a)), (''dispatchCount'', JNum (at_dispatchCount a))] @
      optField ''broadcastAt'' JNum (at_broadcastAt a) @ optField ''lastError'' json_of_LastError (at_lastError a))"

definition json_of_ExternalExecution :: "ExternalExecution \<Rightarrow> json" where
  "json_of_ExternalExecution e = JObj
     ([(''transport'', JStr (text_of_ReservedTransport (ex_transport e))), (''bindingId'', JStr (ex_bindingId e)),
       (''chainId'', JNum (ex_chainId e))] @ optField ''transactionHash'' JStr (ex_transactionHash e))"

definition json_of_StoredStep :: "StoredStep \<Rightarrow> json" where
  "json_of_StoredStep s = JObj
     ([(''index'', JNum (st_index s)), (''state'', JStr (text_of_StepState (st_state s)))] @
      optField ''attempt'' json_of_SignedAttempt (st_attempt s) @
      optField ''externalExecution'' json_of_ExternalExecution (st_externalExecution s) @
      optField ''receipt'' json_of_StoredReceipt (st_receipt s) @
      optField ''semantic'' json_of_SemanticResult (st_semantic s))"

definition json_of_PlanSmartAccount :: "PlanSmartAccount \<Rightarrow> json" where
  "json_of_PlanSmartAccount a = JObj
     [(''bindingId'', JStr (sa_bindingId a)), (''stateHash'', JStr (sa_stateHash a)),
      (''chainId'', JNum (sa_chainId a)), (''address'', JStr (sa_address a)),
      (''manifestRevision'', JStr (sa_manifestRevision a))]"

definition json_of_StoredPlan :: "StoredPlan \<Rightarrow> json" where
  "json_of_StoredPlan p = JObj
     ([(''id'', JStr (pl_id p)), (''actor'', json_of_RestActor (pl_actor p)),
       (''draft'', json_of_RestPlanDraft (pl_draft p)), (''commitment'', JStr (pl_commitment p)),
       (''createdAt'', JNum (pl_createdAt p)), (''expiresAt'', JNum (pl_expiresAt p)),
       (''revision'', JNum (pl_revision p))] @
      optField ''smartAccount'' json_of_PlanSmartAccount (pl_smartAccount p) @
      [(''steps'', JArr (map json_of_StoredStep (pl_steps p)))])"

definition json_of_IdempotencyClaim :: "IdempotencyClaim \<Rightarrow> json" where
  "json_of_IdempotencyClaim c = JObj
     [(''key'', JStr (ic_key c)), (''requestHash'', JStr (ic_requestHash c)),
      (''operation'', JStr (ic_operation c))]"

definition json_of_Authorization :: "Authorization \<Rightarrow> json" where
  "json_of_Authorization a = JObj [(''issuedAt'', JNum (au_issuedAt a)), (''expiresAt'', JNum (au_expiresAt a))]"

definition json_of_SubmissionClaim :: "SubmissionClaim \<Rightarrow> json" where
  "json_of_SubmissionClaim c = JObj
     ([(''actor'', json_of_RestActor (cl_actor c)), (''planId'', JStr (cl_planId c)),
       (''stepIndex'', JNum (cl_stepIndex c)), (''expectedRevision'', JNum (cl_expectedRevision c)),
       (''attempt'', json_of_SignedAttempt (cl_attempt c)),
       (''idempotency'', json_of_IdempotencyClaim (cl_idempotency c)), (''now'', JNum (cl_now c))] @
      optField ''authorization'' json_of_Authorization (cl_authorization c) @
      [(''dispatch'', JBool (cl_dispatch c))])"

end
