(* ===== verification/TransactionStore.thy ===== *)
theory TransactionStore
  imports TransactionTypes
begin

text \<open>
  The rules of the transaction store (\<^verbatim>\<open>src/src/rest/transactions/store.ts\<close>): the validators,
  the keys of its maps, and the pure transitions of one plan, which the in-memory and the
  PostgreSQL store share: reserving a signed attempt (\<open>prepareClaim\<close>), settling a dispatch
  (\<open>settle\<close>), attaching an external execution and applying its observations.
\<close>

named_theorems tx_defs \<open>the validators of the transaction store\<close>

section \<open>Limits, errors, validators\<close>

definition maximumPlanBytes :: nat where "maximumPlanBytes = 1048576"
definition maximumSteps :: nat where "maximumSteps = 32"
definition plansPerAccount :: nat where "plansPerAccount = 10000"
definition idempotencyPerAccount :: nat where "idempotencyPerAccount = 10000"

definition conflict :: "string \<Rightarrow> rest_error" where
  "conflict message = RestError 409 ''TRANSACTION_CONFLICT'' message None"

definition invalid :: "string \<Rightarrow> rest_error" where
  "invalid message = RestError 400 ''INVALID_INPUT'' message None"

definition missingPlan :: rest_error where
  "missingPlan = RestError 404 ''PLAN_NOT_FOUND'' ''Transaction plan was not found.'' None"

definition storageLimit :: rest_error where
  "storageLimit = RestError 429 ''STORAGE_LIMIT'' ''Transaction storage limit exceeded.'' None"

definition isControl :: "char \<Rightarrow> bool" where
  "isControl c \<longleftrightarrow> code c \<le> 31 \<or> code c = 127"

definition assertTextMax :: "string \<Rightarrow> nat \<Rightarrow> unit res" where
  "assertTextMax s maximum =
     ensure (\<not> (length s < 1 \<or> length s > maximum \<or> list_ex isControl s))
       (invalid ''Invalid storage identifier.'')"

abbreviation assertText :: "string \<Rightarrow> unit res" where
  "assertText s \<equiv> assertTextMax s 192"

definition assertActor :: "RestActor \<Rightarrow> unit res" where
  "assertActor actor = bindR (assertText (accountId actor)) (\<lambda>_. assertTextMax (principalId actor) 256)"

definition assertTime :: "int \<Rightarrow> unit res" where
  "assertTime t = ensure (\<not> (\<not> isSafeInteger t \<or> t < 0)) (invalid ''Invalid transaction timestamp.'')"

definition assertRevision :: "int \<Rightarrow> unit res" where
  "assertRevision r =
     ensure (\<not> (\<not> isSafeInteger r \<or> r < 0 \<or> r \<ge> MAX_SAFE_INTEGER)) (invalid ''Invalid plan revision.'')"

definition assertLimit :: "int \<Rightarrow> unit res" where
  "assertLimit n =
     ensure (\<not> (\<not> isSafeInteger n \<or> n < 1 \<or> n > 1000)) (invalid ''Page limit must be between 1 and 1000.'')"

section \<open>Identity and keys\<close>

definition actorKey :: "RestActor \<Rightarrow> string" where
  "actorKey actor = keyText [JStr (accountId actor), JStr (principalId actor)]"

definition owns :: "StoredPlan \<Rightarrow> RestActor \<Rightarrow> bool" where
  "owns plan actor \<longleftrightarrow> actorKey (pl_actor plan) = actorKey actor"

definition canRead :: "StoredPlan \<Rightarrow> RestActor \<Rightarrow> bool" where
  "canRead plan actor \<longleftrightarrow>
     owns plan actor \<or>
     accountId actor = accountId (pl_actor plan) \<and> principalId actor = ''owner:'' @ accountId actor"

definition idemKey :: "RestActor \<Rightarrow> string \<Rightarrow> string" where
  "idemKey actor key = keyText [JStr (accountId actor), JStr (principalId actor), JStr key]"

definition nonceKey :: "SignedAttempt \<Rightarrow> string" where
  "nonceKey a = keyText [JNum (at_chainId a), JStr (toLowerCase (at_sender a)), JStr (at_nonce a)]"

text \<open>The pattern \<^verbatim>\<open>^[\x21-\x7e]{1,128}$\<close>.\<close>

definition isIdempotencyKey :: "string \<Rightarrow> bool" where
  "isIdempotencyKey s \<longleftrightarrow>
     1 \<le> length s \<and> length s \<le> 128 \<and> list_all (\<lambda>c. 33 \<le> code c \<and> code c \<le> 126) s"

definition assertIdempotency :: "IdempotencyClaim \<Rightarrow> unit res" where
  "assertIdempotency claim =
     bindR (ensure (isIdempotencyKey (ic_key claim)) (invalid ''Invalid idempotency key.'')) (\<lambda>_.
     bindR (assertText (ic_requestHash claim)) (\<lambda>_.
     assertTextMax (ic_operation claim) 128))"

text \<open>\<^verbatim>\<open>StoredIdempotency\<close>, with the account the in-memory store adds to it.\<close>

record StoredIdempotency = IdempotencyClaim +
  si_planId :: string
  si_stepIndex :: "int option"
  si_accountId :: string

definition checkIdempotency ::
  "StoredIdempotency option \<Rightarrow> IdempotencyClaim \<Rightarrow> (string \<times> int) option \<Rightarrow> unit res" where
  "checkIdempotency existing claim target =
     bindR (assertIdempotency claim) (\<lambda>_.
     ensure (\<not> (case existing of
         None \<Rightarrow> False
       | Some e \<Rightarrow> ic_requestHash e \<noteq> ic_requestHash claim \<or> ic_operation e \<noteq> ic_operation claim \<or>
           (case target of
              None \<Rightarrow> False
            | Some (planId, stepIndex) \<Rightarrow> si_planId e \<noteq> planId \<or> si_stepIndex e \<noteq> Some stepIndex)))
       (conflict ''Idempotency key was already used for another request.''))"

definition boundedClone :: "('a \<Rightarrow> json) \<Rightarrow> 'a \<Rightarrow> 'a res" where
  "boundedClone toJson v =
     (case stringify (toJson v) of
        None \<Rightarrow> Inl (invalid ''Transaction records must contain JSON values.'')
      | Some text \<Rightarrow> if length text > maximumPlanBytes then Inl storageLimit else Inr v)"

abbreviation clonePlan :: "StoredPlan \<Rightarrow> StoredPlan res" where
  "clonePlan \<equiv> boundedClone json_of_StoredPlan"

text \<open>A value that fits: its text exists and is within the bound.\<close>

definition storable :: "('a \<Rightarrow> json) \<Rightarrow> 'a \<Rightarrow> bool" where
  "storable toJson v \<longleftrightarrow>
     (case stringify (toJson v) of None \<Rightarrow> False | Some text \<Rightarrow> length text \<le> maximumPlanBytes)"

lemma boundedClone_eq_Inr [res_simps]: "boundedClone j v = Inr w \<longleftrightarrow> w = v \<and> storable j v"
  by (auto simp: boundedClone_def storable_def split: option.splits)

lemma boundedClone_storable [simp]: "storable j v \<Longrightarrow> boundedClone j v = Inr v"
  by (simp add: res_simps)

lemma storable_bound:
  assumes "hasText (toJson v)" and "textBound (toJson v) \<le> maximumPlanBytes"
  shows "storable toJson v"
proof -
  obtain t where "stringify (toJson v) = Some t" "length t \<le> textBound (toJson v)"
    using stringify_bound(1) [OF assms(1)] by blast
  with assms(2) show ?thesis by (simp add: storable_def)
qed

lemma actorKey_inj [simp]: "actorKey a = actorKey b \<longleftrightarrow> a = b"
  by (cases a; cases b) (simp add: actorKey_def)

lemma owns_iff [simp]: "owns plan actor \<longleftrightarrow> pl_actor plan = actor"
  by (simp add: owns_def)

lemma idemKey_inj [simp]: "idemKey a k = idemKey b l \<longleftrightarrow> a = b \<and> k = l"
  by (cases a; cases b) (simp add: idemKey_def)

lemma nonceKey_eq_iff:
  "nonceKey a = nonceKey b \<longleftrightarrow>
     at_chainId a = at_chainId b \<and> same (at_sender a) (at_sender b) \<and> at_nonce a = at_nonce b"
  by (simp add: nonceKey_def same_def)

section \<open>New plans and signed attempts\<close>

text \<open>\<^verbatim>\<open>steps.entries()\<close>: every step with the index it stands at.\<close>

abbreviation indexed :: "'a list \<Rightarrow> (int \<times> 'a) list" where
  "indexed xs \<equiv> zip (map int [0 ..< length xs]) xs"

definition assertNewPlan :: "StoredPlan \<Rightarrow> int \<Rightarrow> unit res" where
  "assertNewPlan plan now =
     bindR (assertActor (pl_actor plan)) (\<lambda>_.
     bindR (assertText (pl_id plan)) (\<lambda>_.
     bindR (assertTime now) (\<lambda>_.
     bindR (assertTime (pl_createdAt plan)) (\<lambda>_.
     bindR (assertTime (pl_expiresAt plan)) (\<lambda>_.
     bindR (ensure (\<not> (pl_createdAt plan > now \<or> pl_expiresAt plan \<le> now \<or>
            pl_expiresAt plan \<le> pl_createdAt plan \<or> pl_revision plan \<noteq> 0 \<or>
            \<not> hexOf 64 (pl_commitment plan) \<or> \<not> hexOf 40 (dr_account (pl_draft plan)) \<or>
            length (pl_steps plan) < 1 \<or> length (pl_steps plan) > maximumSteps \<or>
            length (pl_steps plan) \<noteq> length (dr_calls (pl_draft plan)) \<or>
            list_ex (\<lambda>(index, step). st_index step \<noteq> index \<or> st_state step \<noteq> Waiting \<or>
                st_attempt step \<noteq> None \<or> st_externalExecution step \<noteq> None \<or>
                st_receipt step \<noteq> None \<or> st_semantic step \<noteq> None)
              (indexed (pl_steps plan))))
          (invalid ''Invalid initial transaction plan.'')) (\<lambda>_.
     bindR (clonePlan plan) (\<lambda>_. Inr ())))))))"

text \<open>The pattern \<^verbatim>\<open>^0x(?:[0-9a-fA-F]{2})+$\<close>.\<close>

definition isHexBytes :: "string \<Rightarrow> bool" where
  "isHexBytes s \<longleftrightarrow>
     length s \<ge> 4 \<and> even (length s) \<and> take 2 s = ''0x'' \<and> list_all isHexDigit (drop 2 s)"

definition assertAttempt :: "SignedAttempt \<Rightarrow> unit res" where
  "assertAttempt a =
     bindR (ensure (\<not> (\<not> hexOf 64 (at_hash a) \<or> \<not> isHexBytes (at_rawTransaction a) \<or>
            \<not> hexOf 40 (at_sender a) \<or> \<not> isSafeInteger (at_chainId a) \<or> at_chainId a < 1))
          (invalid ''Invalid signed transaction reservation.'')) (\<lambda>_.
     bindR (forR (\<lambda>amount. ensure (\<not> (\<not> isDecimal amount \<or> bigInt amount \<ge> 2 ^ 256))
            (invalid ''Invalid transaction integer.''))
          [at_nonce a, at_gas a, at_maximumFeePerGas a, at_maximumCost a]) (\<lambda>_.
     bindR (assertTime (at_reservedAt a)) (\<lambda>_.
     bindR (assertTime (at_leaseUntil a)) (\<lambda>_.
     bindR (assertText (at_leaseToken a)) (\<lambda>_.
     ensure (\<not> (\<not> isSafeInteger (at_dispatchCount a) \<or> at_dispatchCount a < 0))
       (invalid ''Invalid dispatch count.''))))))"

definition attemptIdentity :: "SignedAttempt \<Rightarrow> string" where
  "attemptIdentity a = keyText
     [JStr (toLowerCase (at_hash a)), JStr (toLowerCase (at_rawTransaction a)),
      JStr (toLowerCase (at_sender a)), JNum (at_chainId a), JStr (at_nonce a),
      JStr (text_of_AttemptType (at_type a)), JStr (at_gas a), JStr (at_maximumFeePerGas a),
      JStr (at_maximumCost a)]"

definition sameAttempt :: "SignedAttempt \<Rightarrow> SignedAttempt \<Rightarrow> bool" where
  "sameAttempt a b \<longleftrightarrow> attemptIdentity a = attemptIdentity b"

lemma sameAttempt_iff:
  "sameAttempt a b \<longleftrightarrow>
     same (at_hash a) (at_hash b) \<and> same (at_rawTransaction a) (at_rawTransaction b) \<and>
     same (at_sender a) (at_sender b) \<and> at_chainId a = at_chainId b \<and> at_nonce a = at_nonce b \<and>
     at_type a = at_type b \<and> at_gas a = at_gas b \<and>
     at_maximumFeePerGas a = at_maximumFeePerGas b \<and> at_maximumCost a = at_maximumCost b"
  by (simp add: sameAttempt_def attemptIdentity_def keyText_def quote_append_inj intText_comma_inj same_def)

lemma sameAttempt_refl [simp]: "sameAttempt a a"
  by (simp add: sameAttempt_def)

lemma sameAttempt_trans: "sameAttempt a b \<Longrightarrow> sameAttempt b c \<Longrightarrow> sameAttempt a c"
  by (simp add: sameAttempt_def)

lemma sameAttempt_nonceKey: "sameAttempt a b \<Longrightarrow> nonceKey a = nonceKey b"
  by (simp add: sameAttempt_iff nonceKey_eq_iff)

definition assertSavedSteps :: "StoredPlan \<Rightarrow> StoredStep list \<Rightarrow> unit res" where
  "assertSavedSteps plan steps =
     bindR (ensure (length steps = length (pl_steps plan))
          (invalid ''Plan steps cannot be added or removed.'')) (\<lambda>_.
     bindR (forR (\<lambda>(index, step).
            let previous = pl_steps plan ! nat index in
            bindR (ensure (\<not> (st_index step \<noteq> index)) (invalid ''Invalid transaction step.'')) (\<lambda>_.
            bindR (ensure (\<not> ((st_externalExecution step \<noteq> None \<or> st_externalExecution previous \<noteq> None) \<and>
                   step \<noteq> previous))
                 (conflict ''External execution observations require their bound transport update.'')) (\<lambda>_.
            ensure (st_attempt step = st_attempt previous)
              (conflict ''Signed transaction reservations can only be changed through submission claims.''))))
          (indexed steps)) (\<lambda>_.
     bindR (clonePlan (plan\<lparr>pl_steps := steps\<rparr>)) (\<lambda>_. Inr ())))"

lemmas [tx_defs] = assertTextMax_def assertActor_def assertTime_def assertRevision_def
  assertLimit_def assertIdempotency_def assertNewPlan_def assertAttempt_def

end
