(* ===== verification/PlanTransitions.thy ===== *)
theory PlanTransitions
  imports TransactionStore
begin

text \<open>
  The transitions of one transaction plan (\<^verbatim>\<open>src/src/rest/transactions/store.ts\<close>, from
  \<open>prepareClaim\<close> to \<open>applyExternalObservations\<close>) and what each of them keeps: the revision
  grows by exactly one with every change, the reviewed parts of the plan never change, a signed
  attempt is never exchanged for another, a live lease excludes a second dispatch, and evidence
  of execution is never rolled back by a late network answer.
\<close>

section \<open>Reading arrays\<close>

text \<open>\<^verbatim>\<open>xs[i]\<close>: \<open>undefined\<close> out of range.\<close>

definition js_at :: "'a list \<Rightarrow> int \<Rightarrow> 'a option" where
  "js_at xs i = (if 0 \<le> i \<and> nat i < length xs then Some (xs ! nat i) else None)"

text \<open>\<^verbatim>\<open>xs[i]!.field\<close> throws when there is no such element.\<close>

definition js_must :: "'a option \<Rightarrow> 'a res" where
  "js_must x = (case x of None \<Rightarrow> Inl (TypeError ''Cannot read properties of undefined'') | Some v \<Rightarrow> Inr v)"

lemma js_must_eq_Inr [res_simps]: "js_must x = Inr v \<longleftrightarrow> x = Some v"
  by (cases x) (simp_all add: js_must_def)

lemma js_at_Some: "js_at xs i = Some x \<longleftrightarrow> 0 \<le> i \<and> nat i < length xs \<and> x = xs ! nat i"
  by (auto simp: js_at_def)

definition replaceStep :: "StoredPlan \<Rightarrow> int \<Rightarrow> StoredStep \<Rightarrow> StoredPlan" where
  "replaceStep plan index step = plan\<lparr>pl_steps := (pl_steps plan)[nat index := step]\<rparr>"

definition bumpRevision :: "StoredPlan \<Rightarrow> StoredPlan" where
  "bumpRevision plan = plan\<lparr>pl_revision := pl_revision plan + 1\<rparr>"

section \<open>Reserving a signed transaction: prepareClaim\<close>

text \<open>The window of a fresh owner authorization, in Unix seconds.\<close>

definition checkAuthorization :: "Authorization option \<Rightarrow> int \<Rightarrow> unit res" where
  "checkAuthorization authorization now =
     (case authorization of
        None \<Rightarrow> Inr ()
      | Some a \<Rightarrow>
          let currentSeconds = now div 1000 in
          ensure (\<not> (\<not> isSafeInteger (au_issuedAt a) \<or> \<not> isSafeInteger (au_expiresAt a) \<or>
                au_issuedAt a < 0 \<or> au_expiresAt a \<le> currentSeconds \<or>
                au_issuedAt a > currentSeconds + 30 \<or> au_expiresAt a \<le> au_issuedAt a \<or>
                au_expiresAt a - au_issuedAt a > 300))
            (RestError 401 ''AUTH_EXPIRED''
              ''Dispatch authorization expired or has an invalid validity window. Sign a fresh request.'' None))"

text \<open>A dependency is met by a canonical success whose outcome was verified or is not modelled.\<close>

definition dependencyMet :: "StoredPlan \<Rightarrow> int \<Rightarrow> bool" where
  "dependencyMet plan dependency =
     (case js_at (pl_steps plan) dependency of
        None \<Rightarrow> False
      | Some required \<Rightarrow>
          st_state required = Confirmed \<and>
          (case st_receipt required of
             None \<Rightarrow> False
           | Some receipt \<Rightarrow> rc_canonical receipt \<and> rc_status receipt = Success) \<and>
          (case st_semantic required of
             None \<Rightarrow> False
           | Some semantic \<Rightarrow> sem_status semantic = SemVerified \<or> sem_status semantic = SemUnmodeled))"

definition renewAttempt :: "SignedAttempt option \<Rightarrow> SignedAttempt \<Rightarrow> SignedAttempt" where
  "renewAttempt current claimed =
     (case current of
        Some a \<Rightarrow> a\<lparr>at_leaseToken := at_leaseToken claimed, at_leaseUntil := at_leaseUntil claimed,
                    at_dispatchCount := at_dispatchCount a + 1\<rparr>
      | None \<Rightarrow> claimed\<lparr>at_dispatchCount := 1\<rparr>)"

text \<open>The last part of \<open>prepareClaim\<close>: a fresh or lapsed lease is granted.\<close>

definition grantDispatch :: "StoredPlan \<Rightarrow> SubmissionClaim \<Rightarrow> StoredStep \<Rightarrow> (StoredPlan \<times> bool \<times> bool) res" where
  "grantDispatch plan claim step =
     (let index = cl_stepIndex claim in
     bindR (ensure (pl_revision plan = cl_expectedRevision claim)
          (conflict ''Transaction plan changed; inspect it before retrying.'')) (\<lambda>_.
     bindR (ensure (\<not> pl_expiresAt plan \<le> cl_now claim)
          (conflict ''Transaction plan expired before the dispatch claim.'')) (\<lambda>_.
     bindR (checkAuthorization (cl_authorization claim) (cl_now claim)) (\<lambda>_.
     bindR (js_must (js_at (dr_calls (pl_draft plan)) index)) (\<lambda>call.
     bindR (forR (\<lambda>dependency. ensure (dependencyMet plan dependency)
            (conflict ''Transaction dependencies are not confirmed with verified outcomes.''))
          (call_dependsOn call)) (\<lambda>_.
     bindR (ensure (\<not> (at_leaseUntil (cl_attempt claim) \<le> cl_now claim \<or>
            at_leaseUntil (cl_attempt claim) - cl_now claim > 120000 \<or>
            at_reservedAt (cl_attempt claim) > cl_now claim))
          (invalid ''Dispatch lease must be current.'')) (\<lambda>_.
     bindR (ensure (map_option at_leaseToken (st_attempt step) \<noteq> Some (at_leaseToken (cl_attempt claim)))
          (conflict ''A renewed dispatch lease must use a new token.'')) (\<lambda>_.
     bindR (clonePlan plan) (\<lambda>next.
     bindR (clonePlan (bumpRevision (replaceStep next index
           (step\<lparr>st_attempt := Some (renewAttempt (st_attempt step) (cl_attempt claim)),
                 st_state := Reserved\<rparr>)))) (\<lambda>p.
     Inr (p, True, True)))))))))))"

definition prepareClaim :: "StoredPlan \<Rightarrow> SubmissionClaim \<Rightarrow> (StoredPlan \<times> bool \<times> bool) res" where
  "prepareClaim plan claim =
     bindR (assertRevision (cl_expectedRevision claim)) (\<lambda>_.
     bindR (assertTime (cl_now claim)) (\<lambda>_.
     bindR (assertAttempt (cl_attempt claim)) (\<lambda>_.
     let index = cl_stepIndex claim in
     bindR (ensure (\<not> (\<not> isSafeInteger index \<or> index < 0 \<or> index \<ge> int (length (pl_steps plan))))
          (invalid ''Invalid transaction step index.'')) (\<lambda>_.
     let step = pl_steps plan ! nat index in
     bindR (ensure (st_externalExecution step = None)
          (conflict ''This step is bound to an external execution transport.'')) (\<lambda>_.
     bindR (ensure (\<not> (case st_attempt step of None \<Rightarrow> False | Some a \<Rightarrow> \<not> sameAttempt a (cl_attempt claim)))
          (conflict ''A different signed transaction is already reserved for this step.'')) (\<lambda>_.
     bindR (ensure (\<not> (st_attempt step = None \<and> pl_revision plan \<noteq> cl_expectedRevision claim))
          (conflict ''Transaction plan changed; inspect it before retrying.'')) (\<lambda>_.
     if st_attempt step = None \<and> \<not> cl_dispatch claim then
       bindR (clonePlan plan) (\<lambda>next.
       bindR (clonePlan (bumpRevision (replaceStep next index
             \<lparr>st_index = index, st_state = Submitted,
              st_attempt = Some ((cl_attempt claim)\<lparr>at_leaseUntil := 0, at_dispatchCount := 0\<rparr>),
              st_externalExecution = None, st_receipt = None, st_semantic = None\<rparr>))) (\<lambda>p.
       Inr (p, False, True)))
     else if \<not> cl_dispatch claim \<or> st_state step = Confirmed \<or> st_state step = Reverted \<or>
             (case st_attempt step of None \<Rightarrow> False | Some a \<Rightarrow> at_leaseUntil a > cl_now claim) then
       Inr (plan, False, False)
     else grantDispatch plan claim step)))))))"

section \<open>Settling a dispatch\<close>

record SubmissionPatch =
  pa_state :: StepState
  pa_broadcastAt :: "int option"
  pa_lastError :: "LastError option"

text \<open>A late network response cannot roll back receipt reconciliation.\<close>

definition settledState :: "StoredStep \<Rightarrow> SubmissionPatch \<Rightarrow> StepState" where
  "settledState current patch =
     (if st_receipt current = None \<and> st_state current \<notin> {Confirmed, Reverted, Confirming, Reorged}
      then pa_state patch else st_state current)"

definition settledAttempt :: "SignedAttempt \<Rightarrow> SubmissionPatch \<Rightarrow> SignedAttempt" where
  "settledAttempt a patch =
     a\<lparr>at_broadcastAt := (case pa_broadcastAt patch of None \<Rightarrow> at_broadcastAt a | Some t \<Rightarrow> Some t),
       at_lastError := (case pa_lastError patch of None \<Rightarrow> at_lastError a | Some e \<Rightarrow> Some e)\<rparr>"

definition assertPatch :: "SubmissionPatch \<Rightarrow> unit res" where
  "assertPatch patch =
     bindR (case pa_broadcastAt patch of None \<Rightarrow> Inr () | Some t \<Rightarrow> assertTime t) (\<lambda>_.
     case pa_lastError patch of None \<Rightarrow> Inr ()
     | Some e \<Rightarrow> bindR (assertTextMax (le_code e) 128) (\<lambda>_. assertTextMax (le_message e) 2000))"

text \<open>
  \<^verbatim>\<open>JSON.stringify(step) === JSON.stringify(current)\<close> compares a step with its own clone after
  the patch; the steps hold JSON values only, so it is equality of the two steps.
\<close>

definition settle ::
  "StoredPlan \<Rightarrow> int \<Rightarrow> string \<Rightarrow> SubmissionPatch \<Rightarrow> StoredPlan res" where
  "settle plan index leaseToken patch =
     bindR (ensure (\<not> (\<not> isSafeInteger index \<or> index < 0 \<or> index \<ge> int (length (pl_steps plan))))
          (invalid ''Invalid transaction step index.'')) (\<lambda>_.
     bindR (assertText leaseToken) (\<lambda>_.
     bindR (assertPatch patch) (\<lambda>_.
     let current = pl_steps plan ! nat index in
     case st_attempt current of
       None \<Rightarrow> Inr plan
     | Some currentAttempt \<Rightarrow>
         if at_leaseToken currentAttempt \<noteq> leaseToken then Inr plan
         else
           bindR (clonePlan plan) (\<lambda>next.
           bindR (case pa_lastError patch of None \<Rightarrow> Inr ()
                  | Some e \<Rightarrow> bindR (boundedClone json_of_LastError e) (\<lambda>_. Inr ())) (\<lambda>_.
           let step = current\<lparr>st_state := settledState current patch,
                              st_attempt := Some (settledAttempt currentAttempt patch)\<rparr> in
           if step = current then Inr plan
           else clonePlan (bumpRevision (replaceStep next index step)))))))"

section \<open>Recovery\<close>

definition isRecoverableStep :: "StoredStep \<Rightarrow> bool" where
  "isRecoverableStep step \<longleftrightarrow>
     (st_attempt step \<noteq> None \<or> st_externalExecution step \<noteq> None) \<and>
     (st_state step \<in> {Reserved, Submitted, Unknown, Confirming, Reorged} \<or>
      st_state step = Confirmed \<and>
      (case st_semantic step of None \<Rightarrow> True | Some s \<Rightarrow> sem_status s = SemUnknown))"

definition isRecoverable :: "StoredPlan \<Rightarrow> bool" where
  "isRecoverable plan \<longleftrightarrow> list_ex isRecoverableStep (pl_steps plan)"

section \<open>External executions\<close>

definition assertExternalIndexes :: "StoredPlan \<Rightarrow> int list \<Rightarrow> unit res" where
  "assertExternalIndexes plan indexes =
     ensure (\<not> (length indexes < 1 \<or> length indexes > maximumSteps \<or> \<not> distinct indexes \<or>
          list_ex (\<lambda>index. \<not> isSafeInteger index \<or> index < 0 \<or> index \<ge> int (length (pl_steps plan))) indexes))
       (invalid ''Invalid external execution step indexes.'')"

text \<open>One round of the loop of \<open>attachExternalExecutions\<close>: the plan built so far and whether it changed.\<close>

definition attachBinding ::
  "StoredPlan \<Rightarrow> TransportReservation \<Rightarrow> StoredPlan \<times> bool \<Rightarrow> (StoredPlan \<times> bool) res" where
  "attachBinding plan binding acc = (case acc of (next, changed) \<Rightarrow>
     if tr_transport binding \<noteq> Relayr \<and> tr_transport binding \<noteq> Erc4337 then Inr (next, changed)
     else
       let index = tr_stepIndex binding in
       bindR (assertExternalIndexes plan [index]) (\<lambda>_.
       bindR (assertText (tr_bindingId binding)) (\<lambda>_.
       let step = pl_steps next ! nat index in
       bindR (js_must (js_at (dr_calls (pl_draft plan)) index)) (\<lambda>call.
       let chainId = call_chainId call in
       bindR (ensure (st_attempt step = None)
            (conflict ''An owner-signed attempt cannot be replaced by a forwarded execution.'')) (\<lambda>_.
       case st_externalExecution step of
         Some external \<Rightarrow>
           bindR (ensure (\<not> (ex_transport external \<noteq> tr_transport binding \<or>
                  ex_bindingId external \<noteq> tr_bindingId binding \<or> ex_chainId external \<noteq> chainId))
                (conflict ''The external execution binding differs from its permanent reservation.''))
             (\<lambda>_. Inr (next, changed))
       | None \<Rightarrow>
           bindR (ensure (\<not> (st_state step \<noteq> Waiting \<or> st_receipt step \<noteq> None \<or> st_semantic step \<noteq> None))
                (conflict ''The unbound step already has execution observations.''))
             (\<lambda>_. Inr (replaceStep next index
                (step\<lparr>st_externalExecution := Some \<lparr>ex_transport = tr_transport binding,
                        ex_bindingId = tr_bindingId binding, ex_chainId = chainId, ex_transactionHash = None\<rparr>,
                      st_state := Reserved\<rparr>), True)))))))"

definition attachExternalExecutions ::
  "StoredPlan \<Rightarrow> TransportReservation list \<Rightarrow> StoredPlan res" where
  "attachExternalExecutions plan bindings =
     bindR (clonePlan plan) (\<lambda>next.
     bindR (foldR (attachBinding plan) bindings (next, False)) (\<lambda>(next', changed).
     if \<not> changed then Inr plan else clonePlan (bumpRevision next')))"

text \<open>The receipt of an observation must be the receipt of the observed transaction.\<close>

definition checkReceipt :: "ExternalStepObservation \<Rightarrow> unit res" where
  "checkReceipt update =
     (case ob_receipt update of
        None \<Rightarrow> Inr ()
      | Some receipt \<Rightarrow>
          bindR (ensure (\<not> ((case ob_transactionHash update of
                   None \<Rightarrow> True
                 | Some h \<Rightarrow> h = [] \<or> toLowerCase (rc_transactionHash receipt) \<noteq> toLowerCase h) \<or>
                 \<not> hexOf 64 (rc_blockHash receipt) \<or> \<not> isDecimal (rc_blockNumber receipt) \<or>
                 bigInt (rc_blockNumber receipt) \<ge> 2 ^ 256 \<or>
                 \<not> isSafeInteger (rc_confirmations receipt) \<or> rc_confirmations receipt < 0))
               (invalid ''External receipt does not match its transaction.''))
            (\<lambda>_. assertTime (rc_observedAt receipt)))"

definition neverPublished :: "ExternalStepObservation \<Rightarrow> bool" where
  "neverPublished update \<longleftrightarrow>
     ob_state update = Reverted \<and> ob_receipt update = None \<and>
     map_option sem_status (ob_semantic update) = Some SemFailed \<and> ob_transactionHash update = None"

text \<open>One round of the loop of \<open>applyExternalObservations\<close>.\<close>

definition applyObservation ::
  "StoredPlan \<Rightarrow> string \<Rightarrow> ExternalStepObservation \<Rightarrow> StoredPlan \<Rightarrow> StoredPlan res" where
  "applyObservation plan bindingId update next =
     bindR (ensure (ob_state update \<noteq> Waiting) (invalid ''Invalid external execution observation.'')) (\<lambda>_.
     let index = ob_index update; previous = pl_steps plan ! nat index in
     bindR (case st_externalExecution previous of
          None \<Rightarrow> Inl (conflict ''The observation does not match its admitted external execution.'')
        | Some external \<Rightarrow>
            bindR (ensure (\<not> (st_attempt previous \<noteq> None \<or>
                   (ex_transport external \<noteq> Relayr \<and> ex_transport external \<noteq> Erc4337) \<or>
                   ex_bindingId external \<noteq> bindingId))
                 (conflict ''The observation does not match its admitted external execution.'')) (\<lambda>_.
            bindR (js_must (js_at (dr_calls (pl_draft plan)) index)) (\<lambda>call.
            bindR (ensure (ex_chainId external = call_chainId call)
                 (conflict ''The observation does not match its admitted external execution.'')) (\<lambda>_.
            Inr external)))) (\<lambda>external.
     bindR (ensure (\<not> (case ob_transactionHash update of None \<Rightarrow> False | Some h \<Rightarrow> \<not> hexOf 64 h))
          (invalid ''Invalid external transaction hash.'')) (\<lambda>_.
     bindR (checkReceipt update) (\<lambda>_.
     bindR (ensure (\<not> (ob_state update = Confirmed \<and>
              (case ob_receipt update of None \<Rightarrow> True
               | Some r \<Rightarrow> \<not> rc_canonical r \<or> rc_status r \<noteq> Success)))
          (invalid ''Confirmed external execution requires a canonical successful receipt.'')) (\<lambda>_.
     bindR (ensure (\<not> (ob_state update = Reverted \<and> \<not> neverPublished update \<and>
              (case ob_receipt update of None \<Rightarrow> True
               | Some r \<Rightarrow> \<not> rc_canonical r \<or>
                   (rc_status r \<noteq> RevertedReceipt \<and>
                    map_option sem_status (ob_semantic update) \<noteq> Some SemFailed))))
          (invalid ''Reverted external execution requires proof of transaction or inner-call failure.'')) (\<lambda>_.
     bindR (case ob_receipt update of None \<Rightarrow> Inr None
            | Some r \<Rightarrow> bindR (boundedClone json_of_StoredReceipt r) (\<lambda>r'. Inr (Some r'))) (\<lambda>receipt.
     bindR (case ob_semantic update of None \<Rightarrow> Inr None
            | Some s \<Rightarrow> bindR (boundedClone json_of_SemanticResult s) (\<lambda>s'. Inr (Some s'))) (\<lambda>semantic.
     Inr (replaceStep next index
       \<lparr>st_index = index, st_state = ob_state update, st_attempt = None,
        st_externalExecution = Some \<lparr>ex_transport = ex_transport external, ex_bindingId = bindingId,
          ex_chainId = ex_chainId external, ex_transactionHash = ob_transactionHash update\<rparr>,
        st_receipt = receipt, st_semantic = semantic\<rparr>)))))))))"

definition applyExternalObservations ::
  "StoredPlan \<Rightarrow> string \<Rightarrow> ExternalStepObservation list \<Rightarrow> StoredPlan res" where
  "applyExternalObservations plan bindingId updates =
     bindR (assertText bindingId) (\<lambda>_.
     bindR (assertExternalIndexes plan (map ob_index updates)) (\<lambda>_.
     bindR (clonePlan plan) (\<lambda>next.
     bindR (foldR (applyObservation plan bindingId) updates next) (\<lambda>next'.
     if pl_steps next' = pl_steps plan then Inr plan else clonePlan (bumpRevision next')))))"

section \<open>What the transitions keep\<close>

text \<open>The parts of a plan that were reviewed and never change.\<close>

definition reviewed :: "StoredPlan \<Rightarrow> StoredPlan" where
  "reviewed plan = plan\<lparr>pl_revision := 0, pl_steps := []\<rparr>"

text \<open>A step is bound to at most one means of execution.\<close>

definition step_exclusive :: "StoredStep \<Rightarrow> bool" where
  "step_exclusive step \<longleftrightarrow> st_attempt step = None \<or> st_externalExecution step = None"

definition plan_wf :: "StoredPlan \<Rightarrow> bool" where
  "plan_wf plan \<longleftrightarrow>
     length (pl_steps plan) = length (dr_calls (pl_draft plan)) \<and>
     (\<forall>i < length (pl_steps plan). st_index (pl_steps plan ! i) = int i) \<and>
     list_all step_exclusive (pl_steps plan)"

text \<open>
  How a step may evolve: a signed attempt stays the same signed transaction, an external
  execution stays bound to the same transport, binding and chain.
\<close>

definition same_binding :: "ExternalExecution \<Rightarrow> ExternalExecution \<Rightarrow> bool" where
  "same_binding e f \<longleftrightarrow>
     ex_transport e = ex_transport f \<and> ex_bindingId e = ex_bindingId f \<and> ex_chainId e = ex_chainId f"

definition step_evolves :: "StoredStep \<Rightarrow> StoredStep \<Rightarrow> bool" where
  "step_evolves s t \<longleftrightarrow>
     st_index t = st_index s \<and>
     (\<forall>a. st_attempt s = Some a \<longrightarrow> (\<exists>b. st_attempt t = Some b \<and> sameAttempt a b)) \<and>
     (\<forall>e. st_externalExecution s = Some e \<longrightarrow>
        (\<exists>f. st_externalExecution t = Some f \<and> same_binding e f)) \<and>
     (step_exclusive s \<longrightarrow> step_exclusive t)"

definition plan_evolves :: "StoredPlan \<Rightarrow> StoredPlan \<Rightarrow> bool" where
  "plan_evolves p q \<longleftrightarrow>
     reviewed q = reviewed p \<and> list_all2 step_evolves (pl_steps p) (pl_steps q) \<and>
     (q = p \<or> pl_revision q = pl_revision p + 1)"

lemma step_evolves_refl [simp]: "step_evolves s s"
  by (auto simp: step_evolves_def same_binding_def)

lemma plan_evolves_refl [simp]: "plan_evolves p p"
  by (simp add: plan_evolves_def list_all2_refl)

lemma bumpRevision_simps [simp]:
  "pl_revision (bumpRevision p) = pl_revision p + 1" "pl_steps (bumpRevision p) = pl_steps p"
  "pl_draft (bumpRevision p) = pl_draft p" "pl_id (bumpRevision p) = pl_id p"
  "pl_actor (bumpRevision p) = pl_actor p" "reviewed (bumpRevision p) = reviewed p"
  "pl_createdAt (bumpRevision p) = pl_createdAt p" "pl_expiresAt (bumpRevision p) = pl_expiresAt p"
  by (simp_all add: bumpRevision_def reviewed_def)

lemma replaceStep_simps [simp]:
  "pl_revision (replaceStep p i s) = pl_revision p"
  "pl_steps (replaceStep p i s) = (pl_steps p)[nat i := s]"
  "pl_draft (replaceStep p i s) = pl_draft p" "pl_id (replaceStep p i s) = pl_id p"
  "pl_actor (replaceStep p i s) = pl_actor p" "reviewed (replaceStep p i s) = reviewed p"
  by (simp_all add: replaceStep_def reviewed_def)

text \<open>The workhorse of the transition lemmas: one step is replaced by one it may evolve to.\<close>

lemma plan_evolves_replace:
  assumes "step_evolves (pl_steps p ! nat i) s"
  shows "plan_evolves p (bumpRevision (replaceStep p i s))"
proof -
  have "step_evolves (pl_steps p ! j) ((pl_steps p)[nat i := s] ! j)" if "j < length (pl_steps p)" for j
    using assms that by (cases "j = nat i") simp_all
  then show ?thesis by (simp add: plan_evolves_def list_all2_conv_all_nth)
qed

lemma reviewed_eqD:
  "reviewed q = reviewed p \<Longrightarrow>
     pl_id q = pl_id p \<and> pl_actor q = pl_actor p \<and> pl_draft q = pl_draft p \<and>
     pl_commitment q = pl_commitment p \<and> pl_createdAt q = pl_createdAt p \<and>
     pl_expiresAt q = pl_expiresAt p \<and> pl_smartAccount q = pl_smartAccount p"
  by (cases p; cases q) (simp add: reviewed_def)

lemma plan_evolves_wf: "plan_evolves p q \<Longrightarrow> plan_wf p \<Longrightarrow> plan_wf q"
  by (auto simp: plan_evolves_def plan_wf_def list_all2_conv_all_nth list_all_length step_evolves_def
      dest!: reviewed_eqD)

subsection \<open>prepareClaim\<close>

text \<open>What a claim that returns has checked, and the three ways it can end.\<close>

lemma prepareClaim_returns:
  assumes "prepareClaim plan claim = Inr (q, dispatch, changed)"
  defines "i \<equiv> nat (cl_stepIndex claim)" and "a \<equiv> cl_attempt claim"
  defines "step \<equiv> pl_steps plan ! i"
  shows "0 \<le> cl_stepIndex claim" and "i < length (pl_steps plan)"
    and "st_externalExecution step = None"
    and "\<And>b. st_attempt step = Some b \<Longrightarrow> sameAttempt b a"
    and "assertAttempt a = Inr ()"
  using assms(1) unfolding prepareClaim_def Let_def i_def a_def step_def
  by (auto simp: res_simps split: option.splits)

lemma prepareClaim_unchanged: "prepareClaim plan claim = Inr (q, dispatch, False) \<Longrightarrow> q = plan \<and> \<not> dispatch"
  unfolding prepareClaim_def grantDispatch_def Let_def by (auto simp: res_simps split: if_splits)

lemma prepareClaim_recorded:
  assumes "prepareClaim plan claim = Inr (q, False, True)"
  shows "st_attempt (pl_steps plan ! nat (cl_stepIndex claim)) = None" and "\<not> cl_dispatch claim"
    and "pl_revision plan = cl_expectedRevision claim"
    and "q = bumpRevision (replaceStep plan (cl_stepIndex claim)
             \<lparr>st_index = cl_stepIndex claim, st_state = Submitted,
              st_attempt = Some ((cl_attempt claim)\<lparr>at_leaseUntil := 0, at_dispatchCount := 0\<rparr>),
              st_externalExecution = None, st_receipt = None, st_semantic = None\<rparr>)"
    and "storable json_of_StoredPlan q"
  using assms unfolding prepareClaim_def grantDispatch_def Let_def
  by (auto simp: res_simps split: if_splits)

lemma grantDispatch_iff:
  "grantDispatch plan claim step = Inr (q, dispatch, changed) \<longleftrightarrow>
     dispatch \<and> changed \<and> pl_revision plan = cl_expectedRevision claim \<and>
     cl_now claim < pl_expiresAt plan \<and>
     checkAuthorization (cl_authorization claim) (cl_now claim) = Inr () \<and>
     (\<exists>call. js_at (dr_calls (pl_draft plan)) (cl_stepIndex claim) = Some call \<and>
        (\<forall>d \<in> set (call_dependsOn call). dependencyMet plan d)) \<and>
     cl_now claim < at_leaseUntil (cl_attempt claim) \<and>
     at_leaseUntil (cl_attempt claim) \<le> cl_now claim + 120000 \<and>
     at_reservedAt (cl_attempt claim) \<le> cl_now claim \<and>
     map_option at_leaseToken (st_attempt step) \<noteq> Some (at_leaseToken (cl_attempt claim)) \<and>
     q = bumpRevision (replaceStep plan (cl_stepIndex claim)
       (step\<lparr>st_attempt := Some (renewAttempt (st_attempt step) (cl_attempt claim)),
             st_state := Reserved\<rparr>)) \<and>
     storable json_of_StoredPlan plan \<and> storable json_of_StoredPlan q"
  (is "?l \<longleftrightarrow> ?r")
proof -
  have "?l \<longleftrightarrow> pl_revision plan = cl_expectedRevision claim \<and>
     \<not> pl_expiresAt plan \<le> cl_now claim \<and>
     checkAuthorization (cl_authorization claim) (cl_now claim) = Inr () \<and>
     (\<exists>call. js_at (dr_calls (pl_draft plan)) (cl_stepIndex claim) = Some call \<and>
        (\<forall>d \<in> set (call_dependsOn call). dependencyMet plan d)) \<and>
     \<not> (at_leaseUntil (cl_attempt claim) \<le> cl_now claim \<or>
        at_leaseUntil (cl_attempt claim) - cl_now claim > 120000 \<or>
        at_reservedAt (cl_attempt claim) > cl_now claim) \<and>
     map_option at_leaseToken (st_attempt step) \<noteq> Some (at_leaseToken (cl_attempt claim)) \<and>
     storable json_of_StoredPlan plan \<and>
     storable json_of_StoredPlan (bumpRevision (replaceStep plan (cl_stepIndex claim)
       (step\<lparr>st_attempt := Some (renewAttempt (st_attempt step) (cl_attempt claim)),
             st_state := Reserved\<rparr>))) \<and>
     q = bumpRevision (replaceStep plan (cl_stepIndex claim)
       (step\<lparr>st_attempt := Some (renewAttempt (st_attempt step) (cl_attempt claim)),
             st_state := Reserved\<rparr>)) \<and> dispatch \<and> changed"
    unfolding grantDispatch_def Let_def by (simp add: res_simps) blast
  then show ?thesis by (auto simp: not_le not_less)
qed

lemma prepareClaim_dispatched:
  assumes "prepareClaim plan claim = Inr (q, True, changed)"
  defines "step \<equiv> pl_steps plan ! nat (cl_stepIndex claim)"
  shows "cl_dispatch claim" and "st_state step \<noteq> Confirmed" and "st_state step \<noteq> Reverted"
    and "\<And>b. st_attempt step = Some b \<Longrightarrow> at_leaseUntil b \<le> cl_now claim"
    and "grantDispatch plan claim step = Inr (q, True, changed)"
proof -
  have *: "\<not> (\<not> cl_dispatch claim \<or> st_state step = Confirmed \<or> st_state step = Reverted \<or>
      (case st_attempt step of None \<Rightarrow> False | Some a \<Rightarrow> at_leaseUntil a > cl_now claim)) \<and>
      grantDispatch plan claim step = Inr (q, True, changed)"
    using assms(1) unfolding prepareClaim_def Let_def step_def
    by (simp add: res_simps split: if_splits)
  then show "cl_dispatch claim" "st_state step \<noteq> Confirmed" "st_state step \<noteq> Reverted"
    "grantDispatch plan claim step = Inr (q, True, changed)" by blast+
  fix b assume "st_attempt step = Some b"
  with * show "at_leaseUntil b \<le> cl_now claim" by simp
qed

lemma sameAttempt_renew_old: "sameAttempt b (renewAttempt (Some b) a)"
  by (simp add: renewAttempt_def sameAttempt_iff)

lemma sameAttempt_renew:
  "(\<And>b. current = Some b \<Longrightarrow> sameAttempt b a) \<Longrightarrow> sameAttempt a (renewAttempt current a)"
proof (cases current)
  case None
  then show ?thesis by (simp add: renewAttempt_def sameAttempt_iff)
next
  case (Some b)
  assume "\<And>b. current = Some b \<Longrightarrow> sameAttempt b a"
  with Some have "sameAttempt b a" by simp
  with sameAttempt_renew_old [of b a] Some show ?thesis by (simp add: sameAttempt_def)
qed

lemma prepareClaim_evolves:
  assumes "prepareClaim plan claim = Inr (q, dispatch, changed)" and wf: "plan_wf plan"
  shows "plan_evolves plan q"
proof -
  note r = prepareClaim_returns [OF assms(1)]
  have idx: "st_index (pl_steps plan ! nat (cl_stepIndex claim)) = cl_stepIndex claim"
    using wf r(1,2) by (simp add: plan_wf_def)
  consider "changed = False" | "changed = True" "dispatch = False" | "changed = True" "dispatch = True"
    by blast
  then show ?thesis
  proof cases
    case 1
    with assms(1) have "q = plan" using prepareClaim_unchanged by blast
    then show ?thesis by simp
  next
    case 2
    note c = prepareClaim_recorded [OF assms(1) [unfolded 2]]
    show ?thesis unfolding c(4)
      by (rule plan_evolves_replace) (simp add: step_evolves_def step_exclusive_def c(1) r(3) idx)
  next
    case 3
    note c = prepareClaim_dispatched [OF assms(1) [unfolded 3]]
    then have "q = bumpRevision (replaceStep plan (cl_stepIndex claim)
        ((pl_steps plan ! nat (cl_stepIndex claim))\<lparr>st_attempt := Some (renewAttempt
          (st_attempt (pl_steps plan ! nat (cl_stepIndex claim))) (cl_attempt claim)), st_state := Reserved\<rparr>))"
      unfolding grantDispatch_iff by blast
    then show ?thesis
      using r(3) by (auto simp: step_evolves_def step_exclusive_def sameAttempt_renew_old
          intro!: plan_evolves_replace)
  qed
qed

end
