(* ===== verification/Revisioned.thy ===== *)
theory Revisioned
  imports Prelude
begin

text \<open>
  Records under optimistic concurrency control. Every store of the service keeps a \<open>revision\<close> in
  its records, raises it by one with every change, and lets a writer name the revision it read.
  The locale states that contract for one kind of record and derives what a writer relies on:
  along any history the reviewed identity is constant, revisions only grow, and a revision
  determines the whole record, so \<^verbatim>\<open>revision !== expectedRevision\<close> detects every change in between.
\<close>

locale revisioned =
  fixes revision :: "'a \<Rightarrow> int"
    and identity :: "'a \<Rightarrow> 'i"
    and wf :: "'a \<Rightarrow> bool"
    and change :: "'a \<Rightarrow> 'a \<Rightarrow> bool"
  assumes change_wf: "wf x \<Longrightarrow> change x y \<Longrightarrow> wf y"
    and change_identity: "wf x \<Longrightarrow> change x y \<Longrightarrow> identity y = identity x"
    and change_revision: "wf x \<Longrightarrow> change x y \<Longrightarrow> y = x \<or> revision y = revision x + 1"
begin

lemma history_wf: "change\<^sup>*\<^sup>* x y \<Longrightarrow> wf x \<Longrightarrow> wf y"
  by (induction rule: rtranclp_induct) (auto dest: change_wf)

lemma history_identity: "change\<^sup>*\<^sup>* x y \<Longrightarrow> wf x \<Longrightarrow> identity y = identity x"
proof (induction rule: rtranclp_induct)
  case (step y z)
  then show ?case using history_wf [of x y] change_identity [of y z] by simp
qed simp

lemma history_revision: "change\<^sup>*\<^sup>* x y \<Longrightarrow> wf x \<Longrightarrow> y = x \<or> revision x < revision y"
proof (induction rule: rtranclp_induct)
  case (step y z)
  then show ?case using history_wf [of x y] change_revision [of y z] by auto
qed simp

text \<open>The compare-and-swap is sound: an unchanged revision is an unchanged record.\<close>

lemma revision_determines: "change\<^sup>*\<^sup>* x y \<Longrightarrow> wf x \<Longrightarrow> revision y = revision x \<Longrightarrow> y = x"
  using history_revision by fastforce

end

text \<open>
  A store over all its runs. Every step keeps the invariant and relates the states by an order that says what may change, so every run does,
  from whatever state it starts.
\<close>

locale evolving_store =
  fixes step :: "'s \<Rightarrow> 's \<Rightarrow> bool"
    and inv :: "'s \<Rightarrow> bool"
    and ext :: "'s \<Rightarrow> 's \<Rightarrow> bool"
    and start :: 's
  assumes step_keeps: "step s t \<Longrightarrow> inv s \<Longrightarrow> inv t \<and> ext s t"
    and ext_refl: "ext s s"
    and ext_trans: "ext r s \<Longrightarrow> ext s t \<Longrightarrow> ext r t"
    and start_inv: "inv start"
begin

lemma run: "step\<^sup>*\<^sup>* s t \<Longrightarrow> inv s \<Longrightarrow> inv t \<and> ext s t"
proof (induction rule: rtranclp_induct)
  case (step t u)
  then show ?case using step_keeps [of t u] ext_trans [of s t u] by blast
qed (simp add: ext_refl)

lemma reach: "step\<^sup>*\<^sup>* start s \<Longrightarrow> inv s"
  using run start_inv by blast

end

text \<open>
  Another implementation of a store. Its steps are simulated by runs of the store, so each of its states shows what some
  reachable state of the store holds.
\<close>

locale refined_store = evolving_store +
  fixes cstep :: "'c \<Rightarrow> 'c \<Rightarrow> bool"
    and sim :: "'c \<Rightarrow> 'a \<Rightarrow> bool"
    and cstart :: 'c
  assumes sim_step: "cstep c c' \<Longrightarrow> sim c s \<Longrightarrow> inv s \<Longrightarrow> \<exists>s'. step\<^sup>*\<^sup>* s s' \<and> sim c' s'"
    and sim_start: "sim cstart start"
begin

lemma run_sim: "cstep\<^sup>*\<^sup>* c c' \<Longrightarrow> sim c s \<Longrightarrow> inv s \<Longrightarrow> \<exists>s'. step\<^sup>*\<^sup>* s s' \<and> sim c' s'"
proof (induction rule: rtranclp_induct)
  case (step c1 c2)
  then obtain s1 where s1: "step\<^sup>*\<^sup>* s s1" "sim c1 s1" by blast
  have "inv s1" using run [OF s1(1)] step by simp
  with sim_step [OF step(2) s1(2)] s1(1) show ?case by (metis rtranclp_trans)
qed blast

lemma reach_sim: "cstep\<^sup>*\<^sup>* cstart c \<Longrightarrow> \<exists>s. step\<^sup>*\<^sup>* start s \<and> sim c s \<and> inv s"
  using run_sim [OF _ sim_start start_inv] reach by blast

end

end
