(* ===== verification/PlanHistory.thy ===== *)
theory PlanHistory
  imports PlanTransitions Revisioned
begin

text \<open>
  What a transaction plan keeps over its whole life: each transition lets a plan evolve only in
  the ways \<open>plan_evolves\<close> allows, the plan is a \<open>revisioned\<close> record under the relation \<open>plan_change\<close>
  of all transitions, and an external step that counts as confirmed carries its canonical receipt.
\<close>

subsection \<open>settle\<close>

lemma settle_stale:
  assumes "settle plan index token patch = Inr q"
    and "map_option at_leaseToken (st_attempt (pl_steps plan ! nat index)) \<noteq> Some token"
  shows "q = plan"
  using assms unfolding settle_def Let_def
  by (cases "st_attempt (pl_steps plan ! nat index)") (simp_all add: res_simps)

lemma settle_returns:
  assumes "settle plan index token patch = Inr q" and "q \<noteq> plan"
  defines "current \<equiv> pl_steps plan ! nat index"
  obtains a where "st_attempt current = Some a" and "at_leaseToken a = token"
    and "q = bumpRevision (replaceStep plan index
          (current\<lparr>st_state := settledState current patch, st_attempt := Some (settledAttempt a patch)\<rparr>))"
proof -
  have "map_option at_leaseToken (st_attempt current) = Some token"
    using assms settle_stale by blast
  then obtain a where a: "st_attempt current = Some a" "at_leaseToken a = token" by auto
  have "q = bumpRevision (replaceStep plan index
          (current\<lparr>st_state := settledState current patch, st_attempt := Some (settledAttempt a patch)\<rparr>))"
    using assms(1,2) a unfolding settle_def Let_def current_def
    by (simp add: res_simps split: if_splits)
  with a that show thesis by blast
qed

lemma settledAttempt_simps [simp]:
  "sameAttempt a (settledAttempt a patch)" "at_leaseToken (settledAttempt a patch) = at_leaseToken a"
  "at_leaseUntil (settledAttempt a patch) = at_leaseUntil a"
  by (simp_all add: settledAttempt_def sameAttempt_iff)

lemma settle_evolves:
  assumes "settle plan index token patch = Inr q"
  shows "plan_evolves plan q"
proof (cases "q = plan")
  case False
  with assms obtain a where "st_attempt (pl_steps plan ! nat index) = Some a"
    "q = bumpRevision (replaceStep plan index ((pl_steps plan ! nat index)
       \<lparr>st_state := settledState (pl_steps plan ! nat index) patch, st_attempt := Some (settledAttempt a patch)\<rparr>))"
    using settle_returns by blast
  then show ?thesis
    by (auto simp: step_evolves_def step_exclusive_def same_binding_def intro!: plan_evolves_replace)
qed simp

subsection \<open>External executions\<close>

text \<open>
  The loops work on a copy whose revision is raised once at the end: what every round keeps.
\<close>

definition steps_evolve :: "StoredPlan \<Rightarrow> StoredPlan \<Rightarrow> bool" where
  "steps_evolve p q \<longleftrightarrow>
     reviewed q = reviewed p \<and> pl_revision q = pl_revision p \<and> list_all2 step_evolves (pl_steps p) (pl_steps q)"

lemma steps_evolve_refl [simp]: "steps_evolve p p"
  by (simp add: steps_evolve_def list_all2_refl)

lemma steps_evolve_bump: "steps_evolve p q \<Longrightarrow> plan_evolves p (bumpRevision q)"
  by (simp add: steps_evolve_def plan_evolves_def)

lemma steps_evolve_replace:
  assumes "steps_evolve p q" and "nat i < length (pl_steps p) \<Longrightarrow> step_evolves (pl_steps p ! nat i) s"
  shows "steps_evolve p (replaceStep q i s)"
proof -
  have "step_evolves (pl_steps p ! j) ((pl_steps q)[nat i := s] ! j)" if "j < length (pl_steps p)" for j
    using assms that by (cases "j = nat i") (simp_all add: steps_evolve_def list_all2_conv_all_nth)
  then show ?thesis using assms(1) by (simp add: steps_evolve_def list_all2_conv_all_nth)
qed

lemma same_binding_refl [simp]: "same_binding e e"
  by (simp add: same_binding_def)

lemma same_binding_trans: "same_binding e f \<Longrightarrow> same_binding f g \<Longrightarrow> same_binding e g"
  by (simp add: same_binding_def)

lemma kept_trans:
  assumes "\<forall>a. x = Some a \<longrightarrow> (\<exists>b. y = Some b \<and> R a b)" and "\<forall>b. y = Some b \<longrightarrow> (\<exists>c. z = Some c \<and> R b c)"
    and "\<And>a b c. R a b \<Longrightarrow> R b c \<Longrightarrow> R a c"
  shows "\<forall>a. x = Some a \<longrightarrow> (\<exists>c. z = Some c \<and> R a c)"
  using assms by (cases x; cases y) auto

lemma step_evolves_trans:
  assumes "step_evolves r s" and "step_evolves s t"
  shows "step_evolves r t"
  unfolding step_evolves_def
proof (intro conjI)
  note rs = assms(1) [unfolded step_evolves_def] and st = assms(2) [unfolded step_evolves_def]
  show "\<forall>a. st_attempt r = Some a \<longrightarrow> (\<exists>b. st_attempt t = Some b \<and> sameAttempt a b)"
    by (rule kept_trans [where y = "st_attempt s"]) (use rs st in \<open>auto intro: sameAttempt_trans\<close>)
  show "\<forall>e. st_externalExecution r = Some e \<longrightarrow> (\<exists>f. st_externalExecution t = Some f \<and> same_binding e f)"
    by (rule kept_trans [where y = "st_externalExecution s"]) (use rs st in \<open>auto intro: same_binding_trans\<close>)
qed (use assms in \<open>simp_all add: step_evolves_def\<close>)

lemma attachBinding_returns:
  assumes "attachBinding plan binding (nxt, changed) = Inr (nxt', changed')"
  defines "step \<equiv> pl_steps nxt ! nat (tr_stepIndex binding)"
  shows "nxt' = nxt \<and> changed' = changed \<or>
     changed' \<and> 0 \<le> tr_stepIndex binding \<and> nat (tr_stepIndex binding) < length (pl_steps plan) \<and>
     tr_transport binding \<noteq> Direct \<and>
     st_attempt step = None \<and> st_externalExecution step = None \<and> st_state step = Waiting \<and>
     (\<exists>chainId. nxt' = replaceStep nxt (tr_stepIndex binding)
       (step\<lparr>st_externalExecution := Some \<lparr>ex_transport = tr_transport binding,
               ex_bindingId = tr_bindingId binding, ex_chainId = chainId, ex_transactionHash = None\<rparr>,
             st_state := Reserved\<rparr>))"
  using assms(1) unfolding attachBinding_def step_def Let_def
  by (cases "st_externalExecution step")
    (auto simp: res_simps assertExternalIndexes_def step_def split: if_splits)

lemma attachExternalExecutions_evolves:
  assumes "attachExternalExecutions plan bindings = Inr q"
  shows "plan_evolves plan q"
proof -
  have round: "steps_evolve plan (fst acc')"
    if "steps_evolve plan (fst acc)" "attachBinding plan b acc = Inr acc'" for b acc acc'
  proof (cases acc; cases acc')
    fix nxt changed nxt' changed' assume eq: "acc = (nxt, changed)" "acc' = (nxt', changed')"
    from that(1) eq have se: "steps_evolve plan nxt" by simp
    from attachBinding_returns [OF that(2) [unfolded eq]] show ?thesis
    proof
      assume r: "changed' \<and> 0 \<le> tr_stepIndex b \<and> nat (tr_stepIndex b) < length (pl_steps plan) \<and>
        tr_transport b \<noteq> Direct \<and> st_attempt (pl_steps nxt ! nat (tr_stepIndex b)) = None \<and>
        st_externalExecution (pl_steps nxt ! nat (tr_stepIndex b)) = None \<and>
        st_state (pl_steps nxt ! nat (tr_stepIndex b)) = Waiting \<and>
        (\<exists>chainId. nxt' = replaceStep nxt (tr_stepIndex b) ((pl_steps nxt ! nat (tr_stepIndex b))
          \<lparr>st_externalExecution := Some \<lparr>ex_transport = tr_transport b, ex_bindingId = tr_bindingId b,
             ex_chainId = chainId, ex_transactionHash = None\<rparr>, st_state := Reserved\<rparr>))"
      then obtain t where t: "nxt' = replaceStep nxt (tr_stepIndex b) t"
        and "step_evolves (pl_steps nxt ! nat (tr_stepIndex b)) t"
        by (fastforce simp: step_evolves_def step_exclusive_def)
      moreover from se r have "step_evolves (pl_steps plan ! nat (tr_stepIndex b)) (pl_steps nxt ! nat (tr_stepIndex b))"
        by (simp add: steps_evolve_def list_all2_conv_all_nth)
      ultimately show ?thesis using se eq by (auto intro: steps_evolve_replace step_evolves_trans)
    qed (use eq se in simp)
  qed
  from assms obtain nxt changed where
    f: "foldR (attachBinding plan) bindings (plan, False) = Inr (nxt, changed)"
    and q: "q = plan \<or> q = bumpRevision nxt"
    unfolding attachExternalExecutions_def by (auto simp: res_simps split: if_splits)
  have "steps_evolve plan (fst (nxt, changed))"
    by (rule foldR_invariant [OF f]) (use round in auto)
  with q show ?thesis by (auto intro: steps_evolve_bump)
qed

text \<open>What one accepted observation proves of the step it reports on.\<close>

definition observationProven :: "ExternalStepObservation \<Rightarrow> bool" where
  "observationProven update \<longleftrightarrow>
     ob_state update \<noteq> Waiting \<and>
     (ob_state update = Confirmed \<longrightarrow>
        (\<exists>r. ob_receipt update = Some r \<and> rc_canonical r \<and> rc_status r = Success)) \<and>
     (ob_state update = Reverted \<longrightarrow> neverPublished update \<or>
        (\<exists>r. ob_receipt update = Some r \<and> rc_canonical r \<and>
           (rc_status r = RevertedReceipt \<or> map_option sem_status (ob_semantic update) = Some SemFailed))) \<and>
     (\<forall>r. ob_receipt update = Some r \<longrightarrow>
        (\<exists>h. ob_transactionHash update = Some h \<and> same (rc_transactionHash r) h))"

definition observedStep :: "ExternalStepObservation \<Rightarrow> string \<Rightarrow> ExternalExecution \<Rightarrow> StoredStep" where
  "observedStep update bindingId external =
     \<lparr>st_index = ob_index update, st_state = ob_state update, st_attempt = None,
      st_externalExecution = Some \<lparr>ex_transport = ex_transport external, ex_bindingId = bindingId,
        ex_chainId = ex_chainId external, ex_transactionHash = ob_transactionHash update\<rparr>,
      st_receipt = ob_receipt update, st_semantic = ob_semantic update\<rparr>"

lemma clone_option_eq_Inr [res_simps]:
  "(case x of None \<Rightarrow> Inr None | Some r \<Rightarrow> bindR (boundedClone j r) (\<lambda>r'. Inr (Some r'))) = Inr y \<longleftrightarrow>
     y = x \<and> (\<forall>r. x = Some r \<longrightarrow> storable j r)"
  by (cases x) (auto simp: res_simps)

lemma checkReceipt_returns:
  "checkReceipt update = Inr u \<Longrightarrow> ob_receipt update = Some r \<Longrightarrow>
     \<exists>h. ob_transactionHash update = Some h \<and> same (rc_transactionHash r) h"
  by (cases "ob_transactionHash update") (simp_all add: checkReceipt_def res_simps same_def)

lemma applyObservation_returns:
  assumes "applyObservation plan bindingId update nxt = Inr nxt'"
  obtains external where
    "st_externalExecution (pl_steps plan ! nat (ob_index update)) = Some external"
    "st_attempt (pl_steps plan ! nat (ob_index update)) = None"
    "ex_transport external \<noteq> Direct" "ex_bindingId external = bindingId"
    "observationProven update"
    "nxt' = replaceStep nxt (ob_index update) (observedStep update bindingId external)"
proof -
  obtain external where e: "st_externalExecution (pl_steps plan ! nat (ob_index update)) = Some external"
    using assms unfolding applyObservation_def Let_def
    by (cases "st_externalExecution (pl_steps plan ! nat (ob_index update))") (simp_all add: res_simps)
  have c: "ob_state update \<noteq> Waiting \<and>
     \<not> (st_attempt (pl_steps plan ! nat (ob_index update)) \<noteq> None \<or>
        (ex_transport external \<noteq> Relayr \<and> ex_transport external \<noteq> Erc4337) \<or> ex_bindingId external \<noteq> bindingId) \<and>
     checkReceipt update = Inr () \<and>
     \<not> (ob_state update = Confirmed \<and>
        (case ob_receipt update of None \<Rightarrow> True | Some r \<Rightarrow> \<not> rc_canonical r \<or> rc_status r \<noteq> Success)) \<and>
     \<not> (ob_state update = Reverted \<and> \<not> neverPublished update \<and>
        (case ob_receipt update of None \<Rightarrow> True
         | Some r \<Rightarrow> \<not> rc_canonical r \<or> (rc_status r \<noteq> RevertedReceipt \<and>
             map_option sem_status (ob_semantic update) \<noteq> Some SemFailed))) \<and>
     nxt' = replaceStep nxt (ob_index update) (observedStep update bindingId external)"
    using assms unfolding applyObservation_def Let_def observedStep_def e option.case
    by (simp add: res_simps del: not_Some_eq) blast
  then have "observationProven update"
    unfolding observationProven_def
    by (cases "ob_receipt update") (auto dest: checkReceipt_returns)
  with e c show thesis by (intro that) auto
qed

lemma applyExternalObservations_evolves:
  assumes "applyExternalObservations plan bindingId updates = Inr q" and "plan_wf plan"
  shows "plan_evolves plan q"
proof -
  from assms(1) obtain nxt where
    f: "foldR (applyObservation plan bindingId) updates plan = Inr nxt"
    and idx: "assertExternalIndexes plan (map ob_index updates) = Inr ()"
    and q: "q = plan \<or> q = bumpRevision nxt"
    unfolding applyExternalObservations_def by (auto simp: res_simps split: if_splits)
  have "steps_evolve plan nxt"
  proof (rule foldR_invariant [OF f, where P = "steps_evolve plan"])
    fix u s t assume u: "u \<in> set updates" and s: "steps_evolve plan s"
      and "applyObservation plan bindingId u s = Inr t"
    then obtain external where e:
      "st_externalExecution (pl_steps plan ! nat (ob_index u)) = Some external"
      "st_attempt (pl_steps plan ! nat (ob_index u)) = None" "ex_bindingId external = bindingId"
      "t = replaceStep s (ob_index u) (observedStep u bindingId external)"
      using applyObservation_returns by blast
    from idx u have "0 \<le> ob_index u" "nat (ob_index u) < length (pl_steps plan)"
      by (auto simp: assertExternalIndexes_def res_simps list_ex_iff)
    then have "st_index (pl_steps plan ! nat (ob_index u)) = ob_index u"
      using assms(2) by (simp add: plan_wf_def)
    with e s show "steps_evolve plan t"
      by (auto intro!: steps_evolve_replace
          simp: step_evolves_def step_exclusive_def same_binding_def observedStep_def)
  qed simp
  with q show ?thesis by (auto intro: steps_evolve_bump)
qed

subsection \<open>Saving reconciled steps\<close>

lemma assertSavedSteps_evolves:
  assumes "assertSavedSteps plan steps = Inr ()" and "plan_wf plan"
  shows "plan_evolves plan (bumpRevision (plan\<lparr>pl_steps := steps\<rparr>))"
proof -
  have len: "length steps = length (pl_steps plan)"
    using assms(1) by (simp add: assertSavedSteps_def res_simps)
  have "step_evolves (pl_steps plan ! i) (steps ! i)" if i: "i < length (pl_steps plan)" for i
  proof -
    have "(int i, steps ! i) \<in> set (indexed steps)"
      using i len by (auto simp: set_zip intro!: exI [of _ i])
    with assms(1) have "st_index (steps ! i) = int i \<and> st_attempt (steps ! i) = st_attempt (pl_steps plan ! i) \<and>
      (st_externalExecution (steps ! i) = None \<and> st_externalExecution (pl_steps plan ! i) = None \<or>
       steps ! i = pl_steps plan ! i)"
      unfolding assertSavedSteps_def by (force simp: res_simps Let_def)
    with assms(2) i show ?thesis
      by (auto simp: step_evolves_def step_exclusive_def plan_wf_def)
  qed
  with len show ?thesis
    by (simp add: plan_evolves_def reviewed_def bumpRevision_def list_all2_conv_all_nth)
qed

section \<open>Histories of a plan\<close>

text \<open>The changes the stores make to a plan, by the operation that makes them.\<close>

inductive plan_change :: "StoredPlan \<Rightarrow> StoredPlan \<Rightarrow> bool" where
  Claim: "prepareClaim p claim = Inr (q, dispatch, changed) \<Longrightarrow> plan_change p q"
| Settle: "settle p index leaseToken patch = Inr q \<Longrightarrow> plan_change p q"
| Attach: "attachExternalExecutions p bindings = Inr q \<Longrightarrow> plan_change p q"
| Observe: "applyExternalObservations p bindingId updates = Inr q \<Longrightarrow> plan_change p q"
| Save: "assertSavedSteps p steps = Inr () \<Longrightarrow> plan_change p (bumpRevision (p\<lparr>pl_steps := steps\<rparr>))"

lemma plan_change_evolves: "plan_change p q \<Longrightarrow> plan_wf p \<Longrightarrow> plan_evolves p q"
  by (induction rule: plan_change.induct)
    (blast intro: prepareClaim_evolves settle_evolves attachExternalExecutions_evolves
      applyExternalObservations_evolves assertSavedSteps_evolves)+

interpretation plan_history: revisioned pl_revision reviewed plan_wf plan_change
proof
  fix p q assume "plan_wf p" "plan_change p q"
  then have "plan_evolves p q" using plan_change_evolves by blast
  with \<open>plan_wf p\<close> show "plan_wf q" "reviewed q = reviewed p" "q = p \<or> pl_revision q = pl_revision p + 1"
    by (auto intro: plan_evolves_wf simp: plan_evolves_def)
qed

text \<open>A step's signed transaction and its external binding survive every history.\<close>

lemma plan_history_steps:
  assumes "plan_change\<^sup>*\<^sup>* p q" and "plan_wf p"
  shows "list_all2 step_evolves (pl_steps p) (pl_steps q)"
  using assms
proof (induction rule: rtranclp_induct)
  case base
  then show ?case by (simp add: list_all2_refl)
next
  case (step q r)
  have "plan_evolves q r"
    using plan_change_evolves [OF step.hyps(2)] plan_history.history_wf [OF step.hyps(1) step.prems] .
  then have "list_all2 step_evolves (pl_steps q) (pl_steps r)" by (simp add: plan_evolves_def)
  with step.IH [OF step.prems] show ?case
    by (rule list_all2_trans [of step_evolves step_evolves step_evolves, rotated]) (rule step_evolves_trans)
qed

text \<open>Evidence of execution: an external step is confirmed by a canonical success only.\<close>

definition step_evidence :: "StoredStep \<Rightarrow> bool" where
  "step_evidence step \<longleftrightarrow>
     (st_externalExecution step \<noteq> None \<and> st_state step = Confirmed \<longrightarrow>
        (\<exists>r h. st_receipt step = Some r \<and> rc_canonical r \<and> rc_status r = Success \<and>
           ex_transactionHash (the (st_externalExecution step)) = Some h \<and> same (rc_transactionHash r) h))"

definition plan_evidence :: "StoredPlan \<Rightarrow> bool" where
  "plan_evidence plan \<longleftrightarrow> list_all step_evidence (pl_steps plan)"

lemma plan_evidence_replace:
  "plan_evidence p \<Longrightarrow> step_evidence s \<Longrightarrow> plan_evidence (replaceStep p i s)"
  by (auto simp: plan_evidence_def list_all_iff dest!: set_update_subset_insert [THEN subsetD])

lemma plan_evidence_bump [simp]: "plan_evidence (bumpRevision p) = plan_evidence p"
  by (simp add: plan_evidence_def)

lemma plan_evidence_nth: "plan_evidence p \<Longrightarrow> i < length (pl_steps p) \<Longrightarrow> step_evidence (pl_steps p ! i)"
  by (simp add: plan_evidence_def list_all_length)

lemma observedStep_evidence: "observationProven u \<Longrightarrow> step_evidence (observedStep u b e)"
  by (auto simp: observationProven_def step_evidence_def observedStep_def)

lemma prepareClaim_evidence:
  assumes "prepareClaim p claim = Inr (q, dispatch, changed)" and "plan_evidence p"
  shows "plan_evidence q"
proof -
  note r = prepareClaim_returns [OF assms(1)]
  consider "changed = False" | "changed = True" "dispatch = False" | "changed = True" "dispatch = True" by blast
  then show ?thesis
  proof cases
    case 1
    with assms show ?thesis using prepareClaim_unchanged by blast
  next
    case 2
    note c = prepareClaim_recorded(4) [OF assms(1) [unfolded 2]]
    show ?thesis unfolding c using assms(2) by (auto simp: step_evidence_def intro: plan_evidence_replace)
  next
    case 3
    note c = prepareClaim_dispatched(5) [OF assms(1) [unfolded 3]]
    then show ?thesis using assms(2) r(3)
      by (auto simp: grantDispatch_iff step_evidence_def intro: plan_evidence_replace)
  qed
qed

lemma settle_evidence:
  assumes "settle p index token patch = Inr q" and "plan_wf p" and "plan_evidence p"
  shows "plan_evidence q"
proof (cases "q = p \<or> length (pl_steps p) \<le> nat index")
  case True
  with assms show ?thesis by (metis list_update_beyond plan_evidence_bump plan_evidence_def
        replaceStep_simps(2) settle_returns)
next
  case False
  with assms(1) obtain a where a: "st_attempt (pl_steps p ! nat index) = Some a"
    "q = bumpRevision (replaceStep p index ((pl_steps p ! nat index)
      \<lparr>st_state := settledState (pl_steps p ! nat index) patch, st_attempt := Some (settledAttempt a patch)\<rparr>))"
    using settle_returns by blast
  moreover have "step_exclusive (pl_steps p ! nat index)"
    using assms(2) False by (auto simp: plan_wf_def list_all_length)
  ultimately have "st_externalExecution (pl_steps p ! nat index) = None"
    by (simp add: step_exclusive_def)
  with a assms(3) show ?thesis by (auto simp: step_evidence_def intro: plan_evidence_replace)
qed

lemma attachExternalExecutions_evidence:
  assumes "attachExternalExecutions p bindings = Inr q" and "plan_evidence p"
  shows "plan_evidence q"
proof -
  from assms(1) obtain nxt changed where f: "foldR (attachBinding p) bindings (p, False) = Inr (nxt, changed)"
    and q: "q = p \<or> q = bumpRevision nxt"
    unfolding attachExternalExecutions_def by (auto simp: res_simps split: if_splits)
  have "plan_evidence (fst (nxt, changed))"
  proof (rule foldR_invariant [OF f])
    fix b acc acc' assume "plan_evidence (fst acc)" "attachBinding p b acc = Inr acc'"
    then show "plan_evidence (fst acc')"
      by (cases acc; cases acc')
        (auto dest!: attachBinding_returns simp: step_evidence_def intro!: plan_evidence_replace)
  qed (use assms in simp)
  with q assms(2) show ?thesis by auto
qed

lemma applyExternalObservations_evidence:
  assumes "applyExternalObservations p bindingId updates = Inr q" and "plan_evidence p"
  shows "plan_evidence q"
proof -
  from assms(1) obtain nxt where f: "foldR (applyObservation p bindingId) updates p = Inr nxt"
    and q: "q = p \<or> q = bumpRevision nxt"
    unfolding applyExternalObservations_def by (auto simp: res_simps split: if_splits)
  have "plan_evidence nxt"
  proof (rule foldR_invariant [OF f])
    fix u s t assume "plan_evidence s" "applyObservation p bindingId u s = Inr t"
    then show "plan_evidence t"
      by (elim applyObservation_returns) (auto intro: plan_evidence_replace observedStep_evidence)
  qed (use assms in simp)
  with q assms(2) show ?thesis by auto
qed

lemma assertSavedSteps_evidence:
  assumes "assertSavedSteps p steps = Inr ()" and "plan_evidence p"
  shows "plan_evidence (bumpRevision (p\<lparr>pl_steps := steps\<rparr>))"
proof -
  have "step_evidence (steps ! i)" if i: "i < length steps" for i
  proof -
    have "(int i, steps ! i) \<in> set (indexed steps)" using i by (auto simp: set_zip intro!: exI [of _ i])
    with assms(1) have "st_externalExecution (steps ! i) = None \<or> steps ! i = pl_steps p ! i"
      and "length steps = length (pl_steps p)"
      unfolding assertSavedSteps_def by (force simp: res_simps Let_def)+
    with assms(2) i show ?thesis by (auto simp: step_evidence_def dest: plan_evidence_nth)
  qed
  then show ?thesis by (simp add: plan_evidence_def list_all_length)
qed

lemma plan_history_evidence:
  assumes "plan_change\<^sup>*\<^sup>* p q" and "plan_wf p" and "plan_evidence p"
  shows "plan_evidence q"
  using assms
proof (induction rule: rtranclp_induct)
  case (step q r)
  then have "plan_wf q" "plan_evidence q" using plan_history.history_wf by blast+
  with step.hyps(2) show ?case
    by (cases rule: plan_change.cases)
      (blast intro: prepareClaim_evidence settle_evidence attachExternalExecutions_evidence
        applyExternalObservations_evidence assertSavedSteps_evidence)+
qed

end
