(* ===== verification/Transports.thy ===== *)
theory Transports
  imports TransactionStore
begin

text \<open>
  Permanent transport reservations (\<^verbatim>\<open>src/src/rest/transactions/transport-reservations.ts\<close>, the
  in-memory class). One instance is shared by the transaction, sponsorship and user-operation
  stores; it decides which transport a step may use, once and for all. The locale
  \<open>transport_ledger\<close> is the contract the stores rely on, and the last section interprets it on the
  code's own class.
\<close>

section \<open>The contract\<close>

locale transport_ledger =
  fixes claim :: "'k \<Rightarrow> int list \<Rightarrow> 't \<Rightarrow> 'b \<Rightarrow> 's \<Rightarrow> ('e + unit) \<times> 's"
    and bound :: "'s \<Rightarrow> 'k \<Rightarrow> int \<Rightarrow> ('t \<times> 'b) option"
  assumes claim_binds: "claim k idx t b s = (Inr u, s') \<Longrightarrow>
      bound s' k' i = (if k' = k \<and> i \<in> set idx then Some (t, b) else bound s k' i)"
    and claim_compatible: "claim k idx t b s = (Inr u, s') \<Longrightarrow> i \<in> set idx \<Longrightarrow>
      bound s k i = None \<or> bound s k i = Some (t, b)"
    and claim_all_or_nothing: "claim k idx t b s = (Inl e, s') \<Longrightarrow> s' = s"
begin

definition ledger_step :: "'s \<Rightarrow> 's \<Rightarrow> bool" where
  "ledger_step s s' \<longleftrightarrow> (\<exists>k idx t b r. claim k idx t b s = (r, s'))"

lemma ledger_stepI: "claim k idx t b s = (r, s') \<Longrightarrow> ledger_step s s'"
  unfolding ledger_step_def by blast

lemma bound_step: "ledger_step s s' \<Longrightarrow> bound s k i = Some x \<Longrightarrow> bound s' k i = Some x"
proof -
  assume "ledger_step s s'" and b: "bound s k i = Some x"
  then obtain k' idx t c r where c: "claim k' idx t c s = (r, s')" by (auto simp: ledger_step_def)
  show ?thesis
  proof (cases r)
    case (Inl e)
    with c b show ?thesis using claim_all_or_nothing by blast
  next
    case (Inr u)
    with c claim_binds [of k' idx t c s u s' k i] claim_compatible [of k' idx t c s u s' i] b
    show ?thesis by (auto split: if_splits)
  qed
qed

lemma bound_forever: "ledger_step\<^sup>*\<^sup>* s s' \<Longrightarrow> bound s k i = Some x \<Longrightarrow> bound s' k i = Some x"
  by (induction rule: rtranclp_induct) (auto intro: bound_step)

text \<open>Two claims that both succeeded for one step, whatever happened in between, agree.\<close>

lemma claims_agree:
  assumes "claim k idx t b s = (Inr u, s1)" and "ledger_step\<^sup>*\<^sup>* s1 s2"
    and "claim k js t' b' s2 = (Inr v, s3)" and "i \<in> set idx" and "i \<in> set js"
  shows "t = t' \<and> b = b'"
proof -
  have "bound s2 k i = Some (t, b)"
    using claim_binds [OF assms(1), of k i] bound_forever [OF assms(2)] assms(4) by simp
  with claim_compatible [OF assms(3,5)] show ?thesis by auto
qed

end

section \<open>MemoryTransportReservations\<close>

record Reservation =
  rv_transport :: ReservedTransport
  rv_bindingId :: string

type_synonym Reservations = "(string, (int, Reservation) jsmap) jsmap"

text \<open>The pattern \<^verbatim>\<open>^0x[0-9a-f]{64}$\<close>.\<close>

definition isNormalizedHash :: "string \<Rightarrow> bool" where
  "isNormalizedHash s \<longleftrightarrow> length s = 66 \<and> take 2 s = ''0x'' \<and> list_all isLowerHexDigit (drop 2 s)"

definition transport_parameters ::
  "string \<Rightarrow> int list \<Rightarrow> ReservedTransport \<Rightarrow> string \<Rightarrow> int list res" where
  "transport_parameters planId stepIndexes transport bindingId =
     bindR (assertText planId) (\<lambda>_.
     bindR (assertText bindingId) (\<lambda>_.
     bindR (ensure (\<not> (transport = Direct \<and> \<not> isNormalizedHash bindingId))
          (invalid ''Direct transaction transport requires the normalized transaction hash.'')) (\<lambda>_.
     bindR (ensure (\<not> (length stepIndexes < 1 \<or> length stepIndexes > maximumSteps \<or> \<not> distinct stepIndexes \<or>
            list_ex (\<lambda>index. \<not> isSafeInteger index \<or> index < 0 \<or> index \<ge> int maximumSteps) stepIndexes))
          (invalid ''Invalid transaction transport step indexes.'')) (\<lambda>_.
     Inr (sort stepIndexes)))))"

definition transport_matches :: "Reservation \<Rightarrow> ReservedTransport \<Rightarrow> string \<Rightarrow> bool" where
  "transport_matches existing transport bindingId \<longleftrightarrow>
     rv_transport existing = transport \<and> rv_bindingId existing = bindingId"

definition transport_conflict :: "int \<Rightarrow> rest_error" where
  "transport_conflict stepIndex =
     RestError 409 ''TRANSPORT_CONFLICT''
       ''A transaction step is permanently bound to a different transport or submission.''
       (Some (JObj [(''stepIndex'', JNum stepIndex)]))"

definition current_of :: "Reservations \<Rightarrow> string \<Rightarrow> (int, Reservation) jsmap" where
  "current_of s planId = (case js_get s planId of None \<Rightarrow> [] | Some m \<Rightarrow> m)"

definition claim_transport ::
  "string \<Rightarrow> int list \<Rightarrow> ReservedTransport \<Rightarrow> string \<Rightarrow> Reservations \<Rightarrow> unit res \<times> Reservations" where
  "claim_transport planId stepIndexes transport bindingId s =
     attempt (transport_parameters planId stepIndexes transport bindingId) s (\<lambda>indexes.
     let current = current_of s planId in
     attempt (forR (\<lambda>index. ensure (\<not> (case js_get current index of None \<Rightarrow> False
                | Some existing \<Rightarrow> \<not> transport_matches existing transport bindingId))
              (transport_conflict index)) indexes) s (\<lambda>_.
     let reserved = fold (\<lambda>index. js_set index \<lparr>rv_transport = transport, rv_bindingId = bindingId\<rparr>) indexes current in
     (Inr (), js_set planId reserved s)))"

definition list_transports :: "string \<Rightarrow> Reservations \<Rightarrow> TransportReservation list res" where
  "list_transports planId s =
     bindR (assertText planId) (\<lambda>_.
     Inr (sort_by (\<lambda>a b. tr_stepIndex a \<le> tr_stepIndex b)
       (map (\<lambda>(stepIndex, r). \<lparr>tr_stepIndex = stepIndex, tr_transport = rv_transport r, tr_bindingId = rv_bindingId r\<rparr>)
         (current_of s planId))))"

definition assertClaimed ::
  "string \<Rightarrow> int list \<Rightarrow> ReservedTransport \<Rightarrow> string \<Rightarrow> Reservations \<Rightarrow> unit res" where
  "assertClaimed planId stepIndexes transport bindingId s =
     bindR (transport_parameters planId stepIndexes transport bindingId) (\<lambda>indexes.
     forR (\<lambda>index. ensure (\<not> (case js_get (current_of s planId) index of None \<Rightarrow> True
              | Some existing \<Rightarrow> \<not> transport_matches existing transport bindingId))
            (transport_conflict index)) indexes)"

section \<open>The class keeps the contract\<close>

definition boundTo :: "Reservations \<Rightarrow> string \<Rightarrow> int \<Rightarrow> (ReservedTransport \<times> string) option" where
  "boundTo s planId index =
     map_option (\<lambda>r. (rv_transport r, rv_bindingId r)) (js_get (current_of s planId) index)"

lemma js_get_fold_set:
  "js_get (fold (\<lambda>k. js_set k v) ks m) k = (if k \<in> set ks then Some v else js_get m k)"
  by (induction ks arbitrary: m) auto

lemma js_wf_fold_set: "js_wf m \<Longrightarrow> js_wf (fold (\<lambda>k. js_set k v) ks m)"
  by (induction ks arbitrary: m) auto

lemma transport_parameters_eq_Inr [res_simps]:
  "transport_parameters planId idx t b = Inr js \<longleftrightarrow>
     assertText planId = Inr () \<and> assertText b = Inr () \<and> (t = Direct \<longrightarrow> isNormalizedHash b) \<and>
     idx \<noteq> [] \<and> length idx \<le> maximumSteps \<and> distinct idx \<and>
     (\<forall>i \<in> set idx. isSafeInteger i \<and> 0 \<le> i \<and> i < int maximumSteps) \<and> js = sort idx"
  by (cases idx) (auto simp: transport_parameters_def res_simps list_ex_iff not_less)

lemma current_of_set [simp]:
  "current_of (js_set k m s) k' = (if k' = k then m else current_of s k')"
  by (simp add: current_of_def)

lemma compatible_iff:
  "(case js_get (current_of s planId) i of None \<Rightarrow> True | Some existing \<Rightarrow> transport_matches existing t b) \<longleftrightarrow>
     boundTo s planId i = None \<or> boundTo s planId i = Some (t, b)"
  by (auto simp: boundTo_def transport_matches_def split: option.splits)

lemma claim_transport_Inr:
  "claim_transport planId idx t b s = (Inr u, s') \<longleftrightarrow>
     transport_parameters planId idx t b = Inr (sort idx) \<and>
     (\<forall>i \<in> set idx. boundTo s planId i = None \<or> boundTo s planId i = Some (t, b)) \<and>
     s' = js_set planId
       (fold (\<lambda>index. js_set index \<lparr>rv_transport = t, rv_bindingId = b\<rparr>) (sort idx) (current_of s planId)) s"
proof -
  have neg: "(\<not> (case x of None \<Rightarrow> False | Some y \<Rightarrow> \<not> P y)) = (case x of None \<Rightarrow> True | Some y \<Rightarrow> P y)" for x P
    by (cases x) simp_all
  show ?thesis by (auto simp: claim_transport_def Let_def res_simps neg compatible_iff)
qed

lemma claim_transport_Inl: "claim_transport planId idx t b s = (Inl e, s') \<Longrightarrow> s' = s"
  by (auto simp: claim_transport_def Let_def res_simps)

interpretation ledger: transport_ledger claim_transport boundTo
proof
  fix k idx t b s u s' k' i
  assume c: "claim_transport k idx t b s = (Inr u, s')"
  then show "boundTo s' k' i = (if k' = k \<and> i \<in> set idx then Some (t, b) else boundTo s k' i)"
    by (auto simp: claim_transport_Inr boundTo_def js_get_fold_set)
  show "boundTo s k i = None \<or> boundTo s k i = Some (t, b)" if "i \<in> set idx"
    using c that by (auto simp: claim_transport_Inr)
qed (rule claim_transport_Inl)

lemma assertClaimed_Inr:
  "assertClaimed planId idx t b s = Inr u \<longleftrightarrow>
     transport_parameters planId idx t b = Inr (sort idx) \<and> (\<forall>i \<in> set idx. boundTo s planId i = Some (t, b))"
  by (auto simp: assertClaimed_def res_simps boundTo_def transport_matches_def split: option.splits)

definition transports_wf :: "Reservations \<Rightarrow> bool" where
  "transports_wf s \<longleftrightarrow> js_wf s \<and> (\<forall>planId. js_wf (current_of s planId))"

lemma transports_wf_Nil [simp]: "transports_wf []"
  by (simp add: transports_wf_def current_of_def)

lemma claim_transport_wf: "claim_transport planId idx t b s = (r, s') \<Longrightarrow> transports_wf s \<Longrightarrow> transports_wf s'"
  by (cases r) (auto dest: claim_transport_Inl simp: claim_transport_Inr transports_wf_def js_wf_fold_set)

text \<open>The listing holds exactly the bindings, each once, in the order of the steps.\<close>

lemma list_transports_iff:
  assumes "list_transports planId s = Inr xs" and "transports_wf s"
  shows "x \<in> set xs \<longleftrightarrow> boundTo s planId (tr_stepIndex x) = Some (tr_transport x, tr_bindingId x)"
proof -
  have wf: "js_wf (current_of s planId)" using assms(2) by (simp add: transports_wf_def)
  have "set xs = (\<lambda>(i, r). \<lparr>tr_stepIndex = i, tr_transport = rv_transport r, tr_bindingId = rv_bindingId r\<rparr>) `
      set (current_of s planId)"
    using assms(1) by (simp add: list_transports_def res_simps split: prod.splits) auto
  then show ?thesis
    using wf by (cases x) (force simp: boundTo_def map_of_eq_Some_iff image_iff)
qed

lemma list_transports_sorted:
  assumes "list_transports planId s = Inr xs"
  shows "sorted (map tr_stepIndex xs)"
proof -
  have "sorted_wrt (\<lambda>a b. tr_stepIndex a \<le> tr_stepIndex b) xs"
    using assms by (auto simp: list_transports_def res_simps intro!: sorted_sort_by)
  then show ?thesis by (simp add: sorted_map)
qed

end
