(* ===== verification/Cursor.thy ===== *)
theory Cursor
  imports TransactionStore
begin

text \<open>
  Page cursors (\<^verbatim>\<open>encodeCursor\<close> and \<^verbatim>\<open>decodeCursor\<close> of \<^verbatim>\<open>src/src/rest/transactions/store.ts\<close>): the
  JSON text of \<^verbatim>\<open>{ createdAt, id }\<close> in base64url. \<^verbatim>\<open>decodeCursor\<close> accepts a cursor only if encoding
  what it read gives the cursor back, so of \<^verbatim>\<open>JSON.parse\<close> only the one canonical shape matters, and
  any other text is refused.
\<close>

section \<open>base64url\<close>

definition b64Char :: "nat \<Rightarrow> char" where
  "b64Char n =
     (if n < 26 then char_of (65 + n) else if n < 52 then char_of (71 + n)
      else if n < 62 then char_of (n - 4) else if n = 62 then char_of (45::nat) else char_of (95::nat))"

definition b64Value :: "char \<Rightarrow> nat" where
  "b64Value c =
     (let n = code c in
      if 65 \<le> n \<and> n \<le> 90 then n - 65 else if 97 \<le> n \<and> n \<le> 122 then n - 71
      else if 48 \<le> n \<and> n \<le> 57 then n + 4 else if n = 45 then 62 else 63)"

definition isB64 :: "char \<Rightarrow> bool" where
  "isB64 c \<longleftrightarrow> isUpper c \<or> isLower c \<or> isDigit c \<or> code c = 45 \<or> code c = 95"

fun encode64 :: "string \<Rightarrow> string" where
  "encode64 [] = []"
| "encode64 [a] = [b64Char (code a div 4), b64Char (code a mod 4 * 16)]"
| "encode64 [a, b] =
     [b64Char (code a div 4), b64Char (code a mod 4 * 16 + code b div 16), b64Char (code b mod 16 * 4)]"
| "encode64 (a # b # c # rest) =
     b64Char (code a div 4) # b64Char (code a mod 4 * 16 + code b div 16) #
     b64Char (code b mod 16 * 4 + code c div 64) # b64Char (code c mod 64) # encode64 rest"

text \<open>\<^verbatim>\<open>Buffer.from(text, "base64url")\<close>: left-over bits are dropped.\<close>

fun decode64 :: "string \<Rightarrow> string" where
  "decode64 (w # x # y # z # rest) =
     char_of (b64Value w * 4 + b64Value x div 16) # char_of (b64Value x mod 16 * 16 + b64Value y div 4) #
     char_of (b64Value y mod 4 * 64 + b64Value z) # decode64 rest"
| "decode64 [w, x, y] =
     [char_of (b64Value w * 4 + b64Value x div 16), char_of (b64Value x mod 16 * 16 + b64Value y div 4)]"
| "decode64 [w, x] = [char_of (b64Value w * 4 + b64Value x div 16)]"
| "decode64 _ = []"

lemma b64Value_Char [simp]: "n < 64 \<Longrightarrow> b64Value (b64Char n) = n"
  by (auto simp: b64Value_def b64Char_def Let_def code_char_of)

lemma isB64_Char: "n < 64 \<Longrightarrow> isB64 (b64Char n)"
  by (auto simp: isB64_def b64Char_def isUpper_def isLower_def isDigit_def code_char_of)

text \<open>Three bytes are four groups of six bits, and back.\<close>

lemma sextet_bounds:
  "code a div 4 < 64" "code a mod 4 * 16 + code b div 16 < 64" "code a mod 4 * 16 < 64"
  "code b mod 16 * 4 < 64" "code b mod 16 * 4 + code c div 64 < 64" "code c mod 64 < 64"
proof -
  have "code a < 256" "code b < 256" "code c < 256" by (rule code_less)+
  then have "code a div 4 < 64" "code b div 16 < 16" "code c div 64 < 4"
    "code a mod 4 < 4" "code b mod 16 < 16" "code c mod 64 < 64" by simp_all
  then show "code a div 4 < 64" "code a mod 4 * 16 + code b div 16 < 64" "code a mod 4 * 16 < 64"
    "code b mod 16 * 4 < 64" "code b mod 16 * 4 + code c div 64 < 64" "code c mod 64 < 64" by linarith+
qed

lemma sextet_bytes:
  "code a div 4 * 4 + (code a mod 4 * 16 + code b div 16) div 16 = code a"
  "(code a mod 4 * 16 + code b div 16) mod 16 * 16 + (code b mod 16 * 4 + code c div 64) div 4 = code b"
  "(code b mod 16 * 4 + code c div 64) mod 4 * 64 + code c mod 64 = code c"
  "code a div 4 * 4 + code a mod 4 * 16 div 16 = code a"
  "(code a mod 4 * 16 + code b div 16) mod 16 * 16 + code b mod 16 * 4 div 4 = code b"
proof -
  have small: "code b div 16 < 16" "code c div 64 < 4"
    using code_less [of b] code_less [of c] by simp_all
  have hi: "(x * 16 + code b div 16) div 16 = x" "(x * 16 + code b div 16) mod 16 = code b div 16"
    "(x * 4 + code c div 64) div 4 = x" "(x * 4 + code c div 64) mod 4 = code c div 64" for x
    using small by (simp_all add: mult.commute [of x])
  show "code a div 4 * 4 + (code a mod 4 * 16 + code b div 16) div 16 = code a"
    "(code a mod 4 * 16 + code b div 16) mod 16 * 16 + (code b mod 16 * 4 + code c div 64) div 4 = code b"
    "(code b mod 16 * 4 + code c div 64) mod 4 * 64 + code c mod 64 = code c"
    "code a div 4 * 4 + code a mod 4 * 16 div 16 = code a"
    "(code a mod 4 * 16 + code b div 16) mod 16 * 16 + code b mod 16 * 4 div 4 = code b"
    unfolding hi by simp_all
qed

theorem decode64_encode64: "decode64 (encode64 s) = s"
  by (induction s rule: encode64.induct)
    (simp_all only: encode64.simps decode64.simps b64Value_Char sextet_bounds sextet_bytes char_of_code)

lemma encode64_alphabet: "list_all isB64 (encode64 s)"
  by (induction s rule: encode64.induct)
    (simp_all only: encode64.simps list.pred_inject isB64_Char sextet_bounds simp_thms)

lemma encode64_length: "3 * length (encode64 s) \<le> 4 * length s + 4"
  by (induction s rule: encode64.induct) auto

lemma encode64_nonempty: "s \<noteq> [] \<Longrightarrow> encode64 s \<noteq> []"
  by (cases s rule: encode64.cases) auto

section \<open>Cursors\<close>

record ListCursor =
  cu_createdAt :: int
  cu_id :: string

abbreviation cursorOf :: "StoredPlan \<Rightarrow> ListCursor" where
  "cursorOf plan \<equiv> \<lparr>cu_createdAt = pl_createdAt plan, cu_id = pl_id plan\<rparr>"

definition cursorText :: "ListCursor \<Rightarrow> string" where
  "cursorText c =
     ''{'' @ quote ''createdAt'' @ '':'' @ intText (cu_createdAt c) @ '','' @ quote ''id'' @ '':'' @ quote (cu_id c) @ ''}''"

definition encodeCursor :: "ListCursor \<Rightarrow> string" where
  "encodeCursor c = encode64 (cursorText c)"

text \<open>A JSON string after its opening quote, up to the closing one.\<close>

lemma readChar_shorter: "readChar s = Some (c, rest) \<Longrightarrow> length rest < length s"
  by (cases s) (auto split: if_splits list.splits)

function readString :: "string \<Rightarrow> (string \<times> string) option" where
  "readString s =
     (case s of [] \<Rightarrow> None
      | q # rest \<Rightarrow>
          if q = quoteChar then Some ([], rest)
          else (case readChar s of None \<Rightarrow> None
                | Some (c, r) \<Rightarrow> map_option (\<lambda>(cs, r'). (c # cs, r')) (readString r)))"
  by pat_completeness auto
termination
proof (relation "measure length")
  fix s :: string and q rest p c r
  assume "s = q # rest" "readChar s = Some p" "(c, r) = p"
  then show "(r, s) \<in> measure length" using readChar_shorter [of s c r] by auto
qed simp

declare readString.simps [simp del]

definition stripText :: "string \<Rightarrow> string \<Rightarrow> string option" where
  "stripText p s = (if take (length p) s = p then Some (drop (length p) s) else None)"

definition parseCursor :: "string \<Rightarrow> ListCursor option" where
  "parseCursor s =
     Option.bind (stripText (''{'' @ quote ''createdAt'' @ '':'') s) (\<lambda>s1.
     let digits = takeWhile isDigit s1 in
     Option.bind (stripText ('','' @ quote ''id'' @ '':'' @ [quoteChar]) (dropWhile isDigit s1)) (\<lambda>s2.
     Option.bind (readString s2) (\<lambda>(i, rest).
     if digits \<noteq> [] \<and> rest = ''}'' then Some \<lparr>cu_createdAt = bigInt digits, cu_id = i\<rparr> else None)))"

definition decodeCursor :: "string option \<Rightarrow> ListCursor option res" where
  "decodeCursor cursor =
     (case cursor of
        None \<Rightarrow> Inr None
      | Some text \<Rightarrow>
          bindR (ensure (\<not> (length text > 512 \<or> text = [] \<or> \<not> list_all isB64 text))
               (invalid ''Invalid transaction cursor.'')) (\<lambda>_.
          case parseCursor (decode64 text) of
            None \<Rightarrow> Inl (invalid ''Invalid transaction cursor.'')
          | Some v \<Rightarrow>
              bindR (ensure (assertTime (cu_createdAt v) = Inr () \<and> assertText (cu_id v) = Inr () \<and> encodeCursor v = text)
                (invalid ''Invalid transaction cursor.'')) (\<lambda>_. Inr (Some v))))"

lemma readString_escaped: "readString (concat (map escapeChar s) @ quoteChar # r) = Some (s, r)"
proof (induction s)
  case Nil
  then show ?case by (subst readString.simps) simp
next
  case (Cons c s)
  obtain e es where e: "escapeChar c = e # es" by (cases "escapeChar c") auto
  have "e \<noteq> quoteChar" using escape_neq_quote [OF e] .
  moreover have "readChar (e # es @ concat (map escapeChar s) @ quoteChar # r) =
      Some (c, concat (map escapeChar s) @ quoteChar # r)"
    using readChar_escape [of c "concat (map escapeChar s) @ quoteChar # r"] e by simp
  ultimately show ?case using Cons.IH by (subst readString.simps) (simp add: e del: readChar.simps)
qed

lemma stripText_append [simp]: "stripText p (p @ s) = Some s"
  by (simp add: stripText_def)

lemma takeWhile_digits:
  "list_all isDigit ds \<Longrightarrow> \<not> isDigit c \<Longrightarrow>
     takeWhile isDigit (ds @ c # r) = ds \<and> dropWhile isDigit (ds @ c # r) = c # r"
  by (induction ds) auto

lemma parseCursor_text: "0 \<le> cu_createdAt c \<Longrightarrow> parseCursor (cursorText c) = Some c"
proof -
  assume nn: "0 \<le> cu_createdAt c"
  let ?ds = "natText (nat (cu_createdAt c))"
  let ?tail = "quote ''id'' @ '':'' @ [quoteChar] @ concat (map escapeChar (cu_id c)) @ quoteChar # ''}''"
  have shape: "cursorText c = (''{'' @ quote ''createdAt'' @ '':'') @ ?ds @ CHR '','' # ?tail"
    using nn by (simp add: cursorText_def intText_def quote_def [of "cu_id c"])
  have comma: "CHR '','' # ?tail = ('','' @ quote ''id'' @ '':'' @ [quoteChar]) @
      concat (map escapeChar (cu_id c)) @ quoteChar # ''}''"
    by simp
  have s: "stripText ('','' @ quote ''id'' @ '':'' @ [quoteChar]) (CHR '','' # ?tail) =
      Some (concat (map escapeChar (cu_id c)) @ quoteChar # ''}'')"
    unfolding comma by (rule stripText_append)
  show ?thesis
    unfolding parseCursor_def shape stripText_append Option.bind.bind_lunit Let_def
      takeWhile_digits [OF natText_digits comma_not_digit, THEN conjunct1]
      takeWhile_digits [OF natText_digits comma_not_digit, THEN conjunct2] s
    using nn by (simp add: readString_escaped bigInt_natText)
qed

lemma decodeCursor_eq_Inr:
  "decodeCursor (Some t) = Inr (Some c) \<longleftrightarrow>
     length t \<le> 512 \<and> encodeCursor c = t \<and> assertTime (cu_createdAt c) = Inr () \<and> assertText (cu_id c) = Inr ()"
  (is "_ \<longleftrightarrow> ?r")
proof
  assume "decodeCursor (Some t) = Inr (Some c)"
  then show ?r by (auto simp: decodeCursor_def res_simps split: option.splits)
next
  assume r: ?r
  then have "0 \<le> cu_createdAt c" by (simp add: assertTime_def res_simps)
  moreover have "cursorText c \<noteq> []" by (simp add: cursorText_def)
  ultimately show "decodeCursor (Some t) = Inr (Some c)" using r
    by (auto simp: decodeCursor_def res_simps encodeCursor_def encode64_alphabet encode64_nonempty
        decode64_encode64 parseCursor_text)
qed

text \<open>Without quotes, backslashes and control characters nothing is escaped.\<close>

definition plainText :: "string \<Rightarrow> bool" where
  "plainText s \<longleftrightarrow> list_all (\<lambda>c. 32 \<le> code c \<and> code c \<noteq> 34 \<and> code c \<noteq> 92) s"

lemma escape_plain: "plainText s \<Longrightarrow> concat (map escapeChar s) = s"
  by (induction s) (auto simp: plainText_def escapeChar_def Let_def)

lemma encodeCursor_short:
  assumes "assertTime (cu_createdAt c) = Inr ()" and "assertText (cu_id c) = Inr ()" and "plainText (cu_id c)"
  shows "length (encodeCursor c) \<le> 512"
proof -
  have t: "0 \<le> cu_createdAt c" "cu_createdAt c \<le> MAX_SAFE_INTEGER" and i: "length (cu_id c) \<le> 192"
    using assms(1,2) by (simp_all add: tx_defs res_simps isSafeInteger_def)
  have "nat (cu_createdAt c) < 10 ^ 16" using t by (simp add: MAX_SAFE_INTEGER_def)
  then have "length (natText (nat (cu_createdAt c))) \<le> 16" by (rule natText_length) simp
  moreover have "length (quote (cu_id c)) = length (cu_id c) + 2"
    using escape_plain [OF assms(3)] by (simp add: quote_def)
  moreover have "length (quote ''createdAt'') = 11" "length (quote ''id'') = 4"
    by (simp_all add: quote_def escapeChar_def code_def)
  ultimately have "length (cursorText c) \<le> 230"
    using t i by (simp add: cursorText_def intText_def)
  then show ?thesis using encode64_length [of "cursorText c"] by (simp add: encodeCursor_def)
qed

end
