(* ===== verification/TransactionMemory.thy ===== *)
theory TransactionMemory
  imports PlanHistory Transports Cursor
begin

text \<open>
  The in-memory transaction store (\<^verbatim>\<open>src/src/rest/transactions/memory.ts\<close>). Its state is the three
  maps of the class and the transport reservations it shares with the other stores. Every
  operation runs without yielding once the account authority has admitted its actor, so an
  operation is one function from a state to a result and the next state; the authority
  (\<^verbatim>\<open>ActiveActorGuard\<close>) is a parameter, and so is the time an operation waited for it.
\<close>

section \<open>State\<close>

record NonceReservation =
  nr_planId :: string
  nr_stepIndex :: int

record TxStore =
  tx_plans :: "(string, StoredPlan) jsmap"
  tx_idempotency :: "(string, StoredIdempotency) jsmap"
  tx_nonces :: "(string, NonceReservation) jsmap"
  tx_transports :: Reservations

definition emptyTxStore :: TxStore where
  "emptyTxStore = \<lparr>tx_plans = [], tx_idempotency = [], tx_nonces = [], tx_transports = []\<rparr>"

text \<open>\<^verbatim>\<open>withActiveActor\<close>: refuses, or lets the operation run.\<close>

type_synonym guard = "RestActor \<Rightarrow> BotScope list \<Rightarrow> int \<Rightarrow> unit res"

section \<open>Operations\<close>

definition require :: "TxStore \<Rightarrow> RestActor \<Rightarrow> string \<Rightarrow> StoredPlan res" where
  "require s actor i =
     bindR (assertActor actor) (\<lambda>_.
     bindR (assertText i) (\<lambda>_.
     case js_get (tx_plans s) i of
       None \<Rightarrow> Inl missingPlan
     | Some plan \<Rightarrow> if \<not> owns plan actor then Inl missingPlan else Inr plan))"

definition assertIdempotencyCapacity :: "TxStore \<Rightarrow> RestActor \<Rightarrow> unit res" where
  "assertIdempotencyCapacity s actor =
     ensure (\<not> count_values (\<lambda>entry. si_accountId entry = accountId actor) (tx_idempotency s) \<ge> idempotencyPerAccount)
       storageLimit"

definition storedIdempotency :: "RestActor \<Rightarrow> IdempotencyClaim \<Rightarrow> string \<Rightarrow> int option \<Rightarrow> StoredIdempotency" where
  "storedIdempotency actor claim planId stepIndex =
     \<lparr>ic_key = ic_key claim, ic_requestHash = ic_requestHash claim, ic_operation = ic_operation claim,
      si_planId = planId, si_stepIndex = stepIndex, si_accountId = accountId actor\<rparr>"

definition reserveIdempotency ::
  "RestActor \<Rightarrow> IdempotencyClaim \<Rightarrow> string \<Rightarrow> int option \<Rightarrow> TxStore \<Rightarrow> unit res \<times> TxStore" where
  "reserveIdempotency actor claim planId stepIndex s =
     (if js_has (tx_idempotency s) (idemKey actor (ic_key claim)) then (Inr (), s)
      else attempt (assertIdempotencyCapacity s actor) s (\<lambda>_.
        (Inr (), s\<lparr>tx_idempotency := js_set (idemKey actor (ic_key claim))
                    (storedIdempotency actor claim planId stepIndex) (tx_idempotency s)\<rparr>)))"

definition create ::
  "guard \<Rightarrow> StoredPlan \<Rightarrow> IdempotencyClaim \<Rightarrow> int \<Rightarrow> TxStore \<Rightarrow> StoredPlan res \<times> TxStore" where
  "create authority input claim now s =
     attempt (assertNewPlan input now) s (\<lambda>_.
     attempt (assertIdempotency claim) s (\<lambda>_.
     attempt (clonePlan input) s (\<lambda>plan.
     attempt (authority (pl_actor plan) [Plan] (now div 1000)) s (\<lambda>_.
     let existing = js_get (tx_idempotency s) (idemKey (pl_actor plan) (ic_key claim)) in
     attempt (checkIdempotency existing claim None) s (\<lambda>_.
     case existing of
       Some e \<Rightarrow> attempt (require s (pl_actor plan) (si_planId e)) s (\<lambda>p.
                 attempt (clonePlan p) s (\<lambda>c. (Inr c, s)))
     | None \<Rightarrow>
         attempt (ensure (\<not> js_has (tx_plans s) (pl_id plan))
              (conflict ''Transaction plan ID already exists.'')) s (\<lambda>_.
         attempt (ensure (\<not> count_values (\<lambda>entry. accountId (pl_actor entry) = accountId (pl_actor plan)) (tx_plans s)
              \<ge> plansPerAccount) storageLimit) s (\<lambda>_.
         invoke (reserveIdempotency (pl_actor plan) claim (pl_id plan) None s) (\<lambda>s. s) (\<lambda>_ s1.
         let s2 = s1\<lparr>tx_plans := js_set (pl_id plan) plan (tx_plans s1)\<rparr> in
         attempt (clonePlan plan) s2 (\<lambda>c. (Inr c, s2))))))))))"

definition get_plan :: "RestActor \<Rightarrow> string \<Rightarrow> TxStore \<Rightarrow> StoredPlan option res" where
  "get_plan actor i s =
     bindR (assertActor actor) (\<lambda>_.
     bindR (assertText i) (\<lambda>_.
     case js_get (tx_plans s) i of
       None \<Rightarrow> Inr None
     | Some plan \<Rightarrow> if canRead plan actor then bindR (clonePlan plan) (\<lambda>c. Inr (Some c)) else Inr None))"

definition findIdempotentPlan :: "RestActor \<Rightarrow> IdempotencyClaim \<Rightarrow> TxStore \<Rightarrow> StoredPlan option res" where
  "findIdempotentPlan actor claim s =
     bindR (assertActor actor) (\<lambda>_.
     bindR (assertIdempotency claim) (\<lambda>_.
     let existing = js_get (tx_idempotency s) (idemKey actor (ic_key claim)) in
     bindR (checkIdempotency existing claim None) (\<lambda>_.
     case existing of
       None \<Rightarrow> Inr None
     | Some e \<Rightarrow> bindR (require s actor (si_planId e)) (\<lambda>p. bindR (clonePlan p) (\<lambda>c. Inr (Some c))))))"

text \<open>\<^verbatim>\<open>payTargetOf\<close> reads the quote in the summary of a pay plan.\<close>

definition field :: "string \<Rightarrow> json \<Rightarrow> json option" where
  "field k v = (case v of JObj fs \<Rightarrow> map_of fs k | _ \<Rightarrow> None)"

record PayTarget =
  pt_project :: json
  pt_token :: string

definition payTargetOf :: "StoredPlan \<Rightarrow> PayTarget option" where
  "payTargetOf plan =
     (let summary = dr_summary (pl_draft plan);
          project = field ''project'' summary;
          token = Option.bind (field ''payment'' summary) (field ''token'') in
      if dr_operation (pl_draft plan) \<noteq> ''pay'' then None
      else (case (project, Option.bind project (field ''projectId''), token) of
          (Some p, Some (JStr projectId), Some (JStr t)) \<Rightarrow>
            Some \<lparr>pt_project = JObj (optField ''chainId'' (\<lambda>v. v) (field ''chainId'' p) @
                     [(''projectId'', JStr projectId)] @
                     (if field ''version'' p = Some (JNum 6) then [(''version'', JNum 6)] else [])),
                  pt_token = t\<rparr>
        | _ \<Rightarrow> None))"

text \<open>The loop of \<^verbatim>\<open>recentPayTargets\<close>: the targets seen are the targets collected.\<close>

fun payTargetLoop :: "int \<Rightarrow> int \<Rightarrow> StoredPlan list \<Rightarrow> PayTarget list \<Rightarrow> PayTarget list" where
  "payTargetLoop sinceMs limit [] targets = targets"
| "payTargetLoop sinceMs limit (plan # plans) targets =
     (case payTargetOf plan of
        None \<Rightarrow> payTargetLoop sinceMs limit plans targets
      | Some target \<Rightarrow>
          if pl_createdAt plan < sinceMs \<or> target \<in> set targets then payTargetLoop sinceMs limit plans targets
          else if int (length (targets @ [target])) \<ge> limit then targets @ [target]
          else payTargetLoop sinceMs limit plans (targets @ [target]))"

definition recentPayTargets :: "int \<Rightarrow> int \<Rightarrow> TxStore \<Rightarrow> PayTarget list" where
  "recentPayTargets sinceMs limit s =
     payTargetLoop sinceMs limit (sort_by (\<lambda>a b. pl_createdAt b \<le> pl_createdAt a) (js_values (tx_plans s))) []"

text \<open>The two page orders: newest first for \<^verbatim>\<open>list\<close>, oldest first for \<^verbatim>\<open>recoverable\<close>.\<close>

definition older_eq :: "ListCursor \<Rightarrow> ListCursor \<Rightarrow> bool" where
  "older_eq a b \<longleftrightarrow> cu_createdAt a < cu_createdAt b \<or> cu_createdAt a = cu_createdAt b \<and> bytes_le (cu_id a) (cu_id b)"

definition older :: "ListCursor \<Rightarrow> ListCursor \<Rightarrow> bool" where
  "older a b \<longleftrightarrow> older_eq a b \<and> \<not> older_eq b a"

definition inAccount :: "string option \<Rightarrow> StoredPlan \<Rightarrow> bool" where
  "inAccount account plan \<longleftrightarrow>
     (case account of None \<Rightarrow> True
      | Some a \<Rightarrow> a = [] \<or> toLowerCase (dr_account (pl_draft plan)) = toLowerCase a)"

definition before :: "ListCursor option \<Rightarrow> ListCursor \<Rightarrow> bool" where
  "before cursor c \<longleftrightarrow> (case cursor of None \<Rightarrow> True | Some d \<Rightarrow> older c d)"

definition listRows :: "RestActor \<Rightarrow> string option \<Rightarrow> ListCursor option \<Rightarrow> TxStore \<Rightarrow> StoredPlan list" where
  "listRows actor account cursor s =
     sort_by (\<lambda>a b. older_eq (cursorOf b) (cursorOf a))
       (filter (\<lambda>plan. canRead plan actor \<and> inAccount account plan \<and> before cursor (cursorOf plan))
         (js_values (tx_plans s)))"

definition list_plans ::
  "RestActor \<Rightarrow> string option \<Rightarrow> int \<Rightarrow> string option \<Rightarrow> TxStore \<Rightarrow> (StoredPlan list \<times> string option) res" where
  "list_plans actor account limit cursorValue s =
     bindR (assertActor actor) (\<lambda>_.
     bindR (assertLimit limit) (\<lambda>_.
     bindR (decodeCursor cursorValue) (\<lambda>cursor.
     let rows = listRows actor account cursor s; items = take (nat limit) rows in
     Inr (items, if int (length rows) > limit then Some (encodeCursor (cursorOf (last items))) else None))))"

text \<open>
  \<open>waited\<close> is \<^verbatim>\<open>Math.floor(performance.now() - started)\<close>: the milliseconds spent waiting for the
  account authority.
\<close>

definition claimSubmission ::
  "guard \<Rightarrow> int \<Rightarrow> SubmissionClaim \<Rightarrow> TxStore \<Rightarrow> (StoredPlan \<times> bool) res \<times> TxStore" where
  "claimSubmission authority waited claim s =
     attempt (assertActor (cl_actor claim)) s (\<lambda>_.
     attempt (assertIdempotency (cl_idempotency claim)) s (\<lambda>_.
     attempt (boundedClone json_of_SubmissionClaim claim) s (\<lambda>claim.
     attempt (authority (cl_actor claim) [Relay] (cl_now claim div 1000)) s (\<lambda>_.
     attempt (require s (cl_actor claim) (cl_planId claim)) s (\<lambda>current.
     let idem = idemKey (cl_actor claim) (ic_key (cl_idempotency claim));
         nonce = nonceKey (cl_attempt claim) in
     attempt (checkIdempotency (js_get (tx_idempotency s) idem) (cl_idempotency claim)
            (Some (cl_planId claim, cl_stepIndex claim))) s (\<lambda>_.
     attempt (prepareClaim current (claim\<lparr>cl_now := cl_now claim + waited\<rparr>)) s (\<lambda>(plan, dispatch, changed).
     attempt (ensure (\<not> (case js_get (tx_nonces s) nonce of None \<Rightarrow> False
              | Some r \<Rightarrow> nr_planId r \<noteq> cl_planId claim \<or> nr_stepIndex r \<noteq> cl_stepIndex claim))
          (conflict ''Sender nonce is already reserved by another transaction step.'')) s (\<lambda>_.
     attempt (if js_has (tx_idempotency s) idem then Inr () else assertIdempotencyCapacity s (cl_actor claim)) s (\<lambda>_.
     invoke (claim_transport (cl_planId claim) [cl_stepIndex claim] Direct
              (toLowerCase (at_hash (cl_attempt claim))) (tx_transports s))
       (\<lambda>t. s\<lparr>tx_transports := t\<rparr>) (\<lambda>_ s1.
     invoke (reserveIdempotency (cl_actor claim) (cl_idempotency claim) (cl_planId claim)
              (Some (cl_stepIndex claim)) s1) (\<lambda>s. s) (\<lambda>_ s2.
     let s3 = s2\<lparr>tx_nonces := js_set nonce
                  \<lparr>nr_planId = cl_planId claim, nr_stepIndex = cl_stepIndex claim\<rparr> (tx_nonces s2)\<rparr>;
         s4 = (if changed then s3\<lparr>tx_plans := js_set (cl_planId claim) plan (tx_plans s3)\<rparr> else s3) in
     attempt (clonePlan plan) s4 (\<lambda>c. (Inr (c, dispatch), s4)))))))))))))"

definition save ::
  "RestActor \<Rightarrow> string \<Rightarrow> int \<Rightarrow> StoredStep list \<Rightarrow> TxStore \<Rightarrow> StoredPlan res \<times> TxStore" where
  "save actor i expectedRevision steps s =
     attempt (assertRevision expectedRevision) s (\<lambda>_.
     attempt (require s actor i) s (\<lambda>plan.
     attempt (ensure (pl_revision plan = expectedRevision)
          (conflict ''Transaction plan changed; inspect it before retrying.'')) s (\<lambda>_.
     attempt (assertSavedSteps plan steps) s (\<lambda>_.
     attempt (clonePlan (bumpRevision (plan\<lparr>pl_steps := steps\<rparr>))) s (\<lambda>nxt.
     let s1 = s\<lparr>tx_plans := js_set i nxt (tx_plans s)\<rparr> in
     attempt (clonePlan nxt) s1 (\<lambda>c. (Inr c, s1)))))))"

text \<open>The common end of the external operations: \<^verbatim>\<open>if (next.revision !== current.revision) set(...)\<close>.\<close>

definition commitPlan :: "string \<Rightarrow> StoredPlan \<Rightarrow> StoredPlan \<Rightarrow> TxStore \<Rightarrow> StoredPlan res \<times> TxStore" where
  "commitPlan planId current nxt s =
     (let s1 = (if pl_revision nxt \<noteq> pl_revision current
                then s\<lparr>tx_plans := js_set planId nxt (tx_plans s)\<rparr> else s) in
      attempt (clonePlan nxt) s1 (\<lambda>c. (Inr c, s1)))"

definition reserveExternalExecution ::
  "RestActor \<Rightarrow> string \<Rightarrow> int list \<Rightarrow> string \<Rightarrow> TxStore \<Rightarrow> StoredPlan res \<times> TxStore" where
  "reserveExternalExecution actor planId stepIndexes bindingId s =
     attempt (require s actor planId) s (\<lambda>current.
     attempt (assertExternalIndexes current stepIndexes) s (\<lambda>_.
     attempt (assertClaimed planId stepIndexes Relayr bindingId (tx_transports s)) s (\<lambda>_.
     attempt (attachExternalExecutions current
          (map (\<lambda>i. \<lparr>tr_stepIndex = i, tr_transport = Relayr, tr_bindingId = bindingId\<rparr>) stepIndexes)) s (\<lambda>nxt.
     commitPlan planId current nxt s))))"

definition saveExternalExecution ::
  "RestActor \<Rightarrow> string \<Rightarrow> int \<Rightarrow> string \<Rightarrow> ExternalStepObservation list \<Rightarrow> TxStore \<Rightarrow> StoredPlan res \<times> TxStore" where
  "saveExternalExecution actor planId expectedRevision bindingId updates s =
     attempt (assertRevision expectedRevision) s (\<lambda>_.
     attempt (require s actor planId) s (\<lambda>current.
     attempt (ensure (pl_revision current = expectedRevision)
          (conflict ''Transaction plan changed; inspect it before retrying.'')) s (\<lambda>_.
     attempt (applyExternalObservations current bindingId updates) s (\<lambda>nxt.
     attempt (forR (\<lambda>update.
            bindR (js_must (js_at (pl_steps current) (ob_index update))) (\<lambda>step.
            bindR (js_must (st_externalExecution step)) (\<lambda>external.
            assertClaimed planId [ob_index update] (ex_transport external) bindingId (tx_transports s)))) updates) s (\<lambda>_.
     commitPlan planId current nxt s)))))"

definition syncExternalExecutions :: "RestActor \<Rightarrow> string \<Rightarrow> TxStore \<Rightarrow> StoredPlan res \<times> TxStore" where
  "syncExternalExecutions actor planId s =
     attempt (assertActor actor) s (\<lambda>_.
     attempt (assertText planId) s (\<lambda>_.
     case js_get (tx_plans s) planId of
       None \<Rightarrow> (Inl missingPlan, s)
     | Some current \<Rightarrow>
         if \<not> canRead current actor then (Inl missingPlan, s)
         else attempt (list_transports planId (tx_transports s)) s (\<lambda>bindings.
           attempt (attachExternalExecutions current bindings) s (\<lambda>nxt.
           commitPlan planId current nxt s))))"

definition settleSubmission ::
  "RestActor \<Rightarrow> string \<Rightarrow> int \<Rightarrow> string \<Rightarrow> SubmissionPatch \<Rightarrow> TxStore \<Rightarrow> StoredPlan res \<times> TxStore" where
  "settleSubmission actor i index leaseToken patch s =
     attempt (require s actor i) s (\<lambda>plan.
     attempt (settle plan index leaseToken patch) s (\<lambda>nxt.
     let s1 = s\<lparr>tx_plans := js_set i nxt (tx_plans s)\<rparr> in
     attempt (clonePlan nxt) s1 (\<lambda>c. (Inr c, s1))))"

text \<open>A binding that is reserved but not yet attached to its step.\<close>

definition unattached :: "StoredPlan \<Rightarrow> TransportReservation \<Rightarrow> bool" where
  "unattached plan binding \<longleftrightarrow>
     (tr_transport binding = Relayr \<or> tr_transport binding = Erc4337) \<and>
     (case js_at (pl_steps plan) (tr_stepIndex binding) of None \<Rightarrow> True
      | Some step \<Rightarrow> st_externalExecution step = None)"

text \<open>
  \<^verbatim>\<open>transports.list\<close> is called for a plan that is not recoverable by itself and throws on an id that
  is no storage identifier; the ids of stored plans are.
\<close>

definition needsRecovery :: "TxStore \<Rightarrow> StoredPlan \<Rightarrow> bool res" where
  "needsRecovery s plan =
     (if isRecoverable plan then Inr True
      else bindR (list_transports (pl_id plan) (tx_transports s)) (\<lambda>bs. Inr (list_ex (unattached plan) bs)))"

definition recoverable :: "int \<Rightarrow> string option \<Rightarrow> TxStore \<Rightarrow> StoredPlan list res" where
  "recoverable limit cursorValue s =
     bindR (assertLimit limit) (\<lambda>_.
     bindR (decodeCursor cursorValue) (\<lambda>cursor.
     bindR (mapR (\<lambda>plan. bindR (needsRecovery s plan) (\<lambda>r. Inr (plan, r))) (js_values (tx_plans s))) (\<lambda>marked.
     Inr (take (nat limit) (sort_by (\<lambda>a b. older_eq (cursorOf a) (cursorOf b))
       (filter (\<lambda>plan. case cursor of None \<Rightarrow> True | Some c \<Rightarrow> older c (cursorOf plan))
         (map fst (filter snd marked))))))))"

end
