(* ===== verification/TransactionInvariants.thy ===== *)
theory TransactionInvariants
  imports TransactionMemory
begin

text \<open>
  What every operation of the in-memory transaction store keeps. A stored plan is well formed, fits
  its byte bound and is recorded consistently in the other maps: a step that shows a signed attempt
  or an external execution is bound to exactly that transport in the shared reservations, a signed
  attempt holds the nonce of its sender, every idempotency key names a plan of its actor, and no
  account exceeds its quotas. The lemmas \<open>..._Inl\<close> show that an operation that throws has changed
  nothing.
\<close>

section \<open>What a step is bound to\<close>

text \<open>The transport of a step and the nonce it spends, as its own record shows them.\<close>

definition binding_of :: "StoredStep \<Rightarrow> (ReservedTransport \<times> string) option" where
  "binding_of step =
     (case st_attempt step of
        Some a \<Rightarrow> Some (Direct, toLowerCase (at_hash a))
      | None \<Rightarrow> map_option (\<lambda>e. (ex_transport e, ex_bindingId e)) (st_externalExecution step))"

definition nonce_of :: "StoredStep \<Rightarrow> string option" where
  "nonce_of step = map_option nonceKey (st_attempt step)"

definition keeps :: "StoredStep \<Rightarrow> StoredStep \<Rightarrow> bool" where
  "keeps s t \<longleftrightarrow> binding_of t = binding_of s \<and> nonce_of t = nonce_of s"

lemma keeps_refl [simp]: "keeps s s"
  by (simp add: keeps_def)

lemma keeps_trans: "keeps r s \<Longrightarrow> keeps s t \<Longrightarrow> keeps r t"
  by (simp add: keeps_def)

lemma sameAttempt_hash: "sameAttempt a b \<Longrightarrow> toLowerCase (at_hash a) = toLowerCase (at_hash b)"
  by (simp add: sameAttempt_iff same_def)

lemma keeps_attempt:
  "st_attempt s = Some a \<Longrightarrow> st_attempt t = Some b \<Longrightarrow> sameAttempt a b \<Longrightarrow> keeps s t"
  by (simp add: keeps_def binding_of_def nonce_of_def sameAttempt_hash sameAttempt_nonceKey)

lemma keeps_replace:
  "keeps (pl_steps p ! nat i) s \<Longrightarrow> keeps (pl_steps p ! k) ((pl_steps p)[nat i := s] ! k)"
  by (simp add: nth_update_if)

lemma settle_keeps:
  assumes "settle p index token patch = Inr q"
  shows "keeps (pl_steps p ! k) (pl_steps q ! k)"
proof (cases "q = p")
  case False
  with assms obtain a where "st_attempt (pl_steps p ! nat index) = Some a"
    "q = bumpRevision (replaceStep p index ((pl_steps p ! nat index)
      \<lparr>st_state := settledState (pl_steps p ! nat index) patch, st_attempt := Some (settledAttempt a patch)\<rparr>))"
    using settle_returns by blast
  then show ?thesis by (auto intro!: keeps_replace keeps_attempt)
qed simp

lemma assertSavedSteps_keeps:
  assumes "assertSavedSteps p steps = Inr ()" and "k < length (pl_steps p)"
  shows "keeps (pl_steps p ! k) (steps ! k)"
proof -
  have len: "length steps = length (pl_steps p)"
    using assms(1) by (simp add: assertSavedSteps_def res_simps)
  have "(int k, steps ! k) \<in> set (indexed steps)" using assms(2) len by (auto simp: set_zip intro!: exI [of _ k])
  with assms(1) have "st_attempt (steps ! k) = st_attempt (pl_steps p ! k) \<and>
      st_externalExecution (steps ! k) = st_externalExecution (pl_steps p ! k)"
    unfolding assertSavedSteps_def by (force simp: res_simps Let_def)
  then show ?thesis by (auto simp: keeps_def binding_of_def nonce_of_def split: option.split)
qed

lemma applyExternalObservations_keeps:
  assumes "applyExternalObservations p bindingId updates = Inr q"
  shows "keeps (pl_steps p ! k) (pl_steps q ! k)"
proof -
  from assms obtain nxt where f: "foldR (applyObservation p bindingId) updates p = Inr nxt"
    and q: "q = p \<or> q = bumpRevision nxt"
    unfolding applyExternalObservations_def by (auto simp: res_simps split: if_splits)
  have "length (pl_steps nxt) = length (pl_steps p) \<and> (\<forall>k. keeps (pl_steps p ! k) (pl_steps nxt ! k))"
  proof (rule foldR_invariant [OF f])
    fix u s t assume s: "length (pl_steps s) = length (pl_steps p) \<and> (\<forall>k. keeps (pl_steps p ! k) (pl_steps s ! k))"
      and "applyObservation p bindingId u s = Inr t"
    then obtain e where e: "st_externalExecution (pl_steps p ! nat (ob_index u)) = Some e"
      "st_attempt (pl_steps p ! nat (ob_index u)) = None" "ex_bindingId e = bindingId"
      "t = replaceStep s (ob_index u) (observedStep u bindingId e)"
      using applyObservation_returns by blast
    then have "keeps (pl_steps p ! nat (ob_index u)) (observedStep u bindingId e)"
      by (simp add: keeps_def binding_of_def nonce_of_def observedStep_def)
    then have "keeps (pl_steps p ! k) (pl_steps t ! k)" for k
      using s e(4) by (simp add: nth_update_if)
    with s e(4) show "length (pl_steps t) = length (pl_steps p) \<and> (\<forall>k. keeps (pl_steps p ! k) (pl_steps t ! k))"
      by simp
  qed simp
  with q show ?thesis by auto
qed

text \<open>Attaching binds a step to one of the given reservations or leaves its binding alone.\<close>

definition attached :: "TransportReservation list \<Rightarrow> nat \<Rightarrow> StoredStep \<Rightarrow> StoredStep \<Rightarrow> bool" where
  "attached bindings k s t \<longleftrightarrow> keeps s t \<or>
     nonce_of t = None \<and>
     (\<exists>b \<in> set bindings. 0 \<le> tr_stepIndex b \<and> nat (tr_stepIndex b) = k \<and> binding_of t = Some (tr_transport b, tr_bindingId b))"

lemma attachBinding_attached:
  assumes "attachBinding p b (nxt, c) = Inr (nxt', c')" and "b \<in> set bindings"
    and "\<forall>k. attached bindings k (pl_steps p ! k) (pl_steps nxt ! k)"
  shows "\<forall>k. attached bindings k (pl_steps p ! k) (pl_steps nxt' ! k)"
  using attachBinding_returns [OF assms(1)]
proof
  let ?i = "nat (tr_stepIndex b)"
  assume r: "c' \<and> 0 \<le> tr_stepIndex b \<and> ?i < length (pl_steps p) \<and> tr_transport b \<noteq> Direct \<and>
    st_attempt (pl_steps nxt ! ?i) = None \<and> st_externalExecution (pl_steps nxt ! ?i) = None \<and>
    st_state (pl_steps nxt ! ?i) = Waiting \<and>
    (\<exists>chainId. nxt' = replaceStep nxt (tr_stepIndex b) ((pl_steps nxt ! ?i)
      \<lparr>st_externalExecution := Some \<lparr>ex_transport = tr_transport b, ex_bindingId = tr_bindingId b,
         ex_chainId = chainId, ex_transactionHash = None\<rparr>, st_state := Reserved\<rparr>))"
  then obtain t where t: "nxt' = replaceStep nxt (tr_stepIndex b) t"
    "nonce_of t = None" "binding_of t = Some (tr_transport b, tr_bindingId b)"
    by (auto simp: nonce_of_def binding_of_def)
  with r assms(2) have "attached bindings ?i s t" for s by (auto simp: attached_def)
  then show ?thesis
    using t(1) assms(3) by (auto simp: nth_update_if)
qed (use assms(3) in simp)

lemma attachExternalExecutions_attached:
  assumes "attachExternalExecutions p bindings = Inr q"
  shows "attached bindings k (pl_steps p ! k) (pl_steps q ! k)"
proof -
  from assms obtain nxt c where f: "foldR (attachBinding p) bindings (p, False) = Inr (nxt, c)"
    and q: "q = p \<or> q = bumpRevision nxt"
    unfolding attachExternalExecutions_def by (auto simp: res_simps split: if_splits)
  have "\<forall>k. attached bindings k (pl_steps p ! k) (pl_steps (fst (nxt, c)) ! k)"
  proof (rule foldR_invariant [OF f])
    fix b acc acc' assume "b \<in> set bindings"
      "\<forall>k. attached bindings k (pl_steps p ! k) (pl_steps (fst acc) ! k)" "attachBinding p b acc = Inr acc'"
    then show "\<forall>k. attached bindings k (pl_steps p ! k) (pl_steps (fst acc') ! k)"
      by (cases acc; cases acc') (auto intro: attachBinding_attached [rule_format])
  qed (simp add: attached_def)
  with q show ?thesis by (auto simp: attached_def)
qed

lemma prepareClaim_keeps:
  assumes "prepareClaim p claim = Inr (q, dispatch, changed)"
  defines "i \<equiv> nat (cl_stepIndex claim)"
  shows "k \<noteq> i \<Longrightarrow> pl_steps q ! k = pl_steps p ! k"
    and "changed \<Longrightarrow> \<exists>b. st_attempt (pl_steps q ! i) = Some b \<and> sameAttempt (cl_attempt claim) b"
proof -
  note r = prepareClaim_returns [OF assms(1)]
  consider "changed = False" | "changed = True" "dispatch = False" | "changed = True" "dispatch = True" by blast
  then have "(k \<noteq> i \<longrightarrow> pl_steps q ! k = pl_steps p ! k) \<and>
    (changed \<longrightarrow> (\<exists>b. st_attempt (pl_steps q ! i) = Some b \<and> sameAttempt (cl_attempt claim) b))"
  proof cases
    case 1
    with assms(1) have "q = p" using prepareClaim_unchanged by blast
    with 1 show ?thesis by simp
  next
    case 2
    note c = prepareClaim_recorded(4) [OF assms(1) [unfolded 2]]
    have "sameAttempt (cl_attempt claim) ((cl_attempt claim)\<lparr>at_leaseUntil := 0, at_dispatchCount := 0\<rparr>)"
      by (simp add: sameAttempt_iff)
    then show ?thesis unfolding c using r(2) by (auto simp: i_def)
  next
    case 3
    note c = prepareClaim_dispatched(5) [OF assms(1) [unfolded 3]]
    have "sameAttempt (cl_attempt claim) (renewAttempt (st_attempt (pl_steps p ! i)) (cl_attempt claim))"
      using r(4) unfolding i_def by (rule sameAttempt_renew)
    with c r(2) show ?thesis by (auto simp: grantDispatch_iff i_def)
  qed
  then show "k \<noteq> i \<Longrightarrow> pl_steps q ! k = pl_steps p ! k"
    and "changed \<Longrightarrow> \<exists>b. st_attempt (pl_steps q ! i) = Some b \<and> sameAttempt (cl_attempt claim) b" by blast+
qed

section \<open>The invariant of the store\<close>

definition plan_ok :: "TxStore \<Rightarrow> string \<Rightarrow> StoredPlan \<Rightarrow> bool" where
  "plan_ok s i p \<longleftrightarrow>
     pl_id p = i \<and> assertText i = Inr () \<and> assertTime (pl_createdAt p) = Inr () \<and> plan_wf p \<and> plan_evidence p \<and> storable json_of_StoredPlan p \<and>
     (\<forall>k < length (pl_steps p).
        (\<forall>x. binding_of (pl_steps p ! k) = Some x \<longrightarrow> boundTo (tx_transports s) i (int k) = Some x) \<and>
        (\<forall>n. nonce_of (pl_steps p ! k) = Some n \<longrightarrow>
           js_get (tx_nonces s) n = Some \<lparr>nr_planId = i, nr_stepIndex = int k\<rparr>))"

text \<open>Every idempotency key names a plan of the actor that used it.\<close>

definition idem_owned :: "TxStore \<Rightarrow> bool" where
  "idem_owned s \<longleftrightarrow>
     (\<forall>k e. js_get (tx_idempotency s) k = Some e \<longrightarrow>
        (\<exists>p. js_get (tx_plans s) (si_planId e) = Some p \<and> k = idemKey (pl_actor p) (ic_key e) \<and>
             si_accountId e = accountId (pl_actor p)))"

definition within_capacity :: "TxStore \<Rightarrow> bool" where
  "within_capacity s \<longleftrightarrow>
     (\<forall>account. count_values (\<lambda>p. accountId (pl_actor p) = account) (tx_plans s) \<le> plansPerAccount \<and>
        count_values (\<lambda>e. si_accountId e = account) (tx_idempotency s) \<le> idempotencyPerAccount)"

definition tx_inv :: "TxStore \<Rightarrow> bool" where
  "tx_inv s \<longleftrightarrow>
     js_wf (tx_plans s) \<and> js_wf (tx_idempotency s) \<and> js_wf (tx_nonces s) \<and> transports_wf (tx_transports s) \<and>
     (\<forall>i p. js_get (tx_plans s) i = Some p \<longrightarrow> plan_ok s i p) \<and> idem_owned s \<and> within_capacity s"

lemma tx_inv_empty: "tx_inv emptyTxStore"
  by (simp add: tx_inv_def idem_owned_def within_capacity_def emptyTxStore_def)

lemma tx_inv_plan: "tx_inv s \<Longrightarrow> js_get (tx_plans s) i = Some p \<Longrightarrow> plan_ok s i p"
  by (simp add: tx_inv_def)

lemma tx_inv_idem:
  "tx_inv s \<Longrightarrow> js_get (tx_idempotency s) k = Some e \<Longrightarrow>
     \<exists>p. js_get (tx_plans s) (si_planId e) = Some p \<and> k = idemKey (pl_actor p) (ic_key e) \<and>
       si_accountId e = accountId (pl_actor p)"
  unfolding tx_inv_def idem_owned_def by blast

lemma require_eq_Inr [res_simps]:
  "require s actor i = Inr p \<longleftrightarrow>
     assertActor actor = Inr () \<and> assertText i = Inr () \<and> js_get (tx_plans s) i = Some p \<and> pl_actor p = actor"
  by (auto simp: require_def res_simps split: option.splits)

text \<open>More reservations and more nonces never hurt a plan.\<close>

lemma plan_ok_grow:
  assumes "plan_ok s i p"
    and "\<And>k x. boundTo (tx_transports s) i k = Some x \<Longrightarrow> boundTo (tx_transports s') i k = Some x"
    and "\<And>n v. js_get (tx_nonces s) n = Some v \<Longrightarrow> js_get (tx_nonces s') n = Some v"
  shows "plan_ok s' i p"
  using assms by (simp add: plan_ok_def)

lemma tx_inv_transports:
  assumes "tx_inv s" and "ledger.ledger_step (tx_transports s) t"
  shows "tx_inv (s\<lparr>tx_transports := t\<rparr>)"
proof -
  have "plan_ok (s\<lparr>tx_transports := t\<rparr>) i p" if "js_get (tx_plans s) i = Some p" for i p
    using tx_inv_plan [OF assms(1) that] by (rule plan_ok_grow) (auto intro: ledger.bound_step [OF assms(2)])
  moreover have "transports_wf t"
    using assms by (auto simp: tx_inv_def ledger.ledger_step_def intro: claim_transport_wf)
  ultimately show ?thesis using assms(1) by (simp add: tx_inv_def idem_owned_def within_capacity_def)
qed

text \<open>Replacing a plan by a successor that is in order.\<close>

lemma tx_inv_update:
  assumes inv: "tx_inv s" and p: "js_get (tx_plans s) i = Some p" and ev: "reviewed q = reviewed p"
    and ok: "plan_ok s i q"
  shows "tx_inv (s\<lparr>tx_plans := js_set i q (tx_plans s)\<rparr>)"
proof -
  have actor: "pl_actor q = pl_actor p" using reviewed_eqD [OF ev] by simp
  have pk: "plan_ok (s\<lparr>tx_plans := m\<rparr>) j r = plan_ok s j r" for m j r by (simp add: plan_ok_def)
  have "idem_owned (s\<lparr>tx_plans := js_set i q (tx_plans s)\<rparr>)"
    unfolding idem_owned_def
  proof (intro allI impI)
    fix k e assume "js_get (tx_idempotency (s\<lparr>tx_plans := js_set i q (tx_plans s)\<rparr>)) k = Some e"
    with inv obtain r where r: "js_get (tx_plans s) (si_planId e) = Some r"
      "k = idemKey (pl_actor r) (ic_key e)" "si_accountId e = accountId (pl_actor r)"
      using tx_inv_idem by fastforce
    then show "\<exists>r. js_get (tx_plans (s\<lparr>tx_plans := js_set i q (tx_plans s)\<rparr>)) (si_planId e) = Some r \<and>
        k = idemKey (pl_actor r) (ic_key e) \<and> si_accountId e = accountId (pl_actor r)"
      using p actor by (cases "si_planId e = i") auto
  qed
  moreover have "within_capacity (s\<lparr>tx_plans := js_set i q (tx_plans s)\<rparr>)"
    using inv actor by (simp add: tx_inv_def within_capacity_def count_values_replace [OF p])
  ultimately show ?thesis using inv ok by (auto simp: tx_inv_def pk)
qed

lemma plan_ok_keeps:
  assumes "plan_ok s i p" and "plan_evolves p q" and "plan_evidence q" and "storable json_of_StoredPlan q"
    and "\<And>k. k < length (pl_steps p) \<Longrightarrow> keeps (pl_steps p ! k) (pl_steps q ! k)"
  shows "plan_ok s i q"
proof -
  have "length (pl_steps q) = length (pl_steps p)" "pl_id q = pl_id p" "pl_createdAt q = pl_createdAt p"
    using assms(2) by (auto simp: plan_evolves_def dest: list_all2_lengthD reviewed_eqD)
  with assms show ?thesis
    using plan_evolves_wf [of p q] by (auto simp: plan_ok_def keeps_def)
qed

lemma plan_ok_storable: "plan_ok s i p \<Longrightarrow> storable json_of_StoredPlan p"
  by (simp add: plan_ok_def)

section \<open>What the operations do\<close>

lemma save_Inr:
  "save actor i expected steps s = (Inr r, s') \<longleftrightarrow>
     (\<exists>p. assertRevision expected = Inr () \<and> require s actor i = Inr p \<and> pl_revision p = expected \<and>
        assertSavedSteps p steps = Inr () \<and> r = bumpRevision (p\<lparr>pl_steps := steps\<rparr>) \<and>
        storable json_of_StoredPlan r \<and> s' = s\<lparr>tx_plans := js_set i r (tx_plans s)\<rparr>)"
  unfolding save_def Let_def attempt_eq_Inr ensure_eq_Inr boundedClone_eq_Inr by auto

lemma save_Inl: "save actor i expected steps s = (Inl e, s') \<Longrightarrow> s' = s"
  unfolding save_def Let_def by (auto simp: attempt_eq_Inl boundedClone_eq_Inr)

lemma settleSubmission_Inr:
  "settleSubmission actor i index token patch s = (Inr r, s') \<longleftrightarrow>
     (\<exists>p. require s actor i = Inr p \<and> settle p index token patch = Inr r \<and>
        storable json_of_StoredPlan r \<and> s' = s\<lparr>tx_plans := js_set i r (tx_plans s)\<rparr>)"
  unfolding settleSubmission_def Let_def attempt_eq_Inr boundedClone_eq_Inr by auto

lemma commitPlan_Inr:
  "commitPlan i p q s = (Inr r, s') \<longleftrightarrow> r = q \<and> storable json_of_StoredPlan q \<and>
     s' = (if pl_revision q \<noteq> pl_revision p then s\<lparr>tx_plans := js_set i q (tx_plans s)\<rparr> else s)"
  unfolding commitPlan_def Let_def attempt_eq_Inr boundedClone_eq_Inr by auto

lemma commitPlan_Inl: "storable json_of_StoredPlan q \<Longrightarrow> commitPlan i p q s \<noteq> (Inl e, s')"
  unfolding commitPlan_def Let_def by simp

lemma settle_storable:
  assumes "settle p index token patch = Inr q" and "storable json_of_StoredPlan p"
  shows "storable json_of_StoredPlan q"
proof (cases "st_attempt (pl_steps p ! nat index)")
  case None
  with assms show ?thesis by (auto simp: settle_def Let_def res_simps)
next
  case (Some a)
  with assms show ?thesis by (auto simp: settle_def Let_def res_simps split: if_splits)
qed

lemma attachExternalExecutions_storable:
  "attachExternalExecutions p bindings = Inr q \<Longrightarrow> storable json_of_StoredPlan q"
  unfolding attachExternalExecutions_def by (auto simp: res_simps split: if_splits)

lemma applyExternalObservations_storable:
  "applyExternalObservations p b updates = Inr q \<Longrightarrow> storable json_of_StoredPlan q"
  unfolding applyExternalObservations_def by (auto simp: res_simps split: if_splits)

lemma prepareClaim_storable:
  assumes "prepareClaim p claim = Inr (q, dispatch, changed)" and "storable json_of_StoredPlan p"
  shows "storable json_of_StoredPlan q"
proof -
  consider "changed = False" | "changed = True" "dispatch = False" | "changed = True" "dispatch = True" by blast
  then show ?thesis
  proof cases
    case 1
    then show ?thesis using assms prepareClaim_unchanged by blast
  next
    case 2
    show ?thesis by (rule prepareClaim_recorded(5) [OF assms(1) [unfolded 2]])
  next
    case 3
    show ?thesis using prepareClaim_dispatched(5) [OF assms(1) [unfolded 3]] unfolding grantDispatch_iff by blast
  qed
qed

text \<open>One plan moves on by one of its transitions, everything else stays.\<close>

definition plan_moves :: "TxStore \<Rightarrow> TxStore \<Rightarrow> bool" where
  "plan_moves s s' \<longleftrightarrow>
     (\<exists>i p q. js_get (tx_plans s) i = Some p \<and> plan_change p q \<and> plan_ok s i q \<and>
        s' = s\<lparr>tx_plans := js_set i q (tx_plans s)\<rparr>)"

lemma plan_moves_inv: "tx_inv s \<Longrightarrow> plan_moves s s' \<Longrightarrow> tx_inv s'"
proof -
  assume inv: "tx_inv s" and "plan_moves s s'"
  then obtain i p q where m: "js_get (tx_plans s) i = Some p" "plan_change p q" "plan_ok s i q"
    "s' = s\<lparr>tx_plans := js_set i q (tx_plans s)\<rparr>" by (auto simp: plan_moves_def)
  have "plan_wf p" using tx_inv_plan [OF inv m(1)] by (simp add: plan_ok_def)
  then have "reviewed q = reviewed p" using plan_change_evolves [OF m(2)] by (simp add: plan_evolves_def)
  with inv m show ?thesis using tx_inv_update by simp
qed

lemma plan_ok_parts: "plan_ok s i p \<Longrightarrow> plan_wf p \<and> plan_evidence p \<and> storable json_of_StoredPlan p"
  by (simp add: plan_ok_def)

lemma plan_ok_saved:
  assumes ok: "plan_ok s i p" and saved: "assertSavedSteps p steps = Inr ()" and "storable json_of_StoredPlan (bumpRevision (p\<lparr>pl_steps := steps\<rparr>))"
  shows "plan_ok s i (bumpRevision (p\<lparr>pl_steps := steps\<rparr>))"
  using ok
proof (rule plan_ok_keeps)
  show "keeps (pl_steps p ! k) (pl_steps (bumpRevision (p\<lparr>pl_steps := steps\<rparr>)) ! k)" if "k < length (pl_steps p)" for k
    using assertSavedSteps_keeps [OF saved that] by simp
qed (use plan_ok_parts [OF ok] saved assms(3) in \<open>blast intro: assertSavedSteps_evolves assertSavedSteps_evidence\<close>)+

lemma plan_ok_settled:
  assumes ok: "plan_ok s i p" and "settle p index token patch = Inr q"
  shows "plan_ok s i q"
  using ok by (rule plan_ok_keeps) (use plan_ok_parts [OF ok] assms(2) in \<open>auto intro: settle_evolves settle_evidence settle_keeps settle_storable\<close>)

lemma plan_ok_observed:
  assumes ok: "plan_ok s i p" and "applyExternalObservations p b updates = Inr q"
  shows "plan_ok s i q"
  using ok by (rule plan_ok_keeps) (use plan_ok_parts [OF ok] assms(2) in \<open>auto intro: applyExternalObservations_evolves
      applyExternalObservations_evidence applyExternalObservations_keeps applyExternalObservations_storable\<close>)

lemma save_moves:
  assumes "tx_inv s" and "save actor i expected steps s = (r, s')"
  shows "s' = s \<or> plan_moves s s'"
proof (cases r)
  case (Inr q)
  with assms obtain p where p: "js_get (tx_plans s) i = Some p" "assertSavedSteps p steps = Inr ()"
    "q = bumpRevision (p\<lparr>pl_steps := steps\<rparr>)" "storable json_of_StoredPlan q"
    "s' = s\<lparr>tx_plans := js_set i q (tx_plans s)\<rparr>"
    by (auto simp: save_Inr require_eq_Inr)
  have "plan_ok s i q" using plan_ok_saved [OF tx_inv_plan [OF assms(1) p(1)] p(2)] p(3,4) by simp
  moreover have "plan_change p q" unfolding p(3) using p(2) by (rule plan_change.Save)
  ultimately show ?thesis using p by (auto simp: plan_moves_def)
qed (use assms save_Inl in blast)

lemma settleSubmission_Inl:
  assumes "tx_inv s" and "settleSubmission actor i index token patch s = (Inl e, s')"
  shows "s' = s"
proof -
  have "storable json_of_StoredPlan q"
    if "require s actor i = Inr p" "settle p index token patch = Inr q" for p q
    using that tx_inv_plan [OF assms(1), of i p] settle_storable plan_ok_parts by (auto simp: require_eq_Inr)
  with assms(2) show ?thesis
    unfolding settleSubmission_def Let_def by (auto simp: attempt_eq_Inl)
qed

lemma settleSubmission_moves:
  assumes "tx_inv s" and "settleSubmission actor i index token patch s = (r, s')"
  shows "s' = s \<or> plan_moves s s'"
proof (cases r)
  case (Inr q)
  with assms obtain p where p: "js_get (tx_plans s) i = Some p" "settle p index token patch = Inr q"
    "s' = s\<lparr>tx_plans := js_set i q (tx_plans s)\<rparr>"
    by (auto simp: settleSubmission_Inr require_eq_Inr)
  have "plan_ok s i q" using tx_inv_plan [OF assms(1) p(1)] p(2) by (rule plan_ok_settled)
  with p show ?thesis by (auto simp: plan_moves_def intro: plan_change.Settle)
qed (use assms settleSubmission_Inl in blast)

text \<open>The operations on external executions end in \<open>commitPlan\<close>.\<close>

lemma commitPlan_moves:
  assumes inv: "tx_inv s" and p: "js_get (tx_plans s) i = Some p" and "plan_change p q"
    and "plan_ok s i q" and "commitPlan i p q s = (r, s')"
  shows "s' = s \<or> plan_moves s s'"
proof (cases r)
  case (Inl e)
  with assms plan_ok_parts commitPlan_Inl show ?thesis by blast
next
  case (Inr x)
  with assms show ?thesis by (auto simp: commitPlan_Inr plan_moves_def split: if_splits)
qed

lemma plan_ok_attached:
  assumes ok: "plan_ok s i p" and att: "attachExternalExecutions p bindings = Inr q"
    and bound: "\<And>b. b \<in> set bindings \<Longrightarrow>
      boundTo (tx_transports s) i (tr_stepIndex b) = Some (tr_transport b, tr_bindingId b)"
  shows "plan_ok s i q"
proof -
  note parts = plan_ok_parts [OF ok]
  have ev: "plan_evolves p q" using att by (rule attachExternalExecutions_evolves)
  then have same: "length (pl_steps q) = length (pl_steps p)" "pl_id q = pl_id p" "pl_createdAt q = pl_createdAt p"
    by (auto simp: plan_evolves_def dest: list_all2_lengthD reviewed_eqD)
  have "(\<forall>x. binding_of (pl_steps q ! k) = Some x \<longrightarrow> boundTo (tx_transports s) i (int k) = Some x) \<and>
    (\<forall>n. nonce_of (pl_steps q ! k) = Some n \<longrightarrow> js_get (tx_nonces s) n = Some \<lparr>nr_planId = i, nr_stepIndex = int k\<rparr>)"
    if k: "k < length (pl_steps p)" for k
  proof (cases "keeps (pl_steps p ! k) (pl_steps q ! k)")
    case True
    with ok k show ?thesis by (simp add: keeps_def plan_ok_def)
  next
    case False
    with attachExternalExecutions_attached [OF att, of k] obtain b where "b \<in> set bindings"
      "tr_stepIndex b = int k" "binding_of (pl_steps q ! k) = Some (tr_transport b, tr_bindingId b)"
      "nonce_of (pl_steps q ! k) = None" by (auto simp: attached_def)
    with bound [of b] show ?thesis by simp
  qed
  moreover have "plan_wf q" "plan_evidence q" "storable json_of_StoredPlan q"
    using parts plan_evolves_wf [OF ev] attachExternalExecutions_evidence [OF att]
      attachExternalExecutions_storable [OF att] by auto
  ultimately show ?thesis using ok same by (auto simp: plan_ok_def)
qed

lemma reserveExternalExecution_moves:
  assumes inv: "tx_inv s" and "reserveExternalExecution actor i idx b s = (r, s')"
  shows "s' = s \<or> plan_moves s s'"
proof -
  let ?bs = "map (\<lambda>k. \<lparr>tr_stepIndex = k, tr_transport = Relayr, tr_bindingId = b\<rparr>) idx"
  from assms(2) consider "s' = s" | p q where "js_get (tx_plans s) i = Some p"
    "assertClaimed i idx Relayr b (tx_transports s) = Inr ()" "attachExternalExecutions p ?bs = Inr q"
    "commitPlan i p q s = (r, s')"
    unfolding reserveExternalExecution_def
    by (cases r) (auto simp: attempt_eq_Inl attempt_eq_Inr require_eq_Inr)
  then show ?thesis
  proof cases
    case (2 p q)
    then have "plan_ok s i q"
      by (intro plan_ok_attached [OF tx_inv_plan [OF inv]]) (auto simp: assertClaimed_Inr)
    then show ?thesis by (rule commitPlan_moves [OF inv 2(1) plan_change.Attach [OF 2(3)] _ 2(4)])
  qed simp
qed

lemma syncExternalExecutions_moves:
  assumes inv: "tx_inv s" and "syncExternalExecutions actor i s = (r, s')"
  shows "s' = s \<or> plan_moves s s'"
proof -
  from assms(2) consider "s' = s" | p bs q where "js_get (tx_plans s) i = Some p"
    "list_transports i (tx_transports s) = Inr bs" "attachExternalExecutions p bs = Inr q"
    "commitPlan i p q s = (r, s')"
    unfolding syncExternalExecutions_def
    by (cases r; cases "js_get (tx_plans s) i") (auto simp: attempt_eq_Inl attempt_eq_Inr split: if_splits)
  then show ?thesis
  proof cases
    case (2 p bs q)
    have "transports_wf (tx_transports s)" using inv by (simp add: tx_inv_def)
    with 2 have "plan_ok s i q"
      by (intro plan_ok_attached [OF tx_inv_plan [OF inv]]) (auto simp: list_transports_iff)
    then show ?thesis by (rule commitPlan_moves [OF inv 2(1) plan_change.Attach [OF 2(3)] _ 2(4)])
  qed simp
qed

lemma saveExternalExecution_moves:
  assumes inv: "tx_inv s" and "saveExternalExecution actor i expected b updates s = (r, s')"
  shows "s' = s \<or> plan_moves s s'"
proof -
  from assms(2) consider "s' = s" | p q where "js_get (tx_plans s) i = Some p"
    "applyExternalObservations p b updates = Inr q" "commitPlan i p q s = (r, s')"
    unfolding saveExternalExecution_def
    by (cases r) (auto simp: attempt_eq_Inl attempt_eq_Inr require_eq_Inr)
  then show ?thesis
  proof cases
    case (2 p q)
    have "plan_ok s i q" using tx_inv_plan [OF inv 2(1)] 2(2) by (rule plan_ok_observed)
    then show ?thesis by (rule commitPlan_moves [OF inv 2(1) plan_change.Observe [OF 2(2)] _ 2(3)])
  qed simp
qed

subsection \<open>create\<close>

lemma assertIdempotencyCapacity_eq_Inr [res_simps]:
  "assertIdempotencyCapacity s actor = Inr u \<longleftrightarrow>
     count_values (\<lambda>e. si_accountId e = accountId actor) (tx_idempotency s) < idempotencyPerAccount"
  by (auto simp: assertIdempotencyCapacity_def res_simps)

lemma reserveIdempotency_Inr:
  "reserveIdempotency actor claim i k s = (Inr u, s') \<longleftrightarrow>
     (if js_has (tx_idempotency s) (idemKey actor (ic_key claim)) then s' = s
      else assertIdempotencyCapacity s actor = Inr () \<and>
        s' = s\<lparr>tx_idempotency := js_set (idemKey actor (ic_key claim)) (storedIdempotency actor claim i k)
               (tx_idempotency s)\<rparr>)"
  unfolding reserveIdempotency_def by (auto simp: attempt_eq_Inr)

lemma reserveIdempotency_Inl:
  "reserveIdempotency actor claim i k s = (Inl e, s') \<Longrightarrow>
     s' = s \<and> \<not> js_has (tx_idempotency s) (idemKey actor (ic_key claim)) \<and> assertIdempotencyCapacity s actor = Inl e"
  unfolding reserveIdempotency_def by (auto simp: attempt_eq_Inl split: if_splits)

lemma storedIdempotency_simps [simp]:
  "ic_key (storedIdempotency actor claim i k) = ic_key claim"
  "si_planId (storedIdempotency actor claim i k) = i"
  "si_stepIndex (storedIdempotency actor claim i k) = k"
  "si_accountId (storedIdempotency actor claim i k) = accountId actor"
  "ic_requestHash (storedIdempotency actor claim i k) = ic_requestHash claim"
  "ic_operation (storedIdempotency actor claim i k) = ic_operation claim"
  by (simp_all add: storedIdempotency_def)

lemma plan_ok_idem [simp]: "plan_ok (s\<lparr>tx_idempotency := m\<rparr>) i p = plan_ok s i p"
  and plan_ok_plans [simp]: "plan_ok (s\<lparr>tx_plans := m'\<rparr>) i p = plan_ok s i p"
  by (simp_all add: plan_ok_def)

lemma tx_inv_reserve:
  assumes inv: "tx_inv s" and r: "reserveIdempotency actor claim i k s = (Inr u, s')"
    and p: "js_get (tx_plans s) i = Some p" "pl_actor p = actor"
  shows "tx_inv s'"
proof (cases "js_has (tx_idempotency s) (idemKey actor (ic_key claim))")
  case False
  let ?e = "storedIdempotency actor claim i k" and ?k = "idemKey actor (ic_key claim)"
  from r False have cap: "count_values (\<lambda>e. si_accountId e = accountId actor) (tx_idempotency s) < idempotencyPerAccount"
    and s': "s' = s\<lparr>tx_idempotency := js_set ?k ?e (tx_idempotency s)\<rparr>"
    by (simp_all add: reserveIdempotency_Inr res_simps)
  have "idem_owned s'"
    using inv p by (auto simp: s' tx_inv_def idem_owned_def split: if_splits)
  moreover have "within_capacity s'"
    using inv cap False by (auto simp: s' tx_inv_def within_capacity_def count_values_fresh Suc_le_eq)
  ultimately show ?thesis using inv by (auto simp: s' tx_inv_def)
qed (use r inv in \<open>simp add: reserveIdempotency_Inr\<close>)

lemma assertNewPlan_returns:
  assumes "assertNewPlan p now = Inr u"
  shows "assertActor (pl_actor p) = Inr ()" "assertText (pl_id p) = Inr ()" "storable json_of_StoredPlan p"
    "assertTime (pl_createdAt p) = Inr ()"
    "plan_wf p" "plan_evidence p" "\<And>k. k < length (pl_steps p) \<Longrightarrow> binding_of (pl_steps p ! k) = None"
    "pl_revision p = 0"
proof -
  have c: "assertActor (pl_actor p) = Inr () \<and> assertText (pl_id p) = Inr () \<and> pl_revision p = 0 \<and>
    length (pl_steps p) = length (dr_calls (pl_draft p)) \<and>
    list_all (\<lambda>(index, step). st_index step = index \<and> st_state step = Waiting \<and> st_attempt step = None \<and>
       st_externalExecution step = None) (indexed (pl_steps p)) \<and>
    storable json_of_StoredPlan p"
    using assms unfolding assertNewPlan_def by (auto simp: res_simps list_ex_iff list_all_iff)
  have step: "st_index (pl_steps p ! k) = int k \<and> st_state (pl_steps p ! k) = Waiting \<and>
      st_attempt (pl_steps p ! k) = None \<and> st_externalExecution (pl_steps p ! k) = None"
    if "k < length (pl_steps p)" for k
  proof -
    have "(int k, pl_steps p ! k) \<in> set (indexed (pl_steps p))"
      using that by (auto simp: set_zip intro!: exI [of _ k])
    with c show ?thesis by (force simp: list_all_iff)
  qed
  show "plan_wf p" "plan_evidence p"
    using c step by (auto simp: plan_wf_def plan_evidence_def list_all_length step_exclusive_def step_evidence_def)
  show "binding_of (pl_steps p ! k) = None" if "k < length (pl_steps p)" for k
    using step [OF that] by (simp add: binding_of_def)
qed (use assms in \<open>auto simp: assertNewPlan_def res_simps\<close>)

lemma nonce_binding: "binding_of step = None \<Longrightarrow> nonce_of step = None"
  by (simp add: binding_of_def nonce_of_def split: option.splits)

text \<open>The two ways a creation succeeds: a replay of the same request, or a new plan.\<close>

lemma create_Inr:
  assumes "create g input claim now s = (Inr r, s')"
  obtains (replay) e where "js_get (tx_idempotency s) (idemKey (pl_actor input) (ic_key claim)) = Some e"
      "ic_requestHash e = ic_requestHash claim" "ic_operation e = ic_operation claim"
      "require s (pl_actor input) (si_planId e) = Inr r" "s' = s"
  | (fresh) s1 where "js_get (tx_idempotency s) (idemKey (pl_actor input) (ic_key claim)) = None"
      "assertNewPlan input now = Inr ()" "js_get (tx_plans s) (pl_id input) = None"
      "count_values (\<lambda>p. accountId (pl_actor p) = accountId (pl_actor input)) (tx_plans s) < plansPerAccount"
      "reserveIdempotency (pl_actor input) claim (pl_id input) None s = (Inr (), s1)"
      "s' = s1\<lparr>tx_plans := js_set (pl_id input) input (tx_plans s1)\<rparr>" "r = input"
proof (cases "js_get (tx_idempotency s) (idemKey (pl_actor input) (ic_key claim))")
  case None
  with assms show thesis
    unfolding create_def Let_def
    by (auto simp: attempt_eq_Inr invoke_eq_Inr boundedClone_eq_Inr ensure_eq_Inr not_le intro!: fresh)
next
  case (Some e)
  with assms have "ic_requestHash e = ic_requestHash claim \<and> ic_operation e = ic_operation claim \<and>
      require s (pl_actor input) (si_planId e) = Inr r \<and> s' = s"
    unfolding create_def Let_def
    by (auto simp: attempt_eq_Inr boundedClone_eq_Inr checkIdempotency_def res_simps simp del: require_eq_Inr)
  with Some show thesis by (intro replay) auto
qed

lemma create_Inl:
  assumes "create g input claim now s = (Inl e, s')"
  shows "s' = s"
proof (cases "js_get (tx_idempotency s) (idemKey (pl_actor input) (ic_key claim))")
  case None
  with assms show ?thesis unfolding create_def Let_def
    by (auto simp: attempt_eq_Inl invoke_eq_Inl boundedClone_eq_Inr dest: reserveIdempotency_Inl)
next
  case (Some x)
  with assms show ?thesis unfolding create_def Let_def by (auto simp: attempt_eq_Inl boundedClone_eq_Inr)
qed

lemma create_inv:
  assumes inv: "tx_inv s" and c: "create g input claim now s = (r, s')"
  shows "tx_inv s'"
proof (cases r)
  case (Inr p)
  from c [unfolded Inr] show ?thesis
  proof (cases rule: create_Inr)
    case (fresh s1)
    let ?i = "pl_id input" and ?k = "idemKey (pl_actor input) (ic_key claim)"
    note new = assertNewPlan_returns [OF fresh(2)]
    have cap: "count_values (\<lambda>e. si_accountId e = accountId (pl_actor input)) (tx_idempotency s) < idempotencyPerAccount"
      and s': "s' = s\<lparr>tx_idempotency := js_set ?k (storedIdempotency (pl_actor input) claim ?i None) (tx_idempotency s),
                tx_plans := js_set ?i input (tx_plans s)\<rparr>"
      using fresh(1,5,6) by (simp_all add: reserveIdempotency_Inr res_simps)
    have ok: "plan_ok s ?i input"
      using new nonce_binding by (auto simp: plan_ok_def)
    have "si_planId e \<noteq> ?i" if "js_get (tx_idempotency s) k = Some e" for k e
      using tx_inv_idem [OF inv that] fresh(3) by auto
    then have "idem_owned s'"
      unfolding idem_owned_def s' using tx_inv_idem [OF inv] by (auto split: if_splits)
    moreover have "within_capacity s'"
      using inv cap fresh(1,3,4) by (auto simp: s' tx_inv_def within_capacity_def count_values_fresh Suc_le_eq)
    ultimately show ?thesis using inv ok by (auto simp: s' tx_inv_def)
  qed (use inv in simp)
qed (use c create_Inl inv in blast)

subsection \<open>claimSubmission\<close>

text \<open>What is known of a claim that succeeded, and the four writes it made.\<close>

definition nonceFree :: "TxStore \<Rightarrow> SubmissionClaim \<Rightarrow> bool" where
  "nonceFree s claim \<longleftrightarrow>
     (case js_get (tx_nonces s) (nonceKey (cl_attempt claim)) of None \<Rightarrow> True
      | Some r \<Rightarrow> r = \<lparr>nr_planId = cl_planId claim, nr_stepIndex = cl_stepIndex claim\<rparr>)"

lemma nonceFree_iff:
  "(\<not> (case js_get (tx_nonces s) (nonceKey (cl_attempt claim)) of None \<Rightarrow> False
      | Some r \<Rightarrow> nr_planId r \<noteq> cl_planId claim \<or> nr_stepIndex r \<noteq> cl_stepIndex claim)) = nonceFree s claim"
  by (auto simp: nonceFree_def split: option.split)

lemma claimSubmission_Inr:
  assumes "claimSubmission g waited claim s = (Inr (r, dispatch), s')"
  obtains p changed t s2 where
    "g (cl_actor claim) [Relay] (cl_now claim div 1000) = Inr ()"
    "js_get (tx_plans s) (cl_planId claim) = Some p" "pl_actor p = cl_actor claim"
    "prepareClaim p (claim\<lparr>cl_now := cl_now claim + waited\<rparr>) = Inr (r, dispatch, changed)"
    "nonceFree s claim"
    "claim_transport (cl_planId claim) [cl_stepIndex claim] Direct (toLowerCase (at_hash (cl_attempt claim)))
       (tx_transports s) = (Inr (), t)"
    "reserveIdempotency (cl_actor claim) (cl_idempotency claim) (cl_planId claim) (Some (cl_stepIndex claim))
       (s\<lparr>tx_transports := t\<rparr>) = (Inr (), s2)"
    "s' = s2\<lparr>tx_nonces := js_set (nonceKey (cl_attempt claim))
              \<lparr>nr_planId = cl_planId claim, nr_stepIndex = cl_stepIndex claim\<rparr> (tx_nonces s2),
            tx_plans := (if changed then js_set (cl_planId claim) r (tx_plans s2) else tx_plans s2)\<rparr>"
proof -
  have "\<exists>p changed t s2.
    g (cl_actor claim) [Relay] (cl_now claim div 1000) = Inr () \<and>
    require s (cl_actor claim) (cl_planId claim) = Inr p \<and>
    prepareClaim p (claim\<lparr>cl_now := cl_now claim + waited\<rparr>) = Inr (r, dispatch, changed) \<and>
    nonceFree s claim \<and>
    claim_transport (cl_planId claim) [cl_stepIndex claim] Direct (toLowerCase (at_hash (cl_attempt claim)))
       (tx_transports s) = (Inr (), t) \<and>
    reserveIdempotency (cl_actor claim) (cl_idempotency claim) (cl_planId claim) (Some (cl_stepIndex claim))
       (s\<lparr>tx_transports := t\<rparr>) = (Inr (), s2) \<and>
    s' = s2\<lparr>tx_nonces := js_set (nonceKey (cl_attempt claim))
              \<lparr>nr_planId = cl_planId claim, nr_stepIndex = cl_stepIndex claim\<rparr> (tx_nonces s2),
            tx_plans := (if changed then js_set (cl_planId claim) r (tx_plans s2) else tx_plans s2)\<rparr>"
    using assms unfolding claimSubmission_def Let_def nonceFree_iff
    by (clarsimp simp: attempt_eq_Inr invoke_eq_Inr boundedClone_eq_Inr ensure_eq_Inr simp del: not_None_eq)
       (auto split: if_splits)
  with that show thesis by (auto simp: require_eq_Inr)
qed

lemma claimSubmission_Inl:
  assumes inv: "tx_inv s" and c: "claimSubmission g waited claim s = (Inl e, s')"
  shows "s' = s"
proof -
  have st: "storable json_of_StoredPlan q"
    if "require s actor i = Inr p" "prepareClaim p cl = Inr (q, d, ch)" for actor i p cl q d ch
    using that prepareClaim_storable plan_ok_parts tx_inv_plan [OF inv] unfolding require_eq_Inr by blast
  have idem: "reserveIdempotency a b i k (s\<lparr>tx_transports := t\<rparr>) \<noteq> (Inl e', s1)"
    if "js_has (tx_idempotency s) (idemKey a (ic_key b)) \<or> assertIdempotencyCapacity s a = Inr ()" for a b i k t e' s1
    using that by (auto dest!: reserveIdempotency_Inl simp: assertIdempotencyCapacity_def)
  show ?thesis using c st idem unfolding claimSubmission_def Let_def
    by (clarsimp simp: attempt_eq_Inl attempt_eq_Inr invoke_eq_Inl boundedClone_eq_Inr simp del: not_None_eq split del: if_split)
      (auto dest: claim_transport_Inl split: if_splits)
qed

lemma tx_inv_nonce:
  assumes inv: "tx_inv s" and "js_get (tx_nonces s) n = None \<or> js_get (tx_nonces s) n = Some v"
  shows "tx_inv (s\<lparr>tx_nonces := js_set n v (tx_nonces s)\<rparr>)"
proof -
  have "plan_ok (s\<lparr>tx_nonces := js_set n v (tx_nonces s)\<rparr>) i p" if "js_get (tx_plans s) i = Some p" for i p
    using tx_inv_plan [OF inv that] by (rule plan_ok_grow) (use assms(2) in auto)
  with inv show ?thesis by (auto simp: tx_inv_def idem_owned_def within_capacity_def)
qed

lemma plan_ok_claimed:
  assumes ok: "plan_ok s i p" and pc: "prepareClaim p claim = Inr (q, dispatch, changed)"
    and bound: "boundTo (tx_transports s) i (cl_stepIndex claim) = Some (Direct, toLowerCase (at_hash (cl_attempt claim)))"
    and nonce: "js_get (tx_nonces s) (nonceKey (cl_attempt claim)) = Some \<lparr>nr_planId = i, nr_stepIndex = cl_stepIndex claim\<rparr>"
  shows "plan_ok s i q"
proof -
  note parts = plan_ok_parts [OF ok] and r = prepareClaim_returns [OF pc]
  let ?j = "nat (cl_stepIndex claim)"
  have ev: "plan_evolves p q" using prepareClaim_evolves [OF pc] parts by blast
  then have same: "length (pl_steps q) = length (pl_steps p)" "pl_id q = pl_id p" "pl_createdAt q = pl_createdAt p"
    by (auto simp: plan_evolves_def dest: list_all2_lengthD reviewed_eqD)
  have "(\<forall>x. binding_of (pl_steps q ! k) = Some x \<longrightarrow> boundTo (tx_transports s) i (int k) = Some x) \<and>
    (\<forall>n. nonce_of (pl_steps q ! k) = Some n \<longrightarrow> js_get (tx_nonces s) n = Some \<lparr>nr_planId = i, nr_stepIndex = int k\<rparr>)"
    if k: "k < length (pl_steps p)" for k
  proof (cases "k = ?j \<and> changed")
    case True
    with prepareClaim_keeps(2) [OF pc] obtain b where
      b: "st_attempt (pl_steps q ! k) = Some b" "sameAttempt (cl_attempt claim) b" by auto
    with True r(1) bound nonce show ?thesis
      by (auto simp: binding_of_def nonce_of_def sameAttempt_hash dest: sameAttempt_nonceKey)
  next
    case False
    then have "pl_steps q ! k = pl_steps p ! k"
      using prepareClaim_keeps(1) [OF pc, of k] prepareClaim_unchanged [of p claim q dispatch] pc
      by (cases changed) auto
    with ok k show ?thesis by (simp add: plan_ok_def)
  qed
  moreover have "plan_wf q" "plan_evidence q" "storable json_of_StoredPlan q"
    using parts plan_evolves_wf [OF ev] prepareClaim_evidence [OF pc] prepareClaim_storable [OF pc] by auto
  ultimately show ?thesis using ok same by (auto simp: plan_ok_def)
qed

text \<open>
  A claim for a plan of its actor that the rules grant, with its four writes: the transport, the idempotency key, the nonce and
  the plan.
\<close>

definition claimAccepted :: "TxStore \<Rightarrow> SubmissionClaim \<Rightarrow> StoredPlan \<Rightarrow> bool \<Rightarrow> TxStore \<Rightarrow> bool" where
  "claimAccepted s claim q dispatch s' \<longleftrightarrow> (\<exists>p changed t s2.
     js_get (tx_plans s) (cl_planId claim) = Some p \<and> pl_actor p = cl_actor claim \<and> prepareClaim p claim = Inr (q, dispatch, changed) \<and> nonceFree s claim \<and>
     claim_transport (cl_planId claim) [cl_stepIndex claim] Direct (toLowerCase (at_hash (cl_attempt claim))) (tx_transports s) = (Inr (), t) \<and>
     reserveIdempotency (cl_actor claim) (cl_idempotency claim) (cl_planId claim) (Some (cl_stepIndex claim)) (s\<lparr>tx_transports := t\<rparr>) = (Inr (), s2) \<and>
     s' = s2\<lparr>tx_nonces := js_set (nonceKey (cl_attempt claim)) \<lparr>nr_planId = cl_planId claim, nr_stepIndex = cl_stepIndex claim\<rparr> (tx_nonces s2),
       tx_plans := (if changed then js_set (cl_planId claim) q (tx_plans s2) else tx_plans s2)\<rparr>)"

lemma claimSubmission_accepted:
  assumes "claimSubmission g waited claim s = (Inr (q, dispatch), s')"
  shows "claimAccepted s (claim\<lparr>cl_now := cl_now claim + waited\<rparr>) q dispatch s'"
proof -
  have free: "nonceFree s (claim\<lparr>cl_now := t\<rparr>) = nonceFree s claim" for t by (simp add: nonceFree_def split: option.splits)
  show ?thesis using assms by (rule claimSubmission_Inr) (auto simp: claimAccepted_def free)
qed

lemma claimAccepted_inv:
  assumes inv: "tx_inv s" and a: "claimAccepted s claim q dispatch s'"
  shows "tx_inv s'"
proof -
  let ?i = "cl_planId claim" and ?v = "\<lparr>nr_planId = cl_planId claim, nr_stepIndex = cl_stepIndex claim\<rparr>"
  from a obtain p changed t s2 where
    p: "js_get (tx_plans s) ?i = Some p" "pl_actor p = cl_actor claim" and
    pc: "prepareClaim p claim = Inr (q, dispatch, changed)" and free: "nonceFree s claim" and
    t: "claim_transport ?i [cl_stepIndex claim] Direct (toLowerCase (at_hash (cl_attempt claim))) (tx_transports s) = (Inr (), t)" and
    s2: "reserveIdempotency (cl_actor claim) (cl_idempotency claim) ?i (Some (cl_stepIndex claim)) (s\<lparr>tx_transports := t\<rparr>) = (Inr (), s2)" and
    s': "s' = s2\<lparr>tx_nonces := js_set (nonceKey (cl_attempt claim)) ?v (tx_nonces s2),
            tx_plans := (if changed then js_set ?i q (tx_plans s2) else tx_plans s2)\<rparr>"
    unfolding claimAccepted_def by (elim exE conjE)
  define s3 where "s3 = s2\<lparr>tx_nonces := js_set (nonceKey (cl_attempt claim)) ?v (tx_nonces s2)\<rparr>"
  have eq: "tx_plans s2 = tx_plans s" "tx_nonces s2 = tx_nonces s" "tx_transports s2 = t"
    using s2 by (auto simp: reserveIdempotency_Inr split: if_splits)
  have "tx_inv (s\<lparr>tx_transports := t\<rparr>)"
    using inv ledger.ledger_stepI [OF t] by (rule tx_inv_transports)
  then have "tx_inv s2" using s2 p by (intro tx_inv_reserve [OF _ s2]) auto
  then have inv3: "tx_inv s3" unfolding s3_def
    using free eq(2) by (intro tx_inv_nonce) (auto simp: nonceFree_def split: option.splits)
  have p3: "js_get (tx_plans s3) ?i = Some p" using p eq by (simp add: s3_def)
  have "boundTo t ?i (cl_stepIndex claim) = Some (Direct, toLowerCase (at_hash (cl_attempt claim)))"
    using ledger.claim_binds [OF t] by simp
  then have "plan_ok s3 ?i q"
    by (intro plan_ok_claimed [OF tx_inv_plan [OF inv3 p3] pc]) (simp_all add: s3_def eq)
  moreover have "reviewed q = reviewed p"
    using prepareClaim_evolves [OF pc] plan_ok_parts [OF tx_inv_plan [OF inv p(1)]] by (simp add: plan_evolves_def)
  ultimately have "tx_inv (s3\<lparr>tx_plans := js_set ?i q (tx_plans s3)\<rparr>)"
    by (intro tx_inv_update [OF inv3 p3])
  with inv3 show ?thesis by (simp add: s' s3_def)
qed

lemma claimSubmission_inv:
  assumes inv: "tx_inv s" and c: "claimSubmission g waited claim s = (r, s')"
  shows "tx_inv s'"
proof (cases r)
  case (Inr x)
  then show ?thesis using claimAccepted_inv [OF inv claimSubmission_accepted] c by (cases x) simp
qed (use claimSubmission_Inl [OF inv] c inv in blast)

end
