(* ===== verification/TransactionRuns.thy ===== *)
theory TransactionRuns
  imports TransactionInvariants
begin

text \<open>
  Runs of the in-memory transaction store: any sequence of its operations, with any outcome, in
  which other stores may claim transports in the shared reservations at any time. The invariant holds
  throughout, nothing that was recorded is ever lost, and a page together with the pages of its
  cursor is the whole listing.
\<close>

section \<open>Runs of the store\<close>

text \<open>
  One step of a run: an operation of this store with any outcome, or another store that claims a
  transport in the shared reservations.
\<close>

inductive tx_step :: "TxStore \<Rightarrow> TxStore \<Rightarrow> bool" where
  Create: "create authority input claim now s = (r, s') \<Longrightarrow> tx_step s s'"
| ClaimSubmission: "claimSubmission authority waited submission s = (r', s') \<Longrightarrow> tx_step s s'"
| SaveSteps: "save actor i expected steps s = (r, s') \<Longrightarrow> tx_step s s'"
| ReserveExternal: "reserveExternalExecution actor i indexes bindingId s = (r, s') \<Longrightarrow> tx_step s s'"
| SaveExternal: "saveExternalExecution actor i expected bindingId updates s = (r, s') \<Longrightarrow> tx_step s s'"
| SyncExternal: "syncExternalExecutions actor i s = (r, s') \<Longrightarrow> tx_step s s'"
| SettleSubmission: "settleSubmission actor i index leaseToken patch s = (r, s') \<Longrightarrow> tx_step s s'"
| OtherStore: "claim_transport i indexes transport bindingId (tx_transports s) = (u, t) \<Longrightarrow>
     tx_step s (s\<lparr>tx_transports := t\<rparr>)"

lemma moves_inv: "tx_inv s \<Longrightarrow> s' = s \<or> plan_moves s s' \<Longrightarrow> tx_inv s'"
  using plan_moves_inv by blast

lemma tx_step_inv: "tx_step s s' \<Longrightarrow> tx_inv s \<Longrightarrow> tx_inv s'"
proof (induction rule: tx_step.induct)
  case (OtherStore i indexes transport bindingId s u t)
  then show ?case using tx_inv_transports ledger.ledger_stepI by blast
qed (rule create_inv claimSubmission_inv moves_inv [OF _ save_moves] moves_inv [OF _ settleSubmission_moves]
    moves_inv [OF _ reserveExternalExecution_moves] moves_inv [OF _ syncExternalExecutions_moves]
    moves_inv [OF _ saveExternalExecution_moves]; assumption)+

lemma tx_run_inv: "tx_step\<^sup>*\<^sup>* s s' \<Longrightarrow> tx_inv s \<Longrightarrow> tx_inv s'"
  by (induction rule: rtranclp_induct) (auto intro: tx_step_inv)

text \<open>How one step of a run looks from the maps: what is never lost.\<close>

definition tx_extends :: "TxStore \<Rightarrow> TxStore \<Rightarrow> bool" where
  "tx_extends s s' \<longleftrightarrow>
     (\<forall>i p. js_get (tx_plans s) i = Some p \<longrightarrow> (\<exists>q. js_get (tx_plans s') i = Some q \<and> plan_change\<^sup>*\<^sup>* p q)) \<and>
     (\<forall>k e. js_get (tx_idempotency s) k = Some e \<longrightarrow> js_get (tx_idempotency s') k = Some e) \<and>
     (\<forall>n v. js_get (tx_nonces s) n = Some v \<longrightarrow> js_get (tx_nonces s') n = Some v) \<and>
     (\<forall>i k x. boundTo (tx_transports s) i k = Some x \<longrightarrow> boundTo (tx_transports s') i k = Some x)"

lemma tx_extends_refl [simp]: "tx_extends s s"
  by (auto simp: tx_extends_def)

lemma tx_extends_trans: "tx_extends r s \<Longrightarrow> tx_extends s t \<Longrightarrow> tx_extends r t"
  unfolding tx_extends_def by (intro conjI; meson rtranclp_trans)

lemma plan_moves_extends: "plan_moves s s' \<Longrightarrow> tx_extends s s'"
  by (fastforce simp: plan_moves_def tx_extends_def)

lemma moves_extends: "s' = s \<or> plan_moves s s' \<Longrightarrow> tx_extends s s'"
  using plan_moves_extends by auto

lemma create_extends:
  assumes "create g input claim now s = (r, s')"
  shows "tx_extends s s'"
proof (cases r)
  case (Inr p)
  from assms [unfolded Inr] show ?thesis
  proof (cases rule: create_Inr)
    case (fresh s1)
    have "s' = s\<lparr>tx_idempotency := js_set (idemKey (pl_actor input) (ic_key claim))
        (storedIdempotency (pl_actor input) claim (pl_id input) None) (tx_idempotency s),
        tx_plans := js_set (pl_id input) input (tx_plans s)\<rparr>"
      using fresh(1,5,6) by (simp add: reserveIdempotency_Inr)
    with fresh(1,3) show ?thesis by (auto simp: tx_extends_def)
  qed simp
qed (use assms create_Inl [of g input claim now s] in fastforce)

lemma claimAccepted_extends:
  assumes "claimAccepted s claim q dispatch s'"
  shows "tx_extends s s'"
proof -
  from assms obtain p changed t s2 where
    p: "js_get (tx_plans s) (cl_planId claim) = Some p" and
    pc: "prepareClaim p claim = Inr (q, dispatch, changed)" and free: "nonceFree s claim" and
    t: "claim_transport (cl_planId claim) [cl_stepIndex claim] Direct (toLowerCase (at_hash (cl_attempt claim))) (tx_transports s) = (Inr (), t)" and
    s2: "reserveIdempotency (cl_actor claim) (cl_idempotency claim) (cl_planId claim) (Some (cl_stepIndex claim)) (s\<lparr>tx_transports := t\<rparr>) = (Inr (), s2)" and
    s': "s' = s2\<lparr>tx_nonces := js_set (nonceKey (cl_attempt claim)) \<lparr>nr_planId = cl_planId claim, nr_stepIndex = cl_stepIndex claim\<rparr> (tx_nonces s2),
            tx_plans := (if changed then js_set (cl_planId claim) q (tx_plans s2) else tx_plans s2)\<rparr>"
    unfolding claimAccepted_def by (elim exE conjE)
  have eq: "tx_plans s2 = tx_plans s" "tx_nonces s2 = tx_nonces s" "tx_transports s2 = t"
    "\<And>k e. js_get (tx_idempotency s) k = Some e \<Longrightarrow> js_get (tx_idempotency s2) k = Some e"
    using s2 by (auto simp: reserveIdempotency_Inr split: if_splits)
  have "plan_change p q" using pc by (rule plan_change.Claim)
  moreover have "boundTo (tx_transports s) i k = Some v \<Longrightarrow> boundTo t i k = Some v" for i k v
    using ledger.bound_step [OF ledger.ledger_stepI [OF t]] .
  moreover have "js_get (tx_nonces s) n = Some v \<Longrightarrow> js_get (tx_nonces s') n = Some v" for n v
    using free by (auto simp: s' eq nonceFree_def)
  ultimately show ?thesis using p by (auto simp: tx_extends_def s' eq)
qed

lemma claimSubmission_extends:
  assumes inv: "tx_inv s" and c: "claimSubmission g waited claim s = (r, s')"
  shows "tx_extends s s'"
proof (cases r)
  case (Inr x)
  then show ?thesis using claimAccepted_extends [OF claimSubmission_accepted] c by (cases x) simp
qed (use claimSubmission_Inl [OF inv, of g waited claim] c in fastforce)

lemma tx_step_extends: "tx_step s s' \<Longrightarrow> tx_inv s \<Longrightarrow> tx_extends s s'"
proof (induction rule: tx_step.induct)
  case (OtherStore i indexes transport bindingId s u t)
  then show ?case using ledger.bound_step [OF ledger.ledger_stepI] by (auto simp: tx_extends_def)
qed (rule create_extends claimSubmission_extends moves_extends [OF save_moves] moves_extends [OF settleSubmission_moves]
    moves_extends [OF reserveExternalExecution_moves] moves_extends [OF syncExternalExecutions_moves]
    moves_extends [OF saveExternalExecution_moves]; assumption)+

lemma tx_run_extends: "tx_step\<^sup>*\<^sup>* s s' \<Longrightarrow> tx_inv s \<Longrightarrow> tx_extends s s'"
proof (induction rule: rtranclp_induct)
  case (step t u)
  then show ?case using tx_run_inv tx_step_extends tx_extends_trans by blast
qed simp

section \<open>What a plan store may do\<close>

text \<open>
  The specification of a plan store: it creates a plan, accepts a claim, moves one plan on by one of its transitions, or another store claims a transport.
  Both implementations, in memory and in PostgreSQL, refine it.
\<close>

inductive plans_step :: "TxStore \<Rightarrow> TxStore \<Rightarrow> bool" where
  Created: "create authority input claim now s = (r, s') \<Longrightarrow> plans_step s s'"
| Claimed: "claimAccepted s submission q dispatch s' \<Longrightarrow> plans_step s s'"
| Moved: "plan_moves s s' \<Longrightarrow> plans_step s s'"
| OtherStore: "claim_transport i indexes transport bindingId (tx_transports s) = (u, t) \<Longrightarrow> plans_step s (s\<lparr>tx_transports := t\<rparr>)"

lemma plans_step_keeps: "plans_step s s' \<Longrightarrow> tx_inv s \<Longrightarrow> tx_inv s' \<and> tx_extends s s'"
proof (induction rule: plans_step.induct)
  case (OtherStore i indexes transport bindingId s u t)
  then show ?case using tx_step_inv tx_step_extends tx_step.OtherStore by blast
next
  case (Created authority input claim now s r s')
  then show ?case using tx_step_inv tx_step_extends tx_step.Create by blast
next
  case (Claimed s submission q dispatch s')
  then show ?case using claimAccepted_inv claimAccepted_extends by blast
next
  case (Moved s s')
  then show ?case using plan_moves_inv plan_moves_extends by blast
qed

lemma tx_step_plans:
  assumes "tx_step s s'" and inv: "tx_inv s"
  shows "plans_step\<^sup>*\<^sup>* s s'"
proof -
  have moved: "t = s \<or> plan_moves s t \<Longrightarrow> plans_step\<^sup>*\<^sup>* s t" for t using plans_step.Moved by blast
  from assms(1) show ?thesis
  proof cases
    case (ClaimSubmission authority waited submission r')
    show ?thesis
    proof (cases r')
      case (Inr x)
      then show ?thesis using ClaimSubmission plans_step.Claimed claimSubmission_accepted by (cases x) blast
    qed (use ClaimSubmission claimSubmission_Inl [OF inv] in blast)
  qed (blast intro: plans_step.Created plans_step.OtherStore
      moved [OF save_moves [OF inv]] moved [OF settleSubmission_moves [OF inv]] moved [OF reserveExternalExecution_moves [OF inv]]
      moved [OF syncExternalExecutions_moves [OF inv]] moved [OF saveExternalExecution_moves [OF inv]])+
qed

interpretation plans: evolving_store plans_step tx_inv tx_extends emptyTxStore
  by unfold_locales (rule plans_step_keeps tx_extends_refl tx_inv_empty tx_extends_trans; assumption?)+

interpretation memory_plans: refined_store plans_step tx_inv tx_extends emptyTxStore tx_step "(=)" emptyTxStore
  by unfold_locales (use tx_step_plans in \<open>auto\<close>)

section \<open>Pages\<close>

lemma older_eq_total: "older_eq a b \<or> older_eq b a"
  using bytes_le_total by (auto simp: older_eq_def)

lemma older_eq_trans: "older_eq a b \<Longrightarrow> older_eq b c \<Longrightarrow> older_eq a c"
  using bytes_le_trans by (auto simp: older_eq_def)

lemma older_eq_antisym: "older_eq a b \<Longrightarrow> older_eq b a \<Longrightarrow> a = b"
  by (cases a; cases b) (auto simp: older_eq_def dest: bytes_le_antisym)

lemma older_iff: "older a b \<longleftrightarrow> older_eq a b \<and> a \<noteq> b"
  using older_eq_antisym [of a b] older_eq_total [of a b] by (auto simp: older_def)

text \<open>In a sorted list of distinct elements, what comes after the first \<open>n\<close> is what follows the last of them.\<close>

lemma filter_after:
  assumes "sorted_wrt lt xs" and "n \<le> length xs" and "0 < n"
    and asym: "\<And>x y. lt x y \<Longrightarrow> \<not> lt y x"
  shows "filter (lt (xs ! (n - 1))) xs = drop n xs"
proof -
  let ?x = "xs ! (n - 1)"
  have le: "\<not> lt ?x y" if "y \<in> set (take n xs)" for y
  proof -
    from that obtain j where j: "j < n" "y = xs ! j" using assms(2) by (auto simp: in_set_conv_nth)
    show ?thesis
    proof (cases "j = n - 1")
      case True
      with j show ?thesis using asym by blast
    next
      case False
      with j assms have "lt y ?x" by (auto simp: sorted_wrt_iff_nth_less)
      then show ?thesis by (rule asym)
    qed
  qed
  have gt: "lt ?x y" if "y \<in> set (drop n xs)" for y
  proof -
    from that obtain j where "j < length xs - n" "y = xs ! (n + j)" by (auto simp: in_set_conv_nth)
    with assms(1,3) show ?thesis by (auto simp: sorted_wrt_iff_nth_less)
  qed
  have "filter (lt ?x) (take n xs @ drop n xs) = drop n xs"
    using le gt by (auto simp: filter_empty_conv simp del: append_take_drop_id)
  then show ?thesis by simp
qed

lemma filter_insort_by:
  assumes "sorted_wrt le ys" and trans: "\<And>x y z. le x y \<Longrightarrow> le y z \<Longrightarrow> le x z"
  shows "filter P (insort_by le x ys) = (if P x then insort_by le x (filter P ys) else filter P ys)"
  using assms(1)
proof (induction ys)
  case (Cons y ys)
  show ?case
  proof (cases "le x y")
    case True
    with Cons.prems trans have "\<forall>z \<in> set (filter P ys). le x z" by auto
    then have "insort_by le x (filter P ys) = x # filter P ys" by (cases "filter P ys") auto
    with True show ?thesis by simp
  qed (use Cons in simp)
qed simp

lemma filter_sort_by:
  assumes "\<And>x y. le x y \<or> le y x" and "\<And>x y z. le x y \<Longrightarrow> le y z \<Longrightarrow> le x z"
  shows "filter P (sort_by le xs) = sort_by le (filter P xs)"
  by (induction xs) (simp_all add: filter_insort_by [OF sorted_sort_by [OF assms] assms(2)])

abbreviation newer_first :: "StoredPlan \<Rightarrow> StoredPlan \<Rightarrow> bool" where
  "newer_first a b \<equiv> older_eq (cursorOf b) (cursorOf a)"

lemma tx_inv_keys:
  assumes "tx_inv s"
  shows "map pl_id (js_values (tx_plans s)) = map fst (tx_plans s)"
proof -
  have "pl_id p = i" if "(i, p) \<in> set (tx_plans s)" for i p
    using that assms map_of_eq_Some_iff [of "tx_plans s" i p] by (auto simp: tx_inv_def plan_ok_def)
  then show ?thesis by auto
qed

lemma set_listRows:
  "set (listRows actor account cursor s) =
     {p \<in> set (js_values (tx_plans s)). canRead p actor \<and> inAccount account p \<and> before cursor (cursorOf p)}"
  by (simp add: listRows_def)

lemma listRows_strict:
  assumes "tx_inv s"
  shows "sorted_wrt (\<lambda>a b. older (cursorOf b) (cursorOf a)) (listRows actor account cursor s)"
proof -
  let ?rows = "listRows actor account cursor s"
  have "distinct (map pl_id (js_values (tx_plans s)))"
    using assms by (simp add: tx_inv_keys [OF assms] del: map_map) (simp add: tx_inv_def)
  then have "distinct (js_values (tx_plans s))" "inj_on pl_id (set (js_values (tx_plans s)))"
    by (simp_all only: distinct_map)
  then have d: "distinct ?rows" "inj_on pl_id (set ?rows)"
    unfolding set_listRows by (auto simp: listRows_def intro: inj_on_subset)
  have "sorted_wrt newer_first ?rows"
    unfolding listRows_def by (rule sorted_sort_by) (use older_eq_total older_eq_trans in blast)+
  moreover have "cursorOf (xs ! j) \<noteq> cursorOf (xs ! i)"
    if "i < j" "j < length xs" "distinct xs" "inj_on pl_id (set xs)" for i j xs
  proof -
    have "xs ! i \<noteq> xs ! j" using that by (simp add: nth_eq_iff_index_eq)
    with that show ?thesis by (auto dest!: inj_onD [of pl_id "set xs" "xs ! j" "xs ! i"])
  qed
  ultimately show ?thesis using d unfolding sorted_wrt_iff_nth_less older_iff by blast
qed

lemma listRows_after:
  assumes "before cursor c"
  shows "listRows actor account (Some c) s = filter (\<lambda>p. older (cursorOf p) c) (listRows actor account cursor s)"
proof -
  have filter_sort: "filter P (sort_by newer_first xs) = sort_by newer_first (filter P xs)" for P xs
    by (rule filter_sort_by) (use older_eq_total older_eq_trans in blast)+
  have "older a c \<Longrightarrow> before cursor a" for a
    using assms by (auto simp: before_def older_def dest: older_eq_trans split: option.splits)
  then show ?thesis
    unfolding listRows_def filter_sort filter_filter
    by (intro arg_cong [where f = "sort_by newer_first"] filter_cong) (auto simp: before_def)
qed

text \<open>The rest of a page is the page of the cursor at its end.\<close>

lemma listRows_rest:
  assumes inv: "tx_inv s" and n: "0 < n" "n < length (listRows actor account cursor s)"
  shows "listRows actor account (Some (cursorOf (listRows actor account cursor s ! (n - 1)))) s =
     drop n (listRows actor account cursor s)"
proof -
  let ?rows = "listRows actor account cursor s"
  have "before cursor (cursorOf (?rows ! (n - 1)))"
    using nth_mem [of "n - 1" ?rows] n unfolding set_listRows by simp
  then have "listRows actor account (Some (cursorOf (?rows ! (n - 1)))) s =
      filter (\<lambda>p. older (cursorOf p) (cursorOf (?rows ! (n - 1)))) ?rows"
    by (rule listRows_after)
  also have "\<dots> = drop n ?rows"
    using n by (intro filter_after listRows_strict inv) (auto simp: older_def)
  finally show ?thesis .
qed

end
