(* ===== verification/TransactionSamples.thy ===== *)
theory TransactionSamples
  imports TransactionRuns
begin

text \<open>
  A concrete plan with two dependent calls, its creation and its first dispatch. The witnesses of the
  properties evaluate on these states.
\<close>

section \<open>A sample run\<close>

definition hex64 :: "char \<Rightarrow> string" where "hex64 c = ''0x'' @ replicate 64 c"
definition hex40 :: "char \<Rightarrow> string" where "hex40 c = ''0x'' @ replicate 40 c"

definition alice :: RestActor where
  "alice = \<lparr>accountId = ''acct'', principalId = ''owner:acct''\<rparr>"

definition sampleCall :: "int list \<Rightarrow> RestCall" where
  "sampleCall deps = \<lparr>call_chainId = 1, call_to = hex40 CHR ''b'', call_data = ''0x'', call_value = ''0'',
     call_label = ''call'', call_dependsOn = deps, call_decoded = JNull\<rparr>"

definition sampleStep :: "int \<Rightarrow> StoredStep" where
  "sampleStep i = \<lparr>st_index = i, st_state = Waiting, st_attempt = None, st_externalExecution = None,
     st_receipt = None, st_semantic = None\<rparr>"

definition samplePlan :: "string \<Rightarrow> StoredPlan" where
  "samplePlan i = \<lparr>pl_id = i, pl_actor = alice,
     pl_draft = \<lparr>dr_operation = ''pay'', dr_account = hex40 CHR ''a'', dr_project = None,
       dr_calls = [sampleCall [], sampleCall [0]], dr_evidence = [], dr_summary = JNull, dr_warnings = []\<rparr>,
     pl_commitment = hex64 CHR ''c'', pl_createdAt = 1000, pl_expiresAt = 900000, pl_revision = 0,
     pl_smartAccount = None, pl_steps = [sampleStep 0, sampleStep 1]\<rparr>"

definition sampleIdem :: "string \<Rightarrow> IdempotencyClaim" where
  "sampleIdem k = \<lparr>ic_key = k, ic_requestHash = ''hash'', ic_operation = ''pay''\<rparr>"

definition sampleAttempt :: "string \<Rightarrow> SignedAttempt" where
  "sampleAttempt token = \<lparr>at_hash = hex64 CHR ''d'', at_rawTransaction = ''0x02'', at_sender = hex40 CHR ''a'',
     at_chainId = 1, at_nonce = ''7'', at_type = Eip1559, at_gas = ''21000'', at_maximumFeePerGas = ''1'',
     at_maximumCost = ''21000'', at_reservedAt = 2000, at_leaseToken = token, at_leaseUntil = 62000,
     at_dispatchCount = 0, at_broadcastAt = None, at_lastError = None\<rparr>"

definition sampleClaim :: SubmissionClaim where
  "sampleClaim = \<lparr>cl_actor = alice, cl_planId = ''p1'', cl_stepIndex = 0, cl_expectedRevision = 0,
     cl_attempt = sampleAttempt ''t1'', cl_idempotency = sampleIdem ''k2'', cl_now = 2000,
     cl_authorization = None, cl_dispatch = True\<rparr>"

definition admitAll :: guard where "admitAll actor scopes now = Inr ()"

lemmas sample_defs = alice_def sampleCall_def sampleStep_def samplePlan_def sampleIdem_def
  sampleAttempt_def sampleClaim_def admitAll_def hex64_def hex40_def

lemmas json_defs = json_of_StoredPlan_def json_of_RestActor_def json_of_RestPlanDraft_def json_of_RestCall_def
  json_of_StoredStep_def json_of_SignedAttempt_def json_of_SubmissionClaim_def json_of_IdempotencyClaim_def
  json_of_ExternalExecution_def json_of_StoredReceipt_def json_of_SemanticResult_def
  optField_def text_of_StepState_def text_of_AttemptType_def maximumPlanBytes_def
  text_of_ReservedTransport_def text_of_ReceiptStatus_def text_of_SemanticStatus_def

definition sampleS1 :: TxStore where
  "sampleS1 = \<lparr>tx_plans = [(''p1'', samplePlan ''p1'')],
     tx_idempotency = [(idemKey alice ''k1'', storedIdempotency alice (sampleIdem ''k1'') ''p1'' None)],
     tx_nonces = [], tx_transports = []\<rparr>"

definition sampleDispatched :: StoredPlan where
  "sampleDispatched = bumpRevision (replaceStep (samplePlan ''p1'') 0
     ((sampleStep 0)\<lparr>st_attempt := Some ((sampleAttempt ''t1'')\<lparr>at_dispatchCount := 1\<rparr>), st_state := Reserved\<rparr>))"

definition sampleS2 :: TxStore where
  "sampleS2 = \<lparr>tx_plans = [(''p1'', sampleDispatched)],
     tx_idempotency = [(idemKey alice ''k1'', storedIdempotency alice (sampleIdem ''k1'') ''p1'' None),
       (idemKey alice ''k2'', storedIdempotency alice (sampleIdem ''k2'') ''p1'' (Some 0))],
     tx_nonces = [(nonceKey (sampleAttempt ''t1''), \<lparr>nr_planId = ''p1'', nr_stepIndex = 0\<rparr>)],
     tx_transports = [(''p1'', [(0, \<lparr>rv_transport = Direct, rv_bindingId = hex64 CHR ''d''\<rparr>)])]\<rparr>"

lemma samplePlan_storable: "length i \<le> 192 \<Longrightarrow> storable json_of_StoredPlan (samplePlan i)"
  by (rule storable_bound) (simp_all add: sample_defs json_defs)

lemma samplePlan_new: "assertNewPlan (samplePlan ''p1'') 1500 = Inr ()"
  using samplePlan_storable [of "''p1''"]
  by (simp add: assertNewPlan_def tx_defs isSafeInteger_def MAX_SAFE_INTEGER_def sample_defs
      hexOf_def list_all_iff isControl_def code_def maximumSteps_def upt_rec isHexDigit_def isDigit_def)

lemma sample_create:
  "create admitAll (samplePlan ''p1'') (sampleIdem ''k1'') 1500 emptyTxStore =
     (Inr (samplePlan ''p1''), sampleS1)"
  unfolding sampleS1_def
  using samplePlan_storable [of "''p1''"] samplePlan_new
  by (simp add: create_def emptyTxStore_def checkIdempotency_def tx_defs isIdempotencyKey_def
      reserveIdempotency_def assertIdempotencyCapacity_def admitAll_def isControl_def code_def
      plansPerAccount_def idempotencyPerAccount_def samplePlan_def [of "''p1''"] sampleIdem_def)

lemma sampleDispatched_storable: "storable json_of_StoredPlan sampleDispatched"
  by (rule storable_bound) (simp_all add: sampleDispatched_def sample_defs json_defs replaceStep_def bumpRevision_def)

lemma sampleClaim_storable: "storable json_of_SubmissionClaim sampleClaim"
  by (rule storable_bound) (simp_all add: sample_defs json_defs)

lemma sample_assertAttempt: "assertAttempt (sampleAttempt ''t1'') = Inr ()"
  by (simp add: tx_defs sample_defs hexOf_def isHexBytes_def isSafeInteger_def MAX_SAFE_INTEGER_def
      list_all_iff isDecimal_def bigInt_def isControl_def code_def isHexDigit_def isDigit_def)

lemma sample_prepare:
  "prepareClaim (samplePlan ''p1'') sampleClaim = Inr (sampleDispatched, True, True)"
proof -
  have "grantDispatch (samplePlan ''p1'') sampleClaim (sampleStep 0) = Inr (sampleDispatched, True, True)"
    unfolding grantDispatch_iff
    using samplePlan_storable [of "''p1''"] sampleDispatched_storable
    by (simp add: sampleDispatched_def checkAuthorization_def js_at_def renewAttempt_def)
       (simp add: sample_defs)
  moreover have "pl_steps (samplePlan ''p1'') = [sampleStep 0, sampleStep 1]" by (simp add: samplePlan_def)
  moreover have "st_attempt (sampleStep 0) = None" "st_externalExecution (sampleStep 0) = None" "st_state (sampleStep 0) = Waiting"
    by (simp_all add: sampleStep_def)
  moreover have "cl_stepIndex sampleClaim = 0" "cl_dispatch sampleClaim" "cl_now sampleClaim = 2000"
    "cl_expectedRevision sampleClaim = 0" "pl_revision (samplePlan ''p1'') = 0" "cl_attempt sampleClaim = sampleAttempt ''t1''"
    by (simp_all add: sampleClaim_def samplePlan_def)
  ultimately show ?thesis
    by (simp add: prepareClaim_def sample_assertAttempt assertRevision_def assertTime_def isSafeInteger_def MAX_SAFE_INTEGER_def)
qed

lemma sample_lower: "toLowerCase (hex64 CHR ''d'') = hex64 CHR ''d''"
  by (simp add: toLowerCase_def hex64_def lower_def isUpper_def code_def)

lemma sample_transport:
  "claim_transport ''p1'' [0] Direct (hex64 CHR ''d'') [] =
     (Inr (), [(''p1'', [(0, \<lparr>rv_transport = Direct, rv_bindingId = hex64 CHR ''d''\<rparr>)])])"
  by (simp add: claim_transport_def transport_parameters_def current_of_def tx_defs isControl_def code_def
      isNormalizedHash_def isLowerHexDigit_def isDigit_def hex64_def list_all_iff list_ex_iff maximumSteps_def
      isSafeInteger_def MAX_SAFE_INTEGER_def)

lemma sample_claim: "claimSubmission admitAll 0 sampleClaim sampleS1 = (Inr (sampleDispatched, True), sampleS2)"
proof -
  have actor: "assertActor alice = Inr ()" "assertText ''p1'' = Inr ()"
    by (simp_all add: tx_defs alice_def isControl_def code_def)
  have idem: "assertIdempotency (sampleIdem ''k2'') = Inr ()"
    by (simp add: tx_defs sampleIdem_def isIdempotencyKey_def isControl_def code_def)
  have c: "cl_actor sampleClaim = alice" "cl_planId sampleClaim = ''p1''" "cl_stepIndex sampleClaim = 0"
    "cl_idempotency sampleClaim = sampleIdem ''k2''" "ic_key (sampleIdem ''k2'') = ''k2''"
    "cl_attempt sampleClaim = sampleAttempt ''t1''" "at_hash (sampleAttempt ''t1'') = hex64 CHR ''d''"
    "sampleClaim\<lparr>cl_now := cl_now sampleClaim\<rparr> = sampleClaim" "pl_actor (samplePlan ''p1'') = alice"
    by (simp_all add: sampleClaim_def sampleIdem_def sampleAttempt_def samplePlan_def)
  show ?thesis
    by (simp add: claimSubmission_def c actor idem sampleClaim_storable admitAll_def require_def sampleS1_def sampleS2_def
        checkIdempotency_def sample_prepare assertIdempotencyCapacity_def idempotencyPerAccount_def count_values_def
        sample_lower sample_transport reserveIdempotency_def sampleDispatched_storable)
qed

lemma sample_run: "tx_step emptyTxStore sampleS1" "tx_step sampleS1 sampleS2"
  by (rule tx_step.Create [OF sample_create], rule tx_step.ClaimSubmission [OF sample_claim])

end
