(* ===== verification/TransactionProperties.thy ===== *)
theory TransactionProperties
  imports TransactionSamples
begin

text \<open>
  The properties of the transaction store, over all runs of its operations from the empty store, each
  with a witness on the sample run.
\<close>

lemma sample_reach: "tx_step\<^sup>*\<^sup>* emptyTxStore sampleS1" "tx_step\<^sup>*\<^sup>* emptyTxStore sampleS2" "tx_step\<^sup>*\<^sup>* sampleS1 sampleS2"
  using sample_run by (meson converse_rtranclp_into_rtranclp r_into_rtranclp)+

section \<open>Runs keep what they recorded\<close>

lemma reach_inv: "tx_step\<^sup>*\<^sup>* emptyTxStore s \<Longrightarrow> tx_inv s"
  using tx_run_inv tx_inv_empty by blast

lemma run_plan:
  assumes "tx_step\<^sup>*\<^sup>* emptyTxStore s" and "tx_step\<^sup>*\<^sup>* s s'" and "js_get (tx_plans s) i = Some p"
  obtains q where "js_get (tx_plans s') i = Some q" "plan_change\<^sup>*\<^sup>* p q" "plan_wf p"
  using tx_run_extends [OF assms(2) reach_inv [OF assms(1)]] assms(3)
    plan_ok_parts [OF tx_inv_plan [OF reach_inv [OF assms(1)] assms(3)]]
  unfolding tx_extends_def by blast

lemma plan_ok_bound:
  "plan_ok s i p \<Longrightarrow> k < length (pl_steps p) \<Longrightarrow> binding_of (pl_steps p ! k) = Some x \<Longrightarrow>
     boundTo (tx_transports s) i (int k) = Some x"
  unfolding plan_ok_def by blast

lemma step_evolves_binding:
  assumes "step_evolves s t" and "step_exclusive s" and "binding_of s = Some x"
  shows "binding_of t = Some x"
proof (cases "st_attempt s")
  case (Some a)
  with assms(1) obtain b where "st_attempt t = Some b" "sameAttempt a b" by (auto simp: step_evolves_def)
  with Some assms(3) show ?thesis by (simp add: binding_of_def sameAttempt_hash)
next
  case None
  with assms(3) obtain e where e: "st_externalExecution s = Some e" "x = (ex_transport e, ex_bindingId e)"
    by (auto simp: binding_of_def)
  with assms(1) obtain f where "st_externalExecution t = Some f" "same_binding e f" by (auto simp: step_evolves_def)
  moreover have "step_exclusive t" using assms(1,2) by (simp add: step_evolves_def)
  ultimately show ?thesis using e by (auto simp: binding_of_def same_binding_def step_exclusive_def)
qed

text \<open>
  Once a step of a plan shows a signed transaction or an external execution, it shows the same one in
  every later state, and the shared reservations hold exactly that binding for it.
\<close>

lemma binding_extends:
  assumes "tx_inv s" and "tx_extends s s'" and "tx_inv s'"
    and "js_get (tx_plans s) i = Some p" and "k < length (pl_steps p)" and "binding_of (pl_steps p ! k) = Some x"
  shows "\<exists>q. js_get (tx_plans s') i = Some q \<and> binding_of (pl_steps q ! k) = Some x \<and> k < length (pl_steps q) \<and>
     boundTo (tx_transports s') i (int k) = Some x"
proof -
  obtain q where q: "js_get (tx_plans s') i = Some q" "plan_change\<^sup>*\<^sup>* p q" using assms(2,4) unfolding tx_extends_def by blast
  have wf: "plan_wf p" using plan_ok_parts [OF tx_inv_plan [OF assms(1,4)]] by simp
  have k: "step_evolves (pl_steps p ! k) (pl_steps q ! k)" "k < length (pl_steps q)"
    using plan_history_steps [OF q(2) wf] assms(5) by (auto simp: list_all2_conv_all_nth)
  have "step_exclusive (pl_steps p ! k)" using wf assms(5) by (simp add: plan_wf_def list_all_length)
  with k(1) assms(6) have "binding_of (pl_steps q ! k) = Some x" using step_evolves_binding by blast
  with q(1) k(2) show ?thesis using plan_ok_bound [OF tx_inv_plan [OF assms(3) q(1)]] by blast
qed

lemma binding_kept:
  assumes "tx_step\<^sup>*\<^sup>* emptyTxStore s" and "tx_step\<^sup>*\<^sup>* s s'"
    and "js_get (tx_plans s) i = Some p" and "k < length (pl_steps p)" and "binding_of (pl_steps p ! k) = Some x"
  shows "\<exists>q. js_get (tx_plans s') i = Some q \<and> binding_of (pl_steps q ! k) = Some x \<and> k < length (pl_steps q) \<and>
     boundTo (tx_transports s') i (int k) = Some x"
proof -
  have "tx_inv s" using reach_inv [OF assms(1)] .
  then show ?thesis using binding_extends [OF _ tx_run_extends [OF assms(2)] tx_run_inv [OF assms(2)] assms(3-5)] by blast
qed

text \<open>
  No two steps, of whatever plans, ever hold signed transactions with the same chain, sender and
  nonce: at most one of them could be mined, and the other would wait forever.
\<close>

lemma nonce_unique:
  assumes "tx_step\<^sup>*\<^sup>* emptyTxStore s"
    and "js_get (tx_plans s) i = Some p" and "k < length (pl_steps p)" and "st_attempt (pl_steps p ! k) = Some a"
    and "js_get (tx_plans s) j = Some q" and "l < length (pl_steps q)" and "st_attempt (pl_steps q ! l) = Some b"
    and "at_chainId a = at_chainId b" and "same (at_sender a) (at_sender b)" and "at_nonce a = at_nonce b"
  shows "i = j \<and> k = l"
proof -
  have "nonceKey a = nonceKey b" using assms(8-10) by (simp add: nonceKey_eq_iff)
  moreover have "js_get (tx_nonces s) (nonceKey a) = Some \<lparr>nr_planId = i, nr_stepIndex = int k\<rparr>"
    using tx_inv_plan [OF reach_inv [OF assms(1)] assms(2)] assms(3,4) by (simp add: plan_ok_def nonce_of_def)
  moreover have "js_get (tx_nonces s) (nonceKey b) = Some \<lparr>nr_planId = j, nr_stepIndex = int l\<rparr>"
    using tx_inv_plan [OF reach_inv [OF assms(1)] assms(5)] assms(6,7) by (simp add: plan_ok_def nonce_of_def)
  ultimately show ?thesis by simp
qed

lemma reserveExternalExecution_Inl: "reserveExternalExecution actor i idx b s = (Inl e, s') \<Longrightarrow> s' = s"
  unfolding reserveExternalExecution_def
  by (auto simp: attempt_eq_Inl commitPlan_Inl [OF attachExternalExecutions_storable])

lemma saveExternalExecution_Inl: "saveExternalExecution actor i expected b updates s = (Inl e, s') \<Longrightarrow> s' = s"
  unfolding saveExternalExecution_def
  by (auto simp: attempt_eq_Inl commitPlan_Inl [OF applyExternalObservations_storable])

lemma syncExternalExecutions_Inl: "syncExternalExecutions actor i s = (Inl e, s') \<Longrightarrow> s' = s"
  unfolding syncExternalExecutions_def
  by (cases "js_get (tx_plans s) i")
    (auto simp: attempt_eq_Inl commitPlan_Inl [OF attachExternalExecutions_storable] split: if_splits)

text \<open>
  C6. An operation that throws has changed nothing: in every reachable state, when an operation of the
  store fails, whatever the authority and the arguments, the store is left exactly as it was.
\<close>

theorem failure_changes_nothing:
  assumes "tx_step\<^sup>*\<^sup>* emptyTxStore s"
    and "create g input claim now s = (Inl e, s') \<or>
      claimSubmission g waited submission s = (Inl e, s') \<or>
      save actor i expected steps s = (Inl e, s') \<or>
      settleSubmission actor i index token patch s = (Inl e, s') \<or>
      reserveExternalExecution actor i indexes b s = (Inl e, s') \<or>
      saveExternalExecution actor i expected b updates s = (Inl e, s') \<or>
      syncExternalExecutions actor i s = (Inl e, s')"
  shows "s' = s"
  using assms(2)
  by (elim disjE) (rule create_Inl claimSubmission_Inl [OF reach_inv [OF assms(1)]] save_Inl
    settleSubmission_Inl [OF reach_inv [OF assms(1)]] reserveExternalExecution_Inl saveExternalExecution_Inl
    syncExternalExecutions_Inl; assumption)+

definition refuseAll :: guard where "refuseAll actor scopes now = Inl (RestAuthError ''FORBIDDEN'' 403 ''no'')"

theorem failure_changes_nothing_witness:
  "snd (claimSubmission refuseAll 0 sampleClaim sampleS2) = sampleS2 \<and>
   fst (claimSubmission refuseAll 0 sampleClaim sampleS2) = Inl (RestAuthError ''FORBIDDEN'' 403 ''no'')"
proof -
  have "assertActor alice = Inr ()" "assertIdempotency (sampleIdem ''k2'') = Inr ()"
    by (simp_all add: tx_defs alice_def sampleIdem_def isIdempotencyKey_def isControl_def code_def)
  moreover have "cl_actor sampleClaim = alice" "cl_idempotency sampleClaim = sampleIdem ''k2''"
    by (simp_all add: sampleClaim_def)
  ultimately have "fst (claimSubmission refuseAll 0 sampleClaim sampleS2) = Inl (RestAuthError ''FORBIDDEN'' 403 ''no'')"
    by (simp add: claimSubmission_def sampleClaim_storable refuseAll_def)
  then show ?thesis
    using failure_changes_nothing [OF sample_reach(2), where g = refuseAll and waited = 0 and submission = sampleClaim
        and e = "RestAuthError ''FORBIDDEN'' 403 ''no''" and s' = "snd (claimSubmission refuseAll 0 sampleClaim sampleS2)"]
    by (metis prod.collapse)
qed

text \<open>
  C7. Creating is idempotent: once a plan was created under an idempotency key, a second creation by
  the same actor with the same key, request hash and operation, whose own plan is valid and which the guard admits, at any later time and whatever happened
  in between, returns that plan in its current version and changes nothing; a request with another hash
  or operation under the key is refused with a conflict.
\<close>

theorem create_idempotent:
  assumes "tx_step\<^sup>*\<^sup>* emptyTxStore s" and "create g input claim now s = (Inr p, s1)"
    and "tx_step\<^sup>*\<^sup>* s1 s2"
    and "assertNewPlan input' now' = Inr ()" and "pl_actor input' = pl_actor input"
    and "g' (pl_actor input) [Plan] (now' div 1000) = Inr ()"
    and "assertIdempotency claim' = Inr ()" and "ic_key claim' = ic_key claim"
  shows "if ic_requestHash claim' = ic_requestHash claim \<and> ic_operation claim' = ic_operation claim
    then \<exists>q. create g' input' claim' now' s2 = (Inr q, s2) \<and> js_get (tx_plans s2) (pl_id p) = Some q \<and>
           reviewed q = reviewed p
    else create g' input' claim' now' s2 =
           (Inl (conflict ''Idempotency key was already used for another request.''), s2)"
proof -
  let ?k = "idemKey (pl_actor input) (ic_key claim)"
  have inv: "tx_inv s" "tx_inv s1" using reach_inv [OF assms(1)] create_inv [OF _ assms(2)] by auto
  obtain e where e: "js_get (tx_idempotency s1) ?k = Some e" "ic_requestHash e = ic_requestHash claim"
    "ic_operation e = ic_operation claim" "si_planId e = pl_id p" "js_get (tx_plans s1) (pl_id p) = Some p"
    "pl_actor p = pl_actor input"
    using assms(2)
  proof (cases rule: create_Inr)
    case (replay e)
    with tx_inv_plan [OF inv(1), of "si_planId e" p] show thesis
      by (intro that [of e]) (auto simp: require_eq_Inr plan_ok_def)
  next
    case (fresh s0)
    then show thesis
      using that [of "storedIdempotency (pl_actor input) claim (pl_id input) None"] by (auto simp: reserveIdempotency_Inr)
  qed
  have ext: "tx_extends s1 s2" using tx_run_extends [OF assms(3) inv(2)] .
  then obtain q where q: "js_get (tx_plans s2) (pl_id p) = Some q" "plan_change\<^sup>*\<^sup>* p q"
    using e(5) unfolding tx_extends_def by blast
  have wf: "plan_wf p" "assertText (pl_id p) = Inr ()" using tx_inv_plan [OF inv(2) e(5)] by (simp_all add: plan_ok_def)
  have rev: "reviewed q = reviewed p" using plan_history.history_identity [OF q(2) wf(1)] .
  have st: "storable json_of_StoredPlan q"
    using plan_ok_parts [OF tx_inv_plan [OF tx_run_inv [OF assms(3) inv(2)] q(1)]] by simp
  have k: "js_get (tx_idempotency s2) ?k = Some e" using ext e(1) by (simp add: tx_extends_def)
  have "require s2 (pl_actor input) (pl_id p) = Inr q"
    using q(1) wf(2) reviewed_eqD [OF rev] e(6) assertNewPlan_returns(1) [OF assms(4)] assms(5)
    by (simp add: require_eq_Inr)
  then show ?thesis
    using assms(4-8) assertNewPlan_returns(3) [OF assms(4)] k e st q rev
    by (auto simp: create_def checkIdempotency_def ensure_def)
qed

theorem create_idempotent_witness:
  "\<exists>q. create admitAll (samplePlan ''p1'') (sampleIdem ''k1'') 1500 sampleS2 = (Inr q, sampleS2) \<and>
     js_get (tx_plans sampleS2) (pl_id (samplePlan ''p1'')) = Some q \<and> reviewed q = reviewed (samplePlan ''p1'')"
proof -
  have "assertIdempotency (sampleIdem ''k1'') = Inr ()"
    by (simp add: tx_defs sampleIdem_def isIdempotencyKey_def isControl_def code_def)
  then show ?thesis
    using create_idempotent [OF rtranclp.rtrancl_refl sample_create sample_reach(3) samplePlan_new refl, of admitAll
        "sampleIdem ''k1''"] by (simp add: admitAll_def)
qed

section \<open>Dispatching\<close>

text \<open>
  A dispatch is granted only under all its conditions: the account authority admitted the actor for
  the relay scope, the plan belongs to the actor and has the revision the caller saw, it has not expired
  at the time the claim is served, the fresh owner authorization (when there is one) is inside its window,
  every step it depends on is confirmed by a canonical successful receipt with a verified or unmodelled
  outcome, the step itself is not settled, its previous lease has run out, and the new lease ends within
  two minutes.
\<close>

lemma dispatch_conditions:
  assumes "claimSubmission g waited claim s = (Inr (q, True), s')"
  defines "now \<equiv> cl_now claim + waited"
  shows "\<exists>p call. js_get (tx_plans s) (cl_planId claim) = Some p \<and> pl_actor p = cl_actor claim \<and>
     g (cl_actor claim) [Relay] (cl_now claim div 1000) = Inr () \<and>
     pl_revision p = cl_expectedRevision claim \<and> now < pl_expiresAt p \<and>
     checkAuthorization (cl_authorization claim) now = Inr () \<and>
     js_at (dr_calls (pl_draft p)) (cl_stepIndex claim) = Some call \<and>
     (\<forall>d \<in> set (call_dependsOn call). dependencyMet p d) \<and>
     st_state (pl_steps p ! nat (cl_stepIndex claim)) \<notin> {Confirmed, Reverted} \<and>
     (case st_attempt (pl_steps p ! nat (cl_stepIndex claim)) of None \<Rightarrow> True
      | Some a \<Rightarrow> sameAttempt a (cl_attempt claim) \<and> at_leaseUntil a \<le> now) \<and>
     now < at_leaseUntil (cl_attempt claim) \<and> at_leaseUntil (cl_attempt claim) \<le> now + 120000"
proof -
  let ?c = "claim\<lparr>cl_now := cl_now claim + waited\<rparr>"
  from assms(1) obtain p changed where p: "js_get (tx_plans s) (cl_planId claim) = Some p" "pl_actor p = cl_actor claim"
    "g (cl_actor claim) [Relay] (cl_now claim div 1000) = Inr ()" "prepareClaim p ?c = Inr (q, True, changed)"
    by (rule claimSubmission_Inr)
  note r = prepareClaim_returns [OF p(4)] and d = prepareClaim_dispatched [OF p(4)]
  from d(5) obtain call where "pl_revision p = cl_expectedRevision claim" "now < pl_expiresAt p"
    "checkAuthorization (cl_authorization claim) now = Inr ()"
    "js_at (dr_calls (pl_draft p)) (cl_stepIndex claim) = Some call"
    "\<forall>d \<in> set (call_dependsOn call). dependencyMet p d"
    "now < at_leaseUntil (cl_attempt claim)" "at_leaseUntil (cl_attempt claim) \<le> now + 120000"
    unfolding grantDispatch_iff now_def by auto
  with p r(4) d(2-4) show ?thesis
    by (intro exI [of _ p] exI [of _ call]) (simp add: now_def split: option.split)
qed

text \<open>Every transition keeps the lease of a signed attempt, except a dispatch claim after it ran out.\<close>

definition lease_kept :: "SignedAttempt \<Rightarrow> StoredStep \<Rightarrow> bool" where
  "lease_kept a step \<longleftrightarrow>
     (\<exists>b. st_attempt step = Some b \<and> at_leaseToken b = at_leaseToken a \<and> at_leaseUntil b = at_leaseUntil a \<and>
        at_dispatchCount b = at_dispatchCount a)"

definition lease_renewed :: "StoredPlan \<Rightarrow> nat \<Rightarrow> SignedAttempt \<Rightarrow> StoredPlan \<Rightarrow> bool" where
  "lease_renewed p k a q \<longleftrightarrow>
     (\<exists>claim b. prepareClaim p claim = Inr (q, True, True) \<and> nat (cl_stepIndex claim) = k \<and>
        at_leaseUntil a \<le> cl_now claim \<and> st_attempt (pl_steps q ! k) = Some b \<and>
        at_leaseToken b \<noteq> at_leaseToken a \<and> cl_now claim < at_leaseUntil b \<and>
        at_leaseUntil b \<le> cl_now claim + 120000 \<and> at_dispatchCount b = at_dispatchCount a + 1)"

lemma attachExternalExecutions_unsigned:
  assumes "attachExternalExecutions p bindings = Inr q"
  shows "st_attempt (pl_steps q ! k) = st_attempt (pl_steps p ! k)"
proof -
  from assms obtain nxt c where f: "foldR (attachBinding p) bindings (p, False) = Inr (nxt, c)"
    and q: "q = p \<or> q = bumpRevision nxt"
    unfolding attachExternalExecutions_def by (auto simp: res_simps split: if_splits)
  have "\<forall>k. st_attempt (pl_steps (fst (nxt, c)) ! k) = st_attempt (pl_steps p ! k)"
  proof (rule foldR_invariant [OF f])
    fix b acc acc' assume "\<forall>k. st_attempt (pl_steps (fst acc) ! k) = st_attempt (pl_steps p ! k)"
      "attachBinding p b acc = Inr acc'"
    then show "\<forall>k. st_attempt (pl_steps (fst acc') ! k) = st_attempt (pl_steps p ! k)"
      by (cases acc; cases acc') (auto dest!: attachBinding_returns simp: nth_update_if)
  qed simp
  with q show ?thesis by auto
qed

lemma applyExternalObservations_unsigned:
  assumes "applyExternalObservations p bindingId updates = Inr q"
  shows "st_attempt (pl_steps q ! k) = st_attempt (pl_steps p ! k)"
proof -
  from assms obtain nxt where f: "foldR (applyObservation p bindingId) updates p = Inr nxt"
    and q: "q = p \<or> q = bumpRevision nxt"
    unfolding applyExternalObservations_def by (auto simp: res_simps split: if_splits)
  have "\<forall>k. st_attempt (pl_steps nxt ! k) = st_attempt (pl_steps p ! k)"
  proof (rule foldR_invariant [OF f])
    fix u s t assume "\<forall>k. st_attempt (pl_steps s ! k) = st_attempt (pl_steps p ! k)"
      "applyObservation p bindingId u s = Inr t"
    then show "\<forall>k. st_attempt (pl_steps t ! k) = st_attempt (pl_steps p ! k)"
      by (elim applyObservation_returns) (auto simp: nth_update_if observedStep_def)
  qed simp
  with q show ?thesis by auto
qed

lemma prepareClaim_lease:
  assumes "prepareClaim p claim = Inr (q, dispatch, changed)" and k: "st_attempt (pl_steps p ! k) = Some a"
  shows "lease_kept a (pl_steps q ! k) \<or> lease_renewed p k a q"
proof (cases "k = nat (cl_stepIndex claim) \<and> changed")
  case False
  then have "pl_steps q ! k = pl_steps p ! k"
    using prepareClaim_keeps(1) [OF assms(1), of k] prepareClaim_unchanged [of p claim q dispatch] assms(1)
    by (cases changed) auto
  with k show ?thesis by (simp add: lease_kept_def)
next
  case True
  then have ch: "changed = True" and kk: "k = nat (cl_stepIndex claim)" by auto
  have "dispatch"
    using prepareClaim_recorded(1) [of p claim q] assms k ch kk by (cases dispatch) auto
  with assms(1) ch have pc: "prepareClaim p claim = Inr (q, True, True)" by simp
  note d = prepareClaim_dispatched [OF pc]
  have "nat (cl_stepIndex claim) < length (pl_steps p)" using prepareClaim_returns(2) [OF assms(1)] .
  with d(5) k kk have "st_attempt (pl_steps q ! k) = Some (renewAttempt (Some a) (cl_attempt claim)) \<and>
      at_leaseToken (cl_attempt claim) \<noteq> at_leaseToken a \<and> cl_now claim < at_leaseUntil (cl_attempt claim) \<and>
      at_leaseUntil (cl_attempt claim) \<le> cl_now claim + 120000"
    unfolding grantDispatch_iff by auto
  then show ?thesis
    unfolding lease_renewed_def using pc kk d(4) k by (auto simp: renewAttempt_def)
qed

lemma lease_step:
  assumes "plan_change p q" and "plan_wf p" and "k < length (pl_steps p)" and "st_attempt (pl_steps p ! k) = Some a"
  shows "lease_kept a (pl_steps q ! k) \<or> lease_renewed p k a q"
  using assms
proof (induction rule: plan_change.induct)
  case (Claim p claim q dispatch changed)
  then show ?case using prepareClaim_lease by blast
next
  case (Settle p index token patch q)
  show ?case
  proof (cases "q = p")
    case False
    with Settle.hyps obtain b where "st_attempt (pl_steps p ! nat index) = Some b"
      "q = bumpRevision (replaceStep p index ((pl_steps p ! nat index)
        \<lparr>st_state := settledState (pl_steps p ! nat index) patch, st_attempt := Some (settledAttempt b patch)\<rparr>))"
      using settle_returns by blast
    with Settle.prems show ?thesis
      by (auto simp: lease_kept_def nth_update_if settledAttempt_def)
  qed (use Settle in \<open>simp add: lease_kept_def\<close>)
next
  case (Attach p bindings q)
  show ?case using attachExternalExecutions_unsigned [OF Attach.hyps] Attach.prems by (simp add: lease_kept_def)
next
  case (Observe p bindingId updates q)
  show ?case using applyExternalObservations_unsigned [OF Observe.hyps] Observe.prems by (simp add: lease_kept_def)
next
  case (Save p steps)
  have "(int k, steps ! k) \<in> set (indexed steps)"
    using Save by (auto simp: assertSavedSteps_def res_simps set_zip intro!: exI [of _ k])
  with Save.hyps have "st_attempt (steps ! k) = st_attempt (pl_steps p ! k)"
    unfolding assertSavedSteps_def by (force simp: res_simps Let_def)
  with Save.prems show ?case by (simp add: lease_kept_def)
qed

text \<open>So the end of a lease never moves back.\<close>

lemma lease_history:
  assumes "plan_change\<^sup>*\<^sup>* p q" and "plan_wf p" and k: "k < length (pl_steps p)" and "st_attempt (pl_steps p ! k) = Some a"
  shows "\<exists>b. st_attempt (pl_steps q ! k) = Some b \<and> at_leaseUntil a \<le> at_leaseUntil b"
  using assms(1)
proof (induction rule: rtranclp_induct)
  case (step q r)
  then obtain b where b: "st_attempt (pl_steps q ! k) = Some b" "at_leaseUntil a \<le> at_leaseUntil b" by blast
  have "plan_wf q" using plan_history.history_wf [OF step(1) assms(2)] .
  moreover have "k < length (pl_steps q)" using plan_history_steps [OF step(1) assms(2)] k by (simp add: list_all2_lengthD)
  ultimately consider "lease_kept b (pl_steps r ! k)" | "lease_renewed q k b r" using lease_step [OF step(2) _ _ b(1)] by blast
  then show ?case using b(2) by cases (auto simp: lease_kept_def lease_renewed_def)
qed (use assms(4) in simp)

text \<open>
  C9. Leases exclude each other: whatever happens to a plan, the lease of a signed step (token, end and
  dispatch count) stays as it is, or a dispatch claim that arrived when the lease had already run out
  replaced it by a new one with another token, that ends within two minutes of that claim. So no two
  callers ever hold an unexpired lease on the same step.
\<close>

theorem lease_exclusive:
  assumes "plan_change p q" and "plan_wf p" and "k < length (pl_steps p)" and "st_attempt (pl_steps p ! k) = Some a"
  shows "lease_kept a (pl_steps q ! k) \<or> lease_renewed p k a q"
  using assms by (rule lease_step)

definition samplePatch :: SubmissionPatch where
  "samplePatch = \<lparr>pa_state = Submitted, pa_broadcastAt = Some 2500, pa_lastError = None\<rparr>"

definition sampleSettled :: StoredPlan where
  "sampleSettled = bumpRevision (replaceStep sampleDispatched 0
     ((pl_steps sampleDispatched ! 0)\<lparr>st_state := Submitted,
        st_attempt := Some ((sampleAttempt ''t1'')\<lparr>at_dispatchCount := 1, at_broadcastAt := Some 2500\<rparr>)\<rparr>))"

lemma sample_settle: "settle sampleDispatched 0 ''t1'' samplePatch = Inr sampleSettled"
proof -
  have "storable json_of_StoredPlan sampleSettled"
    by (rule storable_bound)
      (simp_all add: sampleSettled_def sampleDispatched_def sample_defs json_defs replaceStep_def bumpRevision_def)
  moreover have "settledState (pl_steps sampleDispatched ! 0) samplePatch = Submitted"
    "settledAttempt ((sampleAttempt ''t1'')\<lparr>at_dispatchCount := 1\<rparr>) samplePatch =
       (sampleAttempt ''t1'')\<lparr>at_dispatchCount := 1, at_broadcastAt := Some 2500\<rparr>"
    by (simp_all add: settledState_def settledAttempt_def samplePatch_def sampleDispatched_def samplePlan_def
        sampleStep_def sampleAttempt_def)
  moreover have "pl_steps sampleDispatched = [(sampleStep 0)\<lparr>st_attempt := Some ((sampleAttempt ''t1'')\<lparr>at_dispatchCount := 1\<rparr>),
      st_state := Reserved\<rparr>, sampleStep 1]"
    by (simp add: sampleDispatched_def samplePlan_def)
  moreover have "at_leaseToken (sampleAttempt ''t1'') = ''t1''" "at_broadcastAt (sampleAttempt ''t1'') = None"
    by (simp_all add: sampleAttempt_def)
  moreover have "assertPatch samplePatch = Inr ()" "assertText ''t1'' = Inr ()" "pa_lastError samplePatch = None"
    by (simp_all add: assertPatch_def samplePatch_def tx_defs isSafeInteger_def MAX_SAFE_INTEGER_def isControl_def code_def)
  moreover have "(sampleStep 0)\<lparr>st_state := Submitted, st_attempt := x\<rparr> \<noteq>
      (sampleStep 0)\<lparr>st_attempt := y, st_state := Reserved\<rparr>" for x y
    by (simp add: sampleStep_def)
  ultimately show ?thesis
    using sampleDispatched_storable
    by (simp add: settle_def Let_def isSafeInteger_def MAX_SAFE_INTEGER_def sampleSettled_def)
qed

lemma sampleDispatched_wf: "plan_wf sampleDispatched"
  using tx_inv_plan [OF reach_inv [OF sample_reach(2)], of "''p1''" sampleDispatched]
  by (simp add: sampleS2_def plan_ok_def)

theorem lease_exclusive_witness:
  "lease_kept ((sampleAttempt ''t1'')\<lparr>at_dispatchCount := 1\<rparr>) (pl_steps sampleSettled ! 0) \<or>
   lease_renewed sampleDispatched 0 ((sampleAttempt ''t1'')\<lparr>at_dispatchCount := 1\<rparr>) sampleSettled"
  by (rule lease_exclusive [OF plan_change.Settle [OF sample_settle] sampleDispatched_wf])
    (simp_all add: sampleDispatched_def samplePlan_def)

text \<open>
  A late answer of the network cannot undo what was reconciled: settling a dispatch whose lease token
  is not the current one changes nothing, and settling with the current token keeps receipt and semantic
  outcome of every step, keeps the state of a step that has a receipt or is confirmed, confirming,
  reverted or reorged, and leaves every other step alone.
\<close>

lemma settle_keeps_evidence:
  assumes "settle plan index token patch = Inr q"
  shows "(map_option at_leaseToken (st_attempt (pl_steps plan ! nat index)) \<noteq> Some token \<longrightarrow> q = plan) \<and>
    (\<forall>k. st_receipt (pl_steps q ! k) = st_receipt (pl_steps plan ! k) \<and>
       st_semantic (pl_steps q ! k) = st_semantic (pl_steps plan ! k) \<and>
       (st_receipt (pl_steps plan ! k) \<noteq> None \<or>
          st_state (pl_steps plan ! k) \<in> {Confirmed, Reverted, Confirming, Reorged} \<longrightarrow>
        st_state (pl_steps q ! k) = st_state (pl_steps plan ! k)) \<and>
       (k \<noteq> nat index \<longrightarrow> pl_steps q ! k = pl_steps plan ! k))"
proof (cases "q = plan")
  case False
  then obtain a where "st_attempt (pl_steps plan ! nat index) = Some a" "at_leaseToken a = token"
    "q = bumpRevision (replaceStep plan index ((pl_steps plan ! nat index)
      \<lparr>st_state := settledState (pl_steps plan ! nat index) patch, st_attempt := Some (settledAttempt a patch)\<rparr>))"
    using settle_returns [OF assms] by blast
  then show ?thesis by (auto simp: nth_update_if settledState_def)
qed simp

text \<open>
  C10. What was reviewed never changes and the revision tells whether anything did: along every run the
  plan under an id keeps its draft, commitment, owner, expiry and smart account, its revision never
  decreases, and if the revision is still the one a caller read then the whole plan is exactly what the
  caller read. This is what makes \<^verbatim>\<open>expectedRevision\<close> a sound compare-and-swap.
\<close>

theorem revision_sound:
  assumes "tx_step\<^sup>*\<^sup>* emptyTxStore s" and "tx_step\<^sup>*\<^sup>* s s'" and "js_get (tx_plans s) i = Some p"
  shows "\<exists>q. js_get (tx_plans s') i = Some q \<and> reviewed q = reviewed p \<and> pl_revision p \<le> pl_revision q \<and>
     (pl_revision q = pl_revision p \<longrightarrow> q = p)"
proof -
  obtain q where q: "js_get (tx_plans s') i = Some q" "plan_change\<^sup>*\<^sup>* p q" "plan_wf p"
    using run_plan [OF assms] .
  then show ?thesis
    using plan_history.history_identity plan_history.history_revision plan_history.revision_determines by fastforce
qed

theorem revision_sound_witness:
  "\<exists>q. js_get (tx_plans sampleS2) ''p1'' = Some q \<and> reviewed q = reviewed (samplePlan ''p1'') \<and>
     pl_revision (samplePlan ''p1'') \<le> pl_revision q \<and>
     (pl_revision q = pl_revision (samplePlan ''p1'') \<longrightarrow> q = samplePlan ''p1'')"
  by (rule revision_sound [OF sample_reach(1,3)]) (simp add: sampleS1_def)

text \<open>
  C11. Confirmation is proven: in every reachable state, a step that runs through an external transport
  and counts as confirmed carries a canonical successful receipt of exactly the transaction recorded
  for that execution.
\<close>

theorem confirmed_is_proven:
  assumes "tx_step\<^sup>*\<^sup>* emptyTxStore s" and "js_get (tx_plans s) i = Some p" and "k < length (pl_steps p)"
    and "st_externalExecution (pl_steps p ! k) = Some e" and "st_state (pl_steps p ! k) = Confirmed"
  shows "\<exists>r h. st_receipt (pl_steps p ! k) = Some r \<and> rc_canonical r \<and> rc_status r = Success \<and>
     ex_transactionHash e = Some h \<and> same (rc_transactionHash r) h"
  using plan_evidence_nth [OF _ assms(3)] plan_ok_parts [OF tx_inv_plan [OF reach_inv [OF assms(1)] assms(2)]] assms(4,5)
  by (auto simp: step_evidence_def)

text \<open>The sample plan run through Relayr: another store claims the step, the plan follows.\<close>

definition sampleBound :: Reservations where
  "sampleBound = [(''p1'', [(0, \<lparr>rv_transport = Relayr, rv_bindingId = ''b1''\<rparr>)])]"

definition externalStep :: "StepState \<Rightarrow> string option \<Rightarrow> StoredReceipt option \<Rightarrow> StoredStep" where
  "externalStep state h r = \<lparr>st_index = 0, st_state = state, st_attempt = None,
     st_externalExecution = Some \<lparr>ex_transport = Relayr, ex_bindingId = ''b1'', ex_chainId = 1, ex_transactionHash = h\<rparr>,
     st_receipt = r, st_semantic = None\<rparr>"

definition sampleReceipt :: StoredReceipt where
  "sampleReceipt = \<lparr>rc_transactionHash = hex64 CHR ''e'', rc_blockHash = hex64 CHR ''f'', rc_blockNumber = ''12'',
     rc_status = Success, rc_confirmations = 3, rc_canonical = True, rc_observedAt = 5000, rc_logs = [],
     rc_logCount = None, rc_logsHash = None, rc_logsStored = None\<rparr>"

definition sampleUpdate :: ExternalStepObservation where
  "sampleUpdate = \<lparr>ob_index = 0, ob_state = Confirmed, ob_transactionHash = Some (hex64 CHR ''e''),
     ob_receipt = Some sampleReceipt, ob_semantic = None\<rparr>"

definition attachedPlan :: StoredPlan where
  "attachedPlan = bumpRevision (replaceStep (samplePlan ''p1'') 0 (externalStep Reserved None None))"

definition confirmedPlan :: StoredPlan where
  "confirmedPlan = bumpRevision (replaceStep attachedPlan 0
     (externalStep Confirmed (Some (hex64 CHR ''e'')) (Some sampleReceipt)))"

lemma external_storable:
  "storable json_of_StoredPlan attachedPlan" "storable json_of_StoredPlan confirmedPlan"
  "storable json_of_StoredReceipt sampleReceipt"
  by (rule storable_bound; simp add: attachedPlan_def confirmedPlan_def externalStep_def sampleReceipt_def
      sample_defs json_defs replaceStep_def bumpRevision_def)+

lemma sample_attach:
  "attachExternalExecutions (samplePlan ''p1'') [\<lparr>tr_stepIndex = 0, tr_transport = Relayr, tr_bindingId = ''b1''\<rparr>] =
     Inr attachedPlan"
proof -
  have "attachBinding (samplePlan ''p1'') \<lparr>tr_stepIndex = 0, tr_transport = Relayr, tr_bindingId = ''b1''\<rparr>
      (samplePlan ''p1'', False) = Inr (replaceStep (samplePlan ''p1'') 0 (externalStep Reserved None None), True)"
    by (simp add: attachBinding_def assertExternalIndexes_def samplePlan_def sampleStep_def maximumSteps_def
        isSafeInteger_def MAX_SAFE_INTEGER_def js_at_def js_must_def sampleCall_def externalStep_def
        assertTextMax_def isControl_def code_def)
  then show ?thesis
    using samplePlan_storable [of "''p1''"] external_storable(1)
    by (simp add: attachExternalExecutions_def attachedPlan_def)
qed

lemma sample_observe: "applyExternalObservations attachedPlan ''b1'' [sampleUpdate] = Inr confirmedPlan"
proof -
  have steps: "pl_steps attachedPlan = [externalStep Reserved None None, sampleStep 1]"
    "dr_calls (pl_draft attachedPlan) = [sampleCall [], sampleCall [0]]"
    by (simp_all add: attachedPlan_def samplePlan_def)
  have "checkReceipt sampleUpdate = Inr ()"
    by (simp add: checkReceipt_def sampleUpdate_def sampleReceipt_def hex64_def hexOf_def list_all_iff isHexDigit_def
        isDigit_def code_def isDecimal_def bigInt_def isSafeInteger_def MAX_SAFE_INTEGER_def assertTime_def)
  then have "applyObservation attachedPlan ''b1'' sampleUpdate attachedPlan =
      Inr (replaceStep attachedPlan 0 (externalStep Confirmed (Some (hex64 CHR ''e'')) (Some sampleReceipt)))"
    using external_storable(3)
    by (simp add: applyObservation_def steps sampleUpdate_def externalStep_def js_at_def js_must_def sampleCall_def
        hexOf_def hex64_def list_all_iff isHexDigit_def isDigit_def code_def)
       (simp add: sampleReceipt_def)
  moreover have "assertText ''b1'' = Inr ()" "assertExternalIndexes attachedPlan (map ob_index [sampleUpdate]) = Inr ()"
    by (simp_all add: assertTextMax_def isControl_def code_def assertExternalIndexes_def steps sampleUpdate_def
        maximumSteps_def isSafeInteger_def MAX_SAFE_INTEGER_def)
  moreover have "pl_steps (replaceStep attachedPlan 0 (externalStep Confirmed (Some (hex64 CHR ''e'')) (Some sampleReceipt)))
      \<noteq> pl_steps attachedPlan"
    by (simp add: steps externalStep_def)
  ultimately show ?thesis
    using external_storable(1,2) by (simp add: applyExternalObservations_def confirmedPlan_def)
qed

definition sampleS3 :: TxStore where
  "sampleS3 = sampleS1\<lparr>tx_transports := sampleBound, tx_plans := [(''p1'', confirmedPlan)]\<rparr>"

lemma sample_external_run: "tx_step\<^sup>*\<^sup>* emptyTxStore sampleS3"
proof -
  have t: "claim_transport ''p1'' [0] Relayr ''b1'' (tx_transports sampleS1) = (Inr (), sampleBound)"
    by (simp add: claim_transport_def transport_parameters_def current_of_def tx_defs isControl_def code_def
        sampleS1_def sampleBound_def maximumSteps_def isSafeInteger_def MAX_SAFE_INTEGER_def)
  have actor: "assertActor alice = Inr ()" "assertText ''p1'' = Inr ()" "pl_actor (samplePlan ''p1'') = alice"
    by (simp_all add: tx_defs alice_def isControl_def code_def samplePlan_def)
  then have actor': "pl_actor attachedPlan = alice" "pl_revision attachedPlan = 1" "pl_revision (samplePlan ''p1'') = 0"
    "pl_revision confirmedPlan = 2" "length (pl_steps (samplePlan ''p1'')) = 2" "js_at (pl_steps attachedPlan) 0 = Some (externalStep Reserved None None)"
    by (simp_all add: attachedPlan_def samplePlan_def confirmedPlan_def js_at_def)
  have claimed: "assertClaimed ''p1'' [0] Relayr ''b1'' sampleBound = Inr ()"
    by (simp add: assertClaimed_def transport_parameters_def current_of_def tx_defs isControl_def code_def
        sampleBound_def maximumSteps_def isSafeInteger_def MAX_SAFE_INTEGER_def transport_matches_def)
  have ob: "ob_index sampleUpdate = 0" "st_externalExecution (externalStep Reserved None None) =
      Some \<lparr>ex_transport = Relayr, ex_bindingId = ''b1'', ex_chainId = 1, ex_transactionHash = None\<rparr>"
    by (simp_all add: sampleUpdate_def externalStep_def)
  have r: "reserveExternalExecution alice ''p1'' [0] ''b1'' (sampleS1\<lparr>tx_transports := sampleBound\<rparr>) =
      (Inr attachedPlan, sampleS1\<lparr>tx_transports := sampleBound, tx_plans := [(''p1'', attachedPlan)]\<rparr>)"
    using external_storable(1)
    by (simp add: reserveExternalExecution_def require_def sampleS1_def actor actor' assertExternalIndexes_def claimed
        sample_attach commitPlan_def maximumSteps_def isSafeInteger_def MAX_SAFE_INTEGER_def)
  have u: "saveExternalExecution alice ''p1'' 1 ''b1'' [sampleUpdate]
      (sampleS1\<lparr>tx_transports := sampleBound, tx_plans := [(''p1'', attachedPlan)]\<rparr>) = (Inr confirmedPlan, sampleS3)"
    using external_storable(2) claimed
    by (simp add: saveExternalExecution_def assertRevision_def isSafeInteger_def MAX_SAFE_INTEGER_def require_def
        sampleS1_def sampleS3_def actor actor' ob sample_observe js_must_def commitPlan_def)
  show ?thesis
    using sample_reach(1) tx_step.OtherStore [OF t] tx_step.ReserveExternal [OF r] tx_step.SaveExternal [OF u]
    by (meson rtranclp.rtrancl_into_rtrancl)
qed

theorem confirmed_is_proven_witness:
  "\<exists>r h. st_receipt (pl_steps confirmedPlan ! 0) = Some r \<and> rc_canonical r \<and> rc_status r = Success \<and>
     Some (hex64 CHR ''e'') = Some h \<and> same (rc_transactionHash r) h"
  using confirmed_is_proven [OF sample_external_run, of "''p1''" confirmedPlan 0]
  by (simp add: sampleS3_def confirmedPlan_def attachedPlan_def samplePlan_def externalStep_def)

section \<open>Reading\<close>

text \<open>
  C12. Pages are complete: a page holds the first rows of the listing, newest first, of plans the actor
  may read; without a next cursor it is the whole listing, and with one, the page followed by the listing after its last plan is the whole listing: nothing is skipped and nothing
  appears twice. The next cursor reads back as that last plan exactly if it has at most 512 characters, and is refused otherwise; it is never longer when the identifier of
  the plan has no quotes, backslashes or control characters.
\<close>

theorem list_pages:
  assumes "tx_step\<^sup>*\<^sup>* emptyTxStore s" and "decodeCursor cursorValue = Inr cursor"
    and "list_plans actor account limit cursorValue s = Inr (items, nextCursor)"
  shows "items = take (nat limit) (listRows actor account cursor s) \<and>
    sorted_wrt (\<lambda>a b. older (cursorOf b) (cursorOf a)) items \<and>
    set (listRows actor account cursor s) =
      {p \<in> set (js_values (tx_plans s)). canRead p actor \<and> inAccount account p \<and> before cursor (cursorOf p)} \<and>
    (case nextCursor of None \<Rightarrow> items = listRows actor account cursor s
     | Some c \<Rightarrow> items \<noteq> [] \<and> listRows actor account cursor s = items @ listRows actor account (Some (cursorOf (last items))) s \<and>
         decodeCursor (Some c) = (if length c \<le> 512 then Inr (Some (cursorOf (last items))) else Inl (invalid ''Invalid transaction cursor.'')) \<and>
         (plainText (pl_id (last items)) \<longrightarrow> length c \<le> 512))"
proof -
  let ?rows = "listRows actor account cursor s" and ?n = "nat limit"
  have inv: "tx_inv s" using reach_inv [OF assms(1)] .
  have lim: "0 < ?n" and items: "items = take ?n ?rows"
    and nc: "nextCursor = (if int (length ?rows) > limit then Some (encodeCursor (cursorOf (last items))) else None)"
    using assms(2,3) by (auto simp: list_plans_def Let_def res_simps assertLimit_def)
  have sorted: "sorted_wrt (\<lambda>a b. older (cursorOf b) (cursorOf a)) items"
    unfolding items by (rule sorted_wrt_take [OF listRows_strict [OF inv]])
  have "items \<noteq> [] \<and> ?rows = items @ listRows actor account (Some (cursorOf (last items))) s \<and>
      decodeCursor (Some c) = (if length c \<le> 512 then Inr (Some (cursorOf (last items))) else Inl (invalid ''Invalid transaction cursor.'')) \<and>
      (plainText (pl_id (last items)) \<longrightarrow> length c \<le> 512)"
    if c: "nextCursor = Some c" for c
  proof -
    have n: "?n < length ?rows" and cc: "c = encodeCursor (cursorOf (last items))"
      using nc c lim by (auto split: if_splits)
    have last: "last items = ?rows ! (?n - 1)"
      using n lim unfolding items by (subst last_conv_nth) auto
    have mem: "last items \<in> set items" using n lim unfolding items by (intro last_in_set) auto
    then have "last items \<in> set (js_values (tx_plans s))"
      using set_take_subset [of ?n ?rows] by (auto simp: items set_listRows)
    then obtain i where "js_get (tx_plans s) i = Some (last items)"
      using inv js_values_get [of "tx_plans s" "last items"] by (auto simp: tx_inv_def)
    then have ok: "assertText (pl_id (last items)) = Inr ()" "assertTime (pl_createdAt (last items)) = Inr ()"
      using tx_inv_plan [OF inv] by (auto simp: plan_ok_def)
    have "decodeCursor (Some c) = Inr (Some (cursorOf (last items)))" if "length c \<le> 512"
      unfolding decodeCursor_eq_Inr using ok cc that by simp
    moreover have "decodeCursor (Some c) = Inl (invalid ''Invalid transaction cursor.'')" if "\<not> length c \<le> 512"
      using that by (simp add: decodeCursor_def bindR_def ensure_def)
    moreover have "plainText (pl_id (last items)) \<longrightarrow> length c \<le> 512" using encodeCursor_short [of "cursorOf (last items)"] ok cc by simp
    moreover have "?rows = items @ listRows actor account (Some (cursorOf (last items))) s"
      using listRows_rest [OF inv lim n] last by (simp add: items)
    ultimately show ?thesis using mem by auto
  qed
  moreover have "items = ?rows" if "nextCursor = None"
    using nc that lim by (auto simp: items split: if_splits)
  ultimately show ?thesis using items sorted set_listRows by (cases nextCursor) simp_all
qed

definition sampleListed :: TxStore where
  "sampleListed = sampleS1\<lparr>tx_plans := [(''p1'', samplePlan ''p1''), (''p2'', samplePlan ''p2'')],
     tx_idempotency := [(idemKey alice ''k1'', storedIdempotency alice (sampleIdem ''k1'') ''p1'' None), (idemKey alice ''k3'', storedIdempotency alice (sampleIdem ''k3'') ''p2'' None)]\<rparr>"

lemma sample_create_second: "create admitAll (samplePlan ''p2'') (sampleIdem ''k3'') 1500 sampleS1 = (Inr (samplePlan ''p2''), sampleListed)"
proof -
  have new: "assertNewPlan (samplePlan ''p2'') 1500 = Inr ()"
    using samplePlan_storable [of "''p2''"]
    by (simp add: assertNewPlan_def tx_defs isSafeInteger_def MAX_SAFE_INTEGER_def sample_defs
        hexOf_def list_all_iff isControl_def code_def maximumSteps_def upt_rec isHexDigit_def isDigit_def)
  show ?thesis
    using samplePlan_storable [of "''p2''"] new
    by (simp add: create_def sampleS1_def sampleListed_def checkIdempotency_def tx_defs isIdempotencyKey_def
        reserveIdempotency_def assertIdempotencyCapacity_def admitAll_def isControl_def code_def count_values_def
        plansPerAccount_def idempotencyPerAccount_def samplePlan_def [of "''p2''"] sampleIdem_def)
qed

lemma samplePlan_fields: "pl_id (samplePlan i) = i" "pl_actor (samplePlan i) = alice" "pl_createdAt (samplePlan i) = 1000"
  by (simp_all add: samplePlan_def)

lemma sampleListed_rows: "length (listRows alice None None sampleListed) = 2" "set (listRows alice None None sampleListed) = {samplePlan ''p1'', samplePlan ''p2''}"
proof -
  have r: "canRead (samplePlan i) alice" "inAccount None (samplePlan i)" "before None (cursorOf (samplePlan i))" for i
    by (simp_all add: canRead_def owns_def inAccount_def before_def samplePlan_fields)
  have t: "tx_plans sampleListed = [(''p1'', samplePlan ''p1''), (''p2'', samplePlan ''p2'')]" by (simp add: sampleListed_def)
  show "length (listRows alice None None sampleListed) = 2" unfolding listRows_def length_sort_by t by (simp add: r)
  show "set (listRows alice None None sampleListed) = {samplePlan ''p1'', samplePlan ''p2''}" unfolding listRows_def set_sort_by t by (simp add: r)
qed

theorem list_pages_witness:
  "\<exists>item c. list_plans alice None 1 None sampleListed = Inr ([item], Some c) \<and> item \<in> {samplePlan ''p1'', samplePlan ''p2''} \<and>
     decodeCursor (Some c) = Inr (Some (cursorOf item)) \<and> listRows alice None None sampleListed = item # listRows alice None (Some (cursorOf item)) sampleListed"
proof -
  have reach: "tx_step\<^sup>*\<^sup>* emptyTxStore sampleListed" using sample_reach(1) tx_step.Create [OF sample_create_second] by (rule rtranclp.rtrancl_into_rtrancl)
  note rows = sampleListed_rows
  from rows(1) have "length (listRows alice None None sampleListed) = Suc (Suc 0)" by simp
  then obtain a b where ab: "listRows alice None None sampleListed = [a, b]" unfolding length_Suc_conv length_0_conv by blast
  have ok: "assertActor alice = Inr ()" "assertLimit 1 = Inr ()" by (simp_all add: tx_defs alice_def isControl_def code_def isSafeInteger_def MAX_SAFE_INTEGER_def)
  have l: "list_plans alice None 1 None sampleListed = Inr ([a], Some (encodeCursor (cursorOf a)))"
    by (simp add: list_plans_def ok decodeCursor_def ab)
  note pages = list_pages [OF reach _ l, of None]
  have a: "a \<in> {samplePlan ''p1'', samplePlan ''p2''}" using rows(2) ab by auto
  then have "plainText (pl_id a)" by (auto simp: samplePlan_fields plainText_def code_def)
  then show ?thesis using pages l a ab by (simp add: decodeCursor_def [of None])
qed

text \<open>
  Cursors round-trip: the cursor of a stored plan (a valid time, an identifier without quotes and
  backslashes) decodes to exactly that position, and whatever \<^verbatim>\<open>decodeCursor\<close> accepts is the encoding of
  what it returns, so a position has one cursor only.
\<close>

lemma cursor_roundtrip:
  assumes "assertTime (cu_createdAt c) = Inr ()" and "assertText (cu_id c) = Inr ()" and "plainText (cu_id c)"
  shows "decodeCursor (Some (encodeCursor c)) = Inr (Some c) \<and>
    (\<forall>t. decodeCursor (Some t) = Inr (Some c) \<longrightarrow> t = encodeCursor c)"
  using assms encodeCursor_short [OF assms] by (auto simp: decodeCursor_eq_Inr)

text \<open>Recovery discovery.\<close>

lemma mapR_pairs:
  assumes "mapR (\<lambda>x. bindR (f x) (\<lambda>r. Inr (x, r))) xs = Inr ys"
  shows "map fst ys = xs \<and> (\<forall>x \<in> set xs. \<exists>r. f x = Inr r) \<and> (\<forall>(x, r) \<in> set ys. f x = Inr r)"
  using assms by (induction xs arbitrary: ys) (auto simp: res_simps)

text \<open>
  Recovery finds everything: with a page at least as long as the store, \<^verbatim>\<open>recoverable\<close> returns, oldest
  first, exactly the plans with a step that is still in flight (reserved, submitted, unknown, confirming,
  reorged, or confirmed with an open outcome) or with an admitted external reservation that its step does
  not show yet.
\<close>

lemma recoverable_complete:
  assumes "tx_step\<^sup>*\<^sup>* emptyTxStore s" and "recoverable limit None s = Inr xs"
    and "int (length (tx_plans s)) \<le> limit"
  shows "set xs = {p \<in> set (js_values (tx_plans s)). isRecoverable p \<or>
      (\<exists>b. boundTo (tx_transports s) (pl_id p) (tr_stepIndex b) = Some (tr_transport b, tr_bindingId b) \<and> unattached p b)} \<and>
    sorted_wrt (\<lambda>a b. older_eq (cursorOf a) (cursorOf b)) xs"
proof -
  have inv: "tx_inv s" using reach_inv [OF assms(1)] .
  have wf: "transports_wf (tx_transports s)" using inv by (simp add: tx_inv_def)
  obtain marked where m: "mapR (\<lambda>plan. bindR (needsRecovery s plan) (\<lambda>r. Inr (plan, r))) (js_values (tx_plans s)) = Inr marked"
    and xs: "xs = take (nat limit) (sort_by (\<lambda>a b. older_eq (cursorOf a) (cursorOf b)) (map fst (filter snd marked)))"
    using assms(2) by (auto simp: recoverable_def res_simps decodeCursor_def)
  note mp = mapR_pairs [OF m]
  have need: "r \<longleftrightarrow> isRecoverable p \<or> (\<exists>b. boundTo (tx_transports s) (pl_id p) (tr_stepIndex b) =
      Some (tr_transport b, tr_bindingId b) \<and> unattached p b)" if "needsRecovery s p = Inr r" for p r
    using that list_transports_iff [OF _ wf, of "pl_id p"]
    by (auto simp: needsRecovery_def res_simps list_ex_iff split: if_splits)
  have "length (map fst (filter snd marked)) \<le> length (tx_plans s)"
    using mapR_length [OF m] length_filter_le [of snd marked] by simp
  then have all: "xs = sort_by (\<lambda>a b. older_eq (cursorOf a) (cursorOf b)) (map fst (filter snd marked))"
    using assms(3) by (simp add: xs)
  have "set xs = {p. (p, True) \<in> set marked}" by (auto simp: all image_iff)
  also have "\<dots> = {p \<in> set (js_values (tx_plans s)). needsRecovery s p = Inr True}"
  proof -
    have "set (js_values (tx_plans s)) = fst ` set marked" using mp by (metis set_map)
    moreover have "needsRecovery s p = Inr r" if "(p, r) \<in> set marked" for p r using mp that by blast
    ultimately show ?thesis by force
  qed
  also have "\<dots> = {p \<in> set (js_values (tx_plans s)). isRecoverable p \<or>
      (\<exists>b. boundTo (tx_transports s) (pl_id p) (tr_stepIndex b) = Some (tr_transport b, tr_bindingId b) \<and> unattached p b)}"
  proof -
    have "needsRecovery s p = Inr True \<longleftrightarrow> isRecoverable p \<or> (\<exists>b. boundTo (tx_transports s) (pl_id p) (tr_stepIndex b) =
      Some (tr_transport b, tr_bindingId b) \<and> unattached p b)" if p: "p \<in> set (js_values (tx_plans s))" for p
    proof -
      obtain r where "needsRecovery s p = Inr r" using mp p by blast
      with need [OF this] show ?thesis by simp
    qed
    then show ?thesis by blast
  qed
  finally have "set xs = \<dots>" .
  moreover have "sorted_wrt (\<lambda>a b. older_eq (cursorOf a) (cursorOf b)) xs"
    unfolding all by (rule sorted_sort_by) (use older_eq_total older_eq_trans in blast)+
  ultimately show ?thesis by blast
qed

text \<open>
  Quotas hold: in every reachable state no account has more than 10000 plans or 10000 idempotency
  keys, whatever sequence of operations led there.
\<close>

lemma quotas_hold:
  assumes "tx_step\<^sup>*\<^sup>* emptyTxStore s"
  shows "count_values (\<lambda>p. accountId (pl_actor p) = account) (tx_plans s) \<le> 10000 \<and>
    count_values (\<lambda>e. si_accountId e = account) (tx_idempotency s) \<le> 10000"
  using reach_inv [OF assms] by (simp add: tx_inv_def within_capacity_def plansPerAccount_def idempotencyPerAccount_def)

lemma attachBinding_attaches:
  assumes "attachBinding p b (nxt, c) = Inr (nxt', c')" and "tr_transport b \<noteq> Direct"
    and "length (pl_steps nxt) = length (pl_steps p)"
  shows "0 \<le> tr_stepIndex b \<and> nat (tr_stepIndex b) < length (pl_steps p) \<and>
     st_externalExecution (pl_steps nxt' ! nat (tr_stepIndex b)) \<noteq> None"
proof -
  have t: "tr_transport b = Relayr \<or> tr_transport b = Erc4337" using assms(2) by (cases "tr_transport b") auto
  then have i: "0 \<le> tr_stepIndex b \<and> nat (tr_stepIndex b) < length (pl_steps p)"
    using assms(1) by (auto simp: attachBinding_def Let_def res_simps assertExternalIndexes_def)
  show ?thesis
  proof (cases "st_externalExecution (pl_steps nxt ! nat (tr_stepIndex b))")
    case None
    with assms(1,3) t i show ?thesis by (auto simp: attachBinding_def Let_def res_simps)
  next
    case (Some e)
    with assms(1) t i show ?thesis by (auto simp: attachBinding_def Let_def res_simps)
  qed
qed

lemma attachBinding_mono:
  assumes "attachBinding p b (nxt, c) = Inr (nxt', c')"
  shows "length (pl_steps nxt') = length (pl_steps nxt) \<and> (\<not> c' \<longrightarrow> \<not> c \<and> nxt' = nxt) \<and>
     (\<forall>k. st_externalExecution (pl_steps nxt ! k) \<noteq> None \<longrightarrow> st_externalExecution (pl_steps nxt' ! k) \<noteq> None)"
  using attachBinding_returns [OF assms] by (auto simp: nth_update_if)

lemma attachFold_mono:
  assumes "foldR (attachBinding p) bs (nxt, c) = Inr (nxt', c')"
  shows "length (pl_steps nxt') = length (pl_steps nxt) \<and> (\<not> c' \<longrightarrow> \<not> c \<and> nxt' = nxt) \<and>
     (\<forall>k. st_externalExecution (pl_steps nxt ! k) \<noteq> None \<longrightarrow> st_externalExecution (pl_steps nxt' ! k) \<noteq> None)"
  using assms
proof (induction bs arbitrary: nxt c)
  case (Cons b bs)
  then obtain nx cx where "attachBinding p b (nxt, c) = Inr (nx, cx)" "foldR (attachBinding p) bs (nx, cx) = Inr (nxt', c')"
    by (auto simp: res_simps)
  with attachBinding_mono [of p b nxt c nx cx] Cons.IH [of nx cx] show ?case by auto
qed simp

lemma attachFold_attaches:
  assumes "foldR (attachBinding p) bs (nxt, c) = Inr (nxt', c')" and "length (pl_steps nxt) = length (pl_steps p)"
    and "b \<in> set bs" and "tr_transport b \<noteq> Direct"
  shows "0 \<le> tr_stepIndex b \<and> nat (tr_stepIndex b) < length (pl_steps p) \<and>
     st_externalExecution (pl_steps nxt' ! nat (tr_stepIndex b)) \<noteq> None"
  using assms
proof (induction bs arbitrary: nxt c)
  case (Cons x bs)
  from Cons.prems obtain nx cx where x: "attachBinding p x (nxt, c) = Inr (nx, cx)"
    "foldR (attachBinding p) bs (nx, cx) = Inr (nxt', c')" by (auto simp: res_simps)
  show ?case
  proof (cases "b = x")
    case True
    with attachBinding_attaches [OF x(1)] attachFold_mono [OF x(2)] Cons.prems show ?thesis by auto
  next
    case False
    with Cons.IH [OF x(2)] attachBinding_mono [OF x(1)] Cons.prems show ?thesis by auto
  qed
qed simp

lemma attachExternalExecutions_attaches:
  assumes "attachExternalExecutions p bs = Inr q" and "b \<in> set bs"
  shows "\<not> unattached q b"
proof -
  from assms(1) obtain nxt c where f: "foldR (attachBinding p) bs (p, False) = Inr (nxt, c)"
    and q: "q = (if c then bumpRevision nxt else p)"
    unfolding attachExternalExecutions_def by (auto simp: res_simps split: if_splits)
  note m = attachFold_mono [OF f] and a = attachFold_attaches [OF f _ assms(2)]
  have steps: "pl_steps q = pl_steps nxt" using q m by auto
  show ?thesis
    using a m by (auto simp: unattached_def steps js_at_def)
qed

text \<open>
  Recovery of external executions closes the gap it is for: after \<^verbatim>\<open>syncExternalExecutions\<close> returns,
  no admitted external reservation of that plan is left unattached, and every step shows exactly the
  transport that is reserved for it.
\<close>

lemma sync_attaches_all:
  assumes "tx_step\<^sup>*\<^sup>* emptyTxStore s" and "syncExternalExecutions actor i s = (Inr q, s')"
  shows "js_get (tx_plans s') i = Some q \<and>
    (\<forall>k x. boundTo (tx_transports s') i k = Some x \<and> fst x \<noteq> Direct \<longrightarrow>
       (\<exists>step. js_at (pl_steps q) k = Some step \<and> binding_of step = Some x))"
proof -
  have inv: "tx_inv s" "tx_inv s'"
    using reach_inv [OF assms(1)] tx_step_inv [OF tx_step.SyncExternal [OF assms(2)]] by auto
  from assms(2) obtain p bs where p: "js_get (tx_plans s) i = Some p" "list_transports i (tx_transports s) = Inr bs"
    "attachExternalExecutions p bs = Inr q" "commitPlan i p q s = (Inr q, s')"
    unfolding syncExternalExecutions_def
    by (cases "js_get (tx_plans s) i") (auto simp: attempt_eq_Inr commitPlan_Inr split: if_splits)
  have "plan_evolves p q" using attachExternalExecutions_evolves [OF p(3)] .
  then have q: "js_get (tx_plans s') i = Some q" and t: "tx_transports s' = tx_transports s"
    using p(1,4) by (auto simp: commitPlan_Inr plan_evolves_def split: if_splits)
  have "\<exists>step. js_at (pl_steps q) k = Some step \<and> binding_of step = Some x"
    if k: "boundTo (tx_transports s') i k = Some x" "fst x \<noteq> Direct" for k x
  proof -
    let ?b = "\<lparr>tr_stepIndex = k, tr_transport = fst x, tr_bindingId = snd x\<rparr>"
    have "?b \<in> set bs"
      using k(1) list_transports_iff [OF p(2), of ?b] inv(1) by (simp add: t tx_inv_def)
    then have "\<not> unattached q ?b" by (rule attachExternalExecutions_attaches [OF p(3)])
    then obtain step e where st: "js_at (pl_steps q) k = Some step" "st_externalExecution step = Some e"
      using k(2) by (cases "fst x") (auto simp: unattached_def split: option.splits)
    have ok: "plan_ok s' i q" using tx_inv_plan [OF inv(2) q] .
    have n: "0 \<le> k" "nat k < length (pl_steps q)" "step = pl_steps q ! nat k" using st(1) by (auto simp: js_at_Some)
    then obtain y where y: "binding_of step = Some y" using st(2) by (cases "st_attempt step") (auto simp: binding_of_def)
    have "boundTo (tx_transports s') i (int (nat k)) = Some y" using plan_ok_bound [OF ok n(2)] y n(3) by blast
    with k(1) n(1) y st(1) show ?thesis by simp
  qed
  with q show ?thesis by blast
qed

lemma payTargetLoop_ok:
  assumes "distinct ts" and "int (length ts) < max 1 limit"
  shows "distinct (payTargetLoop since limit ps ts) \<and> int (length (payTargetLoop since limit ps ts)) \<le> max 1 limit \<and>
    set (payTargetLoop since limit ps ts) \<subseteq> set ts \<union> {t. \<exists>p \<in> set ps. payTargetOf p = Some t \<and> since \<le> pl_createdAt p}"
  using assms
proof (induction since limit ps ts rule: payTargetLoop.induct)
  case (2 since limit p ps ts)
  show ?case
  proof (cases "payTargetOf p")
    case None
    with 2 show ?thesis by auto
  next
    case (Some t)
    consider "pl_createdAt p < since \<or> t \<in> set ts" | "\<not> (pl_createdAt p < since \<or> t \<in> set ts)" "int (length (ts @ [t])) \<ge> limit"
      | "\<not> (pl_createdAt p < since \<or> t \<in> set ts)" "\<not> int (length (ts @ [t])) \<ge> limit" by blast
    then show ?thesis
    proof cases
      case 1
      with 2 Some show ?thesis by auto
    next
      case 2
      with Some "2.prems" show ?thesis by auto
    next
      case 3
      with "2.IH"(3) [OF Some 3] "2.prems" Some show ?thesis by auto
    qed
  qed
qed auto

text \<open>
  The warm list is what it says: the targets of \<^verbatim>\<open>recentPayTargets\<close> are distinct, come from pay plans
  created since the given time, and are at most as many as asked for (one, when none or fewer are asked for).
\<close>

lemma recent_targets:
  "distinct (recentPayTargets since limit s) \<and> int (length (recentPayTargets since limit s)) \<le> max 1 limit \<and>
   set (recentPayTargets since limit s) \<subseteq>
     {t. \<exists>p \<in> set (js_values (tx_plans s)). payTargetOf p = Some t \<and> since \<le> pl_createdAt p}"
  using payTargetLoop_ok [of "[]" limit since "sort_by (\<lambda>a b. pl_createdAt b \<le> pl_createdAt a) (js_values (tx_plans s))"]
  by (simp add: recentPayTargets_def)

end
