(* ===== verification/Canonical.thy ===== *)
theory Canonical
  imports TransactionStore
begin

text \<open>
  Shared validation of the sponsorship and user-operation stores
  (\<^verbatim>\<open>src/src/rest/sponsorship/validation.ts\<close>): canonical JSON text (sorted keys, safe integers only),
  digests over it, bounded copies and the scalar patterns. SHA-256 comes from \<^verbatim>\<open>node:crypto\<close> and is a
  parameter. Keys of objects sort by UTF-16 units in the source and by bytes here, which agree on
  the ASCII names of the records.
\<close>

section \<open>Errors and patterns\<close>

definition fail_sp :: "string \<Rightarrow> string \<Rightarrow> int \<Rightarrow> rest_error" where
  "fail_sp errorCode message status = RestError status errorCode message None"

abbreviation isHash :: "string \<Rightarrow> bool" where
  "isHash s \<equiv> hexOf 64 s"

abbreviation isAddress :: "string \<Rightarrow> bool" where
  "isAddress s \<equiv> hexOf 40 s"

definition decimal :: "string \<Rightarrow> string \<Rightarrow> nat \<Rightarrow> int res" where
  "decimal v label bits =
     bindR (ensure (\<not> (\<not> isDecimal v \<or> bigInt v \<ge> 2 ^ bits))
       (fail_sp ''INVALID_SPONSORSHIP_INTEGER'' (''Invalid '' @ label @ ''; use a bounded canonical decimal string.'') 400)) (\<lambda>_.
     Inr (bigInt v))"

definition hexNumber :: "string \<Rightarrow> int" where
  "hexNumber s = foldl (\<lambda>n c. 16 * n + int (hexValue (lower c))) 0 s"

text \<open>The pattern \<^verbatim>\<open>^0x(0|[1-9a-fA-F][0-9a-fA-F]{0,63})$\<close> and \<^verbatim>\<open>BigInt\<close> on it.\<close>

definition isQuantity :: "string \<Rightarrow> bool" where
  "isQuantity s \<longleftrightarrow> take 2 s = ''0x'' \<and>
     (let d = drop 2 s in d = ''0'' \<or> d \<noteq> [] \<and> length d \<le> 64 \<and> list_all isHexDigit d \<and> hd d \<noteq> CHR ''0'')"

definition quantity :: "string \<Rightarrow> string \<Rightarrow> int res" where
  "quantity v label =
     bindR (ensure (isQuantity v) (fail_sp ''INVALID_RPC_RESPONSE'' (''RPC returned an invalid '' @ label @ ''.'') 502)) (\<lambda>_.
     Inr (hexNumber (drop 2 v)))"

definition uuid :: "string \<Rightarrow> bool" where
  "uuid s \<longleftrightarrow> length s = 36 \<and>
     list_all (\<lambda>i. if i \<in> set [8, 13, 18, 23] then s ! i = CHR ''-'' else isLowerHexDigit (s ! i)) [0 ..< 36]"

definition assertKey :: "string \<Rightarrow> unit res" where
  "assertKey key = ensure (isIdempotencyKey key)
     (fail_sp ''INVALID_IDEMPOTENCY_KEY'' ''Use an idempotency key of 1-128 printable non-space characters.'' 400)"

section \<open>Canonical text\<close>

definition notLossless :: rest_error where
  "notLossless = fail_sp ''INVALID_SPONSORSHIP_INPUT'' ''Sponsorship documents require finite, lossless JSON values.'' 400"

fun canonical :: "json \<Rightarrow> string res"
  and canonicalFields :: "(string \<times> json) list \<Rightarrow> (string \<times> string res) list" where
  "canonical JNull = Inr ''null''"
| "canonical (JBool b) = Inr (if b then ''true'' else ''false'')"
| "canonical (JStr s) = Inr (quote s)"
| "canonical (JNum n) = (if isSafeInteger n then Inr (intText n) else Inl notLossless)"
| "canonical (JBig n) = Inl notLossless"
| "canonical (JArr xs) = bindR (mapR (\<lambda>r. r) (map canonical xs)) (\<lambda>ts. Inr (''['' @ commaSep ts @ '']''))"
| "canonical (JObj fs) =
     bindR (mapR (\<lambda>(k, r). bindR r (\<lambda>t. Inr (quote k @ '':'' @ t)))
       (sort_by (\<lambda>a b. bytes_le (fst a) (fst b)) (canonicalFields fs))) (\<lambda>ts.
     Inr (''{'' @ commaSep ts @ ''}''))"
| "canonicalFields [] = []"
| "canonicalFields ((k, v) # fs) = (k, canonical v) # canonicalFields fs"

definition digest :: "(string \<Rightarrow> string) \<Rightarrow> json \<Rightarrow> string res" where
  "digest sha256 v = bindR (canonical v) (\<lambda>text. Inr (''0x'' @ sha256 text))"

section \<open>Bounded copies\<close>

text \<open>
  \<^verbatim>\<open>clone\<close> of the sponsorship store: the length of \<^verbatim>\<open>JSON.stringify\<close> is bounded, and the copy parsed from
  the text is the value. \<^verbatim>\<open>JSON.stringify\<close> itself throws on a \<open>bigint\<close>.
\<close>

definition maximumBytes_sp :: nat where "maximumBytes_sp = 524288"

definition clone_sp :: "('a \<Rightarrow> json) \<Rightarrow> 'a \<Rightarrow> 'a res" where
  "clone_sp toJson v =
     (case stringify (toJson v) of
        None \<Rightarrow> Inl (TypeError ''Do not know how to serialize a BigInt'')
      | Some text \<Rightarrow>
          if length text > maximumBytes_sp
          then Inl (fail_sp ''SPONSORSHIP_TOO_LARGE'' ''Sponsorship data exceeds the byte limit.'' 413)
          else Inr v)"

lemma clone_sp_Inr [res_simps]:
  "clone_sp j v = Inr w \<longleftrightarrow> w = v \<and> (\<exists>t. stringify (j v) = Some t \<and> length t \<le> maximumBytes_sp)"
  by (auto simp: clone_sp_def split: option.splits)

lemma clone_sp_Inl: "clone_sp j v = Inl e \<Longrightarrow> stringify (j v) = Some t \<Longrightarrow> maximumBytes_sp < length t"
  by (simp add: clone_sp_def split: if_splits)

lemma clone_sp_bound:
  assumes "hasText (j v)" and "textBound (j v) \<le> maximumBytes_sp"
  shows "clone_sp j v = Inr v"
proof -
  obtain t where "stringify (j v) = Some t" "length t \<le> textBound (j v)" using stringify_bound(1) [OF assms(1)] by blast
  with assms(2) show ?thesis by (simp add: clone_sp_def)
qed

end
