(* ===== verification/SponsorshipStore.thy ===== *)
theory SponsorshipStore
  imports Canonical Transports
begin

text \<open>
  The rules of the sponsorship store (\<^verbatim>\<open>types.ts\<close>, \<^verbatim>\<open>store.ts\<close> and \<^verbatim>\<open>nonces.ts\<close> under
  \<^verbatim>\<open>src/src/rest/sponsorship\<close>): a preparation of forwarded calls is claimed for publication once, then
  settled with the quote of the relayer and observed on its destination chains.
\<close>

section \<open>Data\<close>

record ForwardRequest =
  fr_from :: string
  fr_to :: string
  fr_value :: string
  fr_gas :: string
  fr_nonce :: string
  fr_deadline :: string
  fr_data :: string

record ForwardDomain =
  fd_name :: string
  fd_version :: string
  fd_chainId :: int
  fd_verifyingContract :: string

record PreparedForwardRequest =
  pf_stepIndex :: int
  pf_chainId :: int
  pf_forwarder :: string
  pf_forwarderCodeHash :: string
  pf_targetCodeHash :: string
  pf_domain :: ForwardDomain
  pf_message :: ForwardRequest
  pf_evidence :: RestBlockEvidence

record RelayrEntry =
  re_chain :: int
  re_target :: string
  re_data :: string
  re_value :: string
  re_virtual_nonce :: int

record RelayrPayment =
  rp_chainId :: int
  rp_to :: string
  rp_data :: string
  rp_value :: string
  rp_deadline :: string

record QuotedEntry =
  qe_txUuid :: string
  qe_entry :: RelayrEntry

record RelayrQuote =
  rq_bundleUuid :: string
  rq_entries :: "QuotedEntry list"
  rq_payments :: "RelayrPayment list"
  rq_commitment :: string
  rq_observedAt :: int

datatype DestinationState = DPending | DUnknown | DConfirming | DConfirmed | DReverted

record DestinationObservation =
  do_stepIndex :: int
  do_chainId :: int
  do_providerState :: string
  do_state :: DestinationState
  do_hash :: "string option"
  do_receipt :: "StoredReceipt option"
  do_semantic :: "SemanticResult option"
  do_reason :: "string option"

datatype SponsorshipState = SPrepared | SSubmitting | SSubmissionUnknown | SQuoted

record SponsorshipSubmission =
  ss_key :: string
  ss_hash :: string
  ss_entries :: "RelayrEntry list"
  ss_startedAt :: int

record SponsorshipRecord =
  sr_id :: string
  sr_actor :: RestActor
  sr_planId :: string
  sr_planCommitment :: string
  sr_preparationKey :: string
  sr_inputHash :: string
  sr_commitment :: string
  sr_requests :: "PreparedForwardRequest list"
  sr_createdAt :: int
  sr_expiresAt :: int
  sr_revision :: int
  sr_state :: SponsorshipState
  sr_submission :: "SponsorshipSubmission option"
  sr_quote :: "RelayrQuote option"
  sr_quoteBindingVerified :: "bool option"
  sr_quoteRuntimeVerified :: "bool option"
  sr_observations :: "DestinationObservation list"

record SponsorshipClaim =
  sc_actor :: RestActor
  sc_id :: string
  sc_key :: string
  sc_hash :: string
  sc_entries :: "RelayrEntry list"
  sc_now :: int
  sc_authorization :: "Authorization option"

section \<open>JSON images\<close>

definition json_of_ForwardRequest :: "ForwardRequest \<Rightarrow> json" where
  "json_of_ForwardRequest r = JObj
     [(''from'', JStr (fr_from r)), (''to'', JStr (fr_to r)), (''value'', JStr (fr_value r)), (''gas'', JStr (fr_gas r)),
      (''nonce'', JStr (fr_nonce r)), (''deadline'', JStr (fr_deadline r)), (''data'', JStr (fr_data r))]"

definition json_of_ForwardDomain :: "ForwardDomain \<Rightarrow> json" where
  "json_of_ForwardDomain d = JObj
     [(''name'', JStr (fd_name d)), (''version'', JStr (fd_version d)), (''chainId'', JNum (fd_chainId d)),
      (''verifyingContract'', JStr (fd_verifyingContract d))]"

definition json_of_PreparedForwardRequest :: "PreparedForwardRequest \<Rightarrow> json" where
  "json_of_PreparedForwardRequest p = JObj
     [(''stepIndex'', JNum (pf_stepIndex p)), (''chainId'', JNum (pf_chainId p)), (''forwarder'', JStr (pf_forwarder p)),
      (''forwarderCodeHash'', JStr (pf_forwarderCodeHash p)), (''targetCodeHash'', JStr (pf_targetCodeHash p)),
      (''domain'', json_of_ForwardDomain (pf_domain p)), (''message'', json_of_ForwardRequest (pf_message p)),
      (''evidence'', json_of_RestBlockEvidence (pf_evidence p))]"

definition json_of_RelayrEntry :: "RelayrEntry \<Rightarrow> json" where
  "json_of_RelayrEntry e = JObj
     [(''chain'', JNum (re_chain e)), (''target'', JStr (re_target e)), (''data'', JStr (re_data e)),
      (''value'', JStr (re_value e)), (''virtual_nonce'', JNum (re_virtual_nonce e))]"

definition json_of_RelayrPayment :: "RelayrPayment \<Rightarrow> json" where
  "json_of_RelayrPayment p = JObj
     [(''chainId'', JNum (rp_chainId p)), (''to'', JStr (rp_to p)), (''data'', JStr (rp_data p)),
      (''value'', JStr (rp_value p)), (''deadline'', JStr (rp_deadline p))]"

definition json_of_QuotedEntry :: "QuotedEntry \<Rightarrow> json" where
  "json_of_QuotedEntry e = JObj [(''txUuid'', JStr (qe_txUuid e)), (''entry'', json_of_RelayrEntry (qe_entry e))]"

text \<open>\<^verbatim>\<open>const { commitment, ...payload } = quote\<close>.\<close>

definition quotePayload :: "RelayrQuote \<Rightarrow> (string \<times> json) list" where
  "quotePayload q =
     [(''bundleUuid'', JStr (rq_bundleUuid q)), (''entries'', JArr (map json_of_QuotedEntry (rq_entries q))),
      (''payments'', JArr (map json_of_RelayrPayment (rq_payments q))), (''observedAt'', JNum (rq_observedAt q))]"

definition json_of_RelayrQuote :: "RelayrQuote \<Rightarrow> json" where
  "json_of_RelayrQuote q = JObj (quotePayload q @ [(''commitment'', JStr (rq_commitment q))])"

definition text_of_DestinationState :: "DestinationState \<Rightarrow> string" where
  "text_of_DestinationState s = (case s of DPending \<Rightarrow> ''pending'' | DUnknown \<Rightarrow> ''unknown'' | DConfirming \<Rightarrow> ''confirming''
     | DConfirmed \<Rightarrow> ''confirmed'' | DReverted \<Rightarrow> ''reverted'')"

definition json_of_DestinationObservation :: "DestinationObservation \<Rightarrow> json" where
  "json_of_DestinationObservation d = JObj
     ([(''stepIndex'', JNum (do_stepIndex d)), (''chainId'', JNum (do_chainId d)),
       (''providerState'', JStr (do_providerState d)), (''state'', JStr (text_of_DestinationState (do_state d)))] @
      optField ''hash'' JStr (do_hash d) @ optField ''receipt'' json_of_StoredReceipt (do_receipt d) @
      optField ''semantic'' json_of_SemanticResult (do_semantic d) @ optField ''reason'' JStr (do_reason d))"

definition text_of_SponsorshipState :: "SponsorshipState \<Rightarrow> string" where
  "text_of_SponsorshipState s = (case s of SPrepared \<Rightarrow> ''prepared'' | SSubmitting \<Rightarrow> ''submitting''
     | SSubmissionUnknown \<Rightarrow> ''submission_unknown'' | SQuoted \<Rightarrow> ''quoted'')"

definition json_of_SponsorshipSubmission :: "SponsorshipSubmission \<Rightarrow> json" where
  "json_of_SponsorshipSubmission s = JObj
     [(''key'', JStr (ss_key s)), (''hash'', JStr (ss_hash s)),
      (''entries'', JArr (map json_of_RelayrEntry (ss_entries s))), (''startedAt'', JNum (ss_startedAt s))]"

definition json_of_SponsorshipRecord :: "SponsorshipRecord \<Rightarrow> json" where
  "json_of_SponsorshipRecord r = JObj
     ([(''id'', JStr (sr_id r)), (''actor'', json_of_RestActor (sr_actor r)), (''planId'', JStr (sr_planId r)),
       (''planCommitment'', JStr (sr_planCommitment r)), (''preparationKey'', JStr (sr_preparationKey r)),
       (''inputHash'', JStr (sr_inputHash r)), (''commitment'', JStr (sr_commitment r)),
       (''requests'', JArr (map json_of_PreparedForwardRequest (sr_requests r))),
       (''createdAt'', JNum (sr_createdAt r)), (''expiresAt'', JNum (sr_expiresAt r)), (''revision'', JNum (sr_revision r)),
       (''state'', JStr (text_of_SponsorshipState (sr_state r)))] @
      optField ''submission'' json_of_SponsorshipSubmission (sr_submission r) @
      optField ''quote'' json_of_RelayrQuote (sr_quote r) @
      optField ''quoteBindingVerified'' JBool (sr_quoteBindingVerified r) @
      optField ''quoteRuntimeVerified'' JBool (sr_quoteRuntimeVerified r) @
      [(''observations'', JArr (map json_of_DestinationObservation (sr_observations r)))])"

definition json_of_SponsorshipClaim :: "SponsorshipClaim \<Rightarrow> json" where
  "json_of_SponsorshipClaim c = JObj
     ([(''actor'', json_of_RestActor (sc_actor c)), (''id'', JStr (sc_id c)), (''key'', JStr (sc_key c)),
       (''hash'', JStr (sc_hash c)), (''entries'', JArr (map json_of_RelayrEntry (sc_entries c))),
       (''now'', JNum (sc_now c))] @ optField ''authorization'' json_of_Authorization (sc_authorization c))"

abbreviation cloneRecord_sp :: "SponsorshipRecord \<Rightarrow> SponsorshipRecord res" where
  "cloneRecord_sp \<equiv> clone_sp json_of_SponsorshipRecord"

section \<open>Forwarding nonces\<close>

record ForwardNonceKey =
  fk_chainId :: int
  fk_forwarder :: string
  fk_sender :: string
  fk_nonce :: string

definition maximumCalls :: nat where "maximumCalls = 32"
definition recordsPerAccount_sp :: nat where "recordsPerAccount_sp = 1000"

definition forwardNonceId :: "ForwardNonceKey \<Rightarrow> string" where
  "forwardNonceId key = keyText [JNum (fk_chainId key), JStr (fk_forwarder key), JStr (fk_sender key), JStr (fk_nonce key)]"

definition forwardNonceKey :: "PreparedForwardRequest \<Rightarrow> ForwardNonceKey res" where
  "forwardNonceKey request =
     bindR (ensure (\<not> (\<not> isSafeInteger (pf_chainId request) \<or> pf_chainId request \<le> 0 \<or>
            \<not> isAddress (pf_forwarder request) \<or> \<not> isAddress (fr_from (pf_message request))))
          (fail_sp ''INVALID_SPONSORSHIP_RECORD'' ''Invalid forwarding nonce identity.'' 400)) (\<lambda>_.
     bindR (decimal (fr_nonce (pf_message request)) ''forwarding nonce'' 256) (\<lambda>nonce.
     Inr \<lparr>fk_chainId = pf_chainId request, fk_forwarder = toLowerCase (pf_forwarder request),
          fk_sender = toLowerCase (fr_from (pf_message request)), fk_nonce = intText nonce\<rparr>))"

definition fk_le :: "ForwardNonceKey \<Rightarrow> ForwardNonceKey \<Rightarrow> bool" where
  "fk_le a b \<longleftrightarrow>
     (if fk_chainId a \<noteq> fk_chainId b then fk_chainId a \<le> fk_chainId b
      else if fk_forwarder a \<noteq> fk_forwarder b then bytes_le (fk_forwarder a) (fk_forwarder b)
      else if fk_sender a \<noteq> fk_sender b then bytes_le (fk_sender a) (fk_sender b)
      else bytes_le (fk_nonce a) (fk_nonce b))"

definition forwardNonceKeys :: "PreparedForwardRequest list \<Rightarrow> ForwardNonceKey list res" where
  "forwardNonceKeys requests =
     bindR (ensure (\<not> (length requests < 1 \<or> length requests > maximumCalls))
          (fail_sp ''INVALID_SPONSORSHIP_RECORD'' ''Invalid forwarding nonce reservations.'' 400)) (\<lambda>_.
     bindR (mapR forwardNonceKey requests) (\<lambda>ks.
     bindR (ensure (distinct (map forwardNonceId ks))
          (fail_sp ''INVALID_SPONSORSHIP_RECORD'' ''A preparation cannot repeat the same forwarding nonce.'' 400)) (\<lambda>_.
     Inr (sort_by fk_le ks))))"

definition forwardNonceConflict :: rest_error where
  "forwardNonceConflict = fail_sp ''FORWARD_NONCE_CONFLICT''
     ''A forwarding nonce is permanently bound to another sponsorship preparation.'' 409"

section \<open>Rules\<close>

definition owns_sp :: "SponsorshipRecord \<Rightarrow> RestActor \<Rightarrow> bool" where
  "owns_sp r actor \<longleftrightarrow> accountId (sr_actor r) = accountId actor \<and> principalId (sr_actor r) = principalId actor"

definition canRead_sp :: "SponsorshipRecord \<Rightarrow> RestActor \<Rightarrow> bool" where
  "canRead_sp r actor \<longleftrightarrow> owns_sp r actor \<or>
     accountId (sr_actor r) = accountId actor \<and> principalId actor = ''owner:'' @ accountId actor"

definition missing_sp :: rest_error where
  "missing_sp = fail_sp ''SPONSORSHIP_NOT_FOUND'' ''Sponsorship preparation was not found for this principal.'' 404"

definition conflict_sp :: rest_error where
  "conflict_sp = fail_sp ''SPONSORSHIP_CONFLICT'' ''The sponsorship binding is already reserved for a different request.'' 409"

definition assertNew_sp :: "SponsorshipRecord \<Rightarrow> int \<Rightarrow> unit res" where
  "assertNew_sp r now =
     bindR (assertActor (sr_actor r)) (\<lambda>_.
     bindR (assertText (sr_id r)) (\<lambda>_.
     bindR (assertText (sr_planId r)) (\<lambda>_.
     bindR (assertKey (sr_preparationKey r)) (\<lambda>_.
     bindR (ensure (\<not> (\<not> isHash (sr_commitment r) \<or> \<not> isHash (sr_planCommitment r) \<or> \<not> isHash (sr_inputHash r) \<or>
            sr_state r \<noteq> SPrepared \<or> sr_revision r \<noteq> 0 \<or> sr_submission r \<noteq> None \<or> sr_quote r \<noteq> None \<or>
            \<not> isSafeInteger now \<or> \<not> isSafeInteger (sr_createdAt r) \<or> \<not> isSafeInteger (sr_expiresAt r) \<or>
            sr_createdAt r > now \<or> sr_expiresAt r \<le> now \<or> sr_createdAt r < 0 \<or>
            length (sr_requests r) < 1 \<or> length (sr_requests r) > maximumCalls \<or> length (sr_observations r) \<noteq> 0 \<or>
            \<not> distinct (map pf_stepIndex (sr_requests r)) \<or>
            list_ex (\<lambda>q. pf_stepIndex q < 0 \<or> pf_stepIndex q > 31) (sr_requests r)))
          (fail_sp ''INVALID_SPONSORSHIP_RECORD'' ''Invalid initial sponsorship preparation.'' 400)) (\<lambda>_.
     bindR (cloneRecord_sp r) (\<lambda>_. Inr ()))))))"

definition assertClaim_sp :: "SponsorshipClaim \<Rightarrow> unit res" where
  "assertClaim_sp c =
     bindR (assertActor (sc_actor c)) (\<lambda>_.
     bindR (assertText (sc_id c)) (\<lambda>_.
     bindR (assertKey (sc_key c)) (\<lambda>_.
     bindR (ensure (\<not> (\<not> isHash (sc_hash c) \<or> \<not> isSafeInteger (sc_now c) \<or> sc_now c < 0 \<or>
            length (sc_entries c) < 1 \<or> length (sc_entries c) > maximumCalls))
          (fail_sp ''INVALID_SPONSORSHIP_CLAIM'' ''Invalid sponsorship publication claim.'' 400)) (\<lambda>_.
     bindR (clone_sp json_of_SponsorshipClaim c) (\<lambda>_. Inr ())))))"

definition assertDispatchAuthorization :: "Authorization \<Rightarrow> int \<Rightarrow> unit res" where
  "assertDispatchAuthorization a now =
     (let seconds = now div 1000 in
      ensure (\<not> (\<not> isSafeInteger (au_issuedAt a) \<or> \<not> isSafeInteger (au_expiresAt a) \<or> au_issuedAt a < 0 \<or>
          au_issuedAt a > seconds + 30 \<or> au_expiresAt a \<le> seconds \<or> au_expiresAt a \<le> au_issuedAt a \<or>
          au_expiresAt a - au_issuedAt a > 300))
        (fail_sp ''AUTH_EXPIRED'' ''Publication approval expired or has an invalid validity window. Sign a fresh request.'' 401))"

definition claimed_sp :: "SponsorshipRecord \<Rightarrow> SponsorshipClaim \<Rightarrow> (SponsorshipRecord \<times> bool) res" where
  "claimed_sp r input =
     bindR (ensure (owns_sp r (sc_actor input)) missing_sp) (\<lambda>_.
     case sr_submission r of
       Some submission \<Rightarrow>
         bindR (ensure (\<not> (ss_key submission \<noteq> sc_key input \<or> \<not> same (ss_hash submission) (sc_hash input))) conflict_sp) (\<lambda>_.
         bindR (cloneRecord_sp r) (\<lambda>c. Inr (c, False)))
     | None \<Rightarrow>
         bindR (ensure (\<not> (sr_state r \<noteq> SPrepared \<or> sr_expiresAt r \<le> sc_now input))
              (fail_sp ''SPONSORSHIP_EXPIRED'' ''Prepare a fresh plan before publishing an authorization.'' 409)) (\<lambda>_.
         bindR (case sc_authorization input of None \<Rightarrow> Inr () | Some a \<Rightarrow> assertDispatchAuthorization a (sc_now input)) (\<lambda>_.
         bindR (cloneRecord_sp r) (\<lambda>c.
         bindR (clone_sp (\<lambda>es. JArr (map json_of_RelayrEntry es)) (sc_entries input)) (\<lambda>entries.
         Inr (c\<lparr>sr_revision := sr_revision r + 1, sr_state := SSubmitting,
                sr_submission := Some \<lparr>ss_key = sc_key input, ss_hash = sc_hash input, ss_entries = entries,
                                       ss_startedAt = sc_now input\<rparr>\<rparr>, True))))))"

definition quoteIdentity :: "(string \<Rightarrow> string) \<Rightarrow> RelayrQuote \<Rightarrow> string res" where
  "quoteIdentity sha256 q = digest sha256 (JObj
     [(''bundleUuid'', JStr (rq_bundleUuid q)), (''payments'', JArr (map json_of_RelayrPayment (rq_payments q))),
      (''observedAt'', JNum (rq_observedAt q)), (''entries'', JArr (map (json_of_RelayrEntry \<circ> qe_entry) (rq_entries q))),
      (''transactionIds'', JArr (map JStr (sort_by bytes_le (map qe_txUuid (rq_entries q)))))])"

text \<open>The checks of \<^verbatim>\<open>settled\<close> when a different quote replaces a provisional one.\<close>

definition assertRebinding :: "(string \<Rightarrow> string) \<Rightarrow> SponsorshipRecord \<Rightarrow> RelayrQuote \<Rightarrow> RelayrQuote \<Rightarrow> bool \<Rightarrow> unit res" where
  "assertRebinding sha256 r old new bindingVerified =
     bindR (ensure (\<not> (sr_quoteBindingVerified r \<noteq> Some False \<or> sr_quoteRuntimeVerified r = Some True \<or> \<not> bindingVerified))
          conflict_sp) (\<lambda>_.
     bindR (quoteIdentity sha256 old) (\<lambda>a.
     bindR (quoteIdentity sha256 new) (\<lambda>b.
     bindR (ensure (a = b) conflict_sp) (\<lambda>_.
     bindR (digest sha256 (JObj (quotePayload new))) (\<lambda>d.
     ensure (same (rq_commitment new) d) conflict_sp)))))"

definition settled_sp ::
  "(string \<Rightarrow> string) \<Rightarrow> SponsorshipRecord \<Rightarrow> string \<Rightarrow> RelayrQuote option \<Rightarrow> bool \<Rightarrow> bool \<Rightarrow> SponsorshipRecord res" where
  "settled_sp sha256 r submissionHash given runtimeVerified bindingVerified0 =
     bindR (ensure (\<not> (case sr_submission r of None \<Rightarrow> True | Some s \<Rightarrow> \<not> same (ss_hash s) submissionHash)) conflict_sp) (\<lambda>_.
     let bindingVerified = bindingVerified0 \<or> runtimeVerified in
     case sr_quote r of
       Some old \<Rightarrow>
         let rebinding = (case given of None \<Rightarrow> False | Some q \<Rightarrow> \<not> same (rq_commitment old) (rq_commitment q)) in
         bindR (case given of
             None \<Rightarrow> Inr ()
           | Some q \<Rightarrow> if rebinding then assertRebinding sha256 r old q bindingVerified else Inr ()) (\<lambda>_.
         if given \<noteq> None \<and>
            (runtimeVerified \<and> sr_quoteRuntimeVerified r \<noteq> Some True \<or>
             bindingVerified \<and> sr_quoteBindingVerified r \<noteq> Some True \<and> sr_quoteRuntimeVerified r \<noteq> Some True)
         then cloneRecord_sp (r\<lparr>sr_revision := sr_revision r + 1,
                sr_quote := (if rebinding then given else sr_quote r),
                sr_quoteBindingVerified := Some (sr_quoteBindingVerified r = Some True \<or> bindingVerified),
                sr_quoteRuntimeVerified := Some (sr_quoteRuntimeVerified r = Some True \<or> runtimeVerified)\<rparr>)
         else cloneRecord_sp r)
     | None \<Rightarrow>
         if given = None \<and> sr_state r = SSubmissionUnknown then cloneRecord_sp r
         else cloneRecord_sp (case given of
             Some q \<Rightarrow> r\<lparr>sr_revision := sr_revision r + 1, sr_state := SQuoted, sr_quote := Some q,
                         sr_quoteBindingVerified := Some bindingVerified, sr_quoteRuntimeVerified := Some runtimeVerified\<rparr>
           | None \<Rightarrow> r\<lparr>sr_revision := sr_revision r + 1, sr_state := SSubmissionUnknown\<rparr>))"

end
