(* ===== verification/SponsorshipMemory.thy ===== *)
theory SponsorshipMemory
  imports SponsorshipStore TransactionMemory
begin

text \<open>
  The in-memory sponsorship store (\<^verbatim>\<open>src/src/rest/sponsorship/memory.ts\<close>): records by id, forwarding
  nonces bound to records for ever, and the transport reservations shared with the other stores.
  \<open>waited\<close> is the number of milliseconds an operation waited for the account authority.
\<close>

record SponsorshipStore =
  sp_records :: "(string, SponsorshipRecord) jsmap"
  sp_nonces :: "(string, string) jsmap"
  sp_transports :: Reservations

definition emptySponsorshipStore :: SponsorshipStore where
  "emptySponsorshipStore = \<lparr>sp_records = [], sp_nonces = [], sp_transports = []\<rparr>"

definition samePreparation :: "RestActor \<Rightarrow> string \<Rightarrow> SponsorshipRecord \<Rightarrow> bool" where
  "samePreparation actor key r \<longleftrightarrow> accountId (sr_actor r) = accountId actor \<and>
     principalId (sr_actor r) = principalId actor \<and> sr_preparationKey r = key"

definition find_sp :: "RestActor \<Rightarrow> string \<Rightarrow> string \<Rightarrow> SponsorshipStore \<Rightarrow> SponsorshipRecord option res" where
  "find_sp actor key inputHash s =
     bindR (assertActor actor) (\<lambda>_.
     bindR (assertKey key) (\<lambda>_.
     case List.find (samePreparation actor key) (js_values (sp_records s)) of
       None \<Rightarrow> Inr None
     | Some r \<Rightarrow>
         bindR (ensure (same (sr_inputHash r) inputHash) conflict_sp) (\<lambda>_.
         bindR (cloneRecord_sp r) (\<lambda>c. Inr (Some c)))))"

definition create_sp ::
  "guard \<Rightarrow> int \<Rightarrow> SponsorshipRecord \<Rightarrow> int \<Rightarrow> SponsorshipStore \<Rightarrow> SponsorshipRecord res \<times> SponsorshipStore" where
  "create_sp authority waited input now s =
     attempt (assertNew_sp input now) s (\<lambda>_.
     attempt (cloneRecord_sp input) s (\<lambda>r.
     attempt (authority (sr_actor r) [Plan] (now div 1000)) s (\<lambda>_.
     case List.find (samePreparation (sr_actor r) (sr_preparationKey r)) (js_values (sp_records s)) of
       Some existing \<Rightarrow>
         attempt (ensure (same (sr_inputHash existing) (sr_inputHash r)) conflict_sp) s (\<lambda>_.
         attempt (cloneRecord_sp existing) s (\<lambda>c. (Inr c, s)))
     | None \<Rightarrow>
         attempt (ensure (\<not> js_has (sp_records s) (sr_id r)) conflict_sp) s (\<lambda>_.
         attempt (ensure (\<not> count_values (\<lambda>x. accountId (sr_actor x) = accountId (sr_actor r)) (sp_records s)
              \<ge> recordsPerAccount_sp)
            (fail_sp ''SPONSORSHIP_STORAGE_LIMIT'' ''Sponsorship record limit reached.'' 429)) s (\<lambda>_.
         attempt (assertNew_sp r (now + waited)) s (\<lambda>_.
         let s1 = s\<lparr>sp_records := js_set (sr_id r) r (sp_records s)\<rparr> in
         attempt (cloneRecord_sp r) s1 (\<lambda>c. (Inr c, s1))))))))"

definition get_sp :: "RestActor \<Rightarrow> string \<Rightarrow> SponsorshipStore \<Rightarrow> SponsorshipRecord option res" where
  "get_sp actor i s =
     bindR (assertActor actor) (\<lambda>_.
     bindR (assertText i) (\<lambda>_.
     case js_get (sp_records s) i of
       None \<Rightarrow> Inr None
     | Some r \<Rightarrow> if canRead_sp r actor then bindR (cloneRecord_sp r) (\<lambda>c. Inr (Some c)) else Inr None))"

text \<open>The permanent reservations of a dispatch: every nonce must be free or ours, then the transport is claimed.\<close>

definition reserveForward :: "SponsorshipRecord \<Rightarrow> SponsorshipStore \<Rightarrow> unit res \<times> SponsorshipStore" where
  "reserveForward r s =
     attempt (forwardNonceKeys (sr_requests r)) s (\<lambda>ks.
     let nonces = map forwardNonceId ks in
     attempt (forR (\<lambda>nonce. ensure (\<not> (case js_get (sp_nonces s) nonce of None \<Rightarrow> False
              | Some binding \<Rightarrow> binding \<noteq> sr_id r)) forwardNonceConflict) nonces) s (\<lambda>_.
     invoke (claim_transport (sr_planId r) (map pf_stepIndex (sr_requests r)) Relayr (sr_id r) (sp_transports s))
       (\<lambda>t. s\<lparr>sp_transports := t\<rparr>) (\<lambda>_ s1.
     (Inr (), s1\<lparr>sp_nonces := fold (\<lambda>nonce. js_set nonce (sr_id r)) nonces (sp_nonces s1)\<rparr>))))"

definition claim_sp ::
  "guard \<Rightarrow> int \<Rightarrow> SponsorshipClaim \<Rightarrow> SponsorshipStore \<Rightarrow> (SponsorshipRecord \<times> bool) res \<times> SponsorshipStore" where
  "claim_sp authority waited input s =
     attempt (assertClaim_sp input) s (\<lambda>_.
     attempt (authority (sc_actor input) [Relay] (sc_now input div 1000)) s (\<lambda>_.
     case js_get (sp_records s) (sc_id input) of
       None \<Rightarrow> (Inl missing_sp, s)
     | Some r \<Rightarrow>
         attempt (ensure (\<not> list_ex (\<lambda>x. sr_id x \<noteq> sc_id input \<and> accountId (sr_actor x) = accountId (sc_actor input) \<and>
                principalId (sr_actor x) = principalId (sc_actor input) \<and>
                (case sr_submission x of None \<Rightarrow> False | Some b \<Rightarrow> ss_key b = sc_key input)) (js_values (sp_records s)))
              conflict_sp) s (\<lambda>_.
         attempt (claimed_sp r (input\<lparr>sc_now := sc_now input + waited\<rparr>)) s (\<lambda>(next_record, dispatch).
         attempt (cloneRecord_sp next_record) s (\<lambda>stored.
         invoke (if dispatch then reserveForward r s else (Inr (), s)) (\<lambda>s1. s1) (\<lambda>_ s1.
         (Inr (next_record, dispatch), s1\<lparr>sp_records := js_set (sr_id r) stored (sp_records s1)\<rparr>)))))))"

text \<open>The default arguments: \<^verbatim>\<open>runtimeVerified = true, bindingVerified = runtimeVerified\<close>.\<close>

definition settle_sp ::
  "(string \<Rightarrow> string) \<Rightarrow> string \<Rightarrow> string \<Rightarrow> RelayrQuote option \<Rightarrow> bool option \<Rightarrow> bool option \<Rightarrow> SponsorshipStore \<Rightarrow>
     SponsorshipRecord res \<times> SponsorshipStore" where
  "settle_sp sha256 i submissionHash given runtimeVerified bindingVerified s =
     (let runtime = (case runtimeVerified of None \<Rightarrow> True | Some b \<Rightarrow> b);
          binding = (case bindingVerified of None \<Rightarrow> runtime | Some b \<Rightarrow> b) in
      case js_get (sp_records s) i of
        None \<Rightarrow> (Inl missing_sp, s)
      | Some r \<Rightarrow>
          attempt (settled_sp sha256 r submissionHash given runtime binding) s (\<lambda>r'.
          let s1 = s\<lparr>sp_records := js_set i r' (sp_records s)\<rparr> in
          attempt (cloneRecord_sp r') s1 (\<lambda>c. (Inr c, s1))))"

definition observe_sp ::
  "string \<Rightarrow> int \<Rightarrow> DestinationObservation list \<Rightarrow> SponsorshipStore \<Rightarrow> SponsorshipRecord res \<times> SponsorshipStore" where
  "observe_sp i revision observations s =
     (case js_get (sp_records s) i of
        None \<Rightarrow> (Inl missing_sp, s)
      | Some r \<Rightarrow>
          if sr_revision r \<noteq> revision then attempt (cloneRecord_sp r) s (\<lambda>c. (Inr c, s))
          else attempt (cloneRecord_sp (r\<lparr>sr_revision := revision + 1, sr_observations := observations\<rparr>)) s (\<lambda>r'.
            let s1 = s\<lparr>sp_records := js_set i r' (sp_records s)\<rparr> in
            attempt (cloneRecord_sp r') s1 (\<lambda>c. (Inr c, s1))))"

end
