(* ===== verification/SponsorshipInvariants.thy ===== *)
theory SponsorshipInvariants
  imports SponsorshipMemory Revisioned
begin

text \<open>
  Histories of sponsorship records (an instance of \<open>revisioned\<close>), the invariant of the in-memory store and
  its runs: a published record owns its forwarding nonces and the transport of its steps, preparation
  and publication keys are unique per actor, and nothing that was reserved or recorded is lost.
\<close>

section \<open>How a record changes\<close>

inductive sp_change :: "(string \<Rightarrow> string) \<Rightarrow> SponsorshipRecord \<Rightarrow> SponsorshipRecord \<Rightarrow> bool" for sha256 where
  Claimed: "claimed_sp r input = Inr (r', dispatch) \<Longrightarrow> sp_change sha256 r r'"
| Settled: "settled_sp sha256 r submissionHash given runtime binding = Inr r' \<Longrightarrow> sp_change sha256 r r'"
| Observed: "sp_change sha256 r (r\<lparr>sr_revision := sr_revision r + 1, sr_observations := observations\<rparr>)"

text \<open>What was reviewed when the preparation was made.\<close>

definition sp_identity :: "SponsorshipRecord \<Rightarrow> SponsorshipRecord" where
  "sp_identity r = r\<lparr>sr_revision := 0, sr_state := SPrepared, sr_submission := None, sr_quote := None,
     sr_quoteBindingVerified := None, sr_quoteRuntimeVerified := None, sr_observations := []\<rparr>"

lemma sp_identityD: "sp_identity r' = sp_identity r \<Longrightarrow>
    sr_id r' = sr_id r \<and> sr_actor r' = sr_actor r \<and> sr_planId r' = sr_planId r \<and> sr_requests r' = sr_requests r \<and>
    sr_preparationKey r' = sr_preparationKey r \<and> sr_inputHash r' = sr_inputHash r \<and> sr_commitment r' = sr_commitment r \<and>
    sr_planCommitment r' = sr_planCommitment r \<and> sr_createdAt r' = sr_createdAt r \<and> sr_expiresAt r' = sr_expiresAt r"
  by (cases r; cases r') (simp add: sp_identity_def)

lemma claimed_sp_cases:
  assumes "claimed_sp r input = Inr (r', dispatch)"
  obtains (replay) b where "sr_submission r = Some b" "r' = r" "\<not> dispatch" "sr_actor r = sc_actor input"
      "ss_key b = sc_key input" "same (ss_hash b) (sc_hash input)"
  | (fresh) "sr_submission r = None" "sr_state r = SPrepared" "sc_now input < sr_expiresAt r" "dispatch"
      "sr_actor r = sc_actor input"
      "\<And>a. sc_authorization input = Some a \<Longrightarrow> assertDispatchAuthorization a (sc_now input) = Inr ()"
      "r' = r\<lparr>sr_revision := sr_revision r + 1, sr_state := SSubmitting,
                sr_submission := Some \<lparr>ss_key = sc_key input, ss_hash = sc_hash input, ss_entries = sc_entries input,
                                       ss_startedAt = sc_now input\<rparr>\<rparr>"
proof -
  have own: "sr_actor r = sc_actor input"
    using assms by (auto simp: claimed_sp_def bindR_eq_Inr ensure_eq_Inr owns_sp_def intro: RestActor.equality)
  show thesis
  proof (cases "sr_submission r")
    case (Some b)
    with assms own show thesis by (intro replay) (auto simp: claimed_sp_def bindR_eq_Inr ensure_eq_Inr clone_sp_Inr)
  next
    case None
    with assms own show thesis by (intro fresh) (auto simp: claimed_sp_def bindR_eq_Inr ensure_eq_Inr clone_sp_Inr)
  qed
qed

lemma settled_sp_cases:
  assumes "settled_sp sha256 r h given runtime binding = Inr r'"
  obtains (unchanged) b where "sr_submission r = Some b" "same (ss_hash b) h" "r' = r"
  | (unknown) b where "sr_submission r = Some b" "same (ss_hash b) h" "sr_quote r = None" "given = None"
      "r' = r\<lparr>sr_revision := sr_revision r + 1, sr_state := SSubmissionUnknown\<rparr>"
  | (quoted) b q where "sr_submission r = Some b" "same (ss_hash b) h" "sr_quote r = None" "given = Some q"
      "r' = r\<lparr>sr_revision := sr_revision r + 1, sr_state := SQuoted, sr_quote := Some q,
         sr_quoteBindingVerified := Some (binding \<or> runtime), sr_quoteRuntimeVerified := Some runtime\<rparr>"
  | (verified) b old q where "sr_submission r = Some b" "same (ss_hash b) h" "sr_quote r = Some old" "given = Some q"
      "same (rq_commitment old) (rq_commitment q) \<or> assertRebinding sha256 r old q (binding \<or> runtime) = Inr ()"
      "binding \<or> runtime"
      "r' = r\<lparr>sr_revision := sr_revision r + 1,
         sr_quote := (if same (rq_commitment old) (rq_commitment q) then Some old else Some q),
         sr_quoteBindingVerified := Some (sr_quoteBindingVerified r = Some True \<or> binding \<or> runtime),
         sr_quoteRuntimeVerified := Some (sr_quoteRuntimeVerified r = Some True \<or> runtime)\<rparr>"
proof -
  obtain b where b: "sr_submission r = Some b" "same (ss_hash b) h"
    using assms by (auto simp: settled_sp_def bindR_eq_Inr ensure_eq_Inr split: option.splits)
  have s: "\<not> (case sr_submission r of None \<Rightarrow> True | Some s \<Rightarrow> \<not> same (ss_hash s) h)" using b by simp
  show thesis
  proof (cases "sr_quote r")
    case None
    show thesis
    proof (cases given)
      case none: None
      have "r' = r \<or> r' = r\<lparr>sr_revision := sr_revision r + 1, sr_state := SSubmissionUnknown\<rparr>"
        using assms s None none by (simp add: settled_sp_def clone_sp_Inr split: if_splits)
      with unchanged [OF b] unknown [OF b None none] show thesis by blast
    next
      case (Some q)
      have "r' = r\<lparr>sr_revision := sr_revision r + 1, sr_state := SQuoted, sr_quote := Some q,
         sr_quoteBindingVerified := Some (binding \<or> runtime), sr_quoteRuntimeVerified := Some runtime\<rparr>"
        using assms s None Some by (simp add: settled_sp_def clone_sp_Inr)
      with quoted [OF b None Some] show thesis by blast
    qed
  next
    case (Some old)
    show thesis
    proof (cases given)
      case None
      have "r' = r" using assms s Some None by (simp add: settled_sp_def clone_sp_Inr)
      with unchanged [OF b] show thesis by blast
    next
      case q: (Some q)
      let ?v = "r\<lparr>sr_revision := sr_revision r + 1,
         sr_quote := (if same (rq_commitment old) (rq_commitment q) then Some old else Some q),
         sr_quoteBindingVerified := Some (sr_quoteBindingVerified r = Some True \<or> binding \<or> runtime),
         sr_quoteRuntimeVerified := Some (sr_quoteRuntimeVerified r = Some True \<or> runtime)\<rparr>"
      have "same (rq_commitment old) (rq_commitment q) \<or> assertRebinding sha256 r old q (binding \<or> runtime) = Inr ()"
        using assms s Some q by (cases "same (rq_commitment old) (rq_commitment q)") (simp_all add: settled_sp_def Let_def bindR_eq_Inr)
      moreover have "r' = r \<or> (binding \<or> runtime) \<and> r' = ?v"
        using assms s Some q by (cases "same (rq_commitment old) (rq_commitment q)") (simp_all add: settled_sp_def Let_def bindR_eq_Inr clone_sp_Inr split: if_splits, blast+)
      ultimately show thesis using unchanged [OF b] verified [OF b Some q] by blast
    qed
  qed
qed

lemma sp_change_revision: "sp_change sha256 r r' \<Longrightarrow> sp_identity r' = sp_identity r \<and> (r' = r \<or> sr_revision r' = sr_revision r + 1)"
proof (induction rule: sp_change.induct)
  case (Claimed r input r' dispatch)
  then show ?case by (cases rule: claimed_sp_cases) (simp_all add: sp_identity_def)
next
  case (Settled r h given runtime binding r')
  then show ?case by (cases rule: settled_sp_cases) (simp_all add: sp_identity_def)
qed (simp add: sp_identity_def)

interpretation sp_history: revisioned sr_revision sp_identity "\<lambda>_. True" "sp_change sha256" for sha256
  by unfold_locales (auto dest: sp_change_revision)

text \<open>A submission is made once; a quote that was verified, or that predates verification, is kept.\<close>

definition quoteFixed :: "SponsorshipRecord \<Rightarrow> bool" where
  "quoteFixed r \<longleftrightarrow> sr_quoteBindingVerified r \<noteq> Some False \<or> sr_quoteRuntimeVerified r = Some True"

lemma assertRebinding_Inr:
  assumes "assertRebinding sha256 r old q v = Inr ()"
  shows "\<not> quoteFixed r" and "v" and "quoteIdentity sha256 q = quoteIdentity sha256 old"
    and "\<exists>d. digest sha256 (JObj (quotePayload q)) = Inr d \<and> same (rq_commitment q) d"
  using assms by (auto simp: assertRebinding_def quoteFixed_def bindR_eq_Inr ensure_eq_Inr)

lemma sp_change_submission:
  "sp_change sha256 r r' \<Longrightarrow> sr_submission r = Some b \<Longrightarrow> sr_submission r' = Some b"
proof (induction rule: sp_change.induct)
  case (Claimed r input r' dispatch)
  from Claimed(1) show ?case by (cases rule: claimed_sp_cases) (use Claimed(2) in simp_all)
next
  case (Settled r h given runtime binding r')
  from Settled(1) show ?case by (cases rule: settled_sp_cases) (use Settled(2) in simp_all)
qed simp

lemma sp_history_submission:
  "(sp_change sha256)\<^sup>*\<^sup>* r r' \<Longrightarrow> sr_submission r = Some b \<Longrightarrow> sr_submission r' = Some b"
  by (induction rule: rtranclp_induct) (auto dest: sp_change_submission)

lemma sp_change_quote:
  assumes "sp_change sha256 r r'" and "sr_quote r = Some q"
  shows "\<exists>q'. sr_quote r' = Some q' \<and> (quoteFixed r \<longrightarrow> q' = q \<and> quoteFixed r') \<and>
     (q' = q \<or> quoteIdentity sha256 q' = quoteIdentity sha256 q \<and> quoteFixed r')"
  using assms
proof (induction rule: sp_change.induct)
  case (Claimed r input r' dispatch)
  from Claimed(1) show ?case by (cases rule: claimed_sp_cases) (use Claimed(2) in \<open>auto simp: quoteFixed_def\<close>)
next
  case (Settled r h given runtime binding r')
  from Settled(1) show ?case
  proof (cases rule: settled_sp_cases)
    case (verified b old q')
    show ?thesis
    proof (cases "same (rq_commitment old) (rq_commitment q')")
      case True
      with verified Settled(2) show ?thesis by (auto simp: quoteFixed_def)
    next
      case False
      with verified(5) have a: "assertRebinding sha256 r old q' (binding \<or> runtime) = Inr ()" by blast
      have "old = q" using verified(3) Settled(2) by simp
      with assertRebinding_Inr [OF a] verified(7) False show ?thesis by (auto simp: quoteFixed_def)
    qed
  qed (use Settled(2) in \<open>auto simp: quoteFixed_def\<close>)
qed (auto simp: quoteFixed_def)

lemma sp_history_quote:
  assumes "(sp_change sha256)\<^sup>*\<^sup>* r r'" and "sr_quote r = Some q"
  shows "\<exists>q'. sr_quote r' = Some q' \<and> (quoteFixed r \<longrightarrow> q' = q \<and> quoteFixed r') \<and>
     quoteIdentity sha256 q' = quoteIdentity sha256 q"
  using assms
proof (induction rule: rtranclp_induct)
  case (step y z)
  then obtain q1 where q1: "sr_quote y = Some q1" "quoteFixed r \<longrightarrow> q1 = q \<and> quoteFixed y"
    "quoteIdentity sha256 q1 = quoteIdentity sha256 q" by blast
  from sp_change_quote [OF step(2) q1(1)] obtain q2 where
    "sr_quote z = Some q2" "quoteFixed y \<longrightarrow> q2 = q1 \<and> quoteFixed z"
    "q2 = q1 \<or> quoteIdentity sha256 q2 = quoteIdentity sha256 q1 \<and> quoteFixed z" by blast
  with q1 show ?case by auto
qed simp

section \<open>Operations\<close>

lemma reserveForward_Inr:
  assumes "reserveForward r s = (Inr u, s')"
  obtains ks t where "forwardNonceKeys (sr_requests r) = Inr ks"
    "\<forall>k \<in> set ks. js_get (sp_nonces s) (forwardNonceId k) \<in> {None, Some (sr_id r)}"
    "claim_transport (sr_planId r) (map pf_stepIndex (sr_requests r)) Relayr (sr_id r) (sp_transports s) = (Inr (), t)"
    "s' = s\<lparr>sp_transports := t, sp_nonces := fold (\<lambda>nonce. js_set nonce (sr_id r)) (map forwardNonceId ks) (sp_nonces s)\<rparr>"
proof -
  have neg: "(\<not> (case x of None \<Rightarrow> False | Some b \<Rightarrow> b \<noteq> i)) \<longleftrightarrow> x \<in> {None, Some i}" for x :: "string option" and i
    by (cases x) auto
  show thesis
    using assms that
    by (auto simp: reserveForward_def Let_def attempt_eq_Inr invoke_eq_Inr forR_eq_Inr ensure_eq_Inr neg)
qed

lemma reserveForward_Inl: "reserveForward r s = (Inl e, s') \<Longrightarrow> s' = s"
  by (auto simp: reserveForward_def Let_def attempt_eq_Inl invoke_eq_Inl dest: claim_transport_Inl)

lemma claim_sp_Inr:
  assumes "claim_sp authority waited input s = (Inr (r', dispatch), s')"
  obtains r s1 where "js_get (sp_records s) (sc_id input) = Some r" "authority (sc_actor input) [Relay] (sc_now input div 1000) = Inr ()"
    "assertClaim_sp input = Inr ()"
    "\<forall>x \<in> set (js_values (sp_records s)). sr_id x \<noteq> sc_id input \<longrightarrow> sr_actor x = sc_actor input \<longrightarrow>
       (case sr_submission x of None \<Rightarrow> True | Some b \<Rightarrow> ss_key b \<noteq> sc_key input)"
    "claimed_sp r (input\<lparr>sc_now := sc_now input + waited\<rparr>) = Inr (r', dispatch)"
    "if dispatch then reserveForward r s = (Inr (), s1) else s1 = s"
    "s' = s1\<lparr>sp_records := js_set (sr_id r) r' (sp_records s1)\<rparr>"
proof -
  from assms obtain r where r: "js_get (sp_records s) (sc_id input) = Some r"
    by (auto simp: claim_sp_def attempt_eq_Inr split: option.splits)
  note c = assms [unfolded claim_sp_def, simplified r option.case attempt_eq_Inr ensure_eq_Inr split_beta clone_sp_Inr invoke_eq_Inr]
  then obtain v s1 where v: "assertClaim_sp input = Inr ()" "authority (sc_actor input) [Relay] (sc_now input div 1000) = Inr ()"
    "\<not> list_ex (\<lambda>x. sr_id x \<noteq> sc_id input \<and> accountId (sr_actor x) = accountId (sc_actor input) \<and>
        principalId (sr_actor x) = principalId (sc_actor input) \<and>
        (case sr_submission x of None \<Rightarrow> False | Some b \<Rightarrow> ss_key b = sc_key input)) (js_values (sp_records s))"
    "claimed_sp r (input\<lparr>sc_now := sc_now input + waited\<rparr>) = Inr v"
    "(if snd v then reserveForward r s else (Inr (), s)) = (Inr (), s1)"
    "(r', dispatch) = (fst v, snd v)" "s' = s1\<lparr>sp_records := js_set (sr_id r) (fst v) (sp_records s1)\<rparr>"
    by auto
  have "\<forall>x \<in> set (js_values (sp_records s)). sr_id x \<noteq> sc_id input \<longrightarrow> sr_actor x = sc_actor input \<longrightarrow>
       (case sr_submission x of None \<Rightarrow> True | Some b \<Rightarrow> ss_key b \<noteq> sc_key input)"
    using v(3) by (force simp: list_ex_iff split: option.splits)
  moreover have "if dispatch then reserveForward r s = (Inr (), s1) else s1 = s" using v(5,6) by (auto split: if_splits)
  moreover have "v = (r', dispatch)" using v(6) by simp
  ultimately show thesis using v(1,2,4,7) r by (intro that [of r s1]) simp_all
qed

lemma claim_sp_Inl: "claim_sp authority waited input s = (Inl e, s') \<Longrightarrow> s' = s"
  by (auto simp: claim_sp_def attempt_eq_Inl invoke_eq_Inl dest: reserveForward_Inl split: option.splits if_splits)

lemma create_sp_Inr:
  assumes "create_sp authority waited input now s = (Inr r, s')"
  obtains (existing) "List.find (samePreparation (sr_actor input) (sr_preparationKey input)) (js_values (sp_records s)) = Some r"
      "same (sr_inputHash r) (sr_inputHash input)" "s' = s"
  | (fresh) "List.find (samePreparation (sr_actor input) (sr_preparationKey input)) (js_values (sp_records s)) = None"
      "js_get (sp_records s) (sr_id input) = None" "r = input" "assertNew_sp input now = Inr ()"
      "count_values (\<lambda>x. accountId (sr_actor x) = accountId (sr_actor input)) (sp_records s) < recordsPerAccount_sp"
      "s' = s\<lparr>sp_records := js_set (sr_id input) input (sp_records s)\<rparr>"
proof (cases "List.find (samePreparation (sr_actor input) (sr_preparationKey input)) (js_values (sp_records s))")
  case None
  with assms have "js_get (sp_records s) (sr_id input) = None \<and> r = input \<and> assertNew_sp input now = Inr () \<and>
      count_values (\<lambda>x. accountId (sr_actor x) = accountId (sr_actor input)) (sp_records s) < recordsPerAccount_sp \<and>
      s' = s\<lparr>sp_records := js_set (sr_id input) input (sp_records s)\<rparr>"
    by (auto simp: create_sp_def Let_def attempt_eq_Inr ensure_eq_Inr clone_sp_Inr)
  then show thesis using None by (elim conjE) (rule fresh)
next
  case (Some x)
  with assms have "x = r \<and> same (sr_inputHash r) (sr_inputHash input) \<and> s' = s"
    by (auto simp: create_sp_def Let_def attempt_eq_Inr ensure_eq_Inr clone_sp_Inr)
  then show thesis using Some existing by simp
qed

lemma create_sp_Inl: "create_sp authority waited input now s = (Inl e, s') \<Longrightarrow> s' = s"
  by (auto simp: create_sp_def Let_def attempt_eq_Inl clone_sp_Inr dest: clone_sp_Inl split: option.splits)

lemma settle_sp_Inr:
  assumes "settle_sp sha256 i h given rt b s = (Inr r', s')"
  obtains r runtime binding where "js_get (sp_records s) i = Some r" "settled_sp sha256 r h given runtime binding = Inr r'"
    "s' = s\<lparr>sp_records := js_set i r' (sp_records s)\<rparr>"
  using assms by (auto simp: settle_sp_def Let_def attempt_eq_Inr clone_sp_Inr split: option.splits)

lemma settled_sp_clones: "settled_sp sha256 r h given runtime binding = Inr r' \<Longrightarrow> cloneRecord_sp r' = Inr r'"
  by (auto simp: settled_sp_def Let_def bindR_eq_Inr clone_sp_Inr split: option.splits if_splits)

lemma settle_sp_Inl: "settle_sp sha256 i h given rt b s = (Inl e, s') \<Longrightarrow> s' = s"
  by (auto simp: settle_sp_def Let_def attempt_eq_Inl settled_sp_clones split: option.splits)

lemma observe_sp_Inr:
  assumes "observe_sp i revision obs s = (Inr r', s')"
  obtains r where "js_get (sp_records s) i = Some r"
    "s' = s \<and> r' = r \<and> sr_revision r \<noteq> revision \<or> sr_revision r = revision \<and>
       r' = r\<lparr>sr_revision := sr_revision r + 1, sr_observations := obs\<rparr> \<and> s' = s\<lparr>sp_records := js_set i r' (sp_records s)\<rparr>"
  using assms by (auto simp: observe_sp_def Let_def attempt_eq_Inr clone_sp_Inr split: option.splits if_splits)

lemma observe_sp_Inl: "observe_sp i revision obs s = (Inl e, s') \<Longrightarrow> s' = s"
  by (auto simp: observe_sp_def Let_def attempt_eq_Inl clone_sp_Inr dest: clone_sp_Inl split: option.splits if_splits)

section \<open>The invariant of the store\<close>

text \<open>A published record owns its forwarding nonces and the transport of its steps.\<close>

definition published :: "SponsorshipStore \<Rightarrow> SponsorshipRecord \<Rightarrow> bool" where
  "published s r \<longleftrightarrow>
     (\<exists>ks. forwardNonceKeys (sr_requests r) = Inr ks \<and> (\<forall>k \<in> set ks. js_get (sp_nonces s) (forwardNonceId k) = Some (sr_id r))) \<and>
     (\<forall>q \<in> set (sr_requests r). boundTo (sp_transports s) (sr_planId r) (pf_stepIndex q) = Some (Relayr, sr_id r))"

definition submissionKey :: "SponsorshipRecord \<Rightarrow> string option" where
  "submissionKey r = map_option ss_key (sr_submission r)"

definition sp_inv :: "SponsorshipStore \<Rightarrow> bool" where
  "sp_inv s \<longleftrightarrow>
     js_wf (sp_records s) \<and>
     (\<forall>i r. js_get (sp_records s) i = Some r \<longrightarrow> sr_id r = i \<and> (sr_submission r \<noteq> None \<longrightarrow> published s r)) \<and>
     (\<forall>i j r x. js_get (sp_records s) i = Some r \<and> js_get (sp_records s) j = Some x \<and> sr_actor r = sr_actor x \<and>
        sr_preparationKey r = sr_preparationKey x \<longrightarrow> i = j) \<and>
     (\<forall>i j r x. js_get (sp_records s) i = Some r \<and> js_get (sp_records s) j = Some x \<and> sr_actor r = sr_actor x \<and>
        submissionKey r \<noteq> None \<and> submissionKey r = submissionKey x \<longrightarrow> i = j) \<and>
     (\<forall>a. count_values (\<lambda>r. accountId (sr_actor r) = a) (sp_records s) \<le> recordsPerAccount_sp)"

text \<open>What no step undoes.\<close>

definition sp_keeps :: "SponsorshipStore \<Rightarrow> SponsorshipStore \<Rightarrow> bool" where
  "sp_keeps s s' \<longleftrightarrow>
     (\<forall>n i. js_get (sp_nonces s) n = Some i \<longrightarrow> js_get (sp_nonces s') n = Some i) \<and>
     (\<forall>p k x. boundTo (sp_transports s) p k = Some x \<longrightarrow> boundTo (sp_transports s') p k = Some x)"

definition sp_extends :: "(string \<Rightarrow> string) \<Rightarrow> SponsorshipStore \<Rightarrow> SponsorshipStore \<Rightarrow> bool" where
  "sp_extends sha256 s s' \<longleftrightarrow> sp_keeps s s' \<and>
     (\<forall>i r. js_get (sp_records s) i = Some r \<longrightarrow> (\<exists>r'. js_get (sp_records s') i = Some r' \<and> (sp_change sha256)\<^sup>*\<^sup>* r r'))"

lemma sp_keeps_refl [simp]: "sp_keeps s s"
  by (simp add: sp_keeps_def)

lemma sp_keeps_trans: "sp_keeps r s \<Longrightarrow> sp_keeps s t \<Longrightarrow> sp_keeps r t"
  by (simp add: sp_keeps_def)

lemma sp_extends_refl [simp]: "sp_extends sha256 s s"
  by (auto simp: sp_extends_def)

lemma sp_extends_trans: "sp_extends sha256 r s \<Longrightarrow> sp_extends sha256 s t \<Longrightarrow> sp_extends sha256 r t"
  unfolding sp_extends_def by (intro conjI; meson sp_keeps_trans rtranclp_trans)

lemma published_mono: "sp_keeps s s' \<Longrightarrow> published s r \<Longrightarrow> sp_identity r' = sp_identity r \<Longrightarrow> published s' r'"
  by (auto simp: published_def sp_keeps_def dest!: sp_identityD)

lemma sp_invD:
  assumes "sp_inv s" and "js_get (sp_records s) i = Some r"
  shows "sr_id r = i" and "sr_submission r \<noteq> None \<Longrightarrow> published s r"
    and "js_get (sp_records s) j = Some x \<Longrightarrow> sr_actor r = sr_actor x \<Longrightarrow> sr_preparationKey r = sr_preparationKey x \<Longrightarrow> i = j"
    and "js_get (sp_records s) j = Some x \<Longrightarrow> sr_actor r = sr_actor x \<Longrightarrow> submissionKey r \<noteq> None \<Longrightarrow>
       submissionKey r = submissionKey x \<Longrightarrow> i = j"
  using assms unfolding sp_inv_def by blast+

lemma sp_invI:
  assumes "js_wf (sp_records s)"
    and "\<And>i r. js_get (sp_records s) i = Some r \<Longrightarrow> sr_id r = i \<and> (sr_submission r \<noteq> None \<longrightarrow> published s r)"
    and "\<And>i j r x. js_get (sp_records s) i = Some r \<Longrightarrow> js_get (sp_records s) j = Some x \<Longrightarrow> sr_actor r = sr_actor x \<Longrightarrow>
       sr_preparationKey r = sr_preparationKey x \<Longrightarrow> i = j"
    and "\<And>i j r x. js_get (sp_records s) i = Some r \<Longrightarrow> js_get (sp_records s) j = Some x \<Longrightarrow> sr_actor r = sr_actor x \<Longrightarrow>
       submissionKey r \<noteq> None \<Longrightarrow> submissionKey r = submissionKey x \<Longrightarrow> i = j"
    and "\<And>a. count_values (\<lambda>r. accountId (sr_actor r) = a) (sp_records s) \<le> recordsPerAccount_sp"
  shows "sp_inv s"
  unfolding sp_inv_def
proof (intro conjI)
  show "\<forall>i r. js_get (sp_records s) i = Some r \<longrightarrow> sr_id r = i \<and> (sr_submission r \<noteq> None \<longrightarrow> published s r)"
    using assms(2) by blast
qed (use assms(1,3,4,5) in blast)+

lemma sp_inv_empty: "sp_inv emptySponsorshipStore"
  by (simp add: sp_inv_def emptySponsorshipStore_def)

text \<open>A record is replaced by a later version of itself.\<close>

lemma sp_update:
  assumes inv: "sp_inv s" and r: "js_get (sp_records s) i = Some r" and ch: "sp_change sha256 r r'"
    and keep: "sp_keeps s s'" and recs: "sp_records s' = js_set i r' (sp_records s)"
    and pub: "sr_submission r = None \<Longrightarrow> sr_submission r' \<noteq> None \<Longrightarrow> published s' r'"
    and key: "\<And>j x. sr_submission r = None \<Longrightarrow> js_get (sp_records s) j = Some x \<Longrightarrow> j \<noteq> i \<Longrightarrow> sr_actor x = sr_actor r \<Longrightarrow>
       submissionKey r' \<noteq> None \<Longrightarrow> submissionKey x \<noteq> submissionKey r'"
  shows "sp_inv s'" and "sp_extends sha256 s s'"
proof -
  have idn: "sp_identity r' = sp_identity r" using sp_change_revision [OF ch] by simp
  note d = sp_identityD [OF idn]
  have get: "js_get (sp_records s') = (js_get (sp_records s))(i \<mapsto> r')" by (simp add: recs fun_eq_iff)
  have sub: "submissionKey r' = submissionKey r" if "sr_submission r \<noteq> None"
    using that sp_change_submission [OF ch] by (auto simp: submissionKey_def)
  show "sp_extends sha256 s s'" using keep r ch by (auto simp: sp_extends_def get)
  have own: "sr_id x = j \<and> (sr_submission x \<noteq> None \<longrightarrow> published s' x)" if x: "js_get (sp_records s') j = Some x" for j x
  proof (cases "j = i")
    case True
    then have "x = r'" using x get by simp
    moreover have "published s' r'" if "sr_submission r' \<noteq> None"
    proof (cases "sr_submission r")
      case None
      then show ?thesis using pub that by simp
    next
      case (Some b)
      then show ?thesis using sp_invD(2) [OF inv r] published_mono [OF keep _ idn] by simp
    qed
    ultimately show ?thesis using True d sp_invD(1) [OF inv r] by simp
  next
    case False
    then have "js_get (sp_records s) j = Some x" using x get by simp
    then show ?thesis using sp_invD(1,2) [OF inv] published_mono [OF keep _ refl] by blast
  qed
  have prep: "j = k" if "js_get (sp_records s') j = Some x" "js_get (sp_records s') k = Some y" "sr_actor x = sr_actor y"
    "sr_preparationKey x = sr_preparationKey y" for j k x y
    using that sp_invD(3) [OF inv] r d unfolding get by (auto split: if_splits)
  have subs: "j = k" if "js_get (sp_records s') j = Some x" "js_get (sp_records s') k = Some y" "sr_actor x = sr_actor y"
    "submissionKey x \<noteq> None" "submissionKey x = submissionKey y" for j k x y
  proof (rule ccontr)
    assume ne: "j \<noteq> k"
    have half: False if h: "js_get (sp_records s) k' = Some z" "k' \<noteq> i" "sr_actor z = sr_actor r" "submissionKey r' \<noteq> None"
      "submissionKey z = submissionKey r'" for k' z
    proof (cases "sr_submission r")
      case None
      then show ?thesis using key [OF None h(1,2,3,4)] h(5) by simp
    next
      case (Some b)
      then show ?thesis using sub sp_invD(4) [OF inv h(1) r] h by simp
    qed
    consider "j = i" "k \<noteq> i" | "k = i" "j \<noteq> i" | "j \<noteq> i" "k \<noteq> i" using ne by blast
    then show False
    proof cases
      case 1
      then have x: "x = r'" and y: "js_get (sp_records s) k = Some y" using that(1,2) unfolding get by simp_all
      have "sr_actor y = sr_actor r" "submissionKey r' \<noteq> None" "submissionKey y = submissionKey r'"
        using that(3,4,5) d unfolding x by metis+
      then show False by (rule half [OF y 1(2)])
    next
      case 2
      then have y: "y = r'" and x: "js_get (sp_records s) j = Some x" using that(1,2) unfolding get by simp_all
      have "sr_actor x = sr_actor r" "submissionKey r' \<noteq> None" "submissionKey x = submissionKey r'"
        using that(3,4,5) d unfolding y by metis+
      then show False by (rule half [OF x 2(2)])
    next
      case 3
      then have "js_get (sp_records s) j = Some x" "js_get (sp_records s) k = Some y" using that(1,2) unfolding get by simp_all
      then show False using ne sp_invD(4) [OF inv, of j x k y] that(3,4,5) by blast
    qed
  qed
  have cnt: "count_values (\<lambda>x. accountId (sr_actor x) = a) (sp_records s') \<le> recordsPerAccount_sp" for a
  proof -
    have "count_values (\<lambda>x. accountId (sr_actor x) = a) (sp_records s) \<le> recordsPerAccount_sp"
      using inv unfolding sp_inv_def by blast
    moreover have "accountId (sr_actor r') = accountId (sr_actor r)" using d by simp
    ultimately show ?thesis unfolding recs using count_values_replace [OF r, of "\<lambda>x. accountId (sr_actor x) = a" r'] by simp
  qed
  have "js_wf (sp_records s')" using inv by (simp add: recs sp_inv_def)
  then show "sp_inv s'" using own prep subs cnt by (rule sp_invI)
qed

lemma observe_sp_step:
  assumes inv: "sp_inv s" and o: "observe_sp i revision obs s = (r, s')"
  shows "sp_inv s' \<and> sp_extends sha256 s s'"
proof (cases r)
  case (Inl e)
  then show ?thesis using observe_sp_Inl o inv by fastforce
next
  case (Inr x)
  from o [unfolded Inr] obtain y where y: "js_get (sp_records s) i = Some y"
    "s' = s \<and> x = y \<and> sr_revision y \<noteq> revision \<or> sr_revision y = revision \<and>
       x = y\<lparr>sr_revision := sr_revision y + 1, sr_observations := obs\<rparr> \<and> s' = s\<lparr>sp_records := js_set i x (sp_records s)\<rparr>"
    by (rule observe_sp_Inr)
  show ?thesis
  proof (cases "s' = s")
    case False
    with y(2) have x: "x = y\<lparr>sr_revision := sr_revision y + 1, sr_observations := obs\<rparr>"
      "s' = s\<lparr>sp_records := js_set i x (sp_records s)\<rparr>" by blast+
    have "sp_change sha256 y x" unfolding x(1) by (rule sp_change.Observed)
    from sp_update [OF inv y(1) this, of s'] x show ?thesis by (simp add: sp_keeps_def submissionKey_def)
  qed (use inv in simp)
qed

lemma settle_sp_step:
  assumes inv: "sp_inv s" and o: "settle_sp sha256 i h given rt b s = (r, s')"
  shows "sp_inv s' \<and> sp_extends sha256 s s'"
proof (cases r)
  case (Inl e)
  then show ?thesis using settle_sp_Inl o inv by fastforce
next
  case (Inr x)
  from o [unfolded Inr] obtain y runtime binding where y: "js_get (sp_records s) i = Some y"
    "settled_sp sha256 y h given runtime binding = Inr x" "s' = s\<lparr>sp_records := js_set i x (sp_records s)\<rparr>"
    by (rule settle_sp_Inr)
  have "sr_submission y \<noteq> None" using y(2) by (cases rule: settled_sp_cases) simp_all
  with sp_update [OF inv y(1) sp_change.Settled [OF y(2)], of s'] y(3) show ?thesis by (simp add: sp_keeps_def)
qed

lemma fresh_count:
  assumes "js_get m k = None" and "\<forall>a. count_values (\<lambda>r. f r = a) m \<le> n" and "count_values (\<lambda>x. f x = f v) m < n"
  shows "count_values (\<lambda>r. f r = a) (js_set k v m) \<le> n"
  using assms(3) assms(2) [rule_format, of a] unfolding count_values_fresh [OF assms(1)] by (auto split: if_splits)

lemma create_sp_step:
  assumes inv: "sp_inv s" and o: "create_sp authority waited input now s = (r, s')"
  shows "sp_inv s' \<and> sp_extends sha256 s s'"
proof (cases r)
  case (Inl e)
  then show ?thesis using create_sp_Inl o inv by fastforce
next
  case (Inr x)
  from o [unfolded Inr] show ?thesis
  proof (cases rule: create_sp_Inr)
    case fresh
    have sub: "sr_submission input = None"
      using fresh(4) by (auto simp: assertNew_sp_def bindR_eq_Inr ensure_eq_Inr)
    have get: "js_get (sp_records s') = (js_get (sp_records s))(sr_id input \<mapsto> input)" by (simp add: fresh(6) fun_eq_iff)
    have keep: "sp_keeps s s'" by (simp add: fresh(6) sp_keeps_def)
    have none: "submissionKey input = None" using sub by (simp add: submissionKey_def)
    have old: "j = sr_id input \<and> y = input \<or> j \<noteq> sr_id input \<and> js_get (sp_records s) j = Some y"
      if "js_get (sp_records s') j = Some y" for j y using that unfolding get by (simp split: if_splits)
    have new: "\<not> (sr_actor y = sr_actor input \<and> sr_preparationKey y = sr_preparationKey input)" if "js_get (sp_records s) j = Some y" for j y
      using fresh(1) js_get_in_values [OF that] by (auto simp: find_None_iff samePreparation_def)
    have "sp_inv s'"
    proof (rule sp_invI)
      show "js_wf (sp_records s')" using inv by (simp add: fresh(6) sp_inv_def)
      show "sr_id y = j \<and> (sr_submission y \<noteq> None \<longrightarrow> published s' y)" if "js_get (sp_records s') j = Some y" for j y
        using that sub sp_invD(1,2) [OF inv, of j y] published_mono [OF keep _ refl] unfolding get
        by (cases "j = sr_id input") auto
      show "j = k" if "js_get (sp_records s') j = Some y" "js_get (sp_records s') k = Some z" "sr_actor y = sr_actor z"
        "sr_preparationKey y = sr_preparationKey z" for j k y z
        using old [OF that(1)] old [OF that(2)] sp_invD(3) [OF inv, of j y k z] new that(3,4) by metis
      show "j = k" if "js_get (sp_records s') j = Some y" "js_get (sp_records s') k = Some z" "sr_actor y = sr_actor z"
        "submissionKey y \<noteq> None" "submissionKey y = submissionKey z" for j k y z
        using old [OF that(1)] old [OF that(2)] sp_invD(4) [OF inv, of j y k z] none that(3,4,5) by metis
      have "\<forall>a. count_values (\<lambda>r. accountId (sr_actor r) = a) (sp_records s) \<le> recordsPerAccount_sp"
        using inv unfolding sp_inv_def by blast
      from fresh_count [OF fresh(2) this fresh(5)]
      show "count_values (\<lambda>r. accountId (sr_actor r) = a) (sp_records s') \<le> recordsPerAccount_sp" for a by (simp add: fresh(6))
    qed
    moreover have "sp_extends sha256 s s'" using keep fresh(2) by (auto simp: sp_extends_def get)
    ultimately show ?thesis by blast
  qed (use inv in simp)
qed

lemma reserveForward_keeps:
  assumes "reserveForward r s = (Inr u, s')"
  shows "sp_keeps s s'" and "sp_records s' = sp_records s" and "published s' r"
proof -
  from assms obtain ks t where k: "forwardNonceKeys (sr_requests r) = Inr ks"
    "\<forall>k \<in> set ks. js_get (sp_nonces s) (forwardNonceId k) \<in> {None, Some (sr_id r)}"
    "claim_transport (sr_planId r) (map pf_stepIndex (sr_requests r)) Relayr (sr_id r) (sp_transports s) = (Inr (), t)"
    "s' = s\<lparr>sp_transports := t, sp_nonces := fold (\<lambda>nonce. js_set nonce (sr_id r)) (map forwardNonceId ks) (sp_nonces s)\<rparr>"
    by (rule reserveForward_Inr)
  show "sp_records s' = sp_records s" using k(4) by simp
  have n: "js_get (sp_nonces s') n = (if n \<in> forwardNonceId ` set ks then Some (sr_id r) else js_get (sp_nonces s) n)" for n
    unfolding k(4) using js_get_fold_set [of "sr_id r" "map forwardNonceId ks" "sp_nonces s" n] by simp
  have b: "boundTo (sp_transports s') p i = Some x" if "boundTo (sp_transports s) p i = Some x" for p i x
    using ledger.bound_step [OF ledger.ledger_stepI [OF k(3)] that] by (simp add: k(4))
  have "js_get (sp_nonces s') n = Some i" if "js_get (sp_nonces s) n = Some i" for n i
    using n [of n] k(2) that by fastforce
  with b show "sp_keeps s s'" by (simp add: sp_keeps_def)
  have "boundTo (sp_transports s') (sr_planId r) (pf_stepIndex q) = Some (Relayr, sr_id r)" if "q \<in> set (sr_requests r)" for q
    using ledger.claim_binds [OF k(3), of "sr_planId r" "pf_stepIndex q"] that by (simp add: k(4))
  moreover have "js_get (sp_nonces s') (forwardNonceId k) = Some (sr_id r)" if "k \<in> set ks" for k using n that by simp
  ultimately show "published s' r" using k(1) by (auto simp: published_def)
qed

lemma published_cong: "sp_nonces s' = sp_nonces s \<Longrightarrow> sp_transports s' = sp_transports s \<Longrightarrow> sp_identity r' = sp_identity r \<Longrightarrow>
    published s' r' = published s r"
  by (auto simp: published_def dest!: sp_identityD)

lemma claim_sp_step:
  assumes inv: "sp_inv s" and o: "claim_sp authority waited input s = (r, s')"
  shows "sp_inv s' \<and> sp_extends sha256 s s'"
proof (cases r)
  case (Inl e)
  then show ?thesis using claim_sp_Inl o inv by fastforce
next
  case (Inr v)
  obtain x dispatch where v: "v = (x, dispatch)" by (cases v)
  from o [unfolded Inr v] obtain y s1 where y: "js_get (sp_records s) (sc_id input) = Some y"
    "\<forall>z \<in> set (js_values (sp_records s)). sr_id z \<noteq> sc_id input \<longrightarrow> sr_actor z = sc_actor input \<longrightarrow>
       (case sr_submission z of None \<Rightarrow> True | Some b \<Rightarrow> ss_key b \<noteq> sc_key input)"
    "claimed_sp y (input\<lparr>sc_now := sc_now input + waited\<rparr>) = Inr (x, dispatch)"
    "if dispatch then reserveForward y s = (Inr (), s1) else s1 = s"
    "s' = s1\<lparr>sp_records := js_set (sr_id y) x (sp_records s1)\<rparr>"
    by (rule claim_sp_Inr)
  have ch: "sp_change sha256 y x" using y(3) by (rule sp_change.Claimed)
  have idn: "sp_identity x = sp_identity y" using sp_change_revision [OF ch] by simp
  have yi: "sr_id y = sc_id input" using sp_invD(1) [OF inv y(1)] .
  have s1: "sp_keeps s s1" "sp_records s1 = sp_records s" "dispatch \<longrightarrow> published s1 y"
    by (cases dispatch; use y(4) reserveForward_keeps [of y s "()" s1] in simp)+
  have keep: "sp_keeps s s'" using s1(1) by (simp add: sp_keeps_def y(5))
  have recs: "sp_records s' = js_set (sc_id input) x (sp_records s)" by (simp add: y(5) s1(2) yi)
  have dis: "dispatch" if "sr_submission y = None"
    using y(3) by (cases rule: claimed_sp_cases) (use that in simp_all)
  have pub: "published s' x" if "sr_submission y = None"
    using dis [OF that] s1(3) published_cong [of s' s1 x y] idn by (simp add: y(5))
  have key: "submissionKey z \<noteq> submissionKey x"
    if z: "sr_submission y = None" "js_get (sp_records s) j = Some z" "j \<noteq> sc_id input" "sr_actor z = sr_actor y" for j z
  proof -
    have act: "sr_actor y = sc_actor input" and kx: "submissionKey x = Some (sc_key input)"
      using y(3) by (cases rule: claimed_sp_cases; use z(1) in \<open>simp add: submissionKey_def\<close>)+
    show ?thesis
      using bspec [OF y(2) js_get_in_values [OF z(2)]] sp_invD(1) [OF inv z(2)] z(3,4) act unfolding kx
      by (auto simp: submissionKey_def split: option.splits)
  qed
  show ?thesis using sp_update [OF inv y(1) ch keep recs] pub key by blast
qed

section \<open>Runs\<close>

inductive sp_step :: "(string \<Rightarrow> string) \<Rightarrow> SponsorshipStore \<Rightarrow> SponsorshipStore \<Rightarrow> bool" for sha256 where
  Create: "create_sp authority waited input now s = (r, s') \<Longrightarrow> sp_step sha256 s s'"
| Claim: "claim_sp authority waited claim s = (rd, s') \<Longrightarrow> sp_step sha256 s s'"
| Settle: "settle_sp sha256 i h given runtime binding s = (r, s') \<Longrightarrow> sp_step sha256 s s'"
| Observe: "observe_sp i revision observations s = (r, s') \<Longrightarrow> sp_step sha256 s s'"
| OtherStore: "claim_transport i indexes transport bindingId (sp_transports s) = (u, t) \<Longrightarrow>
     sp_step sha256 s (s\<lparr>sp_transports := t\<rparr>)"

lemma sp_step_inv: "sp_step sha256 s s' \<Longrightarrow> sp_inv s \<Longrightarrow> sp_inv s' \<and> sp_extends sha256 s s'"
proof (induction rule: sp_step.induct)
  case (OtherStore i indexes transport bindingId s u t)
  have keep: "sp_keeps s (s\<lparr>sp_transports := t\<rparr>)"
    using ledger.bound_step [OF ledger.ledger_stepI [OF OtherStore(1)]] by (simp add: sp_keeps_def)
  have recs: "sp_records (s\<lparr>sp_transports := t\<rparr>) = sp_records s" by simp
  have "sp_inv (s\<lparr>sp_transports := t\<rparr>)"
  proof (rule sp_invI)
    show "sr_id y = j \<and> (sr_submission y \<noteq> None \<longrightarrow> published (s\<lparr>sp_transports := t\<rparr>) y)"
      if "js_get (sp_records (s\<lparr>sp_transports := t\<rparr>)) j = Some y" for j y
      using that sp_invD(1,2) [OF OtherStore(2)] published_mono [OF keep _ refl] by simp
    show "js_wf (sp_records (s\<lparr>sp_transports := t\<rparr>))" using OtherStore(2) by (simp add: sp_inv_def)
    show "j = k" if "js_get (sp_records (s\<lparr>sp_transports := t\<rparr>)) j = Some y" "js_get (sp_records (s\<lparr>sp_transports := t\<rparr>)) k = Some z"
      "sr_actor y = sr_actor z" "sr_preparationKey y = sr_preparationKey z" for j k y z
      using that unfolding recs by (rule sp_invD(3) [OF OtherStore(2)])
    show "j = k" if "js_get (sp_records (s\<lparr>sp_transports := t\<rparr>)) j = Some y" "js_get (sp_records (s\<lparr>sp_transports := t\<rparr>)) k = Some z"
      "sr_actor y = sr_actor z" "submissionKey y \<noteq> None" "submissionKey y = submissionKey z" for j k y z
      using that unfolding recs by (rule sp_invD(4) [OF OtherStore(2)])
    show "count_values (\<lambda>r. accountId (sr_actor r) = a) (sp_records (s\<lparr>sp_transports := t\<rparr>)) \<le> recordsPerAccount_sp" for a
      unfolding recs using OtherStore(2) unfolding sp_inv_def by blast
  qed
  with keep show ?case by (auto simp: sp_extends_def)
qed (rule create_sp_step claim_sp_step settle_sp_step observe_sp_step; assumption)+

interpretation sp_store: evolving_store "sp_step sha256" sp_inv "sp_extends sha256" emptySponsorshipStore for sha256
  by unfold_locales (rule sp_step_inv sp_extends_refl sp_extends_trans sp_inv_empty; assumption)+

lemmas sp_run = sp_store.run

end
