(* ===== verification/SponsorshipProperties.thy ===== *)
theory SponsorshipProperties
  imports SponsorshipInvariants TransactionSamples
begin

text \<open>
  The properties of the sponsorship store, with a sample preparation that is published and quoted.
\<close>

section \<open>Properties\<close>

lemmas sp_reach = sp_store.reach

lemma forwardNonceKeys_mem:
  "forwardNonceKeys requests = Inr ks \<Longrightarrow> q \<in> set requests \<Longrightarrow> forwardNonceKey q = Inr k \<Longrightarrow> k \<in> set ks"
proof -
  assume "forwardNonceKeys requests = Inr ks" and q: "q \<in> set requests" and k: "forwardNonceKey q = Inr k"
  then obtain us where us: "mapR forwardNonceKey requests = Inr us" "ks = sort_by fk_le us"
    by (auto simp: forwardNonceKeys_def bindR_eq_Inr)
  from q obtain n where n: "n < length requests" "requests ! n = q" by (auto simp: in_set_conv_nth)
  have "us ! n = k" using mapR_nth [OF us(1) n(1)] n(2) k by simp
  moreover have "n < length us" using mapR_length [OF us(1)] n(1) by simp
  ultimately show "k \<in> set ks" using us(2) nth_mem by fastforce
qed

text \<open>
  C20. A forwarding nonce is published once. In every reachable state of the sponsorship store, two published
  preparations that use the same nonce of the same sender at the same forwarder are the same
  preparation, whoever made them and whatever plan they belong to.
\<close>

theorem forward_nonce_exclusive:
  assumes "(sp_step sha256)\<^sup>*\<^sup>* emptySponsorshipStore s"
    and "js_get (sp_records s) i = Some r" and "js_get (sp_records s) j = Some x"
    and "sr_submission r \<noteq> None" and "sr_submission x \<noteq> None"
    and "q \<in> set (sr_requests r)" and "p \<in> set (sr_requests x)"
    and "forwardNonceKey q = Inr k" and "forwardNonceKey p = Inr k"
  shows "i = j"
proof -
  note inv = sp_reach [OF assms(1)]
  have "js_get (sp_nonces s) (forwardNonceId k) = Some (sr_id r)" "js_get (sp_nonces s) (forwardNonceId k) = Some (sr_id x)"
    using sp_invD(2) [OF inv assms(2,4)] sp_invD(2) [OF inv assms(3,5)] forwardNonceKeys_mem assms(6-9)
    unfolding published_def by blast+
  then show ?thesis using sp_invD(1) [OF inv assms(2)] sp_invD(1) [OF inv assms(3)] by simp
qed

text \<open>
  A preparation is handed to the relayer once. When \<^verbatim>\<open>claim\<close> answers \<^verbatim>\<open>dispatch: true\<close>, the actor was entitled to relay,
  the preparation was unpublished and unexpired, its steps are bound to it in the reservations that
  all stores share, now and in every later state, and no later claim of it is answered \<^verbatim>\<open>dispatch: true\<close>.
\<close>

lemma sponsorship_dispatched_once:
  assumes "(sp_step sha256)\<^sup>*\<^sup>* emptySponsorshipStore s" and "claim_sp g waited input s = (Inr (r, True), s1)"
    and "(sp_step sha256)\<^sup>*\<^sup>* s1 s2"
  shows "g (sc_actor input) [Relay] (sc_now input div 1000) = Inr () \<and>
     (\<exists>x. js_get (sp_records s) (sc_id input) = Some x \<and> sr_submission x = None \<and> sc_now input + waited < sr_expiresAt x \<and>
        (\<forall>q \<in> set (sr_requests x). boundTo (sp_transports s2) (sr_planId x) (pf_stepIndex q) = Some (Relayr, sc_id input))) \<and>
     (sc_id input' = sc_id input \<longrightarrow> fst (claim_sp g' waited' input' s2) \<noteq> Inr (r', True))"
proof -
  note inv = sp_reach [OF assms(1)]
  from assms(2) obtain y t where y: "js_get (sp_records s) (sc_id input) = Some y" "g (sc_actor input) [Relay] (sc_now input div 1000) = Inr ()"
    "claimed_sp y (input\<lparr>sc_now := sc_now input + waited\<rparr>) = Inr (r, True)" "reserveForward y s = (Inr (), t)"
    "s1 = t\<lparr>sp_records := js_set (sr_id y) r (sp_records t)\<rparr>"
    by (rule claim_sp_Inr) (simp only: if_True)
  have fresh: "sr_submission y = None" "sc_now input + waited < sr_expiresAt y" "sr_submission r \<noteq> None" "sp_identity r = sp_identity y"
    using y(3) by (cases rule: claimed_sp_cases; simp add: sp_identity_def)+
  have yi: "sr_id y = sc_id input" using sp_invD(1) [OF inv y(1)] .
  have inv1: "sp_inv s1" using claim_sp_step [OF inv assms(2)] by simp
  have inv2: "sp_inv s2" and ext: "sp_extends sha256 s1 s2" using sp_run [OF assms(3) inv1] by simp_all
  have r1: "js_get (sp_records s1) (sc_id input) = Some r" by (simp add: y(5) yi)
  with ext obtain r2 where r2: "js_get (sp_records s2) (sc_id input) = Some r2" "(sp_change sha256)\<^sup>*\<^sup>* r r2"
    unfolding sp_extends_def by blast
  have sub2: "sr_submission r2 \<noteq> None" using fresh(3) sp_history_submission [OF r2(2)] by auto
  have id2: "sp_identity r2 = sp_identity y" using sp_history.history_identity [OF r2(2)] fresh(4) by simp
  note d = sp_identityD [OF id2]
  have bound: "boundTo (sp_transports s2) (sr_planId y) (pf_stepIndex q) = Some (Relayr, sc_id input)" if "q \<in> set (sr_requests y)" for q
    using sp_invD(2) [OF inv2 r2(1) sub2] that d yi unfolding published_def by simp
  have no: "fst (claim_sp g' waited' input' s2) \<noteq> Inr (r', True)" if i: "sc_id input' = sc_id input"
  proof
    assume "fst (claim_sp g' waited' input' s2) = Inr (r', True)"
    then obtain s3 where "claim_sp g' waited' input' s2 = (Inr (r', True), s3)" by (cases "claim_sp g' waited' input' s2") simp
    then obtain z where z: "js_get (sp_records s2) (sc_id input') = Some z"
      "claimed_sp z (input'\<lparr>sc_now := sc_now input' + waited'\<rparr>) = Inr (r', True)" by (rule claim_sp_Inr)
    have "z = r2" using z(1) r2(1) i by simp
    with z(2) sub2 show False by (auto elim: claimed_sp_cases)
  qed
  show ?thesis using y(1,2) fresh(1,2) bound no by blast
qed

text \<open>
  A verified quote is final. Once the quote of a publication was verified, or predates verification, the record keeps
  that quote whatever the relayer answers later; before that, only a quote with the same calls,
  payments and set of transaction ids can take its place.
\<close>

lemma quote_is_final:
  assumes "(sp_step sha256)\<^sup>*\<^sup>* emptySponsorshipStore s" and "js_get (sp_records s) i = Some r" and "sr_quote r = Some q"
    and "(sp_step sha256)\<^sup>*\<^sup>* s s'"
  shows "\<exists>r' q'. js_get (sp_records s') i = Some r' \<and> sr_quote r' = Some q' \<and>
     (sr_quoteBindingVerified r \<noteq> Some False \<or> sr_quoteRuntimeVerified r = Some True \<longrightarrow> q' = q) \<and>
     quoteIdentity sha256 q' = quoteIdentity sha256 q"
proof -
  have "sp_extends sha256 s s'" using sp_run [OF assms(4) sp_reach [OF assms(1)]] by simp
  with assms(2) obtain r' where r': "js_get (sp_records s') i = Some r'" "(sp_change sha256)\<^sup>*\<^sup>* r r'"
    unfolding sp_extends_def by blast
  with sp_history_quote [OF r'(2) assms(3)] show ?thesis by (auto simp: quoteFixed_def)
qed

text \<open>
  What was prepared is what is published. The reviewed part of a sponsorship record never changes, a submission once made
  never changes, and an unchanged revision is an unchanged record, so the compare-and-swap of
  \<^verbatim>\<open>observe\<close> loses no update.
\<close>

lemma sponsorship_record_sound:
  assumes "(sp_step sha256)\<^sup>*\<^sup>* emptySponsorshipStore s" and "js_get (sp_records s) i = Some r" and "(sp_step sha256)\<^sup>*\<^sup>* s s'"
  shows "\<exists>r'. js_get (sp_records s') i = Some r' \<and> sr_id r' = i \<and> sr_actor r' = sr_actor r \<and> sr_planId r' = sr_planId r \<and>
     sr_requests r' = sr_requests r \<and> sr_commitment r' = sr_commitment r \<and> sr_expiresAt r' = sr_expiresAt r \<and>
     (sr_submission r \<noteq> None \<longrightarrow> sr_submission r' = sr_submission r) \<and> (sr_revision r' = sr_revision r \<longrightarrow> r' = r)"
proof -
  have inv: "sp_inv s" "sp_inv s'" and "sp_extends sha256 s s'"
    using sp_reach [OF assms(1)] sp_run [OF assms(3) sp_reach [OF assms(1)]] by simp_all
  with assms(2) obtain r' where r': "js_get (sp_records s') i = Some r'" "(sp_change sha256)\<^sup>*\<^sup>* r r'"
    unfolding sp_extends_def by blast
  note d = sp_identityD [OF sp_history.history_identity [OF r'(2) TrueI]]
  show ?thesis
    using r' d sp_invD(1) [OF inv(2) r'(1)] sp_history.revision_determines [OF r'(2)] sp_history_submission [OF r'(2)] by auto
qed

text \<open>
  Preparing is idempotent. While a preparation
  key of an actor names a preparation, preparing again with the same input returns it and changes
  nothing, and another input is refused with a conflict.
\<close>

lemma sponsorship_create_idempotent:
  assumes "(sp_step sha256)\<^sup>*\<^sup>* emptySponsorshipStore s" and "js_get (sp_records s) i = Some r"
    and "assertNew_sp input now = Inr ()" and "g (sr_actor input) [Plan] (now div 1000) = Inr ()"
    and "sr_actor input = sr_actor r" and "sr_preparationKey input = sr_preparationKey r"
    and "cloneRecord_sp r = Inr r"
  shows "create_sp g waited input now s =
     (if same (sr_inputHash r) (sr_inputHash input) then (Inr r, s) else (Inl conflict_sp, s))"
proof -
  note inv = sp_reach [OF assms(1)]
  let ?P = "samePreparation (sr_actor input) (sr_preparationKey input)"
  have wf: "js_wf (sp_records s)" using inv by (simp add: sp_inv_def)
  have "x = r" if x: "x \<in> set (js_values (sp_records s))" "?P x" for x
  proof -
    from x(1) obtain j where j: "js_get (sp_records s) j = Some x" using js_values_get [OF wf] by blast
    have "sr_actor x = sr_actor r" "sr_preparationKey x = sr_preparationKey r"
      using x(2) assms(5,6) by (auto simp: samePreparation_def intro: RestActor.equality)
    then show ?thesis using sp_invD(3) [OF inv j assms(2)] j assms(2) by simp
  qed
  moreover have "r \<in> set (js_values (sp_records s)) \<and> ?P r"
    using js_get_in_values [OF assms(2)] assms(5,6) by (simp add: samePreparation_def)
  ultimately have f: "List.find ?P (js_values (sp_records s)) = Some r"
    by (metis find_None_iff find_Some_iff nth_mem option.exhaust)
  have c: "cloneRecord_sp input = Inr input"
    using assms(3) by (auto simp: assertNew_sp_def bindR_eq_Inr clone_sp_Inr)
  show ?thesis using assms(3,4,7) by (simp add: create_sp_def c f)
qed

text \<open>
  An operation of the sponsorship store that throws has changed nothing, in particular no nonce and no
  transport stays reserved when a claim fails half way.
\<close>

lemma sponsorship_failure_changes_nothing:
  assumes "create_sp g waited input now s = (Inl e, s') \<or> claim_sp g waited claim s = (Inl e, s') \<or>
     settle_sp sha256 i h given runtime binding s = (Inl e, s') \<or> observe_sp i revision observations s = (Inl e, s')"
  shows "s' = s"
  using assms by (elim disjE) (rule create_sp_Inl claim_sp_Inl settle_sp_Inl observe_sp_Inl; assumption)+

section \<open>Samples\<close>

definition sampleForward :: PreparedForwardRequest where
  "sampleForward = \<lparr>pf_stepIndex = 0, pf_chainId = 1, pf_forwarder = hex40 CHR ''f'', pf_forwarderCodeHash = hex64 CHR ''1'',
     pf_targetCodeHash = hex64 CHR ''2'', pf_domain = \<lparr>fd_name = ''F'', fd_version = ''1'', fd_chainId = 1, fd_verifyingContract = hex40 CHR ''f''\<rparr>,
     pf_message = \<lparr>fr_from = hex40 CHR ''a'', fr_to = hex40 CHR ''b'', fr_value = ''0'', fr_gas = ''21000'', fr_nonce = ''7'',
       fr_deadline = ''99'', fr_data = ''0x''\<rparr>,
     pf_evidence = \<lparr>ev_chainId = 1, ev_blockNumber = ''1'', ev_blockHash = hex64 CHR ''3'', ev_timestamp = ''1''\<rparr>\<rparr>"

definition sampleSponsorship :: SponsorshipRecord where
  "sampleSponsorship = \<lparr>sr_id = ''sp1'', sr_actor = alice, sr_planId = ''p1'', sr_planCommitment = hex64 CHR ''4'',
     sr_preparationKey = ''k'', sr_inputHash = hex64 CHR ''5'', sr_commitment = hex64 CHR ''6'', sr_requests = [sampleForward],
     sr_createdAt = 1000, sr_expiresAt = 900000, sr_revision = 0, sr_state = SPrepared, sr_submission = None, sr_quote = None,
     sr_quoteBindingVerified = None, sr_quoteRuntimeVerified = None, sr_observations = []\<rparr>"

definition sampleEntryR :: RelayrEntry where
  "sampleEntryR = \<lparr>re_chain = 1, re_target = hex40 CHR ''f'', re_data = ''0x'', re_value = ''0'', re_virtual_nonce = 0\<rparr>"

definition sampleSpClaim :: SponsorshipClaim where
  "sampleSpClaim = \<lparr>sc_actor = alice, sc_id = ''sp1'', sc_key = ''pub'', sc_hash = hex64 CHR ''7'', sc_entries = [sampleEntryR],
     sc_now = 2000, sc_authorization = None\<rparr>"

definition samplePublished :: SponsorshipRecord where
  "samplePublished = sampleSponsorship\<lparr>sr_revision := 1, sr_state := SSubmitting,
     sr_submission := Some \<lparr>ss_key = ''pub'', ss_hash = hex64 CHR ''7'', ss_entries = [sampleEntryR], ss_startedAt = 2000\<rparr>\<rparr>"

definition sampleQuote :: RelayrQuote where
  "sampleQuote = \<lparr>rq_bundleUuid = ''b'', rq_entries = [\<lparr>qe_txUuid = ''t'', qe_entry = sampleEntryR\<rparr>], rq_payments = [],
     rq_commitment = hex64 CHR ''8'', rq_observedAt = 2500\<rparr>"

definition sampleQuoted :: SponsorshipRecord where
  "sampleQuoted = samplePublished\<lparr>sr_revision := 2, sr_state := SQuoted, sr_quote := Some sampleQuote,
     sr_quoteBindingVerified := Some True, sr_quoteRuntimeVerified := Some True\<rparr>"

definition sampleNonce :: ForwardNonceKey where
  "sampleNonce = \<lparr>fk_chainId = 1, fk_forwarder = hex40 CHR ''f'', fk_sender = hex40 CHR ''a'', fk_nonce = ''7''\<rparr>"

definition sampleSp1 :: SponsorshipStore where
  "sampleSp1 = \<lparr>sp_records = [(''sp1'', sampleSponsorship)], sp_nonces = [], sp_transports = []\<rparr>"

definition sampleSp2 :: SponsorshipStore where
  "sampleSp2 = \<lparr>sp_records = [(''sp1'', samplePublished)], sp_nonces = [(forwardNonceId sampleNonce, ''sp1'')],
     sp_transports = [(''p1'', [(0, \<lparr>rv_transport = Relayr, rv_bindingId = ''sp1''\<rparr>)])]\<rparr>"

definition sampleSp3 :: SponsorshipStore where
  "sampleSp3 = sampleSp2\<lparr>sp_records := [(''sp1'', sampleQuoted)]\<rparr>"

lemmas sp_sample_defs = sampleForward_def sampleSponsorship_def sampleEntryR_def sampleSpClaim_def samplePublished_def
  sampleQuote_def sampleQuoted_def alice_def hex40_def hex64_def

lemmas sp_json_defs = json_of_SponsorshipRecord_def json_of_PreparedForwardRequest_def json_of_ForwardRequest_def
  json_of_ForwardDomain_def json_of_RestBlockEvidence_def json_of_RestActor_def json_of_RelayrEntry_def
  json_of_SponsorshipSubmission_def json_of_RelayrQuote_def json_of_QuotedEntry_def json_of_RelayrPayment_def quotePayload_def
  json_of_SponsorshipClaim_def text_of_SponsorshipState_def optField_def maximumBytes_sp_def

lemma sample_clones: "cloneRecord_sp sampleSponsorship = Inr sampleSponsorship" "cloneRecord_sp samplePublished = Inr samplePublished"
  "cloneRecord_sp sampleQuoted = Inr sampleQuoted" "clone_sp json_of_SponsorshipClaim sampleSpClaim = Inr sampleSpClaim"
  "clone_sp (\<lambda>es. JArr (map json_of_RelayrEntry es)) [sampleEntryR] = Inr [sampleEntryR]"
  by (rule clone_sp_bound; simp add: sp_sample_defs sp_json_defs)+

lemma hex64_digits: "c \<in> set ''12345678'' \<Longrightarrow> isHash (hex64 c)"
  by (auto simp: hex64_def hexOf_def list_all_iff isHexDigit_def isDigit_def code_def)

lemma sample_new_sp: "assertNew_sp sampleSponsorship 1500 = Inr ()"
proof -
  have f: "sr_actor sampleSponsorship = alice" "sr_id sampleSponsorship = ''sp1''" "sr_planId sampleSponsorship = ''p1''"
    "sr_preparationKey sampleSponsorship = ''k''" "sr_commitment sampleSponsorship = hex64 CHR ''6''"
    "sr_planCommitment sampleSponsorship = hex64 CHR ''4''" "sr_inputHash sampleSponsorship = hex64 CHR ''5''"
    "sr_state sampleSponsorship = SPrepared" "sr_revision sampleSponsorship = 0" "sr_submission sampleSponsorship = None"
    "sr_quote sampleSponsorship = None" "sr_createdAt sampleSponsorship = 1000" "sr_expiresAt sampleSponsorship = 900000"
    "sr_requests sampleSponsorship = [sampleForward]" "sr_observations sampleSponsorship = []" "pf_stepIndex sampleForward = 0"
    by (simp_all add: sampleSponsorship_def sampleForward_def)
  have t: "assertActor alice = Inr ()" "assertText ''sp1'' = Inr ()" "assertText ''p1'' = Inr ()" "assertKey ''k'' = Inr ()"
    by (simp_all add: tx_defs alice_def assertKey_def isIdempotencyKey_def isControl_def code_def)
  show ?thesis
    by (simp add: assertNew_sp_def f t hex64_digits sample_clones isSafeInteger_def MAX_SAFE_INTEGER_def maximumCalls_def)
qed

lemma sample_create_sp: "create_sp admitAll 0 sampleSponsorship 1500 emptySponsorshipStore = (Inr sampleSponsorship, sampleSp1)"
  by (simp add: create_sp_def sample_new_sp sample_clones admitAll_def emptySponsorshipStore_def recordsPerAccount_sp_def Let_def sampleSp1_def)
    (simp add: sampleSponsorship_def)

lemma sample_nonce_key: "forwardNonceKey sampleForward = Inr sampleNonce"
  by (simp add: forwardNonceKey_def sampleForward_def sampleNonce_def decimal_def isDecimal_def bigInt_def isSafeInteger_def
      MAX_SAFE_INTEGER_def hex40_def hexOf_def list_all_iff isHexDigit_def isDigit_def code_def toLowerCase_def lower_def isUpper_def
      intText_def natText.simps char_of_eq)

lemma sample_claimed_sp: "claimed_sp sampleSponsorship sampleSpClaim = Inr (samplePublished, True)"
proof -
  have f: "sr_actor sampleSponsorship = sc_actor sampleSpClaim" "sr_submission sampleSponsorship = None" "sr_state sampleSponsorship = SPrepared"
    "sr_expiresAt sampleSponsorship = 900000" "sc_now sampleSpClaim = 2000" "sc_authorization sampleSpClaim = None"
    "sc_entries sampleSpClaim = [sampleEntryR]" "sr_revision sampleSponsorship = 0" "sc_key sampleSpClaim = ''pub''" "sc_hash sampleSpClaim = hex64 CHR ''7''"
    by (simp_all add: sampleSponsorship_def sampleSpClaim_def)
  show ?thesis by (simp add: claimed_sp_def owns_sp_def f sample_clones samplePublished_def)
qed

lemma sample_reserve: "reserveForward sampleSponsorship sampleSp1 = (Inr (), sampleSp2\<lparr>sp_records := sp_records sampleSp1\<rparr>)"
proof -
  have f: "sr_requests sampleSponsorship = [sampleForward]" "sr_planId sampleSponsorship = ''p1''" "sr_id sampleSponsorship = ''sp1''"
    "pf_stepIndex sampleForward = 0" by (simp_all add: sampleSponsorship_def sampleForward_def)
  have k: "forwardNonceKeys [sampleForward] = Inr [sampleNonce]"
    by (simp add: forwardNonceKeys_def maximumCalls_def sample_nonce_key)
  have t: "claim_transport ''p1'' [0] Relayr ''sp1'' [] = (Inr (), [(''p1'', [(0, \<lparr>rv_transport = Relayr, rv_bindingId = ''sp1''\<rparr>)])])"
    by (simp add: claim_transport_def transport_parameters_def current_of_def tx_defs isControl_def code_def maximumSteps_def
        isSafeInteger_def MAX_SAFE_INTEGER_def)
  show ?thesis by (simp add: reserveForward_def f k t sampleSp1_def sampleSp2_def)
qed

lemma sample_claim_sp: "claim_sp admitAll 0 sampleSpClaim sampleSp1 = (Inr (samplePublished, True), sampleSp2)"
proof -
  have c: "assertClaim_sp sampleSpClaim = Inr ()"
  proof -
    have f: "sc_actor sampleSpClaim = alice" "sc_id sampleSpClaim = ''sp1''" "sc_key sampleSpClaim = ''pub''" "sc_hash sampleSpClaim = hex64 CHR ''7''"
      "sc_now sampleSpClaim = 2000" "sc_entries sampleSpClaim = [sampleEntryR]" by (simp_all add: sampleSpClaim_def)
    have t: "assertActor alice = Inr ()" "assertText ''sp1'' = Inr ()" "assertKey ''pub'' = Inr ()"
      by (simp_all add: tx_defs alice_def assertKey_def isIdempotencyKey_def isControl_def code_def)
    show ?thesis by (simp add: assertClaim_sp_def f t hex64_digits sample_clones isSafeInteger_def MAX_SAFE_INTEGER_def maximumCalls_def)
  qed
  have f: "sc_id sampleSpClaim = ''sp1''" "sr_id sampleSponsorship = ''sp1''" "sampleSpClaim\<lparr>sc_now := sc_now sampleSpClaim + 0\<rparr> = sampleSpClaim"
    "sp_records sampleSp1 = [(''sp1'', sampleSponsorship)]"
    by (simp_all add: sampleSpClaim_def sampleSponsorship_def sampleSp1_def)
  show ?thesis
    by (simp add: claim_sp_def c admitAll_def f sample_claimed_sp sample_clones sample_reserve) (simp add: sampleSp2_def)
qed

lemma sample_settle_sp: "settle_sp sha256 ''sp1'' (hex64 CHR ''7'') (Some sampleQuote) None None sampleSp2 = (Inr sampleQuoted, sampleSp3)"
proof -
  have f: "sr_submission samplePublished = Some \<lparr>ss_key = ''pub'', ss_hash = hex64 CHR ''7'', ss_entries = [sampleEntryR], ss_startedAt = 2000\<rparr>"
    "sr_quote samplePublished = None" "sr_revision samplePublished = 1" by (simp_all add: samplePublished_def sampleSponsorship_def)
  have "settled_sp sha256 samplePublished (hex64 CHR ''7'') (Some sampleQuote) True True = cloneRecord_sp sampleQuoted"
    by (simp add: settled_sp_def f sampleQuoted_def)
  then show ?thesis by (simp add: settle_sp_def sampleSp2_def sampleSp3_def sample_clones)
qed

lemma sample_sp_run: "(sp_step sha256)\<^sup>*\<^sup>* emptySponsorshipStore sampleSp1" "(sp_step sha256)\<^sup>*\<^sup>* emptySponsorshipStore sampleSp2"
  "(sp_step sha256)\<^sup>*\<^sup>* sampleSp2 sampleSp3" "(sp_step sha256)\<^sup>*\<^sup>* emptySponsorshipStore sampleSp3"
proof -
  have a: "sp_step sha256 emptySponsorshipStore sampleSp1" by (rule sp_step.Create [OF sample_create_sp])
  have b: "sp_step sha256 sampleSp1 sampleSp2" by (rule sp_step.Claim [OF sample_claim_sp])
  have c: "sp_step sha256 sampleSp2 sampleSp3" by (rule sp_step.Settle [OF sample_settle_sp])
  show "(sp_step sha256)\<^sup>*\<^sup>* emptySponsorshipStore sampleSp1" using a by blast
  then show 2: "(sp_step sha256)\<^sup>*\<^sup>* emptySponsorshipStore sampleSp2" using b by (rule rtranclp.rtrancl_into_rtrancl)
  show "(sp_step sha256)\<^sup>*\<^sup>* sampleSp2 sampleSp3" using c by blast
  show "(sp_step sha256)\<^sup>*\<^sup>* emptySponsorshipStore sampleSp3" using 2 c by (rule rtranclp.rtrancl_into_rtrancl)
qed

definition noHash :: "string \<Rightarrow> string" where "noHash t = replicate 64 CHR ''0''"

theorem forward_nonce_exclusive_witness: "sr_submission samplePublished \<noteq> None \<and> ''sp1'' = (''sp1''::string)"
proof -
  have "js_get (sp_records sampleSp2) ''sp1'' = Some samplePublished" "sr_submission samplePublished \<noteq> None"
    "sampleForward \<in> set (sr_requests samplePublished)" by (simp_all add: sampleSp2_def samplePublished_def sampleSponsorship_def)
  then show ?thesis
    using forward_nonce_exclusive [OF sample_sp_run(2) [of noHash], of "''sp1''" samplePublished "''sp1''" samplePublished
        sampleForward sampleForward sampleNonce] sample_nonce_key by blast
qed

end
