(* ===== verification/AuthStore.thy ===== *)
theory AuthStore
  imports TransactionStore
begin

text \<open>
  The rules of account authority (\<^verbatim>\<open>src/src/rest/auth/store.ts\<close> and the principal identifiers of
  \<^verbatim>\<open>src/src/rest/wallet/appGrants.ts\<close>): accounts, bot grants, verified requests, and the one decision
  everything rests on, \<open>principalFor\<close>. The in-memory store keeps bot grants only, so the branch of
  \<^verbatim>\<open>principalFor\<close> for wallet application grants is not reached from it and not modelled.
\<close>

section \<open>Data\<close>

record Profile =
  pf_displayName :: string
  pf_bio :: string
  pf_avatarUri :: "string option"

record Account =
  ac_id :: string
  ac_ownerAddress :: string
  ac_authorityChainId :: int
  ac_profile :: Profile
  ac_createdAt :: int
  ac_updatedAt :: int

record BotGrant =
  bg_id :: string
  bg_accountId :: string
  bg_botAddress :: string
  bg_scopes :: "BotScope list"
  bg_label :: string
  bg_createdAt :: int
  bg_expiresAt :: int
  bg_revokedAt :: "int option"

record RestPrincipal =
  rp_principalId :: string
  rp_account :: Account
  rp_signer :: string
  rp_grantId :: "string option"
  rp_scopes :: "BotScope list"
  rp_isOwner :: bool
  rp_requestNonce :: string
  rp_idempotencyKey :: "string option"

record ActiveAuthority =
  aa_accountId :: string
  aa_signer :: string
  aa_grantId :: "string option"
  aa_requiredScopes :: "BotScope list"
  aa_ownerOnly :: "bool option"
  aa_principalId :: "string option"
  aa_now :: int

record VerifiedRequest =
  vr_accountId :: string
  vr_signer :: string
  vr_grantId :: "string option"
  vr_nonce :: string
  vr_issuedAt :: int
  vr_expiresAt :: int
  vr_idempotencyKey :: "string option"
  vr_requiredScopes :: "BotScope list"
  vr_ownerOnly :: bool
  vr_principalId :: "string option"
  vr_now :: int

record AccountStoreLimits =
  maxAccounts :: int
  maxNoncesPerAccount :: int
  maxGrantsPerAccount :: int

section \<open>Limits and validators\<close>

definition OWNER_NONCE_RESERVE :: int where "OWNER_NONCE_RESERVE = 32"

definition reservedNonces :: "int \<Rightarrow> int" where
  "reservedNonces maximum = min OWNER_NONCE_RESERVE (max 1 (maximum div 2))"

definition nonceCapacity :: "int \<Rightarrow> string option \<Rightarrow> int" where
  "nonceCapacity maximum grantId = (if grantId = None then maximum else maximum - reservedNonces maximum)"

definition accountStoreLimits :: "int option \<Rightarrow> int option \<Rightarrow> int option \<Rightarrow> AccountStoreLimits res" where
  "accountStoreLimits accounts nonces grants =
     (let limits = \<lparr>maxAccounts = (case accounts of None \<Rightarrow> 100000 | Some n \<Rightarrow> n),
                    maxNoncesPerAccount = (case nonces of None \<Rightarrow> 1000 | Some n \<Rightarrow> n),
                    maxGrantsPerAccount = (case grants of None \<Rightarrow> 100 | Some n \<Rightarrow> n)\<rparr> in
     bindR (forR (\<lambda>(key, get, maximum).
          ensure (\<not> (\<not> isSafeInteger (get limits) \<or> get limits < 1 \<or> get limits > maximum))
            (TypeError (''Invalid account store limit: '' @ key)))
        [(''maxAccounts'', maxAccounts, 100000), (''maxNoncesPerAccount'', maxNoncesPerAccount, 1000),
         (''maxGrantsPerAccount'', maxGrantsPerAccount, 100)]) (\<lambda>_.
     Inr limits))"

definition assertTime_auth :: "int \<Rightarrow> unit res" where
  "assertTime_auth t =
     ensure (\<not> (\<not> isSafeInteger t \<or> t < 0)) (RestAuthError ''AUTH_REQUIRED'' 401 ''Invalid request time'')"

text \<open>The pattern \<^verbatim>\<open>^[a-zA-Z0-9:_-]{1,192}$\<close>.\<close>

definition isIdentifier :: "string \<Rightarrow> bool" where
  "isIdentifier s \<longleftrightarrow> 1 \<le> length s \<and> length s \<le> 192 \<and>
     list_all (\<lambda>c. isLower c \<or> isUpper c \<or> isDigit c \<or> c = CHR '':'' \<or> c = CHR ''_'' \<or> c = CHR ''-'') s"

definition assertIdentifier :: "string \<Rightarrow> unit res" where
  "assertIdentifier s = ensure (isIdentifier s) (RestAuthError ''FORBIDDEN'' 403 ''Invalid account or grant identifier'')"

definition assertAddress :: "string \<Rightarrow> unit res" where
  "assertAddress s = ensure (hexOf 40 s) (RestAuthError ''AUTH_REQUIRED'' 401 ''Invalid signer address'')"

definition boundedText :: "string \<Rightarrow> nat \<Rightarrow> bool" where
  "boundedText s bytes \<longleftrightarrow> length s \<le> bytes \<and> list_all (\<lambda>c. code c \<noteq> 0) s"

definition assertProfile :: "Profile \<Rightarrow> unit res" where
  "assertProfile profile =
     ensure (\<not> (\<not> boundedText (pf_displayName profile) 120 \<or> \<not> boundedText (pf_bio profile) 2000 \<or>
         (case pf_avatarUri profile of None \<Rightarrow> False | Some uri \<Rightarrow> \<not> boundedText uri 2048)))
       (RestAuthError ''STORAGE_LIMIT'' 429 ''Profile storage limit exceeded'')"

definition assertAccount :: "Account \<Rightarrow> unit res" where
  "assertAccount account =
     bindR (assertIdentifier (ac_id account)) (\<lambda>_.
     bindR (assertAddress (ac_ownerAddress account)) (\<lambda>_.
     bindR (assertProfile (ac_profile account)) (\<lambda>_.
     bindR (assertTime_auth (ac_createdAt account)) (\<lambda>_.
     bindR (assertTime_auth (ac_updatedAt account)) (\<lambda>_.
     ensure (\<not> (\<not> isSafeInteger (ac_authorityChainId account) \<or> ac_authorityChainId account < 1 \<or>
         ac_updatedAt account < ac_createdAt account))
       (RestAuthError ''FORBIDDEN'' 403 ''Invalid account''))))))"

definition validScopes :: "BotScope list \<Rightarrow> bool \<Rightarrow> bool" where
  "validScopes scopes allowEmpty \<longleftrightarrow>
     (allowEmpty \<or> length scopes > 0) \<and> length scopes \<le> 3 \<and> distinct scopes \<and>
     list_all (\<lambda>scope. scope \<in> set ALL_BOT_SCOPES) scopes"

definition assertGrant :: "BotGrant \<Rightarrow> unit res" where
  "assertGrant grant =
     bindR (assertIdentifier (bg_id grant)) (\<lambda>_.
     bindR (assertIdentifier (bg_accountId grant)) (\<lambda>_.
     bindR (assertAddress (bg_botAddress grant)) (\<lambda>_.
     bindR (assertTime_auth (bg_createdAt grant)) (\<lambda>_.
     bindR (assertTime_auth (bg_expiresAt grant)) (\<lambda>_.
     ensure (\<not> (bg_revokedAt grant \<noteq> None \<or> bg_expiresAt grant \<le> bg_createdAt grant \<or>
         \<not> isCanonicalGrantScopes (bg_scopes grant) \<or> \<not> boundedText (bg_label grant) 120))
       (RestAuthError ''FORBIDDEN'' 403 ''Invalid bot grant''))))))"

definition assertRequest :: "VerifiedRequest \<Rightarrow> unit res" where
  "assertRequest request =
     bindR (assertIdentifier (vr_accountId request)) (\<lambda>_.
     bindR (assertAddress (vr_signer request)) (\<lambda>_.
     bindR (case vr_grantId request of None \<Rightarrow> Inr () | Some g \<Rightarrow> assertIdentifier g) (\<lambda>_.
     bindR (assertTime_auth (vr_now request)) (\<lambda>_.
     bindR (assertTime_auth (vr_issuedAt request)) (\<lambda>_.
     bindR (assertTime_auth (vr_expiresAt request)) (\<lambda>_.
     ensure (\<not> (\<not> hexOf 64 (vr_nonce request) \<or>
         vr_expiresAt request \<le> vr_now request \<or> vr_expiresAt request \<le> vr_issuedAt request \<or>
         vr_issuedAt request > vr_now request + 30 \<or> vr_expiresAt request - vr_issuedAt request > 300 \<or>
         \<not> validScopes (vr_requiredScopes request) True \<or>
         (case vr_idempotencyKey request of None \<Rightarrow> False | Some k \<Rightarrow> \<not> isIdempotencyKey k)))
       (RestAuthError ''AUTH_REQUIRED'' 401 ''Invalid or expired authenticated request'')))))))"

section \<open>Principals\<close>

text \<open>The patterns of wallet application principals: a version 1 to 5 UUID and a positive \<open>int8\<close>.\<close>

definition walletAppUuid :: "string \<Rightarrow> bool" where
  "walletAppUuid s \<longleftrightarrow> length s = 36 \<and>
     list_all (\<lambda>i. if i \<in> set [8, 13, 18, 23] then s ! i = CHR ''-'' else isLowerHexDigit (s ! i)) [0 ..< 36] \<and>
     s ! 14 \<in> set ''12345'' \<and> s ! 19 \<in> set ''89ab''"

definition walletAppBigint :: "string \<Rightarrow> bool" where
  "walletAppBigint s \<longleftrightarrow> s \<noteq> [] \<and> length s \<le> 19 \<and> list_all isDigit s \<and> hd s \<noteq> CHR ''0'' \<and>
     bigInt s \<le> 9223372036854775807"

definition parseWalletAppPrincipalId :: "string \<Rightarrow> (string \<times> string) option" where
  "parseWalletAppPrincipalId s =
     (if length s > 60 \<or> take 4 s \<noteq> ''app:'' then None
      else
        let rest = drop 4 s; i = takeWhile (\<lambda>c. c \<noteq> CHR '':'') rest; tail = dropWhile (\<lambda>c. c \<noteq> CHR '':'') rest in
        case tail of
          [] \<Rightarrow> None
        | _ # incarnation \<Rightarrow>
            if i \<noteq> [] \<and> incarnation \<noteq> [] \<and> CHR '':'' \<notin> set incarnation \<and> walletAppUuid i \<and> walletAppBigint incarnation
            then Some (i, incarnation) else None)"

definition ownerPrincipal :: "string \<Rightarrow> string" where
  "ownerPrincipal i = ''owner:'' @ i"

definition botPrincipal :: "string \<Rightarrow> string" where
  "botPrincipal i = ''bot:'' @ i"

definition actorGrantId :: "RestActor \<Rightarrow> string option res" where
  "actorGrantId actor =
     bindR (assertIdentifier (accountId actor)) (\<lambda>_.
     if principalId actor = ownerPrincipal (accountId actor) then Inr None
     else (case parseWalletAppPrincipalId (principalId actor) of
         Some (i, incarnation) \<Rightarrow> Inr (Some i)
       | None \<Rightarrow>
           if take 4 (principalId actor) = ''bot:'' then
             let i = drop 4 (principalId actor) in bindR (assertIdentifier i) (\<lambda>_. Inr (Some i))
           else Inl (RestAuthError ''FORBIDDEN'' 403 ''Invalid authenticated actor'')))"

text \<open>A grant that carries the authority of a request at its time.\<close>

definition grantCovers :: "Account \<Rightarrow> BotGrant \<Rightarrow> VerifiedRequest \<Rightarrow> bool" where
  "grantCovers account grant request \<longleftrightarrow>
     \<not> (bg_accountId grant \<noteq> ac_id account \<or> Some (bg_id grant) \<noteq> vr_grantId request \<or>
        toLowerCase (bg_botAddress grant) \<noteq> toLowerCase (vr_signer request) \<or>
        bg_revokedAt grant \<noteq> None \<or> bg_expiresAt grant \<le> vr_now request \<or> bg_createdAt grant > vr_now request \<or>
        \<not> isCanonicalGrantScopes (bg_scopes grant))"

definition principalFor :: "Account \<Rightarrow> BotGrant option \<Rightarrow> VerifiedRequest \<Rightarrow> RestPrincipal res" where
  "principalFor account grant request =
     (let isOwner = (vr_grantId request = None \<and> toLowerCase (ac_ownerAddress account) = toLowerCase (vr_signer request)) in
     bindR (ensure (\<not> (vr_accountId request \<noteq> ac_id account \<or>
            \<not> isOwner \<and> (vr_ownerOnly request \<or> (case grant of None \<Rightarrow> True | Some g \<Rightarrow> \<not> grantCovers account g request))))
          (RestAuthError ''FORBIDDEN'' 403 ''Account authority is missing or expired'')) (\<lambda>_.
     let scopes = (if isOwner then ALL_BOT_SCOPES else bg_scopes (the grant)) in
     bindR (ensure (list_all (\<lambda>scope. scope \<in> set scopes) (vr_requiredScopes request))
          (RestAuthError ''FORBIDDEN'' 403 ''Bot grant does not permit this operation'')) (\<lambda>_.
     let principalId = (if isOwner then ownerPrincipal (ac_id account) else botPrincipal (bg_id (the grant))) in
     bindR (ensure (\<not> (case vr_principalId request of None \<Rightarrow> False | Some p \<Rightarrow> p \<noteq> principalId))
          (RestAuthError ''FORBIDDEN'' 403 ''Authenticated actor identity changed'')) (\<lambda>_.
     Inr \<lparr>rp_principalId = principalId, rp_account = account, rp_signer = vr_signer request,
          rp_grantId = vr_grantId request, rp_scopes = scopes, rp_isOwner = isOwner,
          rp_requestNonce = vr_nonce request, rp_idempotencyKey = vr_idempotencyKey request\<rparr>))))"

definition authorityRequest :: "ActiveAuthority \<Rightarrow> VerifiedRequest res" where
  "authorityRequest authority =
     bindR (assertIdentifier (aa_accountId authority)) (\<lambda>_.
     bindR (assertAddress (aa_signer authority)) (\<lambda>_.
     bindR (case aa_grantId authority of None \<Rightarrow> Inr () | Some g \<Rightarrow> assertIdentifier g) (\<lambda>_.
     bindR (assertTime_auth (aa_now authority)) (\<lambda>_.
     bindR (case aa_principalId authority of None \<Rightarrow> Inr ()
            | Some p \<Rightarrow> bindR (actorGrantId \<lparr>accountId = aa_accountId authority, principalId = p\<rparr>) (\<lambda>_. Inr ())) (\<lambda>_.
     bindR (ensure (validScopes (aa_requiredScopes authority) True)
          (RestAuthError ''FORBIDDEN'' 403 ''Invalid required authority'')) (\<lambda>_.
     Inr \<lparr>vr_accountId = aa_accountId authority, vr_signer = aa_signer authority, vr_grantId = aa_grantId authority,
          vr_nonce = ''0x'' @ replicate 64 CHR ''0'', vr_issuedAt = aa_now authority, vr_expiresAt = aa_now authority + 1,
          vr_idempotencyKey = None, vr_requiredScopes = aa_requiredScopes authority,
          vr_ownerOnly = (case aa_ownerOnly authority of None \<Rightarrow> False | Some b \<Rightarrow> b),
          vr_principalId = aa_principalId authority, vr_now = aa_now authority\<rparr>))))))"

definition assertActorAuthority ::
  "Account \<Rightarrow> BotGrant option \<Rightarrow> RestActor \<Rightarrow> BotScope list \<Rightarrow> int \<Rightarrow> unit res" where
  "assertActorAuthority account grant actor scopes now =
     bindR (actorGrantId actor) (\<lambda>grantId.
     bindR (authorityRequest
       \<lparr>aa_accountId = accountId actor,
        aa_signer = (if grantId = None then ac_ownerAddress account
                     else (case grant of None \<Rightarrow> ac_ownerAddress account | Some g \<Rightarrow> bg_botAddress g)),
        aa_grantId = grantId, aa_requiredScopes = scopes, aa_ownerOnly = None,
        aa_principalId = Some (principalId actor), aa_now = now\<rparr>) (\<lambda>request.
     bindR (principalFor account grant request) (\<lambda>principal.
     ensure (rp_principalId principal = principalId actor)
       (RestAuthError ''FORBIDDEN'' 403 ''Authenticated actor identity changed''))))"

definition cleanupLimit :: "int option \<Rightarrow> int res" where
  "cleanupLimit v =
     (let n = (case v of None \<Rightarrow> 1000 | Some n \<Rightarrow> n) in
      bindR (ensure (\<not> (\<not> isSafeInteger n \<or> n < 1 \<or> n > 10000))
        (TypeError ''Nonce cleanup limit must be between 1 and 10000'')) (\<lambda>_. Inr n))"

section \<open>What an authority decision means\<close>

text \<open>The declarative reading of \<open>principalFor\<close>: owner, or holder of a live grant, with the scopes asked for.\<close>

definition holdsAuthority :: "Account \<Rightarrow> BotGrant option \<Rightarrow> VerifiedRequest \<Rightarrow> bool" where
  "holdsAuthority account grant request \<longleftrightarrow>
     vr_grantId request = None \<and> same (ac_ownerAddress account) (vr_signer request) \<or>
     \<not> vr_ownerOnly request \<and>
     (\<exists>g. grant = Some g \<and> vr_grantId request = Some (bg_id g) \<and> bg_accountId g = ac_id account \<and>
        same (bg_botAddress g) (vr_signer request) \<and> bg_revokedAt g = None \<and>
        bg_createdAt g \<le> vr_now request \<and> vr_now request < bg_expiresAt g \<and>
        isCanonicalGrantScopes (bg_scopes g) \<and> set (vr_requiredScopes request) \<subseteq> set (bg_scopes g))"

lemma ALL_scopes: "scope \<in> set ALL_BOT_SCOPES"
  by (cases scope) (simp_all add: ALL_BOT_SCOPES_def)

lemma principalFor_sound:
  assumes "principalFor account grant request = Inr pr"
  shows "vr_accountId request = ac_id account \<and> holdsAuthority account grant request \<and>
     rp_account pr = account \<and> set (vr_requiredScopes request) \<subseteq> set (rp_scopes pr) \<and>
     (case vr_grantId request of None \<Rightarrow> rp_principalId pr = ownerPrincipal (ac_id account) \<and> rp_isOwner pr
      | Some g \<Rightarrow> rp_principalId pr = botPrincipal g \<and> \<not> rp_isOwner pr)"
proof (cases "vr_grantId request = None \<and> toLowerCase (ac_ownerAddress account) = toLowerCase (vr_signer request)")
  case True
  with assms show ?thesis
    by (auto simp: principalFor_def Let_def res_simps holdsAuthority_def same_def list_all_iff)
next
  case False
  then obtain g where g: "grant = Some g" "grantCovers account g request" "\<not> vr_ownerOnly request"
    using assms by (auto simp: principalFor_def Let_def res_simps split: option.splits)
  with assms False show ?thesis
    by (auto simp: principalFor_def Let_def res_simps holdsAuthority_def same_def list_all_iff grantCovers_def split: option.splits)
qed

end
