(* ===== verification/NonceHeap.thy ===== *)
theory NonceHeap
  imports Core
begin

text \<open>
  The expiry heap of request nonces (\<^verbatim>\<open>NonceExpiryHeap\<close> of \<^verbatim>\<open>src/src/rest/auth/memory.ts\<close>): an array
  heap of shared, mutable entry objects, each of which knows its own index, so that an entry can be
  removed from the middle. The entries are shared with the nonce maps of the store, so they have
  addresses here: an object table and an array of addresses. The locale \<open>expiry_queue\<close> is the contract
  the store relies on; the heap is an interpretation of it.
\<close>

section \<open>The contract\<close>

locale expiry_queue =
  fixes insert_entry :: "'a \<Rightarrow> 'h \<Rightarrow> 'h"
    and remove_entry :: "'a \<Rightarrow> 'h \<Rightarrow> 'h"
    and first_entry :: "'h \<Rightarrow> 'a option"
    and members :: "'h \<Rightarrow> 'a set"
    and expires :: "'h \<Rightarrow> 'a \<Rightarrow> int"
    and valid :: "'h \<Rightarrow> bool"
    and allocated :: "'h \<Rightarrow> 'a \<Rightarrow> bool"
  assumes insert_valid: "valid h \<Longrightarrow> allocated h a \<Longrightarrow> a \<notin> members h \<Longrightarrow> valid (insert_entry a h)"
    and insert_members: "valid h \<Longrightarrow> allocated h a \<Longrightarrow> a \<notin> members h \<Longrightarrow>
      members (insert_entry a h) = insert a (members h)"
    and insert_expires: "valid h \<Longrightarrow> allocated h a \<Longrightarrow> a \<notin> members h \<Longrightarrow> expires (insert_entry a h) = expires h"
    and remove_valid: "valid h \<Longrightarrow> a \<in> members h \<Longrightarrow> valid (remove_entry a h)"
    and remove_members: "valid h \<Longrightarrow> a \<in> members h \<Longrightarrow> members (remove_entry a h) = members h - {a}"
    and remove_expires: "valid h \<Longrightarrow> a \<in> members h \<Longrightarrow> expires (remove_entry a h) = expires h"
    and first_none: "valid h \<Longrightarrow> first_entry h = None \<longleftrightarrow> members h = {}"
    and first_least: "valid h \<Longrightarrow> first_entry h = Some a \<Longrightarrow> a \<in> members h \<and> (\<forall>b \<in> members h. expires h a \<le> expires h b)"
begin

text \<open>When the first entry has not expired, none has: the cleanup may stop there.\<close>

lemma first_live:
  assumes "valid h" and "\<And>a. first_entry h = Some a \<Longrightarrow> now < expires h a" and "b \<in> members h"
  shows "now < expires h b"
proof (cases "first_entry h")
  case None
  with assms(1,3) first_none show ?thesis by auto
next
  case (Some a)
  with assms first_least [OF assms(1) Some] show ?thesis by fastforce
qed

end

section \<open>NonceExpiryHeap\<close>

record NonceEntry =
  ne_accountId :: string
  ne_nonce :: string
  ne_expiresAt :: int
  ne_index :: int

text \<open>All entry objects ever allocated, by address, and the array of the addresses in the heap.\<close>

record NonceExpiryHeap =
  hp_objects :: "NonceEntry list"
  hp_entries :: "nat list"

definition entry_at :: "NonceExpiryHeap \<Rightarrow> nat \<Rightarrow> NonceEntry" where
  "entry_at h i = hp_objects h ! (hp_entries h ! i)"

definition set_index :: "nat \<Rightarrow> nat \<Rightarrow> NonceExpiryHeap \<Rightarrow> NonceExpiryHeap" where
  "set_index a i h = h\<lparr>hp_objects := (hp_objects h)[a := (hp_objects h ! a)\<lparr>ne_index := int i\<rparr>]\<rparr>"

definition heap_first :: "NonceExpiryHeap \<Rightarrow> nat option" where
  "heap_first h = (case hp_entries h of [] \<Rightarrow> None | a # _ \<Rightarrow> Some a)"

definition heap_swap :: "nat \<Rightarrow> nat \<Rightarrow> NonceExpiryHeap \<Rightarrow> NonceExpiryHeap" where
  "heap_swap a b h =
     (let first = hp_entries h ! a; second = hp_entries h ! b in
      set_index first b (set_index second a (h\<lparr>hp_entries := (hp_entries h)[a := second, b := first]\<rparr>)))"

function heap_up :: "nat \<Rightarrow> NonceExpiryHeap \<Rightarrow> NonceExpiryHeap" where
  "heap_up index h =
     (if index > 0 then
        let parent = (index - 1) div 2 in
        if ne_expiresAt (entry_at h parent) \<le> ne_expiresAt (entry_at h index) then h
        else heap_up parent (heap_swap parent index h)
      else h)"
  by pat_completeness auto
termination by (relation "measure fst") auto

lemma heap_swap_length [simp]: "length (hp_entries (heap_swap a b h)) = length (hp_entries h)"
  by (simp add: heap_swap_def set_index_def Let_def)

function heap_down :: "nat \<Rightarrow> NonceExpiryHeap \<Rightarrow> NonceExpiryHeap" where
  "heap_down index h =
     (if index * 2 + 1 < length (hp_entries h) then
        let left = index * 2 + 1; right = left + 1;
            smallest = (if right < length (hp_entries h) \<and>
                           ne_expiresAt (entry_at h right) < ne_expiresAt (entry_at h left) then right else left) in
        if ne_expiresAt (entry_at h index) \<le> ne_expiresAt (entry_at h smallest) then h
        else heap_down smallest (heap_swap index smallest h)
      else h)"
  by pat_completeness auto
termination by (relation "measure (\<lambda>(index, h). length (hp_entries h) - index)") (auto simp: Let_def)

declare heap_up.simps [simp del] heap_down.simps [simp del]

definition heap_add :: "nat \<Rightarrow> NonceExpiryHeap \<Rightarrow> NonceExpiryHeap" where
  "heap_add entry h =
     (let index = length (hp_entries h);
          h1 = set_index entry index h in
      heap_up index (h1\<lparr>hp_entries := hp_entries h1 @ [entry]\<rparr>))"

definition heap_remove :: "nat \<Rightarrow> NonceExpiryHeap \<Rightarrow> NonceExpiryHeap" where
  "heap_remove entry h =
     (let index = nat (ne_index (hp_objects h ! entry)) in
      if hp_entries h = [] then h
      else
        let popped = last (hp_entries h); h1 = h\<lparr>hp_entries := butlast (hp_entries h)\<rparr> in
        if popped = entry then h1
        else
          let h2 = set_index popped index (h1\<lparr>hp_entries := (hp_entries h1)[index := popped]\<rparr>);
              parent = (index - 1) div 2 in
          if index > 0 \<and> ne_expiresAt (entry_at h2 parent) > ne_expiresAt (hp_objects h2 ! popped)
          then heap_up index h2 else heap_down index h2)"

section \<open>Heaps of keys\<close>

definition parent :: "nat \<Rightarrow> nat" where
  "parent j = (j - 1) div 2"

definition ordered_at :: "int list \<Rightarrow> nat \<Rightarrow> bool" where
  "ordered_at ks j \<longleftrightarrow> ks ! parent j \<le> ks ! j"

definition is_heap :: "int list \<Rightarrow> bool" where
  "is_heap ks \<longleftrightarrow> (\<forall>j. 0 < j \<and> j < length ks \<longrightarrow> ordered_at ks j)"

text \<open>A heap but for one position that may be too small, or too large.\<close>

definition up_heap :: "int list \<Rightarrow> nat \<Rightarrow> bool" where
  "up_heap ks i \<longleftrightarrow> i < length ks \<and> (\<forall>j. 0 < j \<and> j < length ks \<and> j \<noteq> i \<longrightarrow> ordered_at ks j) \<and>
     (\<forall>j. 0 < i \<and> 0 < j \<and> j < length ks \<and> parent j = i \<longrightarrow> ks ! parent i \<le> ks ! j)"

definition down_heap :: "int list \<Rightarrow> nat \<Rightarrow> bool" where
  "down_heap ks i \<longleftrightarrow> i < length ks \<and> (\<forall>j. 0 < j \<and> j < length ks \<and> parent j \<noteq> i \<longrightarrow> ordered_at ks j) \<and>
     (\<forall>j. 0 < i \<and> 0 < j \<and> j < length ks \<and> parent j = i \<longrightarrow> ks ! parent i \<le> ks ! j)"

definition swapped :: "'a list \<Rightarrow> nat \<Rightarrow> nat \<Rightarrow> 'a list" where
  "swapped xs a b = xs[a := xs ! b, b := xs ! a]"

lemma swapped_nth:
  "a < length xs \<Longrightarrow> b < length xs \<Longrightarrow> k < length xs \<Longrightarrow>
     swapped xs a b ! k = (if k = b then xs ! a else if k = a then xs ! b else xs ! k)"
  by (auto simp: swapped_def nth_list_update)

lemma swapped_length [simp]: "length (swapped xs a b) = length xs"
  by (simp add: swapped_def)

lemma parent_less: "0 < j \<Longrightarrow> parent j < j"
  by (auto simp: parent_def)

lemma up_heap_done: "up_heap ks i \<Longrightarrow> i = 0 \<or> ordered_at ks i \<Longrightarrow> is_heap ks"
  by (auto simp: up_heap_def is_heap_def)

lemma up_heap_swap:
  assumes u: "up_heap ks i" and "0 < i" and not_ordered: "ks ! i < ks ! parent i"
  shows "up_heap (swapped ks (parent i) i) (parent i)"
proof -
  let ?p = "parent i" and ?ks = "swapped ks (parent i) i"
  have lt: "?p < i" "i < length ks" "?p < length ks" using assms parent_less [of i] by (auto simp: up_heap_def)
  have nth: "?ks ! k = (if k = i then ks ! ?p else if k = ?p then ks ! i else ks ! k)" if "k < length ks" for k
    using swapped_nth [of ?p ks i k] lt that by simp
  have ord: "ks ! parent j \<le> ks ! j" if "0 < j" "j < length ks" "j \<noteq> i" for j
    using u that by (simp add: up_heap_def ordered_at_def)
  have child: "ks ! ?p \<le> ks ! j" if "0 < j" "j < length ks" "parent j = i" for j
    using u that assms(2) by (simp add: up_heap_def)
  have "ordered_at ?ks j" if j: "0 < j" "j < length ks" "j \<noteq> ?p" for j
  proof -
    have pj: "parent j < length ks" using j parent_less [OF j(1)] by simp
    consider "j = i" | "j \<noteq> i" "parent j = i" | "j \<noteq> i" "parent j = ?p" | "j \<noteq> i" "parent j \<noteq> i" "parent j \<noteq> ?p" by blast
    then show ?thesis
    proof cases
      case 1
      then show ?thesis using nth [OF lt(2)] nth [OF lt(3)] lt not_ordered by (simp add: ordered_at_def)
    next
      case 2
      then show ?thesis using nth [OF j(2)] nth [OF lt(2)] child [OF j(1,2)] j by (simp add: ordered_at_def)
    next
      case 3
      then show ?thesis
        using nth [OF j(2)] nth [OF lt(3)] ord [OF j(1,2)] lt j not_ordered by (simp add: ordered_at_def)
    next
      case 4
      then show ?thesis using nth [OF j(2)] nth [OF pj] ord [OF j(1,2)] j by (simp add: ordered_at_def)
    qed
  qed
  moreover have "?ks ! parent ?p \<le> ?ks ! j" if j: "0 < ?p" "0 < j" "j < length ks" "parent j = ?p" for j
  proof -
    have g: "parent ?p < ?p" using parent_less j(1) by blast
    have gp: "ks ! parent ?p \<le> ks ! ?p" using ord [of ?p] j(1) lt by simp
    have "?ks ! parent ?p = ks ! parent ?p" using nth [of "parent ?p"] g lt by simp
    moreover have "ks ! ?p \<le> ?ks ! j"
      using nth [OF j(3)] ord [OF j(2,3)] j(4) parent_less [OF j(2)] by auto
    ultimately show ?thesis using gp by simp
  qed
  ultimately show ?thesis using lt by (simp add: up_heap_def)
qed

lemma down_heap_swap:
  assumes d: "down_heap ks i" and s: "0 < s" "s < length ks" "parent s = i"
    and least: "\<And>j. 0 < j \<Longrightarrow> j < length ks \<Longrightarrow> parent j = i \<Longrightarrow> ks ! s \<le> ks ! j"
    and not_ordered: "ks ! s < ks ! i"
  shows "down_heap (swapped ks i s) s"
proof -
  let ?ks = "swapped ks i s"
  have lt: "i < s" "i < length ks" using s parent_less [of s] by auto
  have nth: "?ks ! k = (if k = s then ks ! i else if k = i then ks ! s else ks ! k)" if "k < length ks" for k
    using swapped_nth [of i ks s k] lt s that by simp
  have ord: "ks ! parent j \<le> ks ! j" if "0 < j" "j < length ks" "parent j \<noteq> i" for j
    using d that by (simp add: down_heap_def ordered_at_def)
  have "ordered_at ?ks j" if j: "0 < j" "j < length ks" "parent j \<noteq> s" for j
  proof -
    have pj: "parent j < length ks" using j parent_less [OF j(1)] by simp
    consider "parent j = i" | "parent j \<noteq> i" "j = i" | "parent j \<noteq> i" "j \<noteq> i" by blast
    then show ?thesis
    proof cases
      case 1
      then show ?thesis
        using nth [OF j(2)] nth [OF lt(2)] lt not_ordered least [OF j(1,2)] parent_less [OF j(1)] by (simp add: ordered_at_def)
    next
      case 2
      have "ks ! parent i \<le> ks ! s" using d s 2 j by (simp add: down_heap_def)
      with 2 show ?thesis
        using nth [OF j(2)] nth [OF pj] lt j parent_less [OF j(1)] by (simp add: ordered_at_def)
    next
      case 3
      then show ?thesis
        using nth [OF j(2)] nth [OF pj] ord [OF j(1,2)] j s(3) by (auto simp: ordered_at_def)
    qed
  qed
  moreover have "?ks ! parent s \<le> ?ks ! j" if j: "0 < j" "j < length ks" "parent j = s" for j
    using nth [OF lt(2)] nth [OF j(2)] ord [OF j(1,2)] j lt s(3) parent_less [OF j(1)] by simp
  ultimately show ?thesis using s(2) by (simp add: down_heap_def)
qed

lemma down_heap_done:
  assumes "down_heap ks i" and "\<And>j. 0 < j \<Longrightarrow> j < length ks \<Longrightarrow> parent j = i \<Longrightarrow> ks ! i \<le> ks ! j"
  shows "is_heap ks"
  using assms unfolding down_heap_def is_heap_def ordered_at_def by metis

lemma heap_root: "is_heap ks \<Longrightarrow> j < length ks \<Longrightarrow> ks ! 0 \<le> ks ! j"
proof (induction j rule: less_induct)
  case (less j)
  show ?case
  proof (cases "j = 0")
    case False
    then have "ks ! 0 \<le> ks ! parent j" using less parent_less [of j] by simp
    also have "\<dots> \<le> ks ! j" using less False by (simp add: is_heap_def ordered_at_def)
    finally show ?thesis .
  qed simp
qed

section \<open>The heap operations\<close>

definition keys :: "NonceExpiryHeap \<Rightarrow> int list" where
  "keys h = map (\<lambda>a. ne_expiresAt (hp_objects h ! a)) (hp_entries h)"

text \<open>The objects without their index fields, which is all the heap writes to.\<close>

definition data :: "NonceExpiryHeap \<Rightarrow> NonceEntry list" where
  "data h = map (\<lambda>e. e\<lparr>ne_index := 0\<rparr>) (hp_objects h)"

definition tracked :: "NonceExpiryHeap \<Rightarrow> bool" where
  "tracked h \<longleftrightarrow> distinct (hp_entries h) \<and> (\<forall>a \<in> set (hp_entries h). a < length (hp_objects h)) \<and>
     (\<forall>i < length (hp_entries h). ne_index (entry_at h i) = int i)"

definition heap_valid :: "NonceExpiryHeap \<Rightarrow> bool" where
  "heap_valid h \<longleftrightarrow> tracked h \<and> is_heap (keys h)"

lemma keys_length [simp]: "length (keys h) = length (hp_entries h)"
  by (simp add: keys_def)

lemma keys_nth: "i < length (hp_entries h) \<Longrightarrow> keys h ! i = ne_expiresAt (entry_at h i)"
  by (simp add: keys_def entry_at_def)

lemma data_length: "data h = data h' \<Longrightarrow> length (hp_objects h) = length (hp_objects h')"
  unfolding data_def by (metis length_map)

lemma data_nth:
  assumes "data h = data h'" and "a < length (hp_objects h)"
  shows "ne_expiresAt (hp_objects h ! a) = ne_expiresAt (hp_objects h' ! a)"
    "ne_accountId (hp_objects h ! a) = ne_accountId (hp_objects h' ! a)"
    "ne_nonce (hp_objects h ! a) = ne_nonce (hp_objects h' ! a)"
proof -
  have "(hp_objects h ! a)\<lparr>ne_index := 0\<rparr> = (hp_objects h' ! a)\<lparr>ne_index := 0\<rparr>"
    using assms data_length [OF assms(1)] unfolding data_def by (metis length_map nth_map)
  then show "ne_expiresAt (hp_objects h ! a) = ne_expiresAt (hp_objects h' ! a)"
    "ne_accountId (hp_objects h ! a) = ne_accountId (hp_objects h' ! a)"
    "ne_nonce (hp_objects h ! a) = ne_nonce (hp_objects h' ! a)"
    by (cases "hp_objects h ! a"; cases "hp_objects h' ! a"; simp)+
qed

lemma set_index_simps [simp]:
  "hp_entries (set_index a i h) = hp_entries h" "data (set_index a i h) = data h"
  "length (hp_objects (set_index a i h)) = length (hp_objects h)"
proof -
  show "data (set_index a i h) = data h"
    unfolding data_def set_index_def
    by (cases "a < length (hp_objects h)") (auto intro!: nth_equalityI simp: nth_list_update list_update_beyond)
qed (simp_all add: set_index_def)

lemma set_index_object:
  "a < length (hp_objects h) \<Longrightarrow> hp_objects (set_index a i h) ! b =
     (if b = a then (hp_objects h ! a)\<lparr>ne_index := int i\<rparr> else hp_objects h ! b)"
  by (simp add: set_index_def nth_list_update)

lemma data_entries [simp]: "data (h\<lparr>hp_entries := es\<rparr>) = data h"
  by (simp add: data_def)

lemma keys_data:
  assumes "data h = data h'" and "hp_entries h = hp_entries h'" and "\<forall>a \<in> set (hp_entries h). a < length (hp_objects h)"
  shows "keys h = keys h'"
  using assms data_nth [OF assms(1)] by (simp add: keys_def)

lemma heap_swap_ok:
  assumes t: "tracked h" and ab: "a < length (hp_entries h)" "b < length (hp_entries h)" "a \<noteq> b"
  shows "tracked (heap_swap a b h)" "keys (heap_swap a b h) = swapped (keys h) a b"
    "set (hp_entries (heap_swap a b h)) = set (hp_entries h)" "data (heap_swap a b h) = data h"
proof -
  let ?es = "hp_entries h" and ?h = "heap_swap a b h"
  have es: "hp_entries ?h = swapped ?es a b" by (simp add: heap_swap_def Let_def swapped_def)
  show d: "data ?h = data h" by (simp add: heap_swap_def Let_def)
  have set: "set (swapped ?es a b) = set ?es" using ab by (simp add: swapped_def)
  then show "set (hp_entries ?h) = set ?es" by (simp add: es)
  have bound: "x < length (hp_objects h)" if "x \<in> set ?es" for x using t that by (simp add: tracked_def)
  have len: "length (hp_objects ?h) = length (hp_objects h)" using data_length [OF d] .
  have ne: "?es ! a \<noteq> ?es ! b" using t ab by (simp add: tracked_def nth_eq_iff_index_eq)
  have ba: "?es ! a < length (hp_objects h)" "?es ! b < length (hp_objects h)" using bound ab by simp_all
  have obj: "hp_objects ?h ! x = (if x = ?es ! a then (hp_objects h ! x)\<lparr>ne_index := int b\<rparr>
      else if x = ?es ! b then (hp_objects h ! x)\<lparr>ne_index := int a\<rparr> else hp_objects h ! x)" for x
    using ba ne by (simp add: heap_swap_def Let_def set_index_object)
  have index: "ne_index (entry_at ?h i) = int i" if i: "i < length ?es" for i
  proof -
    have "ne_index (hp_objects h ! (?es ! i)) = int i" using t i by (simp add: tracked_def entry_at_def)
    moreover have "?es ! i = ?es ! j \<longleftrightarrow> i = j" if "j < length ?es" for j
      using t i that by (simp add: tracked_def nth_eq_iff_index_eq)
    ultimately show ?thesis
      using i ab ne by (auto simp: entry_at_def es swapped_nth obj)
  qed
  have "distinct (swapped ?es a b)" using t ab by (simp add: swapped_def tracked_def)
  then show "tracked ?h" using index bound set by (simp add: tracked_def es len)
  show "keys ?h = swapped (keys h) a b"
  proof (rule nth_equalityI)
    fix i assume "i < length (keys ?h)"
    then have i: "i < length ?es" by simp
    have e: "ne_expiresAt (hp_objects ?h ! x) = ne_expiresAt (hp_objects h ! x)" for x by (simp add: obj)
    show "keys ?h ! i = swapped (keys h) a b ! i"
      using i ab by (simp add: swapped_nth) (simp add: keys_def es swapped_nth e)
  qed simp
qed

lemma heap_up_ok:
  assumes "tracked h" and "up_heap (keys h) i"
  shows "heap_valid (heap_up i h) \<and> set (hp_entries (heap_up i h)) = set (hp_entries h) \<and> data (heap_up i h) = data h"
  using assms
proof (induction i h rule: heap_up.induct)
  case (1 i h)
  let ?p = "(i - 1) div 2"
  have il: "i < length (hp_entries h)" using "1.prems"(2) by (simp add: up_heap_def)
  show ?case
  proof (cases "0 < i \<and> \<not> ne_expiresAt (entry_at h ?p) \<le> ne_expiresAt (entry_at h i)")
    case True
    have p: "?p = parent i" "?p < i" using True by (auto simp: parent_def)
    have lt: "keys h ! i < keys h ! parent i" using True il p by (simp add: keys_nth flip: p(1))
    have sw: "tracked (heap_swap ?p i h)" "keys (heap_swap ?p i h) = swapped (keys h) ?p i"
      "set (hp_entries (heap_swap ?p i h)) = set (hp_entries h)" "data (heap_swap ?p i h) = data h"
      using heap_swap_ok [OF "1.prems"(1), of ?p i] il p by auto
    have "up_heap (keys (heap_swap ?p i h)) ?p"
      unfolding sw(2) unfolding p(1) using up_heap_swap [OF "1.prems"(2)] True lt by blast
    from "1.IH" [OF _ refl _ sw(1) this] True sw(3,4)
    show ?thesis by (subst (1 2 3) heap_up.simps) (simp add: Let_def)
  next
    case False
    then have "i = 0 \<or> ordered_at (keys h) i"
      using il by (auto simp: ordered_at_def keys_nth parent_def)
    then have "is_heap (keys h)" using up_heap_done [OF "1.prems"(2)] by blast
    then show ?thesis using "1.prems"(1) False
      by (subst (1 2 3) heap_up.simps) (auto simp: Let_def heap_valid_def)
  qed
qed

lemma child_cases: "0 < j \<Longrightarrow> parent j = i \<Longrightarrow> j = i * 2 + 1 \<or> j = i * 2 + 2"
  by (auto simp: parent_def)

definition smallest :: "nat \<Rightarrow> NonceExpiryHeap \<Rightarrow> nat" where
  "smallest i h = (if i * 2 + 1 + 1 < length (hp_entries h) \<and>
     ne_expiresAt (entry_at h (i * 2 + 1 + 1)) < ne_expiresAt (entry_at h (i * 2 + 1)) then i * 2 + 1 + 1 else i * 2 + 1)"

lemma heap_down_unfold:
  "heap_down i h =
     (if i * 2 + 1 < length (hp_entries h) then
        if ne_expiresAt (entry_at h i) \<le> ne_expiresAt (entry_at h (smallest i h)) then h
        else heap_down (smallest i h) (heap_swap i (smallest i h) h)
      else h)"
  by (subst heap_down.simps) (simp only: smallest_def Let_def)

lemma smallest_child:
  assumes "i * 2 + 1 < length (hp_entries h)"
  shows "0 < smallest i h" "smallest i h < length (hp_entries h)" "parent (smallest i h) = i" "i < smallest i h"
  using assms by (simp_all add: smallest_def parent_def)

lemma smallest_least:
  assumes "i * 2 + 1 < length (hp_entries h)" and "0 < j" "j < length (hp_entries h)" "parent j = i"
  shows "keys h ! smallest i h \<le> keys h ! j"
proof -
  have "ne_expiresAt (entry_at h (smallest i h)) \<le> ne_expiresAt (entry_at h j)"
    using child_cases [OF assms(2,4)] assms(3) by (auto simp: smallest_def)
  then show ?thesis using keys_nth [OF smallest_child(2) [OF assms(1)]] keys_nth [OF assms(3)] by simp
qed

lemma heap_down_ok:
  assumes "tracked h" and "down_heap (keys h) i"
  shows "heap_valid (heap_down i h) \<and> set (hp_entries (heap_down i h)) = set (hp_entries h) \<and> data (heap_down i h) = data h"
  using assms
proof (induction i h rule: heap_down.induct)
  case (1 i h)
  let ?s = "smallest i h"
  have il: "i < length (hp_entries h)" using "1.prems"(2) by (simp add: down_heap_def)
  show ?case
  proof (cases "i * 2 + 1 < length (hp_entries h) \<and> \<not> ne_expiresAt (entry_at h i) \<le> ne_expiresAt (entry_at h ?s)")
    case True
    then have left: "i * 2 + 1 < length (hp_entries h)"
      and gt: "\<not> ne_expiresAt (entry_at h i) \<le> ne_expiresAt (entry_at h ?s)" by blast+
    note s = smallest_child [OF left]
    have lt: "keys h ! ?s < keys h ! i" using gt keys_nth [OF s(2)] keys_nth [OF il] by simp
    have ne: "i \<noteq> ?s" using s(4) by simp
    note sw = heap_swap_ok [OF "1.prems"(1) il s(2) ne]
    have dh: "down_heap (keys (heap_swap i ?s h)) ?s"
      unfolding sw(2) using down_heap_swap [OF "1.prems"(2) s(1) _ s(3) _ lt] smallest_least [OF left] s(2) by simp
    have eq: "heap_down i h = heap_down ?s (heap_swap i ?s h)" using left gt by (subst heap_down_unfold) simp
    have "heap_valid (heap_down ?s (heap_swap i ?s h)) \<and>
        set (hp_entries (heap_down ?s (heap_swap i ?s h))) = set (hp_entries (heap_swap i ?s h)) \<and>
        data (heap_down ?s (heap_swap i ?s h)) = data (heap_swap i ?s h)"
      by (rule "1.IH" [OF left refl refl smallest_def gt sw(1) dh])
    then show ?thesis unfolding eq sw(3,4) .
  next
    case False
    have "keys h ! i \<le> keys h ! j" if j: "0 < j" "j < length (keys h)" "parent j = i" for j
    proof -
      have left: "i * 2 + 1 < length (hp_entries h)" using child_cases [OF j(1,3)] j(2) by auto
      with False have "keys h ! i \<le> keys h ! ?s"
        using keys_nth [OF il] keys_nth [OF smallest_child(2) [OF left]] by simp
      also have "\<dots> \<le> keys h ! j" using smallest_least [OF left] j by simp
      finally show ?thesis .
    qed
    then have "is_heap (keys h)" using down_heap_done [OF "1.prems"(2)] by blast
    moreover have "heap_down i h = h" using False by (subst heap_down_unfold) auto
    ultimately show ?thesis using "1.prems"(1) by (simp add: heap_valid_def)
  qed
qed

lemma heap_add_ok:
  assumes v: "heap_valid h" and a: "a < length (hp_objects h)" "a \<notin> set (hp_entries h)"
  shows "heap_valid (heap_add a h) \<and> set (hp_entries (heap_add a h)) = insert a (set (hp_entries h)) \<and>
     data (heap_add a h) = data h"
proof -
  let ?n = "length (hp_entries h)"
  define h1 where "h1 = (set_index a ?n h)\<lparr>hp_entries := hp_entries h @ [a]\<rparr>"
  have add: "heap_add a h = heap_up ?n h1" by (simp add: heap_add_def Let_def h1_def)
  have obj: "hp_objects h1 ! x = (if x = a then (hp_objects h ! a)\<lparr>ne_index := int ?n\<rparr> else hp_objects h ! x)" for x
    using set_index_object [OF a(1)] by (simp add: h1_def)
  have d: "data h1 = data h" by (simp add: h1_def)
  have "tracked h1"
    using v a data_length [OF d] unfolding heap_valid_def tracked_def
    by (auto simp: h1_def entry_at_def nth_append set_index_object)
  have ks: "keys h1 = keys h @ [ne_expiresAt (hp_objects h ! a)]"
    using a by (simp add: keys_def) (simp add: h1_def set_index_object)
  have "up_heap (keys h1) ?n"
  proof -
    have "ordered_at (keys h1) j" if "0 < j" "j < ?n" for j
      using v that parent_less [OF that(1)] by (simp add: heap_valid_def is_heap_def ordered_at_def ks nth_append)
    moreover have "\<not> (0 < j \<and> j < Suc ?n \<and> parent j = ?n)" for j using parent_less [of j] by auto
    ultimately show ?thesis by (auto simp: up_heap_def ks)
  qed
  from heap_up_ok [OF \<open>tracked h1\<close> this] d show ?thesis by (simp add: add h1_def)
qed

text \<open>Moving the last key to the place of the removed one leaves a heap but for that place.\<close>

lemma replaced_key:
  fixes v :: int
  assumes heap: "is_heap ks" and i: "i < length ks - 1"
  defines "ks2 \<equiv> (butlast ks)[i := v]"
  shows "if 0 < i \<and> v < ks2 ! parent i then up_heap ks2 i else down_heap ks2 i"
proof -
  have h: "ks ! parent j \<le> ks ! j" if "0 < j" "j < length ks" for j
    using heap that by (simp add: is_heap_def ordered_at_def)
  have len: "length ks2 = length ks - 1" by (simp add: ks2_def)
  have nth: "ks2 ! j = (if j = i then v else ks ! j)" if "j < length ks - 1" for j
    using that i by (simp add: ks2_def nth_list_update nth_butlast)
  have ord: "ordered_at ks2 j" if "0 < j" "j < length ks2" "j \<noteq> i" "parent j \<noteq> i" for j
    using that nth [of j] nth [of "parent j"] h [of j] parent_less [of j] len by (simp add: ordered_at_def)
  have child: "ks2 ! parent i \<le> ks2 ! j" if c: "0 < i" "0 < j" "j < length ks2" "parent j = i" for j
  proof -
    have "ks ! i \<le> ks ! j" using h [of j] c len by simp
    moreover have "ks ! parent i \<le> ks ! i" using h [OF c(1)] i by simp
    ultimately show ?thesis using c nth [of j] nth [of "parent i"] parent_less [of j] parent_less [of i] len by simp
  qed
  have vi: "ks2 ! i = v" using nth i by simp
  show ?thesis
  proof (cases "0 < i \<and> v < ks2 ! parent i")
    case True
    have "ordered_at ks2 j" if "0 < j" "j < length ks2" "j \<noteq> i" for j
      using that ord [OF that] child [OF _ that(1,2)] True vi by (cases "parent j = i") (auto simp: ordered_at_def)
    with True child i len show ?thesis by (auto simp: up_heap_def)
  next
    case False
    have "ordered_at ks2 j" if "0 < j" "j < length ks2" "parent j \<noteq> i" for j
      using that ord [of j] False vi by (cases "j = i") (auto simp: ordered_at_def)
    with False child i len show ?thesis by (auto simp: down_heap_def)
  qed
qed

lemma butlast_heap: "is_heap ks \<Longrightarrow> is_heap (butlast ks)"
  unfolding is_heap_def ordered_at_def
proof (intro allI impI)
  fix j assume h: "\<forall>j. 0 < j \<and> j < length ks \<longrightarrow> ks ! parent j \<le> ks ! j" and j: "0 < j \<and> j < length (butlast ks)"
  with parent_less [of j] have "parent j < length (butlast ks)" by simp
  moreover have "j < length ks" using j by auto
  ultimately show "butlast ks ! parent j \<le> butlast ks ! j" using h j by (simp add: nth_butlast)
qed

lemma butlast_last:
  assumes "distinct xs" and "xs \<noteq> []"
  shows "distinct (butlast xs)" "last xs \<notin> set (butlast xs)" "set xs = insert (last xs) (set (butlast xs))"
  using assms append_butlast_last_id [OF assms(2)]
  by (metis distinct_append, metis distinct_append disjoint_insert(1) list.simps(15),
      metis Un_insert_right append_Nil2 list.simps(15) set_append)

text \<open>The array after the last entry moved to position \<open>i\<close>.\<close>

definition moved :: "nat \<Rightarrow> NonceExpiryHeap \<Rightarrow> NonceExpiryHeap" where
  "moved i h = set_index (last (hp_entries h)) i (h\<lparr>hp_entries := (butlast (hp_entries h))[i := last (hp_entries h)]\<rparr>)"

lemma moved_ok:
  assumes t: "tracked h" and i: "i < length (hp_entries h) - 1"
  defines "v \<equiv> ne_expiresAt (hp_objects h ! last (hp_entries h))"
  shows "tracked (moved i h)" "keys (moved i h) = (butlast (keys h))[i := v]" "data (moved i h) = data h"
    "set (hp_entries (moved i h)) = set (hp_entries h) - {hp_entries h ! i}"
    "ne_expiresAt (hp_objects (moved i h) ! last (hp_entries h)) = v"
proof -
  let ?es = "hp_entries h" and ?l = "last (hp_entries h)"
  have ne: "?es \<noteq> []" using i by auto
  have bound: "\<And>x. x \<in> set ?es \<Longrightarrow> x < length (hp_objects h)" and dist: "distinct ?es"
    and idx: "\<And>j. j < length ?es \<Longrightarrow> ne_index (hp_objects h ! (?es ! j)) = int j"
    using t by (auto simp: tracked_def entry_at_def)
  note bl = butlast_last [OF dist ne]
  have ll: "?l < length (hp_objects h)" using bound ne by simp
  have es: "hp_entries (moved i h) = (butlast ?es)[i := ?l]" by (simp add: moved_def)
  have obj: "hp_objects (moved i h) ! x = (if x = ?l then (hp_objects h ! ?l)\<lparr>ne_index := int i\<rparr> else hp_objects h ! x)" for x
    using set_index_object [of ?l "h\<lparr>hp_entries := (butlast ?es)[i := ?l]\<rparr>"] ll by (simp add: moved_def)
  show d: "data (moved i h) = data h" by (simp add: moved_def)
  have bi: "butlast ?es ! i = ?es ! i" "i < length (butlast ?es)" using i by (simp_all add: nth_butlast)
  show set: "set (hp_entries (moved i h)) = set ?es - {?es ! i}"
    using bl bi nth_mem [OF bi(2)] set_update_distinct [OF bl(1) bi(2), of ?l] by (auto simp: es)
  have "ne_index (entry_at (moved i h) j) = int j" if "j < length (hp_entries (moved i h))" for j
  proof (cases "j = i")
    case False
    with that have "hp_entries (moved i h) ! j = ?es ! j" "?es ! j \<noteq> ?l" "j < length ?es"
      using bl(2) nth_mem [of j "butlast ?es"] by (auto simp: es nth_butlast)
    then show ?thesis using idx by (simp add: entry_at_def obj)
  qed (use i in \<open>simp add: entry_at_def es obj\<close>)
  moreover have "distinct (hp_entries (moved i h))" using bl by (simp add: es distinct_list_update)
  ultimately show "tracked (moved i h)" using bound set data_length [OF d] by (auto simp: tracked_def)
  have "keys (moved i h) = map (\<lambda>x. ne_expiresAt (hp_objects h ! x)) (hp_entries (moved i h))" by (simp add: keys_def obj)
  then show "keys (moved i h) = (butlast (keys h))[i := v]" by (simp add: es map_update keys_def map_butlast v_def)
  show "ne_expiresAt (hp_objects (moved i h) ! ?l) = v" by (simp add: obj v_def)
qed

lemma heap_remove_ok:
  assumes v: "heap_valid h" and a: "a \<in> set (hp_entries h)"
  shows "heap_valid (heap_remove a h) \<and> set (hp_entries (heap_remove a h)) = set (hp_entries h) - {a} \<and>
     data (heap_remove a h) = data h"
proof -
  let ?es = "hp_entries h" and ?l = "last (hp_entries h)"
  from a obtain i where i: "i < length ?es" "?es ! i = a" by (auto simp: in_set_conv_nth)
  have ne: "?es \<noteq> []" using a by auto
  have t: "tracked h" and hk: "is_heap (keys h)" using v by (simp_all add: heap_valid_def)
  have idx: "nat (ne_index (hp_objects h ! a)) = i" using t i by (auto simp: tracked_def entry_at_def)
  note bl = butlast_last [of ?es, OF _ ne]
  show ?thesis
  proof (cases "?l = a")
    case True
    have "tracked (h\<lparr>hp_entries := butlast ?es\<rparr>)"
      using t bl by (auto simp: tracked_def entry_at_def nth_butlast)
    moreover have "keys (h\<lparr>hp_entries := butlast ?es\<rparr>) = butlast (keys h)" by (simp add: keys_def map_butlast)
    ultimately have "heap_valid (h\<lparr>hp_entries := butlast ?es\<rparr>)" using butlast_heap [OF hk] by (simp add: heap_valid_def)
    moreover have "distinct ?es" using t by (simp add: tracked_def)
    ultimately show ?thesis using True bl ne by (auto simp: heap_remove_def Let_def)
  next
    case False
    have il: "i < length ?es - 1"
      using i ne False by (metis Suc_pred' last_conv_nth length_greater_0_conv less_antisym)
    let ?h = "moved i h" and ?v = "ne_expiresAt (hp_objects h ! ?l)"
    note m = moved_ok [OF t il]
    have c: "if 0 < i \<and> ?v < keys ?h ! parent i then up_heap (keys ?h) i else down_heap (keys ?h) i"
      unfolding m(2) by (rule replaced_key [OF hk]) (use il in simp)
    have "ne_expiresAt (entry_at ?h ((i - 1) div 2)) = keys ?h ! parent i"
      using keys_nth [of "parent i" ?h] il by (simp add: parent_def moved_def)
    then have "heap_remove a h = (if 0 < i \<and> ?v < keys ?h ! parent i then heap_up i ?h else heap_down i ?h)"
      using False ne idx m(5) by (simp add: heap_remove_def Let_def moved_def)
    then have "heap_valid (heap_remove a h) \<and> set (hp_entries (heap_remove a h)) = set (hp_entries ?h) \<and> data (heap_remove a h) = data ?h"
      using c heap_up_ok [OF m(1), of i] heap_down_ok [OF m(1), of i] by (simp split: if_splits)
    then show ?thesis using m(3,4) i(2) by simp
  qed
qed

interpretation nonce_heap: expiry_queue heap_add heap_remove heap_first
  "\<lambda>h. set (hp_entries h)" "\<lambda>h a. if a < length (hp_objects h) then ne_expiresAt (hp_objects h ! a) else 0"
  heap_valid "\<lambda>h a. a < length (hp_objects h)"
proof
  fix h a
  assume v: "heap_valid h"
  have ex: "(\<lambda>a. if a < length (hp_objects h') then ne_expiresAt (hp_objects h' ! a) else 0) =
      (\<lambda>a. if a < length (hp_objects h) then ne_expiresAt (hp_objects h ! a) else 0)" if "data h' = data h" for h'
    using data_length [OF that] data_nth(1) [OF that] by auto
  show "heap_valid (heap_add a h)" "set (hp_entries (heap_add a h)) = insert a (set (hp_entries h))"
    if "a < length (hp_objects h)" "a \<notin> set (hp_entries h)"
    using heap_add_ok [OF v that] by blast+
  show "(\<lambda>b. if b < length (hp_objects (heap_add a h)) then ne_expiresAt (hp_objects (heap_add a h) ! b) else 0) =
     (\<lambda>b. if b < length (hp_objects h) then ne_expiresAt (hp_objects h ! b) else 0)"
    if "a < length (hp_objects h)" "a \<notin> set (hp_entries h)"
    using heap_add_ok [OF v that] by (intro ex) blast
  show "heap_valid (heap_remove a h)" "set (hp_entries (heap_remove a h)) = set (hp_entries h) - {a}"
    if "a \<in> set (hp_entries h)"
    using heap_remove_ok [OF v that] by blast+
  show "(\<lambda>b. if b < length (hp_objects (heap_remove a h)) then ne_expiresAt (hp_objects (heap_remove a h) ! b) else 0) =
     (\<lambda>b. if b < length (hp_objects h) then ne_expiresAt (hp_objects h ! b) else 0)"
    if "a \<in> set (hp_entries h)"
    using heap_remove_ok [OF v that] by (intro ex) blast
  show "heap_first h = None \<longleftrightarrow> set (hp_entries h) = {}" by (cases "hp_entries h") (simp_all add: heap_first_def)
  show "a \<in> set (hp_entries h) \<and> (\<forall>b \<in> set (hp_entries h).
      (if a < length (hp_objects h) then ne_expiresAt (hp_objects h ! a) else 0) \<le>
      (if b < length (hp_objects h) then ne_expiresAt (hp_objects h ! b) else 0))" if f: "heap_first h = Some a"
  proof -
    have a: "hp_entries h \<noteq> []" "hp_entries h ! 0 = a" using f by (auto simp: heap_first_def split: list.splits)
    have "ne_expiresAt (hp_objects h ! a) \<le> ne_expiresAt (hp_objects h ! b)" if "b \<in> set (hp_entries h)" for b
    proof -
      from that obtain j where "j < length (hp_entries h)" "hp_entries h ! j = b" by (auto simp: in_set_conv_nth)
      with heap_root [of "keys h" j] v a show ?thesis by (auto simp: heap_valid_def keys_def)
    qed
    moreover have "\<forall>b \<in> set (hp_entries h). b < length (hp_objects h)" using v by (simp add: heap_valid_def tracked_def)
    moreover have "a \<in> set (hp_entries h)" using a by (metis length_greater_0_conv nth_mem)
    ultimately show ?thesis by simp
  qed
qed

end
