(* ===== verification/AuthMemory.thy ===== *)
theory AuthMemory
  imports AuthStore NonceHeap
begin

text \<open>
  The in-memory account store (\<^verbatim>\<open>MemoryAccountStore\<close> of \<^verbatim>\<open>src/src/rest/auth/memory.ts\<close>). Every operation
  runs its body without yielding under the account lock, so it is one function of the state; \<open>waited\<close> is
  the number of whole seconds it waited for the lock. Nonce entries are objects shared between the nonce
  maps and the expiry heap and are referred to by address.
\<close>

section \<open>State\<close>

record AccountStore =
  as_limits :: AccountStoreLimits
  as_accounts :: "(string, Account) jsmap"
  as_owners :: "(string, string) jsmap"
  as_bots :: "(string, BotGrant) jsmap"
  as_accountBots :: "(string, string list) jsmap"
  as_nonces :: "(string, (string, nat) jsmap) jsmap"
  as_expiry :: NonceExpiryHeap

definition newAccountStore :: "AccountStoreLimits \<Rightarrow> AccountStore" where
  "newAccountStore limits = \<lparr>as_limits = limits, as_accounts = [], as_owners = [], as_bots = [], as_accountBots = [],
     as_nonces = [], as_expiry = \<lparr>hp_objects = [], hp_entries = []\<rparr>\<rparr>"

abbreviation entryObject :: "AccountStore \<Rightarrow> nat \<Rightarrow> NonceEntry" where
  "entryObject s a \<equiv> hp_objects (as_expiry s) ! a"

section \<open>Nonces\<close>

definition removeNonce :: "nat \<Rightarrow> AccountStore \<Rightarrow> unit res \<times> AccountStore" where
  "removeNonce entry s =
     (let account = ne_accountId (entryObject s entry) in
      case js_get (as_nonces s) account of
        None \<Rightarrow> (Inl (TypeError ''Cannot read properties of undefined''), s)
      | Some entries \<Rightarrow>
          let entries' = js_delete (ne_nonce (entryObject s entry)) entries;
              nonces' = (if entries' = [] then js_delete account (as_nonces s) else js_set account entries' (as_nonces s)) in
          (Inr (), s\<lparr>as_nonces := nonces', as_expiry := heap_remove entry (as_expiry s)\<rparr>))"

text \<open>\<^verbatim>\<open>for (const entry of entries.values()) if (entry.expiresAt <= now) removeNonce(entry)\<close>.\<close>

fun removeExpired :: "int \<Rightarrow> nat list \<Rightarrow> AccountStore \<Rightarrow> unit res \<times> AccountStore" where
  "removeExpired now [] s = (Inr (), s)"
| "removeExpired now (entry # entries) s =
     (if ne_expiresAt (entryObject s entry) \<le> now
      then invoke (removeNonce entry s) (\<lambda>s. s) (\<lambda>_ s1. removeExpired now entries s1)
      else removeExpired now entries s)"

definition nonceEntries :: "AccountStore \<Rightarrow> string \<Rightarrow> (string, nat) jsmap" where
  "nonceEntries s account = (case js_get (as_nonces s) account of None \<Rightarrow> [] | Some m \<Rightarrow> m)"

definition consumeNonce :: "VerifiedRequest \<Rightarrow> AccountStore \<Rightarrow> unit res \<times> AccountStore" where
  "consumeNonce request s =
     invoke (removeExpired (vr_now request) (js_values (nonceEntries s (vr_accountId request))) s) (\<lambda>s. s) (\<lambda>_ s1.
     let entries = nonceEntries s1 (vr_accountId request); nonce = toLowerCase (vr_nonce request) in
     attempt (ensure (\<not> js_has entries nonce)
          (RestAuthError ''REPLAY'' 409 ''Authenticated request nonce was already used'')) s1 (\<lambda>_.
     attempt (ensure (\<not> int (length entries) \<ge> nonceCapacity (maxNoncesPerAccount (as_limits s1)) (vr_grantId request))
          (RestAuthError ''STORAGE_LIMIT'' 429 ''Account request nonce storage limit exceeded'')) s1 (\<lambda>_.
     let entry = length (hp_objects (as_expiry s1));
         heap = (as_expiry s1)\<lparr>hp_objects := hp_objects (as_expiry s1) @
           [\<lparr>ne_accountId = vr_accountId request, ne_nonce = nonce, ne_expiresAt = vr_expiresAt request, ne_index = - 1\<rparr>]\<rparr> in
     (Inr (), s1\<lparr>as_nonces := js_set (vr_accountId request) (js_set nonce entry entries) (as_nonces s1),
                as_expiry := heap_add entry heap\<rparr>))))"

fun cleanupLoop :: "nat \<Rightarrow> int \<Rightarrow> int \<Rightarrow> AccountStore \<Rightarrow> int res \<times> AccountStore" where
  "cleanupLoop 0 now removed s = (Inr removed, s)"
| "cleanupLoop (Suc remaining) now removed s =
     (case heap_first (as_expiry s) of
        None \<Rightarrow> (Inr removed, s)
      | Some entry \<Rightarrow>
          if ne_expiresAt (entryObject s entry) \<le> now
          then invoke (removeNonce entry s) (\<lambda>s. s) (\<lambda>_ s1. cleanupLoop remaining now (removed + 1) s1)
          else (Inr removed, s))"

definition cleanupExpiredNonces :: "int \<Rightarrow> int option \<Rightarrow> AccountStore \<Rightarrow> int res \<times> AccountStore" where
  "cleanupExpiredNonces now limit s =
     attempt (assertTime_auth now) s (\<lambda>_.
     attempt (cleanupLimit limit) s (\<lambda>maximum.
     cleanupLoop (nat maximum) now 0 s))"

section \<open>Accounts\<close>

definition require_account :: "AccountStore \<Rightarrow> string \<Rightarrow> Account res" where
  "require_account s i = (case js_get (as_accounts s) i of
     None \<Rightarrow> Inl (RestAuthError ''ACCOUNT_NOT_FOUND'' 404 ''Account not found'') | Some account \<Rightarrow> Inr account)"

definition find_grant :: "AccountStore \<Rightarrow> string option \<Rightarrow> BotGrant option" where
  "find_grant s i = (case i of None \<Rightarrow> None | Some g \<Rightarrow> js_get (as_bots s) g)"

definition ownerKey :: "Account \<Rightarrow> string" where
  "ownerKey account = intText (ac_authorityChainId account) @ '':'' @ toLowerCase (ac_ownerAddress account)"

definition enrollmentAccount :: "AccountStore \<Rightarrow> Account \<Rightarrow> Account res" where
  "enrollmentAccount s account =
     (let ownerAccount = js_get (as_owners s) (ownerKey account); existing = js_get (as_accounts s) (ac_id account) in
     bindR (ensure (\<not> ((case ownerAccount of None \<Rightarrow> False | Some i \<Rightarrow> i \<noteq> ac_id account) \<or>
            (case existing of None \<Rightarrow> False
             | Some e \<Rightarrow> toLowerCase (ac_ownerAddress e) \<noteq> toLowerCase (ac_ownerAddress account) \<or>
                 ac_authorityChainId e \<noteq> ac_authorityChainId account)))
          (RestAuthError ''FORBIDDEN'' 403 ''Account identity does not match its owner'')) (\<lambda>_.
     bindR (ensure (\<not> (existing = None \<and> int (length (as_accounts s)) \<ge> maxAccounts (as_limits s)))
          (RestAuthError ''STORAGE_LIMIT'' 429 ''Account storage limit exceeded'')) (\<lambda>_.
     Inr (case existing of Some e \<Rightarrow> e
          | None \<Rightarrow> account\<lparr>ac_ownerAddress := toLowerCase (ac_ownerAddress account)\<rparr>))))"

definition saveEnrollment :: "Account \<Rightarrow> AccountStore \<Rightarrow> AccountStore" where
  "saveEnrollment account s =
     (if js_has (as_accounts s) (ac_id account) then s
      else s\<lparr>as_accounts := js_set (ac_id account) account (as_accounts s),
             as_owners := js_set (ownerKey account) (ac_id account) (as_owners s)\<rparr>)"

definition getAccount :: "string \<Rightarrow> AccountStore \<Rightarrow> Account option res" where
  "getAccount i s = bindR (assertIdentifier i) (\<lambda>_. Inr (js_get (as_accounts s) i))"

definition afterWait :: "int \<Rightarrow> VerifiedRequest \<Rightarrow> VerifiedRequest res" where
  "afterWait waited request =
     (let current = request\<lparr>vr_now := vr_now request + waited\<rparr> in bindR (assertRequest current) (\<lambda>_. Inr current))"

definition enroll :: "int \<Rightarrow> Account \<Rightarrow> VerifiedRequest \<Rightarrow> AccountStore \<Rightarrow> RestPrincipal res \<times> AccountStore" where
  "enroll waited account request s =
     attempt (assertAccount account) s (\<lambda>_.
     attempt (assertRequest request) s (\<lambda>_.
     attempt (afterWait waited request) s (\<lambda>currentRequest.
     attempt (ensure (\<not> (vr_accountId request \<noteq> ac_id account \<or> vr_grantId request \<noteq> None \<or>
            toLowerCase (vr_signer request) \<noteq> toLowerCase (ac_ownerAddress account)))
          (RestAuthError ''FORBIDDEN'' 403 ''Only the owner can enroll an account'')) s (\<lambda>_.
     attempt (enrollmentAccount s account) s (\<lambda>v.
     attempt (principalFor v None currentRequest) s (\<lambda>pr.
     invoke (consumeNonce currentRequest s) (\<lambda>s. s) (\<lambda>_ s1.
     (Inr pr, saveEnrollment v s1))))))))"

definition authorizeAndConsume :: "int \<Rightarrow> VerifiedRequest \<Rightarrow> AccountStore \<Rightarrow> RestPrincipal res \<times> AccountStore" where
  "authorizeAndConsume waited request s =
     attempt (assertRequest request) s (\<lambda>_.
     attempt (afterWait waited request) s (\<lambda>currentRequest.
     attempt (require_account s (vr_accountId request)) s (\<lambda>account.
     attempt (principalFor account (find_grant s (vr_grantId request)) currentRequest) s (\<lambda>pr.
     invoke (consumeNonce currentRequest s) (\<lambda>s. s) (\<lambda>_ s1. (Inr pr, s1))))))"

definition assertActive :: "int \<Rightarrow> ActiveAuthority \<Rightarrow> AccountStore \<Rightarrow> unit res" where
  "assertActive waited authority s =
     bindR (authorityRequest authority) (\<lambda>request.
     bindR (require_account s (aa_accountId authority)) (\<lambda>account.
     bindR (principalFor account (find_grant s (aa_grantId authority)) (request\<lparr>vr_now := aa_now authority + waited\<rparr>)) (\<lambda>_.
     Inr ())))"

text \<open>The check of \<^verbatim>\<open>withActiveActor\<close> before it runs its operation: the guard of the other stores.\<close>

definition activeActor :: "int \<Rightarrow> AccountStore \<Rightarrow> RestActor \<Rightarrow> BotScope list \<Rightarrow> int \<Rightarrow> unit res" where
  "activeActor waited s actor scopes now =
     bindR (actorGrantId actor) (\<lambda>grantId.
     bindR (require_account s (accountId actor)) (\<lambda>account.
     assertActorAuthority account (find_grant s grantId) actor scopes (now + waited)))"

definition withActiveActor ::
  "int \<Rightarrow> RestActor \<Rightarrow> BotScope list \<Rightarrow> int \<Rightarrow> ('t \<Rightarrow> 'a res \<times> 't) \<Rightarrow> AccountStore \<Rightarrow> 't \<Rightarrow> 'a res \<times> 't" where
  "withActiveActor waited actor scopes now operation s t =
     attempt (activeActor waited s actor scopes now) t (\<lambda>_. operation t)"

definition updateProfile :: "string \<Rightarrow> Profile \<Rightarrow> int \<Rightarrow> AccountStore \<Rightarrow> Account res \<times> AccountStore" where
  "updateProfile i profile now s =
     attempt (assertIdentifier i) s (\<lambda>_.
     attempt (assertProfile profile) s (\<lambda>_.
     attempt (assertTime_auth now) s (\<lambda>_.
     attempt (require_account s i) s (\<lambda>account.
     let updated = account\<lparr>ac_profile := profile, ac_updatedAt := max (ac_updatedAt account) now\<rparr> in
     (Inr updated, s\<lparr>as_accounts := js_set i updated (as_accounts s)\<rparr>)))))"

section \<open>Grants\<close>

text \<open>\<open>idLe\<close> is the order of \<^verbatim>\<open>String.prototype.localeCompare\<close>, which depends on the locale.\<close>

definition listBots :: "(string \<Rightarrow> string \<Rightarrow> bool) \<Rightarrow> string \<Rightarrow> AccountStore \<Rightarrow> BotGrant list res" where
  "listBots idLe i s =
     bindR (assertIdentifier i) (\<lambda>_.
     bindR (require_account s i) (\<lambda>_.
     Inr (sort_by (\<lambda>a b. bg_createdAt a < bg_createdAt b \<or> bg_createdAt a = bg_createdAt b \<and> idLe (bg_id a) (bg_id b))
       (map (\<lambda>g. the (js_get (as_bots s) g)) (case js_get (as_accountBots s) i of None \<Rightarrow> [] | Some ids \<Rightarrow> ids)))))"

text \<open>\<^verbatim>\<open>Set.add\<close> on an insertion-ordered set.\<close>

definition js_add :: "'a \<Rightarrow> 'a list \<Rightarrow> 'a list" where
  "js_add x xs = (if x \<in> set xs then xs else xs @ [x])"

definition registerBot :: "BotGrant \<Rightarrow> AccountStore \<Rightarrow> BotGrant res \<times> AccountStore" where
  "registerBot grant s =
     attempt (assertGrant grant) s (\<lambda>_.
     attempt (require_account s (bg_accountId grant)) s (\<lambda>_.
     attempt (ensure (\<not> js_has (as_bots s) (bg_id grant))
          (RestAuthError ''REPLAY'' 409 ''Bot grant identifier already exists'')) s (\<lambda>_.
     let ids = (case js_get (as_accountBots s) (bg_accountId grant) of None \<Rightarrow> [] | Some ids \<Rightarrow> ids) in
     attempt (ensure (\<not> int (length ids) \<ge> maxGrantsPerAccount (as_limits s))
          (RestAuthError ''STORAGE_LIMIT'' 429 ''Account bot grant storage limit exceeded'')) s (\<lambda>_.
     let v = grant\<lparr>bg_botAddress := toLowerCase (bg_botAddress grant)\<rparr> in
     (Inr v, s\<lparr>as_bots := js_set (bg_id v) v (as_bots s),
               as_accountBots := js_set (bg_accountId v) (js_add (bg_id v) ids) (as_accountBots s)\<rparr>)))))"

definition revokeBot :: "string \<Rightarrow> string \<Rightarrow> int \<Rightarrow> AccountStore \<Rightarrow> BotGrant res \<times> AccountStore" where
  "revokeBot account grantId now s =
     attempt (assertIdentifier account) s (\<lambda>_.
     attempt (assertIdentifier grantId) s (\<lambda>_.
     attempt (assertTime_auth now) s (\<lambda>_.
     attempt (require_account s account) s (\<lambda>_.
     case js_get (as_bots s) grantId of
       None \<Rightarrow> (Inl (RestAuthError ''GRANT_NOT_FOUND'' 404 ''Bot grant not found''), s)
     | Some grant \<Rightarrow>
         if bg_accountId grant \<noteq> account then (Inl (RestAuthError ''GRANT_NOT_FOUND'' 404 ''Bot grant not found''), s)
         else
           let revoked = grant\<lparr>bg_revokedAt := Some (case bg_revokedAt grant of Some t \<Rightarrow> t
                                 | None \<Rightarrow> max now (bg_createdAt grant))\<rparr> in
           (Inr revoked, s\<lparr>as_bots := js_set grantId revoked (as_bots s)\<rparr>)))))"

end
