(* ===== verification/AuthInvariants.thy ===== *)
theory AuthInvariants
  imports AuthMemory
begin

text \<open>
  The invariant of the in-memory account store. The nonce maps and the expiry heap hold the same entries
  (\<open>nonces_ok\<close>), so the nonce state abstracts to a partial function \<open>spent\<close> from nonces to expiry times on
  which \<open>consumeNonce\<close> and \<open>cleanupExpiredNonces\<close> have simple descriptions; accounts and their owners are
  in one-to-one correspondence (\<open>accounts_ok\<close>); grants and the per-account index agree (\<open>grants_ok\<close>).
\<close>

section \<open>Nonces: maps and heap agree\<close>

definition nonceAt :: "AccountStore \<Rightarrow> string \<Rightarrow> string \<Rightarrow> nat option" where
  "nonceAt s account nonce = js_get (nonceEntries s account) nonce"

text \<open>The abstraction of the nonce state: which nonces are spent, and until when.\<close>

definition spent :: "AccountStore \<Rightarrow> string \<times> string \<Rightarrow> int option" where
  "spent s = (\<lambda>(account, nonce). map_option (\<lambda>a. ne_expiresAt (entryObject s a)) (nonceAt s account nonce))"

definition entryKey :: "AccountStore \<Rightarrow> nat \<Rightarrow> string \<times> string" where
  "entryKey s a = (ne_accountId (entryObject s a), ne_nonce (entryObject s a))"

definition liveEntries :: "AccountStore \<Rightarrow> nat set" where
  "liveEntries s = set (hp_entries (as_expiry s))"

definition nonces_ok :: "AccountStore \<Rightarrow> bool" where
  "nonces_ok s \<longleftrightarrow>
     heap_valid (as_expiry s) \<and> js_wf (as_nonces s) \<and>
     (\<forall>account m. js_get (as_nonces s) account = Some m \<longrightarrow> js_wf m) \<and>
     (\<forall>account nonce a. nonceAt s account nonce = Some a \<longleftrightarrow> a \<in> liveEntries s \<and> entryKey s a = (account, nonce))"

lemma nonces_ok_heap: "nonces_ok s \<Longrightarrow> heap_valid (as_expiry s)"
  by (simp add: nonces_ok_def)

lemma nonces_ok_at: "nonces_ok s \<Longrightarrow> nonceAt s account nonce = Some a \<longleftrightarrow> a \<in> liveEntries s \<and> entryKey s a = (account, nonce)"
  unfolding nonces_ok_def by blast

lemma live_allocated: "nonces_ok s \<Longrightarrow> a \<in> liveEntries s \<Longrightarrow> a < length (hp_objects (as_expiry s))"
  by (simp add: nonces_ok_def heap_valid_def tracked_def liveEntries_def)

lemma spent_live:
  "nonces_ok s \<Longrightarrow> a \<in> liveEntries s \<Longrightarrow> spent s (entryKey s a) = Some (ne_expiresAt (entryObject s a))"
  using nonces_ok_at [of s "fst (entryKey s a)" "snd (entryKey s a)" a] by (cases "entryKey s a") (simp add: spent_def)

lemma entryKey_inj: "nonces_ok s \<Longrightarrow> a \<in> liveEntries s \<Longrightarrow> b \<in> liveEntries s \<Longrightarrow> entryKey s a = entryKey s b \<Longrightarrow> a = b"
  using nonces_ok_at by (metis option.inject prod.collapse)

text \<open>The nonce maps without a key, an emptied inner map dropped.\<close>

lemma nonceEntries_removed:
  fixes nonce :: string
  assumes "js_get (as_nonces s) account = Some entries"
  defines "entries' \<equiv> js_delete nonce entries"
  shows "nonceEntries (s\<lparr>as_nonces := (if entries' = [] then js_delete account (as_nonces s)
       else js_set account entries' (as_nonces s)), as_expiry := h\<rparr>) i =
     (if i = account then entries' else nonceEntries s i)"
  using assms by (simp add: nonceEntries_def)

text \<open>What a change of the nonce state leaves alone.\<close>

definition nonce_frame :: "AccountStore \<Rightarrow> AccountStore \<Rightarrow> bool" where
  "nonce_frame s s' \<longleftrightarrow> s' = s\<lparr>as_nonces := as_nonces s', as_expiry := as_expiry s'\<rparr>"

lemma nonce_frame_refl [simp]: "nonce_frame s s"
  by (simp add: nonce_frame_def)

lemma nonce_frame_trans: "nonce_frame s t \<Longrightarrow> nonce_frame t u \<Longrightarrow> nonce_frame s u"
  unfolding nonce_frame_def by (cases s; cases t; cases u) simp

lemma nonce_frameD:
  "nonce_frame s s' \<Longrightarrow> as_limits s' = as_limits s \<and> as_accounts s' = as_accounts s \<and> as_owners s' = as_owners s \<and>
     as_bots s' = as_bots s \<and> as_accountBots s' = as_accountBots s"
  unfolding nonce_frame_def by (cases s; cases s') simp

definition shrinks :: "AccountStore \<Rightarrow> AccountStore \<Rightarrow> bool" where
  "shrinks s s' \<longleftrightarrow> nonce_frame s s' \<and> data (as_expiry s') = data (as_expiry s) \<and>
     (\<forall>i. length (nonceEntries s' i) \<le> length (nonceEntries s i))"

lemma shrinks_refl [simp]: "shrinks s s"
  by (simp add: shrinks_def)

lemma shrinks_trans: "shrinks s t \<Longrightarrow> shrinks t u \<Longrightarrow> shrinks s u"
  unfolding shrinks_def using nonce_frame_trans [of s t u] order_trans by (metis (no_types))

lemma js_delete_length: "length (js_delete k m) \<le> length m"
  by (rule length_delete_le)

lemma removeNonce_ok:
  assumes ok: "nonces_ok s" and a: "a \<in> liveEntries s"
  obtains s' where "removeNonce a s = (Inr (), s')" "nonces_ok s'" "liveEntries s' = liveEntries s - {a}"
    "spent s' = (spent s)(entryKey s a := None)" "shrinks s s'"
proof -
  let ?h = "as_expiry s" and ?acc = "ne_accountId (entryObject s a)" and ?n = "ne_nonce (entryObject s a)"
  have at: "nonceAt s ?acc ?n = Some a" using nonces_ok_at [OF ok] a by (simp add: entryKey_def)
  then obtain entries where e: "js_get (as_nonces s) ?acc = Some entries"
    by (auto simp: nonceAt_def nonceEntries_def split: option.splits)
  define entries' where "entries' = js_delete ?n entries"
  define s' where "s' = s\<lparr>as_nonces := (if entries' = [] then js_delete ?acc (as_nonces s)
      else js_set ?acc entries' (as_nonces s)), as_expiry := heap_remove a ?h\<rparr>"
  have r: "removeNonce a s = (Inr (), s')" using e by (simp add: removeNonce_def Let_def s'_def entries'_def)
  have rm: "heap_valid (as_expiry s')" "liveEntries s' = liveEntries s - {a}" "data (as_expiry s') = data ?h"
    using heap_remove_ok [OF nonces_ok_heap [OF ok], of a] a by (simp_all add: s'_def liveEntries_def)
  have len: "length (hp_objects (as_expiry s')) = length (hp_objects ?h)" using data_length [OF rm(3)] .
  have obj: "ne_expiresAt (entryObject s' b) = ne_expiresAt (entryObject s b)" "entryKey s' b = entryKey s b"
    if "b \<in> liveEntries s" for b
    using data_nth [OF rm(3)] live_allocated [OF ok that] len by (simp_all add: entryKey_def)
  have ents: "nonceEntries s' i = (if i = ?acc then entries' else nonceEntries s i)" for i
    unfolding s'_def entries'_def by (rule nonceEntries_removed [OF e])
  have ea: "nonceEntries s ?acc = entries" using e by (simp add: nonceEntries_def)
  have nat: "nonceAt s' i n = (if (i, n) = entryKey s a then None else nonceAt s i n)" for i n
    using ea by (auto simp: nonceAt_def ents entries'_def entryKey_def)
  have "nonces_ok s'"
    unfolding nonces_ok_def
  proof (intro conjI allI impI)
    show "heap_valid (as_expiry s')" by (rule rm(1))
    show "js_wf (as_nonces s')" using ok by (simp add: s'_def nonces_ok_def)
    show "js_wf m" if "js_get (as_nonces s') i = Some m" for i m
      using that ok e by (auto simp: s'_def entries'_def nonces_ok_def split: if_splits)
    show "nonceAt s' i n = Some b \<longleftrightarrow> b \<in> liveEntries s' \<and> entryKey s' b = (i, n)" for i n b
    proof (cases "(i, n) = entryKey s a")
      case True
      have "\<not> (b \<in> liveEntries s' \<and> entryKey s' b = entryKey s a)"
        using rm(2) obj(2) [of b] entryKey_inj [OF ok a, of b] by force
      with True nat [of i n] show ?thesis by simp
    next
      case False
      then have "nonceAt s' i n = nonceAt s i n" using nat [of i n] by simp
      moreover have "b \<in> liveEntries s' \<and> entryKey s' b = (i, n) \<longleftrightarrow> b \<in> liveEntries s \<and> entryKey s b = (i, n)"
        unfolding rm(2) using obj(2) [of b] False by (cases "b \<in> liveEntries s") auto
      ultimately show ?thesis using nonces_ok_at [OF ok, of i n b] by simp
    qed
  qed
  moreover have "spent s' = (spent s)(entryKey s a := None)"
  proof
    fix k :: "string \<times> string"
    obtain i n where k: "k = (i, n)" by (cases k)
    show "spent s' k = ((spent s)(entryKey s a := None)) k"
    proof (cases "nonceAt s i n")
      case None
      then show ?thesis using nat [of i n] by (simp add: k spent_def)
    next
      case (Some b)
      then have "b \<in> liveEntries s" using nonces_ok_at [OF ok, of i n b] by simp
      then show ?thesis using Some nat [of i n] obj(1) by (simp add: k spent_def)
    qed
  qed
  moreover have "shrinks s s'"
    using rm(3) js_delete_length [of ?n entries] ea
    by (simp add: shrinks_def nonce_frame_def ents entries'_def) (simp add: s'_def)
  ultimately show thesis using that r rm(2) by blast
qed

lemma shrinks_entry:
  assumes "shrinks s s'" and "nonces_ok s" and "a \<in> liveEntries s"
  shows "ne_expiresAt (entryObject s' a) = ne_expiresAt (entryObject s a)" "entryKey s' a = entryKey s a"
proof -
  have "data (as_expiry s') = data (as_expiry s)" using assms(1) by (simp add: shrinks_def)
  with data_nth [OF this] data_length [OF this] live_allocated [OF assms(2,3)]
  show "ne_expiresAt (entryObject s' a) = ne_expiresAt (entryObject s a)" "entryKey s' a = entryKey s a"
    by (simp_all add: entryKey_def)
qed

text \<open>The loop over the entries of one account drops exactly the expired ones.\<close>

lemma removeExpired_ok:
  assumes "nonces_ok s" and "set es \<subseteq> liveEntries s" and "distinct es"
  shows "\<exists>s'. removeExpired now es s = (Inr (), s') \<and> nonces_ok s' \<and> shrinks s s' \<and>
     liveEntries s' = liveEntries s - {a \<in> set es. ne_expiresAt (entryObject s a) \<le> now} \<and>
     spent s' = (\<lambda>k. if k \<in> entryKey s ` {a \<in> set es. ne_expiresAt (entryObject s a) \<le> now} then None else spent s k)"
  using assms
proof (induction es arbitrary: s)
  case (Cons e es)
  show ?case
  proof (cases "ne_expiresAt (entryObject s e) \<le> now")
    case True
    from Cons.prems obtain s1 where s1: "removeNonce e s = (Inr (), s1)" "nonces_ok s1"
      "liveEntries s1 = liveEntries s - {e}" "spent s1 = (spent s)(entryKey s e := None)" "shrinks s s1"
      by (auto elim: removeNonce_ok)
    have obj: "ne_expiresAt (entryObject s1 a) = ne_expiresAt (entryObject s a)" "entryKey s1 a = entryKey s a"
      if "a \<in> set es" for a using shrinks_entry [OF s1(5) Cons.prems(1), of a] Cons.prems(2) that by auto
    have sub: "set es \<subseteq> liveEntries s1" using s1(3) Cons.prems by auto
    let ?E = "{a \<in> set es. ne_expiresAt (entryObject s a) \<le> now}"
    from Cons.IH [OF s1(2) sub] Cons.prems(3) obtain s' where s': "removeExpired now es s1 = (Inr (), s')"
      "nonces_ok s'" "shrinks s1 s'" "liveEntries s' = liveEntries s1 - {a \<in> set es. ne_expiresAt (entryObject s1 a) \<le> now}"
      "spent s' = (\<lambda>k. if k \<in> entryKey s1 ` {a \<in> set es. ne_expiresAt (entryObject s1 a) \<le> now} then None else spent s1 k)"
      by auto
    have E: "{a \<in> set es. ne_expiresAt (entryObject s1 a) \<le> now} = ?E" using obj by auto
    have K: "entryKey s1 ` ?E = entryKey s ` ?E" using obj(2) by (intro image_cong) auto
    have all: "{a \<in> set (e # es). ne_expiresAt (entryObject s a) \<le> now} = insert e ?E" using True by auto
    have "liveEntries s' = liveEntries s - insert e ?E" using s'(4) s1(3) unfolding E by auto
    moreover have "spent s' = (\<lambda>k. if k \<in> entryKey s ` insert e ?E then None else spent s k)"
      unfolding s'(5) E K s1(4) by (rule ext) simp
    ultimately show ?thesis
      using True s1(1) s'(1,2) shrinks_trans [OF s1(5) s'(3)] unfolding all by simp
  next
    case False
    then have "{a \<in> set (e # es). ne_expiresAt (entryObject s a) \<le> now} = {a \<in> set es. ne_expiresAt (entryObject s a) \<le> now}"
      by auto
    then show ?thesis using Cons False by simp
  qed
qed auto

definition pruned :: "int \<Rightarrow> string \<Rightarrow> (string \<times> string \<Rightarrow> int option) \<Rightarrow> string \<times> string \<Rightarrow> int option" where
  "pruned now account sp k =
     (case sp k of None \<Rightarrow> None | Some e \<Rightarrow> if fst k = account \<and> e \<le> now then None else Some e)"

lemma account_entries:
  assumes ok: "nonces_ok s"
  shows "a \<in> set (js_values (nonceEntries s account)) \<longleftrightarrow> a \<in> liveEntries s \<and> fst (entryKey s a) = account"
    and "distinct (js_values (nonceEntries s account))" and "js_wf (nonceEntries s account)"
proof -
  show wf: "js_wf (nonceEntries s account)"
    using ok by (auto simp: nonceEntries_def nonces_ok_def split: option.splits)
  have "a \<in> set (js_values (nonceEntries s account)) \<longleftrightarrow> (\<exists>n. nonceAt s account n = Some a)"
    using js_values_get [OF wf] by (simp add: nonceAt_def)
  then show "a \<in> set (js_values (nonceEntries s account)) \<longleftrightarrow> a \<in> liveEntries s \<and> fst (entryKey s a) = account"
    using nonces_ok_at [OF ok] by (metis fst_conv prod.collapse)
  show "distinct (js_values (nonceEntries s account))"
    unfolding distinct_conv_nth
  proof (intro allI impI)
    fix i j assume ij: "i < length (js_values (nonceEntries s account))" "j < length (js_values (nonceEntries s account))" "i \<noteq> j"
    let ?m = "nonceEntries s account"
    have "js_get ?m (fst (?m ! i)) = Some (snd (?m ! i))" "js_get ?m (fst (?m ! j)) = Some (snd (?m ! j))"
      using wf ij by (auto simp: map_of_eq_Some_iff)
    moreover have "fst (?m ! i) \<noteq> fst (?m ! j)"
      using wf ij by (metis (no_types, lifting) distinct_conv_nth length_map nth_map)
    ultimately show "js_values ?m ! i \<noteq> js_values ?m ! j"
      using nonces_ok_at [OF ok, of account] ij unfolding nonceAt_def by (metis length_map nth_map prod.inject)
  qed
qed

lemma removeExpired_account:
  assumes ok: "nonces_ok s"
  shows "\<exists>s'. removeExpired now (js_values (nonceEntries s account)) s = (Inr (), s') \<and> nonces_ok s' \<and> shrinks s s' \<and>
     spent s' = pruned now account (spent s)"
proof -
  let ?es = "js_values (nonceEntries s account)"
  let ?E = "{a \<in> set ?es. ne_expiresAt (entryObject s a) \<le> now}"
  have sub: "set ?es \<subseteq> liveEntries s" using account_entries(1) [OF ok] by auto
  from removeExpired_ok [OF ok sub account_entries(2) [OF ok]] obtain s' where
    s': "removeExpired now ?es s = (Inr (), s')" "nonces_ok s'" "shrinks s s'"
    "spent s' = (\<lambda>k. if k \<in> entryKey s ` ?E then None else spent s k)" by blast
  have "(if k \<in> entryKey s ` ?E then None else spent s k) = pruned now account (spent s) k" for k
  proof (cases "spent s k")
    case None
    then show ?thesis by (simp add: pruned_def)
  next
    case (Some e)
    obtain i n where k: "k = (i, n)" by (cases k)
    from Some obtain a where a: "nonceAt s i n = Some a" "e = ne_expiresAt (entryObject s a)" by (auto simp: spent_def k)
    then have live: "a \<in> liveEntries s" "entryKey s a = k" using nonces_ok_at [OF ok, of i n a] by (simp_all add: k)
    have "k \<in> entryKey s ` ?E \<longleftrightarrow> a \<in> ?E"
      using live entryKey_inj [OF ok] account_entries(1) [OF ok] by auto
    moreover have "a \<in> ?E \<longleftrightarrow> i = account \<and> e \<le> now"
      using account_entries(1) [OF ok, of a account] live a(2) by (simp add: k)
    ultimately show ?thesis using Some by (simp add: pruned_def k)
  qed
  with s' show ?thesis by (intro exI [of _ s']) auto
qed

lemma allocate_ok:
  fixes expiresAt :: int
  assumes ok: "nonces_ok s" and fresh: "nonceAt s account nonce = None"
  defines "entry \<equiv> length (hp_objects (as_expiry s))"
  defines "h \<equiv> (as_expiry s)\<lparr>hp_objects := hp_objects (as_expiry s) @
     [\<lparr>ne_accountId = account, ne_nonce = nonce, ne_expiresAt = expiresAt, ne_index = - 1\<rparr>]\<rparr>"
  defines "s' \<equiv> s\<lparr>as_nonces := js_set account (js_set nonce entry (nonceEntries s account)) (as_nonces s),
     as_expiry := heap_add entry h\<rparr>"
  shows "nonces_ok s' \<and> spent s' = (spent s)((account, nonce) \<mapsto> expiresAt)"
proof -
  have hv: "heap_valid h"
  proof -
    have b: "x < length (hp_objects (as_expiry s))" if "x \<in> set (hp_entries (as_expiry s))" for x
      using live_allocated [OF ok] that by (simp add: liveEntries_def)
    have "keys h = keys (as_expiry s)" using b by (simp add: keys_def h_def nth_append)
    moreover have "entry_at h i = entry_at (as_expiry s) i" if "i < length (hp_entries (as_expiry s))" for i
      using b that by (simp add: entry_at_def h_def nth_append)
    ultimately show ?thesis
      using nonces_ok_heap [OF ok] b unfolding heap_valid_def tracked_def by (auto simp: h_def less_SucI)
  qed
  have new: "entry < length (hp_objects h)" "entry \<notin> set (hp_entries h)"
    using live_allocated [OF ok] by (auto simp: h_def entry_def liveEntries_def)
  note add = heap_add_ok [OF hv new]
  have d: "data (as_expiry s') = data h" using add by (simp add: s'_def)
  have live: "liveEntries s' = insert entry (liveEntries s)" using add by (simp add: s'_def h_def liveEntries_def)
  have obj: "ne_expiresAt (entryObject s' a) = ne_expiresAt (hp_objects h ! a)"
    "entryKey s' a = (ne_accountId (hp_objects h ! a), ne_nonce (hp_objects h ! a))" if "a < length (hp_objects h)" for a
    using data_nth [OF d] data_length [OF d] that by (simp_all add: entryKey_def)
  have old: "ne_expiresAt (entryObject s' a) = ne_expiresAt (entryObject s a)" "entryKey s' a = entryKey s a" "a \<noteq> entry"
    if "a \<in> liveEntries s" for a
    using obj [of a] live_allocated [OF ok that] by (simp_all add: h_def nth_append entryKey_def entry_def)
  have self: "ne_expiresAt (entryObject s' entry) = expiresAt" "entryKey s' entry = (account, nonce)"
    using obj [OF new(1)] by (simp_all add: h_def entry_def)
  have nat: "nonceAt s' i n = (if (i, n) = (account, nonce) then Some entry else nonceAt s i n)" for i n
    by (auto simp: nonceAt_def nonceEntries_def s'_def)
  have "nonces_ok s'"
    unfolding nonces_ok_def
  proof (intro conjI allI impI)
    show "heap_valid (as_expiry s')" using add by (simp add: s'_def)
    show "js_wf (as_nonces s')" using ok by (simp add: s'_def nonces_ok_def)
    show "js_wf m" if "js_get (as_nonces s') i = Some m" for i m
      using that ok account_entries(3) [OF ok, of account] by (auto simp: s'_def nonces_ok_def split: if_splits)
    show "nonceAt s' i n = Some b \<longleftrightarrow> b \<in> liveEntries s' \<and> entryKey s' b = (i, n)" for i n b
    proof (cases "b = entry")
      case True
      have "nonceAt s i n \<noteq> Some entry" using nonces_ok_at [OF ok, of i n entry] old(3) by blast
      then show ?thesis using True live self(2) nat [of i n] by auto
    next
      case False
      have "(b \<in> liveEntries s' \<and> entryKey s' b = (i, n)) \<longleftrightarrow> nonceAt s i n = Some b"
        using False live old(2) [of b] nonces_ok_at [OF ok, of i n b] by auto
      then show ?thesis using False nat [of i n] fresh by auto
    qed
  qed
  moreover have "spent s' = (spent s)((account, nonce) \<mapsto> expiresAt)"
  proof
    fix k :: "string \<times> string"
    obtain i n where k: "k = (i, n)" by (cases k)
    show "spent s' k = ((spent s)((account, nonce) \<mapsto> expiresAt)) k"
    proof (cases "nonceAt s i n")
      case None
      then show ?thesis using nat [of i n] self(1) by (simp add: k spent_def)
    next
      case (Some b)
      then have "b \<in> liveEntries s" using nonces_ok_at [OF ok, of i n b] by simp
      then show ?thesis using Some nat [of i n] old(1) [of b] self(1) by (simp add: k spent_def)
    qed
  qed
  ultimately show ?thesis by blast
qed

text \<open>
  \<open>consumeNonce\<close> implements its abstract description: expired nonces of the account are forgotten, a
  nonce that is still spent is refused, a full account is refused, and otherwise the nonce is spent until
  the request expires.
\<close>

definition nonceLimit :: "AccountStore \<Rightarrow> VerifiedRequest \<Rightarrow> int" where
  "nonceLimit s request = nonceCapacity (maxNoncesPerAccount (as_limits s)) (vr_grantId request)"

lemma consumeNonce_spec:
  assumes ok: "nonces_ok s"
  defines "sp request \<equiv> pruned (vr_now request) (vr_accountId request) (spent s)"
  defines "k request \<equiv> (vr_accountId request, toLowerCase (vr_nonce request))"
  obtains s' where "nonces_ok s'" "nonce_frame s s'"
    "consumeNonce request s = (Inl (RestAuthError ''REPLAY'' 409 ''Authenticated request nonce was already used''), s') \<and>
       sp request (k request) \<noteq> None \<and> spent s' = sp request \<and> (\<forall>i. length (nonceEntries s' i) \<le> length (nonceEntries s i)) \<or>
     consumeNonce request s = (Inl (RestAuthError ''STORAGE_LIMIT'' 429 ''Account request nonce storage limit exceeded''), s') \<and>
       nonceLimit s request \<le> int (length (nonceEntries s (vr_accountId request))) \<and> spent s' = sp request \<and>
       (\<forall>i. length (nonceEntries s' i) \<le> length (nonceEntries s i)) \<or>
     consumeNonce request s = (Inr (), s') \<and> sp request (k request) = None \<and>
       spent s' = (sp request)(k request \<mapsto> vr_expiresAt request) \<and>
       int (length (nonceEntries s' (vr_accountId request))) \<le> nonceLimit s request \<and>
       (\<forall>i. i \<noteq> vr_accountId request \<longrightarrow> length (nonceEntries s' i) \<le> length (nonceEntries s i))"
proof -
  let ?acc = "vr_accountId request" and ?n = "toLowerCase (vr_nonce request)"
  obtain s1 where s1: "removeExpired (vr_now request) (js_values (nonceEntries s ?acc)) s = (Inr (), s1)" "nonces_ok s1"
    "shrinks s s1" "spent s1 = sp request"
    using removeExpired_account [OF ok] unfolding sp_def by blast
  have frame: "nonce_frame s s1" and le: "\<forall>i. length (nonceEntries s1 i) \<le> length (nonceEntries s i)"
    using s1(3) by (simp_all add: shrinks_def)
  have lim: "as_limits s1 = as_limits s" using nonce_frameD [OF frame] by simp
  have has: "js_get (nonceEntries s1 ?acc) ?n = None \<longleftrightarrow> sp request (k request) = None"
    by (simp add: s1(4) [symmetric] k_def spent_def nonceAt_def)
  show thesis
  proof (cases "sp request (k request) = None")
    case False
    with has obtain a where "js_get (nonceEntries s1 ?acc) ?n = Some a" by auto
    with s1(1) have "consumeNonce request s = (Inl (RestAuthError ''REPLAY'' 409 ''Authenticated request nonce was already used''), s1)"
      by (simp add: consumeNonce_def Let_def)
    with False s1 frame le show thesis by (intro that [of s1]) auto
  next
    case True
    then have none: "js_get (nonceEntries s1 ?acc) ?n = None" using has by blast
    then have fresh: "nonceAt s1 ?acc ?n = None" by (simp add: nonceAt_def)
    show thesis
    proof (cases "nonceLimit s request \<le> int (length (nonceEntries s1 ?acc))")
      case full: True
      with none s1(1) lim have "consumeNonce request s =
          (Inl (RestAuthError ''STORAGE_LIMIT'' 429 ''Account request nonce storage limit exceeded''), s1)"
        by (simp add: consumeNonce_def Let_def nonceLimit_def)
      moreover have "nonceLimit s request \<le> int (length (nonceEntries s ?acc))" using full le by (meson of_nat_le_iff order_trans)
      ultimately show thesis using s1 frame le by (intro that [of s1]) auto
    next
      case room: False
      define s' where "s' = s1\<lparr>as_nonces := js_set ?acc (js_set ?n (length (hp_objects (as_expiry s1))) (nonceEntries s1 ?acc)) (as_nonces s1),
        as_expiry := heap_add (length (hp_objects (as_expiry s1))) ((as_expiry s1)\<lparr>hp_objects := hp_objects (as_expiry s1) @
         [\<lparr>ne_accountId = ?acc, ne_nonce = ?n, ne_expiresAt = vr_expiresAt request, ne_index = - 1\<rparr>]\<rparr>)\<rparr>"
      have "consumeNonce request s = (Inr (), s')"
        using none s1(1) lim room by (simp add: consumeNonce_def Let_def nonceLimit_def s'_def)
      moreover have "nonces_ok s' \<and> spent s' = (spent s1)((?acc, ?n) \<mapsto> vr_expiresAt request)"
        unfolding s'_def by (rule allocate_ok [OF s1(2) fresh])
      moreover have "nonceEntries s' i = (if i = ?acc then js_set ?n (length (hp_objects (as_expiry s1))) (nonceEntries s1 ?acc)
          else nonceEntries s1 i)" for i by (simp add: nonceEntries_def s'_def)
      moreover have "length (js_set ?n v (nonceEntries s1 ?acc)) = Suc (length (nonceEntries s1 ?acc))" for v
        using fresh by (simp add: nonceAt_def js_set_fresh)
      moreover have "nonce_frame s s'" using frame by (rule nonce_frame_trans) (simp add: s'_def nonce_frame_def)
      ultimately show thesis using True s1(4) room le by (intro that [of s']) (auto simp: k_def)
    qed
  qed
qed

text \<open>The global cleanup removes expired entries only, and all of them when it stops before its limit.\<close>

lemma cleanupLoop_ok:
  assumes "nonces_ok s"
  shows "\<exists>n s'. cleanupLoop limit now removed s = (Inr n, s') \<and> nonces_ok s' \<and> shrinks s s' \<and>
     removed \<le> n \<and> n \<le> removed + int limit \<and>
     (\<forall>k. spent s' k = spent s k \<or> (\<exists>e. spent s k = Some e \<and> e \<le> now \<and> spent s' k = None)) \<and>
     (n < removed + int limit \<longrightarrow> (\<forall>k e. spent s' k = Some e \<longrightarrow> now < e))"
  using assms
proof (induction limit arbitrary: s removed)
  case (Suc limit)
  have live: "\<forall>k e. spent s k = Some e \<longrightarrow> now < e"
    if "\<And>a. heap_first (as_expiry s) = Some a \<Longrightarrow> now < ne_expiresAt (entryObject s a)"
  proof (intro allI impI)
    fix k e assume "spent s k = Some e"
    then obtain a where "nonceAt s (fst k) (snd k) = Some a" and e: "e = ne_expiresAt (entryObject s a)"
      by (cases k) (auto simp: spent_def)
    then have a: "a \<in> liveEntries s" using nonces_ok_at [OF Suc.prems] by blast
    have "now < (if a < length (hp_objects (as_expiry s)) then ne_expiresAt (entryObject s a) else 0)"
    proof (rule nonce_heap.first_live [OF nonces_ok_heap [OF Suc.prems]])
      fix b assume b: "heap_first (as_expiry s) = Some b"
      then have "b \<in> liveEntries s"
        using nonce_heap.first_least [OF nonces_ok_heap [OF Suc.prems]] by (simp add: liveEntries_def)
      then show "now < (if b < length (hp_objects (as_expiry s)) then ne_expiresAt (entryObject s b) else 0)"
        using that [OF b] live_allocated [OF Suc.prems] by simp
    qed (use a in \<open>simp add: liveEntries_def\<close>)
    then show "now < e" using e live_allocated [OF Suc.prems a] by simp
  qed
  show ?case
  proof (cases "heap_first (as_expiry s)")
    case None
    then show ?thesis using live Suc.prems by simp
  next
    case (Some a)
    then have a: "a \<in> liveEntries s"
      using nonce_heap.first_least [OF nonces_ok_heap [OF Suc.prems]] by (simp add: liveEntries_def)
    show ?thesis
    proof (cases "ne_expiresAt (entryObject s a) \<le> now")
      case True
      from removeNonce_ok [OF Suc.prems a] obtain s1 where s1: "removeNonce a s = (Inr (), s1)" "nonces_ok s1"
        "spent s1 = (spent s)(entryKey s a := None)" "shrinks s s1" by blast
      from Suc.IH [OF s1(2), of "removed + 1"] obtain n s' where
        s': "cleanupLoop limit now (removed + 1) s1 = (Inr n, s')" "nonces_ok s'" "shrinks s1 s'" "removed + 1 \<le> n"
        "n \<le> removed + 1 + int limit" "\<forall>k. spent s' k = spent s1 k \<or> (\<exists>e. spent s1 k = Some e \<and> e \<le> now \<and> spent s' k = None)"
        "n < removed + 1 + int limit \<longrightarrow> (\<forall>k e. spent s' k = Some e \<longrightarrow> now < e)" by blast
      have "spent s' k = spent s k \<or> (\<exists>e. spent s k = Some e \<and> e \<le> now \<and> spent s' k = None)" for k
        using s'(6) [rule_format, of k] spent_live [OF Suc.prems a] True s1(3) by (auto split: if_splits)
      then show ?thesis
        using Some True s1(1) s' shrinks_trans [OF s1(4) s'(3)] by (intro exI [of _ n] exI [of _ s']) simp
    next
      case False
      then show ?thesis using Some live Suc.prems by simp
    qed
  qed
qed simp

section \<open>Accounts and grants\<close>

definition accounts_ok :: "AccountStore \<Rightarrow> bool" where
  "accounts_ok s \<longleftrightarrow>
     js_wf (as_accounts s) \<and> js_wf (as_owners s) \<and> int (length (as_accounts s)) \<le> maxAccounts (as_limits s) \<and>
     (\<forall>i a. js_get (as_accounts s) i = Some a \<longrightarrow> ac_id a = i \<and> js_get (as_owners s) (ownerKey a) = Some i)"

definition botIds :: "AccountStore \<Rightarrow> string \<Rightarrow> string list" where
  "botIds s i = (case js_get (as_accountBots s) i of None \<Rightarrow> [] | Some ids \<Rightarrow> ids)"

definition grants_ok :: "AccountStore \<Rightarrow> bool" where
  "grants_ok s \<longleftrightarrow>
     js_wf (as_bots s) \<and>
     (\<forall>i. distinct (botIds s i) \<and> int (length (botIds s i)) \<le> maxGrantsPerAccount (as_limits s)) \<and>
     (\<forall>g i. (\<exists>b. js_get (as_bots s) g = Some b \<and> bg_accountId b = i) \<longleftrightarrow> g \<in> set (botIds s i)) \<and>
     (\<forall>g b. js_get (as_bots s) g = Some b \<longrightarrow> bg_id b = g \<and> isCanonicalGrantScopes (bg_scopes b))"

definition within_nonces :: "AccountStore \<Rightarrow> bool" where
  "within_nonces s \<longleftrightarrow> (\<forall>i. int (length (nonceEntries s i)) \<le> maxNoncesPerAccount (as_limits s))"

definition limits_ok :: "AccountStore \<Rightarrow> bool" where
  "limits_ok s \<longleftrightarrow> 1 \<le> maxAccounts (as_limits s) \<and> 1 \<le> maxNoncesPerAccount (as_limits s) \<and> 1 \<le> maxGrantsPerAccount (as_limits s)"

definition auth_inv :: "AccountStore \<Rightarrow> bool" where
  "auth_inv s \<longleftrightarrow> nonces_ok s \<and> within_nonces s \<and> accounts_ok s \<and> grants_ok s \<and> limits_ok s"

lemma auth_inv_new:
  assumes "accountStoreLimits accounts nonces grants = Inr limits"
  shows "auth_inv (newAccountStore limits)"
proof -
  have "1 \<le> maxAccounts limits" "1 \<le> maxNoncesPerAccount limits" "1 \<le> maxGrantsPerAccount limits"
    using assms by (auto simp: accountStoreLimits_def Let_def res_simps)
  then show ?thesis
    by (auto simp: auth_inv_def nonces_ok_def within_nonces_def accounts_ok_def grants_ok_def limits_ok_def newAccountStore_def
        heap_valid_def tracked_def is_heap_def keys_def nonceAt_def nonceEntries_def liveEntries_def botIds_def)
qed

lemma nonceCapacity_le: "1 \<le> maximum \<Longrightarrow> nonceCapacity maximum g \<le> maximum"
  by (auto simp: nonceCapacity_def reservedNonces_def OWNER_NONCE_RESERVE_def min_def max_def)

lemma nonce_frame_inv:
  assumes "auth_inv s" and "nonce_frame s s'" and "nonces_ok s'" and "within_nonces s'"
  shows "auth_inv s'"
  using assms nonce_frameD [OF assms(2)] by (simp add: auth_inv_def accounts_ok_def grants_ok_def limits_ok_def botIds_def)

lemma consumeNonce_inv:
  assumes inv: "auth_inv s" and c: "consumeNonce request s = (r, s')"
  shows "auth_inv s' \<and> nonce_frame s s'"
proof -
  have ok: "nonces_ok s" and w: "within_nonces s" and l: "limits_ok s" using inv by (simp_all add: auth_inv_def)
  have cap: "nonceLimit s request \<le> maxNoncesPerAccount (as_limits s)"
    using nonceCapacity_le l by (simp add: nonceLimit_def limits_ok_def)
  from consumeNonce_spec [OF ok, of request] obtain t where t: "nonces_ok t" "nonce_frame s t" "snd (consumeNonce request s) = t"
    "\<forall>i. int (length (nonceEntries t i)) \<le> maxNoncesPerAccount (as_limits s)"
  proof (cases rule: consumeNonce_spec [OF ok, of request])
    case (1 t)
    have "int (length (nonceEntries t i)) \<le> maxNoncesPerAccount (as_limits s)" for i
    proof -
      have "int (length (nonceEntries s i)) \<le> maxNoncesPerAccount (as_limits s)" using w by (simp add: within_nonces_def)
      moreover have "length (nonceEntries t i) \<le> length (nonceEntries s i) \<or>
          int (length (nonceEntries t i)) \<le> nonceLimit s request"
        using 1(3) by (cases "i = vr_accountId request") auto
      ultimately show ?thesis using cap by linarith
    qed
    with 1 show thesis by (intro that [of t]) auto
  qed
  have "s' = t" using t(3) c by simp
  moreover have "within_nonces t" using t(2,4) nonce_frameD [OF t(2)] by (simp add: within_nonces_def)
  ultimately show ?thesis using nonce_frame_inv [OF inv t(2,1)] t(2) by simp
qed

lemma cleanup_inv:
  assumes inv: "auth_inv s" and c: "cleanupExpiredNonces now limit s = (r, s')"
  shows "auth_inv s' \<and> nonce_frame s s'"
proof -
  have ok: "nonces_ok s" using inv by (simp add: auth_inv_def)
  have "s' = s \<or> (\<exists>n. cleanupLoop n now 0 s = (r, s'))"
    using c unfolding cleanupExpiredNonces_def by (cases r) (auto simp: attempt_eq_Inr attempt_eq_Inl)
  then have "nonces_ok s' \<and> shrinks s s'"
    using ok cleanupLoop_ok [OF ok, of _ now 0] by (metis prod.inject shrinks_refl)
  moreover from this have "within_nonces s'"
    using inv nonce_frameD [of s s'] by (auto simp: auth_inv_def within_nonces_def shrinks_def) (meson of_nat_mono order_trans)
  ultimately show ?thesis using nonce_frame_inv [OF inv] by (auto simp: shrinks_def)
qed

text \<open>Changes that do not touch the nonces.\<close>

lemma nonces_ok_cong:
  "as_nonces s' = as_nonces s \<Longrightarrow> as_expiry s' = as_expiry s \<Longrightarrow> nonces_ok s' = nonces_ok s"
  by (simp add: nonces_ok_def nonceAt_def nonceEntries_def liveEntries_def entryKey_def)

lemma within_nonces_cong:
  "as_nonces s' = as_nonces s \<Longrightarrow> as_limits s' = as_limits s \<Longrightarrow> within_nonces s' = within_nonces s"
  by (simp add: within_nonces_def nonceEntries_def)

lemma ownerKey_lower: "ownerKey (a\<lparr>ac_ownerAddress := toLowerCase (ac_ownerAddress a)\<rparr>) = ownerKey a"
  by (simp add: ownerKey_def)

lemma enrollmentAccount_Inr:
  assumes "enrollmentAccount s account = Inr v"
  shows "ac_id v = ac_id account \<or> js_get (as_accounts s) (ac_id account) = Some v"
    and "js_get (as_accounts s) (ac_id account) = None \<Longrightarrow>
      v = account\<lparr>ac_ownerAddress := toLowerCase (ac_ownerAddress account)\<rparr> \<and>
      int (length (as_accounts s)) < maxAccounts (as_limits s) \<and>
      (js_get (as_owners s) (ownerKey account) = None \<or> js_get (as_owners s) (ownerKey account) = Some (ac_id account))"
    and "js_get (as_accounts s) (ac_id account) \<noteq> None \<Longrightarrow> js_get (as_accounts s) (ac_id account) = Some v"
  using assms
  by (auto simp: enrollmentAccount_def Let_def res_simps split: option.splits)

lemma saveEnrollment_inv:
  assumes inv: "auth_inv s" and v: "enrollmentAccount s account = Inr v"
  shows "auth_inv (saveEnrollment v s)"
proof (cases "js_has (as_accounts s) (ac_id account)")
  case True
  with enrollmentAccount_Inr(3) [OF v] inv have "js_has (as_accounts s) (ac_id v)"
    by (auto simp: auth_inv_def accounts_ok_def)
  then show ?thesis using inv by (simp add: saveEnrollment_def)
next
  case False
  then have e: "v = account\<lparr>ac_ownerAddress := toLowerCase (ac_ownerAddress account)\<rparr>"
    "int (length (as_accounts s)) < maxAccounts (as_limits s)"
    "js_get (as_owners s) (ownerKey v) = None \<or> js_get (as_owners s) (ownerKey v) = Some (ac_id v)"
    using enrollmentAccount_Inr(2) [OF v] by (auto simp: ownerKey_lower)
  let ?s = "s\<lparr>as_accounts := js_set (ac_id v) v (as_accounts s), as_owners := js_set (ownerKey v) (ac_id v) (as_owners s)\<rparr>"
  have id: "ac_id v = ac_id account" using e(1) by simp
  have none: "js_get (as_accounts s) (ac_id v) = None" using False id by simp
  have "js_get (as_owners ?s) (ownerKey a) = Some i" if "js_get (as_accounts s) i = Some a" for i a
  proof -
    have "js_get (as_owners s) (ownerKey a) = Some i" using inv that by (simp add: auth_inv_def accounts_ok_def)
    with e(3) none that show ?thesis by (cases "ownerKey a = ownerKey v") auto
  qed
  then have owners: "\<forall>i a. js_get (as_accounts ?s) i = Some a \<longrightarrow> ac_id a = i \<and> js_get (as_owners ?s) (ownerKey a) = Some i"
    using inv by (auto simp: auth_inv_def accounts_ok_def split: if_splits)
  have len: "length (as_accounts ?s) = Suc (length (as_accounts s))" using js_set_fresh [OF none, of v] by simp
  have "accounts_ok ?s"
    unfolding accounts_ok_def using owners len e(2) inv by (simp add: auth_inv_def accounts_ok_def del: fun_upd_apply)
  moreover have "saveEnrollment v s = ?s" using none by (simp add: saveEnrollment_def)
  ultimately show ?thesis
    using inv nonces_ok_cong [of ?s s] within_nonces_cong [of ?s s]
    by (simp add: auth_inv_def grants_ok_def limits_ok_def botIds_def)
qed

section \<open>Every operation keeps the invariant\<close>

lemma auth_inv_accounts:
  assumes "auth_inv s" and "accounts_ok (s\<lparr>as_accounts := a\<rparr>)"
  shows "auth_inv (s\<lparr>as_accounts := a\<rparr>)"
  using assms nonces_ok_cong [of "s\<lparr>as_accounts := a\<rparr>" s] within_nonces_cong [of "s\<lparr>as_accounts := a\<rparr>" s]
  by (simp add: auth_inv_def grants_ok_def limits_ok_def botIds_def)

lemma auth_inv_grants:
  assumes "auth_inv s" and "grants_ok (s\<lparr>as_bots := b, as_accountBots := c\<rparr>)"
  shows "auth_inv (s\<lparr>as_bots := b, as_accountBots := c\<rparr>)"
  using assms nonces_ok_cong [of "s\<lparr>as_bots := b, as_accountBots := c\<rparr>" s]
    within_nonces_cong [of "s\<lparr>as_bots := b, as_accountBots := c\<rparr>" s]
  by (simp add: auth_inv_def accounts_ok_def limits_ok_def)

lemma require_account_Inr [simp]: "require_account s i = Inr a \<longleftrightarrow> js_get (as_accounts s) i = Some a"
  by (simp add: require_account_def split: option.splits)

lemma js_set_length: "js_get m k \<noteq> None \<Longrightarrow> length (js_set k v m) = length m"
  by (induction m) (auto split: if_splits)

lemma updateProfile_Inr:
  assumes "updateProfile i profile now s = (Inr v, s')"
  obtains a where "js_get (as_accounts s) i = Some a"
    "v = a\<lparr>ac_profile := profile, ac_updatedAt := max (ac_updatedAt a) now\<rparr>"
    "s' = s\<lparr>as_accounts := js_set i v (as_accounts s)\<rparr>"
  using assms by (auto simp: updateProfile_def Let_def attempt_eq_Inr)

lemma updateProfile_Inl: "updateProfile i profile now s = (Inl e, s') \<Longrightarrow> s' = s"
  by (auto simp: updateProfile_def Let_def attempt_eq_Inl)

lemma updateProfile_inv:
  assumes inv: "auth_inv s" and u: "updateProfile i profile now s = (r, s')"
  shows "auth_inv s'"
proof (cases r)
  case (Inl e)
  then show ?thesis using updateProfile_Inl u inv by blast
next
  case (Inr v)
  from u [unfolded Inr] obtain a where a: "js_get (as_accounts s) i = Some a"
    "v = a\<lparr>ac_profile := profile, ac_updatedAt := max (ac_updatedAt a) now\<rparr>"
    "s' = s\<lparr>as_accounts := js_set i v (as_accounts s)\<rparr>"
    by (rule updateProfile_Inr)
  have ok: "accounts_ok s" using inv by (simp add: auth_inv_def)
  have v: "ac_id v = ac_id a" "ownerKey v = ownerKey a" using a(2) by (simp_all add: ownerKey_def)
  have "\<forall>j b. js_get (as_accounts s') j = Some b \<longrightarrow> ac_id b = j \<and> js_get (as_owners s') (ownerKey b) = Some j"
    using ok a(1,3) v unfolding accounts_ok_def by auto
  then have "accounts_ok s'"
    using ok a(1) unfolding accounts_ok_def a(3) by (simp add: js_set_length del: fun_upd_apply)
  then show ?thesis using auth_inv_accounts [OF inv] a(3) by simp
qed

lemma registerBot_Inr:
  assumes "registerBot grant s = (Inr v, s')"
  shows "js_get (as_bots s) (bg_id grant) = None" and "js_has (as_accounts s) (bg_accountId grant)"
    and "assertGrant grant = Inr ()" and "v = grant\<lparr>bg_botAddress := toLowerCase (bg_botAddress grant)\<rparr>"
    and "int (length (botIds s (bg_accountId grant))) < maxGrantsPerAccount (as_limits s)"
    and "s' = s\<lparr>as_bots := js_set (bg_id grant) v (as_bots s),
        as_accountBots := js_set (bg_accountId grant) (js_add (bg_id grant) (botIds s (bg_accountId grant))) (as_accountBots s)\<rparr>"
  using assms by (auto simp: registerBot_def Let_def attempt_eq_Inr ensure_eq_Inr botIds_def)

lemma registerBot_Inl: "registerBot grant s = (Inl e, s') \<Longrightarrow> s' = s"
  by (auto simp: registerBot_def Let_def attempt_eq_Inl)

lemma revokeBot_Inr:
  assumes "revokeBot account g now s = (Inr v, s')"
  obtains b where "js_get (as_bots s) g = Some b" "bg_accountId b = account"
    "v = b\<lparr>bg_revokedAt := Some (case bg_revokedAt b of Some t \<Rightarrow> t | None \<Rightarrow> max now (bg_createdAt b))\<rparr>"
    "s' = s\<lparr>as_bots := js_set g v (as_bots s)\<rparr>"
  using assms by (auto simp: revokeBot_def Let_def attempt_eq_Inr split: option.splits if_splits)

lemma revokeBot_Inl: "revokeBot account g now s = (Inl e, s') \<Longrightarrow> s' = s"
  by (auto simp: revokeBot_def Let_def attempt_eq_Inl split: option.splits if_splits)

lemma grants_okI:
  assumes "js_wf (as_bots s)" and "\<And>i. distinct (botIds s i)"
    and "\<And>i. int (length (botIds s i)) \<le> maxGrantsPerAccount (as_limits s)"
    and "\<And>g i. (\<exists>b. js_get (as_bots s) g = Some b \<and> bg_accountId b = i) \<longleftrightarrow> g \<in> set (botIds s i)"
    and "\<And>g b. js_get (as_bots s) g = Some b \<Longrightarrow> bg_id b = g \<and> isCanonicalGrantScopes (bg_scopes b)"
  shows "grants_ok s"
  using assms unfolding grants_ok_def by blast

lemma registerBot_inv:
  assumes inv: "auth_inv s" and u: "registerBot grant s = (r, s')"
  shows "auth_inv s'"
proof (cases r)
  case (Inl e)
  then show ?thesis using registerBot_Inl u inv by blast
next
  case (Inr v)
  note d = registerBot_Inr [OF u [unfolded Inr]]
  have ok: "grants_ok s" using inv by (simp add: auth_inv_def)
  have at: "\<And>g i. (\<exists>b. js_get (as_bots s) g = Some b \<and> bg_accountId b = i) \<longleftrightarrow> g \<in> set (botIds s i)"
    and len: "\<And>i. int (length (botIds s i)) \<le> maxGrantsPerAccount (as_limits s)" and dis: "\<And>i. distinct (botIds s i)"
    and idg: "\<And>g b. js_get (as_bots s) g = Some b \<Longrightarrow> bg_id b = g \<and> isCanonicalGrantScopes (bg_scopes b)"
    using ok unfolding grants_ok_def by blast+
  have new: "bg_id grant \<notin> set (botIds s i)" for i using at [of "bg_id grant" i] d(1) by simp
  have ids: "botIds s' i = (if i = bg_accountId grant then botIds s i @ [bg_id grant] else botIds s i)" for i
  proof -
    have "js_add (bg_id grant) (botIds s (bg_accountId grant)) = botIds s (bg_accountId grant) @ [bg_id grant]"
      using new by (simp add: js_add_def)
    then show ?thesis unfolding d(6) by (simp add: botIds_def)
  qed
  have vg: "bg_id v = bg_id grant" "bg_accountId v = bg_accountId grant" "bg_scopes v = bg_scopes grant" using d(4) by simp_all
  have canon: "isCanonicalGrantScopes (bg_scopes grant)"
    using d(3) by (simp add: assertGrant_def bindR_eq_Inr ensure_eq_Inr)
  have bots: "js_get (as_bots s') = (js_get (as_bots s))(bg_id grant \<mapsto> v)" using d(6) by (simp add: fun_eq_iff)
  have "grants_ok s'"
  proof (rule grants_okI)
    show "js_wf (as_bots s')" using ok d(6) by (simp add: grants_ok_def)
    show "distinct (botIds s' i)" for i using dis new by (simp add: ids)
    show "int (length (botIds s' i)) \<le> maxGrantsPerAccount (as_limits s')" for i
    proof -
      have "as_limits s' = as_limits s" using d(6) by simp
      with len [of i] d(5) show ?thesis by (simp add: ids)
    qed
    show "(\<exists>b. js_get (as_bots s') g = Some b \<and> bg_accountId b = i) \<longleftrightarrow> g \<in> set (botIds s' i)" for g i
      using at [of g i] new [of i] vg unfolding bots ids by (cases "g = bg_id grant") auto
    show "bg_id b = g \<and> isCanonicalGrantScopes (bg_scopes b)" if "js_get (as_bots s') g = Some b" for g b
      using that idg [of g b] vg canon unfolding bots by (cases "g = bg_id grant") auto
  qed
  then show ?thesis using auth_inv_grants [OF inv] d(6) by simp
qed

lemma revokeBot_inv:
  assumes inv: "auth_inv s" and u: "revokeBot account g now s = (r, s')"
  shows "auth_inv s'"
proof (cases r)
  case (Inl e)
  then show ?thesis using revokeBot_Inl u inv by blast
next
  case (Inr v)
  from u [unfolded Inr] obtain b where b: "js_get (as_bots s) g = Some b" "bg_accountId b = account"
    "v = b\<lparr>bg_revokedAt := Some (case bg_revokedAt b of Some t \<Rightarrow> t | None \<Rightarrow> max now (bg_createdAt b))\<rparr>"
    "s' = s\<lparr>as_bots := js_set g v (as_bots s)\<rparr>"
    by (rule revokeBot_Inr)
  have ok: "grants_ok s" using inv by (simp add: auth_inv_def)
  have bots: "js_get (as_bots s') = (js_get (as_bots s))(g \<mapsto> v)" using b(4) by (simp add: fun_eq_iff)
  have ids: "botIds s' = botIds s" unfolding b(4) by (simp add: botIds_def fun_eq_iff)
  have v: "bg_id v = bg_id b" "bg_accountId v = bg_accountId b" "bg_scopes v = bg_scopes b" using b(3) by simp_all
  have "grants_ok s'"
  proof (rule grants_okI)
    show "js_wf (as_bots s')" using ok b(4) by (simp add: grants_ok_def)
    show "distinct (botIds s' i)" "int (length (botIds s' i)) \<le> maxGrantsPerAccount (as_limits s')" for i
      using ok b(4) unfolding grants_ok_def ids by simp_all
    have at: "(\<exists>b. js_get (as_bots s) h = Some b \<and> bg_accountId b = i) \<longleftrightarrow> h \<in> set (botIds s i)" for h i
      using ok unfolding grants_ok_def by blast
    show "(\<exists>b. js_get (as_bots s') h = Some b \<and> bg_accountId b = i) \<longleftrightarrow> h \<in> set (botIds s' i)" for h i
      using at [of h i] b(1) v unfolding bots ids by (cases "h = g") auto
    have "bg_id c = h \<and> isCanonicalGrantScopes (bg_scopes c)" if "js_get (as_bots s) h = Some c" for h c
      using ok that unfolding grants_ok_def by blast
    then show "bg_id c = h \<and> isCanonicalGrantScopes (bg_scopes c)" if "js_get (as_bots s') h = Some c" for h c
      using that b(1) v unfolding bots by (cases "h = g") auto
  qed
  then show ?thesis using auth_inv_grants [OF inv, of "as_accountBots s" "js_set g v (as_bots s)"] b(4) by simp
qed

text \<open>
  \<open>enroll\<close> and \<open>authorizeAndConsume\<close> change the nonces, also when they fail, and nothing else but the
  enrolled account.
\<close>

lemma enrollmentAccount_frame: "nonce_frame s s' \<Longrightarrow> enrollmentAccount s' a = enrollmentAccount s a"
  unfolding enrollmentAccount_def by (drule nonce_frameD, elim conjE) (simp only:)

lemma enroll_cases:
  assumes "enroll waited account request s = (r, s')"
  obtains "s' = s" "\<exists>e. r = Inl e"
  | e current where "afterWait waited request = Inr current" "consumeNonce current s = (Inl e, s')" "r = Inl e"
  | current v pr s1 where "afterWait waited request = Inr current" "assertAccount account = Inr ()"
      "assertRequest request = Inr ()" "vr_accountId request = ac_id account" "vr_grantId request = None"
      "toLowerCase (vr_signer request) = toLowerCase (ac_ownerAddress account)" "enrollmentAccount s account = Inr v"
      "principalFor v None current = Inr pr" "consumeNonce current s = (Inr (), s1)" "s' = saveEnrollment v s1" "r = Inr pr"
proof (cases r)
  case (Inl e)
  then show thesis using assms that(1,2) by (auto simp: enroll_def attempt_eq_Inl invoke_eq_Inl)
next
  case (Inr pr)
  then show thesis using assms that(3) by (auto simp: enroll_def attempt_eq_Inr invoke_eq_Inr ensure_eq_Inr)
qed

lemma authorize_cases:
  assumes "authorizeAndConsume waited request s = (r, s')"
  obtains "s' = s" "\<exists>e. r = Inl e"
  | e current where "afterWait waited request = Inr current" "consumeNonce current s = (Inl e, s')" "r = Inl e"
  | current account pr where "afterWait waited request = Inr current" "assertRequest request = Inr ()"
      "js_get (as_accounts s) (vr_accountId request) = Some account"
      "principalFor account (find_grant s (vr_grantId request)) current = Inr pr" "consumeNonce current s = (Inr (), s')" "r = Inr pr"
proof (cases r)
  case (Inl e)
  then show thesis using assms that(1,2) by (auto simp: authorizeAndConsume_def attempt_eq_Inl invoke_eq_Inl)
next
  case (Inr pr)
  then show thesis using assms that(3) by (auto simp: authorizeAndConsume_def attempt_eq_Inr invoke_eq_Inr)
qed

lemma enroll_inv:
  assumes inv: "auth_inv s" and e: "enroll waited account request s = (r, s')"
  shows "auth_inv s'"
  using e
proof (cases rule: enroll_cases)
  case (3 current v pr s1)
  have "auth_inv s1" "nonce_frame s s1" using consumeNonce_inv [OF inv 3(9)] by simp_all
  then show ?thesis using 3(7,10) saveEnrollment_inv [of s1 account v] enrollmentAccount_frame by simp
qed (use inv consumeNonce_inv [OF inv] in blast)+

lemma authorize_inv:
  assumes inv: "auth_inv s" and e: "authorizeAndConsume waited request s = (r, s')"
  shows "auth_inv s'"
  using e by (cases rule: authorize_cases) (use inv consumeNonce_inv [OF inv] in blast)+

end
