(* ===== verification/AuthProperties.thy ===== *)
theory AuthProperties
  imports AuthInvariants TransactionSamples
begin

text \<open>
  Runs of the account store and its properties. A step carries a bound on the clock it reads; between
  an accepted request and its replay the clocks do not pass the time of the replay. The properties: a
  signed request counts once, revocation is final, authority is sound, accounts keep their identity,
  bots cannot crowd out the owner, limits hold, and the nonce state implements its abstract register.
\<close>

section \<open>Runs\<close>

inductive auth_step :: "int \<Rightarrow> AccountStore \<Rightarrow> AccountStore \<Rightarrow> bool" for clock :: int where
  Enroll: "enroll waited account request s = (r, s') \<Longrightarrow> vr_now request + waited \<le> clock \<Longrightarrow> auth_step clock s s'"
| Authorize: "authorizeAndConsume waited request s = (r, s') \<Longrightarrow> vr_now request + waited \<le> clock \<Longrightarrow> auth_step clock s s'"
| Cleanup: "cleanupExpiredNonces now limit s = (n, s') \<Longrightarrow> now \<le> clock \<Longrightarrow> auth_step clock s s'"
| UpdateProfile: "updateProfile i profile now s = (a, s') \<Longrightarrow> auth_step clock s s'"
| RegisterBot: "registerBot grant s = (b, s') \<Longrightarrow> auth_step clock s s'"
| RevokeBot: "revokeBot i g now s = (b, s') \<Longrightarrow> auth_step clock s s'"

lemma auth_step_inv: "auth_step clock s s' \<Longrightarrow> auth_inv s \<Longrightarrow> auth_inv s'"
proof (induction rule: auth_step.induct)
  case (Cleanup now limit s n s')
  then show ?case using cleanup_inv by blast
qed (blast intro: enroll_inv authorize_inv updateProfile_inv registerBot_inv revokeBot_inv)+

lemma auth_run_inv: "(auth_step clock)\<^sup>*\<^sup>* s s' \<Longrightarrow> auth_inv s \<Longrightarrow> auth_inv s'"
  by (induction rule: rtranclp_induct) (auto intro: auth_step_inv)

text \<open>What no step can undo: identities of accounts, revocations, and nonces that have not expired.\<close>

definition sameIdentity :: "Account \<Rightarrow> Account \<Rightarrow> bool" where
  "sameIdentity a b \<longleftrightarrow> ac_id b = ac_id a \<and> ac_ownerAddress b = ac_ownerAddress a \<and>
     ac_authorityChainId b = ac_authorityChainId a \<and> ac_createdAt b = ac_createdAt a \<and> ac_updatedAt a \<le> ac_updatedAt b"

definition grantKept :: "BotGrant \<Rightarrow> BotGrant \<Rightarrow> bool" where
  "grantKept a b \<longleftrightarrow> b = a \<or> bg_revokedAt a = None \<and> (\<exists>t. bg_createdAt a \<le> t \<and> b = a\<lparr>bg_revokedAt := Some t\<rparr>)"

definition auth_extends :: "int \<Rightarrow> AccountStore \<Rightarrow> AccountStore \<Rightarrow> bool" where
  "auth_extends clock s s' \<longleftrightarrow>
     (\<forall>i a. js_get (as_accounts s) i = Some a \<longrightarrow> (\<exists>b. js_get (as_accounts s') i = Some b \<and> sameIdentity a b)) \<and>
     (\<forall>g b. js_get (as_bots s) g = Some b \<longrightarrow> (\<exists>c. js_get (as_bots s') g = Some c \<and> grantKept b c)) \<and>
     (\<forall>k e. spent s k = Some e \<and> clock < e \<longrightarrow> spent s' k = Some e) \<and> as_limits s' = as_limits s"

lemma sameIdentity_refl [simp]: "sameIdentity a a"
  by (simp add: sameIdentity_def)

lemma sameIdentity_trans: "sameIdentity a b \<Longrightarrow> sameIdentity b c \<Longrightarrow> sameIdentity a c"
  by (auto simp: sameIdentity_def)

lemma grantKept_refl [simp]: "grantKept a a"
  by (simp add: grantKept_def)

lemma grantKept_trans: "grantKept a b \<Longrightarrow> grantKept b c \<Longrightarrow> grantKept a c"
  by (auto simp: grantKept_def)

lemma auth_extends_refl [simp]: "auth_extends clock s s"
  unfolding auth_extends_def by (simp add: exI)

lemma auth_extends_trans: "auth_extends clock r s \<Longrightarrow> auth_extends clock s t \<Longrightarrow> auth_extends clock r t"
  unfolding auth_extends_def by (intro conjI; (meson sameIdentity_trans grantKept_trans)?) simp

lemma nonce_frame_extends:
  assumes "nonce_frame s s'" and "\<And>k e. spent s k = Some e \<Longrightarrow> clock < e \<Longrightarrow> spent s' k = Some e"
  shows "auth_extends clock s s'"
  using assms(2) nonce_frameD [OF assms(1)] unfolding auth_extends_def by simp

lemma pruned_later: "spent s k = Some e \<Longrightarrow> now < e \<Longrightarrow> pruned now account (spent s) k = Some e"
  by (simp add: pruned_def)

lemma consumeNonce_extends:
  assumes inv: "auth_inv s" and c: "consumeNonce request s = (r, s')" and now: "vr_now request \<le> clock"
  shows "auth_extends clock s s'"
proof -
  have ok: "nonces_ok s" using inv by (simp add: auth_inv_def)
  let ?sp = "pruned (vr_now request) (vr_accountId request) (spent s)"
  have keep: "spent s' k = Some e" if k: "spent s k = Some e" "clock < e" for k e
  proof -
    have p: "?sp k = Some e" using pruned_later [OF k(1)] k(2) now by simp
    show ?thesis
    proof (cases rule: consumeNonce_spec [OF ok, of request])
      case (1 t)
      have t: "t = s'" using 1(3) c by auto
      show ?thesis
        using 1(3) p unfolding t by (auto simp del: option.simps(3))
    qed
  qed
  then show ?thesis using nonce_frame_extends consumeNonce_inv [OF inv c] by blast
qed

lemma cleanup_spec:
  assumes ok: "nonces_ok s" and c: "cleanupExpiredNonces now limit s = (r, s')"
  shows "nonces_ok s' \<and> shrinks s s' \<and>
     (\<forall>k. spent s' k = spent s k \<or> (\<exists>e. spent s k = Some e \<and> e \<le> now \<and> spent s' k = None)) \<and>
     (\<forall>n. r = Inr n \<longrightarrow> 0 \<le> n \<and> (\<forall>m. cleanupLimit limit = Inr m \<longrightarrow> n \<le> m \<and>
        (n < m \<longrightarrow> (\<forall>k e. spent s' k = Some e \<longrightarrow> now < e))))"
proof (cases "assertTime_auth now = Inr () \<and> (\<exists>m. cleanupLimit limit = Inr m)")
  case False
  then have "s' = s \<and> (\<exists>e. r = Inl e)"
    using c unfolding cleanupExpiredNonces_def by (cases r) (auto simp: attempt_eq_Inr attempt_eq_Inl)
  then show ?thesis using ok by auto
next
  case True
  then obtain m where m: "cleanupLimit limit = Inr m" by blast
  then have pos: "1 \<le> m" by (auto simp: cleanupLimit_def Let_def res_simps)
  have "cleanupLoop (nat m) now 0 s = (r, s')" using c True m by (simp add: cleanupExpiredNonces_def)
  with cleanupLoop_ok [OF ok, of "nat m" now 0] obtain n where n: "r = Inr n" "nonces_ok s'" "shrinks s s'" "0 \<le> n"
    "n \<le> 0 + int (nat m)" "\<forall>k. spent s' k = spent s k \<or> (\<exists>e. spent s k = Some e \<and> e \<le> now \<and> spent s' k = None)"
    "n < 0 + int (nat m) \<longrightarrow> (\<forall>k e. spent s' k = Some e \<longrightarrow> now < e)"
    by auto
  then show ?thesis using m pos by simp
qed

lemma cleanup_extends:
  assumes inv: "auth_inv s" and c: "cleanupExpiredNonces now limit s = (r, s')" and now: "now \<le> clock"
  shows "auth_extends clock s s'"
proof (rule nonce_frame_extends)
  have ok: "nonces_ok s" using inv by (simp add: auth_inv_def)
  show "nonce_frame s s'" using cleanup_spec [OF ok c] by (simp add: shrinks_def)
  have d: "\<forall>k. spent s' k = spent s k \<or> (\<exists>e. spent s k = Some e \<and> e \<le> now \<and> spent s' k = None)"
    using cleanup_spec [OF ok c] by blast
  show "spent s' k = Some e" if "spent s k = Some e" "clock < e" for k e
    using d [rule_format, of k] that now by auto
qed

lemma spent_cong: "as_nonces s' = as_nonces s \<Longrightarrow> as_expiry s' = as_expiry s \<Longrightarrow> spent s' = spent s"
  by (simp add: spent_def nonceAt_def nonceEntries_def fun_eq_iff)

lemma saveEnrollment_extends: "auth_extends clock s (saveEnrollment v s)"
proof (cases "js_has (as_accounts s) (ac_id v)")
  case False
  then show ?thesis
    using spent_cong [of "saveEnrollment v s" s] unfolding auth_extends_def by (auto simp: saveEnrollment_def)
qed (auto simp: saveEnrollment_def)

lemma afterWait_Inr: "afterWait waited request = Inr current \<Longrightarrow>
    current = request\<lparr>vr_now := vr_now request + waited\<rparr> \<and> assertRequest current = Inr ()"
  by (auto simp: afterWait_def Let_def res_simps)

lemma enroll_extends:
  assumes inv: "auth_inv s" and e: "enroll waited account request s = (r, s')" and now: "vr_now request + waited \<le> clock"
  shows "auth_extends clock s s'"
  using e
proof (cases rule: enroll_cases)
  case (2 e current)
  then show ?thesis using consumeNonce_extends [OF inv 2(2)] afterWait_Inr [OF 2(1)] now by simp
next
  case (3 current v pr s1)
  then have "auth_extends clock s s1" using consumeNonce_extends [OF inv 3(9)] afterWait_Inr [OF 3(1)] now by simp
  then show ?thesis using saveEnrollment_extends auth_extends_trans 3(10) by blast
qed simp

lemma authorize_extends:
  assumes inv: "auth_inv s" and e: "authorizeAndConsume waited request s = (r, s')" and now: "vr_now request + waited \<le> clock"
  shows "auth_extends clock s s'"
  using e
proof (cases rule: authorize_cases)
  case (2 e current)
  then show ?thesis using consumeNonce_extends [OF inv 2(2)] afterWait_Inr [OF 2(1)] now by simp
next
  case (3 current account pr)
  then show ?thesis using consumeNonce_extends [OF inv 3(5)] afterWait_Inr [OF 3(1)] now by simp
qed simp

lemma updateProfile_extends:
  assumes u: "updateProfile i profile now s = (r, s')"
  shows "auth_extends clock s s'"
proof (cases r)
  case (Inl e)
  then show ?thesis using updateProfile_Inl u by (metis auth_extends_refl)
next
  case (Inr v)
  from u [unfolded Inr] obtain a where a: "js_get (as_accounts s) i = Some a"
    "v = a\<lparr>ac_profile := profile, ac_updatedAt := max (ac_updatedAt a) now\<rparr>"
    "s' = s\<lparr>as_accounts := js_set i v (as_accounts s)\<rparr>"
    by (rule updateProfile_Inr)
  have "sameIdentity a v" using a(2) by (simp add: sameIdentity_def)
  then show ?thesis using a(1) spent_cong [of s' s] unfolding auth_extends_def a(3) by auto
qed

lemma registerBot_extends:
  assumes u: "registerBot grant s = (r, s')"
  shows "auth_extends clock s s'"
proof (cases r)
  case (Inl e)
  then show ?thesis using registerBot_Inl u by (metis auth_extends_refl)
next
  case (Inr v)
  note d = registerBot_Inr [OF u [unfolded Inr]]
  show ?thesis using d(1) spent_cong [of s' s] unfolding auth_extends_def d(6) by auto
qed

lemma revokeBot_extends:
  assumes u: "revokeBot i g now s = (r, s')"
  shows "auth_extends clock s s'"
proof (cases r)
  case (Inl e)
  then show ?thesis using revokeBot_Inl u by (metis auth_extends_refl)
next
  case (Inr v)
  from u [unfolded Inr] obtain b where b: "js_get (as_bots s) g = Some b" "bg_accountId b = i"
    "v = b\<lparr>bg_revokedAt := Some (case bg_revokedAt b of Some t \<Rightarrow> t | None \<Rightarrow> max now (bg_createdAt b))\<rparr>"
    "s' = s\<lparr>as_bots := js_set g v (as_bots s)\<rparr>"
    by (rule revokeBot_Inr)
  have "grantKept b v"
  proof (cases "bg_revokedAt b")
    case None
    then show ?thesis using b(3) unfolding grantKept_def by (intro disjI2 conjI exI [of _ "max now (bg_createdAt b)"]) auto
  next
    case (Some t)
    then have "v = b" using b(3) by simp
    then show ?thesis by simp
  qed
  then show ?thesis using b(1) spent_cong [of s' s] unfolding auth_extends_def b(4) by auto
qed

lemma auth_step_extends: "auth_step clock s s' \<Longrightarrow> auth_inv s \<Longrightarrow> auth_extends clock s s'"
  by (induction rule: auth_step.induct)
    (blast intro: enroll_extends authorize_extends cleanup_extends updateProfile_extends registerBot_extends revokeBot_extends)+

lemma auth_run_extends: "(auth_step clock)\<^sup>*\<^sup>* s s' \<Longrightarrow> auth_inv s \<Longrightarrow> auth_extends clock s s'"
proof (induction rule: rtranclp_induct)
  case (step t u)
  then show ?case using auth_run_inv auth_step_extends auth_extends_trans by blast
qed simp

lemma authorized_spent:
  assumes inv: "auth_inv s" and a: "consumeNonce request s = (Inr (), s')"
  shows "spent s' (vr_accountId request, toLowerCase (vr_nonce request)) = Some (vr_expiresAt request)"
proof -
  have ok: "nonces_ok s" using inv by (simp add: auth_inv_def)
  show ?thesis by (cases rule: consumeNonce_spec [OF ok, of request]) (use a in auto)
qed

lemma spent_refused:
  assumes inv: "auth_inv s" and sp: "spent s (vr_accountId request, toLowerCase (vr_nonce request)) = Some e"
    and now: "vr_now request < e"
  shows "consumeNonce request s \<noteq> (Inr (), s')"
proof -
  have ok: "nonces_ok s" using inv by (simp add: auth_inv_def)
  have "pruned (vr_now request) (vr_accountId request) (spent s) (vr_accountId request, toLowerCase (vr_nonce request)) = Some e"
    using pruned_later [OF sp now] .
  then show ?thesis by (cases rule: consumeNonce_spec [OF ok, of request]) auto
qed

lemma assertRequest_live: "assertRequest r = Inr () \<Longrightarrow> vr_now r < vr_expiresAt r"
  by (auto simp: assertRequest_def res_simps)

definition accepted :: "'a res \<times> 's \<Rightarrow> bool" where
  "accepted out \<longleftrightarrow> (\<exists>v t. out = (Inr v, t))"

lemma enrolled_spent:
  assumes inv: "auth_inv s" and e: "enroll waited account request s = (Inr pr, s')"
  shows "spent s' (vr_accountId request, toLowerCase (vr_nonce request)) = Some (vr_expiresAt request) \<and> auth_inv s'"
proof -
  from e obtain current v s1 where c: "afterWait waited request = Inr current" "consumeNonce current s = (Inr (), s1)" "s' = saveEnrollment v s1"
    by (cases rule: enroll_cases) auto
  have "current = request\<lparr>vr_now := vr_now request + waited\<rparr>" using afterWait_Inr [OF c(1)] by simp
  then have "spent s1 (vr_accountId request, toLowerCase (vr_nonce request)) = Some (vr_expiresAt request)" using authorized_spent [OF inv c(2)] by simp
  moreover have "spent s' = spent s1" unfolding c(3) by (rule spent_cong) (simp_all add: saveEnrollment_def)
  ultimately show ?thesis using enroll_inv [OF inv e] by simp
qed

text \<open>
  C13. A signed request counts once. After \<^verbatim>\<open>authorizeAndConsume\<close> or \<^verbatim>\<open>enroll\<close> accepted a request, in every state the store reaches
  by operations whose clock has not passed the time of the second attempt, a request of the same
  account with the same nonce and no later expiry is refused, by \<^verbatim>\<open>authorizeAndConsume\<close> and by \<^verbatim>\<open>enroll\<close>.
\<close>

theorem replay_refused:
  assumes "auth_inv s" and "authorizeAndConsume waited request s = (Inr pr, s1) \<or> enroll waited owner request s = (Inr pr, s1)"
    and "vr_accountId again = vr_accountId request" and "same (vr_nonce again) (vr_nonce request)"
    and "vr_expiresAt again \<le> vr_expiresAt request"
    and "(auth_step (vr_now again + waited'))\<^sup>*\<^sup>* s1 s2"
  shows "\<not> accepted (authorizeAndConsume waited' again s2) \<and> \<not> accepted (enroll waited' account again s2)"
proof -
  let ?k = "(vr_accountId again, toLowerCase (vr_nonce again))" and ?now = "vr_now again + waited'"
  have k: "?k = (vr_accountId request, toLowerCase (vr_nonce request))" using assms(3,4) by (simp add: same_def)
  have "spent s1 ?k = Some (vr_expiresAt request) \<and> auth_inv s1"
    using assms(2)
  proof
    assume a: "authorizeAndConsume waited request s = (Inr pr, s1)"
    then obtain current where cur: "afterWait waited request = Inr current" "consumeNonce current s = (Inr (), s1)"
      by (cases rule: authorize_cases) auto
    have "current = request\<lparr>vr_now := vr_now request + waited\<rparr>" using afterWait_Inr [OF cur(1)] by simp
    then show ?thesis using authorized_spent [OF assms(1) cur(2)] k authorize_inv [OF assms(1) a] by simp
  qed (use enrolled_spent [OF assms(1)] k in simp)
  then have sp1: "spent s1 ?k = Some (vr_expiresAt request)" and inv1: "auth_inv s1" by simp_all
  have inv2: "auth_inv s2" using auth_run_inv [OF assms(6) inv1] .
  have no: "consumeNonce current' s2 \<noteq> (Inr (), t)" if "afterWait waited' again = Inr current'" for current' t
  proof -
    have c': "current' = again\<lparr>vr_now := ?now\<rparr>" and live: "vr_now current' < vr_expiresAt request"
      using afterWait_Inr [OF that] assertRequest_live [of current'] assms(5) by auto
    have "spent s2 ?k = Some (vr_expiresAt request)"
      using auth_run_extends [OF assms(6) inv1] sp1 live c' unfolding auth_extends_def by simp
    then show ?thesis using spent_refused [OF inv2, of current'] live c' by simp
  qed
  have "\<not> accepted (authorizeAndConsume waited' again s2)"
    unfolding accepted_def
  proof clarify
    fix v t assume "authorizeAndConsume waited' again s2 = (Inr v, t)"
    then show False using no by (cases rule: authorize_cases) auto
  qed
  moreover have "\<not> accepted (enroll waited' account again s2)"
    unfolding accepted_def
  proof clarify
    fix v t assume "enroll waited' account again s2 = (Inr v, t)"
    then show False using no by (cases rule: enroll_cases) auto
  qed
  ultimately show ?thesis by blast
qed

lemma revoked_principal:
  assumes "js_get (as_bots s) g = Some b" and "bg_revokedAt b \<noteq> None" and "vr_grantId request = Some g"
  shows "principalFor account (find_grant s (Some g)) request \<noteq> Inr pr"
proof
  assume "principalFor account (find_grant s (Some g)) request = Inr pr"
  from principalFor_sound [OF this] assms show False by (simp add: holdsAuthority_def find_grant_def)
qed

lemma actorGrantId_bot: "principalId actor = botPrincipal g \<Longrightarrow> actorGrantId actor = Inr i \<Longrightarrow> i = Some g"
  by (auto simp: actorGrantId_def botPrincipal_def ownerPrincipal_def parseWalletAppPrincipalId_def Let_def res_simps
      split: if_splits)

lemma authorityRequest_Inr: "authorityRequest a = Inr r \<Longrightarrow> vr_grantId r = aa_grantId a \<and> vr_now r = aa_now a \<and>
    vr_accountId r = aa_accountId a \<and> vr_requiredScopes r = aa_requiredScopes a \<and> vr_signer r = aa_signer a"
  by (auto simp: authorityRequest_def res_simps)

lemma revoked_forever:
  assumes "auth_inv s" and "revokeBot i g now s = (Inr b, s1)" and "(auth_step clock)\<^sup>*\<^sup>* s1 s2"
  obtains c where "js_get (as_bots s2) g = Some c" "bg_revokedAt c \<noteq> None"
proof -
  have inv1: "auth_inv s1" using revokeBot_inv [OF assms(1,2)] .
  have b1: "js_get (as_bots s1) g = Some b" "bg_revokedAt b \<noteq> None"
    using assms(2) by (auto elim!: revokeBot_Inr)
  with auth_run_extends [OF assms(3) inv1] show thesis
    using that unfolding auth_extends_def grantKept_def by fastforce
qed

lemma revoked_actor:
  assumes "js_get (as_bots s) g = Some c" and "bg_revokedAt c \<noteq> None" and "principalId actor = botPrincipal g"
  shows "activeActor waited s actor scopes now \<noteq> Inr ()"
proof
  assume "activeActor waited s actor scopes now = Inr ()"
  then obtain gi account where gi: "actorGrantId actor = Inr gi"
    "assertActorAuthority account (find_grant s gi) actor scopes (now + waited) = Inr ()"
    by (auto simp: activeActor_def bindR_eq_Inr)
  have "gi = Some g" using actorGrantId_bot [OF assms(3) gi(1)] .
  with gi revoked_principal [OF assms(1,2)] show False
    by (auto simp: assertActorAuthority_def bindR_eq_Inr dest: authorityRequest_Inr)
qed

text \<open>
  C15. Revocation is final. Once \<^verbatim>\<open>revokeBot\<close> succeeded, no request signed under that grant is authorized again,
  no authority under it is active, and the guard of the other stores refuses the bot's principal,
  whatever the account store does in between.
\<close>

theorem revocation_is_final:
  assumes "auth_inv s" and "revokeBot i g now s = (Inr b, s1)" and "(auth_step clock)\<^sup>*\<^sup>* s1 s2"
  shows "(vr_grantId request = Some g \<longrightarrow> \<not> accepted (authorizeAndConsume waited request s2)) \<and>
     (aa_grantId authority = Some g \<longrightarrow> assertActive waited authority s2 \<noteq> Inr ()) \<and>
     (principalId actor = botPrincipal g \<longrightarrow> activeActor waited s2 actor scopes now' \<noteq> Inr ())"
proof -
  obtain c where c: "js_get (as_bots s2) g = Some c" "bg_revokedAt c \<noteq> None" using revoked_forever [OF assms] .
  note no = revoked_principal [OF c]
  have "\<not> accepted (authorizeAndConsume waited request s2)" if g: "vr_grantId request = Some g"
    unfolding accepted_def
  proof clarify
    fix v t assume "authorizeAndConsume waited request s2 = (Inr v, t)"
    then show False using no g by (cases rule: authorize_cases) (auto dest: afterWait_Inr)
  qed
  moreover have "assertActive waited authority s2 \<noteq> Inr ()" if g: "aa_grantId authority = Some g"
    using no g by (auto simp: assertActive_def bindR_eq_Inr dest: authorityRequest_Inr)
  ultimately show ?thesis using revoked_actor [OF c] by blast
qed


text \<open>
  Accounts keep their identity and an owner has one account. Whatever the store does, an account keeps its owner,
  chain and creation time and is never removed; and two accounts of one owner on one chain are the
  same account.
\<close>

lemma account_identity_fixed:
  assumes "auth_inv s" and "(auth_step clock)\<^sup>*\<^sup>* s s'" and "js_get (as_accounts s) i = Some a"
    and "js_get (as_accounts s') j = Some b"
  shows "(\<exists>a'. js_get (as_accounts s') i = Some a' \<and> sameIdentity a a') \<and> ac_id b = j \<and> (ownerKey b = ownerKey a \<longrightarrow> j = i)"
proof -
  have inv: "auth_inv s'" using auth_run_inv [OF assms(2,1)] .
  from auth_run_extends [OF assms(2,1)] assms(3) obtain a' where a': "js_get (as_accounts s') i = Some a'" "sameIdentity a a'"
    unfolding auth_extends_def by blast
  have key: "ownerKey a' = ownerKey a" using a'(2) by (simp add: sameIdentity_def ownerKey_def)
  have own: "ac_id c = k \<and> js_get (as_owners s') (ownerKey c) = Some k" if "js_get (as_accounts s') k = Some c" for k c
    using inv that unfolding auth_inv_def accounts_ok_def by blast
  show ?thesis using a' own [OF a'(1)] own [OF assms(4)] key by auto
qed

text \<open>
  C18. Bots cannot lock the owner out. When a request of a bot was just accepted, the account still has room for a nonce of
  the owner: any well-formed request of the owner with an unused nonce is authorized.
\<close>

theorem owner_never_crowded_out:
  assumes "auth_inv s" and "authorizeAndConsume waited request s = (Inr pr, s1)" and "vr_grantId request \<noteq> None"
    and "vr_accountId req = vr_accountId request" and "vr_grantId req = None"
    and "assertRequest req = Inr ()" and "assertRequest (req\<lparr>vr_now := vr_now req + waited'\<rparr>) = Inr ()"
    and "vr_principalId req = None" and "same (ac_ownerAddress (rp_account pr)) (vr_signer req)"
    and "spent s1 (vr_accountId req, toLowerCase (vr_nonce req)) = None"
  shows "accepted (authorizeAndConsume waited' req s1)"
proof -
  from assms(2) obtain current where cur: "afterWait waited request = Inr current" "consumeNonce current s = (Inr (), s1)"
    and acc: "js_get (as_accounts s) (vr_accountId request) = Some (rp_account pr)"
    by (cases rule: authorize_cases) (auto dest: principalFor_sound)
  have c: "current = request\<lparr>vr_now := vr_now request + waited\<rparr>" using afterWait_Inr [OF cur(1)] by simp
  have ok: "nonces_ok s" and lim: "1 \<le> maxNoncesPerAccount (as_limits s)"
    using assms(1) by (simp_all add: auth_inv_def limits_ok_def)
  have inv1: "auth_inv s1" and fr: "nonce_frame s s1" using consumeNonce_inv [OF assms(1) cur(2)] by simp_all
  have ok1: "nonces_ok s1" using inv1 by (simp add: auth_inv_def)
  have "int (length (nonceEntries s1 (vr_accountId request))) \<le> nonceLimit s current"
    by (cases rule: consumeNonce_spec [OF ok, of current]) (use cur(2) c in auto)
  moreover have "nonceLimit s current < maxNoncesPerAccount (as_limits s)"
    using assms(3) c lim by (auto simp: nonceLimit_def nonceCapacity_def reservedNonces_def OWNER_NONCE_RESERVE_def min_def max_def)
  ultimately have room: "int (length (nonceEntries s1 (vr_accountId request))) < maxNoncesPerAccount (as_limits s1)"
    using nonce_frameD [OF fr] by simp
  let ?cur = "req\<lparr>vr_now := vr_now req + waited'\<rparr>" and ?k = "(vr_accountId req, toLowerCase (vr_nonce req))"
  have "pruned (vr_now ?cur) (vr_accountId ?cur) (spent s1) ?k = None" using assms(10) by (simp add: pruned_def)
  then have "\<exists>s2. consumeNonce ?cur s1 = (Inr (), s2)"
    by (cases rule: consumeNonce_spec [OF ok1, of ?cur])
      (use room assms(4,5) in \<open>auto simp: nonceLimit_def nonceCapacity_def\<close>)
  moreover have "\<exists>q. principalFor (rp_account pr) None ?cur = Inr q"
  proof -
    have "ac_id (rp_account pr) = vr_accountId request"
      using assms(1) acc by (auto simp: auth_inv_def accounts_ok_def)
    then show ?thesis using assms(4,5,8,9) ALL_scopes by (simp add: principalFor_def Let_def same_def list_all_iff)
  qed
  moreover have "js_get (as_accounts s1) (vr_accountId req) = Some (rp_account pr)"
    using acc nonce_frameD [OF fr] assms(4) by simp
  ultimately show ?thesis
    using assms(5,6,7) unfolding accepted_def
    by (auto simp: authorizeAndConsume_def afterWait_def Let_def find_grant_def require_account_def)
qed

text \<open>
  C19. The limits hold in every reachable state: accounts, grants per account and unexpired nonces per account never exceed
  the configured limits, and the index of grants of an account lists exactly its grants.
\<close>

theorem account_limits_hold:
  assumes "accountStoreLimits accounts nonces grants = Inr limits" and "(auth_step clock)\<^sup>*\<^sup>* (newAccountStore limits) s"
  shows "as_limits s = limits \<and> int (length (as_accounts s)) \<le> maxAccounts limits \<and>
     int (length (nonceEntries s i)) \<le> maxNoncesPerAccount limits \<and>
     int (length (botIds s i)) \<le> maxGrantsPerAccount limits \<and> distinct (botIds s i) \<and>
     (g \<in> set (botIds s i) \<longleftrightarrow> (\<exists>b. js_get (as_bots s) g = Some b \<and> bg_id b = g \<and> bg_accountId b = i))"
proof -
  have inv: "auth_inv s" using auth_run_inv [OF assms(2) auth_inv_new [OF assms(1)]] .
  have lim: "as_limits s = limits"
    using auth_run_extends [OF assms(2) auth_inv_new [OF assms(1)]] by (simp add: auth_extends_def newAccountStore_def)
  have "g \<in> set (botIds s i) \<longleftrightarrow> (\<exists>b. js_get (as_bots s) g = Some b \<and> bg_accountId b = i)"
    and "\<And>b. js_get (as_bots s) g = Some b \<Longrightarrow> bg_id b = g"
    using inv unfolding auth_inv_def grants_ok_def by blast+
  then have "g \<in> set (botIds s i) \<longleftrightarrow> (\<exists>b. js_get (as_bots s) g = Some b \<and> bg_id b = g \<and> bg_accountId b = i)" by blast
  with inv lim show ?thesis
    unfolding auth_inv_def accounts_ok_def within_nonces_def grants_ok_def by simp
qed

text \<open>
  The cleanup of nonces forgets expired nonces only, at most as many as its limit, and none is left when it removed
  fewer than the limit. It always returns.
\<close>

lemma cleanup_exact:
  assumes "auth_inv s" and "assertTime_auth now = Inr ()" and "cleanupLimit limit = Inr m"
  shows "\<exists>n s'. cleanupExpiredNonces now limit s = (Inr n, s') \<and> 0 \<le> n \<and> n \<le> m \<and>
     (\<forall>k. spent s' k = spent s k \<or> (\<exists>e. spent s k = Some e \<and> e \<le> now \<and> spent s' k = None)) \<and>
     (n < m \<longrightarrow> (\<forall>k e. spent s' k = Some e \<longrightarrow> now < e)) \<and>
     s' = s\<lparr>as_nonces := as_nonces s', as_expiry := as_expiry s'\<rparr>"
proof -
  have ok: "nonces_ok s" using assms(1) by (simp add: auth_inv_def)
  obtain r s' where c: "cleanupExpiredNonces now limit s = (r, s')" by fastforce
  then have "cleanupLoop (nat m) now 0 s = (r, s')" using assms(2,3) by (simp add: cleanupExpiredNonces_def)
  then obtain n where n: "r = Inr n" using cleanupLoop_ok [OF ok, of "nat m" now 0] by auto
  from cleanup_spec [OF ok c] show ?thesis
    using c assms(3) unfolding n shrinks_def nonce_frame_def by (intro exI [of _ n] exI [of _ s']) simp
qed

text \<open>
  C17. The nonce maps and the expiry heap implement a simple register of spent nonces: \<^verbatim>\<open>consumeNonce\<close> succeeds only when the
  nonce is not spent (expired ones of the account forgotten), and then
  records it until the expiry of the request; when it fails it only forgets expired nonces, and the reason is that the nonce is spent or that the account
  held as many entries as the request may use.
\<close>

theorem consumeNonce_refines_register:
  assumes "auth_inv s"
  shows "\<exists>s' r. consumeNonce request s = (r, s') \<and> auth_inv s' \<and>
     (let sp = pruned (vr_now request) (vr_accountId request) (spent s);
          k = (vr_accountId request, toLowerCase (vr_nonce request)) in
      case r of
        Inr _ \<Rightarrow> sp k = None \<and> spent s' = sp(k \<mapsto> vr_expiresAt request)
      | Inl e \<Rightarrow> spent s' = sp \<and>
          (sp k \<noteq> None \<and> e = RestAuthError ''REPLAY'' 409 ''Authenticated request nonce was already used'' \<or>
           nonceLimit s request \<le> int (length (nonceEntries s (vr_accountId request))) \<and>
           e = RestAuthError ''STORAGE_LIMIT'' 429 ''Account request nonce storage limit exceeded''))"
proof -
  have ok: "nonces_ok s" using assms by (simp add: auth_inv_def)
  obtain r s' where c: "consumeNonce request s = (r, s')" by fastforce
  have "auth_inv s'" using consumeNonce_inv [OF assms c] by simp
  then show ?thesis
    by (cases rule: consumeNonce_spec [OF ok, of request]) (use c in \<open>auto simp: Let_def\<close>)
qed

section \<open>Samples\<close>

definition sampleLimits :: AccountStoreLimits where
  "sampleLimits = \<lparr>maxAccounts = 2, maxNoncesPerAccount = 4, maxGrantsPerAccount = 2\<rparr>"

definition sampleAccount :: Account where
  "sampleAccount = \<lparr>ac_id = ''acct'', ac_ownerAddress = hex40 CHR ''a'', ac_authorityChainId = 1,
     ac_profile = \<lparr>pf_displayName = ''Alice'', pf_bio = '''', pf_avatarUri = None\<rparr>, ac_createdAt = 100, ac_updatedAt = 100\<rparr>"

definition sampleGrant :: BotGrant where
  "sampleGrant = \<lparr>bg_id = ''g1'', bg_accountId = ''acct'', bg_botAddress = hex40 CHR ''b'', bg_scopes = [Read, Plan, Relay],
     bg_label = ''bot'', bg_createdAt = 100, bg_expiresAt = 5000, bg_revokedAt = None\<rparr>"

definition sampleRequest :: "char \<Rightarrow> string option \<Rightarrow> char \<Rightarrow> VerifiedRequest" where
  "sampleRequest signer grant nonce = \<lparr>vr_accountId = ''acct'', vr_signer = hex40 signer, vr_grantId = grant,
     vr_nonce = hex64 nonce, vr_issuedAt = 200, vr_expiresAt = 300, vr_idempotencyKey = None,
     vr_requiredScopes = [], vr_ownerOnly = False, vr_principalId = None, vr_now = 210\<rparr>"

definition sampleEntry :: "char \<Rightarrow> int \<Rightarrow> NonceEntry" where
  "sampleEntry nonce i = \<lparr>ne_accountId = ''acct'', ne_nonce = hex64 nonce, ne_expiresAt = 300, ne_index = i\<rparr>"

definition sampleA0 :: AccountStore where "sampleA0 = newAccountStore sampleLimits"

definition sampleA1 :: AccountStore where
  "sampleA1 = sampleA0\<lparr>as_accounts := [(''acct'', sampleAccount)], as_owners := [(ownerKey sampleAccount, ''acct'')],
     as_nonces := [(''acct'', [(hex64 CHR ''1'', 0)])], as_expiry := \<lparr>hp_objects = [sampleEntry CHR ''1'' 0], hp_entries = [0]\<rparr>\<rparr>"

definition sampleA2 :: AccountStore where
  "sampleA2 = sampleA1\<lparr>as_bots := [(''g1'', sampleGrant)], as_accountBots := [(''acct'', [''g1''])]\<rparr>"

definition sampleA3 :: AccountStore where
  "sampleA3 = sampleA2\<lparr>as_nonces := [(''acct'', [(hex64 CHR ''1'', 0), (hex64 CHR ''2'', 1)])],
     as_expiry := \<lparr>hp_objects = [sampleEntry CHR ''1'' 0, sampleEntry CHR ''2'' 1], hp_entries = [0, 1]\<rparr>\<rparr>"

definition sampleRevoked :: BotGrant where
  "sampleRevoked = sampleGrant\<lparr>bg_revokedAt := Some 250\<rparr>"

definition sampleA4 :: AccountStore where
  "sampleA4 = sampleA3\<lparr>as_bots := [(''g1'', sampleRevoked)]\<rparr>"

lemmas auth_sample_defs = sampleLimits_def sampleAccount_def sampleGrant_def sampleEntry_def
  sampleA0_def sampleA1_def sampleA2_def sampleA3_def newAccountStore_def

lemma sample_limits: "accountStoreLimits (Some 2) (Some 4) (Some 2) = Inr sampleLimits"
  by (simp add: accountStoreLimits_def sampleLimits_def isSafeInteger_def MAX_SAFE_INTEGER_def)

lemma hex40_lower: "c \<in> set ''ab'' \<Longrightarrow> toLowerCase (hex40 c) = hex40 c" and hex40_ok: "c \<in> set ''ab'' \<Longrightarrow> hexOf 40 (hex40 c)"
  by (auto simp: toLowerCase_def hex40_def lower_def isUpper_def code_def hexOf_def list_all_iff isHexDigit_def isDigit_def)

lemma hex64_lower: "c \<in> set ''123'' \<Longrightarrow> toLowerCase (hex64 c) = hex64 c" and hex64_ok: "c \<in> set ''123'' \<Longrightarrow> hexOf 64 (hex64 c)"
  by (auto simp: toLowerCase_def hex64_def lower_def isUpper_def code_def hexOf_def list_all_iff isHexDigit_def isDigit_def)

lemma hex64_inj [simp]: "hex64 c = hex64 d \<longleftrightarrow> c = d"
  by (auto simp: hex64_def)

lemma hex40_inj [simp]: "hex40 c = hex40 d \<longleftrightarrow> c = d"
  by (auto simp: hex40_def)

lemma sample_ids: "isIdentifier ''acct''" "isIdentifier ''g1''"
  by (simp_all add: isIdentifier_def isLower_def isUpper_def isDigit_def code_def)

lemmas auth_checks = assertIdentifier_def assertAddress_def assertTime_auth_def sample_ids hex40_ok hex64_ok
  isSafeInteger_def MAX_SAFE_INTEGER_def

lemma sample_request_ok:
  "s \<in> set ''ab'' \<Longrightarrow> g \<in> {None, Some ''g1''} \<Longrightarrow> n \<in> set ''123'' \<Longrightarrow> assertRequest (sampleRequest s g n) = Inr ()"
  using hex40_ok [of s] hex64_ok [of n]
  by (auto simp: assertRequest_def sampleRequest_def auth_checks validScopes_def)

lemma sample_afterWait:
  "s \<in> set ''ab'' \<Longrightarrow> g \<in> {None, Some ''g1''} \<Longrightarrow> n \<in> set ''123'' \<Longrightarrow> afterWait 0 (sampleRequest s g n) = Inr (sampleRequest s g n)"
  using sample_request_ok by (simp add: afterWait_def)

lemma sample_account_ok: "assertAccount sampleAccount = Inr ()"
  by (simp add: assertAccount_def sampleAccount_def auth_checks assertProfile_def boundedText_def code_def)

lemma sample_grant_ok: "assertGrant sampleGrant = Inr ()"
  by (simp add: assertGrant_def sampleGrant_def auth_checks boundedText_def code_def isCanonicalGrantScopes_iff)

lemmas nonce_eval = consumeNonce_def nonceEntries_def nonceCapacity_def heap_add_def heap_up.simps set_index_def entry_at_def sampleEntry_def

lemma sample_enroll:
  "\<exists>pr. enroll 0 sampleAccount (sampleRequest CHR ''a'' None CHR ''1'') sampleA0 = (Inr pr, sampleA1)"
proof -
  let ?r = "sampleRequest CHR ''a'' None CHR ''1''"
  have acc: "sampleAccount\<lparr>ac_ownerAddress := toLowerCase (ac_ownerAddress sampleAccount)\<rparr> = sampleAccount"
    by (simp add: sampleAccount_def hex40_lower)
  have e: "enrollmentAccount sampleA0 sampleAccount = Inr sampleAccount"
    by (simp add: enrollmentAccount_def acc sampleA0_def newAccountStore_def sampleLimits_def)
  have p: "\<exists>pr. principalFor sampleAccount None ?r = Inr pr"
    by (simp add: principalFor_def Let_def sampleAccount_def sampleRequest_def)
  have c: "consumeNonce ?r sampleA0 = (Inr (), sampleA0\<lparr>as_nonces := as_nonces sampleA1, as_expiry := as_expiry sampleA1\<rparr>)"
    by (simp add: nonce_eval sampleRequest_def auth_sample_defs hex64_lower Let_def)
  have f: "vr_accountId ?r = ac_id sampleAccount" "vr_grantId ?r = None" "vr_signer ?r = ac_ownerAddress sampleAccount"
    by (simp_all add: sampleRequest_def sampleAccount_def)
  have s: "saveEnrollment sampleAccount (sampleA0\<lparr>as_nonces := as_nonces sampleA1, as_expiry := as_expiry sampleA1\<rparr>) = sampleA1"
    by (simp add: saveEnrollment_def auth_sample_defs)
  show ?thesis using p
    by (auto simp: enroll_def sample_account_ok sample_request_ok sample_afterWait e c f s)
qed

lemma sample_register: "registerBot sampleGrant sampleA1 = (Inr sampleGrant, sampleA2)"
proof -
  have g: "sampleGrant\<lparr>bg_botAddress := toLowerCase (bg_botAddress sampleGrant)\<rparr> = sampleGrant"
    by (simp add: sampleGrant_def hex40_lower)
  have a: "js_get (as_accounts sampleA1) ''acct'' = Some sampleAccount" "as_bots sampleA1 = []"
    "as_accountBots sampleA1 = []" "maxGrantsPerAccount (as_limits sampleA1) = 2" "bg_id sampleGrant = ''g1''" "bg_accountId sampleGrant = ''acct''"
    by (simp_all add: auth_sample_defs)
  show ?thesis by (simp add: registerBot_def sample_grant_ok g require_account_def js_add_def a sampleA2_def)
qed

lemma sample_authorize:
  "\<exists>pr. authorizeAndConsume 0 (sampleRequest CHR ''b'' (Some ''g1'') CHR ''2'') sampleA2 = (Inr pr, sampleA3) \<and> rp_account pr = sampleAccount"
proof -
  let ?r = "sampleRequest CHR ''b'' (Some ''g1'') CHR ''2''"
  have p: "\<exists>pr. principalFor sampleAccount (Some sampleGrant) ?r = Inr pr \<and> rp_account pr = sampleAccount"
    by (simp add: principalFor_def grantCovers_def Let_def sampleAccount_def sampleRequest_def sampleGrant_def isCanonicalGrantScopes_iff)
  have c: "consumeNonce ?r sampleA2 = (Inr (), sampleA3)"
    by (simp add: nonce_eval sampleRequest_def auth_sample_defs hex64_lower Let_def reservedNonces_def OWNER_NONCE_RESERVE_def)
  have "vr_accountId ?r = ''acct''" "vr_grantId ?r = Some ''g1''" by (simp_all add: sampleRequest_def)
  moreover have "js_get (as_accounts sampleA2) ''acct'' = Some sampleAccount" "as_bots sampleA2 = [(''g1'', sampleGrant)]"
    by (simp_all add: auth_sample_defs)
  ultimately show ?thesis using p
    by (auto simp: authorizeAndConsume_def sample_request_ok sample_afterWait c require_account_def find_grant_def)
qed

lemma sample_revoke: "revokeBot ''acct'' ''g1'' 250 sampleA3 = (Inr sampleRevoked, sampleA4)"
proof -
  have "js_get (as_accounts sampleA3) ''acct'' = Some sampleAccount" "as_bots sampleA3 = [(''g1'', sampleGrant)]"
    "bg_accountId sampleGrant = ''acct''" "bg_revokedAt sampleGrant = None" "bg_createdAt sampleGrant = 100"
    by (simp_all add: auth_sample_defs)
  then show ?thesis
    by (simp add: revokeBot_def auth_checks require_account_def sampleA4_def sampleRevoked_def max_def Let_def)
qed

lemma sample_auth_run:
  "auth_step 250 sampleA0 sampleA1" "auth_step 250 sampleA1 sampleA2" "auth_step 250 sampleA2 sampleA3" "auth_step 250 sampleA3 sampleA4"
proof -
  show "auth_step 250 sampleA0 sampleA1"
    using sample_enroll by (auto intro: auth_step.Enroll simp: sampleRequest_def)
  show "auth_step 250 sampleA1 sampleA2" using sample_register by (rule auth_step.RegisterBot)
  show "auth_step 250 sampleA2 sampleA3"
    using sample_authorize by (auto intro: auth_step.Authorize simp: sampleRequest_def)
  show "auth_step 250 sampleA3 sampleA4" using sample_revoke by (rule auth_step.RevokeBot)
qed

lemma sample_auth_inv: "auth_inv sampleA0" "auth_inv sampleA1" "auth_inv sampleA2" "auth_inv sampleA3" "auth_inv sampleA4"
proof -
  show "auth_inv sampleA0" using auth_inv_new [OF sample_limits] by (simp add: sampleA0_def)
  then show "auth_inv sampleA1" using auth_step_inv sample_auth_run by blast
  then show "auth_inv sampleA2" using auth_step_inv sample_auth_run by blast
  then show "auth_inv sampleA3" using auth_step_inv sample_auth_run by blast
  then show "auth_inv sampleA4" using auth_step_inv sample_auth_run by blast
qed

theorem replay_refused_witness:
  "\<not> accepted (authorizeAndConsume 40 (sampleRequest CHR ''a'' None CHR ''1'') sampleA4)"
proof -
  let ?r = "sampleRequest CHR ''a'' None CHR ''1''"
  obtain pr where "enroll 0 sampleAccount ?r sampleA0 = (Inr pr, sampleA1)" using sample_enroll by blast
  then have pr: "authorizeAndConsume 0 ?r sampleA0 = (Inr pr, sampleA1) \<or> enroll 0 sampleAccount ?r sampleA0 = (Inr pr, sampleA1)" ..
  have "vr_now ?r + 40 = 250" by (simp add: sampleRequest_def)
  then have "(auth_step (vr_now ?r + 40))\<^sup>*\<^sup>* sampleA1 sampleA4"
    using sample_auth_run(2-4) by (metis converse_rtranclp_into_rtranclp rtranclp.rtrancl_refl)
  from replay_refused [OF sample_auth_inv(1) pr refl same_refl order.refl this] show ?thesis by blast
qed

theorem revocation_is_final_witness:
  "\<not> accepted (authorizeAndConsume 0 (sampleRequest CHR ''b'' (Some ''g1'') CHR ''3'') sampleA4)"
proof -
  have "vr_grantId (sampleRequest CHR ''b'' (Some ''g1'') CHR ''3'') = Some ''g1''" by (simp add: sampleRequest_def)
  then show ?thesis
    using revocation_is_final [OF sample_auth_inv(4) sample_revoke rtranclp.rtrancl_refl,
        of "sampleRequest CHR ''b'' (Some ''g1'') CHR ''3''" 0] by blast
qed


theorem owner_never_crowded_out_witness:
  "accepted (authorizeAndConsume 0 (sampleRequest CHR ''a'' None CHR ''3'') sampleA3)"
proof -
  let ?o = "sampleRequest CHR ''a'' None CHR ''3''" and ?b = "sampleRequest CHR ''b'' (Some ''g1'') CHR ''2''"
  obtain pr where pr: "authorizeAndConsume 0 ?b sampleA2 = (Inr pr, sampleA3)"
    "rp_account pr = sampleAccount" using sample_authorize by blast
  have "spent sampleA3 (''acct'', hex64 CHR ''3'') = None"
    by (simp add: spent_def nonceAt_def nonceEntries_def auth_sample_defs)
  moreover have "assertRequest (?o\<lparr>vr_now := vr_now ?o + 0\<rparr>) = Inr ()" using sample_request_ok [of _ None] by simp
  ultimately show ?thesis
    using pr(2) sample_request_ok [of "CHR ''a''" None "CHR ''3''"]
    by (intro owner_never_crowded_out [OF sample_auth_inv(3) pr(1)])
      (simp_all add: hex64_lower, simp_all add: sampleRequest_def sampleAccount_def hex64_lower)
qed

theorem account_limits_hold_witness:
  "int (length (nonceEntries sampleA4 ''acct'')) \<le> 4 \<and> ''g1'' \<in> set (botIds sampleA4 ''acct'')"
proof -
  have "(auth_step 250)\<^sup>*\<^sup>* (newAccountStore sampleLimits) sampleA4"
    using sample_auth_run unfolding sampleA0_def by (meson converse_rtranclp_into_rtranclp rtranclp.rtrancl_refl)
  from account_limits_hold [OF sample_limits this, of "''acct''" "''g1''"] show ?thesis
    by (simp add: sampleLimits_def) (simp add: sampleA4_def sampleRevoked_def sampleGrant_def)
qed

theorem consumeNonce_refines_register_witness:
  "\<exists>s' e. consumeNonce (sampleRequest CHR ''b'' (Some ''g1'') CHR ''2'') sampleA3 = (Inl e, s') \<and> auth_inv s' \<and> spent s' (''acct'', hex64 CHR ''2'') = Some 300"
proof -
  let ?r = "sampleRequest CHR ''b'' (Some ''g1'') CHR ''2''"
  have f: "vr_accountId ?r = ''acct''" "toLowerCase (vr_nonce ?r) = hex64 CHR ''2''" "vr_now ?r = 210" by (simp_all add: sampleRequest_def hex64_lower)
  have "spent sampleA3 (''acct'', hex64 CHR ''2'') = Some 300" by (simp add: spent_def nonceAt_def nonceEntries_def auth_sample_defs)
  then have sp: "pruned 210 ''acct'' (spent sampleA3) (''acct'', hex64 CHR ''2'') = Some 300" by (rule pruned_later) simp
  obtain r s' where c: "consumeNonce ?r sampleA3 = (r, s')" by fastforce
  show ?thesis
  proof (cases r)
    case (Inl e)
    then show ?thesis using consumeNonce_refines_register [OF sample_auth_inv(4), of ?r] c sp by (auto simp: f Let_def)
  next
    case (Inr u)
    then show ?thesis using consumeNonce_refines_register [OF sample_auth_inv(4), of ?r] c sp by (simp add: f Let_def)
  qed
qed

end
