(* ===== verification/UserOperationCodec.thy ===== *)
theory UserOperationCodec
  imports Canonical PlanTransitions
begin

text \<open>
  User operations of the ERC-4337 entry point, version 0.7
  (\<^verbatim>\<open>src/src/rest/userOperations/codec.ts\<close> with the data of \<^verbatim>\<open>types.ts\<close>): normalization of untrusted input,
  the packed form of the contract and back, hashes, gas policies. The library viem is a parameter, the
  record \<open>viem\<close>; what is relied on of its documented behaviour is the predicate \<open>viem_documented\<close>.
  An input object is a \<open>JObj\<close> with distinct keys.
\<close>

section \<open>The library\<close>

datatype abi = AbiAddress string | AbiUint int | AbiBytes32 string

record viem =
  vi_isAddress :: "string \<Rightarrow> bool"
  vi_toHex :: "int \<Rightarrow> string"
  vi_padHex :: "string \<Rightarrow> nat \<Rightarrow> string res"
  vi_concat :: "string list \<Rightarrow> string"
  vi_keccak256 :: "string \<Rightarrow> string"
  vi_sha256 :: "string \<Rightarrow> string"
  vi_stringToHex :: "string \<Rightarrow> string"
  vi_encodeAbiParameters :: "abi list \<Rightarrow> string"

section \<open>Data\<close>

record UserOperationV07 =
  uo_sender :: string
  uo_nonce :: string
  uo_factory :: "string option"
  uo_factoryData :: "string option"
  uo_callData :: string
  uo_callGasLimit :: string
  uo_verificationGasLimit :: string
  uo_preVerificationGas :: string
  uo_maxFeePerGas :: string
  uo_maxPriorityFeePerGas :: string
  uo_paymaster :: "string option"
  uo_paymasterVerificationGasLimit :: "string option"
  uo_paymasterPostOpGasLimit :: "string option"
  uo_paymasterData :: "string option"
  uo_signature :: string

record PackedUserOperationV07 =
  pk_sender :: string
  pk_nonce :: int
  pk_initCode :: string
  pk_callData :: string
  pk_accountGasLimits :: string
  pk_preVerificationGas :: int
  pk_gasFees :: string
  pk_paymasterAndData :: string
  pk_signature :: string

record UserOperationGasEstimate =
  ge_callGasLimit :: string
  ge_verificationGasLimit :: string
  ge_preVerificationGas :: string
  ge_paymasterVerificationGasLimit :: "string option"
  ge_paymasterPostOpGasLimit :: "string option"

record UserOperationGasPolicy =
  gp_id :: string
  gp_maximumCallGas :: int
  gp_maximumVerificationGas :: int
  gp_maximumPreVerificationGas :: int
  gp_maximumPaymasterVerificationGas :: int
  gp_maximumPaymasterPostOpGas :: int
  gp_maximumFeePerGas :: int
  gp_maximumPriorityFeePerGas :: int
  gp_maximumCost :: int
  gp_requirePaymaster :: bool

definition json_of_UserOperationV07 :: "UserOperationV07 \<Rightarrow> json" where
  "json_of_UserOperationV07 op = JObj
     ([(''sender'', JStr (uo_sender op)), (''nonce'', JStr (uo_nonce op)), (''callData'', JStr (uo_callData op)),
       (''callGasLimit'', JStr (uo_callGasLimit op)), (''verificationGasLimit'', JStr (uo_verificationGasLimit op)),
       (''preVerificationGas'', JStr (uo_preVerificationGas op)), (''maxFeePerGas'', JStr (uo_maxFeePerGas op)),
       (''maxPriorityFeePerGas'', JStr (uo_maxPriorityFeePerGas op)), (''signature'', JStr (uo_signature op))] @
      optField ''factory'' JStr (uo_factory op) @ optField ''factoryData'' JStr (uo_factoryData op) @
      optField ''paymaster'' JStr (uo_paymaster op) @ optField ''paymasterData'' JStr (uo_paymasterData op) @
      optField ''paymasterVerificationGasLimit'' JStr (uo_paymasterVerificationGasLimit op) @
      optField ''paymasterPostOpGasLimit'' JStr (uo_paymasterPostOpGasLimit op))"

section \<open>Scalars\<close>

definition operationBytes :: nat where "operationBytes = 262144"
definition calldataBytes :: nat where "calldataBytes = 65536"
definition signatureBytes :: nat where "signatureBytes = 16384"
definition paymasterBytes :: nat where "paymasterBytes = 8192"
definition factoryBytes :: nat where "factoryBytes = 32768"

definition uoError :: "string \<Rightarrow> string \<Rightarrow> int \<Rightarrow> rest_error" where
  "uoError errorCode message status = RestError status errorCode message None"

text \<open>The pattern \<^verbatim>\<open>^0x(0|[1-9a-f][0-9a-f]{0,63})$\<close>.\<close>

definition canonicalQuantity :: "string \<Rightarrow> bool" where
  "canonicalQuantity s \<longleftrightarrow> take 2 s = ''0x'' \<and>
     (let d = drop 2 s in d = ''0'' \<or> d \<noteq> [] \<and> length d \<le> 64 \<and> list_all isLowerHexDigit d \<and> hd d \<noteq> CHR ''0'')"

text \<open>The pattern \<^verbatim>\<open>^0x(?:[0-9a-fA-F]{2})*$\<close>.\<close>

definition hexBytes :: "string \<Rightarrow> bool" where
  "hexBytes s \<longleftrightarrow> take 2 s = ''0x'' \<and> even (length s) \<and> list_all isHexDigit (drop 2 s)"

definition uoQuantity :: "json option \<Rightarrow> string \<Rightarrow> nat \<Rightarrow> int res" where
  "uoQuantity v label bits =
     (case v of
        Some (JStr s) \<Rightarrow>
          bindR (ensure (\<not> (\<not> canonicalQuantity s \<or> hexNumber (drop 2 s) \<ge> 2 ^ bits))
            (uoError ''INVALID_USER_OPERATION'' (''Invalid canonical '' @ label @ ''.'') 400)) (\<lambda>_.
          Inr (hexNumber (drop 2 s)))
      | _ \<Rightarrow> Inl (uoError ''INVALID_USER_OPERATION'' (''Invalid canonical '' @ label @ ''.'') 400))"

definition uoBytes :: "json option \<Rightarrow> string \<Rightarrow> nat \<Rightarrow> string res" where
  "uoBytes v label maximum =
     (case v of
        Some (JStr s) \<Rightarrow>
          bindR (ensure (\<not> (\<not> hexBytes s \<or> (length s - 2) div 2 > maximum))
            (uoError ''INVALID_USER_OPERATION'' (''Invalid bounded '' @ label @ ''.'') 400)) (\<lambda>_.
          Inr (toLowerCase s))
      | _ \<Rightarrow> Inl (uoError ''INVALID_USER_OPERATION'' (''Invalid bounded '' @ label @ ''.'') 400))"

definition zeroAccount :: string where "zeroAccount = ''0x'' @ replicate 40 CHR ''0''"

definition uoAddress :: "viem \<Rightarrow> json option \<Rightarrow> string \<Rightarrow> string res" where
  "uoAddress V v label =
     (case v of
        Some (JStr s) \<Rightarrow>
          bindR (ensure (\<not> (\<not> vi_isAddress V s \<or> same s zeroAccount))
            (uoError ''INVALID_USER_OPERATION'' (''Invalid '' @ label @ ''.'') 400)) (\<lambda>_.
          Inr (toLowerCase s))
      | _ \<Rightarrow> Inl (uoError ''INVALID_USER_OPERATION'' (''Invalid '' @ label @ ''.'') 400))"

definition uoHash :: "json option \<Rightarrow> string \<Rightarrow> string res" where
  "uoHash v label =
     bindR (uoBytes v label 32) (\<lambda>result.
     bindR (ensure (length result = 66) (uoError ''INVALID_USER_OPERATION'' (''Invalid '' @ label @ ''.'') 400)) (\<lambda>_.
     Inr result))"

text \<open>\<^verbatim>\<open>uoCanonical\<close> repeats \<^verbatim>\<open>canonical\<close> of the sponsorship validation with an error of its own.\<close>

definition uoCanonical :: "json \<Rightarrow> string res" where
  "uoCanonical v =
     (case canonical v of
        Inl _ \<Rightarrow> Inl (uoError ''INVALID_USER_OPERATION'' ''Only bounded lossless JSON is accepted.'' 400)
      | Inr text \<Rightarrow> Inr text)"

section \<open>Normalization\<close>

definition required :: "string list" where
  "required = [''sender'', ''nonce'', ''callData'', ''callGasLimit'', ''verificationGasLimit'', ''preVerificationGas'',
     ''maxFeePerGas'', ''maxPriorityFeePerGas'', ''signature'']"

definition optional :: "string list" where
  "optional = [''factory'', ''factoryData'', ''paymaster'', ''paymasterVerificationGasLimit'', ''paymasterPostOpGasLimit'',
     ''paymasterData'']"

definition factoryFields :: "viem \<Rightarrow> (string \<times> json) list \<Rightarrow> UserOperationV07 \<Rightarrow> UserOperationV07 res" where
  "factoryFields V fs op =
     (if js_has fs ''factory'' \<or> js_has fs ''factoryData'' then
        bindR (uoAddress V (js_get fs ''factory'') ''factory'') (\<lambda>factory.
        bindR (ensure (\<not> (factory = ''0x0000000000000000000000000000000000007702'' \<or>
               factory = ''0x7702000000000000000000000000000000000000''))
          (uoError ''USER_OPERATION_VERSION_UNSUPPORTED'' ''EIP-7702 authorization is not an EntryPoint v0.7 factory.'' 400)) (\<lambda>_.
        bindR (uoBytes (js_get fs ''factoryData'') ''factory calldata'' factoryBytes) (\<lambda>factoryData.
        Inr (op\<lparr>uo_factory := Some factory, uo_factoryData := Some factoryData\<rparr>))))
      else Inr op)"

definition paymasterFields :: "viem \<Rightarrow> (string \<times> json) list \<Rightarrow> UserOperationV07 \<Rightarrow> UserOperationV07 res" where
  "paymasterFields V fs op =
     (if list_ex (js_has fs) (drop 2 optional) then
        bindR (uoAddress V (js_get fs ''paymaster'') ''paymaster'') (\<lambda>paymaster.
        bindR (uoBytes (js_get fs ''paymasterData'') ''paymaster data'' paymasterBytes) (\<lambda>paymasterData.
        bindR (uoQuantity (js_get fs ''paymasterVerificationGasLimit'') ''paymaster verification gas'' 128) (\<lambda>verification.
        bindR (uoQuantity (js_get fs ''paymasterPostOpGasLimit'') ''paymaster post-op gas'' 128) (\<lambda>postOp.
        Inr (op\<lparr>uo_paymaster := Some paymaster, uo_paymasterData := Some paymasterData,
                uo_paymasterVerificationGasLimit := Some (vi_toHex V verification),
                uo_paymasterPostOpGasLimit := Some (vi_toHex V postOp)\<rparr>)))))
      else Inr op)"

text \<open>The fields every operation has.\<close>

definition requiredFields :: "viem \<Rightarrow> (string \<times> json) list \<Rightarrow> UserOperationV07 res" where
  "requiredFields V fs =
     bindR (uoAddress V (js_get fs ''sender'') ''sender'') (\<lambda>sender.
     bindR (uoQuantity (js_get fs ''nonce'') ''nonce'' 256) (\<lambda>nonce.
     bindR (uoBytes (js_get fs ''callData'') ''account calldata'' calldataBytes) (\<lambda>callData.
     bindR (uoQuantity (js_get fs ''callGasLimit'') ''call gas'' 128) (\<lambda>callGas.
     bindR (uoQuantity (js_get fs ''verificationGasLimit'') ''verification gas'' 128) (\<lambda>verificationGas.
     bindR (uoQuantity (js_get fs ''preVerificationGas'') ''pre-verification gas'' 256) (\<lambda>preVerificationGas.
     bindR (uoQuantity (js_get fs ''maxFeePerGas'') ''maximum fee'' 128) (\<lambda>maxFee.
     bindR (uoQuantity (js_get fs ''maxPriorityFeePerGas'') ''priority fee'' 128) (\<lambda>priorityFee.
     bindR (uoBytes (js_get fs ''signature'') ''account signature'' signatureBytes) (\<lambda>signature.
     Inr \<lparr>uo_sender = sender, uo_nonce = vi_toHex V nonce, uo_factory = None, uo_factoryData = None, uo_callData = callData,
          uo_callGasLimit = vi_toHex V callGas, uo_verificationGasLimit = vi_toHex V verificationGas,
          uo_preVerificationGas = vi_toHex V preVerificationGas, uo_maxFeePerGas = vi_toHex V maxFee,
          uo_maxPriorityFeePerGas = vi_toHex V priorityFee, uo_paymaster = None, uo_paymasterVerificationGasLimit = None,
          uo_paymasterPostOpGasLimit = None, uo_paymasterData = None, uo_signature = signature\<rparr>)))))))))"

definition hexInt :: "string \<Rightarrow> int" where "hexInt s = hexNumber (drop 2 s)"

definition normalizeUserOperation :: "viem \<Rightarrow> json \<Rightarrow> UserOperationV07 res" where
  "normalizeUserOperation V v =
     (case v of
        JObj fs \<Rightarrow>
          bindR (ensure (\<not> (list_ex (\<lambda>k. \<not> js_has fs k) required \<or> list_ex (\<lambda>f. fst f \<notin> set (required @ optional)) fs))
            (uoError ''INVALID_USER_OPERATION'' ''Provide only the complete unpacked EntryPoint v0.7 fields.'' 400)) (\<lambda>_.
          bindR (requiredFields V fs) (\<lambda>base.
          bindR (ensure (\<not> hexInt (uo_maxPriorityFeePerGas base) > hexInt (uo_maxFeePerGas base))
            (uoError ''INVALID_USER_OPERATION'' ''Priority fee exceeds maximum fee.'' 400)) (\<lambda>_.
          bindR (factoryFields V fs base) (\<lambda>op1.
          bindR (paymasterFields V fs op1) (\<lambda>op.
          bindR (uoCanonical (json_of_UserOperationV07 op)) (\<lambda>text.
          bindR (ensure (\<not> length text > operationBytes)
            (uoError ''USER_OPERATION_TOO_LARGE'' ''The user operation exceeds its byte limit.'' 413)) (\<lambda>_.
          Inr op)))))))
      | _ \<Rightarrow> Inl (uoError ''INVALID_USER_OPERATION'' ''Provide only the complete unpacked EntryPoint v0.7 fields.'' 400))"

abbreviation normalizeOp :: "viem \<Rightarrow> UserOperationV07 \<Rightarrow> UserOperationV07 res" where
  "normalizeOp V op \<equiv> normalizeUserOperation V (json_of_UserOperationV07 op)"

section \<open>The packed form\<close>

definition packUserOperation :: "viem \<Rightarrow> UserOperationV07 \<Rightarrow> PackedUserOperationV07 res" where
  "packUserOperation V v =
     bindR (normalizeOp V v) (\<lambda>op.
     bindR (case uo_factory op of None \<Rightarrow> Inr ''0x''
       | Some factory \<Rightarrow> bindR (js_must (uo_factoryData op)) (\<lambda>factoryData. Inr (vi_concat V [factory, factoryData]))) (\<lambda>initCode.
     bindR (vi_padHex V (uo_verificationGasLimit op) 16) (\<lambda>verificationGas.
     bindR (vi_padHex V (uo_callGasLimit op) 16) (\<lambda>callGas.
     bindR (vi_padHex V (uo_maxPriorityFeePerGas op) 16) (\<lambda>priorityFee.
     bindR (vi_padHex V (uo_maxFeePerGas op) 16) (\<lambda>maxFee.
     bindR (case uo_paymaster op of None \<Rightarrow> Inr ''0x''
       | Some paymaster \<Rightarrow>
           bindR (js_must (uo_paymasterVerificationGasLimit op)) (\<lambda>v0. bindR (vi_padHex V v0 16) (\<lambda>v1.
           bindR (js_must (uo_paymasterPostOpGasLimit op)) (\<lambda>p0. bindR (vi_padHex V p0 16) (\<lambda>p1.
           bindR (js_must (uo_paymasterData op)) (\<lambda>paymasterData.
           Inr (vi_concat V [paymaster, v1, p1, paymasterData]))))))) (\<lambda>paymasterAndData.
     Inr \<lparr>pk_sender = uo_sender op, pk_nonce = hexInt (uo_nonce op), pk_initCode = initCode, pk_callData = uo_callData op,
          pk_accountGasLimits = vi_concat V [verificationGas, callGas], pk_preVerificationGas = hexInt (uo_preVerificationGas op),
          pk_gasFees = vi_concat V [priorityFee, maxFee], pk_paymasterAndData = paymasterAndData,
          pk_signature = uo_signature op\<rparr>)))))))"

text \<open>\<^verbatim>\<open>s.slice(a, b)\<close> for indexes in range.\<close>

definition slice :: "nat \<Rightarrow> nat \<Rightarrow> string \<Rightarrow> string" where
  "slice a b s = take (b - a) (drop a s)"

definition unpackUserOperation :: "viem \<Rightarrow> PackedUserOperationV07 \<Rightarrow> UserOperationV07 res" where
  "unpackUserOperation V packed =
     bindR (uoBytes (Some (JStr (pk_accountGasLimits packed))) ''packed account gas'' 32) (\<lambda>gas.
     bindR (uoBytes (Some (JStr (pk_gasFees packed))) ''packed fees'' 32) (\<lambda>fees.
     bindR (ensure (\<not> (length gas \<noteq> 66 \<or> length fees \<noteq> 66))
       (uoError ''INVALID_USER_OPERATION'' ''Packed gas words must be 32 bytes.'' 400)) (\<lambda>_.
     bindR (uoBytes (Some (JStr (pk_initCode packed))) ''init code'' (factoryBytes + 20)) (\<lambda>init.
     bindR (uoBytes (Some (JStr (pk_paymasterAndData packed))) ''packed paymaster'' (paymasterBytes + 52)) (\<lambda>paymaster.
     bindR (ensure (\<not> (init \<noteq> ''0x'' \<and> length init < 42 \<or> paymaster \<noteq> ''0x'' \<and> length paymaster < 106))
       (uoError ''INVALID_USER_OPERATION'' ''Packed factory or paymaster fields are truncated.'' 400)) (\<lambda>_.
     normalizeUserOperation V (JObj
       ([(''sender'', JStr (pk_sender packed)), (''nonce'', JStr (vi_toHex V (pk_nonce packed))),
         (''callData'', JStr (pk_callData packed)), (''signature'', JStr (pk_signature packed)),
         (''callGasLimit'', JStr (vi_toHex V (hexNumber (drop 34 gas)))),
         (''verificationGasLimit'', JStr (vi_toHex V (hexNumber (slice 2 34 gas)))),
         (''preVerificationGas'', JStr (vi_toHex V (pk_preVerificationGas packed))),
         (''maxFeePerGas'', JStr (vi_toHex V (hexNumber (drop 34 fees)))),
         (''maxPriorityFeePerGas'', JStr (vi_toHex V (hexNumber (slice 2 34 fees))))] @
        (if init = ''0x'' then [] else [(''factory'', JStr (take 42 init)), (''factoryData'', JStr (''0x'' @ drop 42 init))]) @
        (if paymaster = ''0x'' then []
         else [(''paymaster'', JStr (take 42 paymaster)),
               (''paymasterVerificationGasLimit'', JStr (vi_toHex V (hexNumber (slice 42 74 paymaster)))),
               (''paymasterPostOpGasLimit'', JStr (vi_toHex V (hexNumber (slice 74 106 paymaster)))),
               (''paymasterData'', JStr (''0x'' @ drop 106 paymaster))])))))))))"

section \<open>Hashes\<close>

definition chainChecked :: "int \<Rightarrow> unit res" where
  "chainChecked chainId = ensure (\<not> (\<not> isSafeInteger chainId \<or> chainId \<le> 0))
     (uoError ''INVALID_USER_OPERATION_CHAIN'' ''Expected a configured chain.'' 400)"

definition getUserOperationHash :: "viem \<Rightarrow> UserOperationV07 \<Rightarrow> string \<Rightarrow> int \<Rightarrow> string res" where
  "getUserOperationHash V operation entryPoint chainId =
     bindR (chainChecked chainId) (\<lambda>_.
     bindR (packUserOperation V operation) (\<lambda>op.
     let encoded = vi_encodeAbiParameters V
       [AbiAddress (pk_sender op), AbiUint (pk_nonce op), AbiBytes32 (vi_keccak256 V (pk_initCode op)),
        AbiBytes32 (vi_keccak256 V (pk_callData op)), AbiBytes32 (pk_accountGasLimits op), AbiUint (pk_preVerificationGas op),
        AbiBytes32 (pk_gasFees op), AbiBytes32 (vi_keccak256 V (pk_paymasterAndData op))] in
     bindR (uoAddress V (Some (JStr entryPoint)) ''EntryPoint'') (\<lambda>entry.
     Inr (vi_keccak256 V (vi_encodeAbiParameters V [AbiBytes32 (vi_keccak256 V encoded), AbiAddress entry, AbiUint chainId])))))"

definition userOperationCommitment :: "viem \<Rightarrow> UserOperationV07 \<Rightarrow> string \<Rightarrow> int \<Rightarrow> string res" where
  "userOperationCommitment V operation entryPoint chainId =
     bindR (chainChecked chainId) (\<lambda>_.
     bindR (uoAddress V (Some (JStr entryPoint)) ''EntryPoint'') (\<lambda>entry.
     bindR (normalizeOp V operation) (\<lambda>op.
     bindR (uoCanonical (JObj [(''chainId'', JNum chainId), (''entryPoint'', JStr entry),
            (''operation'', json_of_UserOperationV07 op)])) (\<lambda>text.
     Inr (vi_sha256 V (vi_stringToHex V text))))))"

section \<open>Gas\<close>

fun withoutField :: "string \<Rightarrow> json \<Rightarrow> json" where
  "withoutField k (JObj fs) = JObj (filter (\<lambda>f. fst f \<noteq> k) fs)"
| "withoutField k v = v"

definition withoutUserOperationSignature :: "viem \<Rightarrow> UserOperationV07 \<Rightarrow> json res" where
  "withoutUserOperationSignature V operation =
     bindR (normalizeOp V operation) (\<lambda>op. Inr (withoutField ''signature'' (json_of_UserOperationV07 op)))"

definition applyUserOperationEstimate :: "viem \<Rightarrow> UserOperationV07 \<Rightarrow> UserOperationGasEstimate \<Rightarrow> UserOperationV07 res" where
  "applyUserOperationEstimate V operation estimate =
     bindR (normalizeOp V operation) (\<lambda>op.
     normalizeOp V (op\<lparr>uo_callGasLimit := ge_callGasLimit estimate, uo_verificationGasLimit := ge_verificationGasLimit estimate,
       uo_preVerificationGas := ge_preVerificationGas estimate,
       uo_paymasterVerificationGasLimit := (case ge_paymasterVerificationGasLimit estimate of
          None \<Rightarrow> uo_paymasterVerificationGasLimit op | Some g \<Rightarrow> Some g),
       uo_paymasterPostOpGasLimit := (case ge_paymasterPostOpGasLimit estimate of
          None \<Rightarrow> uo_paymasterPostOpGasLimit op | Some g \<Rightarrow> Some g)\<rparr>))"

text \<open>\<^verbatim>\<open>BigInt(field ?? "0x0")\<close>.\<close>

definition gasOr0 :: "string option \<Rightarrow> int" where
  "gasOr0 g = (case g of None \<Rightarrow> 0 | Some s \<Rightarrow> hexInt s)"

definition userOperationMaximumCost :: "viem \<Rightarrow> UserOperationV07 \<Rightarrow> int res" where
  "userOperationMaximumCost V operation =
     bindR (normalizeOp V operation) (\<lambda>op.
     Inr ((hexInt (uo_callGasLimit op) + hexInt (uo_verificationGasLimit op) + hexInt (uo_preVerificationGas op) +
           gasOr0 (uo_paymasterVerificationGasLimit op) + gasOr0 (uo_paymasterPostOpGasLimit op)) * hexInt (uo_maxFeePerGas op)))"

definition assertUserOperationGasPolicy :: "viem \<Rightarrow> UserOperationV07 \<Rightarrow> UserOperationGasPolicy \<Rightarrow> unit res" where
  "assertUserOperationGasPolicy V operation policy =
     bindR (normalizeOp V operation) (\<lambda>op.
     bindR (forR (\<lambda>(field, maximum).
         bindR (ensure (\<not> maximum < 0) (uoError ''INVALID_USER_OPERATION_POLICY'' ''The operator gas policy is invalid.'' 500)) (\<lambda>_.
         ensure (\<not> field > maximum)
           (uoError ''USER_OPERATION_GAS_LIMIT'' ''The operation exceeds its reviewed gas or fee policy.'' 422)))
       [(hexInt (uo_callGasLimit op), gp_maximumCallGas policy),
        (hexInt (uo_verificationGasLimit op), gp_maximumVerificationGas policy),
        (hexInt (uo_preVerificationGas op), gp_maximumPreVerificationGas policy),
        (hexInt (uo_maxFeePerGas op), gp_maximumFeePerGas policy),
        (hexInt (uo_maxPriorityFeePerGas op), gp_maximumPriorityFeePerGas policy),
        (gasOr0 (uo_paymasterVerificationGasLimit op), gp_maximumPaymasterVerificationGas policy),
        (gasOr0 (uo_paymasterPostOpGasLimit op), gp_maximumPaymasterPostOpGas policy)]) (\<lambda>_.
     bindR (ensure (\<not> gp_maximumCost policy \<le> 0)
       (uoError ''INVALID_USER_OPERATION_POLICY'' ''The operator maximum cost is invalid.'' 500)) (\<lambda>_.
     bindR (userOperationMaximumCost V op) (\<lambda>cost.
     ensure (\<not> (cost > gp_maximumCost policy \<or> gp_requirePaymaster policy \<and> uo_paymaster op = None))
       (uoError ''USER_OPERATION_GAS_LIMIT'' ''The operation exceeds its cost limit or requires the reviewed paymaster.'' 422)))))"

end
