(* ===== verification/UserOperationStore.thy ===== *)
theory UserOperationStore
  imports UserOperationCodec SponsorshipStore Cursor
begin

text \<open>
  The rules of the user-operation store (\<^verbatim>\<open>src/src/rest/userOperations/store.ts\<close>, with the observations of
  \<^verbatim>\<open>types.ts\<close> and the session binding of \<^verbatim>\<open>sessions/types.ts\<close>): an operation is prepared for steps of a
  reviewed plan, claimed for publication once with exactly the reviewed bytes plus a signature, then
  settled with the bundler's answer and observed on chain until it is final.
\<close>

section \<open>Data\<close>

datatype UserOperationState =
  UPrepared | USubmitting | USubmissionUnknown | UPending | UUnknown | UConfirming | UConfirmed | UReverted | UExpired

record UserOperationSessionBinding =
  us_id :: string
  us_policyHash :: string
  us_compiledHash :: string
  us_generation :: string
  us_grantId :: string
  us_permissionId :: string
  us_sessionKey :: string
  us_observationHash :: string

record UserOperationObservation =
  ub_state :: UserOperationState
  ub_operationHash :: string
  ub_transactionHash :: "string option"
  ub_receipt :: "StoredReceipt option"
  ub_scopedLogs :: "json list option"
  ub_semantic :: "SemanticResult option"
  ub_reason :: "string option"
  ub_observedAt :: "int option"
  ub_verifiedAtBlock :: "string option"

record UserOperationSubmission =
  um_key :: string
  um_commitment :: string
  um_operation :: UserOperationV07
  um_startedAt :: int
  um_sessionObservationHash :: "string option"

record UserOperationRecord =
  ur_id :: string
  ur_actor :: RestActor
  ur_planId :: string
  ur_planCommitment :: string
  ur_stepIndexes :: "int list"
  ur_chainId :: int
  ur_entryPoint :: string
  ur_sender :: string
  ur_operation :: UserOperationV07
  ur_operationHash :: string
  ur_preparationKey :: string
  ur_inputHash :: string
  ur_commitment :: string
  ur_accountBindingId :: string
  ur_accountStateHash :: string
  ur_session :: "UserOperationSessionBinding option"
  ur_gasPolicyId :: string
  ur_providerId :: string
  ur_createdAt :: int
  ur_expiresAt :: int
  ur_revision :: int
  ur_state :: UserOperationState
  ur_submission :: "UserOperationSubmission option"
  ur_observation :: "UserOperationObservation option"

record UserOperationClaim =
  uc_actor :: RestActor
  uc_id :: string
  uc_key :: string
  uc_operation :: UserOperationV07
  uc_signedCommitment :: string
  uc_authorization :: Authorization
  uc_sessionObservationHash :: "string option"
  uc_now :: int

text \<open>\<^verbatim>\<open>UserOperationCodec\<close> and \<^verbatim>\<open>defaultCodec\<close>.\<close>

record UserOperationCodec =
  co_parse :: "json \<Rightarrow> UserOperationV07 res"
  co_hash :: "UserOperationV07 \<Rightarrow> int \<Rightarrow> string \<Rightarrow> string res"
  co_signedCommitment :: "UserOperationV07 \<Rightarrow> int \<Rightarrow> string \<Rightarrow> string res"

definition defaultCodec :: "viem \<Rightarrow> UserOperationCodec" where
  "defaultCodec V = \<lparr>co_parse = normalizeUserOperation V,
     co_hash = (\<lambda>operation chainId entryPoint. getUserOperationHash V operation entryPoint chainId),
     co_signedCommitment = (\<lambda>operation chainId entryPoint. userOperationCommitment V operation entryPoint chainId)\<rparr>"

section \<open>JSON images\<close>

definition text_of_UserOperationState :: "UserOperationState \<Rightarrow> string" where
  "text_of_UserOperationState s = (case s of UPrepared \<Rightarrow> ''prepared'' | USubmitting \<Rightarrow> ''submitting''
     | USubmissionUnknown \<Rightarrow> ''submission_unknown'' | UPending \<Rightarrow> ''pending'' | UUnknown \<Rightarrow> ''unknown''
     | UConfirming \<Rightarrow> ''confirming'' | UConfirmed \<Rightarrow> ''confirmed'' | UReverted \<Rightarrow> ''reverted'' | UExpired \<Rightarrow> ''expired'')"

definition json_of_SessionBinding :: "UserOperationSessionBinding \<Rightarrow> json" where
  "json_of_SessionBinding b = JObj
     [(''id'', JStr (us_id b)), (''policyHash'', JStr (us_policyHash b)), (''compiledHash'', JStr (us_compiledHash b)),
      (''generation'', JStr (us_generation b)), (''grantId'', JStr (us_grantId b)), (''permissionId'', JStr (us_permissionId b)),
      (''sessionKey'', JStr (us_sessionKey b)), (''observationHash'', JStr (us_observationHash b))]"

definition json_of_Observation :: "UserOperationObservation \<Rightarrow> json" where
  "json_of_Observation b = JObj
     ([(''state'', JStr (text_of_UserOperationState (ub_state b))), (''operationHash'', JStr (ub_operationHash b))] @
      optField ''transactionHash'' JStr (ub_transactionHash b) @ optField ''receipt'' json_of_StoredReceipt (ub_receipt b) @
      optField ''scopedLogs'' JArr (ub_scopedLogs b) @ optField ''semantic'' json_of_SemanticResult (ub_semantic b) @
      optField ''reason'' JStr (ub_reason b) @ optField ''observedAt'' JNum (ub_observedAt b) @
      optField ''verifiedAtBlock'' JStr (ub_verifiedAtBlock b))"

definition json_of_Submission :: "UserOperationSubmission \<Rightarrow> json" where
  "json_of_Submission b = JObj
     ([(''key'', JStr (um_key b)), (''commitment'', JStr (um_commitment b)), (''operation'', json_of_UserOperationV07 (um_operation b)),
       (''startedAt'', JNum (um_startedAt b))] @ optField ''sessionObservationHash'' JStr (um_sessionObservationHash b))"

definition json_of_UserOperationRecord :: "UserOperationRecord \<Rightarrow> json" where
  "json_of_UserOperationRecord r = JObj
     ([(''id'', JStr (ur_id r)), (''actor'', json_of_RestActor (ur_actor r)), (''planId'', JStr (ur_planId r)),
       (''planCommitment'', JStr (ur_planCommitment r)), (''stepIndexes'', JArr (map JNum (ur_stepIndexes r))),
       (''chainId'', JNum (ur_chainId r)), (''entryPoint'', JStr (ur_entryPoint r)), (''sender'', JStr (ur_sender r)),
       (''operation'', json_of_UserOperationV07 (ur_operation r)), (''operationHash'', JStr (ur_operationHash r)),
       (''preparationKey'', JStr (ur_preparationKey r)), (''inputHash'', JStr (ur_inputHash r)),
       (''commitment'', JStr (ur_commitment r)), (''accountBindingId'', JStr (ur_accountBindingId r)),
       (''accountStateHash'', JStr (ur_accountStateHash r))] @ optField ''session'' json_of_SessionBinding (ur_session r) @
      [(''gasPolicyId'', JStr (ur_gasPolicyId r)), (''providerId'', JStr (ur_providerId r)), (''createdAt'', JNum (ur_createdAt r)),
       (''expiresAt'', JNum (ur_expiresAt r)), (''revision'', JNum (ur_revision r)),
       (''state'', JStr (text_of_UserOperationState (ur_state r)))] @
      optField ''submission'' json_of_Submission (ur_submission r) @ optField ''observation'' json_of_Observation (ur_observation r))"

definition json_of_UserOperationClaim :: "UserOperationClaim \<Rightarrow> json" where
  "json_of_UserOperationClaim c = JObj
     ([(''actor'', json_of_RestActor (uc_actor c)), (''id'', JStr (uc_id c)), (''key'', JStr (uc_key c)),
       (''operation'', json_of_UserOperationV07 (uc_operation c)), (''signedCommitment'', JStr (uc_signedCommitment c)),
       (''authorization'', json_of_Authorization (uc_authorization c))] @
      optField ''sessionObservationHash'' JStr (uc_sessionObservationHash c) @ [(''now'', JNum (uc_now c))])"

section \<open>Copies, keys and guards\<close>

definition bytes_uo :: nat where "bytes_uo = 1048576"
definition recordsPerAccount_uo :: nat where "recordsPerAccount_uo = 1000"

definition fail_uo :: "string \<Rightarrow> string \<Rightarrow> int \<Rightarrow> rest_error" where
  "fail_uo errorCode message status = RestError status errorCode message None"

definition conflict_uo :: rest_error where
  "conflict_uo = fail_uo ''USER_OPERATION_CONFLICT'' ''The UserOperation is already bound to different reviewed bytes.'' 409"

definition missing_uo :: rest_error where
  "missing_uo = fail_uo ''USER_OPERATION_NOT_FOUND'' ''UserOperation preparation was not found for this principal.'' 404"

abbreviation invalid_uo :: "string \<Rightarrow> rest_error" where
  "invalid_uo message \<equiv> fail_uo ''INVALID_USER_OPERATION'' message 400"

definition owns_uo :: "UserOperationRecord \<Rightarrow> RestActor \<Rightarrow> bool" where
  "owns_uo r actor \<longleftrightarrow> accountId (ur_actor r) = accountId actor \<and> principalId (ur_actor r) = principalId actor"

definition canRead_uo :: "UserOperationRecord \<Rightarrow> RestActor \<Rightarrow> bool" where
  "canRead_uo r actor \<longleftrightarrow> owns_uo r actor \<or>
     accountId (ur_actor r) = accountId actor \<and> principalId actor = ''owner:'' @ accountId actor"

text \<open>The copy parsed from the canonical text is the value.\<close>

definition clone_uo :: "('a \<Rightarrow> json) \<Rightarrow> 'a \<Rightarrow> 'a res" where
  "clone_uo toJson v =
     bindR (canonical (toJson v)) (\<lambda>encoded.
     bindR (ensure (\<not> length encoded > bytes_uo)
       (fail_uo ''USER_OPERATION_STORAGE_LIMIT'' ''UserOperation data exceeds its storage bound.'' 413)) (\<lambda>_.
     Inr v))"

abbreviation cloneRecord_uo :: "UserOperationRecord \<Rightarrow> UserOperationRecord res" where
  "cloneRecord_uo \<equiv> clone_uo json_of_UserOperationRecord"

definition key_uo :: "string \<Rightarrow> unit res" where
  "key_uo v = ensure (isIdempotencyKey v) (invalid_uo ''Use a bounded idempotency key.'')"

definition time_uo :: "int \<Rightarrow> bool" where
  "time_uo t \<longleftrightarrow> isSafeInteger t \<and> t \<ge> 0"

text \<open>The pattern \<^verbatim>\<open>^[1-9][0-9]{0,77}$\<close>.\<close>

definition generationOk :: "string \<Rightarrow> bool" where
  "generationOk s \<longleftrightarrow> isDecimal s \<and> s \<noteq> ''0''"

definition assertSession_uo :: "UserOperationSessionBinding \<Rightarrow> unit res" where
  "assertSession_uo session =
     bindR (assertText (us_id session)) (\<lambda>_.
     bindR (assertText (us_grantId session)) (\<lambda>_.
     ensure (\<not> (\<not> list_all (\<lambda>h. isHash h) [us_policyHash session, us_compiledHash session, us_permissionId session, us_observationHash session] \<or>
         \<not> isAddress (us_sessionKey session) \<or> \<not> generationOk (us_generation session) \<or> bigInt (us_generation session) \<ge> 2 ^ 256))
       (invalid_uo ''Invalid exact session identity.'')))"

definition assertNew_uo :: "UserOperationRecord \<Rightarrow> int \<Rightarrow> UserOperationCodec \<Rightarrow> unit res" where
  "assertNew_uo r now codec =
     bindR (assertActor (ur_actor r)) (\<lambda>_.
     bindR (forR (\<lambda>i. assertText i) [ur_id r, ur_planId r, ur_gasPolicyId r, ur_providerId r]) (\<lambda>_.
     bindR (key_uo (ur_preparationKey r)) (\<lambda>_.
     bindR (ensure (\<not> (\<not> list_all (\<lambda>h. isHash h) [ur_planCommitment r, ur_operationHash r, ur_inputHash r, ur_commitment r,
              ur_accountBindingId r, ur_accountStateHash r] \<or>
            \<not> isAddress (ur_entryPoint r) \<or> \<not> isAddress (ur_sender r) \<or> \<not> isSafeInteger (ur_chainId r) \<or> ur_chainId r < 1 \<or>
            \<not> time_uo now \<or> \<not> time_uo (ur_createdAt r) \<or> \<not> time_uo (ur_expiresAt r) \<or> ur_createdAt r > now \<or> ur_expiresAt r \<le> now \<or>
            ur_revision r \<noteq> 0 \<or> ur_state r \<noteq> UPrepared \<or> ur_submission r \<noteq> None \<or> ur_observation r \<noteq> None \<or>
            length (ur_stepIndexes r) < 1 \<or> length (ur_stepIndexes r) > 32 \<or> \<not> distinct (ur_stepIndexes r) \<or>
            list_ex (\<lambda>index. \<not> isSafeInteger index \<or> index < 0 \<or> index > 31) (ur_stepIndexes r)))
          (invalid_uo ''Invalid UserOperation preparation.'')) (\<lambda>_.
     bindR (co_parse codec (json_of_UserOperationV07 (ur_operation r))) (\<lambda>operation.
     bindR (canonical (json_of_UserOperationV07 operation)) (\<lambda>left.
     bindR (canonical (json_of_UserOperationV07 (ur_operation r))) (\<lambda>right.
     bindR (ensure (\<not> (left \<noteq> right \<or> \<not> same (uo_sender operation) (ur_sender r)))
          (invalid_uo ''UserOperation encoding or hash differs from the preparation.'')) (\<lambda>_.
     bindR (co_hash codec operation (ur_chainId r) (ur_entryPoint r)) (\<lambda>hash.
     bindR (ensure (same hash (ur_operationHash r))
          (invalid_uo ''UserOperation encoding or hash differs from the preparation.'')) (\<lambda>_.
     bindR (case ur_session r of None \<Rightarrow> Inr () | Some session \<Rightarrow> assertSession_uo session) (\<lambda>_.
     bindR (cloneRecord_uo r) (\<lambda>_. Inr ()))))))))))))"

section \<open>Admission against the plan\<close>

text \<open>\<^verbatim>\<open>xs.indexOf(x)\<close>.\<close>

fun indexOfFrom :: "int \<Rightarrow> 'a \<Rightarrow> 'a list \<Rightarrow> int" where
  "indexOfFrom n x [] = - 1"
| "indexOfFrom n x (y # ys) = (if x = y then n else indexOfFrom (n + 1) x ys)"

abbreviation indexOf :: "'a \<Rightarrow> 'a list \<Rightarrow> int" where "indexOf x xs \<equiv> indexOfFrom 0 x xs"

definition assertPlan_uo :: "UserOperationRecord \<Rightarrow> StoredPlan \<Rightarrow> int \<Rightarrow> unit res" where
  "assertPlan_uo r plan now =
     bindR (ensure (\<not> (case pl_smartAccount plan of None \<Rightarrow> True
          | Some a \<Rightarrow> \<not> same (sa_bindingId a) (ur_accountBindingId r) \<or> \<not> same (sa_stateHash a) (ur_accountStateHash r) \<or>
              sa_chainId a \<noteq> ur_chainId r \<or> \<not> same (sa_address a) (ur_sender r))) conflict_uo) (\<lambda>_.
     bindR (ensure (\<not> (\<not> owns_uo r (pl_actor plan) \<or> pl_id plan \<noteq> ur_planId r \<or> \<not> same (pl_commitment plan) (ur_planCommitment r) \<or>
            \<not> same (dr_account (pl_draft plan)) (ur_sender r) \<or> pl_expiresAt plan \<le> now \<or> ur_expiresAt r > pl_expiresAt plan \<or>
            list_ex (\<lambda>index. js_at (pl_steps plan) index = None \<or>
              map_option call_chainId (js_at (dr_calls (pl_draft plan)) index) \<noteq> Some (ur_chainId r)) (ur_stepIndexes r)))
          conflict_uo) (\<lambda>_.
     forR (\<lambda>index.
       bindR (js_must (js_at (pl_steps plan) index)) (\<lambda>step.
       bindR (ensure (\<not> (st_attempt step \<noteq> None \<or> st_externalExecution step \<noteq> None \<or> st_state step \<noteq> Waiting \<or>
              st_receipt step \<noteq> None \<or> st_semantic step \<noteq> None)) conflict_uo) (\<lambda>_.
       bindR (js_must (js_at (dr_calls (pl_draft plan)) index)) (\<lambda>call.
       forR (\<lambda>dependency.
         if dependency \<in> set (ur_stepIndexes r) \<and> indexOf dependency (ur_stepIndexes r) < indexOf index (ur_stepIndexes r)
         then Inr ()
         else ensure (dependencyMet plan dependency) conflict_uo) (call_dependsOn call))))) (ur_stepIndexes r)))"

section \<open>Publication\<close>

definition assertClaim_uo :: "UserOperationClaim \<Rightarrow> unit res" where
  "assertClaim_uo input =
     bindR (assertActor (uc_actor input)) (\<lambda>_.
     bindR (assertText (uc_id input)) (\<lambda>_.
     bindR (key_uo (uc_key input)) (\<lambda>_.
     bindR (ensure (\<not> (\<not> isHash (uc_signedCommitment input) \<or> \<not> time_uo (uc_now input)))
          (invalid_uo ''Invalid signed UserOperation claim.'')) (\<lambda>_.
     bindR (clone_uo json_of_UserOperationClaim input) (\<lambda>_. Inr ())))))"

text \<open>Refresh observation evidence without changing the compiled session or operation.\<close>

definition dispatchRecord :: "UserOperationRecord \<Rightarrow> UserOperationClaim \<Rightarrow> UserOperationRecord res" where
  "dispatchRecord r input =
     (case ur_session r of
        None \<Rightarrow> Inr r
      | Some session \<Rightarrow>
          (case uc_sessionObservationHash input of
             Some h \<Rightarrow>
               bindR (ensure (isHash h) (invalid_uo ''A fresh verified session observation hash is required.'')) (\<lambda>_.
               Inr (r\<lparr>ur_session := Some (session\<lparr>us_observationHash := h\<rparr>)\<rparr>))
           | None \<Rightarrow> Inl (invalid_uo ''A fresh verified session observation hash is required.'')))"

text \<open>\<^verbatim>\<open>const { signature, ...rest } = operation\<close>.\<close>

abbreviation unsigned :: "UserOperationV07 \<Rightarrow> json" where
  "unsigned op \<equiv> withoutField ''signature'' (json_of_UserOperationV07 op)"

definition claimed_uo :: "UserOperationRecord \<Rightarrow> UserOperationClaim \<Rightarrow> UserOperationCodec \<Rightarrow> (UserOperationRecord \<times> bool) res" where
  "claimed_uo r input codec =
     bindR (ensure (owns_uo r (uc_actor input)) missing_uo) (\<lambda>_.
     bindR (co_parse codec (json_of_UserOperationV07 (uc_operation input))) (\<lambda>operation.
     bindR (co_signedCommitment codec operation (ur_chainId r) (ur_entryPoint r)) (\<lambda>fullCommitment.
     bindR (canonical (json_of_UserOperationV07 operation)) (\<lambda>text.
     bindR (canonical (json_of_UserOperationV07 (uc_operation input))) (\<lambda>given.
     bindR (ensure (\<not> (text \<noteq> given \<or> uo_signature operation = ''0x'')) conflict_uo) (\<lambda>_.
     bindR (canonical (unsigned (ur_operation r))) (\<lambda>original.
     bindR (canonical (unsigned operation)) (\<lambda>signed.
     bindR (ensure (\<not> (original \<noteq> signed \<or> \<not> same fullCommitment (uc_signedCommitment input))) conflict_uo) (\<lambda>_.
     bindR (co_hash codec operation (ur_chainId r) (ur_entryPoint r)) (\<lambda>hash.
     bindR (ensure (same hash (ur_operationHash r)) conflict_uo) (\<lambda>_.
     case ur_submission r of
       Some submission \<Rightarrow>
         bindR (ensure (same (um_commitment submission) fullCommitment) conflict_uo) (\<lambda>_.
         bindR (canonical (json_of_UserOperationV07 (um_operation submission))) (\<lambda>earlier.
         bindR (ensure (earlier = text) conflict_uo) (\<lambda>_.
         bindR (cloneRecord_uo r) (\<lambda>c. Inr (c, False)))))
     | None \<Rightarrow>
         bindR (ensure (\<not> (ur_state r \<noteq> UPrepared \<or> ur_expiresAt r \<le> uc_now input))
              (fail_uo ''USER_OPERATION_EXPIRED'' ''Prepare a fresh UserOperation before submission.'' 409)) (\<lambda>_.
         bindR (assertDispatchAuthorization (uc_authorization input) (uc_now input)) (\<lambda>_.
         bindR (dispatchRecord r input) (\<lambda>_.
         bindR (cloneRecord_uo (r\<lparr>ur_revision := ur_revision r + 1, ur_state := USubmitting,
            ur_submission := Some \<lparr>um_key = uc_key input, um_commitment = fullCommitment, um_operation = operation,
              um_startedAt = uc_now input,
              um_sessionObservationHash = (if ur_session r = None then None else uc_sessionObservationHash input)\<rparr>\<rparr>)) (\<lambda>c.
         Inr (c, True))))))))))))))))"

section \<open>Settlement and observation\<close>

definition settled_uo :: "UserOperationRecord \<Rightarrow> string \<Rightarrow> UserOperationState \<Rightarrow> UserOperationRecord res" where
  "settled_uo r commitment state =
     bindR (ensure (\<not> (case ur_submission r of None \<Rightarrow> True | Some b \<Rightarrow> \<not> same (um_commitment b) commitment)) conflict_uo) (\<lambda>_.
     bindR (ensure (state \<in> {UPending, USubmissionUnknown}) (invalid_uo ''Invalid UserOperation settlement.'')) (\<lambda>_.
     if ur_observation r \<noteq> None \<or> ur_state r = state then cloneRecord_uo r
     else cloneRecord_uo (r\<lparr>ur_state := state, ur_revision := ur_revision r + 1\<rparr>)))"

definition observationState :: "UserOperationState \<Rightarrow> bool" where
  "observationState s \<longleftrightarrow> s \<in> {UPending, UUnknown, UConfirming, UConfirmed, UReverted, UExpired}"

definition checkObservation :: "UserOperationObservation \<Rightarrow> unit res" where
  "checkObservation b =
     bindR (ensure (\<not> (ub_state b = UExpired \<and> (ub_transactionHash b \<noteq> None \<or> ub_receipt b \<noteq> None)))
       (invalid_uo ''An expired operation has no execution evidence.'')) (\<lambda>_.
     bindR (ensure (\<not> (case ub_transactionHash b of None \<Rightarrow> False | Some h \<Rightarrow> \<not> isHash h)) (invalid_uo ''Invalid transaction hash.'')) (\<lambda>_.
     bindR (ensure (\<not> (case ub_receipt b of None \<Rightarrow> False
         | Some receipt \<Rightarrow> (case ub_transactionHash b of None \<Rightarrow> True | Some h \<Rightarrow> \<not> same (rc_transactionHash receipt) h)))
       (invalid_uo ''Receipt does not match the execution transaction.'')) (\<lambda>_.
     bindR (ensure (\<not> (ub_state b = UConfirmed \<and> (case ub_receipt b of None \<Rightarrow> True
         | Some receipt \<Rightarrow> \<not> rc_canonical receipt \<or> rc_status receipt \<noteq> Success)))
       (invalid_uo ''Confirmed execution requires a canonical successful outer receipt.'')) (\<lambda>_.
     ensure (\<not> (ub_state b = UReverted \<and> (case ub_receipt b of None \<Rightarrow> True
         | Some receipt \<Rightarrow> \<not> rc_canonical receipt \<or>
             rc_status receipt \<noteq> RevertedReceipt \<and> map_option sem_status (ub_semantic b) \<noteq> Some SemFailed)))
       (invalid_uo ''Reverted execution requires canonical failure evidence.'')))))"

definition observed_uo :: "UserOperationRecord \<Rightarrow> int \<Rightarrow> UserOperationObservation \<Rightarrow> UserOperationRecord res" where
  "observed_uo r revision observation =
     bindR (ensure (\<not> (\<not> isSafeInteger revision \<or> revision < 0)) (invalid_uo ''Invalid observation revision.'')) (\<lambda>_.
     bindR (ensure (ur_revision r = revision) conflict_uo) (\<lambda>_.
     bindR (ensure (ur_state r \<noteq> UExpired) conflict_uo) (\<lambda>_.
     bindR (ensure (\<not> (ur_submission r = None \<or> \<not> same (ub_operationHash observation) (ur_operationHash r) \<or>
          \<not> observationState (ub_state observation))) conflict_uo) (\<lambda>_.
     bindR (checkObservation observation) (\<lambda>_.
     cloneRecord_uo (r\<lparr>ur_state := ub_state observation, ur_revision := ur_revision r + 1, ur_observation := Some observation\<rparr>))))))"

section \<open>Keys and recovery\<close>

text \<open>
  \<^verbatim>\<open>canonical\<close> of an array of texts and safe integers is its \<^verbatim>\<open>JSON.stringify\<close>; the chain of a stored record is a
  safe integer.
\<close>

definition nonceKey_uo :: "UserOperationRecord \<Rightarrow> string" where
  "nonceKey_uo r = keyText [JNum (ur_chainId r), JStr (toLowerCase (ur_sender r)), JStr (intText (hexInt (uo_nonce (ur_operation r))))]"

definition preparationKey_uo :: "RestActor \<Rightarrow> string \<Rightarrow> string" where
  "preparationKey_uo actor v = keyText [JStr (accountId actor), JStr (principalId actor), JStr v]"

definition isRecoverable_uo :: "UserOperationRecord \<Rightarrow> bool" where
  "isRecoverable_uo r \<longleftrightarrow> ur_submission r \<noteq> None \<and>
     ur_state r \<in> {USubmitting, USubmissionUnknown, UPending, UUnknown, UConfirming}"

definition recoveryCursor :: "ListCursor \<Rightarrow> string res" where
  "recoveryCursor c =
     bindR (canonical (JObj [(''createdAt'', JNum (cu_createdAt c)), (''id'', JStr (cu_id c))])) (\<lambda>text. Inr (encode64 text))"

definition readCursor :: "string option \<Rightarrow> ListCursor option res" where
  "readCursor v =
     (case v of
        None \<Rightarrow> Inr None
      | Some text \<Rightarrow>
          bindR (ensure (\<not> (length text > 512 \<or> text = [] \<or> \<not> list_all isB64 text)) (invalid_uo ''Invalid recovery cursor.'')) (\<lambda>_.
          case parseCursor (decode64 text) of
            None \<Rightarrow> Inl (invalid_uo ''Invalid recovery cursor.'')
          | Some c \<Rightarrow>
              bindR (ensure (assertText (cu_id c) = Inr () \<and> time_uo (cu_createdAt c) \<and> recoveryCursor c = Inr text)
                (invalid_uo ''Invalid recovery cursor.'')) (\<lambda>_. Inr (Some c))))"

definition assertLimit_uo :: "int \<Rightarrow> unit res" where
  "assertLimit_uo limit = ensure (\<not> (limit < 1 \<or> limit > 100)) (invalid_uo ''Use a recovery limit from 1 to 100.'')"

end
