(* ===== verification/UserOperationMemory.thy ===== *)
theory UserOperationMemory
  imports UserOperationStore TransactionMemory
begin

text \<open>
  The in-memory user-operation store (\<^verbatim>\<open>src/src/rest/userOperations/memory.ts\<close>): records, the keys of
  preparations and publications, the reserved sender nonces, and the transport reservations shared with
  the other stores. \<open>clock\<close> gives the successive readings of the clock in one operation, \<open>binding\<close> is the
  host's \<^verbatim>\<open>assertBindingAndSession\<close>, \<open>authority\<close> the guard of the account store.
\<close>

record NonceBinding =
  nb_id :: string
  nb_commitment :: string

record UserOperationStore =
  us_records :: "(string, UserOperationRecord) jsmap"
  us_preparations :: "(string, string) jsmap"
  us_submissions :: "(string, string) jsmap"
  us_nonces :: "(string, NonceBinding) jsmap"
  us_transports :: Reservations

definition emptyUserOperationStore :: UserOperationStore where
  "emptyUserOperationStore = \<lparr>us_records = [], us_preparations = [], us_submissions = [], us_nonces = [], us_transports = []\<rparr>"

type_synonym binding_guard = "UserOperationRecord \<Rightarrow> int \<Rightarrow> unit res"

definition required_uo :: "UserOperationStore \<Rightarrow> RestActor \<Rightarrow> string \<Rightarrow> UserOperationRecord res" where
  "required_uo s actor i =
     bindR (assertActor actor) (\<lambda>_.
     bindR (assertText i) (\<lambda>_.
     case js_get (us_records s) i of
       None \<Rightarrow> Inl missing_uo
     | Some r \<Rightarrow> if owns_uo r actor then Inr r else Inl missing_uo))"

definition find_uo :: "RestActor \<Rightarrow> string \<Rightarrow> string \<Rightarrow> UserOperationStore \<Rightarrow> UserOperationRecord option res" where
  "find_uo actor preparation inputHash s =
     bindR (assertActor actor) (\<lambda>_.
     bindR (key_uo preparation) (\<lambda>_.
     case js_get (us_preparations s) (preparationKey_uo actor preparation) of
       None \<Rightarrow> Inr None
     | Some i \<Rightarrow>
         bindR (required_uo s actor i) (\<lambda>r.
         bindR (ensure (same (ur_inputHash r) inputHash) conflict_uo) (\<lambda>_.
         bindR (cloneRecord_uo r) (\<lambda>c. Inr (Some c))))))"

definition create_uo ::
  "viem \<Rightarrow> guard \<Rightarrow> binding_guard \<Rightarrow> (nat \<Rightarrow> int) \<Rightarrow> UserOperationRecord \<Rightarrow> int \<Rightarrow> UserOperationStore \<Rightarrow>
     UserOperationRecord res \<times> UserOperationStore" where
  "create_uo V authority binding clock input now s =
     attempt (assertNew_uo input now (defaultCodec V)) s (\<lambda>_.
     attempt (cloneRecord_uo input) s (\<lambda>r.
     attempt (authority (ur_actor r) [Plan] (clock 0 div 1000)) s (\<lambda>_.
     case js_get (us_preparations s) (preparationKey_uo (ur_actor r) (ur_preparationKey r)) of
       Some previous \<Rightarrow>
         attempt (required_uo s (ur_actor r) previous) s (\<lambda>stored.
         attempt (ensure (same (ur_inputHash stored) (ur_inputHash r)) conflict_uo) s (\<lambda>_.
         attempt (cloneRecord_uo stored) s (\<lambda>c. (Inr c, s))))
     | None \<Rightarrow>
         attempt (assertNew_uo r (clock 1) (defaultCodec V)) s (\<lambda>_.
         attempt (binding r (clock 2 div 1000)) s (\<lambda>_.
         attempt (ensure (\<not> js_has (us_records s) (ur_id r)) conflict_uo) s (\<lambda>_.
         attempt (ensure (\<not> count_values (\<lambda>x. accountId (ur_actor x) = accountId (ur_actor r)) (us_records s)
              \<ge> recordsPerAccount_uo)
            (fail_uo ''USER_OPERATION_STORAGE_LIMIT'' ''Account UserOperation record capacity reached.'' 429)) s (\<lambda>_.
         let s1 = s\<lparr>us_preparations := js_set (preparationKey_uo (ur_actor r) (ur_preparationKey r)) (ur_id r) (us_preparations s),
                    us_records := js_set (ur_id r) r (us_records s)\<rparr> in
         attempt (cloneRecord_uo r) s1 (\<lambda>c. (Inr c, s1)))))))))"

definition get_uo :: "RestActor \<Rightarrow> string \<Rightarrow> UserOperationStore \<Rightarrow> UserOperationRecord option res" where
  "get_uo actor i s =
     bindR (assertActor actor) (\<lambda>_.
     bindR (assertText i) (\<lambda>_.
     case js_get (us_records s) i of
       None \<Rightarrow> Inr None
     | Some r \<Rightarrow> if canRead_uo r actor then bindR (cloneRecord_uo r) (\<lambda>c. Inr (Some c)) else Inr None))"

definition claim_uo ::
  "viem \<Rightarrow> guard \<Rightarrow> binding_guard \<Rightarrow> (nat \<Rightarrow> int) \<Rightarrow> UserOperationClaim \<Rightarrow> UserOperationStore \<Rightarrow>
     (UserOperationRecord \<times> bool) res \<times> UserOperationStore" where
  "claim_uo V authority binding clock input s =
     attempt (assertClaim_uo input) s (\<lambda>_.
     attempt (clone_uo json_of_UserOperationClaim input) s (\<lambda>input.
     attempt (authority (uc_actor input) [Relay] (clock 0 div 1000)) s (\<lambda>_.
     attempt (required_uo s (uc_actor input) (uc_id input)) s (\<lambda>r.
     attempt (ensure (\<not> (case js_get (us_submissions s) (preparationKey_uo (uc_actor input) (uc_key input)) of None \<Rightarrow> False
            | Some used \<Rightarrow> used \<noteq> uc_id input)) conflict_uo) s (\<lambda>_.
     attempt (claimed_uo r (input\<lparr>uc_now := clock 1\<rparr>) (defaultCodec V)) s (\<lambda>(first, dispatch).
     if \<not> dispatch then (Inr (first, False), s)
     else
       attempt (dispatchRecord r input) s (\<lambda>fresh.
       attempt (binding fresh (clock 2 div 1000)) s (\<lambda>_.
       attempt (ensure (\<not> (case js_get (us_nonces s) (nonceKey_uo r) of None \<Rightarrow> False
              | Some reservation \<Rightarrow> nb_id reservation \<noteq> ur_id r \<or> \<not> same (nb_commitment reservation) (uc_signedCommitment input)))
          (fail_uo ''USER_OPERATION_NONCE_CONFLICT'' ''The full sender nonce is permanently reserved by another UserOperation.'' 409)) s (\<lambda>_.
       attempt (claimed_uo r (input\<lparr>uc_now := clock 3\<rparr>) (defaultCodec V)) s (\<lambda>(result, dispatch).
       attempt (cloneRecord_uo result) s (\<lambda>stored.
       invoke (claim_transport (ur_planId r) (ur_stepIndexes r) Erc4337 (ur_id r) (us_transports s))
         (\<lambda>t. s\<lparr>us_transports := t\<rparr>) (\<lambda>_ s1.
       (Inr (result, dispatch),
        s1\<lparr>us_nonces := js_set (nonceKey_uo r) \<lparr>nb_id = ur_id r, nb_commitment = uc_signedCommitment input\<rparr> (us_nonces s1),
           us_submissions := js_set (preparationKey_uo (uc_actor input) (uc_key input)) (ur_id r) (us_submissions s1),
           us_records := js_set (ur_id r) stored (us_records s1)\<rparr>)))))))))))))"

definition settle_uo ::
  "string \<Rightarrow> string \<Rightarrow> UserOperationState \<Rightarrow> UserOperationStore \<Rightarrow> UserOperationRecord res \<times> UserOperationStore" where
  "settle_uo i commitment state s =
     attempt (assertText i) s (\<lambda>_.
     case js_get (us_records s) i of
       None \<Rightarrow> (Inl missing_uo, s)
     | Some r \<Rightarrow>
         attempt (settled_uo r commitment state) s (\<lambda>r'.
         let s1 = s\<lparr>us_records := js_set i r' (us_records s)\<rparr> in
         attempt (cloneRecord_uo r') s1 (\<lambda>c. (Inr c, s1))))"

definition observe_uo ::
  "string \<Rightarrow> int \<Rightarrow> UserOperationObservation \<Rightarrow> UserOperationStore \<Rightarrow> UserOperationRecord res \<times> UserOperationStore" where
  "observe_uo i revision observation s =
     attempt (assertText i) s (\<lambda>_.
     case js_get (us_records s) i of
       None \<Rightarrow> (Inl missing_uo, s)
     | Some r \<Rightarrow>
         attempt (clone_uo json_of_Observation observation) s (\<lambda>observation.
         attempt (observed_uo r revision observation) s (\<lambda>r'.
         let s1 = (if ur_state r' = UExpired then s\<lparr>us_nonces := js_delete (nonceKey_uo r') (us_nonces s)\<rparr> else s);
             s2 = s1\<lparr>us_records := js_set i r' (us_records s1)\<rparr> in
         attempt (cloneRecord_uo r') s2 (\<lambda>c. (Inr c, s2)))))"

definition afterCursor :: "ListCursor option \<Rightarrow> UserOperationRecord \<Rightarrow> bool" where
  "afterCursor after r \<longleftrightarrow> (case after of None \<Rightarrow> True
     | Some c \<Rightarrow> ur_createdAt r > cu_createdAt c \<or> ur_createdAt r = cu_createdAt c \<and> \<not> bytes_le (ur_id r) (cu_id c))"

text \<open>Identifiers compare by UTF-16 units in the source and by bytes here, which agree on ASCII identifiers.\<close>

definition recoverable_uo :: "int \<Rightarrow> string option \<Rightarrow> UserOperationStore \<Rightarrow> UserOperationRecord list res" where
  "recoverable_uo limit cursor s =
     bindR (assertLimit_uo limit) (\<lambda>_.
     bindR (readCursor cursor) (\<lambda>after.
     clone_uo (\<lambda>rs. JArr (map json_of_UserOperationRecord rs)) (take (nat limit)
       (sort_by (\<lambda>a b. ur_createdAt a < ur_createdAt b \<or> ur_createdAt a = ur_createdAt b \<and> bytes_le (ur_id a) (ur_id b))
         (filter (\<lambda>r. isRecoverable_uo r \<and> afterCursor after r) (js_values (us_records s)))))))"

end
