(* ===== verification/UserOperationInvariants.thy ===== *)
theory UserOperationInvariants
  imports UserOperationMemory Revisioned SponsorshipInvariants
begin

text \<open>
  Histories of user operation records (an instance of \<open>revisioned\<close>), the invariant of the in-memory store
  and its runs: a published operation owns the transport of its steps, a published operation that has
  not expired owns its sender nonce, preparation and publication keys are unique per actor.
\<close>

section \<open>How a record changes\<close>

lemma clone_uo_Inr [res_simps]: "clone_uo j v = Inr w \<longleftrightarrow> w = v \<and> (\<exists>t. canonical (j v) = Inr t \<and> length t \<le> bytes_uo)"
  by (auto simp: clone_uo_def bindR_eq_Inr ensure_eq_Inr)

inductive uo_change :: "UserOperationCodec \<Rightarrow> UserOperationRecord \<Rightarrow> UserOperationRecord \<Rightarrow> bool" for codec where
  Claimed: "claimed_uo r input codec = Inr (r', dispatch) \<Longrightarrow> uo_change codec r r'"
| Settled: "settled_uo r commitment state = Inr r' \<Longrightarrow> uo_change codec r r'"
| Observed: "observed_uo r revision observation = Inr r' \<Longrightarrow> uo_change codec r r'"

text \<open>What was reviewed when the operation was prepared.\<close>

definition uo_identity :: "UserOperationRecord \<Rightarrow> UserOperationRecord" where
  "uo_identity r = r\<lparr>ur_revision := 0, ur_state := UPrepared, ur_submission := None, ur_observation := None\<rparr>"

lemma uo_identityD: "uo_identity r' = uo_identity r \<Longrightarrow>
    ur_id r' = ur_id r \<and> ur_actor r' = ur_actor r \<and> ur_planId r' = ur_planId r \<and> ur_stepIndexes r' = ur_stepIndexes r \<and>
    ur_chainId r' = ur_chainId r \<and> ur_sender r' = ur_sender r \<and> ur_entryPoint r' = ur_entryPoint r \<and> ur_operation r' = ur_operation r \<and>
    ur_operationHash r' = ur_operationHash r \<and> ur_preparationKey r' = ur_preparationKey r \<and> ur_inputHash r' = ur_inputHash r \<and>
    ur_session r' = ur_session r \<and> ur_expiresAt r' = ur_expiresAt r"
  by (cases r; cases r') (simp add: uo_identity_def)

text \<open>The signed operation is the reviewed one: equal but for the signature, with the reviewed hash.\<close>

definition signedFor :: "UserOperationCodec \<Rightarrow> UserOperationRecord \<Rightarrow> UserOperationV07 \<Rightarrow> string \<Rightarrow> bool" where
  "signedFor codec r operation commitment \<longleftrightarrow>
     canonical (unsigned operation) = canonical (unsigned (ur_operation r)) \<and> uo_signature operation \<noteq> ''0x'' \<and>
     co_signedCommitment codec operation (ur_chainId r) (ur_entryPoint r) = Inr commitment \<and>
     (\<exists>hash. co_hash codec operation (ur_chainId r) (ur_entryPoint r) = Inr hash \<and> same hash (ur_operationHash r))"

definition publishedRecord :: "UserOperationRecord \<Rightarrow> UserOperationClaim \<Rightarrow> UserOperationV07 \<Rightarrow> string \<Rightarrow> UserOperationRecord" where
  "publishedRecord r input operation commitment = r\<lparr>ur_revision := ur_revision r + 1, ur_state := USubmitting,
     ur_submission := Some \<lparr>um_key = uc_key input, um_commitment = commitment, um_operation = operation,
       um_startedAt = uc_now input,
       um_sessionObservationHash = (if ur_session r = None then None else uc_sessionObservationHash input)\<rparr>\<rparr>"

lemma claimed_uo_cases:
  assumes "claimed_uo r input codec = Inr (r', dispatch)"
  obtains (replay) b where "ur_submission r = Some b" "r' = r" "\<not> dispatch" "ur_actor r = uc_actor input"
  | (fresh) operation commitment where "ur_submission r = None" "ur_state r = UPrepared" "uc_now input < ur_expiresAt r" "dispatch"
      "ur_actor r = uc_actor input" "assertDispatchAuthorization (uc_authorization input) (uc_now input) = Inr ()"
      "co_parse codec (json_of_UserOperationV07 (uc_operation input)) = Inr operation"
      "signedFor codec r operation commitment" "same commitment (uc_signedCommitment input)"
      "r' = publishedRecord r input operation commitment" "cloneRecord_uo r' = Inr r'"
proof -
  obtain operation commitment where o: "owns_uo r (uc_actor input)" "co_parse codec (json_of_UserOperationV07 (uc_operation input)) = Inr operation"
    "signedFor codec r operation commitment" "same commitment (uc_signedCommitment input)"
    using assms by (auto simp: claimed_uo_def signedFor_def bindR_eq_Inr ensure_eq_Inr)
  have own: "ur_actor r = uc_actor input" using o(1) by (auto simp: owns_uo_def intro: RestActor.equality)
  show thesis
  proof (cases "ur_submission r")
    case (Some b)
    with assms own show thesis by (intro replay) (auto simp: claimed_uo_def bindR_eq_Inr clone_uo_Inr)
  next
    case None
    have c: "co_signedCommitment codec operation (ur_chainId r) (ur_entryPoint r) = Inr commitment" using o(3) by (simp add: signedFor_def)
    show thesis using assms None o(2) c
      by (intro fresh [OF None _ _ _ own _ o(2,3,4)])
        (auto simp: claimed_uo_def bindR_eq_Inr ensure_eq_Inr clone_uo_Inr publishedRecord_def)
  qed
qed

lemma settled_uo_cases:
  assumes "settled_uo r commitment state = Inr r'"
  obtains (unchanged) b where "ur_submission r = Some b" "same (um_commitment b) commitment" "r' = r"
  | (settled) b where "ur_submission r = Some b" "same (um_commitment b) commitment" "ur_observation r = None" "ur_state r \<noteq> state"
      "state = UPending \<or> state = USubmissionUnknown" "r' = r\<lparr>ur_state := state, ur_revision := ur_revision r + 1\<rparr>"
proof -
  obtain b where b: "ur_submission r = Some b" "same (um_commitment b) commitment" "state = UPending \<or> state = USubmissionUnknown"
    using assms by (auto simp: settled_uo_def bindR_eq_Inr ensure_eq_Inr split: option.splits)
  show thesis
  proof (cases "ur_observation r \<noteq> None \<or> ur_state r = state")
    case True
    with assms have "r' = r" by (auto simp: settled_uo_def bindR_eq_Inr clone_uo_Inr)
    with unchanged [OF b(1,2)] show thesis .
  next
    case False
    with assms have "r' = r\<lparr>ur_state := state, ur_revision := ur_revision r + 1\<rparr>" by (simp add: settled_uo_def bindR_eq_Inr clone_uo_Inr)
    with settled [OF b(1,2)] False b(3) show thesis by simp
  qed
qed

lemma observed_uo_Inr:
  assumes "observed_uo r revision b = Inr r'"
  shows "ur_revision r = revision \<and> ur_state r \<noteq> UExpired \<and> ur_submission r \<noteq> None \<and> observationState (ub_state b) \<and>
    same (ub_operationHash b) (ur_operationHash r) \<and> checkObservation b = Inr () \<and>
    r' = r\<lparr>ur_state := ub_state b, ur_revision := ur_revision r + 1, ur_observation := Some b\<rparr> \<and> cloneRecord_uo r' = Inr r'"
  using assms by (auto simp: observed_uo_def bindR_eq_Inr ensure_eq_Inr clone_uo_Inr)

lemma uo_change_revision: "uo_change codec r r' \<Longrightarrow> uo_identity r' = uo_identity r \<and> (r' = r \<or> ur_revision r' = ur_revision r + 1)"
proof (induction rule: uo_change.induct)
  case (Claimed r input r' dispatch)
  then show ?case by (cases rule: claimed_uo_cases) (simp_all add: uo_identity_def publishedRecord_def)
next
  case (Settled r commitment state r')
  then show ?case by (cases rule: settled_uo_cases) (simp_all add: uo_identity_def)
next
  case (Observed r revision b r')
  from observed_uo_Inr [OF this] show ?case by (simp add: uo_identity_def)
qed

interpretation uo_history: revisioned ur_revision uo_identity "\<lambda>_. True" "uo_change codec" for codec
  by unfold_locales (auto dest: uo_change_revision)

lemma uo_change_submission: "uo_change codec r r' \<Longrightarrow> ur_submission r = Some b \<Longrightarrow> ur_submission r' = Some b"
proof (induction rule: uo_change.induct)
  case (Claimed r input r' dispatch)
  from Claimed(1) show ?case by (cases rule: claimed_uo_cases) (use Claimed(2) in simp_all)
next
  case (Settled r commitment state r')
  from Settled(1) show ?case by (cases rule: settled_uo_cases) (use Settled(2) in simp_all)
next
  case (Observed r revision b' r')
  from observed_uo_Inr [OF Observed(1)] Observed(2) show ?case by simp
qed

lemma uo_history_submission: "(uo_change codec)\<^sup>*\<^sup>* r r' \<Longrightarrow> ur_submission r = Some b \<Longrightarrow> ur_submission r' = Some b"
  by (induction rule: rtranclp_induct) (auto dest: uo_change_submission)

text \<open>State, submission and evidence of a record fit together.\<close>

definition recordOk :: "UserOperationRecord \<Rightarrow> bool" where
  "recordOk r \<longleftrightarrow>
     (if ur_submission r = None then ur_state r = UPrepared \<and> ur_observation r = None
      else case ur_observation r of
             None \<Rightarrow> ur_state r \<in> {USubmitting, UPending, USubmissionUnknown}
           | Some b \<Rightarrow> ur_state r = ub_state b \<and> observationState (ub_state b) \<and> checkObservation b = Inr () \<and>
               same (ub_operationHash b) (ur_operationHash r))"

lemma recordOk_change: "uo_change codec r r' \<Longrightarrow> recordOk r \<Longrightarrow> recordOk r'"
proof (induction rule: uo_change.induct)
  case (Claimed r input r' dispatch)
  from Claimed(1) show ?case by (cases rule: claimed_uo_cases) (use Claimed(2) in \<open>auto simp: recordOk_def publishedRecord_def\<close>)
next
  case (Settled r commitment state r')
  from Settled(1) show ?case by (cases rule: settled_uo_cases) (use Settled(2) in \<open>auto simp: recordOk_def\<close>)
next
  case (Observed r revision b r')
  from observed_uo_Inr [OF Observed(1)] show ?case by (auto simp: recordOk_def)
qed

lemma recordOk_history: "(uo_change codec)\<^sup>*\<^sup>* r r' \<Longrightarrow> recordOk r \<Longrightarrow> recordOk r'"
  by (induction rule: rtranclp_induct) (auto dest: recordOk_change)

lemma expired_change: "uo_change codec r r' \<Longrightarrow> recordOk r \<Longrightarrow> ur_state r = UExpired \<Longrightarrow> r' = r"
proof (induction rule: uo_change.induct)
  case (Claimed r input r' dispatch)
  from Claimed(1) show ?case by (cases rule: claimed_uo_cases) (use Claimed(3) in simp_all)
next
  case (Settled r commitment state r')
  have "ur_observation r \<noteq> None" using Settled(2,3) by (auto simp: recordOk_def split: if_splits option.splits)
  with Settled(1) show ?case by (cases rule: settled_uo_cases) simp_all
next
  case (Observed r revision b r')
  from observed_uo_Inr [OF Observed(1)] Observed(3) show ?case by simp
qed

lemma expired_history: "(uo_change codec)\<^sup>*\<^sup>* r r' \<Longrightarrow> recordOk r \<Longrightarrow> ur_state r = UExpired \<Longrightarrow> r' = r"
proof (induction rule: rtranclp_induct)
  case (step y z)
  then show ?case using expired_change [OF step(2)] by simp
qed simp

section \<open>Operations\<close>

lemma required_uo_Inr: "required_uo s actor i = Inr r \<Longrightarrow> js_get (us_records s) i = Some r \<and> ur_actor r = actor"
  by (auto simp: required_uo_def bindR_eq_Inr owns_uo_def intro: RestActor.equality split: option.splits if_splits)

lemma claim_uo_Inr:
  assumes "claim_uo V authority binding clock input s = (Inr (r', dispatch), s')"
  obtains (replay) r b where "js_get (us_records s) (uc_id input) = Some r" "ur_submission r = Some b" "r' = r" "\<not> dispatch" "s' = s"
  | (fresh) r t operation commitment where "js_get (us_records s) (uc_id input) = Some r" "authority (uc_actor input) [Relay] (clock 0 div 1000) = Inr ()"
      "ur_actor r = uc_actor input"
      "js_get (us_submissions s) (preparationKey_uo (uc_actor input) (uc_key input)) \<in> {None, Some (uc_id input)}"
      "\<exists>fresh. dispatchRecord r input = Inr fresh \<and> binding fresh (clock 2 div 1000) = Inr ()"
      "\<forall>b. js_get (us_nonces s) (nonceKey_uo r) = Some b \<longrightarrow> nb_id b = ur_id r"
      "ur_submission r = None" "ur_state r = UPrepared" "clock 3 < ur_expiresAt r"
      "signedFor (defaultCodec V) r operation commitment" "same commitment (uc_signedCommitment input)"
      "claimed_uo r (input\<lparr>uc_now := clock 3\<rparr>) (defaultCodec V) = Inr (r', dispatch)"
      "r' = publishedRecord r (input\<lparr>uc_now := clock 3\<rparr>) operation commitment" "dispatch"
      "claim_transport (ur_planId r) (ur_stepIndexes r) Erc4337 (ur_id r) (us_transports s) = (Inr (), t)"
      "s' = s\<lparr>us_transports := t, us_nonces := js_set (nonceKey_uo r) \<lparr>nb_id = ur_id r, nb_commitment = uc_signedCommitment input\<rparr> (us_nonces s),
           us_submissions := js_set (preparationKey_uo (uc_actor input) (uc_key input)) (ur_id r) (us_submissions s),
           us_records := js_set (ur_id r) r' (us_records s)\<rparr>"
proof -
  from assms obtain r first dispatch1 where r: "required_uo s (uc_actor input) (uc_id input) = Inr r"
    "authority (uc_actor input) [Relay] (clock 0 div 1000) = Inr ()"
    "\<not> (case js_get (us_submissions s) (preparationKey_uo (uc_actor input) (uc_key input)) of None \<Rightarrow> False | Some used \<Rightarrow> used \<noteq> uc_id input)"
    "claimed_uo r (input\<lparr>uc_now := clock 1\<rparr>) (defaultCodec V) = Inr (first, dispatch1)"
    and rest: "(if \<not> dispatch1 then (Inr (first, False), s)
     else
       attempt (dispatchRecord r input) s (\<lambda>fresh.
       attempt (binding fresh (clock 2 div 1000)) s (\<lambda>_.
       attempt (ensure (\<not> (case js_get (us_nonces s) (nonceKey_uo r) of None \<Rightarrow> False
              | Some reservation \<Rightarrow> nb_id reservation \<noteq> ur_id r \<or> \<not> same (nb_commitment reservation) (uc_signedCommitment input)))
          (fail_uo ''USER_OPERATION_NONCE_CONFLICT'' ''The full sender nonce is permanently reserved by another UserOperation.'' 409)) s (\<lambda>_.
       attempt (claimed_uo r (input\<lparr>uc_now := clock 3\<rparr>) (defaultCodec V)) s (\<lambda>(result, dispatch).
       attempt (cloneRecord_uo result) s (\<lambda>stored.
       invoke (claim_transport (ur_planId r) (ur_stepIndexes r) Erc4337 (ur_id r) (us_transports s))
         (\<lambda>t. s\<lparr>us_transports := t\<rparr>) (\<lambda>_ s1.
       (Inr (result, dispatch),
        s1\<lparr>us_nonces := js_set (nonceKey_uo r) \<lparr>nb_id = ur_id r, nb_commitment = uc_signedCommitment input\<rparr> (us_nonces s1),
           us_submissions := js_set (preparationKey_uo (uc_actor input) (uc_key input)) (ur_id r) (us_submissions s1),
           us_records := js_set (ur_id r) stored (us_records s1)\<rparr>)))))))) = (Inr (r', dispatch), s')"
    unfolding claim_uo_def attempt_eq_Inr ensure_eq_Inr clone_uo_Inr by (elim exE conjE) (auto split: prod.splits)
  note req = required_uo_Inr [OF r(1)]
  from r(4) show thesis
  proof (cases rule: claimed_uo_cases)
    case (replay b)
    then show thesis using rest req by (intro that(1) [of r b]) simp_all
  next
    case c: (fresh operation0 commitment0)
    from rest c(4) obtain fresh result t where x: "dispatchRecord r input = Inr fresh" "binding fresh (clock 2 div 1000) = Inr ()"
      "\<not> (case js_get (us_nonces s) (nonceKey_uo r) of None \<Rightarrow> False
          | Some reservation \<Rightarrow> nb_id reservation \<noteq> ur_id r \<or> \<not> same (nb_commitment reservation) (uc_signedCommitment input))"
      "claimed_uo r (input\<lparr>uc_now := clock 3\<rparr>) (defaultCodec V) = Inr (r', dispatch)"
      "claim_transport (ur_planId r) (ur_stepIndexes r) Erc4337 (ur_id r) (us_transports s) = (Inr (), t)"
      "s' = s\<lparr>us_transports := t, us_nonces := js_set (nonceKey_uo r) \<lparr>nb_id = ur_id r, nb_commitment = uc_signedCommitment input\<rparr> (us_nonces s),
           us_submissions := js_set (preparationKey_uo (uc_actor input) (uc_key input)) (ur_id r) (us_submissions s),
           us_records := js_set (ur_id r) r' (us_records s)\<rparr>"
      by (auto simp: attempt_eq_Inr invoke_eq_Inr ensure_eq_Inr clone_uo_Inr split: prod.splits)
    have used: "js_get (us_submissions s) (preparationKey_uo (uc_actor input) (uc_key input)) \<in> {None, Some (uc_id input)}"
      using r(3) by (cases "js_get (us_submissions s) (preparationKey_uo (uc_actor input) (uc_key input))") auto
    have non: "\<forall>b. js_get (us_nonces s) (nonceKey_uo r) = Some b \<longrightarrow> nb_id b = ur_id r" using x(3) by (auto split: option.splits)
    from x(4) show thesis
    proof (cases rule: claimed_uo_cases)
      case (fresh operation commitment)
      then show thesis using that(2) [of r operation commitment t] req r(2) used non x by simp
    qed (use c(1) in simp)
  qed
qed

lemma claim_uo_Inl: "claim_uo V authority binding clock input s = (Inl e, s') \<Longrightarrow> s' = s"
  by (auto simp: claim_uo_def attempt_eq_Inl invoke_eq_Inl split: prod.splits if_splits dest: claim_transport_Inl)

lemma create_uo_Inr:
  assumes "create_uo V authority binding clock input now s = (Inr r, s')"
  obtains (existing) "s' = s"
  | (fresh) "js_get (us_preparations s) (preparationKey_uo (ur_actor input) (ur_preparationKey input)) = None"
      "js_get (us_records s) (ur_id input) = None" "r = input" "assertNew_uo input now (defaultCodec V) = Inr ()"
      "count_values (\<lambda>x. accountId (ur_actor x) = accountId (ur_actor input)) (us_records s) < recordsPerAccount_uo"
      "s' = s\<lparr>us_preparations := js_set (preparationKey_uo (ur_actor input) (ur_preparationKey input)) (ur_id input) (us_preparations s),
             us_records := js_set (ur_id input) input (us_records s)\<rparr>"
proof (cases "js_get (us_preparations s) (preparationKey_uo (ur_actor input) (ur_preparationKey input))")
  case None
  with assms have "js_get (us_records s) (ur_id input) = None \<and> r = input \<and> assertNew_uo input now (defaultCodec V) = Inr () \<and>
      count_values (\<lambda>x. accountId (ur_actor x) = accountId (ur_actor input)) (us_records s) < recordsPerAccount_uo \<and>
      s' = s\<lparr>us_preparations := js_set (preparationKey_uo (ur_actor input) (ur_preparationKey input)) (ur_id input) (us_preparations s),
             us_records := js_set (ur_id input) input (us_records s)\<rparr>"
    by (auto simp: create_uo_def Let_def attempt_eq_Inr ensure_eq_Inr clone_uo_Inr)
  then show thesis using None by (elim conjE) (rule fresh)
next
  case (Some x)
  with assms have "s' = s" by (auto simp: create_uo_def attempt_eq_Inr clone_uo_Inr)
  then show thesis by (rule existing)
qed

lemma create_uo_Inl:
  assumes "create_uo V authority binding clock input now s = (Inl e, s')"
  shows "s' = s"
proof -
  have c: "cloneRecord_uo r = Inr r" if "cloneRecord_uo input = Inr r" for r using that by (auto simp: clone_uo_Inr)
  show ?thesis using assms by (auto simp: create_uo_def Let_def attempt_eq_Inl dest: c split: option.splits)
qed

lemma settle_uo_Inr:
  assumes "settle_uo i commitment state s = (Inr r', s')"
  obtains r where "js_get (us_records s) i = Some r" "settled_uo r commitment state = Inr r'" "s' = s\<lparr>us_records := js_set i r' (us_records s)\<rparr>"
  using assms by (auto simp: settle_uo_def Let_def attempt_eq_Inr clone_uo_Inr split: option.splits)

lemma settled_uo_clones: "settled_uo r commitment state = Inr r' \<Longrightarrow> cloneRecord_uo r' = Inr r'"
  by (auto simp: settled_uo_def bindR_eq_Inr clone_uo_Inr split: if_splits)

lemma settle_uo_Inl: "settle_uo i commitment state s = (Inl e, s') \<Longrightarrow> s' = s"
  by (auto simp: settle_uo_def Let_def attempt_eq_Inl settled_uo_clones split: option.splits)

lemma observe_uo_Inr:
  assumes "observe_uo i revision b s = (Inr r', s')"
  obtains r where "js_get (us_records s) i = Some r" "observed_uo r revision b = Inr r'"
    "s' = s\<lparr>us_nonces := (if ur_state r' = UExpired then js_delete (nonceKey_uo r') (us_nonces s) else us_nonces s),
           us_records := js_set i r' (us_records s)\<rparr>"
proof -
  from assms obtain r where r: "js_get (us_records s) i = Some r"
    by (auto simp: observe_uo_def attempt_eq_Inr split: option.splits)
  with assms have "observed_uo r revision b = Inr r' \<and>
    s' = s\<lparr>us_nonces := (if ur_state r' = UExpired then js_delete (nonceKey_uo r') (us_nonces s) else us_nonces s),
           us_records := js_set i r' (us_records s)\<rparr>"
    by (auto simp: observe_uo_def Let_def attempt_eq_Inr clone_uo_Inr)
  then show thesis using that r by blast
qed

lemma observe_uo_Inl: "observe_uo i revision b s = (Inl e, s') \<Longrightarrow> s' = s"
proof -
  assume a: "observe_uo i revision b s = (Inl e, s')"
  have c: "cloneRecord_uo x = Inr x" if "observed_uo r revision y = Inr x" for r x y using observed_uo_Inr [OF that] by blast
  show ?thesis using a by (auto simp: observe_uo_def Let_def attempt_eq_Inl dest: c split: option.splits)
qed

section \<open>The invariant of the store\<close>

text \<open>A nonce is held by a published operation that has not expired.\<close>

definition liveOp :: "UserOperationRecord \<Rightarrow> bool" where
  "liveOp r \<longleftrightarrow> ur_submission r \<noteq> None \<and> ur_state r \<noteq> UExpired"

text \<open>What a record owns in the other maps of the store.\<close>

definition held :: "UserOperationStore \<Rightarrow> string \<Rightarrow> UserOperationRecord \<Rightarrow> bool" where
  "held s i r \<longleftrightarrow>
     ur_id r = i \<and> recordOk r \<and>
     js_get (us_preparations s) (preparationKey_uo (ur_actor r) (ur_preparationKey r)) = Some i \<and>
     (\<forall>b. ur_submission r = Some b \<longrightarrow> js_get (us_submissions s) (preparationKey_uo (ur_actor r) (um_key b)) = Some i) \<and>
     (ur_submission r \<noteq> None \<longrightarrow>
        (\<forall>index \<in> set (ur_stepIndexes r). boundTo (us_transports s) (ur_planId r) index = Some (Erc4337, i))) \<and>
     (liveOp r \<longrightarrow> map_option nb_id (js_get (us_nonces s) (nonceKey_uo r)) = Some i)"

definition uo_inv :: "UserOperationStore \<Rightarrow> bool" where
  "uo_inv s \<longleftrightarrow> js_wf (us_records s) \<and>
     (\<forall>i r. js_get (us_records s) i = Some r \<longrightarrow> held s i r) \<and>
     (\<forall>k b. js_get (us_nonces s) k = Some b \<longrightarrow> (\<exists>r. js_get (us_records s) (nb_id b) = Some r \<and> nonceKey_uo r = k \<and> liveOp r)) \<and>
     (\<forall>a. count_values (\<lambda>r. accountId (ur_actor r) = a) (us_records s) \<le> recordsPerAccount_uo)"

lemma uo_invD:
  assumes "uo_inv s"
  shows "js_wf (us_records s)" and "js_get (us_records s) i = Some r \<Longrightarrow> held s i r"
    and "js_get (us_nonces s) k = Some b \<Longrightarrow> \<exists>r. js_get (us_records s) (nb_id b) = Some r \<and> nonceKey_uo r = k \<and> liveOp r"
    and "count_values (\<lambda>r. accountId (ur_actor r) = a) (us_records s) \<le> recordsPerAccount_uo"
  using assms unfolding uo_inv_def by blast+

lemma uo_invI:
  assumes "js_wf (us_records s)" and "\<And>i r. js_get (us_records s) i = Some r \<Longrightarrow> held s i r"
    and "\<And>k b. js_get (us_nonces s) k = Some b \<Longrightarrow> \<exists>r. js_get (us_records s) (nb_id b) = Some r \<and> nonceKey_uo r = k \<and> liveOp r"
    and "\<And>a. count_values (\<lambda>r. accountId (ur_actor r) = a) (us_records s) \<le> recordsPerAccount_uo"
  shows "uo_inv s"
  unfolding uo_inv_def using assms by blast

lemma uo_inv_empty: "uo_inv emptyUserOperationStore"
  by (simp add: uo_inv_def emptyUserOperationStore_def)

definition uo_extends :: "UserOperationCodec \<Rightarrow> UserOperationStore \<Rightarrow> UserOperationStore \<Rightarrow> bool" where
  "uo_extends codec s s' \<longleftrightarrow>
     (\<forall>p k x. boundTo (us_transports s) p k = Some x \<longrightarrow> boundTo (us_transports s') p k = Some x) \<and>
     (\<forall>i r. js_get (us_records s) i = Some r \<longrightarrow> (\<exists>r'. js_get (us_records s') i = Some r' \<and> (uo_change codec)\<^sup>*\<^sup>* r r'))"

lemma uo_extends_refl [simp]: "uo_extends codec s s"
  by (auto simp: uo_extends_def)

lemma uo_extends_trans: "uo_extends codec r s \<Longrightarrow> uo_extends codec s t \<Longrightarrow> uo_extends codec r t"
  unfolding uo_extends_def by (intro conjI; meson rtranclp_trans)

lemma nonceKey_identity: "uo_identity r' = uo_identity r \<Longrightarrow> nonceKey_uo r' = nonceKey_uo r"
  using uo_identityD [of r' r] by (simp add: nonceKey_uo_def)

text \<open>A record is replaced by a later version of itself; the other records keep what they hold.\<close>

lemma uo_update:
  assumes inv: "uo_inv s" and r: "js_get (us_records s) i = Some r" and ch: "uo_change codec r r'"
    and recs: "us_records s' = js_set i r' (us_records s)"
    and bound: "\<And>p k x. boundTo (us_transports s) p k = Some x \<Longrightarrow> boundTo (us_transports s') p k = Some x"
    and own: "held s' i r'" and others: "\<And>j x. js_get (us_records s) j = Some x \<Longrightarrow> j \<noteq> i \<Longrightarrow> held s j x \<Longrightarrow> held s' j x"
    and nonces: "\<And>k b. js_get (us_nonces s') k = Some b \<Longrightarrow> nb_id b = i \<and> k = nonceKey_uo r \<and> liveOp r' \<or>
       nb_id b \<noteq> i \<and> js_get (us_nonces s) k = Some b"
  shows "uo_inv s' \<and> uo_extends codec s s'"
proof
  have idn: "uo_identity r' = uo_identity r" using uo_change_revision [OF ch] by simp
  have get: "js_get (us_records s') = (js_get (us_records s))(i \<mapsto> r')" by (simp add: recs fun_eq_iff)
  show "uo_extends codec s s'" using bound r ch by (auto simp: uo_extends_def get)
  show "uo_inv s'"
  proof (rule uo_invI)
    show "js_wf (us_records s')" using uo_invD(1) [OF inv] by (simp add: recs)
    show "held s' j x" if "js_get (us_records s') j = Some x" for j x
      using that own others uo_invD(2) [OF inv, of j x] unfolding get by (cases "j = i") simp_all
    show "\<exists>x. js_get (us_records s') (nb_id b) = Some x \<and> nonceKey_uo x = k \<and> liveOp x" if "js_get (us_nonces s') k = Some b" for k b
      using nonces [OF that] uo_invD(3) [OF inv, of k b] nonceKey_identity [OF idn] unfolding get by auto
    show "count_values (\<lambda>x. accountId (ur_actor x) = a) (us_records s') \<le> recordsPerAccount_uo" for a
      using uo_invD(4) [OF inv, of a] count_values_replace [OF r, of "\<lambda>x. accountId (ur_actor x) = a" r'] uo_identityD [OF idn]
      unfolding recs by simp
  qed
qed

lemma held_cong:
  "us_preparations s' = us_preparations s \<Longrightarrow> us_submissions s' = us_submissions s \<Longrightarrow> us_nonces s' = us_nonces s \<Longrightarrow>
   us_transports s' = us_transports s \<Longrightarrow> held s' = held s"
  by (simp add: held_def fun_eq_iff)

lemma held_change:
  assumes "held s i r" and "uo_change codec r r'" and "ur_submission r \<noteq> None" and "liveOp r' \<longrightarrow> liveOp r"
  shows "held s i r'"
proof -
  have idn: "uo_identity r' = uo_identity r" using uo_change_revision [OF assms(2)] by simp
  have sub: "ur_submission r' = ur_submission r" using assms(3) uo_change_submission [OF assms(2)] by auto
  show ?thesis
    using assms(1,4) uo_identityD [OF idn] sub nonceKey_identity [OF idn] recordOk_change [OF assms(2)] unfolding held_def by simp
qed

lemma settle_uo_step:
  assumes inv: "uo_inv s" and o: "settle_uo i commitment state s = (r, s')"
  shows "uo_inv s' \<and> uo_extends codec s s'"
proof (cases r)
  case (Inl e)
  then show ?thesis using settle_uo_Inl o inv by fastforce
next
  case (Inr x)
  from o [unfolded Inr] obtain y where y: "js_get (us_records s) i = Some y" "settled_uo y commitment state = Inr x"
    "s' = s\<lparr>us_records := js_set i x (us_records s)\<rparr>" by (rule settle_uo_Inr)
  have ch: "uo_change codec y x" using y(2) by (rule uo_change.Settled)
  have h: "held s i y" using uo_invD(2) [OF inv y(1)] .
  have ok: "recordOk y" using h by (simp add: held_def)
  have sub: "ur_submission y \<noteq> None" using y(2) by (cases rule: settled_uo_cases) simp_all
  have live: "liveOp x \<longleftrightarrow> liveOp y"
    using y(2) by (cases rule: settled_uo_cases) (use ok in \<open>auto simp: liveOp_def recordOk_def\<close>)
  have same_rest: "held s' = held s" by (rule held_cong) (simp_all add: y(3))
  show ?thesis
  proof (rule uo_update [OF inv y(1) ch])
    show "us_records s' = js_set i x (us_records s)" by (simp add: y(3))
    show "boundTo (us_transports s) p k = Some z \<Longrightarrow> boundTo (us_transports s') p k = Some z" for p k z by (simp add: y(3))
    show "held s' i x" unfolding same_rest using held_change [OF h ch sub] live by blast
    show "held s j z \<Longrightarrow> held s' j z" for j z unfolding same_rest .
    show "nb_id b = i \<and> k = nonceKey_uo y \<and> liveOp x \<or> nb_id b \<noteq> i \<and> js_get (us_nonces s) k = Some b" if "js_get (us_nonces s') k = Some b" for k b
      using that uo_invD(3) [OF inv, of k b] y(1) live by (auto simp: y(3))
  qed
qed

lemma observe_uo_step:
  assumes inv: "uo_inv s" and o: "observe_uo i revision observation s = (r, s')"
  shows "uo_inv s' \<and> uo_extends codec s s'"
proof (cases r)
  case (Inl e)
  then show ?thesis using observe_uo_Inl o inv by fastforce
next
  case (Inr x)
  from o [unfolded Inr] obtain y where y: "js_get (us_records s) i = Some y" "observed_uo y revision observation = Inr x"
    "s' = s\<lparr>us_nonces := (if ur_state x = UExpired then js_delete (nonceKey_uo x) (us_nonces s) else us_nonces s),
           us_records := js_set i x (us_records s)\<rparr>" by (rule observe_uo_Inr)
  have ch: "uo_change codec y x" using y(2) by (rule uo_change.Observed)
  have idn: "uo_identity x = uo_identity y" using uo_change_revision [OF ch] by simp
  note k = nonceKey_identity [OF idn]
  have h: "held s i y" using uo_invD(2) [OF inv y(1)] .
  have b: "ur_submission y \<noteq> None" "liveOp y" using observed_uo_Inr [OF y(2)] by (auto simp: liveOp_def)
  have sub: "ur_submission x \<noteq> None" using b(1) uo_change_submission [OF ch] by auto
  have holder: "map_option nb_id (js_get (us_nonces s) (nonceKey_uo y)) = Some i" using h b(2) by (simp add: held_def)
  have n: "js_get (us_nonces s') k' = (if ur_state x = UExpired \<and> k' = nonceKey_uo y then None else js_get (us_nonces s) k')" for k'
    by (simp add: y(3) k)
  show ?thesis
  proof (rule uo_update [OF inv y(1) ch])
    show "us_records s' = js_set i x (us_records s)" by (simp add: y(3))
    show "boundTo (us_transports s) p k = Some z \<Longrightarrow> boundTo (us_transports s') p k = Some z" for p k z by (simp add: y(3))
    have "held s i x" using held_change [OF h ch b(1)] b(2) by blast
    then show "held s' i x" using n k by (auto simp: held_def y(3) liveOp_def)
    show "held s' j z" if z: "js_get (us_records s) j = Some z" "j \<noteq> i" "held s j z" for j z
    proof -
      have "nonceKey_uo z \<noteq> nonceKey_uo y" if "liveOp z"
        using that z(2,3) holder by (auto simp: held_def)
      then show ?thesis using z(3) n unfolding held_def by (auto simp: y(3))
    qed
    show "nb_id c = i \<and> k' = nonceKey_uo y \<and> liveOp x \<or> nb_id c \<noteq> i \<and> js_get (us_nonces s) k' = Some c" if c: "js_get (us_nonces s') k' = Some c" for k' c
    proof (cases "nb_id c = i")
      case True
      have "js_get (us_nonces s) k' = Some c" using c n by (simp split: if_splits)
      then have "nonceKey_uo y = k'" using uo_invD(3) [OF inv, of k' c] y(1) True by auto
      moreover have "ur_state x \<noteq> UExpired" using c n [of k'] \<open>nonceKey_uo y = k'\<close> by (auto split: if_splits)
      ultimately show ?thesis using True sub by (simp add: liveOp_def)
    next
      case False
      then show ?thesis using c n by (simp split: if_splits)
    qed
  qed
qed

lemma claim_uo_step:
  assumes inv: "uo_inv s" and o: "claim_uo V authority binding clock input s = (r, s')"
  shows "uo_inv s' \<and> uo_extends (defaultCodec V) s s'"
proof (cases r)
  case (Inl e)
  then show ?thesis using claim_uo_Inl o inv by fastforce
next
  case (Inr v)
  obtain x dispatch where v: "v = (x, dispatch)" by (cases v)
  from o [unfolded Inr v] show ?thesis
  proof (cases rule: claim_uo_Inr)
    case (replay y b)
    then show ?thesis using inv by simp
  next
    case (fresh y t operation commitment)
    let ?i = "uc_id input"
    have ch: "uo_change (defaultCodec V) y x" using fresh(12) by (rule uo_change.Claimed)
    have idn: "uo_identity x = uo_identity y" using uo_change_revision [OF ch] by simp
    note d = uo_identityD [OF idn] and nk = nonceKey_identity [OF idn]
    have h: "held s ?i y" using uo_invD(2) [OF inv fresh(1)] .
    have yi: "ur_id y = ?i" and oky: "recordOk y" using h by (simp_all add: held_def)
    have sub: "ur_submission x \<noteq> None" "map_option um_key (ur_submission x) = Some (uc_key input)" "ur_state x = USubmitting"
      using fresh(13) by (simp_all add: publishedRecord_def)
    have n: "js_get (us_nonces s') k = (if k = nonceKey_uo y then Some \<lparr>nb_id = ?i, nb_commitment = uc_signedCommitment input\<rparr> else js_get (us_nonces s) k)" for k
      by (simp add: fresh(16) yi)
    have m: "js_get (us_submissions s') k = (if k = preparationKey_uo (uc_actor input) (uc_key input) then Some ?i else js_get (us_submissions s) k)" for k
      by (simp add: fresh(16) yi)
    have p: "us_preparations s' = us_preparations s" and tr: "us_transports s' = t" by (simp_all add: fresh(16))
    have bound: "boundTo t q k = Some z" if "boundTo (us_transports s) q k = Some z" for q k z
      using ledger.bound_step [OF ledger.ledger_stepI [OF fresh(15)] that] .
    have mine: "boundTo t (ur_planId y) index = Some (Erc4337, ?i)" if "index \<in> set (ur_stepIndexes y)" for index
      using ledger.claim_binds [OF fresh(15), of "ur_planId y" index] that by (simp add: yi)
    show ?thesis
    proof (rule uo_update [OF inv fresh(1) ch])
      show "us_records s' = js_set ?i x (us_records s)" by (simp add: fresh(16) yi)
      show "boundTo (us_transports s) q k = Some z \<Longrightarrow> boundTo (us_transports s') q k = Some z" for q k z unfolding tr by (rule bound)
      show "held s' ?i x"
        using h d nk mine sub fresh(3) recordOk_change [OF ch oky] by (auto simp: held_def n m p tr)
      show "held s' j z" if z: "js_get (us_records s) j = Some z" "j \<noteq> ?i" "held s j z" for j z
      proof -
        have "nonceKey_uo z \<noteq> nonceKey_uo y" if "liveOp z"
          using that z(2,3) fresh(6) yi by (auto simp: held_def)
        moreover have "preparationKey_uo (ur_actor z) (um_key b) \<noteq> preparationKey_uo (uc_actor input) (uc_key input)" if "ur_submission z = Some b" for b
          using that z(2,3) fresh(4) by (auto simp: held_def)
        ultimately show ?thesis using z(3) bound unfolding held_def by (auto simp: n m p tr)
      qed
      show "nb_id c = ?i \<and> k = nonceKey_uo y \<and> liveOp x \<or> nb_id c \<noteq> ?i \<and> js_get (us_nonces s) k = Some c" if c: "js_get (us_nonces s') k = Some c" for k c
      proof (cases "k = nonceKey_uo y")
        case True
        then show ?thesis using c n sub by (auto simp: liveOp_def)
      next
        case False
        then have old: "js_get (us_nonces s) k = Some c" using c n by simp
        then show ?thesis using uo_invD(3) [OF inv old] fresh(1) fresh(7) by (auto simp: liveOp_def)
      qed
    qed
  qed
qed

lemma create_uo_step:
  assumes inv: "uo_inv s" and o: "create_uo V authority binding clock input now s = (r, s')"
  shows "uo_inv s' \<and> uo_extends codec s s'"
proof (cases r)
  case (Inl e)
  then show ?thesis using create_uo_Inl o inv by fastforce
next
  case (Inr x)
  from o [unfolded Inr] show ?thesis
  proof (cases rule: create_uo_Inr)
    case existing
    then show ?thesis using inv by simp
  next
    case fresh
    have new: "ur_submission input = None" "ur_state input = UPrepared" "ur_observation input = None"
      using fresh(4) by (auto simp: assertNew_uo_def bindR_eq_Inr ensure_eq_Inr)
    have get: "js_get (us_records s') = (js_get (us_records s))(ur_id input \<mapsto> input)" by (simp add: fresh(6) fun_eq_iff)
    have p: "js_get (us_preparations s') k = (if k = preparationKey_uo (ur_actor input) (ur_preparationKey input) then Some (ur_id input)
        else js_get (us_preparations s) k)" for k by (simp add: fresh(6))
    have rest: "us_submissions s' = us_submissions s" "us_nonces s' = us_nonces s" "us_transports s' = us_transports s" by (simp_all add: fresh(6))
    have "uo_inv s'"
    proof (rule uo_invI)
      show "js_wf (us_records s')" using uo_invD(1) [OF inv] by (simp add: fresh(6))
      show "held s' j y" if y: "js_get (us_records s') j = Some y" for j y
      proof (cases "j = ur_id input")
        case True
        then have "y = input" using y get by simp
        then show ?thesis using True new by (simp add: held_def p recordOk_def liveOp_def)
      next
        case False
        then have "held s j y" using y get uo_invD(2) [OF inv, of j y] by simp
        then show ?thesis using fresh(1) unfolding held_def rest p by auto
      qed
      show "\<exists>y. js_get (us_records s') (nb_id b) = Some y \<and> nonceKey_uo y = k \<and> liveOp y" if "js_get (us_nonces s') k = Some b" for k b
        using uo_invD(3) [OF inv, of k b] that fresh(2) unfolding rest get by (auto split: if_splits)
      show "count_values (\<lambda>y. accountId (ur_actor y) = a) (us_records s') \<le> recordsPerAccount_uo" for a
        using fresh_count [OF fresh(2) allI [OF uo_invD(4) [OF inv]] fresh(5)] by (simp add: fresh(6))
    qed
    moreover have "uo_extends codec s s'" using fresh(2) by (auto simp: uo_extends_def get rest)
    ultimately show ?thesis by blast
  qed
qed

section \<open>Runs\<close>

inductive uo_step :: "viem \<Rightarrow> UserOperationStore \<Rightarrow> UserOperationStore \<Rightarrow> bool" for V where
  Create: "create_uo V authority binding clock input now s = (r, s') \<Longrightarrow> uo_step V s s'"
| Claim: "claim_uo V authority binding clock claim s = (rd, s') \<Longrightarrow> uo_step V s s'"
| Settle: "settle_uo i commitment state s = (r, s') \<Longrightarrow> uo_step V s s'"
| Observe: "observe_uo i revision observation s = (r, s') \<Longrightarrow> uo_step V s s'"
| OtherStore: "claim_transport i indexes transport bindingId (us_transports s) = (u, t) \<Longrightarrow> uo_step V s (s\<lparr>us_transports := t\<rparr>)"

lemma uo_step_inv: "uo_step V s s' \<Longrightarrow> uo_inv s \<Longrightarrow> uo_inv s' \<and> uo_extends (defaultCodec V) s s'"
proof (induction rule: uo_step.induct)
  case (OtherStore i indexes transport bindingId s u t)
  have bound: "boundTo t p k = Some x" if "boundTo (us_transports s) p k = Some x" for p k x
    using ledger.bound_step [OF ledger.ledger_stepI [OF OtherStore(1)] that] .
  have "uo_inv (s\<lparr>us_transports := t\<rparr>)"
  proof (rule uo_invI)
    show "held (s\<lparr>us_transports := t\<rparr>) j y" if "js_get (us_records (s\<lparr>us_transports := t\<rparr>)) j = Some y" for j y
    proof -
      have "held s j y" using that uo_invD(2) [OF OtherStore(2)] by simp
      then show ?thesis using bound by (auto simp: held_def)
    qed
  qed (use uo_invD [OF OtherStore(2)] in simp_all)
  with bound show ?case by (auto simp: uo_extends_def)
qed (rule create_uo_step claim_uo_step settle_uo_step observe_uo_step; assumption)+

interpretation uo_store: evolving_store "uo_step V" uo_inv "uo_extends (defaultCodec V)" emptyUserOperationStore for V
  by unfold_locales (rule uo_step_inv uo_extends_refl uo_extends_trans uo_inv_empty; assumption)+

lemmas uo_run = uo_store.run

lemmas uo_reach = uo_store.reach

end
