(* ===== verification/UserOperationCodecProperties.thy ===== *)
theory UserOperationCodecProperties
  imports UserOperationCodec
begin

text \<open>
  The codec of user operations: hexadecimal numbers, the normal form of an operation, the packed form and
  back, texts of bounded length, gas policies. \<open>viem_documented\<close> states what is relied on of the library;
  \<open>sampleViem\<close> is a concrete library with that behaviour.
\<close>

section \<open>Hexadecimal text\<close>

fun hexDigits :: "nat \<Rightarrow> string" where
  "hexDigits n = (if n < 16 then [hexDigitChar n] else hexDigits (n div 16) @ [hexDigitChar (n mod 16)])"

declare hexDigits.simps [simp del]

definition viem_documented :: "viem \<Rightarrow> bool" where
  "viem_documented V \<longleftrightarrow>
     (\<forall>n \<ge> 0. vi_toHex V n = ''0x'' @ hexDigits (nat n)) \<and>
     (\<forall>d size. list_all isLowerHexDigit d \<and> length d \<le> 2 * size \<longrightarrow>
        vi_padHex V (''0x'' @ d) size = Inr (''0x'' @ replicate (2 * size - length d) CHR ''0'' @ d)) \<and>
     (\<forall>ds. vi_concat V (map ((@) ''0x'') ds) = ''0x'' @ concat ds) \<and>
     (\<forall>a. vi_isAddress V a \<longrightarrow> hexOf 40 a \<and> vi_isAddress V (toLowerCase a))"

lemma hexNumber_snoc: "hexNumber (s @ [c]) = 16 * hexNumber s + int (hexValue (lower c))"
  by (simp add: hexNumber_def)

lemma hexNumber_Nil [simp]: "hexNumber [] = 0"
  by (simp add: hexNumber_def)

lemma hexNumber_nonneg: "0 \<le> hexNumber s"
  by (induction s rule: rev_induct) (simp_all add: hexNumber_snoc)

lemma hexNumber_zeros: "hexNumber (replicate k CHR ''0'' @ d) = hexNumber d"
proof (induction k)
  case (Suc k)
  then show ?case by (simp add: hexNumber_def lower_def isUpper_def hexValue_def code_def)
qed simp

lemma lower_hex_digit: "isLowerHexDigit c \<Longrightarrow> lower c = c \<and> hexDigitChar (hexValue c) = c \<and> hexValue c < 16"
  by (auto simp: isLowerHexDigit_def isDigit_def lower_def isUpper_def hexValue_def hexDigitChar_def)

lemma hexNumber_pos: "list_all isLowerHexDigit s \<Longrightarrow> s \<noteq> [] \<Longrightarrow> hd s \<noteq> CHR ''0'' \<Longrightarrow> 16 ^ (length s - 1) \<le> hexNumber s"
proof (induction s rule: rev_induct)
  case (snoc c s)
  show ?case
  proof (cases s)
    case Nil
    have "hexValue c \<noteq> 0"
    proof
      assume "hexValue c = 0"
      then have "code c = code (CHR ''0'')" using snoc.prems Nil
        by (auto simp: hexValue_def isLowerHexDigit_def isDigit_def code_def split: if_splits)
      then show False using snoc.prems Nil by (simp add: char_eq_code)
    qed
    then show ?thesis using Nil snoc.prems lower_hex_digit [of c] by (simp add: hexNumber_def)
  next
    case (Cons a as)
    then have "16 ^ (length s - 1) \<le> hexNumber s" using snoc by simp
    moreover have "(16::int) ^ length s = 16 * 16 ^ (length s - 1)" using Cons by simp
    ultimately show ?thesis unfolding hexNumber_snoc by simp
  qed
qed simp

lemma hexDigits_hexNumber:
  "list_all isLowerHexDigit s \<Longrightarrow> s \<noteq> [] \<Longrightarrow> s = ''0'' \<or> hd s \<noteq> CHR ''0'' \<Longrightarrow> hexDigits (nat (hexNumber s)) = s"
proof (induction s rule: rev_induct)
  case (snoc c s)
  have c: "lower c = c" "hexDigitChar (hexValue c) = c" "hexValue c < 16" using snoc.prems lower_hex_digit by simp_all
  show ?case
  proof (cases "s = []")
    case True
    then show ?thesis using c by (simp add: hexNumber_def hexDigits.simps)
  next
    case False
    then have hd: "hd s \<noteq> CHR ''0''" and d: "list_all isLowerHexDigit s" using snoc.prems by auto
    have "0 < hexNumber s" using hexNumber_pos [OF d False hd] by (rule order.strict_trans2 [rotated]) simp
    then obtain m where m: "0 < m" "hexNumber s = int m" using zero_less_imp_eq_int by blast
    have e: "nat (hexNumber (s @ [c])) = 16 * m + hexValue c" unfolding hexNumber_snoc by (simp add: m c(1))
    have ih: "hexDigits m = s" using snoc.IH [OF d False] hd by (simp add: m)
    have "(16 * m + hexValue c) div 16 = m" "(16 * m + hexValue c) mod 16 = hexValue c" "\<not> 16 * m + hexValue c < 16"
      using c(3) m(1) by simp_all
    then show ?thesis unfolding e by (subst hexDigits.simps) (simp add: ih c(2))
  qed
qed simp

section \<open>Scalars\<close>

lemma canonicalQuantity_cases:
  assumes "canonicalQuantity s"
  obtains d where "s = ''0x'' @ d" "d \<noteq> []" "list_all isLowerHexDigit d" "d = ''0'' \<or> hd d \<noteq> CHR ''0''" "length d \<le> 64"
proof
  show "s = ''0x'' @ drop 2 s" using assms append_take_drop_id [of 2 s] by (simp add: canonicalQuantity_def)
  show "drop 2 s \<noteq> []" "list_all isLowerHexDigit (drop 2 s)" "drop 2 s = ''0'' \<or> hd (drop 2 s) \<noteq> CHR ''0''"
    using assms by (auto simp: canonicalQuantity_def Let_def isLowerHexDigit_def isDigit_def code_def)
  show "length (drop 2 s) \<le> 64" using assms by (auto simp: canonicalQuantity_def Let_def simp del: length_drop)
qed

definition quantityOk :: "nat \<Rightarrow> string \<Rightarrow> bool" where
  "quantityOk bits s \<longleftrightarrow> canonicalQuantity s \<and> hexInt s < 2 ^ bits"

lemma uoQuantity_Inr: "uoQuantity v label bits = Inr n \<longleftrightarrow> (\<exists>s. v = Some (JStr s) \<and> quantityOk bits s \<and> n = hexInt s)"
  by (auto simp: uoQuantity_def quantityOk_def hexInt_def bindR_eq_Inr ensure_eq_Inr not_le split: option.splits json.splits)

lemma toHex_hexInt: "viem_documented V \<Longrightarrow> canonicalQuantity s \<Longrightarrow> vi_toHex V (hexInt s) = s"
proof -
  assume V: "viem_documented V" and q: "canonicalQuantity s"
  from q obtain d where d: "s = ''0x'' @ d" "d \<noteq> []" "list_all isLowerHexDigit d" "d = ''0'' \<or> hd d \<noteq> CHR ''0''" "length d \<le> 64"
    by (rule canonicalQuantity_cases)
  have "vi_toHex V (hexNumber d) = ''0x'' @ d"
    using V hexNumber_nonneg [of d] hexDigits_hexNumber [OF d(3,2,4)] by (simp add: viem_documented_def)
  then show ?thesis by (simp add: d(1) hexInt_def)
qed

definition bytesOk :: "nat \<Rightarrow> string \<Rightarrow> bool" where
  "bytesOk n s \<longleftrightarrow> hexBytes s \<and> (length s - 2) div 2 \<le> n \<and> toLowerCase s = s"

lemma lower_hexDigit: "isHexDigit (lower c) = isHexDigit c"
  by (auto simp: isHexDigit_def lower_def isUpper_def isDigit_def code_char_of)

lemma prefix0x: "take 2 s = ''0x'' \<Longrightarrow> s = ''0x'' @ drop 2 s"
  using append_take_drop_id [of 2 s] by simp

lemma lower0x: "toLowerCase (''0x'' @ d) = ''0x'' @ toLowerCase d"
  by (simp add: toLowerCase_def lower_def isUpper_def code_def)

lemma hexBytes_lower:
  assumes "hexBytes s"
  shows "hexBytes (toLowerCase s)"
proof -
  obtain d where d: "s = ''0x'' @ d" using prefix0x assms by (auto simp: hexBytes_def)
  show ?thesis using assms unfolding d lower0x by (auto simp: hexBytes_def toLowerCase_def list_all_iff lower_hexDigit)
qed

lemma uoBytes_Inr:
  "uoBytes v label n = Inr b \<longleftrightarrow> (\<exists>s. v = Some (JStr s) \<and> hexBytes s \<and> (length s - 2) div 2 \<le> n \<and> b = toLowerCase s)"
  by (auto simp: uoBytes_def bindR_eq_Inr ensure_eq_Inr not_less split: option.splits json.splits)

lemma uoBytes_ok: "uoBytes v label n = Inr b \<Longrightarrow> bytesOk n b"
  unfolding uoBytes_Inr by (auto simp: bytesOk_def hexBytes_lower)

lemma uoBytes_normal: "bytesOk n s \<Longrightarrow> uoBytes (Some (JStr s)) label n = Inr s"
  unfolding uoBytes_Inr by (simp add: bytesOk_def)

definition accountOk :: "viem \<Rightarrow> string \<Rightarrow> bool" where
  "accountOk V s \<longleftrightarrow> vi_isAddress V s \<and> \<not> same s zeroAccount \<and> toLowerCase s = s"

lemma uoAddress_Inr:
  "uoAddress V v label = Inr a \<longleftrightarrow> (\<exists>s. v = Some (JStr s) \<and> vi_isAddress V s \<and> \<not> same s zeroAccount \<and> a = toLowerCase s)"
  by (auto simp: uoAddress_def bindR_eq_Inr ensure_eq_Inr split: option.splits json.splits)

lemma uoAddress_ok: "viem_documented V \<Longrightarrow> uoAddress V v label = Inr a \<Longrightarrow> accountOk V a"
  unfolding uoAddress_Inr by (auto simp: accountOk_def viem_documented_def)

lemma uoAddress_normal: "accountOk V s \<Longrightarrow> uoAddress V (Some (JStr s)) label = Inr s"
  unfolding uoAddress_Inr by (simp add: accountOk_def)

lemma uoQuantity_normal: "viem_documented V \<Longrightarrow> uoQuantity v label n = Inr k \<Longrightarrow> quantityOk n (vi_toHex V k)"
  unfolding uoQuantity_Inr by (auto simp: quantityOk_def toHex_hexInt)

section \<open>Normal forms\<close>

definition factoryOk :: "viem \<Rightarrow> string option \<Rightarrow> string option \<Rightarrow> bool" where
  "factoryOk V f d \<longleftrightarrow> (case (f, d) of (None, None) \<Rightarrow> True
     | (Some a, Some b) \<Rightarrow> accountOk V a \<and> a \<noteq> ''0x0000000000000000000000000000000000007702'' \<and>
         a \<noteq> ''0x7702000000000000000000000000000000000000'' \<and> bytesOk factoryBytes b
     | _ \<Rightarrow> False)"

definition paymasterOk :: "viem \<Rightarrow> UserOperationV07 \<Rightarrow> bool" where
  "paymasterOk V op \<longleftrightarrow>
     (case (uo_paymaster op, uo_paymasterData op, uo_paymasterVerificationGasLimit op, uo_paymasterPostOpGasLimit op) of
        (None, None, None, None) \<Rightarrow> True
      | (Some a, Some b, Some v, Some p) \<Rightarrow> accountOk V a \<and> bytesOk paymasterBytes b \<and> quantityOk 128 v \<and> quantityOk 128 p
      | _ \<Rightarrow> False)"

text \<open>The operations \<^verbatim>\<open>normalizeUserOperation\<close> returns.\<close>

definition normalOp :: "viem \<Rightarrow> UserOperationV07 \<Rightarrow> bool" where
  "normalOp V op \<longleftrightarrow>
     accountOk V (uo_sender op) \<and> quantityOk 256 (uo_nonce op) \<and> bytesOk calldataBytes (uo_callData op) \<and>
     quantityOk 128 (uo_callGasLimit op) \<and> quantityOk 128 (uo_verificationGasLimit op) \<and>
     quantityOk 256 (uo_preVerificationGas op) \<and> quantityOk 128 (uo_maxFeePerGas op) \<and>
     quantityOk 128 (uo_maxPriorityFeePerGas op) \<and> bytesOk signatureBytes (uo_signature op) \<and>
     hexInt (uo_maxPriorityFeePerGas op) \<le> hexInt (uo_maxFeePerGas op) \<and>
     factoryOk V (uo_factory op) (uo_factoryData op) \<and> paymasterOk V op \<and>
     (\<exists>t. canonical (json_of_UserOperationV07 op) = Inr t \<and> length t \<le> operationBytes)"

lemma uoCanonical_Inr: "uoCanonical v = Inr t \<longleftrightarrow> canonical v = Inr t"
  by (simp add: uoCanonical_def split: sum.splits)

lemma requiredFields_ok:
  assumes "viem_documented V" and "requiredFields V fs = Inr op"
  shows "accountOk V (uo_sender op) \<and> quantityOk 256 (uo_nonce op) \<and> bytesOk calldataBytes (uo_callData op) \<and>
     quantityOk 128 (uo_callGasLimit op) \<and> quantityOk 128 (uo_verificationGasLimit op) \<and>
     quantityOk 256 (uo_preVerificationGas op) \<and> quantityOk 128 (uo_maxFeePerGas op) \<and>
     quantityOk 128 (uo_maxPriorityFeePerGas op) \<and> bytesOk signatureBytes (uo_signature op) \<and>
     uo_factory op = None \<and> uo_factoryData op = None \<and> uo_paymaster op = None \<and> uo_paymasterData op = None \<and>
     uo_paymasterVerificationGasLimit op = None \<and> uo_paymasterPostOpGasLimit op = None"
  using assms(2) uoAddress_ok [OF assms(1)] uoBytes_ok uoQuantity_normal [OF assms(1)]
  by (auto simp: requiredFields_def bindR_eq_Inr)

lemma factoryFields_ok:
  assumes "viem_documented V" and "factoryFields V fs op = Inr op'" and "uo_factory op = None" "uo_factoryData op = None"
  shows "factoryOk V (uo_factory op') (uo_factoryData op') \<and> op = op'\<lparr>uo_factory := None, uo_factoryData := None\<rparr>"
  using assms(2,3,4) uoAddress_ok [OF assms(1)] uoBytes_ok
  by (cases op) (auto simp: factoryFields_def bindR_eq_Inr ensure_eq_Inr factoryOk_def split: if_splits)

lemma paymasterFields_ok:
  assumes "viem_documented V" and "paymasterFields V fs op = Inr op'" and "uo_paymaster op = None" "uo_paymasterData op = None"
    "uo_paymasterVerificationGasLimit op = None" "uo_paymasterPostOpGasLimit op = None"
  shows "paymasterOk V op' \<and> op = op'\<lparr>uo_paymaster := None, uo_paymasterData := None,
     uo_paymasterVerificationGasLimit := None, uo_paymasterPostOpGasLimit := None\<rparr>"
  using assms(2-6) uoAddress_ok [OF assms(1)] uoBytes_ok uoQuantity_normal [OF assms(1)]
  by (cases op) (auto simp: paymasterFields_def bindR_eq_Inr paymasterOk_def split: if_splits)

lemma normalize_normal:
  assumes V: "viem_documented V" and "normalizeUserOperation V v = Inr op"
  shows "normalOp V op"
proof -
  obtain fs base op1 t where b: "requiredFields V fs = Inr base" "hexInt (uo_maxPriorityFeePerGas base) \<le> hexInt (uo_maxFeePerGas base)"
    "factoryFields V fs base = Inr op1" "paymasterFields V fs op1 = Inr op"
    "canonical (json_of_UserOperationV07 op) = Inr t" "length t \<le> operationBytes"
    using assms(2) by (cases v) (auto simp: normalizeUserOperation_def bindR_eq_Inr ensure_eq_Inr uoCanonical_Inr)
  note r = requiredFields_ok [OF V b(1)]
  have f: "factoryOk V (uo_factory op1) (uo_factoryData op1)" "base = op1\<lparr>uo_factory := None, uo_factoryData := None\<rparr>"
    using factoryFields_ok [OF V b(3)] r by simp_all
  have "uo_paymaster op1 = uo_paymaster base" "uo_paymasterData op1 = uo_paymasterData base"
    "uo_paymasterVerificationGasLimit op1 = uo_paymasterVerificationGasLimit base" "uo_paymasterPostOpGasLimit op1 = uo_paymasterPostOpGasLimit base"
    by (simp_all add: f(2))
  then have p: "paymasterOk V op" "op1 = op\<lparr>uo_paymaster := None, uo_paymasterData := None,
     uo_paymasterVerificationGasLimit := None, uo_paymasterPostOpGasLimit := None\<rparr>"
    using paymasterFields_ok [OF V b(4)] r by simp_all
  show ?thesis using r b(2,5,6) f(1) p(1) unfolding f(2) p(2) normalOp_def by simp
qed

text \<open>The normal form of an object depends on its fields only, in whatever order they come.\<close>

definition opFields :: "UserOperationV07 \<Rightarrow> (string \<times> json) list" where
  "opFields op = (case json_of_UserOperationV07 op of JObj fs \<Rightarrow> fs | _ \<Rightarrow> [])"

lemma json_opFields: "json_of_UserOperationV07 op = JObj (opFields op)"
  by (simp add: opFields_def json_of_UserOperationV07_def)

lemma opFields_required:
  "js_get (opFields op) ''sender'' = Some (JStr (uo_sender op))" "js_get (opFields op) ''nonce'' = Some (JStr (uo_nonce op))"
  "js_get (opFields op) ''callData'' = Some (JStr (uo_callData op))" "js_get (opFields op) ''callGasLimit'' = Some (JStr (uo_callGasLimit op))"
  "js_get (opFields op) ''verificationGasLimit'' = Some (JStr (uo_verificationGasLimit op))"
  "js_get (opFields op) ''preVerificationGas'' = Some (JStr (uo_preVerificationGas op))"
  "js_get (opFields op) ''maxFeePerGas'' = Some (JStr (uo_maxFeePerGas op))"
  "js_get (opFields op) ''maxPriorityFeePerGas'' = Some (JStr (uo_maxPriorityFeePerGas op))"
  "js_get (opFields op) ''signature'' = Some (JStr (uo_signature op))"
  by (simp_all add: opFields_def json_of_UserOperationV07_def)

lemma opFields_optional:
  "js_get (opFields op) ''factory'' = map_option JStr (uo_factory op)"
  "js_get (opFields op) ''factoryData'' = map_option JStr (uo_factoryData op)"
  "js_get (opFields op) ''paymaster'' = map_option JStr (uo_paymaster op)"
  "js_get (opFields op) ''paymasterData'' = map_option JStr (uo_paymasterData op)"
  "js_get (opFields op) ''paymasterVerificationGasLimit'' = map_option JStr (uo_paymasterVerificationGasLimit op)"
  "js_get (opFields op) ''paymasterPostOpGasLimit'' = map_option JStr (uo_paymasterPostOpGasLimit op)"
  unfolding opFields_def json_of_UserOperationV07_def json.case optField_def
  by (simp_all split: option.splits)

lemma opFields_keys: "f \<in> set (opFields op) \<Longrightarrow> fst f \<in> set (required @ optional)"
  by (auto simp: opFields_def json_of_UserOperationV07_def optField_def required_def optional_def split: option.splits)

lemma requiredFields_normal:
  assumes V: "viem_documented V" and n: "normalOp V op" and fs: "js_get fs = js_get (opFields op)"
  shows "requiredFields V fs = Inr (op\<lparr>uo_factory := None, uo_factoryData := None, uo_paymaster := None, uo_paymasterData := None,
     uo_paymasterVerificationGasLimit := None, uo_paymasterPostOpGasLimit := None\<rparr>)"
proof -
  have q: "uoQuantity (Some (JStr s)) label bits = Inr (hexInt s)" "vi_toHex V (hexInt s) = s" if "quantityOk bits s" for s label bits
    using that toHex_hexInt [OF V] by (auto simp: uoQuantity_Inr quantityOk_def)
  have a: "accountOk V (uo_sender op)" "quantityOk 256 (uo_nonce op)" "bytesOk calldataBytes (uo_callData op)"
    "quantityOk 128 (uo_callGasLimit op)" "quantityOk 128 (uo_verificationGasLimit op)" "quantityOk 256 (uo_preVerificationGas op)"
    "quantityOk 128 (uo_maxFeePerGas op)" "quantityOk 128 (uo_maxPriorityFeePerGas op)" "bytesOk signatureBytes (uo_signature op)"
    using n by (simp_all add: normalOp_def)
  show ?thesis
    by (cases op) (use a in \<open>simp add: requiredFields_def fs opFields_required uoAddress_normal uoBytes_normal q\<close>)
qed

lemma factoryFields_normal:
  assumes f: "factoryOk V f d" and fs: "js_get fs ''factory'' = map_option JStr f" "js_get fs ''factoryData'' = map_option JStr d"
    and op: "uo_factory op = None" "uo_factoryData op = None"
  shows "factoryFields V fs op = Inr (op\<lparr>uo_factory := f, uo_factoryData := d\<rparr>)"
proof (cases f)
  case None
  then have "d = None" using f by (cases d) (auto simp: factoryOk_def)
  then show ?thesis using None fs op by (cases op) (simp add: factoryFields_def)
next
  case (Some a)
  then obtain b where b: "d = Some b" using f by (cases d) (auto simp: factoryOk_def)
  have o: "accountOk V a" "a \<noteq> ''0x0000000000000000000000000000000000007702''" "a \<noteq> ''0x7702000000000000000000000000000000000000''"
    "bytesOk factoryBytes b" using f by (simp_all add: factoryOk_def Some b)
  then show ?thesis using fs Some b by (simp add: factoryFields_def uoAddress_normal uoBytes_normal)
qed

lemma paymasterFields_normal:
  assumes V: "viem_documented V" and p: "paymasterOk V op" and fs: "js_get fs = js_get (opFields op)"
    and base: "base = op\<lparr>uo_paymaster := None, uo_paymasterData := None, uo_paymasterVerificationGasLimit := None, uo_paymasterPostOpGasLimit := None\<rparr>"
  shows "paymasterFields V fs base = Inr op"
proof (cases "uo_paymaster op")
  case None
  then have "uo_paymasterData op = None" "uo_paymasterVerificationGasLimit op = None" "uo_paymasterPostOpGasLimit op = None"
    using p by (auto simp: paymasterOk_def split: option.splits)
  then show ?thesis using None by (cases op) (simp add: paymasterFields_def optional_def fs opFields_optional base)
next
  case (Some a)
  then obtain b v q where o: "uo_paymasterData op = Some b" "uo_paymasterVerificationGasLimit op = Some v" "uo_paymasterPostOpGasLimit op = Some q"
    "accountOk V a" "bytesOk paymasterBytes b" "quantityOk 128 v" "quantityOk 128 q"
    using p by (auto simp: paymasterOk_def split: option.splits)
  have "uoQuantity (Some (JStr s)) label 128 = Inr (hexInt s)" "vi_toHex V (hexInt s) = s" if "quantityOk 128 s" for s label
    using that toHex_hexInt [OF V] by (auto simp: uoQuantity_Inr quantityOk_def)
  then show ?thesis using Some o
    by (cases op) (simp add: paymasterFields_def optional_def fs opFields_optional uoAddress_normal uoBytes_normal base)
qed

lemma normalize_fields:
  assumes V: "viem_documented V" and n: "normalOp V op" and fs: "js_get fs = js_get (opFields op)"
  shows "normalizeUserOperation V (JObj fs) = Inr op"
proof -
  have keys: "fst f \<in> set (required @ optional)" if "f \<in> set fs" for f
  proof -
    have "js_get fs (fst f) \<noteq> None" using that by (simp add: map_of_eq_None_iff)
    then obtain v where "js_get (opFields op) (fst f) = Some v" using fs by auto
    then show ?thesis using opFields_keys [OF map_of_SomeD] by fastforce
  qed
  then have k: "\<not> list_ex (\<lambda>f. fst f \<notin> set (required @ optional)) fs" by (auto simp: list_ex_iff)
  have r: "\<not> list_ex (\<lambda>k. \<not> js_has fs k) required" by (simp add: required_def fs opFields_required)
  define base where "base = op\<lparr>uo_factory := None, uo_factoryData := None, uo_paymaster := None, uo_paymasterData := None,
     uo_paymasterVerificationGasLimit := None, uo_paymasterPostOpGasLimit := None\<rparr>"
  define op1 where "op1 = op\<lparr>uo_paymaster := None, uo_paymasterData := None,
     uo_paymasterVerificationGasLimit := None, uo_paymasterPostOpGasLimit := None\<rparr>"
  have f: "factoryFields V fs base = Inr op1"
  proof -
    have "factoryFields V fs base = Inr (base\<lparr>uo_factory := uo_factory op, uo_factoryData := uo_factoryData op\<rparr>)"
      using n by (intro factoryFields_normal) (simp_all add: normalOp_def fs opFields_optional base_def)
    then show ?thesis by (simp add: base_def op1_def)
  qed
  obtain t where t: "canonical (json_of_UserOperationV07 op) = Inr t" "length t \<le> operationBytes" using n by (auto simp: normalOp_def)
  have p: "paymasterFields V fs op1 = Inr op" using n paymasterFields_normal [OF V _ fs op1_def] by (simp add: normalOp_def)
  have c: "\<not> hexInt (uo_maxPriorityFeePerGas base) > hexInt (uo_maxFeePerGas base)" using n by (simp add: base_def normalOp_def)
  show ?thesis unfolding normalizeUserOperation_def
    using k r requiredFields_normal [OF V n fs] c f p t by (simp add: base_def [symmetric] uoCanonical_def not_less)
qed

lemma normalize_idem: "viem_documented V \<Longrightarrow> normalOp V op \<Longrightarrow> normalizeOp V op = Inr op"
  unfolding json_opFields by (rule normalize_fields) simp_all

section \<open>The packed form\<close>

definition lowerHex :: "string \<Rightarrow> bool" where "lowerHex d \<longleftrightarrow> list_all isLowerHexDigit d"

lemma lowerHex_append [simp]: "lowerHex (a @ b) \<longleftrightarrow> lowerHex a \<and> lowerHex b"
  by (simp add: lowerHex_def)

lemma lowerHex_lower: "lowerHex d \<Longrightarrow> toLowerCase d = d"
  by (induction d) (auto simp: lowerHex_def toLowerCase_def lower_hex_digit)

lemma lower_digit_hex: "isHexDigit c \<Longrightarrow> lower c = c \<Longrightarrow> isLowerHexDigit c"
proof -
  assume h: "isHexDigit c" and "lower c = c"
  then have "\<not> isUpper c" by (auto simp: lower_def isUpper_def char_of_eq split: if_splits)
  then show ?thesis using h by (auto simp: isHexDigit_def isLowerHexDigit_def isUpper_def)
qed

lemma lowerHex_iff: "lowerHex d \<longleftrightarrow> list_all isHexDigit d \<and> toLowerCase d = d"
proof
  assume "lowerHex d"
  then show "list_all isHexDigit d \<and> toLowerCase d = d"
    using lowerHex_lower by (auto simp: lowerHex_def list_all_iff isLowerHexDigit_def isHexDigit_def)
next
  assume "list_all isHexDigit d \<and> toLowerCase d = d"
  then show "lowerHex d" by (induction d) (auto simp: lowerHex_def toLowerCase_def lower_digit_hex)
qed

lemma bytesOk_iff: "bytesOk n s \<longleftrightarrow> (\<exists>d. s = ''0x'' @ d \<and> lowerHex d \<and> even (length d) \<and> length d div 2 \<le> n)"
proof
  assume a: "bytesOk n s"
  then obtain d where d: "s = ''0x'' @ d" using prefix0x by (auto simp: bytesOk_def hexBytes_def)
  have "toLowerCase d = d" using a unfolding bytesOk_def d lower0x by simp
  then show "\<exists>d. s = ''0x'' @ d \<and> lowerHex d \<and> even (length d) \<and> length d div 2 \<le> n"
    using a by (intro exI [of _ d]) (simp add: d bytesOk_def hexBytes_def lowerHex_iff)
next
  assume "\<exists>d. s = ''0x'' @ d \<and> lowerHex d \<and> even (length d) \<and> length d div 2 \<le> n"
  then obtain d where d: "s = ''0x'' @ d" "lowerHex d" "even (length d)" "length d div 2 \<le> n" by blast
  have "toLowerCase s = s" unfolding d(1) lower0x using lowerHex_lower [OF d(2)] by simp
  then show "bytesOk n s" using d(2,3,4) unfolding bytesOk_def hexBytes_def lowerHex_iff by (simp add: d(1))
qed

lemma accountOk_digits: "viem_documented V \<Longrightarrow> accountOk V a \<Longrightarrow> \<exists>d. a = ''0x'' @ d \<and> lowerHex d \<and> length d = 40"
proof -
  assume V: "viem_documented V" and a: "accountOk V a"
  then have h: "hexOf 40 a" by (auto simp: viem_documented_def accountOk_def)
  then obtain d where d: "a = ''0x'' @ d" using prefix0x by (auto simp: hexOf_def)
  have "toLowerCase d = d" using a unfolding accountOk_def d lower0x by simp
  then show ?thesis using h by (intro exI [of _ d]) (simp add: d hexOf_def lowerHex_iff)
qed

lemma quantity_word:
  assumes V: "viem_documented V" and q: "quantityOk 128 s"
  shows "\<exists>w. vi_padHex V s 16 = Inr (''0x'' @ w) \<and> lowerHex w \<and> length w = 32 \<and> hexNumber w = hexInt s"
proof -
  from q have c: "canonicalQuantity s" and b: "hexInt s < 2 ^ 128" by (simp_all add: quantityOk_def)
  from c obtain d where d: "s = ''0x'' @ d" "d \<noteq> []" "list_all isLowerHexDigit d" "d = ''0'' \<or> hd d \<noteq> CHR ''0''" "length d \<le> 64"
    by (rule canonicalQuantity_cases)
  have l: "length d \<le> 32"
  proof (cases "d = ''0''")
    case False
    then have "16 ^ (length d - 1) \<le> hexNumber d" using hexNumber_pos [OF d(3,2)] d(4) by blast
    then have "(16::int) ^ (length d - 1) < 16 ^ 32" using b by (simp add: d(1) hexInt_def)
    then have "length d - 1 < 32" by (rule power_less_imp_less_exp [rotated]) simp
    then show ?thesis by simp
  qed simp
  let ?w = "replicate (32 - length d) CHR ''0'' @ d"
  have "\<forall>d size. list_all isLowerHexDigit d \<and> length d \<le> 2 * size \<longrightarrow>
        vi_padHex V (''0x'' @ d) size = Inr (''0x'' @ replicate (2 * size - length d) CHR ''0'' @ d)"
    using V unfolding viem_documented_def by blast
  from this [rule_format, of d 16] have "vi_padHex V s 16 = Inr (''0x'' @ ?w)" using d(3) l by (simp add: d(1))
  moreover have "lowerHex ?w" using d(3) by (auto simp: lowerHex_def list_all_iff isLowerHexDigit_def isDigit_def code_def)
  ultimately show ?thesis using l by (intro exI [of _ ?w]) (simp add: hexNumber_zeros d(1) hexInt_def)
qed

lemma concat_hex: "viem_documented V \<Longrightarrow> vi_concat V (map ((@) ''0x'') ds) = ''0x'' @ concat ds"
  unfolding viem_documented_def by blast

lemma uoBytes_hex: "lowerHex d \<Longrightarrow> even (length d) \<Longrightarrow> length d div 2 \<le> n \<Longrightarrow> uoBytes (Some (JStr (''0x'' @ d))) label n = Inr (''0x'' @ d)"
  by (rule uoBytes_normal) (auto simp: bytesOk_iff)

text \<open>The two halves of a packed word.\<close>

lemma word_halves: "length a = 32 \<Longrightarrow> slice 2 34 (''0x'' @ a @ b) = a \<and> drop 34 (''0x'' @ a @ b) = b"
  by (simp add: slice_def)

definition initOf :: "UserOperationV07 \<Rightarrow> string" where
  "initOf op = (case (uo_factory op, uo_factoryData op) of (Some a, Some b) \<Rightarrow> a @ drop 2 b | _ \<Rightarrow> ''0x'')"

lemma init_packed:
  assumes V: "viem_documented V" and f: "factoryOk V (uo_factory op) (uo_factoryData op)"
  shows "(case uo_factory op of None \<Rightarrow> Inr ''0x''
       | Some factory \<Rightarrow> bindR (js_must (uo_factoryData op)) (\<lambda>factoryData. Inr (vi_concat V [factory, factoryData]))) = Inr (initOf op)"
    and "uoBytes (Some (JStr (initOf op))) label (factoryBytes + 20) = Inr (initOf op)"
    and "uo_factory op = None \<longleftrightarrow> initOf op = ''0x''" and "uo_factory op = None \<longleftrightarrow> uo_factoryData op = None"
    and "uo_factory op = Some a \<Longrightarrow> uo_factoryData op = Some b \<Longrightarrow> take 42 (initOf op) = a \<and> ''0x'' @ drop 42 (initOf op) = b \<and> 42 \<le> length (initOf op)"
proof -
  have some: "\<exists>x y. a = ''0x'' @ x \<and> b = ''0x'' @ y \<and> lowerHex x \<and> length x = 40 \<and> lowerHex y \<and> even (length y) \<and>
      length y div 2 \<le> factoryBytes" if "uo_factory op = Some a" "uo_factoryData op = Some b" for a b
    using f accountOk_digits [OF V, of a] that unfolding factoryOk_def by (auto simp: bytesOk_iff)
  show n: "uo_factory op = None \<longleftrightarrow> uo_factoryData op = None" using f by (auto simp: factoryOk_def split: option.splits)
  show "(case uo_factory op of None \<Rightarrow> Inr ''0x''
       | Some factory \<Rightarrow> bindR (js_must (uo_factoryData op)) (\<lambda>factoryData. Inr (vi_concat V [factory, factoryData]))) = Inr (initOf op)"
  proof (cases "uo_factory op")
    case (Some a)
    with n obtain b where b: "uo_factoryData op = Some b" by auto
    obtain x y where "a = ''0x'' @ x" "b = ''0x'' @ y" using some [OF Some b] by blast
    then show ?thesis using concat_hex [OF V, of "[x, y]"] by (simp add: Some b js_must_def initOf_def)
  qed (simp add: initOf_def)
  show "uoBytes (Some (JStr (initOf op))) label (factoryBytes + 20) = Inr (initOf op)"
  proof (cases "uo_factory op")
    case None
    then show ?thesis using uoBytes_hex [of "[]"] by (simp add: initOf_def lowerHex_def)
  next
    case (Some a)
    with n obtain b where b: "uo_factoryData op = Some b" by auto
    obtain x y where x: "a = ''0x'' @ x" "b = ''0x'' @ y" "lowerHex x" "length x = 40" "lowerHex y" "even (length y)"
      "length y div 2 \<le> factoryBytes" using some [OF Some b] by blast
    have "uoBytes (Some (JStr (''0x'' @ x @ y))) label (factoryBytes + 20) = Inr (''0x'' @ x @ y)"
      using x by (intro uoBytes_hex) simp_all
    then show ?thesis using x by (simp add: initOf_def Some b)
  qed
  show "uo_factory op = None \<longleftrightarrow> initOf op = ''0x''"
  proof (cases "uo_factory op")
    case (Some a)
    with n obtain b where b: "uo_factoryData op = Some b" by auto
    show ?thesis using some [OF Some b] by (auto simp: initOf_def Some b)
  qed (simp add: initOf_def)
  show "take 42 (initOf op) = a \<and> ''0x'' @ drop 42 (initOf op) = b \<and> 42 \<le> length (initOf op)"
    if "uo_factory op = Some a" "uo_factoryData op = Some b"
    using some [OF that] by (auto simp: initOf_def that)
qed

definition packedPaymaster :: "viem \<Rightarrow> UserOperationV07 \<Rightarrow> string res" where
  "packedPaymaster V op = (case uo_paymaster op of None \<Rightarrow> Inr ''0x''
       | Some paymaster \<Rightarrow>
           bindR (js_must (uo_paymasterVerificationGasLimit op)) (\<lambda>v0. bindR (vi_padHex V v0 16) (\<lambda>v1.
           bindR (js_must (uo_paymasterPostOpGasLimit op)) (\<lambda>p0. bindR (vi_padHex V p0 16) (\<lambda>p1.
           bindR (js_must (uo_paymasterData op)) (\<lambda>paymasterData.
           Inr (vi_concat V [paymaster, v1, p1, paymasterData])))))))"

lemma paymaster_packed:
  assumes V: "viem_documented V" and p: "paymasterOk V op"
  obtains (none) "uo_paymaster op = None" "uo_paymasterData op = None" "uo_paymasterVerificationGasLimit op = None"
      "uo_paymasterPostOpGasLimit op = None" "packedPaymaster V op = Inr ''0x''"
  | (some) a b v q pm where "uo_paymaster op = Some a" "uo_paymasterData op = Some b" "uo_paymasterVerificationGasLimit op = Some v"
      "uo_paymasterPostOpGasLimit op = Some q" "packedPaymaster V op = Inr pm" "106 \<le> length pm" "pm \<noteq> ''0x''"
      "\<forall>label. uoBytes (Some (JStr pm)) label (paymasterBytes + 52) = Inr pm" "take 42 pm = a" "''0x'' @ drop 106 pm = b"
      "vi_toHex V (hexNumber (slice 42 74 pm)) = v" "vi_toHex V (hexNumber (slice 74 106 pm)) = q"
proof (cases "uo_paymaster op")
  case None
  then show thesis using p by (intro none) (auto simp: paymasterOk_def packedPaymaster_def split: option.splits)
next
  case (Some a)
  then obtain b v q where o: "uo_paymasterData op = Some b" "uo_paymasterVerificationGasLimit op = Some v" "uo_paymasterPostOpGasLimit op = Some q"
    "accountOk V a" "bytesOk paymasterBytes b" "quantityOk 128 v" "quantityOk 128 q"
    using p by (auto simp: paymasterOk_def split: option.splits)
  obtain x where x: "a = ''0x'' @ x" "lowerHex x" "length x = 40" using accountOk_digits [OF V o(4)] by blast
  obtain y where y: "b = ''0x'' @ y" "lowerHex y" "even (length y)" "length y div 2 \<le> paymasterBytes" using o(5) by (auto simp: bytesOk_iff)
  obtain vw where vw: "vi_padHex V v 16 = Inr (''0x'' @ vw)" "lowerHex vw" "length vw = 32" "hexNumber vw = hexInt v"
    using quantity_word [OF V o(6)] by blast
  obtain qw where qw: "vi_padHex V q 16 = Inr (''0x'' @ qw)" "lowerHex qw" "length qw = 32" "hexNumber qw = hexInt q"
    using quantity_word [OF V o(7)] by blast
  let ?pm = "''0x'' @ x @ vw @ qw @ y"
  have c: "vi_concat V [''0x'' @ x, ''0x'' @ vw, ''0x'' @ qw, ''0x'' @ y] = ?pm" using concat_hex [OF V, of "[x, vw, qw, y]"] by simp
  have pk: "packedPaymaster V op = Inr ?pm"
    using c by (simp add: packedPaymaster_def Some o js_must_def vw(1) qw(1) x(1) y(1))
  have pb: "\<forall>label. uoBytes (Some (JStr ?pm)) label (paymasterBytes + 52) = Inr ?pm"
    using x y vw qw by (intro allI uoBytes_hex) simp_all
  have "slice 42 74 ?pm = vw" "slice 74 106 ?pm = qw" using x(3) vw(3) qw(3) by (simp_all add: slice_def)
  moreover have "canonicalQuantity v" "canonicalQuantity q" using o(6,7) by (simp_all add: quantityOk_def)
  ultimately have "vi_toHex V (hexNumber (slice 42 74 ?pm)) = v" "vi_toHex V (hexNumber (slice 74 106 ?pm)) = q"
    using vw(4) qw(4) toHex_hexInt [OF V] by simp_all
  moreover have "vw \<noteq> []" using vw(3) by auto
  ultimately show thesis using some [OF Some o(1-3) pk _ _ pb] x y vw(3) qw(3) by auto
qed

lemma fields_reordered:
  "set ([a1, a2, a3, a4, a5, a6, a7, a8, a9] @ f1 @ f2 @ p1 @ p2 @ p3 @ p4) =
   set ([a1, a2, a3, a9, a4, a5, a6, a7, a8] @ (f1 @ f2) @ (p1 @ p3 @ p4 @ p2))"
  by auto

lemma optField_key: "k' \<in> fst ` set (optField k f x) \<longleftrightarrow> k' = k \<and> x \<noteq> None"
  by (cases x) (auto simp: optField_def)

lemma distinct_optField:
  "distinct (map fst (xs @ optField k f x)) \<longleftrightarrow> distinct (map fst xs) \<and> (x \<noteq> None \<longrightarrow> k \<notin> fst ` set xs)"
  by (cases x) (auto simp: optField_def)

lemma opFields_factory:
  "js_get (opFields op) = js_get
     ([(''sender'', JStr (uo_sender op)), (''nonce'', JStr (uo_nonce op)),
         (''callData'', JStr (uo_callData op)), (''signature'', JStr (uo_signature op)),
         (''callGasLimit'', JStr (uo_callGasLimit op)), (''verificationGasLimit'', JStr (uo_verificationGasLimit op)),
         (''preVerificationGas'', JStr (uo_preVerificationGas op)), (''maxFeePerGas'', JStr (uo_maxFeePerGas op)),
         (''maxPriorityFeePerGas'', JStr (uo_maxPriorityFeePerGas op))] @
      (optField ''factory'' JStr (uo_factory op) @ optField ''factoryData'' JStr (uo_factoryData op)) @
      (optField ''paymaster'' JStr (uo_paymaster op) @
       optField ''paymasterVerificationGasLimit'' JStr (uo_paymasterVerificationGasLimit op) @
       optField ''paymasterPostOpGasLimit'' JStr (uo_paymasterPostOpGasLimit op) @ optField ''paymasterData'' JStr (uo_paymasterData op)))"
  (is "_ = js_get ?fs")
proof -
  have "distinct (map fst (opFields op))" "distinct (map fst ?fs)"
    unfolding opFields_def json_of_UserOperationV07_def json.case append_assoc [symmetric] distinct_optField
    by (simp_all add: optField_key image_Un)
  moreover have "set (opFields op) = set ?fs"
    unfolding opFields_def json_of_UserOperationV07_def json.case by (rule fields_reordered)
  ultimately show ?thesis by (simp only: map_of_inject_set)
qed

lemma pack_unpack:
  assumes V: "viem_documented V" and n: "normalOp V op"
  shows "\<exists>p. packUserOperation V op = Inr p \<and> unpackUserOperation V p = Inr op"
proof -
  have q: "quantityOk 128 (uo_callGasLimit op)" "quantityOk 128 (uo_verificationGasLimit op)" "quantityOk 128 (uo_maxFeePerGas op)"
    "quantityOk 128 (uo_maxPriorityFeePerGas op)" "canonicalQuantity (uo_nonce op)" "canonicalQuantity (uo_preVerificationGas op)"
    and f: "factoryOk V (uo_factory op) (uo_factoryData op)" and pm: "paymasterOk V op"
    using n by (simp_all add: normalOp_def quantityOk_def)
  obtain cw vw where cw: "vi_padHex V (uo_callGasLimit op) 16 = Inr (''0x'' @ cw)" "lowerHex cw" "length cw = 32" "hexNumber cw = hexInt (uo_callGasLimit op)"
    and vw: "vi_padHex V (uo_verificationGasLimit op) 16 = Inr (''0x'' @ vw)" "lowerHex vw" "length vw = 32" "hexNumber vw = hexInt (uo_verificationGasLimit op)"
    using quantity_word [OF V q(1)] quantity_word [OF V q(2)] by blast
  obtain fw pw where fw: "vi_padHex V (uo_maxFeePerGas op) 16 = Inr (''0x'' @ fw)" "lowerHex fw" "length fw = 32" "hexNumber fw = hexInt (uo_maxFeePerGas op)"
    and pw: "vi_padHex V (uo_maxPriorityFeePerGas op) 16 = Inr (''0x'' @ pw)" "lowerHex pw" "length pw = 32" "hexNumber pw = hexInt (uo_maxPriorityFeePerGas op)"
    using quantity_word [OF V q(3)] quantity_word [OF V q(4)] by blast
  have bk: "vi_toHex V (hexInt (uo_callGasLimit op)) = uo_callGasLimit op" "vi_toHex V (hexInt (uo_verificationGasLimit op)) = uo_verificationGasLimit op"
    "vi_toHex V (hexInt (uo_maxFeePerGas op)) = uo_maxFeePerGas op" "vi_toHex V (hexInt (uo_maxPriorityFeePerGas op)) = uo_maxPriorityFeePerGas op"
    "vi_toHex V (hexInt (uo_nonce op)) = uo_nonce op" "vi_toHex V (hexInt (uo_preVerificationGas op)) = uo_preVerificationGas op"
    using q toHex_hexInt [OF V] by (simp_all add: quantityOk_def)
  have cc: "vi_concat V [''0x'' @ vw, ''0x'' @ cw] = ''0x'' @ vw @ cw" "vi_concat V [''0x'' @ pw, ''0x'' @ fw] = ''0x'' @ pw @ fw"
    using concat_hex [OF V, of "[vw, cw]"] concat_hex [OF V, of "[pw, fw]"] by simp_all
  obtain pmd where pmd: "packedPaymaster V op = Inr pmd" using paymaster_packed [OF V pm] by blast
  define p where "p = \<lparr>pk_sender = uo_sender op, pk_nonce = hexInt (uo_nonce op), pk_initCode = initOf op, pk_callData = uo_callData op,
          pk_accountGasLimits = ''0x'' @ vw @ cw, pk_preVerificationGas = hexInt (uo_preVerificationGas op),
          pk_gasFees = ''0x'' @ pw @ fw, pk_paymasterAndData = pmd, pk_signature = uo_signature op\<rparr>"
  have pack: "packUserOperation V op = Inr p"
    unfolding packUserOperation_def packedPaymaster_def [symmetric]
    by (simp add: normalize_idem [OF V n] init_packed(1) [OF V f] cw(1) vw(1) fw(1) pw(1) pmd cc [simplified] p_def)
  have words: "uoBytes (Some (JStr (''0x'' @ vw @ cw))) label 32 = Inr (''0x'' @ vw @ cw)"
    "uoBytes (Some (JStr (''0x'' @ pw @ fw))) label 32 = Inr (''0x'' @ pw @ fw)" for label
    using vw cw pw fw by (intro uoBytes_hex; simp)+
  have halves: "slice 2 34 (''0x'' @ vw @ cw) = vw" "drop 34 (''0x'' @ vw @ cw) = cw" "slice 2 34 (''0x'' @ pw @ fw) = pw" "drop 34 (''0x'' @ pw @ fw) = fw"
    using word_halves vw(3) pw(3) by blast+
  have lens: "length (''0x'' @ vw @ cw) = 66" "length (''0x'' @ pw @ fw) = 66" using vw cw pw fw by simp_all
  define ifs where "ifs = (if initOf op = ''0x'' then [] else [(''factory'', JStr (take 42 (initOf op))), (''factoryData'', JStr (''0x'' @ drop 42 (initOf op)))])"
  have ifs: "ifs = optField ''factory'' JStr (uo_factory op) @ optField ''factoryData'' JStr (uo_factoryData op)"
    and ilen: "initOf op = ''0x'' \<or> 42 \<le> length (initOf op)"
    using init_packed(3,4,5) [OF V f] by (cases "uo_factory op"; cases "uo_factoryData op"; auto simp: ifs_def optField_def)+
  define pfs where "pfs = (if pmd = ''0x'' then []
         else [(''paymaster'', JStr (take 42 pmd)),
               (''paymasterVerificationGasLimit'', JStr (vi_toHex V (hexNumber (slice 42 74 pmd)))),
               (''paymasterPostOpGasLimit'', JStr (vi_toHex V (hexNumber (slice 74 106 pmd)))),
               (''paymasterData'', JStr (''0x'' @ drop 106 pmd))])"
  have pfs: "pfs = optField ''paymaster'' JStr (uo_paymaster op) @
       optField ''paymasterVerificationGasLimit'' JStr (uo_paymasterVerificationGasLimit op) @
       optField ''paymasterPostOpGasLimit'' JStr (uo_paymasterPostOpGasLimit op) @ optField ''paymasterData'' JStr (uo_paymasterData op)"
    and plen: "pmd = ''0x'' \<or> 106 \<le> length pmd" and pbytes: "uoBytes (Some (JStr pmd)) label (paymasterBytes + 52) = Inr pmd" for label
    using pmd uoBytes_hex [of "[]" "paymasterBytes + 52"]
    by (cases rule: paymaster_packed [OF V pm]; auto simp: pfs_def optField_def lowerHex_def)+
  have fields: "js_get (opFields op) = js_get ([(''sender'', JStr (uo_sender op)), (''nonce'', JStr (uo_nonce op)),
         (''callData'', JStr (uo_callData op)), (''signature'', JStr (uo_signature op)),
         (''callGasLimit'', JStr (uo_callGasLimit op)), (''verificationGasLimit'', JStr (uo_verificationGasLimit op)),
         (''preVerificationGas'', JStr (uo_preVerificationGas op)), (''maxFeePerGas'', JStr (uo_maxFeePerGas op)),
         (''maxPriorityFeePerGas'', JStr (uo_maxPriorityFeePerGas op))] @ ifs @ pfs)"
    unfolding opFields_factory ifs pfs ..
  note norm = normalize_fields [OF V n fields [symmetric]]
  have "unpackUserOperation V p = Inr op"
    using norm ilen plen
    by (simp only: unpackUserOperation_def p_def PackedUserOperationV07.simps words init_packed(2) [OF V f] pbytes bindR_simps
        ifs_def [symmetric] pfs_def [symmetric] halves cw(4) vw(4) fw(4) pw(4) bk lens)
      (auto simp: not_less)
  with pack show ?thesis by blast
qed

text \<open>
  C23. Packing loses nothing. Whatever operation is accepted, packing it for the entry point succeeds, and unpacking the result gives
  the normalized operation; normalizing that again changes nothing, so there is one text per operation.
\<close>

theorem user_operation_packing_roundtrip:
  assumes "viem_documented V" and "normalizeOp V v = Inr op"
  shows "(\<exists>p. packUserOperation V v = Inr p \<and> unpackUserOperation V p = Inr op) \<and> normalizeOp V op = Inr op"
proof -
  note n = normalize_normal [OF assms]
  have "packUserOperation V v = packUserOperation V op"
    unfolding packUserOperation_def assms(2) normalize_idem [OF assms(1) n] ..
  then show ?thesis using pack_unpack [OF assms(1) n] normalize_idem [OF assms(1) n] by simp
qed

section \<open>Canonical texts exist and are short\<close>

fun lossless :: "json \<Rightarrow> bool"
  and losslessFields :: "(string \<times> json) list \<Rightarrow> bool" where
  "lossless (JBig n) = False"
| "lossless (JNum n) = isSafeInteger n"
| "lossless (JArr xs) = list_all lossless xs"
| "lossless (JObj fs) = losslessFields fs"
| "lossless JNull = True" | "lossless (JBool b) = True" | "lossless (JStr s) = True"
| "losslessFields [] = True"
| "losslessFields ((k, v) # fs) = (lossless v \<and> losslessFields fs)"

lemma mapR_all: "(\<And>y. y \<in> set ys \<Longrightarrow> \<exists>t. g y = Inr t) \<Longrightarrow> mapR g ys = Inr (map (projr \<circ> g) ys)"
proof (induction ys)
  case (Cons y ys)
  then obtain t where "g y = Inr t" by auto
  with Cons show ?case by simp
qed simp

lemma sum_sort_by: "sum_list (map f (sort_by le xs)) = (sum_list (map f xs) :: nat)"
proof -
  have "sum_list (map f (insort_by le x ys)) = f x + sum_list (map f ys)" for x ys by (induction ys) auto
  then show ?thesis by (induction xs) simp_all
qed

definition fieldLength :: "string \<times> string res \<Rightarrow> nat" where
  "fieldLength f = 6 * length (fst f) + 4 + length (projr (snd f))"

lemma canonical_bound:
  "lossless v \<Longrightarrow> \<exists>t. canonical v = Inr t \<and> length t \<le> textBound v"
  "losslessFields fs \<Longrightarrow> (\<forall>f \<in> set (canonicalFields fs). \<exists>t. snd f = Inr t) \<and>
     sum_list (map fieldLength (canonicalFields fs)) \<le> fieldsBound fs"
proof (induction v and fs rule: canonical_canonicalFields.induct)
  case (3 s)
  show ?case using quote_length [of s] by simp
next
  case (4 n)
  then show ?case using intText_length [of n] by simp
next
  case (6 xs)
  then have x: "\<exists>t. canonical x = Inr t \<and> length t \<le> textBound x" if "x \<in> set xs" for x
    using that by (simp add: list_all_iff)
  have "sum_list (map (\<lambda>x. length (projr (canonical x)) + 1) xs) \<le> sum_list (map (\<lambda>x. textBound x + 1) xs)"
    by (rule sum_list_mono) (use x in force)
  moreover have "mapR (\<lambda>r. r) (map canonical xs) = Inr (map (projr \<circ> canonical) xs)"
    using mapR_all [of "map canonical xs" "\<lambda>r. r"] x by fastforce
  ultimately show ?case using commaSep_length [of "map (projr \<circ> canonical) xs"] by (simp add: o_def)
next
  case (7 fs)
  let ?ys = "sort_by (\<lambda>a b. bytes_le (fst a) (fst b)) (canonicalFields fs)"
  let ?g = "\<lambda>(k, r). bindR r (\<lambda>t. Inr (quote k @ '':'' @ t)) :: string res"
  have all: "\<exists>t. snd f = Inr t" if "f \<in> set ?ys" for f using 7 that by simp
  then have "mapR ?g ?ys = Inr (map (projr \<circ> ?g) ?ys)" by (intro mapR_all) (force split: prod.splits)
  moreover have "length (projr (?g f)) + 1 \<le> fieldLength f" if "f \<in> set ?ys" for f
    using all [OF that] quote_length [of "fst f"] by (cases f) (auto simp: fieldLength_def)
  then have "sum_list (map (\<lambda>f. length (projr (?g f)) + 1) ?ys) \<le> sum_list (map fieldLength ?ys)" by (rule sum_list_mono)
  then have "sum_list (map (\<lambda>f. length (projr (?g f)) + 1) ?ys) \<le> fieldsBound fs" using 7 unfolding sum_sort_by by simp
  moreover have "length (commaSep (map (projr \<circ> ?g) ?ys)) \<le> sum_list (map (\<lambda>f. length (projr (?g f)) + 1) ?ys)"
    using commaSep_length [of "map (projr \<circ> ?g) ?ys"] by (simp add: o_def)
  ultimately show ?case by simp
qed (auto simp: fieldLength_def)

section \<open>Gas policies\<close>

lemma hexInt_nonneg: "0 \<le> hexInt s"
  by (simp add: hexInt_def hexNumber_nonneg)

lemma gasOr0_nonneg: "0 \<le> gasOr0 g"
  by (simp add: gasOr0_def hexInt_nonneg split: option.splits)

text \<open>
  An operation within policy cannot cost more than the policy allows. When \<^verbatim>\<open>assertUserOperationGasPolicy\<close> accepts, every gas
  field and fee is at most its maximum, the prefund the entry point demands is at most \<^verbatim>\<open>maximumCost\<close>,
  and an operation whose paymaster is required has one.
\<close>

lemma gas_policy_sound:
  assumes "viem_documented V" and "assertUserOperationGasPolicy V v policy = Inr ()"
  shows "\<exists>op cost. normalizeOp V v = Inr op \<and> userOperationMaximumCost V v = Inr cost \<and> 0 \<le> cost \<and> cost \<le> gp_maximumCost policy \<and>
     cost = (hexInt (uo_callGasLimit op) + hexInt (uo_verificationGasLimit op) + hexInt (uo_preVerificationGas op) +
        gasOr0 (uo_paymasterVerificationGasLimit op) + gasOr0 (uo_paymasterPostOpGasLimit op)) * hexInt (uo_maxFeePerGas op) \<and>
     hexInt (uo_callGasLimit op) \<le> gp_maximumCallGas policy \<and> hexInt (uo_verificationGasLimit op) \<le> gp_maximumVerificationGas policy \<and>
     hexInt (uo_preVerificationGas op) \<le> gp_maximumPreVerificationGas policy \<and> hexInt (uo_maxFeePerGas op) \<le> gp_maximumFeePerGas policy \<and>
     hexInt (uo_maxPriorityFeePerGas op) \<le> hexInt (uo_maxFeePerGas op) \<and>
     (gp_requirePaymaster policy \<longrightarrow> uo_paymaster op \<noteq> None)"
proof -
  obtain op where op: "normalizeOp V v = Inr op" using assms(2) by (auto simp: assertUserOperationGasPolicy_def bindR_eq_Inr)
  note n = normalize_normal [OF assms(1) op]
  have c: "userOperationMaximumCost V op = userOperationMaximumCost V v"
    unfolding userOperationMaximumCost_def normalize_idem [OF assms(1) n] op ..
  have pos: "0 \<le> (hexInt (uo_callGasLimit op) + hexInt (uo_verificationGasLimit op) + hexInt (uo_preVerificationGas op) +
        gasOr0 (uo_paymasterVerificationGasLimit op) + gasOr0 (uo_paymasterPostOpGasLimit op)) * hexInt (uo_maxFeePerGas op)"
    by (intro mult_nonneg_nonneg add_nonneg_nonneg hexInt_nonneg gasOr0_nonneg)
  show ?thesis using assms(2) pos n
    unfolding assertUserOperationGasPolicy_def op bindR_simps c
    by (auto simp: userOperationMaximumCost_def op bindR_eq_Inr ensure_eq_Inr not_less normalOp_def)
qed

section \<open>A concrete library and operation\<close>

definition sampleViem :: viem where
  "sampleViem = \<lparr>vi_isAddress = hexOf 40, vi_toHex = (\<lambda>n. ''0x'' @ hexDigits (nat n)),
     vi_padHex = (\<lambda>h size. Inr (''0x'' @ replicate (2 * size - length (drop 2 h)) CHR ''0'' @ drop 2 h)),
     vi_concat = (\<lambda>hs. ''0x'' @ concat (map (drop 2) hs)), vi_keccak256 = (\<lambda>s. ''0x'' @ replicate 64 CHR ''1''),
     vi_sha256 = (\<lambda>s. ''0x'' @ replicate 64 CHR ''2''), vi_stringToHex = (\<lambda>s. ''0x''), vi_encodeAbiParameters = (\<lambda>vs. ''0x'')\<rparr>"

lemma sampleViem_documented: "viem_documented sampleViem"
proof -
  have l: "hexOf 40 (toLowerCase a)" if h: "hexOf 40 a" for a
  proof -
    obtain d where d: "a = ''0x'' @ d" using h prefix0x by (auto simp: hexOf_def)
    show ?thesis using h unfolding d lower0x by (auto simp: hexOf_def toLowerCase_def list_all_iff lower_hexDigit)
  qed
  have "concat (map (drop 2 \<circ> (@) ''0x'') ds) = concat ds" for ds by (induction ds) simp_all
  then show ?thesis using l by (auto simp: viem_documented_def sampleViem_def)
qed

definition sampleOp :: UserOperationV07 where
  "sampleOp = \<lparr>uo_sender = ''0x'' @ replicate 40 CHR ''a'', uo_nonce = ''0x1f'', uo_factory = None, uo_factoryData = None, uo_callData = ''0xb6'',
     uo_callGasLimit = ''0x10'', uo_verificationGasLimit = ''0x20'', uo_preVerificationGas = ''0x5'', uo_maxFeePerGas = ''0x3'',
     uo_maxPriorityFeePerGas = ''0x1'', uo_paymaster = None, uo_paymasterVerificationGasLimit = None, uo_paymasterPostOpGasLimit = None,
     uo_paymasterData = None, uo_signature = ''0x01''\<rparr>"

lemma sampleOp_normal: "normalOp sampleViem sampleOp"
proof -
  have "accountOk sampleViem (uo_sender sampleOp)"
    by (simp add: accountOk_def sampleViem_def sampleOp_def hexOf_def same_def zeroAccount_def toLowerCase_def lower_def isUpper_def
        list_all_iff isHexDigit_def isDigit_def code_def)
  moreover have "quantityOk 256 (uo_nonce sampleOp)" "quantityOk 128 (uo_callGasLimit sampleOp)" "quantityOk 128 (uo_verificationGasLimit sampleOp)"
    "quantityOk 256 (uo_preVerificationGas sampleOp)" "quantityOk 128 (uo_maxFeePerGas sampleOp)" "quantityOk 128 (uo_maxPriorityFeePerGas sampleOp)"
    by (simp_all add: sampleOp_def quantityOk_def canonicalQuantity_def hexInt_def hexNumber_def isLowerHexDigit_def isDigit_def lower_def isUpper_def
        hexValue_def code_def)
  moreover have "bytesOk calldataBytes (uo_callData sampleOp)" "bytesOk signatureBytes (uo_signature sampleOp)"
    by (simp_all add: sampleOp_def bytesOk_def hexBytes_def isHexDigit_def isDigit_def code_def toLowerCase_def lower_def isUpper_def
        calldataBytes_def signatureBytes_def)
  moreover have "hexInt (uo_maxPriorityFeePerGas sampleOp) \<le> hexInt (uo_maxFeePerGas sampleOp)"
    by (simp add: sampleOp_def hexInt_def hexNumber_def lower_def isUpper_def hexValue_def code_def)
  moreover have "factoryOk sampleViem (uo_factory sampleOp) (uo_factoryData sampleOp)" "paymasterOk sampleViem sampleOp"
    by (simp_all add: sampleOp_def factoryOk_def paymasterOk_def)
  moreover have "\<exists>t. canonical (json_of_UserOperationV07 sampleOp) = Inr t \<and> length t \<le> operationBytes"
  proof -
    have "lossless (json_of_UserOperationV07 sampleOp)" "textBound (json_of_UserOperationV07 sampleOp) \<le> operationBytes"
      by (simp_all add: json_of_UserOperationV07_def sampleOp_def optField_def operationBytes_def)
    then show ?thesis using canonical_bound(1) by fastforce
  qed
  ultimately show ?thesis unfolding normalOp_def by blast
qed

lemma sampleOp_normalizes: "normalizeOp sampleViem sampleOp = Inr sampleOp"
  by (rule normalize_idem [OF sampleViem_documented sampleOp_normal])

theorem user_operation_packing_roundtrip_witness:
  "viem_documented sampleViem \<and> (\<exists>p. packUserOperation sampleViem sampleOp = Inr p \<and> unpackUserOperation sampleViem p = Inr sampleOp)"
  using user_operation_packing_roundtrip [OF sampleViem_documented sampleOp_normalizes] sampleViem_documented by blast

definition samplePolicy :: UserOperationGasPolicy where
  "samplePolicy = \<lparr>gp_id = ''g'', gp_maximumCallGas = 100, gp_maximumVerificationGas = 100, gp_maximumPreVerificationGas = 100,
     gp_maximumPaymasterVerificationGas = 0, gp_maximumPaymasterPostOpGas = 0, gp_maximumFeePerGas = 10, gp_maximumPriorityFeePerGas = 10,
     gp_maximumCost = 1000, gp_requirePaymaster = False\<rparr>"

lemma sampleOp_gas: "hexInt (uo_callGasLimit sampleOp) = 16" "hexInt (uo_verificationGasLimit sampleOp) = 32" "hexInt (uo_preVerificationGas sampleOp) = 5"
    "hexInt (uo_maxFeePerGas sampleOp) = 3" "hexInt (uo_maxPriorityFeePerGas sampleOp) = 1" "gasOr0 (uo_paymasterVerificationGasLimit sampleOp) = 0"
    "gasOr0 (uo_paymasterPostOpGasLimit sampleOp) = 0"
  by (simp_all add: sampleOp_def gasOr0_def hexInt_def hexNumber_def lower_def isUpper_def hexValue_def code_def)

end
