(* ===== verification/UserOperationProperties.thy ===== *)
theory UserOperationProperties
  imports UserOperationInvariants UserOperationCodecProperties TransactionSamples SponsorshipProperties
begin

text \<open>
  The properties of the user operation store over every run of it: single dispatch, exclusive nonces,
  proven outcomes; and a concrete run that prepares, publishes and expires an operation.
\<close>

section \<open>One dispatch\<close>

text \<open>
  A user operation is handed to the bundler once, and it is the reviewed one. When \<^verbatim>\<open>claim\<close> answers \<^verbatim>\<open>dispatch: true\<close>, the actor was entitled
  to relay, the preparation was unpublished and unexpired, the operation differs from the reviewed one
  in its signature only and has the reviewed hash, its steps are bound to it in the reservations that
  all stores share, now and in every later state, and no later claim of it is answered \<^verbatim>\<open>dispatch: true\<close>.
\<close>

lemma dispatch_once:
  assumes "(uo_step V)\<^sup>*\<^sup>* emptyUserOperationStore s" and "claim_uo V g binding clock input s = (Inr (r, True), s1)"
    and "(uo_step V)\<^sup>*\<^sup>* s1 s2"
  shows "g (uc_actor input) [Relay] (clock 0 div 1000) = Inr () \<and>
     (\<exists>x b. js_get (us_records s) (uc_id input) = Some x \<and> ur_submission x = None \<and> clock 3 < ur_expiresAt x \<and>
        ur_submission r = Some b \<and> signedFor (defaultCodec V) x (um_operation b) (um_commitment b) \<and>
        (\<forall>index \<in> set (ur_stepIndexes x). boundTo (us_transports s2) (ur_planId x) index = Some (Erc4337, uc_id input))) \<and>
     (uc_id input' = uc_id input \<longrightarrow> fst (claim_uo V g' binding' clock' input' s2) \<noteq> Inr (r', True))"
proof -
  note inv = uo_reach [OF assms(1)]
  from assms(2) show ?thesis
  proof (cases rule: claim_uo_Inr)
    case (fresh x t operation commitment)
    obtain b where b: "ur_submission r = Some b" "um_operation b = operation" "um_commitment b = commitment"
      using fresh(13) by (simp add: publishedRecord_def)
    have xi: "ur_id x = uc_id input" using uo_invD(2) [OF inv fresh(1)] by (simp add: held_def)
    have idn: "uo_identity r = uo_identity x" using uo_change_revision [OF uo_change.Claimed [OF fresh(12)]] by simp
    have inv1: "uo_inv s1" using claim_uo_step [OF inv assms(2)] by simp
    have inv2: "uo_inv s2" and ext: "uo_extends (defaultCodec V) s1 s2" using uo_run [OF assms(3) inv1] by simp_all
    have "js_get (us_records s1) (uc_id input) = Some r" by (simp add: fresh(16) xi)
    with ext obtain r2 where r2: "js_get (us_records s2) (uc_id input) = Some r2" "(uo_change (defaultCodec V))\<^sup>*\<^sup>* r r2"
      unfolding uo_extends_def by blast
    have sub2: "ur_submission r2 = Some b" using uo_history_submission [OF r2(2) b(1)] .
    have "uo_identity r2 = uo_identity x" using uo_history.history_identity [OF r2(2)] idn by simp
    note d = uo_identityD [OF this]
    have bound: "boundTo (us_transports s2) (ur_planId x) index = Some (Erc4337, uc_id input)" if "index \<in> set (ur_stepIndexes x)" for index
      using uo_invD(2) [OF inv2 r2(1)] sub2 that d by (simp add: held_def)
    have no: "fst (claim_uo V g' binding' clock' input' s2) \<noteq> Inr (r', True)" if i: "uc_id input' = uc_id input"
    proof
      assume "fst (claim_uo V g' binding' clock' input' s2) = Inr (r', True)"
      then obtain s3 where "claim_uo V g' binding' clock' input' s2 = (Inr (r', True), s3)" by (cases "claim_uo V g' binding' clock' input' s2") simp
      then show False by (cases rule: claim_uo_Inr) (use r2(1) sub2 i in auto)
    qed
    show ?thesis using fresh(1,2,7,9,10) b bound no by blast
  qed simp
qed

section \<open>Properties\<close>

text \<open>
  C21. A sender nonce belongs to one user operation at a time. In every reachable state two published operations of the same sender, chain and
  nonce that have not expired are the same; and a published operation keeps its nonce in every later
  state until it is observed as expired.
\<close>

theorem user_operation_nonce_exclusive:
  assumes "(uo_step V)\<^sup>*\<^sup>* emptyUserOperationStore s" and "js_get (us_records s) i = Some r" and "liveOp r"
    and "(uo_step V)\<^sup>*\<^sup>* s s'"
  shows "(\<forall>j x. js_get (us_records s) j = Some x \<and> liveOp x \<and> ur_chainId x = ur_chainId r \<and> same (ur_sender x) (ur_sender r) \<and>
        hexInt (uo_nonce (ur_operation x)) = hexInt (uo_nonce (ur_operation r)) \<longrightarrow> j = i) \<and>
     (\<exists>r'. js_get (us_records s') i = Some r' \<and>
        (ur_state r' = UExpired \<or> map_option nb_id (js_get (us_nonces s') (nonceKey_uo r)) = Some i))"
proof
  note inv = uo_reach [OF assms(1)]
  have own: "map_option nb_id (js_get (us_nonces s) (nonceKey_uo r)) = Some i"
    using uo_invD(2) [OF inv assms(2)] assms(3) by (simp add: held_def)
  show "\<forall>j x. js_get (us_records s) j = Some x \<and> liveOp x \<and> ur_chainId x = ur_chainId r \<and> same (ur_sender x) (ur_sender r) \<and>
        hexInt (uo_nonce (ur_operation x)) = hexInt (uo_nonce (ur_operation r)) \<longrightarrow> j = i"
  proof (intro allI impI, elim conjE)
    fix j x assume x: "js_get (us_records s) j = Some x" "liveOp x" "ur_chainId x = ur_chainId r" "same (ur_sender x) (ur_sender r)"
      "hexInt (uo_nonce (ur_operation x)) = hexInt (uo_nonce (ur_operation r))"
    have "nonceKey_uo x = nonceKey_uo r" using x(3,4,5) by (simp add: nonceKey_uo_def same_def)
    moreover have "map_option nb_id (js_get (us_nonces s) (nonceKey_uo x)) = Some j"
      using uo_invD(2) [OF inv x(1)] x(2) by (simp add: held_def)
    ultimately show "j = i" using own by simp
  qed
  have inv': "uo_inv s'" and "uo_extends (defaultCodec V) s s'" using uo_run [OF assms(4) inv] by simp_all
  with assms(2) obtain r' where r': "js_get (us_records s') i = Some r'" "(uo_change (defaultCodec V))\<^sup>*\<^sup>* r r'"
    unfolding uo_extends_def by blast
  have sub: "ur_submission r' \<noteq> None" using assms(3) uo_history_submission [OF r'(2)] by (auto simp: liveOp_def)
  have key: "nonceKey_uo r' = nonceKey_uo r" by (rule nonceKey_identity) (rule uo_history.history_identity [OF r'(2) TrueI])
  have "map_option nb_id (js_get (us_nonces s') (nonceKey_uo r)) = Some i" if "ur_state r' \<noteq> UExpired"
    using uo_invD(2) [OF inv' r'(1)] sub that unfolding held_def liveOp_def key by blast
  then show "\<exists>r'. js_get (us_records s') i = Some r' \<and>
        (ur_state r' = UExpired \<or> map_option nb_id (js_get (us_nonces s') (nonceKey_uo r)) = Some i)"
    using r'(1) by blast
qed

text \<open>
  C22. The outcome of a user operation is proven. In every reachable state a confirmed operation carries a canonical successful receipt of its transaction, a
  reverted one a canonical receipt with evidence of the failure, an expired one no execution evidence at
  all; and an expired record never changes again.
\<close>

theorem user_operation_outcome_proven:
  assumes "(uo_step V)\<^sup>*\<^sup>* emptyUserOperationStore s" and "js_get (us_records s) i = Some r" and "(uo_step V)\<^sup>*\<^sup>* s s'"
  shows "(ur_state r \<in> {UConfirmed, UReverted} \<longrightarrow>
       (\<exists>b receipt h. ur_observation r = Some b \<and> ub_receipt b = Some receipt \<and> rc_canonical receipt \<and>
          ub_transactionHash b = Some h \<and> same (rc_transactionHash receipt) h \<and> same (ub_operationHash b) (ur_operationHash r) \<and>
          (ur_state r = UConfirmed \<longrightarrow> rc_status receipt = Success) \<and>
          (ur_state r = UReverted \<longrightarrow> rc_status receipt = RevertedReceipt \<or> map_option sem_status (ub_semantic b) = Some SemFailed))) \<and>
     (ur_state r = UExpired \<longrightarrow>
       (\<exists>b. ur_observation r = Some b \<and> ub_receipt b = None \<and> ub_transactionHash b = None) \<and> js_get (us_records s') i = Some r)"
proof
  note inv = uo_reach [OF assms(1)]
  have ok: "recordOk r" using uo_invD(2) [OF inv assms(2)] by (simp add: held_def)
  have final: "\<exists>b. ur_observation r = Some b \<and> ub_state b = ur_state r \<and> checkObservation b = Inr () \<and> same (ub_operationHash b) (ur_operationHash r)"
    if "ur_state r \<in> {UConfirmed, UReverted, UExpired}"
    using ok that by (auto simp: recordOk_def split: if_splits option.splits)
  show "ur_state r \<in> {UConfirmed, UReverted} \<longrightarrow>
       (\<exists>b receipt h. ur_observation r = Some b \<and> ub_receipt b = Some receipt \<and> rc_canonical receipt \<and>
          ub_transactionHash b = Some h \<and> same (rc_transactionHash receipt) h \<and> same (ub_operationHash b) (ur_operationHash r) \<and>
          (ur_state r = UConfirmed \<longrightarrow> rc_status receipt = Success) \<and>
          (ur_state r = UReverted \<longrightarrow> rc_status receipt = RevertedReceipt \<or> map_option sem_status (ub_semantic b) = Some SemFailed))"
  proof
    assume s: "ur_state r \<in> {UConfirmed, UReverted}"
    then obtain b where b: "ur_observation r = Some b" "ub_state b = ur_state r" "checkObservation b = Inr ()" "same (ub_operationHash b) (ur_operationHash r)"
      using final by auto
    obtain receipt where rc: "ub_receipt b = Some receipt" using b(2,3) s by (auto simp: checkObservation_def bindR_eq_Inr ensure_eq_Inr split: option.splits)
    obtain h where h: "ub_transactionHash b = Some h" using b(3) rc by (auto simp: checkObservation_def bindR_eq_Inr ensure_eq_Inr split: option.splits)
    show "\<exists>b receipt h. ur_observation r = Some b \<and> ub_receipt b = Some receipt \<and> rc_canonical receipt \<and>
          ub_transactionHash b = Some h \<and> same (rc_transactionHash receipt) h \<and> same (ub_operationHash b) (ur_operationHash r) \<and>
          (ur_state r = UConfirmed \<longrightarrow> rc_status receipt = Success) \<and>
          (ur_state r = UReverted \<longrightarrow> rc_status receipt = RevertedReceipt \<or> map_option sem_status (ub_semantic b) = Some SemFailed)"
      using b s rc h by (intro exI [of _ b] exI [of _ receipt] exI [of _ h]) (auto simp: checkObservation_def bindR_eq_Inr ensure_eq_Inr)
  qed
  show "ur_state r = UExpired \<longrightarrow>
       (\<exists>b. ur_observation r = Some b \<and> ub_receipt b = None \<and> ub_transactionHash b = None) \<and> js_get (us_records s') i = Some r"
  proof
    assume s: "ur_state r = UExpired"
    then obtain b where b: "ur_observation r = Some b" "ub_state b = UExpired" "checkObservation b = Inr ()" using final by auto
    have e: "ub_receipt b = None \<and> ub_transactionHash b = None"
      using b(2,3) by (cases "ub_receipt b"; cases "ub_transactionHash b") (auto simp: checkObservation_def bindR_eq_Inr ensure_eq_Inr)
    have "uo_extends (defaultCodec V) s s'" using uo_run [OF assms(3) inv] by simp
    with assms(2) obtain r' where r': "js_get (us_records s') i = Some r'" "(uo_change (defaultCodec V))\<^sup>*\<^sup>* r r'"
      unfolding uo_extends_def by blast
    have "r' = r" using expired_history [OF r'(2) ok s] .
    then show "(\<exists>b. ur_observation r = Some b \<and> ub_receipt b = None \<and> ub_transactionHash b = None) \<and> js_get (us_records s') i = Some r"
      using r'(1) b(1) e by blast
  qed
qed

text \<open>An operation of the store that throws has changed nothing.\<close>

lemma user_operation_failure_changes_nothing:
  assumes "create_uo V g binding clock input now s = (Inl e, s') \<or> claim_uo V g binding clock claim s = (Inl e, s') \<or>
     settle_uo i commitment state s = (Inl e, s') \<or> observe_uo i revision observation s = (Inl e, s')"
  shows "s' = s"
  using assms by (elim disjE) (rule create_uo_Inl claim_uo_Inl settle_uo_Inl observe_uo_Inl; assumption)+

section \<open>Samples\<close>

definition sampleUo :: UserOperationRecord where
  "sampleUo = \<lparr>ur_id = ''uo1'', ur_actor = alice, ur_planId = ''p1'', ur_planCommitment = hex64 CHR ''4'', ur_stepIndexes = [0], ur_chainId = 1,
     ur_entryPoint = hex40 CHR ''e'', ur_sender = hex40 CHR ''a'', ur_operation = sampleOp, ur_operationHash = hex64 CHR ''1'',
     ur_preparationKey = ''k'', ur_inputHash = hex64 CHR ''5'', ur_commitment = hex64 CHR ''6'', ur_accountBindingId = hex64 CHR ''7'',
     ur_accountStateHash = hex64 CHR ''8'', ur_session = None, ur_gasPolicyId = ''g'', ur_providerId = ''b'', ur_createdAt = 1000,
     ur_expiresAt = 900000, ur_revision = 0, ur_state = UPrepared, ur_submission = None, ur_observation = None\<rparr>"

definition sampleUoClaim :: UserOperationClaim where
  "sampleUoClaim = \<lparr>uc_actor = alice, uc_id = ''uo1'', uc_key = ''pub'', uc_operation = sampleOp, uc_signedCommitment = hex64 CHR ''2'',
     uc_authorization = \<lparr>au_issuedAt = 1, au_expiresAt = 100\<rparr>, uc_sessionObservationHash = None, uc_now = 2000\<rparr>"

definition sampleUoPublished :: UserOperationRecord where
  "sampleUoPublished = sampleUo\<lparr>ur_revision := 1, ur_state := USubmitting,
     ur_submission := Some \<lparr>um_key = ''pub'', um_commitment = hex64 CHR ''2'', um_operation = sampleOp, um_startedAt = 2000,
       um_sessionObservationHash = None\<rparr>\<rparr>"

definition sampleExpiry :: UserOperationObservation where
  "sampleExpiry = \<lparr>ub_state = UExpired, ub_operationHash = hex64 CHR ''1'', ub_transactionHash = None, ub_receipt = None, ub_scopedLogs = None,
     ub_semantic = None, ub_reason = None, ub_observedAt = None, ub_verifiedAtBlock = None\<rparr>"

definition sampleUoExpired :: UserOperationRecord where
  "sampleUoExpired = sampleUoPublished\<lparr>ur_state := UExpired, ur_revision := 2, ur_observation := Some sampleExpiry\<rparr>"

definition samplePrepKey :: string where "samplePrepKey = preparationKey_uo alice ''k''"
definition samplePubKey :: string where "samplePubKey = preparationKey_uo alice ''pub''"

definition sampleUo1 :: UserOperationStore where
  "sampleUo1 = \<lparr>us_records = [(''uo1'', sampleUo)], us_preparations = [(samplePrepKey, ''uo1'')], us_submissions = [], us_nonces = [], us_transports = []\<rparr>"

definition sampleUo2 :: UserOperationStore where
  "sampleUo2 = \<lparr>us_records = [(''uo1'', sampleUoPublished)], us_preparations = [(samplePrepKey, ''uo1'')], us_submissions = [(samplePubKey, ''uo1'')],
     us_nonces = [(nonceKey_uo sampleUo, \<lparr>nb_id = ''uo1'', nb_commitment = hex64 CHR ''2''\<rparr>)],
     us_transports = [(''p1'', [(0, \<lparr>rv_transport = Erc4337, rv_bindingId = ''uo1''\<rparr>)])]\<rparr>"

definition sampleUo3 :: UserOperationStore where
  "sampleUo3 = sampleUo2\<lparr>us_nonces := [], us_records := [(''uo1'', sampleUoExpired)]\<rparr>"

lemma clone_uo_bound:
  assumes "lossless (j v)" and "textBound (j v) \<le> bytes_uo"
  shows "clone_uo j v = Inr v"
  using canonical_bound(1) [OF assms(1)] assms(2) unfolding clone_uo_Inr by fastforce

lemmas uo_sample_defs = sampleUo_def sampleOp_def sampleUoClaim_def sampleUoPublished_def sampleExpiry_def sampleUoExpired_def alice_def hex40_def hex64_def

lemmas uo_json_defs = json_of_UserOperationRecord_def json_of_UserOperationV07_def json_of_RestActor_def json_of_Submission_def json_of_Observation_def
  json_of_UserOperationClaim_def json_of_Authorization_def text_of_UserOperationState_def optField_def bytes_uo_def isSafeInteger_def MAX_SAFE_INTEGER_def

lemma sample_uo_clones: "cloneRecord_uo sampleUo = Inr sampleUo" "cloneRecord_uo sampleUoPublished = Inr sampleUoPublished"
  "cloneRecord_uo sampleUoExpired = Inr sampleUoExpired" "clone_uo json_of_UserOperationClaim sampleUoClaim = Inr sampleUoClaim"
  "clone_uo json_of_Observation sampleExpiry = Inr sampleExpiry"
  by (rule clone_uo_bound; simp add: uo_sample_defs uo_json_defs)+

lemma sample_entry: "uoAddress sampleViem (Some (JStr (hex40 CHR ''e''))) label = Inr (hex40 CHR ''e'')"
  by (rule uoAddress_normal) (simp add: accountOk_def sampleViem_def hex40_def hexOf_def same_def zeroAccount_def toLowerCase_def lower_def isUpper_def
        list_all_iff isHexDigit_def isDigit_def code_def)

lemma sample_hash: "getUserOperationHash sampleViem sampleOp (hex40 CHR ''e'') 1 = Inr (hex64 CHR ''1'')"
proof -
  obtain p where "packUserOperation sampleViem sampleOp = Inr p" using pack_unpack [OF sampleViem_documented sampleOp_normal] by (elim exE conjE)
  then show ?thesis using sample_entry
    by (simp add: getUserOperationHash_def chainChecked_def isSafeInteger_def MAX_SAFE_INTEGER_def Let_def) (simp add: sampleViem_def hex64_def)
qed

lemma sample_lossless: "lossless (json_of_UserOperationV07 sampleOp)" "lossless (unsigned sampleOp)"
  by (simp_all add: json_of_UserOperationV07_def sampleOp_def optField_def)

lemma sample_canonical: "\<exists>t. canonical (json_of_UserOperationV07 sampleOp) = Inr t" "\<exists>t. canonical (unsigned sampleOp) = Inr t"
  by (metis canonical_bound(1) sample_lossless(1), metis canonical_bound(1) sample_lossless(2))

lemma sample_commitment: "userOperationCommitment sampleViem sampleOp (hex40 CHR ''e'') 1 = Inr (hex64 CHR ''2'')"
proof -
  let ?j = "JObj [(''chainId'', JNum 1), (''entryPoint'', JStr (hex40 CHR ''e'')), (''operation'', json_of_UserOperationV07 sampleOp)]"
  have "lossless ?j" by (simp add: json_of_UserOperationV07_def sampleOp_def optField_def isSafeInteger_def MAX_SAFE_INTEGER_def)
  from canonical_bound(1) [OF this] obtain t where "canonical ?j = Inr t" by (elim exE conjE)
  then have "uoCanonical ?j = Inr t" by (simp add: uoCanonical_Inr)
  then show ?thesis using sample_entry sampleOp_normalizes
    by (simp add: userOperationCommitment_def chainChecked_def isSafeInteger_def MAX_SAFE_INTEGER_def) (simp add: sampleViem_def hex64_def)
qed

lemma sample_codec: "co_parse (defaultCodec sampleViem) (json_of_UserOperationV07 sampleOp) = Inr sampleOp"
  "co_hash (defaultCodec sampleViem) sampleOp 1 (hex40 CHR ''e'') = Inr (hex64 CHR ''1'')"
  "co_signedCommitment (defaultCodec sampleViem) sampleOp 1 (hex40 CHR ''e'') = Inr (hex64 CHR ''2'')"
  by (simp_all add: defaultCodec_def sampleOp_normalizes sample_hash sample_commitment)

lemma sampleUo_fields: "ur_actor sampleUo = alice" "ur_id sampleUo = ''uo1''" "ur_planId sampleUo = ''p1''" "ur_gasPolicyId sampleUo = ''g''" "ur_providerId sampleUo = ''b''"
  "ur_preparationKey sampleUo = ''k''" "ur_planCommitment sampleUo = hex64 CHR ''4''" "ur_operationHash sampleUo = hex64 CHR ''1''" "ur_inputHash sampleUo = hex64 CHR ''5''"
  "ur_commitment sampleUo = hex64 CHR ''6''" "ur_accountBindingId sampleUo = hex64 CHR ''7''" "ur_accountStateHash sampleUo = hex64 CHR ''8''"
  "ur_entryPoint sampleUo = hex40 CHR ''e''" "ur_sender sampleUo = hex40 CHR ''a''" "ur_chainId sampleUo = 1" "ur_createdAt sampleUo = 1000" "ur_expiresAt sampleUo = 900000"
  "ur_revision sampleUo = 0" "ur_state sampleUo = UPrepared" "ur_submission sampleUo = None" "ur_observation sampleUo = None" "ur_stepIndexes sampleUo = [0]"
  "ur_operation sampleUo = sampleOp" "ur_session sampleUo = None"
  by (simp_all add: sampleUo_def)

lemma sampleUoClaim_fields: "uc_actor sampleUoClaim = alice" "uc_id sampleUoClaim = ''uo1''" "uc_key sampleUoClaim = ''pub''" "uc_operation sampleUoClaim = sampleOp"
  "uc_signedCommitment sampleUoClaim = hex64 CHR ''2''" "uc_authorization sampleUoClaim = \<lparr>au_issuedAt = 1, au_expiresAt = 100\<rparr>"
  "uc_sessionObservationHash sampleUoClaim = None" "uc_now sampleUoClaim = 2000" "sampleUoClaim\<lparr>uc_now := 2000\<rparr> = sampleUoClaim"
  by (simp_all add: sampleUoClaim_def)

lemma sample_address: "c \<in> {CHR ''a'', CHR ''e''} \<Longrightarrow> isAddress (hex40 c)"
  by (auto simp: hex40_def hexOf_def list_all_iff isHexDigit_def isDigit_def code_def)

lemma sample_texts: "assertActor alice = Inr ()" "assertText ''uo1'' = Inr ()" "assertText ''p1'' = Inr ()" "assertText ''g'' = Inr ()" "assertText ''b'' = Inr ()"
  "key_uo ''k'' = Inr ()" "key_uo ''pub'' = Inr ()"
  by (simp_all add: tx_defs alice_def key_uo_def isIdempotencyKey_def isControl_def code_def)

lemma sample_new_uo: "assertNew_uo sampleUo 1500 (defaultCodec sampleViem) = Inr ()" "assertNew_uo sampleUo 2000 (defaultCodec sampleViem) = Inr ()"
proof -
  obtain t where t: "canonical (json_of_UserOperationV07 sampleOp) = Inr t" using sample_canonical(1) ..
  have a: "same (uo_sender sampleOp) (hex40 CHR ''a'')" by (simp add: sampleOp_def hex40_def)
  show "assertNew_uo sampleUo 1500 (defaultCodec sampleViem) = Inr ()" "assertNew_uo sampleUo 2000 (defaultCodec sampleViem) = Inr ()"
    by (simp_all add: assertNew_uo_def sampleUo_fields sample_texts hex64_digits sample_address sample_codec t a sample_uo_clones time_uo_def isSafeInteger_def MAX_SAFE_INTEGER_def)
qed

definition admitBinding :: binding_guard where "admitBinding r t = Inr ()"

lemma sample_create_uo: "create_uo sampleViem admitAll admitBinding (\<lambda>_. 1500) sampleUo 1500 emptyUserOperationStore = (Inr sampleUo, sampleUo1)"
  by (simp add: create_uo_def sample_new_uo sample_uo_clones admitAll_def admitBinding_def emptyUserOperationStore_def recordsPerAccount_uo_def Let_def sampleUo1_def
      sampleUo_fields samplePrepKey_def)

lemma sample_claimed_uo: "claimed_uo sampleUo sampleUoClaim (defaultCodec sampleViem) = Inr (sampleUoPublished, True)"
proof -
  obtain t u where t: "canonical (json_of_UserOperationV07 sampleOp) = Inr t" "canonical (unsigned sampleOp) = Inr u" using sample_canonical by (elim exE)
  have sig: "uo_signature sampleOp \<noteq> ''0x''" by (simp add: sampleOp_def)
  have p: "cloneRecord_uo (sampleUo\<lparr>ur_revision := 1, ur_state := USubmitting,
     ur_submission := Some \<lparr>um_key = ''pub'', um_commitment = hex64 CHR ''2'', um_operation = sampleOp, um_startedAt = 2000, um_sessionObservationHash = None\<rparr>\<rparr>) = Inr sampleUoPublished"
    using sample_uo_clones(2) unfolding sampleUoPublished_def .
  show ?thesis
    by (simp add: claimed_uo_def owns_uo_def sampleUo_fields sampleUoClaim_fields sample_codec t sig assertDispatchAuthorization_def dispatchRecord_def
        isSafeInteger_def MAX_SAFE_INTEGER_def p)
qed

lemma sample_claim_checks: "assertClaim_uo sampleUoClaim = Inr ()"
  by (simp add: assertClaim_uo_def sampleUoClaim_fields sample_texts hex64_digits sample_uo_clones time_uo_def isSafeInteger_def MAX_SAFE_INTEGER_def)

lemma sample_claim_uo: "claim_uo sampleViem admitAll admitBinding (\<lambda>_. 2000) sampleUoClaim sampleUo1 = (Inr (sampleUoPublished, True), sampleUo2)"
proof -
  have r: "required_uo sampleUo1 alice ''uo1'' = Inr sampleUo"
    by (simp add: required_uo_def sample_texts sampleUo1_def owns_uo_def sampleUo_fields)
  have t: "claim_transport ''p1'' [0] Erc4337 ''uo1'' [] = (Inr (), [(''p1'', [(0, \<lparr>rv_transport = Erc4337, rv_bindingId = ''uo1''\<rparr>)])])"
    by (simp add: claim_transport_def transport_parameters_def current_of_def tx_defs isControl_def code_def maximumSteps_def
        isSafeInteger_def MAX_SAFE_INTEGER_def)
  have f: "us_submissions sampleUo1 = []" "us_nonces sampleUo1 = []" "us_transports sampleUo1 = []" "us_records sampleUo1 = [(''uo1'', sampleUo)]"
    by (simp_all add: sampleUo1_def)
  show ?thesis
    by (simp add: claim_uo_def sample_claim_checks sample_uo_clones admitAll_def sampleUoClaim_fields r f sample_claimed_uo dispatchRecord_def sampleUo_fields admitBinding_def t)
      (simp add: sampleUo1_def sampleUo2_def samplePubKey_def)
qed

lemma sample_observed_uo: "observed_uo sampleUoPublished 1 sampleExpiry = Inr sampleUoExpired"
proof -
  have f: "ur_revision sampleUoPublished = 1" "ur_state sampleUoPublished = USubmitting" "ur_submission sampleUoPublished \<noteq> None"
    "ur_operationHash sampleUoPublished = hex64 CHR ''1''" by (simp_all add: sampleUoPublished_def sampleUo_fields)
  have b: "ub_state sampleExpiry = UExpired" "ub_operationHash sampleExpiry = hex64 CHR ''1''" "checkObservation sampleExpiry = Inr ()"
    by (simp_all add: sampleExpiry_def checkObservation_def)
  have e: "sampleUoPublished\<lparr>ur_state := UExpired, ur_revision := 2, ur_observation := Some sampleExpiry\<rparr> = sampleUoExpired" by (simp add: sampleUoExpired_def)
  show ?thesis
    using f(3) by (simp add: observed_uo_def f b e observationState_def sample_uo_clones isSafeInteger_def MAX_SAFE_INTEGER_def)
qed

lemma sample_observe_uo: "observe_uo ''uo1'' 1 sampleExpiry sampleUo2 = (Inr sampleUoExpired, sampleUo3)"
proof -
  have x: "ur_state sampleUoExpired = UExpired" "nonceKey_uo sampleUoExpired = nonceKey_uo sampleUo"
    by (simp_all add: sampleUoExpired_def sampleUoPublished_def nonceKey_uo_def)
  show ?thesis
    by (simp add: observe_uo_def sample_texts sample_uo_clones sampleUo2_def sample_observed_uo x Let_def) (simp add: sampleUo3_def sampleUo2_def)
qed

lemma sample_uo_run: "(uo_step sampleViem)\<^sup>*\<^sup>* emptyUserOperationStore sampleUo1" "(uo_step sampleViem)\<^sup>*\<^sup>* emptyUserOperationStore sampleUo2"
  "(uo_step sampleViem)\<^sup>*\<^sup>* sampleUo2 sampleUo3" "(uo_step sampleViem)\<^sup>*\<^sup>* emptyUserOperationStore sampleUo3"
proof -
  have a: "uo_step sampleViem emptyUserOperationStore sampleUo1" by (rule uo_step.Create [OF sample_create_uo])
  have b: "uo_step sampleViem sampleUo1 sampleUo2" by (rule uo_step.Claim [OF sample_claim_uo])
  have c: "uo_step sampleViem sampleUo2 sampleUo3" by (rule uo_step.Observe [OF sample_observe_uo])
  show 1: "(uo_step sampleViem)\<^sup>*\<^sup>* emptyUserOperationStore sampleUo1" using a by blast
  show 2: "(uo_step sampleViem)\<^sup>*\<^sup>* emptyUserOperationStore sampleUo2" using 1 b by (rule rtranclp.rtrancl_into_rtrancl)
  show "(uo_step sampleViem)\<^sup>*\<^sup>* sampleUo2 sampleUo3" using c by blast
  show "(uo_step sampleViem)\<^sup>*\<^sup>* emptyUserOperationStore sampleUo3" using 2 c by (rule rtranclp.rtrancl_into_rtrancl)
qed

theorem user_operation_nonce_exclusive_witness:
  "liveOp sampleUoPublished \<and> (\<exists>r'. js_get (us_records sampleUo3) ''uo1'' = Some r' \<and>
     (ur_state r' = UExpired \<or> map_option nb_id (js_get (us_nonces sampleUo3) (nonceKey_uo sampleUoPublished)) = Some ''uo1''))"
proof -
  have "js_get (us_records sampleUo2) ''uo1'' = Some sampleUoPublished" "liveOp sampleUoPublished"
    by (simp_all add: sampleUo2_def liveOp_def sampleUoPublished_def)
  with user_operation_nonce_exclusive [OF sample_uo_run(2) this sample_uo_run(3)] show ?thesis by blast
qed

theorem user_operation_outcome_proven_witness:
  "ur_state sampleUoExpired = UExpired \<and>
   (\<exists>b. ur_observation sampleUoExpired = Some b \<and> ub_receipt b = None \<and> ub_transactionHash b = None)"
proof -
  have "js_get (us_records sampleUo3) ''uo1'' = Some sampleUoExpired" "ur_state sampleUoExpired = UExpired"
    by (simp_all add: sampleUo3_def sampleUoExpired_def)
  with user_operation_outcome_proven [OF sample_uo_run(4) this(1) rtranclp.rtrancl_refl] show ?thesis by blast
qed

end
