(* ===== verification/Stores.thy ===== *)
theory Stores
  imports TransactionProperties SponsorshipProperties AuthProperties UserOperationProperties
begin

text \<open>
  The in-memory stores together: the account store guards the other three, and these share one table of
  transport reservations (the constructor arguments \<^verbatim>\<open>authority\<close> and \<^verbatim>\<open>transports\<close> of
  \<^verbatim>\<open>src/src/rest/transactions/memory.ts\<close>, \<^verbatim>\<open>src/src/rest/sponsorship/memory.ts\<close> and
  \<^verbatim>\<open>src/src/rest/userOperations/memory.ts\<close>). A run of the whole is, seen from each store, a run of that
  store in which others claim transports, so what was proved of one store holds of the whole.
\<close>

section \<open>What the operations do to the reservations\<close>

abbreviation claims :: "Reservations \<Rightarrow> Reservations \<Rightarrow> bool" where
  "claims \<equiv> ledger.ledger_step\<^sup>*\<^sup>*"

lemma claim_transport_claims: "claims s (snd (claim_transport i idx t b s))"
  using ledger.ledger_stepI by (metis prod.collapse r_into_rtranclp)

lemmas tx_keeps = keeping [where P = "\<lambda>s. claims T (tx_transports s)" for T]
lemmas sp_keeps_rules = keeping [where P = "\<lambda>s. claims T (sp_transports s)" for T]
lemmas uo_keeps = keeping [where P = "\<lambda>s. claims T (us_transports s)" for T]

lemma reserveIdempotency_transports [simp]: "tx_transports (snd (reserveIdempotency actor claim i k s)) = tx_transports s"
  by (simp add: reserveIdempotency_def attempt_def split: sum.splits)

lemma commitPlan_transports [simp]: "tx_transports (snd (commitPlan i p q s)) = tx_transports s"
  by (simp add: commitPlan_def Let_def attempt_def split: sum.splits)

lemma create_claims: "claims (tx_transports s) (tx_transports (snd (create g input claim now s)))"
  unfolding create_def Let_def by (intro tx_keeps) simp_all

lemma claimSubmission_claims: "claims (tx_transports s) (tx_transports (snd (claimSubmission g w claim s)))"
  unfolding claimSubmission_def Let_def case_prod_beta by (intro tx_keeps) (simp_all add: claim_transport_claims)

lemma save_claims: "claims (tx_transports s) (tx_transports (snd (save actor i expected steps s)))"
  unfolding save_def Let_def by (intro tx_keeps) simp_all

lemma settleSubmission_claims: "claims (tx_transports s) (tx_transports (snd (settleSubmission actor i index token patch s)))"
  unfolding settleSubmission_def Let_def by (intro tx_keeps) simp_all

lemma reserveExternalExecution_claims: "claims (tx_transports s) (tx_transports (snd (reserveExternalExecution actor i idx b s)))"
  unfolding reserveExternalExecution_def by (intro tx_keeps) simp_all

lemma saveExternalExecution_claims: "claims (tx_transports s) (tx_transports (snd (saveExternalExecution actor i expected b updates s)))"
  unfolding saveExternalExecution_def by (intro tx_keeps) simp_all

lemma syncExternalExecutions_claims: "claims (tx_transports s) (tx_transports (snd (syncExternalExecutions actor i s)))"
  unfolding syncExternalExecutions_def by (intro tx_keeps) simp_all

lemma reserveForward_claims: "claims (sp_transports s) (sp_transports (snd (reserveForward r s)))"
  unfolding reserveForward_def Let_def by (intro sp_keeps_rules) (simp_all add: claim_transport_claims)

lemma create_sp_claims: "claims (sp_transports s) (sp_transports (snd (create_sp g w input now s)))"
  unfolding create_sp_def Let_def by (intro sp_keeps_rules) simp_all

lemma claim_sp_claims: "claims (sp_transports s) (sp_transports (snd (claim_sp g w claim s)))"
  unfolding claim_sp_def case_prod_beta by (intro sp_keeps_rules) (simp_all add: reserveForward_claims)

lemma settle_sp_claims: "claims (sp_transports s) (sp_transports (snd (settle_sp sha256 i h given rt b s)))"
  unfolding settle_sp_def Let_def by (intro sp_keeps_rules) simp_all

lemma observe_sp_claims: "claims (sp_transports s) (sp_transports (snd (observe_sp i revision obs s)))"
  unfolding observe_sp_def Let_def by (intro sp_keeps_rules) simp_all

lemma create_uo_claims: "claims (us_transports s) (us_transports (snd (create_uo V g binding clock input now s)))"
  unfolding create_uo_def Let_def by (intro uo_keeps) simp_all

lemma claim_uo_claims: "claims (us_transports s) (us_transports (snd (claim_uo V g binding clock claim s)))"
  unfolding claim_uo_def Let_def case_prod_beta by (intro uo_keeps) (simp_all add: claim_transport_claims)

lemma settle_uo_claims: "claims (us_transports s) (us_transports (snd (settle_uo i commitment state s)))"
  unfolding settle_uo_def Let_def by (intro uo_keeps) simp_all

lemma observe_uo_claims: "claims (us_transports s) (us_transports (snd (observe_uo i revision obs s)))"
  unfolding observe_uo_def Let_def by (intro uo_keeps) simp_all

section \<open>The stores together\<close>

record RestStores =
  sy_accounts :: AccountStore
  sy_transactions :: TxStore
  sy_sponsorships :: SponsorshipStore
  sy_operations :: UserOperationStore

text \<open>The three stores are built over one reservation object; a store that changes it changes it for all.\<close>

definition share :: "Reservations \<Rightarrow> RestStores \<Rightarrow> RestStores" where
  "share t S = S\<lparr>sy_transactions := (sy_transactions S)\<lparr>tx_transports := t\<rparr>,
     sy_sponsorships := (sy_sponsorships S)\<lparr>sp_transports := t\<rparr>, sy_operations := (sy_operations S)\<lparr>us_transports := t\<rparr>\<rparr>"

definition shared :: "RestStores \<Rightarrow> bool" where
  "shared S \<longleftrightarrow> sp_transports (sy_sponsorships S) = tx_transports (sy_transactions S) \<and>
     us_transports (sy_operations S) = tx_transports (sy_transactions S)"

definition startStores :: "AccountStoreLimits \<Rightarrow> RestStores" where
  "startStores limits = \<lparr>sy_accounts = newAccountStore limits, sy_transactions = emptyTxStore, sy_sponsorships = emptySponsorshipStore,
     sy_operations = emptyUserOperationStore\<rparr>"

text \<open>The operations of each store under one guard.\<close>

inductive tx_op :: "guard \<Rightarrow> TxStore \<Rightarrow> TxStore \<Rightarrow> bool" for authority where
  Create: "create authority input claim now s = (r, s') \<Longrightarrow> tx_op authority s s'"
| ClaimSubmission: "claimSubmission authority waited submission s = (r', s') \<Longrightarrow> tx_op authority s s'"
| SaveSteps: "save actor i expected steps s = (r, s') \<Longrightarrow> tx_op authority s s'"
| ReserveExternal: "reserveExternalExecution actor i indexes bindingId s = (r, s') \<Longrightarrow> tx_op authority s s'"
| SaveExternal: "saveExternalExecution actor i expected bindingId updates s = (r, s') \<Longrightarrow> tx_op authority s s'"
| SyncExternal: "syncExternalExecutions actor i s = (r, s') \<Longrightarrow> tx_op authority s s'"
| SettleSubmission: "settleSubmission actor i index leaseToken patch s = (r, s') \<Longrightarrow> tx_op authority s s'"

inductive sp_op :: "(string \<Rightarrow> string) \<Rightarrow> guard \<Rightarrow> SponsorshipStore \<Rightarrow> SponsorshipStore \<Rightarrow> bool" for sha256 authority where
  Create: "create_sp authority waited input now s = (r, s') \<Longrightarrow> sp_op sha256 authority s s'"
| Claim: "claim_sp authority waited claim s = (rd, s') \<Longrightarrow> sp_op sha256 authority s s'"
| Settle: "settle_sp sha256 i h given runtime binding s = (r, s') \<Longrightarrow> sp_op sha256 authority s s'"
| Observe: "observe_sp i revision observations s = (r, s') \<Longrightarrow> sp_op sha256 authority s s'"

inductive uo_op :: "viem \<Rightarrow> guard \<Rightarrow> UserOperationStore \<Rightarrow> UserOperationStore \<Rightarrow> bool" for V authority where
  Create: "create_uo V authority binding clock input now s = (r, s') \<Longrightarrow> uo_op V authority s s'"
| Claim: "claim_uo V authority binding clock claim s = (rd, s') \<Longrightarrow> uo_op V authority s s'"
| Settle: "settle_uo i commitment state s = (r, s') \<Longrightarrow> uo_op V authority s s'"
| Observe: "observe_uo i revision observation s = (r, s') \<Longrightarrow> uo_op V authority s s'"

text \<open>
  A step of the whole: a step of the account store, or an operation of one of the other stores under the
  guard of the account store, \<^verbatim>\<open>withActiveActor\<close>, as it is at that moment.
\<close>

inductive sys_step :: "viem \<Rightarrow> (string \<Rightarrow> string) \<Rightarrow> int \<Rightarrow> RestStores \<Rightarrow> RestStores \<Rightarrow> bool" for V sha256 clock where
  Accounts: "auth_step clock (sy_accounts S) a \<Longrightarrow> sys_step V sha256 clock S (S\<lparr>sy_accounts := a\<rparr>)"
| Transactions: "tx_op (activeActor waited (sy_accounts S)) (sy_transactions S) t \<Longrightarrow>
     sys_step V sha256 clock S (share (tx_transports t) (S\<lparr>sy_transactions := t\<rparr>))"
| Sponsorships: "sp_op sha256 (activeActor waited (sy_accounts S)) (sy_sponsorships S) t \<Longrightarrow>
     sys_step V sha256 clock S (share (sp_transports t) (S\<lparr>sy_sponsorships := t\<rparr>))"
| UserOperations: "uo_op V (activeActor waited (sy_accounts S)) (sy_operations S) t \<Longrightarrow>
     sys_step V sha256 clock S (share (us_transports t) (S\<lparr>sy_operations := t\<rparr>))"

section \<open>Each store sees a run of its own\<close>

lemma tx_op_step: "tx_op g s s' \<Longrightarrow> tx_step s s' \<and> claims (tx_transports s) (tx_transports s')"
proof (induction rule: tx_op.induct)
  case (Create input claim now s r s') then show ?case using tx_step.Create create_claims by (metis snd_conv)
next
  case (ClaimSubmission w c s r s') then show ?case using tx_step.ClaimSubmission claimSubmission_claims by (metis snd_conv)
next
  case (SaveSteps actor i expected steps s r s') then show ?case using tx_step.SaveSteps save_claims by (metis snd_conv)
next
  case (ReserveExternal actor i idx b s r s') then show ?case using tx_step.ReserveExternal reserveExternalExecution_claims by (metis snd_conv)
next
  case (SaveExternal actor i expected b updates s r s') then show ?case using tx_step.SaveExternal saveExternalExecution_claims by (metis snd_conv)
next
  case (SyncExternal actor i s r s') then show ?case using tx_step.SyncExternal syncExternalExecutions_claims by (metis snd_conv)
next
  case (SettleSubmission actor i index token patch s r s') then show ?case using tx_step.SettleSubmission settleSubmission_claims by (metis snd_conv)
qed

lemma sp_op_step: "sp_op sha256 g s s' \<Longrightarrow> sp_step sha256 s s' \<and> claims (sp_transports s) (sp_transports s')"
proof (induction rule: sp_op.induct)
  case (Create w input now s r s') then show ?case using sp_step.Create create_sp_claims by (metis snd_conv)
next
  case (Claim w claim s rd s') then show ?case using sp_step.Claim claim_sp_claims by (metis snd_conv)
next
  case (Settle i h given rt b s r s') then show ?case using sp_step.Settle settle_sp_claims by (metis snd_conv)
next
  case (Observe i revision obs s r s') then show ?case using sp_step.Observe observe_sp_claims by (metis snd_conv)
qed

lemma uo_op_step: "uo_op V g s s' \<Longrightarrow> uo_step V s s' \<and> claims (us_transports s) (us_transports s')"
proof (induction rule: uo_op.induct)
  case (Create b clock input now s r s') then show ?case using uo_step.Create create_uo_claims by (metis snd_conv)
next
  case (Claim b clock claim s rd s') then show ?case using uo_step.Claim claim_uo_claims by (metis snd_conv)
next
  case (Settle i commitment state s r s') then show ?case using uo_step.Settle settle_uo_claims by (metis snd_conv)
next
  case (Observe i revision obs s r s') then show ?case using uo_step.Observe observe_uo_claims by (metis snd_conv)
qed

text \<open>Claims of the other stores are steps that a store allows for.\<close>

lemma ledger_stepE: "ledger.ledger_step s t \<Longrightarrow> (\<And>i idx u b r. claim_transport i idx u b s = (r, t) \<Longrightarrow> P) \<Longrightarrow> P"
  unfolding ledger.ledger_step_def by blast

lemma tx_others: "claims (tx_transports s) t \<Longrightarrow> tx_step\<^sup>*\<^sup>* s (s\<lparr>tx_transports := t\<rparr>)"
proof (induction rule: rtranclp_induct)
  case (step t u)
  from step(2) have "tx_step (s\<lparr>tx_transports := t\<rparr>) (s\<lparr>tx_transports := t\<rparr>\<lparr>tx_transports := u\<rparr>)"
    by (rule ledger_stepE) (rule tx_step.OtherStore, simp)
  with step(3) show ?case by simp
qed simp

lemma sp_others: "claims (sp_transports s) t \<Longrightarrow> (sp_step sha256)\<^sup>*\<^sup>* s (s\<lparr>sp_transports := t\<rparr>)"
proof (induction rule: rtranclp_induct)
  case (step t u)
  from step(2) have "sp_step sha256 (s\<lparr>sp_transports := t\<rparr>) (s\<lparr>sp_transports := t\<rparr>\<lparr>sp_transports := u\<rparr>)"
    by (rule ledger_stepE) (rule sp_step.OtherStore, simp)
  with step(3) show ?case by simp
qed simp

lemma uo_others: "claims (us_transports s) t \<Longrightarrow> (uo_step V)\<^sup>*\<^sup>* s (s\<lparr>us_transports := t\<rparr>)"
proof (induction rule: rtranclp_induct)
  case (step t u)
  from step(2) have "uo_step V (s\<lparr>us_transports := t\<rparr>) (s\<lparr>us_transports := t\<rparr>\<lparr>us_transports := u\<rparr>)"
    by (rule ledger_stepE) (rule uo_step.OtherStore, simp)
  with step(3) show ?case by simp
qed simp

definition seenBy :: "viem \<Rightarrow> (string \<Rightarrow> string) \<Rightarrow> int \<Rightarrow> RestStores \<Rightarrow> RestStores \<Rightarrow> bool" where
  "seenBy V sha256 clock S S' \<longleftrightarrow> shared S' \<and> (auth_step clock)\<^sup>*\<^sup>* (sy_accounts S) (sy_accounts S') \<and>
     tx_step\<^sup>*\<^sup>* (sy_transactions S) (sy_transactions S') \<and> (sp_step sha256)\<^sup>*\<^sup>* (sy_sponsorships S) (sy_sponsorships S') \<and>
     (uo_step V)\<^sup>*\<^sup>* (sy_operations S) (sy_operations S')"

lemma sys_step_seen: "sys_step V sha256 clock S S' \<Longrightarrow> shared S \<Longrightarrow> seenBy V sha256 clock S S'"
proof (induction rule: sys_step.induct)
  case (Accounts S a)
  then show ?case by (auto simp: seenBy_def shared_def)
next
  case (Transactions waited S t)
  note o = tx_op_step [OF Transactions(1)]
  have "sp_transports (sy_sponsorships S) = tx_transports (sy_transactions S)" "us_transports (sy_operations S) = tx_transports (sy_transactions S)"
    using Transactions(2) by (simp_all add: shared_def)
  then show ?case using o sp_others [of "sy_sponsorships S" "tx_transports t" sha256] uo_others [of "sy_operations S" "tx_transports t" V]
    by (simp add: seenBy_def shared_def share_def r_into_rtranclp)
next
  case (Sponsorships waited S t)
  note o = sp_op_step [OF Sponsorships(1)]
  have "tx_transports (sy_transactions S) = sp_transports (sy_sponsorships S)" "us_transports (sy_operations S) = sp_transports (sy_sponsorships S)"
    using Sponsorships(2) by (simp_all add: shared_def)
  then show ?case using o tx_others [of "sy_transactions S" "sp_transports t"] uo_others [of "sy_operations S" "sp_transports t" V]
    by (simp add: seenBy_def shared_def share_def r_into_rtranclp)
next
  case (UserOperations waited S t)
  note o = uo_op_step [OF UserOperations(1)]
  have "tx_transports (sy_transactions S) = us_transports (sy_operations S)" "sp_transports (sy_sponsorships S) = us_transports (sy_operations S)"
    using UserOperations(2) by (simp_all add: shared_def)
  then show ?case using o tx_others [of "sy_transactions S" "us_transports t"] sp_others [of "sy_sponsorships S" "us_transports t" sha256]
    by (simp add: seenBy_def shared_def share_def r_into_rtranclp)
qed

lemma sys_run_seen: "(sys_step V sha256 clock)\<^sup>*\<^sup>* S S' \<Longrightarrow> shared S \<Longrightarrow> seenBy V sha256 clock S S'"
proof (induction rule: rtranclp_induct)
  case (step T U)
  have "shared T" using step by (simp add: seenBy_def)
  note s = sys_step_seen [OF step(2) this]
  show ?case using step(3) [OF step(4)] s unfolding seenBy_def by (meson rtranclp_trans)
qed (simp add: seenBy_def)

lemma shared_start: "shared (startStores limits)"
  by (simp add: shared_def startStores_def emptyTxStore_def emptySponsorshipStore_def emptyUserOperationStore_def)

lemma sys_reach:
  assumes "(sys_step V sha256 clock)\<^sup>*\<^sup>* (startStores limits) S"
  shows "shared S" and "(auth_step clock)\<^sup>*\<^sup>* (newAccountStore limits) (sy_accounts S)" and "tx_step\<^sup>*\<^sup>* emptyTxStore (sy_transactions S)"
    and "(sp_step sha256)\<^sup>*\<^sup>* emptySponsorshipStore (sy_sponsorships S)" and "(uo_step V)\<^sup>*\<^sup>* emptyUserOperationStore (sy_operations S)"
  using sys_run_seen [OF assms shared_start] by (simp_all add: seenBy_def startStores_def)

section \<open>A refusing guard stops every guarded operation\<close>

lemma attempt_refused: "(\<And>x. m = Inr x \<Longrightarrow> \<exists>e. k x = (Inl e, s)) \<Longrightarrow> \<exists>e. attempt m s k = (Inl e, s)"
  by (cases m) (simp_all add: attempt_def)

definition refuses :: "guard \<Rightarrow> RestActor \<Rightarrow> bool" where
  "refuses g actor \<longleftrightarrow> (\<forall>scopes now. g actor scopes now \<noteq> Inr ())"

lemma refused_tx:
  assumes "refuses g actor"
  shows "pl_actor input = actor \<Longrightarrow> \<exists>e. create g input claim now s = (Inl e, s)"
    and "cl_actor submission = actor \<Longrightarrow> \<exists>e. claimSubmission g w submission s = (Inl e, s)"
  using assms unfolding create_def claimSubmission_def refuses_def
  by (intro attempt_refused; simp add: boundedClone_eq_Inr)+

lemma refused_sp:
  assumes "refuses g actor"
  shows "sr_actor input = actor \<Longrightarrow> \<exists>e. create_sp g w input now s = (Inl e, s)"
    and "sc_actor claim = actor \<Longrightarrow> \<exists>e. claim_sp g w claim s = (Inl e, s)"
  using assms unfolding create_sp_def claim_sp_def refuses_def
  by (intro attempt_refused; simp add: clone_sp_Inr)+

lemma refused_uo:
  assumes "refuses g actor"
  shows "ur_actor input = actor \<Longrightarrow> \<exists>e. create_uo V g binding clock input now s = (Inl e, s)"
    and "uc_actor claim = actor \<Longrightarrow> \<exists>e. claim_uo V g binding clock claim s = (Inl e, s)"
  using assms unfolding create_uo_def claim_uo_def refuses_def
  by (intro attempt_refused; simp add: clone_uo_Inr)+

section \<open>Holders of a step\<close>

text \<open>What a store has recorded as the transport of a step.\<close>

definition holds :: "RestStores \<Rightarrow> string \<Rightarrow> nat \<Rightarrow> ReservedTransport \<times> string \<Rightarrow> bool" where
  "holds S i k x \<longleftrightarrow>
     (\<exists>p. js_get (tx_plans (sy_transactions S)) i = Some p \<and> k < length (pl_steps p) \<and> binding_of (pl_steps p ! k) = Some x) \<or>
     (\<exists>j r. js_get (sp_records (sy_sponsorships S)) j = Some r \<and> sr_submission r \<noteq> None \<and> sr_planId r = i \<and>
        int k \<in> pf_stepIndex ` set (sr_requests r) \<and> x = (Relayr, j)) \<or>
     (\<exists>j r. js_get (us_records (sy_operations S)) j = Some r \<and> ur_submission r \<noteq> None \<and> ur_planId r = i \<and>
        int k \<in> set (ur_stepIndexes r) \<and> x = (Erc4337, j))"

lemma holdsE:
  assumes "holds S i k x"
  obtains (direct) p where "js_get (tx_plans (sy_transactions S)) i = Some p" "k < length (pl_steps p)" "binding_of (pl_steps p ! k) = Some x"
  | (relayr) j r where "js_get (sp_records (sy_sponsorships S)) j = Some r" "sr_submission r \<noteq> None" "sr_planId r = i"
      "int k \<in> pf_stepIndex ` set (sr_requests r)" "x = (Relayr, j)"
  | (erc4337) j r where "js_get (us_records (sy_operations S)) j = Some r" "ur_submission r \<noteq> None" "ur_planId r = i"
      "int k \<in> set (ur_stepIndexes r)" "x = (Erc4337, j)"
  using assms unfolding holds_def by (elim disjE exE conjE) (assumption | rule direct relayr erc4337)+

lemma holds_bound:
  assumes S: "(sys_step V sha256 clock)\<^sup>*\<^sup>* (startStores limits) S" and h: "holds S i k x"
  shows "boundTo (tx_transports (sy_transactions S)) i (int k) = Some x"
proof -
  note r = sys_reach [OF S]
  from h show ?thesis
  proof (cases rule: holdsE)
    case (direct p)
    then show ?thesis using plan_ok_bound [OF tx_inv_plan [OF reach_inv [OF r(3)] direct(1)]] by simp
  next
    case (relayr j rec)
    then have "published (sy_sponsorships S) rec" "sr_id rec = j" using sp_invD(1,2) [OF sp_reach [OF r(4)]] by blast+
    then show ?thesis using relayr r(1) by (auto simp: published_def shared_def)
  next
    case (erc4337 j rec)
    then have "held (sy_operations S) j rec" using uo_invD(2) [OF uo_reach [OF r(5)]] by blast
    then show ?thesis using erc4337 r(1) by (auto simp: held_def shared_def)
  qed
qed

lemma holds_forever:
  assumes S: "(sys_step V sha256 clock)\<^sup>*\<^sup>* (startStores limits) S" and run: "(sys_step V sha256 clock)\<^sup>*\<^sup>* S S'" and h: "holds S i k x"
  shows "holds S' i k x"
proof -
  note r = sys_reach [OF S]
  note s = sys_run_seen [OF run r(1), unfolded seenBy_def]
  from h show ?thesis
  proof (cases rule: holdsE)
    case (direct p)
    obtain q where q: "js_get (tx_plans (sy_transactions S')) i = Some q" "binding_of (pl_steps q ! k) = Some x" "k < length (pl_steps q)"
      using binding_kept [OF r(3) _ direct] s by blast
    then show ?thesis unfolding holds_def by blast
  next
    case (relayr j rec)
    have "sp_extends sha256 (sy_sponsorships S) (sy_sponsorships S')" using sp_run [OF _ sp_reach [OF r(4)]] s by blast
    then obtain r' where r': "js_get (sp_records (sy_sponsorships S')) j = Some r'" "(sp_change sha256)\<^sup>*\<^sup>* rec r'"
      using relayr(1) unfolding sp_extends_def by blast
    have "sr_submission r' \<noteq> None" using sp_history_submission [OF r'(2)] relayr(2) by auto
    moreover note sp_identityD [OF sp_history.history_identity [OF r'(2) TrueI]]
    ultimately show ?thesis using r'(1) relayr unfolding holds_def by auto
  next
    case (erc4337 j rec)
    have "uo_extends (defaultCodec V) (sy_operations S) (sy_operations S')" using uo_run [OF _ uo_reach [OF r(5)]] s by blast
    then obtain r' where r': "js_get (us_records (sy_operations S')) j = Some r'" "(uo_change (defaultCodec V))\<^sup>*\<^sup>* rec r'"
      using erc4337(1) unfolding uo_extends_def by blast
    have "ur_submission r' \<noteq> None" using uo_history_submission [OF r'(2)] erc4337(2) by auto
    moreover note uo_identityD [OF uo_history.history_identity [OF r'(2) TrueI]]
    ultimately show ?thesis using r'(1) erc4337 unfolding holds_def by auto
  qed
qed

section \<open>A concrete run\<close>

lemma sample_owner_active: "activeActor 0 sampleA1 alice [scope] 1 = Inr ()" "activeActor 0 sampleA1 alice [scope] 2 = Inr ()"
proof -
  have g: "actorGrantId alice = Inr None" by (simp add: actorGrantId_def alice_def ownerPrincipal_def auth_checks)
  have a: "js_get (as_accounts sampleA1) ''acct'' = Some sampleAccount" "as_bots sampleA1 = []" by (simp_all add: auth_sample_defs)
  have "assertActorAuthority sampleAccount None alice [scope] now = Inr ()" if "assertTime_auth now = Inr ()" for now
    using g that by (simp add: assertActorAuthority_def authorityRequest_def alice_def auth_checks principalFor_def ALL_scopes Let_def validScopes_def
        ownerPrincipal_def sampleAccount_def)
  then show "activeActor 0 sampleA1 alice [scope] 1 = Inr ()" "activeActor 0 sampleA1 alice [scope] 2 = Inr ()"
    using g a by (simp_all add: activeActor_def require_account_def find_grant_def alice_def auth_checks)
qed

lemma clone_uo_value: "\<exists>e. clone_uo j v = Inl e \<or> clone_uo j v = Inr v"
  by (cases "clone_uo j v") (auto simp: clone_uo_Inr)

lemma create_uo_guard:
  assumes "g (ur_actor input) [Plan] (clock 0 div 1000) = Inr ()"
  shows "create_uo V g binding clock input now s = create_uo V admitAll binding clock input now s"
  using assms clone_uo_value [of json_of_UserOperationRecord input]
  by (cases "assertNew_uo input now (defaultCodec V)"; elim exE disjE) (simp_all add: create_uo_def admitAll_def)

lemma claim_uo_guard:
  assumes "g (uc_actor input) [Relay] (clock 0 div 1000) = Inr ()"
  shows "claim_uo V g binding clock input s = claim_uo V admitAll binding clock input s"
  using assms clone_uo_value [of json_of_UserOperationClaim input]
  by (cases "assertClaim_uo input"; elim exE disjE) (simp_all add: claim_uo_def admitAll_def)

definition sampleStores :: "AccountStore \<Rightarrow> UserOperationStore \<Rightarrow> RestStores" where
  "sampleStores a u = \<lparr>sy_accounts = a, sy_transactions = emptyTxStore\<lparr>tx_transports := us_transports u\<rparr>,
     sy_sponsorships = emptySponsorshipStore\<lparr>sp_transports := us_transports u\<rparr>, sy_operations = u\<rparr>"

lemma sampleStores_start: "startStores sampleLimits = sampleStores sampleA0 emptyUserOperationStore"
  by (simp add: sampleStores_def share_def startStores_def sampleA0_def emptyTxStore_def emptySponsorshipStore_def emptyUserOperationStore_def)

lemma sampleStores_accounts: "auth_step 250 a a' \<Longrightarrow> sys_step sampleViem sha256 250 (sampleStores a u) (sampleStores a' u)"
  using sys_step.Accounts [of 250 "sampleStores a u" a'] by (simp add: sampleStores_def share_def)

lemma sampleStores_operations:
  "uo_op sampleViem (activeActor 0 a) u u' \<Longrightarrow> sys_step sampleViem sha256 250 (sampleStores a u) (sampleStores a u')"
  using sys_step.UserOperations [of sampleViem 0 "sampleStores a u" u'] by (simp add: sampleStores_def share_def)

lemma sample_system_run:
  "(sys_step sampleViem sha256 250)\<^sup>*\<^sup>* (startStores sampleLimits) (sampleStores sampleA1 sampleUo2)"
  "(sys_step sampleViem sha256 250)\<^sup>*\<^sup>* (sampleStores sampleA1 sampleUo2) (sampleStores sampleA3 sampleUo2)"
proof -
  have a: "sys_step sampleViem sha256 250 (startStores sampleLimits) (sampleStores sampleA1 emptyUserOperationStore)"
    unfolding sampleStores_start by (rule sampleStores_accounts [OF sample_auth_run(1)])
  have "create_uo sampleViem (activeActor 0 sampleA1) admitBinding (\<lambda>_. 1500) sampleUo 1500 emptyUserOperationStore = (Inr sampleUo, sampleUo1)"
    using sample_create_uo sample_owner_active by (subst create_uo_guard) (simp_all add: sampleUo_fields)
  note b = sampleStores_operations [OF uo_op.Create, OF this, of sha256]
  have "claim_uo sampleViem (activeActor 0 sampleA1) admitBinding (\<lambda>_. 2000) sampleUoClaim sampleUo1 = (Inr (sampleUoPublished, True), sampleUo2)"
    using sample_claim_uo sample_owner_active by (subst claim_uo_guard) (simp_all add: sampleUoClaim_fields)
  note c = sampleStores_operations [OF uo_op.Claim, OF this, of sha256]
  show "(sys_step sampleViem sha256 250)\<^sup>*\<^sup>* (startStores sampleLimits) (sampleStores sampleA1 sampleUo2)"
    using a b c by (meson converse_rtranclp_into_rtranclp r_into_rtranclp)
  show "(sys_step sampleViem sha256 250)\<^sup>*\<^sup>* (sampleStores sampleA1 sampleUo2) (sampleStores sampleA3 sampleUo2)"
    using sampleStores_accounts [OF sample_auth_run(2)] sampleStores_accounts [OF sample_auth_run(3)]
    by (meson converse_rtranclp_into_rtranclp r_into_rtranclp)
qed

lemma sample_holds: "holds (sampleStores sampleA1 sampleUo2) ''p1'' 0 (Erc4337, ''uo1'')"
  by (auto simp: holds_def sampleStores_def emptyTxStore_def emptySponsorshipStore_def sampleUo2_def sampleUoPublished_def sampleUo_fields)

end
