(* ===== verification/Rulesets.thy ===== *)
theory Rulesets
  imports Canonical
begin

text \<open>
  Rulesets of projects (\<^verbatim>\<open>src/mcp/src/domain/rulesets.ts\<close> with the integers of \<^verbatim>\<open>schemas.ts\<close>): what the schemas
  accept, the conversion to the integers of the contracts and back, and the two formulas of the core
  contracts the economic model is built from. Integers travel as decimal strings. That an address is
  well-formed is decided by viem; \<open>validAddress\<close> stands for it. The schema predicates speak of parsed values,
  whose addresses are in checksum form and whose small integers are already text.
\<close>

section \<open>Integers and errors\<close>

datatype domain_error = DomainError (de_code: string) (de_message: string)

definition uintText :: "string \<Rightarrow> bool" where
  "uintText s \<longleftrightarrow> isDecimal s \<and> bigInt s < 2 ^ 256"

definition uint :: "int \<Rightarrow> string \<Rightarrow> bool" where
  "uint maximum s \<longleftrightarrow> uintText s \<and> bigInt s \<le> maximum"

abbreviation uintBits :: "nat \<Rightarrow> string \<Rightarrow> bool" where
  "uintBits bits s \<equiv> uint (2 ^ bits - 1) s"

definition hashSchema :: "string \<Rightarrow> bool" where "hashSchema s \<longleftrightarrow> hexOf 64 s"

abbreviation percentOk :: "string \<Rightarrow> bool" where "percentOk \<equiv> uint 1000000000"
abbreviation rateOk :: "string \<Rightarrow> bool" where "rateOk \<equiv> uint 10000"

text \<open>\<^verbatim>\<open>BigInt\<close> division truncates towards zero; divisors are positive here.\<close>

definition bigDiv :: "int \<Rightarrow> int \<Rightarrow> int" where
  "bigDiv a b = (if a < 0 then - ((- a) div b) else a div b)"

definition zeroAddress :: string where "zeroAddress = ''0x'' @ replicate 40 CHR ''0''"

definition maxEntries :: nat where "maxEntries = 32"

section \<open>Configurations\<close>

record RulesetMetadata =
  md_reservedPercent :: string
  md_cashOutTaxRate :: string
  md_baseCurrency :: string
  md_pausePay :: bool
  md_pauseCreditTransfers :: bool
  md_allowOwnerMinting :: bool
  md_allowSetCustomToken :: bool
  md_allowTerminalMigration :: bool
  md_allowSetTerminals :: bool
  md_allowSetController :: bool
  md_allowAddAccountingContext :: bool
  md_allowAddPriceFeed :: bool
  md_ownerMustSendPayouts :: bool
  md_holdFees :: bool
  md_scopeCashOutsToLocalBalances :: bool
  md_useDataHookForPay :: bool
  md_useDataHookForCashOut :: bool
  md_dataHook :: string
  md_metadata :: string

record Split =
  sl_percent :: string
  sl_projectId :: string
  sl_beneficiary :: string
  sl_preferAddToBalance :: bool
  sl_lockedUntil :: string
  sl_hook :: string

record SplitGroup =
  sg_groupId :: string
  sg_splits :: "Split list"

record CurrencyAmount =
  ca_amount :: string
  ca_currency :: string

record FundAccessLimitGroup =
  fa_terminal :: string
  fa_token :: string
  fa_payoutLimits :: "CurrencyAmount list"
  fa_surplusAllowances :: "CurrencyAmount list"

record RulesetConfig =
  rs_mustStartAtOrAfter :: string
  rs_duration :: string
  rs_weight :: string
  rs_weightCutPercent :: string
  rs_approvalHook :: string
  rs_metadata :: RulesetMetadata
  rs_splitGroups :: "SplitGroup list"
  rs_fundAccessLimitGroups :: "FundAccessLimitGroup list"

record AccountingContext =
  ax_token :: string
  ax_decimals :: string
  ax_currency :: string

record TerminalConfig =
  tc_terminal :: string
  tc_accountingContextsToAccept :: "AccountingContext list"

section \<open>What the schemas accept\<close>

definition rulesetMetadataSchema :: "(string \<Rightarrow> bool) \<Rightarrow> RulesetMetadata \<Rightarrow> bool" where
  "rulesetMetadataSchema validAddress v \<longleftrightarrow>
     rateOk (md_reservedPercent v) \<and> rateOk (md_cashOutTaxRate v) \<and> uintBits 32 (md_baseCurrency v) \<and>
     validAddress (md_dataHook v) \<and> uint 16383 (md_metadata v) \<and>
     \<not> ((md_useDataHookForPay v \<or> md_useDataHookForCashOut v) \<and> md_dataHook v = zeroAddress)"

definition splitSchema :: "(string \<Rightarrow> bool) \<Rightarrow> Split \<Rightarrow> bool" where
  "splitSchema validAddress v \<longleftrightarrow>
     percentOk (sl_percent v) \<and> bigInt (sl_percent v) > 0 \<and> uintBits 64 (sl_projectId v) \<and>
     validAddress (sl_beneficiary v) \<and> uintBits 48 (sl_lockedUntil v) \<and> validAddress (sl_hook v) \<and>
     \<not> (sl_beneficiary v = zeroAddress \<and> (sl_hook v = zeroAddress \<or> sl_projectId v \<noteq> ''0''))"

definition splitGroupSchema :: "(string \<Rightarrow> bool) \<Rightarrow> SplitGroup \<Rightarrow> bool" where
  "splitGroupSchema validAddress v \<longleftrightarrow>
     uintText (sg_groupId v) \<and> length (sg_splits v) \<le> maxEntries \<and> list_all (splitSchema validAddress) (sg_splits v) \<and>
     \<not> foldl (\<lambda>total split. total + bigInt (sl_percent split)) 0 (sg_splits v) > 1000000000"

definition currencyAmountSchema :: "CurrencyAmount \<Rightarrow> bool" where
  "currencyAmountSchema v \<longleftrightarrow> uintBits 224 (ca_amount v) \<and> uintBits 32 (ca_currency v)"

fun strictlyIncreasing :: "int list \<Rightarrow> bool" where
  "strictlyIncreasing (x # y # ys) \<longleftrightarrow> \<not> y \<le> x \<and> strictlyIncreasing (y # ys)"
| "strictlyIncreasing _ \<longleftrightarrow> True"

definition currencyAmountsSchema :: "CurrencyAmount list \<Rightarrow> bool" where
  "currencyAmountsSchema vs \<longleftrightarrow>
     length vs \<le> maxEntries \<and> list_all currencyAmountSchema vs \<and> strictlyIncreasing (map (bigInt \<circ> ca_currency) vs)"

definition fundAccessLimitGroupSchema :: "(string \<Rightarrow> bool) \<Rightarrow> FundAccessLimitGroup \<Rightarrow> bool" where
  "fundAccessLimitGroupSchema validAddress v \<longleftrightarrow>
     validAddress (fa_terminal v) \<and> fa_terminal v \<noteq> zeroAddress \<and> validAddress (fa_token v) \<and> fa_token v \<noteq> zeroAddress \<and>
     currencyAmountsSchema (fa_payoutLimits v) \<and> currencyAmountsSchema (fa_surplusAllowances v)"

text \<open>\<^verbatim>\<open>duplicates\<close>: the indexes that get an issue.\<close>

fun duplicatesFrom :: "nat \<Rightarrow> string list \<Rightarrow> string list \<Rightarrow> nat list" where
  "duplicatesFrom i seen [] = []"
| "duplicatesFrom i seen (v # vs) =
     (if toLowerCase v \<in> set seen then [i] else []) @ duplicatesFrom (Suc i) (toLowerCase v # seen) vs"

definition duplicates :: "string list \<Rightarrow> nat list" where
  "duplicates vs = duplicatesFrom 0 [] vs"

definition rulesetConfigSchema :: "(string \<Rightarrow> bool) \<Rightarrow> RulesetConfig \<Rightarrow> bool" where
  "rulesetConfigSchema validAddress v \<longleftrightarrow>
     uintBits 48 (rs_mustStartAtOrAfter v) \<and> uintBits 32 (rs_duration v) \<and> uintBits 112 (rs_weight v) \<and>
     percentOk (rs_weightCutPercent v) \<and> validAddress (rs_approvalHook v) \<and> rulesetMetadataSchema validAddress (rs_metadata v) \<and>
     length (rs_splitGroups v) \<le> maxEntries \<and> list_all (splitGroupSchema validAddress) (rs_splitGroups v) \<and>
     length (rs_fundAccessLimitGroups v) \<le> maxEntries \<and>
     list_all (fundAccessLimitGroupSchema validAddress) (rs_fundAccessLimitGroups v) \<and>
     \<not> bigInt (rs_mustStartAtOrAfter v) + bigInt (rs_duration v) > 2 ^ 48 - 1 \<and>
     duplicates (map sg_groupId (rs_splitGroups v)) = [] \<and>
     duplicates (map (\<lambda>g. fa_terminal g @ '':'' @ fa_token g) (rs_fundAccessLimitGroups v)) = []"

text \<open>\<open>nativeToken\<close> is \<^verbatim>\<open>NATIVE_TOKEN\<close> of the SDK.\<close>

definition accountingContextSchema :: "(string \<Rightarrow> bool) \<Rightarrow> string \<Rightarrow> AccountingContext \<Rightarrow> bool" where
  "accountingContextSchema validAddress nativeToken v \<longleftrightarrow>
     validAddress (ax_token v) \<and> ax_token v \<noteq> zeroAddress \<and> uint 36 (ax_decimals v) \<and>
     uintBits 32 (ax_currency v) \<and> bigInt (ax_currency v) > 0 \<and>
     \<not> (same (ax_token v) nativeToken \<and> ax_decimals v \<noteq> ''18'')"

definition terminalConfigSchema :: "(string \<Rightarrow> bool) \<Rightarrow> string \<Rightarrow> TerminalConfig \<Rightarrow> bool" where
  "terminalConfigSchema validAddress nativeToken v \<longleftrightarrow>
     validAddress (tc_terminal v) \<and> tc_terminal v \<noteq> zeroAddress \<and>
     length (tc_accountingContextsToAccept v) \<le> maxEntries \<and>
     list_all (accountingContextSchema validAddress nativeToken) (tc_accountingContextsToAccept v) \<and>
     duplicates (map ax_token (tc_accountingContextsToAccept v)) = []"

definition terminalConfigurationsSchema :: "(string \<Rightarrow> bool) \<Rightarrow> string \<Rightarrow> TerminalConfig list \<Rightarrow> bool" where
  "terminalConfigurationsSchema validAddress nativeToken vs \<longleftrightarrow>
     length vs \<le> maxEntries \<and> list_all (terminalConfigSchema validAddress nativeToken) vs \<and> duplicates (map tc_terminal vs) = []"

text \<open>The limit groups that get an issue, by ruleset and group index.\<close>

definition requireLimitsOnAcceptedContexts :: "RulesetConfig list \<Rightarrow> TerminalConfig list \<Rightarrow> (nat \<times> nat) list" where
  "requireLimitsOnAcceptedContexts configs terminals =
     (let accepted = concat (map (\<lambda>t. map (\<lambda>c. toLowerCase (tc_terminal t @ '':'' @ ax_token c)) (tc_accountingContextsToAccept t)) terminals) in
      concat (map (\<lambda>(i, config). concat (map (\<lambda>(j, g).
          if toLowerCase (fa_terminal g @ '':'' @ fa_token g) \<notin> set accepted then [(i, j)] else [])
        (enumerate 0 (rs_fundAccessLimitGroups config)))) (enumerate 0 configs)))"

section \<open>Conversion to contract integers\<close>

record JBMetadata =
  jm_reservedPercent :: int
  jm_cashOutTaxRate :: int
  jm_baseCurrency :: int
  jm_pausePay :: bool
  jm_pauseCreditTransfers :: bool
  jm_allowOwnerMinting :: bool
  jm_allowSetCustomToken :: bool
  jm_allowTerminalMigration :: bool
  jm_allowSetTerminals :: bool
  jm_allowSetController :: bool
  jm_allowAddAccountingContext :: bool
  jm_allowAddPriceFeed :: bool
  jm_ownerMustSendPayouts :: bool
  jm_holdFees :: bool
  jm_scopeCashOutsToLocalBalances :: bool
  jm_useDataHookForPay :: bool
  jm_useDataHookForCashOut :: bool
  jm_dataHook :: string
  jm_metadata :: int

record JBSplit =
  js_percent :: int
  js_projectId :: int
  js_beneficiary :: string
  js_preferAddToBalance :: bool
  js_lockedUntil :: int
  js_hook :: string

record JBSplitGroup =
  jg_groupId :: int
  jg_splits :: "JBSplit list"

record JBCurrencyAmount =
  ja_amount :: int
  ja_currency :: int

record JBFundAccessLimitGroup =
  jf_terminal :: string
  jf_token :: string
  jf_payoutLimits :: "JBCurrencyAmount list"
  jf_surplusAllowances :: "JBCurrencyAmount list"

record JBRulesetConfig =
  jr_mustStartAtOrAfter :: int
  jr_duration :: int
  jr_weight :: int
  jr_weightCutPercent :: int
  jr_approvalHook :: string
  jr_metadata :: JBMetadata
  jr_splitGroups :: "JBSplitGroup list"
  jr_fundAccessLimitGroups :: "JBFundAccessLimitGroup list"

definition toJBMetadata :: "RulesetMetadata \<Rightarrow> JBMetadata" where
  "toJBMetadata v =
     \<lparr>jm_reservedPercent = bigInt (md_reservedPercent v), jm_cashOutTaxRate = bigInt (md_cashOutTaxRate v),
      jm_baseCurrency = bigInt (md_baseCurrency v), jm_pausePay = md_pausePay v, jm_pauseCreditTransfers = md_pauseCreditTransfers v,
      jm_allowOwnerMinting = md_allowOwnerMinting v, jm_allowSetCustomToken = md_allowSetCustomToken v,
      jm_allowTerminalMigration = md_allowTerminalMigration v, jm_allowSetTerminals = md_allowSetTerminals v,
      jm_allowSetController = md_allowSetController v, jm_allowAddAccountingContext = md_allowAddAccountingContext v,
      jm_allowAddPriceFeed = md_allowAddPriceFeed v, jm_ownerMustSendPayouts = md_ownerMustSendPayouts v,
      jm_holdFees = md_holdFees v, jm_scopeCashOutsToLocalBalances = md_scopeCashOutsToLocalBalances v,
      jm_useDataHookForPay = md_useDataHookForPay v, jm_useDataHookForCashOut = md_useDataHookForCashOut v,
      jm_dataHook = md_dataHook v, jm_metadata = bigInt (md_metadata v)\<rparr>"

definition toJBSplit :: "Split \<Rightarrow> JBSplit" where
  "toJBSplit split =
     \<lparr>js_percent = bigInt (sl_percent split), js_projectId = bigInt (sl_projectId split), js_beneficiary = sl_beneficiary split,
      js_preferAddToBalance = sl_preferAddToBalance split, js_lockedUntil = bigInt (sl_lockedUntil split), js_hook = sl_hook split\<rparr>"

definition toJBAmount :: "CurrencyAmount \<Rightarrow> JBCurrencyAmount" where
  "toJBAmount a = \<lparr>ja_amount = bigInt (ca_amount a), ja_currency = bigInt (ca_currency a)\<rparr>"

definition toRulesetConfig :: "RulesetConfig \<Rightarrow> JBRulesetConfig" where
  "toRulesetConfig v =
     \<lparr>jr_mustStartAtOrAfter = bigInt (rs_mustStartAtOrAfter v), jr_duration = bigInt (rs_duration v),
      jr_weight = bigInt (rs_weight v), jr_weightCutPercent = bigInt (rs_weightCutPercent v),
      jr_approvalHook = rs_approvalHook v, jr_metadata = toJBMetadata (rs_metadata v),
      jr_splitGroups = map (\<lambda>g. \<lparr>jg_groupId = bigInt (sg_groupId g), jg_splits = map toJBSplit (sg_splits g)\<rparr>) (rs_splitGroups v),
      jr_fundAccessLimitGroups = map (\<lambda>g. \<lparr>jf_terminal = fa_terminal g, jf_token = fa_token g,
        jf_payoutLimits = map toJBAmount (fa_payoutLimits g),
        jf_surplusAllowances = map toJBAmount (fa_surplusAllowances g)\<rparr>) (rs_fundAccessLimitGroups v)\<rparr>"

definition fromJBMetadata :: "JBMetadata \<Rightarrow> RulesetMetadata" where
  "fromJBMetadata m =
     \<lparr>md_reservedPercent = intText (jm_reservedPercent m), md_cashOutTaxRate = intText (jm_cashOutTaxRate m),
      md_baseCurrency = intText (jm_baseCurrency m), md_pausePay = jm_pausePay m, md_pauseCreditTransfers = jm_pauseCreditTransfers m,
      md_allowOwnerMinting = jm_allowOwnerMinting m, md_allowSetCustomToken = jm_allowSetCustomToken m,
      md_allowTerminalMigration = jm_allowTerminalMigration m, md_allowSetTerminals = jm_allowSetTerminals m,
      md_allowSetController = jm_allowSetController m, md_allowAddAccountingContext = jm_allowAddAccountingContext m,
      md_allowAddPriceFeed = jm_allowAddPriceFeed m, md_ownerMustSendPayouts = jm_ownerMustSendPayouts m,
      md_holdFees = jm_holdFees m, md_scopeCashOutsToLocalBalances = jm_scopeCashOutsToLocalBalances m,
      md_useDataHookForPay = jm_useDataHookForPay m, md_useDataHookForCashOut = jm_useDataHookForCashOut m,
      md_dataHook = jm_dataHook m, md_metadata = intText (jm_metadata m)\<rparr>"

definition fromJBSplit :: "JBSplit \<Rightarrow> Split" where
  "fromJBSplit split =
     \<lparr>sl_percent = intText (js_percent split), sl_projectId = intText (js_projectId split), sl_beneficiary = js_beneficiary split,
      sl_preferAddToBalance = js_preferAddToBalance split, sl_lockedUntil = intText (js_lockedUntil split), sl_hook = js_hook split\<rparr>"

definition fromJBAmount :: "JBCurrencyAmount \<Rightarrow> CurrencyAmount" where
  "fromJBAmount a = \<lparr>ca_amount = intText (ja_amount a), ca_currency = intText (ja_currency a)\<rparr>"

text \<open>Stored split groups come with the group id as text.\<close>

definition toRulesetInput ::
  "int \<Rightarrow> int \<Rightarrow> int \<Rightarrow> string \<Rightarrow> JBMetadata \<Rightarrow> (string \<times> JBSplit list) list \<Rightarrow> JBFundAccessLimitGroup list \<Rightarrow> RulesetConfig" where
  "toRulesetInput duration weight weightCutPercent approvalHook metadata splitGroups limitGroups =
     \<lparr>rs_mustStartAtOrAfter = ''0'', rs_duration = intText duration, rs_weight = intText weight,
      rs_weightCutPercent = intText weightCutPercent, rs_approvalHook = approvalHook, rs_metadata = fromJBMetadata metadata,
      rs_splitGroups = map (\<lambda>(i, splits). \<lparr>sg_groupId = i, sg_splits = map fromJBSplit splits\<rparr>)
        (filter (\<lambda>(i, splits). length splits > 0) splitGroups),
      rs_fundAccessLimitGroups = map (\<lambda>g. \<lparr>fa_terminal = jf_terminal g, fa_token = jf_token g,
          fa_payoutLimits = map fromJBAmount (jf_payoutLimits g), fa_surplusAllowances = map fromJBAmount (jf_surplusAllowances g)\<rparr>)
        (filter (\<lambda>g. length (jf_payoutLimits g) + length (jf_surplusAllowances g) > 0) limitGroups)\<rparr>"

record JBAccountingContext =
  jx_token :: string
  jx_decimals :: int
  jx_currency :: int

definition toTerminalConfig :: "TerminalConfig \<Rightarrow> string \<times> JBAccountingContext list" where
  "toTerminalConfig v = (tc_terminal v,
     map (\<lambda>c. \<lparr>jx_token = ax_token c, jx_decimals = bigInt (ax_decimals c), jx_currency = bigInt (ax_currency c)\<rparr>)
       (tc_accountingContextsToAccept v))"

section \<open>The formulas of the core contracts\<close>

fun decayLoop :: "nat \<Rightarrow> int \<Rightarrow> int \<Rightarrow> int" where
  "decayLoop 0 cutPercent weight = weight"
| "decayLoop (Suc cycles) cutPercent weight =
     (if weight > 0 then decayLoop cycles cutPercent ((weight * (1000000000 - cutPercent)) div 1000000000) else weight)"

definition decayedWeight :: "int \<Rightarrow> int \<Rightarrow> int \<Rightarrow> domain_error + int" where
  "decayedWeight weight cutPercent completedCycles =
     bindR (ensure (\<not> (weight < 0 \<or> weight \<ge> 2 ^ 112 \<or> cutPercent < 0 \<or> cutPercent > 1000000000 \<or> completedCycles < 0 \<or> completedCycles > 10000))
       (DomainError ''INVALID_SCENARIO'' ''Invalid or unbounded decay inputs.'')) (\<lambda>_.
     Inr (decayLoop (nat completedCycles) cutPercent weight))"

definition cashOutCurve :: "int \<Rightarrow> int \<Rightarrow> int \<Rightarrow> int \<Rightarrow> domain_error + int" where
  "cashOutCurve surplus count supply tax =
     bindR (ensure (\<not> (list_ex (\<lambda>v. v < 0 \<or> v > 2 ^ 256 - 1) [surplus, count, supply] \<or> count > supply \<or> tax < 0 \<or> tax > 10000))
       (DomainError ''INVALID_SCENARIO'' ''Invalid cash-out curve inputs.'')) (\<lambda>_.
     Inr (if count = 0 \<or> tax = 10000 then 0
          else if count = supply then surplus
          else let base = (surplus * count) div supply in
            if tax = 0 then base else (base * (10000 - tax + (tax * count) div supply)) div 10000))"

end
