(* ===== verification/Economics.thy ===== *)
theory Economics
  imports Rulesets
begin

text \<open>
  The economic model of rulesets and revnets (\<^verbatim>\<open>src/mcp/src/domain/economics.ts\<close>, with \<^verbatim>\<open>revConfigSchema\<close> of
  \<^verbatim>\<open>products.ts\<close>): the stages of a revnet are resolved to starts and weights the way the contracts queue
  them, and scenarios of payments and cash-outs are computed with the rounding of the contracts. The
  address of the revnet owner contract comes from the SDK: \<open>isRevOwner\<close> and \<open>revOwner\<close> are parameters.
\<close>

section \<open>Input\<close>

record AutoIssuance =
  ai_chainId :: string
  ai_count :: string
  ai_beneficiary :: string

record RevStage =
  sg_startsAtOrAfter :: string
  sg_autoIssuances :: "AutoIssuance list"
  sg_splitPercent :: string
  sg_stageSplits :: "Split list"
  sg_initialIssuance :: string
  sg_issuanceCutFrequency :: string
  sg_issuanceCutPercent :: string
  sg_cashOutTaxRate :: string
  sg_extraMetadata :: string

record RevDescription =
  rd_name :: string
  rd_ticker :: string
  rd_uri :: string
  rd_salt :: string

record RevConfig =
  rv_description :: RevDescription
  rv_baseCurrency :: string
  rv_operator :: string
  rv_scopeCashOutsToLocalBalances :: bool
  rv_stageConfigurations :: "RevStage list"

text \<open>The schema of split lists that \<^verbatim>\<open>products.ts\<close> calls \<^verbatim>\<open>splits\<close>.\<close>

definition splitsSchema :: "(string \<Rightarrow> bool) \<Rightarrow> Split list \<Rightarrow> bool" where
  "splitsSchema validAddress items \<longleftrightarrow>
     length items \<le> 32 \<and> list_all (splitSchema validAddress) items \<and>
     foldl (\<lambda>sum item. sum + bigInt (sl_percent item)) 0 items \<le> 1000000000"

definition revStageSchema :: "(string \<Rightarrow> bool) \<Rightarrow> RevStage \<Rightarrow> bool" where
  "revStageSchema validAddress v \<longleftrightarrow>
     uintBits 48 (sg_startsAtOrAfter v) \<and> bigInt (sg_startsAtOrAfter v) > 0 \<and>
     length (sg_autoIssuances v) \<le> 32 \<and>
     list_all (\<lambda>a. uintBits 32 (ai_chainId a) \<and> bigInt (ai_chainId a) > 0 \<and> uintBits 104 (ai_count a) \<and>
        validAddress (ai_beneficiary a) \<and> ai_beneficiary a \<noteq> zeroAddress) (sg_autoIssuances v) \<and>
     uint 10000 (sg_splitPercent v) \<and> splitsSchema validAddress (sg_stageSplits v) \<and> uintBits 112 (sg_initialIssuance v) \<and>
     uintBits 32 (sg_issuanceCutFrequency v) \<and> uint 1000000000 (sg_issuanceCutPercent v) \<and>
     uint 9999 (sg_cashOutTaxRate v) \<and> uint 16383 (sg_extraMetadata v) \<and>
     (sg_splitPercent v = ''0'' \<or> length (sg_stageSplits v) > 0)"

definition revConfigSchema :: "(string \<Rightarrow> bool) \<Rightarrow> RevConfig \<Rightarrow> bool" where
  "revConfigSchema validAddress v \<longleftrightarrow>
     1 \<le> length (rd_name (rv_description v)) \<and> length (rd_name (rv_description v)) \<le> 256 \<and>
     1 \<le> length (rd_ticker (rv_description v)) \<and> length (rd_ticker (rv_description v)) \<le> 32 \<and>
     length (rd_uri (rv_description v)) \<le> 4096 \<and> hashSchema (rd_salt (rv_description v)) \<and>
     uintBits 32 (rv_baseCurrency v) \<and> bigInt (rv_baseCurrency v) > 0 \<and> validAddress (rv_operator v) \<and>
     1 \<le> length (rv_stageConfigurations v) \<and> length (rv_stageConfigurations v) \<le> 16 \<and>
     list_all (revStageSchema validAddress) (rv_stageConfigurations v) \<and>
     strictlyIncreasing (map (bigInt \<circ> sg_startsAtOrAfter) (rv_stageConfigurations v))"

datatype RevnetModel = LiveProject | StageConfig RevConfig nat

datatype RulesetRole = InitialRole | SuccessorRole

record CashOutInput =
  ci_surplusAtomic :: string
  ci_cashOutCount :: string
  ci_totalSupply :: string

record Scenario =
  sn_label :: string
  sn_contributionInBaseCurrency18 :: string
  sn_cashOut :: "CashOutInput option"

record ModelInput =
  mi_rulesetConfiguration :: "RulesetConfig option"
  mi_rulesetRole :: "RulesetRole option"
  mi_inheritedWeight :: "string option"
  mi_revnet :: "RevnetModel option"
  mi_completedCycles :: int
  mi_scenarios :: "Scenario list"

definition scenarioSchema :: "Scenario \<Rightarrow> bool" where
  "scenarioSchema v \<longleftrightarrow>
     1 \<le> length (sn_label v) \<and> length (sn_label v) \<le> 160 \<and> uintText (sn_contributionInBaseCurrency18 v) \<and>
     (case sn_cashOut v of None \<Rightarrow> True
      | Some c \<Rightarrow> uintText (ci_surplusAtomic c) \<and> uintText (ci_cashOutCount c) \<and> uintText (ci_totalSupply c) \<and>
          \<not> bigInt (ci_cashOutCount c) > bigInt (ci_totalSupply c))"

text \<open>The \<^verbatim>\<open>superRefine\<close> of the whole input.\<close>

definition modelInputRefined :: "ModelInput \<Rightarrow> bool" where
  "modelInputRefined v \<longleftrightarrow>
     (case (mi_rulesetConfiguration v, mi_revnet v) of
        (None, None) \<Rightarrow> False
      | (Some _, Some _) \<Rightarrow> False
      | (None, Some revnet) \<Rightarrow>
          mi_rulesetRole v = None \<and> mi_inheritedWeight v = None \<and>
          (case revnet of LiveProject \<Rightarrow> True | StageConfig config stage \<Rightarrow> stage < length (rv_stageConfigurations config))
      | (Some config, None) \<Rightarrow>
          mi_rulesetRole v \<noteq> None \<and>
          \<not> (rs_weight config = ''1'' \<and> mi_rulesetRole v = Some SuccessorRole \<and> mi_inheritedWeight v = None) \<and>
          \<not> (mi_inheritedWeight v \<noteq> None \<and> \<not> (rs_weight config = ''1'' \<and> mi_rulesetRole v = Some SuccessorRole)) \<and>
          \<not> (rs_duration config = ''0'' \<and> mi_completedCycles v \<noteq> 0))"

definition modelEconomicsSchema :: "(string \<Rightarrow> bool) \<Rightarrow> ModelInput \<Rightarrow> bool" where
  "modelEconomicsSchema validAddress v \<longleftrightarrow>
     (case mi_rulesetConfiguration v of None \<Rightarrow> True | Some c \<Rightarrow> rulesetConfigSchema validAddress c) \<and>
     (case mi_inheritedWeight v of None \<Rightarrow> True | Some w \<Rightarrow> uintBits 112 w) \<and>
     (case mi_revnet v of Some (StageConfig c stage) \<Rightarrow> revConfigSchema validAddress c \<and> stage \<le> 15 | _ \<Rightarrow> True) \<and>
     0 \<le> mi_completedCycles v \<and> mi_completedCycles v \<le> 10000 \<and>
     1 \<le> length (mi_scenarios v) \<and> length (mi_scenarios v) \<le> 50 \<and> list_all scenarioSchema (mi_scenarios v) \<and>
     modelInputRefined v"

record LiveRevnet =
  lv_id :: int
  lv_start :: int
  lv_duration :: int
  lv_weight :: int
  lv_weightCutPercent :: int
  lv_reservedPercent :: int
  lv_cashOutTaxRate :: int
  lv_baseCurrency :: string
  lv_pausePay :: bool
  lv_dataHook :: string
  lv_stages :: "(int \<times> int) list"
  lv_cashOutDelay :: "string \<times> bool"

record Terms =
  tm_weight :: int
  tm_weightCutPercent :: int
  tm_reservedPercent :: int
  tm_cashOutTaxRate :: int
  tm_baseCurrency :: string
  tm_pausePay :: bool
  tm_fundAccessLimitGroups :: "FundAccessLimitGroup list"
  tm_revnet :: bool

section \<open>Stages\<close>

definition revnetStageRuleset :: "string \<Rightarrow> RevConfig \<Rightarrow> nat \<Rightarrow> RulesetConfig" where
  "revnetStageRuleset revOwner config index =
     (let stage = rv_stageConfigurations config ! index in
     \<lparr>rs_mustStartAtOrAfter = sg_startsAtOrAfter stage, rs_duration = sg_issuanceCutFrequency stage,
      rs_weight = sg_initialIssuance stage, rs_weightCutPercent = sg_issuanceCutPercent stage, rs_approvalHook = zeroAddress,
      rs_metadata = \<lparr>md_reservedPercent = sg_splitPercent stage, md_cashOutTaxRate = sg_cashOutTaxRate stage,
        md_baseCurrency = rv_baseCurrency config, md_pausePay = False, md_pauseCreditTransfers = False,
        md_allowOwnerMinting = True, md_allowSetCustomToken = False, md_allowTerminalMigration = False,
        md_allowSetTerminals = False, md_allowSetController = False, md_allowAddAccountingContext = False,
        md_allowAddPriceFeed = False, md_ownerMustSendPayouts = False, md_holdFees = False,
        md_scopeCashOutsToLocalBalances = rv_scopeCashOutsToLocalBalances config, md_useDataHookForPay = True,
        md_useDataHookForCashOut = True, md_dataHook = revOwner, md_metadata = sg_extraMetadata stage\<rparr>,
      rs_splitGroups = [\<lparr>sg_groupId = ''1'', sg_splits = sg_stageSplits stage\<rparr>], rs_fundAccessLimitGroups = []\<rparr>)"

definition deriveStart :: "int \<Rightarrow> int \<Rightarrow> int \<Rightarrow> int" where
  "deriveStart baseStart baseDuration mustStartAtOrAfter =
     (if baseDuration = 0 then mustStartAtOrAfter
      else let following = baseStart + baseDuration in
        if following \<ge> mustStartAtOrAfter then following
        else let cycles = (mustStartAtOrAfter - following + baseDuration - 1) div baseDuration in
          following + cycles * baseDuration)"

record ResolvedStage =
  rg_start :: int
  rg_duration :: int
  rg_weight :: int
  rg_cut :: int

definition resolveStage :: "ResolvedStage option \<Rightarrow> RevStage \<Rightarrow> domain_error + ResolvedStage" where
  "resolveStage prior stage =
     (let duration = bigInt (sg_issuanceCutFrequency stage); cutPercent = bigInt (sg_issuanceCutPercent stage) in
      case prior of
        None \<Rightarrow> Inr \<lparr>rg_start = bigInt (sg_startsAtOrAfter stage), rg_duration = duration,
                     rg_weight = bigInt (sg_initialIssuance stage), rg_cut = cutPercent\<rparr>
      | Some p \<Rightarrow>
          let start = deriveStart (rg_start p) (rg_duration p) (bigInt (sg_startsAtOrAfter stage));
              cuts = (if rg_duration p = 0 then 1 else if rg_cut p = 0 then 0 else (start - rg_start p) div rg_duration p) in
          bindR (if sg_initialIssuance stage = ''1'' then decayedWeight (rg_weight p) (rg_cut p) cuts
                 else Inr (bigInt (sg_initialIssuance stage))) (\<lambda>weight.
          Inr \<lparr>rg_start = start, rg_duration = duration, rg_weight = weight, rg_cut = cutPercent\<rparr>))"

fun resolveFrom :: "ResolvedStage option \<Rightarrow> RevStage list \<Rightarrow> domain_error + ResolvedStage list" where
  "resolveFrom prior [] = Inr []"
| "resolveFrom prior (stage # stages) =
     bindR (resolveStage prior stage) (\<lambda>r. bindR (resolveFrom (Some r) stages) (\<lambda>rs. Inr (r # rs)))"

definition resolveStages :: "RevConfig \<Rightarrow> domain_error + ResolvedStage list" where
  "resolveStages config = resolveFrom None (rv_stageConfigurations config)"

definition stageBoundary :: "int \<Rightarrow> int \<Rightarrow> int option \<Rightarrow> int \<Rightarrow> domain_error + unit" where
  "stageBoundary start duration nextStart cycles =
     (case nextStart of
        None \<Rightarrow> Inr ()
      | Some n \<Rightarrow>
          let available = (if duration = 0 then 0 else bigDiv (n - start) duration - 1) in
          ensure (\<not> cycles > available)
            (DomainError ''STAGE_BOUNDARY_CROSSED''
              (''The next stage starts at '' @ intText n @ '', after '' @ intText available @ '' more cycles. Model that stage instead.'')))"

section \<open>Scenarios\<close>

record RevnetCashOut =
  ro_feeTokenCount :: string
  ro_holderReclaimBeforeProtocolFeeAtomic :: string
  ro_revnetFeeAtomic :: string
  ro_protocolFeeAtomic :: string
  ro_holderReclaimAtomic :: string
  ro_zeroTaxNote :: bool

definition revnetCashOut :: "int \<Rightarrow> int \<Rightarrow> int \<Rightarrow> int \<Rightarrow> domain_error + RevnetCashOut" where
  "revnetCashOut surplus count supply tax =
     (let feeCount = (if tax = 0 then 0 else count div 40); holderCount = count - feeCount in
     bindR (cashOutCurve surplus holderCount supply tax) (\<lambda>gross.
     bindR (if feeCount = 0 then Inr 0
            else cashOutCurve (if surplus > gross then surplus - gross else 0) feeCount (supply - holderCount) tax) (\<lambda>revnetFee.
     let protocolFee = gross div 40 in
     Inr \<lparr>ro_feeTokenCount = intText feeCount, ro_holderReclaimBeforeProtocolFeeAtomic = intText gross,
          ro_revnetFeeAtomic = intText revnetFee, ro_protocolFeeAtomic = intText protocolFee,
          ro_holderReclaimAtomic = intText (gross - protocolFee), ro_zeroTaxNote = (tax = 0)\<rparr>)))"

definition termsOf :: "RulesetConfig \<Rightarrow> int \<Rightarrow> bool \<Rightarrow> Terms" where
  "termsOf config weight revnet =
     \<lparr>tm_weight = weight, tm_weightCutPercent = bigInt (rs_weightCutPercent config),
      tm_reservedPercent = bigInt (md_reservedPercent (rs_metadata config)),
      tm_cashOutTaxRate = bigInt (md_cashOutTaxRate (rs_metadata config)),
      tm_baseCurrency = md_baseCurrency (rs_metadata config), tm_pausePay = md_pausePay (rs_metadata config),
      tm_fundAccessLimitGroups = rs_fundAccessLimitGroups config, tm_revnet = revnet\<rparr>"

text \<open>Where the terms of a revnet come from; block evidence is passed through unread and left out.\<close>

datatype RevnetSource =
    FromRuleset
  | FromConfig (src_stage: nat) (src_stageStart: string) (src_stageStartingWeight: string) (src_ruleset: RulesetConfig)
  | FromProject (src_rulesetId: string) (src_cycleStart: string) (src_currentWeight: string)
      (src_nextStageStart: "string option") (src_cashOutDelay: "string \<times> bool")

definition resolve ::
  "(string \<Rightarrow> bool) \<Rightarrow> string \<Rightarrow> ModelInput \<Rightarrow> LiveRevnet option \<Rightarrow> domain_error + Terms \<times> RevnetSource option" where
  "resolve isRevOwner revOwner value live =
     (case mi_rulesetConfiguration value of
        Some config \<Rightarrow>
          let md = rs_metadata config; hooked = (md_useDataHookForPay md \<or> md_useDataHookForCashOut md) in
          bindR (ensure (\<not> (hooked \<and> \<not> isRevOwner (md_dataHook md)))
            (DomainError ''CUSTOM_HOOK_MODEL_UNSUPPORTED''
              ''Enabled data hooks can override issuance or cash-outs; the core-only scenario model cannot represent their economics.'')) (\<lambda>_.
          let weight = (if rs_weight config = ''1'' \<and> mi_rulesetRole value = Some SuccessorRole
                        then bigInt (the (mi_inheritedWeight value)) else bigInt (rs_weight config)) in
          bindR (decayedWeight weight (bigInt (rs_weightCutPercent config)) (mi_completedCycles value)) (\<lambda>w.
          Inr (termsOf config w hooked, if hooked then Some FromRuleset else None)))
      | None \<Rightarrow>
          (case mi_revnet value of
             Some (StageConfig config index) \<Rightarrow>
               bindR (resolveStages config) (\<lambda>stages.
               let stage = stages ! index in
               bindR (ensure (\<not> (rg_duration stage = 0 \<and> mi_completedCycles value \<noteq> 0))
                 (DomainError ''INVALID_SCENARIO'' ''This stage has no issuance cuts. Use completedCycles 0.'')) (\<lambda>_.
               bindR (stageBoundary (rg_start stage) (rg_duration stage)
                   (if index + 1 < length stages then Some (rg_start (stages ! (index + 1))) else None) (mi_completedCycles value)) (\<lambda>_.
               bindR (decayedWeight (rg_weight stage) (rg_cut stage) (mi_completedCycles value)) (\<lambda>w.
               Inr (termsOf (revnetStageRuleset revOwner config index) w True,
                 Some (FromConfig index (intText (rg_start stage)) (intText (rg_weight stage)) (revnetStageRuleset revOwner config index)))))))
           | _ \<Rightarrow>
               (case live of
                  None \<Rightarrow> Inl (DomainError ''UPSTREAM_FAILURE'' ''The revnet read is missing.'')
                | Some l \<Rightarrow>
                    bindR (ensure (isRevOwner (lv_dataHook l))
                      (DomainError ''CUSTOM_HOOK_MODEL_UNSUPPORTED'' ''The current ruleset does not use REVOwner as its data hook.'')) (\<lambda>_.
                    bindR (ensure (\<not> (lv_duration l = 0 \<and> mi_completedCycles value \<noteq> 0))
                      (DomainError ''INVALID_SCENARIO'' ''The current ruleset has no issuance cuts. Use completedCycles 0.'')) (\<lambda>_.
                    let later = sort (map snd (filter (\<lambda>(i, start). i > lv_id l) (lv_stages l))) in
                    bindR (stageBoundary (lv_start l) (lv_duration l) (case later of [] \<Rightarrow> None | x # _ \<Rightarrow> Some x) (mi_completedCycles value)) (\<lambda>_.
                    bindR (decayedWeight (lv_weight l) (lv_weightCutPercent l) (mi_completedCycles value)) (\<lambda>w.
                    Inr (\<lparr>tm_weight = w, tm_weightCutPercent = lv_weightCutPercent l, tm_reservedPercent = lv_reservedPercent l,
                         tm_cashOutTaxRate = lv_cashOutTaxRate l, tm_baseCurrency = lv_baseCurrency l, tm_pausePay = lv_pausePay l,
                         tm_fundAccessLimitGroups = [], tm_revnet = True\<rparr>,
                         Some (FromProject (intText (lv_id l)) (intText (lv_start l)) (intText (lv_weight l))
                           (case later of [] \<Rightarrow> None | x # _ \<Rightarrow> Some (intText x)) (lv_cashOutDelay l))))))))))"

record Issuance =
  iss_totalTokenCount :: string
  iss_beneficiaryTokenCount :: string
  iss_pendingReservedTokenCount :: string

datatype CashOutResult = RevnetReclaim CashOutInput RevnetCashOut | CoreReclaim CashOutInput string

record ScenarioResult =
  sx_label :: string
  sx_contributionInBaseCurrency18 :: string
  sx_payAllowedByPauseFlag :: bool
  sx_issuance :: "Issuance option"
  sx_cashOut :: "CashOutResult option"

definition runScenario :: "Terms \<Rightarrow> Scenario \<Rightarrow> domain_error + ScenarioResult" where
  "runScenario terms scenario =
     (let total = (bigInt (sn_contributionInBaseCurrency18 scenario) * tm_weight terms) div 10 ^ 18 in
     bindR (ensure (\<not> total \<ge> 2 ^ 256) (DomainError ''SCENARIO_OVERFLOW'' ''Hypothetical token issuance exceeds uint256.'')) (\<lambda>_.
     let beneficiary = bigDiv (total * (10000 - tm_reservedPercent terms)) 10000 in
     bindR (case sn_cashOut scenario of
         None \<Rightarrow> Inr None
       | Some c \<Rightarrow>
           let surplus = bigInt (ci_surplusAtomic c); count = bigInt (ci_cashOutCount c); supply = bigInt (ci_totalSupply c) in
           if tm_revnet terms then bindR (revnetCashOut surplus count supply (tm_cashOutTaxRate terms)) (\<lambda>r. Inr (Some (RevnetReclaim c r)))
           else bindR (cashOutCurve surplus count supply (tm_cashOutTaxRate terms)) (\<lambda>r. Inr (Some (CoreReclaim c (intText r))))) (\<lambda>cashOut.
     Inr \<lparr>sx_label = sn_label scenario, sx_contributionInBaseCurrency18 = sn_contributionInBaseCurrency18 scenario,
          sx_payAllowedByPauseFlag = (\<not> tm_pausePay terms),
          sx_issuance = (if tm_pausePay terms then None
             else Some \<lparr>iss_totalTokenCount = intText total, iss_beneficiaryTokenCount = intText beneficiary,
                        iss_pendingReservedTokenCount = intText (total - beneficiary)\<rparr>),
          sx_cashOut = cashOut\<rparr>)))"

text \<open>The computed part of the result; its descriptive texts are constants.\<close>

record EconomicModel =
  em_baseCurrency :: string
  em_effectiveWeight :: string
  em_completedCycles :: int
  em_revnet :: "RevnetSource option"
  em_scenarios :: "ScenarioResult list"
  em_payoutBudgets :: "FundAccessLimitGroup list"

definition modelEconomics ::
  "(string \<Rightarrow> bool) \<Rightarrow> (string \<Rightarrow> bool) \<Rightarrow> string \<Rightarrow> ModelInput \<Rightarrow> LiveRevnet option \<Rightarrow> domain_error + EconomicModel" where
  "modelEconomics validAddress isRevOwner revOwner value live =
     bindR (ensure (modelEconomicsSchema validAddress value) (DomainError ''ZodError'' ''Invalid input'')) (\<lambda>_.
     bindR (resolve isRevOwner revOwner value live) (\<lambda>(terms, revnet).
     bindR (mapR (runScenario terms) (mi_scenarios value)) (\<lambda>results.
     Inr \<lparr>em_baseCurrency = tm_baseCurrency terms, em_effectiveWeight = intText (tm_weight terms),
          em_completedCycles = mi_completedCycles value, em_revnet = revnet, em_scenarios = results,
          em_payoutBudgets = tm_fundAccessLimitGroups terms\<rparr>)))"

end
