(* ===== verification/EconomicsProperties.thy ===== *)
theory EconomicsProperties
  imports Economics
begin

text \<open>
  Rulesets and the economic model: reading back a ruleset, the cash-out curve and the cash-outs of revnets,
  decay of the issuance, the stages of a revnet, and the model as a whole. Helper definitions name what a
  theorem speaks of (\<open>curveInputs\<close>, \<open>stageFollows\<close>, \<open>issuanceSound\<close>); the concrete inputs at the end
  are those of the witnesses.
\<close>

section \<open>Decimal text\<close>

lemma bigInt_pos: "list_all isDigit s \<Longrightarrow> s \<noteq> [] \<Longrightarrow> hd s \<noteq> CHR ''0'' \<Longrightarrow> 0 < bigInt s"
proof (induction s rule: rev_induct)
  case (snoc c s)
  show ?case
  proof (cases "s = []")
    case True
    have "c \<noteq> CHR ''0''" "isDigit c" using snoc.prems True by simp_all
    then have "code c \<noteq> 48" "48 \<le> code c" by (auto simp: isDigit_def char_eq_code) (simp add: code_def)
    then show ?thesis using True by (simp add: bigInt_def)
  next
    case False
    then have "0 < bigInt s" using snoc by simp
    moreover have "48 \<le> code c" using snoc.prems by (simp add: isDigit_def)
    ultimately show ?thesis by (simp add: bigInt_snoc)
  qed
qed simp

lemma natText_bigInt: "list_all isDigit s \<Longrightarrow> s \<noteq> [] \<Longrightarrow> s = ''0'' \<or> hd s \<noteq> CHR ''0'' \<Longrightarrow> natText (nat (bigInt s)) = s"
proof (induction s rule: rev_induct)
  case (snoc c s)
  have c: "48 \<le> code c" "code c \<le> 57" using snoc.prems by (simp_all add: isDigit_def)
  show ?case
  proof (cases "s = []")
    case True
    have "nat (bigInt [c]) = code c - 48" using c by (simp add: bigInt_def)
    then show ?thesis using True c by (simp add: natText.simps)
  next
    case False
    then have hd: "hd s \<noteq> CHR ''0''" and d: "list_all isDigit s" using snoc.prems by auto
    have pos: "0 < bigInt s" using bigInt_pos [OF d False hd] .
    define m where "m = nat (bigInt s)"
    have m: "0 < m" "bigInt s = int m" using pos by (simp_all add: m_def)
    have e: "nat (bigInt (s @ [c])) = 10 * m + (code c - 48)" using c by (simp add: bigInt_snoc m(2))
    have ih: "natText m = s" using snoc.IH [OF d False] hd by (simp add: m_def)
    obtain d where d: "code c = 48 + d" "d < 10" using c by (intro that [of "code c - 48"]) simp_all
    have q: "(10 * m + d) div 10 = m" "(10 * m + d) mod 10 = d" using d(2) by simp_all
    have "\<not> 10 * m + d < 10" using m(1) by simp
    then have "natText (10 * m + d) = s @ [c]" by (subst natText.simps) (simp only: q ih if_False d(1) [symmetric], simp)
    then show ?thesis unfolding e d(1) by simp
  qed
qed simp

lemma intText_bigInt: "isDecimal s \<Longrightarrow> intText (bigInt s) = s"
  using natText_bigInt [of s] bigInt_nonneg [of s] by (auto simp: isDecimal_def intText_def)

lemma bigInt_intText: "0 \<le> n \<Longrightarrow> bigInt (intText n) = n"
  using bigInt_natText [of "nat n"] by (simp add: intText_def)

lemma uint_range: "uint m s \<Longrightarrow> 0 \<le> bigInt s \<and> bigInt s \<le> m \<and> intText (bigInt s) = s"
  using bigInt_nonneg [of s] intText_bigInt [of s] by (auto simp: uint_def uintText_def isDecimal_def)

lemma uintText_range: "uintText s \<Longrightarrow> 0 \<le> bigInt s \<and> bigInt s < 2 ^ 256 \<and> intText (bigInt s) = s"
  using bigInt_nonneg [of s] intText_bigInt [of s] by (auto simp: uintText_def isDecimal_def)

section \<open>Round trip of a ruleset\<close>

lemma list_all_map_id: "list_all P xs \<Longrightarrow> (\<And>x. P x \<Longrightarrow> f x = x) \<Longrightarrow> map f xs = xs"
  by (induction xs) auto

lemma metadata_roundtrip: "rulesetMetadataSchema ok v \<Longrightarrow> fromJBMetadata (toJBMetadata v) = v"
  by (cases v) (auto simp: rulesetMetadataSchema_def fromJBMetadata_def toJBMetadata_def dest!: uint_range)

lemma split_roundtrip: "splitSchema ok v \<Longrightarrow> fromJBSplit (toJBSplit v) = v"
  by (cases v) (auto simp: splitSchema_def fromJBSplit_def toJBSplit_def dest!: uint_range)

lemma amounts_roundtrip: "currencyAmountsSchema vs \<Longrightarrow> map (fromJBAmount \<circ> toJBAmount) vs = vs"
  unfolding currencyAmountsSchema_def
proof (elim conjE, rule list_all_map_id)
  fix v assume "currencyAmountSchema v"
  then show "(fromJBAmount \<circ> toJBAmount) v = v"
    by (cases v) (auto simp: currencyAmountSchema_def fromJBAmount_def toJBAmount_def dest!: uint_range)
qed

text \<open>
  C40. Reading a ruleset back gives the configuration that was sent, in its normal form. Whatever configuration the schema accepts, converting it to contract integers
  and describing the stored ruleset again as an input gives that configuration with start \<open>0\<close> (a ruleset read back may start at once) and
  without the split and limit groups that are empty, every other field and every group as it was, in the same order.
\<close>

theorem ruleset_roundtrip:
  assumes "rulesetConfigSchema ok v"
  shows "(let r = toRulesetConfig v in
     toRulesetInput (jr_duration r) (jr_weight r) (jr_weightCutPercent r) (jr_approvalHook r) (jr_metadata r)
       (map (\<lambda>g. (intText (jg_groupId g), jg_splits g)) (jr_splitGroups r)) (jr_fundAccessLimitGroups r)) =
     v\<lparr>rs_mustStartAtOrAfter := ''0'', rs_splitGroups := filter (\<lambda>g. sg_splits g \<noteq> []) (rs_splitGroups v),
       rs_fundAccessLimitGroups := filter (\<lambda>g. fa_payoutLimits g \<noteq> [] \<or> fa_surplusAllowances g \<noteq> []) (rs_fundAccessLimitGroups v)\<rparr>"
proof -
  let ?sg = "\<lambda>g. \<lparr>sg_groupId = intText (bigInt (sg_groupId g)), sg_splits = map (fromJBSplit \<circ> toJBSplit) (sg_splits g)\<rparr>"
  let ?fa = "\<lambda>g. \<lparr>fa_terminal = fa_terminal g, fa_token = fa_token g,
      fa_payoutLimits = map (fromJBAmount \<circ> toJBAmount) (fa_payoutLimits g),
      fa_surplusAllowances = map (fromJBAmount \<circ> toJBAmount) (fa_surplusAllowances g)\<rparr>"
  let ?splits = "filter (\<lambda>g. sg_splits g \<noteq> []) (rs_splitGroups v)"
    and ?limits = "filter (\<lambda>g. fa_payoutLimits g \<noteq> [] \<or> fa_surplusAllowances g \<noteq> []) (rs_fundAccessLimitGroups v)"
  have sg: "?sg g = g" if "g \<in> set (rs_splitGroups v)" for g
  proof -
    have "splitGroupSchema ok g" using assms that by (auto simp: rulesetConfigSchema_def list_all_iff)
    then have "intText (bigInt (sg_groupId g)) = sg_groupId g" "map (fromJBSplit \<circ> toJBSplit) (sg_splits g) = sg_splits g"
      using uintText_range [of "sg_groupId g"] list_all_map_id [of "splitSchema ok" "sg_splits g" "fromJBSplit \<circ> toJBSplit"] split_roundtrip
      by (auto simp: splitGroupSchema_def)
    then show ?thesis by simp
  qed
  have fa: "?fa g = g" if "g \<in> set (rs_fundAccessLimitGroups v)" for g
    using assms that amounts_roundtrip by (auto simp: rulesetConfigSchema_def list_all_iff fundAccessLimitGroupSchema_def)
  have "map ?sg ?splits = ?splits" "map ?fa ?limits = ?limits" using sg fa by (auto intro!: map_idI)
  moreover have "intText (bigInt (rs_duration v)) = rs_duration v" "intText (bigInt (rs_weight v)) = rs_weight v"
    "intText (bigInt (rs_weightCutPercent v)) = rs_weightCutPercent v" "fromJBMetadata (toJBMetadata (rs_metadata v)) = rs_metadata v"
    using assms uint_range metadata_roundtrip by (auto simp: rulesetConfigSchema_def)
  ultimately show ?thesis
    by (cases v) (simp add: toRulesetInput_def toRulesetConfig_def filter_map o_def)
qed

section \<open>The cash-out curve\<close>

definition curveInputs :: "int \<Rightarrow> int \<Rightarrow> int \<Rightarrow> int \<Rightarrow> bool" where
  "curveInputs surplus count supply tax \<longleftrightarrow> 0 \<le> surplus \<and> surplus < 2 ^ 256 \<and> 0 \<le> count \<and> count \<le> supply \<and> supply < 2 ^ 256 \<and>
     0 \<le> tax \<and> tax \<le> 10000"

definition curveValue :: "int \<Rightarrow> int \<Rightarrow> int \<Rightarrow> int \<Rightarrow> int" where
  "curveValue surplus count supply tax =
     (if count = 0 \<or> tax = 10000 then 0 else if count = supply then surplus
      else ((surplus * count) div supply * (10000 - tax + (tax * count) div supply)) div 10000)"

lemma cashOutCurve_value: "curveInputs surplus count supply tax \<Longrightarrow> cashOutCurve surplus count supply tax = Inr (curveValue surplus count supply tax)"
  by (auto simp: cashOutCurve_def curveInputs_def curveValue_def Let_def)

lemma cashOutCurve_error: "\<not> curveInputs surplus count supply tax \<Longrightarrow> \<exists>e. cashOutCurve surplus count supply tax = Inl e"
  by (auto simp: cashOutCurve_def curveInputs_def bindR_def ensure_def)

lemma factor_range:
  fixes tax count total :: int
  assumes "0 \<le> tax" "tax \<le> 10000" "0 \<le> count" "count \<le> total" "0 < total"
  shows "0 \<le> 10000 - tax + (tax * count) div total" "10000 - tax + (tax * count) div total \<le> 10000"
proof -
  have "0 \<le> (tax * count) div total" using assms by (simp add: pos_imp_zdiv_nonneg_iff)
  then show "0 \<le> 10000 - tax + (tax * count) div total" using assms by simp
  have "(tax * count) div total \<le> (tax * total) div total" using assms by (intro zdiv_mono1 mult_left_mono) auto
  then show "10000 - tax + (tax * count) div total \<le> 10000" using assms by simp
qed

lemma base_range:
  fixes surplus count total :: int
  assumes "0 \<le> surplus" "0 \<le> count" "count \<le> total" "0 < total"
  shows "0 \<le> (surplus * count) div total" "(surplus * count) div total \<le> surplus"
proof -
  show "0 \<le> (surplus * count) div total" using assms by (simp add: pos_imp_zdiv_nonneg_iff)
  have "(surplus * count) div total \<le> (surplus * total) div total" using assms by (intro zdiv_mono1 mult_left_mono) auto
  then show "(surplus * count) div total \<le> surplus" using assms by simp
qed

lemma scaled_le:
  fixes b f :: int
  assumes "0 \<le> b" "0 \<le> f" "f \<le> 10000"
  shows "0 \<le> (b * f) div 10000" "(b * f) div 10000 \<le> b"
proof -
  show "0 \<le> (b * f) div 10000" using assms by (simp add: pos_imp_zdiv_nonneg_iff)
  have "(b * f) div 10000 \<le> (b * 10000) div 10000" using assms by (intro zdiv_mono1 mult_left_mono) auto
  then show "(b * f) div 10000 \<le> b" by simp
qed

lemma curveValue_range:
  assumes "curveInputs surplus count supply tax"
  shows "0 \<le> curveValue surplus count supply tax \<and> curveValue surplus count supply tax \<le> surplus"
proof (cases "count = 0 \<or> tax = 10000 \<or> count = supply")
  case True
  then show ?thesis using assms by (auto simp: curveValue_def curveInputs_def)
next
  case False
  let ?b = "(surplus * count) div supply" and ?f = "10000 - tax + (tax * count) div supply"
  have r: "0 \<le> surplus" "0 < supply" "0 \<le> count" "count \<le> supply" "0 \<le> tax" "tax \<le> 10000"
    using assms False by (auto simp: curveInputs_def)
  note b = base_range [OF r(1,3,4,2)] and f = factor_range [OF r(5,6,3,4,2)]
  have "curveValue surplus count supply tax = (?b * ?f) div 10000" using False by (simp add: curveValue_def)
  then show ?thesis using scaled_le [OF b(1) f] b(2) by simp
qed

lemma curveValue_mono:
  assumes "curveInputs surplus d supply tax" and "0 \<le> count" and "count \<le> d"
  shows "curveValue surplus count supply tax \<le> curveValue surplus d supply tax"
proof -
  have c: "curveInputs surplus count supply tax" using assms by (simp add: curveInputs_def)
  consider "count = 0 \<or> tax = 10000" | "count \<noteq> 0" "tax \<noteq> 10000" "d = supply" | "count \<noteq> 0" "tax \<noteq> 10000" "d \<noteq> supply" by blast
  then show ?thesis
  proof cases
    case 1
    then have "curveValue surplus count supply tax = 0" by (auto simp: curveValue_def)
    then show ?thesis using curveValue_range [OF assms(1)] by simp
  next
    case 2
    then have "curveValue surplus d supply tax = surplus" using assms by (auto simp: curveValue_def)
    then show ?thesis using curveValue_range [OF c] by simp
  next
    case 3
    have r: "0 \<le> surplus" "0 < supply" "0 \<le> count" "count \<le> supply" "0 \<le> tax" "tax \<le> 10000" "d \<noteq> 0" "count \<noteq> supply"
      using assms 3 by (auto simp: curveInputs_def)
    have "(surplus * count) div supply \<le> (surplus * d) div supply" "(tax * count) div supply \<le> (tax * d) div supply"
      using r assms(3) by (intro zdiv_mono1 mult_left_mono; simp)+
    then have "(surplus * count) div supply * (10000 - tax + (tax * count) div supply) \<le>
        (surplus * d) div supply * (10000 - tax + (tax * d) div supply)"
      using base_range(1) [OF r(1,3,4,2)] factor_range(1) [OF r(5,6,3,4,2)] by (intro mult_mono) auto
    then show ?thesis using 3 r by (simp add: curveValue_def zdiv_mono1)
  qed
qed

lemma curveValue_antitone:
  assumes "curveInputs surplus count supply tax" and "tax \<le> u" and "u \<le> 10000"
  shows "curveValue surplus count supply u \<le> curveValue surplus count supply tax"
proof -
  have i: "curveInputs surplus count supply u" using assms by (simp add: curveInputs_def)
  consider "count = 0 \<or> u = 10000" | "count \<noteq> 0" "u \<noteq> 10000" "count = supply" | "count \<noteq> 0" "u \<noteq> 10000" "count \<noteq> supply" by blast
  then show ?thesis
  proof cases
    case 1
    then have "curveValue surplus count supply u = 0" by (auto simp: curveValue_def)
    then show ?thesis using curveValue_range [OF assms(1)] by simp
  next
    case 2
    then show ?thesis using assms by (simp add: curveValue_def)
  next
    case 3
    have r: "0 \<le> surplus" "0 < supply" "0 \<le> count" "count \<le> supply" "tax \<noteq> 10000" using assms 3 by (auto simp: curveInputs_def)
    have "u * count \<le> tax * count + (u - tax) * supply"
    proof -
      have "(u - tax) * count \<le> (u - tax) * supply" using r assms(2) by (intro mult_left_mono) simp_all
      then show ?thesis by (simp add: left_diff_distrib)
    qed
    then have "(u * count) div supply \<le> (tax * count + (u - tax) * supply) div supply" using r(2) by (intro zdiv_mono1)
    then have "10000 - u + (u * count) div supply \<le> 10000 - tax + (tax * count) div supply" using r(2) by simp
    then have "(surplus * count) div supply * (10000 - u + (u * count) div supply) \<le> (surplus * count) div supply * (10000 - tax + (tax * count) div supply)"
      using base_range(1) [OF r(1,3,4,2)] by (rule mult_left_mono)
    then show ?thesis using 3 r by (simp add: curveValue_def zdiv_mono1)
  qed
qed

lemma floored_product_close:
  fixes x S f F b r :: int
  assumes "0 < S" "0 \<le> x" "0 \<le> b" "0 \<le> f" "f \<le> 10000" and b: "b * S \<le> x" "x \<le> (b + 1) * S" and f: "f * S \<le> F" "F \<le> (f + 1) * S"
    and r: "r * 10000 \<le> b * f" "b * f < (r + 1) * 10000"
  shows "r * 10000 * (S * S) \<le> x * F" "x * F < (r + 2) * 10000 * (S * S) + x * S"
proof -
  have S: "0 < S * S" using assms(1) by simp
  have "r * 10000 * (S * S) \<le> (b * f) * (S * S)" using r(1) S by (intro mult_right_mono) simp_all
  also have "\<dots> = (b * S) * (f * S)" by (simp add: algebra_simps)
  also have "\<dots> \<le> x * F" using assms b(1) f(1) by (intro mult_mono) simp_all
  finally show "r * 10000 * (S * S) \<le> x * F" .
  have "x * F \<le> x * ((f + 1) * S)" using f(2) assms(2) by (rule mult_left_mono)
  also have "\<dots> = x * (f * S) + x * S" by (simp add: algebra_simps)
  also have "x * (f * S) \<le> ((b + 1) * S) * (f * S)" using b(2) assms by (intro mult_right_mono) simp_all
  also have "((b + 1) * S) * (f * S) = (b * f + f) * (S * S)" by (simp add: algebra_simps)
  also have "(b * f + f) * (S * S) < (r + 2) * 10000 * (S * S)" using r(2) assms(5) S by (intro mult_strict_right_mono) simp_all
  finally show "x * F < (r + 2) * 10000 * (S * S) + x * S" by simp
qed

lemma div_between: "0 < (d :: int) \<Longrightarrow> x div d * d \<le> x \<and> x < (x div d + 1) * d"
proof -
  assume "0 < d"
  then have "x div d * d + x mod d = x" "0 \<le> x mod d" "x mod d < d" by simp_all
  then show ?thesis by (simp only: distrib_right) linarith
qed

text \<open>The curve without rounding, times \<open>10000 * supply * supply\<close>.\<close>

definition exactCurve :: "int \<Rightarrow> int \<Rightarrow> int \<Rightarrow> int \<Rightarrow> int" where
  "exactCurve surplus count supply tax = surplus * count * ((10000 - tax) * supply + tax * count)"

lemma curveValue_close:
  assumes "curveInputs surplus count supply tax" and "0 < supply" and "tax < 10000"
  shows "curveValue surplus count supply tax * 10000 * (supply * supply) \<le> exactCurve surplus count supply tax \<and>
    exactCurve surplus count supply tax < (curveValue surplus count supply tax + 2) * 10000 * (supply * supply) + surplus * count * supply"
proof (cases "count = 0 \<or> count = supply")
  case True
  have "0 \<le> supply * (supply * surplus)" "0 < supply * (supply * 20000)" using assms by (simp_all add: curveInputs_def)
  then have "0 < supply * (supply * surplus) + supply * (supply * 20000)" by linarith
  then show ?thesis using True assms(2,3) by (auto simp: curveValue_def exactCurve_def algebra_simps)
next
  case False
  note r = assms(1) [unfolded curveInputs_def]
  let ?b = "(surplus * count) div supply" and ?q = "(tax * count) div supply"
  have v: "curveValue surplus count supply tax = (?b * (10000 - tax + ?q)) div 10000" using False assms(3) by (simp add: curveValue_def)
  have "?q \<le> (tax * supply) div supply" using r assms(2) by (intro zdiv_mono1 mult_left_mono) auto
  then have q: "0 \<le> ?q" "?q \<le> tax" using r assms(2) by (simp_all add: pos_imp_zdiv_nonneg_iff)
  have "0 \<le> ?b" using r assms(2) by (simp add: pos_imp_zdiv_nonneg_iff)
  note close = floored_product_close [OF assms(2) _ this, of "surplus * count" "10000 - tax + ?q" "(10000 - tax) * supply + tax * count" "curveValue surplus count supply tax"]
  have "(10000 - tax + ?q) * supply \<le> (10000 - tax) * supply + tax * count" "(10000 - tax) * supply + tax * count \<le> (10000 - tax + ?q + 1) * supply"
    using div_between [OF assms(2), of "tax * count"] by (simp_all add: algebra_simps)
  moreover have "?b * supply \<le> surplus * count" "surplus * count \<le> (?b + 1) * supply"
    using div_between [OF assms(2), of "surplus * count"] by simp_all
  moreover have "curveValue surplus count supply tax * 10000 \<le> ?b * (10000 - tax + ?q)" "?b * (10000 - tax + ?q) < (curveValue surplus count supply tax + 1) * 10000"
    using div_between [of 10000 "?b * (10000 - tax + ?q)"] unfolding v by simp_all
  ultimately show ?thesis using close q r assms(3) unfolding exactCurve_def by simp
qed

text \<open>
  C34. The cash-out curve. On inputs in the range of the contracts the curve returns a value, between nothing and
  the whole surplus, that does not shrink when more tokens are cashed out and does not grow with the tax; no tokens and the maximal tax reclaim nothing, even for the whole supply; below
  the maximal tax the whole supply reclaims the whole surplus; without a tax the reclaim is the proportional share, rounded down; in general, below the maximal tax, the reclaim is never above the
  unrounded share of the surplus, \<open>count / supply * ((1 - tax) + tax * count / supply)\<close> with the tax out of 10000, and less than two units and a ten-thousandth of the proportional share below it; and every other input is refused.
\<close>

theorem cash_out_curve_sound:
  shows "if curveInputs surplus count supply tax
     then \<exists>r. cashOutCurve surplus count supply tax = Inr r \<and> 0 \<le> r \<and> r \<le> surplus \<and>
        (\<forall>c. 0 \<le> c \<and> c \<le> count \<longrightarrow> (\<exists>q. cashOutCurve surplus c supply tax = Inr q \<and> q \<le> r)) \<and>
        (\<forall>u. tax \<le> u \<and> u \<le> 10000 \<longrightarrow> (\<exists>q. cashOutCurve surplus count supply u = Inr q \<and> q \<le> r)) \<and>
        (count = 0 \<or> tax = 10000 \<longrightarrow> r = 0) \<and>
        (count = supply \<and> 0 < count \<and> tax < 10000 \<longrightarrow> r = surplus) \<and>
        (tax = 0 \<and> 0 < count \<longrightarrow> r = (surplus * count) div supply) \<and>
        (0 < supply \<and> tax < 10000 \<longrightarrow> r * 10000 * (supply * supply) \<le> exactCurve surplus count supply tax \<and>
           exactCurve surplus count supply tax < (r + 2) * 10000 * (supply * supply) + surplus * count * supply)
     else \<exists>e. cashOutCurve surplus count supply tax = Inl e"
proof (cases "curveInputs surplus count supply tax")
  case True
  have "\<exists>q. cashOutCurve surplus c supply tax = Inr q \<and> q \<le> curveValue surplus count supply tax" if "0 \<le> c \<and> c \<le> count" for c
  proof -
    have "curveInputs surplus c supply tax" using True that by (simp add: curveInputs_def)
    then show ?thesis using cashOutCurve_value curveValue_mono [OF True, of c] that by auto
  qed
  moreover have "\<exists>q. cashOutCurve surplus count supply u = Inr q \<and> q \<le> curveValue surplus count supply tax" if "tax \<le> u \<and> u \<le> 10000" for u
  proof -
    have "curveInputs surplus count supply u" using True that by (simp add: curveInputs_def)
    then show ?thesis using cashOutCurve_value curveValue_antitone [OF True, of u] that by auto
  qed
  moreover have "count = supply \<and> 0 < count \<and> tax < 10000 \<longrightarrow> curveValue surplus count supply tax = surplus"
    "count = 0 \<or> tax = 10000 \<longrightarrow> curveValue surplus count supply tax = 0"
    "tax = 0 \<and> 0 < count \<longrightarrow> curveValue surplus count supply tax = (surplus * count) div supply"
    by (auto simp: curveValue_def)
  ultimately show ?thesis using True cashOutCurve_value [OF True] curveValue_range [OF True] curveValue_close [OF True] by simp
qed (use cashOutCurve_error in auto)

lemma revnet_cash_out_value:
  assumes "curveInputs surplus count supply tax"
  shows "\<exists>fee gross rf. 0 \<le> fee \<and> 0 \<le> gross \<and> 0 \<le> rf \<and> gross + rf \<le> surplus \<and> fee = (if tax = 0 then 0 else count div 40) \<and>
     revnetCashOut surplus count supply tax =
       Inr \<lparr>ro_feeTokenCount = intText fee, ro_holderReclaimBeforeProtocolFeeAtomic = intText gross,
          ro_revnetFeeAtomic = intText rf, ro_protocolFeeAtomic = intText (gross div 40),
          ro_holderReclaimAtomic = intText (gross - gross div 40), ro_zeroTaxNote = (tax = 0)\<rparr>"
proof -
  define fee where "fee = (if tax = 0 then 0 else count div 40)"
  have fee: "0 \<le> fee" "fee \<le> count" using assms by (auto simp: fee_def curveInputs_def pos_imp_zdiv_nonneg_iff)
  have h: "curveInputs surplus (count - fee) supply tax" using assms fee by (simp add: curveInputs_def)
  define gross where "gross = curveValue surplus (count - fee) supply tax"
  have g: "0 \<le> gross" "gross \<le> surplus" using curveValue_range [OF h] by (simp_all add: gross_def)
  have k: "curveInputs (surplus - gross) fee (supply - (count - fee)) tax" using assms fee g by (simp add: curveInputs_def)
  define rf where "rf = (if fee = 0 then 0 else curveValue (surplus - gross) fee (supply - (count - fee)) tax)"
  have rf: "0 \<le> rf" "rf \<le> surplus - gross" using curveValue_range [OF k] g by (auto simp: rf_def)
  have sub: "(if surplus > gross then surplus - gross else 0) = surplus - gross" using g by simp
  have "revnetCashOut surplus count supply tax =
     Inr \<lparr>ro_feeTokenCount = intText fee, ro_holderReclaimBeforeProtocolFeeAtomic = intText gross,
          ro_revnetFeeAtomic = intText rf, ro_protocolFeeAtomic = intText (gross div 40),
          ro_holderReclaimAtomic = intText (gross - gross div 40), ro_zeroTaxNote = (tax = 0)\<rparr>"
    using cashOutCurve_value [OF h] cashOutCurve_value [OF k] sub
    unfolding revnetCashOut_def fee_def [symmetric] rf_def by (simp add: Let_def gross_def [symmetric])
  then show ?thesis using g rf fee fee_def by (intro exI [of _ fee] exI [of _ gross] exI [of _ rf]) simp
qed

text \<open>
  C35. Cashing out of a revnet never pays more than the surplus. On inputs in range the computation returns, and the
  holder's reclaim, the fee of the revnet and the fee of the protocol add up to at most the surplus, none
  of them negative; with a tax the fee tokens are a fortieth of the tokens, without one there are none.
\<close>

theorem revnet_cash_out_conserves:
  assumes "curveInputs surplus count supply tax"
  shows "\<exists>r. revnetCashOut surplus count supply tax = Inr r \<and>
     0 \<le> bigInt (ro_holderReclaimAtomic r) \<and> 0 \<le> bigInt (ro_revnetFeeAtomic r) \<and> 0 \<le> bigInt (ro_protocolFeeAtomic r) \<and>
     bigInt (ro_holderReclaimAtomic r) + bigInt (ro_revnetFeeAtomic r) + bigInt (ro_protocolFeeAtomic r) \<le> surplus \<and>
     bigInt (ro_holderReclaimAtomic r) + bigInt (ro_protocolFeeAtomic r) = bigInt (ro_holderReclaimBeforeProtocolFeeAtomic r) \<and>
     bigInt (ro_feeTokenCount r) = (if tax = 0 then 0 else count div 40)"
proof -
  obtain fee gross rf where v: "0 \<le> fee" "0 \<le> gross" "0 \<le> rf" "gross + rf \<le> surplus" "fee = (if tax = 0 then 0 else count div 40)"
    and r: "revnetCashOut surplus count supply tax =
       Inr \<lparr>ro_feeTokenCount = intText fee, ro_holderReclaimBeforeProtocolFeeAtomic = intText gross,
          ro_revnetFeeAtomic = intText rf, ro_protocolFeeAtomic = intText (gross div 40),
          ro_holderReclaimAtomic = intText (gross - gross div 40), ro_zeroTaxNote = (tax = 0)\<rparr>"
    using revnet_cash_out_value [OF assms] by blast
  have "0 \<le> gross div 40" "0 \<le> gross - gross div 40" using v(2) by (simp_all add: pos_imp_zdiv_nonneg_iff)
  then have "bigInt (intText (gross div 40)) = gross div 40" "bigInt (intText (gross - gross div 40)) = gross - gross div 40"
    by (simp_all only: bigInt_intText)
  then show ?thesis using v r bigInt_intText [of fee] bigInt_intText [of gross] bigInt_intText [of rf]
    by (simp add: pos_imp_zdiv_nonneg_iff)
qed

section \<open>Decay\<close>

abbreviation oneCut :: "int \<Rightarrow> int \<Rightarrow> int" where
  "oneCut cutPercent w \<equiv> (w * (1000000000 - cutPercent)) div 1000000000"

lemma oneCut_range: "0 \<le> c \<Longrightarrow> c \<le> 1000000000 \<Longrightarrow> 0 \<le> w \<Longrightarrow> 0 \<le> oneCut c w \<and> oneCut c w \<le> w"
proof -
  assume a: "0 \<le> c" "c \<le> 1000000000" "0 \<le> w"
  have "(w * (1000000000 - c)) div 1000000000 \<le> (w * 1000000000) div 1000000000" using a by (intro zdiv_mono1 mult_left_mono) auto
  then show ?thesis using a by (simp add: pos_imp_zdiv_nonneg_iff)
qed

lemma decayLoop_iterate: "0 \<le> w \<Longrightarrow> 0 \<le> c \<Longrightarrow> c \<le> 1000000000 \<Longrightarrow> decayLoop n c w = (oneCut c ^^ n) w"
proof (induction n arbitrary: w)
  case (Suc n)
  show ?case
  proof (cases "w > 0")
    case True
    then show ?thesis using Suc oneCut_range [OF Suc.prems(2,3,1)] by (simp add: funpow_Suc_right del: funpow.simps)
  next
    case False
    then have "w = 0" using Suc.prems by simp
    moreover have "(oneCut c ^^ m) 0 = 0" for m by (induction m) simp_all
    ultimately show ?thesis by simp
  qed
qed simp

lemma iterate_range: "0 \<le> w \<Longrightarrow> 0 \<le> c \<Longrightarrow> c \<le> 1000000000 \<Longrightarrow> 0 \<le> (oneCut c ^^ n) w \<and> (oneCut c ^^ n) w \<le> w"
proof (induction n)
  case (Suc n)
  then show ?case using oneCut_range [of c "(oneCut c ^^ n) w"] by fastforce
qed simp

lemma decayedWeight_iterate:
  assumes "0 \<le> w" "w < 2 ^ 112" "0 \<le> c" "c \<le> 1000000000" "n \<le> 10000"
  shows "decayedWeight w c (int n) = Inr ((oneCut c ^^ n) w)"
  using assms decayLoop_iterate [of w c n] by (simp add: decayedWeight_def)

lemma iterate_add: "(f ^^ (m + n)) w = (f ^^ n) ((f ^^ m) w)"
  by (metis add.commute comp_apply funpow_add)

text \<open>
  C37. Issuance decay. Within its bounds \<^verbatim>\<open>decayedWeight\<close>, which stops early at zero, equals one rounded-down cut per
  completed cycle; the weight never grows and never becomes negative; and cycles add up: decaying by
  \<open>m\<close> and then by \<open>n\<close> cycles is decaying by \<open>m + n\<close>.
\<close>

theorem decayed_weight_is_iterated_cut:
  assumes "0 \<le> w" and "w < 2 ^ 112" and "0 \<le> c" and "c \<le> 1000000000" and "m + n \<le> 10000"
  shows "decayedWeight w c (int (m + n)) = Inr ((oneCut c ^^ (m + n)) w) \<and>
     0 \<le> (oneCut c ^^ (m + n)) w \<and> (oneCut c ^^ (m + n)) w \<le> w \<and>
     bindR (decayedWeight w c (int m)) (\<lambda>v. decayedWeight v c (int n)) = decayedWeight w c (int (m + n))"
proof -
  define v where "v = (oneCut c ^^ m) w"
  have v: "0 \<le> v" "v \<le> w" using iterate_range [OF assms(1,3,4), of m] unfolding v_def by blast+
  have m: "decayedWeight w c (int m) = Inr v" and n: "decayedWeight v c (int n) = Inr ((oneCut c ^^ n) v)"
    unfolding v_def [symmetric]
    using decayedWeight_iterate [OF assms(1,2,3,4), of m] decayedWeight_iterate [of v c n] assms v unfolding v_def [symmetric] by linarith+
  have mn: "decayedWeight w c (int (m + n)) = Inr ((oneCut c ^^ n) v)" "(oneCut c ^^ (m + n)) w = (oneCut c ^^ n) v"
    using decayedWeight_iterate [OF assms] unfolding iterate_add v_def by blast+
  show ?thesis using iterate_range [OF assms(1,3,4), of "m + n"] unfolding mn m by (simp only: n bindR_simps mn)
qed

section \<open>Stages\<close>

lemma deriveStart_least:
  assumes "0 < d"
  shows "\<exists>k \<ge> 1. deriveStart b d m = b + k * d \<and> m \<le> b + k * d \<and> (\<forall>j \<ge> 1. m \<le> b + j * d \<longrightarrow> k \<le> j)"
proof (cases "m \<le> b + d")
  case True
  then show ?thesis using assms by (intro exI [of _ 1]) (auto simp: deriveStart_def)
next
  case False
  define x where "x = m - (b + d) + d - 1"
  define q where "q = x div d"
  have "q * d \<le> x" "x < (q + 1) * d"
    using assms div_mult_mod_eq [of x d] pos_mod_bound [of d x] pos_mod_sign [of d x] unfolding q_def distrib_right by linarith+
  then have q: "q * d \<le> m - b - 1" "m - b - 1 < (q + 1) * d" unfolding x_def by simp_all
  have "0 \<le> q" using assms False by (simp add: q_def x_def pos_imp_zdiv_nonneg_iff)
  moreover have "deriveStart b d m = b + (q + 1) * d" using False assms by (simp add: deriveStart_def q_def x_def Let_def distrib_right)
  moreover have "m \<le> b + (q + 1) * d" using q(2) by (simp add: distrib_right)
  moreover have "q + 1 \<le> j" if "m \<le> b + j * d" for j
  proof (rule ccontr)
    assume "\<not> q + 1 \<le> j"
    then have "j * d \<le> q * d" using assms by (intro mult_right_mono) auto
    then show False using q(1) that by simp
  qed
  ultimately show ?thesis by (intro exI [of _ "q + 1"]) auto
qed

definition stageFollows :: "ResolvedStage \<Rightarrow> RevStage \<Rightarrow> ResolvedStage \<Rightarrow> bool" where
  "stageFollows p stage r \<longleftrightarrow>
     bigInt (sg_startsAtOrAfter stage) \<le> rg_start r \<and>
     rg_duration r = bigInt (sg_issuanceCutFrequency stage) \<and> rg_cut r = bigInt (sg_issuanceCutPercent stage) \<and>
     (if rg_duration p = 0 then rg_start r = bigInt (sg_startsAtOrAfter stage) \<and>
        (sg_initialIssuance stage = ''1'' \<longrightarrow> rg_weight r = oneCut (rg_cut p) (rg_weight p))
      else \<exists>k \<ge> 1. rg_start r = rg_start p + k * rg_duration p \<and>
        (\<forall>j \<ge> 1. bigInt (sg_startsAtOrAfter stage) \<le> rg_start p + j * rg_duration p \<longrightarrow> k \<le> j) \<and>
        (sg_initialIssuance stage = ''1'' \<longrightarrow> rg_weight r = (oneCut (rg_cut p) ^^ nat k) (rg_weight p))) \<and>
     (sg_initialIssuance stage \<noteq> ''1'' \<longrightarrow> rg_weight r = bigInt (sg_initialIssuance stage)) \<and>
     0 \<le> rg_weight r \<and> rg_weight r < 2 ^ 112"

definition stageOk :: "ResolvedStage \<Rightarrow> bool" where
  "stageOk r \<longleftrightarrow> 0 \<le> rg_duration r \<and> 0 \<le> rg_cut r \<and> rg_cut r \<le> 1000000000 \<and> 0 \<le> rg_weight r \<and> rg_weight r < 2 ^ 112"

lemma uintBits_range: "uintBits n s \<Longrightarrow> 0 \<le> bigInt s \<and> bigInt s < 2 ^ n"
  using uint_range [of "2 ^ n - 1" s] by simp

lemma stage_ranges:
  assumes "revStageSchema ok stage"
  shows "0 \<le> bigInt (sg_issuanceCutFrequency stage)" "0 \<le> bigInt (sg_issuanceCutPercent stage)"
    "bigInt (sg_issuanceCutPercent stage) \<le> 1000000000" "0 \<le> bigInt (sg_initialIssuance stage)" "bigInt (sg_initialIssuance stage) < 2 ^ 112"
  using assms uintBits_range uint_range unfolding revStageSchema_def by blast+

lemma oneCut_zero: "0 \<le> w \<Longrightarrow> (oneCut 0 ^^ n) w = w"
  by (induction n) simp_all

lemma decayedWeight_Inr:
  "decayedWeight w c k = Inr v \<Longrightarrow> 0 \<le> k \<and> k \<le> 10000 \<and> v = (oneCut c ^^ nat k) w \<and> 0 \<le> v \<and> v \<le> w \<and> v < 2 ^ 112"
proof -
  assume a: "decayedWeight w c k = Inr v"
  then have r: "0 \<le> w" "w < 2 ^ 112" "0 \<le> c" "c \<le> 1000000000" "0 \<le> k" "k \<le> 10000" "v = decayLoop (nat k) c w"
    by (auto simp: decayedWeight_def res_simps)
  then show ?thesis using decayLoop_iterate [OF r(1,3,4), of "nat k"] iterate_range [OF r(1,3,4), of "nat k"] by linarith
qed

lemma resolveStage_follows:
  assumes "resolveStage (Some p) stage = Inr r" and "stageOk p" and "revStageSchema ok stage"
  shows "stageFollows p stage r"
proof -
  note ranges = stage_ranges [OF assms(3)]
  define cuts where "cuts = (if rg_duration p = 0 then 1 else if rg_cut p = 0 then 0
      else (deriveStart (rg_start p) (rg_duration p) (bigInt (sg_startsAtOrAfter stage)) - rg_start p) div rg_duration p)"
  obtain w where w: "(if sg_initialIssuance stage = ''1'' then decayedWeight (rg_weight p) (rg_cut p) cuts else Inr (bigInt (sg_initialIssuance stage))) = Inr w"
    and r: "r = \<lparr>rg_start = deriveStart (rg_start p) (rg_duration p) (bigInt (sg_startsAtOrAfter stage)),
       rg_duration = bigInt (sg_issuanceCutFrequency stage), rg_weight = w, rg_cut = bigInt (sg_issuanceCutPercent stage)\<rparr>"
    using assms(1) unfolding resolveStage_def cuts_def by (auto simp: Let_def bindR_eq_Inr)
  have v: "0 \<le> w \<and> w < 2 ^ 112"
    using w ranges decayedWeight_Inr [of "rg_weight p" "rg_cut p" cuts w] by (auto split: if_splits)
  show ?thesis
  proof (cases "rg_duration p = 0")
    case True
    have "w = oneCut (rg_cut p) (rg_weight p)" if i: "sg_initialIssuance stage = ''1''"
    proof -
      have "decayedWeight (rg_weight p) (rg_cut p) 1 = Inr w" using w i True by (simp add: cuts_def)
      then show ?thesis using decayedWeight_Inr [of "rg_weight p" "rg_cut p" 1 w] by simp
    qed
    then show ?thesis using True r v w by (auto simp: stageFollows_def deriveStart_def)
  next
    case False
    then have d: "0 < rg_duration p" using assms(2) by (simp add: stageOk_def)
    obtain k where k: "k \<ge> 1" "deriveStart (rg_start p) (rg_duration p) (bigInt (sg_startsAtOrAfter stage)) = rg_start p + k * rg_duration p"
      "bigInt (sg_startsAtOrAfter stage) \<le> rg_start p + k * rg_duration p"
      "\<forall>j \<ge> 1. bigInt (sg_startsAtOrAfter stage) \<le> rg_start p + j * rg_duration p \<longrightarrow> k \<le> j"
      using deriveStart_least [OF d, of "rg_start p" "bigInt (sg_startsAtOrAfter stage)"] by blast
    have "w = (oneCut (rg_cut p) ^^ nat k) (rg_weight p)" if "sg_initialIssuance stage = ''1''"
    proof (cases "rg_cut p = 0")
      case True
      then have "w = rg_weight p" using w that False decayedWeight_Inr by (fastforce simp: cuts_def)
      then show ?thesis using True oneCut_zero assms(2) by (simp add: stageOk_def)
    next
      case nz: False
      then have "cuts = k" using False k(2) by (simp add: cuts_def)
      then show ?thesis using w that decayedWeight_Inr by auto
    qed
    then show ?thesis using False v k w r unfolding stageFollows_def by (auto intro!: exI [of _ k])
  qed
qed

lemma resolveFrom_follows:
  assumes "resolveFrom prior stages = Inr rs" and "list_all (revStageSchema ok) stages" and "pred_option stageOk prior"
  shows "length rs = length stages \<and> list_all stageOk rs \<and>
    (\<forall>i < length rs. case (if i = 0 then prior else Some (rs ! (i - 1))) of None \<Rightarrow> True | Some p \<Rightarrow> stageFollows p (stages ! i) (rs ! i))"
  using assms
proof (induction stages arbitrary: prior rs)
  case (Cons s ss)
  obtain r us where r: "resolveStage prior s = Inr r" "resolveFrom (Some r) ss = Inr us" "rs = r # us"
    using Cons.prems(1) by (auto simp: bindR_eq_Inr)
  have s: "revStageSchema ok s" using Cons.prems(2) by simp
  have f: "stageFollows p s r" if "prior = Some p" for p
    using resolveStage_follows [of p s r ok] r(1) that s Cons.prems(3) by simp
  have ok: "stageOk r"
  proof (cases prior)
    case None
    then show ?thesis using r(1) stage_ranges [OF s] by (auto simp: resolveStage_def stageOk_def)
  next
    case (Some p)
    then show ?thesis using f [OF Some] stage_ranges [OF s] by (auto simp: stageFollows_def stageOk_def)
  qed
  have ih: "length us = length ss \<and> list_all stageOk us \<and>
    (\<forall>i < length us. case (if i = 0 then Some r else Some (us ! (i - 1))) of None \<Rightarrow> True | Some p \<Rightarrow> stageFollows p (ss ! i) (us ! i))"
    using Cons.IH [OF r(2)] Cons.prems(2) ok by simp
  have "case (if i = 0 then prior else Some (rs ! (i - 1))) of None \<Rightarrow> True | Some p \<Rightarrow> stageFollows p ((s # ss) ! i) (rs ! i)"
    if "i < length rs" for i
  proof (cases i)
    case 0
    then show ?thesis using f r(3) by (cases prior) simp_all
  next
    case (Suc j)
    then show ?thesis using ih [THEN conjunct2, THEN conjunct2, rule_format, of j] that r(3) by (cases j) auto
  qed
  then show ?case using ih ok r(3) by simp
qed simp

lemma resolveFrom_error:
  "resolveFrom prior stages = Inl e \<Longrightarrow> de_code e = ''INVALID_SCENARIO'' \<and> (\<exists>s \<in> set (if prior = None then tl stages else stages). sg_initialIssuance s = ''1'')"
proof (induction stages arbitrary: prior)
  case (Cons s ss)
  show ?case
  proof (cases "resolveStage prior s")
    case (Inl f)
    then have "prior \<noteq> None" "e = f" using Cons.prems by (cases prior; simp add: resolveStage_def)+
    moreover have "sg_initialIssuance s = ''1'' \<and> de_code f = ''INVALID_SCENARIO''"
      using Inl by (auto simp: resolveStage_def Let_def bindR_eq_Inl decayedWeight_def ensure_def split: option.splits if_splits)
    ultimately show ?thesis by auto
  next
    case (Inr r)
    then have "resolveFrom (Some r) ss = Inl e" using Cons.prems by (auto simp: bindR_eq_Inl)
    then show ?thesis using Cons.IH [of "Some r"] by auto
  qed
qed simp

text \<open>
  C36. The stages of a revnet are queued the way the contracts queue them. Whatever configuration the schema accepts, either every
  stage is resolved: the first starts when it asks to, and each later one on the first cycle boundary of its
  predecessor, after at least one cycle, that is not before the time it asks for (or exactly then, after a
  stage without cycles), with the cycle length and the cut it states and the weight it states or, when it inherits, its predecessor's weight cut once
  per elapsed cycle (once after a stage without cycles), always within uint112; or it is refused as an invalid scenario, which only happens
  when a later stage inherits its weight.
\<close>

theorem revnet_stages_resolved:
  assumes "revConfigSchema ok config"
  shows "case resolveStages config of
       Inl e \<Rightarrow> de_code e = ''INVALID_SCENARIO'' \<and> (\<exists>s \<in> set (tl (rv_stageConfigurations config)). sg_initialIssuance s = ''1'')
     | Inr rs \<Rightarrow> length rs = length (rv_stageConfigurations config) \<and>
         rg_start (rs ! 0) = bigInt (sg_startsAtOrAfter (rv_stageConfigurations config ! 0)) \<and>
         rg_duration (rs ! 0) = bigInt (sg_issuanceCutFrequency (rv_stageConfigurations config ! 0)) \<and>
         rg_cut (rs ! 0) = bigInt (sg_issuanceCutPercent (rv_stageConfigurations config ! 0)) \<and>
         rg_weight (rs ! 0) = bigInt (sg_initialIssuance (rv_stageConfigurations config ! 0)) \<and>
         (\<forall>i. Suc i < length rs \<longrightarrow> stageFollows (rs ! i) (rv_stageConfigurations config ! Suc i) (rs ! Suc i))"
proof (cases "resolveStages config")
  case (Inl e)
  then show ?thesis using resolveFrom_error [of None "rv_stageConfigurations config" e] by (auto simp: resolveStages_def)
next
  case (Inr rs)
  obtain s ss where c: "rv_stageConfigurations config = s # ss" using assms by (cases "rv_stageConfigurations config") (auto simp: revConfigSchema_def)
  have "list_all (revStageSchema ok) (rv_stageConfigurations config)" using assms by (simp add: revConfigSchema_def)
  note f = resolveFrom_follows [OF Inr [unfolded resolveStages_def] this]
  have "stageFollows (rs ! i) (rv_stageConfigurations config ! Suc i) (rs ! Suc i)" if "Suc i < length rs" for i
    using f [simplified, THEN conjunct2, THEN conjunct2, rule_format, OF that] by simp
  moreover have "rg_start (rs ! 0) = bigInt (sg_startsAtOrAfter s)" "rg_weight (rs ! 0) = bigInt (sg_initialIssuance s)"
    "rg_duration (rs ! 0) = bigInt (sg_issuanceCutFrequency s)" "rg_cut (rs ! 0) = bigInt (sg_issuanceCutPercent s)"
    using Inr by (auto simp: resolveStages_def c bindR_eq_Inr resolveStage_def Let_def)
  ultimately show ?thesis using Inr f c by simp
qed

section \<open>Scenarios\<close>

definition issuanceOf :: "Terms \<Rightarrow> Scenario \<Rightarrow> int" where
  "issuanceOf terms scenario = (bigInt (sn_contributionInBaseCurrency18 scenario) * tm_weight terms) div 10 ^ 18"

definition termsOk :: "Terms \<Rightarrow> bool" where
  "termsOk terms \<longleftrightarrow> 0 \<le> tm_weight terms \<and> tm_weight terms < 2 ^ 112 \<and> 0 \<le> tm_reservedPercent terms \<and> tm_reservedPercent terms \<le> 10000 \<and>
     0 \<le> tm_cashOutTaxRate terms \<and> tm_cashOutTaxRate terms \<le> 10000"

lemma scenario_curveInputs:
  assumes "scenarioSchema s" and "termsOk t" and "sn_cashOut s = Some c"
  shows "curveInputs (bigInt (ci_surplusAtomic c)) (bigInt (ci_cashOutCount c)) (bigInt (ci_totalSupply c)) (tm_cashOutTaxRate t)"
  using assms uintText_range by (auto simp: scenarioSchema_def termsOk_def curveInputs_def)

lemma revnetCashOut_returns: "curveInputs a b c d \<Longrightarrow> \<exists>r. revnetCashOut a b c d = Inr r"
  using revnet_cash_out_value by blast

text \<open>
  What a result says of its scenario: the tokens issued, the beneficiary's share of them after the reserved percentage, rounded down, the rest as reserved tokens, and
  what cashing out pays, by the curve of the core or with the fees of a revnet, never more than the surplus.
\<close>

definition issuanceSound :: "Terms \<Rightarrow> Scenario \<Rightarrow> ScenarioResult \<Rightarrow> bool" where
  "issuanceSound t s r \<longleftrightarrow>
     sx_label r = sn_label s \<and>
     (case sx_issuance r of None \<Rightarrow> tm_pausePay t
      | Some i \<Rightarrow> \<not> tm_pausePay t \<and> bigInt (iss_totalTokenCount i) = issuanceOf t s \<and> issuanceOf t s < 2 ^ 256 \<and>
          0 \<le> bigInt (iss_beneficiaryTokenCount i) \<and> 0 \<le> bigInt (iss_pendingReservedTokenCount i) \<and>
          10000 * bigInt (iss_beneficiaryTokenCount i) \<le> issuanceOf t s * (10000 - tm_reservedPercent t) \<and>
          issuanceOf t s * (10000 - tm_reservedPercent t) < 10000 * (bigInt (iss_beneficiaryTokenCount i) + 1) \<and>
          bigInt (iss_beneficiaryTokenCount i) + bigInt (iss_pendingReservedTokenCount i) = issuanceOf t s) \<and>
     (case sx_cashOut r of None \<Rightarrow> sn_cashOut s = None
      | Some (CoreReclaim c x) \<Rightarrow> \<not> tm_revnet t \<and> sn_cashOut s = Some c \<and>
          cashOutCurve (bigInt (ci_surplusAtomic c)) (bigInt (ci_cashOutCount c)) (bigInt (ci_totalSupply c)) (tm_cashOutTaxRate t) = Inr (bigInt x) \<and>
          0 \<le> bigInt x \<and> bigInt x \<le> bigInt (ci_surplusAtomic c)
      | Some (RevnetReclaim c x) \<Rightarrow> tm_revnet t \<and> sn_cashOut s = Some c \<and>
          revnetCashOut (bigInt (ci_surplusAtomic c)) (bigInt (ci_cashOutCount c)) (bigInt (ci_totalSupply c)) (tm_cashOutTaxRate t) = Inr x \<and>
          bigInt (ro_holderReclaimAtomic x) + bigInt (ro_revnetFeeAtomic x) + bigInt (ro_protocolFeeAtomic x) \<le> bigInt (ci_surplusAtomic c))"

lemma issuance_split:
  fixes total p :: int
  assumes "0 \<le> total" "0 \<le> p" "p \<le> 10000"
  shows "0 \<le> bigDiv (total * (10000 - p)) 10000" "bigDiv (total * (10000 - p)) 10000 \<le> total"
    "10000 * bigDiv (total * (10000 - p)) 10000 \<le> total * (10000 - p)" "total * (10000 - p) < 10000 * (bigDiv (total * (10000 - p)) 10000 + 1)"
proof -
  define x where "x = total * (10000 - p)"
  have "0 \<le> x" using assms by (simp add: x_def)
  then have d: "bigDiv x 10000 = x div 10000" by (simp add: bigDiv_def)
  show "0 \<le> bigDiv (total * (10000 - p)) 10000" "bigDiv (total * (10000 - p)) 10000 \<le> total"
    using scaled_le [of total "10000 - p"] assms unfolding x_def [symmetric] d by simp_all
  have m: "x div 10000 * 10000 + x mod 10000 = x" "0 \<le> x mod 10000" "x mod 10000 < 10000" by simp_all
  show "10000 * bigDiv (total * (10000 - p)) 10000 \<le> total * (10000 - p)"
    unfolding x_def [symmetric] d using m by linarith
  show "total * (10000 - p) < 10000 * (bigDiv (total * (10000 - p)) 10000 + 1)"
    unfolding x_def [symmetric] d distrib_left using m by linarith
qed

text \<open>The three sums a revnet cash-out pays.\<close>

lemma revnetCashOut_bounded:
  assumes "curveInputs a b c d"
  shows "\<exists>r. revnetCashOut a b c d = Inr r \<and> bigInt (ro_holderReclaimAtomic r) + bigInt (ro_revnetFeeAtomic r) + bigInt (ro_protocolFeeAtomic r) \<le> a"
proof -
  obtain fee gross rf where v: "0 \<le> gross" "0 \<le> rf" "gross + rf \<le> a"
    and r: "revnetCashOut a b c d = Inr \<lparr>ro_feeTokenCount = intText fee, ro_holderReclaimBeforeProtocolFeeAtomic = intText gross,
          ro_revnetFeeAtomic = intText rf, ro_protocolFeeAtomic = intText (gross div 40),
          ro_holderReclaimAtomic = intText (gross - gross div 40), ro_zeroTaxNote = (d = 0)\<rparr>"
    using revnet_cash_out_value [OF assms] by blast
  have "0 \<le> gross div 40" "0 \<le> gross - gross div 40" using v(1) by (simp_all add: pos_imp_zdiv_nonneg_iff)
  then have "bigInt (intText (gross div 40)) = gross div 40" "bigInt (intText (gross - gross div 40)) = gross - gross div 40"
    by (simp_all only: bigInt_intText)
  then show ?thesis using v r bigInt_intText [of rf] by simp
qed

lemma runScenario_sound:
  assumes "scenarioSchema s" and "termsOk t"
  shows "if issuanceOf t s < 2 ^ 256 then \<exists>r. runScenario t s = Inr r \<and> issuanceSound t s r
    else \<exists>e. runScenario t s = Inl e \<and> de_code e = ''SCENARIO_OVERFLOW''"
proof (cases "issuanceOf t s < 2 ^ 256")
  case True
  define cashOut where "cashOut = (case sn_cashOut s of None \<Rightarrow> Inr None
       | Some c \<Rightarrow>
           let surplus = bigInt (ci_surplusAtomic c); count = bigInt (ci_cashOutCount c); total = bigInt (ci_totalSupply c) in
           if tm_revnet t then bindR (revnetCashOut surplus count total (tm_cashOutTaxRate t)) (\<lambda>r. Inr (Some (RevnetReclaim c r)))
           else bindR (cashOutCurve surplus count total (tm_cashOutTaxRate t)) (\<lambda>r. Inr (Some (CoreReclaim c (intText r)))))"
  let ?paid = "\<lambda>x. case x of None \<Rightarrow> sn_cashOut s = None
      | Some (CoreReclaim c y) \<Rightarrow> \<not> tm_revnet t \<and> sn_cashOut s = Some c \<and>
          cashOutCurve (bigInt (ci_surplusAtomic c)) (bigInt (ci_cashOutCount c)) (bigInt (ci_totalSupply c)) (tm_cashOutTaxRate t) = Inr (bigInt y) \<and>
          0 \<le> bigInt y \<and> bigInt y \<le> bigInt (ci_surplusAtomic c)
      | Some (RevnetReclaim c y) \<Rightarrow> tm_revnet t \<and> sn_cashOut s = Some c \<and>
          revnetCashOut (bigInt (ci_surplusAtomic c)) (bigInt (ci_cashOutCount c)) (bigInt (ci_totalSupply c)) (tm_cashOutTaxRate t) = Inr y \<and>
          bigInt (ro_holderReclaimAtomic y) + bigInt (ro_revnetFeeAtomic y) + bigInt (ro_protocolFeeAtomic y) \<le> bigInt (ci_surplusAtomic c)"
  have "\<exists>x. cashOut = Inr x \<and> ?paid x"
  proof (cases "sn_cashOut s")
    case None
    then show ?thesis by (simp add: cashOut_def)
  next
    case (Some c)
    note i = scenario_curveInputs [OF assms Some]
    show ?thesis
    proof (cases "tm_revnet t")
      case True
      then show ?thesis using revnetCashOut_bounded [OF i] by (auto simp: cashOut_def Some Let_def)
    next
      case False
      then show ?thesis using cashOutCurve_value [OF i] curveValue_range [OF i] by (auto simp: cashOut_def Some Let_def bigInt_intText)
    qed
  qed
  then obtain x where x: "cashOut = Inr x" "?paid x" by blast
  have "0 \<le> bigInt (sn_contributionInBaseCurrency18 s)" using assms(1) uintText_range by (auto simp: scenarioSchema_def)
  then have n: "0 \<le> issuanceOf t s" using assms(2) by (simp add: issuanceOf_def termsOk_def pos_imp_zdiv_nonneg_iff)
  let ?i = "issuanceOf t s"
  let ?b = "bigDiv (?i * (10000 - tm_reservedPercent t)) 10000"
  have "0 \<le> tm_reservedPercent t" "tm_reservedPercent t \<le> 10000" using assms(2) by (simp_all add: termsOk_def)
  note b = issuance_split [OF n this]
  then have shares: "bigInt (intText ?i) = ?i" "bigInt (intText ?b) = ?b" "bigInt (intText (?i - ?b)) = ?i - ?b"
      "0 \<le> ?b" "?b \<le> ?i" "10000 * ?b \<le> ?i * (10000 - tm_reservedPercent t)" "?i * (10000 - tm_reservedPercent t) < 10000 * (?b + 1)"
    using n by (simp_all only: bigInt_intText diff_ge_0_iff_ge)
  have run: "runScenario t s = bindR (ensure (\<not> ?i \<ge> 2 ^ 256) (DomainError ''SCENARIO_OVERFLOW'' ''Hypothetical token issuance exceeds uint256.'')) (\<lambda>_.
      bindR cashOut (\<lambda>cashOut. Inr \<lparr>sx_label = sn_label s, sx_contributionInBaseCurrency18 = sn_contributionInBaseCurrency18 s,
          sx_payAllowedByPauseFlag = (\<not> tm_pausePay t),
          sx_issuance = (if tm_pausePay t then None
             else Some \<lparr>iss_totalTokenCount = intText ?i, iss_beneficiaryTokenCount = intText ?b,
                        iss_pendingReservedTokenCount = intText (?i - ?b)\<rparr>),
          sx_cashOut = cashOut\<rparr>))"
    by (simp only: runScenario_def cashOut_def issuanceOf_def Let_def)
  have "issuanceSound t s \<lparr>sx_label = sn_label s, sx_contributionInBaseCurrency18 = sn_contributionInBaseCurrency18 s,
          sx_payAllowedByPauseFlag = (\<not> tm_pausePay t),
          sx_issuance = (if tm_pausePay t then None
             else Some \<lparr>iss_totalTokenCount = intText ?i, iss_beneficiaryTokenCount = intText ?b,
                        iss_pendingReservedTokenCount = intText (?i - ?b)\<rparr>),
          sx_cashOut = x\<rparr>"
    unfolding issuanceSound_def using True x(2) shares by (cases "tm_pausePay t") simp_all
  then show ?thesis using True unfolding run by (simp add: x(1))
next
  case False
  then show ?thesis unfolding runScenario_def issuanceOf_def [symmetric] Let_def by (simp add: ensure_def)
qed

lemma mapR_Inl: "mapR f xs = Inl e \<Longrightarrow> \<exists>x \<in> set xs. f x = Inl e"
  by (induction xs) (auto simp: bindR_eq_Inl)

lemma termsOk_of_config:
  assumes "rulesetConfigSchema ok config" and "0 \<le> w" and "w < 2 ^ 112"
  shows "termsOk (termsOf config w h)"
proof -
  have "rateOk (md_reservedPercent (rs_metadata config))" "rateOk (md_cashOutTaxRate (rs_metadata config))"
    using assms(1) by (simp_all add: rulesetConfigSchema_def rulesetMetadataSchema_def)
  then show ?thesis using assms(2,3) uint_range by (auto simp: termsOk_def termsOf_def)
qed

lemma termsOk_of_stage:
  assumes "revStageSchema ok (rv_stageConfigurations config ! i)" and "0 \<le> w" and "w < 2 ^ 112"
  shows "termsOk (termsOf (revnetStageRuleset owner config i) w h)"
proof -
  let ?s = "rv_stageConfigurations config ! i"
  have "uint 10000 (sg_splitPercent ?s)" "uint 9999 (sg_cashOutTaxRate ?s)" using assms(1) by (simp_all add: revStageSchema_def)
  then have "0 \<le> bigInt (sg_splitPercent ?s) \<and> bigInt (sg_splitPercent ?s) \<le> 10000" "0 \<le> bigInt (sg_cashOutTaxRate ?s) \<and> bigInt (sg_cashOutTaxRate ?s) \<le> 9999"
    using uint_range by blast+
  then show ?thesis using assms(2,3) by (simp add: termsOk_def termsOf_def revnetStageRuleset_def Let_def)
qed

text \<open>A live ruleset as the contracts keep it: rates of at most 10000 and a duration that is not negative.\<close>

definition liveOk :: "LiveRevnet option \<Rightarrow> bool" where
  "liveOk live \<longleftrightarrow> (case live of None \<Rightarrow> True | Some l \<Rightarrow> 0 \<le> lv_reservedPercent l \<and> lv_reservedPercent l \<le> 10000 \<and>
     0 \<le> lv_cashOutTaxRate l \<and> lv_cashOutTaxRate l \<le> 10000 \<and> 0 \<le> lv_duration l)"

lemma decayedWeight_range: "decayedWeight w c k = Inr v \<Longrightarrow> 0 \<le> v \<and> v < 2 ^ 112"
  using decayedWeight_Inr by blast

lemma resolve_termsOk:
  assumes "resolve isRevOwner revOwner v live = Inr (terms, source)" and "modelEconomicsSchema ok v" and "liveOk live"
  shows "termsOk terms"
proof (cases "mi_rulesetConfiguration v")
  case (Some config)
  then have "rulesetConfigSchema ok config" using assms(2) by (simp add: modelEconomicsSchema_def)
  then show ?thesis using assms(1) Some decayedWeight_range
    by (auto simp: resolve_def Let_def bindR_eq_Inr intro!: termsOk_of_config)
next
  case None
  then obtain r where r: "mi_revnet v = Some r" using assms(2)
    by (cases "mi_revnet v") (auto simp: modelEconomicsSchema_def modelInputRefined_def)
  show ?thesis
  proof (cases r)
    case LiveProject
    then show ?thesis using assms(1,3) None r decayedWeight_range
      by (auto simp: resolve_def Let_def bindR_eq_Inr termsOk_def liveOk_def split: option.splits)
  next
    case (StageConfig config i)
    have "i < length (rv_stageConfigurations config)" "list_all (revStageSchema ok) (rv_stageConfigurations config)"
      using assms(2) None r StageConfig by (simp_all add: modelEconomicsSchema_def modelInputRefined_def revConfigSchema_def)
    then have "revStageSchema ok (rv_stageConfigurations config ! i)" by (simp add: list_all_length)
    then show ?thesis using assms(1) None r StageConfig decayedWeight_range
      by (auto simp: resolve_def Let_def bindR_eq_Inr intro!: termsOk_of_stage)
  qed
qed

text \<open>The modelled cycles of a ruleset, all of them complete before the next stage.\<close>

definition withinStage :: "int \<Rightarrow> int \<Rightarrow> int \<Rightarrow> int option \<Rightarrow> bool" where
  "withinStage start duration cycles nextStart \<longleftrightarrow> (duration = 0 \<longrightarrow> cycles = 0) \<and>
     (\<forall>n. nextStart = Some n \<and> duration \<noteq> 0 \<longrightarrow> start + (cycles + 1) * duration \<le> n)"

lemma stageBoundary_within:
  assumes "stageBoundary start duration nextStart cycles = Inr ()" and "\<not> (duration = 0 \<and> cycles \<noteq> 0)" and "0 \<le> cycles" and "0 \<le> duration"
  shows "withinStage start duration cycles nextStart"
proof -
  have "start + (cycles + 1) * duration \<le> n" if n: "nextStart = Some n" "duration \<noteq> 0" for n
  proof -
    have d: "0 < duration" using n(2) assms(4) by simp
    have c: "cycles + 1 \<le> bigDiv (n - start) duration" using assms(1) n by (auto simp: stageBoundary_def Let_def ensure_eq_Inr)
    have "\<not> n - start < 0"
    proof
      assume neg: "n - start < 0"
      then have "0 \<le> (- (n - start)) div duration" using d by (simp add: pos_imp_zdiv_nonneg_iff)
      then show False using neg c assms(3) by (simp add: bigDiv_def)
    qed
    then have "cycles + 1 \<le> (n - start) div duration" using c by (simp add: bigDiv_def)
    then have "(cycles + 1) * duration \<le> (n - start) div duration * duration" using d by (intro mult_right_mono) simp_all
    also have "\<dots> \<le> n - start" using d pos_mod_sign [of duration "n - start"] div_mult_mod_eq [of "n - start" duration] by linarith
    finally show ?thesis by simp
  qed
  then show ?thesis using assms(2) by (auto simp: withinStage_def)
qed

definition startWeight :: "ModelInput \<Rightarrow> RulesetConfig \<Rightarrow> int" where
  "startWeight v config = (if rs_weight config = ''1'' \<and> mi_rulesetRole v = Some SuccessorRole
      then bigInt (the (mi_inheritedWeight v)) else bigInt (rs_weight config))"

text \<open>The terms a model computes with, read off its input: a ruleset, a stage of a revnet to launch, or the live ruleset of a revnet.\<close>

definition modelledTerms :: "ModelInput \<Rightarrow> LiveRevnet option \<Rightarrow> Terms \<Rightarrow> bool" where
  "modelledTerms v live t \<longleftrightarrow>
     (case mi_rulesetConfiguration v of
        Some config \<Rightarrow> let md = rs_metadata config in
          tm_weight t = (oneCut (bigInt (rs_weightCutPercent config)) ^^ nat (mi_completedCycles v)) (startWeight v config) \<and>
          tm_reservedPercent t = bigInt (md_reservedPercent md) \<and> tm_cashOutTaxRate t = bigInt (md_cashOutTaxRate md) \<and>
          tm_pausePay t = md_pausePay md \<and> tm_revnet t = (md_useDataHookForPay md \<or> md_useDataHookForCashOut md)
      | None \<Rightarrow>
          (case mi_revnet v of
             Some (StageConfig config k) \<Rightarrow> \<exists>stages. resolveStages config = Inr stages \<and>
               tm_weight t = (oneCut (rg_cut (stages ! k)) ^^ nat (mi_completedCycles v)) (rg_weight (stages ! k)) \<and>
               tm_reservedPercent t = bigInt (sg_splitPercent (rv_stageConfigurations config ! k)) \<and>
               tm_cashOutTaxRate t = bigInt (sg_cashOutTaxRate (rv_stageConfigurations config ! k)) \<and> \<not> tm_pausePay t \<and> tm_revnet t \<and>
               withinStage (rg_start (stages ! k)) (rg_duration (stages ! k)) (mi_completedCycles v)
                 (if k + 1 < length stages then Some (rg_start (stages ! (k + 1))) else None)
           | _ \<Rightarrow> \<exists>l. live = Some l \<and>
               tm_weight t = (oneCut (lv_weightCutPercent l) ^^ nat (mi_completedCycles v)) (lv_weight l) \<and>
               tm_reservedPercent t = lv_reservedPercent l \<and> tm_cashOutTaxRate t = lv_cashOutTaxRate l \<and> tm_pausePay t = lv_pausePay l \<and> tm_revnet t \<and>
               (\<forall>(i, start) \<in> set (lv_stages l). lv_id l < i \<longrightarrow> withinStage (lv_start l) (lv_duration l) (mi_completedCycles v) (Some start))))"

lemma live_within:
  assumes "stageBoundary start duration (case sort (map snd (filter (\<lambda>(i, start). i > current) stages)) of [] \<Rightarrow> None | x # _ \<Rightarrow> Some x) cycles = Inr ()"
    and "\<not> (duration = 0 \<and> cycles \<noteq> 0)" and "0 \<le> cycles" and "0 \<le> duration" and "(i, n) \<in> set stages" and "current < i"
  shows "withinStage start duration cycles (Some n)"
proof -
  let ?later = "sort (map snd (filter (\<lambda>(i, start). i > current) stages))"
  have "n \<in> set ?later" using assms(5,6) by force
  then obtain x xs where x: "?later = x # xs" by (cases ?later) auto
  then have "x \<le> n" using \<open>n \<in> set ?later\<close> sorted_sort [of "map snd (filter (\<lambda>(i, start). i > current) stages)"] by auto
  moreover have "withinStage start duration cycles (Some x)" using stageBoundary_within [OF assms(1-4)] by (simp add: x)
  ultimately show ?thesis by (auto simp: withinStage_def)
qed

lemma resolve_modelled:
  assumes "resolve isRevOwner revOwner v live = Inr (t, source)" and "modelEconomicsSchema ok v" and "liveOk live"
  shows "modelledTerms v live t"
proof (cases "mi_rulesetConfiguration v")
  case (Some config)
  then show ?thesis using assms(1) decayedWeight_Inr
    by (fastforce simp: resolve_def modelledTerms_def Let_def bindR_eq_Inr termsOf_def startWeight_def)
next
  case None
  then obtain r where r: "mi_revnet v = Some r" using assms(2)
    by (cases "mi_revnet v") (auto simp: modelEconomicsSchema_def modelInputRefined_def)
  have c: "0 \<le> mi_completedCycles v" using assms(2) by (simp add: modelEconomicsSchema_def)
  show ?thesis
  proof (cases r)
    case LiveProject
    obtain l w where l: "live = Some l" "\<not> (lv_duration l = 0 \<and> mi_completedCycles v \<noteq> 0)"
      "stageBoundary (lv_start l) (lv_duration l) (case sort (map snd (filter (\<lambda>(i, start). i > lv_id l) (lv_stages l))) of [] \<Rightarrow> None | x # _ \<Rightarrow> Some x)
         (mi_completedCycles v) = Inr ()"
      "decayedWeight (lv_weight l) (lv_weightCutPercent l) (mi_completedCycles v) = Inr w"
      and t: "t = \<lparr>tm_weight = w, tm_weightCutPercent = lv_weightCutPercent l, tm_reservedPercent = lv_reservedPercent l,
         tm_cashOutTaxRate = lv_cashOutTaxRate l, tm_baseCurrency = lv_baseCurrency l, tm_pausePay = lv_pausePay l,
         tm_fundAccessLimitGroups = [], tm_revnet = True\<rparr>"
      using assms(1) None r LiveProject by (cases live) (auto simp: resolve_def Let_def bindR_eq_Inr ensure_eq_Inr)
    have d: "0 \<le> lv_duration l" using assms(3) l(1) by (simp add: liveOk_def)
    show ?thesis using None r LiveProject l(1) decayedWeight_Inr [OF l(4)] live_within [OF l(3,2) c d] by (auto simp: modelledTerms_def t)
  next
    case (StageConfig config k)
    obtain stages w where st: "resolveStages config = Inr stages" "\<not> (rg_duration (stages ! k) = 0 \<and> mi_completedCycles v \<noteq> 0)"
      "stageBoundary (rg_start (stages ! k)) (rg_duration (stages ! k)) (if k + 1 < length stages then Some (rg_start (stages ! (k + 1))) else None) (mi_completedCycles v) = Inr ()"
      "decayedWeight (rg_weight (stages ! k)) (rg_cut (stages ! k)) (mi_completedCycles v) = Inr w"
      and t: "t = termsOf (revnetStageRuleset revOwner config k) w True"
      using assms(1) None r StageConfig by (auto simp: resolve_def Let_def bindR_eq_Inr ensure_eq_Inr)
    have k: "k < length (rv_stageConfigurations config)" "list_all (revStageSchema ok) (rv_stageConfigurations config)"
      using assms(2) None r StageConfig by (simp_all add: modelEconomicsSchema_def modelInputRefined_def revConfigSchema_def)
    have "list_all stageOk stages \<and> length stages = length (rv_stageConfigurations config)"
      using resolveFrom_follows [OF st(1) [unfolded resolveStages_def] k(2)] by simp
    then have d: "0 \<le> rg_duration (stages ! k)" using k(1) by (simp add: list_all_length stageOk_def)
    show ?thesis using None r StageConfig st(1) decayedWeight_Inr [OF st(4)] stageBoundary_within [OF st(3,2) c d]
      by (auto simp: modelledTerms_def t termsOf_def revnetStageRuleset_def Let_def)
  qed
qed

text \<open>
  C38. A model that is returned is sound. For every accepted input, whether a ruleset, a revnet to launch or a live one (whose rates the contracts keep at or below 10000),
  a returned model computes with the terms of its input: the stated, inherited or live weight, cut once per modelled cycle and within uint112, its reserved and tax rates,
  and for a revnet only cycles that are complete before the next stage starts. There is one result per scenario: unless payments are paused the tokens issued are the contribution times
  the weight, below \<open>2 ^ 256\<close>; the beneficiary gets the part that is not reserved, rounded down, and the reserve exactly the rest; and cashing out pays what the curve, or for a revnet
  the curve with its fees, gives, never more than the surplus.
\<close>

theorem economic_model_sound:
  assumes "modelEconomics ok isRevOwner revOwner v live = Inr m" and "liveOk live"
  shows "\<exists>terms. modelledTerms v live terms \<and>
     bigInt (em_effectiveWeight m) = tm_weight terms \<and> 0 \<le> tm_weight terms \<and> tm_weight terms < 2 ^ 112 \<and>
     length (em_scenarios m) = length (mi_scenarios v) \<and>
     (\<forall>i < length (mi_scenarios v). issuanceSound terms (mi_scenarios v ! i) (em_scenarios m ! i))"
proof -
  obtain terms source rs where t: "modelEconomicsSchema ok v" "resolve isRevOwner revOwner v live = Inr (terms, source)"
      "mapR (runScenario terms) (mi_scenarios v) = Inr rs"
    and m: "em_effectiveWeight m = intText (tm_weight terms)" "em_scenarios m = rs"
    using assms(1) by (auto simp: modelEconomics_def bindR_eq_Inr ensure_eq_Inr)
  note ok = resolve_termsOk [OF t(2,1) assms(2)]
  have "issuanceSound terms (mi_scenarios v ! i) (rs ! i)" if "i < length (mi_scenarios v)" for i
  proof -
    have "scenarioSchema (mi_scenarios v ! i)" using t(1) that by (simp add: modelEconomicsSchema_def list_all_length)
    then show ?thesis using runScenario_sound [OF _ ok] mapR_length [OF t(3)] mapR_nth [OF t(3)] that by (fastforce split: if_splits)
  qed
  then show ?thesis using resolve_modelled [OF t(2,1) assms(2)] m ok mapR_length [OF t(3)]
    by (intro exI [of _ terms]) (simp add: termsOk_def bigInt_intText)
qed

text \<open>
  C39. Core rulesets are always modelled. For an accepted ruleset without data hooks the weight is the stated one, or the inherited
  one when the ruleset inherits, cut once per completed cycle; every scenario gets its result; and the only
  error is the overflow of a scenario that really issues \<open>2 ^ 256\<close> tokens or more.
\<close>

theorem core_model_returns:
  assumes "modelEconomicsSchema ok v" and "mi_rulesetConfiguration v = Some config"
    and "\<not> md_useDataHookForPay (rs_metadata config)" and "\<not> md_useDataHookForCashOut (rs_metadata config)"
  defines "w \<equiv> (oneCut (bigInt (rs_weightCutPercent config)) ^^ nat (mi_completedCycles v)) (startWeight v config)"
  shows "case modelEconomics ok isRevOwner revOwner v live of
       Inl e \<Rightarrow> de_code e = ''SCENARIO_OVERFLOW'' \<and>
         (\<exists>s \<in> set (mi_scenarios v). (bigInt (sn_contributionInBaseCurrency18 s) * w) div 10 ^ 18 \<ge> 2 ^ 256)
     | Inr m \<Rightarrow> bigInt (em_effectiveWeight m) = w \<and> length (em_scenarios m) = length (mi_scenarios v) \<and>
         em_payoutBudgets m = rs_fundAccessLimitGroups config \<and>
         (\<forall>s \<in> set (mi_scenarios v). (bigInt (sn_contributionInBaseCurrency18 s) * w) div 10 ^ 18 < 2 ^ 256)"
proof -
  have c: "rulesetConfigSchema ok config" using assms(1,2) by (simp add: modelEconomicsSchema_def)
  have "0 \<le> startWeight v config \<and> startWeight v config < 2 ^ 112"
    using assms(1,2) c uintBits_range [of 112]
    by (auto simp: startWeight_def modelEconomicsSchema_def modelInputRefined_def rulesetConfigSchema_def split: option.splits)
  moreover have "0 \<le> bigInt (rs_weightCutPercent config)" "bigInt (rs_weightCutPercent config) \<le> 1000000000"
    using c uint_range [of 1000000000 "rs_weightCutPercent config"] by (auto simp: rulesetConfigSchema_def)
  moreover have "0 \<le> mi_completedCycles v" "mi_completedCycles v \<le> 10000" using assms(1) by (simp_all add: modelEconomicsSchema_def)
  ultimately have d: "decayedWeight (startWeight v config) (bigInt (rs_weightCutPercent config)) (mi_completedCycles v) = Inr w"
    using decayedWeight_iterate [of "startWeight v config" "bigInt (rs_weightCutPercent config)" "nat (mi_completedCycles v)"] by (simp add: w_def)
  define t where "t = termsOf config w False"
  have r: "resolve isRevOwner revOwner v live = Inr (t, None)"
    using assms(2,3,4) d by (simp add: resolve_def t_def Let_def startWeight_def [symmetric])
  have ok: "termsOk t" unfolding t_def by (rule termsOk_of_config [OF c decayedWeight_range [OF d, THEN conjunct1] decayedWeight_range [OF d, THEN conjunct2]])
  have i: "issuanceOf t s = (bigInt (sn_contributionInBaseCurrency18 s) * w) div 10 ^ 18" for s by (simp add: issuanceOf_def t_def termsOf_def)
  have s: "scenarioSchema s" if "s \<in> set (mi_scenarios v)" for s using assms(1) that by (simp add: modelEconomicsSchema_def list_all_iff)
  show ?thesis
  proof (cases "mapR (runScenario t) (mi_scenarios v)")
    case (Inl e)
    obtain x where x: "x \<in> set (mi_scenarios v)" "runScenario t x = Inl e" using mapR_Inl [OF Inl] by (elim bexE)
    then show ?thesis using runScenario_sound [OF s [OF x(1)] ok] assms(1) r Inl i
      by (auto simp: modelEconomics_def split: if_splits intro!: bexI [of _ x])
  next
    case (Inr rs)
    have "issuanceOf t x < 2 ^ 256" if x: "x \<in> set (mi_scenarios v)" for x
    proof -
      obtain k where "k < length (mi_scenarios v)" "x = mi_scenarios v ! k" using x by (metis in_set_conv_nth)
      then have "runScenario t x = Inr (rs ! k)" using mapR_length [OF Inr] mapR_nth [OF Inr] by simp
      then show ?thesis using runScenario_sound [OF s [OF x] ok] by (auto split: if_splits)
    qed
    moreover have "bigInt (intText w) = w" using decayedWeight_range [OF d] bigInt_intText by blast
    ultimately show ?thesis using assms(1) r Inr i mapR_length [OF Inr] mapR_nth [OF Inr]
      by (simp add: modelEconomics_def) (simp add: t_def termsOf_def)
  qed
qed

section \<open>Concrete inputs\<close>

definition sampleAddressOk :: "string \<Rightarrow> bool" where
  "sampleAddressOk a \<longleftrightarrow> length a = 42 \<and> take 2 a = ''0x''"

definition sampleMetadata :: RulesetMetadata where
  "sampleMetadata = \<lparr>md_reservedPercent = ''2000'', md_cashOutTaxRate = ''1000'', md_baseCurrency = ''1'', md_pausePay = False,
     md_pauseCreditTransfers = False, md_allowOwnerMinting = True, md_allowSetCustomToken = False, md_allowTerminalMigration = False,
     md_allowSetTerminals = False, md_allowSetController = False, md_allowAddAccountingContext = False, md_allowAddPriceFeed = False,
     md_ownerMustSendPayouts = False, md_holdFees = True, md_scopeCashOutsToLocalBalances = False, md_useDataHookForPay = False,
     md_useDataHookForCashOut = False, md_dataHook = zeroAddress, md_metadata = ''0''\<rparr>"

definition sampleHolder :: string where "sampleHolder = ''0x'' @ replicate 40 CHR ''1''"

definition sampleRuleset :: RulesetConfig where
  "sampleRuleset = \<lparr>rs_mustStartAtOrAfter = ''0'', rs_duration = ''604800'', rs_weight = ''1000'', rs_weightCutPercent = ''500000000'',
     rs_approvalHook = zeroAddress, rs_metadata = sampleMetadata,
     rs_splitGroups = [\<lparr>sg_groupId = ''1'', sg_splits = [\<lparr>sl_percent = ''250000000'', sl_projectId = ''7'', sl_beneficiary = sampleHolder,
       sl_preferAddToBalance = False, sl_lockedUntil = ''0'', sl_hook = zeroAddress\<rparr>]\<rparr>],
     rs_fundAccessLimitGroups = [\<lparr>fa_terminal = sampleHolder, fa_token = sampleHolder,
       fa_payoutLimits = [\<lparr>ca_amount = ''90'', ca_currency = ''1''\<rparr>], fa_surplusAllowances = []\<rparr>]\<rparr>"

definition sampleStage :: "string \<Rightarrow> string \<Rightarrow> RevStage" where
  "sampleStage start issuance = \<lparr>sg_startsAtOrAfter = start, sg_autoIssuances = [], sg_splitPercent = ''0'', sg_stageSplits = [],
     sg_initialIssuance = issuance, sg_issuanceCutFrequency = ''100'', sg_issuanceCutPercent = ''500000000'', sg_cashOutTaxRate = ''1000'',
     sg_extraMetadata = ''0''\<rparr>"

definition sampleRevnet :: RevConfig where
  "sampleRevnet = \<lparr>rv_description = \<lparr>rd_name = ''Net'', rd_ticker = ''NET'', rd_uri = [], rd_salt = ''0x'' @ replicate 64 CHR ''0''\<rparr>,
     rv_baseCurrency = ''1'', rv_operator = sampleHolder, rv_scopeCashOutsToLocalBalances = False,
     rv_stageConfigurations = [sampleStage ''1000'' ''800'', sampleStage ''1150'' ''1'']\<rparr>"

definition sampleScenario :: Scenario where
  "sampleScenario = \<lparr>sn_label = ''base'', sn_contributionInBaseCurrency18 = ''5000000000000000000'',
     sn_cashOut = Some \<lparr>ci_surplusAtomic = ''100'', ci_cashOutCount = ''40'', ci_totalSupply = ''80''\<rparr>\<rparr>"

definition sampleModel :: ModelInput where
  "sampleModel = \<lparr>mi_rulesetConfiguration = Some sampleRuleset, mi_rulesetRole = Some InitialRole, mi_inheritedWeight = None,
     mi_revnet = None, mi_completedCycles = 2, mi_scenarios = [sampleScenario]\<rparr>"

lemmas sample_eval = uint_def uintText_def isDecimal_def isDigit_def bigInt_def code_def

lemma zeroAddress_ok [simp]: "sampleAddressOk zeroAddress" "sampleAddressOk sampleHolder" "sampleHolder \<noteq> zeroAddress"
  by (simp_all add: sampleAddressOk_def zeroAddress_def sampleHolder_def)

lemma sampleMetadata_ok: "rulesetMetadataSchema sampleAddressOk sampleMetadata"
  by (simp add: rulesetMetadataSchema_def sampleMetadata_def sample_eval)

lemma sampleRuleset_ok: "rulesetConfigSchema sampleAddressOk sampleRuleset"
  using sampleMetadata_ok
  by (simp add: rulesetConfigSchema_def sampleRuleset_def splitGroupSchema_def splitSchema_def fundAccessLimitGroupSchema_def
      currencyAmountsSchema_def currencyAmountSchema_def duplicates_def maxEntries_def sample_eval)

lemma sampleRevnet_ok: "revConfigSchema sampleAddressOk sampleRevnet"
  using hexOf_replicate [of "CHR ''0''" 64]
  by (simp add: hashSchema_def isHexDigit_def splitsSchema_def revConfigSchema_def sampleRevnet_def revStageSchema_def sampleStage_def sample_eval)

lemma sampleModel_ok: "modelEconomicsSchema sampleAddressOk sampleModel"
  using sampleRuleset_ok
  by (simp add: modelEconomicsSchema_def sampleModel_def modelInputRefined_def scenarioSchema_def sampleScenario_def sample_eval)
     (simp add: sampleRuleset_def)

lemma sampleCurve: "curveInputs 100 40 80 1000"
  by (simp add: curveInputs_def)

theorem ruleset_roundtrip_witness:
  "(let v = sampleRuleset\<lparr>rs_mustStartAtOrAfter := ''5'', rs_splitGroups := \<lparr>sg_groupId = ''2'', sg_splits = []\<rparr> # rs_splitGroups sampleRuleset\<rparr>; r = toRulesetConfig v in
     toRulesetInput (jr_duration r) (jr_weight r) (jr_weightCutPercent r) (jr_approvalHook r) (jr_metadata r)
       (map (\<lambda>g. (intText (jg_groupId g), jg_splits g)) (jr_splitGroups r)) (jr_fundAccessLimitGroups r)) = sampleRuleset"
proof -
  let ?v = "sampleRuleset\<lparr>rs_mustStartAtOrAfter := ''5'', rs_splitGroups := \<lparr>sg_groupId = ''2'', sg_splits = []\<rparr> # rs_splitGroups sampleRuleset\<rparr>"
  have "rulesetConfigSchema sampleAddressOk ?v"
    using sampleMetadata_ok
    by (simp add: rulesetConfigSchema_def sampleRuleset_def splitGroupSchema_def splitSchema_def fundAccessLimitGroupSchema_def
        currencyAmountsSchema_def currencyAmountSchema_def duplicates_def maxEntries_def sample_eval toLowerCase_def lower_def isUpper_def)
  from ruleset_roundtrip [OF this] show ?thesis unfolding Let_def by (simp add: sampleRuleset_def)
qed

theorem cash_out_curve_sound_witness:
  "\<exists>r. cashOutCurve 100 40 80 1000 = Inr r \<and> 0 \<le> r \<and> r \<le> 100 \<and>
     (\<forall>c. 0 \<le> c \<and> c \<le> 40 \<longrightarrow> (\<exists>q. cashOutCurve 100 c 80 1000 = Inr q \<and> q \<le> r)) \<and> cashOutCurve 100 80 80 10000 = Inr 0"
proof -
  have "curveInputs 100 80 80 10000" by (simp add: curveInputs_def)
  then show ?thesis
    using cash_out_curve_sound [of 100 40 80 1000] cash_out_curve_sound [of 100 80 80 10000] unfolding if_P [OF sampleCurve] by auto
qed

theorem revnet_cash_out_conserves_witness:
  "\<exists>r. revnetCashOut 100 40 80 1000 = Inr r \<and> bigInt (ro_feeTokenCount r) = 1 \<and>
     bigInt (ro_holderReclaimAtomic r) + bigInt (ro_revnetFeeAtomic r) + bigInt (ro_protocolFeeAtomic r) \<le> 100"
  using revnet_cash_out_conserves [OF sampleCurve] by auto

lemma sampleDecay:
  "decayedWeight 1000 500000000 2 = Inr 250" "decayedWeight 800 500000000 2 = Inr 200"
  by (simp_all add: decayedWeight_def numeral_2_eq_2)

theorem decayed_weight_is_iterated_cut_witness:
  "decayedWeight 1000 500000000 2 = Inr 250 \<and>
   bindR (decayedWeight 1000 500000000 1) (\<lambda>v. decayedWeight v 500000000 1) = decayedWeight 1000 500000000 2"
  using decayed_weight_is_iterated_cut [of 1000 500000000 1 1, unfolded of_nat_1] by (simp add: sampleDecay)

lemma sampleRevnet_resolves:
  "resolveStages sampleRevnet = Inr [\<lparr>rg_start = 1000, rg_duration = 100, rg_weight = 800, rg_cut = 500000000\<rparr>,
     \<lparr>rg_start = 1200, rg_duration = 100, rg_weight = 200, rg_cut = 500000000\<rparr>]"
  by (simp add: resolveStages_def sampleRevnet_def sampleStage_def resolveStage_def Let_def deriveStart_def sampleDecay bigInt_def code_def)

theorem revnet_stages_resolved_witness:
  "revConfigSchema sampleAddressOk sampleRevnet \<and>
   (\<exists>rs. resolveStages sampleRevnet = Inr rs \<and> length rs = 2 \<and>
      stageFollows (rs ! 0) (sampleStage ''1150'' ''1'') (rs ! 1) \<and> rg_start (rs ! 1) = 1200 \<and> rg_weight (rs ! 1) = 200)"
  using revnet_stages_resolved [OF sampleRevnet_ok] sampleRevnet_ok
  by (simp add: sampleRevnet_resolves) (simp add: sampleRevnet_def)

lemma sampleTerms:
  "resolve (\<lambda>_. False) zeroAddress sampleModel None = Inr (termsOf sampleRuleset 250 False, None)"
  by (simp add: resolve_def sampleModel_def sampleRuleset_def sampleMetadata_def Let_def sampleDecay bigInt_def code_def)

lemma sampleModel_returns:
  "\<exists>m. modelEconomics sampleAddressOk (\<lambda>_. False) zeroAddress sampleModel None = Inr m"
  unfolding modelEconomics_def sampleTerms
  by (simp add: sampleModel_ok)
     (simp add: sampleModel_def sampleScenario_def runScenario_def termsOf_def sampleRuleset_def sampleMetadata_def Let_def
      cashOutCurve_def bigInt_def code_def)

definition sampleLive :: LiveRevnet where
  "sampleLive = \<lparr>lv_id = 5, lv_start = 1000, lv_duration = 100, lv_weight = 800, lv_weightCutPercent = 500000000, lv_reservedPercent = 2000, lv_cashOutTaxRate = 1000,
     lv_baseCurrency = ''1'', lv_pausePay = False, lv_dataHook = sampleHolder, lv_stages = [(4, 500), (6, 1300)], lv_cashOutDelay = (''0'', False)\<rparr>"

definition sampleLiveModel :: ModelInput where
  "sampleLiveModel = \<lparr>mi_rulesetConfiguration = None, mi_rulesetRole = None, mi_inheritedWeight = None,
     mi_revnet = Some LiveProject, mi_completedCycles = 2, mi_scenarios = [sampleScenario]\<rparr>"

lemma sampleLiveModel_returns: "\<exists>m. modelEconomics sampleAddressOk (\<lambda>a. a = sampleHolder) sampleHolder sampleLiveModel (Some sampleLive) = Inr m"
proof -
  have ok: "modelEconomicsSchema sampleAddressOk sampleLiveModel"
    by (simp add: modelEconomicsSchema_def sampleLiveModel_def modelInputRefined_def scenarioSchema_def sampleScenario_def sample_eval)
  have r: "\<exists>t source. resolve (\<lambda>a. a = sampleHolder) sampleHolder sampleLiveModel (Some sampleLive) = Inr (t, source) \<and> tm_weight t = 200 \<and> tm_reservedPercent t = 2000 \<and>
      tm_cashOutTaxRate t = 1000"
    by (simp add: resolve_def sampleLiveModel_def sampleLive_def Let_def stageBoundary_def bigDiv_def sampleDecay)
  then obtain t source where t: "resolve (\<lambda>a. a = sampleHolder) sampleHolder sampleLiveModel (Some sampleLive) = Inr (t, source)" "termsOk t" "tm_weight t = 200" by (auto simp: termsOk_def)
  have s: "scenarioSchema sampleScenario" by (simp add: scenarioSchema_def sampleScenario_def sample_eval)
  have "issuanceOf t sampleScenario < 2 ^ 256" by (simp add: issuanceOf_def t(3) sampleScenario_def bigInt_def code_def)
  then obtain x where "runScenario t sampleScenario = Inr x" using runScenario_sound [OF s t(2)] by auto
  then show ?thesis using ok t(1) by (simp add: modelEconomics_def) (simp add: sampleLiveModel_def)
qed

theorem economic_model_sound_witness:
  "\<exists>m i. modelEconomics sampleAddressOk (\<lambda>a. a = sampleHolder) sampleHolder sampleLiveModel (Some sampleLive) = Inr m \<and>
     bigInt (em_effectiveWeight m) = 200 \<and> sx_issuance (em_scenarios m ! 0) = Some i \<and>
     bigInt (iss_beneficiaryTokenCount i) = 800 \<and> bigInt (iss_pendingReservedTokenCount i) = 200"
proof -
  obtain m where m: "modelEconomics sampleAddressOk (\<lambda>a. a = sampleHolder) sampleHolder sampleLiveModel (Some sampleLive) = Inr m" using sampleLiveModel_returns ..
  have "liveOk (Some sampleLive)" by (simp add: liveOk_def sampleLive_def)
  from economic_model_sound [OF m this] obtain t where t: "modelledTerms sampleLiveModel (Some sampleLive) t" "bigInt (em_effectiveWeight m) = tm_weight t"
    "issuanceSound t sampleScenario (em_scenarios m ! 0)" by (auto simp: sampleLiveModel_def)
  have f: "tm_weight t = 200" "tm_reservedPercent t = 2000" "\<not> tm_pausePay t"
    using t(1) by (simp_all add: modelledTerms_def sampleLiveModel_def sampleLive_def numeral_2_eq_2)
  have "issuanceOf t sampleScenario = 1000" by (simp add: issuanceOf_def f(1) sampleScenario_def bigInt_def code_def)
  then obtain i where "sx_issuance (em_scenarios m ! 0) = Some i" "bigInt (iss_beneficiaryTokenCount i) = 800" "bigInt (iss_pendingReservedTokenCount i) = 200"
    using t(3) f by (auto simp: issuanceSound_def split: option.splits)
  then show ?thesis using m t(2) f(1) by auto
qed

theorem core_model_returns_witness:
  "case modelEconomics sampleAddressOk (\<lambda>_. False) zeroAddress sampleModel None of
     Inl e \<Rightarrow> False | Inr m \<Rightarrow> bigInt (em_effectiveWeight m) = 250 \<and> length (em_scenarios m) = 1"
proof -
  have c: "mi_rulesetConfiguration sampleModel = Some sampleRuleset" by (simp add: sampleModel_def)
  have h: "\<not> md_useDataHookForPay (rs_metadata sampleRuleset)" "\<not> md_useDataHookForCashOut (rs_metadata sampleRuleset)"
    by (simp_all add: sampleRuleset_def sampleMetadata_def)
  have w: "(oneCut (bigInt (rs_weightCutPercent sampleRuleset)) ^^ nat (mi_completedCycles sampleModel)) (startWeight sampleModel sampleRuleset) = 250"
    by (simp add: sampleRuleset_def sampleModel_def startWeight_def bigInt_def code_def numeral_2_eq_2)
  obtain m where m: "modelEconomics sampleAddressOk (\<lambda>_. False) zeroAddress sampleModel None = Inr m"
    using sampleModel_returns ..
  show ?thesis using core_model_returns [OF sampleModel_ok c h, of "\<lambda>_. False" zeroAddress None] unfolding w m
    by (simp add: sampleModel_def)
qed

end
