(* ===== verification/SessionTypes.thy ===== *)
theory SessionTypes
  imports UserOperationStore AuthStore
begin

text \<open>
  Smart account sessions: the records of \<^verbatim>\<open>src/src/rest/sessions/types.ts\<close>, the compiled session and the
  installed-policy observation of \<^verbatim>\<open>src/src/rest/smartAccounts/compiler/types.ts\<close>, their documents, and the
  canonical text and fingerprint of \<^verbatim>\<open>src/src/rest/smartAccounts/service.ts\<close>. Lengths are counted in bytes here
  and in UTF-16 units in the source, which agree on ASCII text.
\<close>

section \<open>Canonical text of the smart account services\<close>

text \<open>
  What the code takes from its platform: the functions of \<^verbatim>\<open>viem\<close> and the order of
  \<^verbatim>\<open>String.prototype.localeCompare\<close>, which depends on the locale.
\<close>

record host =
  ho_viem :: viem
  ho_localeLe :: "string \<Rightarrow> string \<Rightarrow> bool"

definition notCanonical :: rest_error where
  "notCanonical = RestError 400 ''SMART_ACCOUNT_INPUT_INVALID'' ''Expected canonical bounded JSON.'' None"

fun stable :: "(string \<Rightarrow> string \<Rightarrow> bool) \<Rightarrow> json \<Rightarrow> string res"
  and stableFields :: "(string \<Rightarrow> string \<Rightarrow> bool) \<Rightarrow> (string \<times> json) list \<Rightarrow> (string \<times> string res) list" where
  "stable le JNull = Inr ''null''"
| "stable le (JBool b) = Inr (if b then ''true'' else ''false'')"
| "stable le (JStr s) = Inr (quote s)"
| "stable le (JNum n) = (if isSafeInteger n then Inr (intText n) else Inl notCanonical)"
| "stable le (JBig n) = Inl notCanonical"
| "stable le (JArr xs) = bindR (mapR (\<lambda>r. r) (map (stable le) xs)) (\<lambda>ts. Inr (''['' @ commaSep ts @ '']''))"
| "stable le (JObj fs) =
     bindR (mapR (\<lambda>(k, r). bindR r (\<lambda>t. Inr (quote k @ '':'' @ t)))
       (sort_by (\<lambda>a b. le (fst a) (fst b)) (stableFields le fs))) (\<lambda>ts.
     Inr (''{'' @ commaSep ts @ ''}''))"
| "stableFields le [] = []"
| "stableFields le ((k, v) # fs) = (k, stable le v) # stableFields le fs"

definition fingerprint :: "host \<Rightarrow> json \<Rightarrow> string res" where
  "fingerprint H v =
     bindR (stable (ho_localeLe H) v) (\<lambda>text. Inr (vi_keccak256 (ho_viem H) (vi_stringToHex (ho_viem H) text)))"

section \<open>Data\<close>

datatype SessionState = SsPrepared | SsInstalling | SsActive | SsRevoking | SsRevoked | SsExpired | SsStale

datatype LifecycleKind = Activation | Revocation

datatype InvalidationReason =
  Reorg | ConfigurationChanged | CounterReset | GrantInactive | BindingUnlinked | VerificationUnavailable

text \<open>
  The contract pins, the session tuple and the policy configurations are read by the compiler and the
  inspector, never by the store; they are kept as documents.
\<close>

record CompiledSession =
  cs_schemaVersion :: int
  cs_stack :: string
  cs_ownerAccountId :: string
  cs_bindingId :: string
  cs_grantId :: string
  cs_sessionKey :: string
  cs_chainId :: int
  cs_wallet :: string
  cs_generation :: string
  cs_nonce :: string
  cs_validAfter :: int
  cs_validUntil :: int
  cs_salt :: string
  cs_policyHash :: string
  cs_compiledHash :: string
  cs_permissionId :: string
  cs_manifestRevision :: string
  cs_activationEnableNonce :: string
  cs_reviewedPolicy :: json
  cs_smartSessions :: json
  cs_sessionValidator :: json
  cs_session :: json
  cs_configurations :: json

record PolicyCounter =
  ct_policy :: string
  ct_configId :: string
  ct_name :: string
  ct_used :: string
  ct_limit :: string

record LastInitialization =
  li_epoch :: string
  li_permissionIds :: "string list"

record Administration =
  ad_epoch :: string
  ad_hash :: string
  ad_lastInitialization :: "LastInitialization option"

record InstalledSessionObservation =
  in_permissionId :: string
  in_compiledHash :: string
  in_account :: string
  in_chainId :: int
  in_enabled :: bool
  in_enableNonce :: string
  in_configurationHash :: string
  in_evidence :: RestBlockEvidence
  in_counters :: "PolicyCounter list"
  in_administration :: "Administration option"

record SessionAllocation =
  al_id :: string
  al_chainId :: int
  al_asset :: string
  al_limit :: string
  al_assetReviewId :: string

record SessionAllocationGroup =
  ag_id :: string
  ag_assetIdentity :: string
  ag_decimals :: int
  ag_total :: string
  ag_allocations :: "SessionAllocation list"

record SessionOwnerApproval =
  ap_kind :: LifecycleKind
  ap_accountId :: string
  ap_sessionId :: string
  ap_policyHash :: string
  ap_compiledHash :: string
  ap_planId :: string
  ap_planCommitment :: string
  ap_digest :: string
  ap_issuedAt :: int
  ap_expiresAt :: int

record SessionCanonicalObservation =
  so_installed :: InstalledSessionObservation
  so_observedAt :: int
  so_finalized :: bool
  so_proofHash :: string

record SessionInvalidation =
  iv_reason :: InvalidationReason
  iv_priorProofHash :: "string option"
  iv_observedAt :: int

record AdministrationBaseline =
  ab_epoch :: string
  ab_hash :: string

record SupersededApproval =
  sa_approval :: SessionOwnerApproval
  sa_supersededAt :: int

record StoredSession =
  se_id :: string
  se_actor :: RestActor
  se_compiled :: CompiledSession
  se_preparedAdministration :: AdministrationBaseline
  se_allocationGroups :: "SessionAllocationGroup list"
  se_allocationManifestHash :: string
  se_createdAt :: int
  se_updatedAt :: int
  se_revision :: int
  se_state :: SessionState
  se_activation :: "SessionOwnerApproval option"
  se_revocation :: "SessionOwnerApproval option"
  se_supersededApprovals :: "SupersededApproval list option"
  se_observation :: "SessionCanonicalObservation option"
  se_invalidation :: "SessionInvalidation option"
  se_reservationsReleased :: bool

record SessionIdempotency =
  si_key :: string
  si_requestHash :: string

record SessionClaim =
  sk_actor :: RestActor
  sk_id :: string
  sk_expectedRevision :: int
  sk_approval :: SessionOwnerApproval
  sk_idempotency :: SessionIdempotency
  sk_now :: int

record SessionObservationUpdate =
  su_actor :: RestActor
  su_id :: string
  su_expectedRevision :: int
  su_expectedObservationHash :: "string option"
  su_observation :: SessionCanonicalObservation
  su_now :: int

record SessionInvalidationUpdate =
  sv_actor :: RestActor
  sv_id :: string
  sv_expectedRevision :: int
  sv_reason :: InvalidationReason
  sv_now :: int

record SessionQuota =
  sq_sessionId :: string
  sq_state :: SessionState
  sq_allocationManifestHash :: string
  sq_approvedGroups :: "SessionAllocationGroup list"
  sq_localAllocations :: "SessionAllocation list"
  sq_counters :: "PolicyCounter list option"
  sq_observation :: "SessionCanonicalObservation option"
  sq_reservationsReleased :: bool

section \<open>Documents\<close>

definition text_of_SessionState :: "SessionState \<Rightarrow> string" where
  "text_of_SessionState s = (case s of SsPrepared \<Rightarrow> ''prepared'' | SsInstalling \<Rightarrow> ''installing'' | SsActive \<Rightarrow> ''active''
     | SsRevoking \<Rightarrow> ''revoking'' | SsRevoked \<Rightarrow> ''revoked'' | SsExpired \<Rightarrow> ''expired'' | SsStale \<Rightarrow> ''stale'')"

definition text_of_LifecycleKind :: "LifecycleKind \<Rightarrow> string" where
  "text_of_LifecycleKind k = (case k of Activation \<Rightarrow> ''activation'' | Revocation \<Rightarrow> ''revocation'')"

definition text_of_InvalidationReason :: "InvalidationReason \<Rightarrow> string" where
  "text_of_InvalidationReason r = (case r of Reorg \<Rightarrow> ''reorg'' | ConfigurationChanged \<Rightarrow> ''configuration-changed''
     | CounterReset \<Rightarrow> ''counter-reset'' | GrantInactive \<Rightarrow> ''grant-inactive'' | BindingUnlinked \<Rightarrow> ''binding-unlinked''
     | VerificationUnavailable \<Rightarrow> ''verification-unavailable'')"

definition orNull :: "('a \<Rightarrow> json) \<Rightarrow> 'a option \<Rightarrow> json" where
  "orNull j v = (case v of None \<Rightarrow> JNull | Some x \<Rightarrow> j x)"

text \<open>The compiled session without its own hash, as \<^verbatim>\<open>const { compiledHash, ...unhashed } = compiled\<close>.\<close>

definition unhashedFields :: "CompiledSession \<Rightarrow> (string \<times> json) list" where
  "unhashedFields c =
     [(''schemaVersion'', JNum (cs_schemaVersion c)), (''stack'', JStr (cs_stack c)), (''ownerAccountId'', JStr (cs_ownerAccountId c)),
      (''bindingId'', JStr (cs_bindingId c)), (''grantId'', JStr (cs_grantId c)), (''sessionKey'', JStr (cs_sessionKey c)),
      (''chainId'', JNum (cs_chainId c)), (''wallet'', JStr (cs_wallet c)), (''generation'', JStr (cs_generation c)),
      (''nonce'', JStr (cs_nonce c)), (''validAfter'', JNum (cs_validAfter c)), (''validUntil'', JNum (cs_validUntil c)),
      (''salt'', JStr (cs_salt c)), (''policyHash'', JStr (cs_policyHash c)), (''permissionId'', JStr (cs_permissionId c)),
      (''manifestRevision'', JStr (cs_manifestRevision c)), (''activationEnableNonce'', JStr (cs_activationEnableNonce c)),
      (''reviewedPolicy'', cs_reviewedPolicy c), (''smartSessions'', cs_smartSessions c), (''sessionValidator'', cs_sessionValidator c),
      (''session'', cs_session c), (''configurations'', cs_configurations c)]"

definition json_of_CompiledSession :: "CompiledSession \<Rightarrow> json" where
  "json_of_CompiledSession c = JObj ((''compiledHash'', JStr (cs_compiledHash c)) # unhashedFields c)"

definition json_of_Counter :: "PolicyCounter \<Rightarrow> json" where
  "json_of_Counter c = JObj [(''policy'', JStr (ct_policy c)), (''configId'', JStr (ct_configId c)), (''name'', JStr (ct_name c)),
     (''used'', JStr (ct_used c)), (''limit'', JStr (ct_limit c))]"

definition json_of_LastInitialization :: "LastInitialization \<Rightarrow> json" where
  "json_of_LastInitialization l = JObj [(''epoch'', JStr (li_epoch l)), (''permissionIds'', JArr (map JStr (li_permissionIds l)))]"

definition json_of_Administration :: "Administration \<Rightarrow> json" where
  "json_of_Administration a = JObj ([(''epoch'', JStr (ad_epoch a)), (''hash'', JStr (ad_hash a))] @
     optField ''lastInitialization'' json_of_LastInitialization (ad_lastInitialization a))"

definition json_of_Installed :: "InstalledSessionObservation \<Rightarrow> json" where
  "json_of_Installed o1 = JObj
     ([(''permissionId'', JStr (in_permissionId o1)), (''compiledHash'', JStr (in_compiledHash o1)), (''account'', JStr (in_account o1)),
       (''chainId'', JNum (in_chainId o1)), (''enabled'', JBool (in_enabled o1)), (''enableNonce'', JStr (in_enableNonce o1)),
       (''configurationHash'', JStr (in_configurationHash o1)), (''evidence'', json_of_RestBlockEvidence (in_evidence o1)),
       (''counters'', JArr (map json_of_Counter (in_counters o1)))] @
      optField ''administration'' json_of_Administration (in_administration o1))"

text \<open>The body a proof hash is taken of.\<close>

definition observationFields :: "InstalledSessionObservation \<Rightarrow> int \<Rightarrow> bool \<Rightarrow> (string \<times> json) list" where
  "observationFields installed observedAt finalized =
     [(''installed'', json_of_Installed installed), (''observedAt'', JNum observedAt), (''finalized'', JBool finalized)]"

definition json_of_SessionObservation :: "SessionCanonicalObservation \<Rightarrow> json" where
  "json_of_SessionObservation b = JObj (observationFields (so_installed b) (so_observedAt b) (so_finalized b) @
     [(''proofHash'', JStr (so_proofHash b))])"

definition json_of_Invalidation :: "SessionInvalidation \<Rightarrow> json" where
  "json_of_Invalidation v = JObj [(''reason'', JStr (text_of_InvalidationReason (iv_reason v))),
     (''priorProofHash'', orNull JStr (iv_priorProofHash v)), (''observedAt'', JNum (iv_observedAt v))]"

definition json_of_Allocation :: "SessionAllocation \<Rightarrow> json" where
  "json_of_Allocation a = JObj [(''id'', JStr (al_id a)), (''chainId'', JNum (al_chainId a)), (''asset'', JStr (al_asset a)),
     (''limit'', JStr (al_limit a)), (''assetReviewId'', JStr (al_assetReviewId a))]"

definition json_of_AllocationGroup :: "SessionAllocationGroup \<Rightarrow> json" where
  "json_of_AllocationGroup g = JObj [(''id'', JStr (ag_id g)), (''assetIdentity'', JStr (ag_assetIdentity g)), (''decimals'', JNum (ag_decimals g)),
     (''total'', JStr (ag_total g)), (''allocations'', JArr (map json_of_Allocation (ag_allocations g)))]"

abbreviation json_of_AllocationGroups :: "SessionAllocationGroup list \<Rightarrow> json" where
  "json_of_AllocationGroups gs \<equiv> JArr (map json_of_AllocationGroup gs)"

definition json_of_Approval :: "SessionOwnerApproval \<Rightarrow> json" where
  "json_of_Approval a = JObj [(''kind'', JStr (text_of_LifecycleKind (ap_kind a))), (''accountId'', JStr (ap_accountId a)),
     (''sessionId'', JStr (ap_sessionId a)), (''policyHash'', JStr (ap_policyHash a)), (''compiledHash'', JStr (ap_compiledHash a)),
     (''planId'', JStr (ap_planId a)), (''planCommitment'', JStr (ap_planCommitment a)), (''digest'', JStr (ap_digest a)),
     (''issuedAt'', JNum (ap_issuedAt a)), (''expiresAt'', JNum (ap_expiresAt a))]"

definition json_of_Superseded :: "SupersededApproval \<Rightarrow> json" where
  "json_of_Superseded s = JObj [(''approval'', json_of_Approval (sa_approval s)), (''supersededAt'', JNum (sa_supersededAt s))]"

definition json_of_Baseline :: "AdministrationBaseline \<Rightarrow> json" where
  "json_of_Baseline b = JObj [(''epoch'', JStr (ab_epoch b)), (''hash'', JStr (ab_hash b))]"

definition json_of_StoredSession :: "StoredSession \<Rightarrow> json" where
  "json_of_StoredSession r = JObj
     ([(''id'', JStr (se_id r)), (''actor'', json_of_RestActor (se_actor r)), (''compiled'', json_of_CompiledSession (se_compiled r)),
       (''preparedAdministration'', json_of_Baseline (se_preparedAdministration r)),
       (''allocationGroups'', json_of_AllocationGroups (se_allocationGroups r)),
       (''allocationManifestHash'', JStr (se_allocationManifestHash r)), (''createdAt'', JNum (se_createdAt r)),
       (''updatedAt'', JNum (se_updatedAt r)), (''revision'', JNum (se_revision r)),
       (''state'', JStr (text_of_SessionState (se_state r)))] @
      optField ''activation'' json_of_Approval (se_activation r) @ optField ''revocation'' json_of_Approval (se_revocation r) @
      optField ''supersededApprovals'' (\<lambda>l. JArr (map json_of_Superseded l)) (se_supersededApprovals r) @
      optField ''observation'' json_of_SessionObservation (se_observation r) @
      optField ''invalidation'' json_of_Invalidation (se_invalidation r) @
      [(''reservationsReleased'', JBool (se_reservationsReleased r))])"

definition json_of_SessionIdempotency :: "SessionIdempotency \<Rightarrow> json" where
  "json_of_SessionIdempotency i = JObj [(''key'', JStr (si_key i)), (''requestHash'', JStr (si_requestHash i))]"

definition json_of_SessionClaim :: "SessionClaim \<Rightarrow> json" where
  "json_of_SessionClaim c = JObj [(''actor'', json_of_RestActor (sk_actor c)), (''id'', JStr (sk_id c)),
     (''expectedRevision'', JNum (sk_expectedRevision c)), (''approval'', json_of_Approval (sk_approval c)),
     (''idempotency'', json_of_SessionIdempotency (sk_idempotency c)), (''now'', JNum (sk_now c))]"

definition json_of_ObservationUpdate :: "SessionObservationUpdate \<Rightarrow> json" where
  "json_of_ObservationUpdate u = JObj [(''actor'', json_of_RestActor (su_actor u)), (''id'', JStr (su_id u)),
     (''expectedRevision'', JNum (su_expectedRevision u)), (''expectedObservationHash'', orNull JStr (su_expectedObservationHash u)),
     (''observation'', json_of_SessionObservation (su_observation u)), (''now'', JNum (su_now u))]"

definition json_of_InvalidationUpdate :: "SessionInvalidationUpdate \<Rightarrow> json" where
  "json_of_InvalidationUpdate u = JObj [(''actor'', json_of_RestActor (sv_actor u)), (''id'', JStr (sv_id u)),
     (''expectedRevision'', JNum (sv_expectedRevision u)), (''reason'', JStr (text_of_InvalidationReason (sv_reason u))), (''now'', JNum (sv_now u))]"

text \<open>The results \<^verbatim>\<open>{ record, claimed }\<close> and \<^verbatim>\<open>{ record, applied }\<close>.\<close>

definition json_of_SessionResult :: "string \<Rightarrow> StoredSession \<times> bool \<Rightarrow> json" where
  "json_of_SessionResult flag p = JObj [(''record'', json_of_StoredSession (fst p)), (flag, JBool (snd p))]"

definition json_of_SessionQuota :: "SessionQuota \<Rightarrow> json" where
  "json_of_SessionQuota q = JObj
     [(''sessionId'', JStr (sq_sessionId q)), (''state'', JStr (text_of_SessionState (sq_state q))),
      (''allocationManifestHash'', JStr (sq_allocationManifestHash q)), (''approvedGroups'', json_of_AllocationGroups (sq_approvedGroups q)),
      (''localAllocations'', JArr (map json_of_Allocation (sq_localAllocations q))),
      (''counters'', orNull (\<lambda>cs. JArr (map json_of_Counter cs)) (sq_counters q)),
      (''observation'', orNull json_of_SessionObservation (sq_observation q)),
      (''reservationsReleased'', JBool (sq_reservationsReleased q)), (''executionAuthority'', JBool False),
      (''balanceSource'', JStr ''onchain-only''), (''atomicAcrossChains'', JBool False)]"

end
