(* ===== verification/SessionRules.thy ===== *)
theory SessionRules
  imports SessionTypes
begin

text \<open>
  The rules of \<^verbatim>\<open>src/src/rest/sessions/store.ts\<close>: the budget of a reviewed policy, what a new session must
  satisfy, the owner's activation and revocation, lifecycle plans, observations of the chain and what they
  do to a session, and the admission of a user operation.
\<close>

section \<open>Patterns and errors\<close>

definition sessionError :: "string \<Rightarrow> string \<Rightarrow> int \<Rightarrow> rest_error" where
  "sessionError errorCode message status = RestError status errorCode message None"

definition invalid_se :: "string \<Rightarrow> rest_error" where
  "invalid_se message = sessionError ''SESSION_INPUT_INVALID'' message 400"

definition missingSession :: rest_error where
  "missingSession = sessionError ''SESSION_NOT_FOUND'' ''The session is absent or belongs to another principal.'' 404"

definition maximumBytes_se :: nat where "maximumBytes_se = 524288"
definition sessionsPerAccount :: nat where "sessionsPerAccount = 1000"
definition idempotencyPerAccount_se :: nat where "idempotencyPerAccount_se = 4000"
definition maximumObservationAgeSeconds :: int where "maximumObservationAgeSeconds = 60"

text \<open>The pattern \<^verbatim>\<open>^[0-9a-f]{8}-[0-9a-f]{4}-[1-5][0-9a-f]{3}-[89ab][0-9a-f]{3}-[0-9a-f]{12}$\<close>.\<close>

definition uuid_se :: "string \<Rightarrow> bool" where
  "uuid_se s \<longleftrightarrow> uuid s \<and> s ! 14 \<in> set ''12345'' \<and> s ! 19 \<in> set ''89ab''"

definition address_se :: "string \<Rightarrow> bool" where
  "address_se s \<longleftrightarrow> isAddress s \<and> hexNumber (drop 2 s) \<noteq> 0"

definition nonzeroHash :: "string \<Rightarrow> bool" where
  "nonzeroHash s \<longleftrightarrow> isHash s \<and> hexNumber (drop 2 s) \<noteq> 0"

definition integer_se :: "string \<Rightarrow> bool \<Rightarrow> bool" where
  "integer_se s positive \<longleftrightarrow> isDecimal s \<and> bigInt s < 2 ^ 256 \<and> (\<not> positive \<or> bigInt s > 0)"

definition time_se :: "int \<Rightarrow> bool" where
  "time_se t \<longleftrightarrow> isSafeInteger t \<and> t \<ge> 0"

text \<open>The pattern \<^verbatim>\<open>^[A-Za-z0-9_-]{1,100}$\<close>.\<close>

definition identifier_se :: "string \<Rightarrow> bool" where
  "identifier_se s \<longleftrightarrow> s \<noteq> [] \<and> length s \<le> 100 \<and> list_all (\<lambda>c. isLower c \<or> isUpper c \<or> isDigit c \<or> c \<in> set ''_-'') s"

definition cloneSession :: "host \<Rightarrow> ('a \<Rightarrow> json) \<Rightarrow> 'a \<Rightarrow> 'a res" where
  "cloneSession H toJson v =
     (case stable (ho_localeLe H) (toJson v) of
        Inl e \<Rightarrow> Inl (invalid_se ''Session records require bounded canonical JSON values.'')
      | Inr serialized \<Rightarrow>
          if length serialized > maximumBytes_se
          then Inl (sessionError ''SESSION_STORAGE_LIMIT'' ''The session exceeds its bounded storage limit.'' 429)
          else Inr v)"

abbreviation cloneStored :: "host \<Rightarrow> StoredSession \<Rightarrow> StoredSession res" where
  "cloneStored H \<equiv> cloneSession H json_of_StoredSession"

definition assertSessionId :: "string \<Rightarrow> unit res" where
  "assertSessionId i = ensure (uuid_se i) (invalid_se ''Use a canonical session UUID.'')"

definition assertSessionList :: "int \<Rightarrow> string option \<Rightarrow> unit res" where
  "assertSessionList limit cursor =
     bindR (ensure (\<not> (\<not> isSafeInteger limit \<or> limit < 1 \<or> limit > 100))
       (invalid_se (''Session page limit must be 1'' @ [CHR 0xE2, CHR 0x80, CHR 0x93] @ ''100.''))) (\<lambda>_.
     case cursor of None \<Rightarrow> Inr () | Some c \<Rightarrow> assertSessionId c)"

text \<open>The pattern \<^verbatim>\<open>^[A-Za-z0-9._:-]{1,128}$\<close>.\<close>

definition sessionKeyOk :: "string \<Rightarrow> bool" where
  "sessionKeyOk s \<longleftrightarrow> s \<noteq> [] \<and> length s \<le> 128 \<and> list_all (\<lambda>c. isLower c \<or> isUpper c \<or> isDigit c \<or> c \<in> set ''._:-'') s"

definition assertSessionIdempotency :: "SessionIdempotency \<Rightarrow> unit res" where
  "assertSessionIdempotency claim =
     ensure (\<not> (\<not> sessionKeyOk (si_key claim) \<or> \<not> isIdentifier (si_requestHash claim)))
       (invalid_se ''Use a bounded exact idempotency key and request hash.'')"

record StoredSessionIdempotency =
  sn_operation :: string
  sn_sessionId :: string
  sn_requestHash :: string

definition assertIdempotencyMatch ::
  "StoredSessionIdempotency option \<Rightarrow> SessionIdempotency \<Rightarrow> string \<Rightarrow> string option \<Rightarrow> unit res" where
  "assertIdempotencyMatch existing claim operation sessionId =
     bindR (assertSessionIdempotency claim) (\<lambda>_.
     ensure (\<not> (case existing of None \<Rightarrow> False
         | Some e \<Rightarrow> sn_operation e \<noteq> operation \<or> sn_requestHash e \<noteq> si_requestHash claim \<or>
             (case sessionId of None \<Rightarrow> False | Some i \<Rightarrow> sn_sessionId e \<noteq> i)))
       (sessionError ''SESSION_IDEMPOTENCY_CONFLICT'' ''The idempotency key already binds another exact session request.'' 409))"

definition canReadSession :: "StoredSession \<Rightarrow> RestActor \<Rightarrow> bool" where
  "canReadSession r actor \<longleftrightarrow> accountId actor = cs_ownerAccountId (se_compiled r) \<and>
     (principalId actor = ''owner:'' @ accountId actor \<or> principalId actor = ''bot:'' @ cs_grantId (se_compiled r))"

definition assertSessionActor :: "StoredSession \<Rightarrow> RestActor \<Rightarrow> bool \<Rightarrow> unit res" where
  "assertSessionActor r actor ownerOnly =
     ensure (\<not> (\<not> canReadSession r actor \<or> ownerOnly \<and> principalId actor \<noteq> ''owner:'' @ accountId actor))
       (sessionError ''SESSION_PRINCIPAL_MISMATCH'' ''Only the owner or this session's exact authorized grant can access it.'' 403)"

section \<open>Allocations of the reviewed policy\<close>

definition given :: "'a option \<Rightarrow> rest_error \<Rightarrow> 'a res" where
  "given x e = (case x of None \<Rightarrow> Inl e | Some v \<Rightarrow> Inr v)"

definition fieldStr :: "(string \<times> json) list \<Rightarrow> string \<Rightarrow> string option" where
  "fieldStr fs k = (case js_get fs k of Some (JStr s) \<Rightarrow> Some s | _ \<Rightarrow> None)"

definition fieldNum :: "(string \<times> json) list \<Rightarrow> string \<Rightarrow> int option" where
  "fieldNum fs k = (case js_get fs k of Some (JNum n) \<Rightarrow> Some n | _ \<Rightarrow> None)"

definition fieldArr :: "(string \<times> json) list \<Rightarrow> string \<Rightarrow> json list option" where
  "fieldArr fs k = (case js_get fs k of Some (JArr xs) \<Rightarrow> Some xs | _ \<Rightarrow> None)"

definition objectFields :: "json \<Rightarrow> (string \<times> json) list option" where
  "objectFields v = (case v of JObj fs \<Rightarrow> Some fs | _ \<Rightarrow> None)"

definition badAllocation :: rest_error where
  "badAllocation = invalid_se ''Use distinct reviewed chain/asset allocations and positive exact limits.''"

text \<open>\<^verbatim>\<open>`${entry.chainId}:${entry.asset.toLowerCase()}`\<close>.\<close>

definition coordinate :: "SessionAllocation \<Rightarrow> string" where
  "coordinate a = intText (al_chainId a) @ '':'' @ toLowerCase (al_asset a)"

definition readAllocation :: "json \<Rightarrow> string list \<Rightarrow> SessionAllocation res" where
  "readAllocation entry ids =
     bindR (given (objectFields entry) badAllocation) (\<lambda>fs.
     bindR (given (fieldStr fs ''id'') badAllocation) (\<lambda>i.
     bindR (given (fieldNum fs ''chainId'') badAllocation) (\<lambda>chainId.
     bindR (given (fieldStr fs ''asset'') badAllocation) (\<lambda>asset.
     bindR (given (fieldStr fs ''limit'') badAllocation) (\<lambda>limit.
     bindR (given (fieldStr fs ''assetReviewId'') badAllocation) (\<lambda>review.
     bindR (ensure (\<not> (\<not> identifier_se i \<or> i \<in> set ids \<or> \<not> isSafeInteger chainId \<or> chainId < 1 \<or> \<not> address_se asset \<or>
         \<not> integer_se limit True \<or> length review < 1 \<or> length review > 256)) badAllocation) (\<lambda>_.
     Inr \<lparr>al_id = i, al_chainId = chainId, al_asset = asset, al_limit = limit, al_assetReviewId = review\<rparr>)))))))"

text \<open>The entries of one group; \<open>ids\<close> and \<open>coordinates\<close> are shared by all groups, \<open>acc\<close> is the sum so far.\<close>

fun readAllocations ::
  "json list \<Rightarrow> string list \<Rightarrow> string list \<Rightarrow> int \<Rightarrow> (SessionAllocation list \<times> string list \<times> string list \<times> int) res" where
  "readAllocations [] ids coordinates acc = Inr ([], ids, coordinates, acc)"
| "readAllocations (entry # es) ids coordinates acc =
     bindR (readAllocation entry ids) (\<lambda>a.
     bindR (ensure (coordinate a \<notin> set coordinates) (invalid_se ''A chain/asset allocation cannot occur in two approved groups.'')) (\<lambda>_.
     bindR (readAllocations es (al_id a # ids) (coordinate a # coordinates) (acc + bigInt (al_limit a))) (\<lambda>(rest, ids', coordinates', acc').
     Inr (a # rest, ids', coordinates', acc'))))"

definition badGroup :: rest_error where
  "badGroup = invalid_se ''Use exact reviewed asset identities, units and bounded allocation groups.''"

definition readGroup ::
  "json \<Rightarrow> string list \<Rightarrow> string list \<Rightarrow> string list \<Rightarrow> (SessionAllocationGroup \<times> string list \<times> string list) res" where
  "readGroup item groupIds ids coordinates =
     bindR (given (objectFields item) badGroup) (\<lambda>fs.
     bindR (given (fieldStr fs ''id'') badGroup) (\<lambda>i.
     bindR (given (fieldStr fs ''assetIdentity'') badGroup) (\<lambda>assetIdentity.
     bindR (given (fieldNum fs ''decimals'') badGroup) (\<lambda>decimals.
     bindR (given (fieldStr fs ''total'') badGroup) (\<lambda>total.
     bindR (given (fieldArr fs ''allocations'') badGroup) (\<lambda>entries.
     bindR (ensure (\<not> (\<not> identifier_se i \<or> i \<in> set groupIds \<or> length assetIdentity < 1 \<or> length assetIdentity > 256 \<or>
         decimals < 0 \<or> decimals > 255 \<or> \<not> integer_se total True \<or> length entries < 1 \<or> length entries > 8)) badGroup) (\<lambda>_.
     bindR (readAllocations entries ids coordinates 0) (\<lambda>(allocations, ids', coordinates', sum).
     bindR (ensure (\<not> sum > bigInt total) (invalid_se ''Per-chain allocations exceed their explicit approved group total.'')) (\<lambda>_.
     Inr (\<lparr>ag_id = i, ag_assetIdentity = assetIdentity, ag_decimals = decimals, ag_total = total, ag_allocations = allocations\<rparr>,
          ids', coordinates'))))))))))"

fun readGroups :: "json list \<Rightarrow> string list \<Rightarrow> string list \<Rightarrow> string list \<Rightarrow> SessionAllocationGroup list res" where
  "readGroups [] groupIds ids coordinates = Inr []"
| "readGroups (item # items) groupIds ids coordinates =
     bindR (readGroup item groupIds ids coordinates) (\<lambda>(g, ids', coordinates').
     bindR (readGroups items (ag_id g # groupIds) ids' coordinates') (\<lambda>gs. Inr (g # gs)))"

definition allocationGroups :: "CompiledSession \<Rightarrow> SessionAllocationGroup list res" where
  "allocationGroups compiled =
     (let missing = invalid_se ''Compiled policy allocation groups are missing or oversized.'' in
      bindR (given (objectFields (cs_reviewedPolicy compiled)) missing) (\<lambda>policy.
      bindR (given (fieldArr policy ''allocations'') missing) (\<lambda>items.
      bindR (ensure (\<not> length items > 16) missing) (\<lambda>_.
      readGroups items [] [] []))))"

section \<open>Preparation\<close>

text \<open>\<^verbatim>\<open>parseAccountId\<close> of \<^verbatim>\<open>src/src/rest/auth/signatures.ts\<close> accepts: \<^verbatim>\<open>^eip155:([1-9][0-9]{0,15}):(0x[0-9a-f]{40})$\<close>.\<close>

definition accountIdOk :: "string \<Rightarrow> bool" where
  "accountIdOk s \<longleftrightarrow>
     (let rest = drop 7 s; digits = takeWhile isDigit rest; tail = dropWhile isDigit rest in
      take 7 s = ''eip155:'' \<and> digits \<noteq> [] \<and> hd digits \<noteq> CHR ''0'' \<and> length digits \<le> 16 \<and>
      take 3 tail = '':0x'' \<and> length tail = 43 \<and> list_all isLowerHexDigit (drop 3 tail) \<and> isSafeInteger (bigInt digits))"

definition assertCompiledSessionIntegrity :: "host \<Rightarrow> CompiledSession \<Rightarrow> unit res" where
  "assertCompiledSessionIntegrity H c =
     (let bad = invalid_se ''Compiled or reviewed policy hash does not match its full immutable document.'' in
      bindR (ensure (\<not> (\<not> isHash (cs_compiledHash c) \<or> \<not> isHash (cs_policyHash c))) bad) (\<lambda>_.
      bindR (fingerprint H (JObj (unhashedFields c))) (\<lambda>whole.
      bindR (ensure (same whole (cs_compiledHash c)) bad) (\<lambda>_.
      bindR (fingerprint H (cs_reviewedPolicy c)) (\<lambda>policy.
      ensure (same policy (cs_policyHash c)) bad)))))"

text \<open>The fields of the reviewed policy that must repeat the compiled session.\<close>

definition reviewedFields :: "CompiledSession \<Rightarrow> (string \<times> json) list" where
  "reviewedFields c =
     [(''ownerAccountId'', JStr (cs_ownerAccountId c)), (''bindingId'', JStr (cs_bindingId c)), (''grantId'', JStr (cs_grantId c)),
      (''sessionKey'', JStr (cs_sessionKey c)), (''chainId'', JNum (cs_chainId c)), (''wallet'', JStr (cs_wallet c)),
      (''generation'', JStr (cs_generation c)), (''nonce'', JStr (cs_nonce c)), (''validAfter'', JNum (cs_validAfter c)),
      (''validUntil'', JNum (cs_validUntil c)), (''salt'', JStr (cs_salt c))]"

definition fieldAgrees :: "json option \<Rightarrow> json \<Rightarrow> bool" where
  "fieldAgrees actual expected =
     (case (actual, expected) of (Some (JStr a), JStr e) \<Rightarrow> same a e | _ \<Rightarrow> actual = Some expected)"

definition compiledOk :: "CompiledSession \<Rightarrow> bool" where
  "compiledOk c \<longleftrightarrow>
     \<not> (cs_schemaVersion c \<noteq> 1 \<or> cs_stack c \<noteq> ''legacy-f24dddf-safe7579-f22a194'' \<or> \<not> isHash (cs_bindingId c) \<or> \<not> uuid_se (cs_grantId c) \<or>
        \<not> address_se (cs_sessionKey c) \<or> \<not> address_se (cs_wallet c) \<or> \<not> isSafeInteger (cs_chainId c) \<or> cs_chainId c < 1 \<or>
        \<not> integer_se (cs_generation c) True \<or> \<not> nonzeroHash (cs_salt c) \<or> \<not> nonzeroHash (cs_nonce c) \<or> \<not> isHash (cs_permissionId c) \<or>
        \<not> isHash (cs_manifestRevision c) \<or> \<not> isHash (cs_policyHash c) \<or> \<not> isHash (cs_compiledHash c) \<or>
        \<not> integer_se (cs_activationEnableNonce c) False \<or> \<not> time_se (cs_validAfter c) \<or> \<not> time_se (cs_validUntil c) \<or>
        cs_validUntil c - cs_validAfter c \<notin> {7 * 86400, 30 * 86400})"

definition assertNewSession :: "host \<Rightarrow> StoredSession \<Rightarrow> int \<Rightarrow> unit res" where
  "assertNewSession H r now =
     (let c = se_compiled r in
      bindR (assertSessionId (se_id r)) (\<lambda>_.
      bindR (ensure (\<not> (\<not> integer_se (ab_epoch (se_preparedAdministration r)) False \<or> \<not> isHash (ab_hash (se_preparedAdministration r))))
        (invalid_se ''A session requires its exact verified administration baseline.'')) (\<lambda>_.
      bindR (ensure (accountIdOk (cs_ownerAccountId c)) (invalid_se ''Invalid session owner account identity.'')) (\<lambda>_.
      bindR (ensure (\<not> (accountId (se_actor r) \<noteq> cs_ownerAccountId c \<or> \<not> canReadSession r (se_actor r)))
        (invalid_se ''Session creator must be the owner or exact bound grant.'')) (\<lambda>_.
      bindR (ensure (compiledOk c)
        (invalid_se ''Compiled session identity requires an exact seven- or thirty-day immutable policy.'')) (\<lambda>_.
      bindR (assertCompiledSessionIntegrity H c) (\<lambda>_.
      bindR (given (objectFields (cs_reviewedPolicy c)) (invalid_se ''The reviewed policy is missing.'')) (\<lambda>policy.
      bindR (forR (\<lambda>(key, expected). ensure (fieldAgrees (js_get policy key) expected)
          (invalid_se (''Compiled '' @ key @ '' differs from its reviewed policy.''))) (reviewedFields c)) (\<lambda>_.
      bindR (ensure (\<not> (\<not> time_se now \<or> \<not> time_se (se_createdAt r) \<or> se_createdAt r > now \<or> se_updatedAt r \<noteq> se_createdAt r \<or>
            cs_validUntil c \<le> now div 1000 \<or> cs_validAfter c > now div 1000 + 86400 \<or> se_state r \<noteq> SsPrepared \<or> se_revision r \<noteq> 0 \<or>
            se_reservationsReleased r \<or> se_activation r \<noteq> None \<or> se_revocation r \<noteq> None \<or> se_observation r \<noteq> None \<or>
            se_invalidation r \<noteq> None \<or> se_supersededApprovals r \<noteq> None))
        (invalid_se ''Invalid initial session lifecycle or expired policy window.'')) (\<lambda>_.
      bindR (allocationGroups c) (\<lambda>groups.
      bindR (stable (ho_localeLe H) (json_of_AllocationGroups (se_allocationGroups r))) (\<lambda>left.
      bindR (stable (ho_localeLe H) (json_of_AllocationGroups groups)) (\<lambda>right.
      bindR (ensure (left = right) (invalid_se ''Allocation grouping differs from the owner-reviewed policy.'')) (\<lambda>_.
      bindR (fingerprint H (json_of_AllocationGroups groups)) (\<lambda>manifest.
      bindR (ensure (same (se_allocationManifestHash r) manifest) (invalid_se ''Allocation grouping differs from the owner-reviewed policy.'')) (\<lambda>_.
      bindR (cloneStored H r) (\<lambda>_. Inr ())))))))))))))))))"

text \<open>\<open>fresh\<close> is the answer of \<^verbatim>\<open>randomUUID\<close>.\<close>

definition createSessionRecord ::
  "host \<Rightarrow> string \<Rightarrow> string option \<Rightarrow> RestActor \<Rightarrow> CompiledSession \<Rightarrow> AdministrationBaseline \<Rightarrow> int \<Rightarrow> StoredSession res" where
  "createSessionRecord H fresh i actor compiled preparedAdministration now =
     bindR (allocationGroups compiled) (\<lambda>groups.
     bindR (cloneSession H json_of_RestActor actor) (\<lambda>actor.
     bindR (cloneSession H json_of_CompiledSession compiled) (\<lambda>compiled.
     bindR (cloneSession H json_of_Baseline preparedAdministration) (\<lambda>baseline.
     bindR (fingerprint H (json_of_AllocationGroups groups)) (\<lambda>manifest.
     let r = \<lparr>se_id = (case i of None \<Rightarrow> fresh | Some chosen \<Rightarrow> chosen), se_actor = actor, se_compiled = compiled,
           se_preparedAdministration = baseline, se_allocationGroups = groups, se_allocationManifestHash = manifest,
           se_createdAt = now, se_updatedAt = now, se_revision = 0, se_state = SsPrepared, se_activation = None, se_revocation = None,
           se_supersededApprovals = None, se_observation = None, se_invalidation = None, se_reservationsReleased = False\<rparr> in
     bindR (assertNewSession H r now) (\<lambda>_. Inr r))))))"

definition assertSessionGrant :: "StoredSession \<Rightarrow> BotGrant option \<Rightarrow> int \<Rightarrow> unit res" where
  "assertSessionGrant r grant nowSeconds =
     (let c = se_compiled r in
      ensure (\<not> (case grant of None \<Rightarrow> True
          | Some g \<Rightarrow> bg_id g \<noteq> cs_grantId c \<or> bg_accountId g \<noteq> cs_ownerAccountId c \<or> \<not> same (bg_botAddress g) (cs_sessionKey c) \<or>
              bg_revokedAt g \<noteq> None \<or> bg_expiresAt g \<le> nowSeconds \<or> bg_expiresAt g < cs_validUntil c \<or>
              \<not> list_all (\<lambda>scope. scope \<in> set (bg_scopes g)) [Read, Plan, Relay]))
        (sessionError ''SESSION_GRANT_INACTIVE''
          ''The immutable session key requires its exact active grant through the complete policy expiry.'' 403))"

definition sameWallet :: "StoredSession \<Rightarrow> StoredSession \<Rightarrow> bool" where
  "sameWallet a b \<longleftrightarrow> cs_chainId (se_compiled a) = cs_chainId (se_compiled b) \<and> same (cs_wallet (se_compiled a)) (cs_wallet (se_compiled b))"

definition identityConflicts :: "StoredSession \<Rightarrow> StoredSession \<Rightarrow> bool" where
  "identityConflicts a b \<longleftrightarrow>
     \<not> (se_id a = se_id b \<or> \<not> sameWallet a b) \<and>
     (let c = se_compiled a; d = se_compiled b in
      same (cs_permissionId c) (cs_permissionId d) \<or> same (cs_salt c) (cs_salt d) \<or> same (cs_nonce c) (cs_nonce d) \<or>
      same (cs_sessionKey c) (cs_sessionKey d) \<and> cs_generation c = cs_generation d)"

definition localSessionAllocations :: "StoredSession \<Rightarrow> SessionAllocation list" where
  "localSessionAllocations r =
     filter (\<lambda>a. al_chainId a = cs_chainId (se_compiled r)) (concat (map ag_allocations (se_allocationGroups r)))"

definition enabledNow :: "StoredSession \<Rightarrow> bool" where
  "enabledNow r \<longleftrightarrow> (case se_observation r of None \<Rightarrow> False | Some b \<Rightarrow> in_enabled (so_installed b))"

definition reservationConflicts :: "StoredSession \<Rightarrow> StoredSession \<Rightarrow> bool" where
  "reservationConflicts candidate existing \<longleftrightarrow> se_id candidate \<noteq> se_id existing \<and> sameWallet candidate existing \<and>
     \<not> se_reservationsReleased existing \<and> (se_activation existing \<noteq> None \<or> enabledNow existing)"

definition revision_se :: "int \<Rightarrow> unit res" where
  "revision_se v = ensure (\<not> (\<not> isSafeInteger v \<or> v < 0 \<or> v \<ge> MAX_SAFE_INTEGER)) (invalid_se ''Invalid session revision.'')"

section \<open>Claims of the owner\<close>

definition priorApproval :: "LifecycleKind \<Rightarrow> StoredSession \<Rightarrow> SessionOwnerApproval option" where
  "priorApproval kind r = (case kind of Activation \<Rightarrow> se_activation r | Revocation \<Rightarrow> se_revocation r)"

definition approvalOk :: "StoredSession \<Rightarrow> LifecycleKind \<Rightarrow> SessionOwnerApproval \<Rightarrow> bool" where
  "approvalOk r kind approval \<longleftrightarrow>
     \<not> (ap_kind approval \<noteq> kind \<or> ap_accountId approval \<noteq> cs_ownerAccountId (se_compiled r) \<or> ap_sessionId approval \<noteq> se_id r \<or>
        \<not> isHash (ap_policyHash approval) \<or> \<not> same (ap_policyHash approval) (cs_policyHash (se_compiled r)) \<or>
        \<not> isHash (ap_compiledHash approval) \<or> \<not> same (ap_compiledHash approval) (cs_compiledHash (se_compiled r)) \<or>
        \<not> uuid_se (ap_planId approval) \<or> \<not> isHash (ap_planCommitment approval) \<or> \<not> isHash (ap_digest approval))"

definition supersedable :: "StoredSession \<Rightarrow> LifecycleKind \<Rightarrow> bool \<Rightarrow> unit res" where
  "supersedable r kind allowSupersession =
     bindR (ensure allowSupersession
       (sessionError ''SESSION_PLAN_CONFLICT'' ''This lifecycle action already binds another owner-approved plan.'' 409)) (\<lambda>_.
     bindR (ensure (\<not> (case se_supersededApprovals r of None \<Rightarrow> 0 | Some l \<Rightarrow> length l) \<ge> 32)
       (sessionError ''SESSION_STORAGE_LIMIT'' ''Session plan replacement history capacity reached.'' 429)) (\<lambda>_.
     bindR (ensure (\<not> (kind = Activation \<and> (se_state r \<noteq> SsInstalling \<and> se_state r \<noteq> SsStale \<or> enabledNow r)))
       (sessionError ''SESSION_ACTIVATION_UNAVAILABLE'' ''A previously active policy cannot be reinitialized through plan replacement.'' 409)) (\<lambda>_.
     ensure (\<not> (kind = Revocation \<and> se_state r \<noteq> SsRevoking \<and> se_state r \<noteq> SsStale))
       (sessionError ''SESSION_REVOCATION_UNAVAILABLE'' ''Only an unfinished revocation can replace its expired unsubmitted plan.'' 409))))"

definition approvedRecord :: "StoredSession \<Rightarrow> LifecycleKind \<Rightarrow> SessionOwnerApproval \<Rightarrow> int \<Rightarrow> StoredSession" where
  "approvedRecord r kind approval now =
     (let r1 = (case priorApproval kind r of None \<Rightarrow> r
          | Some prior \<Rightarrow> r\<lparr>se_supersededApprovals := Some ((case se_supersededApprovals r of None \<Rightarrow> [] | Some l \<Rightarrow> l) @
              [\<lparr>sa_approval = prior, sa_supersededAt = now\<rparr>])\<rparr>);
          r2 = (case kind of Activation \<Rightarrow> r1\<lparr>se_activation := Some approval, se_state := SsInstalling\<rparr>
            | Revocation \<Rightarrow> r1\<lparr>se_revocation := Some approval, se_state := SsRevoking\<rparr>) in
      r2\<lparr>se_revision := se_revision r + 1, se_updatedAt := now\<rparr>)"

definition applySessionClaim ::
  "host \<Rightarrow> StoredSession \<Rightarrow> SessionClaim \<Rightarrow> LifecycleKind \<Rightarrow> int \<Rightarrow> bool \<Rightarrow> (StoredSession \<times> bool) res" where
  "applySessionClaim H r claim kind now allowSupersession =
     (let approval = sk_approval claim; seconds = now div 1000 in
      bindR (assertSessionActor r (sk_actor claim) False) (\<lambda>_.
      bindR (assertSessionIdempotency (sk_idempotency claim)) (\<lambda>_.
      bindR (revision_se (sk_expectedRevision claim)) (\<lambda>_.
      bindR (ensure (approvalOk r kind approval)
        (invalid_se ''Owner approval must bind this exact session, policy and setup/revocation plan.'')) (\<lambda>_.
      if (case priorApproval kind r of None \<Rightarrow> False
          | Some prior \<Rightarrow> ap_planId prior = ap_planId approval \<and> same (ap_planCommitment prior) (ap_planCommitment approval))
      then bindR (cloneStored H r) (\<lambda>c. Inr (c, False))
      else
        bindR (if priorApproval kind r = None then Inr () else supersedable r kind allowSupersession) (\<lambda>_.
        bindR (ensure (se_revision r = sk_expectedRevision claim)
          (sessionError ''SESSION_REVISION_CONFLICT'' ''Session changed; review its current state before retrying.'' 409)) (\<lambda>_.
        bindR (ensure (\<not> (\<not> time_se now \<or> \<not> time_se (ap_issuedAt approval) \<or> \<not> time_se (ap_expiresAt approval) \<or> ap_issuedAt approval < 1 \<or>
            ap_expiresAt approval \<le> seconds \<or> ap_issuedAt approval > seconds + 30 \<or> ap_expiresAt approval \<le> ap_issuedAt approval \<or>
            ap_expiresAt approval - ap_issuedAt approval > 300))
          (sessionError ''SESSION_OWNER_APPROVAL_EXPIRED'' ''Fresh owner consent expired while the lifecycle action waited for admission.'' 403)) (\<lambda>_.
        bindR (ensure (\<not> (kind = Activation \<and> (se_reservationsReleased r \<or> se_revocation r \<noteq> None \<or>
            se_state r \<in> {SsRevoking, SsRevoked, SsExpired} \<or> cs_validUntil (se_compiled r) \<le> seconds)))
          (sessionError ''SESSION_ACTIVATION_UNAVAILABLE'' ''A retired or expired policy cannot be installed or reset.'' 409)) (\<lambda>_.
        bindR (cloneStored H r) (\<lambda>_.
        bindR (case priorApproval kind r of None \<Rightarrow> Inr () | Some prior \<Rightarrow> bindR (cloneSession H json_of_Approval prior) (\<lambda>_. Inr ())) (\<lambda>_.
        bindR (cloneSession H json_of_Approval approval) (\<lambda>approval.
        Inr (approvedRecord r kind approval now, True)))))))))))))"

section \<open>Lifecycle plans\<close>

definition sessionLifecycleKind :: "StoredPlan \<Rightarrow> LifecycleKind option" where
  "sessionLifecycleKind plan =
     (if dr_operation (pl_draft plan) = ''activate_smart_account_session'' then Some Activation
      else if dr_operation (pl_draft plan) = ''revoke_smart_account_session'' then Some Revocation else None)"

definition planInvalid :: rest_error where
  "planInvalid = sessionError ''SESSION_LIFECYCLE_PLAN_INVALID'' ''The lifecycle plan lacks its exact immutable session identity.'' 409"

definition sessionLifecycleId :: "StoredPlan \<Rightarrow> string option res" where
  "sessionLifecycleId plan =
     (if sessionLifecycleKind plan = None then Inr None
      else
        bindR (given (objectFields (dr_summary (pl_draft plan))) planInvalid) (\<lambda>summary.
        bindR (given (fieldStr summary ''sessionId'') planInvalid) (\<lambda>i.
        bindR (given (fieldStr summary ''compiledHash'') planInvalid) (\<lambda>h.
        bindR (ensure (uuid_se i \<and> isHash h) planInvalid) (\<lambda>_. Inr (Some i))))))"

definition summaryCompiledHash :: "StoredPlan \<Rightarrow> string option" where
  "summaryCompiledHash plan = (case objectFields (dr_summary (pl_draft plan)) of None \<Rightarrow> None | Some fs \<Rightarrow> fieldStr fs ''compiledHash'')"

definition assertSessionLifecyclePlan :: "StoredSession \<Rightarrow> RestActor \<Rightarrow> StoredPlan \<Rightarrow> int \<Rightarrow> unit res" where
  "assertSessionLifecyclePlan r actor plan nowSeconds =
     (case sessionLifecycleKind plan of
        None \<Rightarrow> Inr ()
      | Some kind \<Rightarrow>
          bindR (assertSessionActor r actor True) (\<lambda>_.
          bindR (sessionLifecycleId plan) (\<lambda>i.
          ensure (\<not> (i \<noteq> Some (se_id r) \<or>
              (case priorApproval kind r of None \<Rightarrow> True
               | Some approval \<Rightarrow> ap_planId approval \<noteq> pl_id plan \<or> \<not> same (ap_planCommitment approval) (pl_commitment plan)) \<or>
              summaryCompiledHash plan \<noteq> Some (cs_compiledHash (se_compiled r)) \<or>
              accountId (pl_actor plan) \<noteq> accountId actor \<or> principalId (pl_actor plan) \<noteq> principalId actor \<or>
              (case pl_smartAccount plan of None \<Rightarrow> True
               | Some a \<Rightarrow> \<not> same (sa_bindingId a) (cs_bindingId (se_compiled r)) \<or> sa_chainId a \<noteq> cs_chainId (se_compiled r) \<or>
                   \<not> same (sa_address a) (cs_wallet (se_compiled r))) \<or>
              \<not> same (dr_account (pl_draft plan)) (cs_wallet (se_compiled r)) \<or>
              se_state r \<noteq> (case kind of Activation \<Rightarrow> SsInstalling | Revocation \<Rightarrow> SsRevoking) \<or> se_reservationsReleased r \<or>
              kind = Activation \<and> (se_revocation r \<noteq> None \<or> cs_validUntil (se_compiled r) \<le> nowSeconds)))
            (sessionError ''SESSION_LIFECYCLE_PLAN_UNADMITTED''
              ''This exact lifecycle plan has not been admitted or was superseded, activated, or revoked.'' 403))))"

definition assertSessionPlanSupersedable :: "StoredSession \<Rightarrow> SessionOwnerApproval \<Rightarrow> StoredPlan \<Rightarrow> int \<Rightarrow> unit res" where
  "assertSessionPlanSupersedable r prior plan now =
     (let bad = sessionError ''SESSION_PLAN_NOT_SUPERSEDABLE'' ''Only an expired, never-admitted exact lifecycle plan can be replaced.'' 409 in
      bindR (ensure (\<not> (pl_id plan \<noteq> ap_planId prior \<or> \<not> same (pl_commitment plan) (ap_planCommitment prior) \<or>
          accountId (pl_actor plan) \<noteq> cs_ownerAccountId (se_compiled r) \<or>
          principalId (pl_actor plan) \<noteq> ''owner:'' @ cs_ownerAccountId (se_compiled r))) bad) (\<lambda>_.
      bindR (sessionLifecycleId plan) (\<lambda>i.
      ensure (\<not> (i \<noteq> Some (se_id r) \<or> sessionLifecycleKind plan \<noteq> Some (ap_kind prior) \<or>
          summaryCompiledHash plan \<noteq> Some (cs_compiledHash (se_compiled r)) \<or> \<not> time_se now \<or> pl_expiresAt plan > now \<or>
          list_ex (\<lambda>step. st_state step \<noteq> Waiting \<or> st_attempt step \<noteq> None \<or> st_externalExecution step \<noteq> None) (pl_steps plan))) bad)))"

section \<open>Observations of the chain\<close>

definition createSessionObservation :: "host \<Rightarrow> InstalledSessionObservation \<Rightarrow> int \<Rightarrow> bool option \<Rightarrow> SessionCanonicalObservation res" where
  "createSessionObservation H installed observedAt given_finalized =
     (let finalized = (case given_finalized of None \<Rightarrow> False | Some b \<Rightarrow> b) in
      bindR (cloneSession H json_of_Installed installed) (\<lambda>installed.
      bindR (fingerprint H (JObj (observationFields installed observedAt finalized))) (\<lambda>proofHash.
      Inr \<lparr>so_installed = installed, so_observedAt = observedAt, so_finalized = finalized, so_proofHash = proofHash\<rparr>)))"

text \<open>\<^verbatim>\<open>`${counter.policy.toLowerCase()}:${counter.configId.toLowerCase()}:${counter.name}`\<close>.\<close>

definition counterKey :: "PolicyCounter \<Rightarrow> string" where
  "counterKey c = toLowerCase (ct_policy c) @ '':'' @ toLowerCase (ct_configId c) @ '':'' @ ct_name c"

definition counterOk :: "PolicyCounter \<Rightarrow> bool" where
  "counterOk c \<longleftrightarrow> \<not> (\<not> address_se (ct_policy c) \<or> \<not> isHash (ct_configId c) \<or> length (ct_name c) < 1 \<or> length (ct_name c) > 128 \<or>
     \<not> integer_se (ct_used c) False \<or> \<not> integer_se (ct_limit c) False \<or> bigInt (ct_used c) > bigInt (ct_limit c))"

definition assertCounters :: "PolicyCounter list \<Rightarrow> string list res" where
  "assertCounters counters =
     foldR (\<lambda>counter seen.
       bindR (ensure (counterOk counter) (invalid_se ''Invalid exact onchain policy counter observation.'')) (\<lambda>_.
       bindR (ensure (counterKey counter \<notin> set seen) (invalid_se ''Duplicate onchain policy counter.'')) (\<lambda>_.
       Inr (counterKey counter # seen)))) counters []"

definition administrationOk :: "Administration option \<Rightarrow> bool" where
  "administrationOk admin \<longleftrightarrow> \<not> (case admin of None \<Rightarrow> True
     | Some a \<Rightarrow> \<not> integer_se (ad_epoch a) False \<or> \<not> isHash (ad_hash a) \<or>
         (case ad_lastInitialization a of None \<Rightarrow> True
          | Some l \<Rightarrow> \<not> integer_se (li_epoch l) False \<or> length (li_permissionIds l) > 16 \<or> \<not> list_all (\<lambda>h. isHash h) (li_permissionIds l)))"

definition assertObservation :: "host \<Rightarrow> StoredSession \<Rightarrow> SessionCanonicalObservation \<Rightarrow> int \<Rightarrow> unit res" where
  "assertObservation H r observation now =
     (let o1 = so_installed observation; c = se_compiled r; e = in_evidence o1;
          bad = invalid_se ''Canonical observation does not bind this exact compiled session and chain.'' in
      bindR (ensure (isHash (so_proofHash observation)) bad) (\<lambda>_.
      bindR (fingerprint H (JObj (observationFields o1 (so_observedAt observation) (so_finalized observation)))) (\<lambda>proof.
      bindR (ensure (\<not> (\<not> same (so_proofHash observation) proof \<or> \<not> time_se (so_observedAt observation) \<or> so_observedAt observation > now \<or>
          in_chainId o1 \<noteq> cs_chainId c \<or> \<not> address_se (in_account o1) \<or> \<not> same (in_account o1) (cs_wallet c) \<or>
          \<not> isHash (in_compiledHash o1) \<or> \<not> same (in_compiledHash o1) (cs_compiledHash c) \<or>
          \<not> isHash (in_permissionId o1) \<or> \<not> same (in_permissionId o1) (cs_permissionId c) \<or> \<not> isHash (in_configurationHash o1) \<or>
          \<not> integer_se (in_enableNonce o1) False \<or> ev_chainId e \<noteq> cs_chainId c \<or> \<not> isHash (ev_blockHash e) \<or>
          \<not> integer_se (ev_blockNumber e) False \<or> \<not> integer_se (ev_timestamp e) False \<or> length (in_counters o1) > 256)) bad) (\<lambda>_.
      bindR (ensure (\<not> (in_enabled o1 \<and> \<not> administrationOk (in_administration o1)))
        (invalid_se ''Enabled session observations require complete canonical administration history.'')) (\<lambda>_.
      bindR (assertCounters (in_counters o1)) (\<lambda>_.
      ensure (\<not> (case se_observation r of None \<Rightarrow> False
          | Some previous \<Rightarrow> let p = in_evidence (so_installed previous) in se_invalidation r = None \<and>
              (bigInt (ev_blockNumber e) < bigInt (ev_blockNumber p) \<or>
               ev_blockNumber e = ev_blockNumber p \<and> \<not> same (ev_blockHash e) (ev_blockHash p))))
        (sessionError ''SESSION_OBSERVATION_STALE''
          ''An older or reorganized block cannot overwrite the current proof without explicit invalidation.'' 409)))))))"

definition retired :: "CompiledSession \<Rightarrow> InstalledSessionObservation \<Rightarrow> bool" where
  "retired c o1 \<longleftrightarrow> \<not> in_enabled o1 \<and> bigInt (in_enableNonce o1) > bigInt (cs_activationEnableNonce c)"

definition expired :: "CompiledSession \<Rightarrow> InstalledSessionObservation \<Rightarrow> bool" where
  "expired c o1 \<longleftrightarrow> bigInt (ev_timestamp (in_evidence o1)) \<ge> cs_validUntil c"

definition observedState :: "StoredSession \<Rightarrow> InstalledSessionObservation \<Rightarrow> bool \<Rightarrow> SessionState" where
  "observedState r o1 grantActive =
     (let c = se_compiled r in
      if retired c o1 then SsRevoked
      else if expired c o1 then SsExpired
      else if se_revocation r \<noteq> None then SsRevoking
      else if in_enabled o1 \<and> in_enableNonce o1 = cs_activationEnableNonce c \<and> se_activation r \<noteq> None \<and> grantActive then SsActive
      else if \<not> in_enabled o1 \<and> in_enableNonce o1 = cs_activationEnableNonce c \<and> se_activation r \<noteq> None \<and> grantActive then SsInstalling
      else SsStale)"

definition initialAdministrationInvalid :: "StoredSession \<Rightarrow> InstalledSessionObservation \<Rightarrow> bool" where
  "initialAdministrationInvalid r o1 \<longleftrightarrow> in_enabled o1 \<and> (case in_administration o1 of None \<Rightarrow> True
     | Some admin \<Rightarrow> bigInt (ad_epoch admin) \<noteq> bigInt (ab_epoch (se_preparedAdministration r)) + 1 \<or>
         (case ad_lastInitialization admin of None \<Rightarrow> True
          | Some l \<Rightarrow> li_epoch l \<noteq> ad_epoch admin \<or> length (li_permissionIds l) \<noteq> 1 \<or>
              \<not> same (hd (li_permissionIds l)) (cs_permissionId (se_compiled r))))"

definition administrationChanged :: "InstalledSessionObservation option \<Rightarrow> InstalledSessionObservation \<Rightarrow> bool" where
  "administrationChanged previous o1 \<longleftrightarrow> (case previous of None \<Rightarrow> False
     | Some p \<Rightarrow> in_enabled p \<and> in_enabled o1 \<and>
         (map_option ad_epoch (in_administration p) \<noteq> map_option ad_epoch (in_administration o1) \<or>
          map_option ad_hash (in_administration p) \<noteq> map_option ad_hash (in_administration o1)))"

text \<open>\<^verbatim>\<open>new Map(previous?.counters.map(...))\<close>: a later entry replaces an earlier one.\<close>

definition priorCounter :: "InstalledSessionObservation \<Rightarrow> string \<Rightarrow> PolicyCounter option" where
  "priorCounter p key = js_get (rev (map (\<lambda>c. (counterKey c, c)) (in_counters p))) key"

definition countersChanged :: "InstalledSessionObservation option \<Rightarrow> InstalledSessionObservation \<Rightarrow> bool" where
  "countersChanged previous o1 \<longleftrightarrow> (case previous of None \<Rightarrow> False
     | Some p \<Rightarrow> in_enabled p \<and>
         (length (in_counters p) \<noteq> length (in_counters o1) \<or>
          list_ex (\<lambda>counter. case priorCounter p (counterKey counter) of None \<Rightarrow> True
            | Some prior \<Rightarrow> ct_limit prior \<noteq> ct_limit counter \<or> bigInt (ct_used counter) < bigInt (ct_used prior)) (in_counters o1)))"

definition hadEnabled :: "InstalledSessionObservation option \<Rightarrow> bool" where
  "hadEnabled previous \<longleftrightarrow> (case previous of None \<Rightarrow> False | Some p \<Rightarrow> in_enabled p)"

definition poisoned :: "StoredSession \<Rightarrow> bool" where
  "poisoned r \<longleftrightarrow> (case se_invalidation r of None \<Rightarrow> False | Some v \<Rightarrow> iv_reason v \<in> {ConfigurationChanged, CounterReset, Reorg})"

definition observedInvalidation :: "StoredSession \<Rightarrow> InstalledSessionObservation \<Rightarrow> int \<Rightarrow> SessionInvalidation option" where
  "observedInvalidation r o1 now =
     (let c = se_compiled r; previous = map_option so_installed (se_observation r);
          firstUseAlreadySpent = (\<not> hadEnabled previous \<and> in_enabled o1 \<and> list_ex (\<lambda>counter. ct_used counter \<noteq> ''0'') (in_counters o1));
          awaitingNonceRevocation = (\<not> in_enabled o1 \<and> se_revocation r \<noteq> None) in
      if \<not> retired c o1 \<and> \<not> expired c o1 \<and> \<not> awaitingNonceRevocation \<and>
         (poisoned r \<or> countersChanged previous o1 \<or> firstUseAlreadySpent \<or> initialAdministrationInvalid r o1 \<or> administrationChanged previous o1 \<or>
          (case previous of None \<Rightarrow> False
           | Some p \<Rightarrow> in_enabled p \<and> (\<not> in_enabled o1 \<or> \<not> same (in_configurationHash p) (in_configurationHash o1))))
      then Some \<lparr>iv_reason = (if poisoned r then iv_reason (the (se_invalidation r))
               else if countersChanged previous o1 \<or> firstUseAlreadySpent then CounterReset else ConfigurationChanged),
             iv_priorProofHash = map_option so_proofHash (se_observation r), iv_observedAt = now\<rparr>
      else None)"

text \<open>The record after an observation, before the copy.\<close>

definition observedRecord :: "StoredSession \<Rightarrow> SessionCanonicalObservation \<Rightarrow> bool \<Rightarrow> int \<Rightarrow> StoredSession" where
  "observedRecord r observation grantActive now =
     (let o1 = so_installed observation; c = se_compiled r;
          n1 = r\<lparr>se_observation := Some observation, se_invalidation := None,
                 se_reservationsReleased := se_reservationsReleased r \<or> so_finalized observation \<and> retired c o1,
                 se_state := observedState r o1 grantActive\<rparr>;
          n2 = (case observedInvalidation r o1 now of None \<Rightarrow> n1
            | Some v \<Rightarrow> n1\<lparr>se_state := SsStale, se_invalidation := Some v\<rparr>);
          n3 = (if \<not> grantActive \<and> se_state n2 \<notin> {SsRevoked, SsExpired, SsRevoking}
            then n2\<lparr>se_state := SsStale,
                   se_invalidation := (case se_invalidation n2 of Some v \<Rightarrow> Some v
                     | None \<Rightarrow> Some \<lparr>iv_reason = GrantInactive, iv_priorProofHash = Some (so_proofHash observation), iv_observedAt = now\<rparr>)\<rparr>
            else n2) in
      n3\<lparr>se_revision := se_revision r + 1, se_updatedAt := now\<rparr>)"

definition applySessionObservation ::
  "host \<Rightarrow> StoredSession \<Rightarrow> SessionObservationUpdate \<Rightarrow> bool \<Rightarrow> int \<Rightarrow> (StoredSession \<times> bool) res" where
  "applySessionObservation H r update grantActive now =
     bindR (assertSessionActor r (su_actor update) False) (\<lambda>_.
     bindR (revision_se (su_expectedRevision update)) (\<lambda>_.
     if se_revision r \<noteq> su_expectedRevision update \<or>
        map_option so_proofHash (se_observation r) \<noteq> su_expectedObservationHash update
     then bindR (cloneStored H r) (\<lambda>c. Inr (c, False))
     else
       bindR (assertObservation H r (su_observation update) now) (\<lambda>_.
       bindR (cloneStored H r) (\<lambda>_.
       let o1 = so_installed (su_observation update) in
       bindR (ensure (\<not> (se_reservationsReleased r \<and> in_enabled o1 \<and> \<not> expired (se_compiled r) o1))
         (sessionError ''SESSION_FINALITY_CONTRADICTION''
           ''A finalized retired policy appears enabled; stop execution and inspect chain finality.'' 409)) (\<lambda>_.
       bindR (cloneSession H json_of_SessionObservation (su_observation update)) (\<lambda>observation.
       bindR (cloneStored H (observedRecord r observation grantActive now)) (\<lambda>c. Inr (c, True))))))))"

definition applySessionInvalidation :: "host \<Rightarrow> StoredSession \<Rightarrow> SessionInvalidationUpdate \<Rightarrow> int \<Rightarrow> (StoredSession \<times> bool) res" where
  "applySessionInvalidation H r update now =
     bindR (assertSessionActor r (sv_actor update) False) (\<lambda>_.
     bindR (revision_se (sv_expectedRevision update)) (\<lambda>_.
     if se_revision r \<noteq> sv_expectedRevision update then bindR (cloneStored H r) (\<lambda>c. Inr (c, False))
     else
       bindR (ensure (time_se now) (invalid_se ''Invalid session invalidation.'')) (\<lambda>_.
       bindR (cloneStored H r) (\<lambda>_.
       bindR (if poisoned r then cloneSession H json_of_Invalidation (the (se_invalidation r))
              else Inr \<lparr>iv_reason = sv_reason update, iv_priorProofHash = map_option so_proofHash (se_observation r), iv_observedAt = now\<rparr>) (\<lambda>v.
       Inr (r\<lparr>se_invalidation := Some v, se_state := SsStale, se_revision := se_revision r + 1, se_updatedAt := now\<rparr>, True))))))"

definition sessionQuota :: "host \<Rightarrow> StoredSession \<Rightarrow> SessionQuota res" where
  "sessionQuota H r = cloneSession H json_of_SessionQuota
     \<lparr>sq_sessionId = se_id r, sq_state = se_state r, sq_allocationManifestHash = se_allocationManifestHash r,
      sq_approvedGroups = se_allocationGroups r, sq_localAllocations = localSessionAllocations r,
      sq_counters = map_option (\<lambda>b. in_counters (so_installed b)) (se_observation r), sq_observation = se_observation r,
      sq_reservationsReleased = se_reservationsReleased r\<rparr>"

definition assertSessionUserOperation ::
  "StoredSession \<Rightarrow> RestActor \<Rightarrow> UserOperationSessionBinding \<Rightarrow> string \<Rightarrow> int \<Rightarrow> string \<Rightarrow> int \<Rightarrow> unit res" where
  "assertSessionUserOperation r actor binding accountBindingId chainId sender nowSeconds =
     (let c = se_compiled r in
      bindR (assertSessionActor r actor False) (\<lambda>_.
      bindR (ensure (\<not> (se_id r \<noteq> us_id binding \<or> \<not> isHash (us_policyHash binding) \<or> \<not> same (us_policyHash binding) (cs_policyHash c) \<or>
          \<not> isHash (us_compiledHash binding) \<or> \<not> same (us_compiledHash binding) (cs_compiledHash c) \<or> us_generation binding \<noteq> cs_generation c \<or>
          us_grantId binding \<noteq> cs_grantId c \<or> \<not> isHash (us_permissionId binding) \<or> \<not> same (us_permissionId binding) (cs_permissionId c) \<or>
          \<not> address_se (us_sessionKey binding) \<or> \<not> same (us_sessionKey binding) (cs_sessionKey c) \<or> \<not> isHash (us_observationHash binding) \<or>
          \<not> same accountBindingId (cs_bindingId c) \<or> chainId \<noteq> cs_chainId c \<or> \<not> same sender (cs_wallet c)))
        (sessionError ''SESSION_OPERATION_BINDING_MISMATCH''
          ''The UserOperation differs from its exact wallet, grant, generation and compiled policy.'' 409)) (\<lambda>_.
      ensure (\<not> (\<not> time_se nowSeconds \<or> se_state r \<noteq> SsActive \<or> se_reservationsReleased r \<or> se_invalidation r \<noteq> None \<or>
          se_activation r = None \<or> se_revocation r \<noteq> None \<or> nowSeconds < cs_validAfter c \<or> nowSeconds \<ge> cs_validUntil c \<or>
          (case se_observation r of None \<Rightarrow> True
           | Some b \<Rightarrow> \<not> same (so_proofHash b) (us_observationHash binding) \<or> so_observedAt b > nowSeconds * 1000 + 999 \<or>
               nowSeconds * 1000 - so_observedAt b > maximumObservationAgeSeconds * 1000 \<or>
               \<not> in_enabled (so_installed b) \<or> in_enableNonce (so_installed b) \<noteq> cs_activationEnableNonce c)))
        (sessionError ''SESSION_EXECUTION_UNAVAILABLE''
          ''The exact session is not active with a current canonical installed-policy observation.'' 403))))"

end
