(* ===== verification/SessionMemory.thy ===== *)
theory SessionMemory
  imports SessionRules TransactionMemory
begin

text \<open>
  The in-memory session store (\<^verbatim>\<open>src/src/rest/sessions/memory.ts\<close>). Every operation runs without interruption
  under the account lock and is one function here.
\<close>

record SessionStore =
  ms_records :: "(string, StoredSession) jsmap"
  ms_idempotency :: "(string, StoredSessionIdempotency) jsmap"

definition emptySessionStore :: SessionStore where
  "emptySessionStore = \<lparr>ms_records = [], ms_idempotency = []\<rparr>"

text \<open>The callbacks of \<^verbatim>\<open>MemorySessionOptions\<close>; \<open>clock n\<close> is the \<open>n\<close>-th answer of the clock within an operation.\<close>

record MemorySessionOptions =
  mo_assertBinding :: "StoredSession \<Rightarrow> unit res"
  mo_grant :: "StoredSession \<Rightarrow> BotGrant option"
  mo_assertSupersedablePlan :: "(StoredSession \<Rightarrow> SessionOwnerApproval \<Rightarrow> int \<Rightarrow> unit res) option"

definition findCompiled :: "host \<Rightarrow> int \<Rightarrow> string \<Rightarrow> string \<Rightarrow> SessionStore \<Rightarrow> CompiledSession option res" where
  "findCompiled H chainId account permissionId s =
     (case List.find (\<lambda>r. cs_chainId (se_compiled r) = chainId \<and> same (cs_wallet (se_compiled r)) account \<and>
          same (cs_permissionId (se_compiled r)) permissionId) (js_values (ms_records s)) of
        None \<Rightarrow> Inr None
      | Some r \<Rightarrow>
          bindR (assertCompiledSessionIntegrity H (se_compiled r)) (\<lambda>_.
          bindR (cloneSession H json_of_CompiledSession (se_compiled r)) (\<lambda>c. Inr (Some c))))"

definition key_se :: "RestActor \<Rightarrow> string \<Rightarrow> string" where
  "key_se actor key = accountId actor @ ''|'' @ principalId actor @ ''|'' @ key"

definition required_se :: "SessionStore \<Rightarrow> RestActor \<Rightarrow> string \<Rightarrow> StoredSession res" where
  "required_se s actor i =
     bindR (assertActor actor) (\<lambda>_.
     bindR (assertSessionId i) (\<lambda>_.
     case js_get (ms_records s) i of
       None \<Rightarrow> Inl missingSession
     | Some r \<Rightarrow> if canReadSession r actor then Inr r else Inl missingSession))"

definition checkAuthority :: "MemorySessionOptions \<Rightarrow> StoredSession \<Rightarrow> int \<Rightarrow> unit res" where
  "checkAuthority options r now =
     bindR (mo_assertBinding options r) (\<lambda>_. assertSessionGrant r (mo_grant options r) (now div 1000))"

definition checkReservation :: "SessionStore \<Rightarrow> StoredSession \<Rightarrow> unit res" where
  "checkReservation s r =
     ensure (\<not> list_ex (\<lambda>other. reservationConflicts r other) (js_values (ms_records s)))
       (sessionError ''SESSION_ALLOCATION_CONFLICT''
         ''Another admitted session reserves this physical wallet until finalized revocation.'' 409)"

definition startsWith :: "string \<Rightarrow> string \<Rightarrow> bool" where
  "startsWith prefix s \<longleftrightarrow> take (length prefix) s = prefix"

definition reserve_se :: "RestActor \<Rightarrow> SessionIdempotency \<Rightarrow> string \<Rightarrow> string \<Rightarrow> SessionStore \<Rightarrow> unit res \<times> SessionStore" where
  "reserve_se actor claim operation i s =
     attempt (ensure (\<not> length (filter (\<lambda>k. startsWith (accountId actor @ ''|'') k) (map fst (ms_idempotency s))) \<ge> idempotencyPerAccount_se)
       (sessionError ''SESSION_STORAGE_LIMIT'' ''Account session idempotency capacity reached.'' 429)) s (\<lambda>_.
     (Inr (), s\<lparr>ms_idempotency := js_set (key_se actor (si_key claim))
        \<lparr>sn_operation = operation, sn_sessionId = i, sn_requestHash = si_requestHash claim\<rparr> (ms_idempotency s)\<rparr>))"

definition create_se ::
  "host \<Rightarrow> MemorySessionOptions \<Rightarrow> guard \<Rightarrow> (nat \<Rightarrow> int) \<Rightarrow> StoredSession \<Rightarrow> SessionIdempotency \<Rightarrow> int \<Rightarrow> SessionStore \<Rightarrow>
     StoredSession res \<times> SessionStore" where
  "create_se H options authority clock input idempotency now s =
     attempt (assertNewSession H input now) s (\<lambda>_.
     attempt (assertSessionIdempotency idempotency) s (\<lambda>_.
     attempt (cloneStored H input) s (\<lambda>r.
     attempt (cloneSession H json_of_SessionIdempotency idempotency) s (\<lambda>claim.
     attempt (authority (se_actor r) [Plan] (clock 0 div 1000)) s (\<lambda>_.
     let existing = js_get (ms_idempotency s) (key_se (se_actor r) (si_key claim)) in
     attempt (assertIdempotencyMatch existing claim ''create'' None) s (\<lambda>_.
     case existing of
       Some e \<Rightarrow>
         attempt (required_se s (se_actor r) (sn_sessionId e)) s (\<lambda>x.
         attempt (cloneStored H x) s (\<lambda>c. (Inr c, s)))
     | None \<Rightarrow>
         attempt (assertNewSession H r (clock 1)) s (\<lambda>_.
         attempt (checkAuthority options r (clock 1)) s (\<lambda>_.
         attempt (ensure (\<not> (js_has (ms_records s) (se_id r) \<or> list_ex (\<lambda>other. identityConflicts r other) (js_values (ms_records s))))
           (sessionError ''SESSION_CONFLICT'' ''The immutable permission, salt, nonce or key generation is already recorded.'' 409)) s (\<lambda>_.
         attempt (ensure (\<not> count_values (\<lambda>other. cs_ownerAccountId (se_compiled other) = cs_ownerAccountId (se_compiled r)) (ms_records s)
              \<ge> sessionsPerAccount)
           (sessionError ''SESSION_STORAGE_LIMIT'' ''Account session record capacity reached.'' 429)) s (\<lambda>_.
         invoke (reserve_se (se_actor r) claim ''create'' (se_id r) s) (\<lambda>s1. s1) (\<lambda>_ s1.
         let s2 = s1\<lparr>ms_records := js_set (se_id r) r (ms_records s1)\<rparr> in
         attempt (cloneStored H r) s2 (\<lambda>c. (Inr c, s2)))))))))))))"

definition find_se :: "host \<Rightarrow> RestActor \<Rightarrow> SessionIdempotency \<Rightarrow> SessionStore \<Rightarrow> StoredSession option res" where
  "find_se H actor claim s =
     bindR (assertActor actor) (\<lambda>_.
     bindR (assertSessionIdempotency claim) (\<lambda>_.
     let existing = js_get (ms_idempotency s) (key_se actor (si_key claim)) in
     bindR (assertIdempotencyMatch existing claim ''create'' None) (\<lambda>_.
     case existing of None \<Rightarrow> Inr None
     | Some e \<Rightarrow> bindR (required_se s actor (sn_sessionId e)) (\<lambda>r. bindR (cloneStored H r) (\<lambda>c. Inr (Some c))))))"

definition get_se :: "host \<Rightarrow> RestActor \<Rightarrow> string \<Rightarrow> SessionStore \<Rightarrow> StoredSession option res" where
  "get_se H actor i s =
     bindR (assertActor actor) (\<lambda>_.
     bindR (assertSessionId i) (\<lambda>_.
     case js_get (ms_records s) i of None \<Rightarrow> Inr None
     | Some r \<Rightarrow> if canReadSession r actor then bindR (cloneStored H r) (\<lambda>c. Inr (Some c)) else Inr None))"

text \<open>Session identifiers are lower-case UUIDs, whose order by UTF-16 units is their order by bytes.\<close>

definition list_se :: "host \<Rightarrow> RestActor \<Rightarrow> int \<Rightarrow> string option \<Rightarrow> SessionStore \<Rightarrow> (StoredSession list \<times> string option) res" where
  "list_se H actor limit cursor s =
     bindR (assertActor actor) (\<lambda>_.
     bindR (assertSessionList limit cursor) (\<lambda>_.
     let rows = sort_by (\<lambda>a b. bytes_le (se_id a) (se_id b))
           (filter (\<lambda>r. canReadSession r actor \<and> (case cursor of None \<Rightarrow> True | Some c \<Rightarrow> \<not> bytes_le (se_id r) c)) (js_values (ms_records s))) in
     bindR (mapR (cloneStored H) (take (nat limit) rows)) (\<lambda>items.
     Inr (items, if length rows > nat limit \<and> items \<noteq> [] then Some (se_id (last items)) else None))))"

definition claim_se ::
  "host \<Rightarrow> MemorySessionOptions \<Rightarrow> guard \<Rightarrow> (nat \<Rightarrow> int) \<Rightarrow> SessionClaim \<Rightarrow> LifecycleKind \<Rightarrow> SessionStore \<Rightarrow>
     (StoredSession \<times> bool) res \<times> SessionStore" where
  "claim_se H options authority clock input kind s =
     attempt (cloneSession H json_of_SessionClaim input) s (\<lambda>claim.
     attempt (assertActor (sk_actor claim)) s (\<lambda>_.
     attempt (assertSessionIdempotency (sk_idempotency claim)) s (\<lambda>_.
     attempt (authority (sk_actor claim) [Plan] (clock 0 div 1000)) s (\<lambda>_.
     attempt (required_se s (sk_actor claim) (sk_id claim)) s (\<lambda>current.
     let operation = (case kind of Activation \<Rightarrow> ''activate'' | Revocation \<Rightarrow> ''revoke'');
         existing = js_get (ms_idempotency s) (key_se (sk_actor claim) (si_key (sk_idempotency claim))) in
     attempt (assertIdempotencyMatch existing (sk_idempotency claim) operation (Some (se_id current))) s (\<lambda>_.
     if existing \<noteq> None then attempt (cloneStored H current) s (\<lambda>c. (Inr (c, False), s))
     else
       let now = clock 1; prior = priorApproval kind current;
           replacement = (case prior of None \<Rightarrow> False | Some p \<Rightarrow> ap_planId p \<noteq> ap_planId (sk_approval claim)) in
       attempt (if kind = Activation then checkAuthority options current now else Inr ()) s (\<lambda>_.
       attempt (if replacement then
           (case mo_assertSupersedablePlan options of
              None \<Rightarrow> Inl (sessionError ''SESSION_PLAN_REPLACEMENT_UNAVAILABLE''
                ''A synchronous prior-plan and transport guard is required for replacement.'' 503)
            | Some check \<Rightarrow> check current (the prior) now)
         else Inr ()) s (\<lambda>_.
       attempt (applySessionClaim H current claim kind now replacement) s (\<lambda>(record, claimed).
       attempt (if claimed \<and> kind = Activation then checkReservation s current else Inr ()) s (\<lambda>_.
       invoke (reserve_se (sk_actor claim) (sk_idempotency claim) operation (se_id current) s) (\<lambda>s1. s1) (\<lambda>_ s1.
       let s2 = (if claimed then s1\<lparr>ms_records := js_set (se_id current) record (ms_records s1)\<rparr> else s1) in
       attempt (cloneSession H (json_of_SessionResult ''claimed'') (record, claimed)) s2 (\<lambda>c. (Inr c, s2)))))))))))))"

definition claimActivation ::
  "host \<Rightarrow> MemorySessionOptions \<Rightarrow> guard \<Rightarrow> (nat \<Rightarrow> int) \<Rightarrow> SessionClaim \<Rightarrow> SessionStore \<Rightarrow> (StoredSession \<times> bool) res \<times> SessionStore" where
  "claimActivation H options authority clock claim s = claim_se H options authority clock claim Activation s"

definition claimRevocation ::
  "host \<Rightarrow> MemorySessionOptions \<Rightarrow> guard \<Rightarrow> (nat \<Rightarrow> int) \<Rightarrow> SessionClaim \<Rightarrow> SessionStore \<Rightarrow> (StoredSession \<times> bool) res \<times> SessionStore" where
  "claimRevocation H options authority clock claim s = claim_se H options authority clock claim Revocation s"

text \<open>\<^verbatim>\<open>try { checkAuthority } catch\<close>: only a \<open>RestError\<close> makes the grant inactive, anything else is thrown on.\<close>

definition grantActiveNow :: "MemorySessionOptions \<Rightarrow> StoredSession \<Rightarrow> int \<Rightarrow> bool res" where
  "grantActiveNow options r now =
     (case checkAuthority options r now of
        Inr u \<Rightarrow> Inr True
      | Inl e \<Rightarrow> (case e of RestError a b c d \<Rightarrow> Inr False | _ \<Rightarrow> Inl e))"

definition observe_se ::
  "host \<Rightarrow> MemorySessionOptions \<Rightarrow> int \<Rightarrow> SessionObservationUpdate \<Rightarrow> SessionStore \<Rightarrow> (StoredSession \<times> bool) res \<times> SessionStore" where
  "observe_se H options now input s =
     attempt (cloneSession H json_of_ObservationUpdate input) s (\<lambda>update.
     attempt (required_se s (su_actor update) (su_id update)) s (\<lambda>current.
     attempt (grantActiveNow options current now) s (\<lambda>grantActive.
     attempt (applySessionObservation H current update grantActive now) s (\<lambda>(record, applied).
     attempt (if applied \<and> enabledNow record \<and> \<not> se_reservationsReleased record then checkReservation s current else Inr ()) s (\<lambda>_.
     let s1 = (if applied then s\<lparr>ms_records := js_set (se_id current) record (ms_records s)\<rparr> else s) in
     attempt (cloneSession H (json_of_SessionResult ''applied'') (record, applied)) s1 (\<lambda>c. (Inr c, s1)))))))"

definition markStale ::
  "host \<Rightarrow> int \<Rightarrow> SessionInvalidationUpdate \<Rightarrow> SessionStore \<Rightarrow> (StoredSession \<times> bool) res \<times> SessionStore" where
  "markStale H now input s =
     attempt (cloneSession H json_of_InvalidationUpdate input) s (\<lambda>update.
     attempt (required_se s (sv_actor update) (sv_id update)) s (\<lambda>current.
     attempt (applySessionInvalidation H current update now) s (\<lambda>(record, applied).
     let s1 = (if applied then s\<lparr>ms_records := js_set (se_id current) record (ms_records s)\<rparr> else s) in
     attempt (cloneSession H (json_of_SessionResult ''applied'') (record, applied)) s1 (\<lambda>c. (Inr c, s1)))))"

definition quota :: "host \<Rightarrow> RestActor \<Rightarrow> string \<Rightarrow> SessionStore \<Rightarrow> SessionQuota res" where
  "quota H actor i s = bindR (required_se s actor i) (sessionQuota H)"

definition assertUserOperationSession ::
  "MemorySessionOptions \<Rightarrow> RestActor \<Rightarrow> UserOperationSessionBinding \<Rightarrow> string \<Rightarrow> int \<Rightarrow> string \<Rightarrow> int \<Rightarrow> SessionStore \<Rightarrow> unit res" where
  "assertUserOperationSession options actor binding accountBindingId chainId sender nowSeconds s =
     bindR (required_se s actor (us_id binding)) (\<lambda>r.
     bindR (checkAuthority options r (nowSeconds * 1000)) (\<lambda>_.
     assertSessionUserOperation r actor binding accountBindingId chainId sender nowSeconds))"

definition assertUserOperationLifecyclePlan :: "RestActor \<Rightarrow> StoredPlan \<Rightarrow> int \<Rightarrow> SessionStore \<Rightarrow> unit res" where
  "assertUserOperationLifecyclePlan actor plan nowSeconds s =
     bindR (sessionLifecycleId plan) (\<lambda>i.
     case i of None \<Rightarrow> Inr ()
     | Some i \<Rightarrow> bindR (required_se s actor i) (\<lambda>r. assertSessionLifecyclePlan r actor plan nowSeconds))"

end
