(* ===== verification/PgTransports.thy ===== *)
theory PgTransports
  imports Transports
begin

text \<open>
  Transport reservations in PostgreSQL (\<^verbatim>\<open>src/src/rest/transactions/transport-reservations.ts\<close>, the functions on a
  \<^verbatim>\<open>PoolClient\<close>), over the table \<^verbatim>\<open>rest_transaction_transports\<close> with the primary key \<^verbatim>\<open>(plan_id, step_index)\<close>. The table
  is a list of rows in the order of insertion. The functions keep the contract \<open>transport_ledger\<close> and
  answer like the in-memory class.
\<close>

section \<open>The table\<close>

record TransportRow =
  tw_planId :: string
  tw_stepIndex :: int
  tw_transport :: ReservedTransport
  tw_bindingId :: string

type_synonym TransportTable = "TransportRow list"

definition transportRow :: "TransportTable \<Rightarrow> string \<Rightarrow> int \<Rightarrow> TransportRow option" where
  "transportRow T planId index = List.find (\<lambda>row. tw_planId row = planId \<and> tw_stepIndex row = index) T"

text \<open>\<^verbatim>\<open>INSERT ... ON CONFLICT (plan_id, step_index) DO NOTHING\<close> of one row.\<close>

definition insertTransport :: "string \<Rightarrow> ReservedTransport \<Rightarrow> string \<Rightarrow> int \<Rightarrow> TransportTable \<Rightarrow> TransportTable" where
  "insertTransport planId transport bindingId index T =
     (if transportRow T planId index \<noteq> None then T
      else T @ [\<lparr>tw_planId = planId, tw_stepIndex = index, tw_transport = transport, tw_bindingId = bindingId\<rparr>])"

definition rowMatches :: "TransportRow \<Rightarrow> ReservedTransport \<Rightarrow> string \<Rightarrow> bool" where
  "rowMatches row transport bindingId \<longleftrightarrow> tw_transport row = transport \<and> tw_bindingId row = bindingId"

definition getPostgresTransports :: "string \<Rightarrow> TransportTable \<Rightarrow> TransportReservation list res" where
  "getPostgresTransports planId T =
     bindR (assertText planId) (\<lambda>_.
     Inr (map (\<lambda>row. \<lparr>tr_stepIndex = tw_stepIndex row, tr_transport = tw_transport row, tr_bindingId = tw_bindingId row\<rparr>)
       (sort_by (\<lambda>a b. tw_stepIndex a \<le> tw_stepIndex b) (filter (\<lambda>row. tw_planId row = planId) T))))"

definition assertPostgresTransport :: "string \<Rightarrow> int list \<Rightarrow> ReservedTransport \<Rightarrow> string \<Rightarrow> TransportTable \<Rightarrow> unit res" where
  "assertPostgresTransport planId stepIndexes transport bindingId T =
     bindR (transport_parameters planId stepIndexes transport bindingId) (\<lambda>indexes.
     bindR (getPostgresTransports planId T) (\<lambda>listed.
     let rows = map (\<lambda>row. (tr_stepIndex row, row)) listed in
     forR (\<lambda>index. ensure (\<not> (case js_get (rev rows) index of None \<Rightarrow> True
              | Some row \<Rightarrow> tr_transport row \<noteq> transport \<or> tr_bindingId row \<noteq> bindingId))
            (transport_conflict index)) indexes))"

text \<open>The table after the savepoint is released, or as it was when the error is thrown on.\<close>

definition claimPostgresTransport ::
  "string \<Rightarrow> int list \<Rightarrow> ReservedTransport \<Rightarrow> string \<Rightarrow> TransportTable \<Rightarrow> unit res \<times> TransportTable" where
  "claimPostgresTransport planId stepIndexes transport bindingId T =
     attempt (transport_parameters planId stepIndexes transport bindingId) T (\<lambda>indexes.
     let T1 = fold (insertTransport planId transport bindingId) (sort indexes) T in
     attempt (forR (\<lambda>index. ensure (\<not> (case transportRow T1 planId index of None \<Rightarrow> True
                | Some row \<Rightarrow> \<not> rowMatches row transport bindingId))
              (transport_conflict index)) indexes) T (\<lambda>_.
     (Inr (), T1)))"

section \<open>The same contract, the same answers\<close>

definition rowBound :: "TransportTable \<Rightarrow> string \<Rightarrow> int \<Rightarrow> (ReservedTransport \<times> string) option" where
  "rowBound T planId index = map_option (\<lambda>row. (tw_transport row, tw_bindingId row)) (transportRow T planId index)"

lemma find_append: "List.find P (xs @ ys) = (case List.find P xs of None \<Rightarrow> List.find P ys | Some x \<Rightarrow> Some x)"
  by (induction xs) auto

lemma find_map: "List.find P (map f xs) = map_option f (List.find (\<lambda>x. P (f x)) xs)"
  by (induction xs) auto

lemma find_filter: "List.find P xs = Some x \<Longrightarrow> Q x \<Longrightarrow> List.find P (filter Q xs) = Some x"
  by (induction xs) (auto split: if_splits)

lemma find_SomeD: "List.find P xs = Some x \<Longrightarrow> x \<in> set xs \<and> P x"
  by (auto simp: find_Some_iff)

lemma rowBound_insert:
  "rowBound (insertTransport planId t b i T) k j =
     (if k = planId \<and> j = i \<and> rowBound T k j = None then Some (t, b) else rowBound T k j)"
  by (auto simp: rowBound_def insertTransport_def transportRow_def find_append split: option.splits)

lemma rowBound_inserts:
  "rowBound (fold (insertTransport planId t b) idx T) k j =
     (if k = planId \<and> j \<in> set idx \<and> rowBound T k j = None then Some (t, b) else rowBound T k j)"
  by (induction idx arbitrary: T) (auto simp: rowBound_insert)

lemma row_compatible:
  "(case transportRow T planId i of None \<Rightarrow> True | Some row \<Rightarrow> \<not> rowMatches row t b) \<longleftrightarrow> rowBound T planId i \<noteq> Some (t, b)"
  by (auto simp: rowBound_def rowMatches_def split: option.splits)

text \<open>Both implementations refuse with the error of the first step that is bound otherwise.\<close>

definition firstConflict :: "(int \<Rightarrow> (ReservedTransport \<times> string) option) \<Rightarrow> ReservedTransport \<Rightarrow> string \<Rightarrow> int list \<Rightarrow> unit res" where
  "firstConflict bound t b idx = forR (\<lambda>index. ensure (bound index \<in> {None, Some (t, b)}) (transport_conflict index)) idx"

lemma forR_ext: "(\<And>x. x \<in> set xs \<Longrightarrow> f x = g x) \<Longrightarrow> forR f xs = forR g xs"
  by (induction xs) (auto simp: bindR_def split: sum.splits)

lemma claim_transport_eq:
  "claim_transport planId idx t b s =
     attempt (transport_parameters planId idx t b) s (\<lambda>indexes.
     attempt (firstConflict (boundTo s planId) t b indexes) s (\<lambda>_.
     (Inr (), js_set planId (fold (\<lambda>index. js_set index \<lparr>rv_transport = t, rv_bindingId = b\<rparr>) indexes (current_of s planId)) s)))"
proof -
  have "(\<not> (case js_get (current_of s planId) i of None \<Rightarrow> False | Some existing \<Rightarrow> \<not> transport_matches existing t b)) =
      (boundTo s planId i \<in> {None, Some (t, b)})" for i
    using compatible_iff [where s = s and planId = planId and i = i and t = t and b = b] by (auto split: option.splits)
  then show ?thesis by (simp only: claim_transport_def Let_def firstConflict_def)
qed

lemma claimPostgresTransport_eq:
  "claimPostgresTransport planId idx t b T =
     attempt (transport_parameters planId idx t b) T (\<lambda>indexes.
     attempt (firstConflict (rowBound T planId) t b indexes) T (\<lambda>_.
     (Inr (), fold (insertTransport planId t b) indexes T)))"
proof -
  have f: "forR (\<lambda>index. ensure (\<not> (case transportRow (fold (insertTransport planId t b) is T) planId index of None \<Rightarrow> True
          | Some row \<Rightarrow> \<not> rowMatches row t b)) (transport_conflict index)) is = firstConflict (rowBound T planId) t b is" for "is"
    unfolding row_compatible firstConflict_def by (rule forR_ext) (auto simp: rowBound_inserts intro!: arg_cong2 [where f = ensure])
  show ?thesis
  proof (cases "transport_parameters planId idx t b")
    case (Inr indexes)
    then have "sort indexes = indexes" by (auto simp: transport_parameters_eq_Inr sorted_sort_id)
    then show ?thesis by (simp add: claimPostgresTransport_def Inr Let_def f)
  qed (simp add: claimPostgresTransport_def)
qed

lemma claimPostgresTransport_Inr:
  "claimPostgresTransport planId idx t b T = (Inr u, T') \<longleftrightarrow>
     transport_parameters planId idx t b = Inr (sort idx) \<and>
     (\<forall>i \<in> set idx. rowBound T planId i = None \<or> rowBound T planId i = Some (t, b)) \<and>
     T' = fold (insertTransport planId t b) (sort idx) T"
  by (auto simp: claimPostgresTransport_eq firstConflict_def res_simps)

lemma claimPostgresTransport_Inl: "claimPostgresTransport planId idx t b T = (Inl e, T') \<Longrightarrow> T' = T"
  by (auto simp: claimPostgresTransport_eq res_simps)

interpretation pgLedger: transport_ledger claimPostgresTransport rowBound
proof
  fix k idx t b s u s' k' i
  assume c: "claimPostgresTransport k idx t b s = (Inr u, s')"
  then show "rowBound s' k' i = (if k' = k \<and> i \<in> set idx then Some (t, b) else rowBound s k' i)"
    by (auto simp: claimPostgresTransport_Inr rowBound_inserts)
  show "rowBound s k i = None \<or> rowBound s k i = Some (t, b)" if "i \<in> set idx"
    using c that by (auto simp: claimPostgresTransport_Inr)
qed (rule claimPostgresTransport_Inl)

lemma transports_agree:
  assumes "rowBound T = boundTo s"
  shows "fst (claimPostgresTransport planId idx t b T) = fst (claim_transport planId idx t b s) \<and>
     rowBound (snd (claimPostgresTransport planId idx t b T)) = boundTo (snd (claim_transport planId idx t b s))"
proof (cases "fst (claim_transport planId idx t b s)")
  case (Inl e)
  have "fst (claimPostgresTransport planId idx t b T) = fst (claim_transport planId idx t b s)"
    unfolding claim_transport_eq claimPostgresTransport_eq assms by (auto simp: attempt_def split: sum.splits)
  moreover from this Inl have "snd (claimPostgresTransport planId idx t b T) = T" "snd (claim_transport planId idx t b s) = s"
    by (metis claimPostgresTransport_Inl prod.collapse, metis claim_transport_Inl prod.collapse)
  ultimately show ?thesis using assms by simp
next
  case (Inr u)
  have same: "fst (claimPostgresTransport planId idx t b T) = fst (claim_transport planId idx t b s)"
    unfolding claim_transport_eq claimPostgresTransport_eq assms by (auto simp: attempt_def split: sum.splits)
  have "claim_transport planId idx t b s = (Inr u, snd (claim_transport planId idx t b s))"
    "claimPostgresTransport planId idx t b T = (Inr u, snd (claimPostgresTransport planId idx t b T))"
    using Inr same by (metis prod.collapse)+
  from ledger.claim_binds [OF this(1)] pgLedger.claim_binds [OF this(2)] assms same show ?thesis by (auto simp: fun_eq_iff)
qed



end
