(* ===== verification/PgTables.thy ===== *)
theory PgTables
  imports TransactionMemory UserOperationMemory SessionMemory SponsorshipMemory PgTransports
begin

text \<open>
  The PostgreSQL tables that the account, transaction, session, user operation and sponsorship stores share. A table is a list of rows in the order of
  insertion; of the columns those that are read or unique are kept, and a \<^verbatim>\<open>jsonb\<close> document reads back as it was
  written. A transaction is a function on the tables that is undone when it throws. Transactions run one after the
  other, as the locks of the account, the wallet, the operation and the plan order those that touch the same rows. Unique constraints of
  the schema are modelled, and so are the foreign keys and the \<^verbatim>\<open>CHECK\<close> of \<^verbatim>\<open>rest_sponsorships\<close> that refuse what the store has not checked before; of the other
  constraints most repeat what was checked, and the bounds on the length of the stored text of a \<^verbatim>\<open>jsonb\<close> document are left out: that text has more
  spaces than the one the stores bound, so the database can only refuse more than the model.
\<close>

section \<open>Tables\<close>

text \<open>The fields of a \<^verbatim>\<open>SmartAccountBinding\<close> that the checks read.\<close>

record SmartAccountBinding =
  sb_chainId :: int
  sb_address :: string
  sb_stateHash :: string
  sb_moduleConfigurationVerified :: bool

record BindingRow =
  bw_accountId :: string
  bw_id :: string
  bw_chainId :: int
  bw_walletAddress :: string
  bw_revokedAt :: "int option"
  bw_document :: SmartAccountBinding

record PlanRow =
  pw_id :: string
  pw_accountId :: string
  pw_principalId :: string
  pw_accountAddress :: string
  pw_createdAt :: int
  pw_document :: StoredPlan

record PlanIdempotencyRow =
  xi_accountId :: string
  xi_principalId :: string
  xi_key :: string
  xi_requestHash :: string
  xi_operation :: string
  xi_planId :: string
  xi_stepIndex :: "int option"

text \<open>The column \<^verbatim>\<open>nonce\<close> is numeric; the rules admit canonical decimals only, so equal numbers are equal texts.\<close>

record TransactionNonceRow =
  xn_chainId :: int
  xn_sender :: string
  xn_nonce :: string
  xn_transactionHash :: string
  xn_planId :: string
  xn_stepIndex :: int

record SessionRow =
  sw_id :: string
  sw_accountId :: string
  sw_grantId :: string
  sw_chainId :: int
  sw_walletAddress :: string
  sw_sessionKey :: string
  sw_generation :: int
  sw_permissionId :: string
  sw_salt :: string
  sw_policyNonce :: string
  sw_document :: StoredSession

record SessionIdempotencyRow =
  iw_accountId :: string
  iw_principalId :: string
  iw_key :: string
  iw_requestHash :: string
  iw_operation :: string
  iw_sessionId :: string

record ReservationRow =
  rw_sessionId :: string
  rw_chainId :: int
  rw_walletAddress :: string
  rw_kind :: string
  rw_coordinate :: string
  rw_validAfter :: int
  rw_validUntil :: int
  rw_releasedAt :: "int option"

record OperationRow =
  ow_id :: string
  ow_accountId :: string
  ow_principalId :: string
  ow_preparationKey :: string
  ow_submissionKey :: "string option"
  ow_createdAt :: int
  ow_document :: UserOperationRecord

record NonceRow =
  nw_chainId :: int
  nw_sender :: string
  nw_nonce :: string
  nw_entryPoint :: string
  nw_operationHash :: string
  nw_signedCommitment :: string
  nw_operationId :: string

record SponsorshipRow =
  pr_id :: string
  pr_accountId :: string
  pr_principalId :: string
  pr_planId :: string
  pr_preparationKey :: string
  pr_submissionKey :: "string option"
  pr_document :: SponsorshipRecord

record ForwardNonceRow =
  fw_key :: ForwardNonceKey
  fw_sponsorshipId :: string

record RequestNonceRow =
  qn_accountId :: string
  qn_nonce :: string
  qn_expiresAt :: int

text \<open>The rows of \<^verbatim>\<open>rest_accounts\<close> and \<^verbatim>\<open>rest_bot_grants\<close> have the columns of the records that \<^verbatim>\<open>accountFromRow\<close> and \<^verbatim>\<open>grantFromRow\<close> read from them.\<close>

record Database =
  db_accounts :: "Account list"
  db_plans :: "PlanRow list"
  db_planIdempotency :: "PlanIdempotencyRow list"
  db_transactionNonces :: "TransactionNonceRow list"
  db_transports :: TransportTable
  db_bindings :: "BindingRow list"
  db_grants :: "BotGrant list"
  db_requestNonces :: "RequestNonceRow list"
  db_sessions :: "SessionRow list"
  db_sessionIdempotency :: "SessionIdempotencyRow list"
  db_sessionReservations :: "ReservationRow list"
  db_operations :: "OperationRow list"
  db_operationNonces :: "NonceRow list"
  db_sponsorships :: "SponsorshipRow list"
  db_forwardNonces :: "ForwardNonceRow list"

definition emptyDatabase :: Database where
  "emptyDatabase = \<lparr>db_accounts = [], db_plans = [], db_planIdempotency = [], db_transactionNonces = [], db_transports = [], db_bindings = [], db_grants = [], db_requestNonces = [], db_sessions = [],
     db_sessionIdempotency = [], db_sessionReservations = [], db_operations = [], db_operationNonces = [], db_sponsorships = [], db_forwardNonces = []\<rparr>"

text \<open>\<^verbatim>\<open>BEGIN\<close>, the operation, and \<^verbatim>\<open>COMMIT\<close> or \<^verbatim>\<open>ROLLBACK\<close>.\<close>

definition transact :: "(Database \<Rightarrow> ('a \<times> Database) res) \<Rightarrow> Database \<Rightarrow> 'a res \<times> Database" where
  "transact operation D = (case operation D of Inl e \<Rightarrow> (Inl e, D) | Inr (x, D') \<Rightarrow> (Inr x, D'))"

text \<open>The SQLSTATE of a violated unique, foreign key or check constraint.\<close>

definition uniqueViolation :: rest_error where "uniqueViolation = DatabaseError ''23505''"
definition foreignKeyViolation :: rest_error where "foreignKeyViolation = DatabaseError ''23503''"
definition checkViolation :: rest_error where "checkViolation = DatabaseError ''23514''"

text \<open>A table read as a map from a column to another.\<close>

lemma map_of_rows: "js_get (map (\<lambda>w. (f w, g w)) rows) k = map_option g (List.find (\<lambda>w. f w = k) rows)"
  by (induction rows) auto

lemma updated_rows:
  assumes "distinct (map f rows)" and "k \<in> f ` set rows" and "\<And>w. f (u w) = f w" and "\<And>w. f w = k \<Longrightarrow> g (u w) = v" and "\<And>w. f w \<noteq> k \<Longrightarrow> u w = w"
  shows "map (\<lambda>w. (f w, g w)) (map u rows) = js_set k v (map (\<lambda>w. (f w, g w)) rows)"
  using assms(1,2)
proof (induction rows)
  case (Cons a rows)
  show ?case
  proof (cases "f a = k")
    case True
    then have "map u rows = rows" using Cons(2) assms(5) by (metis distinct.simps(2) imageI list.simps(9) list.set_map map_idI)
    then show ?thesis using True assms(3,4) by simp
  next
    case False
    then show ?thesis using Cons assms(3,5) by auto
  qed
qed simp

end
