(* ===== verification/PgSponsorships.thy ===== *)
theory PgSponsorships
  imports PgTables
begin

text \<open>
  The PostgreSQL sponsorship store (\<^verbatim>\<open>src/src/rest/sponsorship/postgres.ts\<close>) over the tables of \<open>PgTables\<close>. \<open>clock n\<close> is the
  \<open>n\<close>-th answer of the database clock in an operation and \<open>active n\<close> the \<open>n\<close>-th answer of \<^verbatim>\<open>assertRestActorActive\<close>.
\<close>

section \<open>Forwarding nonces\<close>

definition forwardNonceRow :: "ForwardNonceKey \<Rightarrow> ForwardNonceRow list \<Rightarrow> ForwardNonceRow option" where
  "forwardNonceRow key rows = List.find (\<lambda>row. fw_key row = key) rows"

text \<open>\<^verbatim>\<open>INSERT ... ON CONFLICT (chain_id,forwarder,sender,nonce) DO NOTHING\<close> of one row.\<close>

definition insertForwardNonce :: "string \<Rightarrow> ForwardNonceKey \<Rightarrow> ForwardNonceRow list \<Rightarrow> ForwardNonceRow list" where
  "insertForwardNonce binding key rows =
     (if forwardNonceRow key rows \<noteq> None then rows else rows @ [\<lparr>fw_key = key, fw_sponsorshipId = binding\<rparr>])"

text \<open>The rows that the join with the requested keys returns.\<close>

definition reservedForwardNonces :: "ForwardNonceKey list \<Rightarrow> ForwardNonceRow list \<Rightarrow> ForwardNonceRow list" where
  "reservedForwardNonces keys rows = concat (map (\<lambda>key. filter (\<lambda>row. fw_key row = key) rows) (sort_by fk_le keys))"

definition claimForwardNonces :: "ForwardNonceKey list \<Rightarrow> string \<Rightarrow> Database \<Rightarrow> Database res" where
  "claimForwardNonces keys binding D =
     (let rows = fold (insertForwardNonce binding) (sort_by fk_le keys) (db_forwardNonces D);
          reserved = reservedForwardNonces keys rows in
      bindR (ensure (\<not> (length reserved \<noteq> length keys \<or> list_ex (\<lambda>row. fw_sponsorshipId row \<noteq> binding) reserved)) forwardNonceConflict) (\<lambda>_.
      Inr (D\<lparr>db_forwardNonces := rows\<rparr>)))"

section \<open>PostgresSponsorshipStore\<close>

definition sponsorshipRow :: "string \<Rightarrow> Database \<Rightarrow> SponsorshipRow option" where
  "sponsorshipRow i D = List.find (\<lambda>row. pr_id row = i) (db_sponsorships D)"

definition required_sps :: "string \<Rightarrow> Database \<Rightarrow> SponsorshipRecord res" where
  "required_sps i D =
     bindR (assertText i) (\<lambda>_.
     case sponsorshipRow i D of None \<Rightarrow> Inl missing_sp | Some row \<Rightarrow> cloneRecord_sp (pr_document row))"

definition samePublication :: "SponsorshipRow \<Rightarrow> SponsorshipRow \<Rightarrow> bool" where
  "samePublication a b \<longleftrightarrow> pr_accountId a = pr_accountId b \<and> pr_principalId a = pr_principalId b \<and>
     pr_submissionKey a \<noteq> None \<and> pr_submissionKey a = pr_submissionKey b"

definition save_sps :: "SponsorshipRecord \<Rightarrow> Database \<Rightarrow> (SponsorshipRecord \<times> Database) res" where
  "save_sps r D =
     bindR (cloneRecord_sp r) (\<lambda>copy.
     let update = (\<lambda>row. if pr_id row = sr_id copy
           then row\<lparr>pr_document := copy, pr_submissionKey := map_option ss_key (sr_submission copy)\<rparr> else row);
         rows = map update (db_sponsorships D) in
     bindR (ensure (\<not> list_ex (\<lambda>a. list_ex (\<lambda>b. pr_id a \<noteq> pr_id b \<and> samePublication a b) rows) rows) uniqueViolation) (\<lambda>_.
     Inr (copy, D\<lparr>db_sponsorships := rows\<rparr>)))"

definition preparedRow :: "RestActor \<Rightarrow> string \<Rightarrow> Database \<Rightarrow> SponsorshipRow option" where
  "preparedRow actor key D = List.find (\<lambda>row. pr_accountId row = accountId actor \<and> pr_principalId row = principalId actor \<and>
     pr_preparationKey row = key) (db_sponsorships D)"

definition find_sps :: "RestActor \<Rightarrow> string \<Rightarrow> string \<Rightarrow> Database \<Rightarrow> SponsorshipRecord option res" where
  "find_sps actor key inputHash D =
     bindR (assertActor actor) (\<lambda>_.
     bindR (assertKey key) (\<lambda>_.
     case preparedRow actor key D of
       None \<Rightarrow> Inr None
     | Some row \<Rightarrow>
         bindR (ensure (same (sr_inputHash (pr_document row)) inputHash) conflict_sp) (\<lambda>_.
         bindR (cloneRecord_sp (pr_document row)) (\<lambda>c. Inr (Some c)))))"

text \<open>
  The constraints of \<^verbatim>\<open>src/src/db/migrations/006_rest_sponsorship.sql\<close> on a new row that the checks before do not imply: at
  most four requests, a new identifier, an existing account and an existing plan.
\<close>

definition insertSponsorship :: "SponsorshipRecord \<Rightarrow> Database \<Rightarrow> Database res" where
  "insertSponsorship r D =
     bindR (ensure (length (sr_requests r) \<le> 4) checkViolation) (\<lambda>_.
     bindR (ensure (sponsorshipRow (sr_id r) D = None) uniqueViolation) (\<lambda>_.
     bindR (ensure (accountId (sr_actor r) \<in> ac_id ` set (db_accounts D) \<and> list_ex (\<lambda>row. pw_id row = sr_planId r) (db_plans D)) foreignKeyViolation) (\<lambda>_.
     Inr (D\<lparr>db_sponsorships := db_sponsorships D @ [\<lparr>pr_id = sr_id r, pr_accountId = accountId (sr_actor r),
        pr_principalId = principalId (sr_actor r), pr_planId = sr_planId r, pr_preparationKey = sr_preparationKey r,
        pr_submissionKey = None, pr_document = r\<rparr>]\<rparr>))))"

definition create_sps ::
  "guard \<Rightarrow> (nat \<Rightarrow> int) \<Rightarrow> SponsorshipRecord \<Rightarrow> int \<Rightarrow> Database \<Rightarrow> SponsorshipRecord res \<times> Database" where
  "create_sps active clock input now D =
     attempt (assertNew_sp input now) D (\<lambda>_.
     attempt (cloneRecord_sp input) D (\<lambda>r.
     transact (\<lambda>D.
       bindR (active (sr_actor r) [Plan] (now div 1000)) (\<lambda>_.
       case preparedRow (sr_actor r) (sr_preparationKey r) D of
         Some row \<Rightarrow>
           bindR (ensure (same (sr_inputHash (pr_document row)) (sr_inputHash r)) conflict_sp) (\<lambda>_.
           bindR (cloneRecord_sp (pr_document row)) (\<lambda>c. Inr (c, D)))
       | None \<Rightarrow>
           bindR (ensure (\<not> length (filter (\<lambda>row. pr_accountId row = accountId (sr_actor r)) (db_sponsorships D)) \<ge> recordsPerAccount_sp)
             (fail_sp ''SPONSORSHIP_STORAGE_LIMIT'' ''Sponsorship record limit reached.'' 429)) (\<lambda>_.
           bindR (assertNew_sp r (max now (clock 0))) (\<lambda>_.
           bindR (insertSponsorship r D) (\<lambda>D1.
           bindR (cloneRecord_sp r) (\<lambda>c. Inr (c, D1))))))) D))"

definition get_sps :: "RestActor \<Rightarrow> string \<Rightarrow> Database \<Rightarrow> SponsorshipRecord option res" where
  "get_sps actor i D =
     bindR (assertActor actor) (\<lambda>_.
     bindR (assertText i) (\<lambda>_.
     let owner = (principalId actor = ''owner:'' @ accountId actor) in
     case List.find (\<lambda>row. pr_id row = i \<and> pr_accountId row = accountId actor \<and> (owner \<or> pr_principalId row = principalId actor)) (db_sponsorships D) of
       None \<Rightarrow> Inr None
     | Some row \<Rightarrow> bindR (cloneRecord_sp (pr_document row)) (\<lambda>c. Inr (Some c))))"

text \<open>The transport is claimed on the table of the open transaction.\<close>

definition claimTransport_sps :: "SponsorshipRecord \<Rightarrow> Database \<Rightarrow> Database res" where
  "claimTransport_sps r D =
     (case claimPostgresTransport (sr_planId r) (map pf_stepIndex (sr_requests r)) Relayr (sr_id r) (db_transports D) of
        (Inl e, T) \<Rightarrow> Inl e | (Inr _, T) \<Rightarrow> Inr (D\<lparr>db_transports := T\<rparr>))"

definition claim_sps ::
  "(nat \<Rightarrow> guard) \<Rightarrow> (nat \<Rightarrow> int) \<Rightarrow> SponsorshipClaim \<Rightarrow> Database \<Rightarrow> (SponsorshipRecord \<times> bool) res \<times> Database" where
  "claim_sps active clock input D =
     attempt (assertClaim_sp input) D (\<lambda>_.
     attempt (clone_sp json_of_SponsorshipClaim input) D (\<lambda>input.
     transact (\<lambda>D.
       bindR (active 0 (sc_actor input) [Relay] (sc_now input div 1000)) (\<lambda>_.
       bindR (required_sps (sc_id input) D) (\<lambda>r.
       bindR (ensure (\<not> list_ex (\<lambda>row. pr_accountId row = accountId (sc_actor input) \<and> pr_principalId row = principalId (sc_actor input) \<and>
            pr_submissionKey row = Some (sc_key input) \<and> pr_id row \<noteq> sc_id input) (db_sponsorships D)) conflict_sp) (\<lambda>_.
       let input = input\<lparr>sc_now := clock 0\<rparr> in
       bindR (claimed_sp r input) (\<lambda>(initial, dispatch).
       if \<not> dispatch then Inr ((initial, False), D)
       else
         bindR (forwardNonceKeys (sr_requests r)) (\<lambda>nonces.
         bindR (claimTransport_sps r D) (\<lambda>D1.
         bindR (claimForwardNonces nonces (sr_id r) D1) (\<lambda>D2.
         bindR (active 1 (sc_actor input) [Relay] (sc_now input div 1000)) (\<lambda>_.
         bindR (claimed_sp r (input\<lparr>sc_now := clock 1\<rparr>)) (\<lambda>(result, _).
         bindR (save_sps result D2) (\<lambda>(saved, D3).
         Inr ((saved, dispatch), D3)))))))))))) D))"

definition settle_sps ::
  "(string \<Rightarrow> string) \<Rightarrow> string \<Rightarrow> string \<Rightarrow> RelayrQuote option \<Rightarrow> bool option \<Rightarrow> bool option \<Rightarrow> Database \<Rightarrow>
     SponsorshipRecord res \<times> Database" where
  "settle_sps sha256 i submissionHash answer runtimeVerified bindingVerified D =
     (let runtime = (case runtimeVerified of None \<Rightarrow> True | Some b \<Rightarrow> b);
          binding = (case bindingVerified of None \<Rightarrow> runtime | Some b \<Rightarrow> b) in
      transact (\<lambda>D. bindR (required_sps i D) (\<lambda>r. bindR (settled_sp sha256 r submissionHash answer runtime binding) (\<lambda>r'. save_sps r' D))) D)"

definition observe_sps ::
  "string \<Rightarrow> int \<Rightarrow> DestinationObservation list \<Rightarrow> Database \<Rightarrow> SponsorshipRecord res \<times> Database" where
  "observe_sps i revision observations D =
     transact (\<lambda>D.
       bindR (required_sps i D) (\<lambda>r.
       if sr_revision r \<noteq> revision then Inr (r, D)
       else save_sps (r\<lparr>sr_revision := revision + 1, sr_observations := observations\<rparr>) D)) D"

end
