(* ===== verification/PgSessions.thy ===== *)
theory PgSessions
  imports PgTables
begin

text \<open>
  The PostgreSQL session store (\<^verbatim>\<open>src/src/rest/sessions/postgres.ts\<close>) and the admission checks that the user operation store calls.
  \<open>clock n\<close> is the \<open>n\<close>-th answer of the database clock in an operation and \<open>active n\<close> the \<open>n\<close>-th answer of
  \<^verbatim>\<open>assertRestActorActive\<close>.
\<close>

section \<open>Admission of sessions\<close>

definition failure_pg :: "string \<Rightarrow> string \<Rightarrow> int \<Rightarrow> rest_error" where
  "failure_pg errorCode message status = RestError status errorCode message None"

definition missingSession_pg :: rest_error where
  "missingSession_pg = failure_pg ''SESSION_NOT_FOUND'' ''Session was not found for this principal.'' 404"

definition grantFor :: "StoredSession \<Rightarrow> Database \<Rightarrow> BotGrant option" where
  "grantFor r D = List.find (\<lambda>g. bg_id g = cs_grantId (se_compiled r) \<and> bg_accountId g = accountId (se_actor r)) (db_grants D)"

definition assertBinding_pg :: "StoredSession \<Rightarrow> Database \<Rightarrow> unit res" where
  "assertBinding_pg r D =
     ensure (list_ex (\<lambda>row. bw_accountId row = accountId (se_actor r) \<and> bw_id row = toLowerCase (cs_bindingId (se_compiled r)) \<and>
         bw_chainId row = cs_chainId (se_compiled r) \<and> bw_walletAddress row = toLowerCase (cs_wallet (se_compiled r)) \<and>
         bw_revokedAt row = None) (db_bindings D))
       (failure_pg ''SESSION_BINDING_INACTIVE'' ''The linked smart account is absent, changed, or unlinked.'' 409)"

definition selectSession :: "host \<Rightarrow> RestActor \<Rightarrow> string \<Rightarrow> Database \<Rightarrow> StoredSession res" where
  "selectSession H actor i D =
     bindR (assertActor actor) (\<lambda>_.
     bindR (assertSessionId i) (\<lambda>_.
     case List.find (\<lambda>row. sw_id row = i \<and> sw_accountId row = accountId actor) (db_sessions D) of
       None \<Rightarrow> Inl missingSession_pg
     | Some row \<Rightarrow> if canReadSession (sw_document row) actor then cloneStored H (sw_document row) else Inl missingSession_pg))"

definition assertUserOperationSession_pg ::
  "host \<Rightarrow> RestActor \<Rightarrow> UserOperationSessionBinding \<Rightarrow> string \<Rightarrow> int \<Rightarrow> string \<Rightarrow> int \<Rightarrow> int \<Rightarrow> Database \<Rightarrow> unit res" where
  "assertUserOperationSession_pg H actor binding accountBindingId chainId sender nowSeconds now D =
     bindR (selectSession H actor (us_id binding) D) (\<lambda>r.
     bindR (assertBinding_pg r D) (\<lambda>_.
     bindR (ensure (\<not> (\<not> isSafeInteger nowSeconds \<or> nowSeconds < 0))
       (failure_pg ''SESSION_INVALID'' ''Invalid session admission time.'' 400)) (\<lambda>_.
     bindR (assertSessionGrant r (grantFor r D) (now div 1000)) (\<lambda>_.
     assertSessionUserOperation r actor binding accountBindingId chainId sender (now div 1000)))))"

definition assertUserOperationLifecyclePlan_pg :: "host \<Rightarrow> RestActor \<Rightarrow> StoredPlan \<Rightarrow> int \<Rightarrow> int \<Rightarrow> Database \<Rightarrow> unit res" where
  "assertUserOperationLifecyclePlan_pg H actor plan nowSeconds now D =
     bindR (sessionLifecycleId plan) (\<lambda>i.
     bindR (case i of None \<Rightarrow> Inr ()
       | Some i \<Rightarrow> bindR (selectSession H actor i D) (\<lambda>r. assertSessionLifecyclePlan r actor plan (now div 1000))) (\<lambda>_.
     ensure (\<not> (\<not> isSafeInteger nowSeconds \<or> nowSeconds < 0))
       (failure_pg ''SESSION_INVALID'' ''Invalid lifecycle admission time.'' 400)))"

section \<open>PostgresSessionStore\<close>

definition conflictSession_pg :: rest_error where
  "conflictSession_pg = failure_pg ''SESSION_CONFLICT'' ''This session identity or authorization is already reserved.'' 409"

text \<open>A violated unique constraint is answered as a conflict.\<close>

definition transactSession :: "(Database \<Rightarrow> ('a \<times> Database) res) \<Rightarrow> Database \<Rightarrow> 'a res \<times> Database" where
  "transactSession operation D =
     (case operation D of
        Inl e \<Rightarrow> (Inl (if e = uniqueViolation then conflictSession_pg else e), D)
      | Inr (x, D') \<Rightarrow> (Inr x, D'))"

definition lockAccount :: "RestActor \<Rightarrow> Database \<Rightarrow> unit res" where
  "lockAccount actor D =
     bindR (assertActor actor) (\<lambda>_. ensure (accountId actor \<in> ac_id ` set (db_accounts D)) missingSession_pg)"

definition findCompiled_pg :: "host \<Rightarrow> int \<Rightarrow> string \<Rightarrow> string \<Rightarrow> Database \<Rightarrow> CompiledSession option res" where
  "findCompiled_pg H chainId account permissionId D =
     bindR (ensure (\<not> (\<not> isSafeInteger chainId \<or> chainId < 1 \<or> \<not> isAddress account \<or> \<not> isHash permissionId))
       (failure_pg ''SESSION_INPUT_INVALID'' ''Use an exact chain, wallet and permission identity.'' 400)) (\<lambda>_.
     case List.find (\<lambda>row. sw_chainId row = chainId \<and> sw_walletAddress row = toLowerCase account \<and>
         sw_permissionId row = toLowerCase permissionId) (db_sessions D) of
       None \<Rightarrow> Inr None
     | Some row \<Rightarrow>
         bindR (assertCompiledSessionIntegrity H (se_compiled (sw_document row))) (\<lambda>_.
         bindR (cloneSession H json_of_CompiledSession (se_compiled (sw_document row))) (\<lambda>c. Inr (Some c))))"

definition idem_pg :: "RestActor \<Rightarrow> string \<Rightarrow> Database \<Rightarrow> StoredSessionIdempotency option" where
  "idem_pg actor k D =
     map_option (\<lambda>row. \<lparr>sn_operation = iw_operation row, sn_sessionId = iw_sessionId row, sn_requestHash = iw_requestHash row\<rparr>)
       (List.find (\<lambda>row. iw_accountId row = accountId actor \<and> iw_principalId row = principalId actor \<and> iw_key row = k)
         (db_sessionIdempotency D))"

definition reserveIdempotency_pg :: "RestActor \<Rightarrow> SessionIdempotency \<Rightarrow> string \<Rightarrow> string \<Rightarrow> Database \<Rightarrow> Database res" where
  "reserveIdempotency_pg actor claim operation sessionId D =
     bindR (ensure (\<not> length (filter (\<lambda>row. iw_accountId row = accountId actor) (db_sessionIdempotency D)) \<ge> idempotencyPerAccount_se)
       (failure_pg ''SESSION_STORAGE_LIMIT'' ''The account session idempotency limit is reached.'' 429)) (\<lambda>_.
     bindR (ensure (idem_pg actor (si_key claim) D = None) uniqueViolation) (\<lambda>_.
     Inr (D\<lparr>db_sessionIdempotency := db_sessionIdempotency D @ [\<lparr>iw_accountId = accountId actor, iw_principalId = principalId actor,
        iw_key = si_key claim, iw_requestHash = si_requestHash claim, iw_operation = operation, iw_sessionId = sessionId\<rparr>]\<rparr>)))"

definition saveSession :: "host \<Rightarrow> StoredSession \<Rightarrow> Database \<Rightarrow> (StoredSession \<times> Database) res" where
  "saveSession H r D =
     bindR (cloneStored H r) (\<lambda>copy.
     Inr (copy, D\<lparr>db_sessions := map (\<lambda>row. if sw_id row = se_id copy then row\<lparr>sw_document := copy\<rparr> else row) (db_sessions D)\<rparr>))"

definition sessionRow :: "StoredSession \<Rightarrow> SessionRow" where
  "sessionRow r = (let c = se_compiled r in
     \<lparr>sw_id = se_id r, sw_accountId = accountId (se_actor r), sw_grantId = cs_grantId c, sw_chainId = cs_chainId c,
      sw_walletAddress = toLowerCase (cs_wallet c), sw_sessionKey = toLowerCase (cs_sessionKey c), sw_generation = bigInt (cs_generation c),
      sw_permissionId = toLowerCase (cs_permissionId c), sw_salt = toLowerCase (cs_salt c), sw_policyNonce = toLowerCase (cs_nonce c),
      sw_document = r\<rparr>)"

text \<open>The unique constraints of \<^verbatim>\<open>rest_sessions\<close> (\<^verbatim>\<open>src/src/db/migrations/009_rest_sessions.sql\<close>).\<close>

definition sessionRowsClash :: "SessionRow \<Rightarrow> SessionRow \<Rightarrow> bool" where
  "sessionRowsClash a b \<longleftrightarrow> sw_id a = sw_id b \<or>
     sw_chainId a = sw_chainId b \<and> sw_walletAddress a = sw_walletAddress b \<and>
     (sw_permissionId a = sw_permissionId b \<or> sw_salt a = sw_salt b \<or> sw_policyNonce a = sw_policyNonce b \<or>
      sw_sessionKey a = sw_sessionKey b \<and> sw_generation a = sw_generation b)"

definition insertSession :: "StoredSession \<Rightarrow> Database \<Rightarrow> Database res" where
  "insertSession r D =
     bindR (ensure (\<not> list_ex (sessionRowsClash (sessionRow r)) (db_sessions D)) uniqueViolation) (\<lambda>_.
     Inr (D\<lparr>db_sessions := db_sessions D @ [sessionRow r]\<rparr>))"

definition createSession_pg ::
  "host \<Rightarrow> (nat \<Rightarrow> guard) \<Rightarrow> (nat \<Rightarrow> int) \<Rightarrow> StoredSession \<Rightarrow> SessionIdempotency \<Rightarrow> int \<Rightarrow> Database \<Rightarrow> StoredSession res \<times> Database" where
  "createSession_pg H active clock input idempotency now D =
     attempt (assertNewSession H input now) D (\<lambda>_.
     attempt (assertSessionIdempotency idempotency) D (\<lambda>_.
     attempt (cloneStored H input) D (\<lambda>r.
     attempt (cloneSession H json_of_SessionIdempotency idempotency) D (\<lambda>claim.
     transactSession (\<lambda>D.
       bindR (active 0 (se_actor r) [Plan] (now div 1000)) (\<lambda>_.
       let existing = idem_pg (se_actor r) (si_key claim) D in
       bindR (assertIdempotencyMatch existing claim ''create'' None) (\<lambda>_.
       case existing of
         Some e \<Rightarrow> bindR (selectSession H (se_actor r) (sn_sessionId e) D) (\<lambda>x. Inr (x, D))
       | None \<Rightarrow>
           bindR (assertSessionActor r (se_actor r) False) (\<lambda>_.
           bindR (assertBinding_pg r D) (\<lambda>_.
           let grant = grantFor r D in
           bindR (assertNewSession H r (clock 0)) (\<lambda>_.
           bindR (assertSessionGrant r grant (clock 0 div 1000)) (\<lambda>_.
           bindR (ensure (\<not> length (filter (\<lambda>row. sw_accountId row = accountId (se_actor r)) (db_sessions D)) \<ge> sessionsPerAccount)
             (failure_pg ''SESSION_STORAGE_LIMIT'' ''The account session record limit is reached.'' 429)) (\<lambda>_.
           bindR (insertSession r D) (\<lambda>D1.
           bindR (reserveIdempotency_pg (se_actor r) claim ''create'' (se_id r) D1) (\<lambda>D2.
           bindR (active 1 (se_actor r) [Plan] (now div 1000)) (\<lambda>_.
           bindR (assertNewSession H r (clock 1)) (\<lambda>_.
           bindR (assertSessionGrant r grant (clock 1 div 1000)) (\<lambda>_.
           bindR (cloneStored H r) (\<lambda>c. Inr (c, D2))))))))))))))) D))))"

definition findSession_pg :: "host \<Rightarrow> RestActor \<Rightarrow> SessionIdempotency \<Rightarrow> Database \<Rightarrow> StoredSession option res" where
  "findSession_pg H actor claim D =
     bindR (assertActor actor) (\<lambda>_.
     bindR (assertSessionIdempotency claim) (\<lambda>_.
     let existing = idem_pg actor (si_key claim) D in
     bindR (assertIdempotencyMatch existing claim ''create'' None) (\<lambda>_.
     case existing of None \<Rightarrow> Inr None
     | Some e \<Rightarrow> bindR (selectSession H actor (sn_sessionId e) D) (\<lambda>r. Inr (Some r)))))"

definition getSession_pg :: "host \<Rightarrow> RestActor \<Rightarrow> string \<Rightarrow> Database \<Rightarrow> StoredSession option res" where
  "getSession_pg H actor i D =
     bindR (assertActor actor) (\<lambda>_.
     bindR (assertSessionId i) (\<lambda>_.
     case List.find (\<lambda>row. sw_id row = i \<and> sw_accountId row = accountId actor) (db_sessions D) of
       None \<Rightarrow> Inr None
     | Some row \<Rightarrow>
         if canReadSession (sw_document row) actor then bindR (cloneStored H (sw_document row)) (\<lambda>c. Inr (Some c)) else Inr None))"

definition listSessions_pg :: "host \<Rightarrow> RestActor \<Rightarrow> int \<Rightarrow> string option \<Rightarrow> Database \<Rightarrow> (StoredSession list \<times> string option) res" where
  "listSessions_pg H actor limit cursor D =
     bindR (assertActor actor) (\<lambda>_.
     bindR (assertSessionList limit cursor) (\<lambda>_.
     let owner = (principalId actor = ''owner:'' @ accountId actor);
         grantId = (if startsWith ''bot:'' (principalId actor) then drop 4 (principalId actor) else '''');
         rows = take (nat (limit + 1)) (sort_by (\<lambda>a b. bytes_le (sw_id a) (sw_id b))
           (filter (\<lambda>row. sw_accountId row = accountId actor \<and> (owner \<or> sw_grantId row = grantId) \<and>
              (case cursor of None \<Rightarrow> True | Some c \<Rightarrow> \<not> bytes_le (sw_id row) c)) (db_sessions D))) in
     bindR (mapR (\<lambda>row. cloneStored H (sw_document row)) (take (nat limit) rows)) (\<lambda>items.
     Inr (items, if length rows > nat limit \<and> items \<noteq> [] then Some (se_id (last items)) else None))))"

text \<open>The comparison \<^verbatim>\<open>a.kind.localeCompare(b.kind) || a.address.localeCompare(b.address)\<close>.\<close>

definition coordinateLe :: "host \<Rightarrow> string \<times> string \<Rightarrow> string \<times> string \<Rightarrow> bool" where
  "coordinateLe H a b \<longleftrightarrow>
     (if ho_localeLe H (fst a) (fst b) \<and> ho_localeLe H (fst b) (fst a) then ho_localeLe H (snd a) (snd b) else ho_localeLe H (fst a) (fst b))"

definition reservedCoordinates :: "host \<Rightarrow> StoredSession \<Rightarrow> (string \<times> string) list" where
  "reservedCoordinates H r = sort_by (coordinateLe H) ((''key'', toLowerCase (cs_sessionKey (se_compiled r))) #
     map (\<lambda>a. (''asset'', toLowerCase (al_asset a))) (localSessionAllocations r))"

text \<open>\<^verbatim>\<open>INSERT ... ON CONFLICT(session_id,kind,coordinate) DO NOTHING\<close>.\<close>

definition insertReservation :: "StoredSession \<Rightarrow> string \<times> string \<Rightarrow> ReservationRow list \<Rightarrow> ReservationRow list" where
  "insertReservation r place rows =
     (if list_ex (\<lambda>row. rw_sessionId row = se_id r \<and> rw_kind row = fst place \<and> rw_coordinate row = snd place) rows then rows
      else rows @ [\<lparr>rw_sessionId = se_id r, rw_chainId = cs_chainId (se_compiled r), rw_walletAddress = toLowerCase (cs_wallet (se_compiled r)),
        rw_kind = fst place, rw_coordinate = snd place, rw_validAfter = cs_validAfter (se_compiled r),
        rw_validUntil = cs_validUntil (se_compiled r), rw_releasedAt = None\<rparr>])"

definition reserveAuthority :: "host \<Rightarrow> StoredSession \<Rightarrow> Database \<Rightarrow> Database res" where
  "reserveAuthority H r D =
     bindR (ensure (\<not> list_ex (\<lambda>row. rw_chainId row = cs_chainId (se_compiled r) \<and> rw_walletAddress row = toLowerCase (cs_wallet (se_compiled r)) \<and>
         rw_releasedAt row = None \<and> rw_sessionId row \<noteq> se_id r) (db_sessionReservations D))
       (failure_pg ''SESSION_ALLOCATION_CONFLICT'' ''Another session still reserves this wallet pending finalized onchain retirement.'' 409)) (\<lambda>_.
     Inr (D\<lparr>db_sessionReservations := fold (insertReservation r) (reservedCoordinates H r) (db_sessionReservations D)\<rparr>))"

text \<open>The guard of a replaced approval: the prior plan expired without ever being executed. Returns the time it was read at.\<close>

definition supersededPlan_pg :: "StoredSession \<Rightarrow> SessionOwnerApproval \<Rightarrow> int \<Rightarrow> Database \<Rightarrow> int res" where
  "supersededPlan_pg current prior now D =
     (case List.find (\<lambda>row. pw_id row = ap_planId prior \<and> pw_accountId row = cs_ownerAccountId (se_compiled current)) (db_plans D) of
        None \<Rightarrow> Inl (failure_pg ''SESSION_PLAN_NOT_SUPERSEDABLE'' ''The prior exact lifecycle plan is missing.'' 409)
      | Some row \<Rightarrow>
          bindR (ensure (\<not> list_ex (\<lambda>t. tw_planId t = ap_planId prior) (db_transports D))
            (failure_pg ''SESSION_PLAN_NOT_SUPERSEDABLE'' ''The prior plan already has a permanent execution transport reservation.'' 409)) (\<lambda>_.
          bindR (assertSessionPlanSupersedable current prior (pw_document row) now) (\<lambda>_. Inr now)))"

definition claimSession_pg ::
  "host \<Rightarrow> (nat \<Rightarrow> guard) \<Rightarrow> (nat \<Rightarrow> int) \<Rightarrow> SessionClaim \<Rightarrow> LifecycleKind \<Rightarrow> Database \<Rightarrow> (StoredSession \<times> bool) res \<times> Database" where
  "claimSession_pg H active clock input kind D =
     attempt (cloneSession H json_of_SessionClaim input) D (\<lambda>claim.
     attempt (assertActor (sk_actor claim)) D (\<lambda>_.
     attempt (assertSessionIdempotency (sk_idempotency claim)) D (\<lambda>_.
     let operation = (case kind of Activation \<Rightarrow> ''activate'' | Revocation \<Rightarrow> ''revoke'') in
     transactSession (\<lambda>D.
       bindR (active 0 (sk_actor claim) [Plan] (sk_now claim div 1000)) (\<lambda>_.
       bindR (selectSession H (sk_actor claim) (sk_id claim) D) (\<lambda>snapshot.
       bindR (selectSession H (sk_actor claim) (sk_id claim) D) (\<lambda>current.
       let existing = idem_pg (sk_actor claim) (si_key (sk_idempotency claim)) D in
       bindR (assertIdempotencyMatch existing (sk_idempotency claim) operation (Some (se_id current))) (\<lambda>_.
       if existing \<noteq> None then Inr ((current, False), D)
       else
         bindR (if kind = Activation then assertBinding_pg current D else Inr ()) (\<lambda>_.
         let grant = grantFor current D; prior = priorApproval kind current;
             replacement = (case prior of None \<Rightarrow> False | Some p \<Rightarrow> ap_planId p \<noteq> ap_planId (sk_approval claim)) in
         bindR (if kind = Activation then assertSessionGrant current grant (clock 0 div 1000) else Inr ()) (\<lambda>_.
         bindR (if replacement then supersededPlan_pg current (the prior) (clock 1) D else Inr (clock 0)) (\<lambda>now.
         bindR (applySessionClaim H current claim kind now replacement) (\<lambda>(initial, claimed).
         bindR (if claimed \<and> kind = Activation then reserveAuthority H current D else Inr D) (\<lambda>D1.
         bindR (reserveIdempotency_pg (sk_actor claim) (sk_idempotency claim) operation (se_id current) D1) (\<lambda>D2.
         bindR (active 1 (sk_actor claim) [Plan] (sk_now claim div 1000)) (\<lambda>_.
         bindR (if kind = Activation then assertSessionGrant current grant (clock 2 div 1000) else Inr ()) (\<lambda>_.
         bindR (applySessionClaim H current claim kind (clock 2) replacement) (\<lambda>(record, claimed).
         if claimed then bindR (saveSession H record D2) (\<lambda>(saved, D3). Inr ((saved, True), D3))
         else Inr ((record, False), D2))))))))))))))) D)))"

definition claimActivation_pg ::
  "host \<Rightarrow> (nat \<Rightarrow> guard) \<Rightarrow> (nat \<Rightarrow> int) \<Rightarrow> SessionClaim \<Rightarrow> Database \<Rightarrow> (StoredSession \<times> bool) res \<times> Database" where
  "claimActivation_pg H active clock claim D = claimSession_pg H active clock claim Activation D"

definition claimRevocation_pg ::
  "host \<Rightarrow> (nat \<Rightarrow> guard) \<Rightarrow> (nat \<Rightarrow> int) \<Rightarrow> SessionClaim \<Rightarrow> Database \<Rightarrow> (StoredSession \<times> bool) res \<times> Database" where
  "claimRevocation_pg H active clock claim D = claimSession_pg H active clock claim Revocation D"

text \<open>\<^verbatim>\<open>try { ... } catch\<close>: a \<open>RestError\<close> makes the authority inactive, anything else is thrown on.\<close>

definition holdsOr :: "unit res \<Rightarrow> bool res" where
  "holdsOr r = (case r of Inr u \<Rightarrow> Inr True | Inl e \<Rightarrow> (case e of RestError a b c d \<Rightarrow> Inr False | _ \<Rightarrow> Inl e))"

definition releaseReservations :: "string \<Rightarrow> int \<Rightarrow> ReservationRow list \<Rightarrow> ReservationRow list" where
  "releaseReservations i now rows =
     map (\<lambda>row. if rw_sessionId row = i \<and> rw_releasedAt row = None then row\<lparr>rw_releasedAt := Some now\<rparr> else row) rows"

definition observeSession_pg ::
  "host \<Rightarrow> int \<Rightarrow> SessionObservationUpdate \<Rightarrow> Database \<Rightarrow> (StoredSession \<times> bool) res \<times> Database" where
  "observeSession_pg H now input D =
     attempt (cloneSession H json_of_ObservationUpdate input) D (\<lambda>update.
     transactSession (\<lambda>D.
       bindR (lockAccount (su_actor update) D) (\<lambda>_.
       bindR (selectSession H (su_actor update) (su_id update) D) (\<lambda>snapshot.
       bindR (selectSession H (su_actor update) (su_id update) D) (\<lambda>current.
       bindR (holdsOr (assertBinding_pg current D)) (\<lambda>bound.
       bindR (holdsOr (assertSessionGrant current (grantFor current D) (now div 1000))) (\<lambda>granted.
       bindR (applySessionObservation H current update (bound \<and> granted) now) (\<lambda>(record, applied).
       if applied then
         bindR (if enabledNow record \<and> \<not> se_reservationsReleased record then reserveAuthority H record D else Inr D) (\<lambda>D1.
         let D2 = (if \<not> se_reservationsReleased current \<and> se_reservationsReleased record
               then D1\<lparr>db_sessionReservations := releaseReservations (se_id current) now (db_sessionReservations D1)\<rparr> else D1) in
         bindR (saveSession H record D2) (\<lambda>(saved, D3). Inr ((saved, True), D3)))
       else Inr ((record, False), D)))))))) D)"

definition markStale_pg ::
  "host \<Rightarrow> int \<Rightarrow> SessionInvalidationUpdate \<Rightarrow> Database \<Rightarrow> (StoredSession \<times> bool) res \<times> Database" where
  "markStale_pg H now input D =
     attempt (cloneSession H json_of_InvalidationUpdate input) D (\<lambda>update.
     transactSession (\<lambda>D.
       bindR (lockAccount (sv_actor update) D) (\<lambda>_.
       bindR (selectSession H (sv_actor update) (sv_id update) D) (\<lambda>snapshot.
       bindR (selectSession H (sv_actor update) (sv_id update) D) (\<lambda>current.
       bindR (applySessionInvalidation H current update now) (\<lambda>(record, applied).
       if applied then bindR (saveSession H record D) (\<lambda>(saved, D1). Inr ((saved, True), D1))
       else Inr ((record, False), D)))))) D)"

definition quota_pg :: "host \<Rightarrow> RestActor \<Rightarrow> string \<Rightarrow> Database \<Rightarrow> SessionQuota res" where
  "quota_pg H actor i D =
     bindR (getSession_pg H actor i D) (\<lambda>found.
     case found of None \<Rightarrow> Inl missingSession_pg | Some r \<Rightarrow> sessionQuota H r)"

end
