(* ===== verification/PgUserOperations.thy ===== *)
theory PgUserOperations
  imports PgSessions
begin

text \<open>
  The PostgreSQL user operation store (\<^verbatim>\<open>src/src/rest/userOperations/postgres.ts\<close>) over the tables of \<open>PgTables\<close>. \<open>clock n\<close> is the
  \<open>n\<close>-th answer of the database clock in an operation, \<open>checks\<close> those within \<^verbatim>\<open>currentAuthority\<close>, and \<open>active n\<close> the \<open>n\<close>-th answer of
  \<^verbatim>\<open>assertRestActorActive\<close>.
\<close>

section \<open>PostgresUserOperationStore\<close>

definition operationRow :: "string \<Rightarrow> Database \<Rightarrow> OperationRow option" where
  "operationRow i D = List.find (\<lambda>row. ow_id row = i) (db_operations D)"

definition required_pg :: "string \<Rightarrow> Database \<Rightarrow> UserOperationRecord res" where
  "required_pg i D =
     bindR (assertText i) (\<lambda>_.
     case operationRow i D of None \<Rightarrow> Inl missing_uo | Some row \<Rightarrow> cloneRecord_uo (ow_document row))"

definition sameSubmission :: "OperationRow \<Rightarrow> OperationRow \<Rightarrow> bool" where
  "sameSubmission a b \<longleftrightarrow> ow_accountId a = ow_accountId b \<and> ow_principalId a = ow_principalId b \<and>
     ow_submissionKey a \<noteq> None \<and> ow_submissionKey a = ow_submissionKey b"

definition save_pg :: "UserOperationRecord \<Rightarrow> Database \<Rightarrow> (UserOperationRecord \<times> Database) res" where
  "save_pg r D =
     bindR (cloneRecord_uo r) (\<lambda>copy.
     let update = (\<lambda>row. if ow_id row = ur_id copy
           then row\<lparr>ow_document := copy, ow_submissionKey := map_option um_key (ur_submission copy)\<rparr> else row);
         rows = map update (db_operations D) in
     bindR (ensure (\<not> list_ex (\<lambda>a. list_ex (\<lambda>b. ow_id a \<noteq> ow_id b \<and> sameSubmission a b) rows) rows) uniqueViolation) (\<lambda>_.
     Inr (copy, D\<lparr>db_operations := rows\<rparr>)))"

definition currentAuthority :: "host \<Rightarrow> (nat \<Rightarrow> int) \<Rightarrow> UserOperationRecord \<Rightarrow> int \<Rightarrow> Database \<Rightarrow> unit res" where
  "currentAuthority H clock r now D =
     bindR (ensure (\<not> (case List.find (\<lambda>row. bw_accountId row = accountId (ur_actor r) \<and> bw_id row = ur_accountBindingId r \<and>
            bw_revokedAt row = None) (db_bindings D) of
          None \<Rightarrow> True
        | Some row \<Rightarrow> let current = bw_document row in
            sb_chainId current \<noteq> ur_chainId r \<or> \<not> same (sb_address current) (ur_sender r) \<or>
            \<not> same (sb_stateHash current) (ur_accountStateHash r) \<or> \<not> sb_moduleConfigurationVerified current))
       (fail_uo ''USER_OPERATION_BINDING_STALE'' ''The current verified smart account binding changed or was revoked.'' 403)) (\<lambda>_.
     bindR (case ur_session r of None \<Rightarrow> Inr ()
       | Some session \<Rightarrow> assertUserOperationSession_pg H (ur_actor r) session (ur_accountBindingId r) (ur_chainId r) (ur_sender r)
           (now div 1000) (clock 0) D) (\<lambda>_.
     case List.find (\<lambda>row. pw_id row = ur_planId r \<and> pw_accountId row = accountId (ur_actor r) \<and>
         pw_principalId row = principalId (ur_actor r)) (db_plans D) of
       None \<Rightarrow> Inl missing_uo
     | Some row \<Rightarrow>
         bindR (assertPlan_uo r (pw_document row) (clock 1)) (\<lambda>_.
         assertUserOperationLifecyclePlan_pg H (ur_actor r) (pw_document row) (clock 2 div 1000) (clock 3) D)))"

definition find_pg :: "RestActor \<Rightarrow> string \<Rightarrow> string \<Rightarrow> Database \<Rightarrow> UserOperationRecord option res" where
  "find_pg actor preparation inputHash D =
     bindR (assertActor actor) (\<lambda>_.
     bindR (key_uo preparation) (\<lambda>_.
     case List.find (\<lambda>row. ow_accountId row = accountId actor \<and> ow_principalId row = principalId actor \<and>
         ow_preparationKey row = preparation) (db_operations D) of
       None \<Rightarrow> Inr None
     | Some row \<Rightarrow>
         bindR (ensure (same (ur_inputHash (ow_document row)) inputHash) conflict_uo) (\<lambda>_.
         bindR (cloneRecord_uo (ow_document row)) (\<lambda>c. Inr (Some c)))))"

definition create_pg ::
  "viem \<Rightarrow> host \<Rightarrow> guard \<Rightarrow> (nat \<Rightarrow> int) \<Rightarrow> (nat \<Rightarrow> int) \<Rightarrow> UserOperationRecord \<Rightarrow> int \<Rightarrow> Database \<Rightarrow> UserOperationRecord res \<times> Database" where
  "create_pg V H active clock checks input now D =
     attempt (assertNew_uo input now (defaultCodec V)) D (\<lambda>_.
     attempt (cloneRecord_uo input) D (\<lambda>r.
     transact (\<lambda>D.
       case List.find (\<lambda>row. ow_accountId row = accountId (ur_actor r) \<and> ow_principalId row = principalId (ur_actor r) \<and>
           ow_preparationKey row = ur_preparationKey r) (db_operations D) of
         Some row \<Rightarrow>
           bindR (ensure (same (ur_inputHash (ow_document row)) (ur_inputHash r)) conflict_uo) (\<lambda>_.
           bindR (active (ur_actor r) [Plan] (now div 1000)) (\<lambda>_.
           bindR (cloneRecord_uo (ow_document row)) (\<lambda>c. Inr (c, D))))
       | None \<Rightarrow>
           bindR (assertNew_uo r (clock 0) (defaultCodec V)) (\<lambda>_.
           bindR (currentAuthority H checks r (clock 0) D) (\<lambda>_.
           bindR (ensure (\<not> length (filter (\<lambda>row. ow_accountId row = accountId (ur_actor r)) (db_operations D)) \<ge> recordsPerAccount_uo)
             (fail_uo ''USER_OPERATION_STORAGE_LIMIT'' ''Account UserOperation record capacity reached.'' 429)) (\<lambda>_.
           bindR (assertNew_uo r (clock 1) (defaultCodec V)) (\<lambda>_.
           bindR (ensure (operationRow (ur_id r) D = None) uniqueViolation) (\<lambda>_.
           bindR (active (ur_actor r) [Plan] (now div 1000)) (\<lambda>_.
           bindR (cloneRecord_uo r) (\<lambda>c.
           Inr (c, D\<lparr>db_operations := db_operations D @ [\<lparr>ow_id = ur_id r, ow_accountId = accountId (ur_actor r),
              ow_principalId = principalId (ur_actor r), ow_preparationKey = ur_preparationKey r, ow_submissionKey = None,
              ow_createdAt = ur_createdAt r, ow_document = r\<rparr>]\<rparr>)))))))))
       D))"

definition get_pg :: "RestActor \<Rightarrow> string \<Rightarrow> Database \<Rightarrow> UserOperationRecord option res" where
  "get_pg actor i D =
     bindR (assertActor actor) (\<lambda>_.
     bindR (assertText i) (\<lambda>_.
     case List.find (\<lambda>row. ow_id row = i \<and> ow_accountId row = accountId actor \<and>
         (ow_principalId row = principalId actor \<or> principalId actor = ''owner:'' @ accountId actor)) (db_operations D) of
       None \<Rightarrow> Inr None
     | Some row \<Rightarrow> bindR (cloneRecord_uo (ow_document row)) (\<lambda>c. Inr (Some c))))"

definition nonceText :: "UserOperationRecord \<Rightarrow> string" where
  "nonceText r = intText (hexInt (uo_nonce (ur_operation r)))"

definition nonceRow :: "UserOperationRecord \<Rightarrow> Database \<Rightarrow> NonceRow option" where
  "nonceRow r D = List.find (\<lambda>row. nw_chainId row = ur_chainId r \<and> nw_sender row = toLowerCase (ur_sender r) \<and>
     nw_nonce row = nonceText r) (db_operationNonces D)"

text \<open>\<^verbatim>\<open>INSERT ... ON CONFLICT(chain_id,sender,nonce) DO NOTHING\<close>.\<close>

definition insertNonce :: "UserOperationRecord \<Rightarrow> string \<Rightarrow> Database \<Rightarrow> Database" where
  "insertNonce r commitment D =
     (if nonceRow r D \<noteq> None then D
      else D\<lparr>db_operationNonces := db_operationNonces D @ [\<lparr>nw_chainId = ur_chainId r, nw_sender = toLowerCase (ur_sender r),
         nw_nonce = nonceText r, nw_entryPoint = toLowerCase (ur_entryPoint r), nw_operationHash = toLowerCase (ur_operationHash r),
         nw_signedCommitment = toLowerCase commitment, nw_operationId = ur_id r\<rparr>]\<rparr>)"

definition nonceHeld :: "UserOperationRecord \<Rightarrow> string \<Rightarrow> Database \<Rightarrow> unit res" where
  "nonceHeld r commitment D =
     ensure (\<not> (case nonceRow r D of None \<Rightarrow> True
        | Some row \<Rightarrow> nw_operationId row \<noteq> ur_id r \<or> \<not> same (nw_signedCommitment row) commitment \<or>
            \<not> same (nw_operationHash row) (ur_operationHash r) \<or> \<not> same (nw_entryPoint row) (ur_entryPoint r)))
       (fail_uo ''USER_OPERATION_NONCE_CONFLICT'' ''The full sender nonce is permanently reserved by another UserOperation.'' 409)"

text \<open>The transport is claimed on the table of the open transaction.\<close>

definition claimTransport_pg :: "UserOperationRecord \<Rightarrow> Database \<Rightarrow> Database res" where
  "claimTransport_pg r D =
     (case claimPostgresTransport (ur_planId r) (ur_stepIndexes r) Erc4337 (ur_id r) (db_transports D) of
        (Inl e, T) \<Rightarrow> Inl e | (Inr _, T) \<Rightarrow> Inr (D\<lparr>db_transports := T\<rparr>))"

definition claim_pg ::
  "viem \<Rightarrow> host \<Rightarrow> (nat \<Rightarrow> guard) \<Rightarrow> (nat \<Rightarrow> int) \<Rightarrow> (nat \<Rightarrow> nat \<Rightarrow> int) \<Rightarrow> UserOperationClaim \<Rightarrow> Database \<Rightarrow>
     (UserOperationRecord \<times> bool) res \<times> Database" where
  "claim_pg V H active clock checks input D =
     attempt (assertClaim_uo input) D (\<lambda>_.
     attempt (clone_uo json_of_UserOperationClaim input) D (\<lambda>input.
     transact (\<lambda>D.
       bindR (active 0 (uc_actor input) [Relay] (uc_now input div 1000)) (\<lambda>_.
       bindR (required_pg (uc_id input) D) (\<lambda>r.
       bindR (ensure (\<not> list_ex (\<lambda>row. ow_accountId row = accountId (uc_actor input) \<and> ow_principalId row = principalId (uc_actor input) \<and>
            ow_submissionKey row = Some (uc_key input) \<and> ow_id row \<noteq> uc_id input) (db_operations D)) conflict_uo) (\<lambda>_.
       let input = input\<lparr>uc_now := clock 0\<rparr> in
       bindR (claimed_uo r input (defaultCodec V)) (\<lambda>(initial, dispatch).
       if \<not> dispatch then Inr ((initial, False), D)
       else
         bindR (dispatchRecord r input) (\<lambda>fresh.
         bindR (currentAuthority H (checks 0) fresh (uc_now input) D) (\<lambda>_.
         bindR (claimTransport_pg r D) (\<lambda>D1.
         let D2 = insertNonce r (uc_signedCommitment input) D1 in
         bindR (nonceHeld r (uc_signedCommitment input) D2) (\<lambda>_.
         bindR (active 1 (uc_actor input) [Relay] (uc_now input div 1000)) (\<lambda>_.
         bindR (currentAuthority H (checks 1) fresh (clock 1) D2) (\<lambda>_.
         bindR (claimed_uo r (input\<lparr>uc_now := clock 2\<rparr>) (defaultCodec V)) (\<lambda>(result, dispatch).
         bindR (save_pg result D2) (\<lambda>(saved, D3).
         Inr ((saved, dispatch), D3)))))))))))))) D))"

definition settle_pg :: "string \<Rightarrow> string \<Rightarrow> UserOperationState \<Rightarrow> Database \<Rightarrow> UserOperationRecord res \<times> Database" where
  "settle_pg i commitment state D =
     transact (\<lambda>D. bindR (required_pg i D) (\<lambda>r. bindR (settled_uo r commitment state) (\<lambda>r'. save_pg r' D))) D"

definition observe_pg :: "string \<Rightarrow> int \<Rightarrow> UserOperationObservation \<Rightarrow> Database \<Rightarrow> UserOperationRecord res \<times> Database" where
  "observe_pg i revision observation D =
     attempt (clone_uo json_of_Observation observation) D (\<lambda>observation.
     transact (\<lambda>D.
       bindR (required_pg i D) (\<lambda>r.
       bindR (observed_uo r revision observation) (\<lambda>next1.
       let D1 = (if ur_state next1 = UExpired
             then D\<lparr>db_operationNonces := filter (\<lambda>row. nw_operationId row \<noteq> ur_id next1) (db_operationNonces D)\<rparr> else D) in
       save_pg next1 D1))) D)"

definition recoverable_pg :: "int \<Rightarrow> string option \<Rightarrow> Database \<Rightarrow> UserOperationRecord list res" where
  "recoverable_pg limit cursor D =
     bindR (assertLimit_uo limit) (\<lambda>_.
     bindR (readCursor cursor) (\<lambda>after.
     mapR (\<lambda>row. cloneRecord_uo (ow_document row)) (take (nat limit)
       (sort_by (\<lambda>a b. ow_createdAt a < ow_createdAt b \<or> ow_createdAt a = ow_createdAt b \<and> bytes_le (ow_id a) (ow_id b))
         (filter (\<lambda>row. isRecoverable_uo (ow_document row) \<and>
            (case after of None \<Rightarrow> True | Some c \<Rightarrow> ow_createdAt row > cu_createdAt c \<or>
               ow_createdAt row = cu_createdAt c \<and> \<not> bytes_le (ow_id row) (cu_id c))) (db_operations D))))))"

end
