(* ===== verification/SessionInvariants.thy ===== *)
theory SessionInvariants
  imports SessionMemory Revisioned
begin

text \<open>
  What every run of the session store keeps: a session only moves along claims, observations and
  invalidations, each with a higher revision; stored sessions are well-formed; no two sessions of one wallet
  reserve it, and none share a permission, salt, nonce or key generation.
\<close>

section \<open>How a session changes\<close>

lemma cloneSession_Inr [res_simps]:
  "cloneSession H j v = Inr w \<longleftrightarrow> w = v \<and> (\<exists>t. stable (ho_localeLe H) (j v) = Inr t \<and> length t \<le> maximumBytes_se)"
  by (auto simp: cloneSession_def split: sum.splits)

lemma claimed_se_cases:
  assumes "applySessionClaim H r claim kind now allow = Inr (r', claimed)"
  obtains (again) "\<not> claimed" "r' = r"
  | (fresh) "claimed" "r' = approvedRecord r kind (sk_approval claim) now" "approvalOk r kind (sk_approval claim)"
      "se_revision r = sk_expectedRevision claim" "canReadSession r (sk_actor claim)"
      "kind = Activation \<Longrightarrow> \<not> se_reservationsReleased r \<and> se_revocation r = None \<and> now div 1000 < cs_validUntil (se_compiled r)"
proof (cases "case priorApproval kind r of None \<Rightarrow> False
      | Some prior \<Rightarrow> ap_planId prior = ap_planId (sk_approval claim) \<and> same (ap_planCommitment prior) (ap_planCommitment (sk_approval claim))")
  case True
  with assms show ?thesis by (intro again) (auto simp: applySessionClaim_def Let_def bindR_eq_Inr cloneSession_Inr)
next
  case False
  with assms show ?thesis
    by (intro fresh) (auto simp: applySessionClaim_def Let_def bindR_eq_Inr ensure_eq_Inr cloneSession_Inr assertSessionActor_def)
qed

lemma observed_se_cases:
  assumes "applySessionObservation H r update grantActive now = Inr (r', applied)"
  obtains (stale) "\<not> applied" "r' = r"
  | (fresh) "applied" "r' = observedRecord r (su_observation update) grantActive now" "assertObservation H r (su_observation update) now = Inr ()"
      "se_revision r = su_expectedRevision update" "canReadSession r (su_actor update)"
      "\<not> (se_reservationsReleased r \<and> in_enabled (so_installed (su_observation update)) \<and> \<not> expired (se_compiled r) (so_installed (su_observation update)))"
proof (cases "se_revision r \<noteq> su_expectedRevision update \<or> map_option so_proofHash (se_observation r) \<noteq> su_expectedObservationHash update")
  case True
  with assms show ?thesis by (intro stale) (auto simp: applySessionObservation_def bindR_eq_Inr cloneSession_Inr)
next
  case False
  with assms show ?thesis
    by (intro fresh) (auto simp: applySessionObservation_def Let_def bindR_eq_Inr ensure_eq_Inr cloneSession_Inr assertSessionActor_def)
qed

definition invalidatedRecord :: "StoredSession \<Rightarrow> InvalidationReason \<Rightarrow> int \<Rightarrow> StoredSession" where
  "invalidatedRecord r reason now =
     r\<lparr>se_invalidation := Some (if poisoned r then the (se_invalidation r)
          else \<lparr>iv_reason = reason, iv_priorProofHash = map_option so_proofHash (se_observation r), iv_observedAt = now\<rparr>),
       se_state := SsStale, se_revision := se_revision r + 1, se_updatedAt := now\<rparr>"

lemma invalidated_se_cases:
  assumes "applySessionInvalidation H r update now = Inr (r', applied)"
  obtains (stale) "\<not> applied" "r' = r" | (fresh) "applied" "r' = invalidatedRecord r (sv_reason update) now"
proof (cases "se_revision r \<noteq> sv_expectedRevision update")
  case True
  with assms show ?thesis by (intro stale) (auto simp: applySessionInvalidation_def bindR_eq_Inr cloneSession_Inr)
next
  case False
  with assms show ?thesis
    by (intro fresh) (auto simp: applySessionInvalidation_def bindR_eq_Inr ensure_eq_Inr cloneSession_Inr invalidatedRecord_def split: if_splits)
qed

inductive se_change :: "host \<Rightarrow> StoredSession \<Rightarrow> StoredSession \<Rightarrow> bool" for H where
  Claimed: "applySessionClaim H r claim kind now allow = Inr (r', claimed) \<Longrightarrow> se_change H r r'"
| Observed: "applySessionObservation H r update grantActive now = Inr (r', applied) \<Longrightarrow> se_change H r r'"
| Invalidated: "applySessionInvalidation H r invalidation now = Inr (r', applied) \<Longrightarrow> se_change H r r'"

text \<open>What the owner reviewed when the session was prepared.\<close>

definition se_identity :: "StoredSession \<Rightarrow> StoredSession" where
  "se_identity r = r\<lparr>se_updatedAt := 0, se_revision := 0, se_state := SsPrepared, se_activation := None, se_revocation := None,
     se_supersededApprovals := None, se_observation := None, se_invalidation := None, se_reservationsReleased := False\<rparr>"

lemma se_identityD: "se_identity r' = se_identity r \<Longrightarrow> se_id r' = se_id r \<and> se_actor r' = se_actor r \<and> se_compiled r' = se_compiled r \<and>
    se_preparedAdministration r' = se_preparedAdministration r \<and> se_allocationGroups r' = se_allocationGroups r \<and>
    se_allocationManifestHash r' = se_allocationManifestHash r \<and> se_createdAt r' = se_createdAt r"
  by (cases r; cases r') (simp add: se_identity_def)

lemma approvedRecord_fields [simp]:
  "se_identity (approvedRecord r kind a now) = se_identity r" "se_revision (approvedRecord r kind a now) = se_revision r + 1"
  "se_observation (approvedRecord r kind a now) = se_observation r" "se_reservationsReleased (approvedRecord r kind a now) = se_reservationsReleased r"
  "priorApproval k (approvedRecord r kind a now) = (if k = kind then Some a else priorApproval k r)"
  "se_state (approvedRecord r kind a now) = (case kind of Activation \<Rightarrow> SsInstalling | Revocation \<Rightarrow> SsRevoking)"
  by (auto simp: approvedRecord_def se_identity_def Let_def priorApproval_def split: option.split LifecycleKind.split)

lemma priorApproval_simps [simp]: "priorApproval Activation r = se_activation r" "priorApproval Revocation r = se_revocation r"
  by (simp_all add: priorApproval_def)

lemma observedRecord_fields [simp]:
  "se_identity (observedRecord r b g now) = se_identity r" "se_revision (observedRecord r b g now) = se_revision r + 1"
  "se_observation (observedRecord r b g now) = Some b" "se_activation (observedRecord r b g now) = se_activation r"
  "se_revocation (observedRecord r b g now) = se_revocation r"
  "se_reservationsReleased (observedRecord r b g now) \<longleftrightarrow> se_reservationsReleased r \<or> so_finalized b \<and> retired (se_compiled r) (so_installed b)"
  by (auto simp: observedRecord_def se_identity_def Let_def split: option.split)

lemma invalidatedRecord_fields [simp]:
  "se_identity (invalidatedRecord r reason now) = se_identity r" "se_revision (invalidatedRecord r reason now) = se_revision r + 1"
  "se_observation (invalidatedRecord r reason now) = se_observation r" "se_activation (invalidatedRecord r reason now) = se_activation r"
  "se_revocation (invalidatedRecord r reason now) = se_revocation r" "se_state (invalidatedRecord r reason now) = SsStale"
  "se_reservationsReleased (invalidatedRecord r reason now) = se_reservationsReleased r"
  by (simp_all add: invalidatedRecord_def se_identity_def)

lemma se_change_cases:
  assumes "se_change H r r'"
  obtains (kept) "r' = r"
  | (approved) kind a now where "r' = approvedRecord r kind a now" "approvalOk r kind a"
      "kind = Activation \<Longrightarrow> \<not> se_reservationsReleased r \<and> se_revocation r = None"
  | (observed) b g now where "r' = observedRecord r b g now" "assertObservation H r b now = Inr ()"
      "\<not> (se_reservationsReleased r \<and> in_enabled (so_installed b) \<and> \<not> expired (se_compiled r) (so_installed b))"
  | (invalidated) reason now where "r' = invalidatedRecord r reason now"
  using assms
proof (cases rule: se_change.cases)
  case (Claimed claim kind now allow claimed)
  then show ?thesis by (cases rule: claimed_se_cases) (use kept approved in blast)+
next
  case (Observed update g now applied)
  then show ?thesis by (cases rule: observed_se_cases) (use kept observed in blast)+
next
  case (Invalidated update now applied)
  then show ?thesis by (cases rule: invalidated_se_cases) (use kept invalidated in blast)+
qed

lemma se_change_revision: "se_change H r r' \<Longrightarrow> se_identity r' = se_identity r \<and> (r' = r \<or> se_revision r' = se_revision r + 1)"
  by (erule se_change_cases) simp_all

interpretation se_history: revisioned se_revision se_identity "\<lambda>_. True" "se_change H" for H
  by unfold_locales (auto dest: se_change_revision)

lemma se_change_keeps:
  assumes "se_change H r r'"
  shows "se_revocation r \<noteq> None \<Longrightarrow> se_revocation r' \<noteq> None" and "se_activation r \<noteq> None \<Longrightarrow> se_activation r' \<noteq> None"
    and "se_reservationsReleased r \<Longrightarrow> se_reservationsReleased r'"
proof -
  have p: "se_revocation (approvedRecord r kind a now) = (if kind = Revocation then Some a else se_revocation r)"
    "se_activation (approvedRecord r kind a now) = (if kind = Activation then Some a else se_activation r)" for kind a now
    by (auto simp: approvedRecord_def Let_def split: option.split LifecycleKind.split)
  from assms show "se_revocation r \<noteq> None \<Longrightarrow> se_revocation r' \<noteq> None" by (cases rule: se_change_cases) (simp_all add: p)
  from assms show "se_activation r \<noteq> None \<Longrightarrow> se_activation r' \<noteq> None" by (cases rule: se_change_cases) (simp_all add: p)
  from assms show "se_reservationsReleased r \<Longrightarrow> se_reservationsReleased r'" by (cases rule: se_change_cases) simp_all
qed

lemma se_history_keeps:
  assumes "(se_change H)\<^sup>*\<^sup>* r r'"
  shows "se_revocation r \<noteq> None \<Longrightarrow> se_revocation r' \<noteq> None" and "se_reservationsReleased r \<Longrightarrow> se_reservationsReleased r'"
  using assms by (induction rule: rtranclp_induct) (blast dest: se_change_keeps)+

section \<open>Well-formed sessions\<close>

text \<open>An observation that binds the session: its wallet, policy and permission, with counters within their limits.\<close>

definition observationBinds :: "CompiledSession \<Rightarrow> SessionCanonicalObservation \<Rightarrow> bool" where
  "observationBinds c b \<longleftrightarrow>
     (let o1 = so_installed b in
      in_chainId o1 = cs_chainId c \<and> same (in_account o1) (cs_wallet c) \<and> same (in_compiledHash o1) (cs_compiledHash c) \<and>
      same (in_permissionId o1) (cs_permissionId c) \<and> distinct (map counterKey (in_counters o1)) \<and>
      (\<forall>n \<in> set (in_counters o1). 0 \<le> bigInt (ct_used n) \<and> bigInt (ct_used n) \<le> bigInt (ct_limit n)))"

text \<open>What makes a session executable.\<close>

definition executable :: "StoredSession \<Rightarrow> bool" where
  "executable r \<longleftrightarrow> se_activation r \<noteq> None \<and> se_revocation r = None \<and> enabledNow r \<and> \<not> se_reservationsReleased r \<and> se_invalidation r = None"

definition sessionWf :: "StoredSession \<Rightarrow> bool" where
  "sessionWf r \<longleftrightarrow>
     uuid_se (se_id r) \<and> compiledOk (se_compiled r) \<and>
     (\<forall>kind a. priorApproval kind r = Some a \<longrightarrow> approvalOk r kind a) \<and>
     (\<forall>b. se_observation r = Some b \<longrightarrow> observationBinds (se_compiled r) b) \<and>
     (se_state r = SsActive \<longrightarrow> executable r)"

lemma integer_nonneg: "integer_se s p \<Longrightarrow> 0 \<le> bigInt s"
  by (simp add: integer_se_def isDecimal_def bigInt_nonneg)

lemma assertCounters_Inr:
  assumes "assertCounters counters = Inr seen"
  shows "distinct (map counterKey counters) \<and> (\<forall>n \<in> set counters. counterOk n)"
proof -
  have "distinct (map counterKey counters) \<and> (\<forall>n \<in> set counters. counterOk n) \<and> set (map counterKey counters) \<inter> set seen0 = {}"
    if "foldR (\<lambda>counter seen.
       bindR (ensure (counterOk counter) (invalid_se ''Invalid exact onchain policy counter observation.'')) (\<lambda>_.
       bindR (ensure (counterKey counter \<notin> set seen) (invalid_se ''Duplicate onchain policy counter.'')) (\<lambda>_.
       Inr (counterKey counter # seen)))) counters seen0 = Inr seen" for seen0
    using that
  proof (induction counters arbitrary: seen0)
    case (Cons c cs)
    from Cons(2) have c: "counterOk c" "counterKey c \<notin> set seen0" and r: "foldR (\<lambda>counter seen.
       bindR (ensure (counterOk counter) (invalid_se ''Invalid exact onchain policy counter observation.'')) (\<lambda>_.
       bindR (ensure (counterKey counter \<notin> set seen) (invalid_se ''Duplicate onchain policy counter.'')) (\<lambda>_.
       Inr (counterKey counter # seen)))) cs (counterKey c # seen0) = Inr seen"
      by (auto simp: bindR_eq_Inr ensure_eq_Inr)
    from Cons(1) [OF r] c show ?case by auto
  qed simp
  from this [of "[]"] assms show ?thesis unfolding assertCounters_def by blast
qed

lemma counterOk_bounds: "counterOk n \<Longrightarrow> 0 \<le> bigInt (ct_used n) \<and> bigInt (ct_used n) \<le> bigInt (ct_limit n)"
  using integer_nonneg [of "ct_used n"] by (auto simp: counterOk_def)

lemma assertObservation_binds: "assertObservation H r b now = Inr () \<Longrightarrow> observationBinds (se_compiled r) b"
  by (auto simp: assertObservation_def Let_def bindR_eq_Inr ensure_eq_Inr observationBinds_def counterOk_bounds dest!: assertCounters_Inr)

lemma observedState_active: "observedState r o1 g = SsActive \<longleftrightarrow> \<not> retired (se_compiled r) o1 \<and> \<not> expired (se_compiled r) o1 \<and> se_revocation r = None \<and>
    in_enabled o1 \<and> in_enableNonce o1 = cs_activationEnableNonce (se_compiled r) \<and> se_activation r \<noteq> None \<and> g"
  by (auto simp: observedState_def Let_def)

lemma observedRecord_active:
  "se_state (observedRecord r b g now) = SsActive \<longleftrightarrow>
     observedState r (so_installed b) g = SsActive \<and> observedInvalidation r (so_installed b) now = None"
  "se_state (observedRecord r b g now) = SsActive \<Longrightarrow> se_invalidation (observedRecord r b g now) = None"
proof -
  have no: "observedState r (so_installed b) False \<noteq> SsActive" by (simp add: observedState_active)
  show "se_state (observedRecord r b g now) = SsActive \<longleftrightarrow>
     observedState r (so_installed b) g = SsActive \<and> observedInvalidation r (so_installed b) now = None"
    using no by (cases g; cases "observedInvalidation r (so_installed b) now") (auto simp: observedRecord_def Let_def)
  then show "se_state (observedRecord r b g now) = SsActive \<Longrightarrow> se_invalidation (observedRecord r b g now) = None"
    using no by (cases g) (auto simp: observedRecord_def Let_def)
qed

lemma approvalOk_identity: "se_identity r' = se_identity r \<Longrightarrow> approvalOk r' kind a = approvalOk r kind a"
  by (auto simp: approvalOk_def dest!: se_identityD)

lemma se_change_wf:
  assumes c: "se_change H r r'" and wf: "sessionWf r"
  shows "sessionWf r'"
proof -
  note i = se_change_revision [OF c, THEN conjunct1]
  note d = se_identityD [OF i] and a = approvalOk_identity [OF i]
  have base: "uuid_se (se_id r')" "compiledOk (se_compiled r')" using wf d by (simp_all add: sessionWf_def)
  from c show ?thesis
  proof (cases rule: se_change_cases)
    case kept
    then show ?thesis using wf by simp
  next
    case (approved kind x now)
    then show ?thesis using wf base d a by (auto simp: sessionWf_def split: LifecycleKind.splits)
  next
    case (observed b g now)
    have "executable r'" if "se_state r' = SsActive"
    proof -
      from that observed(1) have s: "observedState r (so_installed b) g = SsActive" "se_invalidation r' = None"
        using observedRecord_active [of r b g now] by auto
      then show ?thesis using observed by (auto simp: executable_def observedState_active enabledNow_def)
    qed
    moreover have "approvalOk r' kind x" if "priorApproval kind r' = Some x" for kind x
      using that wf observed(1) a by (cases kind) (auto simp: sessionWf_def priorApproval_def split: LifecycleKind.splits)
    moreover have "observationBinds (se_compiled r') b" using assertObservation_binds [OF observed(2)] d by simp
    ultimately show ?thesis using base observed(1) unfolding sessionWf_def by simp
  next
    case (invalidated reason now)
    have "approvalOk r' kind x" if "priorApproval kind r' = Some x" for kind x
      using that wf invalidated(1) a by (cases kind) (auto simp: sessionWf_def priorApproval_def split: LifecycleKind.splits)
    then show ?thesis using wf base d invalidated(1) by (simp add: sessionWf_def)
  qed
qed

lemma assertNewSession_wf:
  assumes "assertNewSession H r now = Inr ()"
  shows "sessionWf r \<and> \<not> se_reservationsReleased r \<and> se_activation r = None \<and> se_observation r = None \<and> accountIdOk (cs_ownerAccountId (se_compiled r))"
proof -
  have "uuid_se (se_id r)" "compiledOk (se_compiled r)" "se_activation r = None" "se_revocation r = None" "se_observation r = None"
    "se_state r = SsPrepared" "\<not> se_reservationsReleased r" "accountIdOk (cs_ownerAccountId (se_compiled r))"
    using assms by (auto simp: assertNewSession_def Let_def bindR_eq_Inr ensure_eq_Inr assertSessionId_def)
  moreover from this have "priorApproval kind r = None" for kind by (cases kind) simp_all
  ultimately show ?thesis by (simp add: sessionWf_def)
qed

section \<open>The invariant of the store\<close>

definition reserving :: "StoredSession \<Rightarrow> bool" where
  "reserving r \<longleftrightarrow> \<not> se_reservationsReleased r \<and> (se_activation r \<noteq> None \<or> enabledNow r)"

definition se_inv :: "SessionStore \<Rightarrow> bool" where
  "se_inv s \<longleftrightarrow> js_wf (ms_records s) \<and>
     (\<forall>i r. js_get (ms_records s) i = Some r \<longrightarrow> se_id r = i \<and> sessionWf r) \<and>
     (\<forall>i j r x. js_get (ms_records s) i = Some r \<and> js_get (ms_records s) j = Some x \<and> i \<noteq> j \<and> sameWallet r x \<longrightarrow>
        \<not> (reserving r \<and> reserving x) \<and> \<not> identityConflicts r x) \<and>
     (\<forall>a. count_values (\<lambda>r. cs_ownerAccountId (se_compiled r) = a) (ms_records s) \<le> sessionsPerAccount)"

definition se_extends :: "host \<Rightarrow> SessionStore \<Rightarrow> SessionStore \<Rightarrow> bool" where
  "se_extends H s s' \<longleftrightarrow> (\<forall>i r. js_get (ms_records s) i = Some r \<longrightarrow> (\<exists>r'. js_get (ms_records s') i = Some r' \<and> (se_change H)\<^sup>*\<^sup>* r r'))"

lemma se_extends_refl [simp]: "se_extends H s s"
  by (auto simp: se_extends_def)

lemma se_extends_trans: "se_extends H r s \<Longrightarrow> se_extends H s t \<Longrightarrow> se_extends H r t"
  unfolding se_extends_def by (meson rtranclp_trans)

lemma se_inv_empty: "se_inv emptySessionStore"
  by (simp add: se_inv_def emptySessionStore_def)

lemma se_invD:
  assumes "se_inv s"
  shows "js_wf (ms_records s)" and "js_get (ms_records s) i = Some r \<Longrightarrow> se_id r = i" and "js_get (ms_records s) i = Some r \<Longrightarrow> sessionWf r"
    and "js_get (ms_records s) i = Some r \<Longrightarrow> js_get (ms_records s) j = Some x \<Longrightarrow> i \<noteq> j \<Longrightarrow> sameWallet r x \<Longrightarrow> \<not> (reserving r \<and> reserving x)"
    and "js_get (ms_records s) i = Some r \<Longrightarrow> js_get (ms_records s) j = Some x \<Longrightarrow> i \<noteq> j \<Longrightarrow> sameWallet r x \<Longrightarrow> \<not> identityConflicts r x"
    and "count_values (\<lambda>r. cs_ownerAccountId (se_compiled r) = a) (ms_records s) \<le> sessionsPerAccount"
  using assms unfolding se_inv_def by blast+

lemma se_invI:
  assumes "js_wf (ms_records s)" and "\<And>i r. js_get (ms_records s) i = Some r \<Longrightarrow> se_id r = i \<and> sessionWf r"
    and "\<And>i j r x. js_get (ms_records s) i = Some r \<Longrightarrow> js_get (ms_records s) j = Some x \<Longrightarrow> i \<noteq> j \<Longrightarrow> sameWallet r x \<Longrightarrow>
        \<not> (reserving r \<and> reserving x) \<and> \<not> identityConflicts r x"
    and "\<And>a. count_values (\<lambda>r. cs_ownerAccountId (se_compiled r) = a) (ms_records s) \<le> sessionsPerAccount"
  shows "se_inv s"
  unfolding se_inv_def using assms by blast

lemma sameWallet_sym: "sameWallet a b \<Longrightarrow> sameWallet b a"
  by (auto simp: sameWallet_def same_sym)

lemma identityConflicts_sym: "identityConflicts a b \<Longrightarrow> identityConflicts b a"
  by (auto simp: identityConflicts_def Let_def sameWallet_sym same_sym)

lemma reservation_iff: "reservationConflicts r x \<longleftrightarrow> se_id r \<noteq> se_id x \<and> sameWallet r x \<and> reserving x"
  by (auto simp: reservationConflicts_def reserving_def)

lemma checkReservation_Inr: "checkReservation s r = Inr u \<longleftrightarrow> (\<forall>x \<in> set (js_values (ms_records s)). \<not> reservationConflicts r x)"
  by (auto simp: checkReservation_def ensure_eq_Inr list_ex_iff)

text \<open>Replacing a session by a successor, when the successor reserves no more or the wallet is free.\<close>

lemma se_inv_update:
  assumes inv: "se_inv s" and g: "js_get (ms_records s) i = Some r" and c: "se_change H r r'" and recs: "ms_records s' = js_set i r' (ms_records s)"
    and free: "reserving r' \<Longrightarrow> \<not> reserving r \<Longrightarrow> checkReservation s r = Inr ()"
  shows "se_inv s' \<and> se_extends H s s'"
proof
  note d = se_identityD [OF se_change_revision [OF c, THEN conjunct1]]
  have wal: "sameWallet r' x = sameWallet r x" "sameWallet x r' = sameWallet x r" for x using d by (simp_all add: sameWallet_def)
  have idc: "identityConflicts r' x = identityConflicts r x" "identityConflicts x r' = identityConflicts x r" for x
    using d wal by (simp_all add: identityConflicts_def Let_def)
  have clash: "\<not> (reserving r' \<and> reserving x) \<and> \<not> identityConflicts r' x" if x: "js_get (ms_records s) j = Some x" "j \<noteq> i" "sameWallet r x" for j x
  proof
    show "\<not> identityConflicts r' x" using se_invD(5) [OF inv g x(1) x(2) [symmetric] x(3)] idc by simp
    show "\<not> (reserving r' \<and> reserving x)"
    proof
      assume b: "reserving r' \<and> reserving x"
      have "\<not> reserving r" using se_invD(4) [OF inv g x(1) x(2) [symmetric] x(3)] b by blast
      with free b have "checkReservation s r = Inr ()" by blast
      then have "\<not> reservationConflicts r x" using js_get_in_values [OF x(1)] unfolding checkReservation_Inr by blast
      moreover have "se_id r \<noteq> se_id x" using se_invD(2) [OF inv g] se_invD(2) [OF inv x(1)] x(2) by simp
      ultimately show False using b x(3) by (simp add: reservation_iff)
    qed
  qed
  show "se_inv s'"
  proof (rule se_invI)
    show "js_wf (ms_records s')" using se_invD(1) [OF inv] by (simp add: recs)
    show "se_id y = j \<and> sessionWf y" if "js_get (ms_records s') j = Some y" for j y
      using that se_invD(2,3) [OF inv] se_change_wf [OF c se_invD(3) [OF inv g]] d g unfolding recs by (auto split: if_splits)
    show "\<not> (reserving y \<and> reserving x) \<and> \<not> identityConflicts y x"
      if y: "js_get (ms_records s') j = Some y" "js_get (ms_records s') k = Some x" "j \<noteq> k" "sameWallet y x" for j k y x
    proof (cases "j = i")
      case True
      then have "y = r'" "js_get (ms_records s) k = Some x" "k \<noteq> i" using y(1,2,3) unfolding recs by (auto split: if_splits)
      then show ?thesis using clash y(4) wal by blast
    next
      case j: False
      then have yy: "js_get (ms_records s) j = Some y" using y(1) unfolding recs by simp
      show ?thesis
      proof (cases "k = i")
        case True
        then have "x = r'" using y(2) unfolding recs by simp
        then show ?thesis using clash [OF yy j] y(4) wal sameWallet_sym identityConflicts_sym by blast
      next
        case False
        then have "js_get (ms_records s) k = Some x" using y(2) unfolding recs by simp
        then show ?thesis using se_invD(4,5) [OF inv yy] y(3,4) by blast
      qed
    qed
    show "count_values (\<lambda>r. cs_ownerAccountId (se_compiled r) = a) (ms_records s') \<le> sessionsPerAccount" for a
      using se_invD(6) [OF inv] count_values_replace [OF g, of "\<lambda>r. cs_ownerAccountId (se_compiled r) = a" r'] d
      unfolding recs by simp
  qed
  show "se_extends H s s'" using g c unfolding se_extends_def recs by (auto simp: r_into_rtranclp)
qed

section \<open>What the operations do to the records\<close>

lemma reserve_se_records [simp]: "ms_records (snd (reserve_se actor claim operation i s)) = ms_records s"
  by (simp add: reserve_se_def attempt_def split: sum.splits)

lemma required_se_Inr: "required_se s actor i = Inr r \<Longrightarrow> js_get (ms_records s) i = Some r \<and> canReadSession r actor"
  by (auto simp: required_se_def bindR_eq_Inr split: option.splits if_splits)

text \<open>A session replaced by what a rule makes of it.\<close>

definition replaced :: "SessionStore \<Rightarrow> string \<Rightarrow> (StoredSession \<Rightarrow> StoredSession \<Rightarrow> bool) \<Rightarrow> SessionStore \<Rightarrow> bool" where
  "replaced s i rule s' \<longleftrightarrow> ms_records s' = ms_records s \<or>
     (\<exists>r r'. js_get (ms_records s) i = Some r \<and> rule r r' \<and> ms_records s' = js_set (se_id r) r' (ms_records s))"

lemma replaced_same: "ms_records s' = ms_records s \<Longrightarrow> replaced s i rule s'"
  by (simp add: replaced_def)

lemma replacedI: "js_get (ms_records s) i = Some r \<Longrightarrow> rule r r' \<Longrightarrow> ms_records s' = js_set (se_id r) r' (ms_records s) \<Longrightarrow> replaced s i rule s'"
  by (auto simp: replaced_def)

lemma replaced_update:
  "js_get (ms_records s) i = Some r \<Longrightarrow> ms_records s1 = ms_records s \<Longrightarrow> (c \<Longrightarrow> rule r r') \<Longrightarrow>
     replaced s i rule (if c then s1\<lparr>ms_records := js_set (se_id r) r' (ms_records s1)\<rparr> else s1)"
  by (auto simp: replaced_def)

lemmas replaced_rules = keeping [where P = "replaced s i rule" for s i rule]

definition claimRule :: "host \<Rightarrow> SessionStore \<Rightarrow> SessionClaim \<Rightarrow> LifecycleKind \<Rightarrow> int \<Rightarrow> StoredSession \<Rightarrow> StoredSession \<Rightarrow> bool" where
  "claimRule H s input kind now r r' \<longleftrightarrow> (\<exists>allow. applySessionClaim H r input kind now allow = Inr (r', True)) \<and>
     (kind = Activation \<longrightarrow> checkReservation s r = Inr ())"

lemma claim_se_replaced: "replaced s (sk_id input) (claimRule H s input kind (clock 1)) (snd (claim_se H options g clock input kind s))"
  unfolding claim_se_def Let_def
  by (intro replaced_rules; (simp only: snd_conv)?; ((rule replaced_same, simp; fail) |
      (rule replaced_update; auto dest!: required_se_Inr simp: claimRule_def cloneSession_Inr split: if_splits)))

definition observeRule :: "host \<Rightarrow> SessionStore \<Rightarrow> SessionObservationUpdate \<Rightarrow> int \<Rightarrow> StoredSession \<Rightarrow> StoredSession \<Rightarrow> bool" where
  "observeRule H s input now r r' \<longleftrightarrow> (\<exists>grantActive. applySessionObservation H r input grantActive now = Inr (r', True)) \<and>
     (enabledNow r' \<and> \<not> se_reservationsReleased r' \<longrightarrow> checkReservation s r = Inr ())"

lemma observe_se_replaced: "replaced s (su_id input) (observeRule H s input now) (snd (observe_se H options now input s))"
  unfolding observe_se_def Let_def
  by (intro replaced_rules; (simp only: snd_conv)?; ((rule replaced_same, simp; fail) |
      (rule replaced_update; auto dest!: required_se_Inr simp: observeRule_def cloneSession_Inr split: if_splits)))

definition staleRule :: "host \<Rightarrow> SessionInvalidationUpdate \<Rightarrow> int \<Rightarrow> StoredSession \<Rightarrow> StoredSession \<Rightarrow> bool" where
  "staleRule H input now r r' \<longleftrightarrow> applySessionInvalidation H r input now = Inr (r', True)"

lemma markStale_replaced: "replaced s (sv_id input) (staleRule H input now) (snd (markStale H now input s))"
  unfolding markStale_def Let_def
  by (intro replaced_rules; (simp only: snd_conv)?; ((rule replaced_same, simp; fail) |
      (rule replaced_update; auto dest!: required_se_Inr simp: staleRule_def cloneSession_Inr split: if_splits)))

definition created :: "host \<Rightarrow> SessionStore \<Rightarrow> SessionStore \<Rightarrow> bool" where
  "created H s s' \<longleftrightarrow> ms_records s' = ms_records s \<or>
     (\<exists>r t. assertNewSession H r t = Inr () \<and> js_get (ms_records s) (se_id r) = None \<and>
        (\<forall>x \<in> set (js_values (ms_records s)). \<not> identityConflicts r x) \<and>
        count_values (\<lambda>x. cs_ownerAccountId (se_compiled x) = cs_ownerAccountId (se_compiled r)) (ms_records s) < sessionsPerAccount \<and>
        ms_records s' = js_set (se_id r) r (ms_records s))"

lemma created_same: "ms_records s' = ms_records s \<Longrightarrow> created H s s'"
  by (simp add: created_def)

lemmas created_rules = keeping [where P = "created H s" for H s]

lemma create_se_created: "created H s (snd (create_se H options g clock input idempotency now s))"
  unfolding create_se_def Let_def
  by (intro created_rules; (simp only: snd_conv)?; ((rule created_same, simp; fail) |
      (auto simp: created_def ensure_eq_Inr list_ex_iff not_le)))

lemma created_step:
  assumes inv: "se_inv s" and c: "created H s s'"
  shows "se_inv s' \<and> se_extends H s s'"
  using c unfolding created_def
proof (elim disjE exE conjE)
  assume "ms_records s' = ms_records s"
  then show ?thesis using inv unfolding se_inv_def se_extends_def by auto
next
  fix r t
  assume n: "assertNewSession H r t = Inr ()" and fresh: "js_get (ms_records s) (se_id r) = None"
    and clash: "\<forall>x \<in> set (js_values (ms_records s)). \<not> identityConflicts r x"
    and room: "count_values (\<lambda>x. cs_ownerAccountId (se_compiled x) = cs_ownerAccountId (se_compiled r)) (ms_records s) < sessionsPerAccount"
    and recs: "ms_records s' = js_set (se_id r) r (ms_records s)"
  note w = assertNewSession_wf [OF n]
  have nr: "\<not> reserving r" using w by (simp add: reserving_def enabledNow_def)
  have cl: "\<not> identityConflicts r x" if "js_get (ms_records s) j = Some x" for j x using clash js_get_in_values [OF that] by blast
  have "se_inv s'"
  proof (rule se_invI)
    show "js_wf (ms_records s')" using se_invD(1) [OF inv] by (simp add: recs)
    show "se_id y = j \<and> sessionWf y" if "js_get (ms_records s') j = Some y" for j y
      using that se_invD(2,3) [OF inv] w unfolding recs by (auto split: if_splits)
    show "\<not> (reserving y \<and> reserving x) \<and> \<not> identityConflicts y x"
      if y: "js_get (ms_records s') j = Some y" "js_get (ms_records s') k = Some x" "j \<noteq> k" "sameWallet y x" for j k y x
    proof (cases "j = se_id r")
      case True
      then have "y = r" "js_get (ms_records s) k = Some x" using y(1,2,3) unfolding recs by (auto split: if_splits)
      then show ?thesis using nr cl by blast
    next
      case j: False
      then have yy: "js_get (ms_records s) j = Some y" using y(1) unfolding recs by simp
      show ?thesis
      proof (cases "k = se_id r")
        case True
        then have "x = r" using y(2) unfolding recs by simp
        then show ?thesis using nr cl [OF yy] identityConflicts_sym by blast
      next
        case False
        then have "js_get (ms_records s) k = Some x" using y(2) unfolding recs by simp
        then show ?thesis using se_invD(4,5) [OF inv yy] y(3,4) by blast
      qed
    qed
    show "count_values (\<lambda>r. cs_ownerAccountId (se_compiled r) = a) (ms_records s') \<le> sessionsPerAccount" for a
      using se_invD(6) [OF inv, of a] room count_values_fresh [OF fresh] unfolding recs by auto
  qed
  moreover have "se_extends H s s'" unfolding se_extends_def recs using fresh by auto
  ultimately show ?thesis by blast
qed

lemma replaced_step:
  assumes inv: "se_inv s" and c: "replaced s i rule s'" and rule: "\<And>r r'. rule r r' \<Longrightarrow> se_change H r r' \<and> (reserving r' \<longrightarrow> reserving r \<or> checkReservation s r = Inr ())"
  shows "se_inv s' \<and> se_extends H s s'"
  using c unfolding replaced_def
proof (elim disjE exE conjE)
  assume "ms_records s' = ms_records s"
  then show ?thesis using inv unfolding se_inv_def se_extends_def by auto
next
  fix r r' assume r: "js_get (ms_records s) i = Some r" "rule r r'" "ms_records s' = js_set (se_id r) r' (ms_records s)"
  show ?thesis
    using se_inv_update [OF inv r(1) conjunct1 [OF rule [OF r(2)]], of s'] r(3) rule [OF r(2)] se_invD(2) [OF inv r(1)] by blast
qed

lemma claimRule_change: "claimRule H s input kind now r r' \<Longrightarrow> se_change H r r' \<and> (reserving r' \<longrightarrow> reserving r \<or> checkReservation s r = Inr ())"
  unfolding claimRule_def
proof (elim conjE exE)
  fix allow assume a: "applySessionClaim H r input kind now allow = Inr (r', True)" and k: "kind = Activation \<longrightarrow> checkReservation s r = Inr ()"
  have "reserving r" if "reserving r'" "kind = Revocation"
    using a that by (cases rule: claimed_se_cases)
      (auto simp: reserving_def enabledNow_def approvedRecord_def Let_def split: option.splits)
  moreover have "se_change H r r'" using a by (rule se_change.Claimed)
  ultimately show ?thesis using k by (cases kind) auto
qed

lemma observeRule_change: "observeRule H s input now r r' \<Longrightarrow> se_change H r r' \<and> (reserving r' \<longrightarrow> reserving r \<or> checkReservation s r = Inr ())"
  unfolding observeRule_def
proof (elim conjE exE)
  fix g assume a: "applySessionObservation H r input g now = Inr (r', True)" and k: "enabledNow r' \<and> \<not> se_reservationsReleased r' \<longrightarrow> checkReservation s r = Inr ()"
  have "reserving r \<or> checkReservation s r = Inr ()" if "reserving r'"
  proof (cases "enabledNow r'")
    case True
    then show ?thesis using k that by (simp add: reserving_def)
  next
    case False
    from a that False show ?thesis by (cases rule: observed_se_cases) (auto simp: reserving_def)
  qed
  moreover have "se_change H r r'" using a by (rule se_change.Observed)
  ultimately show ?thesis by blast
qed

lemma staleRule_change: "staleRule H input now r r' \<Longrightarrow> se_change H r r' \<and> (reserving r' \<longrightarrow> reserving r \<or> checkReservation s r = Inr ())"
  unfolding staleRule_def
proof
  assume a: "applySessionInvalidation H r input now = Inr (r', True)"
  then show "se_change H r r'" by (rule se_change.Invalidated)
  from a show "reserving r' \<longrightarrow> reserving r \<or> checkReservation s r = Inr ()"
    by (cases rule: invalidated_se_cases) (auto simp: reserving_def enabledNow_def)
qed

section \<open>Runs\<close>

text \<open>The callbacks read other stores, so they may answer differently at every step.\<close>

inductive se_step :: "host \<Rightarrow> SessionStore \<Rightarrow> SessionStore \<Rightarrow> bool" for H where
  Create: "create_se H options authority clock input idempotency now s = (r, s') \<Longrightarrow> se_step H s s'"
| Activate: "claimActivation H options authority clock claim s = (rc, s') \<Longrightarrow> se_step H s s'"
| Revoke: "claimRevocation H options authority clock claim s = (rc, s') \<Longrightarrow> se_step H s s'"
| Observe: "observe_se H options now update s = (rc, s') \<Longrightarrow> se_step H s s'"
| Stale: "markStale H now invalidation s = (rc, s') \<Longrightarrow> se_step H s s'"

lemma claim_se_step:
  assumes "se_inv s" and "claim_se H options g clock claim kind s = (rc, s')"
  shows "se_inv s' \<and> se_extends H s s'"
proof -
  have "replaced s (sk_id claim) (claimRule H s claim kind (clock 1)) s'"
    using claim_se_replaced [of s claim H kind clock options g] assms(2) by simp
  then show ?thesis by (rule replaced_step [OF assms(1)]) (rule claimRule_change)
qed

lemma se_step_inv: "se_step H s s' \<Longrightarrow> se_inv s \<Longrightarrow> se_inv s' \<and> se_extends H s s'"
proof (induction rule: se_step.induct)
  case (Create options g clock input idem now s r s')
  then have "created H s s'" using create_se_created [of H s options g clock input idem now] by simp
  then show ?case by (rule created_step [OF Create(2)])
next
  case (Activate options g clock claim s rc s')
  then show ?case unfolding claimActivation_def using claim_se_step by blast
next
  case (Revoke options g clock claim s rc s')
  then show ?case unfolding claimRevocation_def using claim_se_step by blast
next
  case (Observe options now update s rc s')
  then have "replaced s (su_id update) (observeRule H s update now) s'" using observe_se_replaced [of s update H now options] by simp
  then show ?case by (rule replaced_step [OF Observe(2)]) (rule observeRule_change)
next
  case (Stale now invalidation s rc s')
  then have "replaced s (sv_id invalidation) (staleRule H invalidation now) s'" using markStale_replaced [of s invalidation H now] by simp
  then show ?case by (rule replaced_step [OF Stale(2)]) (rule staleRule_change)
qed

interpretation se_store: evolving_store "se_step H" se_inv "se_extends H" emptySessionStore for H
  by unfold_locales (rule se_step_inv se_extends_refl se_extends_trans se_inv_empty; assumption)+

lemmas se_run = se_store.run

lemmas se_reach = se_store.reach

end
