(* ===== verification/SessionSamples.thy ===== *)
theory SessionSamples
  imports SessionInvariants UserOperationProperties
begin

text \<open>
  A concrete session over a constant hash and the byte order: it is prepared, activated, observed enabled
  on chain, observed again after spending, and revoked. The witnesses of the properties evaluate on these states.
\<close>

section \<open>A sample session\<close>

lemma stable_canonical:
  "lossless v \<Longrightarrow> stable bytes_le v = canonical v"
  "losslessFields fs \<Longrightarrow> stableFields bytes_le fs = canonicalFields fs"
proof (induction v and fs rule: canonical_canonicalFields.induct)
  case (6 xs)
  then have "map (stable bytes_le) xs = map canonical xs" by (simp add: list_all_iff)
  then show ?case by (simp only: stable.simps canonical.simps)
qed simp_all

definition sampleHost :: host where "sampleHost = \<lparr>ho_viem = sampleViem, ho_localeLe = bytes_le\<rparr>"

lemma sample_stable: "lossless v \<Longrightarrow> \<exists>t. stable bytes_le v = Inr t \<and> length t \<le> textBound v"
  using canonical_bound(1) stable_canonical(1) by simp

lemma sample_fingerprint: "lossless v \<Longrightarrow> fingerprint sampleHost v = Inr (hex64 CHR ''1'')"
  using sample_stable [of v] by (auto simp: fingerprint_def sampleHost_def sampleViem_def hex64_def)

lemma sample_clone_se: "lossless (j v) \<Longrightarrow> textBound (j v) \<le> maximumBytes_se \<Longrightarrow> cloneSession sampleHost j v = Inr v"
  using sample_stable [of "j v"] by (fastforce simp: cloneSession_Inr sampleHost_def)

definition sampleUuid :: string where "sampleUuid = ''00000000-0000-1000-8000-000000000000''"
definition sampleOwner :: string where "sampleOwner = ''eip155:1:'' @ hex40 CHR ''a''"
definition sampleActor :: RestActor where "sampleActor = \<lparr>accountId = sampleOwner, principalId = ''owner:'' @ sampleOwner\<rparr>"

definition sampleAllocations :: "SessionAllocationGroup list" where
  "sampleAllocations = [\<lparr>ag_id = ''usd'', ag_assetIdentity = ''usd'', ag_decimals = 6, ag_total = ''100'',
     ag_allocations = [\<lparr>al_id = ''a'', al_chainId = 1, al_asset = hex40 CHR ''c'', al_limit = ''60'', al_assetReviewId = ''r''\<rparr>]\<rparr>]"

definition sampleReviewed :: json where
  "sampleReviewed = JObj
     [(''ownerAccountId'', JStr sampleOwner), (''bindingId'', JStr (hex64 CHR ''7'')), (''grantId'', JStr sampleUuid),
      (''sessionKey'', JStr (hex40 CHR ''b'')), (''chainId'', JNum 1), (''wallet'', JStr (hex40 CHR ''a'')),
      (''generation'', JStr ''1''), (''nonce'', JStr (hex64 CHR ''3'')), (''validAfter'', JNum 0),
      (''validUntil'', JNum 604800), (''salt'', JStr (hex64 CHR ''2'')), (''allocations'', json_of_AllocationGroups sampleAllocations)]"

definition sampleCompiled :: CompiledSession where
  "sampleCompiled = \<lparr>cs_schemaVersion = 1, cs_stack = ''legacy-f24dddf-safe7579-f22a194'', cs_ownerAccountId = sampleOwner, cs_bindingId = hex64 CHR ''7'',
     cs_grantId = sampleUuid, cs_sessionKey = hex40 CHR ''b'', cs_chainId = 1, cs_wallet = hex40 CHR ''a'', cs_generation = ''1'', cs_nonce = hex64 CHR ''3'',
     cs_validAfter = 0, cs_validUntil = 604800, cs_salt = hex64 CHR ''2'', cs_policyHash = hex64 CHR ''1'', cs_compiledHash = hex64 CHR ''1'',
     cs_permissionId = hex64 CHR ''4'', cs_manifestRevision = hex64 CHR ''5'', cs_activationEnableNonce = ''0'', cs_reviewedPolicy = sampleReviewed,
     cs_smartSessions = JNull, cs_sessionValidator = JNull, cs_session = JNull, cs_configurations = JNull\<rparr>"

definition sampleSession :: "SessionState \<Rightarrow> int \<Rightarrow> int \<Rightarrow> SessionOwnerApproval option \<Rightarrow> SessionOwnerApproval option \<Rightarrow> SessionCanonicalObservation option \<Rightarrow> StoredSession" where
  "sampleSession state revision now activation revocation observation =
     \<lparr>se_id = sampleUuid, se_actor = sampleActor, se_compiled = sampleCompiled,
      se_preparedAdministration = \<lparr>ab_epoch = ''0'', ab_hash = hex64 CHR ''6''\<rparr>, se_allocationGroups = sampleAllocations,
      se_allocationManifestHash = hex64 CHR ''1'', se_createdAt = 1000000, se_updatedAt = now, se_revision = revision, se_state = state,
      se_activation = activation, se_revocation = revocation, se_supersededApprovals = None, se_observation = observation,
      se_invalidation = None, se_reservationsReleased = False\<rparr>"

definition sampleApproval :: "LifecycleKind \<Rightarrow> SessionOwnerApproval" where
  "sampleApproval kind = \<lparr>ap_kind = kind, ap_accountId = sampleOwner, ap_sessionId = sampleUuid, ap_policyHash = hex64 CHR ''1'', ap_compiledHash = hex64 CHR ''1'',
     ap_planId = sampleUuid, ap_planCommitment = hex64 CHR ''8'', ap_digest = hex64 CHR ''8'', ap_issuedAt = 1000, ap_expiresAt = 1200\<rparr>"

definition sampleSeen :: "string \<Rightarrow> string \<Rightarrow> int \<Rightarrow> SessionCanonicalObservation" where
  "sampleSeen used block t = \<lparr>so_installed =
       \<lparr>in_permissionId = hex64 CHR ''4'', in_compiledHash = hex64 CHR ''1'', in_account = hex40 CHR ''a'', in_chainId = 1, in_enabled = True, in_enableNonce = ''0'',
        in_configurationHash = hex64 CHR ''5'', in_evidence = \<lparr>ev_chainId = 1, ev_blockNumber = block, ev_blockHash = hex64 CHR ''6'', ev_timestamp = ''1001''\<rparr>,
        in_counters = [\<lparr>ct_policy = hex40 CHR ''c'', ct_configId = hex64 CHR ''7'', ct_name = ''spend'', ct_used = used, ct_limit = ''60''\<rparr>],
        in_administration = Some \<lparr>ad_epoch = ''1'', ad_hash = hex64 CHR ''8'',
          ad_lastInitialization = Some \<lparr>li_epoch = ''1'', li_permissionIds = [hex64 CHR ''4'']\<rparr>\<rparr>\<rparr>,
     so_observedAt = t, so_finalized = True, so_proofHash = hex64 CHR ''1''\<rparr>"

abbreviation "samplePrepared \<equiv> sampleSession SsPrepared 0 1000000 None None None"
abbreviation "sampleInstalling \<equiv> sampleSession SsInstalling 1 1001000 (Some (sampleApproval Activation)) None None"
abbreviation "sampleActive \<equiv> sampleSession SsActive 2 1002000 (Some (sampleApproval Activation)) None (Some (sampleSeen ''0'' ''5'' 1002000))"
abbreviation "sampleSpent \<equiv> sampleSession SsActive 3 1003000 (Some (sampleApproval Activation)) None (Some (sampleSeen ''9'' ''6'' 1003000))"
abbreviation "sampleRevoking \<equiv> sampleSession SsRevoking 3 1003000 (Some (sampleApproval Activation)) (Some (sampleApproval Revocation)) (Some (sampleSeen ''0'' ''5'' 1002000))"

lemmas se_sample_defs = sampleCompiled_def sampleReviewed_def sampleAllocations_def sampleSession_def sampleApproval_def sampleSeen_def
  sampleActor_def

lemmas se_json_defs = json_of_StoredSession_def json_of_RestActor_def json_of_CompiledSession_def unhashedFields_def json_of_Baseline_def json_of_AllocationGroup_def
  json_of_Allocation_def json_of_Approval_def json_of_SessionObservation_def observationFields_def json_of_Installed_def json_of_RestBlockEvidence_def
  json_of_Counter_def json_of_Administration_def json_of_LastInitialization_def json_of_SessionClaim_def json_of_SessionIdempotency_def
  json_of_ObservationUpdate_def json_of_SessionResult_def text_of_SessionState_def text_of_LifecycleKind_def optField_def orNull_def isSafeInteger_def
  MAX_SAFE_INTEGER_def maximumBytes_se_def

definition sampleSeClaim :: "LifecycleKind \<Rightarrow> int \<Rightarrow> string \<Rightarrow> SessionClaim" where
  "sampleSeClaim kind revision key = \<lparr>sk_actor = sampleActor, sk_id = sampleUuid, sk_expectedRevision = revision, sk_approval = sampleApproval kind,
     sk_idempotency = \<lparr>si_key = key, si_requestHash = ''hash''\<rparr>, sk_now = 1000000\<rparr>"

definition sampleSeUpdate :: "int \<Rightarrow> string option \<Rightarrow> SessionCanonicalObservation \<Rightarrow> SessionObservationUpdate" where
  "sampleSeUpdate revision prior seen = \<lparr>su_actor = sampleActor, su_id = sampleUuid, su_expectedRevision = revision, su_expectedObservationHash = prior,
     su_observation = seen, su_now = 1000000\<rparr>"

definition sampleOptions :: MemorySessionOptions where
  "sampleOptions = \<lparr>mo_assertBinding = (\<lambda>r. Inr ()),
     mo_grant = (\<lambda>r. Some \<lparr>bg_id = sampleUuid, bg_accountId = sampleOwner, bg_botAddress = hex40 CHR ''b'', bg_scopes = [Read, Plan, Relay],
       bg_label = ''bot'', bg_createdAt = 100, bg_expiresAt = 700000, bg_revokedAt = None\<rparr>), mo_assertSupersedablePlan = None\<rparr>"

lemma sample_lengths [simp]: "length (hex64 c) = 66" "length (hex40 c) = 42" "length sampleUuid = 36" "length sampleOwner = 51"
  by (simp_all add: hex64_def hex40_def sampleUuid_def sampleOwner_def)

lemma sampleCompiled_fields [simp]:
  "cs_schemaVersion sampleCompiled = 1" "cs_stack sampleCompiled = ''legacy-f24dddf-safe7579-f22a194''" "cs_ownerAccountId sampleCompiled = sampleOwner"
  "cs_bindingId sampleCompiled = hex64 CHR ''7''" "cs_grantId sampleCompiled = sampleUuid" "cs_sessionKey sampleCompiled = hex40 CHR ''b''"
  "cs_chainId sampleCompiled = 1" "cs_wallet sampleCompiled = hex40 CHR ''a''" "cs_generation sampleCompiled = ''1''" "cs_nonce sampleCompiled = hex64 CHR ''3''"
  "cs_validAfter sampleCompiled = 0" "cs_validUntil sampleCompiled = 604800" "cs_salt sampleCompiled = hex64 CHR ''2''"
  "cs_policyHash sampleCompiled = hex64 CHR ''1''" "cs_compiledHash sampleCompiled = hex64 CHR ''1''" "cs_permissionId sampleCompiled = hex64 CHR ''4''"
  "cs_manifestRevision sampleCompiled = hex64 CHR ''5''" "cs_activationEnableNonce sampleCompiled = ''0''" "cs_reviewedPolicy sampleCompiled = sampleReviewed"
  "cs_smartSessions sampleCompiled = JNull" "cs_sessionValidator sampleCompiled = JNull" "cs_session sampleCompiled = JNull" "cs_configurations sampleCompiled = JNull"
  by (simp_all add: sampleCompiled_def)

lemma sampleSession_fields [simp]:
  "se_id (sampleSession q n t a v b) = sampleUuid" "se_actor (sampleSession q n t a v b) = sampleActor" "se_compiled (sampleSession q n t a v b) = sampleCompiled"
  "se_preparedAdministration (sampleSession q n t a v b) = \<lparr>ab_epoch = ''0'', ab_hash = hex64 CHR ''6''\<rparr>"
  "se_allocationGroups (sampleSession q n t a v b) = sampleAllocations" "se_allocationManifestHash (sampleSession q n t a v b) = hex64 CHR ''1''"
  "se_createdAt (sampleSession q n t a v b) = 1000000" "se_updatedAt (sampleSession q n t a v b) = t" "se_revision (sampleSession q n t a v b) = n"
  "se_state (sampleSession q n t a v b) = q" "se_activation (sampleSession q n t a v b) = a" "se_revocation (sampleSession q n t a v b) = v"
  "se_supersededApprovals (sampleSession q n t a v b) = None" "se_observation (sampleSession q n t a v b) = b"
  "se_invalidation (sampleSession q n t a v b) = None" "se_reservationsReleased (sampleSession q n t a v b) = False"
  by (simp_all add: sampleSession_def)

definition fits :: "nat \<Rightarrow> json \<Rightarrow> bool" where
  "fits n v \<longleftrightarrow> lossless v \<and> textBound v \<le> n"

lemma sample_clone_fits: "fits n (j v) \<Longrightarrow> n \<le> 500000 \<Longrightarrow> cloneSession sampleHost j v = Inr v"
  by (rule sample_clone_se) (simp_all add: fits_def maximumBytes_se_def)

lemma sample_fits:
  "fits 3000 (json_of_AllocationGroups sampleAllocations)" "fits 6000 sampleReviewed"
  "fits 3000 (json_of_RestActor sampleActor)" "fits 4000 (json_of_Approval (sampleApproval kind))"
  by (cases kind; simp add: fits_def sampleAllocations_def sampleReviewed_def sampleActor_def sampleApproval_def se_json_defs)+

lemma sample_compiled_fits: "fits 15000 (json_of_CompiledSession sampleCompiled)" "lossless (JObj (unhashedFields sampleCompiled))"
  using sample_fits(2) by (simp_all add: fits_def json_of_CompiledSession_def unhashedFields_def isSafeInteger_def MAX_SAFE_INTEGER_def)

lemma sample_seen_fits: "fits 20000 (json_of_SessionObservation (sampleSeen used block t))"
  "lossless (JObj (observationFields (so_installed (sampleSeen used block t)) t True))"
  if "t \<in> {0..2000000}" "length used \<le> 10" "length block \<le> 10"
  using that by (auto simp: fits_def sampleSeen_def json_of_SessionObservation_def observationFields_def json_of_Installed_def json_of_RestBlockEvidence_def
    json_of_Counter_def json_of_Administration_def json_of_LastInitialization_def optField_def isSafeInteger_def MAX_SAFE_INTEGER_def)

lemma fits_optField:
  assumes "\<And>x. v = Some x \<Longrightarrow> fits n (j x)"
  shows "losslessFields (optField k j v)" "fieldsBound (optField k j v) \<le> 6 * length k + 4 + n"
  using assms by (cases v; simp add: optField_def fits_def)+

lemma optField_None: "optField k j None = []"
  by (simp add: optField_def)

lemma fields_append [simp]: "losslessFields (fs @ gs) \<longleftrightarrow> losslessFields fs \<and> losslessFields gs" "fieldsBound (fs @ gs) = fieldsBound fs + fieldsBound gs"
  by (induction fs) auto

definition sampleRecord :: "StoredSession \<Rightarrow> bool" where
  "sampleRecord r \<longleftrightarrow> (\<exists>q n t a v b. r = sampleSession q n t a v b \<and> n \<in> {0..9} \<and> t \<in> {0..2000000} \<and>
     (a \<noteq> None \<longrightarrow> a = Some (sampleApproval Activation)) \<and> (v \<noteq> None \<longrightarrow> v = Some (sampleApproval Revocation)) \<and>
     (\<forall>x. b = Some x \<longrightarrow> fits 20000 (json_of_SessionObservation x)))"

lemma sample_record_fits: "sampleRecord r \<Longrightarrow> fits 70000 (json_of_StoredSession r)"
proof -
  assume "sampleRecord r"
  then obtain q n t a v b where r: "r = sampleSession q n t a v b" "n \<in> {0..9}" "t \<in> {0..2000000}" "a \<noteq> None \<longrightarrow> a = Some (sampleApproval Activation)"
    "v \<noteq> None \<longrightarrow> v = Some (sampleApproval Revocation)" "\<forall>x. b = Some x \<longrightarrow> fits 20000 (json_of_SessionObservation x)" unfolding sampleRecord_def by blast
  have g: "\<And>x. a = Some x \<Longrightarrow> fits 4000 (json_of_Approval x)" "\<And>x. v = Some x \<Longrightarrow> fits 4000 (json_of_Approval x)"
    using r(4,5) sample_fits(4) by auto
  have h: "\<And>x. b = Some x \<Longrightarrow> fits 20000 (json_of_SessionObservation x)" using r(6) by blast
  note f = fits_optField [of a 4000 json_of_Approval "''activation''", OF g(1)] fits_optField [of v 4000 json_of_Approval "''revocation''", OF g(2)]
    fits_optField [of b 20000 json_of_SessionObservation "''observation''", OF h]
  have "lossless (JStr (text_of_SessionState q)) \<and> textBound (JStr (text_of_SessionState q)) \<le> 100" by (cases q) (simp_all add: text_of_SessionState_def)
  then show ?thesis using f r(1,2,3) sample_fits(1,3) sample_compiled_fits(1)
    by (simp add: fits_def json_of_StoredSession_def json_of_Baseline_def optField_None isSafeInteger_def MAX_SAFE_INTEGER_def)
qed

lemma sample_clone_record: "sampleRecord r \<Longrightarrow> cloneStored sampleHost r = Inr r"
  using sample_record_fits by (intro sample_clone_fits [where n = 70000]) simp_all

lemma sample_clone_result: "sampleRecord r \<Longrightarrow> length flag \<le> 10 \<Longrightarrow> cloneSession sampleHost (json_of_SessionResult flag) (r, b) = Inr (r, b)"
  using sample_record_fits [of r] by (intro sample_clone_fits [where n = 80000]) (auto simp: fits_def json_of_SessionResult_def)

lemma sample_recordI:
  assumes "n \<in> {0..9}" and "t \<in> {0..2000000}" and "a \<in> {None, Some (sampleApproval Activation)}" and "v \<in> {None, Some (sampleApproval Revocation)}"
    and "\<And>x. b = Some x \<Longrightarrow> fits 20000 (json_of_SessionObservation x)"
  shows "sampleRecord (sampleSession q n t a v b)"
  unfolding sampleRecord_def using assms by blast

lemma sample_records: "sampleRecord samplePrepared" "sampleRecord sampleInstalling" "sampleRecord sampleActive" "sampleRecord sampleSpent" "sampleRecord sampleRevoking"
  by (rule sample_recordI; auto intro!: sample_seen_fits(1))+

definition sampleSe :: "StoredSession \<Rightarrow> string list \<Rightarrow> SessionStore" where
  "sampleSe r operations = \<lparr>ms_records = [(sampleUuid, r)],
     ms_idempotency = map (\<lambda>(k, operation). (key_se sampleActor k, \<lparr>sn_operation = operation, sn_sessionId = sampleUuid, sn_requestHash = ''hash''\<rparr>))
       (zip [''c'', ''a'', ''b''] operations)\<rparr>"

lemma sample_uuid [simp]: "uuid_se sampleUuid"
  by (simp add: uuid_se_def uuid_def sampleUuid_def upt_rec isLowerHexDigit_def isDigit_def code_def)

lemma hexNumber_nonzero: "hexValue (lower c) > 0 \<Longrightarrow> hexNumber (c # cs) \<noteq> 0"
proof -
  have "n \<le> foldl (\<lambda>n c. 16 * n + int (hexValue (lower c))) n cs" if "0 \<le> n" for n :: int
    using that
  proof (induction cs arbitrary: n)
    case (Cons a cs)
    have "n \<le> 16 * n + int (hexValue (lower a))" using Cons(2) by simp
    also have "\<dots> \<le> foldl (\<lambda>n c. 16 * n + int (hexValue (lower c))) (16 * n + int (hexValue (lower a))) cs" using Cons(2) by (intro Cons(1)) simp
    finally show ?case by simp
  qed simp
  from this [of "int (hexValue (lower c))"] show "hexValue (lower c) > 0 \<Longrightarrow> hexNumber (c # cs) \<noteq> 0" by (auto simp: hexNumber_def)
qed

lemma sample_hashes [simp]: "c \<in> set ''12345678'' \<Longrightarrow> isHash (hex64 c)" "c \<in> set ''23'' \<Longrightarrow> nonzeroHash (hex64 c)" "c \<in> set ''abc'' \<Longrightarrow> address_se (hex40 c)"
proof -
  show h: "c \<in> set ''12345678'' \<Longrightarrow> isHash (hex64 c)" for c by (rule hex64_digits)
  have d: "drop 2 (hex64 c) = c # replicate 63 c" "drop 2 (hex40 c) = c # replicate 39 c" by (simp_all add: hex64_def hex40_def eval_nat_numeral)
  show "c \<in> set ''23'' \<Longrightarrow> nonzeroHash (hex64 c)" unfolding nonzeroHash_def d using h [of c] hexNumber_nonzero [of c "replicate 63 c"]
    by (auto simp: hexValue_def lower_def isUpper_def isDigit_def code_def)
  show "c \<in> set ''abc'' \<Longrightarrow> address_se (hex40 c)" unfolding address_se_def d using hexNumber_nonzero [of c "replicate 39 c"]
    by (auto simp: hex40_def hexOf_def list_all_iff isHexDigit_def hexValue_def lower_def isUpper_def isDigit_def code_def)
qed

lemma sample_owner: "accountIdOk sampleOwner"
  by (simp add: accountIdOk_def sampleOwner_def hex40_def Let_def isLowerHexDigit_def isDigit_def code_def bigInt_def isSafeInteger_def MAX_SAFE_INTEGER_def list_all_iff)

lemma sample_actor_ok: "assertActor sampleActor = Inr ()"
  by (simp add: assertActor_def assertTextMax_def sampleActor_def sampleOwner_def hex40_def isControl_def code_def list_ex_iff)

lemma sample_integers: "integer_se s b" if "s \<in> {''0'', ''1'', ''5'', ''6'', ''9'', ''60'', ''100'', ''1001''}" "b \<longrightarrow> s \<noteq> ''0''"
  using that by (auto simp: integer_se_def isDecimal_def isDigit_def bigInt_def code_def)

lemma sample_groups: "allocationGroups sampleCompiled = Inr sampleAllocations"
  by (simp add: allocationGroups_def Let_def given_def objectFields_def fieldArr_def sampleReviewed_def sampleAllocations_def readGroup_def
      json_of_AllocationGroup_def json_of_Allocation_def fieldStr_def fieldNum_def readAllocation_def identifier_se_def isLower_def code_def sample_integers
      isSafeInteger_def MAX_SAFE_INTEGER_def bigInt_def)

lemma sample_integrity: "assertCompiledSessionIntegrity sampleHost sampleCompiled = Inr ()"
  using sample_compiled_fits(2) sample_fits(2)
  by (simp add: assertCompiledSessionIntegrity_def sample_fingerprint fits_def)

lemma sample_compiled_ok: "compiledOk sampleCompiled"
  by (simp add: compiledOk_def sample_integers time_se_def isSafeInteger_def MAX_SAFE_INTEGER_def)

lemma sample_agrees: "forR (\<lambda>(key, expected). ensure (fieldAgrees (js_get fs key) expected) (e key)) (reviewedFields sampleCompiled) = Inr ()"
  if "sampleReviewed = JObj fs"
  using that by (auto simp: reviewedFields_def sampleReviewed_def fieldAgrees_def)

lemma sample_new_se: "assertNewSession sampleHost samplePrepared 1000000 = Inr ()"
proof -
  obtain fs where fs: "sampleReviewed = JObj fs" by (simp add: sampleReviewed_def)
  have l: "lossless (json_of_AllocationGroups sampleAllocations)" using sample_fits(1) by (simp only: fits_def)
  obtain t where t: "stable (ho_localeLe sampleHost) (json_of_AllocationGroups sampleAllocations) = Inr t"
    using sample_stable [OF l] by (auto simp only: sampleHost_def host.simps)
  have c: "canReadSession samplePrepared sampleActor" "accountId sampleActor = sampleOwner" by (simp_all add: canReadSession_def sampleActor_def)
  show ?thesis
    by (simp add: assertNewSession_def assertSessionId_def sample_integers sample_owner c sample_compiled_ok sample_integrity fs given_def objectFields_def
        sample_agrees [OF fs] time_se_def isSafeInteger_def MAX_SAFE_INTEGER_def sample_groups t sample_fingerprint [OF l] sample_clone_record sample_records
        del: stable.simps)
qed

lemma sample_authority: "checkAuthority sampleOptions (sampleSession q n t a v b) now = Inr ()" if "now \<le> 2000000"
proof -
  have "now div 1000 \<le> 2000000 div 1000" using that by (rule zdiv_mono1) simp
  then show ?thesis by (simp add: checkAuthority_def sampleOptions_def assertSessionGrant_def)
qed

lemma sample_idem: "assertSessionIdempotency \<lparr>si_key = [c], si_requestHash = ''hash''\<rparr> = Inr ()" if "c \<in> set ''abc''"
  using that by (auto simp: assertSessionIdempotency_def sessionKeyOk_def isIdentifier_def isLower_def code_def)

lemma sample_create_se: "create_se sampleHost sampleOptions admitAll (\<lambda>_. 1000000) samplePrepared \<lparr>si_key = ''c'', si_requestHash = ''hash''\<rparr> 1000000 emptySessionStore =
  (Inr samplePrepared, sampleSe samplePrepared [''create''])"
proof -
  have c: "cloneSession sampleHost json_of_SessionIdempotency \<lparr>si_key = ''c'', si_requestHash = ''hash''\<rparr> = Inr \<lparr>si_key = ''c'', si_requestHash = ''hash''\<rparr>"
    by (rule sample_clone_se) (simp_all add: json_of_SessionIdempotency_def maximumBytes_se_def)
  show ?thesis
    by (simp add: create_se_def sample_new_se sample_idem sample_clone_record sample_records c admitAll_def emptySessionStore_def Let_def assertIdempotencyMatch_def
        sample_authority sessionsPerAccount_def reserve_se_def idempotencyPerAccount_se_def invoke_def sampleSe_def)
qed

lemma sample_required: "required_se (sampleSe (sampleSession q n t a v b) ops) sampleActor sampleUuid = Inr (sampleSession q n t a v b)"
  by (simp add: required_se_def sample_actor_ok assertSessionId_def sampleSe_def canReadSession_def) (simp add: sampleActor_def)

lemma sample_readable: "canReadSession (sampleSession q n t a v b) sampleActor"
  by (simp add: canReadSession_def sampleActor_def)

lemma sampleSeClaim_fields [simp]: "sk_actor (sampleSeClaim kind n k) = sampleActor" "sk_id (sampleSeClaim kind n k) = sampleUuid"
  "sk_expectedRevision (sampleSeClaim kind n k) = n" "sk_approval (sampleSeClaim kind n k) = sampleApproval kind"
  "sk_idempotency (sampleSeClaim kind n k) = \<lparr>si_key = k, si_requestHash = ''hash''\<rparr>"
  by (simp_all add: sampleSeClaim_def)

lemma sample_clone_claim: "cloneSession sampleHost json_of_SessionClaim (sampleSeClaim kind n k) = Inr (sampleSeClaim kind n k)" if "n \<in> {0..9}" "length k \<le> 10"
  using that sample_fits(3) sample_fits(4) [of kind]
  by (intro sample_clone_fits [where n = 20000]) (auto simp: fits_def json_of_SessionClaim_def json_of_SessionIdempotency_def isSafeInteger_def
      MAX_SAFE_INTEGER_def sampleSeClaim_def)

lemma sample_approvalOk: "approvalOk (sampleSession q n t a v b) kind (sampleApproval kind)"
  by (simp add: approvalOk_def) (simp add: sampleApproval_def)

lemma sample_clone_approval: "cloneSession sampleHost json_of_Approval (sampleApproval kind) = Inr (sampleApproval kind)"
  by (rule sample_clone_fits [where n = 4000]) (simp_all add: sample_fits(4))

lemma sample_times: "ap_issuedAt (sampleApproval kind) = 1000" "ap_expiresAt (sampleApproval kind) = 1200"
  by (simp_all add: sampleApproval_def)

lemma sample_apply_activation: "applySessionClaim sampleHost samplePrepared (sampleSeClaim Activation 0 ''a'') Activation 1001000 False = Inr (sampleInstalling, True)"
  by (simp add: applySessionClaim_def Let_def assertSessionActor_def sample_readable sample_idem revision_se_def isSafeInteger_def MAX_SAFE_INTEGER_def
      sample_approvalOk priorApproval_def sample_times time_se_def sample_clone_record sample_records sample_clone_approval)
    (simp add: approvedRecord_def priorApproval_def sampleSession_def)

lemma sample_apply_revocation: "applySessionClaim sampleHost sampleActive (sampleSeClaim Revocation 2 ''b'') Revocation 1003000 False = Inr (sampleRevoking, True)"
  by (simp add: applySessionClaim_def Let_def assertSessionActor_def sample_readable sample_idem revision_se_def isSafeInteger_def MAX_SAFE_INTEGER_def
      sample_approvalOk priorApproval_def sample_times time_se_def sample_clone_record sample_records sample_clone_approval)
    (simp add: approvedRecord_def priorApproval_def sampleSession_def)

lemma sample_key: "key_se sampleActor k = key_se sampleActor l \<longleftrightarrow> k = l"
  by (simp add: key_se_def)

lemma sampleSe_simps: "ms_records (sampleSe r ops) = [(sampleUuid, r)]" "sampleSe r ops\<lparr>ms_records := [(sampleUuid, r')]\<rparr> = sampleSe r' ops"
  "js_get (ms_idempotency (sampleSe r [''create''])) (key_se sampleActor ''a'') = None"
  "js_get (ms_idempotency (sampleSe r [''create'', ''activate''])) (key_se sampleActor ''b'') = None"
  "reserve_se sampleActor \<lparr>si_key = ''a'', si_requestHash = ''hash''\<rparr> ''activate'' sampleUuid (sampleSe r [''create'']) = (Inr (), sampleSe r [''create'', ''activate''])"
  "reserve_se sampleActor \<lparr>si_key = ''b'', si_requestHash = ''hash''\<rparr> ''revoke'' sampleUuid (sampleSe r [''create'', ''activate'']) =
    (Inr (), sampleSe r [''create'', ''activate'', ''revoke''])"
  by (simp_all add: sampleSe_def sample_key reserve_se_def idempotencyPerAccount_se_def)

lemma sample_activate_se: "claimActivation sampleHost sampleOptions admitAll (\<lambda>_. 1001000) (sampleSeClaim Activation 0 ''a'') (sampleSe samplePrepared [''create'']) =
  (Inr (sampleInstalling, True), sampleSe sampleInstalling [''create'', ''activate''])"
  by (simp add: claimActivation_def claim_se_def sample_clone_claim sample_actor_ok sample_idem admitAll_def sample_required Let_def sampleSe_simps assertIdempotencyMatch_def
      priorApproval_def sample_authority sample_apply_activation checkReservation_def reservationConflicts_def invoke_def sample_clone_result sample_records)

lemma sample_revoke_se: "claimRevocation sampleHost sampleOptions admitAll (\<lambda>_. 1003000) (sampleSeClaim Revocation 2 ''b'') (sampleSe sampleActive [''create'', ''activate'']) =
  (Inr (sampleRevoking, True), sampleSe sampleRevoking [''create'', ''activate'', ''revoke''])"
  by (simp add: claimRevocation_def claim_se_def sample_clone_claim sample_actor_ok sample_idem admitAll_def sample_required Let_def sampleSe_simps assertIdempotencyMatch_def
      priorApproval_def sample_apply_revocation invoke_def sample_clone_result sample_records)

lemma sampleSeen_fields: "so_observedAt (sampleSeen used block t) = t" "so_finalized (sampleSeen used block t)" "so_proofHash (sampleSeen used block t) = hex64 CHR ''1''"
  "in_enabled (so_installed (sampleSeen used block t))" "in_enableNonce (so_installed (sampleSeen used block t)) = ''0''"
  "in_configurationHash (so_installed (sampleSeen used block t)) = hex64 CHR ''5''"
  "in_chainId (so_installed (sampleSeen used block t)) = 1" "in_account (so_installed (sampleSeen used block t)) = hex40 CHR ''a''"
  "in_compiledHash (so_installed (sampleSeen used block t)) = hex64 CHR ''1''" "in_permissionId (so_installed (sampleSeen used block t)) = hex64 CHR ''4''"
  "in_evidence (so_installed (sampleSeen used block t)) = \<lparr>ev_chainId = 1, ev_blockNumber = block, ev_blockHash = hex64 CHR ''6'', ev_timestamp = ''1001''\<rparr>"
  "in_counters (so_installed (sampleSeen used block t)) =
     [\<lparr>ct_policy = hex40 CHR ''c'', ct_configId = hex64 CHR ''7'', ct_name = ''spend'', ct_used = used, ct_limit = ''60''\<rparr>]"
  "in_administration (so_installed (sampleSeen used block t)) = Some \<lparr>ad_epoch = ''1'', ad_hash = hex64 CHR ''8'',
     ad_lastInitialization = Some \<lparr>li_epoch = ''1'', li_permissionIds = [hex64 CHR ''4'']\<rparr>\<rparr>"
  by (simp_all add: sampleSeen_def)

lemma sample_numbers: "bigInt ''0'' = 0" "bigInt ''1'' = 1" "bigInt ''5'' = 5" "bigInt ''6'' = 6" "bigInt ''9'' = 9" "bigInt ''60'' = 60" "bigInt ''1001'' = 1001"
  by (simp_all add: bigInt_def code_def)

lemma sample_seen_ok: "assertObservation sampleHost (sampleSession q n u a v b) (sampleSeen used block t) now = Inr ()"
  if "t \<in> {0..2000000}" "t \<le> now" "used \<in> {''0'', ''9''}" "block \<in> {''5'', ''6''}"
    "\<And>x. b = Some x \<Longrightarrow> x = sampleSeen ''0'' ''5'' 1002000 \<and> block = ''6''"
proof -
  have p: "fingerprint sampleHost (JObj (observationFields (so_installed (sampleSeen used block t)) t True)) = Inr (hex64 CHR ''1'')"
    by (rule sample_fingerprint, rule sample_seen_fits(2)) (use that in auto)
  have c: "counterOk \<lparr>ct_policy = hex40 CHR ''c'', ct_configId = hex64 CHR ''7'', ct_name = ''spend'', ct_used = used, ct_limit = ''60''\<rparr>"
    using that(3) by (auto simp: counterOk_def sample_integers sample_numbers)
  have i: "integer_se block False" using that(4) by (auto intro: sample_integers)
  show ?thesis
  proof (cases b)
    case None
    then show ?thesis using that(1,2)
      by (simp add: assertObservation_def Let_def p sampleSeen_fields time_se_def isSafeInteger_def MAX_SAFE_INTEGER_def sample_integers i
        administrationOk_def assertCounters_def c)
  next
    case (Some x)
    then have x: "x = sampleSeen ''0'' ''5'' 1002000" "block = ''6''" using that(5) by blast+
    show ?thesis using that(1,2) unfolding Some x(1)
      by (simp add: assertObservation_def Let_def p sampleSeen_fields time_se_def isSafeInteger_def MAX_SAFE_INTEGER_def sample_integers i
        administrationOk_def assertCounters_def c) (simp add: x(2) sample_numbers)
  qed
qed

lemma sample_apply_observed:
  "applySessionObservation sampleHost sampleInstalling (sampleSeUpdate 1 None (sampleSeen ''0'' ''5'' 1002000)) True 1002000 = Inr (sampleActive, True)"
  "applySessionObservation sampleHost sampleActive (sampleSeUpdate 2 (Some (hex64 CHR ''1'')) (sampleSeen ''9'' ''6'' 1003000)) True 1003000 = Inr (sampleSpent, True)"
proof -
  have c: "cloneSession sampleHost json_of_SessionObservation (sampleSeen used block t) = Inr (sampleSeen used block t)"
    if "t \<in> {0..2000000}" "length used \<le> 10" "length block \<le> 10" for used block t
    by (rule sample_clone_fits [where n = 20000]) (use sample_seen_fits(1) [OF that] in simp_all)
  note d = observedRecord_def Let_def observedState_def retired_def expired_def observedInvalidation_def poisoned_def countersChanged_def
    initialAdministrationInvalid_def administrationChanged_def priorCounter_def hadEnabled_def sampleSeen_fields sample_numbers
  have a: "observedRecord sampleInstalling (sampleSeen ''0'' ''5'' 1002000) True 1002000 = sampleActive" by (simp add: d sampleSession_def)
  have b: "observedRecord sampleActive (sampleSeen ''9'' ''6'' 1003000) True 1003000 = sampleSpent" by (simp add: d sampleSession_def counterKey_def)
  have e: "assertObservation sampleHost sampleInstalling (sampleSeen ''0'' ''5'' 1002000) 1002000 = Inr ()"
    "assertObservation sampleHost sampleActive (sampleSeen ''9'' ''6'' 1003000) 1003000 = Inr ()"
    by (rule sample_seen_ok; simp)+
  show "applySessionObservation sampleHost sampleInstalling (sampleSeUpdate 1 None (sampleSeen ''0'' ''5'' 1002000)) True 1002000 = Inr (sampleActive, True)"
    by (simp add: applySessionObservation_def sampleSeUpdate_def assertSessionActor_def sample_readable revision_se_def isSafeInteger_def MAX_SAFE_INTEGER_def
        e sample_clone_record sample_records Let_def c a)
  show "applySessionObservation sampleHost sampleActive (sampleSeUpdate 2 (Some (hex64 CHR ''1'')) (sampleSeen ''9'' ''6'' 1003000)) True 1003000 = Inr (sampleSpent, True)"
    by (simp add: applySessionObservation_def sampleSeUpdate_def assertSessionActor_def sample_readable revision_se_def isSafeInteger_def MAX_SAFE_INTEGER_def
        e sample_clone_record sample_records Let_def c b sampleSeen_fields)
qed

lemma sample_clone_update: "cloneSession sampleHost json_of_ObservationUpdate (sampleSeUpdate 1 None (sampleSeen ''0'' ''5'' 1002000)) =
    Inr (sampleSeUpdate 1 None (sampleSeen ''0'' ''5'' 1002000))"
  using sample_fits(3) sample_seen_fits(1) [of 1002000 "''0''" "''5''"]
  by (intro sample_clone_fits [where n = 40000]) (auto simp: fits_def json_of_ObservationUpdate_def sampleSeUpdate_def orNull_def isSafeInteger_def MAX_SAFE_INTEGER_def)

lemma sample_observe_se: "observe_se sampleHost sampleOptions 1002000 (sampleSeUpdate 1 None (sampleSeen ''0'' ''5'' 1002000)) (sampleSe sampleInstalling ops) =
  (Inr (sampleActive, True), sampleSe sampleActive ops)"
proof -
  let ?u = "sampleSeUpdate 1 None (sampleSeen ''0'' ''5'' 1002000)"
  have u: "su_actor ?u = sampleActor" "su_id ?u = sampleUuid" by (simp_all add: sampleSeUpdate_def)
  show ?thesis
    by (simp add: observe_se_def sample_clone_update u sample_required grantActiveNow_def sample_authority sample_apply_observed checkReservation_def sampleSe_simps
        reservationConflicts_def Let_def sample_clone_result sample_records)
qed

lemma sample_se_run: "(se_step sampleHost)\<^sup>*\<^sup>* emptySessionStore (sampleSe sampleActive [''create'', ''activate''])"
proof -
  have a: "se_step sampleHost emptySessionStore (sampleSe samplePrepared [''create''])" by (rule se_step.Create [OF sample_create_se])
  have b: "se_step sampleHost (sampleSe samplePrepared [''create'']) (sampleSe sampleInstalling [''create'', ''activate''])" by (rule se_step.Activate [OF sample_activate_se])
  have c: "se_step sampleHost (sampleSe sampleInstalling [''create'', ''activate'']) (sampleSe sampleActive [''create'', ''activate''])" by (rule se_step.Observe [OF sample_observe_se])
  from a have "(se_step sampleHost)\<^sup>*\<^sup>* emptySessionStore (sampleSe samplePrepared [''create''])" by (rule r_into_rtranclp)
  from this b c show ?thesis by (rule rtranclp.rtrancl_into_rtrancl [OF rtranclp.rtrancl_into_rtrancl])
qed

definition sampleBinding :: UserOperationSessionBinding where
  "sampleBinding = \<lparr>us_id = sampleUuid, us_policyHash = hex64 CHR ''1'', us_compiledHash = hex64 CHR ''1'', us_generation = ''1'', us_grantId = sampleUuid,
     us_permissionId = hex64 CHR ''4'', us_sessionKey = hex40 CHR ''b'', us_observationHash = hex64 CHR ''1''\<rparr>"

definition sampleDelegate :: RestActor where "sampleDelegate = \<lparr>accountId = sampleOwner, principalId = ''bot:'' @ sampleUuid\<rparr>"

lemma sample_admitted: "assertUserOperationSession sampleOptions actor sampleBinding (hex64 CHR ''7'') 1 (hex40 CHR ''a'') 1010
  (sampleSe sampleActive ops) = Inr ()" if "actor \<in> {sampleActor, sampleDelegate}"
proof -
  have d: "canReadSession (sampleSession q n t a v b) actor" for q n t a v b using that by (auto simp: canReadSession_def sampleActor_def sampleDelegate_def)
  have "assertActor sampleDelegate = Inr ()"
    by (simp add: assertActor_def assertTextMax_def sampleDelegate_def sampleOwner_def sampleUuid_def hex40_def isControl_def code_def list_ex_iff)
  then have "assertActor actor = Inr ()" using that sample_actor_ok by auto
  then have "required_se (sampleSe sampleActive ops) actor sampleUuid = Inr sampleActive" using d by (simp add: required_se_def assertSessionId_def sampleSe_def)
  then show ?thesis using d
    by (simp add: assertUserOperationSession_def sampleBinding_def sample_authority assertSessionUserOperation_def Let_def assertSessionActor_def
      time_se_def isSafeInteger_def MAX_SAFE_INTEGER_def sampleSeen_fields maximumObservationAgeSeconds_def)
qed

end
