(* ===== verification/SessionProperties.thy ===== *)
theory SessionProperties
  imports SessionSamples
begin

text \<open>
  The properties of smart account sessions: exclusive use of a wallet, final revocation and retirement,
  well-formed records and budgets that are never refreshed.
\<close>

section \<open>Executing through a session\<close>

lemma admitted_session:
  assumes "assertUserOperationSession options actor binding accountBindingId chainId sender nowSeconds s = Inr ()"
  obtains r where "js_get (ms_records s) (us_id binding) = Some r" "canReadSession r actor" "checkAuthority options r (nowSeconds * 1000) = Inr ()"
    "assertSessionUserOperation r actor binding accountBindingId chainId sender nowSeconds = Inr ()"
  using assms by (auto simp: assertUserOperationSession_def bindR_eq_Inr dest!: required_se_Inr)

lemma admitted_facts:
  assumes "assertSessionUserOperation r actor binding accountBindingId chainId sender nowSeconds = Inr ()"
  shows "se_state r = SsActive" "\<not> se_reservationsReleased r" "se_revocation r = None" "se_activation r \<noteq> None" "se_invalidation r = None"
    "cs_chainId (se_compiled r) = chainId" "same sender (cs_wallet (se_compiled r))" "same accountBindingId (cs_bindingId (se_compiled r))"
    "cs_validAfter (se_compiled r) \<le> nowSeconds" "nowSeconds < cs_validUntil (se_compiled r)" "same (us_sessionKey binding) (cs_sessionKey (se_compiled r))"
    "\<exists>b. se_observation r = Some b \<and> in_enabled (so_installed b) \<and> same (so_proofHash b) (us_observationHash binding) \<and>
       nowSeconds * 1000 - so_observedAt b \<le> maximumObservationAgeSeconds * 1000 \<and> so_observedAt b \<le> nowSeconds * 1000 + 999 \<and>
       in_enableNonce (so_installed b) = cs_activationEnableNonce (se_compiled r)"
  using assms by (auto simp: assertSessionUserOperation_def Let_def bindR_eq_Inr ensure_eq_Inr not_less split: option.splits)

definition acceptedAs :: "host \<Rightarrow> SessionStore \<Rightarrow> SessionClaim \<Rightarrow> LifecycleKind \<Rightarrow> int \<Rightarrow> (StoredSession \<times> bool) res \<times> SessionStore \<Rightarrow> bool" where
  "acceptedAs H s claim kind now p \<longleftrightarrow> (\<forall>x s'. p = (Inr (x, True), s') \<longrightarrow>
     (\<exists>r allow. js_get (ms_records s) (sk_id claim) = Some r \<and> applySessionClaim H r claim kind now allow = Inr (x, True) \<and>
        ms_records s' = js_set (se_id r) x (ms_records s)))"

lemma acceptedAs_simps [simp]: "acceptedAs H s claim kind now (Inl e, t)" "acceptedAs H s claim kind now (Inr (r, False), t)"
  by (simp_all add: acceptedAs_def)

lemma accepted_attempt: "(\<And>x. m = Inr x \<Longrightarrow> acceptedAs H s claim kind now (k x)) \<Longrightarrow> acceptedAs H s claim kind now (attempt m t k)"
  by (cases m) simp_all

lemma accepted_invoke: "(\<And>x. fst rt = Inr x \<Longrightarrow> acceptedAs H s claim kind now (k x (put (snd rt)))) \<Longrightarrow> acceptedAs H s claim kind now (invoke rt put k)"
  by (cases rt; cases "fst rt") (simp_all add: invoke_def)

lemma accepted_if: "(c \<Longrightarrow> acceptedAs H s claim kind now a) \<Longrightarrow> (\<not> c \<Longrightarrow> acceptedAs H s claim kind now b) \<Longrightarrow> acceptedAs H s claim kind now (if c then a else b)"
  by simp

lemma accepted_prod: "(\<And>a b. x = (a, b) \<Longrightarrow> acceptedAs H s claim kind now (f a b)) \<Longrightarrow> acceptedAs H s claim kind now (case x of (a, b) \<Rightarrow> f a b)"
  by (cases x) simp

lemma claim_se_accepted: "acceptedAs H s claim kind (clock 1) (claim_se H options g clock claim kind s)"
  unfolding claim_se_def Let_def
  by (intro accepted_attempt accepted_invoke accepted_if accepted_prod)
    (auto simp: acceptedAs_def cloneSession_Inr dest!: required_se_Inr)

lemma claim_se_True:
  assumes "claim_se H options g clock claim kind s = (Inr (x, True), s')"
  obtains r allow where "js_get (ms_records s) (sk_id claim) = Some r" "applySessionClaim H r claim kind (clock 1) allow = Inr (x, True)"
    "ms_records s' = js_set (se_id r) x (ms_records s)"
  using claim_se_accepted [of H s claim kind clock options g] assms unfolding acceptedAs_def by blast

text \<open>
  A session has ended when the owner's revocation of it was recorded or its retirement on chain was final.
\<close>

lemma ended_session:
  assumes "(se_step H)\<^sup>*\<^sup>* emptySessionStore s0"
    and "(claimRevocation H options g clock claim s0 = (Inr (x, True), s) \<and> sk_id claim = i) \<or>
      (s = s0 \<and> (\<exists>r. js_get (ms_records s) i = Some r \<and> se_reservationsReleased r))"
    and "(se_step H)\<^sup>*\<^sup>* s s'"
  obtains y where "js_get (ms_records s') i = Some y" "se_revocation y \<noteq> None \<or> se_reservationsReleased y"
proof -
  have "(\<exists>r. js_get (ms_records s) i = Some r \<and> (se_revocation r \<noteq> None \<or> se_reservationsReleased r)) \<and> (se_step H)\<^sup>*\<^sup>* s0 s"
    using assms(2)
  proof (elim disjE conjE)
    assume c: "claimRevocation H options g clock claim s0 = (Inr (x, True), s)" and i: "sk_id claim = i"
    then obtain r allow where r: "js_get (ms_records s0) (sk_id claim) = Some r" "applySessionClaim H r claim Revocation (clock 1) allow = Inr (x, True)"
      "ms_records s = js_set (se_id r) x (ms_records s0)" unfolding claimRevocation_def using claim_se_True by blast
    from r(2) have "se_revocation x \<noteq> None"
      by (cases rule: claimed_se_cases) (auto simp: approvedRecord_def Let_def split: option.splits)
    moreover have "se_id r = i" using se_invD(2) [OF se_reach [OF assms(1)] r(1)] i by simp
    ultimately show ?thesis using r(3) se_step.Revoke [OF c] by auto
  qed auto
  then obtain r where r: "js_get (ms_records s) i = Some r" "se_revocation r \<noteq> None \<or> se_reservationsReleased r" "(se_step H)\<^sup>*\<^sup>* emptySessionStore s"
    using assms(1) by (metis rtranclp_trans)
  have "se_extends H s s'" using se_run [OF assms(3) se_reach [OF r(3)]] by blast
  with r(1) obtain y where y: "js_get (ms_records s') i = Some y" "(se_change H)\<^sup>*\<^sup>* r y" unfolding se_extends_def by blast
  have "se_revocation y \<noteq> None \<or> se_reservationsReleased y" using r(2) se_history_keeps [OF y(2)] by blast
  with y(1) show ?thesis by (rule that)
qed

lemma ended_refused:
  assumes "js_get (ms_records s) i = Some y" and "se_revocation y \<noteq> None \<or> se_reservationsReleased y" and "us_id binding = i"
  shows "assertUserOperationSession options actor binding account chainId sender now s \<noteq> Inr ()"
proof
  assume "assertUserOperationSession options actor binding account chainId sender now s = Inr ()"
  then obtain z where "js_get (ms_records s) (us_id binding) = Some z" "assertSessionUserOperation z actor binding account chainId sender now = Inr ()"
    by (rule admitted_session)
  then show False using admitted_facts(2,3) assms by auto
qed

section \<open>Poisoned sessions\<close>

text \<open>Between two versions of a session an observation was applied that showed it retired or expired on chain.\<close>

definition endSeen :: "host \<Rightarrow> StoredSession \<Rightarrow> StoredSession \<Rightarrow> bool" where
  "endSeen H p r \<longleftrightarrow> (\<exists>x update grantActive now y. (se_change H)\<^sup>*\<^sup>* p x \<and> applySessionObservation H x update grantActive now = Inr (y, True) \<and>
     (retired (se_compiled x) (so_installed (su_observation update)) \<or> expired (se_compiled x) (so_installed (su_observation update))) \<and> (se_change H)\<^sup>*\<^sup>* y r)"

lemma observed_poisoned:
  assumes "poisoned r" and "se_revocation r = None" and "\<not> retired (se_compiled r) (so_installed observation)" and "\<not> expired (se_compiled r) (so_installed observation)"
  shows "poisoned (observedRecord r observation grantActive now)"
proof -
  have "observedInvalidation r (so_installed observation) now =
      Some \<lparr>iv_reason = iv_reason (the (se_invalidation r)), iv_priorProofHash = map_option so_proofHash (se_observation r), iv_observedAt = now\<rparr>"
    using assms by (simp add: observedInvalidation_def Let_def)
  then show ?thesis using assms(1) by (auto simp: poisoned_def observedRecord_def Let_def split: option.splits)
qed

lemma poison_step:
  assumes "se_change H r r'" and "poisoned r" and "se_revocation r = None"
  shows "poisoned r' \<or> se_revocation r' \<noteq> None \<or> (\<exists>update grantActive now. applySessionObservation H r update grantActive now = Inr (r', True) \<and>
     (retired (se_compiled r) (so_installed (su_observation update)) \<or> expired (se_compiled r) (so_installed (su_observation update))))"
  using assms(1)
proof cases
  case (Claimed claim kind now allow claimed)
  then show ?thesis
  proof (cases rule: claimed_se_cases)
    case fresh
    have "se_invalidation r' = se_invalidation r" by (simp add: fresh(2) approvedRecord_def Let_def split: option.splits LifecycleKind.splits)
    then show ?thesis using assms(2) by (simp add: poisoned_def)
  qed (use assms(2) in simp)
next
  case (Observed update g now applied)
  then show ?thesis
  proof (cases rule: observed_se_cases)
    case fresh
    then show ?thesis using Observed observed_poisoned [OF assms(2,3), of "su_observation update" g now] by auto
  qed (use assms(2) in simp)
next
  case (Invalidated update now applied)
  then show ?thesis
  proof (cases rule: invalidated_se_cases)
    case fresh
    then show ?thesis using assms(2) by (auto simp: invalidatedRecord_def poisoned_def split: option.splits)
  qed (use assms(2) in simp)
qed

lemma poison_history:
  assumes "(se_change H)\<^sup>*\<^sup>* p r" and "poisoned p"
  shows "poisoned r \<or> se_revocation r \<noteq> None \<or> endSeen H p r"
  using assms(1)
proof (induction rule: rtranclp_induct)
  case (step q r)
  consider "endSeen H p q" | "se_revocation q \<noteq> None" | "poisoned q" "se_revocation q = None" using step.IH by blast
  then show ?case
  proof cases
    case 1
    then have "endSeen H p r" unfolding endSeen_def using step.hyps(2) by (meson rtranclp.rtrancl_into_rtrancl)
    then show ?thesis by simp
  next
    case 2
    then show ?thesis using se_change_keeps [OF step.hyps(2)] by blast
  next
    case 3
    from poison_step [OF step.hyps(2) 3] show ?thesis unfolding endSeen_def using step.hyps(1) by blast
  qed
qed (simp add: assms(2))

text \<open>
  An observation of the retirement deletes the invalidation even when it is not final. If that block is reorganized away and the session is seen enabled with unused
  counters, it is active again.
\<close>

lemma retirement_lifts_poison:
  assumes "retired (se_compiled r) (so_installed a)" and "se_revocation r = None" and "se_activation r \<noteq> None"
    and "in_enabled (so_installed b)" and "in_enableNonce (so_installed b) = cs_activationEnableNonce (se_compiled r)" and "\<not> expired (se_compiled r) (so_installed b)"
    and "\<forall>n \<in> set (in_counters (so_installed b)). ct_used n = ''0''" and "\<not> initialAdministrationInvalid r (so_installed b)"
  shows "se_state (observedRecord (observedRecord r a True t) b True u) = SsActive"
proof -
  define n where "n = observedRecord r a True t"
  have d: "\<not> in_enabled (so_installed a)" using assms(1) by (simp add: retired_def)
  have n: "se_observation n = Some a" "se_invalidation n = None" "se_revocation n = None" "se_activation n \<noteq> None" "se_compiled n = se_compiled r"
    "se_preparedAdministration n = se_preparedAdministration r"
    using assms(1-3) by (simp_all add: n_def observedRecord_def observedInvalidation_def observedState_def Let_def)
  have "\<not> initialAdministrationInvalid n (so_installed b)" using assms(8) by (simp only: initialAdministrationInvalid_def n not_False_eq_True)
  then have "observedInvalidation n (so_installed b) u = None"
    using assms(7) n d by (auto simp: observedInvalidation_def poisoned_def countersChanged_def hadEnabled_def administrationChanged_def Let_def list_ex_iff)
  moreover have "observedState n (so_installed b) True = SsActive" using assms n by (simp add: observedState_def retired_def)
  ultimately show ?thesis unfolding n_def [symmetric] by (simp add: observedRecord_def Let_def)
qed

section \<open>Properties\<close>

text \<open>
  One session at a time may hold a wallet. In every reachable state at most one session of a physical wallet is
  activated or seen enabled without having been retired for good, so all user operations that are
  admitted for one wallet go through the same session.
\<close>

lemma session_wallet_exclusive:
  assumes "(se_step H)\<^sup>*\<^sup>* emptySessionStore s"
  shows "(\<forall>i j r x. js_get (ms_records s) i = Some r \<and> js_get (ms_records s) j = Some x \<and> sameWallet r x \<and>
       \<not> se_reservationsReleased r \<and> (se_activation r \<noteq> None \<or> enabledNow r) \<and>
       \<not> se_reservationsReleased x \<and> (se_activation x \<noteq> None \<or> enabledNow x) \<longrightarrow> i = j) \<and>
     (assertUserOperationSession options actor binding account chainId sender now s = Inr () \<and>
      assertUserOperationSession options' actor' binding' account' chainId sender' now' s = Inr () \<and> same sender sender' \<longrightarrow>
      us_id binding = us_id binding')"
proof -
  note inv = se_reach [OF assms]
  have one: "i = j" if "js_get (ms_records s) i = Some r" "js_get (ms_records s) j = Some x" "sameWallet r x" "reserving r" "reserving x" for i j r x
    using se_invD(4) [OF inv that(1,2) _ that(3)] that(4,5) by blast
  have "us_id binding = us_id binding'"
    if a: "assertUserOperationSession options actor binding account chainId sender now s = Inr ()"
      and b: "assertUserOperationSession options' actor' binding' account' chainId sender' now' s = Inr ()" and w: "same sender sender'"
  proof -
    obtain r where r: "js_get (ms_records s) (us_id binding) = Some r" "assertSessionUserOperation r actor binding account chainId sender now = Inr ()"
      using a by (rule admitted_session)
    obtain x where x: "js_get (ms_records s) (us_id binding') = Some x" "assertSessionUserOperation x actor' binding' account' chainId sender' now' = Inr ()"
      using b by (rule admitted_session)
    note f = admitted_facts [OF r(2)] and h = admitted_facts [OF x(2)]
    have "sameWallet r x" using f(6,7) h(6,7) w by (auto simp: sameWallet_def intro: same_trans same_sym)
    moreover have "reserving r" "reserving x" using f(2,4) h(2,4) by (simp_all add: reserving_def)
    ultimately show ?thesis using one [OF r(1) x(1)] by blast
  qed
  moreover have "i = j" if "js_get (ms_records s) i = Some r \<and> js_get (ms_records s) j = Some x \<and> sameWallet r x \<and>
       \<not> se_reservationsReleased r \<and> (se_activation r \<noteq> None \<or> enabledNow r) \<and>
       \<not> se_reservationsReleased x \<and> (se_activation x \<noteq> None \<or> enabledNow x)" for i j r x
    using that one [of i r j x] by (simp add: reserving_def)
  ultimately show ?thesis by blast
qed

text \<open>
  Revocation and retirement are final. Once the owner's revocation of a session was recorded, or its
  retirement on chain was final, no user operation is ever admitted through the session again and no
  activation of it is ever accepted.
\<close>

lemma session_retirement_final:
  assumes "(se_step H)\<^sup>*\<^sup>* emptySessionStore s0"
    and "(claimRevocation H options g clock claim s0 = (Inr (x, True), s) \<and> sk_id claim = i) \<or>
      (s = s0 \<and> (\<exists>r. js_get (ms_records s) i = Some r \<and> se_reservationsReleased r))"
    and "(se_step H)\<^sup>*\<^sup>* s s'"
  shows "(us_id binding = i \<longrightarrow> assertUserOperationSession options' actor binding account chainId sender now s' \<noteq> Inr ()) \<and>
     (sk_id claim' = i \<longrightarrow> fst (claimActivation H options'' g' clock' claim' s') \<noteq> Inr (x', True))"
proof -
  obtain y where y: "js_get (ms_records s') i = Some y" "se_revocation y \<noteq> None \<or> se_reservationsReleased y"
    using assms by (rule ended_session)
  have "fst (claimActivation H options'' g' clock' claim' s') \<noteq> Inr (x', True)" if "sk_id claim' = i"
  proof
    assume "fst (claimActivation H options'' g' clock' claim' s') = Inr (x', True)"
    then obtain t where "claim_se H options'' g' clock' claim' Activation s' = (Inr (x', True), t)"
      unfolding claimActivation_def by (metis prod.collapse)
    then obtain z allow where "js_get (ms_records s') (sk_id claim') = Some z" "applySessionClaim H z claim' Activation (clock' 1) allow = Inr (x', True)"
      by (rule claim_se_True)
    then show False using y that by (auto elim: claimed_se_cases)
  qed
  then show ?thesis using ended_refused [OF y] by blast
qed

text \<open>
  C33. Sessions are well-formed. Every stored session has an identifier and a compiled policy of the required shape with a window of
  seven or thirty days, every recorded approval is the owner's for exactly this session and policy, the
  recorded observation is of this wallet and policy with counters within their limits, and an active
  session is activated, enabled on chain, and neither revoked, retired nor invalidated.
\<close>

theorem session_wellformed:
  assumes "(se_step H)\<^sup>*\<^sup>* emptySessionStore s" and "js_get (ms_records s) i = Some r"
  shows "se_id r = i \<and> uuid_se i \<and> cs_validUntil (se_compiled r) - cs_validAfter (se_compiled r) \<in> {7 * 86400, 30 * 86400} \<and>
     (\<forall>kind a. priorApproval kind r = Some a \<longrightarrow> ap_kind a = kind \<and> ap_accountId a = cs_ownerAccountId (se_compiled r) \<and> ap_sessionId a = i \<and>
        same (ap_policyHash a) (cs_policyHash (se_compiled r)) \<and> same (ap_compiledHash a) (cs_compiledHash (se_compiled r))) \<and>
     (\<forall>b. se_observation r = Some b \<longrightarrow> in_chainId (so_installed b) = cs_chainId (se_compiled r) \<and>
        same (in_account (so_installed b)) (cs_wallet (se_compiled r)) \<and> same (in_compiledHash (so_installed b)) (cs_compiledHash (se_compiled r)) \<and>
        (\<forall>n \<in> set (in_counters (so_installed b)). 0 \<le> bigInt (ct_used n) \<and> bigInt (ct_used n) \<le> bigInt (ct_limit n))) \<and>
     (se_state r = SsActive \<longrightarrow> se_activation r \<noteq> None \<and> se_revocation r = None \<and> enabledNow r \<and> \<not> se_reservationsReleased r \<and> se_invalidation r = None)"
proof -
  note inv = se_reach [OF assms(1)]
  have wf: "sessionWf r" "se_id r = i" using se_invD(2,3) [OF inv assms(2)] by simp_all
  have "ap_kind a = kind \<and> ap_accountId a = cs_ownerAccountId (se_compiled r) \<and> ap_sessionId a = i \<and>
        same (ap_policyHash a) (cs_policyHash (se_compiled r)) \<and> same (ap_compiledHash a) (cs_compiledHash (se_compiled r))"
    if "priorApproval kind r = Some a" for kind a
  proof -
    have "approvalOk r kind a" using wf(1) that by (simp add: sessionWf_def)
    then show ?thesis using wf(2) by (simp add: approvalOk_def)
  qed
  moreover have "observationBinds (se_compiled r) b" if "se_observation r = Some b" for b using wf(1) that by (simp add: sessionWf_def)
  moreover have "uuid_se i" "compiledOk (se_compiled r)" "se_state r = SsActive \<longrightarrow> executable r" using wf by (auto simp: sessionWf_def)
  ultimately show ?thesis using wf(2) by (simp add: observationBinds_def compiledOk_def executable_def Let_def)
qed

text \<open>
  C32. A budget is never refreshed. When an observation leaves a session active that was enabled before, every counter
  observed now existed before with the same limit and has used at least as much, no counter is gone,
  and configuration and administration history are the same; when the session was not enabled before,
  nothing has been used yet. A session that was invalidated by a reset, a reorganization or a changed configuration at any time before becomes active only if, in between, an observation
  showed it retired or expired on chain.
\<close>

theorem session_budget_never_refreshed:
  assumes "applySessionObservation H r update grantActive now = Inr (r', True)" and "se_state r' = SsActive" and "(se_change H)\<^sup>*\<^sup>* p r"
  shows "grantActive \<and> \<not> poisoned r \<and> (poisoned p \<longrightarrow> endSeen H p r) \<and> bigInt (ev_timestamp (in_evidence (so_installed (su_observation update)))) < cs_validUntil (se_compiled r) \<and>
     (case se_observation r of
        None \<Rightarrow> \<forall>n \<in> set (in_counters (so_installed (su_observation update))). ct_used n = ''0''
      | Some b \<Rightarrow> if in_enabled (so_installed b)
          then same (in_configurationHash (so_installed b)) (in_configurationHash (so_installed (su_observation update))) \<and>
            map_option ad_epoch (in_administration (so_installed b)) = map_option ad_epoch (in_administration (so_installed (su_observation update))) \<and>
            length (in_counters (so_installed b)) = length (in_counters (so_installed (su_observation update))) \<and>
            (\<forall>n \<in> set (in_counters (so_installed (su_observation update))). \<exists>m \<in> set (in_counters (so_installed b)).
               counterKey m = counterKey n \<and> ct_limit m = ct_limit n \<and> bigInt (ct_used m) \<le> bigInt (ct_used n))
          else \<forall>n \<in> set (in_counters (so_installed (su_observation update))). ct_used n = ''0'')"
proof -
  let ?o = "so_installed (su_observation update)"
  from assms(1) have r': "r' = observedRecord r (su_observation update) grantActive now" by (cases rule: observed_se_cases) simp_all
  have st: "observedState r ?o grantActive = SsActive" and inv: "observedInvalidation r ?o now = None"
    using observedRecord_active(1) [of r "su_observation update" grantActive now] assms(2) unfolding r' by blast+
  have a: "\<not> retired (se_compiled r) ?o" "\<not> expired (se_compiled r) ?o" "se_revocation r = None" "in_enabled ?o" "grantActive"
    using st unfolding observedState_active by simp_all
  have p: "\<not> poisoned r" "\<not> countersChanged (map_option so_installed (se_observation r)) ?o"
    "\<not> hadEnabled (map_option so_installed (se_observation r)) \<Longrightarrow> \<not> list_ex (\<lambda>counter. ct_used counter \<noteq> ''0'') (in_counters ?o)"
    "\<not> administrationChanged (map_option so_installed (se_observation r)) ?o"
    "\<And>b. se_observation r = Some b \<Longrightarrow> in_enabled (so_installed b) \<Longrightarrow> same (in_configurationHash (so_installed b)) (in_configurationHash ?o)"
    using inv a by (auto simp: observedInvalidation_def Let_def split: if_splits)
  have e: "poisoned p \<longrightarrow> endSeen H p r" using poison_history [OF assms(3)] p(1) a(3) by blast
  have prior: "\<exists>m \<in> set (in_counters q). counterKey m = k \<and> m = c" if "priorCounter q k = Some c" for q k c
    using map_of_SomeD [OF that [unfolded priorCounter_def]] by auto
  have used: "\<exists>m \<in> set (in_counters (so_installed b)). counterKey m = counterKey n \<and> ct_limit m = ct_limit n \<and> bigInt (ct_used m) \<le> bigInt (ct_used n)"
    if b: "se_observation r = Some b" "in_enabled (so_installed b)" and n: "n \<in> set (in_counters ?o)" for b n
  proof -
    obtain c where "priorCounter (so_installed b) (counterKey n) = Some c" "ct_limit c = ct_limit n" "\<not> bigInt (ct_used n) < bigInt (ct_used c)"
      using p(2) b n by (auto simp: countersChanged_def list_ex_iff split: option.splits)
    then show ?thesis using prior by fastforce
  qed
  show ?thesis
  proof (cases "se_observation r")
    case None
    then show ?thesis using a e p(1,3) by (simp add: expired_def hadEnabled_def list_ex_iff not_le)
  next
    case (Some b)
    then show ?thesis using a e p used
      by (auto simp: expired_def hadEnabled_def list_ex_iff not_le administrationChanged_def countersChanged_def)
  qed
qed

theorem session_wellformed_witness:
  "uuid_se sampleUuid \<and> enabledNow sampleActive \<and> se_activation sampleActive \<noteq> None \<and> se_revocation sampleActive = None"
proof -
  have "js_get (ms_records (sampleSe sampleActive [''create'', ''activate''])) sampleUuid = Some sampleActive" by (simp add: sampleSe_simps)
  from session_wellformed [OF sample_se_run this] show ?thesis by simp
qed

theorem session_budget_never_refreshed_witness:
  "\<exists>m \<in> set (in_counters (so_installed (sampleSeen ''0'' ''5'' 1002000))). bigInt (ct_used m) \<le> 9"
proof -
  have "se_state sampleSpent = SsActive" by simp
  from session_budget_never_refreshed [OF sample_apply_observed(2) this rtranclp.rtrancl_refl] show ?thesis
    by (simp add: sampleSeen_fields sampleSeUpdate_def sample_numbers)
qed

end
