(* ===== verification/PgRefinement.thy ===== *)
theory PgRefinement
  imports PgUserOperations UserOperationProperties SessionProperties
begin

text \<open>
  The PostgreSQL user operation store does what the in-memory store does. \<open>pg_sim\<close> relates the tables to a
  state of the in-memory store; every committed transaction is an operation of that store, and a
  transaction that throws changes nothing. The properties of the in-memory store therefore hold of the tables.
\<close>

section \<open>The tables as a store in memory\<close>

definition rowActor :: "OperationRow \<Rightarrow> RestActor" where
  "rowActor w = \<lparr>accountId = ow_accountId w, principalId = ow_principalId w\<rparr>"

definition rowOk :: "OperationRow \<Rightarrow> bool" where
  "rowOk w \<longleftrightarrow> ow_id w = ur_id (ow_document w) \<and> ow_accountId w = accountId (ur_actor (ow_document w)) \<and>
     ow_principalId w = principalId (ur_actor (ow_document w)) \<and> ow_preparationKey w = ur_preparationKey (ow_document w) \<and>
     assertText (ur_id (ow_document w)) = Inr () \<and> ow_createdAt w = ur_createdAt (ow_document w) \<and> ow_submissionKey w = map_option um_key (ur_submission (ow_document w))"

definition nonceCoordinates :: "NonceRow \<Rightarrow> int \<times> string \<times> string" where
  "nonceCoordinates w = (nw_chainId w, nw_sender w, nw_nonce w)"

definition operationDocuments :: "OperationRow list \<Rightarrow> (string, UserOperationRecord) jsmap" where
  "operationDocuments rows = map (\<lambda>w. (ow_id w, ow_document w)) rows"

definition operationKeys :: "OperationRow list \<Rightarrow> (string, string) jsmap" where
  "operationKeys rows = map (\<lambda>w. (preparationKey_uo (rowActor w) (ow_preparationKey w), ow_id w)) rows"

abbreviation nonceAgrees :: "NonceBinding \<Rightarrow> NonceRow \<Rightarrow> bool" where
  "nonceAgrees \<equiv> \<lambda>b w. nb_id b = nw_operationId w \<and> same (nb_commitment b) (nw_signedCommitment w)"

text \<open>\<open>D\<close> holds what the in-memory store \<open>s\<close> holds.\<close>

definition pg_sim :: "Database \<Rightarrow> UserOperationStore \<Rightarrow> bool" where
  "pg_sim D s \<longleftrightarrow> us_records s = operationDocuments (db_operations D) \<and> us_preparations s = operationKeys (db_operations D) \<and>
     (\<forall>w \<in> set (db_operations D). rowOk w) \<and> distinct (map nonceCoordinates (db_operationNonces D)) \<and>
     (\<forall>actor k i. js_get (us_submissions s) (preparationKey_uo actor k) = Some i \<longrightarrow>
        (\<exists>w \<in> set (db_operations D). ow_id w = i \<and> ow_accountId w = accountId actor \<and> ow_principalId w = principalId actor \<and> ow_submissionKey w = Some k)) \<and>
     (\<forall>r. rel_option nonceAgrees (js_get (us_nonces s) (nonceKey_uo r)) (nonceRow r D)) \<and>
     rowBound (db_transports D) = boundTo (us_transports s)"

lemma pg_simD:
  assumes "pg_sim D s"
  shows "us_records s = operationDocuments (db_operations D)" and "us_preparations s = operationKeys (db_operations D)"
    and "w \<in> set (db_operations D) \<Longrightarrow> rowOk w" and "distinct (map nonceCoordinates (db_operationNonces D))"
    and "js_get (us_submissions s) (preparationKey_uo actor k) = Some i \<Longrightarrow>
      \<exists>w \<in> set (db_operations D). ow_id w = i \<and> ow_accountId w = accountId actor \<and> ow_principalId w = principalId actor \<and> ow_submissionKey w = Some k"
    and "rel_option nonceAgrees (js_get (us_nonces s) (nonceKey_uo r)) (nonceRow r D)"
    and "rowBound (db_transports D) = boundTo (us_transports s)"
  using assms unfolding pg_sim_def by blast+

lemma pg_documents: "pg_sim D s \<Longrightarrow> js_get (us_records s) i = map_option ow_document (operationRow i D)"
  by (simp add: pg_simD(1) operationDocuments_def map_of_rows operationRow_def)

lemma operationRow_Some: "operationRow i D = Some w \<Longrightarrow> w \<in> set (db_operations D) \<and> ow_id w = i"
  by (auto simp: operationRow_def find_Some_iff)

lemma pg_preparations: "pg_sim D s \<Longrightarrow> js_get (us_preparations s) (preparationKey_uo actor k) =
    map_option ow_id (List.find (\<lambda>w. ow_accountId w = accountId actor \<and> ow_principalId w = principalId actor \<and> ow_preparationKey w = k) (db_operations D))"
proof -
  assume "pg_sim D s"
  moreover have "(\<lambda>w. preparationKey_uo (rowActor w) (ow_preparationKey w) = preparationKey_uo actor k) =
      (\<lambda>w. ow_accountId w = accountId actor \<and> ow_principalId w = principalId actor \<and> ow_preparationKey w = k)"
    by (auto simp: preparationKey_uo_def rowActor_def fun_eq_iff)
  ultimately show ?thesis by (simp add: pg_simD(2) operationKeys_def map_of_rows)
qed

lemma transact_Inr: "transact f D = (Inr x, D') \<longleftrightarrow> f D = Inr (x, D')"
  by (auto simp: transact_def split: sum.splits prod.splits)

lemma transact_Inl: "transact f D = (Inl e, D') \<longleftrightarrow> f D = Inl e \<and> D' = D"
  by (auto simp: transact_def split: sum.splits prod.splits)

lemma required_pg_Inr: "required_pg i D = Inr r \<Longrightarrow> \<exists>w. operationRow i D = Some w \<and> r = ow_document w \<and> assertText i = Inr ()"
  by (auto simp: required_pg_def bindR_eq_Inr clone_uo_Inr split: option.splits)

definition savedRows :: "UserOperationRecord \<Rightarrow> OperationRow list \<Rightarrow> OperationRow list" where
  "savedRows r rows = map (\<lambda>w. if ow_id w = ur_id r then w\<lparr>ow_document := r, ow_submissionKey := map_option um_key (ur_submission r)\<rparr> else w) rows"

lemma save_pg_Inr:
  assumes "save_pg r D = Inr (x, D')"
  shows "x = r" "D' = D\<lparr>db_operations := savedRows r (db_operations D)\<rparr>" "cloneRecord_uo r = Inr r"
  using assms by (auto simp: save_pg_def Let_def bindR_eq_Inr clone_uo_Inr savedRows_def)

lemma savedRows_documents:
  assumes "distinct (map ow_id rows)" and "ur_id r \<in> ow_id ` set rows"
  shows "operationDocuments (savedRows r rows) = js_set (ur_id r) r (operationDocuments rows)"
  unfolding operationDocuments_def savedRows_def by (rule updated_rows [OF assms]) simp_all

lemma savedRows_mem: "w \<in> set rows \<Longrightarrow>
  (if ow_id w = ur_id r then w\<lparr>ow_document := r, ow_submissionKey := map_option um_key (ur_submission r)\<rparr> else w) \<in> set (savedRows r rows)"
  unfolding savedRows_def set_map by (rule imageI)

lemma savedRows_keys: "operationKeys (savedRows r rows) = operationKeys rows"
  by (auto simp: operationKeys_def savedRows_def rowActor_def)

text \<open>Saving a record that keeps its identity keeps the two stores alike.\<close>

lemma pg_sim_save:
  assumes "pg_sim D s" and "js_wf (us_records s)" and "js_get (us_records s) (ur_id r) = Some x"
    and "ur_id x = ur_id r" "ur_actor x = ur_actor r" "ur_preparationKey x = ur_preparationKey r" "ur_createdAt x = ur_createdAt r"
    and "ur_submission x = ur_submission r \<and> us_submissions s' = us_submissions s \<or>
      ur_submission x = None \<and> (\<exists>b. ur_submission r = Some b \<and> us_submissions s' = js_set (preparationKey_uo (ur_actor r) (um_key b)) (ur_id r) (us_submissions s))"
    and "us_records s' = js_set (ur_id r) r (us_records s)" "us_preparations s' = us_preparations s"
    and "db_operations D' = savedRows r (db_operations D)" "distinct (map nonceCoordinates (db_operationNonces D'))"
    and "\<And>q. rel_option nonceAgrees (js_get (us_nonces s') (nonceKey_uo q)) (nonceRow q D')"
    and "rowBound (db_transports D') = boundTo (us_transports s')"
  shows "pg_sim D' s'"
proof -
  note sim = pg_simD [OF assms(1)]
  obtain w where w: "operationRow (ur_id r) D = Some w" "ow_document w = x" using assms(3) pg_documents [OF assms(1)] by auto
  have ids: "distinct (map ow_id (db_operations D))" using assms(2) by (simp add: sim(1) operationDocuments_def o_def)
  have mem: "w \<in> set (db_operations D)" "ow_id w = ur_id r" using operationRow_Some [OF w(1)] by simp_all
  have uniq: "v = w" if "v \<in> set (db_operations D)" "ow_id v = ur_id r" for v
    using ids that mem by (metis distinct_map inj_onD)
  have docs: "us_records s' = operationDocuments (db_operations D')"
    using savedRows_documents [OF ids, of r] imageI [OF mem(1), of ow_id] mem(2) by (simp add: assms(9,11) sim(1))
  have rows: "rowOk v" if "v \<in> set (db_operations D')" for v
  proof -
    obtain u where u: "u \<in> set (db_operations D)" "v = (if ow_id u = ur_id r then u\<lparr>ow_document := r, ow_submissionKey := map_option um_key (ur_submission r)\<rparr> else u)"
      using \<open>v \<in> set (db_operations D')\<close> by (auto simp: assms(11) savedRows_def)
    show ?thesis
    proof (cases "ow_id u = ur_id r")
      case True
      then have "rowOk w" "u = w" using sim(3) mem(1) uniq u(1) by blast+
      then show ?thesis using u(2) True w(2) assms(4-7) by (auto simp: rowOk_def rowActor_def)
    qed (use u sim(3) in auto)
  qed
  have kept: "\<exists>v \<in> set (db_operations D'). ow_id v = i \<and> ow_accountId v = accountId actor \<and> ow_principalId v = principalId actor \<and> ow_submissionKey v = Some k"
    if j: "js_get (us_submissions s) (preparationKey_uo actor k) = Some i" for actor k i
  proof -
    obtain u where u: "u \<in> set (db_operations D)" "ow_id u = i" "ow_accountId u = accountId actor" "ow_principalId u = principalId actor" "ow_submissionKey u = Some k"
      using sim(5) [OF j] by blast
    show ?thesis
    proof (cases "i = ur_id r")
      case True
      then have "u = w" using uniq u(1,2) by blast
      moreover have "rowOk w" using sim(3) mem(1) by blast
      ultimately have "ur_submission x \<noteq> None" "ur_submission x = ur_submission r" "ow_submissionKey u = map_option um_key (ur_submission r)"
        using u(5) w(2) assms(8) by (auto simp: rowOk_def)
      then show ?thesis using u True savedRows_mem [OF u(1), of r] unfolding assms(11) by (auto intro!: bexI [OF _ savedRows_mem [OF u(1)]])
    next
      case False
      then show ?thesis using u unfolding assms(11) by (auto intro!: bexI [OF _ savedRows_mem [OF u(1)]])
    qed
  qed
  have "\<exists>v \<in> set (db_operations D'). ow_id v = i \<and> ow_accountId v = accountId actor \<and> ow_principalId v = principalId actor \<and> ow_submissionKey v = Some k"
    if j: "js_get (us_submissions s') (preparationKey_uo actor k) = Some i" for actor k i
    using assms(8)
  proof (elim disjE conjE exE)
    fix b assume b: "ur_submission x = None" "ur_submission r = Some b" "us_submissions s' = js_set (preparationKey_uo (ur_actor r) (um_key b)) (ur_id r) (us_submissions s)"
    show ?thesis
    proof (cases "preparationKey_uo actor k = preparationKey_uo (ur_actor r) (um_key b)")
      case True
      have "rowOk w" using sim(3) mem(1) by blast
      then show ?thesis using True j b mem assms(5) w(2) unfolding assms(11)
        by (auto simp: rowOk_def rowActor_def preparationKey_uo_def intro!: bexI [OF _ savedRows_mem [OF mem(1)]])
    next
      case False
      then show ?thesis using j b(3) kept by simp
    qed
  qed (use j kept in simp)
  then show ?thesis unfolding pg_sim_def using docs rows assms(10,12-14) sim(2) savedRows_keys [of r "db_operations D"]
    by (auto simp: assms(11))
qed

section \<open>Every transaction is an operation of the in-memory store\<close>

abbreviation admits :: guard where "admits actor scopes now \<equiv> Inr ()"

lemma row_of_operation:
  assumes "pg_sim D s" and "uo_inv s" and "w \<in> set (db_operations D)"
  shows "js_get (us_records s) (ow_id w) = Some (ow_document w)"
proof -
  have "distinct (map fst (us_records s))" using uo_invD(1) [OF assms(2)] .
  moreover have "(ow_id w, ow_document w) \<in> set (us_records s)" using assms(3) by (auto simp: pg_simD(1) [OF assms(1)] operationDocuments_def)
  ultimately show ?thesis by (simp add: map_of_eq_Some_iff)
qed

lemma create_pg_sim:
  assumes sim: "pg_sim D s" and inv: "uo_inv s" and c: "create_pg V H active clock checks input now D = (Inr r, D')"
  shows "\<exists>s'. create_uo V admits (\<lambda>_ _. Inr ()) (\<lambda>_. clock 1) input now s = (Inr r, s') \<and> pg_sim D' s'"
proof -
  have n: "assertNew_uo input now (defaultCodec V) = Inr ()" "cloneRecord_uo input = Inr input"
    using c by (auto simp: create_pg_def attempt_eq_Inr clone_uo_Inr)
  note t = c [unfolded create_pg_def, simplified n attempt_simps transact_Inr]
  show ?thesis
  proof (cases "List.find (\<lambda>w. ow_accountId w = accountId (ur_actor input) \<and> ow_principalId w = principalId (ur_actor input) \<and>
      ow_preparationKey w = ur_preparationKey input) (db_operations D)")
    case (Some w)
    have wd: "w \<in> set (db_operations D)" "ow_accountId w = accountId (ur_actor input)" "ow_principalId w = principalId (ur_actor input)"
      using Some by (auto simp: find_Some_iff)
    have ok: "rowOk w" using pg_simD(3) [OF sim wd(1)] .
    have r: "same (ur_inputHash (ow_document w)) (ur_inputHash input)" "cloneRecord_uo (ow_document w) = Inr (ow_document w)" "r = ow_document w" "D' = D"
      using t Some by (auto simp: bindR_eq_Inr ensure_eq_Inr clone_uo_Inr)
    have p: "js_get (us_preparations s) (preparationKey_uo (ur_actor input) (ur_preparationKey input)) = Some (ow_id w)"
      using pg_preparations [OF sim] Some by simp
    note g = row_of_operation [OF sim inv wd(1)]
    have "assertActor (ur_actor input) = Inr ()" using n(1) by (auto simp: assertNew_uo_def bindR_eq_Inr)
    moreover have "assertText (ow_id w) = Inr ()" using ok by (simp add: rowOk_def)
    moreover have "owns_uo (ow_document w) (ur_actor input)" using ok wd by (auto simp: owns_uo_def rowOk_def rowActor_def)
    ultimately have "required_uo s (ur_actor input) (ow_id w) = Inr (ow_document w)" using g by (simp add: required_uo_def)
    then show ?thesis using n p r sim by (auto simp: create_uo_def)
  next
    case None
    let ?row = "\<lparr>ow_id = ur_id input, ow_accountId = accountId (ur_actor input), ow_principalId = principalId (ur_actor input),
      ow_preparationKey = ur_preparationKey input, ow_submissionKey = None, ow_createdAt = ur_createdAt input, ow_document = input\<rparr>"
    have f: "assertNew_uo input (clock 1) (defaultCodec V) = Inr ()" "operationRow (ur_id input) D = None" "r = input"
      "length (filter (\<lambda>row. ow_accountId row = accountId (ur_actor input)) (db_operations D)) < recordsPerAccount_uo"
      "D' = D\<lparr>db_operations := db_operations D @ [?row]\<rparr>"
      using t None by (auto simp: bindR_eq_Inr ensure_eq_Inr clone_uo_Inr not_le)
    have p: "js_get (us_preparations s) (preparationKey_uo (ur_actor input) (ur_preparationKey input)) = None" using pg_preparations [OF sim] None by simp
    have g: "js_get (us_records s) (ur_id input) = None" using pg_documents [OF sim] f(2) by simp
    have "filter (\<lambda>x. accountId (ur_actor x) = a) (map ow_document (db_operations D)) = map ow_document (filter (\<lambda>w. ow_accountId w = a) (db_operations D))" for a
      using pg_simD(3) [OF sim] by (auto simp: filter_map o_def rowOk_def intro!: arg_cong [where f = "map ow_document"] filter_cong)
    then have n: "count_values (\<lambda>x. accountId (ur_actor x) = accountId (ur_actor input)) (us_records s) < recordsPerAccount_uo"
      using f(4) by (simp add: count_values_def pg_simD(1) [OF sim] operationDocuments_def o_def)
    have "pg_sim D' (s\<lparr>us_preparations := js_set (preparationKey_uo (ur_actor input) (ur_preparationKey input)) (ur_id input) (us_preparations s),
        us_records := js_set (ur_id input) input (us_records s)\<rparr>)" (is "pg_sim D' ?s")
      unfolding pg_sim_def
    proof (intro conjI)
      have k: "preparationKey_uo (rowActor ?row) (ow_preparationKey ?row) = preparationKey_uo (ur_actor input) (ur_preparationKey input)"
        by (simp add: rowActor_def preparationKey_uo_def)
      show "us_records ?s = operationDocuments (db_operations D')" using js_set_fresh [OF g] by (simp add: f(5) pg_simD(1) [OF sim] operationDocuments_def)
      show "us_preparations ?s = operationKeys (db_operations D')" using js_set_fresh [OF p] k by (simp add: f(5) pg_simD(2) [OF sim] operationKeys_def)
      have "ur_submission input = None" "assertText (ur_id input) = Inr ()" using f(1) by (auto simp: assertNew_uo_def bindR_eq_Inr ensure_eq_Inr)
      then show "\<forall>w \<in> set (db_operations D'). rowOk w" using pg_simD(3) [OF sim] by (auto simp: f(5) rowOk_def)
      show "distinct (map nonceCoordinates (db_operationNonces D'))" using pg_simD(4) [OF sim] by (simp add: f(5))
      show "\<forall>actor k i. js_get (us_submissions ?s) (preparationKey_uo actor k) = Some i \<longrightarrow>
        (\<exists>w \<in> set (db_operations D'). ow_id w = i \<and> ow_accountId w = accountId actor \<and> ow_principalId w = principalId actor \<and> ow_submissionKey w = Some k)"
        using pg_simD(5) [OF sim] by (fastforce simp: f(5))
      show "\<forall>r. rel_option nonceAgrees (js_get (us_nonces ?s) (nonceKey_uo r)) (nonceRow r D')"
        using pg_simD(6) [OF sim] by (simp add: f(5) nonceRow_def)
      show "rowBound (db_transports D') = boundTo (us_transports ?s)" using pg_simD(7) [OF sim] by (simp add: f(5))
    qed
    then show ?thesis using n f(1,3) p g \<open>assertNew_uo input now (defaultCodec V) = Inr ()\<close> \<open>cloneRecord_uo input = Inr input\<close>
      by (auto simp: create_uo_def Let_def)
  qed
qed

lemma claimTransport_pg_Inr:
  assumes "claimTransport_pg r D = Inr D1"
  obtains T where "claimPostgresTransport (ur_planId r) (ur_stepIndexes r) Erc4337 (ur_id r) (db_transports D) = (Inr (), T)" "D1 = D\<lparr>db_transports := T\<rparr>"
  using assms by (auto simp: claimTransport_pg_def split: prod.splits sum.splits)

lemma nonceRow_coordinates: "nonceRow q D = List.find (\<lambda>row. nonceCoordinates row = (ur_chainId q, toLowerCase (ur_sender q), nonceText q)) (db_operationNonces D)"
  by (simp add: nonceRow_def nonceCoordinates_def)

lemma nonceKey_coordinates: "nonceKey_uo q = nonceKey_uo r \<longleftrightarrow>
  (ur_chainId q, toLowerCase (ur_sender q), nonceText q) = (ur_chainId r, toLowerCase (ur_sender r), nonceText r)"
  by (simp add: nonceKey_uo_def nonceText_def)

lemma insertNonce_row:
  "nonceRow q (insertNonce r commitment D) = (case nonceRow q D of Some w \<Rightarrow> Some w
     | None \<Rightarrow> if nonceKey_uo q = nonceKey_uo r
         then Some \<lparr>nw_chainId = ur_chainId r, nw_sender = toLowerCase (ur_sender r), nw_nonce = nonceText r, nw_entryPoint = toLowerCase (ur_entryPoint r),
           nw_operationHash = toLowerCase (ur_operationHash r), nw_signedCommitment = toLowerCase commitment, nw_operationId = ur_id r\<rparr> else None)"
  by (auto simp: insertNonce_def nonceRow_def find_append nonceKey_coordinates split: option.splits)

lemma insertNonce_distinct:
  assumes "distinct (map nonceCoordinates (db_operationNonces D))"
  shows "distinct (map nonceCoordinates (db_operationNonces (insertNonce r commitment D)))"
proof (cases "nonceRow r D")
  case None
  then have "(ur_chainId r, toLowerCase (ur_sender r), nonceText r) \<notin> nonceCoordinates ` set (db_operationNonces D)"
    unfolding nonceRow_coordinates find_None_iff by force
  then show ?thesis using assms None by (simp add: insertNonce_def nonceCoordinates_def)
qed (use assms in \<open>simp add: insertNonce_def\<close>)

lemma insertNonce_other: "db_operations (insertNonce r commitment D) = db_operations D" "db_transports (insertNonce r commitment D) = db_transports D"
  by (simp_all add: insertNonce_def)

text \<open>What a transaction that hands an operation to the bundler went through.\<close>

lemma claim_pg_True:
  assumes "claim_pg V H active clock checks input D = (Inr (r', True), D')"
  obtains w fresh initial D1 where "assertClaim_uo input = Inr ()" "clone_uo json_of_UserOperationClaim input = Inr input"
    "active 0 (uc_actor input) [Relay] (uc_now input div 1000) = Inr ()" "active 1 (uc_actor input) [Relay] (clock 0 div 1000) = Inr ()"
    "operationRow (uc_id input) D = Some w"
    "\<not> list_ex (\<lambda>row. ow_accountId row = accountId (uc_actor input) \<and> ow_principalId row = principalId (uc_actor input) \<and>
       ow_submissionKey row = Some (uc_key input) \<and> ow_id row \<noteq> uc_id input) (db_operations D)"
    "claimed_uo (ow_document w) (input\<lparr>uc_now := clock 0\<rparr>) (defaultCodec V) = Inr (initial, True)"
    "dispatchRecord (ow_document w) input = Inr fresh" "currentAuthority H (checks 0) fresh (clock 0) D = Inr ()"
    "claimTransport_pg (ow_document w) D = Inr D1"
    "nonceHeld (ow_document w) (uc_signedCommitment input) (insertNonce (ow_document w) (uc_signedCommitment input) D1) = Inr ()"
    "currentAuthority H (checks 1) fresh (clock 1) (insertNonce (ow_document w) (uc_signedCommitment input) D1) = Inr ()"
    "claimed_uo (ow_document w) (input\<lparr>uc_now := clock 2\<rparr>) (defaultCodec V) = Inr (r', True)"
    "save_pg r' (insertNonce (ow_document w) (uc_signedCommitment input) D1) = Inr (r', D')"
proof -
  have n: "assertClaim_uo input = Inr ()" "clone_uo json_of_UserOperationClaim input = Inr input"
    using assms by (auto simp: claim_pg_def attempt_eq_Inr clone_uo_Inr)
  have d: "dispatchRecord x (input\<lparr>uc_now := t\<rparr>) = dispatchRecord x input" for x t by (simp add: dispatchRecord_def split: option.splits)
  note t = assms [unfolded claim_pg_def, simplified n attempt_simps transact_Inr Let_def]
  from t obtain w where w: "operationRow (uc_id input) D = Some w" "required_pg (uc_id input) D = Inr (ow_document w)"
    by (auto simp: bindR_eq_Inr dest: required_pg_Inr)
  from t w(2) obtain initial dispatch where i: "claimed_uo (ow_document w) (input\<lparr>uc_now := clock 0\<rparr>) (defaultCodec V) = Inr (initial, dispatch)" and dispatch
    by (auto simp: bindR_eq_Inr split: if_splits)
  with t w(2) obtain fresh D1 result D3 where r: "active 0 (uc_actor input) [Relay] (uc_now input div 1000) = Inr ()"
    "active 1 (uc_actor input) [Relay] (clock 0 div 1000) = Inr ()"
    "\<not> list_ex (\<lambda>row. ow_accountId row = accountId (uc_actor input) \<and> ow_principalId row = principalId (uc_actor input) \<and>
       ow_submissionKey row = Some (uc_key input) \<and> ow_id row \<noteq> uc_id input) (db_operations D)"
    "dispatchRecord (ow_document w) input = Inr fresh" "currentAuthority H (checks 0) fresh (clock 0) D = Inr ()"
    "claimTransport_pg (ow_document w) D = Inr D1"
    "nonceHeld (ow_document w) (uc_signedCommitment input) (insertNonce (ow_document w) (uc_signedCommitment input) D1) = Inr ()"
    "currentAuthority H (checks 1) fresh (clock 1) (insertNonce (ow_document w) (uc_signedCommitment input) D1) = Inr ()"
    "claimed_uo (ow_document w) (input\<lparr>uc_now := clock 2\<rparr>) (defaultCodec V) = Inr (result, True)"
    "save_pg result (insertNonce (ow_document w) (uc_signedCommitment input) D1) = Inr (r', D')"
    by (auto simp: bindR_eq_Inr ensure_eq_Inr d)
  moreover have "result = r'" using save_pg_Inr(1) [OF r(10)] by simp
  ultimately show ?thesis using n w(1) i \<open>dispatch\<close> by (intro that [of w initial fresh D1]) simp_all
qed

lemma uo_identity_created: "uo_identity r' = uo_identity r \<Longrightarrow> ur_createdAt r' = ur_createdAt r"
  by (cases r; cases r') (simp add: uo_identity_def)

lemma nonces_after_claim:
  assumes sim: "pg_sim D s" and held: "nonceHeld r commitment (insertNonce r commitment D1) = Inr ()" and "db_operationNonces D1 = db_operationNonces D"
  shows "(case js_get (us_nonces s) (nonceKey_uo r) of None \<Rightarrow> True | Some b \<Rightarrow> nb_id b = ur_id r \<and> same (nb_commitment b) commitment)"
    and "rel_option nonceAgrees
       (js_get (js_set (nonceKey_uo r) \<lparr>nb_id = ur_id r, nb_commitment = commitment\<rparr> (us_nonces s)) (nonceKey_uo q)) (nonceRow q (insertNonce r commitment D1))"
proof -
  have row: "nonceRow q D1 = nonceRow q D" for q by (simp add: nonceRow_def assms(3))
  obtain w where w: "nonceRow r (insertNonce r commitment D1) = Some w" "nw_operationId w = ur_id r" "same (nw_signedCommitment w) commitment"
    using held by (auto simp: nonceHeld_def ensure_eq_Inr split: option.splits)
  show "case js_get (us_nonces s) (nonceKey_uo r) of None \<Rightarrow> True | Some b \<Rightarrow> nb_id b = ur_id r \<and> same (nb_commitment b) commitment"
    using pg_simD(6) [OF sim, of r] w by (auto simp: insertNonce_row row rel_option_iff split: option.splits intro: same_trans)
  show "rel_option nonceAgrees
       (js_get (js_set (nonceKey_uo r) \<lparr>nb_id = ur_id r, nb_commitment = commitment\<rparr> (us_nonces s)) (nonceKey_uo q)) (nonceRow q (insertNonce r commitment D1))"
  proof (cases "nonceKey_uo q = nonceKey_uo r")
    case True
    then have "nonceRow q X = nonceRow r X" for X unfolding nonceRow_coordinates nonceKey_coordinates by simp
    then show ?thesis using True w by (simp add: same_sym)
  next
    case False
    then show ?thesis using pg_simD(6) [OF sim, of q] by (auto simp: insertNonce_row row split: option.splits)
  qed
qed

lemma claim_pg_sim_True:
  assumes sim: "pg_sim D s" and inv: "uo_inv s" and c: "claim_pg V H active clock checks input D = (Inr (r', True), D')"
  shows "\<exists>s'. claim_uo V admits (\<lambda>_ _. Inr ()) (\<lambda>n. if n = 3 then clock 2 else clock 0) input s = (Inr (r', True), s') \<and> pg_sim D' s'"
  using c
proof (rule claim_pg_True)
  fix w :: OperationRow and fresh initial D1
  let ?x = "ow_document w" and ?h = "uc_signedCommitment input"
  assume n: "assertClaim_uo input = Inr ()" "clone_uo json_of_UserOperationClaim input = Inr input" and w: "operationRow (uc_id input) D = Some w"
    and once: "\<not> list_ex (\<lambda>row. ow_accountId row = accountId (uc_actor input) \<and> ow_principalId row = principalId (uc_actor input) \<and>
       ow_submissionKey row = Some (uc_key input) \<and> ow_id row \<noteq> uc_id input) (db_operations D)"
    and first: "claimed_uo ?x (input\<lparr>uc_now := clock 0\<rparr>) (defaultCodec V) = Inr (initial, True)" and d: "dispatchRecord ?x input = Inr fresh"
    and tr: "claimTransport_pg ?x D = Inr D1" and held: "nonceHeld ?x ?h (insertNonce ?x ?h D1) = Inr ()"
    and second: "claimed_uo ?x (input\<lparr>uc_now := clock 2\<rparr>) (defaultCodec V) = Inr (r', True)"
    and save: "save_pg r' (insertNonce ?x ?h D1) = Inr (r', D')"
  obtain T where T: "claimPostgresTransport (ur_planId ?x) (ur_stepIndexes ?x) Erc4337 (ur_id ?x) (db_transports D) = (Inr (), T)" "D1 = D\<lparr>db_transports := T\<rparr>"
    using tr by (rule claimTransport_pg_Inr)
  obtain t where t: "claim_transport (ur_planId ?x) (ur_stepIndexes ?x) Erc4337 (ur_id ?x) (us_transports s) = (Inr (), t)" "rowBound T = boundTo t"
    using transports_agree [OF pg_simD(7) [OF sim], of "ur_planId ?x" "ur_stepIndexes ?x" Erc4337 "ur_id ?x"] T(1) by (metis fst_conv snd_conv prod.collapse)
  have g: "js_get (us_records s) (uc_id input) = Some ?x" using pg_documents [OF sim] w by simp
  have i: "ur_id ?x = uc_id input" using uo_invD(2) [OF inv g] by (simp add: held_def)
  have own: "ur_actor ?x = uc_actor input" using second by (cases rule: claimed_uo_cases) simp_all
  have r: "required_uo s (uc_actor input) (uc_id input) = Inr ?x"
    using n(1) g own by (auto simp: required_uo_def assertClaim_uo_def bindR_eq_Inr owns_uo_def)
  have u: "\<not> (case js_get (us_submissions s) (preparationKey_uo (uc_actor input) (uc_key input)) of None \<Rightarrow> False | Some used \<Rightarrow> used \<noteq> uc_id input)"
    using pg_simD(5) [OF sim, of "uc_actor input" "uc_key input"] once by (fastforce simp: list_ex_iff split: option.splits)
  note nn = nonces_after_claim [OF sim held, unfolded T(2), simplified]
  have nc: "\<not> (case js_get (us_nonces s) (nonceKey_uo ?x) of None \<Rightarrow> False | Some b \<Rightarrow> nb_id b \<noteq> ur_id ?x \<or> \<not> same (nb_commitment b) ?h)"
    using nn(1) by (auto split: option.splits)
  note sv = save_pg_Inr [OF save]
  define s' where "s' = s\<lparr>us_transports := t, us_nonces := js_set (nonceKey_uo ?x) \<lparr>nb_id = ur_id ?x, nb_commitment = ?h\<rparr> (us_nonces s),
    us_submissions := js_set (preparationKey_uo (uc_actor input) (uc_key input)) (ur_id ?x) (us_submissions s), us_records := js_set (ur_id ?x) r' (us_records s)\<rparr>"
  have run: "claim_uo V admits (\<lambda>_ _. Inr ()) (\<lambda>n. if n = 3 then clock 2 else clock 0) input s = (Inr (r', True), s')"
    by (simp add: claim_uo_def n r u first d nc second sv(3) t(1) s'_def)
  have idn: "uo_identity r' = uo_identity ?x" using uo_change_revision [OF uo_change.Claimed [OF second]] by simp
  note idf = uo_identityD [OF idn] uo_identity_created [OF idn]
  obtain b where b: "ur_submission r' = Some b" "um_key b = uc_key input" "ur_submission ?x = None"
    using second by (cases rule: claimed_uo_cases) (auto simp: publishedRecord_def)
  have "pg_sim D' s'"
  proof (rule pg_sim_save [OF sim uo_invD(1) [OF inv], where r = r' and x = ?x])
    show "js_get (us_records s) (ur_id r') = Some ?x" using g i idf by simp
    show "ur_id ?x = ur_id r'" "ur_actor ?x = ur_actor r'" "ur_preparationKey ?x = ur_preparationKey r'" "ur_createdAt ?x = ur_createdAt r'" using idf by simp_all
    show "ur_submission ?x = ur_submission r' \<and> us_submissions s' = us_submissions s \<or>
      ur_submission ?x = None \<and> (\<exists>b. ur_submission r' = Some b \<and> us_submissions s' = js_set (preparationKey_uo (ur_actor r') (um_key b)) (ur_id r') (us_submissions s))"
      using b idf own by (simp add: s'_def)
    show "us_records s' = js_set (ur_id r') r' (us_records s)" "us_preparations s' = us_preparations s" using idf by (simp_all add: s'_def)
    show "db_operations D' = savedRows r' (db_operations D)" using sv(2) T(2) by (simp add: insertNonce_other)
    show "distinct (map nonceCoordinates (db_operationNonces D'))" using sv(2) insertNonce_distinct [of D1] pg_simD(4) [OF sim] T(2) by simp
    show "rel_option nonceAgrees (js_get (us_nonces s') (nonceKey_uo q)) (nonceRow q D')" for q
      using nn(2) [of q] sv(2) T(2) by (simp add: s'_def nonceRow_def)
    show "rowBound (db_transports D') = boundTo (us_transports s')" using sv(2) T(2) t(2) by (simp add: s'_def insertNonce_other)
  qed
  with run show ?thesis by blast
qed

lemma claimed_dispatch: "claimed_uo r input codec = Inr (x, dispatch) \<Longrightarrow> dispatch \<longleftrightarrow> ur_submission r = None"
  by (erule claimed_uo_cases) simp_all

lemma claim_pg_False:
  assumes "claim_pg V H active clock checks input D = (Inr (r', False), D')"
  shows "D' = D"
proof -
  have n: "assertClaim_uo input = Inr ()" "clone_uo json_of_UserOperationClaim input = Inr input"
    using assms by (auto simp: claim_pg_def attempt_eq_Inr clone_uo_Inr)
  note t = assms [unfolded claim_pg_def, simplified n attempt_simps transact_Inr Let_def]
  then show ?thesis by (auto simp: bindR_eq_Inr dest!: claimed_dispatch split: if_splits)
qed

lemma pg_failed:
  "create_pg V H guard clock checks input now D = (Inl e, D') \<Longrightarrow> D' = D"
  "claim_pg V H active clock checks' claim D = (Inl e, D') \<Longrightarrow> D' = D"
  "settle_pg i commitment state D = (Inl e, D') \<Longrightarrow> D' = D"
  "observe_pg i revision observation D = (Inl e, D') \<Longrightarrow> D' = D"
  by (auto simp: create_pg_def claim_pg_def settle_pg_def observe_pg_def attempt_eq_Inl transact_Inl)

lemma settle_pg_sim:
  assumes sim: "pg_sim D s" and inv: "uo_inv s" and c: "settle_pg i commitment state D = (Inr r', D')"
  shows "\<exists>s'. settle_uo i commitment state s = (Inr r', s') \<and> pg_sim D' s'"
proof -
  obtain w x where w: "operationRow i D = Some w" "assertText i = Inr ()" "settled_uo (ow_document w) commitment state = Inr x" "save_pg x D = Inr (r', D')"
    using c by (auto simp: settle_pg_def transact_Inr bindR_eq_Inr dest!: required_pg_Inr)
  note sv = save_pg_Inr [OF w(4)]
  let ?x = "ow_document w"
  have g: "js_get (us_records s) i = Some ?x" using pg_documents [OF sim] w(1) by simp
  have i: "ur_id ?x = i" using uo_invD(2) [OF inv g] by (simp add: held_def)
  have idn: "uo_identity r' = uo_identity ?x" using uo_change_revision [OF uo_change.Settled [OF w(3)]] sv(1) by simp
  note idf = uo_identityD [OF idn] uo_identity_created [OF idn]
  have sub: "ur_submission ?x = ur_submission r'" using w(3) sv(1) by (cases rule: settled_uo_cases) simp_all
  let ?s = "s\<lparr>us_records := js_set i r' (us_records s)\<rparr>"
  have "settle_uo i commitment state s = (Inr r', ?s)" using w(2,3) g sv by (simp add: settle_uo_def Let_def)
  moreover have "pg_sim D' ?s"
    by (rule pg_sim_save [OF sim uo_invD(1) [OF inv], where r = r' and x = ?x])
      (use g i idf sub sv pg_simD(4,6,7) [OF sim] in \<open>simp_all add: nonceRow_def\<close>)
  ultimately show ?thesis by blast
qed

lemma deletedNonces_row:
  assumes "distinct (map nonceCoordinates rows)"
  shows "List.find (\<lambda>row. nonceCoordinates row = k) (filter (\<lambda>row. nw_operationId row \<noteq> i) rows) =
    (case List.find (\<lambda>row. nonceCoordinates row = k) rows of None \<Rightarrow> None | Some w \<Rightarrow> if nw_operationId w = i then None else Some w)"
  using assms
proof (induction rows)
  case (Cons a rows)
  show ?case
  proof (cases "nonceCoordinates a = k")
    case True
    then have "\<forall>v \<in> set rows. nonceCoordinates v \<noteq> k" using Cons(2) by (metis distinct.simps(2) imageI list.simps(9) list.set_map)
    then have "List.find (\<lambda>row. nonceCoordinates row = k) (filter (\<lambda>row. nw_operationId row \<noteq> i) rows) = None"
      by (simp add: find_None_iff)
    then show ?thesis using True by simp
  next
    case False
    then show ?thesis using Cons by simp
  qed
qed simp

lemma observe_pg_sim:
  assumes sim: "pg_sim D s" and inv: "uo_inv s" and c: "observe_pg i revision observation D = (Inr r', D')"
  shows "\<exists>s'. observe_uo i revision observation s = (Inr r', s') \<and> pg_sim D' s'"
proof -
  obtain w x where o: "clone_uo json_of_Observation observation = Inr observation" and
    w: "operationRow i D = Some w" "assertText i = Inr ()" "observed_uo (ow_document w) revision observation = Inr x"
      "save_pg x (if ur_state x = UExpired then D\<lparr>db_operationNonces := filter (\<lambda>row. nw_operationId row \<noteq> ur_id x) (db_operationNonces D)\<rparr> else D) = Inr (r', D')"
    using c by (auto simp: observe_pg_def attempt_eq_Inr transact_Inr bindR_eq_Inr Let_def clone_uo_Inr dest!: required_pg_Inr)
  note sv = save_pg_Inr [OF w(4)]
  let ?x = "ow_document w"
  have x: "x = r'" using sv(1) by simp
  have g: "js_get (us_records s) i = Some ?x" using pg_documents [OF sim] w(1) by simp
  have hd: "held s i ?x" using uo_invD(2) [OF inv g] .
  have i: "ur_id ?x = i" using hd by (simp add: held_def)
  have ch: "uo_change (defaultCodec V) ?x r'" for V using uo_change.Observed [OF w(3)] x by simp
  have idn: "uo_identity r' = uo_identity ?x" using uo_change_revision [OF ch] by simp
  note idf = uo_identityD [OF idn] uo_identity_created [OF idn]
  note ob = observed_uo_Inr [OF w(3), unfolded x]
  have key: "nonceKey_uo r' = nonceKey_uo ?x" using idf by (simp add: nonceKey_uo_def)
  have own: "map_option nb_id (js_get (us_nonces s) (nonceKey_uo ?x)) = Some i" using hd ob by (simp add: held_def liveOp_def)
  let ?n = "if ur_state r' = UExpired then js_delete (nonceKey_uo r') (us_nonces s) else us_nonces s"
  let ?s = "s\<lparr>us_nonces := ?n, us_records := js_set i r' (us_records s)\<rparr>"
  have run: "observe_uo i revision observation s = (Inr r', ?s)" using w(2,3) g sv(3) o by (simp add: observe_uo_def x Let_def)
  have rel: "rel_option nonceAgrees (js_get ?n (nonceKey_uo q)) (nonceRow q D')" for q
  proof (cases "ur_state r' = UExpired")
    case False
    then show ?thesis using pg_simD(6) [OF sim, of q] sv(2) x by (simp add: nonceRow_def)
  next
    case True
    have row: "nonceRow q D' = (case nonceRow q D of None \<Rightarrow> None | Some w \<Rightarrow> if nw_operationId w = i then None else Some w)"
      using deletedNonces_row [OF pg_simD(4) [OF sim]] sv(2) True x idf i by (simp add: nonceRow_coordinates)
    show ?thesis
    proof (cases "nonceKey_uo q = nonceKey_uo ?x")
      case same: True
      then have "map_option nw_operationId (nonceRow q D) = Some i" using pg_simD(6) [OF sim, of q] own by (auto simp: rel_option_iff split: option.splits)
      then show ?thesis using True same key row by (auto split: option.splits)
    next
      case other: False
      have "nw_operationId v \<noteq> i" if nv: "nonceRow q D = Some v" for v
      proof
        assume v: "nw_operationId v = i"
        then obtain b where b: "js_get (us_nonces s) (nonceKey_uo q) = Some b" "nb_id b = i" using pg_simD(6) [OF sim, of q] nv by (auto simp: rel_option_iff split: option.splits)
        then show False using uo_invD(3) [OF inv b(1)] g other by auto
      qed
      then show ?thesis using True other key row pg_simD(6) [OF sim, of q] by (auto split: option.splits)
    qed
  qed
  have "pg_sim D' ?s"
  proof (rule pg_sim_save [OF sim uo_invD(1) [OF inv], where r = r' and x = ?x])
    show "distinct (map nonceCoordinates (db_operationNonces D'))" using sv(2) pg_simD(4) [OF sim] distinct_map_filter by (auto split: if_splits)
    show "rel_option nonceAgrees (js_get (us_nonces ?s) (nonceKey_uo q)) (nonceRow q D')" for q
      using rel [of q] by simp
  qed (use g i idf ob sv(2) x pg_simD(7) [OF sim] in simp_all)
  with run show ?thesis by blast
qed

section \<open>Runs\<close>

text \<open>
  The other stores claim transports in the same table and change their own tables; the guards and clocks answer
  anything at every step.
\<close>

inductive pg_op :: "viem \<Rightarrow> host \<Rightarrow> Database \<Rightarrow> Database \<Rightarrow> bool" for V H where
  Create: "create_pg V H active clock checks input now D = (r, D') \<Longrightarrow> pg_op V H D D'"
| Claim: "claim_pg V H active clock checks claim D = (rd, D') \<Longrightarrow> pg_op V H D D'"
| Settle: "settle_pg i commitment state D = (r, D') \<Longrightarrow> pg_op V H D D'"
| Observe: "observe_pg i revision observation D = (r, D') \<Longrightarrow> pg_op V H D D'"

inductive pg_step :: "viem \<Rightarrow> host \<Rightarrow> Database \<Rightarrow> Database \<Rightarrow> bool" for V H where
  Operation: "pg_op V H D D' \<Longrightarrow> pg_step V H D D'"
| OtherTables: "claimPostgresTransport i indexes transport bindingId (db_transports D) = (u, T) \<Longrightarrow>
    pg_step V H D (D\<lparr>db_transports := T, db_accounts := accounts, db_plans := plans, db_planIdempotency := planIdempotency, db_transactionNonces := transactionNonces, db_bindings := bindings, db_grants := grants, db_requestNonces := requestNonces,
      db_sessions := sessions, db_sessionIdempotency := idempotency, db_sessionReservations := reservations,
      db_sponsorships := sponsorships, db_forwardNonces := forwardNonces\<rparr>)"

lemma pg_op_sim:
  assumes "pg_op V H D D'" and sim: "pg_sim D s" and inv: "uo_inv s"
  shows "\<exists>s'. (uo_step V)\<^sup>*\<^sup>* s s' \<and> pg_sim D' s'"
  using assms(1)
proof cases
  case (Create active clock checks input now r)
  show ?thesis
  proof (cases r)
    case (Inr x)
    then obtain s' where "create_uo V admits (\<lambda>_ _. Inr ()) (\<lambda>_. clock 1) input now s = (Inr x, s')" "pg_sim D' s'"
      using create_pg_sim [OF sim inv] Create by blast
    then show ?thesis using uo_step.Create by blast
  qed (use Create pg_failed(1) sim in blast)
next
  case (Claim active clock checks claim rd)
  show ?thesis
  proof (cases rd)
    case (Inr v)
    obtain r dispatch where v: "v = (r, dispatch)" by (cases v)
    show ?thesis
    proof (cases dispatch)
      case True
      then have "claim_pg V H active clock checks claim D = (Inr (r, True), D')" using Claim Inr v by simp
      from claim_pg_sim_True [OF sim inv this] obtain s' where
        "claim_uo V admits (\<lambda>_ _. Inr ()) (\<lambda>n. if n = 3 then clock 2 else clock 0) claim s = (Inr (r, True), s') \<and> pg_sim D' s'" ..
      then show ?thesis by (metis r_into_rtranclp uo_step.Claim)
    next
      case False
      then have "claim_pg V H active clock checks claim D = (Inr (r, False), D')" using Claim Inr v by simp
      then have "D' = D" by (rule claim_pg_False)
      then show ?thesis using sim by blast
    qed
  qed (use Claim pg_failed(2) sim in blast)
next
  case (Settle i commitment state r)
  show ?thesis
  proof (cases r)
    case (Inr x)
    then show ?thesis using settle_pg_sim [OF sim inv] Settle uo_step.Settle by blast
  qed (use Settle pg_failed(3) sim in blast)
next
  case (Observe i revision observation r)
  show ?thesis
  proof (cases r)
    case (Inr x)
    then show ?thesis using observe_pg_sim [OF sim inv] Observe uo_step.Observe by blast
  qed (use Observe pg_failed(4) sim in blast)
qed

lemma pg_step_sim:
  assumes "pg_step V H D D'" and sim: "pg_sim D s" and inv: "uo_inv s"
  shows "\<exists>s'. (uo_step V)\<^sup>*\<^sup>* s s' \<and> pg_sim D' s'"
  using assms(1)
proof cases
  case Operation
  then show ?thesis using pg_op_sim [OF _ sim inv] by blast
next
  case (OtherTables i indexes transport bindingId u T accounts plans planIdempotency transactionNonces bindings grants requestNonces sessions idempotency reservations sponsorships forwardNonces)
  obtain t where t: "claim_transport i indexes transport bindingId (us_transports s) = (u, t)" "rowBound T = boundTo t"
    using transports_agree [OF pg_simD(7) [OF sim], of i indexes transport bindingId] OtherTables(2) by (metis fst_conv snd_conv prod.collapse)
  have "pg_sim D' (s\<lparr>us_transports := t\<rparr>)" using sim t(2) by (simp add: OtherTables(1) pg_sim_def nonceRow_def)
  moreover have "uo_step V s (s\<lparr>us_transports := t\<rparr>)" using t(1) by (rule uo_step.OtherStore)
  ultimately show ?thesis by blast
qed

lemma pg_sim_empty: "pg_sim emptyDatabase emptyUserOperationStore"
  by (simp add: pg_sim_def emptyDatabase_def emptyUserOperationStore_def operationDocuments_def operationKeys_def nonceRow_def rowBound_def transportRow_def
      boundTo_def current_of_def fun_eq_iff)

interpretation pg_refined: refined_store "uo_step V" uo_inv "uo_extends (defaultCodec V)" emptyUserOperationStore "pg_step V H" pg_sim emptyDatabase for V H
  by unfold_locales (rule pg_step_sim pg_sim_empty; assumption)+

lemmas pg_run_sim = pg_refined.run_sim

section \<open>What the store leaves alone\<close>

text \<open>The tables of the other stores, with those of this store emptied.\<close>

definition operationFree :: "Database \<Rightarrow> Database" where
  "operationFree D = D\<lparr>db_transports := [], db_operations := [], db_operationNonces := []\<rparr>"

lemma no_claim: "pgLedger.ledger_step T T"
  by (rule pgLedger.ledger_stepI [of "''''" "[]" Relayr "''''" T "Inl e" for e])
    (simp add: claimPostgresTransport_def transport_parameters_def tx_defs)

lemma save_pg_free: "save_pg r D = Inr (x, D') \<Longrightarrow> operationFree D' = operationFree D \<and> db_transports D' = db_transports D"
  by (drule save_pg_Inr(2)) (simp add: operationFree_def)

lemma claim_pg_free:
  assumes "claim_pg V H active clock checks input D = (Inr (r, True), D')"
  shows "pgLedger.ledger_step (db_transports D) (db_transports D') \<and> operationFree D' = operationFree D"
  using assms
proof (rule claim_pg_True)
  fix w fresh initial D1
  assume "claimTransport_pg (ow_document w) D = Inr D1"
    and save: "save_pg r (insertNonce (ow_document w) (uc_signedCommitment input) D1) = Inr (r, D')"
  then obtain T where "claimPostgresTransport (ur_planId (ow_document w)) (ur_stepIndexes (ow_document w)) Erc4337 (ur_id (ow_document w)) (db_transports D) = (Inr (), T)"
    "D1 = D\<lparr>db_transports := T\<rparr>" by (elim claimTransport_pg_Inr)
  then show ?thesis using save_pg_free [OF save] pgLedger.ledger_stepI by (auto simp: operationFree_def insertNonce_def)
qed

lemma pg_op_free: "pg_op V H D D' \<Longrightarrow> pgLedger.ledger_step (db_transports D) (db_transports D') \<and> operationFree D' = operationFree D"
proof (induction rule: pg_op.induct)
  case (Create active clock checks input now D r D')
  show ?case
  proof (cases r)
    case (Inl e)
    then show ?thesis using Create pg_failed(1) no_claim by blast
  next
    case (Inr x)
    then show ?thesis using Create no_claim by (auto simp: create_pg_def attempt_eq_Inr transact_Inr bindR_eq_Inr operationFree_def split: option.splits)
  qed
next
  case (Claim active clock checks claim D rd D')
  show ?case
  proof (cases rd)
    case (Inl e)
    then show ?thesis using Claim pg_failed(2) no_claim by blast
  next
    case (Inr xd)
    obtain x dispatch where xd: "xd = (x, dispatch)" by (cases xd)
    show ?thesis
    proof (cases dispatch)
      case True
      then have "claim_pg V H active clock checks claim D = (Inr (x, True), D')" using Claim Inr xd by simp
      then show ?thesis by (rule claim_pg_free)
    next
      case False
      then have "claim_pg V H active clock checks claim D = (Inr (x, False), D')" using Claim Inr xd by simp
      then have "D' = D" by (rule claim_pg_False)
      then show ?thesis using no_claim by simp
    qed
  qed
next
  case (Settle i commitment state D r D')
  show ?case
  proof (cases r)
    case (Inl e)
    then show ?thesis using Settle pg_failed(3) no_claim by blast
  next
    case (Inr x)
    then show ?thesis using Settle no_claim by (auto dest!: save_pg_free simp: settle_pg_def transact_Inr bindR_eq_Inr)
  qed
next
  case (Observe i revision observation D r D')
  show ?case
  proof (cases r)
    case (Inl e)
    then show ?thesis using Observe pg_failed(4) no_claim by blast
  next
    case (Inr x)
    then show ?thesis using Observe no_claim by (auto dest!: save_pg_free simp: observe_pg_def attempt_eq_Inr transact_Inr bindR_eq_Inr Let_def operationFree_def split: if_splits)
  qed
qed

lemma operationFreeD: "operationFree D' = operationFree D \<Longrightarrow> db_sessions D' = db_sessions D \<and> db_sessionReservations D' = db_sessionReservations D \<and>
    db_sponsorships D' = db_sponsorships D \<and> db_forwardNonces D' = db_forwardNonces D"
  by (cases D; cases D') (simp add: operationFree_def)

lemma pg_step_others:
  assumes "pgLedger.ledger_step (db_transports D) (db_transports D')" and "db_operations D' = db_operations D" and "db_operationNonces D' = db_operationNonces D"
  shows "pg_step V H D D'"
proof -
  obtain i idx t b u where c: "claimPostgresTransport i idx t b (db_transports D) = (u, db_transports D')"
    using assms(1) unfolding pgLedger.ledger_step_def by blast
  have "D' = D\<lparr>db_transports := db_transports D', db_accounts := db_accounts D', db_plans := db_plans D', db_planIdempotency := db_planIdempotency D', db_transactionNonces := db_transactionNonces D', db_bindings := db_bindings D', db_grants := db_grants D', db_requestNonces := db_requestNonces D',
      db_sessions := db_sessions D', db_sessionIdempotency := db_sessionIdempotency D', db_sessionReservations := db_sessionReservations D',
      db_sponsorships := db_sponsorships D', db_forwardNonces := db_forwardNonces D'\<rparr>"
    using assms(2,3) by (cases D; cases D') simp
  then show ?thesis using pg_step.OtherTables [OF c] by metis
qed

section \<open>What a dispatch has checked\<close>

lemma currentAuthority_binding:
  assumes "currentAuthority H clock r now D = Inr ()"
  obtains row where "row \<in> set (db_bindings D)" "bw_accountId row = accountId (ur_actor r)" "bw_id row = ur_accountBindingId r" "bw_revokedAt row = None"
    "sb_chainId (bw_document row) = ur_chainId r" "same (sb_address (bw_document row)) (ur_sender r)" "same (sb_stateHash (bw_document row)) (ur_accountStateHash r)"
    "sb_moduleConfigurationVerified (bw_document row)"
  using assms by (auto simp: currentAuthority_def bindR_eq_Inr ensure_eq_Inr Let_def dest!: find_SomeD split: option.splits)

lemma assertPlan_uo_facts:
  assumes "assertPlan_uo r plan now = Inr ()"
  shows "same (pl_commitment plan) (ur_planCommitment r)" "now < pl_expiresAt plan"
    "index \<in> set (ur_stepIndexes r) \<Longrightarrow> \<exists>step. js_at (pl_steps plan) index = Some step \<and> st_state step = Waiting \<and> st_attempt step = None \<and> st_externalExecution step = None"
proof -
  show "same (pl_commitment plan) (ur_planCommitment r)" "now < pl_expiresAt plan"
    using assms by (auto simp: assertPlan_uo_def bindR_eq_Inr ensure_eq_Inr)
  assume "index \<in> set (ur_stepIndexes r)"
  then show "\<exists>step. js_at (pl_steps plan) index = Some step \<and> st_state step = Waiting \<and> st_attempt step = None \<and> st_externalExecution step = None"
    using assms by (auto simp: assertPlan_uo_def bindR_eq_Inr ensure_eq_Inr forR_eq_Inr js_must_eq_Inr)
qed

lemma currentAuthority_plan:
  assumes "currentAuthority H clock r now D = Inr ()"
  obtains row where "row \<in> set (db_plans D)" "pw_id row = ur_planId r" "pw_accountId row = accountId (ur_actor r)" "pw_principalId row = principalId (ur_actor r)"
    "assertPlan_uo r (pw_document row) (clock 1) = Inr ()"
  using assms by (auto simp: currentAuthority_def bindR_eq_Inr dest!: find_SomeD split: option.splits)

lemma currentAuthority_session:
  assumes "currentAuthority H clock r now D = Inr ()" and "ur_session r = Some session"
  obtains row where "row \<in> set (db_sessions D)" "sw_id row = us_id session" "sw_accountId row = accountId (ur_actor r)"
    "assertSessionUserOperation (sw_document row) (ur_actor r) session (ur_accountBindingId r) (ur_chainId r) (ur_sender r) (clock 0 div 1000) = Inr ()"
    "assertSessionGrant (sw_document row) (grantFor (sw_document row) D) (clock 0 div 1000) = Inr ()"
proof -
  have "assertUserOperationSession_pg H (ur_actor r) session (ur_accountBindingId r) (ur_chainId r) (ur_sender r) (now div 1000) (clock 0) D = Inr ()"
    using assms by (simp add: currentAuthority_def bindR_eq_Inr)
  then obtain x where x: "selectSession H (ur_actor r) (us_id session) D = Inr x" "assertSessionGrant x (grantFor x D) (clock 0 div 1000) = Inr ()"
    "assertSessionUserOperation x (ur_actor r) session (ur_accountBindingId r) (ur_chainId r) (ur_sender r) (clock 0 div 1000) = Inr ()"
    by (auto simp: assertUserOperationSession_pg_def bindR_eq_Inr)
  from x(1) obtain row where "row \<in> set (db_sessions D)" "sw_id row = us_id session" "sw_accountId row = accountId (ur_actor r)" "x = sw_document row"
    by (auto simp: selectSession_def bindR_eq_Inr cloneSession_Inr dest!: find_SomeD split: option.splits if_splits)
  with x show thesis by (intro that) simp_all
qed

lemma grantFor_live:
  assumes "assertSessionGrant x (grantFor x D) now = Inr ()"
  shows "\<exists>g \<in> set (db_grants D). bg_id g = cs_grantId (se_compiled x) \<and> bg_revokedAt g = None \<and> now < bg_expiresAt g \<and> Relay \<in> set (bg_scopes g)"
proof -
  obtain g where "grantFor x D = Some g" "bg_revokedAt g = None" "now < bg_expiresAt g" "Relay \<in> set (bg_scopes g)"
    using assms by (auto simp: assertSessionGrant_def Let_def ensure_eq_Inr not_le split: option.splits)
  moreover from this(1) have "g \<in> set (db_grants D)" "bg_id g = cs_grantId (se_compiled x)" by (auto simp: grantFor_def dest!: find_SomeD)
  ultimately show ?thesis by blast
qed

lemma authorized_plan:
  assumes "currentAuthority H clock r now D = Inr ()"
  shows "\<exists>row \<in> set (db_plans D). pw_id row = ur_planId r \<and> pw_principalId row = principalId (ur_actor r) \<and>
     same (pl_commitment (pw_document row)) (ur_planCommitment r) \<and> clock 1 < pl_expiresAt (pw_document row) \<and>
     (\<forall>index \<in> set (ur_stepIndexes r). \<exists>step. js_at (pl_steps (pw_document row)) index = Some step \<and>
        st_state step = Waiting \<and> st_attempt step = None \<and> st_externalExecution step = None)"
  using assms
proof (rule currentAuthority_plan)
  fix row assume row: "row \<in> set (db_plans D)" "pw_id row = ur_planId r" "pw_principalId row = principalId (ur_actor r)"
    and a: "assertPlan_uo r (pw_document row) (clock 1) = Inr ()"
  show ?thesis using assertPlan_uo_facts [OF a] row by (intro bexI [of _ row]) auto
qed

lemma authorized_session:
  assumes "currentAuthority H clock r now D = Inr ()" and "ur_session r = Some session"
  shows "\<exists>row \<in> set (db_sessions D). sw_id row = us_id session \<and> se_state (sw_document row) = SsActive \<and> se_revocation (sw_document row) = None \<and>
     \<not> se_reservationsReleased (sw_document row) \<and> clock 0 div 1000 < cs_validUntil (se_compiled (sw_document row)) \<and>
     (\<exists>g \<in> set (db_grants D). bg_id g = cs_grantId (se_compiled (sw_document row)) \<and> bg_revokedAt g = None \<and>
        clock 0 div 1000 < bg_expiresAt g \<and> Relay \<in> set (bg_scopes g))"
  using assms
proof (rule currentAuthority_session)
  fix row assume row: "row \<in> set (db_sessions D)" "sw_id row = us_id session"
    and a: "assertSessionUserOperation (sw_document row) (ur_actor r) session (ur_accountBindingId r) (ur_chainId r) (ur_sender r) (clock 0 div 1000) = Inr ()"
    and g: "assertSessionGrant (sw_document row) (grantFor (sw_document row) D) (clock 0 div 1000) = Inr ()"
  show ?thesis using admitted_facts(1,2,3,10) [OF a] grantFor_live [OF g] row by (intro bexI [of _ row]) auto
qed

lemma dispatchRecord_Inr:
  assumes "dispatchRecord r input = Inr fresh"
  shows "ur_actor fresh = ur_actor r" "ur_accountBindingId fresh = ur_accountBindingId r" "ur_chainId fresh = ur_chainId r" "ur_sender fresh = ur_sender r"
    "ur_accountStateHash fresh = ur_accountStateHash r" "ur_planId fresh = ur_planId r" "ur_planCommitment fresh = ur_planCommitment r"
    "ur_stepIndexes fresh = ur_stepIndexes r" "map_option us_id (ur_session fresh) = map_option us_id (ur_session r)"
  using assms by (auto simp: dispatchRecord_def bindR_eq_Inr ensure_eq_Inr split: option.splits)

lemma dispatch_session:
  assumes "claim_pg V H active clock checks input D = (Inr (r, True), D')" and se: "ur_session r = Some session"
  shows "\<exists>row \<in> set (db_sessions D). sw_id row = us_id session \<and> se_state (sw_document row) = SsActive \<and> se_revocation (sw_document row) = None \<and>
     \<not> se_reservationsReleased (sw_document row) \<and> checks 1 0 div 1000 < cs_validUntil (se_compiled (sw_document row)) \<and>
     (\<exists>g \<in> set (db_grants D). bg_id g = cs_grantId (se_compiled (sw_document row)) \<and> bg_revokedAt g = None \<and>
        checks 1 0 div 1000 < bg_expiresAt g \<and> Relay \<in> set (bg_scopes g))"
  using assms(1)
proof (rule claim_pg_True)
  fix w :: OperationRow and fresh initial D1
  let ?x = "ow_document w" and ?D = "insertNonce (ow_document w) (uc_signedCommitment input) D1"
  assume d: "dispatchRecord ?x input = Inr fresh" and tr: "claimTransport_pg ?x D = Inr D1" and auth: "currentAuthority H (checks 1) fresh (clock 1) ?D = Inr ()"
    and second: "claimed_uo ?x (input\<lparr>uc_now := clock 2\<rparr>) (defaultCodec V) = Inr (r, True)"
  have same_tables: "db_sessions ?D = db_sessions D" "db_grants ?D = db_grants D" using tr by (auto simp: insertNonce_def elim!: claimTransport_pg_Inr)
  have "uo_identity r = uo_identity ?x" using uo_change_revision [OF uo_change.Claimed [OF second]] by simp
  then have "ur_session ?x = Some session" using uo_identityD [of r ?x] se by simp
  then obtain session' where se': "ur_session fresh = Some session'" "us_id session' = us_id session"
    using dispatchRecord_Inr(9) [OF d] by (cases "ur_session fresh") auto
  show ?thesis using authorized_session [OF auth se'(1)] unfolding same_tables se'(2) .
qed

text \<open>
  C30. The database hands an operation to the bundler only under current authority. When the claim transaction
  answers \<^verbatim>\<open>dispatch: true\<close>, its last checks, made after every wait, found the actor entitled to relay, a binding row that is not revoked
  and describes the wallet in the reviewed state, the reviewed plan unexpired with all steps of the operation
  waiting and, when the operation uses a session, that session active, not revoked, within its
  window and with a grant that is neither revoked nor expired.
\<close>

theorem postgres_dispatch_authorized:
  assumes "claim_pg V H active clock checks input D = (Inr (r, True), D')"
  shows "active 1 (uc_actor input) [Relay] (clock 0 div 1000) = Inr () \<and> ur_actor r = uc_actor input \<and>
     (\<exists>row \<in> set (db_bindings D). bw_accountId row = accountId (uc_actor input) \<and> bw_id row = ur_accountBindingId r \<and> bw_revokedAt row = None \<and>
        same (sb_address (bw_document row)) (ur_sender r) \<and> same (sb_stateHash (bw_document row)) (ur_accountStateHash r)) \<and>
     (\<exists>row \<in> set (db_plans D). pw_id row = ur_planId r \<and> pw_principalId row = principalId (uc_actor input) \<and>
        same (pl_commitment (pw_document row)) (ur_planCommitment r) \<and> checks 1 1 < pl_expiresAt (pw_document row) \<and>
        (\<forall>index \<in> set (ur_stepIndexes r). \<exists>step. js_at (pl_steps (pw_document row)) index = Some step \<and>
           st_state step = Waiting \<and> st_attempt step = None \<and> st_externalExecution step = None)) \<and>
     (\<forall>session. ur_session r = Some session \<longrightarrow>
        (\<exists>row \<in> set (db_sessions D). sw_id row = us_id session \<and> se_state (sw_document row) = SsActive \<and> se_revocation (sw_document row) = None \<and>
           \<not> se_reservationsReleased (sw_document row) \<and> checks 1 0 div 1000 < cs_validUntil (se_compiled (sw_document row)) \<and>
           (\<exists>g \<in> set (db_grants D). bg_id g = cs_grantId (se_compiled (sw_document row)) \<and> bg_revokedAt g = None \<and>
              checks 1 0 div 1000 < bg_expiresAt g \<and> Relay \<in> set (bg_scopes g))))"
  using assms
proof (rule claim_pg_True)
  fix w :: OperationRow and fresh initial D1
  let ?x = "ow_document w" and ?D = "insertNonce (ow_document w) (uc_signedCommitment input) D1"
  assume act: "active 1 (uc_actor input) [Relay] (clock 0 div 1000) = Inr ()" and d: "dispatchRecord ?x input = Inr fresh"
    and tr: "claimTransport_pg ?x D = Inr D1" and auth: "currentAuthority H (checks 1) fresh (clock 1) ?D = Inr ()"
    and second: "claimed_uo ?x (input\<lparr>uc_now := clock 2\<rparr>) (defaultCodec V) = Inr (r, True)"
  have idn: "uo_identity r = uo_identity ?x" using uo_change_revision [OF uo_change.Claimed [OF second]] by simp
  have own: "ur_actor ?x = uc_actor input" using second by (cases rule: claimed_uo_cases) simp_all
  have more: "ur_accountBindingId r = ur_accountBindingId ?x" "ur_accountStateHash r = ur_accountStateHash ?x" "ur_planCommitment r = ur_planCommitment ?x"
    using idn by (cases r; cases ?x; simp add: uo_identity_def)+
  note f = dispatchRecord_Inr [OF d] uo_identityD [OF idn] own more
  have same_tables: "db_bindings ?D = db_bindings D" "db_plans ?D = db_plans D"
    using tr by (auto simp: insertNonce_def elim!: claimTransport_pg_Inr)
  have b: "\<exists>row \<in> set (db_bindings D). bw_accountId row = accountId (uc_actor input) \<and> bw_id row = ur_accountBindingId r \<and> bw_revokedAt row = None \<and>
        same (sb_address (bw_document row)) (ur_sender r) \<and> same (sb_stateHash (bw_document row)) (ur_accountStateHash r)"
    using auth by (rule currentAuthority_binding) (use f same_tables in auto)
  note p = authorized_plan [OF auth, unfolded same_tables]
  show ?thesis using act f b p dispatch_session [OF assms] by simp
qed

text \<open>
  C26. The PostgreSQL user operation store refines the in-memory one. Whatever transactions ran, with whatever clocks, guards and
  changes of the other tables, the documents of \<^verbatim>\<open>rest_user_operations\<close>, the nonces reserved in \<^verbatim>\<open>rest_user_operation_nonces\<close>
  and the steps bound in \<^verbatim>\<open>rest_transaction_transports\<close> are those of a reachable state of the in-memory store.
\<close>

theorem postgres_operations_refine:
  assumes "(pg_step V H)\<^sup>*\<^sup>* emptyDatabase D"
  shows "\<exists>s. (uo_step V)\<^sup>*\<^sup>* emptyUserOperationStore s \<and>
     (\<forall>i. js_get (us_records s) i = map_option ow_document (operationRow i D)) \<and>
     (\<forall>r. map_option nb_id (js_get (us_nonces s) (nonceKey_uo r)) = map_option nw_operationId (nonceRow r D)) \<and>
     (\<forall>planId index. boundTo (us_transports s) planId index = rowBound (db_transports D) planId index)"
proof -
  obtain s where s: "(uo_step V)\<^sup>*\<^sup>* emptyUserOperationStore s" "pg_sim D s"
    using pg_run_sim [OF assms pg_sim_empty uo_inv_empty] by blast
  have "map_option nb_id (js_get (us_nonces s) (nonceKey_uo r)) = map_option nw_operationId (nonceRow r D)" for r
    using pg_simD(6) [OF s(2), of r] by (auto simp: rel_option_iff split: option.splits)
  with s pg_documents [OF s(2)] pg_simD(7) [OF s(2)] show ?thesis by (intro exI [of _ s]) simp
qed

text \<open>
  C27. The database hands a user operation to the bundler once. When the claim transaction answers \<^verbatim>\<open>dispatch: true\<close>, the stored preparation was
  unpublished and unexpired by the database clock, the signed operation is the reviewed one, its
  steps are bound to it in \<^verbatim>\<open>rest_transaction_transports\<close> after every later transaction of any store, and no
  later claim of the operation is answered \<^verbatim>\<open>dispatch: true\<close>.
\<close>

theorem postgres_dispatched_once:
  assumes "(pg_step V H)\<^sup>*\<^sup>* emptyDatabase D" and "claim_pg V H active clock checks input D = (Inr (r, True), D1)"
    and "(pg_step V H)\<^sup>*\<^sup>* D1 D2"
  shows "(\<exists>w b. operationRow (uc_id input) D = Some w \<and> ur_submission (ow_document w) = None \<and> clock 2 < ur_expiresAt (ow_document w) \<and>
        ur_submission r = Some b \<and> signedFor (defaultCodec V) (ow_document w) (um_operation b) (um_commitment b) \<and>
        (\<forall>index \<in> set (ur_stepIndexes (ow_document w)). rowBound (db_transports D2) (ur_planId (ow_document w)) index = Some (Erc4337, uc_id input))) \<and>
     (uc_id input' = uc_id input \<longrightarrow> fst (claim_pg V H active' clock' checks' input' D2) \<noteq> Inr (r', True))"
proof -
  obtain s where s: "(uo_step V)\<^sup>*\<^sup>* emptyUserOperationStore s" "pg_sim D s"
    using pg_run_sim [OF assms(1) pg_sim_empty uo_inv_empty] by blast
  note inv = uo_reach [OF s(1)]
  obtain s1 where s1: "claim_uo V admits (\<lambda>_ _. Inr ()) (\<lambda>n. if n = 3 then clock 2 else clock 0) input s = (Inr (r, True), s1)" "pg_sim D1 s1"
    using claim_pg_sim_True [OF s(2) inv assms(2)] by (elim exE conjE)
  have inv1: "uo_inv s1" using claim_uo_step [OF inv s1(1)] by simp
  obtain s2 where s2: "(uo_step V)\<^sup>*\<^sup>* s1 s2" "pg_sim D2 s2" using pg_run_sim [OF assms(3) s1(2) inv1] by (elim exE conjE)
  have inv2: "uo_inv s2" using uo_run [OF s2(1) inv1] by simp
  note once = dispatch_once [OF s(1) s1(1) s2(1)]
  obtain x b where x: "js_get (us_records s) (uc_id input) = Some x" "ur_submission x = None" "clock 2 < ur_expiresAt x" "ur_submission r = Some b"
    "signedFor (defaultCodec V) x (um_operation b) (um_commitment b)"
    "\<forall>index \<in> set (ur_stepIndexes x). boundTo (us_transports s2) (ur_planId x) index = Some (Erc4337, uc_id input)"
    using once [THEN conjunct2, THEN conjunct1] by (elim exE conjE) simp
  from x(1) obtain w where w: "operationRow (uc_id input) D = Some w" "x = ow_document w" using pg_documents [OF s(2)] by auto
  have no: "fst (claim_pg V H active' clock' checks' input' D2) \<noteq> Inr (r', True)" if i: "uc_id input' = uc_id input"
  proof
    assume "fst (claim_pg V H active' clock' checks' input' D2) = Inr (r', True)"
    then have "claim_pg V H active' clock' checks' input' D2 = (Inr (r', True), snd (claim_pg V H active' clock' checks' input' D2))" by (metis prod.collapse)
    from claim_pg_sim_True [OF s2(2) inv2 this] obtain s3 where
      "claim_uo V admits (\<lambda>_ _. Inr ()) (\<lambda>n. if n = 3 then clock' 2 else clock' 0) input' s2 = (Inr (r', True), s3)" by (elim exE conjE)
    then show False using once i by (metis fst_conv)
  qed
  show ?thesis using x w no pg_simD(7) [OF s2(2)] by (intro conjI impI exI [of _ w] exI [of _ b]) simp_all
qed

section \<open>A run of the database\<close>

definition samplePgPlan :: StoredPlan where
  "samplePgPlan = (samplePlan ''p1'')\<lparr>pl_commitment := hex64 CHR ''4'', pl_smartAccount := Some \<lparr>sa_bindingId = hex64 CHR ''7'',
     sa_stateHash = hex64 CHR ''8'', sa_chainId = 1, sa_address = hex40 CHR ''a'', sa_manifestRevision = ''m''\<rparr>\<rparr>"

definition sampleD0 :: Database where
  "sampleD0 = emptyDatabase\<lparr>
     db_plans := [\<lparr>pw_id = ''p1'', pw_accountId = accountId alice, pw_principalId = principalId alice, pw_accountAddress = hex40 CHR ''a'', pw_createdAt = 1000, pw_document = samplePgPlan\<rparr>],
     db_bindings := [\<lparr>bw_accountId = accountId alice, bw_id = hex64 CHR ''7'', bw_chainId = 1, bw_walletAddress = hex40 CHR ''a'', bw_revokedAt = None,
       bw_document = \<lparr>sb_chainId = 1, sb_address = hex40 CHR ''a'', sb_stateHash = hex64 CHR ''8'', sb_moduleConfigurationVerified = True\<rparr>\<rparr>]\<rparr>"

definition sampleRow :: "UserOperationRecord \<Rightarrow> OperationRow" where
  "sampleRow r = \<lparr>ow_id = ''uo1'', ow_accountId = accountId alice, ow_principalId = principalId alice, ow_preparationKey = ''k'',
     ow_submissionKey = map_option um_key (ur_submission r), ow_createdAt = 1000, ow_document = r\<rparr>"

definition sampleD1 :: Database where
  "sampleD1 = sampleD0\<lparr>db_operations := [sampleRow sampleUo]\<rparr>"

definition sampleD2 :: Database where
  "sampleD2 = sampleD0\<lparr>db_operations := [sampleRow sampleUoPublished],
     db_transports := [\<lparr>tw_planId = ''p1'', tw_stepIndex = 0, tw_transport = Erc4337, tw_bindingId = ''uo1''\<rparr>],
     db_operationNonces := [\<lparr>nw_chainId = 1, nw_sender = toLowerCase (hex40 CHR ''a''), nw_nonce = nonceText sampleUo, nw_entryPoint = toLowerCase (hex40 CHR ''e''),
       nw_operationHash = toLowerCase (hex64 CHR ''1''), nw_signedCommitment = toLowerCase (hex64 CHR ''2''), nw_operationId = ''uo1''\<rparr>]\<rparr>"

definition sampleD3 :: Database where
  "sampleD3 = sampleD2\<lparr>db_operations := [sampleRow sampleUoExpired], db_operationNonces := []\<rparr>"

lemma samplePgPlan_fields: "pl_smartAccount samplePgPlan = Some \<lparr>sa_bindingId = hex64 CHR ''7'', sa_stateHash = hex64 CHR ''8'', sa_chainId = 1,
    sa_address = hex40 CHR ''a'', sa_manifestRevision = ''m''\<rparr>"
  "pl_actor samplePgPlan = alice" "pl_id samplePgPlan = ''p1''" "pl_commitment samplePgPlan = hex64 CHR ''4''" "pl_expiresAt samplePgPlan = 900000"
  "pl_steps samplePgPlan = [sampleStep 0, sampleStep 1]" "dr_account (pl_draft samplePgPlan) = hex40 CHR ''a''" "dr_calls (pl_draft samplePgPlan) = [sampleCall [], sampleCall [0]]"
  "dr_operation (pl_draft samplePgPlan) = ''pay''"
  by (simp_all add: samplePgPlan_def samplePlan_def)

lemma sample_plan_admitted: "assertPlan_uo sampleUo samplePgPlan 2000 = Inr ()"
  by (simp add: assertPlan_uo_def samplePgPlan_fields sampleUo_fields owns_uo_def js_at_def sampleStep_def sampleCall_def res_simps)

lemma sample_lifecycle: "assertUserOperationLifecyclePlan_pg H alice samplePgPlan 2 2000 D = Inr ()"
  by (simp add: assertUserOperationLifecyclePlan_pg_def sessionLifecycleId_def sessionLifecycleKind_def samplePgPlan_fields isSafeInteger_def MAX_SAFE_INTEGER_def)

lemma sample_pg_authority:
  assumes "db_plans D = db_plans sampleD0" and "db_bindings D = db_bindings sampleD0"
  shows "currentAuthority H (\<lambda>_. 2000) sampleUo now D = Inr ()"
  by (simp add: currentAuthority_def assms sampleUo_fields sampleD0_def sample_plan_admitted sample_lifecycle)

lemma sampleRow_fields: "ow_id (sampleRow r) = ''uo1''" "ow_accountId (sampleRow r) = accountId alice" "ow_principalId (sampleRow r) = principalId alice"
  "ow_preparationKey (sampleRow r) = ''k''" "ow_document (sampleRow r) = r" "ow_submissionKey (sampleRow r) = map_option um_key (ur_submission r)"
  by (simp_all add: sampleRow_def)

lemma sampleRow_update: "(sampleRow r)\<lparr>ow_document := r', ow_submissionKey := map_option um_key (ur_submission r')\<rparr> = sampleRow r'"
  by (simp add: sampleRow_def)

lemma sample_create_pg: "create_pg sampleViem sampleHost admitAll (\<lambda>_. 2000) (\<lambda>_. 2000) sampleUo 2000 sampleD0 = (Inr sampleUo, sampleD1)"
proof -
  have "db_operations sampleD0 = []" by (simp add: sampleD0_def emptyDatabase_def)
  then show ?thesis
    by (simp add: create_pg_def sample_new_uo sample_uo_clones transact_def sample_pg_authority recordsPerAccount_uo_def operationRow_def admitAll_def sampleD1_def sampleRow_def sampleUo_fields)
qed

lemma sampleUoPublished_id: "ur_id sampleUoPublished = ''uo1''"
  by (simp add: sampleUoPublished_def sampleUo_fields)

lemma sample_pg_transport: "claimTransport_pg sampleUo sampleD1 = Inr (sampleD1\<lparr>db_transports :=
    [\<lparr>tw_planId = ''p1'', tw_stepIndex = 0, tw_transport = Erc4337, tw_bindingId = ''uo1''\<rparr>]\<rparr>)"
  by (simp add: claimTransport_pg_def sampleUo_fields claimPostgresTransport_def transport_parameters_def insertTransport_def transportRow_def rowMatches_def
      sampleD1_def sampleD0_def emptyDatabase_def tx_defs isControl_def code_def maximumSteps_def isSafeInteger_def MAX_SAFE_INTEGER_def)

lemma sample_claim_pg: "claim_pg sampleViem sampleHost (\<lambda>_. admitAll) (\<lambda>_. 2000) (\<lambda>_ _. 2000) sampleUoClaim sampleD1 = (Inr (sampleUoPublished, True), sampleD2)"
proof -
  define D where "D = sampleD1\<lparr>db_transports := [\<lparr>tw_planId = ''p1'', tw_stepIndex = 0, tw_transport = Erc4337, tw_bindingId = ''uo1''\<rparr>]\<rparr>"
  define E where "E = insertNonce sampleUo (hex64 CHR ''2'') D"
  have E: "E = sampleD2\<lparr>db_operations := [sampleRow sampleUo]\<rparr>"
    by (simp add: E_def D_def insertNonce_def nonceRow_def sampleD1_def sampleD2_def sampleD0_def emptyDatabase_def sampleUo_fields)
  have row: "operationRow ''uo1'' sampleD1 = Some (sampleRow sampleUo)" by (simp add: operationRow_def sampleD1_def sampleRow_fields)
  have req: "required_pg ''uo1'' sampleD1 = Inr sampleUo" by (simp add: required_pg_def row sample_texts sampleRow_fields sample_uo_clones)
  have once: "\<not> list_ex (\<lambda>row. ow_accountId row = accountId alice \<and> ow_principalId row = principalId alice \<and> ow_submissionKey row = Some ''pub'' \<and> ow_id row \<noteq> ''uo1'') (db_operations sampleD1)"
    by (simp add: sampleD1_def sampleRow_fields)
  have held: "nonceHeld sampleUo (hex64 CHR ''2'') E = Inr ()" unfolding E by (simp add: nonceHeld_def nonceRow_def sampleD2_def sampleUo_fields)
  have save: "save_pg sampleUoPublished E = Inr (sampleUoPublished, sampleD2)"
    unfolding E by (simp add: save_pg_def sample_uo_clones sampleRow_fields sampleRow_update sampleUoPublished_id sampleD2_def)
  have auth: "currentAuthority sampleHost (\<lambda>_. 2000) sampleUo 2000 sampleD1 = Inr ()" "currentAuthority sampleHost (\<lambda>_. 2000) sampleUo 2000 E = Inr ()"
    by (rule sample_pg_authority; simp add: sampleD1_def E sampleD2_def)+
  have d: "dispatchRecord sampleUo sampleUoClaim = Inr sampleUo" by (simp add: dispatchRecord_def sampleUo_fields)
  show ?thesis
    using req once auth held save d sample_pg_transport sample_claimed_uo
    by (simp add: claim_pg_def sample_claim_checks sample_uo_clones sampleUoClaim_fields transact_def admitAll_def D_def [symmetric] E_def [symmetric])
qed

lemma sample_observe_pg: "observe_pg ''uo1'' 1 sampleExpiry sampleD2 = (Inr sampleUoExpired, sampleD3)"
proof -
  have o: "observed_uo sampleUoPublished 1 sampleExpiry = Inr sampleUoExpired" by (rule sample_observed_uo)
  have row: "operationRow ''uo1'' sampleD2 = Some (sampleRow sampleUoPublished)" by (simp add: operationRow_def sampleD2_def sampleRow_fields)
  have f: "ur_state sampleUoExpired = UExpired" "ur_id sampleUoExpired = ''uo1''" by (simp_all add: sampleUoExpired_def sampleUoPublished_def sampleUo_fields)
  show ?thesis
    by (simp add: observe_pg_def sample_uo_clones transact_def required_pg_def row sample_texts sampleRow_fields o f save_pg_def sampleRow_update)
      (simp add: sampleD3_def sampleD2_def sampleRow_fields sampleRow_update f)
qed

lemma sample_pg_run: "(pg_step sampleViem sampleHost)\<^sup>*\<^sup>* emptyDatabase sampleD1" "(pg_step sampleViem sampleHost)\<^sup>*\<^sup>* sampleD2 sampleD3"
  "(pg_step sampleViem sampleHost)\<^sup>*\<^sup>* emptyDatabase sampleD2"
proof -
  have t: "claimPostgresTransport ''p'' [] Relayr ''b'' (db_transports emptyDatabase) = (fst (claimPostgresTransport ''p'' [] Relayr ''b'' []), [])"
    by (simp add: emptyDatabase_def claimPostgresTransport_def transport_parameters_def tx_defs isControl_def code_def)
  have a: "pg_step sampleViem sampleHost emptyDatabase sampleD0"
    using pg_step.OtherTables [OF t, where V = sampleViem and H = sampleHost and accounts = "[]" and plans = "db_plans sampleD0" and planIdempotency = "[]" and transactionNonces = "[]" and bindings = "db_bindings sampleD0" and grants = "[]" and requestNonces = "[]"
        and sessions = "[]" and idempotency = "[]" and reservations = "[]" and sponsorships = "[]" and forwardNonces = "[]"] by (simp add: sampleD0_def emptyDatabase_def)
  have b: "pg_step sampleViem sampleHost sampleD0 sampleD1" by (rule pg_step.Operation [OF pg_op.Create [OF sample_create_pg]])
  have c: "pg_step sampleViem sampleHost sampleD1 sampleD2" by (rule pg_step.Operation [OF pg_op.Claim [OF sample_claim_pg]])
  have d: "pg_step sampleViem sampleHost sampleD2 sampleD3" by (rule pg_step.Operation [OF pg_op.Observe [OF sample_observe_pg]])
  show 1: "(pg_step sampleViem sampleHost)\<^sup>*\<^sup>* emptyDatabase sampleD1" using a b by (rule converse_rtranclp_into_rtranclp [OF _ r_into_rtranclp])
  show "(pg_step sampleViem sampleHost)\<^sup>*\<^sup>* sampleD2 sampleD3" using d by (rule r_into_rtranclp)
  show "(pg_step sampleViem sampleHost)\<^sup>*\<^sup>* emptyDatabase sampleD2" using 1 c by (rule rtranclp.rtrancl_into_rtrancl)
qed

theorem postgres_operations_refine_witness:
  "\<exists>s. (uo_step sampleViem)\<^sup>*\<^sup>* emptyUserOperationStore s \<and> js_get (us_records s) ''uo1'' = Some sampleUoPublished"
proof -
  have "operationRow ''uo1'' sampleD2 = Some (sampleRow sampleUoPublished)" by (simp add: operationRow_def sampleD2_def sampleRow_fields)
  then show ?thesis using postgres_operations_refine [OF sample_pg_run(3)] by (auto simp: sampleRow_fields)
qed

theorem postgres_dispatched_once_witness:
  "fst (claim_pg sampleViem sampleHost (\<lambda>_. admitAll) (\<lambda>_. 2000) (\<lambda>_ _. 2000) sampleUoClaim sampleD3) \<noteq> Inr (sampleUoPublished, True)"
  using postgres_dispatched_once [OF sample_pg_run(1) sample_claim_pg sample_pg_run(2), of sampleUoClaim "\<lambda>_. admitAll" "\<lambda>_. 2000" "\<lambda>_ _. 2000" sampleUoPublished] by blast

theorem postgres_dispatch_authorized_witness:
  "\<exists>row \<in> set (db_bindings sampleD1). bw_id row = ur_accountBindingId sampleUoPublished \<and> bw_revokedAt row = None"
  using postgres_dispatch_authorized [OF sample_claim_pg] by blast

end
