(* ===== verification/PgSessionProperties.thy ===== *)
theory PgSessionProperties
  imports PgRefinement
begin

text \<open>
  The PostgreSQL session store keeps what the in-memory store keeps: the documents of \<^verbatim>\<open>rest_sessions\<close> move only along the
  rules of \<^verbatim>\<open>sessions/store.ts\<close>, and the rows of \<^verbatim>\<open>rest_session_reservations\<close> cover every session that reserves its wallet. Together with
  the user operation store over the same tables: a revoked session stops its operations.
\<close>

section \<open>The session tables\<close>

definition sessionsOf :: "Database \<Rightarrow> SessionStore" where
  "sessionsOf D = \<lparr>ms_records = map (\<lambda>w. (sw_id w, sw_document w)) (db_sessions D), ms_idempotency = []\<rparr>"

text \<open>
  Every reservation row belongs to a session of that wallet and is released only when the session was; every session that
  reserves its wallet has a row that is not released.
\<close>

definition reservationFits :: "(string, StoredSession) jsmap \<Rightarrow> ReservationRow \<Rightarrow> bool" where
  "reservationFits recs v \<longleftrightarrow> (\<exists>r. js_get recs (rw_sessionId v) = Some r \<and> rw_chainId v = cs_chainId (se_compiled r) \<and>
     rw_walletAddress v = toLowerCase (cs_wallet (se_compiled r)) \<and> (rw_releasedAt v \<noteq> None \<longrightarrow> se_reservationsReleased r))"

definition reservationsOk :: "(string, StoredSession) jsmap \<Rightarrow> ReservationRow list \<Rightarrow> bool" where
  "reservationsOk recs rows \<longleftrightarrow> (\<forall>v \<in> set rows. reservationFits recs v) \<and>
     (\<forall>i r. js_get recs i = Some r \<and> reserving r \<longrightarrow> (\<exists>v \<in> set rows. rw_sessionId v = i \<and> rw_releasedAt v = None))"

lemma reservationsOkD:
  assumes "reservationsOk recs rows"
  shows "v \<in> set rows \<Longrightarrow> reservationFits recs v" "js_get recs i = Some r \<Longrightarrow> reserving r \<Longrightarrow> \<exists>v \<in> set rows. rw_sessionId v = i \<and> rw_releasedAt v = None"
  using assms unfolding reservationsOk_def by blast+

lemma reservationFits_set:
  assumes "reservationFits recs v" and "js_get recs i = Some r" and "se_compiled r' = se_compiled r" and "se_reservationsReleased r \<Longrightarrow> se_reservationsReleased r'"
  shows "reservationFits (js_set i r' recs) v"
  using assms unfolding reservationFits_def by (cases "rw_sessionId v = i") auto

definition sessionRowOk :: "SessionRow \<Rightarrow> bool" where
  "sessionRowOk w \<longleftrightarrow> w = sessionRow (sw_document w) \<and> accountId (se_actor (sw_document w)) = cs_ownerAccountId (se_compiled (sw_document w))"

definition pgs_inv :: "Database \<Rightarrow> bool" where
  "pgs_inv D \<longleftrightarrow> se_inv (sessionsOf D) \<and> (\<forall>w \<in> set (db_sessions D). sessionRowOk w) \<and>
     reservationsOk (ms_records (sessionsOf D)) (db_sessionReservations D)"

lemma pgs_invD:
  assumes "pgs_inv D"
  shows "se_inv (sessionsOf D)" "w \<in> set (db_sessions D) \<Longrightarrow> sessionRowOk w" "reservationsOk (ms_records (sessionsOf D)) (db_sessionReservations D)"
  using assms unfolding pgs_inv_def by blast+

lemma pgs_inv_cong:
  "db_sessions D' = db_sessions D \<Longrightarrow> db_sessionReservations D' = db_sessionReservations D \<Longrightarrow> pgs_inv D \<Longrightarrow>
     pgs_inv D' \<and> se_extends H (sessionsOf D) (sessionsOf D')"
  by (simp add: pgs_inv_def sessionsOf_def)

lemma pgs_inv_empty: "pgs_inv emptyDatabase"
  using se_inv_empty by (simp add: pgs_inv_def sessionsOf_def emptyDatabase_def emptySessionStore_def reservationsOk_def)

lemma session_ids: "pgs_inv D \<Longrightarrow> distinct (map sw_id (db_sessions D))"
  using se_invD(1) [OF pgs_invD(1)] by (simp add: sessionsOf_def o_def)

lemma sessionsOf_Some: "js_get (ms_records (sessionsOf D)) i = Some r \<Longrightarrow> \<exists>w \<in> set (db_sessions D). sw_id w = i \<and> sw_document w = r"
  by (auto simp: sessionsOf_def map_of_rows dest!: find_SomeD)

lemma sessionsOf_row:
  assumes "pgs_inv D" and "w \<in> set (db_sessions D)"
  shows "js_get (ms_records (sessionsOf D)) (sw_id w) = Some (sw_document w)"
proof -
  have "distinct (map fst (ms_records (sessionsOf D)))" using se_invD(1) [OF pgs_invD(1) [OF assms(1)]] .
  moreover have "(sw_id w, sw_document w) \<in> set (ms_records (sessionsOf D))" using assms(2) by (auto simp: sessionsOf_def)
  ultimately show ?thesis by (simp add: map_of_eq_Some_iff)
qed

lemma selectSession_Inr:
  assumes "pgs_inv D" and "selectSession H actor i D = Inr r"
  shows "js_get (ms_records (sessionsOf D)) i = Some r" "canReadSession r actor"
proof -
  obtain w where w: "w \<in> set (db_sessions D)" "sw_id w = i" "r = sw_document w" "canReadSession r actor"
    using assms(2) by (auto simp: selectSession_def bindR_eq_Inr cloneSession_Inr dest!: find_SomeD split: option.splits if_splits)
  show "js_get (ms_records (sessionsOf D)) i = Some r" using sessionsOf_row [OF assms(1) w(1)] w(2,3) by simp
  show "canReadSession r actor" by (rule w(4))
qed

lemma saved_sessions:
  assumes "pgs_inv D" and "js_get (ms_records (sessionsOf D)) (se_id r) = Some x"
    and "db_sessions D' = map (\<lambda>w. if sw_id w = se_id r then w\<lparr>sw_document := r\<rparr> else w) (db_sessions D)"
  shows "ms_records (sessionsOf D') = js_set (se_id r) r (ms_records (sessionsOf D))"
proof -
  have "se_id r \<in> sw_id ` set (db_sessions D)" using sessionsOf_Some [OF assms(2)] by (metis imageI)
  then show ?thesis unfolding sessionsOf_def assms(3) using session_ids [OF assms(1)] by (simp only: SessionStore.simps) (rule updated_rows; simp)
qed

lemma sessionRow_document [simp]: "sw_document (sessionRow r) = r" "sw_id (sessionRow r) = se_id r" "sw_accountId (sessionRow r) = accountId (se_actor r)"
  by (simp_all add: sessionRow_def Let_def)

lemma sessionRow_identity: "se_identity r' = se_identity r \<Longrightarrow> (sessionRow r)\<lparr>sw_document := r'\<rparr> = sessionRow r'"
  using se_identityD [of r' r] by (simp add: sessionRow_def Let_def)

text \<open>A session moves on, and the reservation rows with it.\<close>

lemma pgs_update:
  assumes inv: "pgs_inv D" and g: "js_get (ms_records (sessionsOf D)) i = Some r" and c: "se_change H r r'"
    and free: "reserving r' \<longrightarrow> reserving r \<or> checkReservation (sessionsOf D) r = Inr ()"
    and rows: "db_sessions D' = map (\<lambda>w. if sw_id w = se_id r' then w\<lparr>sw_document := r'\<rparr> else w) (db_sessions D)"
    and res: "reservationsOk (js_set i r' (ms_records (sessionsOf D))) (db_sessionReservations D')"
  shows "pgs_inv D' \<and> se_extends H (sessionsOf D) (sessionsOf D')"
proof -
  have idn: "se_identity r' = se_identity r" using se_change_revision [OF c] by simp
  have i: "se_id r' = i" "se_id r = i" using se_identityD [OF idn] se_invD(2) [OF pgs_invD(1) [OF inv] g] by simp_all
  have recs: "ms_records (sessionsOf D') = js_set i r' (ms_records (sessionsOf D))" using saved_sessions [OF inv _ rows] g i by simp
  have "se_inv (sessionsOf D') \<and> se_extends H (sessionsOf D) (sessionsOf D')"
    using se_inv_update [OF pgs_invD(1) [OF inv] g c recs] free by blast
  moreover have "sessionRowOk w" if w: "w \<in> set (db_sessions D')" for w
  proof -
    obtain v where v: "v \<in> set (db_sessions D)" "w = (if sw_id v = i then v\<lparr>sw_document := r'\<rparr> else v)" using w unfolding rows i by auto
    show ?thesis
    proof (cases "sw_id v = i")
      case True
      then have "sw_document v = r" using sessionsOf_row [OF inv v(1)] g by simp
      then show ?thesis using pgs_invD(2) [OF inv v(1)] v(2) True sessionRow_identity [OF idn] se_identityD [OF idn] by (auto simp: sessionRowOk_def)
    next
      case False
      then show ?thesis using pgs_invD(2) [OF inv v(1)] v(2) by simp
    qed
  qed
  ultimately show ?thesis using res by (simp add: pgs_inv_def recs)
qed

section \<open>Reservations of a wallet\<close>

lemma insertReservations_old: "v \<in> set rows \<Longrightarrow> v \<in> set (fold (insertReservation r) places rows)"
  by (induction places arbitrary: rows) (auto simp: insertReservation_def)

lemma insertReservations_new:
  "v \<in> set (fold (insertReservation r) places rows) \<Longrightarrow> v \<in> set rows \<or>
     rw_sessionId v = se_id r \<and> rw_chainId v = cs_chainId (se_compiled r) \<and> rw_walletAddress v = toLowerCase (cs_wallet (se_compiled r)) \<and> rw_releasedAt v = None"
proof (induction places arbitrary: rows)
  case (Cons p places)
  then have "v \<in> set (insertReservation r p rows) \<or> rw_sessionId v = se_id r \<and> rw_chainId v = cs_chainId (se_compiled r) \<and>
    rw_walletAddress v = toLowerCase (cs_wallet (se_compiled r)) \<and> rw_releasedAt v = None" by simp
  then show ?case by (auto simp: insertReservation_def split: if_splits)
qed simp

lemma insertReservations_held: "places \<noteq> [] \<Longrightarrow> \<exists>v \<in> set (fold (insertReservation r) places rows). rw_sessionId v = se_id r"
proof (cases places)
  case (Cons p ps)
  have "\<exists>v \<in> set (insertReservation r p rows). rw_sessionId v = se_id r" by (auto simp: insertReservation_def list_ex_iff)
  then show ?thesis using insertReservations_old Cons by fastforce
qed simp

lemma reservedCoordinates_nonempty: "reservedCoordinates H r \<noteq> []"
proof
  assume "reservedCoordinates H r = []"
  then have "set (reservedCoordinates H r) = {}" by simp
  then show False unfolding reservedCoordinates_def by simp
qed

lemma reserveAuthority_Inr:
  assumes "reserveAuthority H r D = Inr D'"
  shows "D' = D\<lparr>db_sessionReservations := fold (insertReservation r) (reservedCoordinates H r) (db_sessionReservations D)\<rparr>"
    "v \<in> set (db_sessionReservations D) \<Longrightarrow> rw_chainId v = cs_chainId (se_compiled r) \<Longrightarrow> rw_walletAddress v = toLowerCase (cs_wallet (se_compiled r)) \<Longrightarrow>
      rw_releasedAt v = None \<Longrightarrow> rw_sessionId v = se_id r"
  using assms by (auto simp: reserveAuthority_def bindR_eq_Inr ensure_eq_Inr list_ex_iff)

text \<open>A wallet that is free in the table is free in the documents.\<close>

lemma reserveAuthority_free:
  assumes inv: "pgs_inv D" and a: "reserveAuthority H r D = Inr D'" and i: "se_id r = se_id q" "se_compiled r = se_compiled q"
  shows "checkReservation (sessionsOf D) q = Inr ()"
  unfolding checkReservation_Inr
proof
  fix x assume x: "x \<in> set (js_values (ms_records (sessionsOf D)))"
  then obtain j where j: "js_get (ms_records (sessionsOf D)) j = Some x" using js_values_get [OF se_invD(1) [OF pgs_invD(1) [OF inv]]] by blast
  show "\<not> reservationConflicts q x"
  proof
    assume "reservationConflicts q x"
    then have cf: "se_id q \<noteq> se_id x" "sameWallet q x" "reserving x" by (simp_all add: reservation_iff)
    obtain v where v: "v \<in> set (db_sessionReservations D)" "rw_sessionId v = j" "rw_releasedAt v = None"
      using reservationsOkD(2) [OF pgs_invD(3) [OF inv] j cf(3)] by blast
    moreover have "rw_chainId v = cs_chainId (se_compiled x)" "rw_walletAddress v = toLowerCase (cs_wallet (se_compiled x))"
      using reservationsOkD(1) [OF pgs_invD(3) [OF inv] v(1)] v(2) j by (auto simp: reservationFits_def)
    ultimately have "j = se_id r" using reserveAuthority_Inr(2) [OF a v(1)] cf(2) i by (simp add: sameWallet_def same_def)
    then show False using se_invD(2) [OF pgs_invD(1) [OF inv] j] cf(1) i by simp
  qed
qed

lemma reservationsOk_reserved:
  assumes inv: "pgs_inv D" and g: "js_get (ms_records (sessionsOf D)) i = Some r" and idn: "se_identity r' = se_identity r" "se_identity q = se_identity r"
    and rel: "\<not> se_reservationsReleased r" and a: "reserveAuthority H q D = Inr D'"
  shows "reservationsOk (js_set i r' (ms_records (sessionsOf D))) (db_sessionReservations D')"
proof -
  let ?rows = "fold (insertReservation q) (reservedCoordinates H q) (db_sessionReservations D)" and ?recs = "ms_records (sessionsOf D)"
  note ok = reservationsOkD [OF pgs_invD(3) [OF inv]]
  have i: "se_id r = i" using se_invD(2) [OF pgs_invD(1) [OF inv] g] .
  have d: "se_compiled r' = se_compiled r" "se_compiled q = se_compiled r" "se_id q = i" using se_identityD [OF idn(1)] se_identityD [OF idn(2)] i by simp_all
  have old: "reservationFits (js_set i r' ?recs) v" if "v \<in> set (db_sessionReservations D)" for v
    using reservationFits_set [OF ok(1) [OF that] g d(1)] rel by blast
  have fits: "reservationFits (js_set i r' ?recs) v" if v: "v \<in> set ?rows" for v
    using insertReservations_new [OF v]
  proof
    assume "rw_sessionId v = se_id q \<and> rw_chainId v = cs_chainId (se_compiled q) \<and> rw_walletAddress v = toLowerCase (cs_wallet (se_compiled q)) \<and> rw_releasedAt v = None"
    then show ?thesis using d by (simp add: reservationFits_def)
  qed (rule old)
  have held: "\<exists>v \<in> set ?rows. rw_sessionId v = i \<and> rw_releasedAt v = None"
  proof -
    obtain v where v: "v \<in> set ?rows" "rw_sessionId v = se_id q" using insertReservations_held [OF reservedCoordinates_nonempty] by blast
    from insertReservations_new [OF v(1)] have "rw_releasedAt v = None"
    proof
      assume "v \<in> set (db_sessionReservations D)"
      from ok(1) [OF this] show ?thesis using v(2) d g rel unfolding reservationFits_def by auto
    qed simp
    then show ?thesis using v d by auto
  qed
  have "\<exists>v \<in> set ?rows. rw_sessionId v = j \<and> rw_releasedAt v = None" if x: "js_get (js_set i r' ?recs) j = Some x" "reserving x" for j x
  proof (cases "j = i")
    case False
    then have "js_get ?recs j = Some x" using x(1) by simp
    from ok(2) [OF this x(2)] show ?thesis using insertReservations_old by blast
  qed (use held in simp)
  with fits show ?thesis unfolding reservationsOk_def reserveAuthority_Inr(1) [OF a] by simp
qed

text \<open>Rows that stay as they are, and rows released with their session.\<close>

lemma reservationsOk_kept:
  assumes inv: "pgs_inv D" and g: "js_get (ms_records (sessionsOf D)) i = Some r" and "se_compiled r' = se_compiled r"
    and "se_reservationsReleased r \<Longrightarrow> se_reservationsReleased r'" and res: "reserving r' \<Longrightarrow> reserving r"
  shows "reservationsOk (js_set i r' (ms_records (sessionsOf D))) (db_sessionReservations D)"
proof -
  note ok = reservationsOkD [OF pgs_invD(3) [OF inv]]
  have "\<exists>v \<in> set (db_sessionReservations D). rw_sessionId v = j \<and> rw_releasedAt v = None"
    if x: "js_get (js_set i r' (ms_records (sessionsOf D))) j = Some x" "reserving x" for j x
  proof (cases "j = i")
    case True
    then have "reserving r" using x res by simp
    then show ?thesis using ok(2) [OF g] True by blast
  next
    case False
    then have "js_get (ms_records (sessionsOf D)) j = Some x" using x(1) by simp
    then show ?thesis using ok(2) x(2) by blast
  qed
  moreover have "reservationFits (js_set i r' (ms_records (sessionsOf D))) v" if "v \<in> set (db_sessionReservations D)" for v
    using reservationFits_set [OF ok(1) [OF that] g assms(3,4)] .
  ultimately show ?thesis unfolding reservationsOk_def by blast
qed

lemma reservationsOk_released:
  assumes ok: "reservationsOk recs rows" and g: "js_get recs i = Some r" and rel: "se_reservationsReleased r"
  shows "reservationsOk recs (releaseReservations i now rows)"
proof -
  have "reservationFits recs v" if v: "v \<in> set (releaseReservations i now rows)" for v
  proof -
    obtain u where u: "u \<in> set rows" "v = (if rw_sessionId u = i \<and> rw_releasedAt u = None then u\<lparr>rw_releasedAt := Some now\<rparr> else u)"
      using v by (auto simp: releaseReservations_def)
    show ?thesis using reservationsOkD(1) [OF ok u(1)] u(2) g rel by (auto simp: reservationFits_def split: if_splits)
  qed
  moreover have "\<exists>v \<in> set (releaseReservations i now rows). rw_sessionId v = j \<and> rw_releasedAt v = None" if x: "js_get recs j = Some x" "reserving x" for j x
  proof -
    have "j \<noteq> i" using x g rel by (auto simp: reserving_def)
    moreover obtain v where "v \<in> set rows" "rw_sessionId v = j" "rw_releasedAt v = None" using reservationsOkD(2) [OF ok x] by blast
    ultimately show ?thesis by (force simp: releaseReservations_def)
  qed
  ultimately show ?thesis unfolding reservationsOk_def by blast
qed

section \<open>What the transactions do to the tables\<close>

lemma transactSession_Inr: "transactSession f D = (Inr x, D') \<longleftrightarrow> f D = Inr (x, D')"
  by (auto simp: transactSession_def split: sum.splits prod.splits)

lemma transactSession_Inl: "transactSession f D = (Inl e, D') \<Longrightarrow> D' = D"
  by (auto simp: transactSession_def split: sum.splits prod.splits)

lemma session_failed:
  "createSession_pg H active clock input idempotency now D = (Inl e, D') \<Longrightarrow> D' = D"
  "claimSession_pg H active clock claim kind D = (Inl e, D') \<Longrightarrow> D' = D"
  "observeSession_pg H now update D = (Inl e, D') \<Longrightarrow> D' = D"
  "markStale_pg H now invalidation D = (Inl e, D') \<Longrightarrow> D' = D"
  by (auto simp: createSession_pg_def claimSession_pg_def observeSession_pg_def markStale_pg_def Let_def attempt_eq_Inl dest: transactSession_Inl)

lemma reserveIdempotency_pg_Inr:
  assumes "reserveIdempotency_pg actor claim operation i D = Inr D'"
  shows "db_sessions D' = db_sessions D" "db_sessionReservations D' = db_sessionReservations D"
  using assms by (auto simp: reserveIdempotency_pg_def bindR_eq_Inr)

lemma saveSession_Inr:
  assumes "saveSession H r D = Inr (x, D')"
  shows "x = r" "D' = D\<lparr>db_sessions := map (\<lambda>w. if sw_id w = se_id r then w\<lparr>sw_document := r\<rparr> else w) (db_sessions D)\<rparr>"
  using assms by (auto simp: saveSession_def bindR_eq_Inr cloneSession_Inr)

lemma identity_clash: "identityConflicts r x \<Longrightarrow> sessionRowsClash (sessionRow r) (sessionRow x)"
  by (auto simp: identityConflicts_def sessionRowsClash_def sessionRow_def Let_def sameWallet_def same_def)

text \<open>A creation inserts a row that clashes with none, or changes nothing.\<close>

lemma createSession_pg_Inr:
  assumes inv: "pgs_inv D" and c: "createSession_pg H active clock input idempotency now D = (Inr x, D')"
  obtains (same) "D' = D"
  | (fresh) "assertNewSession H input (clock 1) = Inr ()" "\<not> list_ex (sessionRowsClash (sessionRow input)) (db_sessions D)"
      "length (filter (\<lambda>row. sw_accountId row = accountId (se_actor input)) (db_sessions D)) < sessionsPerAccount"
      "db_sessions D' = db_sessions D @ [sessionRow input]" "db_sessionReservations D' = db_sessionReservations D"
      "accountId (se_actor input) = cs_ownerAccountId (se_compiled input)"
proof -
  have n: "assertNewSession H input now = Inr ()" "assertSessionIdempotency idempotency = Inr ()" "cloneStored H input = Inr input"
    "cloneSession H json_of_SessionIdempotency idempotency = Inr idempotency"
    using c by (auto simp: createSession_pg_def attempt_eq_Inr cloneSession_Inr)
  note t = c [unfolded createSession_pg_def, simplified n attempt_simps transactSession_Inr Let_def]
  show ?thesis
  proof (cases "idem_pg (se_actor input) (si_key idempotency) D")
    case (Some e)
    then show ?thesis using t by (intro same) (auto simp: bindR_eq_Inr)
  next
    case None
    obtain D1 where f: "assertNewSession H input (clock 1) = Inr ()" "insertSession input D = Inr D1"
      "reserveIdempotency_pg (se_actor input) idempotency ''create'' (se_id input) D1 = Inr D'"
      "length (filter (\<lambda>row. sw_accountId row = accountId (se_actor input)) (db_sessions D)) < sessionsPerAccount"
      using t None by (auto simp: bindR_eq_Inr ensure_eq_Inr not_le)
    have "accountId (se_actor input) = cs_ownerAccountId (se_compiled input)" using n(1) by (auto simp: assertNewSession_def Let_def bindR_eq_Inr ensure_eq_Inr)
    then show ?thesis using f(1,2,4) reserveIdempotency_pg_Inr [OF f(3)] by (intro fresh) (auto simp: insertSession_def bindR_eq_Inr ensure_eq_Inr)
  qed
qed

lemma fresh_session_step:
  assumes inv: "pgs_inv D" and new: "assertNewSession H input t = Inr ()" and fresh: "\<not> list_ex (sessionRowsClash (sessionRow input)) (db_sessions D)"
    and room: "length (filter (\<lambda>row. sw_accountId row = accountId (se_actor input)) (db_sessions D)) < sessionsPerAccount"
    and tables: "db_sessions D' = db_sessions D @ [sessionRow input]" and own: "accountId (se_actor input) = cs_ownerAccountId (se_compiled input)"
  shows "js_get (ms_records (sessionsOf D)) (se_id input) = None" "ms_records (sessionsOf D') = js_set (se_id input) input (ms_records (sessionsOf D))"
    "se_inv (sessionsOf D') \<and> se_extends H (sessionsOf D) (sessionsOf D')"
proof -
  have rowd: "w = sessionRow (sw_document w)" "accountId (se_actor (sw_document w)) = cs_ownerAccountId (se_compiled (sw_document w))"
    if "w \<in> set (db_sessions D)" for w using pgs_invD(2) [OF inv that] by (simp_all add: sessionRowOk_def)
  show g: "js_get (ms_records (sessionsOf D)) (se_id input) = None"
  proof (rule ccontr)
    assume "js_get (ms_records (sessionsOf D)) (se_id input) \<noteq> None"
    then obtain w where "w \<in> set (db_sessions D)" "sw_id w = se_id input" using sessionsOf_Some by blast
    then show False using fresh by (auto simp: list_ex_iff sessionRowsClash_def)
  qed
  show recs: "ms_records (sessionsOf D') = js_set (se_id input) input (ms_records (sessionsOf D))"
    using js_set_fresh [OF g] by (simp add: sessionsOf_def tables)
  have "\<not> identityConflicts input y" if y: "y \<in> set (js_values (ms_records (sessionsOf D)))" for y
  proof -
    obtain w where w: "w \<in> set (db_sessions D)" "y = sw_document w" using y by (auto simp: sessionsOf_def)
    then have "\<not> sessionRowsClash (sessionRow input) (sessionRow y)" using fresh rowd(1) [OF w(1)] by (auto simp: list_ex_iff)
    then show ?thesis using identity_clash by blast
  qed
  moreover have "count_values (\<lambda>y. cs_ownerAccountId (se_compiled y) = cs_ownerAccountId (se_compiled input)) (ms_records (sessionsOf D)) < sessionsPerAccount"
  proof -
    have "filter (\<lambda>w. cs_ownerAccountId (se_compiled (sw_document w)) = a) (db_sessions D) = filter (\<lambda>w. sw_accountId w = a) (db_sessions D)" for a
      using rowd by (intro filter_cong refl) (metis sessionRow_document(3))
    then show ?thesis using room by (simp add: count_values_def sessionsOf_def filter_map o_def own)
  qed
  ultimately have "created H (sessionsOf D) (sessionsOf D')" unfolding created_def using new g recs by blast
  then show "se_inv (sessionsOf D') \<and> se_extends H (sessionsOf D) (sessionsOf D')" by (rule created_step [OF pgs_invD(1) [OF inv]])
qed

lemma createSession_pg_step:
  assumes inv: "pgs_inv D" and c: "createSession_pg H active clock input idempotency now D = (x, D')"
  shows "pgs_inv D' \<and> se_extends H (sessionsOf D) (sessionsOf D')"
proof (cases x)
  case (Inl e)
  then have "D' = D" using c session_failed(1) by simp
  then show ?thesis using inv by simp
next
  case (Inr y)
  from inv c [unfolded Inr] show ?thesis
  proof (cases rule: createSession_pg_Inr)
    case same
    then show ?thesis using inv by simp
  next
    case fresh
    note s = fresh_session_step [OF inv fresh(1,2,3,4,6)]
    have nr: "\<not> reserving input" using assertNewSession_wf [OF fresh(1)] by (simp add: reserving_def enabledNow_def)
    have "reservationFits (ms_records (sessionsOf D')) v" if "v \<in> set (db_sessionReservations D')" for v
      using reservationsOkD(1) [OF pgs_invD(3) [OF inv], of v] that s(1) fresh(5) unfolding reservationFits_def s(2) by auto
    moreover have "\<exists>v \<in> set (db_sessionReservations D'). rw_sessionId v = j \<and> rw_releasedAt v = None"
      if j: "js_get (ms_records (sessionsOf D')) j = Some y" "reserving y" for j y
      using reservationsOkD(2) [OF pgs_invD(3) [OF inv], of j y] j nr fresh(5) unfolding s(2) by (auto split: if_splits)
    ultimately have "reservationsOk (ms_records (sessionsOf D')) (db_sessionReservations D')" unfolding reservationsOk_def by blast
    moreover have "sessionRowOk w" if "w \<in> set (db_sessions D')" for w using that pgs_invD(2) [OF inv] fresh(4,6) by (auto simp: sessionRowOk_def)
    ultimately show ?thesis using s(3) by (simp add: pgs_inv_def)
  qed
qed

lemma reserveAuthority_sessions: "reserveAuthority H r D = Inr D' \<Longrightarrow> db_sessions D' = db_sessions D"
  by (drule reserveAuthority_Inr(1)) simp

lemma claimed_flag:
  assumes "applySessionClaim H r claim kind now allow = Inr (x, b)"
  shows "b \<longleftrightarrow> \<not> (case priorApproval kind r of None \<Rightarrow> False
     | Some prior \<Rightarrow> ap_planId prior = ap_planId (sk_approval claim) \<and> same (ap_planCommitment prior) (ap_planCommitment (sk_approval claim)))"
  using assms by (auto simp: applySessionClaim_def Let_def bindR_eq_Inr split: if_splits)

lemma claimSession_pg_cases:
  assumes c: "claimSession_pg H active clock input kind D = (Inr (x, b), D')"
  obtains (same) "\<not> b" "db_sessions D' = db_sessions D" "db_sessionReservations D' = db_sessionReservations D"
  | (claimed) r allow where "b" "selectSession H (sk_actor input) (sk_id input) D = Inr r" "applySessionClaim H r input kind (clock 2) allow = Inr (x, True)"
      "db_sessions D' = map (\<lambda>w. if sw_id w = se_id x then w\<lparr>sw_document := x\<rparr> else w) (db_sessions D)"
      "\<exists>D1. (if kind = Activation then reserveAuthority H r D else Inr D) = Inr D1 \<and> db_sessionReservations D' = db_sessionReservations D1"
proof -
  have n: "cloneSession H json_of_SessionClaim input = Inr input" "assertActor (sk_actor input) = Inr ()" "assertSessionIdempotency (sk_idempotency input) = Inr ()"
    using c by (auto simp: claimSession_pg_def attempt_eq_Inr cloneSession_Inr)
  note t = c [unfolded claimSession_pg_def, simplified n attempt_simps transactSession_Inr Let_def]
  from t obtain r where r: "selectSession H (sk_actor input) (sk_id input) D = Inr r" by (auto simp: bindR_eq_Inr)
  show ?thesis
  proof (cases "idem_pg (sk_actor input) (si_key (sk_idempotency input)) D")
    case (Some e)
    then have "\<not> b" "D' = D" using t r by (auto simp: bindR_eq_Inr)
    then show ?thesis by (intro same) simp_all
  next
    case None
    let ?allow = "case priorApproval kind r of None \<Rightarrow> False | Some p \<Rightarrow> ap_planId p \<noteq> ap_planId (sk_approval input)"
    obtain now initial first D1 D2 final second where f: "applySessionClaim H r input kind now ?allow = Inr (initial, first)"
      "(if first \<and> kind = Activation then reserveAuthority H r D else Inr D) = Inr D1"
      "reserveIdempotency_pg (sk_actor input) (sk_idempotency input) (case kind of Activation \<Rightarrow> ''activate'' | Revocation \<Rightarrow> ''revoke'') (se_id r) D1 = Inr D2"
      "applySessionClaim H r input kind (clock 2) ?allow = Inr (final, second)"
      "(if second then bindR (saveSession H final D2) (\<lambda>(saved, D3). Inr ((saved, True), D3)) else Inr ((final, False), D2)) = Inr ((x, b), D')"
      using t r None unfolding bindR_eq_Inr by (elim exE conjE) (auto simp: bindR_eq_Inr)
    have flags: "first = second" using claimed_flag [OF f(1)] claimed_flag [OF f(4)] by simp
    note idem = reserveIdempotency_pg_Inr [OF f(3)]
    show ?thesis
    proof (cases second)
      case True
      then obtain D3 where s: "saveSession H final D2 = Inr (x, D3)" "b" "D' = D3" using f(5) by (auto simp: bindR_eq_Inr)
      note sv = saveSession_Inr [OF s(1)]
      have "db_sessions D1 = db_sessions D" using f(2) reserveAuthority_sessions by (auto split: if_splits)
      then show ?thesis using True s sv f(2,4) idem flags r by (intro claimed [of r ?allow]) auto
    next
      case False
      then show ?thesis using f(2,5) flags idem by (intro same) auto
    qed
  qed
qed

lemma claimSession_pg_step:
  assumes inv: "pgs_inv D" and c: "claimSession_pg H active clock input kind D = (rc, D')"
  shows "pgs_inv D' \<and> se_extends H (sessionsOf D) (sessionsOf D')"
proof (cases rc)
  case (Inl e)
  then have "D' = D" using c session_failed(2) by simp
  then show ?thesis using inv by simp
next
  case (Inr xb)
  obtain x b where xb: "xb = (x, b)" by (cases xb)
  have "claimSession_pg H active clock input kind D = (Inr (x, b), D')" using c Inr xb by simp
  then show ?thesis
  proof (cases rule: claimSession_pg_cases)
    case same
    then show ?thesis using inv by (intro pgs_inv_cong)
  next
    case (claimed r allow)
    note g = selectSession_Inr [OF inv claimed(2)]
    have ch: "se_change H r x" using claimed(3) by (rule se_change.Claimed)
    have idn: "se_identity x = se_identity r" using se_change_revision [OF ch] by simp
    have x: "x = approvedRecord r kind (sk_approval input) (clock 2)" "kind = Activation \<Longrightarrow> \<not> se_reservationsReleased r"
      using claimed(3) by (auto elim: claimed_se_cases)
    have rel: "se_reservationsReleased x = se_reservationsReleased r" "kind = Revocation \<Longrightarrow> reserving x \<Longrightarrow> reserving r"
      unfolding x(1) by simp (auto simp: reserving_def enabledNow_def approvedRecord_def Let_def split: option.splits)
    have free: "reserving x \<longrightarrow> reserving r \<or> checkReservation (sessionsOf D) r = Inr ()"
      using claimed(5) reserveAuthority_free [OF inv] rel(2) by (cases kind) auto
    have "reservationsOk (js_set (sk_id input) x (ms_records (sessionsOf D))) (db_sessionReservations D')"
    proof (cases kind)
      case Activation
      then obtain D1 where d: "reserveAuthority H r D = Inr D1" "db_sessionReservations D' = db_sessionReservations D1" using claimed(5) by auto
      show ?thesis unfolding d(2) by (rule reservationsOk_reserved [OF inv g(1) idn refl _ d(1)]) (use x(2) Activation in simp)
    next
      case Revocation
      then have "db_sessionReservations D' = db_sessionReservations D" using claimed(5) by auto
      then show ?thesis using reservationsOk_kept [OF inv g(1), of x] se_identityD [OF idn] rel Revocation by simp
    qed
    then show ?thesis by (rule pgs_update [OF inv g(1) ch free claimed(4)])
  qed
qed

lemma markStale_pg_step:
  assumes inv: "pgs_inv D" and c: "markStale_pg H now input D = (rc, D')"
  shows "pgs_inv D' \<and> se_extends H (sessionsOf D) (sessionsOf D')"
proof (cases rc)
  case (Inl e)
  then have "D' = D" using c session_failed(4) by simp
  then show ?thesis using inv by simp
next
  case (Inr xb)
  have n: "cloneSession H json_of_InvalidationUpdate input = Inr input" using c Inr by (auto simp: markStale_pg_def attempt_eq_Inr cloneSession_Inr)
  note t = c [unfolded markStale_pg_def Inr, simplified n attempt_simps transactSession_Inr]
  from t obtain r x b where r: "selectSession H (sv_actor input) (sv_id input) D = Inr r" "applySessionInvalidation H r input now = Inr (x, b)"
    "(if b then bindR (saveSession H x D) (\<lambda>(saved, D1). Inr ((saved, True), D1)) else Inr ((x, False), D)) = Inr (xb, D')"
    by (auto simp: bindR_eq_Inr)
  show ?thesis
  proof (cases b)
    case True
    then obtain D1 where s: "saveSession H x D = Inr (x, D1)" "D' = D1" using r(3) saveSession_Inr(1) by (auto simp: bindR_eq_Inr)
    note g = selectSession_Inr [OF inv r(1)] and sv = saveSession_Inr(2) [OF s(1)]
    have ch: "se_change H r x" using r(2) by (rule se_change.Invalidated)
    have idn: "se_identity x = se_identity r" using se_change_revision [OF ch] by simp
    have rel: "se_reservationsReleased x = se_reservationsReleased r" "reserving x = reserving r"
      using r(2) by (auto elim!: invalidated_se_cases simp: reserving_def enabledNow_def)
    have ok: "reservationsOk (js_set (sv_id input) x (ms_records (sessionsOf D))) (db_sessionReservations D')"
      using reservationsOk_kept [OF inv g(1), of x] se_identityD [OF idn] rel s(2) sv by simp
    show ?thesis by (rule pgs_update [OF inv g(1) ch _ _ ok]) (use rel s(2) sv in simp_all)
  next
    case False
    then show ?thesis using r(3) inv by simp
  qed
qed

lemma observeSession_pg_step:
  assumes inv: "pgs_inv D" and c: "observeSession_pg H now input D = (rc, D')"
  shows "pgs_inv D' \<and> se_extends H (sessionsOf D) (sessionsOf D')"
proof (cases rc)
  case (Inl e)
  then have "D' = D" using c session_failed(3) by simp
  then show ?thesis using inv by simp
next
  case (Inr xb)
  have n: "cloneSession H json_of_ObservationUpdate input = Inr input" using c Inr by (auto simp: observeSession_pg_def attempt_eq_Inr cloneSession_Inr)
  note t = c [unfolded observeSession_pg_def Inr, simplified n attempt_simps transactSession_Inr Let_def]
  from t obtain r bound granted x b where r: "selectSession H (su_actor input) (su_id input) D = Inr r"
    "applySessionObservation H r input (bound \<and> granted) now = Inr (x, b)" and
    s: "(if b then bindR (if enabledNow x \<and> \<not> se_reservationsReleased x then reserveAuthority H x D else Inr D) (\<lambda>D1.
         bindR (saveSession H x (if \<not> se_reservationsReleased r \<and> se_reservationsReleased x
               then D1\<lparr>db_sessionReservations := releaseReservations (se_id r) now (db_sessionReservations D1)\<rparr> else D1)) (\<lambda>(saved, D3). Inr ((saved, True), D3)))
       else Inr ((x, False), D)) = Inr (xb, D')"
    by (auto simp: bindR_eq_Inr)
  show ?thesis
  proof (cases b)
    case False
    then show ?thesis using s inv by simp
  next
    case True
    with s obtain D1 where d: "(if enabledNow x \<and> \<not> se_reservationsReleased x then reserveAuthority H x D else Inr D) = Inr D1"
      and sv: "saveSession H x (if \<not> se_reservationsReleased r \<and> se_reservationsReleased x
               then D1\<lparr>db_sessionReservations := releaseReservations (se_id r) now (db_sessionReservations D1)\<rparr> else D1) = Inr (x, D')"
      using saveSession_Inr(1) by (fastforce simp: bindR_eq_Inr)
    note g = selectSession_Inr [OF inv r(1)]
    have ch: "se_change H r x" using r(2) by (rule se_change.Observed)
    have idn: "se_identity x = se_identity r" using se_change_revision [OF ch] by simp
    note id = se_identityD [OF idn]
    have i: "se_id r = su_id input" using se_invD(2) [OF pgs_invD(1) [OF inv] g(1)] .
    have rel: "se_reservationsReleased r \<Longrightarrow> se_reservationsReleased x" "\<not> enabledNow x \<Longrightarrow> reserving x \<Longrightarrow> reserving r"
      using r(2) True by (auto elim!: observed_se_cases simp: reserving_def)
    have tables: "db_sessions D1 = db_sessions D" using d reserveAuthority_sessions by (auto split: if_splits)
    have free: "reserving x \<longrightarrow> reserving r \<or> checkReservation (sessionsOf D) r = Inr ()"
      using d rel(2) reserveAuthority_free [OF inv, of H x D1 r] id by (auto simp: reserving_def split: if_splits)
    have one: "reservationsOk (js_set (su_id input) x (ms_records (sessionsOf D))) (db_sessionReservations D1)"
    proof (cases "enabledNow x \<and> \<not> se_reservationsReleased x")
      case True
      then have "reserveAuthority H x D = Inr D1" "\<not> se_reservationsReleased r" using d rel(1) by auto
      then show ?thesis using reservationsOk_reserved [OF inv g(1) idn idn] by blast
    next
      case False
      then have "D1 = D" "reserving x \<Longrightarrow> reserving r" using d rel(2) by (auto simp: reserving_def)
      then show ?thesis using reservationsOk_kept [OF inv g(1), of x] id rel(1) by simp
    qed
    have ok: "reservationsOk (js_set (su_id input) x (ms_records (sessionsOf D))) (db_sessionReservations D')"
      using one reservationsOk_released [OF one, of "su_id input" x now] saveSession_Inr(2) [OF sv] i by (auto split: if_splits)
    show ?thesis by (rule pgs_update [OF inv g(1) ch free _ ok]) (use saveSession_Inr(2) [OF sv] tables in auto)
  qed
qed

section \<open>Both stores over the same tables\<close>

inductive pgs_op :: "host \<Rightarrow> Database \<Rightarrow> Database \<Rightarrow> bool" for H where
  CreateSession: "createSession_pg H active clock input idempotency now D = (r, D') \<Longrightarrow> pgs_op H D D'"
| Activate: "claimActivation_pg H active clock claim D = (rc, D') \<Longrightarrow> pgs_op H D D'"
| Revoke: "claimRevocation_pg H active clock claim D = (rc, D') \<Longrightarrow> pgs_op H D D'"
| ObserveSession: "observeSession_pg H now update D = (rc, D') \<Longrightarrow> pgs_op H D D'"
| MarkStale: "markStale_pg H now invalidation D = (rc, D') \<Longrightarrow> pgs_op H D D'"

text \<open>Sessions are kept in their own tables.\<close>

definition sessionFree :: "Database \<Rightarrow> Database" where
  "sessionFree D = D\<lparr>db_sessions := [], db_sessionIdempotency := [], db_sessionReservations := []\<rparr>"

definition leaves :: "Database \<Rightarrow> ('a \<times> Database) res \<Rightarrow> bool" where
  "leaves D r \<longleftrightarrow> (\<forall>x D'. r = Inr (x, D') \<longrightarrow> sessionFree D' = sessionFree D)"

lemma leaves_rules:
  "leaves D (Inl e)" "sessionFree D' = sessionFree D \<Longrightarrow> leaves D (Inr (x, D'))"
  "(\<And>y. m = Inr y \<Longrightarrow> leaves D (f y)) \<Longrightarrow> leaves D (bindR m f)"
  "(c \<Longrightarrow> leaves D r) \<Longrightarrow> (\<not> c \<Longrightarrow> leaves D r') \<Longrightarrow> leaves D (if c then r else r')"
  "(v = None \<Longrightarrow> leaves D r) \<Longrightarrow> (\<And>y. v = Some y \<Longrightarrow> leaves D (g y)) \<Longrightarrow> leaves D (case v of None \<Rightarrow> r | Some y \<Rightarrow> g y)"
  "(\<And>y z. p = (y, z) \<Longrightarrow> leaves D (h y z)) \<Longrightarrow> leaves D (case p of (y, z) \<Rightarrow> h y z)"
  by (auto simp: leaves_def bindR_def split: sum.splits option.splits prod.splits)

lemma session_writes_free:
  "insertSession r D = Inr D' \<Longrightarrow> sessionFree D' = sessionFree D"
  "reserveIdempotency_pg actor claim operation i D = Inr D' \<Longrightarrow> sessionFree D' = sessionFree D"
  "reserveAuthority H r D = Inr D' \<Longrightarrow> sessionFree D' = sessionFree D"
  "saveSession H r D = Inr (x, D') \<Longrightarrow> sessionFree D' = sessionFree D"
  by (auto simp: insertSession_def reserveIdempotency_pg_def reserveAuthority_def saveSession_def bindR_eq_Inr sessionFree_def)

lemma transactSession_free: "transactSession f D = (r, D') \<Longrightarrow> leaves D (f D) \<Longrightarrow> sessionFree D' = sessionFree D"
  by (auto simp: transactSession_def leaves_def split: sum.splits prod.splits)

lemma attempt_free: "attempt m D f = (r, D') \<Longrightarrow> (\<And>x. m = Inr x \<Longrightarrow> f x = (r, D') \<Longrightarrow> sessionFree D' = sessionFree D) \<Longrightarrow> sessionFree D' = sessionFree D"
  by (auto simp: attempt_def split: sum.splits)

lemma pgs_op_free: "pgs_op H D D' \<Longrightarrow> sessionFree D' = sessionFree D"
proof (induction rule: pgs_op.induct)
  case (CreateSession active clock input idempotency now D r D')
  show ?case
    using CreateSession unfolding createSession_pg_def Let_def
    by (elim attempt_free transactSession_free) (intro leaves_rules; auto dest!: session_writes_free)
next
  case (ObserveSession now update D rc D')
  show ?case
    using ObserveSession unfolding observeSession_pg_def Let_def
    by (elim attempt_free transactSession_free) (intro leaves_rules; auto dest!: session_writes_free simp: sessionFree_def split: if_splits)
next
  case (MarkStale now invalidation D rc D')
  show ?case
    using MarkStale unfolding markStale_pg_def Let_def
    by (elim attempt_free transactSession_free) (intro leaves_rules; auto dest!: session_writes_free)
next
  case (Activate active clock claim D rc D')
  show ?case
    using Activate unfolding claimActivation_pg_def claimSession_pg_def Let_def
    by (elim attempt_free transactSession_free) (intro leaves_rules; auto dest!: session_writes_free split: if_splits)
next
  case (Revoke active clock claim D rc D')
  show ?case
    using Revoke unfolding claimRevocation_pg_def claimSession_pg_def Let_def
    by (elim attempt_free transactSession_free) (intro leaves_rules; auto dest!: session_writes_free split: if_splits)
qed

lemma sessionFreeD: "sessionFree D' = sessionFree D \<Longrightarrow> db_operations D' = db_operations D \<and> db_operationNonces D' = db_operationNonces D \<and>
    db_sponsorships D' = db_sponsorships D \<and> db_forwardNonces D' = db_forwardNonces D \<and> db_transports D' = db_transports D"
  by (cases D; cases D') (simp add: sessionFree_def)

text \<open>The stores of accounts, wallet bindings, transactions and sponsorships change their own tables and claim transports.\<close>

inductive db_step :: "viem \<Rightarrow> host \<Rightarrow> Database \<Rightarrow> Database \<Rightarrow> bool" for V H where
  Operation: "pg_op V H D D' \<Longrightarrow> db_step V H D D'"
| Session: "pgs_op H D D' \<Longrightarrow> db_step V H D D'"
| OtherTables: "claimPostgresTransport i indexes transport bindingId (db_transports D) = (u, T) \<Longrightarrow>
    db_step V H D (D\<lparr>db_transports := T, db_accounts := accounts, db_plans := plans, db_planIdempotency := planIdempotency, db_transactionNonces := transactionNonces, db_bindings := bindings, db_grants := grants, db_requestNonces := requestNonces,
      db_sponsorships := sponsorships, db_forwardNonces := forwardNonces\<rparr>)"

lemma pgs_op_inv: "pgs_op H D D' \<Longrightarrow> pgs_inv D \<Longrightarrow> pgs_inv D' \<and> se_extends H (sessionsOf D) (sessionsOf D')"
proof (induction rule: pgs_op.induct)
  case (CreateSession active clock input idempotency now D r D')
  from CreateSession(2,1) show ?case by (rule createSession_pg_step)
next
  case (Activate active clock claim D rc D')
  from Activate(2) Activate(1) [unfolded claimActivation_pg_def] show ?case by (rule claimSession_pg_step)
next
  case (Revoke active clock claim D rc D')
  from Revoke(2) Revoke(1) [unfolded claimRevocation_pg_def] show ?case by (rule claimSession_pg_step)
next
  case (ObserveSession now update D rc D')
  from ObserveSession(2,1) show ?case by (rule observeSession_pg_step)
next
  case (MarkStale now invalidation D rc D')
  from MarkStale(2,1) show ?case by (rule markStale_pg_step)
qed

lemma db_step_inv: "db_step V H D D' \<Longrightarrow> pgs_inv D \<Longrightarrow> pgs_inv D' \<and> se_extends H (sessionsOf D) (sessionsOf D')"
proof (induction rule: db_step.induct)
  case (Operation D D')
  note f = operationFreeD [OF pg_op_free [OF this(1), THEN conjunct2]]
  then show ?case using Operation(2) by (intro pgs_inv_cong) simp_all
next
  case (Session D D')
  then show ?case by (rule pgs_op_inv)
next
  case (OtherTables i indexes transport bindingId D u T accounts plans planIdempotency transactionNonces bindings grants requestNonces sponsorships forwardNonces)
  then show ?case by (intro pgs_inv_cong) simp_all
qed

interpretation pg_store: evolving_store "db_step V H" pgs_inv "\<lambda>D D'. se_extends H (sessionsOf D) (sessionsOf D')" emptyDatabase for V H
  by unfold_locales (rule db_step_inv se_extends_refl se_extends_trans pgs_inv_empty; assumption)+

lemmas db_run_inv = pg_store.run and db_reach = pg_store.reach

section \<open>Properties\<close>

text \<open>
  C25. The database admits one session per wallet. After any transactions of the session and user operation stores, at most one row of \<^verbatim>\<open>rest_sessions\<close> of a
  wallet is activated or seen enabled without having been retired for good, and its wallet is held by a row of
  \<^verbatim>\<open>rest_session_reservations\<close> that is not released.
\<close>

theorem postgres_session_exclusive:
  assumes "(db_step V H)\<^sup>*\<^sup>* emptyDatabase D" and "v \<in> set (db_sessions D)" and "se_activation (sw_document v) \<noteq> None \<or> enabledNow (sw_document v)"
    and "\<not> se_reservationsReleased (sw_document v)"
  shows "(\<forall>w \<in> set (db_sessions D). sw_chainId w = sw_chainId v \<and> sw_walletAddress w = sw_walletAddress v \<and>
        (se_activation (sw_document w) \<noteq> None \<or> enabledNow (sw_document w)) \<and> \<not> se_reservationsReleased (sw_document w) \<longrightarrow> w = v) \<and>
     (\<exists>row \<in> set (db_sessionReservations D). rw_sessionId row = sw_id v \<and> rw_chainId row = sw_chainId v \<and> rw_walletAddress row = sw_walletAddress v \<and>
        rw_releasedAt row = None)"
proof
  note inv = db_reach [OF assms(1)]
  have row: "sw_chainId w = cs_chainId (se_compiled (sw_document w))" "sw_walletAddress w = toLowerCase (cs_wallet (se_compiled (sw_document w)))"
    "w = sessionRow (sw_document w)" if "w \<in> set (db_sessions D)" for w
  proof -
    show r: "w = sessionRow (sw_document w)" using pgs_invD(2) [OF inv that] by (simp add: sessionRowOk_def)
    show "sw_chainId w = cs_chainId (se_compiled (sw_document w))" "sw_walletAddress w = toLowerCase (cs_wallet (se_compiled (sw_document w)))"
      by (subst r, simp add: sessionRow_def Let_def)+
  qed
  have res: "reserving (sw_document v)" using assms(3,4) by (simp add: reserving_def)
  have doc: "js_get (ms_records (sessionsOf D)) (sw_id w) = Some (sw_document w)" if "w \<in> set (db_sessions D)" for w using sessionsOf_row [OF inv that] .
  show "\<forall>w \<in> set (db_sessions D). sw_chainId w = sw_chainId v \<and> sw_walletAddress w = sw_walletAddress v \<and>
        (se_activation (sw_document w) \<noteq> None \<or> enabledNow (sw_document w)) \<and> \<not> se_reservationsReleased (sw_document w) \<longrightarrow> w = v"
  proof (intro ballI impI, elim conjE)
    fix w assume w: "w \<in> set (db_sessions D)" "sw_chainId w = sw_chainId v" "sw_walletAddress w = sw_walletAddress v"
      "se_activation (sw_document w) \<noteq> None \<or> enabledNow (sw_document w)" "\<not> se_reservationsReleased (sw_document w)"
    have "sameWallet (sw_document w) (sw_document v)" using w(2,3) row(1,2) [OF w(1)] row(1,2) [OF assms(2)] by (simp add: sameWallet_def same_def)
    moreover have "reserving (sw_document w)" using w(4,5) by (simp add: reserving_def)
    ultimately have "sw_id w = sw_id v" using se_invD(4) [OF pgs_invD(1) [OF inv] doc [OF w(1)] doc [OF assms(2)]] res by blast
    then have "sw_document w = sw_document v" using doc [OF w(1)] doc [OF assms(2)] by simp
    then show "w = v" using row(3) [OF w(1)] row(3) [OF assms(2)] by simp
  qed
  obtain x where x: "x \<in> set (db_sessionReservations D)" "rw_sessionId x = sw_id v" "rw_releasedAt x = None"
    using reservationsOkD(2) [OF pgs_invD(3) [OF inv] doc [OF assms(2)] res] by blast
  moreover have "rw_chainId x = sw_chainId v" "rw_walletAddress x = sw_walletAddress v"
    using reservationsOkD(1) [OF pgs_invD(3) [OF inv] x(1)] x(2) doc [OF assms(2)] row(1,2) [OF assms(2)] by (auto simp: reservationFits_def)
  ultimately show "\<exists>row \<in> set (db_sessionReservations D). rw_sessionId row = sw_id v \<and> rw_chainId row = sw_chainId v \<and>
      rw_walletAddress row = sw_walletAddress v \<and> rw_releasedAt row = None" by blast
qed

lemma ended_row:
  assumes "(db_step V H)\<^sup>*\<^sup>* emptyDatabase D"
    and "(claimRevocation_pg H active clock claim D = (Inr (x, True), D1) \<and> sk_id claim = i) \<or>
      (D1 = D \<and> (\<exists>w \<in> set (db_sessions D). sw_id w = i \<and> se_reservationsReleased (sw_document w)))"
    and "(db_step V H)\<^sup>*\<^sup>* D1 D2"
  obtains y where "pgs_inv D2" "js_get (ms_records (sessionsOf D2)) i = Some y" "se_revocation y \<noteq> None \<or> se_reservationsReleased y"
proof -
  note inv = db_reach [OF assms(1)]
  have "\<exists>r. pgs_inv D1 \<and> js_get (ms_records (sessionsOf D1)) i = Some r \<and> (se_revocation r \<noteq> None \<or> se_reservationsReleased r)"
    using assms(2)
  proof (elim disjE conjE)
    assume c: "claimRevocation_pg H active clock claim D = (Inr (x, True), D1)" and i: "sk_id claim = i"
    from c [unfolded claimRevocation_pg_def] show ?thesis
    proof (cases rule: claimSession_pg_cases)
      case (claimed r allow)
      note g = selectSession_Inr(1) [OF inv claimed(2)]
      have ch: "se_change H r x" using claimed(3) by (rule se_change.Claimed)
      have id: "se_id x = i" using se_identityD [OF conjunct1 [OF se_change_revision [OF ch]]] se_invD(2) [OF pgs_invD(1) [OF inv] g] i by simp
      have "ms_records (sessionsOf D1) = js_set i x (ms_records (sessionsOf D))" using saved_sessions [OF inv _ claimed(4)] g id i by simp
      moreover have "se_revocation x \<noteq> None" using claimed(3) by (cases rule: claimed_se_cases) (auto simp: approvedRecord_def Let_def split: option.splits)
      moreover have "pgs_inv D1" using claimSession_pg_step [OF inv c [unfolded claimRevocation_pg_def]] by simp
      ultimately show ?thesis by auto
    qed simp
  next
    assume "D1 = D" "\<exists>w \<in> set (db_sessions D). sw_id w = i \<and> se_reservationsReleased (sw_document w)"
    then show ?thesis using inv sessionsOf_row [OF inv] by blast
  qed
  then obtain r where r: "pgs_inv D1" "js_get (ms_records (sessionsOf D1)) i = Some r" "se_revocation r \<noteq> None \<or> se_reservationsReleased r" by blast
  note run = db_run_inv [OF assms(3) r(1)]
  then obtain y where y: "js_get (ms_records (sessionsOf D2)) i = Some y" "(se_change H)\<^sup>*\<^sup>* r y" using r(2) unfolding se_extends_def by blast
  show ?thesis using run y(1) r(3) se_history_keeps [OF y(2)] by (intro that) blast+
qed

text \<open>
  C24. Revoking a session in the database stops its operations. Once the revocation of a session was committed, or its retirement was
  final, no later transaction hands a user operation of that session to the bundler and none accepts another activation of it.
\<close>

theorem postgres_revocation_stops_operations:
  assumes "(db_step V H)\<^sup>*\<^sup>* emptyDatabase D"
    and "(claimRevocation_pg H active clock claim D = (Inr (x, True), D1) \<and> sk_id claim = i) \<or>
      (D1 = D \<and> (\<exists>w \<in> set (db_sessions D). sw_id w = i \<and> se_reservationsReleased (sw_document w)))"
    and "(db_step V H)\<^sup>*\<^sup>* D1 D2"
  shows "(claim_pg V H active' clock' checks input D2 = (Inr (r, True), D3) \<longrightarrow> map_option us_id (ur_session r) \<noteq> Some i) \<and>
     (sk_id claim' = i \<longrightarrow> fst (claimActivation_pg H active'' clock'' claim' D2) \<noteq> Inr (x', True))"
proof
  obtain y where inv: "pgs_inv D2" and y: "js_get (ms_records (sessionsOf D2)) i = Some y" "se_revocation y \<noteq> None \<or> se_reservationsReleased y"
    using assms by (rule ended_row)
  have ended: "se_revocation (sw_document w) \<noteq> None \<or> se_reservationsReleased (sw_document w)" if "w \<in> set (db_sessions D2)" "sw_id w = i" for w
    using sessionsOf_row [OF inv that(1)] that(2) y by simp
  show "claim_pg V H active' clock' checks input D2 = (Inr (r, True), D3) \<longrightarrow> map_option us_id (ur_session r) \<noteq> Some i"
  proof
    assume c: "claim_pg V H active' clock' checks input D2 = (Inr (r, True), D3)"
    show "map_option us_id (ur_session r) \<noteq> Some i"
    proof
      assume "map_option us_id (ur_session r) = Some i"
      then obtain session where s: "ur_session r = Some session" "us_id session = i" by auto
      obtain w where "w \<in> set (db_sessions D2)" "sw_id w = us_id session" "se_revocation (sw_document w) = None" "\<not> se_reservationsReleased (sw_document w)"
        using dispatch_session [OF c s(1)] by blast
      then show False using ended s(2) by blast
    qed
  qed
  show "sk_id claim' = i \<longrightarrow> fst (claimActivation_pg H active'' clock'' claim' D2) \<noteq> Inr (x', True)"
  proof (intro impI notI)
    assume i: "sk_id claim' = i" and "fst (claimActivation_pg H active'' clock'' claim' D2) = Inr (x', True)"
    then have "claimSession_pg H active'' clock'' claim' Activation D2 = (Inr (x', True), snd (claimActivation_pg H active'' clock'' claim' D2))"
      unfolding claimActivation_pg_def by (metis prod.collapse)
    then show False
    proof (cases rule: claimSession_pg_cases)
      case (claimed z allow)
      have "z = y" using selectSession_Inr(1) [OF inv claimed(2)] i y(1) by simp
      then show False using claimed(3) y(2) by (auto elim: claimed_se_cases)
    qed simp
  qed
qed

section \<open>A session in the database\<close>

definition sampleOwnerAccount :: Account where
  "sampleOwnerAccount = \<lparr>ac_id = sampleOwner, ac_ownerAddress = hex40 CHR ''a'', ac_authorityChainId = 1, ac_profile = \<lparr>pf_displayName = [], pf_bio = [], pf_avatarUri = None\<rparr>,
     ac_createdAt = 0, ac_updatedAt = 0\<rparr>"

definition sampleTables :: Database where
  "sampleTables = emptyDatabase\<lparr>db_accounts := [sampleOwnerAccount],
     db_bindings := [\<lparr>bw_accountId = sampleOwner, bw_id = toLowerCase (hex64 CHR ''7''), bw_chainId = 1, bw_walletAddress = toLowerCase (hex40 CHR ''a''),
       bw_revokedAt = None, bw_document = \<lparr>sb_chainId = 1, sb_address = hex40 CHR ''a'', sb_stateHash = hex64 CHR ''8'', sb_moduleConfigurationVerified = True\<rparr>\<rparr>],
     db_grants := [\<lparr>bg_id = sampleUuid, bg_accountId = sampleOwner, bg_botAddress = hex40 CHR ''b'', bg_scopes = [Read, Plan, Relay],
       bg_label = ''bot'', bg_createdAt = 100, bg_expiresAt = 700000, bg_revokedAt = None\<rparr>]\<rparr>"

definition sampleDb :: "StoredSession \<Rightarrow> string list \<Rightarrow> ReservationRow list \<Rightarrow> Database" where
  "sampleDb r operations rows = sampleTables\<lparr>db_sessions := [sessionRow r], db_sessionReservations := rows,
     db_sessionIdempotency := map (\<lambda>(k, operation). \<lparr>iw_accountId = sampleOwner, iw_principalId = ''owner:'' @ sampleOwner, iw_key = k,
       iw_requestHash = ''hash'', iw_operation = operation, iw_sessionId = sampleUuid\<rparr>) (zip [''c'', ''a'', ''b''] operations)\<rparr>"

definition sampleReserved :: "StoredSession \<Rightarrow> ReservationRow list \<Rightarrow> ReservationRow list" where
  "sampleReserved r rows = fold (insertReservation r) (reservedCoordinates sampleHost r) rows"

lemma sampleActor_fields [simp]: "accountId sampleActor = sampleOwner" "principalId sampleActor = ''owner:'' @ sampleOwner"
  by (simp_all add: sampleActor_def)

lemma sampleDb_fields: "db_sessions (sampleDb r ops rows) = [sessionRow r]" "db_sessionReservations (sampleDb r ops rows) = rows"
  "ac_id ` set (db_accounts (sampleDb r ops rows)) = {sampleOwner}" "db_bindings (sampleDb r ops rows) = db_bindings sampleTables"
  "db_grants (sampleDb r ops rows) = db_grants sampleTables"
  by (simp_all add: sampleDb_def sampleTables_def sampleOwnerAccount_def)

lemma sample_bound: "assertBinding_pg (sampleSession q n t a v b) D = Inr ()" if "db_bindings D = db_bindings sampleTables"
  by (simp add: assertBinding_pg_def that sampleTables_def)

lemma sample_granted: "assertSessionGrant (sampleSession q n t a v b) (grantFor (sampleSession q n t a v b) D) now = Inr ()"
  if "db_grants D = db_grants sampleTables" "now \<le> 2000"
  using that by (simp add: assertSessionGrant_def grantFor_def sampleTables_def)

lemma sample_selected: "selectSession sampleHost sampleActor sampleUuid (sampleDb (sampleSession q n t a v b) ops rows) = Inr (sampleSession q n t a v b)"
  if "sampleRecord (sampleSession q n t a v b)"
  by (simp add: selectSession_def sample_actor_ok assertSessionId_def sampleDb_fields sample_readable sample_clone_record [OF that])

lemma sample_create_pgs: "createSession_pg sampleHost (\<lambda>_. admitAll) (\<lambda>_. 1000000) samplePrepared \<lparr>si_key = ''c'', si_requestHash = ''hash''\<rparr> 1000000 sampleTables =
  (Inr samplePrepared, sampleDb samplePrepared [''create''] [])"
proof -
  have c: "cloneSession sampleHost json_of_SessionIdempotency \<lparr>si_key = ''c'', si_requestHash = ''hash''\<rparr> = Inr \<lparr>si_key = ''c'', si_requestHash = ''hash''\<rparr>"
    by (rule sample_clone_se) (simp_all add: json_of_SessionIdempotency_def maximumBytes_se_def)
  have t: "db_sessions sampleTables = []" "db_sessionIdempotency sampleTables = []" by (simp_all add: sampleTables_def emptyDatabase_def)
  show ?thesis
    by (simp add: createSession_pg_def sample_new_se sample_idem sample_clone_record sample_records c admitAll_def transactSession_def Let_def idem_pg_def t
        assertIdempotencyMatch_def assertSessionActor_def sample_readable sample_bound sample_granted insertSession_def sessionsPerAccount_def
        reserveIdempotency_pg_def idempotencyPerAccount_se_def)
      (simp add: sampleDb_def sampleTables_def emptyDatabase_def)
qed

lemma sample_saved: "saveSession sampleHost (sampleSession q n t a v b) (sampleDb (sampleSession q' n' t' a' v' b') ops rows) =
    Inr (sampleSession q n t a v b, sampleDb (sampleSession q n t a v b) ops rows)" if "sampleRecord (sampleSession q n t a v b)"
  by (simp add: saveSession_def sample_clone_record [OF that] sampleDb_fields) (simp add: sampleDb_def sessionRow_def)

lemma sample_idems: "idem_pg sampleActor ''a'' (sampleDb r [''create''] rows) = None" "idem_pg sampleActor ''b'' (sampleDb r [''create'', ''activate''] rows) = None"
  "reserveIdempotency_pg sampleActor \<lparr>si_key = ''a'', si_requestHash = ''hash''\<rparr> ''activate'' sampleUuid (sampleDb r [''create''] rows) = Inr (sampleDb r [''create'', ''activate''] rows)"
  "reserveIdempotency_pg sampleActor \<lparr>si_key = ''b'', si_requestHash = ''hash''\<rparr> ''revoke'' sampleUuid (sampleDb r [''create'', ''activate''] rows) =
    Inr (sampleDb r [''create'', ''activate'', ''revoke''] rows)"
  by (simp_all add: idem_pg_def reserveIdempotency_pg_def sampleDb_def idempotencyPerAccount_se_def)

lemma sample_reserve_pg: "reserveAuthority sampleHost (sampleSession q n t a v b) (sampleDb r ops rows) = Inr (sampleDb r ops (sampleReserved (sampleSession q n t a v b) rows))"
  if "\<forall>row \<in> set rows. rw_sessionId row = sampleUuid"
  using that by (auto simp: reserveAuthority_def list_ex_iff sampleDb_fields sampleReserved_def) (simp add: sampleDb_def)

lemma sample_activate_pgs: "claimActivation_pg sampleHost (\<lambda>_. admitAll) (\<lambda>_. 1001000) (sampleSeClaim Activation 0 ''a'') (sampleDb samplePrepared [''create''] []) =
  (Inr (sampleInstalling, True), sampleDb sampleInstalling [''create'', ''activate''] (sampleReserved samplePrepared []))"
  by (simp add: claimActivation_pg_def claimSession_pg_def sample_clone_claim sample_actor_ok sample_idem admitAll_def transactSession_def sample_selected sample_records Let_def
      sample_idems assertIdempotencyMatch_def priorApproval_def sample_bound sample_granted sampleDb_fields sample_apply_activation sample_reserve_pg sample_saved)

lemma sample_rows: "\<forall>row \<in> set (sampleReserved samplePrepared []). rw_sessionId row = sampleUuid"
  unfolding sampleReserved_def by (auto dest!: insertReservations_new)

lemma sample_observe_pgs: "observeSession_pg sampleHost 1002000 (sampleSeUpdate 1 None (sampleSeen ''0'' ''5'' 1002000)) (sampleDb sampleInstalling ops (sampleReserved samplePrepared [])) =
  (Inr (sampleActive, True), sampleDb sampleActive ops (sampleReserved sampleActive (sampleReserved samplePrepared [])))"
proof -
  let ?u = "sampleSeUpdate 1 None (sampleSeen ''0'' ''5'' 1002000)"
  have u: "su_actor ?u = sampleActor" "su_id ?u = sampleUuid" by (simp_all add: sampleSeUpdate_def)
  show ?thesis
    by (simp add: observeSession_pg_def sample_clone_update u lockAccount_def sample_actor_ok sampleDb_fields transactSession_def sample_selected sample_records
        sample_bound sample_granted holdsOr_def sample_apply_observed enabledNow_def sampleSeen_fields sample_reserve_pg sample_rows sample_saved Let_def)
qed

lemma sample_revoke_pgs: "claimRevocation_pg sampleHost (\<lambda>_. admitAll) (\<lambda>_. 1003000) (sampleSeClaim Revocation 2 ''b'') (sampleDb sampleActive [''create'', ''activate''] rows) =
  (Inr (sampleRevoking, True), sampleDb sampleRevoking [''create'', ''activate'', ''revoke''] rows)"
  by (simp add: claimRevocation_pg_def claimSession_pg_def sample_clone_claim sample_actor_ok sample_idem admitAll_def transactSession_def sample_selected sample_records Let_def
      sample_idems assertIdempotencyMatch_def priorApproval_def sample_apply_revocation sample_saved)

lemma sample_db_run: "(db_step sampleViem sampleHost)\<^sup>*\<^sup>* emptyDatabase
  (sampleDb sampleActive [''create'', ''activate''] (sampleReserved sampleActive (sampleReserved samplePrepared [])))"
proof -
  have t: "claimPostgresTransport ''p'' [] Relayr ''b'' (db_transports emptyDatabase) = (fst (claimPostgresTransport ''p'' [] Relayr ''b'' []), [])"
    by (simp add: emptyDatabase_def claimPostgresTransport_def transport_parameters_def tx_defs isControl_def code_def)
  have "db_step sampleViem sampleHost emptyDatabase sampleTables"
    using db_step.OtherTables [OF t, where V = sampleViem and H = sampleHost and accounts = "db_accounts sampleTables" and plans = "[]" and planIdempotency = "[]" and transactionNonces = "[]"
        and bindings = "db_bindings sampleTables" and grants = "db_grants sampleTables" and requestNonces = "[]" and sponsorships = "[]" and forwardNonces = "[]"] by (simp add: sampleTables_def emptyDatabase_def)
  moreover note db_step.Session [OF pgs_op.CreateSession [OF sample_create_pgs], of sampleViem]
    and db_step.Session [OF pgs_op.Activate [OF sample_activate_pgs], of sampleViem]
    and db_step.Session [OF pgs_op.ObserveSession [OF sample_observe_pgs], of sampleViem "[''create'', ''activate'']"]
  ultimately show ?thesis by (meson converse_rtranclp_into_rtranclp rtranclp.rtrancl_refl)
qed

theorem postgres_session_exclusive_witness:
  "\<exists>row \<in> set (sampleReserved sampleActive (sampleReserved samplePrepared [])). rw_sessionId row = sampleUuid \<and> rw_releasedAt row = None"
  using postgres_session_exclusive [OF sample_db_run, of "sessionRow sampleActive"] by (auto simp: sampleDb_fields)

theorem postgres_revocation_stops_operations_witness:
  "fst (claimActivation_pg sampleHost (\<lambda>_. admitAll) (\<lambda>_. 1003000) (sampleSeClaim Activation 3 ''d'')
     (sampleDb sampleRevoking [''create'', ''activate'', ''revoke''] (sampleReserved sampleActive (sampleReserved samplePrepared [])))) \<noteq> Inr (sampleRevoking, True)"
proof -
  have "(claimRevocation_pg sampleHost (\<lambda>_. admitAll) (\<lambda>_. 1003000) (sampleSeClaim Revocation 2 ''b'')
      (sampleDb sampleActive [''create'', ''activate''] (sampleReserved sampleActive (sampleReserved samplePrepared []))) =
      (Inr (sampleRevoking, True), sampleDb sampleRevoking [''create'', ''activate'', ''revoke''] (sampleReserved sampleActive (sampleReserved samplePrepared []))) \<and>
      sk_id (sampleSeClaim Revocation 2 ''b'') = sampleUuid) \<or> P" for P using sample_revoke_pgs by simp
  from postgres_revocation_stops_operations [OF sample_db_run this rtranclp.rtrancl_refl] show ?thesis by simp
qed

end
