(* ===== verification/PgTransactions.thy ===== *)
theory PgTransactions
  imports PgTables
begin

text \<open>
  The PostgreSQL transaction store (\<^verbatim>\<open>src/src/rest/transactions/postgres.ts\<close>) over the tables of \<open>PgTables\<close>. \<open>clock n\<close> is the
  \<open>n\<close>-th answer of the database clock in an operation and \<open>active n\<close> the \<open>n\<close>-th answer of \<^verbatim>\<open>assertRestActorActive\<close>.
\<close>

section \<open>Rows\<close>

definition require_txs :: "RestActor \<Rightarrow> string \<Rightarrow> Database \<Rightarrow> StoredPlan res" where
  "require_txs actor i D =
     bindR (assertActor actor) (\<lambda>_.
     bindR (assertText i) (\<lambda>_.
     case List.find (\<lambda>row. pw_id row = i \<and> pw_accountId row = accountId actor \<and> pw_principalId row = principalId actor) (db_plans D) of
       None \<Rightarrow> Inl missingPlan
     | Some row \<Rightarrow> clonePlan (pw_document row)))"

definition idempotencyRow :: "RestActor \<Rightarrow> string \<Rightarrow> Database \<Rightarrow> PlanIdempotencyRow option" where
  "idempotencyRow actor key D = List.find (\<lambda>row. xi_accountId row = accountId actor \<and> xi_principalId row = principalId actor \<and>
     xi_key row = key) (db_planIdempotency D)"

definition storedRow :: "PlanIdempotencyRow \<Rightarrow> StoredIdempotency" where
  "storedRow row = \<lparr>ic_key = xi_key row, ic_requestHash = xi_requestHash row, ic_operation = xi_operation row,
     si_planId = xi_planId row, si_stepIndex = xi_stepIndex row, si_accountId = xi_accountId row\<rparr>"

definition idempotency_txs :: "RestActor \<Rightarrow> IdempotencyClaim \<Rightarrow> Database \<Rightarrow> StoredIdempotency option" where
  "idempotency_txs actor claim D = map_option storedRow (idempotencyRow actor (ic_key claim) D)"

definition reserveIdempotency_txs ::
  "RestActor \<Rightarrow> IdempotencyClaim \<Rightarrow> string \<Rightarrow> int option \<Rightarrow> StoredIdempotency option \<Rightarrow> Database \<Rightarrow> Database res" where
  "reserveIdempotency_txs actor claim planId stepIndex existing D =
     (if existing \<noteq> None then Inr D
      else bindR (ensure (\<not> length (filter (\<lambda>row. xi_accountId row = accountId actor) (db_planIdempotency D)) \<ge> idempotencyPerAccount) storageLimit) (\<lambda>_.
        Inr (D\<lparr>db_planIdempotency := db_planIdempotency D @ [\<lparr>xi_accountId = accountId actor, xi_principalId = principalId actor,
          xi_key = ic_key claim, xi_requestHash = ic_requestHash claim, xi_operation = ic_operation claim, xi_planId = planId,
          xi_stepIndex = stepIndex\<rparr>]\<rparr>)))"

definition update_txs :: "StoredPlan \<Rightarrow> Database \<Rightarrow> Database res" where
  "update_txs plan D =
     bindR (clonePlan plan) (\<lambda>_.
     Inr (D\<lparr>db_plans := map (\<lambda>row. if pw_id row = pl_id plan then row\<lparr>pw_document := plan\<rparr> else row) (db_plans D)\<rparr>))"

text \<open>The common end of the operations: \<^verbatim>\<open>if (next.revision !== current.revision) await this.update(client, next)\<close>.\<close>

definition commit_txs :: "StoredPlan \<Rightarrow> StoredPlan \<Rightarrow> Database \<Rightarrow> (StoredPlan \<times> Database) res" where
  "commit_txs current nxt D =
     bindR (if pl_revision nxt \<noteq> pl_revision current then update_txs nxt D else Inr D) (\<lambda>D1.
     bindR (clonePlan nxt) (\<lambda>c. Inr (c, D1)))"

section \<open>Plans\<close>

text \<open>\<^verbatim>\<open>INSERT ... ON CONFLICT (id) DO NOTHING RETURNING id\<close>, with the reference to the account.\<close>

definition insertPlan :: "StoredPlan \<Rightarrow> Database \<Rightarrow> Database res" where
  "insertPlan plan D =
     bindR (ensure (\<not> list_ex (\<lambda>row. pw_id row = pl_id plan) (db_plans D)) (conflict ''Transaction plan ID already exists.'')) (\<lambda>_.
     bindR (ensure (accountId (pl_actor plan) \<in> ac_id ` set (db_accounts D)) foreignKeyViolation) (\<lambda>_.
     Inr (D\<lparr>db_plans := db_plans D @ [\<lparr>pw_id = pl_id plan, pw_accountId = accountId (pl_actor plan), pw_principalId = principalId (pl_actor plan),
       pw_accountAddress = toLowerCase (dr_account (pl_draft plan)), pw_createdAt = pl_createdAt plan, pw_document = plan\<rparr>]\<rparr>)))"

definition create_txs ::
  "(nat \<Rightarrow> guard) \<Rightarrow> (nat \<Rightarrow> int) \<Rightarrow> StoredPlan \<Rightarrow> IdempotencyClaim \<Rightarrow> int \<Rightarrow> Database \<Rightarrow> StoredPlan res \<times> Database" where
  "create_txs active clock input claim now D =
     attempt (assertNewPlan input now) D (\<lambda>_.
     attempt (assertIdempotency claim) D (\<lambda>_.
     attempt (clonePlan input) D (\<lambda>plan.
     transact (\<lambda>D.
       bindR (active 0 (pl_actor plan) [Plan] (now div 1000)) (\<lambda>_.
       let existing = idempotency_txs (pl_actor plan) claim D in
       bindR (checkIdempotency existing claim None) (\<lambda>_.
       case existing of
         Some e \<Rightarrow> bindR (require_txs (pl_actor plan) (si_planId e) D) (\<lambda>p. Inr (p, D))
       | None \<Rightarrow>
           bindR (assertNewPlan plan (max now (clock 0))) (\<lambda>_.
           bindR (ensure (\<not> length (filter (\<lambda>row. pw_accountId row = accountId (pl_actor plan)) (db_plans D)) \<ge> plansPerAccount) storageLimit) (\<lambda>_.
           bindR (insertPlan plan D) (\<lambda>D1.
           bindR (reserveIdempotency_txs (pl_actor plan) claim (pl_id plan) None existing D1) (\<lambda>D2.
           bindR (active 1 (pl_actor plan) [Plan] (now div 1000)) (\<lambda>_.
           bindR (assertNewPlan plan (max now (clock 1))) (\<lambda>_.
           bindR (clonePlan plan) (\<lambda>c. Inr (c, D2))))))))))) D)))"

definition get_txs :: "RestActor \<Rightarrow> string \<Rightarrow> Database \<Rightarrow> StoredPlan option res" where
  "get_txs actor i D =
     bindR (assertActor actor) (\<lambda>_.
     bindR (assertText i) (\<lambda>_.
     case List.find (\<lambda>row. pw_id row = i \<and> pw_accountId row = accountId actor \<and>
         (pw_principalId row = principalId actor \<or> principalId actor = ''owner:'' @ accountId actor)) (db_plans D) of
       None \<Rightarrow> Inr None
     | Some row \<Rightarrow> bindR (clonePlan (pw_document row)) (\<lambda>c. Inr (Some c))))"

text \<open>The join of the key with its plan.\<close>

definition findIdempotentPlan_txs :: "RestActor \<Rightarrow> IdempotencyClaim \<Rightarrow> Database \<Rightarrow> StoredPlan option res" where
  "findIdempotentPlan_txs actor claim D =
     bindR (assertActor actor) (\<lambda>_.
     bindR (assertIdempotency claim) (\<lambda>_.
     let joined = Option.bind (idempotencyRow actor (ic_key claim) D) (\<lambda>i.
           map_option (\<lambda>p. (storedRow i, pw_document p)) (List.find (\<lambda>p. pw_id p = xi_planId i) (db_plans D))) in
     bindR (checkIdempotency (map_option fst joined) claim None) (\<lambda>_.
     case joined of None \<Rightarrow> Inr None | Some row \<Rightarrow> bindR (clonePlan (snd row)) (\<lambda>c. Inr (Some c)))))"

definition rowCursor :: "PlanRow \<Rightarrow> ListCursor" where
  "rowCursor row = \<lparr>cu_createdAt = pw_createdAt row, cu_id = pw_id row\<rparr>"

definition list_txs ::
  "RestActor \<Rightarrow> string option \<Rightarrow> int \<Rightarrow> string option \<Rightarrow> Database \<Rightarrow> (StoredPlan list \<times> string option) res" where
  "list_txs actor account limit cursorValue D =
     bindR (assertActor actor) (\<lambda>_.
     bindR (assertLimit limit) (\<lambda>_.
     bindR (decodeCursor cursorValue) (\<lambda>cursor.
     let rows = take (nat (limit + 1)) (sort_by (\<lambda>a b. older_eq (rowCursor b) (rowCursor a))
           (filter (\<lambda>row. pw_accountId row = accountId actor \<and>
              (pw_principalId row = principalId actor \<or> principalId actor = ''owner:'' @ accountId actor) \<and>
              (case account of None \<Rightarrow> True | Some a \<Rightarrow> pw_accountAddress row = toLowerCase a) \<and> before cursor (rowCursor row)) (db_plans D))) in
     bindR (mapR (\<lambda>row. clonePlan (pw_document row)) (take (nat limit) rows)) (\<lambda>items.
     Inr (items, if int (length rows) > limit then Some (encodeCursor (cursorOf (last items))) else None)))))"

section \<open>Submissions\<close>

definition transactionNonceRow :: "SignedAttempt \<Rightarrow> Database \<Rightarrow> TransactionNonceRow option" where
  "transactionNonceRow a D = List.find (\<lambda>row. xn_chainId row = at_chainId a \<and> xn_sender row = toLowerCase (at_sender a) \<and>
     xn_nonce row = at_nonce a) (db_transactionNonces D)"

text \<open>
  \<^verbatim>\<open>INSERT ... ON CONFLICT (chain_id, sender, nonce) DO NOTHING\<close>; a second nonce for the same step violates \<^verbatim>\<open>UNIQUE (plan_id, step_index)\<close>.
\<close>

definition insertTransactionNonce :: "SubmissionClaim \<Rightarrow> Database \<Rightarrow> Database res" where
  "insertTransactionNonce claim D =
     (let a = cl_attempt claim in
      if transactionNonceRow a D \<noteq> None then Inr D
      else bindR (ensure (\<not> list_ex (\<lambda>row. xn_planId row = cl_planId claim \<and> xn_stepIndex row = cl_stepIndex claim) (db_transactionNonces D)) uniqueViolation) (\<lambda>_.
        Inr (D\<lparr>db_transactionNonces := db_transactionNonces D @ [\<lparr>xn_chainId = at_chainId a, xn_sender = toLowerCase (at_sender a), xn_nonce = at_nonce a,
          xn_transactionHash = toLowerCase (at_hash a), xn_planId = cl_planId claim, xn_stepIndex = cl_stepIndex claim\<rparr>]\<rparr>)))"

definition transactionNonceHeld :: "SubmissionClaim \<Rightarrow> Database \<Rightarrow> unit res" where
  "transactionNonceHeld claim D =
     ensure (\<not> (case transactionNonceRow (cl_attempt claim) D of None \<Rightarrow> True
        | Some row \<Rightarrow> xn_planId row \<noteq> cl_planId claim \<or> xn_stepIndex row \<noteq> cl_stepIndex claim \<or>
            xn_transactionHash row \<noteq> toLowerCase (at_hash (cl_attempt claim))))
       (conflict ''Sender nonce is already reserved by another transaction step.'')"

definition claimTransport_txs :: "SubmissionClaim \<Rightarrow> Database \<Rightarrow> Database res" where
  "claimTransport_txs claim D =
     (case claimPostgresTransport (cl_planId claim) [cl_stepIndex claim] Direct (toLowerCase (at_hash (cl_attempt claim))) (db_transports D) of
        (Inl e, T) \<Rightarrow> Inl e | (Inr _, T) \<Rightarrow> Inr (D\<lparr>db_transports := T\<rparr>))"

text \<open>The claim with the time of the database and a lease that starts there.\<close>

definition leasedClaim :: "SubmissionClaim \<Rightarrow> int \<Rightarrow> int \<Rightarrow> SubmissionClaim" where
  "leasedClaim claim now leaseUntil = claim\<lparr>cl_now := now, cl_attempt := (cl_attempt claim)\<lparr>at_reservedAt := now, at_leaseUntil := leaseUntil\<rparr>\<rparr>"

definition claimSubmission_txs ::
  "(nat \<Rightarrow> guard) \<Rightarrow> (nat \<Rightarrow> int) \<Rightarrow> SubmissionClaim \<Rightarrow> Database \<Rightarrow> (StoredPlan \<times> bool) res \<times> Database" where
  "claimSubmission_txs active clock input D =
     attempt (assertActor (cl_actor input)) D (\<lambda>_.
     attempt (assertIdempotency (cl_idempotency input)) D (\<lambda>_.
     attempt (boundedClone json_of_SubmissionClaim input) D (\<lambda>claim.
     attempt (assertTime (cl_now claim)) D (\<lambda>_.
     transact (\<lambda>D.
       bindR (active 0 (cl_actor claim) [Relay] (cl_now claim div 1000)) (\<lambda>_.
       bindR (require_txs (cl_actor claim) (cl_planId claim) D) (\<lambda>current.
       let existing = idempotency_txs (cl_actor claim) (cl_idempotency claim) D in
       bindR (checkIdempotency existing (cl_idempotency claim) (Some (cl_planId claim, cl_stepIndex claim))) (\<lambda>_.
       let databaseNow = clock 0; duration = at_leaseUntil (cl_attempt claim) - cl_now claim in
       bindR (ensure (\<not> (cl_dispatch claim \<and> (\<not> isSafeInteger duration \<or> duration < 1 \<or> duration > 120000)))
         (invalid ''Dispatch lease duration must be between 1 and 120000 milliseconds.'')) (\<lambda>_.
       bindR (prepareClaim current (leasedClaim claim databaseNow (if cl_dispatch claim then databaseNow + duration else 0))) (\<lambda>first.
       bindR (claimTransport_txs claim D) (\<lambda>D1.
       bindR (insertTransactionNonce claim D1) (\<lambda>D2.
       bindR (transactionNonceHeld claim D2) (\<lambda>_.
       bindR (reserveIdempotency_txs (cl_actor claim) (cl_idempotency claim) (cl_planId claim) (Some (cl_stepIndex claim)) existing D2) (\<lambda>D3.
       bindR (if fst (snd first)
         then bindR (active 1 (cl_actor claim) [Relay] (cl_now claim div 1000)) (\<lambda>_.
              prepareClaim current (leasedClaim claim (clock 1) (clock 1 + duration)))
         else Inr first) (\<lambda>(plan, dispatch, changed).
       bindR (if changed then update_txs plan D3 else Inr D3) (\<lambda>D4.
       bindR (clonePlan plan) (\<lambda>c. Inr ((c, dispatch), D4)))))))))))))) D))))"

definition save_txs :: "RestActor \<Rightarrow> string \<Rightarrow> int \<Rightarrow> StoredStep list \<Rightarrow> Database \<Rightarrow> StoredPlan res \<times> Database" where
  "save_txs actor i expectedRevision input D =
     attempt (assertRevision expectedRevision) D (\<lambda>_.
     attempt (boundedClone (\<lambda>steps. JArr (map json_of_StoredStep steps)) input) D (\<lambda>steps.
     transact (\<lambda>D.
       bindR (require_txs actor i D) (\<lambda>current.
       bindR (ensure (pl_revision current = expectedRevision) (conflict ''Transaction plan changed; inspect it before retrying.'')) (\<lambda>_.
       bindR (assertSavedSteps current steps) (\<lambda>_.
       bindR (clonePlan (bumpRevision (current\<lparr>pl_steps := steps\<rparr>))) (\<lambda>nxt.
       bindR (update_txs nxt D) (\<lambda>D1. Inr (nxt, D1))))))) D))"

definition json_of_SubmissionPatch :: "SubmissionPatch \<Rightarrow> json" where
  "json_of_SubmissionPatch p = JObj ([(''state'', JStr (text_of_StepState (pa_state p)))] @
     optField ''broadcastAt'' JNum (pa_broadcastAt p) @ optField ''lastError'' json_of_LastError (pa_lastError p))"

definition settleSubmission_txs ::
  "RestActor \<Rightarrow> string \<Rightarrow> int \<Rightarrow> string \<Rightarrow> SubmissionPatch \<Rightarrow> Database \<Rightarrow> StoredPlan res \<times> Database" where
  "settleSubmission_txs actor i index leaseToken input D =
     attempt (boundedClone json_of_SubmissionPatch input) D (\<lambda>patch.
     transact (\<lambda>D.
       bindR (require_txs actor i D) (\<lambda>current.
       bindR (settle current index leaseToken patch) (\<lambda>nxt. commit_txs current nxt D))) D)"

section \<open>External executions\<close>

definition reserveExternalExecution_txs ::
  "RestActor \<Rightarrow> string \<Rightarrow> int list \<Rightarrow> string \<Rightarrow> Database \<Rightarrow> StoredPlan res \<times> Database" where
  "reserveExternalExecution_txs actor planId indexes bindingId D =
     transact (\<lambda>D.
       bindR (require_txs actor planId D) (\<lambda>current.
       bindR (assertExternalIndexes current indexes) (\<lambda>_.
       bindR (assertPostgresTransport planId indexes Relayr bindingId (db_transports D)) (\<lambda>_.
       bindR (attachExternalExecutions current
         (map (\<lambda>i. \<lparr>tr_stepIndex = i, tr_transport = Relayr, tr_bindingId = bindingId\<rparr>) indexes)) (\<lambda>nxt.
       commit_txs current nxt D))))) D"

text \<open>The updates of one transport must all be bound to it.\<close>

definition assertObserved :: "StoredPlan \<Rightarrow> string \<Rightarrow> string \<Rightarrow> ExternalStepObservation list \<Rightarrow> Database \<Rightarrow> ReservedTransport \<Rightarrow> unit res" where
  "assertObserved current planId bindingId updates D transport =
     bindR (mapR (\<lambda>update.
         bindR (js_must (js_at (pl_steps current) (ob_index update))) (\<lambda>step.
         bindR (js_must (st_externalExecution step)) (\<lambda>external. Inr (ob_index update, ex_transport external)))) updates) (\<lambda>found.
     let indexes = map fst (filter (\<lambda>f. snd f = transport) found) in
     if indexes \<noteq> [] then assertPostgresTransport planId indexes transport bindingId (db_transports D) else Inr ())"

definition json_of_ExternalStepObservation :: "ExternalStepObservation \<Rightarrow> json" where
  "json_of_ExternalStepObservation u = JObj ([(''index'', JNum (ob_index u)), (''state'', JStr (text_of_StepState (ob_state u)))] @
     optField ''transactionHash'' JStr (ob_transactionHash u) @ optField ''receipt'' json_of_StoredReceipt (ob_receipt u) @
     optField ''semantic'' json_of_SemanticResult (ob_semantic u))"

definition saveExternalExecution_txs ::
  "RestActor \<Rightarrow> string \<Rightarrow> int \<Rightarrow> string \<Rightarrow> ExternalStepObservation list \<Rightarrow> Database \<Rightarrow> StoredPlan res \<times> Database" where
  "saveExternalExecution_txs actor planId expectedRevision bindingId input D =
     attempt (assertRevision expectedRevision) D (\<lambda>_.
     attempt (boundedClone (\<lambda>us. JArr (map json_of_ExternalStepObservation us)) input) D (\<lambda>updates.
     transact (\<lambda>D.
       bindR (require_txs actor planId D) (\<lambda>current.
       bindR (ensure (pl_revision current = expectedRevision) (conflict ''Transaction plan changed; inspect it before retrying.'')) (\<lambda>_.
       bindR (applyExternalObservations current bindingId updates) (\<lambda>nxt.
       bindR (forR (assertObserved current planId bindingId updates D) [Relayr, Erc4337]) (\<lambda>_.
       commit_txs current nxt D))))) D))"

definition syncExternalExecutions_txs :: "RestActor \<Rightarrow> string \<Rightarrow> Database \<Rightarrow> StoredPlan res \<times> Database" where
  "syncExternalExecutions_txs actor planId D =
     attempt (assertActor actor) D (\<lambda>_.
     attempt (assertText planId) D (\<lambda>_.
     transact (\<lambda>D.
       case List.find (\<lambda>row. pw_id row = planId \<and> pw_accountId row = accountId actor \<and>
           (pw_principalId row = principalId actor \<or> principalId actor = ''owner:'' @ accountId actor)) (db_plans D) of
         None \<Rightarrow> Inl missingPlan
       | Some row \<Rightarrow>
           bindR (getPostgresTransports planId (db_transports D)) (\<lambda>bindings.
           bindR (attachExternalExecutions (pw_document row) bindings) (\<lambda>nxt.
           commit_txs (pw_document row) nxt D))) D))"

definition recoverable_txs :: "int \<Rightarrow> string option \<Rightarrow> Database \<Rightarrow> StoredPlan list res" where
  "recoverable_txs limit cursorValue D =
     bindR (assertLimit limit) (\<lambda>_.
     bindR (decodeCursor cursorValue) (\<lambda>cursor.
     mapR (\<lambda>row. clonePlan (pw_document row)) (take (nat limit) (sort_by (\<lambda>a b. older_eq (rowCursor a) (rowCursor b))
       (filter (\<lambda>row. (isRecoverable (pw_document row) \<or>
            list_ex (\<lambda>t. tw_planId t = pw_id row \<and> unattached (pw_document row)
               \<lparr>tr_stepIndex = tw_stepIndex t, tr_transport = tw_transport t, tr_bindingId = tw_bindingId t\<rparr>) (db_transports D)) \<and>
          (case cursor of None \<Rightarrow> True | Some c \<Rightarrow> older c (rowCursor row))) (db_plans D))))))"

end
