(* ===== verification/PgTransactionRefinement.thy ===== *)
theory PgTransactionRefinement
  imports PgTransactions PgRefinement TransactionRuns
begin

text \<open>
  The PostgreSQL transaction store refines the specification of a plan store: \<open>txs_sim\<close> relates the tables to its states, every committed
  transaction is a step of it, and a transaction that throws changes nothing.
\<close>

section \<open>The tables as a plan store\<close>

definition planRowOk :: "PlanRow \<Rightarrow> bool" where
  "planRowOk w \<longleftrightarrow> pw_id w = pl_id (pw_document w) \<and> pw_accountId w = accountId (pl_actor (pw_document w)) \<and>
     pw_principalId w = principalId (pl_actor (pw_document w)) \<and> pw_accountAddress w = toLowerCase (dr_account (pl_draft (pw_document w))) \<and>
     pw_createdAt w = pl_createdAt (pw_document w)"

definition planDocuments :: "PlanRow list \<Rightarrow> (string, StoredPlan) jsmap" where
  "planDocuments rows = map (\<lambda>w. (pw_id w, pw_document w)) rows"

definition planKeys :: "PlanIdempotencyRow list \<Rightarrow> (string, StoredIdempotency) jsmap" where
  "planKeys rows = map (\<lambda>w. (idemKey \<lparr>accountId = xi_accountId w, principalId = xi_principalId w\<rparr> (xi_key w), storedRow w)) rows"

definition nonceHolder :: "SignedAttempt \<Rightarrow> Database \<Rightarrow> NonceReservation option" where
  "nonceHolder a D = map_option (\<lambda>row. \<lparr>nr_planId = xn_planId row, nr_stepIndex = xn_stepIndex row\<rparr>) (transactionNonceRow a D)"

text \<open>The primary key of the transports.\<close>

definition transportKeys :: "TransportTable \<Rightarrow> (string \<times> int) list" where
  "transportKeys T = map (\<lambda>w. (tw_planId w, tw_stepIndex w)) T"

definition txs_sim :: "Database \<Rightarrow> TxStore \<Rightarrow> bool" where
  "txs_sim D s \<longleftrightarrow> tx_plans s = planDocuments (db_plans D) \<and> (\<forall>w \<in> set (db_plans D). planRowOk w) \<and>
     tx_idempotency s = planKeys (db_planIdempotency D) \<and> (\<forall>a. js_get (tx_nonces s) (nonceKey a) = nonceHolder a D) \<and>
     rowBound (db_transports D) = boundTo (tx_transports s) \<and> distinct (transportKeys (db_transports D))"

lemma txs_simD:
  assumes "txs_sim D s"
  shows "tx_plans s = planDocuments (db_plans D)" and "w \<in> set (db_plans D) \<Longrightarrow> planRowOk w"
    and "tx_idempotency s = planKeys (db_planIdempotency D)" and "js_get (tx_nonces s) (nonceKey a) = nonceHolder a D"
    and "rowBound (db_transports D) = boundTo (tx_transports s)" and "distinct (transportKeys (db_transports D))"
  using assms unfolding txs_sim_def by blast+

lemma plan_of_row:
  assumes "txs_sim D s" and "tx_inv s" and "w \<in> set (db_plans D)"
  shows "js_get (tx_plans s) (pw_id w) = Some (pw_document w)"
proof -
  have "js_wf (tx_plans s)" using assms(2) by (simp add: tx_inv_def)
  moreover have "(pw_id w, pw_document w) \<in> set (tx_plans s)" using assms(3) by (auto simp: txs_simD(1) [OF assms(1)] planDocuments_def)
  ultimately show ?thesis by (simp add: map_of_eq_Some_iff)
qed

lemma row_of_plan:
  assumes "txs_sim D s" and "js_get (tx_plans s) i = Some p"
  shows "\<exists>w \<in> set (db_plans D). pw_id w = i \<and> pw_document w = p"
  using assms(2) by (auto simp: txs_simD(1) [OF assms(1)] planDocuments_def map_of_rows dest!: find_SomeD)

lemma sim_idempotency: "txs_sim D s \<Longrightarrow> js_get (tx_idempotency s) (idemKey actor (ic_key claim)) = idempotency_txs actor claim D"
  by (cases actor) (simp add: txs_simD(3) planKeys_def map_of_rows idempotency_txs_def idempotencyRow_def conj_assoc)

lemma require_txs_sim:
  assumes sim: "txs_sim D s" and inv: "tx_inv s" and r: "require_txs actor i D = Inr p"
  shows "require s actor i = Inr p" and "clonePlan p = Inr p"
proof -
  obtain w where w: "w \<in> set (db_plans D)" "pw_id w = i" "pw_accountId w = accountId actor" "pw_principalId w = principalId actor" "p = pw_document w"
    and a: "assertActor actor = Inr ()" "assertText i = Inr ()" "clonePlan p = Inr p"
    using r by (auto simp: require_txs_def bindR_eq_Inr boundedClone_eq_Inr dest!: find_SomeD split: option.splits)
  have "pl_actor p = actor" using txs_simD(2) [OF sim w(1)] w(3-5) by (cases actor; cases "pl_actor p") (simp add: planRowOk_def)
  then show "require s actor i = Inr p" using plan_of_row [OF sim inv w(1)] w(2,5) a by (simp add: require_eq_Inr)
  show "clonePlan p = Inr p" by (rule a)
qed

definition updatedPlans :: "StoredPlan \<Rightarrow> PlanRow list \<Rightarrow> PlanRow list" where
  "updatedPlans p rows = map (\<lambda>row. if pw_id row = pl_id p then row\<lparr>pw_document := p\<rparr> else row) rows"

lemma update_txs_Inr: "update_txs p D = Inr D' \<longleftrightarrow> storable json_of_StoredPlan p \<and> D' = D\<lparr>db_plans := updatedPlans p (db_plans D)\<rparr>"
  by (auto simp: update_txs_def bindR_eq_Inr boundedClone_eq_Inr updatedPlans_def)

text \<open>Writing a plan that keeps what was reviewed keeps the two stores alike.\<close>

lemma updatedPlans_sim:
  assumes sim: "txs_sim D s" and inv: "tx_inv s" and g: "js_get (tx_plans s) i = Some p" and rev: "reviewed q = reviewed p"
  shows "planDocuments (updatedPlans q (db_plans D)) = js_set i q (tx_plans s)" and "w \<in> set (updatedPlans q (db_plans D)) \<Longrightarrow> planRowOk w"
proof -
  note d = reviewed_eqD [OF rev]
  have i: "pl_id q = i" "pl_id p = i" using tx_inv_plan [OF inv g] d by (simp_all add: plan_ok_def)
  obtain v where v: "v \<in> set (db_plans D)" "pw_id v = i" "pw_document v = p" using row_of_plan [OF sim g] by blast
  have ids: "distinct (map pw_id (db_plans D))" using inv by (simp add: tx_inv_def txs_simD(1) [OF sim] planDocuments_def o_def)
  show "planDocuments (updatedPlans q (db_plans D)) = js_set i q (tx_plans s)"
    unfolding txs_simD(1) [OF sim] planDocuments_def updatedPlans_def i by (rule updated_rows [OF ids]) (use v in auto)
  show "planRowOk w" if w: "w \<in> set (updatedPlans q (db_plans D))"
  proof -
    obtain u where u: "u \<in> set (db_plans D)" "w = (if pw_id u = i then u\<lparr>pw_document := q\<rparr> else u)" using w i by (auto simp: updatedPlans_def)
    show ?thesis
    proof (cases "pw_id u = i")
      case True
      then have "u = v" using ids u(1) v by (metis distinct_map inj_onD)
      then show ?thesis using u(2) True txs_simD(2) [OF sim u(1)] v(3) d by (simp add: planRowOk_def)
    qed (use u txs_simD(2) [OF sim] in auto)
  qed
qed

lemma txs_sim_update:
  assumes sim: "txs_sim D s" and inv: "tx_inv s" and g: "js_get (tx_plans s) i = Some p" and rev: "reviewed q = reviewed p"
  shows "txs_sim (D\<lparr>db_plans := updatedPlans q (db_plans D)\<rparr>) (s\<lparr>tx_plans := js_set i q (tx_plans s)\<rparr>)"
  using updatedPlans_sim [OF assms] txs_simD [OF sim] by (simp add: txs_sim_def nonceHolder_def transactionNonceRow_def)

section \<open>Transports of a plan\<close>

lemma transportRow_mem:
  assumes "distinct (transportKeys T)" and "w \<in> set T"
  shows "transportRow T (tw_planId w) (tw_stepIndex w) = Some w"
proof -
  obtain v where v: "transportRow T (tw_planId w) (tw_stepIndex w) = Some v"
    using assms(2) by (cases "transportRow T (tw_planId w) (tw_stepIndex w)") (auto simp: transportRow_def find_None_iff)
  then have "v \<in> set T" "tw_planId v = tw_planId w" "tw_stepIndex v = tw_stepIndex w" by (auto simp: transportRow_def dest!: find_SomeD)
  with assms have "v = w" unfolding transportKeys_def distinct_map by (auto dest: inj_onD)
  with v show ?thesis by simp
qed

lemma listed_bound:
  assumes "getPostgresTransports i T = Inr bs" and "distinct (transportKeys T)" and "b \<in> set bs"
  shows "rowBound T i (tr_stepIndex b) = Some (tr_transport b, tr_bindingId b)"
proof -
  obtain w where w: "w \<in> set T" "tw_planId w = i" "b = \<lparr>tr_stepIndex = tw_stepIndex w, tr_transport = tw_transport w, tr_bindingId = tw_bindingId w\<rparr>"
    using assms(1,3) by (auto simp: getPostgresTransports_def bindR_eq_Inr)
  then show ?thesis using transportRow_mem [OF assms(2) w(1)] by (simp add: rowBound_def)
qed

lemma asserted_bound:
  assumes "assertPostgresTransport i indexes t b T = Inr ()" and "distinct (transportKeys T)" and "k \<in> set indexes"
  shows "rowBound T i k = Some (t, b)"
proof -
  obtain listed where l: "getPostgresTransports i T = Inr listed" and p: "transport_parameters i indexes t b = Inr (sort indexes)"
    and f: "\<forall>index \<in> set indexes. \<not> (case js_get (rev (map (\<lambda>row. (tr_stepIndex row, row)) listed)) index of None \<Rightarrow> True
        | Some row \<Rightarrow> tr_transport row \<noteq> t \<or> tr_bindingId row \<noteq> b)"
    using assms(1) by (auto simp: assertPostgresTransport_def bindR_eq_Inr transport_parameters_eq_Inr forR_eq_Inr ensure_eq_Inr Let_def)
  from f assms(3) obtain row where row: "js_get (rev (map (\<lambda>row. (tr_stepIndex row, row)) listed)) k = Some row" "tr_transport row = t" "tr_bindingId row = b"
    by (fastforce split: option.splits)
  from map_of_SomeD [OF row(1)] have "row \<in> set listed" "tr_stepIndex row = k" by auto
  then show ?thesis using listed_bound [OF l assms(2)] row(2,3) by auto
qed

lemma insertTransport_keys: "distinct (transportKeys T) \<Longrightarrow> distinct (transportKeys (insertTransport i t b k T))"
  by (auto simp: insertTransport_def transportKeys_def transportRow_def find_None_iff)

lemma claim_keys:
  assumes "claimPostgresTransport i indexes t b T = (r, T')" and "distinct (transportKeys T)"
  shows "distinct (transportKeys T')"
proof (cases r)
  case (Inr u)
  have "distinct (transportKeys (fold (insertTransport i t b) ks T))" for ks
    using assms(2) by (induction ks arbitrary: T) (auto intro: insertTransport_keys)
  then show ?thesis using assms(1) Inr by (simp add: claimPostgresTransport_Inr)
qed (use assms claimPostgresTransport_Inl in blast)

section \<open>Every transaction is a step of the specification\<close>

lemma moved_sim:
  assumes sim: "txs_sim D s" and inv: "tx_inv s" and g: "js_get (tx_plans s) i = Some p" and ch: "plan_change p q" and ok: "plan_ok s i q"
  shows "\<exists>s'. plans_step\<^sup>*\<^sup>* s s' \<and> txs_sim (D\<lparr>db_plans := updatedPlans q (db_plans D)\<rparr>) s'"
proof -
  have "plan_moves s (s\<lparr>tx_plans := js_set i q (tx_plans s)\<rparr>)" unfolding plan_moves_def using g ch ok by blast
  moreover have "reviewed q = reviewed p" using plan_history.change_identity [OF _ ch] plan_ok_parts [OF tx_inv_plan [OF inv g]] by blast
  ultimately show ?thesis using txs_sim_update [OF sim inv g] plans_step.Moved by blast
qed

lemma commit_txs_sim:
  assumes sim: "txs_sim D s" and inv: "tx_inv s" and g: "js_get (tx_plans s) i = Some p" and ch: "plan_change p q" and ok: "plan_ok s i q"
    and c: "commit_txs p q D = Inr (r, D')"
  shows "\<exists>s'. plans_step\<^sup>*\<^sup>* s s' \<and> txs_sim D' s'"
proof (cases "pl_revision q = pl_revision p")
  case True
  then show ?thesis using c sim by (auto simp: commit_txs_def bindR_eq_Inr)
next
  case False
  then show ?thesis using c moved_sim [OF sim inv g ch ok] by (auto simp: commit_txs_def bindR_eq_Inr update_txs_Inr)
qed

lemma require_txs_plan:
  assumes "txs_sim D s" and "tx_inv s" and "require_txs actor i D = Inr p"
  shows "js_get (tx_plans s) i = Some p \<and> pl_actor p = actor \<and> plan_ok s i p"
  using require_txs_sim [OF assms] tx_inv_plan [OF assms(2)] by (simp add: require_eq_Inr)

lemma save_txs_sim:
  assumes sim: "txs_sim D s" and inv: "tx_inv s" and c: "save_txs actor i expected input D = (Inr r, D')"
  shows "\<exists>s'. plans_step\<^sup>*\<^sup>* s s' \<and> txs_sim D' s'"
proof -
  obtain p where p: "require_txs actor i D = Inr p" "assertSavedSteps p input = Inr ()" "storable json_of_StoredPlan (bumpRevision (p\<lparr>pl_steps := input\<rparr>))"
    "update_txs (bumpRevision (p\<lparr>pl_steps := input\<rparr>)) D = Inr D'"
    using c by (auto simp: save_txs_def attempt_eq_Inr transact_Inr bindR_eq_Inr boundedClone_eq_Inr)
  note g = require_txs_plan [OF sim inv p(1)]
  have "plan_ok s i (bumpRevision (p\<lparr>pl_steps := input\<rparr>))" using plan_ok_saved g p(2,3) by blast
  from moved_sim [OF sim inv conjunct1 [OF g] plan_change.Save [OF p(2)] this] p(4) show ?thesis by (simp add: update_txs_Inr)
qed

lemma settleSubmission_txs_sim:
  assumes sim: "txs_sim D s" and inv: "tx_inv s" and c: "settleSubmission_txs actor i index token input D = (Inr r, D')"
  shows "\<exists>s'. plans_step\<^sup>*\<^sup>* s s' \<and> txs_sim D' s'"
proof -
  obtain p q where p: "require_txs actor i D = Inr p" "settle p index token input = Inr q" "commit_txs p q D = Inr (r, D')"
    using c by (auto simp: settleSubmission_txs_def attempt_eq_Inr transact_Inr bindR_eq_Inr boundedClone_eq_Inr)
  note g = require_txs_plan [OF sim inv p(1)]
  show ?thesis using commit_txs_sim [OF sim inv conjunct1 [OF g] plan_change.Settle [OF p(2)] _ p(3)] plan_ok_settled g p(2) by blast
qed

lemma reserveExternalExecution_txs_sim:
  assumes sim: "txs_sim D s" and inv: "tx_inv s" and c: "reserveExternalExecution_txs actor i indexes b D = (Inr r, D')"
  shows "\<exists>s'. plans_step\<^sup>*\<^sup>* s s' \<and> txs_sim D' s'"
proof -
  let ?bs = "map (\<lambda>k. \<lparr>tr_stepIndex = k, tr_transport = Relayr, tr_bindingId = b\<rparr>) indexes"
  obtain p q where p: "require_txs actor i D = Inr p" "assertPostgresTransport i indexes Relayr b (db_transports D) = Inr ()"
    "attachExternalExecutions p ?bs = Inr q" "commit_txs p q D = Inr (r, D')"
    using c by (auto simp: reserveExternalExecution_txs_def transact_Inr bindR_eq_Inr)
  note g = require_txs_plan [OF sim inv p(1)]
  have "plan_ok s i q"
  proof (rule plan_ok_attached [OF _ p(3)])
    fix x assume "x \<in> set ?bs"
    then show "boundTo (tx_transports s) i (tr_stepIndex x) = Some (tr_transport x, tr_bindingId x)"
      using asserted_bound [OF p(2) txs_simD(6) [OF sim]] txs_simD(5) [OF sim] by auto
  qed (use g in blast)
  then show ?thesis by (rule commit_txs_sim [OF sim inv conjunct1 [OF g] plan_change.Attach [OF p(3)] _ p(4)])
qed

lemma saveExternalExecution_txs_sim:
  assumes sim: "txs_sim D s" and inv: "tx_inv s" and c: "saveExternalExecution_txs actor i expected b input D = (Inr r, D')"
  shows "\<exists>s'. plans_step\<^sup>*\<^sup>* s s' \<and> txs_sim D' s'"
proof -
  obtain p q where p: "require_txs actor i D = Inr p" "applyExternalObservations p b input = Inr q" "commit_txs p q D = Inr (r, D')"
    using c by (auto simp: saveExternalExecution_txs_def attempt_eq_Inr transact_Inr bindR_eq_Inr boundedClone_eq_Inr)
  note g = require_txs_plan [OF sim inv p(1)]
  show ?thesis using commit_txs_sim [OF sim inv conjunct1 [OF g] plan_change.Observe [OF p(2)] _ p(3)] plan_ok_observed g p(2) by blast
qed

lemma syncExternalExecutions_txs_sim:
  assumes sim: "txs_sim D s" and inv: "tx_inv s" and c: "syncExternalExecutions_txs actor i D = (Inr r, D')"
  shows "\<exists>s'. plans_step\<^sup>*\<^sup>* s s' \<and> txs_sim D' s'"
proof -
  obtain w bs q where w: "w \<in> set (db_plans D)" "pw_id w = i" "getPostgresTransports i (db_transports D) = Inr bs"
    "attachExternalExecutions (pw_document w) bs = Inr q" "commit_txs (pw_document w) q D = Inr (r, D')"
    using c by (auto simp: syncExternalExecutions_txs_def attempt_eq_Inr transact_Inr bindR_eq_Inr dest!: find_SomeD split: option.splits)
  have g: "js_get (tx_plans s) i = Some (pw_document w)" using plan_of_row [OF sim inv w(1)] w(2) by simp
  have "plan_ok s i q"
    using plan_ok_attached [OF tx_inv_plan [OF inv g] w(4)] listed_bound [OF w(3) txs_simD(6) [OF sim]] txs_simD(5) [OF sim] by simp
  then show ?thesis by (rule commit_txs_sim [OF sim inv g plan_change.Attach [OF w(4)] _ w(5)])
qed

lemma txs_failed:
  "create_txs active clock input claim now D = (Inl e, D') \<Longrightarrow> D' = D"
  "claimSubmission_txs active clock submission D = (Inl e, D') \<Longrightarrow> D' = D"
  "save_txs actor i expected steps D = (Inl e, D') \<Longrightarrow> D' = D"
  "settleSubmission_txs actor i index token patch D = (Inl e, D') \<Longrightarrow> D' = D"
  "reserveExternalExecution_txs actor i indexes b D = (Inl e, D') \<Longrightarrow> D' = D"
  "saveExternalExecution_txs actor i expected b updates D = (Inl e, D') \<Longrightarrow> D' = D"
  "syncExternalExecutions_txs actor i D = (Inl e, D') \<Longrightarrow> D' = D"
  by (auto simp: create_txs_def claimSubmission_txs_def save_txs_def settleSubmission_txs_def reserveExternalExecution_txs_def saveExternalExecution_txs_def
      syncExternalExecutions_txs_def attempt_eq_Inl transact_Inl)

lemma insertPlan_Inr:
  "insertPlan p D = Inr D' \<longleftrightarrow> (\<forall>w \<in> set (db_plans D). pw_id w \<noteq> pl_id p) \<and> accountId (pl_actor p) \<in> ac_id ` set (db_accounts D) \<and>
     D' = D\<lparr>db_plans := db_plans D @ [\<lparr>pw_id = pl_id p, pw_accountId = accountId (pl_actor p), pw_principalId = principalId (pl_actor p),
       pw_accountAddress = toLowerCase (dr_account (pl_draft p)), pw_createdAt = pl_createdAt p, pw_document = p\<rparr>]\<rparr>"
  by (auto simp: insertPlan_def bindR_eq_Inr ensure_eq_Inr list_ex_iff)

lemma reserveIdempotency_txs_Inr:
  "reserveIdempotency_txs actor claim i k existing D = Inr D' \<longleftrightarrow> (if existing \<noteq> None then D' = D
     else length (filter (\<lambda>row. xi_accountId row = accountId actor) (db_planIdempotency D)) < idempotencyPerAccount \<and>
       D' = D\<lparr>db_planIdempotency := db_planIdempotency D @ [\<lparr>xi_accountId = accountId actor, xi_principalId = principalId actor,
         xi_key = ic_key claim, xi_requestHash = ic_requestHash claim, xi_operation = ic_operation claim, xi_planId = i, xi_stepIndex = k\<rparr>]\<rparr>)"
  by (auto simp: reserveIdempotency_txs_def bindR_eq_Inr ensure_eq_Inr not_le)

lemma planKeys_count: "count_values (\<lambda>e. si_accountId e = a) (planKeys rows) = length (filter (\<lambda>row. xi_accountId row = a) rows)"
  by (induction rows) (simp_all add: count_values_def planKeys_def storedRow_def)

text \<open>A key is reserved in both stores.\<close>

lemma reserveIdempotency_sim:
  assumes keys: "tx_idempotency s = planKeys (db_planIdempotency D)" and ex: "existing = js_get (tx_idempotency s) (idemKey actor (ic_key claim))"
    and r: "reserveIdempotency_txs actor claim i k existing D = Inr D'"
  shows "\<exists>m. reserveIdempotency actor claim i k s = (Inr (), s\<lparr>tx_idempotency := m\<rparr>) \<and> m = planKeys (db_planIdempotency D') \<and> (\<exists>rows. D' = D\<lparr>db_planIdempotency := rows\<rparr>)"
proof (cases existing)
  case (Some e)
  then have "D' = D" using r by (simp add: reserveIdempotency_txs_Inr)
  moreover have "D = D\<lparr>db_planIdempotency := db_planIdempotency D\<rparr>" "s = s\<lparr>tx_idempotency := tx_idempotency s\<rparr>" by simp_all
  ultimately show ?thesis using Some ex keys by (metis option.discI reserveIdempotency_Inr)
next
  case None
  note r = r [unfolded reserveIdempotency_txs_Inr None, simplified]
  have "assertIdempotencyCapacity s actor = Inr ()" using r keys by (simp add: assertIdempotencyCapacity_eq_Inr planKeys_count)
  moreover have "js_set (idemKey actor (ic_key claim)) (storedIdempotency actor claim i k) (tx_idempotency s) = planKeys (db_planIdempotency D')"
    using js_set_fresh [of "tx_idempotency s"] None ex keys r by (simp add: planKeys_def storedRow_def storedIdempotency_def)
  ultimately show ?thesis using r None ex by (intro exI [of _ "planKeys (db_planIdempotency D')"]) (auto simp: reserveIdempotency_Inr)
qed

lemma create_txs_sim:
  assumes sim: "txs_sim D s" and inv: "tx_inv s" and c: "create_txs active clock input claim now D = (Inr r, D')"
  shows "\<exists>s'. create admits input claim now s = (Inr r, s') \<and> txs_sim D' s'"
proof -
  have n: "assertNewPlan input now = Inr ()" "assertIdempotency claim = Inr ()" "clonePlan input = Inr input"
    using c by (auto simp: create_txs_def attempt_eq_Inr boundedClone_eq_Inr)
  note t = c [unfolded create_txs_def, simplified n attempt_simps transact_Inr Let_def]
  have i: "js_get (tx_idempotency s) (idemKey (pl_actor input) (ic_key claim)) = idempotency_txs (pl_actor input) claim D" using sim_idempotency [OF sim] .
  have chk: "checkIdempotency (idempotency_txs (pl_actor input) claim D) claim None = Inr ()" using t by (auto simp: bindR_eq_Inr)
  show ?thesis
  proof (cases "idempotency_txs (pl_actor input) claim D")
    case (Some e)
    then have "require_txs (pl_actor input) (si_planId e) D = Inr r" "D' = D" using t by (auto simp: bindR_eq_Inr)
    then show ?thesis using require_txs_sim [OF sim inv] n i chk Some sim by (simp add: create_def)
  next
    case None
    obtain D1 where f: "insertPlan input D = Inr D1" "reserveIdempotency_txs (pl_actor input) claim (pl_id input) None None D1 = Inr D'" "r = input"
      "length (filter (\<lambda>row. pw_accountId row = accountId (pl_actor input)) (db_plans D)) < plansPerAccount"
      using t None by (auto simp: bindR_eq_Inr ensure_eq_Inr boundedClone_eq_Inr not_le)
    note ins = f(1) [unfolded insertPlan_Inr]
    have keys: "tx_idempotency s = planKeys (db_planIdempotency D1)" using txs_simD(3) [OF sim] ins by simp
    obtain m rows where m: "reserveIdempotency (pl_actor input) claim (pl_id input) None s = (Inr (), s\<lparr>tx_idempotency := m\<rparr>)" "m = planKeys (db_planIdempotency D')"
      "D' = D1\<lparr>db_planIdempotency := rows\<rparr>"
      using reserveIdempotency_sim [OF keys _ f(2)] i None by auto
    have g: "js_get (tx_plans s) (pl_id input) = None" using ins by (auto simp: txs_simD(1) [OF sim] planDocuments_def map_of_rows find_None_iff)
    have "filter (\<lambda>p. accountId (pl_actor p) = a) (map pw_document (db_plans D)) = map pw_document (filter (\<lambda>w. pw_accountId w = a) (db_plans D))" for a
      using txs_simD(2) [OF sim] by (auto simp: filter_map o_def planRowOk_def intro!: arg_cong [where f = "map pw_document"] filter_cong)
    then have cnt: "count_values (\<lambda>p. accountId (pl_actor p) = accountId (pl_actor input)) (tx_plans s) < plansPerAccount"
      using f(4) by (simp add: count_values_def txs_simD(1) [OF sim] planDocuments_def o_def)
    have "txs_sim D' (s\<lparr>tx_idempotency := m, tx_plans := js_set (pl_id input) input (tx_plans s)\<rparr>)"
      using ins m(2,3) txs_simD [OF sim] js_set_fresh [OF g] by (auto simp: txs_sim_def planDocuments_def planRowOk_def nonceHolder_def transactionNonceRow_def)
    then show ?thesis using n f(3) i chk None g cnt m(1) by (simp add: create_def Let_def)
  qed
qed

section \<open>Claims\<close>

lemma transactionNonceRow_key: "nonceKey a = nonceKey b \<Longrightarrow> transactionNonceRow a D = transactionNonceRow b D"
  by (simp add: nonceKey_eq_iff transactionNonceRow_def same_def)

lemma insertTransactionNonce_Inr:
  assumes "insertTransactionNonce claim D = Inr D'" and "transactionNonceHeld claim D' = Inr ()"
  defines "v \<equiv> \<lparr>nr_planId = cl_planId claim, nr_stepIndex = cl_stepIndex claim\<rparr>"
  shows "nonceHolder (cl_attempt claim) D \<in> {None, Some v}" and "nonceHolder a D' = (if nonceKey a = nonceKey (cl_attempt claim) then Some v else nonceHolder a D)"
    and "\<exists>rows. D' = D\<lparr>db_transactionNonces := rows\<rparr>"
proof -
  let ?a = "cl_attempt claim"
  have held: "nonceHolder ?a D' = Some v" using assms(2) by (auto simp: transactionNonceHeld_def ensure_eq_Inr nonceHolder_def v_def split: option.splits)
  show "\<exists>rows. D' = D\<lparr>db_transactionNonces := rows\<rparr>"
  proof (cases "transactionNonceRow ?a D")
    case None
    then show ?thesis using assms(1) by (auto simp: insertTransactionNonce_def Let_def bindR_eq_Inr)
  next
    case (Some w)
    then have "D' = D" using assms(1) by (simp add: insertTransactionNonce_def Let_def)
    then show ?thesis by (intro exI [of _ "db_transactionNonces D"]) simp
  qed
  have other: "transactionNonceRow a D' = transactionNonceRow a D" if "nonceKey a \<noteq> nonceKey ?a"
    using assms(1) that by (auto simp: insertTransactionNonce_def Let_def bindR_eq_Inr transactionNonceRow_def find_append nonceKey_eq_iff same_def split: if_splits option.splits)
  show "nonceHolder a D' = (if nonceKey a = nonceKey ?a then Some v else nonceHolder a D)"
    using held transactionNonceRow_key [of a ?a] other by (auto simp: nonceHolder_def)
  show "nonceHolder ?a D \<in> {None, Some v}"
    using assms(1) held by (cases "transactionNonceRow ?a D") (auto simp: insertTransactionNonce_def Let_def nonceHolder_def)
qed

lemma leasedClaim_simps [simp]:
  "cl_actor (leasedClaim claim t l) = cl_actor claim" "cl_planId (leasedClaim claim t l) = cl_planId claim" "cl_stepIndex (leasedClaim claim t l) = cl_stepIndex claim"
  "cl_idempotency (leasedClaim claim t l) = cl_idempotency claim" "cl_now (leasedClaim claim t l) = t" "cl_dispatch (leasedClaim claim t l) = cl_dispatch claim"
  "cl_expectedRevision (leasedClaim claim t l) = cl_expectedRevision claim" "cl_authorization (leasedClaim claim t l) = cl_authorization claim"
  "at_hash (cl_attempt (leasedClaim claim t l)) = at_hash (cl_attempt claim)" "nonceKey (cl_attempt (leasedClaim claim t l)) = nonceKey (cl_attempt claim)"
  "at_leaseUntil (cl_attempt (leasedClaim claim t l)) = l" "at_leaseToken (cl_attempt (leasedClaim claim t l)) = at_leaseToken (cl_attempt claim)"
  "sameAttempt a (cl_attempt (leasedClaim claim t l)) = sameAttempt a (cl_attempt claim)"
  by (simp_all add: leasedClaim_def nonceKey_eq_iff sameAttempt_iff)

lemma claimTransport_txs_Inr:
  "claimTransport_txs claim D = Inr D1 \<longleftrightarrow> (\<exists>T. D1 = D\<lparr>db_transports := T\<rparr> \<and>
     claimPostgresTransport (cl_planId claim) [cl_stepIndex claim] Direct (toLowerCase (at_hash (cl_attempt claim))) (db_transports D) = (Inr (), T))"
  by (auto simp: claimTransport_txs_def split: prod.splits sum.splits)

text \<open>What a claim that was committed went through; \<open>t\<close> is the time and \<open>l\<close> the end of the lease that the rules saw last.\<close>

lemma claimSubmission_txs_Inr:
  assumes "claimSubmission_txs active clock claim D = (Inr (q, dispatch), D')"
  obtains p t l changed D1 D2 D3 where
    "active 0 (cl_actor claim) [Relay] (cl_now claim div 1000) = Inr ()" "require_txs (cl_actor claim) (cl_planId claim) D = Inr p"
    "checkIdempotency (idempotency_txs (cl_actor claim) (cl_idempotency claim) D) (cl_idempotency claim) (Some (cl_planId claim, cl_stepIndex claim)) = Inr ()"
    "prepareClaim p (leasedClaim claim t l) = Inr (q, dispatch, changed)" "claimTransport_txs claim D = Inr D1" "insertTransactionNonce claim D1 = Inr D2"
    "transactionNonceHeld claim D2 = Inr ()"
    "reserveIdempotency_txs (cl_actor claim) (cl_idempotency claim) (cl_planId claim) (Some (cl_stepIndex claim)) (idempotency_txs (cl_actor claim) (cl_idempotency claim) D) D2 = Inr D3"
    "(if changed then update_txs q D3 else Inr D3) = Inr D'"
    "dispatch \<longrightarrow> active 1 (cl_actor claim) [Relay] (cl_now claim div 1000) = Inr () \<and> t = clock 1 \<and> l = clock 1 + (at_leaseUntil (cl_attempt claim) - cl_now claim)"
proof -
  have n: "assertActor (cl_actor claim) = Inr ()" "assertIdempotency (cl_idempotency claim) = Inr ()" "boundedClone json_of_SubmissionClaim claim = Inr claim" "assertTime (cl_now claim) = Inr ()"
    using assms by (auto simp: claimSubmission_txs_def attempt_eq_Inr boundedClone_eq_Inr)
  note u = assms [unfolded claimSubmission_txs_def, simplified n attempt_simps transact_Inr Let_def]
  obtain p first D1 D2 D3 x u0 u1 u2 where f: "active 0 (cl_actor claim) [Relay] (cl_now claim div 1000) = Inr u0" "require_txs (cl_actor claim) (cl_planId claim) D = Inr p"
    "checkIdempotency (idempotency_txs (cl_actor claim) (cl_idempotency claim) D) (cl_idempotency claim) (Some (cl_planId claim, cl_stepIndex claim)) = Inr u1"
    "prepareClaim p (leasedClaim claim (clock 0) (if cl_dispatch claim then clock 0 + (at_leaseUntil (cl_attempt claim) - cl_now claim) else 0)) = Inr first"
    "claimTransport_txs claim D = Inr D1" "insertTransactionNonce claim D1 = Inr D2" "transactionNonceHeld claim D2 = Inr u2"
    "reserveIdempotency_txs (cl_actor claim) (cl_idempotency claim) (cl_planId claim) (Some (cl_stepIndex claim)) (idempotency_txs (cl_actor claim) (cl_idempotency claim) D) D2 = Inr D3"
    "(if fst (snd first) then bindR (active 1 (cl_actor claim) [Relay] (cl_now claim div 1000)) (\<lambda>_.
        prepareClaim p (leasedClaim claim (clock 1) (clock 1 + (at_leaseUntil (cl_attempt claim) - cl_now claim)))) else Inr first) = Inr x"
    "(case x of (plan, dispatch, changed) \<Rightarrow> bindR (if changed then update_txs plan D3 else Inr D3) (\<lambda>D4. bindR (clonePlan plan) (\<lambda>c. Inr ((c, dispatch), D4)))) = Inr ((q, dispatch), D')"
    using u unfolding bindR_eq_Inr ensure_eq_Inr by (elim exE conjE) (rule that; assumption)
  obtain changed where x: "x = (q, dispatch, changed)" "(if changed then update_txs q D3 else Inr D3) = Inr D'"
    using f(10) by (cases x) (simp add: bindR_eq_Inr boundedClone_eq_Inr)
  show ?thesis
  proof (cases "fst (snd first)")
    case True
    then show ?thesis using f x by (intro that [of p "clock 1" "clock 1 + (at_leaseUntil (cl_attempt claim) - cl_now claim)" changed D1 D2 D3]) (simp_all add: bindR_eq_Inr)
  next
    case False
    then show ?thesis using f x by (intro that [of p "clock 0" _ changed D1 D2 D3]) simp_all
  qed
qed

lemma claimSubmission_txs_sim:
  assumes sim: "txs_sim D s" and inv: "tx_inv s" and c: "claimSubmission_txs active clock claim D = (Inr (q, dispatch), D')"
  shows "\<exists>t l s'. claimAccepted s (leasedClaim claim t l) q dispatch s' \<and> txs_sim D' s'"
  using c
proof (rule claimSubmission_txs_Inr)
  fix p t l changed D1 D2 D3
  assume r: "require_txs (cl_actor claim) (cl_planId claim) D = Inr p" and pc: "prepareClaim p (leasedClaim claim t l) = Inr (q, dispatch, changed)"
    and tr: "claimTransport_txs claim D = Inr D1" and nn: "insertTransactionNonce claim D1 = Inr D2" and nh: "transactionNonceHeld claim D2 = Inr ()"
    and ri: "reserveIdempotency_txs (cl_actor claim) (cl_idempotency claim) (cl_planId claim) (Some (cl_stepIndex claim)) (idempotency_txs (cl_actor claim) (cl_idempotency claim) D) D2 = Inr D3"
    and up: "(if changed then update_txs q D3 else Inr D3) = Inr D'"
  let ?i = "cl_planId claim" and ?v = "\<lparr>nr_planId = cl_planId claim, nr_stepIndex = cl_stepIndex claim\<rparr>"
  note g = require_txs_plan [OF sim inv r]
  obtain T where T: "D1 = D\<lparr>db_transports := T\<rparr>"
    "claimPostgresTransport ?i [cl_stepIndex claim] Direct (toLowerCase (at_hash (cl_attempt claim))) (db_transports D) = (Inr (), T)"
    using tr by (auto simp: claimTransport_txs_Inr)
  obtain tt where tt: "claim_transport ?i [cl_stepIndex claim] Direct (toLowerCase (at_hash (cl_attempt claim))) (tx_transports s) = (Inr (), tt)" "rowBound T = boundTo tt"
    using transports_agree [OF txs_simD(5) [OF sim]] T(2) by (metis fst_conv snd_conv prod.collapse)
  have h: "nonceHolder a D1 = nonceHolder a D" for a by (simp add: T(1) nonceHolder_def transactionNonceRow_def)
  note n = insertTransactionNonce_Inr [OF nn nh, unfolded h]
  obtain nonces where nonces: "D2 = D1\<lparr>db_transactionNonces := nonces\<rparr>" using n(3) by blast
  have keys: "tx_idempotency (s\<lparr>tx_transports := tt\<rparr>) = planKeys (db_planIdempotency D2)" using txs_simD(3) [OF sim] T(1) nonces by simp
  obtain m rows where m: "reserveIdempotency (cl_actor claim) (cl_idempotency claim) ?i (Some (cl_stepIndex claim)) (s\<lparr>tx_transports := tt\<rparr>) =
      (Inr (), s\<lparr>tx_transports := tt, tx_idempotency := m\<rparr>)" "m = planKeys (db_planIdempotency D3)" "D3 = D2\<lparr>db_planIdempotency := rows\<rparr>"
    using reserveIdempotency_sim [OF keys _ ri] sim_idempotency [OF sim] by fastforce
  define s' where "s' = (s\<lparr>tx_transports := tt, tx_idempotency := m\<rparr>)\<lparr>tx_nonces := js_set (nonceKey (cl_attempt claim)) ?v (tx_nonces s),
     tx_plans := (if changed then js_set ?i q (tx_plans s) else tx_plans s)\<rparr>"
  have free: "nonceFree s (leasedClaim claim t l)" using n(1) txs_simD(4) [OF sim] by (auto simp: nonceFree_def)
  have acc: "claimAccepted s (leasedClaim claim t l) q dispatch s'"
    unfolding claimAccepted_def using g pc free tt(1) m(1)
    by (intro exI [of _ p] exI [of _ changed] exI [of _ tt] exI [of _ "s\<lparr>tx_transports := tt, tx_idempotency := m\<rparr>"]) (simp add: s'_def)
  have rev: "reviewed q = reviewed p" using plan_history.change_identity [OF _ plan_change.Claim [OF pc]] plan_ok_parts g by blast
  have nc: "js_get (tx_nonces s') (nonceKey a) = nonceHolder a D'" for a
  proof -
    have "nonceHolder a D' = nonceHolder a D2" using up m(3) by (auto simp: update_txs_Inr nonceHolder_def transactionNonceRow_def split: if_splits)
    then show ?thesis using n(2) [of a] txs_simD(4) [OF sim, of a] by (simp add: s'_def)
  qed
  have pl: "tx_plans s' = planDocuments (db_plans D') \<and> (\<forall>w \<in> set (db_plans D'). planRowOk w)"
  proof (cases changed)
    case True
    then have "db_plans D' = updatedPlans q (db_plans D)" using up m(3) nonces T(1) by (simp add: update_txs_Inr)
    then show ?thesis using updatedPlans_sim [OF sim inv conjunct1 [OF g] rev] True by (simp add: s'_def)
  next
    case False
    then have "db_plans D' = db_plans D" using up m(3) nonces T(1) by auto
    then show ?thesis using False txs_simD(1,2) [OF sim] by (simp add: s'_def)
  qed
  have rest: "db_planIdempotency D' = db_planIdempotency D3" "db_transports D' = T" using up m(3) nonces T(1) by (auto simp: update_txs_Inr split: if_splits)
  have "txs_sim D' s'"
    using pl nc rest m(2) tt(2) claim_keys [OF T(2) txs_simD(6) [OF sim]] by (simp add: txs_sim_def) (simp add: s'_def)
  with acc show ?thesis by blast
qed

section \<open>All transactions\<close>

inductive txs_op :: "Database \<Rightarrow> Database \<Rightarrow> bool" where
  Create: "create_txs actives clock input claim now D = (r, D') \<Longrightarrow> txs_op D D'"
| ClaimSubmission: "claimSubmission_txs actives clock submission D = (rd, D') \<Longrightarrow> txs_op D D'"
| SaveSteps: "save_txs actor i expected steps D = (r, D') \<Longrightarrow> txs_op D D'"
| SettleSubmission: "settleSubmission_txs actor i index leaseToken patch D = (r, D') \<Longrightarrow> txs_op D D'"
| ReserveExternal: "reserveExternalExecution_txs actor i indexes bindingId D = (r, D') \<Longrightarrow> txs_op D D'"
| SaveExternal: "saveExternalExecution_txs actor i expected bindingId updates D = (r, D') \<Longrightarrow> txs_op D D'"
| SyncExternal: "syncExternalExecutions_txs actor i D = (r, D') \<Longrightarrow> txs_op D D'"

text \<open>A transaction failed and changed nothing, created a plan, committed a claim or moved plans on.\<close>

lemma txs_op_cases [consumes 1, case_names failed created claimed moved]:
  assumes "txs_op D D'"
  obtains "D' = D" | actives clock input claim now r where "create_txs actives clock input claim now D = (Inr r, D')"
  | actives clock claim q dispatch where "claimSubmission_txs actives clock claim D = (Inr (q, dispatch), D')"
  | rows where "D' = D\<lparr>db_plans := rows\<rparr>" "\<And>s. txs_sim D s \<Longrightarrow> tx_inv s \<Longrightarrow> \<exists>s'. plans_step\<^sup>*\<^sup>* s s' \<and> txs_sim D' s'"
proof -
  have commit: "\<exists>rows. E' = E\<lparr>db_plans := rows\<rparr>" if "commit_txs p q E = Inr (r, E')" for p q E r E'
  proof (cases "pl_revision q = pl_revision p")
    case True
    then have "E' = E\<lparr>db_plans := db_plans E\<rparr>" using that by (auto simp: commit_txs_def bindR_eq_Inr)
    then show ?thesis ..
  qed (use that in \<open>auto simp: commit_txs_def bindR_eq_Inr update_txs_Inr\<close>)
  from assms show thesis
  proof cases
    case (Create actives clock input claim now r)
    then show thesis using that(1,2) txs_failed(1) by (cases r) blast+
  next
    case (ClaimSubmission actives clock submission rd)
    then show thesis using that(1,3) txs_failed(2) by (cases rd) (blast, metis surj_pair)
  next
    case (SaveSteps actor i expected steps r)
    show thesis
    proof (cases r)
      case (Inr q)
      then obtain p where "update_txs p D = Inr D'" using SaveSteps by (auto simp: save_txs_def attempt_eq_Inr transact_Inr bindR_eq_Inr)
      then show thesis using that(4) save_txs_sim SaveSteps Inr by (auto simp: update_txs_Inr)
    qed (use SaveSteps that(1) txs_failed(3) in blast)
  next
    case (SettleSubmission actor i index leaseToken patch r)
    show thesis
    proof (cases r)
      case (Inr q)
      then have "\<exists>rows. D' = D\<lparr>db_plans := rows\<rparr>" using SettleSubmission commit by (auto simp: settleSubmission_txs_def attempt_eq_Inr transact_Inr bindR_eq_Inr)
      then show thesis using that(4) settleSubmission_txs_sim SettleSubmission Inr by metis
    qed (use SettleSubmission that(1) txs_failed(4) in blast)
  next
    case (ReserveExternal actor i indexes bindingId r)
    show thesis
    proof (cases r)
      case (Inr q)
      then have "\<exists>rows. D' = D\<lparr>db_plans := rows\<rparr>" using ReserveExternal commit by (auto simp: reserveExternalExecution_txs_def transact_Inr bindR_eq_Inr)
      then show thesis using that(4) reserveExternalExecution_txs_sim ReserveExternal Inr by metis
    qed (use ReserveExternal that(1) txs_failed(5) in blast)
  next
    case (SaveExternal actor i expected bindingId updates r)
    show thesis
    proof (cases r)
      case (Inr q)
      then have "\<exists>rows. D' = D\<lparr>db_plans := rows\<rparr>" using SaveExternal commit by (auto simp: saveExternalExecution_txs_def attempt_eq_Inr transact_Inr bindR_eq_Inr)
      then show thesis using that(4) saveExternalExecution_txs_sim SaveExternal Inr by metis
    qed (use SaveExternal that(1) txs_failed(6) in blast)
  next
    case (SyncExternal actor i r)
    show thesis
    proof (cases r)
      case (Inr q)
      then have "\<exists>rows. D' = D\<lparr>db_plans := rows\<rparr>" using SyncExternal commit
        by (auto simp: syncExternalExecutions_txs_def attempt_eq_Inr transact_Inr bindR_eq_Inr split: option.splits)
      then show thesis using that(4) syncExternalExecutions_txs_sim SyncExternal Inr by metis
    qed (use SyncExternal that(1) txs_failed(7) in blast)
  qed
qed

lemma txs_op_sim:
  assumes "txs_op D D'" and sim: "txs_sim D s" and inv: "tx_inv s"
  shows "\<exists>s'. plans_step\<^sup>*\<^sup>* s s' \<and> txs_sim D' s'"
  using assms(1)
proof (cases rule: txs_op_cases)
  case (created actives clock input claim now r)
  then show ?thesis using create_txs_sim [OF sim inv] plans_step.Created by blast
next
  case (claimed actives clock claim q dispatch)
  then show ?thesis using claimSubmission_txs_sim [OF sim inv] plans_step.Claimed by blast
qed (use sim inv in blast)+

text \<open>What the store leaves alone.\<close>

definition transactionFree :: "Database \<Rightarrow> Database" where
  "transactionFree D = D\<lparr>db_transports := [], db_plans := [], db_planIdempotency := [], db_transactionNonces := []\<rparr>"

lemma reserveIdempotency_free: "reserveIdempotency_txs actor claim i k existing D = Inr D' \<Longrightarrow> transactionFree D' = transactionFree D \<and> db_transports D' = db_transports D"
  by (auto simp: reserveIdempotency_txs_Inr transactionFree_def split: if_splits)

lemma txs_op_free:
  assumes "txs_op D D'"
  shows "pgLedger.ledger_step (db_transports D) (db_transports D') \<and> transactionFree D' = transactionFree D"
  using assms
proof (cases rule: txs_op_cases)
  case failed
  then show ?thesis using no_claim by simp
next
  case (created actives clock input claim now r)
  then consider "D' = D" | D1 where "insertPlan input D = Inr D1" "reserveIdempotency_txs (pl_actor input) claim (pl_id input) None None D1 = Inr D'"
    by (auto simp: create_txs_def Let_def attempt_eq_Inr transact_Inr bindR_eq_Inr boundedClone_eq_Inr split: option.splits)
  then show ?thesis
  proof cases
    case 2
    then show ?thesis using reserveIdempotency_free [OF 2(2)] no_claim by (auto simp: insertPlan_Inr transactionFree_def)
  qed (use no_claim in simp)
next
  case (claimed actives clock claim q dispatch)
  then show ?thesis
  proof (rule claimSubmission_txs_Inr)
    fix changed D1 D2 D3
    assume tr: "claimTransport_txs claim D = Inr D1" and nn: "insertTransactionNonce claim D1 = Inr D2" "transactionNonceHeld claim D2 = Inr ()"
      and ri: "reserveIdempotency_txs (cl_actor claim) (cl_idempotency claim) (cl_planId claim) (Some (cl_stepIndex claim)) (idempotency_txs (cl_actor claim) (cl_idempotency claim) D) D2 = Inr D3"
      and up: "(if changed then update_txs q D3 else Inr D3) = Inr D'"
    have "transactionFree D' = transactionFree D3 \<and> db_transports D' = db_transports D3" using up by (auto simp: update_txs_Inr transactionFree_def split: if_splits)
    moreover have "transactionFree D2 = transactionFree D1 \<and> db_transports D2 = db_transports D1" using insertTransactionNonce_Inr(3) [OF nn] by (auto simp: transactionFree_def)
    moreover have "transactionFree D1 = transactionFree D \<and> pgLedger.ledger_step (db_transports D) (db_transports D1)"
      using tr pgLedger.ledger_stepI by (auto simp: claimTransport_txs_Inr transactionFree_def)
    ultimately show ?thesis using reserveIdempotency_free [OF ri] by simp
  qed
next
  case (moved rows)
  then show ?thesis using no_claim by (simp add: transactionFree_def)
qed

lemma transactionFreeD: "transactionFree D' = transactionFree D \<Longrightarrow> db_operations D' = db_operations D \<and> db_operationNonces D' = db_operationNonces D \<and>
    db_sponsorships D' = db_sponsorships D \<and> db_forwardNonces D' = db_forwardNonces D"
  by (cases D; cases D') (simp add: transactionFree_def)

lemma txs_sim_others:
  assumes sim: "txs_sim D s" and l: "pgLedger.ledger_step (db_transports D) (db_transports D')"
    and "db_plans D' = db_plans D" and "db_planIdempotency D' = db_planIdempotency D" and "db_transactionNonces D' = db_transactionNonces D"
  shows "\<exists>s'. plans_step\<^sup>*\<^sup>* s s' \<and> txs_sim D' s'"
proof -
  obtain i idx t b u where c: "claimPostgresTransport i idx t b (db_transports D) = (u, db_transports D')"
    using l unfolding pgLedger.ledger_step_def by blast
  obtain t' where t: "claim_transport i idx t b (tx_transports s) = (u, t')" "rowBound (db_transports D') = boundTo t'"
    using transports_agree [OF txs_simD(5) [OF sim], of i idx t b] c by (metis fst_conv snd_conv prod.collapse)
  have "txs_sim D' (s\<lparr>tx_transports := t'\<rparr>)"
    using sim t(2) assms(3-5) claim_keys [OF c txs_simD(6) [OF sim]] by (simp add: txs_sim_def nonceHolder_def transactionNonceRow_def)
  moreover have "plans_step s (s\<lparr>tx_transports := t'\<rparr>)" using t(1) by (rule plans_step.OtherStore)
  ultimately show ?thesis by blast
qed

lemma txs_sim_empty: "txs_sim emptyDatabase emptyTxStore"
  by (simp add: txs_sim_def emptyDatabase_def emptyTxStore_def planDocuments_def planKeys_def nonceHolder_def transactionNonceRow_def transportKeys_def rowBound_def
      transportRow_def boundTo_def current_of_def fun_eq_iff)

end
