(* ===== verification/PgAccounts.thy ===== *)
theory PgAccounts
  imports PgTables
begin

text \<open>
  The PostgreSQL account store (\<^verbatim>\<open>src/src/rest/auth/postgres.ts\<close>): accounts, bot grants and request nonces. \<open>clock n\<close> is the \<open>n\<close>-th answer of
  \<^verbatim>\<open>databaseNow\<close> in an operation; \<^verbatim>\<open>enroll\<close> asks for the first only when it inserts the account. Grants of wallet applications are not modelled: the registry \<^verbatim>\<open>rest_grant_ids\<close> then holds exactly the identifiers of
  the bot grants, which a trigger enters with them, and a lookup in it finds the bot grant. A lock or statement timeout, after which
  nothing was written, is not represented.
\<close>

section \<open>Rows\<close>

definition accountNotFound :: rest_error where
  "accountNotFound = RestAuthError ''ACCOUNT_NOT_FOUND'' 404 ''Account not found''"

definition accountRow :: "string \<Rightarrow> Database \<Rightarrow> Account option" where
  "accountRow i D = List.find (\<lambda>a. ac_id a = i) (db_accounts D)"

definition lockedAccount :: "string \<Rightarrow> Database \<Rightarrow> Account res" where
  "lockedAccount i D =
     bindR (assertIdentifier i) (\<lambda>_. case accountRow i D of None \<Rightarrow> Inl accountNotFound | Some a \<Rightarrow> Inr a)"

definition grantRow :: "string \<Rightarrow> Database \<Rightarrow> BotGrant option" where
  "grantRow g D = List.find (\<lambda>b. bg_id b = g) (db_grants D)"

definition getGrant :: "string option \<Rightarrow> Database \<Rightarrow> BotGrant option" where
  "getGrant i D = (case i of None \<Rightarrow> None | Some g \<Rightarrow> grantRow g D)"

definition getAuthorizationGrant :: "string option \<Rightarrow> Database \<Rightarrow> BotGrant option res" where
  "getAuthorizationGrant i D =
     (case i of None \<Rightarrow> Inr None | Some g \<Rightarrow> bindR (assertIdentifier g) (\<lambda>_. Inr (getGrant (Some g) D)))"

text \<open>The guard that the other stores call inside their own transactions.\<close>

definition assertRestActorActive :: "int \<Rightarrow> Database \<Rightarrow> RestActor \<Rightarrow> BotScope list \<Rightarrow> int \<Rightarrow> unit res" where
  "assertRestActorActive databaseNow D actor scopes now =
     bindR (actorGrantId actor) (\<lambda>grantId.
     bindR (assertTime_auth now) (\<lambda>_.
     bindR (lockedAccount (accountId actor) D) (\<lambda>account.
     bindR (getAuthorizationGrant grantId D) (\<lambda>grant.
     assertActorAuthority account grant actor scopes databaseNow))))"

section \<open>Request nonces\<close>

definition noncesOf :: "string \<Rightarrow> Database \<Rightarrow> nat" where
  "noncesOf i D = length (filter (\<lambda>row. qn_accountId row = i) (db_requestNonces D))"

definition requestNonceRow :: "string \<Rightarrow> string \<Rightarrow> Database \<Rightarrow> RequestNonceRow option" where
  "requestNonceRow i nonce D = List.find (\<lambda>row. qn_accountId row = i \<and> qn_nonce row = nonce) (db_requestNonces D)"

definition nonceRoom :: "AccountStoreLimits \<Rightarrow> VerifiedRequest \<Rightarrow> Database \<Rightarrow> bool" where
  "nonceRoom limits request D \<longleftrightarrow>
     \<not> int (noncesOf (vr_accountId request) D) \<ge> nonceCapacity (maxNoncesPerAccount limits) (vr_grantId request)"

text \<open>\<^verbatim>\<open>INSERT ... ON CONFLICT (account_id, nonce) DO UPDATE ... WHERE expires_at <= $4 RETURNING nonce\<close>.\<close>

definition insertRequestNonce :: "VerifiedRequest \<Rightarrow> Database \<Rightarrow> Database res" where
  "insertRequestNonce request D =
     (let i = vr_accountId request; nonce = toLowerCase (vr_nonce request) in
      case requestNonceRow i nonce D of
        None \<Rightarrow> Inr (D\<lparr>db_requestNonces := db_requestNonces D @ [\<lparr>qn_accountId = i, qn_nonce = nonce, qn_expiresAt = vr_expiresAt request\<rparr>]\<rparr>)
      | Some row \<Rightarrow>
          bindR (ensure (qn_expiresAt row \<le> vr_now request) (RestAuthError ''REPLAY'' 409 ''Authenticated request nonce was already used'')) (\<lambda>_.
          Inr (D\<lparr>db_requestNonces := map (\<lambda>row. if qn_accountId row = i \<and> qn_nonce row = nonce then row\<lparr>qn_expiresAt := vr_expiresAt request\<rparr> else row)
            (db_requestNonces D)\<rparr>)))"

definition consumeNonce_acs :: "AccountStoreLimits \<Rightarrow> VerifiedRequest \<Rightarrow> Database \<Rightarrow> Database res" where
  "consumeNonce_acs limits request D =
     bindR (if nonceRoom limits request D then Inr D
       else
         let D1 = D\<lparr>db_requestNonces := filter (\<lambda>row. \<not> (qn_accountId row = vr_accountId request \<and> qn_expiresAt row \<le> vr_now request)) (db_requestNonces D)\<rparr> in
         bindR (ensure (nonceRoom limits request D1) (RestAuthError ''STORAGE_LIMIT'' 429 ''Account request nonce storage limit exceeded'')) (\<lambda>_. Inr D1))
       (insertRequestNonce request)"

text \<open>\<open>textLe\<close> is the collation of the two text columns.\<close>

definition expiryLe :: "(string \<Rightarrow> string \<Rightarrow> bool) \<Rightarrow> RequestNonceRow \<Rightarrow> RequestNonceRow \<Rightarrow> bool" where
  "expiryLe textLe a b \<longleftrightarrow> qn_expiresAt a < qn_expiresAt b \<or> qn_expiresAt a = qn_expiresAt b \<and>
     (if qn_accountId a = qn_accountId b then textLe (qn_nonce a) (qn_nonce b) else textLe (qn_accountId a) (qn_accountId b))"

definition cleanupExpiredNonces_acs :: "(string \<Rightarrow> string \<Rightarrow> bool) \<Rightarrow> (nat \<Rightarrow> int) \<Rightarrow> int \<Rightarrow> int option \<Rightarrow> Database \<Rightarrow> int res \<times> Database" where
  "cleanupExpiredNonces_acs textLe clock now limit D =
     attempt (assertTime_auth now) D (\<lambda>_.
     attempt (cleanupLimit limit) D (\<lambda>maximum.
     let expired = take (nat maximum) (sort_by (expiryLe textLe) (filter (\<lambda>row. qn_expiresAt row \<le> clock 0) (db_requestNonces D)));
         removed = (\<lambda>row. list_ex (\<lambda>e. qn_accountId e = qn_accountId row \<and> qn_nonce e = qn_nonce row) expired) in
     (Inr (int (length (filter removed (db_requestNonces D)))), D\<lparr>db_requestNonces := filter (\<lambda>row. \<not> removed row) (db_requestNonces D)\<rparr>)))"

section \<open>Accounts\<close>

definition getAccount_acs :: "string \<Rightarrow> Database \<Rightarrow> Account option res" where
  "getAccount_acs i D = bindR (assertIdentifier i) (\<lambda>_. Inr (accountRow i D))"

definition identityMismatch :: rest_error where
  "identityMismatch = RestAuthError ''FORBIDDEN'' 403 ''Account identity does not match its owner''"

definition enrollAccountInTransaction :: "int \<Rightarrow> Account \<Rightarrow> AccountStoreLimits \<Rightarrow> Database \<Rightarrow> (Account \<times> Database) res" where
  "enrollAccountInTransaction createdAt account limits D =
     bindR (assertAccount account) (\<lambda>_.
     case accountRow (ac_id account) D of
       Some v \<Rightarrow>
         bindR (ensure (\<not> (toLowerCase (ac_ownerAddress v) \<noteq> toLowerCase (ac_ownerAddress account) \<or> ac_authorityChainId v \<noteq> ac_authorityChainId account)) identityMismatch) (\<lambda>_.
         Inr (v, D))
     | None \<Rightarrow>
         bindR (ensure (\<not> list_ex (\<lambda>a. ac_authorityChainId a = ac_authorityChainId account \<and> ac_ownerAddress a = toLowerCase (ac_ownerAddress account)) (db_accounts D)) identityMismatch) (\<lambda>_.
         bindR (ensure (\<not> int (length (db_accounts D)) \<ge> maxAccounts limits) (RestAuthError ''STORAGE_LIMIT'' 429 ''Account storage limit exceeded'')) (\<lambda>_.
         let v = account\<lparr>ac_ownerAddress := toLowerCase (ac_ownerAddress account), ac_createdAt := createdAt, ac_updatedAt := createdAt\<rparr> in
         Inr (v, D\<lparr>db_accounts := db_accounts D @ [v]\<rparr>))))"

text \<open>The request at a time the database answered.\<close>

definition requestAt :: "VerifiedRequest \<Rightarrow> int \<Rightarrow> VerifiedRequest res" where
  "requestAt request now = (let current = request\<lparr>vr_now := now\<rparr> in bindR (assertRequest current) (\<lambda>_. Inr current))"

definition enroll_acs ::
  "AccountStoreLimits \<Rightarrow> (nat \<Rightarrow> int) \<Rightarrow> Account \<Rightarrow> VerifiedRequest \<Rightarrow> Database \<Rightarrow> RestPrincipal res \<times> Database" where
  "enroll_acs limits clock account request D =
     attempt (assertAccount account) D (\<lambda>_.
     attempt (assertRequest request) D (\<lambda>_.
     transact (\<lambda>D.
       bindR (ensure (\<not> (vr_accountId request \<noteq> ac_id account \<or> vr_grantId request \<noteq> None \<or>
              toLowerCase (vr_signer request) \<noteq> toLowerCase (ac_ownerAddress account)))
            (RestAuthError ''FORBIDDEN'' 403 ''Only the owner can enroll an account'')) (\<lambda>_.
       bindR (enrollAccountInTransaction (clock 0) account limits D) (\<lambda>(v, D1).
       bindR (requestAt request (clock 1)) (\<lambda>currentRequest.
       bindR (principalFor v None currentRequest) (\<lambda>_.
       bindR (consumeNonce_acs limits currentRequest D1) (\<lambda>D2.
       bindR (requestAt request (clock 2)) (\<lambda>completedRequest.
       bindR (principalFor v None completedRequest) (\<lambda>p. Inr (p, D2))))))))) D))"

definition authorizeAndConsume_acs :: "AccountStoreLimits \<Rightarrow> (nat \<Rightarrow> int) \<Rightarrow> VerifiedRequest \<Rightarrow> Database \<Rightarrow> RestPrincipal res \<times> Database" where
  "authorizeAndConsume_acs limits clock request D =
     attempt (assertRequest request) D (\<lambda>_.
     transact (\<lambda>D.
       bindR (lockedAccount (vr_accountId request) D) (\<lambda>account.
       bindR (getAuthorizationGrant (vr_grantId request) D) (\<lambda>grant.
       bindR (requestAt request (clock 0)) (\<lambda>currentRequest.
       bindR (principalFor account grant currentRequest) (\<lambda>_.
       bindR (consumeNonce_acs limits currentRequest D) (\<lambda>D1.
       bindR (requestAt request (clock 1)) (\<lambda>completedRequest.
       bindR (principalFor account grant completedRequest) (\<lambda>p. Inr (p, D1))))))))) D)"

definition assertActive_acs :: "(nat \<Rightarrow> int) \<Rightarrow> ActiveAuthority \<Rightarrow> Database \<Rightarrow> unit res" where
  "assertActive_acs clock authority D =
     bindR (authorityRequest authority) (\<lambda>request.
     bindR (lockedAccount (aa_accountId authority) D) (\<lambda>account.
     bindR (getAuthorizationGrant (aa_grantId authority) D) (\<lambda>grant.
     bindR (principalFor account grant (request\<lparr>vr_now := clock 1\<rparr>)) (\<lambda>_. Inr ()))))"

text \<open>The operation runs on its own connection; \<open>t\<close> is whatever it changes.\<close>

definition withActiveActor_acs ::
  "(nat \<Rightarrow> int) \<Rightarrow> RestActor \<Rightarrow> BotScope list \<Rightarrow> int \<Rightarrow> ('t \<Rightarrow> 'a res \<times> 't) \<Rightarrow> Database \<Rightarrow> 't \<Rightarrow> 'a res \<times> 't" where
  "withActiveActor_acs clock actor scopes now operation D t =
     attempt (actorGrantId actor) t (\<lambda>_.
     attempt (ensure (take 4 (principalId actor) \<noteq> ''app:'') (RestAuthError ''FORBIDDEN'' 403 ''App claims require transaction-local authority checks'')) t (\<lambda>_.
     attempt (assertRestActorActive (clock 0) D actor scopes now) t (\<lambda>_. operation t)))"

definition updateProfile_acs :: "(nat \<Rightarrow> int) \<Rightarrow> string \<Rightarrow> Profile \<Rightarrow> int \<Rightarrow> Database \<Rightarrow> Account res \<times> Database" where
  "updateProfile_acs clock i profile now D =
     attempt (assertIdentifier i) D (\<lambda>_.
     attempt (assertProfile profile) D (\<lambda>_.
     attempt (assertTime_auth now) D (\<lambda>_.
     transact (\<lambda>D.
       bindR (lockedAccount i D) (\<lambda>account.
       let change = (\<lambda>a. a\<lparr>ac_profile := profile, ac_updatedAt := max (ac_updatedAt a) (clock 0)\<rparr>) in
       Inr (change account, D\<lparr>db_accounts := map (\<lambda>a. if ac_id a = i then change a else a) (db_accounts D)\<rparr>))) D)))"

section \<open>Grants\<close>

definition listBots_acs :: "(string \<Rightarrow> string \<Rightarrow> bool) \<Rightarrow> string \<Rightarrow> Database \<Rightarrow> BotGrant list res" where
  "listBots_acs idLe i D =
     bindR (assertIdentifier i) (\<lambda>_.
     bindR (getAccount_acs i D) (\<lambda>account.
     bindR (ensure (account \<noteq> None) accountNotFound) (\<lambda>_.
     Inr (sort_by (\<lambda>a b. bg_createdAt a < bg_createdAt b \<or> bg_createdAt a = bg_createdAt b \<and> idLe (bg_id a) (bg_id b))
       (filter (\<lambda>b. bg_accountId b = i) (db_grants D))))))"

definition registerBotInTransaction :: "int \<Rightarrow> BotGrant \<Rightarrow> AccountStoreLimits \<Rightarrow> Database \<Rightarrow> (BotGrant \<times> Database) res" where
  "registerBotInTransaction createdAt grant limits D =
     bindR (assertGrant grant) (\<lambda>_.
     bindR (ensure (getGrant (Some (bg_id grant)) D = None) (RestAuthError ''REPLAY'' 409 ''Bot grant identifier already exists'')) (\<lambda>_.
     bindR (ensure (\<not> int (length (filter (\<lambda>b. bg_accountId b = bg_accountId grant) (db_grants D))) \<ge> maxGrantsPerAccount limits)
       (RestAuthError ''STORAGE_LIMIT'' 429 ''Account bot grant storage limit exceeded'')) (\<lambda>_.
     bindR (ensure (\<not> (bg_expiresAt grant \<le> createdAt \<or> bg_expiresAt grant - createdAt > 365 * 86400))
       (RestAuthError ''FORBIDDEN'' 403 ''Bot grant expiry must be within one year'')) (\<lambda>_.
     let v = grant\<lparr>bg_botAddress := toLowerCase (bg_botAddress grant), bg_createdAt := createdAt, bg_revokedAt := None\<rparr> in
     Inr (v, D\<lparr>db_grants := db_grants D @ [v]\<rparr>)))))"

definition registerBot_acs :: "AccountStoreLimits \<Rightarrow> (nat \<Rightarrow> int) \<Rightarrow> BotGrant \<Rightarrow> Database \<Rightarrow> BotGrant res \<times> Database" where
  "registerBot_acs limits clock grant D =
     attempt (assertGrant grant) D (\<lambda>_.
     transact (\<lambda>D. bindR (lockedAccount (bg_accountId grant) D) (\<lambda>_. registerBotInTransaction (clock 0) grant limits D)) D)"

text \<open>\<^verbatim>\<open>SET revoked_at = coalesce(revoked_at, greatest(created_at, $3))\<close>.\<close>

definition revokedGrant :: "int \<Rightarrow> BotGrant \<Rightarrow> BotGrant" where
  "revokedGrant now b = b\<lparr>bg_revokedAt := Some (case bg_revokedAt b of Some t \<Rightarrow> t | None \<Rightarrow> max (bg_createdAt b) now)\<rparr>"

definition revokeBot_acs :: "(nat \<Rightarrow> int) \<Rightarrow> string \<Rightarrow> string \<Rightarrow> int \<Rightarrow> Database \<Rightarrow> BotGrant res \<times> Database" where
  "revokeBot_acs clock i g now D =
     attempt (assertIdentifier i) D (\<lambda>_.
     attempt (assertIdentifier g) D (\<lambda>_.
     attempt (assertTime_auth now) D (\<lambda>_.
     transact (\<lambda>D.
       bindR (lockedAccount i D) (\<lambda>_.
       case List.find (\<lambda>b. bg_id b = g \<and> bg_accountId b = i) (db_grants D) of
         None \<Rightarrow> Inl (RestAuthError ''GRANT_NOT_FOUND'' 404 ''Bot grant not found'')
       | Some b \<Rightarrow> Inr (revokedGrant (clock 0) b,
           D\<lparr>db_grants := map (\<lambda>b. if bg_id b = g \<and> bg_accountId b = i then revokedGrant (clock 0) b else b) (db_grants D)\<rparr>))) D)))"

end
