(* ===== verification/PgAccountProperties.thy ===== *)
theory PgAccountProperties
  imports PgAccounts PgRefinement AuthProperties
begin

text \<open>
  Runs of the PostgreSQL account store: what an operation can change, that a request nonce blocks its replay until it expires, and that a revoked grant stays revoked
  and gives no authority, to requests and to the guards of the other stores.
\<close>

section \<open>Operations and what they change\<close>

inductive acs_op :: "Database \<Rightarrow> Database \<Rightarrow> bool" where
  Enroll: "enroll_acs limits clock account request D = (p, D') \<Longrightarrow> acs_op D D'"
| Authorize: "authorizeAndConsume_acs limits clock request D = (p, D') \<Longrightarrow> acs_op D D'"
| UpdateProfile: "updateProfile_acs clock i profile now D = (a, D') \<Longrightarrow> acs_op D D'"
| RegisterBot: "registerBot_acs limits clock grant D = (b, D') \<Longrightarrow> acs_op D D'"
| RevokeBot: "revokeBot_acs clock i g now D = (b, D') \<Longrightarrow> acs_op D D'"
| Cleanup: "cleanupExpiredNonces_acs textLe clock now limit D = (n, D') \<Longrightarrow> acs_op D D'"

lemma acs_failed:
  "enroll_acs limits clock account request D = (Inl e, D') \<Longrightarrow> D' = D"
  "authorizeAndConsume_acs limits clock request D = (Inl e, D') \<Longrightarrow> D' = D"
  "updateProfile_acs clock i profile now D = (Inl e, D') \<Longrightarrow> D' = D"
  "registerBot_acs limits clock grant D = (Inl e, D') \<Longrightarrow> D' = D"
  "revokeBot_acs clock i g now D = (Inl e, D') \<Longrightarrow> D' = D"
  by (auto simp: enroll_acs_def authorizeAndConsume_acs_def updateProfile_acs_def registerBot_acs_def revokeBot_acs_def attempt_eq_Inl transact_Inl)

lemma insertRequestNonce_frame: "insertRequestNonce request D = Inr D' \<Longrightarrow> \<exists>rows. D' = D\<lparr>db_requestNonces := rows\<rparr>"
  by (auto simp: insertRequestNonce_def Let_def bindR_eq_Inr split: option.splits)

lemma consumeNonce_acs_frame:
  assumes "consumeNonce_acs limits request D = Inr D'"
  shows "\<exists>rows. D' = D\<lparr>db_requestNonces := rows\<rparr>"
proof -
  obtain D1 rows where "D1 = D\<lparr>db_requestNonces := rows\<rparr>" and i: "insertRequestNonce request D1 = Inr D'"
  proof (cases "nonceRoom limits request D")
    case True
    then show thesis using assms that [of D "db_requestNonces D"] by (simp add: consumeNonce_acs_def)
  next
    case False
    then show thesis using assms that by (auto simp: consumeNonce_acs_def Let_def bindR_eq_Inr)
  qed
  with insertRequestNonce_frame [OF i] show ?thesis by auto
qed

lemma enrollAccount_frame: "enrollAccountInTransaction t account limits D = Inr (v, D') \<Longrightarrow> \<exists>rows. D' = D\<lparr>db_accounts := rows\<rparr>"
proof (cases "accountRow (ac_id account) D")
  case (Some w)
  assume "enrollAccountInTransaction t account limits D = Inr (v, D')"
  with Some have "D' = D\<lparr>db_accounts := db_accounts D\<rparr>" by (auto simp: enrollAccountInTransaction_def bindR_eq_Inr)
  then show ?thesis ..
qed (auto simp: enrollAccountInTransaction_def bindR_eq_Inr Let_def)

text \<open>How an accepted request changed the tables.\<close>

lemma enroll_acs_Inr:
  assumes "enroll_acs limits clock account request D = (Inr p, D')"
  obtains v D1 where "enrollAccountInTransaction (clock 0) account limits D = Inr (v, D1)" "assertRequest (request\<lparr>vr_now := clock 1\<rparr>) = Inr ()"
    "consumeNonce_acs limits (request\<lparr>vr_now := clock 1\<rparr>) D1 = Inr D'"
  using assms by (auto simp: enroll_acs_def requestAt_def Let_def attempt_eq_Inr transact_Inr bindR_eq_Inr)

lemma authorize_acs_Inr:
  assumes "authorizeAndConsume_acs limits clock request D = (Inr p, D')"
  obtains account grant where "lockedAccount (vr_accountId request) D = Inr account" "getAuthorizationGrant (vr_grantId request) D = Inr grant"
    "assertRequest (request\<lparr>vr_now := clock 0\<rparr>) = Inr ()" "principalFor account grant (request\<lparr>vr_now := clock 1\<rparr>) = Inr p"
    "consumeNonce_acs limits (request\<lparr>vr_now := clock 0\<rparr>) D = Inr D'"
  using assms by (auto simp: authorizeAndConsume_acs_def requestAt_def Let_def attempt_eq_Inr transact_Inr bindR_eq_Inr)

text \<open>An operation leaves the grants alone, adds one, or revokes one.\<close>

definition accountFree :: "Database \<Rightarrow> Database" where
  "accountFree D = D\<lparr>db_accounts := [], db_grants := [], db_requestNonces := []\<rparr>"

lemma acs_op_effect:
  assumes "acs_op D D'"
  shows "accountFree D' = accountFree D \<and> (db_grants D' = db_grants D \<or> (\<exists>v. db_grants D' = db_grants D @ [v] \<and> bg_id v \<notin> bg_id ` set (db_grants D)) \<or>
     (\<exists>t g i. db_grants D' = map (\<lambda>b. if bg_id b = g \<and> bg_accountId b = i then revokedGrant t b else b) (db_grants D)))"
  using assms
proof cases
  case (Enroll limits clock account request p)
  show ?thesis
  proof (cases p)
    case (Inr q)
    then have "enroll_acs limits clock account request D = (Inr q, D')" using Enroll by simp
    then show ?thesis by (rule enroll_acs_Inr) (auto dest!: enrollAccount_frame consumeNonce_acs_frame simp: accountFree_def)
  qed (use Enroll acs_failed(1) in blast)
next
  case (Authorize limits clock request p)
  show ?thesis
  proof (cases p)
    case (Inr q)
    then have "authorizeAndConsume_acs limits clock request D = (Inr q, D')" using Authorize by simp
    then show ?thesis by (rule authorize_acs_Inr) (auto dest!: consumeNonce_acs_frame simp: accountFree_def)
  qed (use Authorize acs_failed(2) in blast)
next
  case (UpdateProfile clock i profile now a)
  show ?thesis
  proof (cases a)
    case (Inr q)
    then show ?thesis using UpdateProfile by (auto simp: updateProfile_acs_def attempt_eq_Inr transact_Inr bindR_eq_Inr Let_def accountFree_def)
  qed (use UpdateProfile acs_failed(3) in blast)
next
  case (RegisterBot limits clock grant b)
  show ?thesis
  proof (cases b)
    case (Inr q)
    define v where "v = grant\<lparr>bg_botAddress := toLowerCase (bg_botAddress grant), bg_createdAt := clock 0, bg_revokedAt := None\<rparr>"
    have v: "getGrant (Some (bg_id v)) D = None" "D' = D\<lparr>db_grants := db_grants D @ [v]\<rparr>"
      using RegisterBot Inr by (auto simp: registerBot_acs_def registerBotInTransaction_def attempt_eq_Inr transact_Inr res_simps Let_def v_def)
    have "bg_id v \<notin> bg_id ` set (db_grants D)" using v(1) by (auto simp: getGrant_def grantRow_def find_None_iff)
    then show ?thesis using v(2) by (auto simp: accountFree_def)
  qed (use RegisterBot acs_failed(4) in blast)
next
  case (RevokeBot clock i g now b)
  show ?thesis
  proof (cases b)
    case (Inr q)
    then have "D' = D\<lparr>db_grants := map (\<lambda>b. if bg_id b = g \<and> bg_accountId b = i then revokedGrant (clock 0) b else b) (db_grants D)\<rparr>"
      using RevokeBot by (auto simp: revokeBot_acs_def attempt_eq_Inr transact_Inr bindR_eq_Inr split: option.splits)
    then show ?thesis by (auto simp: accountFree_def)
  qed (use RevokeBot acs_failed(5) in blast)
next
  case (Cleanup textLe clock now limit n)
  then show ?thesis by (cases n) (auto simp: cleanupExpiredNonces_acs_def attempt_eq_Inl attempt_eq_Inr Let_def accountFree_def)
qed

section \<open>Revocation\<close>

definition revokedRow :: "string \<Rightarrow> Database \<Rightarrow> bool" where
  "revokedRow g D \<longleftrightarrow> (\<exists>b. grantRow g D = Some b \<and> bg_revokedAt b \<noteq> None)"

lemma revokedGrant_simps [simp]: "bg_id (revokedGrant t b) = bg_id b" "\<exists>u. bg_revokedAt (revokedGrant t b) = Some u"
  by (simp_all add: revokedGrant_def)

lemma revokedRow_update: "revokedRow g D \<Longrightarrow> db_grants D' = map (\<lambda>b. if P b then revokedGrant t b else b) (db_grants D) \<Longrightarrow> revokedRow g D'"
proof -
  assume r: "revokedRow g D" and D': "db_grants D' = map (\<lambda>b. if P b then revokedGrant t b else b) (db_grants D)"
  have keep: "(\<lambda>b. bg_id (if P b then revokedGrant t b else b) = g) = (\<lambda>b. bg_id b = g)" by auto
  obtain b where b: "List.find (\<lambda>b. bg_id b = g) (db_grants D) = Some b" "bg_revokedAt b \<noteq> None" using r by (auto simp: revokedRow_def grantRow_def)
  have "grantRow g D' = Some (if P b then revokedGrant t b else b)" by (simp add: grantRow_def D' find_map keep b(1))
  then show ?thesis using b(2) by (cases "P b") (simp_all add: revokedRow_def)
qed

lemma acs_op_revoked: "acs_op D D' \<Longrightarrow> revokedRow g D \<Longrightarrow> revokedRow g D'"
proof -
  assume op: "acs_op D D'" and r: "revokedRow g D"
  from acs_op_effect [OF op] consider "db_grants D' = db_grants D" | v where "db_grants D' = db_grants D @ [v]"
    | t h i where "db_grants D' = map (\<lambda>b. if bg_id b = h \<and> bg_accountId b = i then revokedGrant t b else b) (db_grants D)" by blast
  then show ?thesis
  proof cases
    case 3
    show ?thesis by (rule revokedRow_update [OF r 3])
  qed (use r in \<open>auto simp: revokedRow_def grantRow_def find_append\<close>)
qed

lemma revokeBot_acs_revoked:
  assumes "revokeBot_acs clock i g now D = (Inr b, D')" and "distinct (map bg_id (db_grants D))"
  shows "revokedRow g D'"
proof -
  obtain c where c: "c \<in> set (db_grants D)" "bg_id c = g" "bg_accountId c = i"
    and D': "D' = D\<lparr>db_grants := map (\<lambda>b. if bg_id b = g \<and> bg_accountId b = i then revokedGrant (clock 0) b else b) (db_grants D)\<rparr>"
    using assms(1) by (auto simp: revokeBot_acs_def attempt_eq_Inr transact_Inr bindR_eq_Inr dest!: find_SomeD split: option.splits)
  have keep: "(\<lambda>b. bg_id (if bg_id b = g \<and> bg_accountId b = i then revokedGrant (clock 0) b else b) = g) = (\<lambda>b. bg_id b = g)" by auto
  obtain d where d: "List.find (\<lambda>b. bg_id b = g) (db_grants D) = Some d"
    using c by (cases "List.find (\<lambda>b. bg_id b = g) (db_grants D)") (auto simp: find_None_iff)
  have "d = c" using find_SomeD [OF d] c assms(2) by (metis distinct_map inj_onD)
  then show ?thesis using d c by (simp add: revokedRow_def grantRow_def D' find_map keep)
qed

lemma revoked_refuses:
  assumes "revokedRow g D" and "principalId actor = botPrincipal g"
  shows "assertRestActorActive t D actor scopes now \<noteq> Inr ()"
proof
  assume "assertRestActorActive t D actor scopes now = Inr ()"
  then obtain gi account grant where gi: "actorGrantId actor = Inr gi" "getAuthorizationGrant gi D = Inr grant" "assertActorAuthority account grant actor scopes t = Inr ()"
    by (auto simp: assertRestActorActive_def bindR_eq_Inr)
  have g: "gi = Some g" using actorGrantId_bot [OF assms(2) gi(1)] .
  then obtain b where b: "grant = Some b" "bg_revokedAt b \<noteq> None" using assms(1) gi(2) by (auto simp: revokedRow_def getAuthorizationGrant_def getGrant_def bindR_eq_Inr)
  from gi(1,3) g obtain request p where "vr_grantId request = Some g" "principalFor account grant request = Inr p"
    by (auto simp: assertActorAuthority_def bindR_eq_Inr dest: authorityRequest_Inr)
  from principalFor_sound [OF this(2)] this(1) b show False by (simp add: holdsAuthority_def)
qed

lemma revoked_unauthorized:
  assumes "revokedRow g D" and "vr_grantId request = Some g"
  shows "\<exists>e. authorizeAndConsume_acs limits clock request D = (Inl e, D)"
proof (cases "authorizeAndConsume_acs limits clock request D")
  case (Pair r D')
  show ?thesis
  proof (cases r)
    case (Inl e)
    then show ?thesis using Pair acs_failed(2) by blast
  next
    case (Inr p)
    then have "authorizeAndConsume_acs limits clock request D = (Inr p, D')" using Pair by simp
    then show ?thesis
    proof (rule authorize_acs_Inr)
      fix account grant
      assume g: "getAuthorizationGrant (vr_grantId request) D = Inr grant" and p: "principalFor account grant (request\<lparr>vr_now := clock 1\<rparr>) = Inr p"
      obtain b where "grant = Some b" "bg_revokedAt b \<noteq> None" using assms g by (auto simp: revokedRow_def getAuthorizationGrant_def getGrant_def bindR_eq_Inr)
      with principalFor_sound [OF p] assms(2) show ?thesis by (simp add: holdsAuthority_def)
    qed
  qed
qed

section \<open>Request nonces\<close>

definition requestKey :: "RequestNonceRow \<Rightarrow> string \<times> string" where
  "requestKey row = (qn_accountId row, qn_nonce row)"

definition acs_inv :: "Database \<Rightarrow> bool" where
  "acs_inv D \<longleftrightarrow> distinct (map bg_id (db_grants D)) \<and> distinct (map requestKey (db_requestNonces D))"

lemma insertRequestNonce_distinct:
  assumes "insertRequestNonce request D = Inr D'" and d: "distinct (map requestKey (db_requestNonces D))"
  shows "distinct (map requestKey (db_requestNonces D'))"
proof (cases "requestNonceRow (vr_accountId request) (toLowerCase (vr_nonce request)) D")
  case None
  then have "(vr_accountId request, toLowerCase (vr_nonce request)) \<notin> requestKey ` set (db_requestNonces D)"
    by (auto simp: requestNonceRow_def find_None_iff requestKey_def)
  then show ?thesis using None assms by (auto simp: insertRequestNonce_def Let_def requestKey_def)
next
  case (Some row)
  have "map requestKey (map (\<lambda>row. if qn_accountId row = i \<and> qn_nonce row = n then row\<lparr>qn_expiresAt := e\<rparr> else row) rows) = map requestKey rows" for i n e rows
    by (simp add: requestKey_def)
  then show ?thesis using Some assms by (auto simp: insertRequestNonce_def Let_def bindR_eq_Inr simp del: map_map)
qed

text \<open>What \<^verbatim>\<open>consumeNonce\<close> may delete before it inserts.\<close>

lemma consumeNonce_acs_Inr:
  assumes "consumeNonce_acs limits request D = Inr D'"
  obtains Q where "insertRequestNonce request (D\<lparr>db_requestNonces := filter Q (db_requestNonces D)\<rparr>) = Inr D'" "\<forall>row. vr_now request < qn_expiresAt row \<longrightarrow> Q row"
proof (cases "nonceRoom limits request D")
  case True
  then show thesis using assms that [of "\<lambda>_. True"] by (simp add: consumeNonce_acs_def)
next
  case False
  then show thesis using assms that [of "\<lambda>row. \<not> (qn_accountId row = vr_accountId request \<and> qn_expiresAt row \<le> vr_now request)"]
    by (auto simp: consumeNonce_acs_def Let_def bindR_eq_Inr)
qed

lemma consumeNonce_acs_distinct:
  assumes "consumeNonce_acs limits request D = Inr D'" and "distinct (map requestKey (db_requestNonces D))"
  shows "distinct (map requestKey (db_requestNonces D'))"
proof -
  from assms(1) obtain Q where "insertRequestNonce request (D\<lparr>db_requestNonces := filter Q (db_requestNonces D)\<rparr>) = Inr D'" by (rule consumeNonce_acs_Inr)
  then show ?thesis using insertRequestNonce_distinct assms(2) by (simp add: distinct_map_filter)
qed

lemma requestNonceRow_update:
  "requestNonceRow i n (D\<lparr>db_requestNonces := map (\<lambda>row. if qn_accountId row = j \<and> qn_nonce row = m then row\<lparr>qn_expiresAt := e\<rparr> else row) (db_requestNonces D)\<rparr>) =
     map_option (\<lambda>row. if i = j \<and> n = m then row\<lparr>qn_expiresAt := e\<rparr> else row) (requestNonceRow i n D)"
proof -
  have table: "requestNonceRow i n (D\<lparr>db_requestNonces := rows\<rparr>) = List.find (\<lambda>row. qn_accountId row = i \<and> qn_nonce row = n) rows" for rows by (simp add: requestNonceRow_def)
  have keep: "(\<lambda>row. qn_accountId (if qn_accountId row = j \<and> qn_nonce row = m then row\<lparr>qn_expiresAt := e\<rparr> else row) = i \<and>
      qn_nonce (if qn_accountId row = j \<and> qn_nonce row = m then row\<lparr>qn_expiresAt := e\<rparr> else row) = n) = (\<lambda>row. qn_accountId row = i \<and> qn_nonce row = n)" by auto
  have e: "requestNonceRow i n (D\<lparr>db_requestNonces := map (\<lambda>row. if qn_accountId row = j \<and> qn_nonce row = m then row\<lparr>qn_expiresAt := e\<rparr> else row) (db_requestNonces D)\<rparr>) =
      map_option (\<lambda>row. if qn_accountId row = j \<and> qn_nonce row = m then row\<lparr>qn_expiresAt := e\<rparr> else row) (requestNonceRow i n D)"
    unfolding table find_map keep by (simp only: requestNonceRow_def)
  show ?thesis
  proof (cases "requestNonceRow i n D")
    case (Some row)
    then have "qn_accountId row = i" "qn_nonce row = n" using find_SomeD by (fastforce simp: requestNonceRow_def)+
    then show ?thesis by (simp add: e Some)
  qed (simp add: e)
qed

text \<open>The accepted request is on record, and no record that has not expired is lost.\<close>

lemma insertRequestNonce_row:
  assumes "insertRequestNonce request D = Inr D'"
  shows "\<exists>row. requestNonceRow (vr_accountId request) (toLowerCase (vr_nonce request)) D' = Some row \<and> qn_expiresAt row = vr_expiresAt request"
    and "requestNonceRow i n D = Some row \<Longrightarrow> vr_now request < qn_expiresAt row \<Longrightarrow> requestNonceRow i n D' = Some row"
proof -
  let ?i = "vr_accountId request" and ?n = "toLowerCase (vr_nonce request)"
  have "(\<exists>row. requestNonceRow ?i ?n D' = Some row \<and> qn_expiresAt row = vr_expiresAt request) \<and>
    (requestNonceRow i n D = Some row \<longrightarrow> vr_now request < qn_expiresAt row \<longrightarrow> requestNonceRow i n D' = Some row)"
  proof (cases "requestNonceRow ?i ?n D")
    case None
    then show ?thesis using assms by (auto simp: insertRequestNonce_def Let_def requestNonceRow_def find_append)
  next
    case (Some r)
    then have e: "qn_expiresAt r \<le> vr_now request" and D': "D' = D\<lparr>db_requestNonces := map (\<lambda>row. if qn_accountId row = ?i \<and> qn_nonce row = ?n then
        row\<lparr>qn_expiresAt := vr_expiresAt request\<rparr> else row) (db_requestNonces D)\<rparr>"
      using assms by (auto simp: insertRequestNonce_def Let_def res_simps)
    show ?thesis using Some e unfolding D' requestNonceRow_update by auto
  qed
  then show "\<exists>row. requestNonceRow ?i ?n D' = Some row \<and> qn_expiresAt row = vr_expiresAt request"
    and "requestNonceRow i n D = Some row \<Longrightarrow> vr_now request < qn_expiresAt row \<Longrightarrow> requestNonceRow i n D' = Some row" by blast+
qed

lemma consumeNonce_acs_row:
  assumes "consumeNonce_acs limits request D = Inr D'"
  shows "\<exists>row. requestNonceRow (vr_accountId request) (toLowerCase (vr_nonce request)) D' = Some row \<and> qn_expiresAt row = vr_expiresAt request"
    and "requestNonceRow i n D = Some row \<Longrightarrow> vr_now request < qn_expiresAt row \<Longrightarrow> requestNonceRow i n D' = Some row"
proof -
  from assms obtain Q where Q: "insertRequestNonce request (D\<lparr>db_requestNonces := filter Q (db_requestNonces D)\<rparr>) = Inr D'" "\<forall>row. vr_now request < qn_expiresAt row \<longrightarrow> Q row"
    by (rule consumeNonce_acs_Inr)
  show "\<exists>row. requestNonceRow (vr_accountId request) (toLowerCase (vr_nonce request)) D' = Some row \<and> qn_expiresAt row = vr_expiresAt request"
    by (rule insertRequestNonce_row(1) [OF Q(1)])
  assume r: "requestNonceRow i n D = Some row" "vr_now request < qn_expiresAt row"
  have "requestNonceRow i n (D\<lparr>db_requestNonces := filter Q (db_requestNonces D)\<rparr>) = Some row"
    using find_filter [where Q = Q, OF r(1) [unfolded requestNonceRow_def] Q(2) [rule_format, OF r(2)]] by (simp add: requestNonceRow_def)
  then show "requestNonceRow i n D' = Some row" using insertRequestNonce_row(2) [OF Q(1)] r(2) by blast
qed

lemma live_row_refuses:
  assumes "requestNonceRow (vr_accountId request) (toLowerCase (vr_nonce request)) D = Some row" and "vr_now request < qn_expiresAt row"
  shows "consumeNonce_acs limits request D \<noteq> Inr D'"
proof
  assume "consumeNonce_acs limits request D = Inr D'"
  then obtain Q where Q: "insertRequestNonce request (D\<lparr>db_requestNonces := filter Q (db_requestNonces D)\<rparr>) = Inr D'" "\<forall>row. vr_now request < qn_expiresAt row \<longrightarrow> Q row"
    by (rule consumeNonce_acs_Inr)
  have "requestNonceRow (vr_accountId request) (toLowerCase (vr_nonce request)) (D\<lparr>db_requestNonces := filter Q (db_requestNonces D)\<rparr>) = Some row"
    using find_filter [where Q = Q, OF assms(1) [unfolded requestNonceRow_def] Q(2) [rule_format, OF assms(2)]] by (simp add: requestNonceRow_def)
  then show False using Q(1) assms(2) by (simp add: insertRequestNonce_def Let_def res_simps)
qed

lemma cleanup_acs_row:
  assumes "cleanupExpiredNonces_acs textLe clock now limit D = (c, D')" and "distinct (map requestKey (db_requestNonces D))"
    and "requestNonceRow i n D = Some row" and "clock 0 < qn_expiresAt row"
  shows "requestNonceRow i n D' = Some row"
proof (cases c)
  case (Inl e)
  then show ?thesis using assms(1,3) by (auto simp: cleanupExpiredNonces_acs_def attempt_eq_Inl Let_def)
next
  case (Inr k)
  then obtain m where D': "D' = D\<lparr>db_requestNonces := filter (\<lambda>row. \<not> list_ex (\<lambda>e. qn_accountId e = qn_accountId row \<and> qn_nonce e = qn_nonce row)
      (take m (sort_by (expiryLe textLe) (filter (\<lambda>row. qn_expiresAt row \<le> clock 0) (db_requestNonces D))))) (db_requestNonces D)\<rparr>"
    using assms(1) by (auto simp: cleanupExpiredNonces_acs_def attempt_eq_Inr Let_def)
  have row: "row \<in> set (db_requestNonces D)" using assms(3) find_SomeD by (fastforce simp: requestNonceRow_def)
  have unique: "e = row" if "e \<in> set (db_requestNonces D)" "qn_accountId e = qn_accountId row" "qn_nonce e = qn_nonce row" for e
    using assms(2) row that by (auto simp: distinct_map inj_on_def requestKey_def)
  have "qn_accountId e = qn_accountId row \<longrightarrow> qn_nonce e \<noteq> qn_nonce row"
    if "e \<in> set (take m (sort_by (expiryLe textLe) (filter (\<lambda>row. qn_expiresAt row \<le> clock 0) (db_requestNonces D))))" for e
    using in_set_takeD [OF that] unique [of e] assms(4) by auto
  then have "\<not> list_ex (\<lambda>e. qn_accountId e = qn_accountId row \<and> qn_nonce e = qn_nonce row)
      (take m (sort_by (expiryLe textLe) (filter (\<lambda>row. qn_expiresAt row \<le> clock 0) (db_requestNonces D))))"
    unfolding list_ex_iff by blast
  from find_filter [where Q = "\<lambda>row. \<not> list_ex (\<lambda>e. qn_accountId e = qn_accountId row \<and> qn_nonce e = qn_nonce row)
      (take m (sort_by (expiryLe textLe) (filter (\<lambda>row. qn_expiresAt row \<le> clock 0) (db_requestNonces D))))", OF assms(3) [unfolded requestNonceRow_def] this]
  show ?thesis by (simp add: D' requestNonceRow_def)
qed

lemma others_nonces:
  "updateProfile_acs clock i profile now D = (a, D') \<Longrightarrow> db_requestNonces D' = db_requestNonces D"
  "registerBot_acs limits clock grant D = (b, D') \<Longrightarrow> db_requestNonces D' = db_requestNonces D"
  "revokeBot_acs clock i g now D = (b, D') \<Longrightarrow> db_requestNonces D' = db_requestNonces D"
proof -
  show "db_requestNonces D' = db_requestNonces D" if u: "updateProfile_acs clock i profile now D = (a, D')"
  proof (cases a)
    case (Inr q)
    then show ?thesis using u by (auto simp: updateProfile_acs_def attempt_eq_Inr transact_Inr bindR_eq_Inr Let_def)
  qed (use u acs_failed(3) in blast)
  show "db_requestNonces D' = db_requestNonces D" if u: "registerBot_acs limits clock grant D = (b, D')"
  proof (cases b)
    case (Inr q)
    then show ?thesis using u by (auto simp: registerBot_acs_def registerBotInTransaction_def attempt_eq_Inr transact_Inr bindR_eq_Inr Let_def)
  qed (use u acs_failed(4) in blast)
  show "db_requestNonces D' = db_requestNonces D" if u: "revokeBot_acs clock i g now D = (b, D')"
  proof (cases b)
    case (Inr q)
    then show ?thesis using u by (auto simp: revokeBot_acs_def attempt_eq_Inr transact_Inr bindR_eq_Inr split: option.splits)
  qed (use u acs_failed(5) in blast)
qed

lemma acs_op_inv:
  assumes "acs_op D D'" and inv: "acs_inv D"
  shows "acs_inv D'"
proof -
  have g: "distinct (map bg_id (db_grants D))" and k: "distinct (map requestKey (db_requestNonces D))" using inv by (simp_all add: acs_inv_def)
  have same: "map bg_id (map (\<lambda>b. if P b then revokedGrant t b else b) rows) = map bg_id rows" for P t rows by simp
  have "distinct (map bg_id (db_grants D'))" using conjunct2 [OF acs_op_effect [OF assms(1)]]
  proof (elim disjE exE conjE)
    fix t h i assume "db_grants D' = map (\<lambda>b. if bg_id b = h \<and> bg_accountId b = i then revokedGrant t b else b) (db_grants D)"
    then show ?thesis using g by (simp only: same)
  qed (use g in auto)
  moreover have "distinct (map requestKey (db_requestNonces D'))"
    using assms(1)
  proof cases
    case (Enroll limits clock account request p)
    show ?thesis
    proof (cases p)
      case (Inr q)
      then have "enroll_acs limits clock account request D = (Inr q, D')" using Enroll by simp
      then show ?thesis
      proof (rule enroll_acs_Inr)
        fix v D1 assume v: "enrollAccountInTransaction (clock 0) account limits D = Inr (v, D1)" and c: "consumeNonce_acs limits (request\<lparr>vr_now := clock 1\<rparr>) D1 = Inr D'"
        have "db_requestNonces D1 = db_requestNonces D" using enrollAccount_frame [OF v] by auto
        then show ?thesis using consumeNonce_acs_distinct [OF c] k by simp
      qed
    qed (use Enroll acs_failed(1) k in blast)
  next
    case (Authorize limits clock request p)
    show ?thesis
    proof (cases p)
      case (Inr q)
      then have "authorizeAndConsume_acs limits clock request D = (Inr q, D')" using Authorize by simp
      then show ?thesis by (rule authorize_acs_Inr) (rule consumeNonce_acs_distinct [OF _ k])
    qed (use Authorize acs_failed(2) k in blast)
  next
    case (Cleanup textLe clock now limit n)
    then show ?thesis using k by (cases n) (auto simp: cleanupExpiredNonces_acs_def attempt_eq_Inl attempt_eq_Inr Let_def distinct_map_filter)
  next
    case (UpdateProfile clock i profile now a)
    from others_nonces(1) [OF this] show ?thesis using k by simp
  next
    case (RegisterBot limits clock grant b)
    from others_nonces(2) [OF this] show ?thesis using k by simp
  next
    case (RevokeBot clock i g now b)
    from others_nonces(3) [OF this] show ?thesis using k by simp
  qed
  ultimately show ?thesis by (simp add: acs_inv_def)
qed

section \<open>An account and its bot in the database\<close>

definition sampleClock :: "nat \<Rightarrow> int" where
  "sampleClock n = (if n = 0 then 100 else 210)"

definition sampleNonceRow :: "char \<Rightarrow> RequestNonceRow" where
  "sampleNonceRow c = \<lparr>qn_accountId = ''acct'', qn_nonce = hex64 c, qn_expiresAt = 300\<rparr>"

definition sampleAccounts :: Database where
  "sampleAccounts = emptyDatabase\<lparr>db_accounts := [sampleAccount], db_requestNonces := [sampleNonceRow CHR ''1'']\<rparr>"

definition sampleBots :: Database where
  "sampleBots = sampleAccounts\<lparr>db_grants := [sampleGrant]\<rparr>"

definition sampleBotUsed :: Database where
  "sampleBotUsed = sampleBots\<lparr>db_requestNonces := [sampleNonceRow CHR ''1'', sampleNonceRow CHR ''2'']\<rparr>"

definition sampleBotRevoked :: Database where
  "sampleBotRevoked = sampleBotUsed\<lparr>db_grants := [sampleRevoked]\<rparr>"

lemmas sample_tables = sampleAccounts_def sampleBots_def sampleBotUsed_def sampleBotRevoked_def emptyDatabase_def

lemma sample_requestAt: "s \<in> set ''ab'' \<Longrightarrow> g \<in> {None, Some ''g1''} \<Longrightarrow> n \<in> set ''123'' \<Longrightarrow> requestAt (sampleRequest s g n) 210 = Inr (sampleRequest s g n)"
  using sample_request_ok [of s g n] by (simp add: requestAt_def sampleRequest_def)

lemma sample_fields: "vr_accountId (sampleRequest s g n) = ''acct''" "vr_grantId (sampleRequest s g n) = g" "vr_signer (sampleRequest s g n) = hex40 s"
  "vr_nonce (sampleRequest s g n) = hex64 n" "vr_expiresAt (sampleRequest s g n) = 300" "vr_now (sampleRequest s g n) = 210"
  "ac_id sampleAccount = ''acct''" "ac_ownerAddress sampleAccount = hex40 CHR ''a''" "bg_id sampleGrant = ''g1''" "bg_accountId sampleGrant = ''acct''"
  by (simp_all add: sampleRequest_def sampleAccount_def sampleGrant_def)

lemma sample_consume:
  assumes "db_requestNonces D = rows" and "length rows \<le> 1" and "n \<in> set ''123''" and "\<forall>row \<in> set rows. qn_nonce row \<noteq> hex64 n"
  shows "consumeNonce_acs sampleLimits (sampleRequest s g n) D = Inr (D\<lparr>db_requestNonces := rows @ [sampleNonceRow n]\<rparr>)"
proof -
  have "noncesOf ''acct'' D \<le> 1" using le_trans [OF length_filter_le assms(2)] assms(1) by (simp add: noncesOf_def)
  then have "nonceRoom sampleLimits (sampleRequest s g n) D"
    by (cases g) (simp_all add: nonceRoom_def sample_fields nonceCapacity_def sampleLimits_def reservedNonces_def OWNER_NONCE_RESERVE_def)
  moreover have "requestNonceRow ''acct'' (hex64 n) D = None" using assms(1,4) by (auto simp: requestNonceRow_def find_None_iff)
  ultimately show ?thesis using assms(1,3) by (simp add: consumeNonce_acs_def insertRequestNonce_def Let_def sample_fields hex64_lower sampleNonceRow_def)
qed

lemma sample_enroll_acs: "\<exists>p. enroll_acs sampleLimits sampleClock sampleAccount (sampleRequest CHR ''a'' None CHR ''1'') emptyDatabase = (Inr p, sampleAccounts)"
proof -
  let ?r = "sampleRequest CHR ''a'' None CHR ''1''" and ?D = "emptyDatabase\<lparr>db_accounts := [sampleAccount]\<rparr>"
  have p: "\<exists>p. principalFor sampleAccount None ?r = Inr p" by (simp add: principalFor_def Let_def sampleAccount_def sampleRequest_def)
  have acc: "sampleAccount\<lparr>ac_ownerAddress := hex40 CHR ''a'', ac_createdAt := 100, ac_updatedAt := 100\<rparr> = sampleAccount" by (simp add: sampleAccount_def)
  have e: "enrollAccountInTransaction 100 sampleAccount sampleLimits emptyDatabase = Inr (sampleAccount, ?D)"
    by (simp add: enrollAccountInTransaction_def sample_account_ok accountRow_def emptyDatabase_def sampleLimits_def Let_def sample_fields hex40_lower acc)
  have c: "consumeNonce_acs sampleLimits ?r ?D = Inr sampleAccounts"
    using sample_consume [of ?D "[]" "CHR ''1''" "CHR ''a''" None] by (simp add: sample_tables)
  show ?thesis using p by (auto simp: enroll_acs_def sample_account_ok sample_request_ok transact_def sample_fields sampleClock_def e sample_requestAt c)
qed

lemma sample_register_acs: "registerBot_acs sampleLimits sampleClock sampleGrant sampleAccounts = (Inr sampleGrant, sampleBots)"
proof -
  have "sampleGrant\<lparr>bg_botAddress := toLowerCase (bg_botAddress sampleGrant), bg_createdAt := 100, bg_revokedAt := None\<rparr> = sampleGrant" "bg_expiresAt sampleGrant = 5000"
    by (simp_all add: sampleGrant_def hex40_lower)
  then show ?thesis
    by (simp add: registerBot_acs_def sample_grant_ok transact_def lockedAccount_def accountRow_def registerBotInTransaction_def getGrant_def grantRow_def sample_tables sample_fields
        assertIdentifier_def sample_ids sampleLimits_def sampleClock_def)
qed

lemma sample_authorize_acs:
  "\<exists>p. authorizeAndConsume_acs sampleLimits (\<lambda>_. 210) (sampleRequest CHR ''b'' (Some ''g1'') CHR ''2'') sampleBots = (Inr p, sampleBotUsed)"
proof -
  let ?r = "sampleRequest CHR ''b'' (Some ''g1'') CHR ''2''"
  have p: "\<exists>p. principalFor sampleAccount (Some sampleGrant) ?r = Inr p"
    by (simp add: principalFor_def grantCovers_def Let_def sampleAccount_def sampleRequest_def sampleGrant_def isCanonicalGrantScopes_iff)
  have c: "consumeNonce_acs sampleLimits ?r sampleBots = Inr sampleBotUsed"
    using sample_consume [of sampleBots "[sampleNonceRow CHR ''1'']" "CHR ''2''" "CHR ''b''" "Some ''g1''"] by (simp add: sample_tables sampleNonceRow_def)
  have l: "lockedAccount ''acct'' sampleBots = Inr sampleAccount" "getAuthorizationGrant (Some ''g1'') sampleBots = Inr (Some sampleGrant)"
    by (simp_all add: lockedAccount_def accountRow_def getAuthorizationGrant_def getGrant_def grantRow_def sample_tables sample_fields assertIdentifier_def sample_ids)
  show ?thesis using p by (auto simp: authorizeAndConsume_acs_def sample_request_ok transact_def sample_fields l sample_requestAt c)
qed

lemma sample_revoke_acs: "revokeBot_acs (\<lambda>_. 250) ''acct'' ''g1'' 250 sampleBotUsed = (Inr sampleRevoked, sampleBotRevoked)"
proof -
  have "revokedGrant 250 sampleGrant = sampleRevoked" by (simp add: revokedGrant_def sampleRevoked_def sampleGrant_def)
  then show ?thesis
    by (simp add: revokeBot_acs_def transact_def lockedAccount_def accountRow_def sample_tables sample_fields auth_checks)
qed

lemma sample_acs: "acs_op emptyDatabase sampleAccounts" "acs_op sampleAccounts sampleBots" "acs_op sampleBots sampleBotUsed" "acs_op sampleBotUsed sampleBotRevoked"
proof -
  show "acs_op emptyDatabase sampleAccounts" using sample_enroll_acs acs_op.Enroll by blast
  show "acs_op sampleAccounts sampleBots" using sample_register_acs by (rule acs_op.RegisterBot)
  show "acs_op sampleBots sampleBotUsed" using sample_authorize_acs acs_op.Authorize by blast
  show "acs_op sampleBotUsed sampleBotRevoked" using sample_revoke_acs by (rule acs_op.RevokeBot)
qed

end
