(* ===== verification/PgSponsorshipProperties.thy ===== *)
theory PgSponsorshipProperties
  imports PgSponsorships PgSessionProperties SponsorshipProperties PgTransactionRefinement PgAccountProperties
begin

text \<open>
  The PostgreSQL sponsorship store does what the in-memory store does (\<open>sps_sim\<close> relates the tables to a state of that store), and the stores together
  over one database: whatever their transactions do, a step of a plan has one transport.
\<close>

section \<open>The tables as a store in memory\<close>

definition sponsorshipRowOk :: "SponsorshipRow \<Rightarrow> bool" where
  "sponsorshipRowOk w \<longleftrightarrow> pr_id w = sr_id (pr_document w) \<and> pr_accountId w = accountId (sr_actor (pr_document w)) \<and>
     pr_principalId w = principalId (sr_actor (pr_document w)) \<and> pr_preparationKey w = sr_preparationKey (pr_document w) \<and>
     pr_submissionKey w = submissionKey (pr_document w)"

definition sponsorshipDocuments :: "SponsorshipRow list \<Rightarrow> (string, SponsorshipRecord) jsmap" where
  "sponsorshipDocuments rows = map (\<lambda>w. (pr_id w, pr_document w)) rows"

definition forwardHolder :: "ForwardNonceKey \<Rightarrow> Database \<Rightarrow> string option" where
  "forwardHolder key D = map_option fw_sponsorshipId (forwardNonceRow key (db_forwardNonces D))"

text \<open>\<open>D\<close> holds what the in-memory store \<open>s\<close> holds.\<close>

definition sps_sim :: "Database \<Rightarrow> SponsorshipStore \<Rightarrow> bool" where
  "sps_sim D s \<longleftrightarrow> sp_records s = sponsorshipDocuments (db_sponsorships D) \<and> (\<forall>w \<in> set (db_sponsorships D). sponsorshipRowOk w) \<and>
     (\<forall>k. js_get (sp_nonces s) (forwardNonceId k) = forwardHolder k D) \<and> rowBound (db_transports D) = boundTo (sp_transports s)"

lemma sps_simD:
  assumes "sps_sim D s"
  shows "sp_records s = sponsorshipDocuments (db_sponsorships D)" and "w \<in> set (db_sponsorships D) \<Longrightarrow> sponsorshipRowOk w"
    and "js_get (sp_nonces s) (forwardNonceId k) = forwardHolder k D" and "rowBound (db_transports D) = boundTo (sp_transports s)"
  using assms unfolding sps_sim_def by blast+

lemma sps_documents: "sps_sim D s \<Longrightarrow> js_get (sp_records s) i = map_option pr_document (sponsorshipRow i D)"
  by (simp add: sps_simD(1) sponsorshipDocuments_def map_of_rows sponsorshipRow_def)

lemma sponsorshipRow_Some: "sponsorshipRow i D = Some w \<Longrightarrow> w \<in> set (db_sponsorships D) \<and> pr_id w = i"
  by (auto simp: sponsorshipRow_def find_Some_iff)

lemma sps_values: "sps_sim D s \<Longrightarrow> js_values (sp_records s) = map pr_document (db_sponsorships D)"
  by (simp add: sps_simD(1) sponsorshipDocuments_def o_def)

lemma find_cong: "(\<And>x. x \<in> set xs \<Longrightarrow> P x = Q x) \<Longrightarrow> List.find P xs = List.find Q xs"
  by (induction xs) auto

lemma sps_prepared: "sps_sim D s \<Longrightarrow> List.find (samePreparation actor k) (js_values (sp_records s)) = map_option pr_document (preparedRow actor k D)"
proof -
  assume sim: "sps_sim D s"
  have "List.find (\<lambda>w. samePreparation actor k (pr_document w)) (db_sponsorships D) = preparedRow actor k D"
    unfolding preparedRow_def by (rule find_cong) (use sps_simD(2) [OF sim] in \<open>auto simp: samePreparation_def sponsorshipRowOk_def\<close>)
  then show ?thesis by (simp add: sps_values [OF sim] find_map)
qed

lemma required_sps_Inr: "required_sps i D = Inr r \<Longrightarrow> \<exists>w. sponsorshipRow i D = Some w \<and> r = pr_document w \<and> assertText i = Inr ()"
  by (auto simp: required_sps_def bindR_eq_Inr clone_sp_Inr split: option.splits)

section \<open>Forwarding nonces in the table\<close>

lemma forwardNonceId_inject [simp]: "forwardNonceId k = forwardNonceId k' \<longleftrightarrow> k = k'"
  by (cases k; cases k') (auto simp: forwardNonceId_def)

lemma insertForwardNonces_row:
  "forwardNonceRow k (fold (insertForwardNonce b) ks rows) = (case forwardNonceRow k rows of Some w \<Rightarrow> Some w
     | None \<Rightarrow> if k \<in> set ks then Some \<lparr>fw_key = k, fw_sponsorshipId = b\<rparr> else None)"
proof (induction ks arbitrary: rows)
  case (Cons a ks)
  have "forwardNonceRow k (insertForwardNonce b a rows) = (case forwardNonceRow k rows of Some w \<Rightarrow> Some w
     | None \<Rightarrow> if k = a then Some \<lparr>fw_key = k, fw_sponsorshipId = b\<rparr> else None)"
    by (auto simp: insertForwardNonce_def forwardNonceRow_def find_append split: option.splits)
  then show ?case using Cons [of "insertForwardNonce b a rows"] by (auto split: option.splits)
qed (simp split: option.splits)

lemma claimForwardNonces_Inr:
  assumes "claimForwardNonces ks b D = Inr D'"
  shows "\<exists>rows. D' = D\<lparr>db_forwardNonces := rows\<rparr>" and "forwardHolder k D' = (if k \<in> set ks then Some b else forwardHolder k D)"
    and "k \<in> set ks \<Longrightarrow> forwardHolder k D \<in> {None, Some b}"
proof -
  define rows where "rows = fold (insertForwardNonce b) (sort_by fk_le ks) (db_forwardNonces D)"
  have D': "D' = D\<lparr>db_forwardNonces := rows\<rparr>" and held: "\<forall>row \<in> set (reservedForwardNonces ks rows). fw_sponsorshipId row = b"
    using assms by (auto simp: claimForwardNonces_def Let_def bindR_eq_Inr ensure_eq_Inr list_ex_iff rows_def)
  show "\<exists>rows. D' = D\<lparr>db_forwardNonces := rows\<rparr>" using D' by blast
  have row: "forwardNonceRow k rows = (case forwardNonceRow k (db_forwardNonces D) of Some w \<Rightarrow> Some w
     | None \<Rightarrow> if k \<in> set ks then Some \<lparr>fw_key = k, fw_sponsorshipId = b\<rparr> else None)" for k
    by (simp add: rows_def insertForwardNonces_row)
  have ours: "fw_sponsorshipId w = b" if "k \<in> set ks" "forwardNonceRow k rows = Some w" for k w
    using that held by (auto simp: reservedForwardNonces_def forwardNonceRow_def dest!: find_SomeD)
  show "forwardHolder k D' = (if k \<in> set ks then Some b else forwardHolder k D)"
    using row [of k] ours [of k] by (auto simp: forwardHolder_def D' split: option.splits)
  show "forwardHolder k D \<in> {None, Some b}" if "k \<in> set ks"
    using row [of k] ours [OF that] by (auto simp: forwardHolder_def split: option.splits)
qed

section \<open>Saving\<close>

definition savedSponsorships :: "SponsorshipRecord \<Rightarrow> SponsorshipRow list \<Rightarrow> SponsorshipRow list" where
  "savedSponsorships r rows = map (\<lambda>w. if pr_id w = sr_id r then w\<lparr>pr_document := r, pr_submissionKey := submissionKey r\<rparr> else w) rows"

lemma save_sps_Inr:
  assumes "save_sps r D = Inr (x, D')"
  shows "x = r" "D' = D\<lparr>db_sponsorships := savedSponsorships r (db_sponsorships D)\<rparr>" "cloneRecord_sp r = Inr r"
  using assms by (auto simp: save_sps_def Let_def bindR_eq_Inr clone_sp_Inr savedSponsorships_def submissionKey_def)

text \<open>Saving a record that keeps its identity keeps the two stores alike.\<close>

lemma sps_sim_save:
  assumes sim: "sps_sim D s" and inv: "sp_inv s" and g: "js_get (sp_records s) i = Some x" and idn: "sp_identity r = sp_identity x"
    and s': "sp_records s' = js_set i r (sp_records s)" and D': "db_sponsorships D' = savedSponsorships r (db_sponsorships D)"
    and n: "\<And>k. js_get (sp_nonces s') (forwardNonceId k) = forwardHolder k D'" and t: "rowBound (db_transports D') = boundTo (sp_transports s')"
  shows "sps_sim D' s'"
proof -
  note d = sp_identityD [OF idn]
  have i: "sr_id r = i" using sp_invD(1) [OF inv g] d by simp
  have "js_wf (sp_records s)" using inv by (simp add: sp_inv_def)
  then have ids: "distinct (map pr_id (db_sponsorships D))" by (simp add: sps_simD(1) [OF sim] sponsorshipDocuments_def o_def)
  from g obtain w where w: "sponsorshipRow i D = Some w" "pr_document w = x" using sps_documents [OF sim] by auto
  note mem = sponsorshipRow_Some [OF w(1)]
  have "sponsorshipDocuments (savedSponsorships r (db_sponsorships D)) = js_set i r (sponsorshipDocuments (db_sponsorships D))"
    unfolding sponsorshipDocuments_def savedSponsorships_def i by (rule updated_rows [OF ids]) (use mem in auto)
  then have docs: "sp_records s' = sponsorshipDocuments (db_sponsorships D')" by (simp add: s' D' sps_simD(1) [OF sim])
  have rows: "sponsorshipRowOk v" if v: "v \<in> set (db_sponsorships D')" for v
  proof -
    obtain u where u: "u \<in> set (db_sponsorships D)" "v = (if pr_id u = i then u\<lparr>pr_document := r, pr_submissionKey := submissionKey r\<rparr> else u)"
      using v i by (auto simp: D' savedSponsorships_def)
    show ?thesis
    proof (cases "pr_id u = i")
      case True
      then have "u = w" using ids u(1) mem by (metis distinct_map inj_onD)
      then show ?thesis using u(2) True sps_simD(2) [OF sim u(1)] w(2) d by (simp add: sponsorshipRowOk_def)
    qed (use u sps_simD(2) [OF sim] in simp)
  qed
  show ?thesis unfolding sps_sim_def using docs rows n t by blast
qed

section \<open>Every transaction is an operation of the in-memory store\<close>

lemma insertSponsorship_Inr:
  "insertSponsorship r D = Inr D' \<longleftrightarrow> length (sr_requests r) \<le> 4 \<and> sponsorshipRow (sr_id r) D = None \<and>
     accountId (sr_actor r) \<in> ac_id ` set (db_accounts D) \<and> list_ex (\<lambda>row. pw_id row = sr_planId r) (db_plans D) \<and>
     D' = D\<lparr>db_sponsorships := db_sponsorships D @ [\<lparr>pr_id = sr_id r, pr_accountId = accountId (sr_actor r), pr_principalId = principalId (sr_actor r),
        pr_planId = sr_planId r, pr_preparationKey = sr_preparationKey r, pr_submissionKey = None, pr_document = r\<rparr>]\<rparr>"
  by (auto simp: insertSponsorship_def bindR_eq_Inr ensure_eq_Inr)

lemma create_sps_sim:
  assumes sim: "sps_sim D s" and c: "create_sps active clock input now D = (Inr r, D')"
  shows "\<exists>s'. create_sp admits (max now (clock 0) - now) input now s = (Inr r, s') \<and> sps_sim D' s'"
proof -
  have n: "assertNew_sp input now = Inr ()" "cloneRecord_sp input = Inr input"
    using c by (auto simp: create_sps_def attempt_eq_Inr clone_sp_Inr)
  note t = c [unfolded create_sps_def, simplified n attempt_simps transact_Inr]
  show ?thesis
  proof (cases "preparedRow (sr_actor input) (sr_preparationKey input) D")
    case (Some w)
    then have "same (sr_inputHash (pr_document w)) (sr_inputHash input)" "cloneRecord_sp (pr_document w) = Inr (pr_document w)" "r = pr_document w" "D' = D"
      using t by (auto simp: bindR_eq_Inr ensure_eq_Inr clone_sp_Inr)
    then show ?thesis using n sim Some by (simp add: create_sp_def sps_prepared)
  next
    case None
    have f: "assertNew_sp input (max now (clock 0)) = Inr ()" "insertSponsorship input D = Inr D'" "r = input"
      "length (filter (\<lambda>row. pr_accountId row = accountId (sr_actor input)) (db_sponsorships D)) < recordsPerAccount_sp"
      using t None by (auto simp: bindR_eq_Inr ensure_eq_Inr clone_sp_Inr not_le)
    note i = f(2) [unfolded insertSponsorship_Inr]
    have g: "js_get (sp_records s) (sr_id input) = None" using sps_documents [OF sim] i by simp
    have "filter (\<lambda>x. accountId (sr_actor x) = a) (map pr_document (db_sponsorships D)) = map pr_document (filter (\<lambda>w. pr_accountId w = a) (db_sponsorships D))" for a
      using sps_simD(2) [OF sim] by (auto simp: filter_map o_def sponsorshipRowOk_def intro!: arg_cong [where f = "map pr_document"] filter_cong)
    then have cnt: "count_values (\<lambda>x. accountId (sr_actor x) = accountId (sr_actor input)) (sp_records s) < recordsPerAccount_sp"
      using f(4) by (simp add: count_values_def sps_values [OF sim])
    have "sr_submission input = None" using n(1) by (auto simp: assertNew_sp_def bindR_eq_Inr ensure_eq_Inr)
    then have "sps_sim D' (s\<lparr>sp_records := js_set (sr_id input) input (sp_records s)\<rparr>)"
      using i sps_simD [OF sim] js_set_fresh [OF g] by (auto simp: sps_sim_def sponsorshipDocuments_def sponsorshipRowOk_def submissionKey_def forwardHolder_def)
    then show ?thesis using n f g cnt None by (simp add: create_sp_def sps_prepared [OF sim] Let_def)
  qed
qed

lemma claimTransport_sps_Inr:
  assumes "claimTransport_sps r D = Inr D1"
  obtains T where "claimPostgresTransport (sr_planId r) (map pf_stepIndex (sr_requests r)) Relayr (sr_id r) (db_transports D) = (Inr (), T)" "D1 = D\<lparr>db_transports := T\<rparr>"
  using assms by (auto simp: claimTransport_sps_def split: prod.splits sum.splits)

lemma claimed_sp_dispatch: "claimed_sp r input = Inr (x, dispatch) \<Longrightarrow> dispatch \<longleftrightarrow> sr_submission r = None"
  by (erule claimed_sp_cases) simp_all

text \<open>What a transaction that hands a preparation to the relayer went through.\<close>

lemma claim_sps_True:
  assumes "claim_sps active clock input D = (Inr (r, True), D')"
  obtains w ks D1 D2 where "assertClaim_sp input = Inr ()" "clone_sp json_of_SponsorshipClaim input = Inr input"
    "active 0 (sc_actor input) [Relay] (sc_now input div 1000) = Inr ()" "active 1 (sc_actor input) [Relay] (clock 0 div 1000) = Inr ()"
    "sponsorshipRow (sc_id input) D = Some w" "assertText (sc_id input) = Inr ()"
    "\<not> list_ex (\<lambda>row. pr_accountId row = accountId (sc_actor input) \<and> pr_principalId row = principalId (sc_actor input) \<and>
       pr_submissionKey row = Some (sc_key input) \<and> pr_id row \<noteq> sc_id input) (db_sponsorships D)"
    "forwardNonceKeys (sr_requests (pr_document w)) = Inr ks" "claimTransport_sps (pr_document w) D = Inr D1"
    "claimForwardNonces ks (sr_id (pr_document w)) D1 = Inr D2"
    "claimed_sp (pr_document w) (input\<lparr>sc_now := clock 1\<rparr>) = Inr (r, True)" "save_sps r D2 = Inr (r, D')"
proof -
  have n: "assertClaim_sp input = Inr ()" "clone_sp json_of_SponsorshipClaim input = Inr input"
    using assms by (auto simp: claim_sps_def attempt_eq_Inr clone_sp_Inr)
  note t = assms [unfolded claim_sps_def, simplified n attempt_simps transact_Inr Let_def]
  from t obtain w where w: "sponsorshipRow (sc_id input) D = Some w" "required_sps (sc_id input) D = Inr (pr_document w)" "assertText (sc_id input) = Inr ()"
    by (auto simp: bindR_eq_Inr dest: required_sps_Inr)
  from t w(2) obtain initial dispatch where i: "claimed_sp (pr_document w) (input\<lparr>sc_now := clock 0\<rparr>) = Inr (initial, dispatch)" and dispatch
    by (auto simp: bindR_eq_Inr split: if_splits)
  with t w(2) obtain ks D1 D2 result again where r: "active 0 (sc_actor input) [Relay] (sc_now input div 1000) = Inr ()"
    "active 1 (sc_actor input) [Relay] (clock 0 div 1000) = Inr ()"
    "\<not> list_ex (\<lambda>row. pr_accountId row = accountId (sc_actor input) \<and> pr_principalId row = principalId (sc_actor input) \<and>
       pr_submissionKey row = Some (sc_key input) \<and> pr_id row \<noteq> sc_id input) (db_sponsorships D)"
    "forwardNonceKeys (sr_requests (pr_document w)) = Inr ks" "claimTransport_sps (pr_document w) D = Inr D1"
    "claimForwardNonces ks (sr_id (pr_document w)) D1 = Inr D2"
    "claimed_sp (pr_document w) (input\<lparr>sc_now := clock 1\<rparr>) = Inr (result, again)" "save_sps result D2 = Inr (r, D')"
    by (auto simp: bindR_eq_Inr ensure_eq_Inr)
  moreover have "result = r" using save_sps_Inr(1) [OF r(8)] by simp
  moreover have again using claimed_sp_dispatch [OF r(7)] claimed_sp_dispatch [OF i] \<open>dispatch\<close> by simp
  ultimately show ?thesis using n w by (intro that [of w ks D1 D2]) simp_all
qed

lemma claim_sps_False:
  assumes "claim_sps active clock input D = (Inr (r, False), D')"
  shows "D' = D"
proof -
  have n: "assertClaim_sp input = Inr ()" "clone_sp json_of_SponsorshipClaim input = Inr input"
    using assms by (auto simp: claim_sps_def attempt_eq_Inr clone_sp_Inr)
  note t = assms [unfolded claim_sps_def, simplified n attempt_simps transact_Inr Let_def]
  then show ?thesis by (auto simp: bindR_eq_Inr dest!: claimed_sp_dispatch split: if_splits)
qed

lemma sps_failed:
  "create_sps guard clock input now D = (Inl e, D') \<Longrightarrow> D' = D"
  "claim_sps active clock claim D = (Inl e, D') \<Longrightarrow> D' = D"
  "settle_sps sha256 i h offer rt b D = (Inl e, D') \<Longrightarrow> D' = D"
  "observe_sps i revision observations D = (Inl e, D') \<Longrightarrow> D' = D"
  by (auto simp: create_sps_def claim_sps_def settle_sps_def observe_sps_def Let_def attempt_eq_Inl transact_Inl)

lemma claim_sps_sim_True:
  assumes sim: "sps_sim D s" and inv: "sp_inv s" and c: "claim_sps active clock input D = (Inr (r, True), D')"
  shows "\<exists>s'. claim_sp admits (clock 1 - sc_now input) input s = (Inr (r, True), s') \<and> sps_sim D' s'"
  using c
proof (rule claim_sps_True)
  fix w :: SponsorshipRow and ks D1 D2
  let ?x = "pr_document w"
  assume n: "assertClaim_sp input = Inr ()" and w: "sponsorshipRow (sc_id input) D = Some w"
    and once: "\<not> list_ex (\<lambda>row. pr_accountId row = accountId (sc_actor input) \<and> pr_principalId row = principalId (sc_actor input) \<and>
       pr_submissionKey row = Some (sc_key input) \<and> pr_id row \<noteq> sc_id input) (db_sponsorships D)"
    and ks: "forwardNonceKeys (sr_requests ?x) = Inr ks" and tr: "claimTransport_sps ?x D = Inr D1"
    and fn: "claimForwardNonces ks (sr_id ?x) D1 = Inr D2"
    and cl: "claimed_sp ?x (input\<lparr>sc_now := clock 1\<rparr>) = Inr (r, True)" and save: "save_sps r D2 = Inr (r, D')"
  obtain T where T: "claimPostgresTransport (sr_planId ?x) (map pf_stepIndex (sr_requests ?x)) Relayr (sr_id ?x) (db_transports D) = (Inr (), T)"
    "D1 = D\<lparr>db_transports := T\<rparr>" using tr by (rule claimTransport_sps_Inr)
  obtain t where t: "claim_transport (sr_planId ?x) (map pf_stepIndex (sr_requests ?x)) Relayr (sr_id ?x) (sp_transports s) = (Inr (), t)" "rowBound T = boundTo t"
    using transports_agree [OF sps_simD(4) [OF sim], of "sr_planId ?x" "map pf_stepIndex (sr_requests ?x)" Relayr "sr_id ?x"] T(1) by (metis fst_conv snd_conv prod.collapse)
  have g: "js_get (sp_records s) (sc_id input) = Some ?x" using sps_documents [OF sim] w by simp
  have i: "sr_id ?x = sc_id input" using sp_invD(1) [OF inv g] .
  have u: "\<not> list_ex (\<lambda>x. sr_id x \<noteq> sc_id input \<and> accountId (sr_actor x) = accountId (sc_actor input) \<and> principalId (sr_actor x) = principalId (sc_actor input) \<and>
      (case sr_submission x of None \<Rightarrow> False | Some b \<Rightarrow> ss_key b = sc_key input)) (js_values (sp_records s))"
    using once sps_simD(2) [OF sim] by (fastforce simp: sps_values [OF sim] list_ex_iff sponsorshipRowOk_def submissionKey_def split: option.splits)
  have holder: "forwardHolder k D1 = forwardHolder k D" for k by (simp add: T(2) forwardHolder_def)
  note fw = claimForwardNonces_Inr [OF fn, unfolded holder]
  have free: "\<forall>k \<in> set ks. js_get (sp_nonces s) (forwardNonceId k) \<in> {None, Some (sr_id ?x)}" using fw(3) sps_simD(3) [OF sim] by simp
  have neg: "(\<not> (case v of None \<Rightarrow> False | Some b \<Rightarrow> b \<noteq> j)) \<longleftrightarrow> v \<in> {None, Some j}" for v :: "string option" and j by (cases v) auto
  define s1 where "s1 = s\<lparr>sp_transports := t, sp_nonces := fold (\<lambda>nonce. js_set nonce (sr_id ?x)) (map forwardNonceId ks) (sp_nonces s)\<rparr>"
  have res: "reserveForward ?x s = (Inr (), s1)"
  proof -
    have "forR (\<lambda>nonce. ensure (\<not> (case js_get (sp_nonces s) nonce of None \<Rightarrow> False | Some binding \<Rightarrow> binding \<noteq> sr_id ?x)) forwardNonceConflict) (map forwardNonceId ks) = Inr ()"
      unfolding neg using free by (simp add: forR_eq_Inr ensure_eq_Inr)
    then show ?thesis by (simp add: reserveForward_def Let_def ks t(1) s1_def)
  qed
  note sv = save_sps_Inr [OF save]
  let ?s = "s1\<lparr>sp_records := js_set (sc_id input) r (sp_records s)\<rparr>"
  have run: "claim_sp admits (clock 1 - sc_now input) input s = (Inr (r, True), ?s)"
    using n g u cl sv(3) res i by (simp add: claim_sp_def) (simp add: s1_def)
  have idn: "sp_identity r = sp_identity ?x" using sp_change_revision [OF sp_change.Claimed [OF cl]] by simp
  have "sps_sim D' ?s"
  proof (rule sps_sim_save [OF sim inv g idn])
    show "db_sponsorships D' = savedSponsorships r (db_sponsorships D)" using sv(2) fw(1) T(2) by auto
    show "rowBound (db_transports D') = boundTo (sp_transports ?s)" using sv(2) fw(1) T(2) t(2) by (auto simp: s1_def)
    show "js_get (sp_nonces ?s) (forwardNonceId k) = forwardHolder k D'" for k
    proof -
      have "forwardHolder k D' = forwardHolder k D2" by (simp add: sv(2) forwardHolder_def)
      moreover have "forwardNonceId k \<in> set (map forwardNonceId ks) \<longleftrightarrow> k \<in> set ks" by auto
      ultimately show ?thesis using js_get_fold_set [of "sr_id ?x" "map forwardNonceId ks" "sp_nonces s" "forwardNonceId k"] fw(2) [of k] sps_simD(3) [OF sim, of k]
        by (simp add: s1_def)
    qed
  qed simp
  with run show ?thesis by blast
qed

lemma settle_sps_sim:
  assumes sim: "sps_sim D s" and inv: "sp_inv s" and c: "settle_sps sha256 i h offer rt b D = (Inr r, D')"
  shows "\<exists>s'. settle_sp sha256 i h offer rt b s = (Inr r, s') \<and> sps_sim D' s'"
proof -
  define runtime where "runtime = (case rt of None \<Rightarrow> True | Some v \<Rightarrow> v)"
  define binding where "binding = (case b of None \<Rightarrow> runtime | Some v \<Rightarrow> v)"
  note flags = runtime_def [symmetric] binding_def [symmetric]
  obtain w x where w: "sponsorshipRow i D = Some w" "settled_sp sha256 (pr_document w) h offer runtime binding = Inr x" "save_sps x D = Inr (r, D')"
    using c by (auto simp: settle_sps_def transact_Inr bindR_eq_Inr Let_def flags dest!: required_sps_Inr)
  note sv = save_sps_Inr [OF w(3)]
  have g: "js_get (sp_records s) i = Some (pr_document w)" using sps_documents [OF sim] w(1) by simp
  have idn: "sp_identity r = sp_identity (pr_document w)" using sp_change_revision [OF sp_change.Settled [OF w(2)]] sv(1) by simp
  let ?s = "s\<lparr>sp_records := js_set i r (sp_records s)\<rparr>"
  have "settle_sp sha256 i h offer rt b s = (Inr r, ?s)" using w(2) g sv by (simp add: settle_sp_def Let_def flags)
  moreover have "sps_sim D' ?s"
    by (rule sps_sim_save [OF sim inv g idn]) (use sv sps_simD(3,4) [OF sim] in \<open>simp_all add: forwardHolder_def\<close>)
  ultimately show ?thesis by blast
qed

lemma observe_sps_sim:
  assumes sim: "sps_sim D s" and inv: "sp_inv s" and c: "observe_sps i revision observations D = (Inr r, D')"
  shows "\<exists>s'. observe_sp i revision observations s = (Inr r, s') \<and> sps_sim D' s'"
proof -
  obtain w where w: "sponsorshipRow i D = Some w" "required_sps i D = Inr (pr_document w)" "cloneRecord_sp (pr_document w) = Inr (pr_document w)"
    using c by (auto simp: observe_sps_def transact_Inr bindR_eq_Inr required_sps_def clone_sp_Inr split: option.splits)
  let ?x = "pr_document w"
  have g: "js_get (sp_records s) i = Some ?x" using sps_documents [OF sim] w(1) by simp
  show ?thesis
  proof (cases "sr_revision ?x = revision")
    case False
    then have "r = ?x" "D' = D" using c w(2) by (auto simp: observe_sps_def transact_Inr)
    then show ?thesis using sim g w(3) False by (simp add: observe_sp_def)
  next
    case True
    then have save: "save_sps (?x\<lparr>sr_revision := revision + 1, sr_observations := observations\<rparr>) D = Inr (r, D')"
      using c w(2) by (simp add: observe_sps_def transact_Inr)
    note sv = save_sps_Inr [OF save]
    have idn: "sp_identity r = sp_identity ?x" by (simp add: sv(1) sp_identity_def)
    let ?s = "s\<lparr>sp_records := js_set i r (sp_records s)\<rparr>"
    have "observe_sp i revision observations s = (Inr r, ?s)" using g sv True by (simp add: observe_sp_def Let_def)
    moreover have "sps_sim D' ?s"
      by (rule sps_sim_save [OF sim inv g idn]) (use sv sps_simD(3,4) [OF sim] in \<open>simp_all add: forwardHolder_def\<close>)
    ultimately show ?thesis by blast
  qed
qed

section \<open>What the store leaves alone\<close>

definition sponsorshipFree :: "Database \<Rightarrow> Database" where
  "sponsorshipFree D = D\<lparr>db_transports := [], db_sponsorships := [], db_forwardNonces := []\<rparr>"

inductive sps_op :: "(string \<Rightarrow> string) \<Rightarrow> Database \<Rightarrow> Database \<Rightarrow> bool" for sha256 where
  Create: "create_sps active clock input now D = (r, D') \<Longrightarrow> sps_op sha256 D D'"
| Claim: "claim_sps actives clock claim D = (rd, D') \<Longrightarrow> sps_op sha256 D D'"
| Settle: "settle_sps sha256 i h answer runtime binding D = (r, D') \<Longrightarrow> sps_op sha256 D D'"
| Observe: "observe_sps i revision observations D = (r, D') \<Longrightarrow> sps_op sha256 D D'"

lemma save_sps_free: "save_sps r D = Inr (x, D') \<Longrightarrow> sponsorshipFree D' = sponsorshipFree D \<and> db_transports D' = db_transports D"
  by (drule save_sps_Inr(2)) (simp add: sponsorshipFree_def)

lemma claim_sps_free:
  assumes "claim_sps active clock input D = (Inr (r, True), D')"
  shows "pgLedger.ledger_step (db_transports D) (db_transports D') \<and> sponsorshipFree D' = sponsorshipFree D"
  using assms
proof (rule claim_sps_True)
  fix w ks D1 D2
  assume "claimTransport_sps (pr_document w) D = Inr D1" and fn: "claimForwardNonces ks (sr_id (pr_document w)) D1 = Inr D2" and save: "save_sps r D2 = Inr (r, D')"
  then obtain T where "claimPostgresTransport (sr_planId (pr_document w)) (map pf_stepIndex (sr_requests (pr_document w))) Relayr (sr_id (pr_document w)) (db_transports D) = (Inr (), T)"
    "D1 = D\<lparr>db_transports := T\<rparr>" by (elim claimTransport_sps_Inr)
  then show ?thesis using save_sps_free [OF save] claimForwardNonces_Inr(1) [OF fn] pgLedger.ledger_stepI by (auto simp: sponsorshipFree_def)
qed

lemma sps_op_free: "sps_op sha256 D D' \<Longrightarrow> pgLedger.ledger_step (db_transports D) (db_transports D') \<and> sponsorshipFree D' = sponsorshipFree D"
proof (induction rule: sps_op.induct)
  case (Create active clock input now D r D')
  show ?case
  proof (cases r)
    case (Inl e)
    then show ?thesis using Create sps_failed(1) no_claim by blast
  next
    case (Inr x)
    then show ?thesis using Create no_claim
      by (auto simp: create_sps_def attempt_eq_Inr transact_Inr bindR_eq_Inr insertSponsorship_Inr sponsorshipFree_def split: option.splits)
  qed
next
  case (Claim actives clock claim D rd D')
  show ?case
  proof (cases rd)
    case (Inl e)
    then show ?thesis using Claim sps_failed(2) no_claim by blast
  next
    case (Inr xd)
    obtain x dispatch where xd: "xd = (x, dispatch)" by (cases xd)
    show ?thesis
    proof (cases dispatch)
      case True
      then have "claim_sps actives clock claim D = (Inr (x, True), D')" using Claim Inr xd by simp
      then show ?thesis by (rule claim_sps_free)
    next
      case False
      then have "claim_sps actives clock claim D = (Inr (x, False), D')" using Claim Inr xd by simp
      then have "D' = D" by (rule claim_sps_False)
      then show ?thesis using no_claim by simp
    qed
  qed
next
  case (Settle i h answer runtime binding D r D')
  show ?case
  proof (cases r)
    case (Inl e)
    then show ?thesis using Settle sps_failed(3) no_claim by blast
  next
    case (Inr x)
    then show ?thesis using Settle no_claim by (auto dest!: save_sps_free simp: settle_sps_def Let_def transact_Inr bindR_eq_Inr)
  qed
next
  case (Observe i revision observations D r D')
  show ?case
  proof (cases r)
    case (Inl e)
    then show ?thesis using Observe sps_failed(4) no_claim by blast
  next
    case (Inr x)
    then show ?thesis using Observe no_claim by (auto dest!: save_sps_free simp: observe_sps_def transact_Inr bindR_eq_Inr split: if_splits)
  qed
qed

section \<open>All stores over one database\<close>

text \<open>The registry of wallet bindings changes its own table; guards and clocks answer anything.\<close>

inductive rest_step :: "viem \<Rightarrow> host \<Rightarrow> (string \<Rightarrow> string) \<Rightarrow> Database \<Rightarrow> Database \<Rightarrow> bool" for V H sha256 where
  Transaction: "txs_op D D' \<Longrightarrow> rest_step V H sha256 D D'"
| Operation: "pg_op V H D D' \<Longrightarrow> rest_step V H sha256 D D'"
| Session: "pgs_op H D D' \<Longrightarrow> rest_step V H sha256 D D'"
| Sponsorship: "sps_op sha256 D D' \<Longrightarrow> rest_step V H sha256 D D'"
| Account: "acs_op D D' \<Longrightarrow> rest_step V H sha256 D D'"
| OtherTables: "rest_step V H sha256 D (D\<lparr>db_bindings := bindings\<rparr>)"

lemma sponsorshipFreeD: "sponsorshipFree D' = sponsorshipFree D \<Longrightarrow> db_operations D' = db_operations D \<and> db_operationNonces D' = db_operationNonces D \<and> db_plans D' = db_plans D \<and>
    db_planIdempotency D' = db_planIdempotency D \<and> db_transactionNonces D' = db_transactionNonces D"
  by (cases D; cases D') (simp add: sponsorshipFree_def)

lemma accountFreeD: "accountFree D' = accountFree D \<Longrightarrow> D' = D\<lparr>db_accounts := db_accounts D', db_grants := db_grants D', db_requestNonces := db_requestNonces D'\<rparr>"
  by (cases D; cases D') (simp add: accountFree_def)

lemma account_tables:
  assumes "acs_op D D'"
  shows "db_transports D' = db_transports D \<and> db_operations D' = db_operations D \<and> db_operationNonces D' = db_operationNonces D \<and> db_sponsorships D' = db_sponsorships D \<and>
    db_forwardNonces D' = db_forwardNonces D \<and> db_plans D' = db_plans D \<and> db_planIdempotency D' = db_planIdempotency D \<and> db_transactionNonces D' = db_transactionNonces D"
proof -
  have "accountFree D' = accountFree D" using acs_op_effect [OF assms] by simp
  then show ?thesis by (cases D; cases D') (simp add: accountFree_def)
qed

text \<open>Each store sees a run of its own in which the others claim transports.\<close>

lemma rest_pg_step: "rest_step V H sha256 D D' \<Longrightarrow> pg_step V H D D'"
proof (induction rule: rest_step.induct)
  case (Transaction D D')
  note f = txs_op_free [OF this]
  show ?case using f transactionFreeD [OF f [THEN conjunct2]] by (intro pg_step_others) simp_all
next
  case (Operation D D')
  then show ?case by (rule pg_step.Operation)
next
  case (Session D D')
  from sessionFreeD [OF pgs_op_free [OF this]] show ?case using no_claim by (intro pg_step_others) simp_all
next
  case (Sponsorship D D')
  note f = sps_op_free [OF this]
  show ?case using f sponsorshipFreeD [OF f [THEN conjunct2]] by (intro pg_step_others) simp_all
next
  case (Account D D')
  from account_tables [OF this] show ?case using no_claim by (intro pg_step_others) simp_all
next
  case (OtherTables D bindings)
  show ?case using no_claim by (intro pg_step_others) simp_all
qed

lemma rest_pg_run: "(rest_step V H sha256)\<^sup>*\<^sup>* D D' \<Longrightarrow> (pg_step V H)\<^sup>*\<^sup>* D D'"
  by (induction rule: rtranclp_induct) (auto dest: rest_pg_step)

lemma db_step_others:
  assumes "pgLedger.ledger_step (db_transports D) (db_transports D')"
    and "D' = D\<lparr>db_transports := T, db_accounts := accounts, db_plans := plans, db_planIdempotency := planIdempotency, db_transactionNonces := transactionNonces,
      db_bindings := bindings, db_grants := grants, db_requestNonces := requestNonces, db_sponsorships := sponsorships, db_forwardNonces := forwardNonces\<rparr>"
  shows "db_step V H D D'"
proof -
  obtain i idx t b u where c: "claimPostgresTransport i idx t b (db_transports D) = (u, db_transports D')"
    using assms(1) unfolding pgLedger.ledger_step_def by blast
  show ?thesis using db_step.OtherTables [OF c] assms(2) by simp
qed

lemma rest_db_step: "rest_step V H sha256 D D' \<Longrightarrow> db_step V H D D'"
proof (induction rule: rest_step.induct)
  case (Transaction D D')
  note f = txs_op_free [OF this]
  have "D' = D\<lparr>db_transports := db_transports D', db_accounts := db_accounts D, db_plans := db_plans D', db_planIdempotency := db_planIdempotency D',
      db_transactionNonces := db_transactionNonces D', db_bindings := db_bindings D, db_grants := db_grants D, db_requestNonces := db_requestNonces D, db_sponsorships := db_sponsorships D, db_forwardNonces := db_forwardNonces D\<rparr>"
    using f by (cases D; cases D') (simp add: transactionFree_def)
  then show ?case by (rule db_step_others [OF conjunct1 [OF f]])
next
  case (Sponsorship D D')
  note f = sps_op_free [OF this]
  have "D' = D\<lparr>db_transports := db_transports D', db_accounts := db_accounts D, db_plans := db_plans D, db_planIdempotency := db_planIdempotency D,
      db_transactionNonces := db_transactionNonces D, db_bindings := db_bindings D, db_grants := db_grants D, db_requestNonces := db_requestNonces D, db_sponsorships := db_sponsorships D', db_forwardNonces := db_forwardNonces D'\<rparr>"
    using f by (cases D; cases D') (simp add: sponsorshipFree_def)
  then show ?case by (rule db_step_others [OF conjunct1 [OF f]])
next
  case (Account D D')
  have f: "accountFree D' = accountFree D" using acs_op_effect [OF Account] by simp
  have "D' = D\<lparr>db_transports := db_transports D, db_accounts := db_accounts D', db_plans := db_plans D, db_planIdempotency := db_planIdempotency D,
      db_transactionNonces := db_transactionNonces D, db_bindings := db_bindings D, db_grants := db_grants D', db_requestNonces := db_requestNonces D', db_sponsorships := db_sponsorships D, db_forwardNonces := db_forwardNonces D\<rparr>"
    using f by (cases D; cases D') (simp add: accountFree_def)
  then show ?case by (rule db_step_others [rotated]) (simp add: account_tables [OF Account] no_claim)
next
  case (OtherTables D bindings)
  have "D\<lparr>db_bindings := bindings\<rparr> = D\<lparr>db_transports := db_transports D, db_accounts := db_accounts D, db_plans := db_plans D,
      db_planIdempotency := db_planIdempotency D, db_transactionNonces := db_transactionNonces D, db_bindings := bindings, db_grants := db_grants D, db_requestNonces := db_requestNonces D,
      db_sponsorships := db_sponsorships D, db_forwardNonces := db_forwardNonces D\<rparr>" by simp
  then show ?case by (rule db_step_others [rotated]) (simp add: no_claim)
qed (rule db_step.intros; assumption)+

lemma rest_db_run: "(rest_step V H sha256)\<^sup>*\<^sup>* D D' \<Longrightarrow> (db_step V H)\<^sup>*\<^sup>* D D'"
  by (induction rule: rtranclp_induct) (auto dest: rest_db_step)

lemma sps_sim_others:
  assumes sim: "sps_sim D s" and l: "pgLedger.ledger_step (db_transports D) (db_transports D')"
    and "db_sponsorships D' = db_sponsorships D" and "db_forwardNonces D' = db_forwardNonces D"
  shows "\<exists>s'. (sp_step sha256)\<^sup>*\<^sup>* s s' \<and> sps_sim D' s'"
proof -
  obtain i idx t b u where c: "claimPostgresTransport i idx t b (db_transports D) = (u, db_transports D')"
    using l unfolding pgLedger.ledger_step_def by blast
  obtain t' where t: "claim_transport i idx t b (sp_transports s) = (u, t')" "rowBound (db_transports D') = boundTo t'"
    using transports_agree [OF sps_simD(4) [OF sim], of i idx t b] c by (metis fst_conv snd_conv prod.collapse)
  have "sps_sim D' (s\<lparr>sp_transports := t'\<rparr>)" using sim t(2) assms(3,4) by (simp add: sps_sim_def forwardHolder_def)
  moreover have "sp_step sha256 s (s\<lparr>sp_transports := t'\<rparr>)" using t(1) by (rule sp_step.OtherStore)
  ultimately show ?thesis by blast
qed

lemma sps_op_sim:
  assumes "sps_op sha256 D D'" and sim: "sps_sim D s" and inv: "sp_inv s"
  shows "\<exists>s'. (sp_step sha256)\<^sup>*\<^sup>* s s' \<and> sps_sim D' s'"
  using assms(1)
proof cases
  case (Create active clock input now r)
  show ?thesis
  proof (cases r)
    case (Inr x)
    then show ?thesis using create_sps_sim [OF sim] Create sp_step.Create by blast
  qed (use Create sps_failed(1) sim in blast)
next
  case (Claim actives clock claim rd)
  show ?thesis
  proof (cases rd)
    case (Inr v)
    obtain r dispatch where v: "v = (r, dispatch)" by (cases v)
    show ?thesis
    proof (cases dispatch)
      case True
      then have "claim_sps actives clock claim D = (Inr (r, True), D')" using Claim Inr v by simp
      from claim_sps_sim_True [OF sim inv this] obtain s' where
        "claim_sp admits (clock 1 - sc_now claim) claim s = (Inr (r, True), s') \<and> sps_sim D' s'" ..
      then show ?thesis by (metis r_into_rtranclp sp_step.Claim)
    next
      case False
      then have "claim_sps actives clock claim D = (Inr (r, False), D')" using Claim Inr v by simp
      then have "D' = D" by (rule claim_sps_False)
      then show ?thesis using sim by blast
    qed
  qed (use Claim sps_failed(2) sim in blast)
next
  case (Settle i h answer runtime binding r)
  show ?thesis
  proof (cases r)
    case (Inr x)
    then show ?thesis using settle_sps_sim [OF sim inv] Settle sp_step.Settle by blast
  qed (use Settle sps_failed(3) sim in blast)
next
  case (Observe i revision observations r)
  show ?thesis
  proof (cases r)
    case (Inr x)
    then show ?thesis using observe_sps_sim [OF sim inv] Observe sp_step.Observe by blast
  qed (use Observe sps_failed(4) sim in blast)
qed

lemma rest_sps_step:
  assumes "rest_step V H sha256 D D'" and sim: "sps_sim D s" and inv: "sp_inv s"
  shows "\<exists>s'. (sp_step sha256)\<^sup>*\<^sup>* s s' \<and> sps_sim D' s'"
  using assms(1)
proof cases
  case Transaction
  note f = txs_op_free [OF this]
  show ?thesis using f transactionFreeD [OF f [THEN conjunct2]] by (intro sps_sim_others [OF sim]) simp_all
next
  case Operation
  note f = pg_op_free [OF this]
  show ?thesis using f operationFreeD [OF f [THEN conjunct2]] by (intro sps_sim_others [OF sim]) simp_all
next
  case Session
  from sessionFreeD [OF pgs_op_free [OF this]] show ?thesis using no_claim by (intro sps_sim_others [OF sim]) simp_all
next
  case Sponsorship
  then show ?thesis using sim inv by (rule sps_op_sim)
next
  case Account
  from account_tables [OF this] show ?thesis using no_claim by (intro sps_sim_others [OF sim]) simp_all
next
  case (OtherTables bindings)
  then show ?thesis using no_claim by (intro sps_sim_others [OF sim]) simp_all
qed

lemma sps_sim_empty: "sps_sim emptyDatabase emptySponsorshipStore"
  by (simp add: sps_sim_def emptyDatabase_def emptySponsorshipStore_def sponsorshipDocuments_def forwardHolder_def forwardNonceRow_def rowBound_def transportRow_def
      boundTo_def current_of_def fun_eq_iff)

interpretation sps_refined: refined_store "sp_step sha256" sp_inv "sp_extends sha256" emptySponsorshipStore "rest_step V H sha256" sps_sim emptyDatabase for V H sha256
  by unfold_locales (rule rest_sps_step sps_sim_empty; assumption)+

lemmas sps_run_sim = sps_refined.run_sim

section \<open>Properties\<close>

text \<open>
  C28. The PostgreSQL sponsorship store refines the in-memory one. Whatever transactions of the stores ran, with whatever clocks and guards, the documents of
  \<^verbatim>\<open>rest_sponsorships\<close>, the nonces held in \<^verbatim>\<open>rest_sponsorship_nonces\<close> and the steps bound in \<^verbatim>\<open>rest_transaction_transports\<close> are those of a
  reachable state of the in-memory store.
\<close>

theorem postgres_sponsorships_refine:
  assumes "(rest_step V H sha256)\<^sup>*\<^sup>* emptyDatabase D"
  shows "\<exists>s. (sp_step sha256)\<^sup>*\<^sup>* emptySponsorshipStore s \<and>
     (\<forall>i. js_get (sp_records s) i = map_option pr_document (sponsorshipRow i D)) \<and>
     (\<forall>key. js_get (sp_nonces s) (forwardNonceId key) = map_option fw_sponsorshipId (forwardNonceRow key (db_forwardNonces D))) \<and>
     (\<forall>planId index. boundTo (sp_transports s) planId index = rowBound (db_transports D) planId index)"
proof -
  obtain s where s: "(sp_step sha256)\<^sup>*\<^sup>* emptySponsorshipStore s" "sps_sim D s" using sps_refined.reach_sim [OF assms] by blast
  show ?thesis using s(1) sps_documents [OF s(2)] sps_simD(3,4) [OF s(2)] by (intro exI [of _ s]) (simp add: forwardHolder_def)
qed

lemma published_holder:
  assumes "sps_sim D s" and "published s r" and "q \<in> set (sr_requests r)" and "forwardNonceKey q = Inr key"
  shows "forwardHolder key D = Some (sr_id r)"
  using assms sps_simD(3) [OF assms(1), of key] forwardNonceKeys_mem by (fastforce simp: published_def)

text \<open>
  C29. The database hands a sponsored preparation to the relayer once. When the claim transaction answers \<^verbatim>\<open>dispatch: true\<close>, the actor was entitled to
  relay before and after every wait, the stored preparation was unpublished and unexpired by the database clock, its
  steps and its forwarding nonces are bound to it after every later transaction of any store, and no later claim of it is
  answered \<^verbatim>\<open>dispatch: true\<close>.
\<close>

theorem postgres_sponsorship_dispatched_once:
  assumes "(rest_step V H sha256)\<^sup>*\<^sup>* emptyDatabase D" and "claim_sps active clock input D = (Inr (r, True), D1)"
    and "(rest_step V H sha256)\<^sup>*\<^sup>* D1 D2"
  shows "active 0 (sc_actor input) [Relay] (sc_now input div 1000) = Inr () \<and> active 1 (sc_actor input) [Relay] (clock 0 div 1000) = Inr () \<and>
     (\<exists>w. sponsorshipRow (sc_id input) D = Some w \<and> sr_submission (pr_document w) = None \<and> clock 1 < sr_expiresAt (pr_document w) \<and>
        (\<forall>q \<in> set (sr_requests (pr_document w)).
           rowBound (db_transports D2) (sr_planId (pr_document w)) (pf_stepIndex q) = Some (Relayr, sc_id input) \<and>
           (\<forall>key. forwardNonceKey q = Inr key \<longrightarrow>
              map_option fw_sponsorshipId (forwardNonceRow key (db_forwardNonces D2)) = Some (sc_id input)))) \<and>
     (sc_id input' = sc_id input \<longrightarrow> fst (claim_sps active' clock' input' D2) \<noteq> Inr (r', True))"
proof -
  obtain s where s: "(sp_step sha256)\<^sup>*\<^sup>* emptySponsorshipStore s" "sps_sim D s" "sp_inv s" using sps_refined.reach_sim [OF assms(1)] by blast
  obtain s1 where s1: "claim_sp admits (clock 1 - sc_now input) input s = (Inr (r, True), s1)" "sps_sim D1 s1"
    using claim_sps_sim_True [OF s(2,3) assms(2)] by (elim exE conjE)
  have inv1: "sp_inv s1" using claim_sp_step [OF s(3) s1(1)] by simp
  obtain s2 where s2: "(sp_step sha256)\<^sup>*\<^sup>* s1 s2" "sps_sim D2 s2" using sps_run_sim [OF assms(3) s1(2) inv1] by (elim exE conjE)
  have inv2: "sp_inv s2" using sp_run [OF s2(1) inv1] by simp
  note once = sponsorship_dispatched_once [OF s(1) s1(1) s2(1)]
  have act: "active 0 (sc_actor input) [Relay] (sc_now input div 1000) = Inr () \<and> active 1 (sc_actor input) [Relay] (clock 0 div 1000) = Inr ()"
    using assms(2) by (rule claim_sps_True) simp
  obtain x where x: "js_get (sp_records s) (sc_id input) = Some x" "sr_submission x = None" "clock 1 < sr_expiresAt x"
    "\<forall>q \<in> set (sr_requests x). boundTo (sp_transports s2) (sr_planId x) (pf_stepIndex q) = Some (Relayr, sc_id input)"
    using once [THEN conjunct2, THEN conjunct1] by (elim exE conjE) simp
  from x(1) obtain w where w: "sponsorshipRow (sc_id input) D = Some w" "x = pr_document w" using sps_documents [OF s(2)] by auto
  from s1(1) obtain y t where y: "js_get (sp_records s) (sc_id input) = Some y" "reserveForward y s = (Inr (), t)" "s1 = t\<lparr>sp_records := js_set (sr_id y) r (sp_records t)\<rparr>"
    by (rule claim_sp_Inr) (simp only: if_True)
  have yx: "y = x" "sr_id x = sc_id input" using y(1) x(1) sp_invD(1) [OF s(3) x(1)] by simp_all
  have "published s1 x" using reserveForward_keeps(3) [OF y(2)] published_cong [of s1 t x x] y(3) yx(1) by simp
  moreover have "sp_keeps s1 s2" using sp_run [OF s2(1) inv1] by (simp add: sp_extends_def)
  ultimately have pub: "published s2 x" using published_mono by blast
  have nonces: "forwardHolder key D2 = Some (sc_id input)" if "q \<in> set (sr_requests x)" "forwardNonceKey q = Inr key" for q key
    using published_holder [OF s2(2) pub that] yx(2) by simp
  have no: "fst (claim_sps active' clock' input' D2) \<noteq> Inr (r', True)" if i: "sc_id input' = sc_id input"
  proof
    assume "fst (claim_sps active' clock' input' D2) = Inr (r', True)"
    then have "claim_sps active' clock' input' D2 = (Inr (r', True), snd (claim_sps active' clock' input' D2))" by (metis prod.collapse)
    from claim_sps_sim_True [OF s2(2) inv2 this] obtain s3 where
      "claim_sp admits (clock' 1 - sc_now input') input' s2 = (Inr (r', True), s3)" by (elim exE conjE)
    then show False using once i by (metis fst_conv)
  qed
  show ?thesis using act x w nonces no sps_simD(4) [OF s2(2)] by (intro conjI impI exI [of _ w]) (simp_all add: forwardHolder_def)
qed

text \<open>
  The store rules admit up to 32 requests of one preparation, the \<^verbatim>\<open>CHECK\<close> constraint of \<^verbatim>\<open>rest_sponsorships\<close> four: a new preparation with more is
  never stored, whatever the rules say of it.
\<close>

lemma large_preparation_refused:
  assumes "4 < length (sr_requests input)" and "preparedRow (sr_actor input) (sr_preparationKey input) D = None"
  shows "\<exists>e. create_sps active clock input now D = (Inl e, D)"
proof -
  have "\<exists>e. fst (create_sps active clock input now D) = Inl e"
  proof (rule ccontr)
    assume "\<nexists>e. fst (create_sps active clock input now D) = Inl e"
    then obtain r D' where c: "create_sps active clock input now D = (Inr r, D')" by (metis old.sum.exhaust prod.collapse)
    have n: "assertNew_sp input now = Inr ()" "cloneRecord_sp input = Inr input" using c by (auto simp: create_sps_def attempt_eq_Inr clone_sp_Inr)
    show False using c [unfolded create_sps_def, simplified n attempt_simps transact_Inr] assms by (auto simp: bindR_eq_Inr insertSponsorship_Inr)
  qed
  then show ?thesis using sps_failed(1) by (metis prod.collapse)
qed

section \<open>A sponsored preparation in the database\<close>

definition samplePlanRow :: "StoredPlan \<Rightarrow> PlanRow" where
  "samplePlanRow p = \<lparr>pw_id = ''p1'', pw_accountId = accountId alice, pw_principalId = principalId alice,
     pw_accountAddress = toLowerCase (dr_account (pl_draft (samplePlan ''p1''))), pw_createdAt = 1000, pw_document = p\<rparr>"

definition sampleKeyRow :: "string \<Rightarrow> int option \<Rightarrow> PlanIdempotencyRow" where
  "sampleKeyRow k i = \<lparr>xi_accountId = accountId alice, xi_principalId = principalId alice, xi_key = k, xi_requestHash = ''hash'', xi_operation = ''pay'',
     xi_planId = ''p1'', xi_stepIndex = i\<rparr>"

definition sampleG0 :: Database where
  "sampleG0 = sampleAccounts\<lparr>db_plans := [samplePlanRow (samplePlan ''p1'')], db_planIdempotency := [sampleKeyRow ''k1'' None]\<rparr>"

lemma sample_create_txs: "create_txs (\<lambda>_. admitAll) (\<lambda>_. 1500) (samplePlan ''p1'') (sampleIdem ''k1'') 1500 sampleAccounts = (Inr (samplePlan ''p1''), sampleG0)"
proof -
  have i: "assertIdempotency (sampleIdem ''k1'') = Inr ()" by (simp add: tx_defs sampleIdem_def isIdempotencyKey_def isControl_def code_def)
  have f: "pl_actor (samplePlan ''p1'') = alice" "pl_id (samplePlan ''p1'') = ''p1''" "pl_createdAt (samplePlan ''p1'') = 1000"
    "ic_key (sampleIdem ''k1'') = ''k1''" "ic_requestHash (sampleIdem ''k1'') = ''hash''" "ic_operation (sampleIdem ''k1'') = ''pay''"
    "ac_id sampleAccount = accountId alice"
    by (simp_all add: samplePlan_def sampleIdem_def sampleAccount_def alice_def)
  show ?thesis
    using samplePlan_new samplePlan_storable [of "''p1''"]
    by (simp add: create_txs_def i f transact_def admitAll_def idempotency_txs_def idempotencyRow_def checkIdempotency_def insertPlan_def reserveIdempotency_txs_def
        plansPerAccount_def idempotencyPerAccount_def sampleAccounts_def emptyDatabase_def sampleG0_def samplePlanRow_def sampleKeyRow_def)
qed

definition sampleSponsored :: "SponsorshipRecord \<Rightarrow> SponsorshipRow" where
  "sampleSponsored r = \<lparr>pr_id = ''sp1'', pr_accountId = accountId alice, pr_principalId = principalId alice, pr_planId = ''p1'', pr_preparationKey = ''k'',
     pr_submissionKey = map_option ss_key (sr_submission r), pr_document = r\<rparr>"

definition sampleG1 :: Database where
  "sampleG1 = sampleG0\<lparr>db_sponsorships := [sampleSponsored sampleSponsorship]\<rparr>"

definition sampleG2 :: Database where
  "sampleG2 = sampleG0\<lparr>db_sponsorships := [sampleSponsored samplePublished],
     db_transports := [\<lparr>tw_planId = ''p1'', tw_stepIndex = 0, tw_transport = Relayr, tw_bindingId = ''sp1''\<rparr>],
     db_forwardNonces := [\<lparr>fw_key = sampleNonce, fw_sponsorshipId = ''sp1''\<rparr>]\<rparr>"

definition sampleG3 :: Database where
  "sampleG3 = sampleG2\<lparr>db_sponsorships := [sampleSponsored sampleQuoted]\<rparr>"

lemma sampleSponsorship_fields: "sr_id sampleSponsorship = ''sp1''" "sr_actor sampleSponsorship = alice" "sr_planId sampleSponsorship = ''p1''"
  "sr_preparationKey sampleSponsorship = ''k''" "sr_submission sampleSponsorship = None" "sr_requests sampleSponsorship = [sampleForward]"
  "pf_stepIndex sampleForward = 0" "sr_id samplePublished = ''sp1''" "sr_id sampleQuoted = ''sp1''" "ac_id sampleAccount = accountId alice"
  by (simp_all add: sampleSponsorship_def samplePublished_def sampleQuoted_def sampleForward_def sampleAccount_def alice_def)

lemma sampleSponsored_fields: "pr_id (sampleSponsored r) = ''sp1''" "pr_document (sampleSponsored r) = r"
  "pr_submissionKey (sampleSponsored r) = map_option ss_key (sr_submission r)"
  "(sampleSponsored r)\<lparr>pr_document := r', pr_submissionKey := map_option ss_key (sr_submission r')\<rparr> = sampleSponsored r'"
  by (simp_all add: sampleSponsored_def)

lemma sample_create_sps: "create_sps admitAll (\<lambda>_. 1500) sampleSponsorship 1500 sampleG0 = (Inr sampleSponsorship, sampleG1)"
  by (simp add: create_sps_def sample_new_sp sample_clones transact_def admitAll_def preparedRow_def insertSponsorship_def sponsorshipRow_def recordsPerAccount_sp_def
      sampleG0_def sampleG1_def sampleAccounts_def samplePlanRow_def emptyDatabase_def sampleSponsorship_fields sampleSponsored_def)

lemma sample_required_sps: "db_sponsorships D = [sampleSponsored r] \<Longrightarrow> cloneRecord_sp r = Inr r \<Longrightarrow> required_sps ''sp1'' D = Inr r"
  by (simp add: required_sps_def sponsorshipRow_def sampleSponsored_fields tx_defs isControl_def code_def)

lemma sample_save_sps: "db_sponsorships D = [sampleSponsored r] \<Longrightarrow> cloneRecord_sp r' = Inr r' \<Longrightarrow> sr_id r' = ''sp1'' \<Longrightarrow>
    save_sps r' D = Inr (r', D\<lparr>db_sponsorships := [sampleSponsored r']\<rparr>)"
  by (simp add: save_sps_def sampleSponsored_fields)

lemma sample_claim_sps: "claim_sps (\<lambda>_. admitAll) (\<lambda>_. 2000) sampleSpClaim sampleG1 = (Inr (samplePublished, True), sampleG2)"
proof -
  define E where "E = sampleG1\<lparr>db_transports := [\<lparr>tw_planId = ''p1'', tw_stepIndex = 0, tw_transport = Relayr, tw_bindingId = ''sp1''\<rparr>]\<rparr>"
  define F where "F = E\<lparr>db_forwardNonces := [\<lparr>fw_key = sampleNonce, fw_sponsorshipId = ''sp1''\<rparr>]\<rparr>"
  have rows: "db_sponsorships sampleG1 = [sampleSponsored sampleSponsorship]" "db_sponsorships F = [sampleSponsored sampleSponsorship]"
    by (simp_all add: sampleG1_def E_def F_def)
  have t: "claimTransport_sps sampleSponsorship sampleG1 = Inr E"
    by (simp add: claimTransport_sps_def sampleSponsorship_fields claimPostgresTransport_def transport_parameters_def insertTransport_def transportRow_def rowMatches_def
        sampleG1_def sampleG0_def sampleAccounts_def emptyDatabase_def E_def tx_defs isControl_def code_def maximumSteps_def isSafeInteger_def MAX_SAFE_INTEGER_def)
  have n: "forwardNonceKeys [sampleForward] = Inr [sampleNonce]" by (simp add: forwardNonceKeys_def maximumCalls_def sample_nonce_key)
  have f: "claimForwardNonces [sampleNonce] ''sp1'' E = Inr F"
    by (simp add: claimForwardNonces_def reservedForwardNonces_def insertForwardNonce_def forwardNonceRow_def E_def F_def sampleG1_def sampleG0_def sampleAccounts_def emptyDatabase_def)
  have c: "assertClaim_sp sampleSpClaim = Inr ()" using sample_claim_sp by (auto simp: claim_sp_def attempt_eq_Inr)
  have i: "sampleSpClaim\<lparr>sc_now := 2000\<rparr> = sampleSpClaim" "sc_id sampleSpClaim = ''sp1''" by (simp_all add: sampleSpClaim_def)
  show ?thesis
    using sample_required_sps [OF rows(1) sample_clones(1)] sample_save_sps [OF rows(2) sample_clones(2)] t n f sample_claimed_sp
    by (simp add: claim_sps_def c sample_clones transact_def admitAll_def i rows sampleSponsored_fields sampleSponsorship_fields)
      (simp add: F_def E_def sampleG1_def sampleG2_def)
qed

lemma sample_settle_sps: "settle_sps sha256 ''sp1'' (hex64 CHR ''7'') (Some sampleQuote) None None sampleG2 = (Inr sampleQuoted, sampleG3)"
proof -
  have rows: "db_sponsorships sampleG2 = [sampleSponsored samplePublished]" by (simp add: sampleG2_def)
  have "settled_sp sha256 samplePublished (hex64 CHR ''7'') (Some sampleQuote) True True = Inr sampleQuoted"
    using sample_settle_sp [of sha256] by (auto simp: settle_sp_def sampleSp2_def Let_def attempt_eq_Inr clone_sp_Inr)
  then show ?thesis
    using sample_required_sps [OF rows sample_clones(2)] sample_save_sps [OF rows sample_clones(3)]
    by (simp add: settle_sps_def transact_def sampleSponsorship_fields sampleG3_def)
qed

lemma sample_rest_run: "(rest_step V H sha256)\<^sup>*\<^sup>* emptyDatabase sampleG1" "(rest_step V H sha256)\<^sup>*\<^sup>* emptyDatabase sampleG2"
  "(rest_step V H sha256)\<^sup>*\<^sup>* sampleG2 sampleG3"
proof -
  have z: "rest_step V H sha256 emptyDatabase sampleAccounts" by (rule rest_step.Account [OF sample_acs(1)])
  have a: "rest_step V H sha256 sampleAccounts sampleG0" by (rule rest_step.Transaction [OF txs_op.Create [OF sample_create_txs]])
  have b: "rest_step V H sha256 sampleG0 sampleG1" by (rule rest_step.Sponsorship [OF sps_op.Create [OF sample_create_sps]])
  have c: "rest_step V H sha256 sampleG1 sampleG2" by (rule rest_step.Sponsorship [OF sps_op.Claim [OF sample_claim_sps]])
  have d: "rest_step V H sha256 sampleG2 sampleG3" by (rule rest_step.Sponsorship [OF sps_op.Settle [OF sample_settle_sps]])
  show 1: "(rest_step V H sha256)\<^sup>*\<^sup>* emptyDatabase sampleG1" using z a b by (meson converse_rtranclp_into_rtranclp r_into_rtranclp)
  show "(rest_step V H sha256)\<^sup>*\<^sup>* emptyDatabase sampleG2" using 1 c by (rule rtranclp.rtrancl_into_rtrancl)
  show "(rest_step V H sha256)\<^sup>*\<^sup>* sampleG2 sampleG3" using d by (rule r_into_rtranclp)
qed

theorem postgres_sponsorships_refine_witness:
  "\<exists>s. (sp_step noHash)\<^sup>*\<^sup>* emptySponsorshipStore s \<and> js_get (sp_records s) ''sp1'' = Some samplePublished"
proof -
  have "sponsorshipRow ''sp1'' sampleG2 = Some (sampleSponsored samplePublished)" by (simp add: sponsorshipRow_def sampleG2_def sampleSponsored_fields)
  then show ?thesis using postgres_sponsorships_refine [OF sample_rest_run(2) [of sampleViem sampleHost noHash]] by (auto simp: sampleSponsored_fields)
qed

theorem postgres_sponsorship_dispatched_once_witness:
  "fst (claim_sps (\<lambda>_. admitAll) (\<lambda>_. 3000) sampleSpClaim sampleG3) \<noteq> Inr (samplePublished, True)"
  using postgres_sponsorship_dispatched_once [OF sample_rest_run(1) sample_claim_sps sample_rest_run(3) [of sampleViem sampleHost noHash],
      of sampleSpClaim "\<lambda>_. admitAll" "\<lambda>_. 3000" samplePublished] by blast

end
