(* ===== verification/PgStores.thy ===== *)
theory PgStores
  imports PgSponsorshipProperties TransactionProperties
begin

text \<open>
  All PostgreSQL stores over one database: signed transactions, user operations and sponsored preparations share the plans, the nonces
  and the transports, whatever order their transactions commit in.
\<close>

section \<open>The plans of the database\<close>

lemma plan_tables:
  "operationFree D' = operationFree D \<Longrightarrow> db_plans D' = db_plans D \<and> db_planIdempotency D' = db_planIdempotency D \<and> db_transactionNonces D' = db_transactionNonces D"
  "sessionFree D' = sessionFree D \<Longrightarrow> db_plans D' = db_plans D \<and> db_planIdempotency D' = db_planIdempotency D \<and> db_transactionNonces D' = db_transactionNonces D \<and>
    db_transports D' = db_transports D"
  by (cases D; cases D'; simp add: operationFree_def sessionFree_def)+

lemma rest_txs_step:
  assumes "rest_step V H sha256 D D'" and sim: "txs_sim D s" and inv: "tx_inv s"
  shows "\<exists>s'. plans_step\<^sup>*\<^sup>* s s' \<and> txs_sim D' s'"
  using assms(1)
proof cases
  case Transaction
  then show ?thesis using sim inv by (rule txs_op_sim)
next
  case Operation
  note f = pg_op_free [OF this]
  show ?thesis using f plan_tables(1) [OF f [THEN conjunct2]] by (intro txs_sim_others [OF sim]) simp_all
next
  case Session
  from plan_tables(2) [OF pgs_op_free [OF this]] show ?thesis using no_claim by (intro txs_sim_others [OF sim]) simp_all
next
  case Sponsorship
  note f = sps_op_free [OF this]
  show ?thesis using f sponsorshipFreeD [OF f [THEN conjunct2]] by (intro txs_sim_others [OF sim]) simp_all
next
  case Account
  from account_tables [OF this] show ?thesis using no_claim by (intro txs_sim_others [OF sim]) simp_all
next
  case (OtherTables bindings)
  then show ?thesis using no_claim by (intro txs_sim_others [OF sim]) simp_all
qed

interpretation txs_refined: refined_store plans_step tx_inv tx_extends emptyTxStore "rest_step V H sha256" txs_sim emptyDatabase for V H sha256
  by unfold_locales (rule rest_txs_step txs_sim_empty; assumption)+

text \<open>
  C5. Nonces in the database. Whatever transactions ran, the row of \<^verbatim>\<open>rest_transaction_nonces\<close> for a signed transaction of a stored plan names exactly its plan and
  step, its transport row binds the step to the hash of that transaction, and no two steps of whatever plans hold signed transactions with the same chain, sender
  and nonce: at most one of them could be mined, and the other would wait forever.
\<close>

theorem postgres_nonce_unique:
  assumes "(rest_step V H sha256)\<^sup>*\<^sup>* emptyDatabase D"
    and "w \<in> set (db_plans D)" and "k < length (pl_steps (pw_document w))" and "st_attempt (pl_steps (pw_document w) ! k) = Some a"
  shows "(\<exists>row. transactionNonceRow a D = Some row \<and> xn_planId row = pw_id w \<and> xn_stepIndex row = int k) \<and>
     rowBound (db_transports D) (pw_id w) (int k) = Some (Direct, toLowerCase (at_hash a)) \<and>
     (\<forall>v \<in> set (db_plans D). \<forall>l < length (pl_steps (pw_document v)). \<forall>b. st_attempt (pl_steps (pw_document v) ! l) = Some b \<and>
        at_chainId b = at_chainId a \<and> same (at_sender b) (at_sender a) \<and> at_nonce b = at_nonce a \<longrightarrow> v = w \<and> l = k)"
proof -
  obtain s where s: "txs_sim D s" "tx_inv s" using txs_refined.reach_sim [OF assms(1)] by blast
  have held: "nonceHolder b D = Some \<lparr>nr_planId = pw_id v, nr_stepIndex = int l\<rparr>"
    if v: "v \<in> set (db_plans D)" "l < length (pl_steps (pw_document v))" "st_attempt (pl_steps (pw_document v) ! l) = Some b" for v l b
  proof -
    have "js_get (tx_nonces s) (nonceKey b) = Some \<lparr>nr_planId = pw_id v, nr_stepIndex = int l\<rparr>"
      using tx_inv_plan [OF s(2) plan_of_row [OF s v(1)]] v(2,3) by (simp add: plan_ok_def nonce_of_def)
    then show ?thesis by (simp only: txs_simD(4) [OF s(1)])
  qed
  have "binding_of (pl_steps (pw_document w) ! k) = Some (Direct, toLowerCase (at_hash a))" using assms(4) by (simp add: binding_of_def)
  then have bound: "rowBound (db_transports D) (pw_id w) (int k) = Some (Direct, toLowerCase (at_hash a))"
    using plan_ok_bound [OF tx_inv_plan [OF s(2) plan_of_row [OF s assms(2)]] assms(3)] txs_simD(5) [OF s(1)] by simp
  have "v = w \<and> l = k" if v: "v \<in> set (db_plans D)" "l < length (pl_steps (pw_document v))" "st_attempt (pl_steps (pw_document v) ! l) = Some b"
    and b: "at_chainId b = at_chainId a" "same (at_sender b) (at_sender a)" "at_nonce b = at_nonce a" for v l b
  proof -
    have "nonceKey b = nonceKey a" using b by (simp add: nonceKey_eq_iff)
    then have e: "nonceHolder b D = nonceHolder a D" using transactionNonceRow_key [of b a D] by (simp only: nonceHolder_def)
    have "pw_id v = pw_id w" "l = k" using held [OF v] held [OF assms(2-4)] e by simp_all
    moreover have "distinct (map pw_id (db_plans D))" using s(2) by (simp add: tx_inv_def txs_simD(1) [OF s(1)] planDocuments_def o_def)
    ultimately show ?thesis using v(1) assms(2) by (metis distinct_map inj_onD)
  qed
  then show ?thesis using held [OF assms(2-4)] bound by (auto simp: nonceHolder_def)
qed

section \<open>Dispatching\<close>

lemma claimAccepted_dispatched:
  assumes "claimAccepted s claim q True s'"
  shows "js_get (tx_plans s') (cl_planId claim) = Some q"
proof -
  obtain p changed s2 m where "prepareClaim p claim = Inr (q, True, changed)"
    and s': "s' = s2\<lparr>tx_nonces := m, tx_plans := (if changed then js_set (cl_planId claim) q (tx_plans s2) else tx_plans s2)\<rparr>"
    using assms unfolding claimAccepted_def by blast
  then have changed using prepareClaim_dispatched(5) [of p claim q changed] by (simp add: grantDispatch_iff)
  then show ?thesis by (simp add: s')
qed

text \<open>
  C8. A dispatch of the database. When a claim transaction answers \<^verbatim>\<open>dispatch: true\<close>, the actor was entitled to relay before and after every wait, the stored
  plan belongs to the actor, has the revision the caller saw and has not expired, its authorization is inside its window, every step it depends on is confirmed and
  the step itself is not settled, all by the database clock at the end of the transaction; the lease runs from that clock for at most two minutes, whatever the clock of the
  caller says; and until the database clock has passed the end of that lease, no later claim of the step, from whatever
  replica and after whatever transactions, is answered \<^verbatim>\<open>dispatch: true\<close>.
\<close>

theorem postgres_submission_dispatch:
  assumes "(rest_step V H sha256)\<^sup>*\<^sup>* emptyDatabase D" and "claimSubmission_txs active clock claim D = (Inr (q, True), D1)"
    and "(rest_step V H sha256)\<^sup>*\<^sup>* D1 D2"
  shows "active 0 (cl_actor claim) [Relay] (cl_now claim div 1000) = Inr () \<and> active 1 (cl_actor claim) [Relay] (cl_now claim div 1000) = Inr () \<and>
     (\<exists>w \<in> set (db_plans D). \<exists>call a. pw_id w = cl_planId claim \<and> pl_actor (pw_document w) = cl_actor claim \<and>
        pl_revision (pw_document w) = cl_expectedRevision claim \<and> clock 1 < pl_expiresAt (pw_document w) \<and>
        checkAuthorization (cl_authorization claim) (clock 1) = Inr () \<and> js_at (dr_calls (pl_draft (pw_document w))) (cl_stepIndex claim) = Some call \<and>
        (\<forall>d \<in> set (call_dependsOn call). dependencyMet (pw_document w) d) \<and>
        st_state (pl_steps (pw_document w) ! nat (cl_stepIndex claim)) \<notin> {Confirmed, Reverted} \<and>
        st_attempt (pl_steps q ! nat (cl_stepIndex claim)) = Some a \<and> clock 1 < at_leaseUntil a \<and> at_leaseUntil a \<le> clock 1 + 120000 \<and>
        (cl_planId claim' = cl_planId claim \<and> cl_stepIndex claim' = cl_stepIndex claim \<and> clock' 1 < at_leaseUntil a \<longrightarrow>
           fst (claimSubmission_txs active' clock' claim' D2) \<noteq> Inr (q', True)))"
proof -
  let ?k = "nat (cl_stepIndex claim)" and ?c = "leasedClaim claim (clock 1) (clock 1 + (at_leaseUntil (cl_attempt claim) - cl_now claim))"
  obtain s where s: "txs_sim D s" "tx_inv s" using txs_refined.reach_sim [OF assms(1)] by blast
  obtain t l s1 where s1: "claimAccepted s (leasedClaim claim t l) q True s1" "txs_sim D1 s1" using claimSubmission_txs_sim [OF s assms(2)] by blast
  have inv1: "tx_inv s1" using claimAccepted_inv [OF s(2) s1(1)] .
  obtain s2 where s2: "plans_step\<^sup>*\<^sup>* s1 s2" "txs_sim D2 s2" using txs_refined.run_sim [OF assms(3) s1(2) inv1] by blast
  have ext: "tx_inv s2" "tx_extends s1 s2" using plans.run [OF s2(1) inv1] by simp_all
  obtain p changed where p: "active 0 (cl_actor claim) [Relay] (cl_now claim div 1000) = Inr ()" "active 1 (cl_actor claim) [Relay] (cl_now claim div 1000) = Inr ()"
    "require_txs (cl_actor claim) (cl_planId claim) D = Inr p" "prepareClaim p ?c = Inr (q, True, changed)"
    using assms(2) by (rule claimSubmission_txs_Inr) simp
  note g = require_txs_plan [OF s p(3)] and r = prepareClaim_returns [OF p(4)] and d = prepareClaim_dispatched [OF p(4)]
  obtain w where w: "w \<in> set (db_plans D)" "pw_id w = cl_planId claim" "pw_document w = p" using row_of_plan [OF s(1) conjunct1 [OF g]] by blast
  have later: "at_leaseUntil a \<le> clock' 1"
    if c': "fst (claimSubmission_txs active' clock' claim' D2) = Inr (q', True)" "cl_planId claim' = cl_planId claim" "cl_stepIndex claim' = cl_stepIndex claim"
      and a: "st_attempt (pl_steps q ! ?k) = Some a" for a
  proof -
    have q: "js_get (tx_plans s1) (cl_planId claim) = Some q" using claimAccepted_dispatched [OF s1(1)] by simp
    obtain q2 where q2: "js_get (tx_plans s2) (cl_planId claim) = Some q2" "plan_change\<^sup>*\<^sup>* q q2" using ext(2) q unfolding tx_extends_def by blast
    have "plan_wf q" using plan_ok_parts [OF tx_inv_plan [OF inv1 q]] by simp
    moreover have "?k < length (pl_steps q)" using list_all2_lengthD [OF plan_history_steps [OF r_into_rtranclp [of plan_change, OF plan_change.Claim [OF p(4)]]]] plan_ok_parts g r(2) by auto
    ultimately obtain b where b: "st_attempt (pl_steps q2 ! ?k) = Some b" "at_leaseUntil a \<le> at_leaseUntil b" using lease_history [OF q2(2) _ _ a] by blast
    have "claimSubmission_txs active' clock' claim' D2 = (Inr (q', True), snd (claimSubmission_txs active' clock' claim' D2))" using c'(1) by (metis prod.collapse)
    then obtain p2 l2 changed2 where p2: "require_txs (cl_actor claim') (cl_planId claim') D2 = Inr p2" "prepareClaim p2 (leasedClaim claim' (clock' 1) l2) = Inr (q', True, changed2)"
      by (rule claimSubmission_txs_Inr) simp
    have "p2 = q2" using require_txs_plan [OF s2(2) ext(1) p2(1)] q2(1) c'(2) by simp
    then show ?thesis using prepareClaim_dispatched(4) [OF p2(2), of b] b c'(3) by simp
  qed
  from d(5) obtain call where call: "pl_revision p = cl_expectedRevision claim" "clock 1 < pl_expiresAt p" "checkAuthorization (cl_authorization claim) (clock 1) = Inr ()"
    "js_at (dr_calls (pl_draft p)) (cl_stepIndex claim) = Some call" "\<forall>d \<in> set (call_dependsOn call). dependencyMet p d"
    and q: "q = bumpRevision (replaceStep p (cl_stepIndex claim) ((pl_steps p ! ?k)\<lparr>st_attempt := Some (renewAttempt (st_attempt (pl_steps p ! ?k)) (cl_attempt ?c)), st_state := Reserved\<rparr>))"
    and lease: "clock 1 < at_leaseUntil (cl_attempt ?c)" "at_leaseUntil (cl_attempt ?c) \<le> clock 1 + 120000"
    unfolding grantDispatch_iff leasedClaim_simps by blast
  define a where "a = renewAttempt (st_attempt (pl_steps p ! ?k)) (cl_attempt ?c)"
  have a: "st_attempt (pl_steps q ! ?k) = Some a" using r(2) by (simp add: q a_def)
  have until: "at_leaseUntil a = at_leaseUntil (cl_attempt ?c)" by (simp add: a_def renewAttempt_def split: option.splits)
  have settled: "st_state (pl_steps p ! ?k) \<notin> {Confirmed, Reverted}" using d(2,3) by simp
  have no: "cl_planId claim' = cl_planId claim \<and> cl_stepIndex claim' = cl_stepIndex claim \<and> clock' 1 < at_leaseUntil a \<longrightarrow>
      fst (claimSubmission_txs active' clock' claim' D2) \<noteq> Inr (q', True)" using later [OF _ _ _ a] by (metis not_le)
  show ?thesis
    using p(1,2) w call g a settled no lease unfolding until [symmetric] by (intro conjI bexI [OF _ w(1)] exI [of _ call] exI [of _ a]) (simp_all only: w not_False_eq_True)
qed

section \<open>One transport for a step, in the database\<close>

text \<open>
  A step of a plan that a published user operation or a published preparation executes, or that shows a signed transaction or an external execution.
\<close>

definition holds_pg :: "Database \<Rightarrow> string \<Rightarrow> int \<Rightarrow> ReservedTransport \<times> string \<Rightarrow> bool" where
  "holds_pg D planId index x \<longleftrightarrow>
     (\<exists>w \<in> set (db_operations D). ur_submission (ow_document w) \<noteq> None \<and> ur_planId (ow_document w) = planId \<and>
        index \<in> set (ur_stepIndexes (ow_document w)) \<and> x = (Erc4337, ow_id w)) \<or>
     (\<exists>w \<in> set (db_sponsorships D). sr_submission (pr_document w) \<noteq> None \<and> sr_planId (pr_document w) = planId \<and>
        index \<in> pf_stepIndex ` set (sr_requests (pr_document w)) \<and> x = (Relayr, pr_id w)) \<or>
     (\<exists>w \<in> set (db_plans D). pw_id w = planId \<and> 0 \<le> index \<and> nat index < length (pl_steps (pw_document w)) \<and>
        binding_of (pl_steps (pw_document w) ! nat index) = Some x)"

lemma row_of_sponsorship:
  assumes "sps_sim D s" and "sp_inv s" and "w \<in> set (db_sponsorships D)"
  shows "js_get (sp_records s) (pr_id w) = Some (pr_document w)"
proof -
  have "distinct (map fst (sp_records s))" using assms(2) by (simp add: sp_inv_def)
  moreover have "(pr_id w, pr_document w) \<in> set (sp_records s)" using assms(3) by (auto simp: sps_simD(1) [OF assms(1)] sponsorshipDocuments_def)
  ultimately show ?thesis by (simp add: map_of_eq_Some_iff)
qed

lemma holds_pg_bound:
  assumes "(rest_step V H sha256)\<^sup>*\<^sup>* emptyDatabase D" and "holds_pg D planId index x"
  shows "rowBound (db_transports D) planId index = Some x"
proof -
  obtain s where s: "pg_sim D s" "uo_inv s" using pg_refined.reach_sim [OF rest_pg_run [OF assms(1)]] by blast
  obtain t where t: "sps_sim D t" "sp_inv t" using sps_refined.reach_sim [OF assms(1)] by blast
  obtain p where p: "txs_sim D p" "tx_inv p" using txs_refined.reach_sim [OF assms(1)] by blast
  from assms(2) [unfolded holds_pg_def] show ?thesis
  proof (elim disjE bexE conjE)
    fix w assume w: "w \<in> set (db_operations D)" "ur_submission (ow_document w) \<noteq> None" "ur_planId (ow_document w) = planId"
      "index \<in> set (ur_stepIndexes (ow_document w))" "x = (Erc4337, ow_id w)"
    then show ?thesis using uo_invD(2) [OF s(2) row_of_operation [OF s w(1)]] pg_simD(7) [OF s(1)] by (auto simp: held_def)
  next
    fix w assume w: "w \<in> set (db_sponsorships D)" "sr_submission (pr_document w) \<noteq> None" "sr_planId (pr_document w) = planId"
      "index \<in> pf_stepIndex ` set (sr_requests (pr_document w))" "x = (Relayr, pr_id w)"
    then show ?thesis using sp_invD(1,2) [OF t(2) row_of_sponsorship [OF t w(1)]] sps_simD(4) [OF t(1)] by (auto simp: published_def)
  next
    fix w assume w: "w \<in> set (db_plans D)" "pw_id w = planId" "0 \<le> index" "nat index < length (pl_steps (pw_document w))"
      "binding_of (pl_steps (pw_document w) ! nat index) = Some x"
    then show ?thesis using plan_ok_bound [OF tx_inv_plan [OF p(2) plan_of_row [OF p w(1)]] w(4,5)] txs_simD(5) [OF p(1)] by simp
  qed
qed

lemma holds_pg_forever:
  assumes "(rest_step V H sha256)\<^sup>*\<^sup>* emptyDatabase D" and run: "(rest_step V H sha256)\<^sup>*\<^sup>* D D'" and "holds_pg D planId index x"
  shows "holds_pg D' planId index x"
proof -
  obtain s where s: "pg_sim D s" "uo_inv s" using pg_refined.reach_sim [OF rest_pg_run [OF assms(1)]] by blast
  obtain t where t: "sps_sim D t" "sp_inv t" using sps_refined.reach_sim [OF assms(1)] by blast
  obtain p where p: "txs_sim D p" "tx_inv p" using txs_refined.reach_sim [OF assms(1)] by blast
  obtain s' where s': "(uo_step V)\<^sup>*\<^sup>* s s'" "pg_sim D' s'" using pg_refined.run_sim [OF rest_pg_run [OF run] s] by blast
  obtain t' where t': "(sp_step sha256)\<^sup>*\<^sup>* t t'" "sps_sim D' t'" using sps_run_sim [OF run t] by blast
  obtain p' where p': "plans_step\<^sup>*\<^sup>* p p'" "txs_sim D' p'" using txs_refined.run_sim [OF run p] by blast
  from assms(3) [unfolded holds_pg_def] show ?thesis
  proof (elim disjE bexE conjE)
    fix w assume w: "w \<in> set (db_operations D)" "ur_submission (ow_document w) \<noteq> None" "ur_planId (ow_document w) = planId"
      "index \<in> set (ur_stepIndexes (ow_document w))" "x = (Erc4337, ow_id w)"
    have "uo_extends (defaultCodec V) s s'" using uo_run [OF s'(1) s(2)] by simp
    then obtain r where r: "js_get (us_records s') (ow_id w) = Some r" "(uo_change (defaultCodec V))\<^sup>*\<^sup>* (ow_document w) r"
      using row_of_operation [OF s w(1)] unfolding uo_extends_def by blast
    obtain v where v: "v \<in> set (db_operations D')" "ow_id v = ow_id w" "ow_document v = r"
      using r(1) pg_documents [OF s'(2)] operationRow_Some by force
    have "ur_submission r \<noteq> None" using uo_history_submission [OF r(2)] w(2) by auto
    then show ?thesis unfolding holds_pg_def using v w(3-5) uo_identityD [OF uo_history.history_identity [OF r(2) TrueI]] by (intro disjI1 bexI [of _ v]) simp_all
  next
    fix w assume w: "w \<in> set (db_sponsorships D)" "sr_submission (pr_document w) \<noteq> None" "sr_planId (pr_document w) = planId"
      "index \<in> pf_stepIndex ` set (sr_requests (pr_document w))" "x = (Relayr, pr_id w)"
    have "sp_extends sha256 t t'" using sp_run [OF t'(1) t(2)] by simp
    then obtain r where r: "js_get (sp_records t') (pr_id w) = Some r" "(sp_change sha256)\<^sup>*\<^sup>* (pr_document w) r"
      using row_of_sponsorship [OF t w(1)] unfolding sp_extends_def by blast
    obtain v where v: "v \<in> set (db_sponsorships D')" "pr_id v = pr_id w" "pr_document v = r"
      using r(1) sps_documents [OF t'(2)] sponsorshipRow_Some by force
    have "sr_submission r \<noteq> None" using sp_history_submission [OF r(2)] w(2) by auto
    then show ?thesis unfolding holds_pg_def using v w(3-5) sp_identityD [OF sp_history.history_identity [OF r(2) TrueI]] by (intro disjI2 disjI1 bexI [of _ v]) simp_all
  next
    fix w assume w: "w \<in> set (db_plans D)" "pw_id w = planId" "0 \<le> index" "nat index < length (pl_steps (pw_document w))"
      "binding_of (pl_steps (pw_document w) ! nat index) = Some x"
    note e = plans.run [OF p'(1) p(2)]
    obtain q where q: "js_get (tx_plans p') planId = Some q" "binding_of (pl_steps q ! nat index) = Some x" "nat index < length (pl_steps q)"
      using binding_extends [OF p(2) _ _ plan_of_row [OF p w(1)] w(4,5)] e w(2) by blast
    obtain v where "v \<in> set (db_plans D')" "pw_id v = planId" "pw_document v = q" using row_of_plan [OF p'(2) q(1)] by blast
    then show ?thesis unfolding holds_pg_def using q(2,3) w(3) by (intro disjI2 bexI [of _ v]) simp_all
  qed
qed

text \<open>
  C2. One step, one transport, in the database. When a signed transaction, a published user operation or a published sponsored preparation executes a step of a
  plan, it does so after every later transaction of any store, nothing else executes that
  step, and every claim of the step for another transport or another binding is refused and
  changes nothing.
\<close>

theorem postgres_one_transport:
  assumes "(rest_step V H sha256)\<^sup>*\<^sup>* emptyDatabase D" and "(rest_step V H sha256)\<^sup>*\<^sup>* D D'" and "holds_pg D planId index x"
  shows "holds_pg D' planId index x \<and> (\<forall>y. holds_pg D' planId index y \<longrightarrow> y = x) \<and>
     (\<forall>indexes transport bindingId. index \<in> set indexes \<and> (transport, bindingId) \<noteq> x \<longrightarrow>
        (\<exists>e. claimPostgresTransport planId indexes transport bindingId (db_transports D') = (Inl e, db_transports D')))"
proof -
  have r: "(rest_step V H sha256)\<^sup>*\<^sup>* emptyDatabase D'" using assms(1,2) by (rule rtranclp_trans)
  have h: "holds_pg D' planId index x" using holds_pg_forever [OF assms] .
  note b = holds_pg_bound [OF r h]
  have "y = x" if "holds_pg D' planId index y" for y using b holds_pg_bound [OF r that] by simp
  moreover have "\<exists>e. claimPostgresTransport planId indexes transport bindingId (db_transports D') = (Inl e, db_transports D')"
    if i: "index \<in> set indexes" "(transport, bindingId) \<noteq> x" for indexes transport bindingId
  proof (cases "claimPostgresTransport planId indexes transport bindingId (db_transports D')")
    case (Pair c T)
    show ?thesis
    proof (cases c)
      case (Inl e)
      then show ?thesis using Pair claimPostgresTransport_Inl by blast
    next
      case (Inr u)
      then show ?thesis using Pair b i by (auto simp: claimPostgresTransport_Inr)
    qed
  qed
  ultimately show ?thesis using h by blast
qed

section \<open>A signed transaction in the database\<close>

definition sampleG4 :: Database where
  "sampleG4 = sampleG0\<lparr>db_plans := [samplePlanRow sampleDispatched], db_planIdempotency := [sampleKeyRow ''k1'' None, sampleKeyRow ''k2'' (Some 0)],
     db_transactionNonces := [\<lparr>xn_chainId = 1, xn_sender = toLowerCase (hex40 CHR ''a''), xn_nonce = ''7'', xn_transactionHash = hex64 CHR ''d'', xn_planId = ''p1'', xn_stepIndex = 0\<rparr>],
     db_transports := [\<lparr>tw_planId = ''p1'', tw_stepIndex = 0, tw_transport = Direct, tw_bindingId = hex64 CHR ''d''\<rparr>]\<rparr>"

lemma sampleClaim_fields: "cl_actor sampleClaim = alice" "cl_planId sampleClaim = ''p1''" "cl_stepIndex sampleClaim = 0" "cl_now sampleClaim = 2000" "cl_dispatch sampleClaim"
  "cl_idempotency sampleClaim = sampleIdem ''k2''" "ic_key (sampleIdem ''k2'') = ''k2''" "ic_requestHash (sampleIdem ''k2'') = ''hash''" "ic_operation (sampleIdem ''k2'') = ''pay''"
  "cl_attempt sampleClaim = sampleAttempt ''t1''" "at_hash (sampleAttempt ''t1'') = hex64 CHR ''d''" "at_sender (sampleAttempt ''t1'') = hex40 CHR ''a''"
  "at_chainId (sampleAttempt ''t1'') = 1" "at_nonce (sampleAttempt ''t1'') = ''7''" "at_leaseUntil (sampleAttempt ''t1'') = 62000" "leasedClaim sampleClaim 2000 62000 = sampleClaim"
  by (simp_all add: sampleClaim_def sampleIdem_def sampleAttempt_def leasedClaim_def)

lemma sample_claim_txs: "claimSubmission_txs (\<lambda>_. admitAll) (\<lambda>_. 2000) sampleClaim sampleG0 = (Inr (sampleDispatched, True), sampleG4)"
proof -
  define E where "E = sampleG0\<lparr>db_transports := db_transports sampleG4\<rparr>"
  define F where "F = E\<lparr>db_transactionNonces := db_transactionNonces sampleG4\<rparr>"
  have ok: "assertActor alice = Inr ()" "assertText ''p1'' = Inr ()" "assertIdempotency (sampleIdem ''k2'') = Inr ()" "assertTime 2000 = Inr ()"
    by (simp_all add: tx_defs alice_def sampleIdem_def isIdempotencyKey_def isControl_def code_def isSafeInteger_def MAX_SAFE_INTEGER_def)
  have r: "require_txs alice ''p1'' sampleG0 = Inr (samplePlan ''p1'')"
    using samplePlan_storable [of "''p1''"] by (simp add: require_txs_def ok sampleG0_def samplePlanRow_def)
  have i: "idempotency_txs alice (sampleIdem ''k2'') sampleG0 = None" by (simp add: idempotency_txs_def idempotencyRow_def sampleG0_def sampleKeyRow_def sampleClaim_fields)
  have "transport_parameters ''p1'' [0] Direct (hex64 CHR ''d'') = Inr [0]"
    by (simp add: transport_parameters_def tx_defs isControl_def code_def isNormalizedHash_def isLowerHexDigit_def isDigit_def hex64_def list_all_iff list_ex_iff maximumSteps_def isSafeInteger_def MAX_SAFE_INTEGER_def)
  then have t: "claimTransport_txs sampleClaim sampleG0 = Inr E"
    by (simp add: claimTransport_txs_def sampleClaim_fields sample_lower claimPostgresTransport_def insertTransport_def transportRow_def rowMatches_def
        sampleG0_def sampleG4_def sampleAccounts_def emptyDatabase_def E_def)
  have n: "insertTransactionNonce sampleClaim E = Inr F" "transactionNonceHeld sampleClaim F = Inr ()"
    by (simp_all add: insertTransactionNonce_def transactionNonceHeld_def transactionNonceRow_def sampleClaim_fields sample_lower E_def F_def sampleG4_def sampleG0_def
        sampleAccounts_def emptyDatabase_def)
  have k: "reserveIdempotency_txs alice (sampleIdem ''k2'') ''p1'' (Some 0) None F = Inr (F\<lparr>db_planIdempotency := db_planIdempotency sampleG4\<rparr>)"
    by (simp add: reserveIdempotency_txs_def idempotencyPerAccount_def F_def E_def sampleG4_def sampleG0_def sampleKeyRow_def sampleClaim_fields)
  have "pl_id sampleDispatched = ''p1''" by (simp add: sampleDispatched_def samplePlan_def)
  then have u: "update_txs sampleDispatched (F\<lparr>db_planIdempotency := db_planIdempotency sampleG4\<rparr>) = Inr sampleG4"
    using sampleDispatched_storable by (simp add: update_txs_def F_def E_def sampleG4_def sampleG0_def samplePlanRow_def)
  show ?thesis using sampleDispatched_storable
    by (simp add: claimSubmission_txs_def sampleClaim_fields ok sampleClaim_storable transact_def admitAll_def r i checkIdempotency_def isSafeInteger_def MAX_SAFE_INTEGER_def
        sample_prepare t n k u)
qed

lemma sample_rest_dispatch: "(rest_step V H sha256)\<^sup>*\<^sup>* emptyDatabase sampleG0" "(rest_step V H sha256)\<^sup>*\<^sup>* emptyDatabase sampleG4"
proof -
  have z: "rest_step V H sha256 emptyDatabase sampleAccounts" by (rule rest_step.Account [OF sample_acs(1)])
  have a: "rest_step V H sha256 sampleAccounts sampleG0" by (rule rest_step.Transaction [OF txs_op.Create [OF sample_create_txs]])
  show 1: "(rest_step V H sha256)\<^sup>*\<^sup>* emptyDatabase sampleG0" using z a by (meson converse_rtranclp_into_rtranclp r_into_rtranclp)
  have "rest_step V H sha256 sampleG0 sampleG4" by (rule rest_step.Transaction [OF txs_op.ClaimSubmission [OF sample_claim_txs]])
  with 1 show "(rest_step V H sha256)\<^sup>*\<^sup>* emptyDatabase sampleG4" by (rule rtranclp.rtrancl_into_rtrancl)
qed

lemma sampleDispatched_step: "pl_steps sampleDispatched ! 0 = (sampleStep 0)\<lparr>st_attempt := Some ((sampleAttempt ''t1'')\<lparr>at_dispatchCount := 1\<rparr>), st_state := Reserved\<rparr>"
  "length (pl_steps sampleDispatched) = 2"
  by (simp_all add: sampleDispatched_def samplePlan_def)

theorem postgres_nonce_unique_witness:
  "rowBound (db_transports sampleG4) ''p1'' 0 = Some (Direct, hex64 CHR ''d'')"
proof -
  have w: "samplePlanRow sampleDispatched \<in> set (db_plans sampleG4)" "pw_document (samplePlanRow sampleDispatched) = sampleDispatched" "pw_id (samplePlanRow sampleDispatched) = ''p1''"
    by (simp_all add: sampleG4_def samplePlanRow_def)
  show ?thesis
    using postgres_nonce_unique [OF sample_rest_dispatch(2) [of sampleViem sampleHost noHash] w(1), of 0 "(sampleAttempt ''t1'')\<lparr>at_dispatchCount := 1\<rparr>"]
    by (simp add: w sampleDispatched_step sampleClaim_fields sample_lower)
qed

theorem postgres_submission_dispatch_witness:
  "fst (claimSubmission_txs (\<lambda>_. admitAll) (\<lambda>_. 61999) sampleClaim sampleG4) \<noteq> Inr (sampleDispatched, True)"
proof -
  have "at_leaseUntil a = 62000" if "st_attempt (pl_steps sampleDispatched ! nat (cl_stepIndex sampleClaim)) = Some a" for a
    using that by (auto simp: sampleDispatched_step sampleClaim_fields)
  then show ?thesis
    using postgres_submission_dispatch [OF sample_rest_dispatch(1) [of sampleViem sampleHost noHash] sample_claim_txs rtranclp.rtrancl_refl,
        of sampleClaim "\<lambda>_. 61999" "\<lambda>_. admitAll" sampleDispatched] by auto
qed

theorem postgres_one_transport_witness:
  "\<exists>e. claimPostgresTransport ''p1'' [0] Relayr ''sp1'' (db_transports sampleG4) = (Inl e, db_transports sampleG4)"
proof -
  have "holds_pg sampleG4 ''p1'' 0 (Direct, hex64 CHR ''d'')"
    by (simp add: holds_pg_def sampleG4_def samplePlanRow_def sampleDispatched_step binding_of_def sampleClaim_fields sample_lower)
  from postgres_one_transport [OF sample_rest_dispatch(2) [of sampleViem sampleHost noHash] rtranclp.rtrancl_refl this] show ?thesis by simp
qed

end
