(* ===== verification/PgAuthority.thy ===== *)
theory PgAuthority
  imports PgStores
begin

text \<open>
  The account tables under all PostgreSQL stores. Every store asks \<^verbatim>\<open>assertRestActorActive\<close> of the account store on the connection of its own
  transaction; here the guards of the stores are that function on the shared database. A revoked bot is refused by every store, and a request counts once.
\<close>

section \<open>The account tables under all stores\<close>

lemma grant_tables:
  "transactionFree D' = transactionFree D \<Longrightarrow> db_grants D' = db_grants D \<and> db_requestNonces D' = db_requestNonces D"
  "operationFree D' = operationFree D \<Longrightarrow> db_grants D' = db_grants D \<and> db_requestNonces D' = db_requestNonces D"
  "sessionFree D' = sessionFree D \<Longrightarrow> db_grants D' = db_grants D \<and> db_requestNonces D' = db_requestNonces D"
  "sponsorshipFree D' = sponsorshipFree D \<Longrightarrow> db_grants D' = db_grants D \<and> db_requestNonces D' = db_requestNonces D"
  by (cases D; cases D'; simp add: transactionFree_def operationFree_def sessionFree_def sponsorshipFree_def)+

lemma rest_step_accounts: "rest_step V H sha256 D D' \<Longrightarrow> acs_op D D' \<or> db_grants D' = db_grants D \<and> db_requestNonces D' = db_requestNonces D"
proof (induction rule: rest_step.induct)
  case (Transaction D D')
  show ?case using grant_tables(1) [OF conjunct2 [OF txs_op_free [OF Transaction]]] by simp
next
  case (Operation D D')
  show ?case using grant_tables(2) [OF conjunct2 [OF pg_op_free [OF Operation]]] by simp
next
  case (Session D D')
  show ?case using grant_tables(3) [OF pgs_op_free [OF Session]] by simp
next
  case (Sponsorship D D')
  show ?case using grant_tables(4) [OF conjunct2 [OF sps_op_free [OF Sponsorship]]] by simp
qed simp_all

lemma rest_acs_inv: "(rest_step V H sha256)\<^sup>*\<^sup>* D D' \<Longrightarrow> acs_inv D \<Longrightarrow> acs_inv D'"
proof (induction rule: rtranclp_induct)
  case (step D' D'')
  then have "acs_inv D'" by simp
  with rest_step_accounts [OF step(2)] acs_op_inv [of D' D''] show ?case by (auto simp: acs_inv_def)
qed simp

lemma acs_inv_reached: "(rest_step V H sha256)\<^sup>*\<^sup>* emptyDatabase D \<Longrightarrow> acs_inv D"
  by (erule rest_acs_inv) (simp add: acs_inv_def emptyDatabase_def)

lemma rest_revoked: "(rest_step V H sha256)\<^sup>*\<^sup>* D D' \<Longrightarrow> revokedRow g D \<Longrightarrow> revokedRow g D'"
proof (induction rule: rtranclp_induct)
  case (step D' D'')
  then have "revokedRow g D'" by simp
  with rest_step_accounts [OF step(2)] acs_op_revoked [of D' D'' g] show ?case by (auto simp: revokedRow_def grantRow_def)
qed simp

section \<open>Revocation\<close>

definition refused :: "'a res \<times> Database \<Rightarrow> Database \<Rightarrow> bool" where
  "refused out D \<longleftrightarrow> (\<exists>e. out = (Inl e, D))"

lemma unaccepted_refused: "(\<And>x D'. out \<noteq> (Inr x, D')) \<Longrightarrow> (\<And>e D'. out = (Inl e, D') \<Longrightarrow> D' = D) \<Longrightarrow> refused out D"
  by (metis refused_def prod.collapse sum.exhaust_sel)

lemma refusedI: "(\<And>x D'. out = (Inr x, D') \<Longrightarrow> authority = Inr ()) \<Longrightarrow> (\<And>e D'. out = (Inl e, D') \<Longrightarrow> D' = D) \<Longrightarrow> authority \<noteq> Inr () \<Longrightarrow> refused out D"
  by (rule unaccepted_refused) blast+

text \<open>What succeeds was guarded.\<close>

lemma guarded_transactions:
  "create_txs active clock plan claim now D = (Inr x, D') \<Longrightarrow> active 0 (pl_actor plan) [Plan] (now div 1000) = Inr ()"
  "claimSubmission_txs active clock submission D = (Inr y, D') \<Longrightarrow> active 0 (cl_actor submission) [Relay] (cl_now submission div 1000) = Inr ()"
proof -
  show "active 0 (pl_actor plan) [Plan] (now div 1000) = Inr ()" if "create_txs active clock plan claim now D = (Inr x, D')"
  proof -
    from that obtain p f where p: "clonePlan plan = Inr p" "bindR (active 0 (pl_actor p) [Plan] (now div 1000)) f = Inr (x, D')"
      unfolding create_txs_def attempt_eq_Inr transact_Inr by blast
    then show ?thesis by (auto simp: bindR_eq_Inr res_simps)
  qed
  show "active 0 (cl_actor submission) [Relay] (cl_now submission div 1000) = Inr ()" if "claimSubmission_txs active clock submission D = (Inr y, D')"
    using that by (cases y) (auto elim: claimSubmission_txs_Inr)
qed

lemma guarded_operations:
  "create_pg V H guard clock checks record now D = (Inr x, D') \<Longrightarrow> guard (ur_actor record) [Plan] (now div 1000) = Inr ()"
  "claim_pg V H active clock checks' operation D = (Inr y, D') \<Longrightarrow> active 0 (uc_actor operation) [Relay] (uc_now operation div 1000) = Inr ()"
proof -
  show "guard (ur_actor record) [Plan] (now div 1000) = Inr ()" if c: "create_pg V H guard clock checks record now D = (Inr x, D')"
  proof (cases "List.find (\<lambda>row. ow_accountId row = accountId (ur_actor record) \<and> ow_principalId row = principalId (ur_actor record) \<and>
           ow_preparationKey row = ur_preparationKey record) (db_operations D)")
    case None
    then show ?thesis using c by (auto simp: create_pg_def attempt_eq_Inr transact_Inr clone_uo_Inr bindR_eq_Inr)
  next
    case (Some row)
    then show ?thesis using c by (auto simp: create_pg_def attempt_eq_Inr transact_Inr clone_uo_Inr bindR_eq_Inr)
  qed
  show "active 0 (uc_actor operation) [Relay] (uc_now operation div 1000) = Inr ()" if c: "claim_pg V H active clock checks' operation D = (Inr y, D')"
  proof -
    from c obtain p f where p: "clone_uo json_of_UserOperationClaim operation = Inr p" "bindR (active 0 (uc_actor p) [Relay] (uc_now p div 1000)) f = Inr (y, D')"
      unfolding claim_pg_def attempt_eq_Inr transact_Inr by blast
    then show ?thesis by (auto simp: bindR_eq_Inr clone_uo_Inr)
  qed
qed

lemma guarded_sessions:
  "createSession_pg H active clock session idempotency now D = (Inr x, D') \<Longrightarrow> active 0 (se_actor session) [Plan] (now div 1000) = Inr ()"
  "claimSession_pg H active clock claim kind D = (Inr y, D') \<Longrightarrow> active 0 (sk_actor claim) [Plan] (sk_now claim div 1000) = Inr ()"
proof -
  show "active 0 (se_actor session) [Plan] (now div 1000) = Inr ()" if c: "createSession_pg H active clock session idempotency now D = (Inr x, D')"
  proof -
    from c obtain p f where p: "cloneStored H session = Inr p" "bindR (active 0 (se_actor p) [Plan] (now div 1000)) f = Inr (x, D')"
      unfolding createSession_pg_def attempt_eq_Inr transactSession_Inr by blast
    then show ?thesis by (auto simp: bindR_eq_Inr res_simps)
  qed
  show "active 0 (sk_actor claim) [Plan] (sk_now claim div 1000) = Inr ()" if c: "claimSession_pg H active clock claim kind D = (Inr y, D')"
  proof -
    from c obtain p f where p: "cloneSession H json_of_SessionClaim claim = Inr p" "bindR (active 0 (sk_actor p) [Plan] (sk_now p div 1000)) f = Inr (y, D')"
      unfolding claimSession_pg_def attempt_eq_Inr Let_def transactSession_Inr by blast
    then show ?thesis by (auto simp: bindR_eq_Inr cloneSession_Inr)
  qed
qed

lemma guarded_sponsorships:
  "create_sps guard clock record now D = (Inr x, D') \<Longrightarrow> guard (sr_actor record) [Plan] (now div 1000) = Inr ()"
  "claim_sps active clock claim D = (Inr y, D') \<Longrightarrow> active 0 (sc_actor claim) [Relay] (sc_now claim div 1000) = Inr ()"
proof -
  show "guard (sr_actor record) [Plan] (now div 1000) = Inr ()" if c: "create_sps guard clock record now D = (Inr x, D')"
  proof -
    from c obtain p f where p: "cloneRecord_sp record = Inr p" "bindR (guard (sr_actor p) [Plan] (now div 1000)) f = Inr (x, D')"
      unfolding create_sps_def attempt_eq_Inr transact_Inr by blast
    then show ?thesis by (auto simp: bindR_eq_Inr clone_sp_Inr)
  qed
  show "active 0 (sc_actor claim) [Relay] (sc_now claim div 1000) = Inr ()" if c: "claim_sps active clock claim D = (Inr y, D')"
  proof -
    from c obtain p f where p: "clone_sp json_of_SponsorshipClaim claim = Inr p" "bindR (active 0 (sc_actor p) [Relay] (sc_now p div 1000)) f = Inr (y, D')"
      unfolding claim_sps_def attempt_eq_Inr transact_Inr by blast
    then show ?thesis by (auto simp: bindR_eq_Inr clone_sp_Inr)
  qed
qed

text \<open>
  C4. A revoked bot is stopped everywhere. Once the transaction of \<^verbatim>\<open>revokeBot\<close> has committed, then after every later transaction of any store a request that names the
  grant is refused, and so is every plan, submission, session, user operation and sponsored preparation in the name of the bot, since each store asks
  \<^verbatim>\<open>assertRestActorActive\<close> inside its own transaction; nothing is written, whatever the clock says.
\<close>

theorem postgres_revoked_bot_stopped:
  assumes "(rest_step V H sha256)\<^sup>*\<^sup>* emptyDatabase D" and "revokeBot_acs clock i g now D = (Inr b, D1)"
    and "(rest_step V H sha256)\<^sup>*\<^sup>* D1 D2"
    and "principalId actor = botPrincipal g" and "active = (\<lambda>n. assertRestActorActive (nows n) D2)"
  shows "(vr_grantId request = Some g \<longrightarrow> refused (authorizeAndConsume_acs limits clock' request D2) D2) \<and>
     (pl_actor plan = actor \<longrightarrow> refused (create_txs active clock' plan idempotency t D2) D2) \<and>
     (cl_actor submission = actor \<longrightarrow> refused (claimSubmission_txs active clock' submission D2) D2) \<and>
     (se_actor session = actor \<longrightarrow> refused (createSession_pg H active clock' session sessionKey t D2) D2) \<and>
     (sk_actor lifecycle = actor \<longrightarrow> refused (claimSession_pg H active clock' lifecycle kind D2) D2) \<and>
     (ur_actor operation = actor \<longrightarrow> refused (create_pg V H (active 0) clock' (checks 0) operation t D2) D2) \<and>
     (uc_actor operationClaim = actor \<longrightarrow> refused (claim_pg V H active clock' checks operationClaim D2) D2) \<and>
     (sr_actor sponsorship = actor \<longrightarrow> refused (create_sps (active 0) clock' sponsorship t D2) D2) \<and>
     (sc_actor sponsorshipClaim = actor \<longrightarrow> refused (claim_sps active clock' sponsorshipClaim D2) D2)"
proof -
  have "revokedRow g D1" using revokeBot_acs_revoked [OF assms(2)] acs_inv_reached [OF assms(1)] by (simp add: acs_inv_def)
  with assms(3) have r: "revokedRow g D2" by (rule rest_revoked)
  have no: "active n a scopes s \<noteq> Inr ()" if "a = actor" for n a scopes s using revoked_refuses [OF r] assms(4,5) that by simp
  show ?thesis
  proof (intro conjI impI)
    show "refused (authorizeAndConsume_acs limits clock' request D2) D2" if "vr_grantId request = Some g" using revoked_unauthorized [OF r that] by (simp add: refused_def)
    show "refused (create_txs active clock' plan idempotency t D2) D2" if a: "pl_actor plan = actor" by (rule refusedI [OF _ _ no [OF a]]) (erule guarded_transactions(1) txs_failed(1))+
    show "refused (claimSubmission_txs active clock' submission D2) D2" if a: "cl_actor submission = actor" by (rule refusedI [OF _ _ no [OF a]]) (erule guarded_transactions(2) txs_failed(2))+
    show "refused (createSession_pg H active clock' session sessionKey t D2) D2" if a: "se_actor session = actor" by (rule refusedI [OF _ _ no [OF a]]) (erule guarded_sessions(1) session_failed(1))+
    show "refused (claimSession_pg H active clock' lifecycle kind D2) D2" if a: "sk_actor lifecycle = actor" by (rule refusedI [OF _ _ no [OF a]]) (erule guarded_sessions(2) session_failed(2))+
    show "refused (create_pg V H (active 0) clock' (checks 0) operation t D2) D2" if a: "ur_actor operation = actor" by (rule refusedI [OF _ _ no [OF a]]) (erule guarded_operations(1) pg_failed(1))+
    show "refused (claim_pg V H active clock' checks operationClaim D2) D2" if a: "uc_actor operationClaim = actor" by (rule refusedI [OF _ _ no [OF a]]) (erule guarded_operations(2) pg_failed(2))+
    show "refused (create_sps (active 0) clock' sponsorship t D2) D2" if a: "sr_actor sponsorship = actor" by (rule refusedI [OF _ _ no [OF a]]) (erule guarded_sponsorships(1) sps_failed(1))+
    show "refused (claim_sps active clock' sponsorshipClaim D2) D2" if a: "sc_actor sponsorshipClaim = actor" by (rule refusedI [OF _ _ no [OF a]]) (erule guarded_sponsorships(2) sps_failed(2))+
  qed
qed

section \<open>Replay\<close>

text \<open>Transactions of all stores; the database clock has not passed a bound when they touch the request nonces.\<close>

inductive request_step :: "viem \<Rightarrow> host \<Rightarrow> (string \<Rightarrow> string) \<Rightarrow> int \<Rightarrow> Database \<Rightarrow> Database \<Rightarrow> bool" for V H sha256 bound where
  Enroll: "enroll_acs limits clock account request D = (p, D') \<Longrightarrow> clock 1 \<le> bound \<Longrightarrow> request_step V H sha256 bound D D'"
| Authorize: "authorizeAndConsume_acs limits clock request D = (p, D') \<Longrightarrow> clock 0 \<le> bound \<Longrightarrow> request_step V H sha256 bound D D'"
| Cleanup: "cleanupExpiredNonces_acs textLe clock now limit D = (n, D') \<Longrightarrow> clock 0 \<le> bound \<Longrightarrow> request_step V H sha256 bound D D'"
| Elsewhere: "rest_step V H sha256 D D' \<Longrightarrow> db_requestNonces D' = db_requestNonces D \<Longrightarrow> request_step V H sha256 bound D D'"

lemma request_rest_step: "request_step V H sha256 bound D D' \<Longrightarrow> rest_step V H sha256 D D'"
  by (induction rule: request_step.induct) (auto intro: rest_step.Account acs_op.intros)

lemma request_rest_run: "(request_step V H sha256 bound)\<^sup>*\<^sup>* D D' \<Longrightarrow> (rest_step V H sha256)\<^sup>*\<^sup>* D D'"
  by (induction rule: rtranclp_induct) (auto dest: request_rest_step)

lemma request_step_row:
  assumes "request_step V H sha256 bound D D'" and inv: "acs_inv D" and row: "requestNonceRow i n D = Some row" and live: "bound < qn_expiresAt row"
  shows "requestNonceRow i n D' = Some row"
proof -
  have same: "requestNonceRow i n E' = Some row" if "db_requestNonces E' = db_requestNonces D" for E'
    using row that by (simp add: requestNonceRow_def)
  from assms(1) show ?thesis
  proof cases
    case (Enroll limits clock account request p)
    show ?thesis
    proof (cases p)
      case (Inr q)
      then have "enroll_acs limits clock account request D = (Inr q, D')" using Enroll by simp
      then show ?thesis
      proof (rule enroll_acs_Inr)
        fix v D1 assume v: "enrollAccountInTransaction (clock 0) account limits D = Inr (v, D1)" and c: "consumeNonce_acs limits (request\<lparr>vr_now := clock 1\<rparr>) D1 = Inr D'"
        have "db_requestNonces D1 = db_requestNonces D" using enrollAccount_frame [OF v] by auto
        then show ?thesis using consumeNonce_acs_row(2) [OF c same] live Enroll(2) by simp
      qed
    next
      case (Inl e)
      then have "D' = D" using Enroll(1) acs_failed(1) by blast
      then show ?thesis using row by simp
    qed
  next
    case (Authorize limits clock request p)
    show ?thesis
    proof (cases p)
      case (Inr q)
      then have "authorizeAndConsume_acs limits clock request D = (Inr q, D')" using Authorize by simp
      then show ?thesis
      proof (rule authorize_acs_Inr)
        assume c: "consumeNonce_acs limits (request\<lparr>vr_now := clock 0\<rparr>) D = Inr D'"
        show ?thesis using consumeNonce_acs_row(2) [OF c row] live Authorize(2) by simp
      qed
    next
      case (Inl e)
      then have "D' = D" using Authorize(1) acs_failed(2) by blast
      then show ?thesis using row by simp
    qed
  next
    case (Cleanup textLe clock now limit n)
    then show ?thesis using cleanup_acs_row [OF Cleanup(1) _ row] inv live by (simp add: acs_inv_def)
  next
    case Elsewhere
    then show ?thesis by (intro same)
  qed
qed

lemma request_run_row:
  assumes "(request_step V H sha256 bound)\<^sup>*\<^sup>* D D'" and "acs_inv D" and "requestNonceRow i n D = Some row" and "bound < qn_expiresAt row"
  shows "requestNonceRow i n D' = Some row"
  using assms(1)
proof (induction rule: rtranclp_induct)
  case (step E E')
  have "acs_inv E" using rest_acs_inv [OF request_rest_run [OF step(1)] assms(2)] .
  then show ?case using request_step_row [OF step(2)] step(3) assms(4) by blast
qed (rule assms(3))

text \<open>
  C14. A signed request counts once in the database. After \<^verbatim>\<open>authorizeAndConsume\<close> or \<^verbatim>\<open>enroll\<close> accepted a request, and after whatever transactions of all stores whose
  database clock is not ahead of the second attempt, a request of the same account with the same nonce and no later expiry is refused by both, on whatever replica it
  arrives and whatever the clock of its caller says, and writes nothing.
\<close>

theorem postgres_replay_refused:
  assumes "(rest_step V H sha256)\<^sup>*\<^sup>* emptyDatabase D"
    and "authorizeAndConsume_acs limits clock request D = (Inr p, D1) \<or> enroll_acs limits clock account request D = (Inr p, D1)"
    and "(request_step V H sha256 bound)\<^sup>*\<^sup>* D1 D2" and "bound \<le> clock' 0" and "bound \<le> clock' 1"
    and "vr_accountId again = vr_accountId request" and "same (vr_nonce again) (vr_nonce request)" and "vr_expiresAt again \<le> vr_expiresAt request"
  shows "refused (authorizeAndConsume_acs limits' clock' again D2) D2 \<and> refused (enroll_acs limits' clock' account' again D2) D2"
proof -
  let ?i = "vr_accountId again" and ?n = "toLowerCase (vr_nonce again)"
  have inv: "acs_inv D" using assms(1) by (rule acs_inv_reached)
  have "acs_op D D1" using assms(2) by (auto intro: acs_op.intros)
  then have inv1: "acs_inv D1" using acs_op_inv inv by blast
  have n: "?n = toLowerCase (vr_nonce request)" using assms(7) by (simp add: same_def)
  have "\<exists>t E. consumeNonce_acs limits (request\<lparr>vr_now := t\<rparr>) E = Inr D1" using assms(2) by (auto elim!: authorize_acs_Inr enroll_acs_Inr)
  then obtain row where row: "requestNonceRow ?i ?n D1 = Some row" "qn_expiresAt row = vr_expiresAt request"
    using consumeNonce_acs_row(1) n assms(6) by fastforce
  have no: "consumeNonce_acs limits' (again\<lparr>vr_now := t\<rparr>) E \<noteq> Inr E'"
    if t: "bound \<le> t" "assertRequest (again\<lparr>vr_now := t\<rparr>) = Inr ()" and E: "db_requestNonces E = db_requestNonces D2" for t E E'
  proof -
    have live: "t < qn_expiresAt row" using assertRequest_live [OF t(2)] assms(8) row(2) by simp
    then have "requestNonceRow ?i ?n D2 = Some row" using request_run_row [OF assms(3) inv1 row(1)] t(1) by simp
    then have "requestNonceRow ?i ?n E = Some row" using E by (simp add: requestNonceRow_def)
    then show ?thesis using live_row_refuses [of "again\<lparr>vr_now := t\<rparr>" E row] live by simp
  qed
  have authorized: "authorizeAndConsume_acs limits' clock' again D2 \<noteq> (Inr q, E')" for q E'
    using no [OF assms(4)] by (auto elim!: authorize_acs_Inr)
  have enrolled: "enroll_acs limits' clock' account' again D2 \<noteq> (Inr q, E')" for q E'
  proof
    assume "enroll_acs limits' clock' account' again D2 = (Inr q, E')"
    then show False
    proof (rule enroll_acs_Inr)
      fix v E assume v: "enrollAccountInTransaction (clock' 0) account' limits' D2 = Inr (v, E)" and a: "assertRequest (again\<lparr>vr_now := clock' 1\<rparr>) = Inr ()"
        and c: "consumeNonce_acs limits' (again\<lparr>vr_now := clock' 1\<rparr>) E = Inr E'"
      have "db_requestNonces E = db_requestNonces D2" using enrollAccount_frame [OF v] by auto
      then show False using no [OF assms(5) a] c by blast
    qed
  qed
  show ?thesis
  proof
    show "refused (authorizeAndConsume_acs limits' clock' again D2) D2" by (rule unaccepted_refused [OF authorized]) (erule acs_failed)
    show "refused (enroll_acs limits' clock' account' again D2) D2" by (rule unaccepted_refused [OF enrolled]) (erule acs_failed)
  qed
qed

section \<open>A bot in the database\<close>

lemma sample_bot_run: "(rest_step V H sha256)\<^sup>*\<^sup>* emptyDatabase sampleBots" "(rest_step V H sha256)\<^sup>*\<^sup>* emptyDatabase sampleBotUsed"
proof -
  note s = sample_acs [THEN rest_step.Account, where V = V and H = H]
  show 1: "(rest_step V H sha256)\<^sup>*\<^sup>* emptyDatabase sampleBots" using s(1,2) by (meson converse_rtranclp_into_rtranclp r_into_rtranclp)
  show "(rest_step V H sha256)\<^sup>*\<^sup>* emptyDatabase sampleBotUsed" using 1 s(3) by (rule rtranclp.rtrancl_into_rtrancl)
qed

theorem postgres_revoked_bot_stopped_witness:
  "refused (create_txs (\<lambda>n. assertRestActorActive 300 sampleBotRevoked) (\<lambda>_. 300000) ((samplePlan ''p1'')\<lparr>pl_actor := \<lparr>accountId = ''acct'', principalId = ''bot:g1''\<rparr>\<rparr>)
     (sampleIdem ''k1'') 300000 sampleBotRevoked) sampleBotRevoked"
proof -
  let ?bot = "\<lparr>accountId = ''acct'', principalId = ''bot:g1''\<rparr>"
  have "principalId ?bot = botPrincipal ''g1''" by (simp add: botPrincipal_def)
  from postgres_revoked_bot_stopped [OF sample_bot_run(2) [of sampleViem sampleHost noHash] sample_revoke_acs rtranclp.rtrancl_refl this refl,
      where plan = "(samplePlan ''p1'')\<lparr>pl_actor := ?bot\<rparr>" and nows = "\<lambda>_. 300"]
  show ?thesis by simp
qed

theorem postgres_replay_refused_witness:
  "refused (authorizeAndConsume_acs sampleLimits (\<lambda>_. 260) (sampleRequest CHR ''a'' None CHR ''1'') sampleBotUsed) sampleBotUsed"
proof -
  let ?r = "sampleRequest CHR ''a'' None CHR ''1''" and ?step = "request_step sampleViem sampleHost noHash 250"
  obtain p where "enroll_acs sampleLimits sampleClock sampleAccount ?r emptyDatabase = (Inr p, sampleAccounts)" using sample_enroll_acs by blast
  then have p: "authorizeAndConsume_acs sampleLimits sampleClock ?r emptyDatabase = (Inr p, sampleAccounts) \<or>
      enroll_acs sampleLimits sampleClock sampleAccount ?r emptyDatabase = (Inr p, sampleAccounts)" ..
  have 1: "?step sampleAccounts sampleBots"
    by (rule request_step.Elsewhere [OF rest_step.Account [OF sample_acs(2)] others_nonces(2) [OF sample_register_acs]])
  have 2: "?step sampleBots sampleBotUsed" using sample_authorize_acs by (auto intro: request_step.Authorize)
  have "?step\<^sup>*\<^sup>* sampleAccounts sampleBotUsed" using 1 2 by (meson converse_rtranclp_into_rtranclp r_into_rtranclp)
  from postgres_replay_refused [OF rtranclp.rtrancl_refl p this, of "\<lambda>_. 260" ?r] show ?thesis by simp
qed

end
