(* ===== verification/Spec2Isabelle.thy ===== *)
theory Spec2Isabelle
  imports Stores EconomicsProperties PgAuthority
begin

text \<open>
  A verification of the stores that decide what the Juicebox center executes, and of the economic model its
  MCP server computes with.

  \<^bold>\<open>The program.\<close> The REST service (\<^verbatim>\<open>src/src/rest\<close>) lets an account's owner, or a bot the owner granted scopes,
  prepare a plan of contract calls and have each step executed exactly once, over one of three transports: a
  transaction signed by the owner, a sponsored bundle of forward requests, or an ERC-4337 user operation of a
  smart account, possibly through a session with a spending policy. Services drive the work; stores decide it.
  Each store checks the acting principal against the account store, keeps its records under revisions, and
  claims plan steps in one shared reservation table, so that no step is executed twice. The MCP server
  (\<^verbatim>\<open>src/mcp/src\<close>) models rulesets: issuance, decay, cash-outs and revnet stages.

  \<^bold>\<open>The theories,\<close> in the order of the code:
  \<^item> \<open>Prelude\<close>, \<open>Core\<close>, \<open>Json\<close>, \<open>Canonical\<close>: fallible steps and chains of them, insertion-ordered maps, safe integers, decimal
    and hexadecimal text, the records of \<^verbatim>\<open>core.ts\<close>, \<^verbatim>\<open>JSON.stringify\<close> with length bounds, canonical text and digests
    (\<^verbatim>\<open>sponsorship/validation.ts\<close>).
  \<^item> \<open>TransactionTypes\<close>, \<open>TransactionStore\<close>, \<open>PlanTransitions\<close>, \<open>Transports\<close>, \<open>TransactionMemory\<close>: \<^verbatim>\<open>transactions/types.ts\<close>, \<^verbatim>\<open>store.ts\<close>,
    \<^verbatim>\<open>transport-reservations.ts\<close>, \<^verbatim>\<open>memory.ts\<close>. \<open>PlanHistory\<close>, \<open>TransactionInvariants\<close>, \<open>TransactionRuns\<close>, \<open>Cursor\<close>, \<open>TransactionProperties\<close> prove what
    runs of the store keep: single dispatch, unique nonces, leases, receipts, idempotency, pages and recovery.
  \<^item> \<open>AuthStore\<close>, \<open>AuthMemory\<close>, \<open>NonceHeap\<close>, \<open>AuthInvariants\<close>, \<open>AuthProperties\<close>: \<^verbatim>\<open>auth/store.ts\<close> and \<^verbatim>\<open>memory.ts\<close> with the expiry heap of
    request nonces, shown to implement an abstract register of spent nonces; replay, revocation, entitlement, limits.
  \<^item> \<open>SponsorshipStore\<close>, \<open>SponsorshipMemory\<close>, \<open>SponsorshipInvariants\<close>, \<open>SponsorshipProperties\<close>: \<^verbatim>\<open>sponsorship/store.ts\<close>, \<^verbatim>\<open>nonces.ts\<close>, \<^verbatim>\<open>memory.ts\<close>.
  \<^item> \<open>UserOperationCodec\<close>, \<open>UserOperationStore\<close>, \<open>UserOperationMemory\<close>, \<open>UserOperationInvariants\<close>, \<open>UserOperationCodecProperties\<close>,
    \<open>UserOperationProperties\<close>: \<^verbatim>\<open>userOperations/codec.ts\<close>, \<^verbatim>\<open>store.ts\<close>, \<^verbatim>\<open>memory.ts\<close>.
  \<^item> \<open>SessionTypes\<close>, \<open>SessionRules\<close>, \<open>SessionMemory\<close>, \<open>SessionInvariants\<close>, \<open>SessionSamples\<close>, \<open>SessionProperties\<close>: \<^verbatim>\<open>sessions/types.ts\<close>, \<^verbatim>\<open>store.ts\<close>,
    \<^verbatim>\<open>memory.ts\<close>, with \<^verbatim>\<open>stable\<close> and \<^verbatim>\<open>fingerprint\<close> of \<^verbatim>\<open>smartAccounts/service.ts\<close>; budgets
    are not refreshed by an observation that leaves a session active, and an invalidated session is active again only after it was seen retired or expired.
  \<^item> \<open>PgTransports\<close>, \<open>PgTables\<close>, \<open>PgAccounts\<close>, \<open>PgTransactions\<close>, \<open>PgSessions\<close>, \<open>PgUserOperations\<close>, \<open>PgSponsorships\<close>: the PostgreSQL
    functions of \<^verbatim>\<open>auth/postgres.ts\<close>, \<^verbatim>\<open>transport-reservations.ts\<close>, \<^verbatim>\<open>transactions/postgres.ts\<close>, \<^verbatim>\<open>sessions/postgres.ts\<close>, \<^verbatim>\<open>userOperations/postgres.ts\<close> and \<^verbatim>\<open>sponsorship/postgres.ts\<close> over shared tables.
    \<open>PgTransactionRefinement\<close>, \<open>PgRefinement\<close>, \<open>PgSessionProperties\<close>, \<open>PgSponsorshipProperties\<close>, \<open>PgStores\<close>, \<open>PgAccountProperties\<close>, \<open>PgAuthority\<close>: the transaction store is shown to refine the specification of a plan store
    that the in-memory one refines too (\<open>plans_step\<close> of \<open>TransactionRuns\<close>), the user operation and
    sponsorship stores to refine the in-memory ones and to dispatch once, under current authority only; the session
    store to move documents along the same rules and to hold every admitted wallet by a reservation row; together, a revoked
    session stops its operations, signed transactions never share a nonce, leases of the database clock exclude each other, and a step of a plan has one transport whatever the transactions of all stores do;
    a request nonce blocks its replay until it expires, and a bot whose revocation has committed is refused by every store.
  \<^item> \<open>Rulesets\<close>, \<open>Economics\<close>, \<open>EconomicsProperties\<close>: \<^verbatim>\<open>domain/rulesets.ts\<close>, \<^verbatim>\<open>domain/economics.ts\<close> and the revnet schema of \<^verbatim>\<open>domain/products.ts\<close>:
    the cash-out curves and their fees, decay as iterated cuts, the queueing of stages, the terms and results of a model, the normal form of a ruleset read back.
  \<^item> \<open>Revisioned\<close> is the contract of records that change under revisions (a locale interpreted on plans, sponsorships, user operations
    and sessions), of stores over their runs, and of an implementation that a store simulates (interpreted on the tables); \<open>Transports\<close> states the contract of the reservation table as a locale, interpreted on the class and on the table.
  \<^item> \<open>Stores\<close> puts the stores together over one reservation table and one account store, and this theory proves
    what holds across them.

  \<^bold>\<open>How the code is modelled.\<close> A class with private maps is a record of association lists in insertion order; an operation is a
  function from its arguments and the state to a result and a state, where the result is a thrown error or a value and
  the state is the one at the throw. Asynchronous operations of the in-memory classes run under the account lock without
  interruption and are one step each; the reads of a clock within an operation are a function of their number, so each may
  differ. Step relations collect the operations of a store, and invariants are proved by rule induction over runs of
  any length; guards that read other stores may answer differently at every step. Numbers of JavaScript that the
  code checks with \<^verbatim>\<open>Number.isSafeInteger\<close> are integers with that check; \<^verbatim>\<open>BigInt\<close> values are integers with the bounds the code
  states. Strings are byte lists; orders and lengths by UTF-16 units agree with them on the ASCII identifiers of the records.
  The size bounds of copies are bounds on the real text of a record: serialisation is modelled, so a record that is
  too large is refused in the model as in the code.
  A PostgreSQL table is a list of rows with the columns the code reads, a query a search of it, a transaction a function on the
  tables that is undone when it throws; unique constraints are checked, and of the others those that refuse what the rules admit, except the bounds on the stored length of \<^verbatim>\<open>jsonb\<close> documents. Transactions on the same rows run one after the other, which the row locks give;
  between two transactions the table of wallet bindings may change in any way.

  \<^bold>\<open>Loops.\<close> Every loop of the modelled code is structural or has a measure: the nonce cleanup loop recurses on its limit, the decay
  loop on its count of at most 10000 cycles, the heap on its index. No fuel is used, and every operation is a total function.

  \<^bold>\<open>Parameters.\<close> \<^verbatim>\<open>viem\<close> (address validity, hex and ABI encoding, keccak256) is a record of functions with documented laws as a named
  hypothesis where a property needs them, SHA-256 a function, \<^verbatim>\<open>localeCompare\<close> an order; the guards that one store asks
  of another are functions, and \<open>Stores\<close> and \<open>PgAuthority\<close> put the modelled account stores in their place.

  \<^bold>\<open>Not modelled.\<close> The PostgreSQL registry of wallet bindings (in the runs of the database its table changes in any way), the wallet applications of \<^verbatim>\<open>auth/postgres.ts\<close> with their grants and refresh queue, \<^verbatim>\<open>recentPayTargets\<close> of the PostgreSQL transaction store, whose
  order of equal times SQL leaves open, and the schema migrations; the services that call chains, relayers and
  bundlers; signature recovery and WebAuthn; HTTP routing, pages, gateways and the MCP tools that encode calldata: they are
  input and output around the modelled decisions, or code of libraries that is not part of the repository. \<^verbatim>\<open>finalizeOnboarding\<close> of the
  account store and the wallet-application branch of \<^verbatim>\<open>principalFor\<close>, which only the PostgreSQL store reaches, are left out.
\<close>

section \<open>Properties that span the stores\<close>

text \<open>
  C1. One step, one transport, for ever, across all stores. When a step of a plan is held by a signed
  transaction, a sponsored bundle or a user operation, it is held by the same one in every later state,
  by no other store and no other submission, and the shared reservations say so.
\<close>

theorem one_transport_per_step:
  assumes "(sys_step V sha256 clock)\<^sup>*\<^sup>* (startStores limits) S" and "(sys_step V sha256 clock)\<^sup>*\<^sup>* S S'" and "holds S i k x"
  shows "holds S' i k x \<and> (\<forall>y. holds S' i k y \<longrightarrow> y = x) \<and> boundTo (tx_transports (sy_transactions S')) i (int k) = Some x"
proof -
  have r: "(sys_step V sha256 clock)\<^sup>*\<^sup>* (startStores limits) S'" using assms(1,2) by (rule rtranclp_trans)
  have h: "holds S' i k x" using holds_forever [OF assms] .
  have "y = x" if "holds S' i k y" for y using holds_bound [OF r h] holds_bound [OF r that] by simp
  then show ?thesis using h holds_bound [OF r h] by blast
qed

theorem one_transport_per_step_witness:
  "\<not> holds (sampleStores sampleA3 sampleUo2) ''p1'' 0 (Direct, hex64 CHR ''d'')"
  using one_transport_per_step [OF sample_system_run [of "\<lambda>t. t"] sample_holds] by blast

text \<open>
  C3. A revoked bot is stopped everywhere. After \<^verbatim>\<open>revokeBot\<close> succeeded, whatever any store does since,
  every guarded operation of the transaction, sponsorship and user operation stores that acts for the
  bot is refused and changes nothing.
\<close>

theorem revoked_bot_stopped:
  assumes "accountStoreLimits accounts nonces grants = Inr limits" and "(sys_step V sha256 clock)\<^sup>*\<^sup>* (startStores limits) S"
    and "revokeBot i g now (sy_accounts S) = (Inr b, a)" and "(sys_step V sha256 clock)\<^sup>*\<^sup>* (S\<lparr>sy_accounts := a\<rparr>) S'"
    and "principalId actor = botPrincipal g" and "authority = activeActor waited (sy_accounts S')"
  shows "(pl_actor plan = actor \<longrightarrow> (\<exists>e. create authority plan idem t (sy_transactions S') = (Inl e, sy_transactions S'))) \<and>
    (cl_actor submission = actor \<longrightarrow> (\<exists>e. claimSubmission authority w submission (sy_transactions S') = (Inl e, sy_transactions S'))) \<and>
    (sr_actor preparation = actor \<longrightarrow> (\<exists>e. create_sp authority w preparation t (sy_sponsorships S') = (Inl e, sy_sponsorships S'))) \<and>
    (sc_actor publication = actor \<longrightarrow> (\<exists>e. claim_sp authority w publication (sy_sponsorships S') = (Inl e, sy_sponsorships S'))) \<and>
    (ur_actor operation = actor \<longrightarrow> (\<exists>e. create_uo V authority binding ticks operation t (sy_operations S') = (Inl e, sy_operations S'))) \<and>
    (uc_actor claim = actor \<longrightarrow> (\<exists>e. claim_uo V authority binding ticks claim (sy_operations S') = (Inl e, sy_operations S')))"
proof -
  note r = sys_reach [OF assms(2)]
  have inv: "auth_inv (sy_accounts S)" using auth_run_inv [OF r(2) auth_inv_new [OF assms(1)]] .
  have "shared (S\<lparr>sy_accounts := a\<rparr>)" using r(1) by (simp add: shared_def)
  from sys_run_seen [OF assms(4) this] have "(auth_step clock)\<^sup>*\<^sup>* a (sy_accounts S')" by (simp add: seenBy_def)
  from revoked_forever [OF inv assms(3) this] obtain c where "js_get (as_bots (sy_accounts S')) g = Some c" "bg_revokedAt c \<noteq> None" .
  then have no: "refuses authority actor" using revoked_actor assms(5) unfolding refuses_def assms(6) by blast
  show ?thesis by (intro conjI impI) (rule refused_tx [OF no] refused_sp [OF no] refused_uo [OF no]; assumption)+
qed

theorem revoked_bot_stopped_witness:
  "\<exists>e. claim_uo sampleViem (activeActor 0 sampleA4) admitBinding (\<lambda>_. 2000) (sampleUoClaim\<lparr>uc_actor := \<lparr>accountId = ''acct'', principalId = ''bot:g1''\<rparr>\<rparr>)
     sampleUo2 = (Inl e, sampleUo2)"
proof -
  have run: "(sys_step sampleViem (\<lambda>t. t) 250)\<^sup>*\<^sup>* (startStores sampleLimits) (sampleStores sampleA3 sampleUo2)"
    using sample_system_run by (rule rtranclp_trans)
  have f: "sy_accounts (sampleStores a u) = a" "sy_operations (sampleStores a u) = u" for a u by (simp_all add: sampleStores_def share_def)
  have rv: "revokeBot ''acct'' ''g1'' 250 (sy_accounts (sampleStores sampleA3 sampleUo2)) = (Inr sampleRevoked, sampleA4)"
    using sample_revoke by (simp add: f)
  have s: "(sampleStores sampleA3 sampleUo2)\<lparr>sy_accounts := sampleA4\<rparr> = sampleStores sampleA4 sampleUo2" by (simp add: sampleStores_def share_def)
  show ?thesis
    using revoked_bot_stopped [OF sample_limits run rv rtranclp.rtrancl_refl, unfolded s f,
        where actor = "\<lparr>accountId = ''acct'', principalId = ''bot:g1''\<rparr>" and waited = 0 and binding = admitBinding and ticks = "\<lambda>_. 2000"
          and claim = "sampleUoClaim\<lparr>uc_actor := \<lparr>accountId = ''acct'', principalId = ''bot:g1''\<rparr>\<rparr>"]
    by (simp add: botPrincipal_def)
qed

end
